(* ===== verification/Prelude.thy ===== *)
theory Prelude
  imports Main "HOL-Library.Word"
begin

text \<open>
  Shared vocabulary of the development: the widths of the C integer types, the error
  numbers of \<^verbatim>\<open>include/bathos/errno.h\<close>, the collections of simplification rules the
  component theories feed, and the facts on bit masks, lists and block copies that more
  than one component needs.
\<close>

unbundle bit_operations_syntax

section \<open>Types and constants\<close>

type_synonym u8 = "8 word"
type_synonym u16 = "16 word"
type_synonym u32 = "32 word"

named_theorems errno_simps "the numeric values of the error codes"
named_theorems ring_simps "index arithmetic of power-of-two rings"
named_theorems bitmap_simps "reading back what the bit operations wrote"

text \<open>The error numbers used by the modelled code (\<^verbatim>\<open>include/bathos/errno.h\<close>).\<close>

definition EPERM :: int where [errno_simps]: "EPERM = 1"
definition ENXIO :: int where [errno_simps]: "ENXIO = 6"
definition EBADF :: int where [errno_simps]: "EBADF = 9"
definition EAGAIN :: int where [errno_simps]: "EAGAIN = 11"
definition ENOMEM :: int where [errno_simps]: "ENOMEM = 12"
definition EACCES :: int where [errno_simps]: "EACCES = 13"
definition ENODEV :: int where [errno_simps]: "ENODEV = 19"
definition EINVAL :: int where [errno_simps]: "EINVAL = 22"
definition ENFILE :: int where [errno_simps]: "ENFILE = 23"
definition ENOSYS :: int where [errno_simps]: "ENOSYS = 38"
definition ETIMEDOUT :: int where [errno_simps]: "ETIMEDOUT = 110"

section \<open>Masks\<close>

text \<open>Masking with \<open>2 ^ k - 1\<close> is the remainder modulo \<open>2 ^ k\<close>, also for negative operands.\<close>

lemma int_and_mask_mod: "(x::int) AND (2 ^ k - 1) = x mod 2 ^ k"
  by (simp flip: take_bit_eq_mask mask_eq_exp_minus_1 add: take_bit_eq_mod)

lemma mod_self_diff_swap:
  fixes a b n :: int
  assumes "0 < n" "(a - b) mod n \<noteq> 0"
  shows "(b - a) mod n = n - (a - b) mod n"
  using zmod_zminus1_eq_if [of "a - b" n] assms by simp

section \<open>Lists\<close>

lemma map_nth_take_drop:
  "t + l \<le> length xs \<Longrightarrow> map (\<lambda>i. xs ! (t + i)) [0..<l] = take l (drop t xs)"
  by (rule nth_equalityI) auto

text \<open>
  \<open>copy_at xs k ys\<close> is the effect of \<^verbatim>\<open>memcpy(&xs[k], ys, n)\<close> on the array \<open>xs\<close>, with
  \<open>n\<close> the length of \<open>ys\<close>, for a copy that stays inside the array.
\<close>

definition copy_at :: "'a list \<Rightarrow> nat \<Rightarrow> 'a list \<Rightarrow> 'a list" where
  "copy_at xs k ys = take k xs @ ys @ drop (k + length ys) xs"

lemma length_copy_at [simp]:
  "k + length ys \<le> length xs \<Longrightarrow> length (copy_at xs k ys) = length xs"
  by (simp add: copy_at_def)

lemma copy_at_Nil [simp]: "copy_at xs k [] = xs"
  by (simp add: copy_at_def)

lemma nth_copy_at:
  assumes "k + length ys \<le> length xs" "i < length xs"
  shows "copy_at xs k ys ! i = (if k \<le> i \<and> i < k + length ys then ys ! (i - k) else xs ! i)"
  using assms by (auto simp: copy_at_def nth_append min_def)

lemma copy_at_single: "k < length xs \<Longrightarrow> copy_at xs k [y] = xs[k := y]"
  by (simp add: copy_at_def upd_conv_take_nth_drop)


section \<open>Signed differences\<close>

lemma sint_neg_iff: "sint (x :: 32 word) < 0 \<longleftrightarrow> 2147483648 \<le> uint x"
proof -
  have l: "uint x < 2 ^ 32" using uint_lt2p [of x] by simp
  have "sint x < 0 \<longleftrightarrow> bit (uint x) 31" by (simp add: sint_uint)
  also have "\<dots> \<longleftrightarrow> odd (uint x div 2 ^ 31)" by (simp add: bit_iff_odd)
  also have "\<dots> \<longleftrightarrow> 2 ^ 31 \<le> uint x"
  proof (cases "2 ^ 31 \<le> uint x")
    case True
    then have "uint x div 2 ^ 31 = 1" using l by (intro int_div_pos_eq [of _ _ _ "uint x - 2^31"]) auto
    with True show ?thesis by simp
  next
    case False
    then have "uint x div 2 ^ 31 = 0" using uint_ge_0 [of x] by (intro div_pos_pos_trivial) auto
    with False show ?thesis by simp
  qed
  finally show ?thesis by simp
qed

lemma sint_diff_neg:
  fixes a b :: "32 word"
  assumes "unat a < 2 ^ 31" "unat b < 2 ^ 31"
  shows "sint (a - b) < 0 \<longleftrightarrow> unat a < unat b"
proof -
  have u: "uint a = int (unat a)" "uint b = int (unat b)" by simp_all
  have l: "uint a < 2147483648" "uint b < 2147483648" "0 \<le> uint a" "0 \<le> uint b"
    using assms of_nat_less_iff [of "unat a" "2 ^ 31", where 'a = int]
      of_nat_less_iff [of "unat b" "2 ^ 31", where 'a = int] by simp_all
  have d: "uint (a - b) = (uint a - uint b) mod 4294967296" by (simp add: uint_word_ariths)
  show ?thesis
  proof (cases "uint b \<le> uint a")
    case True
    then have "uint (a - b) = uint a - uint b" unfolding d using l by (intro mod_pos_pos_trivial) linarith+
    with True l u show ?thesis unfolding sint_neg_iff by linarith
  next
    case False
    have "(uint a - uint b) mod 4294967296 = (uint a - uint b + 4294967296) mod 4294967296" by simp
    also have "\<dots> = uint a - uint b + 4294967296" using False l by (intro mod_pos_pos_trivial) linarith+
    finally show ?thesis using False l d u unfolding sint_neg_iff by linarith
  qed
qed

end
