(* ===== verification/Bitops.thy ===== *)
theory Bitops
  imports Prelude
begin

text \<open>
  The bit operations of \<^verbatim>\<open>include/bathos/bitops.h\<close> and the bit searches of
  \<^verbatim>\<open>include/bathos/ffs.h\<close> and \<^verbatim>\<open>include/bathos/ffz.h\<close>, for the default
  \<^verbatim>\<open>BITS_PER_LONG\<close> of 32. An array of \<^verbatim>\<open>unsigned long\<close> is a list of 32-bit words; a bit
  number addresses word \<open>nr div 32\<close>. Each atomic operation runs the non-atomic one with
  interrupts disabled, so on the sequential state they have the same effect.
  The interface the other components rely on is the locale \<open>bit_array\<close>.
\<close>

section \<open>Model\<close>

type_synonym bitmap = "u32 list"

definition BITS_PER_LONG :: nat where
  "BITS_PER_LONG = 32"

definition BIT_MASK :: "nat \<Rightarrow> u32" where
  "BIT_MASK nr = push_bit (nr mod BITS_PER_LONG) 1"

definition BIT_WORD :: "nat \<Rightarrow> nat" where
  "BIT_WORD nr = nr div BITS_PER_LONG"

definition BITS_TO_LONGS :: "nat \<Rightarrow> nat" where
  "BITS_TO_LONGS nr = (nr + BITS_PER_LONG - 1) div BITS_PER_LONG"

definition set_bit_nonatomic :: "nat \<Rightarrow> bitmap \<Rightarrow> bitmap" where
  "set_bit_nonatomic nr addr =
     (let p = BIT_WORD nr in addr[p := (addr ! p) OR BIT_MASK nr])"

definition set_bit_c :: "nat \<Rightarrow> bitmap \<Rightarrow> bitmap" where
  "set_bit_c nr addr = set_bit_nonatomic nr addr"

definition clear_bit_nonatomic :: "nat \<Rightarrow> bitmap \<Rightarrow> bitmap" where
  "clear_bit_nonatomic nr addr =
     (let p = BIT_WORD nr in addr[p := (addr ! p) AND NOT (BIT_MASK nr)])"

definition clear_bit_c :: "nat \<Rightarrow> bitmap \<Rightarrow> bitmap" where
  "clear_bit_c nr addr = clear_bit_nonatomic nr addr"

definition change_bit_nonatomic :: "nat \<Rightarrow> bitmap \<Rightarrow> bitmap" where
  "change_bit_nonatomic nr addr =
     (let p = BIT_WORD nr in addr[p := (addr ! p) XOR BIT_MASK nr])"

definition change_bit_c :: "nat \<Rightarrow> bitmap \<Rightarrow> bitmap" where
  "change_bit_c nr addr = change_bit_nonatomic nr addr"

definition test_and_set_bit_nonatomic :: "nat \<Rightarrow> bitmap \<Rightarrow> bool \<times> bitmap" where
  "test_and_set_bit_nonatomic nr addr =
     (let p = BIT_WORD nr; mask = BIT_MASK nr; old = addr ! p
      in (old AND mask \<noteq> 0, addr[p := old OR mask]))"

definition test_and_set_bit :: "nat \<Rightarrow> bitmap \<Rightarrow> bool \<times> bitmap" where
  "test_and_set_bit nr addr = test_and_set_bit_nonatomic nr addr"

definition test_and_clear_bit_nonatomic :: "nat \<Rightarrow> bitmap \<Rightarrow> bool \<times> bitmap" where
  "test_and_clear_bit_nonatomic nr addr =
     (let p = BIT_WORD nr; mask = BIT_MASK nr; old = addr ! p
      in (old AND mask \<noteq> 0, addr[p := old AND NOT mask]))"

definition test_and_clear_bit :: "nat \<Rightarrow> bitmap \<Rightarrow> bool \<times> bitmap" where
  "test_and_clear_bit nr addr = test_and_clear_bit_nonatomic nr addr"

definition test_and_change_bit_nonatomic :: "nat \<Rightarrow> bitmap \<Rightarrow> bool \<times> bitmap" where
  "test_and_change_bit_nonatomic nr addr =
     (let p = BIT_WORD nr; mask = BIT_MASK nr; old = addr ! p
      in (old AND mask \<noteq> 0, addr[p := old XOR mask]))"

definition test_and_change_bit :: "nat \<Rightarrow> bitmap \<Rightarrow> bool \<times> bitmap" where
  "test_and_change_bit nr addr = test_and_change_bit_nonatomic nr addr"

definition test_bit_nonatomic :: "nat \<Rightarrow> bitmap \<Rightarrow> bool" where
  "test_bit_nonatomic nr addr =
     (1 AND drop_bit (nr AND (BITS_PER_LONG - 1)) (addr ! BIT_WORD nr) \<noteq> 0)"

definition test_bit_c :: "nat \<Rightarrow> bitmap \<Rightarrow> bool" where
  "test_bit_c nr addr = test_bit_nonatomic nr addr"

text \<open>The binary search of \<^verbatim>\<open>ffs\<close>: each step halves the window that holds the lowest set bit.\<close>

definition ffs_step :: "u32 \<Rightarrow> nat \<Rightarrow> u32 \<times> nat \<Rightarrow> u32 \<times> nat" where
  "ffs_step m k = (\<lambda>(x, r). if x AND m = 0 then (drop_bit k x, r + k) else (x, r))"

definition ffs :: "u32 \<Rightarrow> nat" where
  "ffs x = (if x = 0 then 0
            else snd (ffs_step 1 1 (ffs_step 3 2 (ffs_step 0xf 4 (ffs_step 0xff 8
                   (ffs_step 0xffff 16 (x, 1)))))))"

definition ffz :: "u32 \<Rightarrow> nat" where
  "ffz x = ffs (NOT x)"

definition nbits_of :: "bitmap \<Rightarrow> nat" where
  "nbits_of addr = BITS_PER_LONG * length addr"

lemmas bitop_defs =
  BIT_MASK_def BIT_WORD_def BITS_PER_LONG_def Let_def nbits_of_def
  set_bit_nonatomic_def set_bit_c_def clear_bit_nonatomic_def clear_bit_c_def
  change_bit_nonatomic_def change_bit_c_def test_bit_nonatomic_def test_bit_c_def
  test_and_set_bit_nonatomic_def test_and_set_bit_def
  test_and_clear_bit_nonatomic_def test_and_clear_bit_def
  test_and_change_bit_nonatomic_def test_and_change_bit_def


section \<open>Single bits\<close>

lemma bit_BIT_MASK [bitmap_simps]: "bit (BIT_MASK i) j \<longleftrightarrow> j = i mod 32"
  by (auto simp: BIT_MASK_def BITS_PER_LONG_def bit_exp_iff)

lemma and_31_mod_32: "(i::nat) AND 31 = i mod 32"
  using take_bit_eq_mask [of 5 i] by (simp add: take_bit_eq_mod mask_eq_exp_minus_1)

lemma one_and_drop_bit_iff: "1 AND drop_bit k (w::u32) \<noteq> 0 \<longleftrightarrow> bit w k"
  by (simp add: one_and_eq odd_iff_mod_2_eq_one [symmetric] bit_iff_odd_drop_bit)

lemma and_BIT_MASK_iff: "w AND BIT_MASK i \<noteq> 0 \<longleftrightarrow> bit w (i mod 32)"
  by (auto simp: bit_eq_iff [of "w AND BIT_MASK i"] bit_and_iff bit_BIT_MASK)

text \<open>A bit of the map is a bit of the word that holds it.\<close>

lemma test_bit_c_iff: "test_bit_c i a \<longleftrightarrow> bit (a ! (i div 32)) (i mod 32)"
  by (simp add: test_bit_c_def test_bit_nonatomic_def BIT_WORD_def BITS_PER_LONG_def
      and_31_mod_32 one_and_drop_bit_iff [unfolded One_nat_def])

lemma same_bit_iff: "i div 32 = j div 32 \<Longrightarrow> (i mod 32 = j mod 32) = (i = (j::nat))"
  by (metis div_mult_mod_eq)

lemma nbits_div: "i < nbits_of a \<Longrightarrow> i div 32 < length a"
  by (simp add: nbits_of_def BITS_PER_LONG_def less_mult_imp_div_less mult.commute)

lemma nbits_bitops [simp]:
  "nbits_of (set_bit_c i a) = nbits_of a" "nbits_of (clear_bit_c i a) = nbits_of a"
  "nbits_of (change_bit_c i a) = nbits_of a"
  by (simp_all add: bitop_defs)

lemma length_bitops [simp]:
  "length (set_bit_c i a) = length a" "length (clear_bit_c i a) = length a"
  by (simp_all add: bitop_defs)

text \<open>Every update writes one word \<open>f (a ! p)\<close>: the bits of the other words stay.\<close>

lemma test_bit_c_update:
  assumes "i < nbits_of a"
    and "\<And>k. k < 32 \<Longrightarrow> bit (f (a ! (i div 32))) k \<longleftrightarrow> P (k = i mod 32) (bit (a ! (i div 32)) k)"
    and "\<And>b. P False b = b"
  shows "test_bit_c j (a[i div 32 := f (a ! (i div 32))]) \<longleftrightarrow> P (j = i) (test_bit_c j a)"
proof (cases "j div 32 = i div 32")
  case True
  then have "(j mod 32 = i mod 32) = (j = i)" by (rule same_bit_iff)
  with True assms(2) [of "j mod 32"] nbits_div [OF assms(1)] show ?thesis
    by (simp add: test_bit_c_iff)
next
  case False
  then have "j \<noteq> i" by auto
  with False assms(3) show ?thesis by (simp add: test_bit_c_iff)
qed

lemma test_set_bit_c:
  "i < nbits_of a \<Longrightarrow> test_bit_c j (set_bit_c i a) \<longleftrightarrow> j = i \<or> test_bit_c j a"
  unfolding set_bit_c_def set_bit_nonatomic_def Let_def BIT_WORD_def BITS_PER_LONG_def
  by (rule test_bit_c_update) (auto simp: bit_or_iff bit_BIT_MASK)

lemma test_clear_bit_c:
  "i < nbits_of a \<Longrightarrow> test_bit_c j (clear_bit_c i a) \<longleftrightarrow> j \<noteq> i \<and> test_bit_c j a"
  unfolding clear_bit_c_def clear_bit_nonatomic_def Let_def BIT_WORD_def BITS_PER_LONG_def
  by (rule test_bit_c_update [where P = "\<lambda>e b. \<not> e \<and> b"])
    (auto simp: bit_and_iff bit_not_iff bit_BIT_MASK)

lemma test_change_bit_c:
  "i < nbits_of a \<Longrightarrow> test_bit_c j (change_bit_c i a) \<longleftrightarrow> (j = i) \<noteq> test_bit_c j a"
  unfolding change_bit_c_def change_bit_nonatomic_def Let_def BIT_WORD_def BITS_PER_LONG_def
  by (rule test_bit_c_update) (auto simp: bit_xor_iff bit_BIT_MASK)

lemma fst_test_and_bit:
  "fst (test_and_set_bit i a) = test_bit_c i a"
  "fst (test_and_clear_bit i a) = test_bit_c i a"
  "fst (test_and_change_bit i a) = test_bit_c i a"
  using and_BIT_MASK_iff [of "a ! BIT_WORD i" i]
  by (simp_all add: test_and_set_bit_def test_and_set_bit_nonatomic_def
      test_and_clear_bit_def test_and_clear_bit_nonatomic_def
      test_and_change_bit_def test_and_change_bit_nonatomic_def Let_def
      test_bit_c_iff BIT_WORD_def BITS_PER_LONG_def)

lemma snd_test_and_bit:
  "snd (test_and_set_bit i a) = set_bit_c i a"
  "snd (test_and_clear_bit i a) = clear_bit_c i a"
  "snd (test_and_change_bit i a) = change_bit_c i a"
  by (simp_all add: bitop_defs)

section \<open>The interface of a bit array\<close>

text \<open>
  What the allocator, the interrupt dispatcher and the GPIO function rely on: setting or
  clearing a bit changes that bit and no other, and never the number of bits.
\<close>

locale bit_array =
  fixes setb clrb :: "nat \<Rightarrow> 'a \<Rightarrow> 'a" and testb :: "nat \<Rightarrow> 'a \<Rightarrow> bool"
    and size_of :: "'a \<Rightarrow> nat"
  assumes test_set: "i < size_of a \<Longrightarrow> testb j (setb i a) \<longleftrightarrow> j = i \<or> testb j a"
    and test_clr: "i < size_of a \<Longrightarrow> testb j (clrb i a) \<longleftrightarrow> j \<noteq> i \<and> testb j a"
    and size_set: "size_of (setb i a) = size_of a"
    and size_clr: "size_of (clrb i a) = size_of a"
begin

lemma Collect_set: "i < size_of a \<Longrightarrow> {j. testb j (setb i a)} = insert i {j. testb j a}"
  by (auto simp: test_set)

lemma Collect_clr: "i < size_of a \<Longrightarrow> {j. testb j (clrb i a)} = {j. testb j a} - {i}"
  by (auto simp: test_clr)

lemma fold_set:
  "\<forall>i \<in> set is. i < size_of a \<Longrightarrow> testb j (fold setb is a) \<longleftrightarrow> j \<in> set is \<or> testb j a"
  by (induction "is" arbitrary: a) (auto simp: test_set size_set)

lemma fold_clr:
  "\<forall>i \<in> set is. i < size_of a \<Longrightarrow> testb j (fold clrb is a) \<longleftrightarrow> j \<notin> set is \<and> testb j a"
  by (induction "is" arbitrary: a) (auto simp: test_clr size_clr)

end

interpretation bm: bit_array set_bit_c clear_bit_c test_bit_c nbits_of
  by unfold_locales (simp_all add: test_set_bit_c test_clear_bit_c)

section \<open>Finding the first set bit\<close>

text \<open>\<open>lowest_bit x r\<close>: bit \<open>r\<close> of \<open>x\<close> is set and no lower one is.\<close>

definition lowest_bit :: "u32 \<Rightarrow> nat \<Rightarrow> bool" where
  "lowest_bit x r \<longleftrightarrow> bit x r \<and> (\<forall>j < r. \<not> bit x j)"

lemma lowest_bit_unique: "lowest_bit x r \<Longrightarrow> lowest_bit x s \<Longrightarrow> r = s"
  unfolding lowest_bit_def by (metis nat_neq_iff)

lemma and_mask_eq_0_iff: "(x::u32) AND mask k = 0 \<longleftrightarrow> (\<forall>j < k. \<not> bit x j)"
  using bit_imp_le_length [of x]
  by (fastforce simp: bit_eq_iff [of "x AND mask k"] bit_and_iff bit_mask_iff)

text \<open>
  One step of the search keeps two facts: a set bit lies in the window, and the position
  found in the shifted word plus the shift so far is the position in the original word.
\<close>

lemma ffs_step_window:
  assumes "ffs_step (mask k) k (x, r) = (y, s)" and "\<exists>j < 2 * k. bit x j"
  shows "\<exists>j < k. bit y j"
proof (cases "x AND mask k = 0")
  case True
  with assms(2) obtain j where "j < 2 * k" "bit x j" "k \<le> j"
    by (auto simp: and_mask_eq_0_iff not_less [symmetric])
  with True assms(1) show ?thesis
    by (auto simp: ffs_step_def bit_drop_bit_eq intro!: exI [of _ "j - k"])
next
  case False
  with assms(1) have "y = x" by (simp add: ffs_step_def)
  with False show ?thesis by (auto simp: and_mask_eq_0_iff)
qed

lemma ffs_step_lowest:
  assumes "ffs_step (mask k) k (x, r) = (y, s)" and "lowest_bit y p"
  shows "lowest_bit x (p + (s - r))" and "r \<le> s"
proof -
  show "r \<le> s" using assms(1) by (auto simp: ffs_step_def split: if_splits)
  show "lowest_bit x (p + (s - r))"
  proof (cases "x AND mask k = 0")
    case True
    with assms have "y = drop_bit k x" "s = r + k" by (auto simp: ffs_step_def)
    moreover have "\<not> bit x j" if "j < p + k" for j
      using that True assms(2) \<open>y = _\<close>
      by (cases "j < k") (auto simp: and_mask_eq_0_iff lowest_bit_def bit_drop_bit_eq
          dest: spec [of _ "j - k"])
    ultimately show ?thesis
      using assms(2) by (auto simp: lowest_bit_def bit_drop_bit_eq add.commute)
  next
    case False
    with assms show ?thesis by (simp add: ffs_step_def)
  qed
qed

lemma ffs_masks:
  "(1::u32) = mask 1" "(3::u32) = mask 2" "(0xf::u32) = mask 4" "(0xff::u32) = mask 8"
  "(0xffff::u32) = mask 16"
  by (simp_all add: mask_eq_exp_minus_1)

lemma ffs_0 [simp]: "ffs 0 = 0"
  by (simp add: ffs_def)

lemma ffs_lowest_bit:
  assumes "x \<noteq> 0"
  shows "lowest_bit x (ffs x - 1)" and "ffs x \<ge> 1"
proof -
  obtain x1 r1 where s1: "ffs_step (mask 16) 16 (x, 1) = (x1, r1)" by fastforce
  obtain x2 r2 where s2: "ffs_step (mask 8) 8 (x1, r1) = (x2, r2)" by fastforce
  obtain x3 r3 where s3: "ffs_step (mask 4) 4 (x2, r2) = (x3, r3)" by fastforce
  obtain x4 r4 where s4: "ffs_step (mask 2) 2 (x3, r3) = (x4, r4)" by fastforce
  obtain x5 r5 where s5: "ffs_step (mask 1) 1 (x4, r4) = (x5, r5)" by fastforce
  have "\<exists>j < 2 * 16. bit x j"
    using assms bit_imp_le_length [of x] by (fastforce simp: bit_eq_iff [of x])
  then have "\<exists>j < 1. bit x5 j"
    using ffs_step_window [OF s1] ffs_step_window [OF s2] ffs_step_window [OF s3]
      ffs_step_window [OF s4] ffs_step_window [OF s5] by simp
  then have "lowest_bit x5 0" by (simp add: lowest_bit_def)
  note l4 = ffs_step_lowest [OF s5 this]
  note l3 = ffs_step_lowest [OF s4 l4(1)]
  note l2 = ffs_step_lowest [OF s3 l3(1)]
  note l1 = ffs_step_lowest [OF s2 l2(1)]
  note l0 = ffs_step_lowest [OF s1 l1(1)]
  have "ffs x = r5"
    using assms unfolding ffs_def ffs_masks by (simp only: if_False s1 s2 s3 s4 s5 snd_conv)
  with l4(2) l3(2) l2(2) l1(2) l0(2) show "ffs x \<ge> 1" by simp
  have "0 + (r5 - r4) + (r4 - r3) + (r3 - r2) + (r2 - r1) + (r1 - 1) = r5 - 1"
    using l4(2) l3(2) l2(2) l1(2) l0(2) by simp
  then show "lowest_bit x (ffs x - 1)"
    using l0(1) \<open>ffs x = r5\<close> by (metis add.assoc)
qed

lemma ffs_eq_0_iff [simp]: "ffs x = 0 \<longleftrightarrow> x = 0"
  using ffs_lowest_bit [of x] by (cases "x = 0") auto

lemma ffs_eqI: "lowest_bit x r \<Longrightarrow> ffs x = Suc r"
proof -
  assume l: "lowest_bit x r"
  then have "x \<noteq> 0" by (auto simp: lowest_bit_def)
  from lowest_bit_unique [OF l ffs_lowest_bit(1) [OF this]] ffs_lowest_bit(2) [OF this]
  show ?thesis by simp
qed

lemma ffs_bounds: "ffs x \<le> 32"
proof (cases "x = 0")
  case False
  then have "bit x (ffs x - 1)" using ffs_lowest_bit(1) by (simp add: lowest_bit_def)
  then have "ffs x - 1 < 32" using bit_imp_le_length by fastforce
  then show ?thesis by simp
qed simp

end
