(* ===== verification/AllocTables.thy ===== *)
theory AllocTables
  imports Bitops
begin

text \<open>
  The geometry of the buddy allocator (\<^verbatim>\<open>include/bathos/allocator.h\<close>) and the tables that
  \<^verbatim>\<open>scripts/allocator_aux_gen.c\<close> computes at build time: for each order the number of bitmap
  words its bits span, the masks that select its bits in those words, and the position of its
  first bit in the first word. The two configuration constants are the fields of a record.
\<close>

section \<open>Model\<close>

record alloc_cfg =
  cfg_norders_log :: nat
  cfg_mem_size :: nat

definition BATHOS_NORDERS :: "alloc_cfg \<Rightarrow> nat" where
  "BATHOS_NORDERS c = 2 ^ cfg_norders_log c"

definition BATHOS_MAX_ORDER :: "alloc_cfg \<Rightarrow> nat" where
  "BATHOS_MAX_ORDER c = BATHOS_NORDERS c - 1"

definition BATHOS_NBUFS :: "alloc_cfg \<Rightarrow> nat \<Rightarrow> nat" where
  "BATHOS_NBUFS c o' = 2 ^ ((BATHOS_NORDERS c - o') - 1)"

definition BATHOS_BUF_SIZE :: "alloc_cfg \<Rightarrow> nat \<Rightarrow> nat" where
  "BATHOS_BUF_SIZE c o' = cfg_mem_size c div BATHOS_NBUFS c o'"

definition BATHOS_MAP_NBITS :: "alloc_cfg \<Rightarrow> nat" where
  "BATHOS_MAP_NBITS c = 2 ^ BATHOS_NORDERS c"

definition index_to_bit :: "alloc_cfg \<Rightarrow> nat \<Rightarrow> nat \<Rightarrow> nat" where
  "index_to_bit c index order =
     (let out = 2 ^ BATHOS_NORDERS c - 2 ^ (BATHOS_NORDERS c - order)
      in out + drop_bit order index)"

definition order_bitmap_len :: "alloc_cfg \<Rightarrow> nat \<Rightarrow> int" where
  "order_bitmap_len c order =
     (let nbits = int (BATHOS_NBUFS c order);
          start_bit = int (index_to_bit c 0 order);
          (out, nbits) =
            (if start_bit mod 32 \<noteq> 0 then (1, nbits - (32 - start_bit mod 32)) else (0, nbits))
      in if nbits \<le> 0 then out
         else out + nbits div 32 + (if nbits mod 32 \<noteq> 0 then 1 else 0))"

text \<open>One word of the mask: the bits \<open>ls\<close> to \<open>le\<close>, computed in 64 bits.\<close>

definition mask_word :: "nat \<Rightarrow> nat \<Rightarrow> u32" where
  "mask_word ls lnbits =
     (let le = ls + lnbits - 1;
          tmp = push_bit le (1 :: 64 word) OR (push_bit le 1 - 1);
          tmp = (if ls \<ge> 1 then tmp AND NOT (push_bit ls 1 - 1) else tmp)
      in ucast tmp)"

function order_to_mask_loop :: "nat \<Rightarrow> nat \<Rightarrow> nat \<Rightarrow> u32 list" where
  "order_to_mask_loop start_bit nbits bit_index =
     (if nbits > 0 then
        let ls = (bit_index + start_bit) mod 32;
            lnbits = min nbits (32 - ls)
        in mask_word ls lnbits # order_to_mask_loop start_bit (nbits - lnbits) (bit_index + lnbits)
      else [])"
  by pat_completeness auto
termination
  by (relation "measure (\<lambda>(_, nbits, _). nbits)") auto

declare order_to_mask_loop.simps [simp del]

lemma order_to_mask_loop_0 [simp]: "order_to_mask_loop s 0 b = []"
  by (subst order_to_mask_loop.simps) simp

lemma order_to_mask_loop_pos:
  "0 < n \<Longrightarrow> order_to_mask_loop s n b =
     mask_word ((b + s) mod 32) (min n (32 - (b + s) mod 32)) #
     order_to_mask_loop s (n - min n (32 - (b + s) mod 32)) (b + min n (32 - (b + s) mod 32))"
  by (subst order_to_mask_loop.simps) (simp add: Let_def)

definition order_to_mask :: "alloc_cfg \<Rightarrow> nat \<Rightarrow> u32 list" where
  "order_to_mask c order =
     order_to_mask_loop (index_to_bit c 0 order) (BATHOS_NBUFS c order) 0"

definition bitmap_mask_ffs :: "alloc_cfg \<Rightarrow> nat \<Rightarrow> int" where
  "bitmap_mask_ffs c order = int (ffs (order_to_mask c order ! 0)) - 1"

section \<open>The masks select the bits of their order\<close>

lemma bit_ucast_u32: "bit (ucast (w :: 64 word) :: u32) j \<longleftrightarrow> j < 32 \<and> bit w j"
  by (auto simp: bit_ucast_iff dest: bit_imp_le_length)

lemma push_bit_1_minus_1: "push_bit k (1 :: 64 word) - 1 = mask k"
  by (simp add: mask_eq_exp_minus_1)

lemma bit_mask_word:
  assumes "0 < n" "ls + n \<le> 32"
  shows "bit (mask_word ls n) j \<longleftrightarrow> ls \<le> j \<and> j < ls + n"
  using assms unfolding mask_word_def Let_def bit_ucast_u32 push_bit_1_minus_1
  by (auto simp: bit_or_iff bit_and_iff bit_not_iff bit_mask_iff bit_exp_iff bit_push_bit_iff)

lemma div_32_eqI: "32 * q \<le> x \<Longrightarrow> x < 32 * q + 32 \<Longrightarrow> x div 32 = (q::nat)"
  by (rule div_nat_eqI) simp_all

lemma div_32_next:
  fixes x n :: nat
  shows "(x + (32 - x mod 32)) div 32 = x div 32 + 1"
    and "0 < n \<Longrightarrow> n \<le> 32 - x mod 32 \<Longrightarrow> (x + n - 1) div 32 = x div 32"
    and "32 - x mod 32 < n \<Longrightarrow> x div 32 + 1 \<le> (x + n - 1) div 32"
proof -
  obtain q r where x: "x = 32 * q + r" "r < 32" "x div 32 = q" "x mod 32 = r"
    using that [of "x div 32" "x mod 32"] by simp
  then show "(x + (32 - x mod 32)) div 32 = x div 32 + 1" by simp
  show "0 < n \<Longrightarrow> n \<le> 32 - x mod 32 \<Longrightarrow> (x + n - 1) div 32 = x div 32"
    unfolding x(3,4) by (rule div_32_eqI) (simp_all add: x(1) less_diff_conv)
  show "32 - x mod 32 < n \<Longrightarrow> x div 32 + 1 \<le> (x + n - 1) div 32"
    unfolding x(3,4) by (simp add: x(1) less_eq_div_iff_mult_less_eq)
qed

lemma Suc_diff_shift: "q + 1 \<le> (a::nat) \<Longrightarrow> Suc (a - (q + 1) + 1) = a - q + 1"
  by simp

text \<open>
  Word \<open>i\<close> of the list computed from bit \<open>b = bit_index + start_bit\<close> on holds the bits from
  \<open>32 * (b div 32 + i)\<close>; of these, exactly those in \<open>[b, b + nbits)\<close> are set.
\<close>

lemma order_to_mask_loop_length:
  "0 < nbits \<Longrightarrow> length (order_to_mask_loop s nbits b) = (b + s + nbits - 1) div 32 - (b + s) div 32 + 1"
proof (induction s nbits b rule: order_to_mask_loop.induct)
  case (1 s nbits b)
  let ?ls = "(b + s) mod 32" and ?n = "min nbits (32 - (b + s) mod 32)"
  have eq: "length (order_to_mask_loop s nbits b) = Suc (length (order_to_mask_loop s (nbits - ?n) (b + ?n)))"
    unfolding order_to_mask_loop_pos [OF 1(2)] by simp
  show ?case
  proof (cases "nbits \<le> 32 - ?ls")
    case True
    then have "order_to_mask_loop s (nbits - ?n) (b + ?n) = []"
      by simp
    moreover have "(b + s + nbits - 1) div 32 = (b + s) div 32"
      using True 1(2) by (intro div_32_next(2))
    ultimately show ?thesis using eq by simp
  next
    case False
    have b: "b + ?n + s = b + s + (32 - (b + s) mod 32)" using False by simp
    have e: "b + ?n + s + (nbits - ?n) - 1 = b + s + nbits - 1" using False by simp
    have rest: "length (order_to_mask_loop s (nbits - ?n) (b + ?n)) =
      (b + s + nbits - 1) div 32 - ((b + s) div 32 + 1) + 1"
      using "1.IH" [OF 1(2) refl refl] False unfolding e unfolding b div_32_next(1) by simp
    have "(b + s) div 32 + 1 \<le> (b + s + nbits - 1) div 32"
      using False by (intro div_32_next(3)) simp
    note Suc_diff_shift [OF this]
    then show ?thesis unfolding eq rest .
  qed
qed

lemma mask_next_word:
  fixes x q r n k j :: nat
  assumes "x = 32 * q + r" "r < 32" "32 - r < n"
  shows "x + (32 - r) \<le> 32 * (q + 1 + k) + j \<and> 32 * (q + 1 + k) + j < x + (32 - r) + (n - (32 - r))
    \<longleftrightarrow> x \<le> 32 * (q + Suc k) + j \<and> 32 * (q + Suc k) + j < x + n"
  using assms by auto

lemma order_to_mask_loop_nth:
  "i < length (order_to_mask_loop s nbits b) \<Longrightarrow> j < 32 \<Longrightarrow>
   bit (order_to_mask_loop s nbits b ! i) j \<longleftrightarrow>
     b + s \<le> 32 * ((b + s) div 32 + i) + j \<and> 32 * ((b + s) div 32 + i) + j < b + s + nbits"
proof (induction s nbits b arbitrary: i rule: order_to_mask_loop.induct)
  case (1 s nbits b)
  let ?ls = "(b + s) mod 32" and ?n = "min nbits (32 - (b + s) mod 32)"
  have pos: "0 < nbits" using 1(2) by (cases nbits) simp_all
  have eq: "order_to_mask_loop s nbits b = mask_word ?ls ?n # order_to_mask_loop s (nbits - ?n) (b + ?n)"
    by (rule order_to_mask_loop_pos [OF pos])
  have bs: "b + s = 32 * ((b + s) div 32) + ?ls" "?ls < 32" by simp_all
  show ?case
  proof (cases i)
    case 0
    have "bit (mask_word ?ls ?n) j \<longleftrightarrow> ?ls \<le> j \<and> j < ?ls + ?n"
      using pos by (intro bit_mask_word) auto
    also have "\<dots> \<longleftrightarrow> b + s \<le> 32 * ((b + s) div 32) + j \<and> 32 * ((b + s) div 32) + j < b + s + nbits"
      using bs \<open>j < 32\<close> by linarith
    finally show ?thesis using 0 eq by simp
  next
    case (Suc k)
    then have k: "k < length (order_to_mask_loop s (nbits - ?n) (b + ?n))" using 1(2) eq by simp
    then have gt: "32 - ?ls < nbits" by (cases "nbits \<le> 32 - ?ls") auto
    then have n: "?n = 32 - ?ls" by simp
    have sh: "(b + ?n + s) div 32 = (b + s) div 32 + 1" unfolding n
      using div_32_next(1) [of "b + s"] by (simp add: add.commute add.left_commute)
    have "bit (order_to_mask_loop s (nbits - ?n) (b + ?n) ! k) j \<longleftrightarrow>
      b + ?n + s \<le> 32 * ((b + ?n + s) div 32 + k) + j \<and>
      32 * ((b + ?n + s) div 32 + k) + j < b + ?n + s + (nbits - ?n)"
      using pos k \<open>j < 32\<close> by (intro "1.IH") auto
    also have "\<dots> \<longleftrightarrow> b + s \<le> 32 * ((b + s) div 32 + i) + j \<and> 32 * ((b + s) div 32 + i) + j < b + s + nbits"
      using mask_next_word [OF bs gt, of k j] unfolding sh unfolding n Suc
      by (simp only: add.assoc add.commute [of s] add.left_commute [of s])
    finally show ?thesis using Suc eq by simp
  qed
qed


section \<open>What the tables of one order say\<close>

text \<open>The first bit of an order, and the number of bits of all orders below it.\<close>

lemma index_to_bit_0: "index_to_bit c 0 ord = 2 ^ BATHOS_NORDERS c - 2 ^ (BATHOS_NORDERS c - ord)"
  by (simp add: index_to_bit_def)

lemma index_to_bit_eq: "index_to_bit c i ord = index_to_bit c 0 ord + i div 2 ^ ord"
  by (simp add: index_to_bit_def drop_bit_eq_div)

lemma NORDERS_pos [simp]: "0 < BATHOS_NORDERS c"
  by (simp add: BATHOS_NORDERS_def)

lemma NORDERS_Suc_MAX: "BATHOS_NORDERS c = Suc (BATHOS_MAX_ORDER c)"
  by (simp add: BATHOS_MAX_ORDER_def)

lemma NBUFS_pos [simp]: "0 < BATHOS_NBUFS c ord"
  by (simp add: BATHOS_NBUFS_def)

lemma NBUFS_eq: "ord \<le> BATHOS_MAX_ORDER c \<Longrightarrow> BATHOS_NBUFS c ord = 2 ^ (BATHOS_MAX_ORDER c - ord)"
  by (simp add: BATHOS_NBUFS_def NORDERS_Suc_MAX Suc_diff_le)

text \<open>The bits of consecutive orders follow each other without gap or overlap.\<close>

lemma index_to_bit_Suc:
  assumes "ord < BATHOS_MAX_ORDER c"
  shows "index_to_bit c 0 (Suc ord) = index_to_bit c 0 ord + BATHOS_NBUFS c ord"
proof -
  have "BATHOS_NORDERS c - ord = Suc (BATHOS_MAX_ORDER c - ord)"
    using assms by (simp add: NORDERS_Suc_MAX)
  moreover have "(2::nat) ^ Suc (BATHOS_MAX_ORDER c - ord) \<le> 2 ^ BATHOS_NORDERS c"
    by (rule power_increasing) (use assms in \<open>simp_all add: NORDERS_Suc_MAX\<close>)
  ultimately show ?thesis
    using assms by (simp add: index_to_bit_0 NBUFS_eq NORDERS_Suc_MAX)
qed

lemma index_to_bit_end:
  assumes "ord \<le> BATHOS_MAX_ORDER c"
  shows "index_to_bit c 0 ord + BATHOS_NBUFS c ord < BATHOS_MAP_NBITS c"
proof -
  let ?m = "BATHOS_MAX_ORDER c - ord"
  have e: "BATHOS_NORDERS c - ord = Suc ?m" using assms by (simp add: NORDERS_Suc_MAX Suc_diff_le)
  have le: "(2::nat) ^ Suc ?m \<le> 2 ^ BATHOS_NORDERS c"
    by (rule power_increasing) (use assms in \<open>simp_all add: NORDERS_Suc_MAX\<close>)
  show ?thesis
    unfolding index_to_bit_0 NBUFS_eq [OF assms] e BATHOS_MAP_NBITS_def using le by simp
qed

lemma index_to_bit_mono:
  assumes "o1 < o2" "o2 \<le> BATHOS_MAX_ORDER c"
  shows "index_to_bit c 0 o1 + BATHOS_NBUFS c o1 \<le> index_to_bit c 0 o2"
  using assms
proof (induction o2)
  case (Suc k)
  show ?case
  proof (cases "o1 = k")
    case True
    with Suc.prems show ?thesis by (simp add: index_to_bit_Suc)
  next
    case False
    with Suc have "index_to_bit c 0 o1 + BATHOS_NBUFS c o1 \<le> index_to_bit c 0 k" by simp
    with Suc.prems show ?thesis by (simp add: index_to_bit_Suc)
  qed
qed simp

text \<open>The table of lengths agrees with the lengths of the masks, so the masks fit.\<close>

lemma order_bitmap_len_arith:
  fixes s n :: nat
  assumes "0 < n"
  shows "(let (out, k) = (if int s mod 32 \<noteq> 0 then (1, int n - (32 - int s mod 32)) else (0, int n))
      in if k \<le> 0 then out else out + k div 32 + (if k mod 32 \<noteq> 0 then 1 else 0)) =
    int ((s + n - 1) div 32 - s div 32 + 1)"
proof -
  obtain q r where s: "s = 32 * q + r" "r < 32" using that [of "s div 32" "s mod 32"] by simp
  have d: "s div 32 = q" "int s mod 32 = int r" using s by (simp_all add: zmod_int [symmetric])
  obtain a b where m: "r + n - 1 = 32 * a + b" "b < 32"
    using that [of "(r + n - 1) div 32" "(r + n - 1) mod 32"] by simp
  have "s + n - 1 = 32 * (q + a) + b" using s m(1) assms by (cases n) simp_all
  then have e: "(s + n - 1) div 32 = q + a" using m(2) by (intro div_32_eqI) linarith+
  show ?thesis
  proof (cases "r = 0")
    case True
    with m assms have n: "int n = 32 * int a + (int b + 1)" by linarith
    show ?thesis
    proof (cases "b = 31")
      case True
      with n have "int n = 32 * (int a + 1)" by simp
      then show ?thesis using \<open>r = 0\<close> assms unfolding d e by simp
    next
      case False
      with n m(2) have "int n div 32 = int a" "int n mod 32 = int b + 1" by simp_all
      then show ?thesis using \<open>r = 0\<close> assms unfolding d e by simp
    qed
  next
    case False
    have "int (r + n - 1) = 32 * int a + int b" using m(1) by simp
    with assms have n: "int n - (32 - int r) = 32 * (int a - 1) + (int b + 1)"
      by (simp add: of_nat_diff)
    show ?thesis
    proof (cases "b = 31")
      case True
      with n have n': "int n - (32 - int r) = 32 * int a" by simp
      then show ?thesis using \<open>r \<noteq> 0\<close> unfolding d e n' Let_def by simp
    next
      case False
      with m(2) have "(int n - (32 - int r)) div 32 = int a - 1"
        unfolding n by simp
      moreover have "(int n - (32 - int r)) mod 32 = int b + 1"
        unfolding n using False m(2) by (subst mod_mult_self4) simp
      ultimately show ?thesis using \<open>r \<noteq> 0\<close> n m(2) False unfolding d e Let_def by auto
    qed
  qed
qed

lemma order_to_mask_length: "int (length (order_to_mask c ord)) = order_bitmap_len c ord"
  using order_bitmap_len_arith [of "BATHOS_NBUFS c ord" "index_to_bit c 0 ord"]
  unfolding order_to_mask_def order_bitmap_len_def Let_def
  by (subst order_to_mask_loop_length) simp_all

lemma order_to_mask_nth:
  assumes "i < length (order_to_mask c ord)" "j < 32"
  shows "bit (order_to_mask c ord ! i) j \<longleftrightarrow>
    (let b = 32 * (index_to_bit c 0 ord div 32 + i) + j
     in index_to_bit c 0 ord \<le> b \<and> b < index_to_bit c 0 ord + BATHOS_NBUFS c ord)"
  using order_to_mask_loop_nth [of i "index_to_bit c 0 ord" "BATHOS_NBUFS c ord" 0 j] assms
  by (simp add: order_to_mask_def Let_def)

lemma order_to_mask_covers:
  assumes "index_to_bit c 0 ord \<le> b" "b < index_to_bit c 0 ord + BATHOS_NBUFS c ord"
  shows "b div 32 - index_to_bit c 0 ord div 32 < length (order_to_mask c ord)"
proof -
  have "b div 32 \<le> (index_to_bit c 0 ord + BATHOS_NBUFS c ord - 1) div 32"
    using assms by (intro div_le_mono) simp
  then show ?thesis
    by (simp add: order_to_mask_def order_to_mask_loop_length less_Suc_eq_le diff_le_mono)
qed

lemma bitmap_mask_ffs_eq: "bitmap_mask_ffs c ord = int (index_to_bit c 0 ord mod 32)"
proof -
  let ?s = "index_to_bit c 0 ord"
  have len: "0 < length (order_to_mask c ord)" by (simp add: order_to_mask_def order_to_mask_loop_length)
  have s: "32 * (?s div 32) + ?s mod 32 = ?s" by simp
  have "bit (order_to_mask c ord ! 0) (?s mod 32)"
    using order_to_mask_nth [OF len, of "?s mod 32"] s by (simp add: Let_def)
  moreover have "\<not> bit (order_to_mask c ord ! 0) j" if "j < ?s mod 32" for j
    using order_to_mask_nth [OF len, of j] that s less_trans [OF that, of 32] by (simp add: Let_def)
  ultimately have "lowest_bit (order_to_mask c ord ! 0) (?s mod 32)" by (simp add: lowest_bit_def)
  then show ?thesis by (simp add: bitmap_mask_ffs_def ffs_eqI)
qed

end
