(* ===== verification/Allocator.thy ===== *)
theory Allocator
  imports AllocTables
begin

text \<open>
  The buddy allocator of \<^verbatim>\<open>lib/allocator.c\<close>. Memory is \<open>2 ^ BATHOS_MAX_ORDER\<close> units of
  \<open>BATHOS_BUF_SIZE 0\<close> bytes; a buffer of order \<open>k\<close> is an aligned run of \<open>2 ^ k\<close> units, named by
  the index of its first unit. The only state is the bitmap (one bit per possible buffer, set
  when the buffer is free) and the flag \<open>initialized\<close>. A pointer is its byte offset from the
  start of the managed memory, \<^verbatim>\<open>NULL\<close> is \<open>None\<close>.

  The abstract value of a bitmap is its set of free buffers. Theorems: the search finds the
  lowest free buffer of an order; allocation takes the best-fitting free buffer and splits it;
  freeing coalesces; the free and the live buffers always partition the memory, and no two free
  buddies remain.
\<close>

section \<open>Model\<close>

record alloc_state =
  al_bitmap :: bitmap
  al_initialized :: bool

fun size_to_order_loop :: "alloc_cfg \<Rightarrow> int \<Rightarrow> nat list \<Rightarrow> int" where
  "size_to_order_loop c sz [] = -1"
| "size_to_order_loop c sz (i # is) =
     (if sz \<le> int (BATHOS_BUF_SIZE c i) then int i else size_to_order_loop c sz is)"

definition size_to_order :: "alloc_cfg \<Rightarrow> int \<Rightarrow> int" where
  "size_to_order c sz = size_to_order_loop c sz [0..<BATHOS_MAX_ORDER c + 1]"

definition get_buddy :: "nat \<Rightarrow> nat \<Rightarrow> nat" where
  "get_buddy index order = index XOR push_bit order 1"

definition get_parent :: "nat \<Rightarrow> nat \<Rightarrow> nat" where
  "get_parent index order = nat (int index AND NOT (push_bit order 1))"

definition is_free :: "alloc_cfg \<Rightarrow> nat \<Rightarrow> nat \<Rightarrow> bitmap \<Rightarrow> bool" where
  "is_free c index order bm = test_bit_c (index_to_bit c index order) bm"

definition mark_unavailable :: "alloc_cfg \<Rightarrow> nat \<Rightarrow> nat \<Rightarrow> bitmap \<Rightarrow> bitmap" where
  "mark_unavailable c index order bm = clear_bit_c (index_to_bit c index order) bm"

definition mark_available :: "alloc_cfg \<Rightarrow> nat \<Rightarrow> nat \<Rightarrow> bitmap \<Rightarrow> bitmap" where
  "mark_available c index order bm = set_bit_c (index_to_bit c index order) bm"

definition order_bitmap :: "alloc_cfg \<Rightarrow> nat \<Rightarrow> nat" where
  "order_bitmap c order = index_to_bit c 0 order div BITS_PER_LONG"

definition bit_to_index :: "int \<Rightarrow> nat \<Rightarrow> int" where
  "bit_to_index b order = push_bit order b"

function find_free_loop :: "alloc_cfg \<Rightarrow> nat \<Rightarrow> bitmap \<Rightarrow> nat \<Rightarrow> nat option" where
  "find_free_loop c order bm i =
     (if int i < order_bitmap_len c order then
        let w = (bm ! (order_bitmap c order + i)) AND (order_to_mask c order ! i)
        in if w \<noteq> 0
           then let b = (int (ffs w) - 1) - bitmap_mask_ffs c order + int i * 32
                in Some (nat (bit_to_index b order))
           else find_free_loop c order bm (i + 1)
      else None)"
  by pat_completeness auto
termination
  by (relation "measure (\<lambda>(c, order, bm, i). nat (order_bitmap_len c order) - i)") auto

declare find_free_loop.simps [simp del]

text \<open>\<open>find_free_buf\<close> returns the index; the pointer is \<open>index * BATHOS_BUF_SIZE 0\<close>.\<close>

definition find_free_buf :: "alloc_cfg \<Rightarrow> nat \<Rightarrow> bitmap \<Rightarrow> nat option" where
  "find_free_buf c order bm = find_free_loop c order bm 0"

text \<open>
  The recursion of \<open>coalesce_buffers\<close> stops at the top order; an order above it never occurs,
  since \<open>size_to_order\<close> returns none.
\<close>

function coalesce_buffers :: "alloc_cfg \<Rightarrow> nat \<Rightarrow> nat \<Rightarrow> bitmap \<Rightarrow> bitmap" where
  "coalesce_buffers c index order bm =
     (if order \<ge> BATHOS_MAX_ORDER c then bm
      else
        let buddy = get_buddy index order
        in if \<not> is_free c buddy order bm then bm
           else
             let parent = get_parent index order;
                 bm = mark_unavailable c index order bm;
                 bm = mark_unavailable c buddy order bm;
                 bm = mark_available c parent (order + 1) bm
             in coalesce_buffers c parent (order + 1) bm)"
  by pat_completeness auto
termination
  by (relation "measure (\<lambda>(c, index, order, bm). BATHOS_MAX_ORDER c - order)") auto

declare coalesce_buffers.simps [simp del]

function split_buffers :: "alloc_cfg \<Rightarrow> nat \<Rightarrow> nat \<Rightarrow> bitmap \<Rightarrow> bitmap" where
  "split_buffers c min_order order bm =
     (case find_free_buf c order bm of
        None \<Rightarrow> bm
      | Some index \<Rightarrow>
          let bm = mark_unavailable c index order bm;
              bm = mark_available c index (order - 1) bm;
              bm = mark_available c (get_buddy index (order - 1)) (order - 1) bm
          in if order - min_order > 1 then split_buffers c min_order (order - 1) bm else bm)"
  by pat_completeness auto
termination
  by (relation "measure (\<lambda>(c, min_order, order, bm). order)") auto

declare split_buffers.simps [simp del]

function alloc_loop :: "alloc_cfg \<Rightarrow> nat \<Rightarrow> nat \<Rightarrow> bitmap \<Rightarrow> nat option \<times> bitmap" where
  "alloc_loop c order i bm =
     (case find_free_buf c order bm of
        Some index \<Rightarrow> (Some index, bm)
      | None \<Rightarrow>
          if i < BATHOS_MAX_ORDER c
          then alloc_loop c order (i + 1) (split_buffers c order (i + 1) bm)
          else (None, bm))"
  by pat_completeness auto
termination
  by (relation "measure (\<lambda>(c, order, i, bm). BATHOS_MAX_ORDER c - i)") auto

declare alloc_loop.simps [simp del]

definition bathos_alloc_init :: "alloc_cfg \<Rightarrow> alloc_state \<Rightarrow> alloc_state" where
  "bathos_alloc_init c s =
     s\<lparr>al_bitmap := mark_available c 0 (BATHOS_MAX_ORDER c) (al_bitmap s)\<rparr>"

definition bathos_alloc_buffer :: "alloc_cfg \<Rightarrow> int \<Rightarrow> alloc_state \<Rightarrow> nat option \<times> alloc_state" where
  "bathos_alloc_buffer c sz s =
     (let order = size_to_order c sz;
          s = (if \<not> al_initialized s
               then (bathos_alloc_init c s)\<lparr>al_initialized := True\<rparr> else s)
      in if order < 0 then (None, s)
         else (case alloc_loop c (nat order) (nat order) (al_bitmap s) of
                 (None, bm) \<Rightarrow> (None, s\<lparr>al_bitmap := bm\<rparr>)
               | (Some index, bm) \<Rightarrow>
                   (Some (index * BATHOS_BUF_SIZE c 0),
                    s\<lparr>al_bitmap := mark_unavailable c index (nat order) bm\<rparr>)))"

text \<open>
  The argument of \<open>bathos_free_buffer\<close> is the offset \<^verbatim>\<open>(uint8_t * )b - mem\<close>. The alignment test
  shifts by \<open>order - 1\<close>; for order 0 or an illegal size this shift count is negative, which C
  leaves undefined: the result is \<open>None\<close>.
\<close>

definition bathos_free_buffer :: "alloc_cfg \<Rightarrow> int \<Rightarrow> int \<Rightarrow> alloc_state \<Rightarrow> alloc_state option" where
  "bathos_free_buffer c offset sz s =
     (let order = size_to_order c sz
      in if offset < 0 \<or> offset \<ge> int (cfg_mem_size c) then Some s
         else if order - 1 < 0 then None
         else if offset AND push_bit (nat (order - 1)) 1 \<noteq> 0 then Some s
         else
           let index = nat offset div BATHOS_BUF_SIZE c 0;
               bm = mark_available c index (nat order) (al_bitmap s)
           in Some (s\<lparr>al_bitmap := coalesce_buffers c index (nat order) bm\<rparr>))"

section \<open>Buffers and free sets\<close>

type_synonym block = "nat \<times> nat"

definition valid_block :: "alloc_cfg \<Rightarrow> block \<Rightarrow> bool" where
  "valid_block c b \<longleftrightarrow> snd b \<le> BATHOS_MAX_ORDER c \<and> 2 ^ snd b dvd fst b
     \<and> fst b div 2 ^ snd b < BATHOS_NBUFS c (snd b)"

definition span :: "block \<Rightarrow> nat set" where
  "span b = {fst b ..< fst b + 2 ^ snd b}"

definition bitmap_wf :: "alloc_cfg \<Rightarrow> bitmap \<Rightarrow> bool" where
  "bitmap_wf c bm \<longleftrightarrow> 5 \<le> BATHOS_NORDERS c \<and> length bm = BATHOS_MAP_NBITS c div BITS_PER_LONG"

definition free_blocks :: "alloc_cfg \<Rightarrow> bitmap \<Rightarrow> block set" where
  "free_blocks c bm = {b. valid_block c b \<and> is_free c (fst b) (snd b) bm}"

lemma nbits_bitmap: "bitmap_wf c bm \<Longrightarrow> nbits_of bm = BATHOS_MAP_NBITS c"
proof -
  assume wf: "bitmap_wf c bm"
  then obtain k where "BATHOS_NORDERS c = 5 + k" by (auto simp: bitmap_wf_def le_iff_add)
  then have "BATHOS_MAP_NBITS c = 32 * 2 ^ k" by (simp add: BATHOS_MAP_NBITS_def power_add)
  with wf show ?thesis by (simp add: bitmap_wf_def nbits_of_def BITS_PER_LONG_def)
qed

lemma valid_blockE:
  assumes "valid_block c (i, ord)"
  obtains k where "i = k * 2 ^ ord" "k < BATHOS_NBUFS c ord" "ord \<le> BATHOS_MAX_ORDER c"
proof -
  from assms show thesis
    by (intro that [of "i div 2 ^ ord"]) (simp_all add: valid_block_def)
qed

lemma valid_blockI:
  "k < BATHOS_NBUFS c ord \<Longrightarrow> ord \<le> BATHOS_MAX_ORDER c \<Longrightarrow> valid_block c (k * 2 ^ ord, ord)"
  by (simp add: valid_block_def)

lemma valid_block_bit:
  assumes "valid_block c (i, ord)"
  shows "index_to_bit c 0 ord \<le> index_to_bit c i ord"
    and "index_to_bit c i ord < index_to_bit c 0 ord + BATHOS_NBUFS c ord"
    and "index_to_bit c i ord < BATHOS_MAP_NBITS c"
proof -
  have le: "ord \<le> BATHOS_MAX_ORDER c" and lt: "i div 2 ^ ord < BATHOS_NBUFS c ord"
    using assms by (simp_all add: valid_block_def)
  show "index_to_bit c 0 ord \<le> index_to_bit c i ord"
    unfolding index_to_bit_eq [of c i] by simp
  show b: "index_to_bit c i ord < index_to_bit c 0 ord + BATHOS_NBUFS c ord"
    unfolding index_to_bit_eq [of c i] using lt by simp
  show "index_to_bit c i ord < BATHOS_MAP_NBITS c"
    using b index_to_bit_end [OF le] by (rule less_trans)
qed

text \<open>Different buffers have different bits.\<close>

lemma index_to_bit_inj:
  assumes "valid_block c (i, o1)" "valid_block c (j, o2)"
    and eq: "index_to_bit c i o1 = index_to_bit c j o2"
  shows "i = j" "o1 = o2"
proof -
  have "\<not> o1 < o2" if "valid_block c (i, o1)" "valid_block c (j, o2)"
    "index_to_bit c i o1 = index_to_bit c j o2" for i j o1 o2
  proof
    assume "o1 < o2"
    moreover have "o2 \<le> BATHOS_MAX_ORDER c" using that by (simp add: valid_block_def)
    ultimately have "index_to_bit c 0 o1 + BATHOS_NBUFS c o1 \<le> index_to_bit c 0 o2"
      by (rule index_to_bit_mono)
    with valid_block_bit [OF that(1)] valid_block_bit [OF that(2)] that(3) show False by simp
  qed
  with assms show o: "o1 = o2" by (metis nat_neq_iff)
  with eq have "i div 2 ^ o1 = j div 2 ^ o1" by (simp add: index_to_bit_eq [of c i] index_to_bit_eq [of c j])
  with assms o show "i = j" by (auto elim!: valid_blockE)
qed

lemma mark_wf [simp]:
  "bitmap_wf c (mark_available c i ord bm) = bitmap_wf c bm"
  "bitmap_wf c (mark_unavailable c i ord bm) = bitmap_wf c bm"
  by (simp_all add: bitmap_wf_def mark_available_def mark_unavailable_def)

text \<open>The two ways the bitmap changes, on the set of free buffers.\<close>

lemma free_mark_available:
  assumes "bitmap_wf c bm" "valid_block c (i, ord)"
  shows "free_blocks c (mark_available c i ord bm) = insert (i, ord) (free_blocks c bm)"
  using assms valid_block_bit(3) [OF assms(2)] index_to_bit_inj [OF _ assms(2)]
  by (auto simp: free_blocks_def is_free_def mark_available_def bm.test_set nbits_bitmap)

lemma free_mark_unavailable:
  assumes "bitmap_wf c bm" "valid_block c (i, ord)"
  shows "free_blocks c (mark_unavailable c i ord bm) = free_blocks c bm - {(i, ord)}"
  using assms valid_block_bit(3) [OF assms(2)] index_to_bit_inj [OF _ assms(2)]
  by (auto simp: free_blocks_def is_free_def mark_unavailable_def bm.test_clr nbits_bitmap)

lemma is_free_iff: "valid_block c (i, ord) \<Longrightarrow> is_free c i ord bm \<longleftrightarrow> (i, ord) \<in> free_blocks c bm"
  by (simp add: free_blocks_def)


section \<open>The search\<close>

text \<open>A masked word of the bitmap shows the bits of the order that lie in it.\<close>

lemma masked_word_bit:
  assumes "i < length (order_to_mask c ord)" "j < 32"
  shows "bit ((bm ! (order_bitmap c ord + i)) AND (order_to_mask c ord ! i)) j \<longleftrightarrow>
    (let b = 32 * (index_to_bit c 0 ord div 32 + i) + j
     in index_to_bit c 0 ord \<le> b \<and> b < index_to_bit c 0 ord + BATHOS_NBUFS c ord \<and> test_bit_c b bm)"
proof -
  have "(32 * (index_to_bit c 0 ord div 32 + i) + j) div 32 = index_to_bit c 0 ord div 32 + i"
    "(32 * (index_to_bit c 0 ord div 32 + i) + j) mod 32 = j"
    using assms(2) by (simp, simp only: mod_mult_self4 mod_less)
  then show ?thesis
    using order_to_mask_nth [OF assms]
    by (auto simp: bit_and_iff Let_def test_bit_c_iff order_bitmap_def BITS_PER_LONG_def)
qed

definition order_bit :: "alloc_cfg \<Rightarrow> nat \<Rightarrow> nat \<Rightarrow> bool" where
  "order_bit c ord b \<longleftrightarrow> index_to_bit c 0 ord \<le> b \<and> b < index_to_bit c 0 ord + BATHOS_NBUFS c ord"

lemma masked_word_0:
  assumes "i < length (order_to_mask c ord)"
    and z: "(bm ! (order_bitmap c ord + i)) AND (order_to_mask c ord ! i) = 0"
    and "order_bit c ord b" "b div 32 = index_to_bit c 0 ord div 32 + i"
  shows "\<not> test_bit_c b bm"
  using masked_word_bit [OF assms(1), of "b mod 32" bm] assms(3) mult_div_mod_eq [of 32 b]
  unfolding z Let_def order_bit_def assms(4) by simp

text \<open>The first masked word that is not zero holds the lowest free bit of the order.\<close>

lemma masked_word_ffs:
  assumes i: "i < length (order_to_mask c ord)"
    and w: "w = (bm ! (order_bitmap c ord + i)) AND (order_to_mask c ord ! i)" "w \<noteq> 0"
    and b: "b = 32 * (index_to_bit c 0 ord div 32 + i) + (ffs w - 1)"
  shows "order_bit c ord b" "test_bit_c b bm"
    and "order_bit c ord b' \<Longrightarrow> b' < b \<Longrightarrow> b' div 32 = index_to_bit c 0 ord div 32 + i
      \<Longrightarrow> \<not> test_bit_c b' bm"
    and "nat (bit_to_index ((int (ffs w) - 1) - bitmap_mask_ffs c ord + int i * 32) ord) =
      (b - index_to_bit c 0 ord) * 2 ^ ord"
proof -
  note f = ffs_lowest_bit [OF w(2)]
  have lt: "ffs w - 1 < 32" using ffs_bounds [of w] f(2) by simp
  have "bit w (ffs w - 1)" using f(1) by (simp add: lowest_bit_def)
  then show ob: "order_bit c ord b" and "test_bit_c b bm"
    using masked_word_bit [OF i lt, of bm] by (simp_all add: w(1) b order_bit_def Let_def)
  show "\<not> test_bit_c b' bm" if "order_bit c ord b'" "b' < b" "b' div 32 = index_to_bit c 0 ord div 32 + i"
  proof
    assume "test_bit_c b' bm"
    then have "bit w (b' mod 32)"
      using masked_word_bit [OF i, of "b' mod 32" bm] that(1,3) mult_div_mod_eq [of 32 b']
      by (simp add: w(1) order_bit_def Let_def)
    moreover have "b' mod 32 < ffs w - 1"
      using that(2,3) b mult_div_mod_eq [of 32 b'] by simp
    ultimately show False using f(1) by (simp add: lowest_bit_def)
  qed
  have "int (index_to_bit c 0 ord) =
      32 * int (index_to_bit c 0 ord div 32) + int (index_to_bit c 0 ord mod 32)"
    by (metis mult_div_mod_eq of_nat_add of_nat_mult of_nat_numeral)
  then have "(int (ffs w) - 1) - bitmap_mask_ffs c ord + int i * 32 = int b - int (index_to_bit c 0 ord)"
    using f(2) by (simp add: b bitmap_mask_ffs_eq of_nat_diff)
  also have "\<dots> = int (b - index_to_bit c 0 ord)"
    using ob by (simp add: order_bit_def)
  finally show "nat (bit_to_index ((int (ffs w) - 1) - bitmap_mask_ffs c ord + int i * 32) ord) =
      (b - index_to_bit c 0 ord) * 2 ^ ord"
    by (simp add: bit_to_index_def push_bit_eq_mult nat_mult_distrib nat_power_eq)
qed

lemma find_free_loop_spec:
  "case find_free_loop c ord bm i of
     Some idx \<Rightarrow> (\<exists>b. order_bit c ord b \<and> test_bit_c b bm \<and> idx = (b - index_to_bit c 0 ord) * 2 ^ ord \<and>
       (\<forall>b'. order_bit c ord b' \<and> b' < b \<and> index_to_bit c 0 ord div 32 + i \<le> b' div 32 \<longrightarrow> \<not> test_bit_c b' bm))
   | None \<Rightarrow> \<forall>b. order_bit c ord b \<and> index_to_bit c 0 ord div 32 + i \<le> b div 32 \<longrightarrow> \<not> test_bit_c b bm"
proof (induction c ord bm i rule: find_free_loop.induct)
  case (1 c ord bm i)
  let ?s = "index_to_bit c 0 ord"
  let ?w = "(bm ! (order_bitmap c ord + i)) AND (order_to_mask c ord ! i)"
  show ?case
  proof (cases "int i < order_bitmap_len c ord")
    case False
    have "\<not> ?s div 32 + i \<le> b div 32" if "order_bit c ord b" for b
      using order_to_mask_covers [of c ord b] that False
      by (simp add: order_bit_def order_to_mask_length [symmetric])
    with False show ?thesis by (subst find_free_loop.simps) auto
  next
    case True
    then have i: "i < length (order_to_mask c ord)" by (simp add: order_to_mask_length [symmetric])
    show ?thesis
    proof (cases "?w = 0")
      case z: True
      have eq: "find_free_loop c ord bm i = find_free_loop c ord bm (i + 1)"
        using True z by (subst find_free_loop.simps) (simp add: Let_def)
      have le: "Suc (?s div 32 + i) \<le> b div 32"
        if "order_bit c ord b" "test_bit_c b bm" "?s div 32 + i \<le> b div 32" for b
        using that masked_word_0 [OF i z that(1)] by (cases "b div 32 = ?s div 32 + i") auto
      show ?thesis
        using "1.IH" [OF True refl] z unfolding eq
        by (auto split: option.splits) (use le in blast)+
    next
      case nz: False
      define b where "b = 32 * (?s div 32 + i) + (ffs ?w - 1)"
      note m = masked_word_ffs [OF i refl nz b_def]
      have res: "find_free_loop c ord bm i = Some ((b - ?s) * 2 ^ ord)"
        using True nz m(4) by (subst find_free_loop.simps) (simp add: Let_def)
      have "\<not> test_bit_c b' bm"
        if "order_bit c ord b'" "b' < b" "?s div 32 + i \<le> b' div 32" for b'
      proof (rule m(3) [OF that(1,2)])
        have "b div 32 = ?s div 32 + i"
          using b_def ffs_bounds [of ?w] ffs_lowest_bit(2) [OF nz] by simp
        then show "b' div 32 = ?s div 32 + i"
          using that(2,3) div_le_mono [of b' b 32] by simp
      qed
      with m(1,2) show ?thesis unfolding res by auto
    qed
  qed
qed

text \<open>\<open>find_free_buf\<close> returns the free buffer of lowest index, if the order has a free one.\<close>

lemma find_free_buf_Some:
  assumes "find_free_buf c ord bm = Some i" "ord \<le> BATHOS_MAX_ORDER c"
  shows "(i, ord) \<in> free_blocks c bm" and "(j, ord) \<in> free_blocks c bm \<Longrightarrow> i \<le> j"
proof -
  let ?s = "index_to_bit c 0 ord"
  from find_free_loop_spec [where c = c and ord = ord and bm = bm and i = 0] assms(1) obtain b where
    b: "order_bit c ord b" "test_bit_c b bm" "i = (b - ?s) * 2 ^ ord"
    and low: "\<And>b'. order_bit c ord b' \<Longrightarrow> b' < b \<Longrightarrow> \<not> test_bit_c b' bm"
    by (auto simp: find_free_buf_def order_bit_def div_le_mono)
  have ib: "index_to_bit c i ord = b"
    unfolding index_to_bit_eq [of c i] using b by (simp add: order_bit_def)
  show "(i, ord) \<in> free_blocks c bm"
    using b assms(2) ib by (auto simp: free_blocks_def is_free_def order_bit_def intro!: valid_blockI)
  assume j: "(j, ord) \<in> free_blocks c bm"
  then have v: "valid_block c (j, ord)" and t: "test_bit_c (index_to_bit c j ord) bm"
    by (simp_all add: free_blocks_def is_free_def)
  have "order_bit c ord (index_to_bit c j ord)"
    using valid_block_bit [OF v] by (simp add: order_bit_def)
  with low t have "b \<le> index_to_bit c j ord" by (meson not_less)
  then have "b - ?s \<le> j div 2 ^ ord" by (simp add: index_to_bit_eq [of c j])
  then have "i \<le> j div 2 ^ ord * 2 ^ ord" unfolding b(3) by (rule mult_right_mono) simp
  with v show "i \<le> j" by (simp add: valid_block_def)
qed

lemma find_free_buf_None:
  assumes "find_free_buf c ord bm = None"
  shows "(j, ord) \<notin> free_blocks c bm"
proof
  assume j: "(j, ord) \<in> free_blocks c bm"
  then have "order_bit c ord (index_to_bit c j ord)" "test_bit_c (index_to_bit c j ord) bm"
    by (auto simp: free_blocks_def is_free_def order_bit_def valid_block_bit)
  with find_free_loop_spec [where c = c and ord = ord and bm = bm and i = 0] assms show False
    by (auto simp: find_free_buf_def order_bit_def div_le_mono)
qed

lemma find_free_buf_eqI:
  assumes "(i, ord) \<in> free_blocks c bm" "\<And>j. (j, ord) \<in> free_blocks c bm \<Longrightarrow> i \<le> j"
  shows "find_free_buf c ord bm = Some i"
proof (cases "find_free_buf c ord bm")
  case None
  with assms(1) find_free_buf_None show ?thesis by blast
next
  case (Some k)
  have "ord \<le> BATHOS_MAX_ORDER c" using assms(1) by (simp add: free_blocks_def valid_block_def)
  from find_free_buf_Some [OF Some this] assms Some show ?thesis by (auto intro: le_antisym)
qed

end
