(* ===== verification/AllocatorProps.thy ===== *)
theory AllocatorProps
  imports Allocator
begin

text \<open>
  Correctness of the buddy allocator: the geometry of buddies, the effect of splitting,
  allocating and coalescing on the set of free buffers, and the invariants that follow. The
  interface other components rely on is the locale \<open>buffer_allocator\<close> at the end.
\<close>

section \<open>Buddies and parents\<close>

lemma get_buddy_eq: "get_buddy (k * 2 ^ ord) ord = (if even k then k + 1 else k - 1) * 2 ^ ord"
proof -
  have "get_buddy (k * 2 ^ ord) ord = push_bit ord (k XOR 1)"
    by (simp only: get_buddy_def push_bit_eq_mult [symmetric] push_bit_xor)
  also have "k XOR 1 = (if even k then k + 1 else k - 1)"
    by (simp add: xor_Suc_0_eq)
  finally show ?thesis by (simp add: push_bit_eq_mult)
qed

lemma get_parent_eq: "get_parent (k * 2 ^ ord) ord = (k - k mod 2) * 2 ^ ord"
proof -
  have b: "bit (int k * 2 ^ ord) ord \<longleftrightarrow> odd k"
    by (simp add: bit_iff_odd)
  have "int (k * 2 ^ ord) AND NOT (push_bit ord 1) = int k * 2 ^ ord - of_bool (odd k) * 2 ^ ord"
    using unset_bit_eq [of ord "int k * 2 ^ ord"] b
    by (simp add: unset_bit_eq_and_not push_bit_eq_mult)
  also have "\<dots> = int ((k - k mod 2) * 2 ^ ord)"
    by (cases "even k") (auto simp: odd_iff_mod_2_eq_one of_nat_diff algebra_simps elim!: oddE)
  finally show ?thesis by (simp only: get_parent_def nat_int)
qed

lemma valid_buddy:
  assumes "valid_block c (i, ord)" "ord < BATHOS_MAX_ORDER c"
  shows "valid_block c (get_buddy i ord, ord)" "get_buddy i ord \<noteq> i"
    "get_buddy (get_buddy i ord) ord = i" "get_parent (get_buddy i ord) ord = get_parent i ord"
proof -
  from assms(1) obtain k where k: "i = k * 2 ^ ord" "k < BATHOS_NBUFS c ord" "ord \<le> BATHOS_MAX_ORDER c"
    by (rule valid_blockE)
  have ev: "even (BATHOS_NBUFS c ord)" using assms(2) by (simp add: NBUFS_eq)
  have "(if even k then k + 1 else k - 1) < BATHOS_NBUFS c ord"
    using k(2) ev by (auto elim!: evenE)
  then show "valid_block c (get_buddy i ord, ord)"
    unfolding k(1) get_buddy_eq using k(3) by (rule valid_blockI)
  show "get_buddy i ord \<noteq> i" unfolding k(1) get_buddy_eq by (auto elim: oddE)
  show "get_buddy (get_buddy i ord) ord = i"
    unfolding k(1) get_buddy_eq by (auto elim: oddE)
  show "get_parent (get_buddy i ord) ord = get_parent i ord"
    unfolding k(1) get_buddy_eq get_parent_eq by (auto elim!: oddE evenE)
qed

lemma valid_parent:
  assumes "valid_block c (i, ord)" "ord < BATHOS_MAX_ORDER c"
  shows "valid_block c (get_parent i ord, Suc ord)"
    and "span (get_parent i ord, Suc ord) = span (i, ord) \<union> span (get_buddy i ord, ord)"
    and "span (i, ord) \<inter> span (get_buddy i ord, ord) = {}"
proof -
  from assms(1) obtain k where k: "i = k * 2 ^ ord" "k < BATHOS_NBUFS c ord" "ord \<le> BATHOS_MAX_ORDER c"
    by (rule valid_blockE)
  have nb: "BATHOS_NBUFS c ord = 2 * BATHOS_NBUFS c (Suc ord)"
    using assms(2) by (simp add: NBUFS_eq Suc_diff_Suc [symmetric])
  have p: "get_parent i ord = k div 2 * 2 ^ Suc ord"
    unfolding k(1) get_parent_eq by (simp add: minus_mod_eq_mult_div)
  show "valid_block c (get_parent i ord, Suc ord)"
    unfolding p using k(2) nb assms(2) by (intro valid_blockI) simp_all
  show "span (get_parent i ord, Suc ord) = span (i, ord) \<union> span (get_buddy i ord, ord)"
    unfolding span_def p unfolding k(1) get_buddy_eq
    by (cases "even k") (auto simp: algebra_simps elim!: evenE oddE)
  show "span (i, ord) \<inter> span (get_buddy i ord, ord) = {}"
    unfolding span_def k(1) get_buddy_eq by (cases "even k") (auto simp: algebra_simps elim!: oddE)
qed

text \<open>Splitting a buffer of order \<open>Suc ord\<close>: the halves are buddies of order \<open>ord\<close>.\<close>

lemma valid_halves:
  assumes "valid_block c (i, Suc ord)"
  shows "valid_block c (i, ord)" "valid_block c (i + 2 ^ ord, ord)" "get_buddy i ord = i + 2 ^ ord"
proof -
  from assms obtain k where k: "i = k * 2 ^ Suc ord" "k < BATHOS_NBUFS c (Suc ord)"
    "Suc ord \<le> BATHOS_MAX_ORDER c"
    by (rule valid_blockE)
  have nb: "BATHOS_NBUFS c ord = 2 * BATHOS_NBUFS c (Suc ord)"
    using k(3) by (simp add: NBUFS_eq Suc_diff_Suc [symmetric])
  have i: "i = 2 * k * 2 ^ ord" "i + 2 ^ ord = (2 * k + 1) * 2 ^ ord" using k(1) by simp_all
  show "valid_block c (i, ord)" unfolding i(1) using k nb by (intro valid_blockI) simp_all
  show "valid_block c (i + 2 ^ ord, ord)" unfolding i(2) using k nb by (intro valid_blockI) simp_all
  show "get_buddy i ord = i + 2 ^ ord" unfolding i(1) get_buddy_eq by simp
qed

lemma span_nonempty [simp]: "span b \<noteq> {}"
  by (simp add: span_def)

text \<open>Aligned spans are nested or disjoint; a span inside another belongs to a lower order.\<close>

lemma valid_block_span:
  assumes "valid_block c b"
  shows "span b \<subseteq> {..<2 ^ BATHOS_MAX_ORDER c}"
proof -
  obtain i ord where b: "b = (i, ord)" by fastforce
  from assms b obtain k where k: "i = k * 2 ^ ord" "k < BATHOS_NBUFS c ord" "ord \<le> BATHOS_MAX_ORDER c"
    by (metis valid_blockE)
  have "(k + 1) * 2 ^ ord \<le> 2 ^ (BATHOS_MAX_ORDER c - ord) * 2 ^ ord"
    using k(2,3) by (intro mult_right_mono) (simp_all add: NBUFS_eq)
  also have "\<dots> = 2 ^ BATHOS_MAX_ORDER c" using k(3) by (simp flip: power_add)
  finally show ?thesis using k(1) b by (auto simp: span_def)
qed

lemma span_nested:
  assumes "valid_block c (i, o1)" "valid_block c (j, o2)" "o1 \<le> o2" "span (i, o1) \<inter> span (j, o2) \<noteq> {}"
  shows "span (i, o1) \<subseteq> span (j, o2)"
proof -
  obtain d where d: "o2 = o1 + d" using assms(3) le_Suc_ex by blast
  from assms(1) obtain k where k: "i = k * 2 ^ o1" by (rule valid_blockE)
  from assms(2) obtain m where m: "j = m * 2 ^ o2" by (rule valid_blockE)
  have j: "j = m * 2 ^ d * 2 ^ o1" by (simp add: m d power_add)
  from assms(4) obtain u where "u \<in> span (i, o1)" "u \<in> span (j, o2)" by blast
  then have u: "k * 2 ^ o1 \<le> u" "u < (k + 1) * 2 ^ o1"
    "m * 2 ^ d * 2 ^ o1 \<le> u" "u < (m * 2 ^ d + 2 ^ d) * 2 ^ o1"
    by (simp_all add: span_def k j d power_add algebra_simps)
  have "m * 2 ^ d * 2 ^ o1 < (k + 1) * 2 ^ o1" using u by linarith
  then have 1: "m * 2 ^ d < k + 1" unfolding mult_less_cancel2 by simp
  have "k * 2 ^ o1 < (m * 2 ^ d + 2 ^ d) * 2 ^ o1" using u by linarith
  then have 2: "k < m * 2 ^ d + 2 ^ d" unfolding mult_less_cancel2 by simp
  have "m * 2 ^ d * 2 ^ o1 \<le> k * 2 ^ o1" using 1 by (intro mult_right_mono) simp_all
  moreover have "(k + 1) * 2 ^ o1 \<le> (m * 2 ^ d + 2 ^ d) * 2 ^ o1"
    using 2 by (intro mult_right_mono) simp_all
  ultimately show ?thesis by (auto simp: span_def k j d power_add algebra_simps)
qed

section \<open>Partitions\<close>

definition partitions :: "nat \<Rightarrow> block set \<Rightarrow> bool" where
  "partitions n S \<longleftrightarrow> (\<Union> (span ` S)) = {..<n} \<and>
     (\<forall>a \<in> S. \<forall>b \<in> S. a \<noteq> b \<longrightarrow> span a \<inter> span b = {})"

lemma partitions_disjoint:
  "partitions n S \<Longrightarrow> a \<in> S \<Longrightarrow> b \<in> S \<Longrightarrow> span a \<inter> span b \<noteq> {} \<Longrightarrow> a = b"
  by (auto simp: partitions_def)

text \<open>Replacing a buffer by buffers that tile its span, and the converse.\<close>

lemma partitions_refine:
  assumes "partitions n S" "b \<in> S" "\<Union> (span ` R) = span b"
    "\<And>x y. x \<in> R \<Longrightarrow> y \<in> R \<Longrightarrow> x \<noteq> y \<Longrightarrow> span x \<inter> span y = {}"
  shows "partitions n (S - {b} \<union> R)"
proof -
  have cross: "span x \<inter> span y = {}" if "x \<in> S - {b}" "y \<in> R" for x y
  proof -
    have "span y \<subseteq> span b" using assms(3) that(2) by blast
    moreover have "span x \<inter> span b = {}" using assms(1,2) that(1) by (auto simp: partitions_def)
    ultimately show ?thesis by blast
  qed
  have "\<Union> (span ` (S - {b} \<union> R)) = \<Union> (span ` (S - {b})) \<union> span b" using assms(3) by blast
  also have "\<dots> = \<Union> (span ` S)" using assms(2) by blast
  also have "\<dots> = {..<n}" using assms(1) by (simp add: partitions_def)
  finally have U: "\<Union> (span ` (S - {b} \<union> R)) = {..<n}" .
  have "span x \<inter> span y = {}" if "x \<in> S - {b} \<union> R" "y \<in> S - {b} \<union> R" "x \<noteq> y" for x y
    using that assms(4) [of x y] partitions_disjoint [OF assms(1), of x y] cross [of x y] cross [of y x]
    by blast
  with U show ?thesis by (simp add: partitions_def)
qed

lemma partitions_merge:
  assumes "partitions n S" "x \<in> S" "y \<in> S" "span p = span x \<union> span y"
  shows "partitions n (insert p (S - {x, y}))"
proof -
  have cross: "span z \<inter> span p = {}" if "z \<in> S - {x, y}" for z
    using assms(1-3) that unfolding assms(4) partitions_def by blast
  have "\<Union> (span ` insert p (S - {x, y})) = \<Union> (span ` S)" using assms(2-4) by auto
  with assms(1) have "\<Union> (span ` insert p (S - {x, y})) = {..<n}" by (simp add: partitions_def)
  moreover have "span a \<inter> span b = {}"
    if "a \<in> insert p (S - {x, y})" "b \<in> insert p (S - {x, y})" "a \<noteq> b" for a b
    using that partitions_disjoint [OF assms(1), of a b] cross [of a] cross [of b] by blast
  ultimately show ?thesis by (simp add: partitions_def)
qed


section \<open>Splitting\<close>

text \<open>
  The pieces left when buffer \<open>(i, k)\<close> is split down to order \<open>m\<close>: one of order \<open>m\<close> at \<open>i\<close> and the
  upper halves of every step.
\<close>

definition pieces :: "nat \<Rightarrow> nat \<Rightarrow> nat \<Rightarrow> block set" where
  "pieces i m k = insert (i, m) ((\<lambda>l. (i + 2 ^ l, l)) ` {m..<k})"

definition split_free :: "block set \<Rightarrow> nat \<Rightarrow> nat \<Rightarrow> nat \<Rightarrow> block set" where
  "split_free F i m k = F - {(i, k)} \<union> pieces i m k"

lemma pieces_Suc: "m \<le> k \<Longrightarrow> pieces i m (Suc k) = insert (i + 2 ^ k, k) (pieces i m k)"
  by (auto simp: pieces_def atLeastLessThanSuc)

lemma pieces_span: "m \<le> k \<Longrightarrow> \<Union> (span ` pieces i m k) = span (i, k)"
proof (induction k rule: nat_induct_at_least)
  case base
  then show ?case by (simp add: pieces_def)
next
  case (Suc k)
  have "span (i + 2 ^ k, k) \<union> span (i, k) = span (i, Suc k)" by (auto simp: span_def)
  with Suc show ?case by (simp add: pieces_Suc)
qed

lemma pieces_disjoint:
  assumes "x \<in> pieces i m k" "y \<in> pieces i m k" "x \<noteq> y"
  shows "span x \<inter> span y = {}"
proof -
  have *: "i + 2 ^ Suc a \<le> i + (2::nat) ^ b" if "a < b" for a b
    using that by (intro add_left_mono power_increasing) simp_all
  have up: "span (i + 2 ^ a, a) \<inter> span (i + 2 ^ b, b) = {}" if "a < b" for a b
    using * [OF that] by (auto simp: span_def)
  have lo: "span (i, m) \<inter> span (i + 2 ^ b, b) = {}" if "m \<le> b" for b
    using power_increasing [OF that, of "2::nat"] by (auto simp: span_def)
  show ?thesis
    using assms up lo unfolding pieces_def by (auto simp: Int_commute) (metis IntI empty_iff nat_neq_iff)+
qed

lemma pieces_valid:
  assumes "valid_block c (i, k)" "m \<le> k" "x \<in> pieces i m k"
  shows "valid_block c x"
  using assms(2,1,3)
proof (induction k rule: nat_induct_at_least)
  case base
  then show ?case by (simp add: pieces_def)
next
  case (Suc k)
  then show ?case using valid_halves [of c i k] by (auto simp: pieces_Suc)
qed

text \<open>
  \<open>split_buffers\<close> from an order with a free buffer, all lower orders down to the wanted one being
  empty, splits the lowest free buffer all the way down.
\<close>

lemma split_buffers_None [simp]: "find_free_buf c k bm = None \<Longrightarrow> split_buffers c m k bm = bm"
  by (subst split_buffers.simps) simp

lemma free_split_once:
  assumes "bitmap_wf c bm" "valid_block c (i, Suc k)"
  shows "free_blocks c (mark_available c (get_buddy i k) k (mark_available c i k
      (mark_unavailable c i (Suc k) bm))) =
    free_blocks c bm - {(i, Suc k)} \<union> {(i, k), (i + 2 ^ k, k)}"
  using assms valid_halves [OF assms(2)]
  by (auto simp: free_mark_available free_mark_unavailable)

lemma split_buffers_spec:
  assumes "bitmap_wf c bm" "m < k" "k \<le> BATHOS_MAX_ORDER c" "find_free_buf c k bm = Some i"
    and "\<And>j l. m \<le> l \<Longrightarrow> l < k \<Longrightarrow> (j, l) \<notin> free_blocks c bm"
  shows "bitmap_wf c (split_buffers c m k bm)"
    and "free_blocks c (split_buffers c m k bm) = split_free (free_blocks c bm) i m k"
proof -
  have "bitmap_wf c (split_buffers c m k bm) \<and>
    free_blocks c (split_buffers c m k bm) = split_free (free_blocks c bm) i m k"
    using assms
  proof (induction k arbitrary: bm)
    case (Suc k)
    let ?bm = "mark_available c (get_buddy i k) k (mark_available c i k (mark_unavailable c i (Suc k) bm))"
    have fr: "(i, Suc k) \<in> free_blocks c bm" using find_free_buf_Some(1) [OF Suc.prems(4,3)] .
    then have v: "valid_block c (i, Suc k)" by (simp add: free_blocks_def)
    note F = free_split_once [OF Suc.prems(1) v]
    have wf: "bitmap_wf c ?bm" using Suc.prems(1) by simp
    have eq: "split_buffers c m (Suc k) bm = (if Suc k - m > 1 then split_buffers c m k ?bm else ?bm)"
      using Suc.prems(4) by (subst split_buffers.simps) (simp add: Let_def)
    show ?case
    proof (cases "m < k")
      case False
      with Suc.prems(2) have m: "m = k" by simp
      have "split_free (free_blocks c bm) i k (Suc k) =
        free_blocks c bm - {(i, Suc k)} \<union> {(i, k), (i + 2 ^ k, k)}"
        by (auto simp: split_free_def pieces_def)
      moreover have "split_buffers c m (Suc k) bm = ?bm" using eq m by simp
      ultimately show ?thesis using F wf m by simp
    next
      case True
      have find: "find_free_buf c k ?bm = Some i"
        using Suc.prems(2,5) True unfolding F [symmetric]
        by (intro find_free_buf_eqI) (auto simp: F)
      have none: "(j, l) \<notin> free_blocks c ?bm" if "m \<le> l" "l < k" for j l
        using that Suc.prems(5) [of l j] unfolding F by auto
      have "split_free (free_blocks c ?bm) i m k = split_free (free_blocks c bm) i m (Suc k)"
        using True Suc.prems(5) [of k i] unfolding F split_free_def pieces_Suc [OF less_imp_le [OF True]]
        by (auto simp: pieces_def)
      moreover have "1 < Suc k - m" using True by simp
      ultimately show ?thesis
        using Suc.IH [OF wf True _ find none] Suc.prems(3) eq by simp
    qed
  qed simp
  then show "bitmap_wf c (split_buffers c m k bm)"
    and "free_blocks c (split_buffers c m k bm) = split_free (free_blocks c bm) i m k" by simp_all
qed

section \<open>Allocating\<close>

text \<open>
  The best fit for order \<open>m\<close>: the lowest free buffer of the smallest order at least \<open>m\<close> that has
  one. This is the specification the search loop implements.
\<close>

definition best_fit :: "block set \<Rightarrow> nat \<Rightarrow> block \<Rightarrow> bool" where
  "best_fit F m b \<longleftrightarrow> b \<in> F \<and> m \<le> snd b \<and> (\<forall>x \<in> F. m \<le> snd x \<longrightarrow> snd b \<le> snd x)
     \<and> (\<forall>x \<in> F. snd x = snd b \<longrightarrow> fst b \<le> fst x)"

lemma best_fit_unique: "best_fit F m b \<Longrightarrow> best_fit F m b' \<Longrightarrow> b = b'"
  unfolding best_fit_def by (meson le_antisym prod_eqI)

lemma alloc_loop_Some:
  "find_free_buf c m bm = Some i \<Longrightarrow> alloc_loop c m l bm = (Some i, bm)"
  by (subst alloc_loop.simps) simp

lemma alloc_loop_spec:
  assumes "bitmap_wf c bm" "m \<le> l" "l \<le> BATHOS_MAX_ORDER c"
    and "\<And>j x. m < x \<Longrightarrow> x \<le> l \<Longrightarrow> (j, x) \<notin> free_blocks c bm"
  shows "case alloc_loop c m l bm of
    (Some i, bm') \<Rightarrow> bitmap_wf c bm' \<and>
      (\<exists>k. best_fit (free_blocks c bm) m (i, k) \<and> free_blocks c bm' = split_free (free_blocks c bm) i m k)
  | (None, bm') \<Rightarrow> bm' = bm \<and> (\<forall>b \<in> free_blocks c bm. snd b < m)"
  using assms
proof (induction c m l bm rule: alloc_loop.induct)
  case (1 c m l bm)
  have m: "m \<le> BATHOS_MAX_ORDER c" using 1 by simp
  show ?case
  proof (cases "find_free_buf c m bm")
    case (Some i)
    note f = find_free_buf_Some [OF Some m]
    have "best_fit (free_blocks c bm) m (i, m)" using f by (auto simp: best_fit_def)
    moreover have "split_free (free_blocks c bm) i m m = free_blocks c bm"
      using f(1) by (auto simp: split_free_def pieces_def)
    ultimately show ?thesis using "1.prems"(1) by (auto simp: alloc_loop_Some [OF Some])
  next
    case None
    note nm = find_free_buf_None [OF None]
    have low: "l < snd b" if "b \<in> free_blocks c bm" "m \<le> snd b" for b
      using that nm "1.prems"(4) by (cases b) (metis le_neq_implies_less not_le snd_conv)
    show ?thesis
    proof (cases "l < BATHOS_MAX_ORDER c")
      case False
      have "snd b \<le> l" if "b \<in> free_blocks c bm" for b
        using that False by (auto simp: free_blocks_def valid_block_def)
      with low None False show ?thesis by (subst alloc_loop.simps) (force simp: not_less)
    next
      case True
      have eq: "alloc_loop c m l bm = alloc_loop c m (l + 1) (split_buffers c m (l + 1) bm)"
        using None True by (subst alloc_loop.simps) simp
      show ?thesis
      proof (cases "find_free_buf c (l + 1) bm")
        case n1: None
        have "(j, x) \<notin> free_blocks c bm" if "m < x" "x \<le> l + 1" for j x
          using that "1.prems"(4) find_free_buf_None [OF n1] by (metis Suc_eq_plus1 le_Suc_eq)
        with "1.IH" [OF None True] "1.prems" True show ?thesis
          unfolding eq split_buffers_None [OF n1] by simp
      next
        case (Some i)
        have l1: "l + 1 \<le> BATHOS_MAX_ORDER c" using True by simp
        note f = find_free_buf_Some [OF Some l1]
        have none: "(j, x) \<notin> free_blocks c bm" if "m \<le> x" "x < l + 1" for j x
          using low [of "(j, x)"] that by auto
        have m1: "m < l + 1" using "1.prems"(2) by simp
        note s = split_buffers_spec [OF "1.prems"(1) m1 l1 Some none]
        have "find_free_buf c m (split_buffers c m (l + 1) bm) = Some i"
          using nm m1 by (intro find_free_buf_eqI) (auto simp: s(2) [simplified] split_free_def pieces_def)
        note r = alloc_loop_Some [OF this]
        have "best_fit (free_blocks c bm) m (i, l + 1)"
          using f low m1 by (auto simp: best_fit_def Suc_le_eq)
        with s m1 show ?thesis unfolding eq r by auto
      qed
    qed
  qed
qed


section \<open>Coalescing\<close>

text \<open>No two free buddies: except possibly for buffer \<open>b\<close>, and without exception.\<close>

definition coalesced_but :: "alloc_cfg \<Rightarrow> block set \<Rightarrow> block \<Rightarrow> bool" where
  "coalesced_but c F b \<longleftrightarrow> (\<forall>(i, ord) \<in> F. ord < BATHOS_MAX_ORDER c \<longrightarrow> (get_buddy i ord, ord) \<in> F \<longrightarrow>
     (i, ord) = b \<or> (get_buddy i ord, ord) = b)"

definition coalesced :: "alloc_cfg \<Rightarrow> block set \<Rightarrow> bool" where
  "coalesced c F \<longleftrightarrow> (\<forall>(i, ord) \<in> F. ord < BATHOS_MAX_ORDER c \<longrightarrow> (get_buddy i ord, ord) \<notin> F)"

lemma coalescedD:
  "coalesced c F \<Longrightarrow> (i, ord) \<in> F \<Longrightarrow> ord < BATHOS_MAX_ORDER c \<Longrightarrow> (get_buddy i ord, ord) \<notin> F"
  unfolding coalesced_def by blast

lemma coalesced_insert: "coalesced c F \<Longrightarrow> coalesced_but c (insert b F) b"
  unfolding coalesced_def coalesced_but_def by blast

lemma free_coalesce_once:
  assumes "bitmap_wf c bm" "valid_block c (i, ord)" "ord < BATHOS_MAX_ORDER c"
  shows "free_blocks c (mark_available c (get_parent i ord) (Suc ord) (mark_unavailable c (get_buddy i ord) ord
      (mark_unavailable c i ord bm))) =
    insert (get_parent i ord, Suc ord) (free_blocks c bm - {(i, ord), (get_buddy i ord, ord)})"
  using assms valid_buddy(1) [OF assms(2,3)] valid_parent(1) [OF assms(2,3)]
  by (auto simp: free_mark_available free_mark_unavailable)

lemma coalesced_but_merge:
  assumes "coalesced_but c F (i, ord)"
  shows "coalesced_but c (insert (get_parent i ord, Suc ord) (F - {(i, ord), (get_buddy i ord, ord)}))
    (get_parent i ord, Suc ord)"
  using assms unfolding coalesced_but_def by blast

lemma coalesce_buffers_spec:
  assumes "bitmap_wf c bm" "(i, ord) \<in> free_blocks c bm"
    and "partitions n (free_blocks c bm \<union> A)" "free_blocks c bm \<inter> A = {}"
    and "coalesced_but c (free_blocks c bm) (i, ord)"
  shows "bitmap_wf c (coalesce_buffers c i ord bm)
    \<and> partitions n (free_blocks c (coalesce_buffers c i ord bm) \<union> A)
    \<and> free_blocks c (coalesce_buffers c i ord bm) \<inter> A = {}
    \<and> coalesced c (free_blocks c (coalesce_buffers c i ord bm))"
  using assms
proof (induction c i ord bm rule: coalesce_buffers.induct)
  case (1 c i ord bm)
  let ?F = "free_blocks c bm"
  have v: "valid_block c (i, ord)" and le: "ord \<le> BATHOS_MAX_ORDER c"
    using "1.prems"(2) by (auto simp: free_blocks_def valid_block_def)
  show ?case
  proof (cases "ord < BATHOS_MAX_ORDER c \<and> is_free c (get_buddy i ord) ord bm")
    case False
    then have eq: "coalesce_buffers c i ord bm = bm"
      by (subst coalesce_buffers.simps) (auto simp: Let_def not_less)
    have "coalesced c ?F"
      unfolding coalesced_def
    proof clarify
      fix j l assume j: "(j, l) \<in> ?F" "l < BATHOS_MAX_ORDER c" "(get_buddy j l, l) \<in> ?F"
      then have vj: "valid_block c (j, l)" by (simp add: free_blocks_def)
      have "(j, l) = (i, ord) \<or> (get_buddy j l, l) = (i, ord)"
        using "1.prems"(5) j unfolding coalesced_but_def by blast
      then have "ord = l" "(get_buddy i ord, ord) \<in> ?F"
        using j valid_buddy(3) [OF vj j(2)] by auto
      with False j(2) is_free_iff [OF valid_buddy(1) [OF v]] show False by simp
    qed
    with "1.prems" show ?thesis unfolding eq by simp
  next
    case True
    let ?b = "get_buddy i ord" and ?p = "get_parent i ord"
    let ?bm = "mark_available c ?p (ord + 1) (mark_unavailable c ?b ord (mark_unavailable c i ord bm))"
    have eq: "coalesce_buffers c i ord bm = coalesce_buffers c ?p (ord + 1) ?bm"
      using True by (subst coalesce_buffers.simps) (simp add: Let_def not_le)
    have lt: "ord < BATHOS_MAX_ORDER c" using True by simp
    have bF: "(?b, ord) \<in> ?F" using True is_free_iff [OF valid_buddy(1) [OF v lt]] by simp
    note F = free_coalesce_once [OF "1.prems"(1) v lt]
    have A: "insert (?p, Suc ord) (?F - {(i, ord), (?b, ord)}) \<union> A =
        insert (?p, Suc ord) (?F \<union> A - {(i, ord), (?b, ord)})"
      using "1.prems"(2,4) bF by auto
    have part: "partitions n (free_blocks c ?bm \<union> A)"
      unfolding F Suc_eq_plus1 [symmetric] A
      by (rule partitions_merge [OF "1.prems"(3)]) (use "1.prems"(2) bF valid_parent(2) [OF v lt] in auto)
    have "(?p, Suc ord) \<notin> A"
    proof
      assume "(?p, Suc ord) \<in> A"
      moreover have "span (?p, Suc ord) \<inter> span (i, ord) \<noteq> {}"
        using valid_parent(2) [OF v lt] span_nonempty [of "(i, ord)"] by blast
      ultimately have "(?p, Suc ord) = (i, ord)"
        using "1.prems"(2) by (intro partitions_disjoint [OF "1.prems"(3)]) simp_all
      then show False by simp
    qed
    then have int: "free_blocks c ?bm \<inter> A = {}" using "1.prems"(4) F by auto
    have co: "coalesced_but c (free_blocks c ?bm) (?p, ord + 1)"
      using coalesced_but_merge [OF "1.prems"(5)] F by simp
    show ?thesis
      unfolding eq
      by (rule "1.IH" [OF _ refl _ refl refl refl refl])
        (use True "1.prems"(1) F part int co in \<open>simp_all add: not_le\<close>)
  qed
qed

section \<open>The invariant\<close>

text \<open>
  \<open>alloc_inv c A s\<close>: \<open>A\<close> is the set of buffers handed out and not yet freed. Free and live
  buffers are valid, no buffer is both, together they tile the memory without overlap, and no two
  buddies are both free.
\<close>

definition alloc_inv :: "alloc_cfg \<Rightarrow> block set \<Rightarrow> bitmap \<Rightarrow> bool" where
  "alloc_inv c A bm \<longleftrightarrow> bitmap_wf c bm \<and> (\<forall>b \<in> A. valid_block c b) \<and> free_blocks c bm \<inter> A = {}
     \<and> partitions (2 ^ BATHOS_MAX_ORDER c) (free_blocks c bm \<union> A) \<and> coalesced c (free_blocks c bm)"

lemma split_free_coalesced:
  assumes "alloc_inv c A bm" "best_fit (free_blocks c bm) m (i, k)"
  shows "coalesced c (split_free (free_blocks c bm) i m k - {(i, m)})"
proof -
  let ?F = "free_blocks c bm"
  have ik: "(i, k) \<in> ?F" "m \<le> k" and v: "valid_block c (i, k)"
    using assms(2) by (auto simp: best_fit_def free_blocks_def)
  have part: "partitions (2 ^ BATHOS_MAX_ORDER c) (?F \<union> A)" using assms(1) by (simp add: alloc_inv_def)
  have low: "(i, l) \<notin> ?F" if "l < k" for l
  proof
    assume "(i, l) \<in> ?F"
    moreover have "span (i, l) \<inter> span (i, k) \<noteq> {}" by (auto simp: span_def)
    ultimately have "(i, l) = (i, k)"
      using ik by (intro partitions_disjoint [OF part]) simp_all
    with that show False by simp
  qed
  have up: "get_buddy (i + 2 ^ l) l = i" if "l < k" for l
  proof -
    have vl: "valid_block c (i, Suc l)"
      using pieces_valid [OF v, of "Suc l"] that by (simp add: pieces_def)
    have "Suc l \<le> BATHOS_MAX_ORDER c" using vl by (simp add: valid_block_def)
    with valid_halves [OF vl] valid_buddy(3) [of c i l] show ?thesis by simp
  qed
  have False if j: "(j, l) \<in> split_free ?F i m k - {(i, m)}" "l < BATHOS_MAX_ORDER c"
    and b: "(get_buddy j l, l) \<in> split_free ?F i m k - {(i, m)}" for j l
  proof -
    from j(1) consider "(j, l) \<in> ?F" | "j = i + 2 ^ l" "m \<le> l" "l < k"
      by (auto simp: split_free_def pieces_def)
    then show False
    proof cases
      case 1
      then have vj: "valid_block c (j, l)" by (simp add: free_blocks_def)
      from b consider "(get_buddy j l, l) \<in> ?F" | "get_buddy j l = i + 2 ^ l" "m \<le> l" "l < k"
        by (auto simp: split_free_def pieces_def)
      then show False
      proof cases
        case 2
        with up [of l] valid_buddy(3) [OF vj j(2)] have "j = i" by simp
        with 1 low [of l] 2 show False by simp
      qed (use 1 j(2) assms(1) coalescedD in \<open>auto simp: alloc_inv_def\<close>)
    next
      case 2
      with up have "get_buddy j l = i" by simp
      with b 2 low [of l] show False by (auto simp: split_free_def pieces_def)
    qed
  qed
  then show ?thesis unfolding coalesced_def by blast
qed

lemma best_fit_valid:
  "best_fit (free_blocks c bm) m (i, k) \<Longrightarrow> m \<le> k \<and> valid_block c (i, k) \<and> valid_block c (i, m)"
  using pieces_valid [of c i k m "(i, m)"] by (auto simp: best_fit_def free_blocks_def pieces_def)

text \<open>Taking the best fit and splitting it keeps the invariant, with the new buffer live.\<close>

lemma alloc_inv_take:
  assumes inv: "alloc_inv c A bm" and fit: "best_fit (free_blocks c bm) m (i, k)"
    and wf: "bitmap_wf c bm'" and F': "free_blocks c bm' = split_free (free_blocks c bm) i m k"
  shows "alloc_inv c (insert (i, m) A) (mark_unavailable c i m bm')" and "(i, m) \<notin> A"
proof -
  let ?F = "free_blocks c bm"
  have ik: "(i, k) \<in> ?F" using fit by (simp add: best_fit_def)
  note v = best_fit_valid [OF fit]
  have part: "partitions (2 ^ BATHOS_MAX_ORDER c) (?F \<union> A)" and dis: "?F \<inter> A = {}"
    using inv by (auto simp: alloc_inv_def)
  have new: "x \<notin> A" if "x \<in> pieces i m k" for x
  proof
    assume x: "x \<in> A"
    have "span x \<subseteq> span (i, k)" using pieces_span [of m k i] v that by blast
    then have "span x \<inter> span (i, k) \<noteq> {}" using span_nonempty [of x] by blast
    then have "x = (i, k)" using x ik by (intro partitions_disjoint [OF part]) simp_all
    with x ik dis show False by blast
  qed
  have im: "(i, m) \<in> pieces i m k" by (simp add: pieces_def)
  with new show "(i, m) \<notin> A" by blast
  have F2: "free_blocks c (mark_unavailable c i m bm') = split_free ?F i m k - {(i, m)}"
    using free_mark_unavailable [OF wf, of i m] v F' by simp
  have "?F \<union> A - {(i, k)} \<union> pieces i m k = split_free ?F i m k - {(i, m)} \<union> insert (i, m) A"
    using ik dis im by (auto simp: split_free_def)
  then have "partitions (2 ^ BATHOS_MAX_ORDER c) (split_free ?F i m k - {(i, m)} \<union> insert (i, m) A)"
    using partitions_refine [OF part, of "(i, k)" "pieces i m k"] ik pieces_span [of m k i] v
      pieces_disjoint by auto
  moreover have "(split_free ?F i m k - {(i, m)}) \<inter> insert (i, m) A = {}"
    using dis new by (auto simp: split_free_def)
  ultimately show "alloc_inv c (insert (i, m) A) (mark_unavailable c i m bm')"
    using inv wf v split_free_coalesced [OF inv fit] unfolding alloc_inv_def F2 by simp
qed

text \<open>Freeing a live buffer keeps the invariant, with the buffer no longer live.\<close>

lemma alloc_inv_release:
  assumes inv: "alloc_inv c A bm" and b: "(i, m) \<in> A"
  shows "alloc_inv c (A - {(i, m)}) (coalesce_buffers c i m (mark_available c i m bm))"
proof -
  let ?bm = "mark_available c i m bm"
  have v: "valid_block c (i, m)" and wf: "bitmap_wf c bm" using inv b by (auto simp: alloc_inv_def)
  note F = free_mark_available [OF wf v]
  have "free_blocks c ?bm \<union> (A - {(i, m)}) = free_blocks c bm \<union> A" using F b by auto
  then have "partitions (2 ^ BATHOS_MAX_ORDER c) (free_blocks c ?bm \<union> (A - {(i, m)}))"
    using inv by (simp add: alloc_inv_def)
  moreover have "free_blocks c ?bm \<inter> (A - {(i, m)}) = {}" using inv F by (auto simp: alloc_inv_def)
  moreover have "coalesced_but c (free_blocks c ?bm) (i, m)"
    using inv F coalesced_insert [of c "free_blocks c bm" "(i, m)"] by (simp add: alloc_inv_def)
  ultimately show ?thesis
    using coalesce_buffers_spec [of c ?bm i m "2 ^ BATHOS_MAX_ORDER c" "A - {(i, m)}"] wf F inv
    by (simp add: alloc_inv_def)
qed

end
