(* ===== verification/AllocatorRun.thy ===== *)
theory AllocatorRun
  imports AllocatorProps
begin

text \<open>
  The contract of \<^verbatim>\<open>bathos_alloc_buffer\<close> and \<^verbatim>\<open>bathos_free_buffer\<close> over whole runs of a client
  that frees only what it holds: live buffers never overlap, a request fails only when no free
  buffer is large enough, and the memory becomes one buffer again when everything is freed.
\<close>

section \<open>Sizes\<close>

definition cfg_wf :: "alloc_cfg \<Rightarrow> bool" where
  "cfg_wf c \<longleftrightarrow> 5 \<le> BATHOS_NORDERS c \<and> 0 < cfg_mem_size c \<and> 2 ^ BATHOS_MAX_ORDER c dvd cfg_mem_size c"

lemma cfg_wfE:
  assumes "cfg_wf c"
  obtains u where "0 < u" "cfg_mem_size c = u * 2 ^ BATHOS_MAX_ORDER c" "BATHOS_BUF_SIZE c 0 = u"
    "\<And>k. k \<le> BATHOS_MAX_ORDER c \<Longrightarrow> BATHOS_BUF_SIZE c k = 2 ^ k * u"
proof -
  from assms obtain u where u: "cfg_mem_size c = u * 2 ^ BATHOS_MAX_ORDER c"
    by (auto simp: cfg_wf_def mult.commute elim!: dvdE)
  have sz: "BATHOS_BUF_SIZE c k = 2 ^ k * u" if "k \<le> BATHOS_MAX_ORDER c" for k
  proof -
    have "(2::nat) ^ BATHOS_MAX_ORDER c = 2 ^ k * 2 ^ (BATHOS_MAX_ORDER c - k)"
      using that by (simp flip: power_add)
    then have "cfg_mem_size c = 2 ^ k * u * 2 ^ (BATHOS_MAX_ORDER c - k)" by (simp add: u)
    then show ?thesis using that by (simp add: BATHOS_BUF_SIZE_def NBUFS_eq)
  qed
  show thesis
  proof (rule that [of u])
    show "0 < u" using assms u by (cases u) (simp_all add: cfg_wf_def)
    show "BATHOS_BUF_SIZE c 0 = u" using sz [of 0] by simp
  qed (use u sz in simp_all)
qed

lemma size_to_order_loop_upt:
  "a \<le> n \<Longrightarrow> size_to_order_loop c sz [a..<n] = (if \<exists>k \<in> {a..<n}. sz \<le> int (BATHOS_BUF_SIZE c k)
     then int (LEAST k. a \<le> k \<and> sz \<le> int (BATHOS_BUF_SIZE c k)) else - 1)"
proof (induction "n - a" arbitrary: a)
  case (Suc d)
  then have l: "[a..<n] = a # [Suc a..<n]" by (simp add: upt_conv_Cons)
  have split: "{a..<n} = insert a {Suc a..<n}" using Suc by auto
  show ?case
  proof (cases "sz \<le> int (BATHOS_BUF_SIZE c a)")
    case True
    then have "(LEAST k. a \<le> k \<and> sz \<le> int (BATHOS_BUF_SIZE c k)) = a" by (intro Least_equality) auto
    then show ?thesis using True l split by simp
  next
    case False
    then have "a \<le> k \<and> sz \<le> int (BATHOS_BUF_SIZE c k) \<longleftrightarrow> Suc a \<le> k \<and> sz \<le> int (BATHOS_BUF_SIZE c k)" for k
      by (metis Suc_leD antisym_conv not_less_eq_eq)
    then show ?thesis using False Suc.hyps l split by simp
  qed
qed simp

lemma size_to_order_eq:
  "size_to_order c sz = (if \<exists>k \<le> BATHOS_MAX_ORDER c. sz \<le> int (BATHOS_BUF_SIZE c k)
     then int (LEAST k. sz \<le> int (BATHOS_BUF_SIZE c k)) else - 1)"
  unfolding size_to_order_def
  by (subst size_to_order_loop_upt) (auto simp: less_Suc_eq_le)

lemma size_to_order_nonneg:
  assumes "size_to_order c sz = int m"
  shows "m \<le> BATHOS_MAX_ORDER c" and "sz \<le> int (BATHOS_BUF_SIZE c m)"
    and "k < m \<Longrightarrow> int (BATHOS_BUF_SIZE c k) < sz"
proof -
  let ?P = "\<lambda>k. sz \<le> int (BATHOS_BUF_SIZE c k)"
  have ex: "\<exists>k \<le> BATHOS_MAX_ORDER c. ?P k" and m: "m = (LEAST k. ?P k)"
    using assms unfolding size_to_order_eq by (cases "\<exists>k \<le> BATHOS_MAX_ORDER c. ?P k"; simp)+
  from ex obtain k0 where k0: "k0 \<le> BATHOS_MAX_ORDER c" "?P k0" by auto
  show "m \<le> BATHOS_MAX_ORDER c" using Least_le [of ?P k0] k0 m by simp
  show "?P m" unfolding m by (rule LeastI [of ?P k0]) (rule k0)
  show "k < m \<Longrightarrow> int (BATHOS_BUF_SIZE c k) < sz" using not_less_Least [of k ?P] m by simp
qed

lemma size_to_order_neg:
  "size_to_order c sz < 0 \<longleftrightarrow> (\<forall>k \<le> BATHOS_MAX_ORDER c. int (BATHOS_BUF_SIZE c k) < sz)"
proof (cases "\<exists>k \<le> BATHOS_MAX_ORDER c. sz \<le> int (BATHOS_BUF_SIZE c k)")
  case True
  then have "\<not> size_to_order c sz < 0" unfolding size_to_order_eq by simp
  with True show ?thesis using not_less by blast
next
  case False
  then have "size_to_order c sz < 0" unfolding size_to_order_eq by simp
  with False show ?thesis using not_less by blast
qed

section \<open>The initial state\<close>

definition alloc_boot :: "alloc_cfg \<Rightarrow> alloc_state" where
  "alloc_boot c = \<lparr>al_bitmap = replicate (BATHOS_MAP_NBITS c div BITS_PER_LONG) 0, al_initialized = False\<rparr>"

lemma test_bit_replicate_0: "b < 32 * n \<Longrightarrow> \<not> test_bit_c b (replicate n 0)"
  by (simp add: test_bit_c_iff less_mult_imp_div_less mult.commute)

lemma free_blocks_boot:
  assumes "5 \<le> BATHOS_NORDERS c"
  shows "bitmap_wf c (al_bitmap (alloc_boot c))" "free_blocks c (al_bitmap (alloc_boot c)) = {}"
proof -
  let ?bm = "al_bitmap (alloc_boot c)"
  show wf: "bitmap_wf c ?bm" using assms by (simp add: bitmap_wf_def alloc_boot_def)
  have "\<not> is_free c i k ?bm" if "valid_block c (i, k)" for i k
  proof -
    have "index_to_bit c i k < nbits_of ?bm"
      using valid_block_bit(3) [OF that] nbits_bitmap [OF wf] by simp
    then have "index_to_bit c i k < 32 * length ?bm" by (simp add: nbits_of_def BITS_PER_LONG_def)
    then show ?thesis using test_bit_replicate_0 by (simp add: is_free_def alloc_boot_def)
  qed
  then show "free_blocks c ?bm = {}" by (auto simp: free_blocks_def)
qed

lemma valid_top: "valid_block c (0, BATHOS_MAX_ORDER c)"
  by (simp add: valid_block_def)

lemma alloc_inv_init:
  assumes "5 \<le> BATHOS_NORDERS c"
  shows "alloc_inv c {} (al_bitmap (bathos_alloc_init c (alloc_boot c)))"
proof -
  note b = free_blocks_boot [OF assms]
  have F: "free_blocks c (al_bitmap (bathos_alloc_init c (alloc_boot c))) = {(0, BATHOS_MAX_ORDER c)}"
    using free_mark_available [OF b(1) valid_top] b(2) by (simp add: bathos_alloc_init_def)
  have "partitions (2 ^ BATHOS_MAX_ORDER c) {(0, BATHOS_MAX_ORDER c)}"
    by (auto simp: partitions_def span_def)
  then show ?thesis
    using b(1) by (simp add: alloc_inv_def F coalesced_def) (simp add: bathos_alloc_init_def)
qed

lemma span_top: "span (0, k) = {..<2 ^ k}"
  by (auto simp: span_def)

lemma partitions_covers:
  assumes "partitions n S" "u < n" obtains b where "b \<in> S" "u \<in> span b"
proof -
  have "u \<in> \<Union> (span ` S)" using assms by (simp add: partitions_def)
  then show thesis using that by blast
qed

text \<open>When nothing is live, the memory is one free buffer: freeing loses nothing.\<close>

lemma alloc_inv_empty:
  assumes inv: "alloc_inv c {} bm"
  shows "free_blocks c bm = {(0, BATHOS_MAX_ORDER c)}"
proof -
  let ?F = "free_blocks c bm" and ?M = "BATHOS_MAX_ORDER c"
  have part: "partitions (2 ^ ?M) ?F" and co: "coalesced c ?F" using inv by (simp_all add: alloc_inv_def)
  have val: "valid_block c b" if "b \<in> ?F" for b using that by (simp add: free_blocks_def)
  have "0 \<in> {..<(2::nat) ^ ?M}" by simp
  then have "?F \<noteq> {}" using part unfolding partitions_def by fastforce
  then obtain b0 where "b0 \<in> ?F" by blast
  then obtain b1 where "b1 \<in> ?F" "\<forall>y. y \<in> ?F \<longrightarrow> snd b1 \<le> snd y"
    using ex_has_least_nat [of "\<lambda>b. b \<in> ?F" b0 snd] by blast
  then obtain i k where ik: "(i, k) \<in> ?F" and least: "\<And>j l. (j, l) \<in> ?F \<Longrightarrow> k \<le> l"
    by (cases b1) force
  have "k = ?M"
  proof (rule ccontr)
    assume "k \<noteq> ?M"
    with val [OF ik] have k: "k < ?M" by (simp add: valid_block_def)
    let ?b = "get_buddy i k"
    have vb: "valid_block c (?b, k)" by (rule valid_buddy(1) [OF val [OF ik] k])
    have "?b \<in> span (?b, k)" by (simp add: span_def)
    then have "?b < 2 ^ ?M" using valid_block_span [OF vb] by blast
    then obtain j l where jl: "(j, l) \<in> ?F" "?b \<in> span (j, l)"
      using partitions_covers [OF part] by (metis surj_pair)
    have meet: "span (?b, k) \<inter> span (j, l) \<noteq> {}" using \<open>?b \<in> span (?b, k)\<close> jl(2) by blast
    then have sub: "span (?b, k) \<subseteq> span (j, l)"
      by (rule span_nested [OF vb val [OF jl(1)] least [OF jl(1)]])
    show False
    proof (cases "l = k")
      case True
      have "span (j, l) \<subseteq> span (?b, k)"
        using span_nested [OF val [OF jl(1)] vb] True jl(2) \<open>?b \<in> span (?b, k)\<close> by blast
      with sub True have "j = ?b" by (auto simp: span_def)
      with True jl(1) coalescedD [OF co ik k] show False by simp
    next
      case False
      with least [OF jl(1)] have "Suc k \<le> l" by simp
      note p = valid_parent [OF val [OF ik] k]
      have "span (get_parent i k, Suc k) \<inter> span (j, l) \<noteq> {}" using p(2) jl(2) \<open>?b \<in> span (?b, k)\<close> by auto
      then have "span (get_parent i k, Suc k) \<subseteq> span (j, l)"
        by (rule span_nested [OF p(1) val [OF jl(1)] \<open>Suc k \<le> l\<close>])
      then have "span (i, k) \<inter> span (j, l) \<noteq> {}" using p(2) span_nonempty [of "(i, k)"] by blast
      then have "(i, k) = (j, l)" using partitions_disjoint [OF part ik jl(1)] by simp
      with False show False by simp
    qed
  qed
  then have i: "i = 0" using val [OF ik] by (auto simp: valid_block_def NBUFS_eq)
  have "b = (0, ?M)" if "b \<in> ?F" for b
  proof (rule partitions_disjoint [OF part that])
    show "(0, ?M) \<in> ?F" using ik i \<open>k = ?M\<close> by simp
    show "span b \<inter> span (0, ?M) \<noteq> {}"
      using valid_block_span [OF val [OF that]] span_nonempty [of b] unfolding span_top by blast
  qed
  moreover have "(0, ?M) \<in> ?F" using ik i \<open>k = ?M\<close> by simp
  ultimately show ?thesis by blast
qed


section \<open>One call\<close>

text \<open>
  \<open>alloc_state_inv\<close> is the invariant of the whole state, before the first call (nothing marked
  yet) and after it.
\<close>

definition alloc_state_inv :: "alloc_cfg \<Rightarrow> block set \<Rightarrow> alloc_state \<Rightarrow> bool" where
  "alloc_state_inv c A s \<longleftrightarrow>
     (if al_initialized s then alloc_inv c A (al_bitmap s) else A = {} \<and> s = alloc_boot c)"

text \<open>The bitmap the search of \<open>bathos_alloc_buffer\<close> starts from.\<close>

definition ready_bitmap :: "alloc_cfg \<Rightarrow> alloc_state \<Rightarrow> bitmap" where
  "ready_bitmap c s = (if al_initialized s then al_bitmap s else al_bitmap (bathos_alloc_init c s))"

lemma alloc_inv_ready:
  "5 \<le> BATHOS_NORDERS c \<Longrightarrow> alloc_state_inv c A s \<Longrightarrow> alloc_inv c A (ready_bitmap c s)"
  by (auto simp: alloc_state_inv_def ready_bitmap_def alloc_inv_init split: if_splits)

lemma alloc_initialized: "al_initialized (snd (bathos_alloc_buffer c sz s))"
  by (auto simp: bathos_alloc_buffer_def Let_def split: prod.split option.split)

lemma alloc_buffer_unfold:
  "bathos_alloc_buffer c sz s =
     (if size_to_order c sz < 0 then (None, \<lparr>al_bitmap = ready_bitmap c s, al_initialized = True\<rparr>)
      else (case alloc_loop c (nat (size_to_order c sz)) (nat (size_to_order c sz)) (ready_bitmap c s) of
         (None, bm) \<Rightarrow> (None, \<lparr>al_bitmap = bm, al_initialized = True\<rparr>)
       | (Some i, bm) \<Rightarrow> (Some (i * BATHOS_BUF_SIZE c 0),
           \<lparr>al_bitmap = mark_unavailable c i (nat (size_to_order c sz)) bm, al_initialized = True\<rparr>)))"
  by (cases s) (auto simp: bathos_alloc_buffer_def ready_bitmap_def bathos_alloc_init_def Let_def
      split: prod.split option.split)

lemma size_to_order_nat:
  assumes "\<not> size_to_order c sz < 0"
  shows "size_to_order c sz = int (nat (size_to_order c sz))"
    and "nat (size_to_order c sz) \<le> BATHOS_MAX_ORDER c"
  using assms size_to_order_nonneg(1) [of c sz "nat (size_to_order c sz)"] by simp_all

lemma alloc_loop_inv:
  assumes "alloc_inv c A bm" "m \<le> BATHOS_MAX_ORDER c"
  shows "case alloc_loop c m m bm of
    (Some i, bm') \<Rightarrow> bitmap_wf c bm' \<and>
      (\<exists>k. best_fit (free_blocks c bm) m (i, k) \<and> free_blocks c bm' = split_free (free_blocks c bm) i m k)
  | (None, bm') \<Rightarrow> bm' = bm \<and> (\<forall>b \<in> free_blocks c bm. snd b < m)"
  using assms by (intro alloc_loop_spec) (auto simp: alloc_inv_def)

lemma alloc_buffer_Some:
  assumes c: "cfg_wf c" and inv: "alloc_state_inv c A s" and r: "bathos_alloc_buffer c sz s = (Some p, s')"
  obtains i m k where "p = i * BATHOS_BUF_SIZE c 0" "size_to_order c sz = int m"
    "best_fit (free_blocks c (ready_bitmap c s)) m (i, k)" "(i, m) \<notin> A" "valid_block c (i, m)"
    "alloc_state_inv c (insert (i, m) A) s'"
proof -
  let ?m = "nat (size_to_order c sz)"
  have ainv: "alloc_inv c A (ready_bitmap c s)" using alloc_inv_ready c inv by (auto simp: cfg_wf_def)
  from r have o: "\<not> size_to_order c sz < 0" by (auto simp: alloc_buffer_unfold split: if_splits)
  from r o obtain i bm where l: "alloc_loop c ?m ?m (ready_bitmap c s) = (Some i, bm)"
    and p: "p = i * BATHOS_BUF_SIZE c 0"
    and s': "s' = \<lparr>al_bitmap = mark_unavailable c i ?m bm, al_initialized = True\<rparr>"
    by (auto simp: alloc_buffer_unfold split: prod.splits option.splits)
  note m = size_to_order_nat [OF o]
  from alloc_loop_inv [OF ainv m(2)] l obtain k where wf: "bitmap_wf c bm"
    and fit: "best_fit (free_blocks c (ready_bitmap c s)) ?m (i, k)"
    and F: "free_blocks c bm = split_free (free_blocks c (ready_bitmap c s)) i ?m k" by auto
  note t = alloc_inv_take [OF ainv fit wf F]
  have "alloc_state_inv c (insert (i, ?m) A) s'" using t(1) by (simp add: alloc_state_inv_def s')
  with p m(1) fit t(2) best_fit_valid [OF fit] show thesis by (intro that) auto
qed

lemma alloc_buffer_None:
  assumes c: "cfg_wf c" and inv: "alloc_state_inv c A s" and r: "bathos_alloc_buffer c sz s = (None, s')"
  shows "size_to_order c sz < 0 \<or> (\<forall>b \<in> free_blocks c (ready_bitmap c s). int (snd b) < size_to_order c sz)"
    and "s' = \<lparr>al_bitmap = ready_bitmap c s, al_initialized = True\<rparr>" and "alloc_state_inv c A s'"
proof -
  let ?m = "nat (size_to_order c sz)"
  have ainv: "alloc_inv c A (ready_bitmap c s)" using alloc_inv_ready c inv by (auto simp: cfg_wf_def)
  have 1: "(size_to_order c sz < 0 \<or> (\<forall>b \<in> free_blocks c (ready_bitmap c s). int (snd b) < size_to_order c sz))
      \<and> s' = \<lparr>al_bitmap = ready_bitmap c s, al_initialized = True\<rparr>"
  proof (cases "size_to_order c sz < 0")
    case False
    note m = size_to_order_nat [OF False]
    from r False obtain bm where "alloc_loop c ?m ?m (ready_bitmap c s) = (None, bm)"
      and "s' = \<lparr>al_bitmap = bm, al_initialized = True\<rparr>"
      by (auto simp: alloc_buffer_unfold split: prod.splits option.splits)
    with alloc_loop_inv [OF ainv m(2)] m(1) show ?thesis by force
  qed (use r in \<open>simp add: alloc_buffer_unfold\<close>)
  then show "size_to_order c sz < 0 \<or> (\<forall>b \<in> free_blocks c (ready_bitmap c s). int (snd b) < size_to_order c sz)"
    and "s' = \<lparr>al_bitmap = ready_bitmap c s, al_initialized = True\<rparr>" by simp_all
  with ainv show "alloc_state_inv c A s'" by (simp add: alloc_state_inv_def)
qed

lemma free_buffer_ok:
  assumes "off < cfg_mem_size c" "size_to_order c sz = int m" "0 < m" "int off AND push_bit (m - 1) 1 = 0"
  shows "bathos_free_buffer c (int off) sz s = Some (s\<lparr>al_bitmap :=
    coalesce_buffers c (off div BATHOS_BUF_SIZE c 0) m
      (mark_available c (off div BATHOS_BUF_SIZE c 0) m (al_bitmap s))\<rparr>)"
proof -
  have "nat (int m - 1) = m - 1" by simp
  with assms show ?thesis unfolding bathos_free_buffer_def Let_def assms(2) by auto
qed

text \<open>Freeing a live buffer of order at least 1, with any size of that order.\<close>

lemma free_buffer_live:
  assumes c: "cfg_wf c" and inv: "alloc_state_inv c A s" and b: "(i, m) \<in> A" "0 < m"
    and sz: "size_to_order c sz = int m"
  obtains s' where "bathos_free_buffer c (int (i * BATHOS_BUF_SIZE c 0)) sz s = Some s'"
    "alloc_state_inv c (A - {(i, m)}) s'"
proof -
  from inv b have init: "al_initialized s" and ainv: "alloc_inv c A (al_bitmap s)"
    by (auto simp: alloc_state_inv_def split: if_splits)
  have v: "valid_block c (i, m)" using ainv b by (auto simp: alloc_inv_def)
  obtain u where u: "0 < u" "cfg_mem_size c = u * 2 ^ BATHOS_MAX_ORDER c" "BATHOS_BUF_SIZE c 0 = u"
    using cfg_wfE [OF c] by metis
  have "i \<in> span (i, m)" by (simp add: span_def)
  with valid_block_span [OF v] have "i < 2 ^ BATHOS_MAX_ORDER c" by blast
  with u have in_mem: "i * u < cfg_mem_size c" by (simp add: mult.commute)
  obtain q where q: "i = q * 2 ^ m" using v by (rule valid_blockE)
  have "int (i * u) = push_bit m (int (q * u))" by (simp add: q push_bit_eq_mult)
  then have "\<not> bit (int (i * u)) (m - 1)" using b(2) by (auto simp: bit_push_bit_iff)
  then have al: "int (i * u) AND push_bit (m - 1) 1 = 0"
    unfolding bit_iff_and_push_bit_not_eq_0 by blast
  have r: "bathos_free_buffer c (int (i * u)) sz s =
      Some (s\<lparr>al_bitmap := coalesce_buffers c i m (mark_available c i m (al_bitmap s))\<rparr>)"
    using free_buffer_ok [OF in_mem sz b(2) al] u(1,3) by simp
  then show thesis
    using u(3) init alloc_inv_release [OF ainv b(1)] by (intro that) (auto simp: alloc_state_inv_def)
qed


section \<open>Runs\<close>

text \<open>
  A run of a client from boot: requests of any size, and frees of buffers it holds with a size of
  the order they were requested with. \<open>A\<close> is the set of buffers the client holds.
\<close>

inductive alloc_run :: "alloc_cfg \<Rightarrow> block set \<Rightarrow> alloc_state \<Rightarrow> bool" for c where
  run_boot: "alloc_run c {} (alloc_boot c)"
| run_alloc: "alloc_run c A s \<Longrightarrow> bathos_alloc_buffer c sz s = (Some p, s') \<Longrightarrow>
    alloc_run c (insert (p div BATHOS_BUF_SIZE c 0, nat (size_to_order c sz)) A) s'"
| run_fail: "alloc_run c A s \<Longrightarrow> bathos_alloc_buffer c sz s = (None, s') \<Longrightarrow> alloc_run c A s'"
| run_free: "alloc_run c A s \<Longrightarrow> (i, m) \<in> A \<Longrightarrow> size_to_order c sz = int m \<Longrightarrow>
    bathos_free_buffer c (int (i * BATHOS_BUF_SIZE c 0)) sz s = Some s' \<Longrightarrow> alloc_run c (A - {(i, m)}) s'"

lemma free_buffer_order_0:
  "size_to_order c sz = 0 \<Longrightarrow> off < cfg_mem_size c \<Longrightarrow> bathos_free_buffer c (int off) sz s = None"
  by (simp add: bathos_free_buffer_def)

lemma alloc_state_inv_valid:
  "alloc_state_inv c A s \<Longrightarrow> b \<in> A \<Longrightarrow> valid_block c b"
  by (auto simp: alloc_state_inv_def alloc_inv_def split: if_splits)

lemma valid_block_offset:
  assumes "cfg_wf c" "valid_block c (i, m)"
  shows "i * BATHOS_BUF_SIZE c 0 < cfg_mem_size c" "i * BATHOS_BUF_SIZE c 0 div BATHOS_BUF_SIZE c 0 = i"
    and "i * BATHOS_BUF_SIZE c 0 + BATHOS_BUF_SIZE c m \<le> cfg_mem_size c"
proof -
  obtain u where u: "0 < u" "cfg_mem_size c = u * 2 ^ BATHOS_MAX_ORDER c" "BATHOS_BUF_SIZE c 0 = u"
    "BATHOS_BUF_SIZE c m = 2 ^ m * u"
    using cfg_wfE [OF assms(1)] assms(2) by (metis valid_blockE)
  have "(0::nat) < 2 ^ m" by simp
  then have "i + 2 ^ m - 1 \<in> span (i, m)"
    unfolding span_def fst_conv snd_conv atLeastLessThan_iff by linarith
  with valid_block_span [OF assms(2)] have "i + 2 ^ m - 1 < 2 ^ BATHOS_MAX_ORDER c" by blast
  then have le: "i + 2 ^ m \<le> 2 ^ BATHOS_MAX_ORDER c" by simp
  then have "(i + 2 ^ m) * u \<le> 2 ^ BATHOS_MAX_ORDER c * u" by (rule mult_right_mono) simp
  then show "i * BATHOS_BUF_SIZE c 0 + BATHOS_BUF_SIZE c m \<le> cfg_mem_size c"
    by (simp add: u algebra_simps)
  moreover have "0 < 2 ^ m * u" using u(1) by simp
  ultimately show "i * BATHOS_BUF_SIZE c 0 < cfg_mem_size c" unfolding u(4) by linarith
  show "i * BATHOS_BUF_SIZE c 0 div BATHOS_BUF_SIZE c 0 = i" using u(1,3) by simp
qed

lemma alloc_run_inv:
  assumes "alloc_run c A s" "cfg_wf c"
  shows "alloc_state_inv c A s"
  using assms
proof (induction rule: alloc_run.induct)
  case run_boot
  then show ?case by (simp add: alloc_state_inv_def) (simp add: alloc_boot_def)
next
  case (run_alloc A s sz p s')
  from alloc_buffer_Some [OF run_alloc.prems run_alloc.IH [OF run_alloc.prems] run_alloc.hyps(2)]
  obtain i m where "p = i * BATHOS_BUF_SIZE c 0" "size_to_order c sz = int m" "valid_block c (i, m)"
    "alloc_state_inv c (insert (i, m) A) s'" by metis
  then show ?case using valid_block_offset(2) [OF run_alloc.prems, of i m] by simp
next
  case (run_fail A s sz s')
  then show ?case using alloc_buffer_None(3) by blast
next
  case (run_free A s i m sz s')
  note inv = run_free.IH [OF run_free.prems]
  have "0 < m"
  proof (rule ccontr)
    assume "\<not> 0 < m"
    then have "bathos_free_buffer c (int (i * BATHOS_BUF_SIZE c 0)) sz s = None"
      using run_free.hyps(3) valid_block_offset(1) [OF run_free.prems alloc_state_inv_valid [OF inv run_free.hyps(2)]]
      by (intro free_buffer_order_0) simp_all
    with run_free.hyps(4) show False by simp
  qed
  then show ?case
    using free_buffer_live [OF run_free.prems inv run_free.hyps(2) _ run_free.hyps(3)] run_free.hyps(4)
    by (metis option.inject)
qed


text \<open>The bytes of a buffer.\<close>

definition block_bytes :: "alloc_cfg \<Rightarrow> block \<Rightarrow> nat set" where
  "block_bytes c b = {fst b * BATHOS_BUF_SIZE c 0 ..< fst b * BATHOS_BUF_SIZE c 0 + BATHOS_BUF_SIZE c (snd b)}"

lemma block_bytes_span:
  assumes "cfg_wf c" "snd b \<le> BATHOS_MAX_ORDER c"
  shows "x \<in> block_bytes c b \<longleftrightarrow> x div BATHOS_BUF_SIZE c 0 \<in> span b"
proof -
  obtain u where u: "0 < u" "BATHOS_BUF_SIZE c 0 = u" "BATHOS_BUF_SIZE c (snd b) = 2 ^ snd b * u"
    using cfg_wfE [OF assms(1)] assms(2) by metis
  have "x \<in> block_bytes c b \<longleftrightarrow> fst b * u \<le> x \<and> x < (fst b + 2 ^ snd b) * u"
    by (simp add: block_bytes_def u algebra_simps)
  also have "\<dots> \<longleftrightarrow> fst b \<le> x div u \<and> x div u < fst b + 2 ^ snd b"
    using u(1) by (simp add: less_eq_div_iff_mult_less_eq div_less_iff_less_mult)
  finally show ?thesis by (simp add: span_def u)
qed

lemma live_disjoint:
  assumes "cfg_wf c" "alloc_state_inv c A s" "b \<in> A" "b' \<in> A" "b \<noteq> b'"
  shows "block_bytes c b \<inter> block_bytes c b' = {}"
proof -
  have part: "partitions (2 ^ BATHOS_MAX_ORDER c) (free_blocks c (al_bitmap s) \<union> A)"
    using assms(2,3) by (auto simp: alloc_state_inv_def alloc_inv_def split: if_splits)
  have v: "valid_block c b" "valid_block c b'" using alloc_state_inv_valid assms by blast+
  have "span b \<inter> span b' = {}" using partitions_disjoint [OF part, of b b'] assms by blast
  then show ?thesis
    using block_bytes_span [OF assms(1)] v unfolding valid_block_def by blast
qed

section \<open>Properties\<close>

text \<open>
  The concrete instance of the witnesses is the default configuration: 8 orders, 1024 bytes.
  Two requests of 512 bytes fill the memory.
\<close>

definition default_cfg :: alloc_cfg where
  "default_cfg = \<lparr>cfg_norders_log = 3, cfg_mem_size = 1024\<rparr>"

definition ex_held :: "nat \<Rightarrow> alloc_state" where
  "ex_held n = \<lparr>al_bitmap = [0, 0, 0, 0, 0, 0, 0, if n = 0 then 0x40000000 else if n = 1 then 0x20000000 else 0],
     al_initialized = True\<rparr>"

lemma default_cfg_wf: "cfg_wf default_cfg"
  by code_simp

lemma ex_order: "size_to_order default_cfg 512 = 6"
  by code_simp

lemma ex_alloc_1: "bathos_alloc_buffer default_cfg 512 (alloc_boot default_cfg) = (Some 0, ex_held 1)"
  by code_simp

lemma ex_alloc_2: "bathos_alloc_buffer default_cfg 512 (ex_held 1) = (Some 512, ex_held 2)"
  by code_simp

lemma ex_run_1: "alloc_run default_cfg {(0, 6)} (ex_held 1)"
  using run_alloc [OF run_boot ex_alloc_1] by (simp add: ex_order)

lemma ex_run_2: "alloc_run default_cfg {(64, 6), (0, 6)} (ex_held 2)"
proof -
  have "BATHOS_BUF_SIZE default_cfg 0 = 8" by code_simp
  then show ?thesis using run_alloc [OF ex_run_1 ex_alloc_2] by (simp add: ex_order)
qed

text \<open>
  C1. Whatever requests and frees a client made since boot, two buffers it holds have no byte in
  common, and every buffer it holds lies inside the managed memory.
\<close>

theorem alloc_run_disjoint:
  assumes "cfg_wf c" "alloc_run c A s" "b \<in> A"
  shows "block_bytes c b \<subseteq> {..<cfg_mem_size c} \<and> (\<forall>b' \<in> A. b' \<noteq> b \<longrightarrow> block_bytes c b \<inter> block_bytes c b' = {})"
proof -
  note inv = alloc_run_inv [OF assms(2,1)]
  obtain i m where b: "b = (i, m)" by fastforce
  have "block_bytes c b \<subseteq> {..<cfg_mem_size c}"
    using valid_block_offset(3) [OF assms(1), of i m] alloc_state_inv_valid [OF inv assms(3)]
    by (auto simp: b block_bytes_def)
  then show ?thesis using live_disjoint [OF assms(1) inv assms(3)] by blast
qed


theorem alloc_run_disjoint_witness:
  "block_bytes default_cfg (0, 6) \<inter> block_bytes default_cfg (64, 6) = {}"
  using alloc_run_disjoint [OF default_cfg_wf ex_run_2, of "(0, 6)"] by simp

text \<open>
  C5. A request succeeds exactly when its size is legal and some free buffer is large enough; it
  returns the lowest buffer of the smallest sufficient free order, and that buffer was not held
  and can take the requested size. A failed request changes no mark.
\<close>

theorem alloc_buffer_correct:
  assumes "cfg_wf c" "alloc_run c A s"
  shows "case bathos_alloc_buffer c sz s of
      (None, s') \<Rightarrow> (int (cfg_mem_size c) < sz \<or> (\<forall>b \<in> free_blocks c (ready_bitmap c s). int (snd b) < size_to_order c sz))
        \<and> al_bitmap s' = ready_bitmap c s
    | (Some p, s') \<Rightarrow> (\<exists>i m k. p = i * BATHOS_BUF_SIZE c 0 \<and> size_to_order c sz = int m
        \<and> best_fit (free_blocks c (ready_bitmap c s)) m (i, k) \<and> (i, m) \<notin> A \<and> sz \<le> int (BATHOS_BUF_SIZE c m))"
proof -
  note inv = alloc_run_inv [OF assms(2,1)]
  obtain r s' where r: "bathos_alloc_buffer c sz s = (r, s')" by fastforce
  have top: "BATHOS_BUF_SIZE c (BATHOS_MAX_ORDER c) = cfg_mem_size c"
    by (simp add: BATHOS_BUF_SIZE_def NBUFS_eq)
  show ?thesis
  proof (cases r)
    case None
    with r alloc_buffer_None [OF assms(1) inv, of sz s'] top show ?thesis
      by (auto simp: size_to_order_neg)
  next
    case (Some p)
    from alloc_buffer_Some [OF assms(1) inv r [unfolded Some]]
    obtain i m k where "p = i * BATHOS_BUF_SIZE c 0" "size_to_order c sz = int m"
      "best_fit (free_blocks c (ready_bitmap c s)) m (i, k)" "(i, m) \<notin> A" by metis
    with size_to_order_nonneg(2) have
      "\<exists>i m k. p = i * BATHOS_BUF_SIZE c 0 \<and> size_to_order c sz = int m
        \<and> best_fit (free_blocks c (ready_bitmap c s)) m (i, k) \<and> (i, m) \<notin> A \<and> sz \<le> int (BATHOS_BUF_SIZE c m)"
      by blast
    then show ?thesis using r Some by simp
  qed
qed

theorem alloc_buffer_correct_witness:
  "\<exists>i k. 512 = i * BATHOS_BUF_SIZE default_cfg 0
     \<and> best_fit (free_blocks default_cfg (ready_bitmap default_cfg (ex_held 1))) 6 (i, k) \<and> (i, 6) \<notin> {(0, 6)}"
proof -
  obtain i m k where *: "512 = i * BATHOS_BUF_SIZE default_cfg 0" "size_to_order default_cfg 512 = int m"
    "best_fit (free_blocks default_cfg (ready_bitmap default_cfg (ex_held 1))) m (i, k)" "(i, m) \<notin> {(0, 6)}"
    using alloc_buffer_correct [OF default_cfg_wf ex_run_1, of 512] unfolding ex_alloc_2 by auto
  then have "m = 6" by (simp add: ex_order)
  with * show ?thesis by blast
qed

text \<open>
  C6. Freeing a held buffer of order at least 1 always succeeds, leaves a run in which the buffer
  is no longer held, makes its units available again and leaves no two free buddies.
\<close>

theorem free_buffer_correct:
  assumes "cfg_wf c" "alloc_run c A s" "(i, m) \<in> A" "0 < m" "size_to_order c sz = int m"
  shows "\<exists>s'. bathos_free_buffer c (int (i * BATHOS_BUF_SIZE c 0)) sz s = Some s'
    \<and> alloc_run c (A - {(i, m)}) s' \<and> coalesced c (free_blocks c (al_bitmap s'))
    \<and> span (i, m) \<subseteq> \<Union> (span ` free_blocks c (al_bitmap s'))"
proof -
  note inv = alloc_run_inv [OF assms(2,1)]
  from free_buffer_live [OF assms(1) inv assms(3-5)] obtain s'
    where s': "bathos_free_buffer c (int (i * BATHOS_BUF_SIZE c 0)) sz s = Some s'"
    and inv': "alloc_state_inv c (A - {(i, m)}) s'" by blast
  have "al_initialized s" using inv assms(3) by (auto simp: alloc_state_inv_def split: if_splits)
  then have ai: "alloc_inv c A (al_bitmap s)" using inv by (simp add: alloc_state_inv_def)
  have "al_initialized s'" using s' \<open>al_initialized s\<close>
    by (auto simp: bathos_free_buffer_def Let_def split: if_splits)
  then have ai': "alloc_inv c (A - {(i, m)}) (al_bitmap s')" using inv' by (simp add: alloc_state_inv_def)
  have "x \<in> \<Union> (span ` free_blocks c (al_bitmap s'))" if x: "x \<in> span (i, m)" for x
  proof -
    have "x < 2 ^ BATHOS_MAX_ORDER c"
      using x valid_block_span [OF alloc_state_inv_valid [OF inv assms(3)]] by blast
    then obtain b where b: "b \<in> free_blocks c (al_bitmap s') \<union> (A - {(i, m)})" "x \<in> span b"
      using ai' partitions_covers unfolding alloc_inv_def by metis
    have "b \<notin> A - {(i, m)}"
      using x b(2) assms(3) ai partitions_disjoint [of _ "free_blocks c (al_bitmap s) \<union> A" "(i, m)" b]
      unfolding alloc_inv_def by blast
    with b show ?thesis by blast
  qed
  moreover have "alloc_run c (A - {(i, m)}) s'" by (rule run_free [OF assms(2,3,5) s'])
  ultimately show ?thesis using s' ai' unfolding alloc_inv_def by blast
qed

theorem free_buffer_correct_witness:
  "\<exists>s'. bathos_free_buffer default_cfg 512 512 (ex_held 2) = Some s' \<and> alloc_run default_cfg {(0, 6)} s'"
proof -
  have "BATHOS_BUF_SIZE default_cfg 0 = 8" by code_simp
  then show ?thesis using free_buffer_correct [OF default_cfg_wf ex_run_2, of 64 6 512] by (auto simp: ex_order)
qed

text \<open>
  C15. Whenever a client has given back everything it requested, the whole memory is one free
  buffer again, and the next request of any legal size is served from offset 0: nothing leaks and
  nothing stays fragmented.
\<close>

theorem alloc_run_all_freed:
  assumes "cfg_wf c" "alloc_run c {} s" "sz \<le> int (cfg_mem_size c)"
  shows "free_blocks c (ready_bitmap c s) = {(0, BATHOS_MAX_ORDER c)} \<and> fst (bathos_alloc_buffer c sz s) = Some 0"
proof -
  note inv = alloc_run_inv [OF assms(2,1)]
  have F: "free_blocks c (ready_bitmap c s) = {(0, BATHOS_MAX_ORDER c)}"
    using alloc_inv_empty alloc_inv_ready [OF _ inv] assms(1) by (simp add: cfg_wf_def)
  have "BATHOS_BUF_SIZE c (BATHOS_MAX_ORDER c) = cfg_mem_size c"
    by (simp add: BATHOS_BUF_SIZE_def NBUFS_eq)
  with assms(3) have o: "\<not> size_to_order c sz < 0" by (auto simp: size_to_order_neg not_less)
  obtain r s' where r: "bathos_alloc_buffer c sz s = (r, s')" by fastforce
  show ?thesis
  proof (cases r)
    case None
    with alloc_buffer_None(1) [OF assms(1) inv, of sz s'] r F o size_to_order_nat [OF o]
    show ?thesis by auto
  next
    case (Some p)
    from alloc_buffer_Some [OF assms(1) inv r [unfolded Some]]
    obtain i m k where "p = i * BATHOS_BUF_SIZE c 0" "best_fit {(0, BATHOS_MAX_ORDER c)} m (i, k)"
      using F by metis
    then show ?thesis using F r Some by (simp add: best_fit_def)
  qed
qed

theorem alloc_run_all_freed_witness: "fst (bathos_alloc_buffer default_cfg 100 (alloc_boot default_cfg)) = Some 0"
  using alloc_run_all_freed [OF default_cfg_wf run_boot, of 100] by (simp add: default_cfg_def)

text \<open>
  C39. The word-wise search with the precomputed masks finds the lowest free buffer of an order:
  it computes the minimum of the free indices, for every bitmap and every order.
\<close>

theorem find_free_buf_least:
  assumes "ord \<le> BATHOS_MAX_ORDER c"
  shows "find_free_buf c ord bm =
    (if \<exists>i. (i, ord) \<in> free_blocks c bm then Some (LEAST i. (i, ord) \<in> free_blocks c bm) else None)"
proof (cases "\<exists>i. (i, ord) \<in> free_blocks c bm")
  case True
  then have "(LEAST i. (i, ord) \<in> free_blocks c bm, ord) \<in> free_blocks c bm" by (metis LeastI)
  then have "find_free_buf c ord bm = Some (LEAST i. (i, ord) \<in> free_blocks c bm)"
    by (rule find_free_buf_eqI) (rule Least_le)
  with True show ?thesis by simp
next
  case False
  then show ?thesis using find_free_buf_Some(1) [OF _ assms] by (cases "find_free_buf c ord bm") auto
qed

theorem find_free_buf_least_witness: "find_free_buf default_cfg 7 (al_bitmap (ex_held 0)) = Some 0"
proof -
  have free: "(0, 7) \<in> free_blocks default_cfg (al_bitmap (ex_held 0))"
    unfolding free_blocks_def mem_Collect_eq by code_simp
  then have "(LEAST i. (i, 7) \<in> free_blocks default_cfg (al_bitmap (ex_held 0))) = 0" by (intro Least_equality) auto
  moreover have "7 \<le> BATHOS_MAX_ORDER default_cfg" by code_simp
  ultimately show ?thesis
    using find_free_buf_least [of 7 default_cfg "al_bitmap (ex_held 0)"] free by auto
qed

text \<open>
  The alignment test of \<^verbatim>\<open>bathos_free_buffer\<close> shifts by \<open>order - 1\<close>: freeing a buffer of the
  smallest order, or with an illegal size, reaches a shift by a negative count, whose behaviour C
  does not define.
\<close>

theorem free_buffer_negative_shift:
  assumes "off < cfg_mem_size c" "sz \<le> int (BATHOS_BUF_SIZE c 0) \<or> int (cfg_mem_size c) < sz"
  shows "bathos_free_buffer c (int off) sz s = None"
proof -
  have "size_to_order c sz \<le> 0"
  proof (cases "sz \<le> int (BATHOS_BUF_SIZE c 0)")
    case True
    then have "(LEAST k. sz \<le> int (BATHOS_BUF_SIZE c k)) = 0" by (intro Least_equality) simp_all
    then show ?thesis unfolding size_to_order_eq by simp
  next
    case False
    have "int (BATHOS_BUF_SIZE c k) \<le> int (cfg_mem_size c)" for k by (simp add: BATHOS_BUF_SIZE_def)
    with False assms(2) have "size_to_order c sz < 0" unfolding size_to_order_neg by (meson le_less_trans)
    then show ?thesis by simp
  qed
  then show ?thesis using assms(1) by (simp add: bathos_free_buffer_def)
qed

theorem free_buffer_negative_shift_witness: "bathos_free_buffer default_cfg (int 0) 8 (ex_held 1) = None"
proof -
  have "BATHOS_BUF_SIZE default_cfg 0 = 8" by code_simp
  then show ?thesis using free_buffer_negative_shift [of 0 default_cfg 8] by (simp add: default_cfg_def)
qed

end
