(* ===== verification/CircBuf.thy ===== *)
theory CircBuf
  imports Prelude
begin

text \<open>
  The circular buffer macros of \<^verbatim>\<open>include/bathos/circ_buf.h\<close>, on C integers that stay in
  range (\<open>int\<close>). A ring is an array whose length is a power of two, an index \<open>head\<close> where the
  next element goes and an index \<open>tail\<close> of the oldest one; one slot stays free. Its abstract
  value is the list \<open>ring_list\<close>, oldest element first. The event queue, the character
  devices and the I2C function keep their data in such rings, and their correctness rests on
  the lemmas of this theory.
\<close>

section \<open>Model\<close>

definition CIRC_CNT :: "int \<Rightarrow> int \<Rightarrow> int \<Rightarrow> int" where
  "CIRC_CNT head tail sz = (head - tail) AND (sz - 1)"

definition CIRC_SPACE :: "int \<Rightarrow> int \<Rightarrow> int \<Rightarrow> int" where
  "CIRC_SPACE head tail sz = CIRC_CNT tail (head + 1) sz"

definition CIRC_CNT_TO_END :: "int \<Rightarrow> int \<Rightarrow> int \<Rightarrow> int" where
  "CIRC_CNT_TO_END head tail sz =
     (let end = sz - tail; n = (head + end) AND (sz - 1)
      in if n < end then n else end)"

definition CIRC_SPACE_TO_END :: "int \<Rightarrow> int \<Rightarrow> int \<Rightarrow> int" where
  "CIRC_SPACE_TO_END head tail sz =
     (let end = sz - 1 - head; n = (end + tail) AND (sz - 1)
      in if n \<le> end then n else end + 1)"

text \<open>The next index, as every user of the macros writes it.\<close>

definition ring_next :: "int \<Rightarrow> int \<Rightarrow> int \<Rightarrow> int" where
  "ring_next i l sz = (i + l) AND (sz - 1)"

definition ring_wf :: "'a list \<Rightarrow> int \<Rightarrow> int \<Rightarrow> int \<Rightarrow> bool" where
  "ring_wf buf head tail sz \<longleftrightarrow>
     (\<exists>k. sz = 2 ^ k) \<and> length buf = nat sz \<and> 0 \<le> head \<and> head < sz \<and> 0 \<le> tail \<and> tail < sz"

definition ring_list :: "'a list \<Rightarrow> int \<Rightarrow> int \<Rightarrow> int \<Rightarrow> 'a list" where
  "ring_list buf head tail sz =
     map (\<lambda>i. buf ! nat ((tail + int i) mod sz)) [0..<nat (CIRC_CNT head tail sz)]"

section \<open>Counts and spaces\<close>

lemma ring_wfI:
  "sz = 2 ^ k \<Longrightarrow> length buf = nat sz \<Longrightarrow> 0 \<le> head \<Longrightarrow> head < sz \<Longrightarrow> 0 \<le> tail \<Longrightarrow> tail < sz
    \<Longrightarrow> ring_wf buf head tail sz"
  by (auto simp: ring_wf_def)

lemma ring_wfD:
  assumes "ring_wf buf head tail sz"
  shows "0 < sz" "length buf = nat sz" "0 \<le> head" "head < sz" "0 \<le> tail" "tail < sz"
    "x AND (sz - 1) = x mod sz"
  using assms by (auto simp: ring_wf_def int_and_mask_mod)

lemma mod_less_twice:
  fixes x n :: int
  assumes "0 \<le> x" "x < 2 * n"
  shows "x mod n = (if x < n then x else x - n)"
proof (cases "x < n")
  case False
  have "x mod n = (x - n) mod n" by (simp add: mod_diff_right_eq [symmetric])
  also have "\<dots> = x - n" using False assms by (intro mod_pos_pos_trivial) auto
  finally show ?thesis using False by simp
qed (use assms in simp)

lemma CIRC_CNT_eq [ring_simps]:
  assumes "ring_wf buf head tail sz"
  shows "CIRC_CNT head tail sz = (if tail \<le> head then head - tail else head - tail + sz)"
proof -
  note w = ring_wfD [OF assms]
  have "(head - tail) mod sz = (head - tail + sz) mod sz" by simp
  also have "\<dots> = (if tail \<le> head then head - tail else head - tail + sz)"
    using w(1-6) mod_less_twice [of "head - tail + sz" sz] by auto
  finally show ?thesis by (simp add: CIRC_CNT_def w(7))
qed

lemma CIRC_SPACE_eq [ring_simps]:
  assumes "ring_wf buf head tail sz"
  shows "CIRC_SPACE head tail sz = sz - 1 - CIRC_CNT head tail sz"
proof -
  note w = ring_wfD [OF assms]
  have "(tail - (head + 1)) mod sz = (tail - (head + 1) + sz) mod sz" by simp
  then show ?thesis
    using w(1-6) mod_less_twice [of "tail - (head + 1) + sz" sz]
    unfolding CIRC_CNT_eq [OF assms] by (auto simp: CIRC_SPACE_def CIRC_CNT_def w(7))
qed

lemma CIRC_CNT_TO_END_eq [ring_simps]:
  assumes "ring_wf buf head tail sz"
  shows "CIRC_CNT_TO_END head tail sz = min (CIRC_CNT head tail sz) (sz - tail)"
  using ring_wfD [OF assms] mod_less_twice [of "head + (sz - tail)" sz]
  unfolding CIRC_CNT_eq [OF assms] by (auto simp: CIRC_CNT_TO_END_def Let_def min_def)

lemma CIRC_SPACE_TO_END_eq [ring_simps]:
  assumes "ring_wf buf head tail sz"
  shows "CIRC_SPACE_TO_END head tail sz = min (CIRC_SPACE head tail sz) (sz - head)"
  using ring_wfD [OF assms] mod_less_twice [of "sz - 1 - head + tail" sz]
  unfolding CIRC_SPACE_eq [OF assms] CIRC_CNT_eq [OF assms]
  by (auto simp: CIRC_SPACE_TO_END_def Let_def min_def)

lemma CIRC_CNT_bounds:
  assumes "ring_wf buf head tail sz"
  shows "0 \<le> CIRC_CNT head tail sz" "CIRC_CNT head tail sz < sz"
  using ring_wfD [OF assms] by (auto simp: CIRC_CNT_eq [OF assms])

lemma ring_next_eq [ring_simps]:
  assumes "ring_wf buf head tail sz" "0 \<le> i" "i < sz" "0 \<le> l" "l \<le> sz"
  shows "ring_next i l sz = (if i + l < sz then i + l else i + l - sz)"
  using ring_wfD [OF assms(1)] assms(2-) mod_less_twice [of "i + l" sz]
  by (simp add: ring_next_def)

lemma length_ring_list [simp]:
  "length (ring_list buf head tail sz) = nat (CIRC_CNT head tail sz)"
  by (simp add: ring_list_def)

lemma nth_ring_list:
  assumes "ring_wf buf head tail sz" "int i < CIRC_CNT head tail sz"
  shows "ring_list buf head tail sz ! i =
    buf ! nat (if tail + int i < sz then tail + int i else tail + int i - sz)"
  using ring_wfD [OF assms(1)] CIRC_CNT_bounds [OF assms(1)] assms(2)
    mod_less_twice [of "tail + int i" sz]
  by (simp add: ring_list_def)

section \<open>Adding and removing\<close>

text \<open>
  A copy of at most \<^verbatim>\<open>CIRC_SPACE_TO_END\<close> elements at \<open>head\<close>, followed by the index update,
  appends the elements and keeps the ring well formed.
\<close>

lemma ring_push_wf:
  assumes "ring_wf buf head tail sz" "int (length xs) \<le> CIRC_SPACE_TO_END head tail sz"
  shows "ring_wf (copy_at buf (nat head) xs) (ring_next head (int (length xs)) sz) tail sz"
proof -
  note w = ring_wfD [OF assms(1)]
  have l: "int (length xs) \<le> sz - head"
    using assms(2) by (simp add: CIRC_SPACE_TO_END_eq [OF assms(1)])
  with w have "nat head + length xs \<le> length buf" by simp
  with assms(1) show ?thesis
    using w l ring_next_eq [OF assms(1), of head "int (length xs)"]
    by (auto simp: ring_wf_def)
qed

lemma ring_push_cnt:
  assumes "ring_wf buf head tail sz" "0 \<le> l" "l \<le> CIRC_SPACE head tail sz"
  shows "CIRC_CNT (ring_next head l sz) tail sz = CIRC_CNT head tail sz + l"
proof -
  note w = ring_wfD [OF assms(1)]
  have l: "l < sz" using assms(3) CIRC_CNT_bounds [OF assms(1)]
    by (simp add: CIRC_SPACE_eq [OF assms(1)])
  note nx = ring_next_eq [OF assms(1) w(3,4) assms(2) less_imp_le [OF l]]
  have "ring_wf buf (ring_next head l sz) tail sz"
    using assms(1) w l assms(2) unfolding nx by (auto simp: ring_wf_def)
  from CIRC_CNT_eq [OF this] show ?thesis
    using w l assms(2,3) unfolding nx CIRC_SPACE_eq [OF assms(1)] CIRC_CNT_eq [OF assms(1)]
    by (auto split: if_splits)
qed

lemma ring_push:
  assumes wf: "ring_wf buf head tail sz"
    and le: "int (length xs) \<le> CIRC_SPACE_TO_END head tail sz"
  shows "ring_list (copy_at buf (nat head) xs) (ring_next head (int (length xs)) sz) tail sz
    = ring_list buf head tail sz @ xs" (is "ring_list ?buf ?head tail sz = _")
proof (rule nth_equalityI)
  note w = ring_wfD [OF wf]
  have sp: "int (length xs) \<le> CIRC_SPACE head tail sz" and fit: "int (length xs) \<le> sz - head"
    using le by (simp_all add: CIRC_SPACE_TO_END_eq [OF wf])
  have cnt: "CIRC_CNT ?head tail sz = CIRC_CNT head tail sz + int (length xs)"
    by (rule ring_push_cnt [OF wf _ sp]) simp
  show len: "length (ring_list ?buf ?head tail sz) = length (ring_list buf head tail sz @ xs)"
    using CIRC_CNT_bounds [OF wf] by (simp add: cnt nat_add_distrib)
  fix i assume "i < length (ring_list ?buf ?head tail sz)"
  then have i: "int i < CIRC_CNT head tail sz + int (length xs)" by (simp add: cnt zless_nat_eq_int_zless)
  let ?p = "if tail + int i < sz then tail + int i else tail + int i - sz"
  have p: "0 \<le> ?p" "?p < sz" "nat head + length xs \<le> length buf"
    using w fit i sp unfolding CIRC_SPACE_eq [OF wf] by auto
  have "ring_list ?buf ?head tail sz ! i = ?buf ! nat ?p"
    using nth_ring_list [OF ring_push_wf [OF wf le], of i] i by (simp add: cnt)
  also have "\<dots> = (if head \<le> ?p \<and> ?p < head + int (length xs) then xs ! nat (?p - head) else buf ! nat ?p)"
    using p w by (simp add: nth_copy_at nat_diff_distrib' nat_less_iff zless_nat_eq_int_zless nat_le_eq_zle)
  also have "\<dots> = (ring_list buf head tail sz @ xs) ! i"
  proof (cases "int i < CIRC_CNT head tail sz")
    case True
    then have "\<not> (head \<le> ?p \<and> ?p < head + int (length xs))"
      using w sp CIRC_CNT_eq [OF wf] unfolding CIRC_SPACE_eq [OF wf] by (auto split: if_splits)
    then have "(if head \<le> ?p \<and> ?p < head + int (length xs) then xs ! nat (?p - head)
        else buf ! nat ?p) = ring_list buf head tail sz ! i"
      unfolding nth_ring_list [OF wf True] by (rule if_not_P)
    with True show ?thesis
      by (simp only: nth_append length_ring_list zless_nat_eq_int_zless if_True)
  next
    case False
    then have "?p = head + (int i - CIRC_CNT head tail sz)"
      using w fit i CIRC_CNT_eq [OF wf] by (auto split: if_splits)
    with False i show ?thesis
      using CIRC_CNT_bounds [OF wf]
      by (simp add: nth_append zless_nat_eq_int_zless nat_diff_distrib')
  qed
  finally show "ring_list ?buf ?head tail sz ! i = (ring_list buf head tail sz @ xs) ! i" .
qed

text \<open>Advancing \<open>tail\<close> by at most the count drops the oldest elements.\<close>

lemma ring_pop_wf:
  assumes "ring_wf buf head tail sz" "0 \<le> l" "l \<le> CIRC_CNT head tail sz"
  shows "ring_wf buf head (ring_next tail l sz) sz"
  using assms ring_wfD [OF assms(1)] ring_next_eq [OF assms(1), of tail l]
    CIRC_CNT_bounds [OF assms(1)]
  by (auto simp: ring_wf_def)

lemma ring_pop_cnt:
  assumes "ring_wf buf head tail sz" "0 \<le> l" "l \<le> CIRC_CNT head tail sz"
  shows "CIRC_CNT head (ring_next tail l sz) sz = CIRC_CNT head tail sz - l"
proof -
  have "ring_next tail l sz = (if tail + l < sz then tail + l else tail + l - sz)"
    using ring_next_eq [OF assms(1), of tail l] ring_wfD [OF assms(1)] assms(2,3)
      CIRC_CNT_bounds [OF assms(1)] by simp
  then show ?thesis
    using CIRC_CNT_eq [OF ring_pop_wf [OF assms]] CIRC_CNT_eq [OF assms(1)] assms(2,3)
      ring_wfD [OF assms(1)]
    by (auto split: if_splits)
qed

lemma ring_pop:
  assumes "ring_wf buf head tail sz" "0 \<le> l" "l \<le> CIRC_CNT head tail sz"
  shows "ring_list buf head (ring_next tail l sz) sz =
    drop (nat l) (ring_list buf head tail sz)" (is "?new = ?old")
proof (rule nth_equalityI)
  note w = ring_wfD [OF assms(1)]
  note cnt = ring_pop_cnt [OF assms]
  show len: "length ?new = length ?old" using assms(2) by (simp add: cnt nat_diff_distrib)
  fix i assume "i < length ?new"
  then have i: "int i < CIRC_CNT head tail sz - l" by (simp add: cnt zless_nat_eq_int_zless)
  have nx: "ring_next tail l sz = (if tail + l < sz then tail + l else tail + l - sz)"
    using ring_next_eq [OF assms(1), of tail l] w assms(2,3) CIRC_CNT_bounds [OF assms(1)] by simp
  have "?new ! i = ring_list buf head tail sz ! (nat l + i)"
    using nth_ring_list [OF ring_pop_wf [OF assms], of i] nth_ring_list [OF assms(1), of "nat l + i"]
      i assms(2) w CIRC_CNT_bounds [OF assms(1)] unfolding cnt unfolding nx
    by (auto simp: algebra_simps split: if_splits)
  then show "?new ! i = ?old ! i"
    using i assms(2) by (simp add: zless_nat_eq_int_zless nat_add_distrib)
qed

text \<open>The block of at most \<^verbatim>\<open>CIRC_CNT_TO_END\<close> elements at \<open>tail\<close> is a prefix of the content.\<close>

lemma ring_read:
  assumes wf: "ring_wf buf head tail sz"
    and le: "int l \<le> CIRC_CNT_TO_END head tail sz"
  shows "take l (drop (nat tail) buf) = take l (ring_list buf head tail sz)"
proof (rule nth_equalityI)
  note w = ring_wfD [OF wf]
  have l: "int l \<le> CIRC_CNT head tail sz" "int l \<le> sz - tail"
    using le by (simp_all add: CIRC_CNT_TO_END_eq [OF wf])
  then show "length (take l (drop (nat tail) buf)) = length (take l (ring_list buf head tail sz))"
    using w by (auto simp: min_absorb2 nat_diff_distrib' le_nat_iff)
  fix i assume "i < length (take l (drop (nat tail) buf))"
  then have "i < l" by simp
  then show "take l (drop (nat tail) buf) ! i = take l (ring_list buf head tail sz) ! i"
    using nth_ring_list [OF wf, of i] l w by (simp add: nat_add_distrib)
qed

lemma ring_hd:
  assumes "ring_wf buf head tail sz" "CIRC_CNT head tail sz \<noteq> 0"
  shows "ring_list buf head tail sz \<noteq> []" "hd (ring_list buf head tail sz) = buf ! nat tail"
proof -
  have c: "0 < CIRC_CNT head tail sz" using CIRC_CNT_bounds [OF assms(1)] assms(2) by simp
  then show "ring_list buf head tail sz \<noteq> []"
    by (metis length_ring_list list.size(3) nat_0_iff not_le)
  then show "hd (ring_list buf head tail sz) = buf ! nat tail"
    using nth_ring_list [OF assms(1), of 0] c ring_wfD [OF assms(1)] by (simp add: hd_conv_nth)
qed

lemma ring_list_empty_iff:
  "ring_wf buf head tail sz \<Longrightarrow> ring_list buf head tail sz = [] \<longleftrightarrow> CIRC_CNT head tail sz = 0"
  using ring_hd(1) [of buf head tail sz] by (auto simp: ring_list_def)

text \<open>The single-element forms used by queues of records.\<close>

lemma ring_push1:
  assumes wf: "ring_wf buf head tail sz" and "CIRC_SPACE head tail sz \<noteq> 0"
  shows "ring_list (buf[nat head := x]) (ring_next head 1 sz) tail sz =
      ring_list buf head tail sz @ [x]"
    and "ring_wf (buf[nat head := x]) (ring_next head 1 sz) tail sz"
proof -
  note w = ring_wfD [OF wf]
  have "0 < CIRC_SPACE head tail sz"
    using assms CIRC_CNT_bounds [OF wf] by (simp add: CIRC_SPACE_eq [OF wf])
  then have le: "int (length [x]) \<le> CIRC_SPACE_TO_END head tail sz"
    using w by (simp add: CIRC_SPACE_TO_END_eq [OF wf])
  have "copy_at buf (nat head) [x] = buf[nat head := x]"
    using w by (intro copy_at_single) simp
  then show "ring_list (buf[nat head := x]) (ring_next head 1 sz) tail sz =
      ring_list buf head tail sz @ [x]"
    and "ring_wf (buf[nat head := x]) (ring_next head 1 sz) tail sz"
    using ring_push [OF wf le] ring_push_wf [OF wf le] by simp_all
qed

lemma ring_pop1:
  assumes "ring_wf buf head tail sz" "CIRC_CNT head tail sz \<noteq> 0"
  shows "ring_list buf head (ring_next tail 1 sz) sz = tl (ring_list buf head tail sz)"
    and "ring_wf buf head (ring_next tail 1 sz) sz"
  using ring_pop [OF assms(1), of 1] ring_pop_wf [OF assms(1), of 1] CIRC_CNT_bounds [OF assms(1)]
    assms(2) by (simp_all add: drop_Suc)

end
