(* ===== verification/Fifo.thy ===== *)
theory Fifo
  imports CircBuf
begin

text \<open>
  The contract of a bounded first-in first-out store whose \<open>push\<close> refuses when it is full. The
  event queue of \<^verbatim>\<open>lib/event.c\<close> and the receive buffer of \<^verbatim>\<open>drivers/dev.c\<close> implement it.
\<close>

locale bounded_fifo =
  fixes inv :: "'s \<Rightarrow> bool"
    and contents :: "'s \<Rightarrow> 'a list"
    and cap :: "'s \<Rightarrow> nat"
    and push :: "'a \<Rightarrow> 's \<Rightarrow> 's"
    and pop :: "'s \<Rightarrow> 's"
  assumes contents_cap: "inv s \<Longrightarrow> length (contents s) \<le> cap s"
    and push_inv: "inv s \<Longrightarrow> inv (push x s) \<and> cap (push x s) = cap s"
    and push_room: "inv s \<Longrightarrow> length (contents s) < cap s \<Longrightarrow> contents (push x s) = contents s @ [x]"
    and push_full: "inv s \<Longrightarrow> length (contents s) = cap s \<Longrightarrow> push x s = s"
    and pop_inv: "inv s \<Longrightarrow> contents s \<noteq> [] \<Longrightarrow> inv (pop s) \<and> cap (pop s) = cap s"
    and pop_contents: "inv s \<Longrightarrow> contents s \<noteq> [] \<Longrightarrow> contents (pop s) = tl (contents s)"
begin

lemma push_contents: "inv s \<Longrightarrow> contents (push x s) = take (cap s) (contents s @ [x])"
  using contents_cap [of s] push_room [of s x] push_full [of s x]
  by (cases "length (contents s) = cap s") simp_all

text \<open>A burst of pushes keeps the oldest elements: what does not fit is dropped.\<close>

lemma push_burst:
  "inv s \<Longrightarrow> inv (fold push xs s) \<and> cap (fold push xs s) = cap s
     \<and> contents (fold push xs s) = take (cap s) (contents s @ xs)"
proof (induction xs arbitrary: s)
  case Nil
  then show ?case using contents_cap by simp
next
  case (Cons x xs)
  then have "inv (push x s)" "cap (push x s) = cap s" using push_inv by simp_all
  with Cons.IH [of "push x s"] have
    "inv (fold push (x # xs) s)" "cap (fold push (x # xs) s) = cap s"
    "contents (fold push (x # xs) s) = take (cap s) (contents (push x s) @ xs)" by simp_all
  moreover have "take n (take n (l @ [x]) @ xs) = take n (l @ x # xs)" for n and l :: "'a list"
    by (cases "length l < n") (simp_all add: take_append)
  ultimately show ?case using push_contents [OF Cons.prems] by simp
qed

lemma pop_all:
  "inv s \<Longrightarrow> n \<le> length (contents s) \<Longrightarrow>
     inv ((pop ^^ n) s) \<and> cap ((pop ^^ n) s) = cap s \<and> contents ((pop ^^ n) s) = drop n (contents s)"
proof (induction n)
  case (Suc n)
  then have IH: "inv ((pop ^^ n) s)" "cap ((pop ^^ n) s) = cap s" "contents ((pop ^^ n) s) = drop n (contents s)"
    by simp_all
  moreover have "drop n (contents s) \<noteq> []" using Suc.prems by simp
  ultimately show ?case using pop_inv [of "(pop ^^ n) s"] pop_contents [of "(pop ^^ n) s"]
    by (simp add: drop_Suc tl_drop)
qed simp

end

end
