(* ===== verification/Irq.thy ===== *)
theory Irq
  imports Prelude
begin

text \<open>
  \<^verbatim>\<open>lib/irq.c\<close>: every operation looks the interrupt's controller up and forwards to it, or fails
  with \<^verbatim>\<open>-EINVAL\<close> when there is none. A controller is a record of operations on the hardware
  state \<open>'w\<close>; \<open>to_ctrl\<close> is \<^verbatim>\<open>bathos_irq_to_ctrl\<close> and \<open>set_vector\<close> is \<^verbatim>\<open>arch_set_irq_vector\<close>, both
  provided by the architecture.
\<close>

record 'w bathos_irq_controller =
  ic_enable_irq :: "nat \<Rightarrow> 'w \<Rightarrow> 'w"
  ic_disable_irq :: "nat \<Rightarrow> 'w \<Rightarrow> 'w"
  ic_clear_pending :: "nat \<Rightarrow> 'w \<Rightarrow> 'w"
  ic_set_pending :: "nat \<Rightarrow> 'w \<Rightarrow> 'w"
  ic_mask_ack :: "nat \<Rightarrow> 'w \<Rightarrow> 'w"
  ic_unmask :: "nat \<Rightarrow> 'w \<Rightarrow> 'w"

type_synonym 'w irq_table = "nat \<Rightarrow> 'w bathos_irq_controller option"

definition bathos_request_irq ::
  "'w irq_table \<Rightarrow> (nat \<Rightarrow> 'h \<Rightarrow> 'w \<Rightarrow> int \<times> 'w) \<Rightarrow> nat \<Rightarrow> 'h \<Rightarrow> 'w \<Rightarrow> int \<times> 'w" where
  "bathos_request_irq to_ctrl set_vector irq handler w =
     (case to_ctrl irq of
        None \<Rightarrow> (- EINVAL, w)
      | Some ctrl \<Rightarrow>
          let (ret, w) = set_vector irq handler w
          in if ret < 0 then (ret, w) else (0, ic_enable_irq ctrl irq w))"

definition bathos_enable_irq :: "'w irq_table \<Rightarrow> nat \<Rightarrow> 'w \<Rightarrow> int \<times> 'w" where
  "bathos_enable_irq to_ctrl irq w =
     (case to_ctrl irq of None \<Rightarrow> (- EINVAL, w) | Some ctrl \<Rightarrow> (0, ic_enable_irq ctrl irq w))"

definition bathos_disable_irq :: "'w irq_table \<Rightarrow> nat \<Rightarrow> 'w \<Rightarrow> int \<times> 'w" where
  "bathos_disable_irq to_ctrl irq w =
     (case to_ctrl irq of None \<Rightarrow> (- EINVAL, w) | Some ctrl \<Rightarrow> (0, ic_disable_irq ctrl irq w))"

definition bathos_set_pending_irq :: "'w irq_table \<Rightarrow> nat \<Rightarrow> 'w \<Rightarrow> int \<times> 'w" where
  "bathos_set_pending_irq to_ctrl irq w =
     (case to_ctrl irq of None \<Rightarrow> (- EINVAL, w) | Some ctrl \<Rightarrow> (0, ic_set_pending ctrl irq w))"

definition bathos_clear_pending_irq :: "'w irq_table \<Rightarrow> nat \<Rightarrow> 'w \<Rightarrow> int \<times> 'w" where
  "bathos_clear_pending_irq to_ctrl irq w =
     (case to_ctrl irq of None \<Rightarrow> (- EINVAL, w) | Some ctrl \<Rightarrow> (0, ic_clear_pending ctrl irq w))"

definition bathos_mask_ack_irq :: "'w irq_table \<Rightarrow> nat \<Rightarrow> 'w \<Rightarrow> int \<times> 'w" where
  "bathos_mask_ack_irq to_ctrl irq w =
     (case to_ctrl irq of None \<Rightarrow> (- EINVAL, w) | Some ctrl \<Rightarrow> (0, ic_mask_ack ctrl irq w))"

definition bathos_unmask_irq :: "'w irq_table \<Rightarrow> nat \<Rightarrow> 'w \<Rightarrow> int \<times> 'w" where
  "bathos_unmask_irq to_ctrl irq w =
     (case to_ctrl irq of None \<Rightarrow> (- EINVAL, w) | Some ctrl \<Rightarrow> (0, ic_unmask ctrl irq w))"

end
