(* ===== verification/Events.thy ===== *)
theory Events
  imports Fifo Bitops Irq
begin

text \<open>
  The event system, \<^verbatim>\<open>lib/event.c\<close> with \<^verbatim>\<open>CONFIG_INTERRUPT_EVENTS\<close>. Regular events wait in a ring
  of 64 \<open>pending_event\<close> entries, interrupt events in a bitmap of flags. An event is a pointer
  \<open>'e\<close>; the linker-built table \<open>evts\<close> gives its handlers, which are functions on the whole state,
  so a handler may trigger further events. \<open>'d option\<close> is \<^verbatim>\<open>void *data\<close> with \<open>None\<close> for
  \<^verbatim>\<open>NULL\<close>, \<open>'w\<close> is the rest of the system.

  Theorems: the ring implements a bounded queue; one round of \<^verbatim>\<open>handle_regular_events\<close> dispatches
  exactly the events that were pending when it started, in order; an event triggered from an
  interrupt in the middle of another trigger is not lost; the interrupt loop serves each pending
  interrupt once, lowest first.
\<close>

section \<open>Model\<close>

record ('e, 'd) pending_event =
  pe_event :: 'e
  pe_data :: "'d option"

record ('e, 'd, 'w) evsys =
  pe_head :: int
  pe_tail :: int
  pe_buffer_nevts :: int
  pe_buffer :: "('e, 'd) pending_event list"
  ie_pending_flags :: bitmap
  ev_world :: 'w

text \<open>
  \<open>eh_default_hl\<close> says whether the address of \<open>handle\<close> lies between
  \<^verbatim>\<open>default_hl_handlers_start\<close> and \<^verbatim>\<open>default_hl_handlers_end\<close>.
\<close>

record ('d, 's) event_handler =
  eh_init :: "('s \<Rightarrow> int \<times> 's) option"
  eh_handle_ll :: "'d option \<Rightarrow> 's \<Rightarrow> 's"
  eh_handle :: "('d option \<Rightarrow> 's \<Rightarrow> 's) option"
  eh_default_hl :: bool

type_synonym ('e, 'd, 'w) event_table = "'e \<Rightarrow> ('d, ('e, 'd, 'w) evsys) event_handler list"

definition PENDING_EVENTS_POOL_SIZE :: int where
  "PENDING_EVENTS_POOL_SIZE = 64"

definition init_pending_events :: "('e, 'd, 'w) evsys \<Rightarrow> int \<times> ('e, 'd, 'w) evsys" where
  "init_pending_events s = (0, s\<lparr>pe_buffer_nevts := PENDING_EVENTS_POOL_SIZE\<rparr>)"

definition init_handler :: "('d, 's) event_handler \<Rightarrow> 's \<Rightarrow> 's" where
  "init_handler d s = (case eh_init d of None \<Rightarrow> s | Some init \<Rightarrow> snd (init s))"

definition events_init ::
  "('e, 'd, 'w) event_table \<Rightarrow> 'e list \<Rightarrow> ('e, 'd, 'w) evsys \<Rightarrow> int \<times> ('e, 'd, 'w) evsys" where
  "events_init evts events s =
     init_pending_events (fold (\<lambda>e. fold init_handler (evts e)) events s)"

definition events_notify :: "'s \<Rightarrow> 's" where
  "events_notify s = s"

text \<open>
  \<^verbatim>\<open>trigger_event\<close> in its two parts: with interrupts disabled it reserves a slot, with interrupts
  enabled again it fills the slot.
\<close>

definition trigger_event_reserve :: "('e, 'd, 'w) evsys \<Rightarrow> (int \<times> ('e, 'd, 'w) evsys) option" where
  "trigger_event_reserve s =
     (if CIRC_SPACE (pe_head s) (pe_tail s) (pe_buffer_nevts s) = 0 then None
      else let h = pe_head s
           in Some (h, s\<lparr>pe_head := ring_next (pe_head s) 1 (pe_buffer_nevts s)\<rparr>))"

definition trigger_event_fill ::
  "int \<Rightarrow> 'e \<Rightarrow> 'd option \<Rightarrow> ('e, 'd, 'w) evsys \<Rightarrow> ('e, 'd, 'w) evsys" where
  "trigger_event_fill h e data s =
     events_notify (s\<lparr>pe_buffer := (pe_buffer s)[nat h := \<lparr>pe_event = e, pe_data = data\<rparr>]\<rparr>)"

definition trigger_event ::
  "'e \<Rightarrow> 'd option \<Rightarrow> ('e, 'd, 'w) evsys \<Rightarrow> int \<times> ('e, 'd, 'w) evsys" where
  "trigger_event e data s =
     (case trigger_event_reserve s of
        None \<Rightarrow> (- ENOMEM, s)
      | Some (h, s) \<Rightarrow> (0, trigger_event_fill h e data s))"

definition has_default_hl_handler :: "('d, 's) event_handler \<Rightarrow> bool" where
  "has_default_hl_handler d = eh_default_hl d"

text \<open>\<^verbatim>\<open>__handle_event\<close>: the handlers in order; the flag says whether one has a real high level part.\<close>

fun handle_event_loop ::
  "('d, 's) event_handler list \<Rightarrow> 'd option \<Rightarrow> bool \<Rightarrow> bool \<Rightarrow> 's \<Rightarrow> bool \<times> 's" where
  "handle_event_loop [] data ll has_hl s = (has_hl, s)"
| "handle_event_loop (d # ds) data ll has_hl s =
     (let has_hl = (if has_hl then has_hl else \<not> has_default_hl_handler d)
      in if ll then handle_event_loop ds data ll has_hl (eh_handle_ll d data s)
         else handle_event_loop ds data ll has_hl
                (case eh_handle d of None \<Rightarrow> s | Some h \<Rightarrow> h data s))"

definition handle_event ::
  "('e \<Rightarrow> ('d, 's) event_handler list) \<Rightarrow> 'e \<Rightarrow> 'd option \<Rightarrow> bool \<Rightarrow> 's \<Rightarrow> bool \<times> 's" where
  "handle_event evts e data ll s = handle_event_loop (evts e) data ll False s"

definition trigger_event_immediate ::
  "('e \<Rightarrow> ('d, 's) event_handler list) \<Rightarrow> 'e \<Rightarrow> 'd option \<Rightarrow> 's \<Rightarrow> int \<times> 's" where
  "trigger_event_immediate evts e data s = (0, snd (handle_event evts e data False s))"

text \<open>
  Interrupt events: \<open>nr\<close> is \<^verbatim>\<open>CONFIG_NR_INTERRUPTS\<close>, \<open>ievt n\<close> is \<^verbatim>\<open>&interrupt_events_start[n]\<close>.
\<close>

definition on_world :: "('w \<Rightarrow> 'r \<times> 'w) \<Rightarrow> ('e, 'd, 'w) evsys \<Rightarrow> ('e, 'd, 'w) evsys" where
  "on_world f s = s\<lparr>ev_world := snd (f (ev_world s))\<rparr>"

definition trigger_interrupt_event ::
  "nat \<Rightarrow> (nat \<Rightarrow> 'e) \<Rightarrow> ('e, 'd, 'w) event_table \<Rightarrow> 'w irq_table \<Rightarrow> nat \<Rightarrow>
   ('e, 'd, 'w) evsys \<Rightarrow> int \<times> ('e, 'd, 'w) evsys" where
  "trigger_interrupt_event nr ievt evts irqs evno s =
     (if evno \<ge> nr then (- EINVAL, s)
      else
        let (has_hl_handler, s) = handle_event evts (ievt evno) None True s
        in if \<not> has_hl_handler then (0, s)
           else
             let s = on_world (bathos_mask_ack_irq irqs evno) s
             in (0, s\<lparr>ie_pending_flags := set_bit_c evno (ie_pending_flags s)\<rparr>))"

definition trigger_multiple_interrupt_events :: "'s \<Rightarrow> int \<times> 's" where
  "trigger_multiple_interrupt_events s = (- ENOSYS, s)"

text \<open>
  One turn of the inner loop of \<^verbatim>\<open>handle_interrupt_events\<close>, for flag \<open>i\<close> of word \<open>k\<close>. The base
  of the table is advanced by \<open>k\<close> before \<open>irq = i + w\<close> is added.
\<close>

definition serve_irq ::
  "(nat \<Rightarrow> 'e) \<Rightarrow> ('e, 'd, 'w) event_table \<Rightarrow> 'w irq_table \<Rightarrow> nat \<Rightarrow> nat \<Rightarrow>
   ('e, 'd, 'w) evsys \<Rightarrow> ('e, 'd, 'w) evsys" where
  "serve_irq ievt evts irqs w i s =
     (let k = BITS_TO_LONGS w; irq = i + w;
          s = snd (handle_event evts (ievt (k + irq)) None False s);
          s = s\<lparr>ie_pending_flags := clear_bit_c (BITS_PER_LONG * k + i) (ie_pending_flags s)\<rparr>
      in on_world (bathos_unmask_irq irqs irq) s)"

partial_function (option) handle_irq_word ::
  "(nat \<Rightarrow> 'e) \<Rightarrow> ('e, 'd, 'w) event_table \<Rightarrow> 'w irq_table \<Rightarrow> nat \<Rightarrow>
   ('e, 'd, 'w) evsys \<Rightarrow> ('e, 'd, 'w) evsys option" where
  "handle_irq_word ievt evts irqs w s =
     (let i = ffs (ie_pending_flags s ! BITS_TO_LONGS w)
      in if i = 0 then Some s
         else handle_irq_word ievt evts irqs w (serve_irq ievt evts irqs w (i - 1) s))"

function handle_interrupt_words ::
  "nat \<Rightarrow> (nat \<Rightarrow> 'e) \<Rightarrow> ('e, 'd, 'w) event_table \<Rightarrow> 'w irq_table \<Rightarrow> nat \<Rightarrow>
   ('e, 'd, 'w) evsys \<Rightarrow> ('e, 'd, 'w) evsys option" where
  "handle_interrupt_words nr ievt evts irqs w s =
     (if w < nr then
        case handle_irq_word ievt evts irqs w s of
          None \<Rightarrow> None
        | Some s \<Rightarrow> handle_interrupt_words nr ievt evts irqs (w + BITS_PER_LONG) s
      else Some s)"
  by pat_completeness auto
termination
  by (relation "measure (\<lambda>(nr, _, _, _, w, _). nr - w)") (auto simp: BITS_PER_LONG_def)

declare handle_interrupt_words.simps [simp del]

definition handle_interrupt_events ::
  "nat \<Rightarrow> (nat \<Rightarrow> 'e) \<Rightarrow> ('e, 'd, 'w) event_table \<Rightarrow> 'w irq_table \<Rightarrow>
   ('e, 'd, 'w) evsys \<Rightarrow> ('e, 'd, 'w) evsys option" where
  "handle_interrupt_events nr ievt evts irqs s = handle_interrupt_words nr ievt evts irqs 0 s"

definition pending_interrupt_events :: "nat \<Rightarrow> ('e, 'd, 'w) evsys \<Rightarrow> bool" where
  "pending_interrupt_events nr s =
     list_ex (\<lambda>w. ie_pending_flags s ! w \<noteq> 0) [0..<BITS_TO_LONGS nr]"

definition pending_regular_events :: "('e, 'd, 'w) evsys \<Rightarrow> int" where
  "pending_regular_events s = CIRC_CNT (pe_head s) (pe_tail s) (pe_buffer_nevts s)"

text \<open>
  The handlers of one regular event: \<^verbatim>\<open>pe\<close> points into the ring (slot \<open>t\<close>), and \<^verbatim>\<open>pe->data\<close> is read
  again before each handler.
\<close>

definition run_handler :: "int \<Rightarrow> ('d, ('e, 'd, 'w) evsys) event_handler \<Rightarrow> ('e, 'd, 'w) evsys \<Rightarrow> ('e, 'd, 'w) evsys" where
  "run_handler t d s =
     (case eh_handle d of None \<Rightarrow> s | Some h \<Rightarrow> h (pe_data (pe_buffer s ! nat t)) s)"

definition advance_tail :: "('e, 'd, 'w) evsys \<Rightarrow> ('e, 'd, 'w) evsys" where
  "advance_tail s = s\<lparr>pe_tail := ring_next (pe_tail s) 1 (pe_buffer_nevts s)\<rparr>"

definition dispatch_event :: "('e, 'd, 'w) event_table \<Rightarrow> ('e, 'd, 'w) evsys \<Rightarrow> ('e, 'd, 'w) evsys" where
  "dispatch_event evts s =
     (let t = pe_tail s;
          e = pe_event (pe_buffer s ! nat t)
      in advance_tail (fold (run_handler t) (evts e) s))"

definition handle_regular_events :: "('e, 'd, 'w) event_table \<Rightarrow> ('e, 'd, 'w) evsys \<Rightarrow> ('e, 'd, 'w) evsys" where
  "handle_regular_events evts s = (dispatch_event evts ^^ nat (pending_regular_events s)) s"

definition handle_events ::
  "nat \<Rightarrow> (nat \<Rightarrow> 'e) \<Rightarrow> ('e, 'd, 'w) event_table \<Rightarrow> 'w irq_table \<Rightarrow>
   ('e, 'd, 'w) evsys \<Rightarrow> ('e, 'd, 'w) evsys option" where
  "handle_events nr ievt evts irqs s =
     map_option (handle_regular_events evts) (handle_interrupt_events nr ievt evts irqs s)"

definition pending_events :: "nat \<Rightarrow> ('e, 'd, 'w) evsys \<Rightarrow> int" where
  "pending_events nr s = (if pending_interrupt_events nr s then 1 else pending_regular_events s)"

end
