(* ===== verification/EventProps.thy ===== *)
theory EventProps
  imports Events
begin

text \<open>What \<^verbatim>\<open>lib/event.c\<close> guarantees: the queue, one round of dispatch, interrupts during a trigger.\<close>

section \<open>The queue\<close>

definition ev_wf :: "('e, 'd, 'w) evsys \<Rightarrow> bool" where
  "ev_wf s \<longleftrightarrow> ring_wf (pe_buffer s) (pe_head s) (pe_tail s) (pe_buffer_nevts s)"

definition ev_queue :: "('e, 'd, 'w) evsys \<Rightarrow> ('e, 'd) pending_event list" where
  "ev_queue s = ring_list (pe_buffer s) (pe_head s) (pe_tail s) (pe_buffer_nevts s)"

definition ev_cap :: "('e, 'd, 'w) evsys \<Rightarrow> nat" where
  "ev_cap s = nat (pe_buffer_nevts s) - 1"

definition ev_push :: "('e, 'd) pending_event \<Rightarrow> ('e, 'd, 'w) evsys \<Rightarrow> ('e, 'd, 'w) evsys" where
  "ev_push p s = snd (trigger_event (pe_event p) (pe_data p) s)"

lemma ev_full_iff:
  assumes "ev_wf s"
  shows "CIRC_SPACE (pe_head s) (pe_tail s) (pe_buffer_nevts s) = 0 \<longleftrightarrow> length (ev_queue s) = ev_cap s"
    and "length (ev_queue s) \<le> ev_cap s"
  using CIRC_SPACE_eq [OF assms [unfolded ev_wf_def]] CIRC_CNT_bounds [OF assms [unfolded ev_wf_def]]
  by (auto simp: ev_queue_def ev_cap_def)

lemma trigger_event_full:
  "ev_wf s \<Longrightarrow> length (ev_queue s) = ev_cap s \<Longrightarrow> trigger_event e d s = (- ENOMEM, s)"
  by (simp add: trigger_event_def trigger_event_reserve_def ev_full_iff)

lemma trigger_event_room:
  assumes "ev_wf s" "length (ev_queue s) < ev_cap s"
  shows "fst (trigger_event e d s) = 0" "ev_wf (snd (trigger_event e d s))"
    "ev_queue (snd (trigger_event e d s)) = ev_queue s @ [\<lparr>pe_event = e, pe_data = d\<rparr>]"
    "pe_tail (snd (trigger_event e d s)) = pe_tail s"
    "pe_buffer_nevts (snd (trigger_event e d s)) = pe_buffer_nevts s"
  using assms ring_push1 [of "pe_buffer s" "pe_head s" "pe_tail s" "pe_buffer_nevts s"] ev_full_iff(1) [OF assms(1)]
  by (simp_all add: trigger_event_def trigger_event_reserve_def trigger_event_fill_def events_notify_def
      ev_wf_def ev_queue_def)

lemma trigger_event_cases:
  assumes "ev_wf s"
  obtains (full) "length (ev_queue s) = ev_cap s" | (room) "length (ev_queue s) < ev_cap s"
  using ev_full_iff(2) [OF assms] by linarith

lemma trigger_event_world [simp]: "ev_world (snd (trigger_event e d s)) = ev_world s"
  by (simp add: trigger_event_def trigger_event_reserve_def trigger_event_fill_def events_notify_def Let_def
      split: option.split)

lemma advance_tail_props:
  assumes "ev_wf s" "ev_queue s \<noteq> []"
  shows "ev_wf (advance_tail s)" "ev_queue (advance_tail s) = tl (ev_queue s)"
    "pe_buffer_nevts (advance_tail s) = pe_buffer_nevts s"
  using assms ring_pop1 [of "pe_buffer s" "pe_head s" "pe_tail s" "pe_buffer_nevts s"]
  by (simp_all add: ev_wf_def ev_queue_def advance_tail_def ring_list_empty_iff)

interpretation evq: bounded_fifo ev_wf ev_queue ev_cap ev_push advance_tail
proof unfold_locales
  fix s :: "('a, 'b, 'c) evsys" and p :: "('a, 'b) pending_event"
  assume wf: "ev_wf s"
  show "length (ev_queue s) \<le> ev_cap s" by (rule ev_full_iff(2) [OF wf])
  show "ev_wf (ev_push p s) \<and> ev_cap (ev_push p s) = ev_cap s"
  proof (cases "length (ev_queue s) = ev_cap s")
    case True
    then show ?thesis using wf by (simp add: ev_push_def trigger_event_full)
  next
    case False
    then have "length (ev_queue s) < ev_cap s" using ev_full_iff(2) [OF wf] by linarith
    then show ?thesis using trigger_event_room [OF wf] by (simp add: ev_push_def ev_cap_def)
  qed
  show "length (ev_queue s) < ev_cap s \<Longrightarrow> ev_queue (ev_push p s) = ev_queue s @ [p]"
    using trigger_event_room(3) [OF wf] by (simp add: ev_push_def)
  show "length (ev_queue s) = ev_cap s \<Longrightarrow> ev_push p s = s"
    using trigger_event_full [OF wf] by (simp add: ev_push_def)
  show "ev_queue s \<noteq> [] \<Longrightarrow> ev_wf (advance_tail s) \<and> ev_cap (advance_tail s) = ev_cap s"
    "ev_queue s \<noteq> [] \<Longrightarrow> ev_queue (advance_tail s) = tl (ev_queue s)"
    using advance_tail_props [OF wf] by (auto simp: ev_cap_def)
qed

section \<open>Handlers\<close>

text \<open>
  A state change that only adds to the queue: it keeps the ring well-formed, does not move the
  tail, and what it leaves in the queue begins with what was there. Triggering events and changing
  the rest of the system are such changes, and they compose.
\<close>

definition adds_only :: "(('e, 'd, 'w) evsys \<Rightarrow> ('e, 'd, 'w) evsys) \<Rightarrow> bool" where
  "adds_only f \<longleftrightarrow> (\<forall>s. ev_wf s \<longrightarrow> ev_wf (f s) \<and> pe_tail (f s) = pe_tail s
     \<and> pe_buffer_nevts (f s) = pe_buffer_nevts s \<and> (\<exists>new. ev_queue (f s) = ev_queue s @ new))"

lemma adds_onlyD:
  assumes "adds_only f" "ev_wf s"
  shows "ev_wf (f s)" "pe_tail (f s) = pe_tail s" "pe_buffer_nevts (f s) = pe_buffer_nevts s"
    "\<exists>new. ev_queue (f s) = ev_queue s @ new"
  using assms by (auto simp: adds_only_def)

lemma adds_only_id [intro]: "adds_only (\<lambda>s. s)"
  by (simp add: adds_only_def)

lemma adds_only_comp [intro]: "adds_only f \<Longrightarrow> adds_only g \<Longrightarrow> adds_only (\<lambda>s. g (f s))"
  unfolding adds_only_def by (metis append.assoc)

lemma adds_only_trigger [intro]: "adds_only (\<lambda>s. snd (trigger_event e d s))"
  unfolding adds_only_def
proof (intro allI impI)
  fix s :: "('a, 'b, 'c) evsys" assume wf: "ev_wf s"
  then show "ev_wf (snd (trigger_event e d s)) \<and> pe_tail (snd (trigger_event e d s)) = pe_tail s \<and>
    pe_buffer_nevts (snd (trigger_event e d s)) = pe_buffer_nevts s \<and>
    (\<exists>new. ev_queue (snd (trigger_event e d s)) = ev_queue s @ new)"
    using trigger_event_room [OF wf, of e d] trigger_event_full [OF wf, of e d]
    by (rule_tac trigger_event_cases [OF wf]) simp_all
qed

lemma adds_only_world [intro]: "adds_only (\<lambda>s. s\<lparr>ev_world := f s\<rparr>)"
  by (simp add: adds_only_def ev_wf_def ev_queue_def)

definition handlers_add_only :: "('e, 'd, 'w) event_table \<Rightarrow> bool" where
  "handlers_add_only evts \<longleftrightarrow> (\<forall>e. \<forall>h \<in> set (evts e). \<forall>f. eh_handle h = Some f \<longrightarrow> (\<forall>d. adds_only (f d)))"

text \<open>The specification of dispatch: run the handlers of \<open>p\<close> with its data, drop it from the queue.\<close>

definition serve_event :: "('e, 'd, 'w) event_table \<Rightarrow> ('e, 'd) pending_event \<Rightarrow> ('e, 'd, 'w) evsys \<Rightarrow> ('e, 'd, 'w) evsys" where
  "serve_event evts p s =
     advance_tail (fold (\<lambda>h s. case eh_handle h of None \<Rightarrow> s | Some f \<Rightarrow> f (pe_data p) s) (evts (pe_event p)) s)"

lemma ev_queue_hd:
  assumes "ev_wf s" "ev_queue s \<noteq> []"
  shows "pe_buffer s ! nat (pe_tail s) = hd (ev_queue s)"
  using assms ring_hd(2) [of "pe_buffer s" "pe_head s" "pe_tail s" "pe_buffer_nevts s"]
  by (simp add: ev_wf_def ev_queue_def ring_list_empty_iff)

lemma run_handlers_eq:
  assumes "\<forall>h \<in> set hs. \<forall>f. eh_handle h = Some f \<longrightarrow> (\<forall>d. adds_only (f d))"
    and "ev_wf s" "ev_queue s = p # rest" "t = pe_tail s"
  shows "fold (run_handler t) hs s = fold (\<lambda>h s. case eh_handle h of None \<Rightarrow> s | Some f \<Rightarrow> f (pe_data p) s) hs s
    \<and> ev_wf (fold (run_handler t) hs s) \<and> pe_tail (fold (run_handler t) hs s) = t
    \<and> (\<exists>new. ev_queue (fold (run_handler t) hs s) = p # rest @ new)"
  using assms
proof (induction hs arbitrary: s rest)
  case (Cons h hs)
  have data: "pe_data (pe_buffer s ! nat t) = pe_data p"
    using ev_queue_hd [OF Cons.prems(2)] Cons.prems(3,4) by simp
  show ?case
  proof (cases "eh_handle h")
    case None
    then have "run_handler t h s = s" by (simp add: run_handler_def)
    then show ?thesis using Cons.IH [OF _ Cons.prems(2-4)] Cons.prems(1) None by auto
  next
    case (Some f)
    then have a: "adds_only (f (pe_data p))" using Cons.prems(1) by simp
    note D = adds_onlyD [OF a Cons.prems(2)]
    from D(4) obtain new where new: "ev_queue (f (pe_data p) s) = p # (rest @ new)"
      using Cons.prems(3) by auto
    have "run_handler t h s = f (pe_data p) s" using Some data by (simp add: run_handler_def)
    then show ?thesis
      using Cons.IH [OF _ D(1) new] Cons.prems(1,4) D(2) Some by auto
  qed
qed simp

lemma dispatch_event_eq:
  assumes "handlers_add_only evts" "ev_wf s" "ev_queue s = p # rest"
  shows "dispatch_event evts s = serve_event evts p s" "ev_wf (serve_event evts p s)"
    "\<exists>new. ev_queue (serve_event evts p s) = rest @ new"
proof -
  have h: "\<forall>h \<in> set (evts (pe_event p)). \<forall>f. eh_handle h = Some f \<longrightarrow> (\<forall>d. adds_only (f d))"
    using assms(1) by (simp add: handlers_add_only_def)
  note r = run_handlers_eq [OF h assms(2,3) refl]
  have "pe_buffer s ! nat (pe_tail s) = p" using ev_queue_hd [OF assms(2)] assms(3) by simp
  with r show "dispatch_event evts s = serve_event evts p s"
    by (simp add: dispatch_event_def serve_event_def Let_def)
  from r obtain new where wf: "ev_wf (fold (run_handler (pe_tail s)) (evts (pe_event p)) s)"
    and q: "ev_queue (fold (run_handler (pe_tail s)) (evts (pe_event p)) s) = p # rest @ new" by auto
  have "serve_event evts p s = advance_tail (fold (run_handler (pe_tail s)) (evts (pe_event p)) s)"
    using r by (simp add: serve_event_def)
  with advance_tail_props [OF wf] q show "ev_wf (serve_event evts p s)"
    "\<exists>new. ev_queue (serve_event evts p s) = rest @ new" by auto
qed

lemma dispatch_round:
  assumes "handlers_add_only evts" "ev_wf s" "ev_queue s = ps @ rest"
  shows "(dispatch_event evts ^^ length ps) s = fold (serve_event evts) ps s
    \<and> ev_wf (fold (serve_event evts) ps s) \<and> (\<exists>new. ev_queue (fold (serve_event evts) ps s) = rest @ new)"
  using assms(2,3)
proof (induction ps arbitrary: s rest)
  case (Cons p ps)
  note d = dispatch_event_eq [OF assms(1) Cons.prems(1), of p "ps @ rest"]
  have q: "ev_queue s = p # ps @ rest" using Cons.prems(2) by simp
  from d(3) [OF q] obtain new where new: "ev_queue (serve_event evts p s) = ps @ (rest @ new)" by auto
  from Cons.IH [OF d(2) [OF q] new] show ?case
    using d(1) [OF q] by (auto simp: funpow_Suc_right simp del: funpow.simps)
qed simp


section \<open>Interrupts during a trigger\<close>

text \<open>
  Between the two parts of a trigger an interrupt may trigger further events: its slots come after
  the reserved one, and filling the reserved slot later puts the event before them. Until it is
  filled the slot holds whatever it held before.
\<close>

lemma ring_list_update_tail:
  assumes "ring_wf buf head tail sz" "CIRC_SPACE head tail sz \<noteq> 0"
  shows "ring_list buf (ring_next head 1 sz) tail sz = ring_list buf head tail sz @ [buf ! nat head]"
    and "ring_wf buf (ring_next head 1 sz) tail sz"
  using ring_push1 [OF assms, of "buf ! nat head"] by (simp_all add: list_update_id)

lemma reserve_props:
  assumes "ev_wf s" "trigger_event_reserve s = Some (h, s1)"
  shows "ev_wf s1" "h = pe_head s" "ev_queue s1 = ev_queue s @ [pe_buffer s ! nat h]"
    "pe_tail s1 = pe_tail s" "pe_buffer_nevts s1 = pe_buffer_nevts s" "pe_buffer s1 = pe_buffer s"
  using assms ring_list_update_tail [of "pe_buffer s" "pe_head s" "pe_tail s" "pe_buffer_nevts s"]
  by (auto simp: trigger_event_reserve_def ev_wf_def ev_queue_def Let_def split: if_splits)

text \<open>The reserved slot is element number \<open>length (ev_queue s)\<close> of the queue as long as the tail stays.\<close>

lemma reserved_slot:
  assumes "ev_wf s" "CIRC_SPACE (pe_head s) (pe_tail s) (pe_buffer_nevts s) \<noteq> 0"
  shows "nat (pe_head s) = nat ((pe_tail s + int (length (ev_queue s))) mod pe_buffer_nevts s)"
proof -
  note wf = assms(1) [unfolded ev_wf_def] and w = ring_wfD [OF assms(1) [unfolded ev_wf_def]]
  have "int (length (ev_queue s)) = CIRC_CNT (pe_head s) (pe_tail s) (pe_buffer_nevts s)"
    using CIRC_CNT_bounds [OF wf] by (simp add: ev_queue_def)
  also have "\<dots> = (if pe_tail s \<le> pe_head s then pe_head s - pe_tail s
      else pe_head s - pe_tail s + pe_buffer_nevts s)" by (rule CIRC_CNT_eq [OF wf])
  finally have "pe_tail s + int (length (ev_queue s)) =
      (if pe_tail s \<le> pe_head s then pe_head s else pe_head s + pe_buffer_nevts s)" by auto
  then show ?thesis using w by simp
qed

lemma ring_list_update:
  assumes wf: "ring_wf buf head tail sz" and n: "int n < CIRC_CNT head tail sz"
  shows "ring_list (buf[nat ((tail + int n) mod sz) := x]) head tail sz = (ring_list buf head tail sz)[n := x]"
proof (rule nth_equalityI)
  note w = ring_wfD [OF wf] and b = CIRC_CNT_bounds [OF wf]
  show "length (ring_list (buf[nat ((tail + int n) mod sz) := x]) head tail sz) = length ((ring_list buf head tail sz)[n := x])"
    by simp
  fix i assume "i < length (ring_list (buf[nat ((tail + int n) mod sz) := x]) head tail sz)"
  then have i: "int i < CIRC_CNT head tail sz" by simp
  have inj: "nat ((tail + int n) mod sz) = nat ((tail + int i) mod sz) \<longleftrightarrow> n = i"
    using w b i n mod_less_twice [of "tail + int n" sz] mod_less_twice [of "tail + int i" sz] by auto
  have lt: "nat ((tail + int i) mod sz) < length buf" using w by (simp add: nat_less_iff)
  show "ring_list (buf[nat ((tail + int n) mod sz) := x]) head tail sz ! i = (ring_list buf head tail sz)[n := x] ! i"
    using i inj lt by (simp add: ring_list_def nth_list_update nat_less_iff) (auto simp: nth_list_update)
qed

lemma fill_reserved:
  assumes wf: "ev_wf s" and r: "trigger_event_reserve s = Some (h, s1)" and a: "adds_only isr"
  shows "ev_wf (trigger_event_fill h e d (isr s1))
    \<and> (\<exists>new. ev_queue (isr s1) = ev_queue s1 @ new
        \<and> ev_queue (trigger_event_fill h e d (isr s1)) = ev_queue s @ [\<lparr>pe_event = e, pe_data = d\<rparr>] @ new)"
proof -
  note p = reserve_props [OF wf r]
  note D = adds_onlyD [OF a p(1)]
  from D(4) obtain new where new: "ev_queue (isr s1) = ev_queue s @ [pe_buffer s ! nat h] @ new"
    using p(3) by auto
  let ?s = "isr s1" and ?n = "length (ev_queue s)" and ?x = "\<lparr>pe_event = e, pe_data = d\<rparr>"
  have wf2: "ring_wf (pe_buffer ?s) (pe_head ?s) (pe_tail ?s) (pe_buffer_nevts ?s)"
    using D(1) by (simp add: ev_wf_def)
  have n: "int ?n < CIRC_CNT (pe_head ?s) (pe_tail ?s) (pe_buffer_nevts ?s)"
    using arg_cong [OF new, of length] CIRC_CNT_bounds [OF wf2] by (simp add: ev_queue_def [of ?s])
  have "nat h = nat ((pe_tail ?s + int ?n) mod pe_buffer_nevts ?s)"
    using reserved_slot [OF wf] r p D(2,3) by (simp add: trigger_event_reserve_def split: if_splits)
  then have "ev_queue (trigger_event_fill h e d ?s) = (ev_queue ?s)[?n := ?x]"
    using ring_list_update [OF wf2 n, of ?x] by (simp add: trigger_event_fill_def events_notify_def ev_queue_def)
  also have "\<dots> = ev_queue s @ [?x] @ new" using new by (simp add: list_update_append)
  finally have q: "ev_queue (trigger_event_fill h e d ?s) = ev_queue s @ [?x] @ new" .
  have "ev_wf (trigger_event_fill h e d ?s)"
    using wf2 by (simp add: ev_wf_def ring_wf_def trigger_event_fill_def events_notify_def)
  with q new p(3) show ?thesis by auto
qed

end
