(* ===== verification/EventIrq.thy ===== *)
theory EventIrq
  imports EventProps
begin

text \<open>
  The loop of \<^verbatim>\<open>handle_interrupt_events\<close>: when no handler raises an interrupt flag itself, it
  ends, having served every pending interrupt once, lowest number first, with all flags clear.
\<close>

definition handlers_keep_flags :: "('e, 'd, 'w) event_table \<Rightarrow> bool" where
  "handlers_keep_flags evts \<longleftrightarrow> (\<forall>e. \<forall>h \<in> set (evts e). \<forall>f. eh_handle h = Some f \<longrightarrow>
     (\<forall>d s. ie_pending_flags (f d s) = ie_pending_flags s))"

lemma BITS_TO_LONGS_mult [simp]: "BITS_TO_LONGS (32 * k) = k"
  by (simp add: BITS_TO_LONGS_def BITS_PER_LONG_def)

lemma handle_event_keeps_flags:
  assumes "handlers_keep_flags evts"
  shows "ie_pending_flags (snd (handle_event evts e d False s)) = ie_pending_flags s"
proof -
  have "ie_pending_flags (snd (handle_event_loop hs d False b s)) = ie_pending_flags s"
    if "\<forall>h \<in> set hs. \<forall>f. eh_handle h = Some f \<longrightarrow> (\<forall>d s. ie_pending_flags (f d s) = ie_pending_flags s)" for hs b
    using that
  proof (induction hs arbitrary: b s)
    case (Cons h hs)
    then show ?case by (cases "eh_handle h") (simp_all add: Let_def)
  qed simp
  then show ?thesis using assms by (simp add: handle_event_def handlers_keep_flags_def)
qed

lemma serve_irq_flags:
  assumes "handlers_keep_flags evts" "i < 32" "k < length (ie_pending_flags s)"
  shows "ie_pending_flags (serve_irq ievt evts irqs (32 * k) i s) =
    (ie_pending_flags s)[k := (ie_pending_flags s ! k) AND NOT (push_bit i 1)]"
  using assms handle_event_keeps_flags [OF assms(1)]
  by (simp add: serve_irq_def Let_def on_world_def clear_bit_c_def clear_bit_nonatomic_def
      BIT_WORD_def BIT_MASK_def BITS_PER_LONG_def)

text \<open>The set bits of a word, lowest first; clearing the first leaves the rest.\<close>

definition set_bits_of :: "u32 \<Rightarrow> nat list" where
  "set_bits_of x = filter (bit x) [0..<32]"

lemma set_bits_of_Nil: "set_bits_of x = [] \<longleftrightarrow> x = 0"
  using bit_imp_le_length [of x] by (fastforce simp: set_bits_of_def filter_empty_conv bit_eq_iff [of x])

lemma set_bits_of_Cons:
  assumes "set_bits_of x = i # is"
  shows "lowest_bit x i" "i < 32" "set_bits_of (x AND NOT (push_bit i 1)) = is"
proof -
  have srt: "sorted (i # is)" "distinct (i # is)" and mem: "set (i # is) = {j. j < 32 \<and> bit x j}"
    unfolding assms [symmetric] set_bits_of_def by (auto simp: sorted_wrt_filter)
  from mem have i: "i < 32" "bit x i" by auto
  then show "i < 32" by simp
  show "lowest_bit x i"
    unfolding lowest_bit_def
  proof (intro conjI allI impI notI)
    fix j assume "j < i" "bit x j"
    with i mem have "j \<in> set (i # is)" by simp
    with srt \<open>j < i\<close> show False by auto
  qed (rule i)
  have "set_bits_of (x AND NOT (push_bit i 1)) = filter (\<lambda>j. j \<noteq> i) (set_bits_of x)"
    unfolding set_bits_of_def filter_filter
    by (rule filter_cong) (auto simp: bit_and_iff bit_not_iff bit_exp_iff)
  also have "\<dots> = is" using srt by (auto simp: assms filter_id_conv)
  finally show "set_bits_of (x AND NOT (push_bit i 1)) = is" .
qed

lemma handle_irq_word_spec:
  assumes "handlers_keep_flags evts" "k < length (ie_pending_flags s)"
    and "set_bits_of (ie_pending_flags s ! k) = is"
  shows "handle_irq_word ievt evts irqs (32 * k) s = Some (fold (serve_irq ievt evts irqs (32 * k)) is s)
    \<and> ie_pending_flags (fold (serve_irq ievt evts irqs (32 * k)) is s) = (ie_pending_flags s)[k := 0]"
  using assms(2,3)
proof (induction "is" arbitrary: s)
  case Nil
  then have "ie_pending_flags s ! k = 0" by (simp add: set_bits_of_Nil)
  moreover from this have "(ie_pending_flags s)[k := 0] = ie_pending_flags s" by (metis list_update_id)
  ultimately show ?case by (subst handle_irq_word.simps) (simp add: Let_def)
next
  case (Cons i "is")
  note c = set_bits_of_Cons [OF Cons.prems(2)]
  let ?s = "serve_irq ievt evts irqs (32 * k) i s"
  note fl = serve_irq_flags [OF assms(1) c(2) Cons.prems(1), of ievt irqs]
  have "set_bits_of (ie_pending_flags ?s ! k) = is"
    using c(3) Cons.prems(1) fl by simp
  with Cons.IH [of ?s] Cons.prems(1) fl
  have "handle_irq_word ievt evts irqs (32 * k) ?s = Some (fold (serve_irq ievt evts irqs (32 * k)) is ?s)"
    "ie_pending_flags (fold (serve_irq ievt evts irqs (32 * k)) is ?s) = (ie_pending_flags ?s)[k := 0]" by auto
  moreover have "ffs (ie_pending_flags s ! k) = Suc i" by (rule ffs_eqI [OF c(1)])
  ultimately show ?case using fl by (subst handle_irq_word.simps) (simp add: Let_def)
qed

text \<open>All words: the numbers of the pending flags from word \<open>k\<close> on, in the order they are served.\<close>

definition pending_from :: "nat \<Rightarrow> bitmap \<Rightarrow> nat list" where
  "pending_from k fl = filter (\<lambda>n. test_bit_c n fl) [32 * k..<32 * length fl]"

definition serve_nr ::
  "(nat \<Rightarrow> 'e) \<Rightarrow> ('e, 'd, 'w) event_table \<Rightarrow> 'w irq_table \<Rightarrow> nat \<Rightarrow> ('e, 'd, 'w) evsys \<Rightarrow> ('e, 'd, 'w) evsys" where
  "serve_nr ievt evts irqs n = serve_irq ievt evts irqs (32 * (n div 32)) (n mod 32)"

lemma pending_from_step:
  assumes "k < length fl"
  shows "pending_from k fl = map (\<lambda>i. 32 * k + i) (set_bits_of (fl ! k)) @ pending_from (Suc k) fl"
proof -
  have "32 * Suc k \<le> 32 * length fl" using assms by simp
  then have "[32 * k..<32 * length fl] = [32 * k..<32 * Suc k] @ [32 * Suc k..<32 * length fl]"
    using upt_add_eq_append [of "32 * k" "32 * Suc k" "32 * length fl - 32 * Suc k"] by simp
  moreover have "[32 * k..<32 * Suc k] = map (\<lambda>i. 32 * k + i) [0..<32]"
    using map_add_upt [of "32 * k" 32] by (simp add: add.commute)
  moreover have "filter (\<lambda>n. test_bit_c n fl) (map (\<lambda>i. 32 * k + i) [0..<32]) = map (\<lambda>i. 32 * k + i) (set_bits_of (fl ! k))"
    unfolding filter_map set_bits_of_def o_def
    by (intro arg_cong [of _ _ "map _"] filter_cong) (simp_all add: test_bit_c_iff)
  ultimately show ?thesis by (simp add: pending_from_def)
qed

lemma pending_from_cong:
  "length fl' = length fl \<Longrightarrow> (\<And>j. k \<le> j \<Longrightarrow> fl' ! j = fl ! j) \<Longrightarrow> pending_from k fl' = pending_from k fl"
  unfolding pending_from_def by (rule filter_cong) (auto simp: test_bit_c_iff less_eq_div_iff_mult_less_eq)

lemma fold_serve_nr:
  "\<forall>i \<in> set is. i < 32 \<Longrightarrow>
    fold (serve_nr ievt evts irqs) (map (\<lambda>i. 32 * k + i) is) s = fold (serve_irq ievt evts irqs (32 * k)) is s"
  by (induction "is" arbitrary: s) (simp_all add: serve_nr_def)

lemma set_bits_of_less: "i \<in> set (set_bits_of x) \<Longrightarrow> i < 32"
  by (simp add: set_bits_of_def)

lemma handle_interrupt_words_spec:
  assumes "handlers_keep_flags evts" "length (ie_pending_flags s) = n" "BITS_TO_LONGS nr = n" "k \<le> n"
  shows "handle_interrupt_words nr ievt evts irqs (32 * k) s =
      Some (fold (serve_nr ievt evts irqs) (pending_from k (ie_pending_flags s)) s)
    \<and> ie_pending_flags (fold (serve_nr ievt evts irqs) (pending_from k (ie_pending_flags s)) s) =
      take k (ie_pending_flags s) @ replicate (n - k) 0"
  using assms(2,4)
proof (induction "n - k" arbitrary: k s)
  case 0
  then have "\<not> 32 * k < nr"
    using assms(3) div_le_dividend by (auto simp: BITS_TO_LONGS_def BITS_PER_LONG_def)
  with 0 show ?case by (subst handle_interrupt_words.simps) (simp add: pending_from_def)
next
  case (Suc d)
  let ?fl = "ie_pending_flags s"
  have k: "k < length ?fl" "k < n" using Suc by simp_all
  have "32 * k < nr"
  proof (rule ccontr)
    assume "\<not> 32 * k < nr"
    then have "BITS_TO_LONGS nr \<le> BITS_TO_LONGS (32 * k)"
      unfolding BITS_TO_LONGS_def by (intro div_le_mono) simp
    with k assms(3) show False by simp
  qed
  let ?s = "fold (serve_irq ievt evts irqs (32 * k)) (set_bits_of (?fl ! k)) s"
  note w = handle_irq_word_spec [OF assms(1) k(1) refl, of ievt irqs]
  have fl: "ie_pending_flags ?s = ?fl[k := 0]" using w by simp
  have IH: "handle_interrupt_words nr ievt evts irqs (32 * Suc k) ?s =
      Some (fold (serve_nr ievt evts irqs) (pending_from (Suc k) ?fl) ?s)
    \<and> ie_pending_flags (fold (serve_nr ievt evts irqs) (pending_from (Suc k) ?fl) ?s) =
      take (Suc k) (?fl[k := 0]) @ replicate (n - Suc k) 0"
    using Suc.hyps(1) [of "Suc k" ?s] Suc.hyps(2) Suc.prems k fl pending_from_cong [of "?fl[k := 0]" ?fl "Suc k"]
    by simp
  have "?s = fold (serve_nr ievt evts irqs) (map (\<lambda>i. 32 * k + i) (set_bits_of (?fl ! k))) s"
    by (rule fold_serve_nr [symmetric]) (simp add: set_bits_of_less)
  moreover have "take (Suc k) (?fl[k := 0]) @ replicate (n - Suc k) 0 = take k ?fl @ replicate (n - k) 0"
    using k by (simp add: take_Suc_conv_app_nth Suc_diff_Suc [symmetric])
  ultimately show ?case
    using IH w \<open>32 * k < nr\<close> pending_from_step [OF k(1)]
    by (subst handle_interrupt_words.simps) (simp add: BITS_PER_LONG_def add.commute)
qed


section \<open>The main loop\<close>

text \<open>
  \<^verbatim>\<open>main.c\<close>: the default \<^verbatim>\<open>idle\<close> triggers the timer event \<open>tick\<close>; \<open>bathos_drain\<close> is the inner loop
  of \<^verbatim>\<open>bathos_loop\<close>, \<open>bathos_loop_turn\<close> one turn of the outer, endless one.
\<close>

definition idle :: "'e \<Rightarrow> ('e, 'd, 'w) evsys \<Rightarrow> ('e, 'd, 'w) evsys" where
  "idle tick s = snd (trigger_event tick None s)"

partial_function (option) bathos_drain ::
  "nat \<Rightarrow> (nat \<Rightarrow> 'e) \<Rightarrow> ('e, 'd, 'w) event_table \<Rightarrow> 'w irq_table \<Rightarrow>
   ('e, 'd, 'w) evsys \<Rightarrow> ('e, 'd, 'w) evsys option" where
  "bathos_drain nr ievt evts irqs s =
     (if pending_events nr s \<noteq> 0
      then Option.bind (handle_events nr ievt evts irqs s) (bathos_drain nr ievt evts irqs)
      else Some s)"

definition bathos_loop_turn ::
  "nat \<Rightarrow> (nat \<Rightarrow> 'e) \<Rightarrow> ('e, 'd, 'w) event_table \<Rightarrow> 'w irq_table \<Rightarrow> 'e \<Rightarrow>
   ('e, 'd, 'w) evsys \<Rightarrow> ('e, 'd, 'w) evsys option" where
  "bathos_loop_turn nr ievt evts irqs tick s =
     map_option (idle tick) (bathos_drain nr ievt evts irqs s)"

section \<open>Properties\<close>

text \<open>A small system for the witnesses: a ring of 4, events are numbers, the world is a log.\<close>

definition ex_evsys :: "(nat, nat, nat list) evsys" where
  "ex_evsys = \<lparr>pe_head = 2, pe_tail = 0, pe_buffer_nevts = 4,
     pe_buffer = [\<lparr>pe_event = 1, pe_data = Some 10\<rparr>, \<lparr>pe_event = 2, pe_data = None\<rparr>,
       \<lparr>pe_event = 0, pe_data = None\<rparr>, \<lparr>pe_event = 0, pe_data = None\<rparr>],
     ie_pending_flags = [5, 0], ev_world = []\<rparr>"

definition ex_evts :: "(nat, nat, nat list) event_table" where
  "ex_evts e = [\<lparr>eh_init = None, eh_handle_ll = (\<lambda>d s. s),
     eh_handle = Some (\<lambda>d s. s\<lparr>ev_world := ev_world s @ [e]\<rparr>), eh_default_hl = False\<rparr>]"

lemma ex_evsys_wf: "ev_wf ex_evsys" "ev_queue ex_evsys = take 2 (pe_buffer ex_evsys)" "ev_cap ex_evsys = 3"
proof -
  have "ring_wf (pe_buffer ex_evsys) (pe_head ex_evsys) (pe_tail ex_evsys) (pe_buffer_nevts ex_evsys)"
    by (rule ring_wfI [of _ 2]) (simp_all add: ex_evsys_def)
  then show "ev_wf ex_evsys" by (simp add: ev_wf_def)
  show "ev_queue ex_evsys = take 2 (pe_buffer ex_evsys)" by code_simp
  show "ev_cap ex_evsys = 3" by (simp add: ev_cap_def ex_evsys_def)
qed

lemma ex_evts_ok: "handlers_add_only ex_evts" "handlers_keep_flags ex_evts"
  by (auto simp: handlers_add_only_def handlers_keep_flags_def ex_evts_def)

text \<open>
  C2. \<^verbatim>\<open>handle_regular_events\<close> dispatches exactly the events that were pending when it was called,
  oldest first, each to all its handlers with its own data and each once. Events that handlers
  trigger meanwhile stay in the queue for the next round, in the order they were triggered.
  Handlers may trigger events and change the rest of the system, but not take events out.
\<close>

theorem handle_regular_events_round:
  assumes "handlers_add_only evts" "ev_wf s"
  shows "handle_regular_events evts s = fold (serve_event evts) (ev_queue s) s
    \<and> ev_wf (handle_regular_events evts s)"
proof -
  have "nat (pending_regular_events s) = length (ev_queue s)"
    by (simp add: pending_regular_events_def ev_queue_def)
  with dispatch_round [OF assms, of "ev_queue s" "[]"] show ?thesis
    by (simp add: handle_regular_events_def)
qed

theorem handle_regular_events_round_witness:
  "handle_regular_events ex_evts ex_evsys =
     serve_event ex_evts \<lparr>pe_event = 2, pe_data = None\<rparr>
       (serve_event ex_evts \<lparr>pe_event = 1, pe_data = Some 10\<rparr> ex_evsys)"
  using handle_regular_events_round [OF ex_evts_ok(1) ex_evsys_wf(1)] unfolding ex_evsys_wf(2)
  by (simp add: ex_evsys_def)

text \<open>
  C4. An interrupt that arrives between the reservation and the filling of a slot, and triggers any
  number of events, loses nothing: after \<^verbatim>\<open>trigger_event\<close> completes, the queue holds the old events,
  the interrupted one, and then those of the interrupt.
\<close>

theorem trigger_event_interrupted:
  assumes "ev_wf s" "trigger_event_reserve s = Some (h, s1)" "adds_only isr"
  shows "\<exists>new. ev_queue (isr s1) = ev_queue s1 @ new
    \<and> ev_queue (trigger_event_fill h e d (isr s1)) = ev_queue s @ [\<lparr>pe_event = e, pe_data = d\<rparr>] @ new"
  using fill_reserved [OF assms] by blast

theorem trigger_event_interrupted_witness:
  "\<exists>new. ev_queue (trigger_event_fill 2 7 None (snd (trigger_event 9 None (ex_evsys\<lparr>pe_head := 3\<rparr>)))) =
     ev_queue ex_evsys @ [\<lparr>pe_event = 7, pe_data = None\<rparr>] @ new"
proof -
  have "trigger_event_reserve ex_evsys = Some (2, ex_evsys\<lparr>pe_head := 3\<rparr>)" by code_simp
  from trigger_event_interrupted [OF ex_evsys_wf(1) this adds_only_trigger, of 9 None 7 None]
  show ?thesis by blast
qed

text \<open>
  Triggering a burst of events keeps the oldest: the queue afterwards is the old queue followed
  by the burst, cut at the capacity (63 with the source's pool of 64).
\<close>

theorem trigger_event_burst:
  assumes "ev_wf s"
  shows "ev_queue (fold (\<lambda>p s. snd (trigger_event (pe_event p) (pe_data p) s)) ps s) =
    take (nat (pe_buffer_nevts s) - 1) (ev_queue s @ ps)"
proof -
  have "fold (\<lambda>p s. snd (trigger_event (pe_event p) (pe_data p) s)) ps s = fold ev_push ps s"
    by (rule fold_cong) (simp_all add: ev_push_def fun_eq_iff)
  then show ?thesis using evq.push_burst [OF assms, of ps] by (simp add: ev_cap_def)
qed

theorem trigger_event_burst_witness:
  "ev_queue (fold (\<lambda>p s. snd (trigger_event (pe_event p) (pe_data p) s))
     (replicate 5 \<lparr>pe_event = 9, pe_data = None\<rparr>) ex_evsys) =
    take 2 (pe_buffer ex_evsys) @ [\<lparr>pe_event = 9, pe_data = None\<rparr>]"
  using trigger_event_burst [OF ex_evsys_wf(1), of "replicate 5 \<lparr>pe_event = 9, pe_data = None\<rparr>"]
  unfolding ex_evsys_wf(2) by (simp add: ex_evsys_def)

text \<open>
  Serving interrupt \<open>n\<close>: its own high level handlers run, in the order of the table and without data, then its flag is cleared, then its line is unmasked.
\<close>

definition served :: "(nat \<Rightarrow> 'e) \<Rightarrow> ('e, 'd, 'w) event_table \<Rightarrow> 'w irq_table \<Rightarrow> nat \<Rightarrow> ('e, 'd, 'w) evsys \<Rightarrow> ('e, 'd, 'w) evsys" where
  "served ievt evts irqs n s =
     (let s = fold (\<lambda>h s. case eh_handle h of None \<Rightarrow> s | Some f \<Rightarrow> f None s) (evts (ievt n)) s;
          s = s\<lparr>ie_pending_flags := map (unset_bit n) (ie_pending_flags s)\<rparr>
      in s\<lparr>ev_world := snd (bathos_unmask_irq irqs n (ev_world s))\<rparr>)"

lemma handle_event_hl:
  "snd (handle_event evts e d False s) = fold (\<lambda>h s. case eh_handle h of None \<Rightarrow> s | Some f \<Rightarrow> f d s) (evts e) s"
proof -
  have "snd (handle_event_loop hs d False b s) = fold (\<lambda>h s. case eh_handle h of None \<Rightarrow> s | Some f \<Rightarrow> f d s) hs s" for hs b
    by (induction hs arbitrary: b s) (simp_all add: Let_def)
  then show ?thesis by (simp add: handle_event_def)
qed

lemma serve_irq_served:
  assumes "handlers_keep_flags evts" "i < 32" "length (ie_pending_flags s) = 1"
  shows "serve_irq ievt evts irqs 0 i s = served ievt evts irqs i s"
proof -
  obtain fl where fl: "ie_pending_flags s = [fl]" using assms(3) by (cases "ie_pending_flags s") auto
  have clear: "clear_bit_c i [x] = [unset_bit i x]" for x :: u32
    using assms(2) by (simp add: clear_bit_c_def clear_bit_nonatomic_def BIT_WORD_def BIT_MASK_def BITS_PER_LONG_def unset_bit_eq_and_not)
  have "BITS_TO_LONGS 0 = 0" by code_simp
  with fl clear show ?thesis
    using handle_event_keeps_flags [OF assms(1), of "ievt i" None s]
    by (simp add: serve_irq_def served_def handle_event_hl Let_def on_world_def)
qed

lemma fold_served:
  assumes "handlers_keep_flags evts" "list_all (\<lambda>i. i < 32) ns" "length (ie_pending_flags s) = 1"
  shows "fold (serve_irq ievt evts irqs 0) ns s = fold (served ievt evts irqs) ns s"
  using assms(2,3)
proof (induction ns arbitrary: s)
  case (Cons i ns)
  have "length (ie_pending_flags (serve_irq ievt evts irqs 0 i s)) = 1"
    using serve_irq_flags [OF assms(1), of i 0 s ievt irqs] Cons.prems by simp
  with Cons show ?case by (simp add: serve_irq_served [OF assms(1)])
qed simp

text \<open>
  C13. A system with at most 32 interrupts, whose handlers raise no interrupt flags: \<^verbatim>\<open>handle_interrupt_events\<close> ends. It has run the handlers of
  exactly the pending interrupts, each once and lowest number first, and cleared the flag and unmasked the line of each after its handlers, before the next was served; no flag
  is pending at the end.
\<close>

theorem handle_interrupt_events_serves:
  assumes "handlers_keep_flags evts" "0 < nr" "nr \<le> 32" "ie_pending_flags s = [fl]"
  shows "\<exists>s'. handle_interrupt_events nr ievt evts irqs s = Some s'
    \<and> s' = fold (served ievt evts irqs) (filter (bit fl) [0..<32]) s
    \<and> ie_pending_flags s' = [0] \<and> \<not> pending_interrupt_events nr s'"
proof -
  have "BITS_TO_LONGS nr = 1" using assms(2,3) unfolding BITS_TO_LONGS_def BITS_PER_LONG_def by linarith
  moreover have "set_bits_of (ie_pending_flags s ! 0) = filter (bit fl) [0..<32]" by (simp add: set_bits_of_def assms(4))
  note w = handle_irq_word_spec [OF assms(1) _ this, of ievt irqs]
  moreover have "fold (serve_irq ievt evts irqs 0) (filter (bit fl) [0..<32]) s = fold (served ievt evts irqs) (filter (bit fl) [0..<32]) s"
    using assms(4) by (intro fold_served [OF assms(1)]) (auto simp: list_all_iff)
  ultimately show ?thesis
    using assms(2-4) by (simp add: handle_interrupt_events_def handle_interrupt_words.simps BITS_PER_LONG_def pending_interrupt_events_def)
qed

theorem handle_interrupt_events_serves_witness:
  "\<exists>s'. handle_interrupt_events 32 (\<lambda>n. n + 100) ex_evts (\<lambda>n. None) (ex_evsys\<lparr>ie_pending_flags := [5]\<rparr>) = Some s'
     \<and> ev_world s' = [100, 102] \<and> ie_pending_flags s' = [0]"
proof -
  have "filter (bit (5 :: u32)) [0..<32] = [0, 2]" by code_simp
  with handle_interrupt_events_serves [OF ex_evts_ok(2), of 32 "ex_evsys\<lparr>ie_pending_flags := [5]\<rparr>" 5 "\<lambda>n. n + 100" "\<lambda>n. None"]
  show ?thesis by (auto simp: served_def ex_evts_def ex_evsys_def bathos_unmask_irq_def)
qed

text \<open>
  With more than 32 interrupts the wrong event is served: when interrupt 32 is pending, the
  handlers that run are those of interrupt event 33, because the table pointer has already been
  advanced by the word number when the interrupt number is added to it.
\<close>

theorem handle_interrupt_events_off_by_word:
  assumes "handlers_keep_flags evts" "ie_pending_flags s = [0, 1]"
  shows "handle_interrupt_events 64 (\<lambda>n. n) evts irqs s =
    Some (on_world (bathos_unmask_irq irqs 32)
      ((snd (handle_event evts 33 None False s))\<lparr>ie_pending_flags := [0, 0]\<rparr>))"
proof -
  have nr: "BITS_TO_LONGS 64 = 2" by code_simp
  have "length (ie_pending_flags s) = BITS_TO_LONGS 64" using assms(2) nr by simp
  note sp = handle_interrupt_words_spec [OF assms(1) this refl, of 0 "\<lambda>n. n" irqs]
  have "pending_from 0 [0, 1 :: u32] = [32]" by code_simp
  then have "handle_interrupt_events 64 (\<lambda>n. n) evts irqs s = Some (serve_nr (\<lambda>n. n) evts irqs 32 s)"
    using sp assms(2) by (simp add: handle_interrupt_events_def)
  moreover have "clear_bit_c 32 [0, 1 :: u32] = [0, 0]" by code_simp
  moreover have "BITS_TO_LONGS 32 = 1" by code_simp
  ultimately show ?thesis
    using handle_event_keeps_flags [OF assms(1), of 33 None s] assms(2)
    by (simp add: serve_nr_def serve_irq_def Let_def BITS_PER_LONG_def)
qed

theorem handle_interrupt_events_off_by_word_witness:
  "map_option ev_world (handle_interrupt_events 64 (\<lambda>n. n) ex_evts (\<lambda>n. None)
     (ex_evsys\<lparr>ie_pending_flags := [0, 1]\<rparr>)) = Some [33]"
  using handle_interrupt_events_off_by_word [OF ex_evts_ok(2), of "ex_evsys\<lparr>ie_pending_flags := [0, 1]\<rparr>" "\<lambda>n. None"]
  by (simp add: handle_event_def ex_evts_def Let_def on_world_def bathos_unmask_irq_def ex_evsys_def)

end
