(* ===== verification/Timer.thy ===== *)
theory Timer
  imports EventProps AllocatorRun
begin

text \<open>
  The system timer (\<^verbatim>\<open>sys_timer.c\<close>) and the periodic scheduler (\<^verbatim>\<open>periodic_scheduler.c\<close>). The list of
  scheduled ticks is a delta list: the first entry holds an absolute time, every other one the
  distance from its predecessor. Each entry is a buffer of the allocator, named by its offset. A
  \<^verbatim>\<open>jiffies\<close> counter is read through a function from the number of the read to its value, since the
  counter moves on between reads. Signed differences of times wrap at 32 bits.
\<close>

section \<open>Model\<close>

definition time_after :: "u32 \<Rightarrow> u32 \<Rightarrow> bool" where
  "time_after a b \<longleftrightarrow> sint (b - a) < 0"

definition time_before :: "u32 \<Rightarrow> u32 \<Rightarrow> bool" where
  "time_before a b \<longleftrightarrow> time_after b a"

definition time_after_eq :: "u32 \<Rightarrow> u32 \<Rightarrow> bool" where
  "time_after_eq a b \<longleftrightarrow> sint (a - b) \<ge> 0"

definition time_before_eq :: "u32 \<Rightarrow> u32 \<Rightarrow> bool" where
  "time_before_eq a b \<longleftrightarrow> time_after_eq b a"

definition time_in_range :: "u32 \<Rightarrow> u32 \<Rightarrow> u32 \<Rightarrow> bool" where
  "time_in_range a b c \<longleftrightarrow> time_after_eq a b \<and> time_before_eq a c"

record 'd scheduled_tick =
  tick_addr :: nat
  tick_when :: u32
  tick_data :: "'d option"

record 'd timer =
  tm_alloc :: alloc_state
  scheduled_ticks :: "'d scheduled_tick list"

text \<open>\<^verbatim>\<open>sizeof(struct scheduled_tick)\<close> with 32-bit longs and pointers.\<close>

definition TICK_SIZE :: int where
  "TICK_SIZE = 16"

definition system_timer_init :: "'d timer \<Rightarrow> int \<times> 'd timer" where
  "system_timer_init tm = (0, tm\<lparr>scheduled_ticks := []\<rparr>)"

definition alloc_tick :: "alloc_cfg \<Rightarrow> 'd timer \<Rightarrow> nat option \<times> 'd timer" where
  "alloc_tick c tm =
     (let (out, al) = bathos_alloc_buffer c TICK_SIZE (tm_alloc tm) in (out, tm\<lparr>tm_alloc := al\<rparr>))"

definition free_tick :: "alloc_cfg \<Rightarrow> 'd scheduled_tick \<Rightarrow> 'd timer \<Rightarrow> 'd timer option" where
  "free_tick c t tm =
     (let tm = tm\<lparr>scheduled_ticks := remove1 t (scheduled_ticks tm)\<rparr>
      in map_option (\<lambda>al. tm\<lparr>tm_alloc := al\<rparr>)
           (bathos_free_buffer c (int (tick_addr t)) TICK_SIZE (tm_alloc tm)))"

fun enqueue_loop :: "'d scheduled_tick \<Rightarrow> 'd scheduled_tick list \<Rightarrow> 'd scheduled_tick list" where
  "enqueue_loop t [] = [t]"
| "enqueue_loop t (ptr # ps) =
     (if time_before (tick_when t) (tick_when ptr)
      then t # ptr\<lparr>tick_when := tick_when ptr - tick_when t\<rparr> # ps
      else ptr # enqueue_loop (t\<lparr>tick_when := tick_when t - tick_when ptr\<rparr>) ps)"

definition sys_timer_enqueue_tick ::
  "alloc_cfg \<Rightarrow> u32 \<Rightarrow> u32 \<Rightarrow> 'd option \<Rightarrow> 'd timer \<Rightarrow> int \<times> 'd timer" where
  "sys_timer_enqueue_tick c jiffies evt_jiffies data tm =
     (case alloc_tick c tm of
        (None, tm) \<Rightarrow> (- ENOMEM, tm)
      | (Some a, tm) \<Rightarrow>
          let t = \<lparr>tick_addr = a, tick_when = jiffies + evt_jiffies, tick_data = data\<rparr>
          in if scheduled_ticks tm = [] then (0, tm\<lparr>scheduled_ticks := [t]\<rparr>)
             else (0, tm\<lparr>scheduled_ticks := enqueue_loop t (scheduled_ticks tm)\<rparr>))"

text \<open>
  \<^verbatim>\<open>on_hw_timer_tick\<close>: the world of the event system is the timer. \<open>next # rest\<close> is the list from
  the current entry on; \<open>n\<close> counts the reads of \<^verbatim>\<open>jiffies\<close>.
\<close>

fun rebase :: "u32 \<Rightarrow> 'd scheduled_tick list \<Rightarrow> 'd scheduled_tick list" where
  "rebase now [] = []"
| "rebase now (t # ts) = t\<lparr>tick_when := tick_when t + now\<rparr> # ts"

lemma length_rebase [simp]: "length (rebase now ts) = length ts"
  by (cases ts) simp_all

function timer_tick_loop ::
  "alloc_cfg \<Rightarrow> 'e \<Rightarrow> (nat \<Rightarrow> u32) \<Rightarrow> nat \<Rightarrow> 'd scheduled_tick list \<Rightarrow>
   ('e, 'd, 'd timer) evsys \<Rightarrow> ('e, 'd, 'd timer) evsys option" where
  "timer_tick_loop c tick jif n [] s = Some s"
| "timer_tick_loop c tick jif n (next # rest) s =
     (if time_after (tick_when next) (jif n) then Some s
      else
        let s = snd (trigger_event tick (tick_data next) s);
            rest = rebase (jif (n + 1)) rest;
            n = (if rest = [] then n + 1 else n + 2);
            tm = (ev_world s)\<lparr>scheduled_ticks := next # rest\<rparr>
        in Option.bind (free_tick c next tm)
             (\<lambda>tm. timer_tick_loop c tick jif n rest (s\<lparr>ev_world := tm\<rparr>)))"
  by pat_completeness auto
termination
  by (relation "measure (\<lambda>(_, _, _, _, ts, _). length ts)") auto

definition on_hw_timer_tick ::
  "alloc_cfg \<Rightarrow> 'e \<Rightarrow> (nat \<Rightarrow> u32) \<Rightarrow> ('e, 'd, 'd timer) evsys \<Rightarrow> ('e, 'd, 'd timer) evsys option" where
  "on_hw_timer_tick c tick jif s =
     timer_tick_loop c tick jif 0 (scheduled_ticks (ev_world s)) s"


text \<open>
  The periodic scheduler: a task has a job, an optional initialiser and a period. The tasks of the
  linker section are a list, and the data of a timer tick is the index of its task.
\<close>

record 'a bathos_task =
  tk_job :: "'a \<Rightarrow> 'a"
  tk_init :: "('a \<Rightarrow> 'a) option"
  tk_arg :: 'a
  tk_period :: u32
  tk_release :: u32

definition init_task :: "'a bathos_task \<Rightarrow> 'a bathos_task" where
  "init_task p = (case tk_init p of None \<Rightarrow> p | Some f \<Rightarrow> p\<lparr>tk_arg := f (tk_arg p)\<rparr>)"

text \<open>The second loop of \<^verbatim>\<open>pts_init\<close>, from task \<open>i\<close> on; \<open>jif\<close> gives the reads inside the timer.\<close>

function pts_schedule ::
  "alloc_cfg \<Rightarrow> u32 \<Rightarrow> u32 \<Rightarrow> (nat \<Rightarrow> u32) \<Rightarrow> nat \<Rightarrow> 'a bathos_task list \<Rightarrow> nat timer \<Rightarrow>
   int \<times> 'a bathos_task list \<times> nat timer" where
  "pts_schedule c HZ now jif i tasks tm =
     (if i < length tasks then
        let p = (tasks ! i)\<lparr>tk_release := tk_release (tasks ! i) + now + HZ\<rparr>;
            tasks = tasks[i := p];
            (r, tm) = sys_timer_enqueue_tick c (jif i) (tk_release p - now) (Some i) tm
        in if r < 0 then (- 1, tasks, tm) else pts_schedule c HZ now jif (i + 1) tasks tm
      else (0, tasks, tm))"
  by pat_completeness auto
termination
  by (relation "measure (\<lambda>(_, _, _, _, i, ts, _). length ts - i)") auto

declare pts_schedule.simps [simp del]

definition pts_init ::
  "alloc_cfg \<Rightarrow> u32 \<Rightarrow> u32 \<Rightarrow> (nat \<Rightarrow> u32) \<Rightarrow> 'a bathos_task list \<Rightarrow> nat timer \<Rightarrow>
   int \<times> 'a bathos_task list \<times> nat timer" where
  "pts_init c HZ now jif tasks tm = pts_schedule c HZ now jif 0 (map init_task tasks) tm"

text \<open>
  \<^verbatim>\<open>pts_handle\<close>: run the job, advance the release time; a release already in the past becomes the
  next jiffy. \<open>now'\<close> is the read inside \<^verbatim>\<open>sys_timer_enqueue_tick\<close>.
\<close>

definition next_release :: "u32 \<Rightarrow> 'a bathos_task \<Rightarrow> 'a bathos_task" where
  "next_release now p =
     (let r = tk_release p + tk_period p
      in p\<lparr>tk_release := if time_before_eq r now then now + 1 else r\<rparr>)"

definition pts_handle ::
  "alloc_cfg \<Rightarrow> u32 \<Rightarrow> u32 \<Rightarrow> nat \<Rightarrow> 'a bathos_task list \<Rightarrow> nat timer \<Rightarrow> 'a bathos_task list \<times> nat timer" where
  "pts_handle c now now' i tasks tm =
     (let p = tasks ! i;
          p = next_release now (p\<lparr>tk_arg := tk_job p (tk_arg p)\<rparr>);
          (r, tm) = sys_timer_enqueue_tick c now' (tk_release p - now) (Some i) tm
      in (tasks[i := p], tm))"

end
