(* ===== verification/BufferPool.thy ===== *)
theory BufferPool
  imports AllocatorRun
begin

text \<open>
  What clients that allocate records of one size rely on: a pool of buffers from which
  \<open>alloc\<close> gives a buffer that is not live and \<open>free\<close> takes a live one back without fail. The
  allocator is such a pool for every size of order at least 1.
\<close>

locale buffer_pool =
  fixes inv :: "nat set \<Rightarrow> 's \<Rightarrow> bool"
    and alloc :: "'s \<Rightarrow> nat option \<times> 's"
    and free :: "nat \<Rightarrow> 's \<Rightarrow> 's option"
  assumes alloc_Some: "inv P s \<Longrightarrow> alloc s = (Some p, s') \<Longrightarrow> p \<notin> P \<and> inv (insert p P) s'"
    and alloc_None: "inv P s \<Longrightarrow> alloc s = (None, s') \<Longrightarrow> inv P s'"
    and free_live: "inv P s \<Longrightarrow> p \<in> P \<Longrightarrow> \<exists>s'. free p s = Some s' \<and> inv (P - {p}) s'"
begin

fun free_list :: "nat list \<Rightarrow> 's \<Rightarrow> 's option" where
  "free_list [] s = Some s"
| "free_list (p # ps) s = Option.bind (free p s) (free_list ps)"

lemma free_list_live:
  "inv P s \<Longrightarrow> distinct ps \<Longrightarrow> set ps \<subseteq> P \<Longrightarrow> \<exists>s'. free_list ps s = Some s' \<and> inv (P - set ps) s'"
proof (induction ps arbitrary: P s)
  case (Cons p ps)
  then obtain s1 where s1: "free p s = Some s1" "inv (P - {p}) s1" using free_live [of P s p] by auto
  have "set ps \<subseteq> P - {p}" "P - {p} - set ps = P - set (p # ps)" using Cons.prems by auto
  then show ?case using Cons.IH [OF s1(2)] Cons.prems s1(1) by auto
qed simp

text \<open>A queue of records: taking a new one keeps the addresses distinct and live.\<close>

lemma alloc_fresh:
  assumes "inv P s" "alloc s = (Some p, s')" "distinct ps" "set ps \<subseteq> P"
  shows "distinct (p # ps)" "set (p # ps) \<subseteq> insert p P" "inv (insert p P) s'"
  using assms alloc_Some [OF assms(1,2)] by auto

end

text \<open>A client that allocates records of size \<open>sz\<close>, of order \<open>m\<close>.\<close>

locale alloc_client =
  fixes c :: alloc_cfg and sz :: int and m :: nat
  assumes cfg: "cfg_wf c" and order_sz: "size_to_order c sz = int m" and order_pos: "0 < m"

definition live_addrs :: "alloc_cfg \<Rightarrow> nat \<Rightarrow> block set \<Rightarrow> nat set" where
  "live_addrs c m A = (\<lambda>b. fst b * BATHOS_BUF_SIZE c 0) ` {b \<in> A. snd b = m}"

definition pool_inv :: "alloc_cfg \<Rightarrow> nat \<Rightarrow> nat set \<Rightarrow> alloc_state \<Rightarrow> bool" where
  "pool_inv c m P s \<longleftrightarrow> (\<exists>A. alloc_state_inv c A s \<and> P = live_addrs c m A)"

lemma BUF_SIZE_pos: "cfg_wf c \<Longrightarrow> 0 < BATHOS_BUF_SIZE c 0"
  by (metis cfg_wfE)

lemma live_addrs_insert:
  assumes "cfg_wf c" "(i, m) \<notin> A"
  shows "live_addrs c m (insert (i, m) A) = insert (i * BATHOS_BUF_SIZE c 0) (live_addrs c m A)"
    and "i * BATHOS_BUF_SIZE c 0 \<notin> live_addrs c m A"
proof -
  have "{b \<in> insert (i, m) A. snd b = m} = insert (i, m) {b \<in> A. snd b = m}" by auto
  then show "live_addrs c m (insert (i, m) A) = insert (i * BATHOS_BUF_SIZE c 0) (live_addrs c m A)"
    by (simp add: live_addrs_def)
  show "i * BATHOS_BUF_SIZE c 0 \<notin> live_addrs c m A"
    using assms BUF_SIZE_pos [OF assms(1)] by (auto simp: live_addrs_def)
qed

lemma live_addrs_remove:
  assumes "cfg_wf c"
  shows "live_addrs c m (A - {(i, m)}) = live_addrs c m A - {i * BATHOS_BUF_SIZE c 0}"
  using BUF_SIZE_pos [OF assms] by (auto simp: live_addrs_def)

sublocale alloc_client \<subseteq> buffer_pool "pool_inv c m" "bathos_alloc_buffer c sz" "\<lambda>p. bathos_free_buffer c (int p) sz"
proof unfold_locales
  fix P s p s'
  assume "pool_inv c m P s"
  then obtain A where A: "alloc_state_inv c A s" "P = live_addrs c m A" by (auto simp: pool_inv_def)
  show "p \<notin> P \<and> pool_inv c m (insert p P) s'" if r: "bathos_alloc_buffer c sz s = (Some p, s')"
  proof -
    from alloc_buffer_Some [OF cfg A(1) r] obtain i where "p = i * BATHOS_BUF_SIZE c 0" "(i, m) \<notin> A"
      "alloc_state_inv c (insert (i, m) A) s'" using order_sz by (metis of_nat_eq_iff)
    then show ?thesis using live_addrs_insert [OF cfg, of i m A] A(2) by (auto simp: pool_inv_def)
  qed
  show "pool_inv c m P s'" if "bathos_alloc_buffer c sz s = (None, s')"
    using alloc_buffer_None(3) [OF cfg A(1) that] A(2) by (auto simp: pool_inv_def)
  show "\<exists>s'. bathos_free_buffer c (int p) sz s = Some s' \<and> pool_inv c m (P - {p}) s'" if p: "p \<in> P"
  proof -
    from p A(2) obtain i where i: "(i, m) \<in> A" "p = i * BATHOS_BUF_SIZE c 0" by (auto simp: live_addrs_def)
    from free_buffer_live [OF cfg A(1) i(1) order_pos order_sz] obtain s1
      where "bathos_free_buffer c (int p) sz s = Some s1" "alloc_state_inv c (A - {(i, m)}) s1"
      using i(2) by blast
    then show ?thesis using live_addrs_remove [OF cfg, of m A i] A(2) i(2) by (auto simp: pool_inv_def)
  qed
qed

context alloc_client
begin

lemma is_pool: "buffer_pool (pool_inv c m) (bathos_alloc_buffer c sz) (\<lambda>p. bathos_free_buffer c (int p) sz)"
  by (rule buffer_pool_axioms)

end

text \<open>The default configuration with records of 16 bytes.\<close>

interpretation pool16: alloc_client default_cfg 16 1
proof
  show "cfg_wf default_cfg" by (rule default_cfg_wf)
  show "size_to_order default_cfg 16 = int 1" by code_simp
qed simp

end
