(* ===== verification/TimerProps.thy ===== *)
theory TimerProps
  imports Timer BufferPool "HOL-Library.Multiset"
begin

text \<open>
  The delta list stands for a list of absolute deadlines. Theorems: enqueuing inserts the new
  deadline in order, after equal ones; each entry owns a buffer of the allocator, which the tick
  handler gives back; a tick handled late postpones all the later ones by the same amount.
\<close>

section \<open>Deadlines\<close>

text \<open>The absolute deadlines of a delta list whose first entry counts from \<open>r\<close>.\<close>

fun deadlines :: "u32 \<Rightarrow> 'd scheduled_tick list \<Rightarrow> (u32 \<times> 'd option) list" where
  "deadlines r [] = []"
| "deadlines r (p # ps) = (r + tick_when p, tick_data p) # deadlines (r + tick_when p) ps"

lemma length_deadlines [simp]: "length (deadlines r ps) = length ps"
  by (induction ps arbitrary: r) simp_all

text \<open>Insertion of a deadline before the first later one.\<close>

fun insert_deadline :: "u32 \<times> 'd option \<Rightarrow> (u32 \<times> 'd option) list \<Rightarrow> (u32 \<times> 'd option) list" where
  "insert_deadline x [] = [x]"
| "insert_deadline x (y # ys) = (if time_before (fst x) (fst y) then x # y # ys else y # insert_deadline x ys)"

lemma time_before_shift: "time_before (a - r) b \<longleftrightarrow> time_before a (r + b)"
  by (simp add: time_before_def time_after_def algebra_simps)

lemma deadlines_enqueue:
  "tick_when t = T - r \<Longrightarrow>
    deadlines r (enqueue_loop t ps) = insert_deadline (T, tick_data t) (deadlines r ps)"
proof (induction ps arbitrary: t r)
  case (Cons p ps)
  show ?case
  proof (cases "time_before (tick_when t) (tick_when p)")
    case True
    have "r + tick_when t + (tick_when p - tick_when t) = r + tick_when p" by simp
    with True show ?thesis using Cons.prems time_before_shift [of T r] by (simp add: add.commute)
  next
    case False
    let ?t = "t\<lparr>tick_when := tick_when t - tick_when p\<rparr>"
    have "tick_when ?t = T - (r + tick_when p)" using Cons.prems by (simp add: algebra_simps)
    from Cons.IH [OF this] show ?thesis using False Cons.prems time_before_shift [of T r] by simp
  qed
qed simp

text \<open>
  Times as distances from a reference: within half the counter's range of it, the wrapped signed
  comparison is the comparison of distances.
\<close>

definition since :: "u32 \<Rightarrow> u32 \<Rightarrow> nat" where
  "since base t = unat (t - base)"

lemma time_before_since:
  assumes "since base a < 2 ^ 31" "since base b < 2 ^ 31"
  shows "time_before a b \<longleftrightarrow> since base a < since base b"
  using sint_diff_neg [of "a - base" "b - base"] assms
  by (simp add: time_before_def time_after_def since_def)

definition within :: "u32 \<Rightarrow> (u32 \<times> 'd option) list \<Rightarrow> bool" where
  "within base ds \<longleftrightarrow> (\<forall>x \<in> set ds. since base (fst x) < 2 ^ 31)"

definition in_order :: "u32 \<Rightarrow> (u32 \<times> 'd option) list \<Rightarrow> bool" where
  "in_order base ds \<longleftrightarrow> sorted (map (since base \<circ> fst) ds)"

lemma insert_deadline_eq:
  assumes "within base (x # ds)"
  shows "insert_deadline x ds =
    takeWhile (\<lambda>y. since base (fst y) \<le> since base (fst x)) ds @ x #
    dropWhile (\<lambda>y. since base (fst y) \<le> since base (fst x)) ds"
  using assms
proof (induction ds)
  case (Cons y ds)
  then have "time_before (fst x) (fst y) \<longleftrightarrow> since base (fst x) < since base (fst y)"
    by (intro time_before_since) (simp_all add: within_def)
  with Cons show ?case by (auto simp: within_def)
qed simp

lemma insert_deadline_in_order:
  assumes "within base (x # ds)" "in_order base ds"
  shows "in_order base (insert_deadline x ds)"
  using assms
proof (induction ds)
  case (Cons y ds)
  have tb: "time_before (fst x) (fst y) \<longleftrightarrow> since base (fst x) < since base (fst y)"
    using Cons.prems by (intro time_before_since) (simp_all add: within_def)
  have "set (insert_deadline x ds) \<subseteq> insert x (set ds)"
    by (induction ds) auto
  with Cons tb show ?case
    by (auto simp: within_def in_order_def)
qed (simp add: in_order_def)

lemma mset_insert_deadline: "mset (insert_deadline x ds) = add_mset x (mset ds)"
  by (induction ds) auto


section \<open>The tick handler\<close>

text \<open>Which entries one run of the handler fires, and what it leaves.\<close>

function tick_split ::
  "(nat \<Rightarrow> u32) \<Rightarrow> nat \<Rightarrow> 'd scheduled_tick list \<Rightarrow> 'd scheduled_tick list \<times> 'd scheduled_tick list" where
  "tick_split jif n [] = ([], [])"
| "tick_split jif n (next # rest) =
     (if time_after (tick_when next) (jif n) then ([], next # rest)
      else let (fired, left) = tick_split jif (if rest = [] then n + 1 else n + 2) (rebase (jif (n + 1)) rest)
           in (next # fired, left))"
  by pat_completeness auto
termination
  by (relation "measure (\<lambda>(_, _, ts). length ts)") auto

lemma rebase_Nil [simp]: "rebase now ts = [] \<longleftrightarrow> ts = []"
  by (cases ts) simp_all

lemma map_rebase [simp]: "map tick_addr (rebase now ts) = map tick_addr ts" "map tick_data (rebase now ts) = map tick_data ts"
  by (cases ts; simp)+

lemma rebase_addr_notin: "t \<notin> set ts \<Longrightarrow> tick_addr t \<notin> tick_addr ` set ts \<Longrightarrow> t \<notin> set (rebase now ts)"
  by (cases ts) auto

definition tick_event :: "'e \<Rightarrow> 'd scheduled_tick \<Rightarrow> ('e, 'd) pending_event" where
  "tick_event tick t = \<lparr>pe_event = tick, pe_data = tick_data t\<rparr>"

lemma ev_push_world: "ev_push p (s\<lparr>ev_world := w\<rparr>) = (ev_push p s)\<lparr>ev_world := w\<rparr>"
  by (simp add: ev_push_def trigger_event_def trigger_event_reserve_def trigger_event_fill_def events_notify_def Let_def)

lemma fold_ev_push_world: "fold ev_push ps (s\<lparr>ev_world := w\<rparr>) = (fold ev_push ps s)\<lparr>ev_world := w\<rparr>"
  by (induction ps arbitrary: s) (simp_all add: ev_push_world)

text \<open>
  The handler always completes: it triggers one event per fired entry, frees their buffers, and
  leaves the rest of the list.
\<close>

lemma timer_tick_loop_spec:
  assumes "alloc_client c TICK_SIZE m"
  shows "pool_inv c m P (tm_alloc (ev_world s)) \<Longrightarrow> distinct (map tick_addr ts) \<Longrightarrow>
    tick_addr ` set ts \<subseteq> P \<Longrightarrow> scheduled_ticks (ev_world s) = ts \<Longrightarrow>
    \<exists>al. timer_tick_loop c tick jif n ts s =
        Some ((fold ev_push (map (tick_event tick) (fst (tick_split jif n ts))) s)
          \<lparr>ev_world := \<lparr>tm_alloc = al, scheduled_ticks = snd (tick_split jif n ts)\<rparr>\<rparr>)
      \<and> pool_inv c m (P - tick_addr ` set (fst (tick_split jif n ts))) al"
proof (induction "length ts" arbitrary: n ts s P)
  case 0
  then show ?case by (auto intro!: exI [of _ "tm_alloc (ev_world s)"])
next
  case (Suc d)
  then obtain t rest where ts: "ts = t # rest" by (cases ts) auto
  show ?case
  proof (cases "time_after (tick_when t) (jif n)")
    case True
    with Suc.prems ts show ?thesis by (auto intro!: exI [of _ "tm_alloc (ev_world s)"])
  next
    case False
    let ?rest = "rebase (jif (n + 1)) rest" and ?n = "if rest = [] then n + 1 else n + 2"
    have "tick_addr t \<in> P" using Suc.prems ts by simp
    from buffer_pool.free_live [OF alloc_client.is_pool [OF assms] Suc.prems(1) this] obtain al
      where al: "bathos_free_buffer c (int (tick_addr t)) TICK_SIZE (tm_alloc (ev_world s)) = Some al"
        "pool_inv c m (P - {tick_addr t}) al" by blast
    let ?tm = "\<lparr>tm_alloc = al, scheduled_ticks = ?rest\<rparr>"
    let ?s = "(snd (trigger_event tick (tick_data t) s))\<lparr>ev_world := ?tm\<rparr>"
    have "free_tick c t ((ev_world s)\<lparr>scheduled_ticks := t # ?rest\<rparr>) = Some ?tm"
      using al(1) by (cases "ev_world s") (simp add: free_tick_def)
    then have step: "timer_tick_loop c tick jif n ts s = timer_tick_loop c tick jif ?n ?rest ?s"
      using False ts by (simp add: Let_def)
    have split: "tick_split jif n ts = (t # fst (tick_split jif ?n ?rest), snd (tick_split jif ?n ?rest))"
      using False ts by (simp add: split_beta)
    have s: "?s = (ev_push (tick_event tick t) s)\<lparr>ev_world := ?tm\<rparr>" by (simp add: ev_push_def tick_event_def)
    have "pool_inv c m (P - {tick_addr t}) (tm_alloc (ev_world ?s))" using al(2) by simp
    moreover have "distinct (map tick_addr ?rest)" using Suc.prems(2) ts by simp
    moreover have "tick_addr ` set ?rest = tick_addr ` set rest"
      using map_rebase(1) [of "jif (n + 1)" rest] by (metis list.set_map)
    then have "tick_addr ` set ?rest \<subseteq> P - {tick_addr t}"
      using Suc.prems(2,3) ts by (simp add: subset_Diff_insert)
    ultimately obtain al' where
      "timer_tick_loop c tick jif ?n ?rest ?s =
        Some ((fold ev_push (map (tick_event tick) (fst (tick_split jif ?n ?rest))) ?s)
          \<lparr>ev_world := \<lparr>tm_alloc = al', scheduled_ticks = snd (tick_split jif ?n ?rest)\<rparr>\<rparr>)"
      "pool_inv c m (P - {tick_addr t} - tick_addr ` set (fst (tick_split jif ?n ?rest))) al'"
      using Suc.hyps(1) [of ?rest "P - {tick_addr t}" ?s ?n] Suc.hyps(2) ts by auto
    moreover have "P - {tick_addr t} - X = P - insert (tick_addr t) X" for X by auto
    ultimately show ?thesis
      unfolding step split s by (auto simp: fold_ev_push_world intro!: exI [of _ al'])
  qed
qed


text \<open>
  A clock that stands still while the handler runs: after the first due entry only entries with the
  same deadline fire, and the others are counted from \<open>now\<close> instead of from their deadline.
\<close>

lemma deadlines_shift: "deadlines (r + l) ts = map (\<lambda>x. (fst x + l, snd x)) (deadlines r ts)"
proof (induction ts arbitrary: r)
  case (Cons t ts)
  have "r + l + tick_when t = r + tick_when t + l" by (simp add: add.commute add.left_commute)
  then show ?case by (simp only: deadlines.simps Cons.IH list.map fst_conv snd_conv)
qed simp

lemma time_after_now:
  assumes "unat w < 2 ^ 31"
  shows "time_after (w + now) now \<longleftrightarrow> w \<noteq> 0"
  using sint_diff_neg [of 0 w] assms by (simp add: time_after_def unat_gt_0)

lemma tick_split_rebased:
  assumes "\<forall>t \<in> set ts. unat (tick_when t) < 2 ^ 31"
  shows "map tick_data (fst (tick_split (\<lambda>_. now) n (rebase now ts))) =
      map tick_data (takeWhile (\<lambda>t. tick_when t = 0) ts)
    \<and> deadlines 0 (snd (tick_split (\<lambda>_. now) n (rebase now ts))) =
      deadlines now (dropWhile (\<lambda>t. tick_when t = 0) ts)"
  using assms
proof (induction ts arbitrary: n)
  case (Cons t ts)
  show ?case
  proof (cases "tick_when t = 0")
    case True
    then have "\<not> time_after (tick_when t + now) now" using time_after_now [of "tick_when t" now] Cons.prems by simp
    with True Cons.IH [of "if ts = [] then n + 1 else n + 2"] Cons.prems show ?thesis
      by (auto simp: split_beta)
  next
    case False
    then have "time_after (tick_when t + now) now" using time_after_now [of "tick_when t" now] Cons.prems by simp
    with False show ?thesis by (simp add: add.commute)
  qed
qed simp

lemma deadlines_dropWhile_0:
  assumes "\<forall>t \<in> set ts. unat (tick_when t) < 2 ^ 31"
  shows "deadlines r (dropWhile (\<lambda>t. tick_when t = 0) ts) = dropWhile (\<lambda>x. fst x = r) (deadlines r ts)"
  by (induction ts) simp_all

section \<open>The scheduler\<close>

lemma mset_map_deadlines: "map snd (deadlines r ts) = map tick_data ts"
  by (induction ts arbitrary: r) simp_all

lemma enqueue_data: "image_mset tick_data (mset (enqueue_loop t ts)) = add_mset (tick_data t) (image_mset tick_data (mset ts))"
  by (induction t ts rule: enqueue_loop.induct) auto

lemma enqueue_tick_data:
  assumes "sys_timer_enqueue_tick c jiffies j d tm = (r, tm')" "\<not> r < 0"
  shows "mset (map tick_data (scheduled_ticks tm')) = add_mset d (mset (map tick_data (scheduled_ticks tm)))"
  using assms
  by (auto simp: enqueue_data sys_timer_enqueue_tick_def alloc_tick_def ENOMEM_def Let_def split_beta
      split: option.splits prod.splits if_splits)

lemma pts_schedule_data:
  assumes "pts_schedule c HZ now jif i tasks tm = (0, tasks', tm')"
  shows "mset (map tick_data (scheduled_ticks tm')) =
    mset (map tick_data (scheduled_ticks tm)) + mset (map Some [i..<length tasks]) \<and> length tasks' = length tasks"
  using assms
proof (induction c HZ now jif i tasks tm rule: pts_schedule.induct)
  case (1 c HZ now jif i tasks tm)
  show ?case
  proof (cases "i < length tasks")
    case True
    define p where "p = (tasks ! i)\<lparr>tk_release := tk_release (tasks ! i) + now + HZ\<rparr>"
    obtain r tm1 where e: "sys_timer_enqueue_tick c (jif i) (tk_release p - now) (Some i) tm = (r, tm1)" by fastforce
    have r: "\<not> r < 0" and rec: "pts_schedule c HZ now jif (i + 1) (tasks[i := p]) tm1 = (0, tasks', tm')"
      using "1.prems" True e by (subst (asm) pts_schedule.simps; simp add: Let_def p_def [symmetric] split: if_splits)+
    have "mset (map tick_data (scheduled_ticks tm')) =
        mset (map tick_data (scheduled_ticks tm1)) + mset (map Some [i + 1..<length (tasks[i := p])]) \<and>
      length tasks' = length (tasks[i := p])"
      by (rule "1.IH" [OF True p_def refl e [symmetric] refl r rec])
    then show ?thesis using enqueue_tick_data [OF e r] upt_conv_Cons [OF True] by simp
  next
    case False
    with "1.prems" show ?thesis by (subst (asm) pts_schedule.simps) simp
  qed
qed


lemma tick_split_append:
  "map tick_addr (fst (tick_split jif n ts)) @ map tick_addr (snd (tick_split jif n ts)) = map tick_addr ts"
  "map tick_data (fst (tick_split jif n ts)) @ map tick_data (snd (tick_split jif n ts)) = map tick_data ts"
  by (induction jif n ts rule: tick_split.induct) (simp_all add: split_beta)

lemma ev_queue_world [simp]: "ev_queue (s\<lparr>ev_world := w\<rparr>) = ev_queue s"
  by (simp add: ev_queue_def)

section \<open>Properties\<close>

definition ex_timer :: "nat timer" where
  "ex_timer = \<lparr>tm_alloc = alloc_boot default_cfg,
     scheduled_ticks = [\<lparr>tick_addr = 0, tick_when = 10, tick_data = Some 1\<rparr>,
       \<lparr>tick_addr = 16, tick_when = 5, tick_data = Some 2\<rparr>]\<rparr>"

text \<open>
  C9. \<^verbatim>\<open>sys_timer_enqueue_tick\<close> fails when the allocator has no buffer, and leaves the list as it is, or
  inserts the new deadline into the list of deadlines after all that are not later, leaving every
  other deadline where it was. The deadlines stay in order, as long as all lie within half the
  range of the counter after some reference time, also when the counter wraps.
\<close>

theorem enqueue_tick_sorted:
  assumes "in_order base (deadlines 0 (scheduled_ticks tm))"
    and "within base ((jiffies + j, d) # deadlines 0 (scheduled_ticks tm))"
  shows "case sys_timer_enqueue_tick c jiffies j d tm of (r, tm') \<Rightarrow>
      r = - ENOMEM \<and> scheduled_ticks tm' = scheduled_ticks tm \<and> fst (bathos_alloc_buffer c TICK_SIZE (tm_alloc tm)) = None
    \<or> r = 0 \<and> fst (bathos_alloc_buffer c TICK_SIZE (tm_alloc tm)) \<noteq> None \<and> deadlines 0 (scheduled_ticks tm') =
          takeWhile (\<lambda>y. since base (fst y) \<le> since base (jiffies + j)) (deadlines 0 (scheduled_ticks tm)) @
          (jiffies + j, d) #
          dropWhile (\<lambda>y. since base (fst y) \<le> since base (jiffies + j)) (deadlines 0 (scheduled_ticks tm))
        \<and> in_order base (deadlines 0 (scheduled_ticks tm'))"
proof -
  obtain out al where al: "bathos_alloc_buffer c TICK_SIZE (tm_alloc tm) = (out, al)" by fastforce
  show ?thesis
  proof (cases out)
    case None
    with al show ?thesis by (simp add: sys_timer_enqueue_tick_def alloc_tick_def)
  next
    case (Some a)
    let ?t = "\<lparr>tick_addr = a, tick_when = jiffies + j, tick_data = d\<rparr>"
    have "deadlines 0 (enqueue_loop ?t (scheduled_ticks tm)) = insert_deadline (jiffies + j, d) (deadlines 0 (scheduled_ticks tm))"
      using deadlines_enqueue [of ?t "jiffies + j" 0 "scheduled_ticks tm"] by simp
    moreover have "scheduled_ticks (snd (sys_timer_enqueue_tick c jiffies j d tm)) = enqueue_loop ?t (scheduled_ticks tm)"
      using al Some by (cases "scheduled_ticks tm") (simp_all add: sys_timer_enqueue_tick_def alloc_tick_def)
    moreover have "fst (sys_timer_enqueue_tick c jiffies j d tm) = 0"
      using al Some by (simp add: sys_timer_enqueue_tick_def alloc_tick_def Let_def)
    ultimately show ?thesis
      using al Some insert_deadline_eq [OF assms(2)] insert_deadline_in_order [OF assms(2,1)] by (simp add: split_beta)
  qed
qed

lemma ex_alloc_16: "fst (bathos_alloc_buffer default_cfg 16 (alloc_boot default_cfg)) = Some 0"
  by code_simp

theorem enqueue_tick_sorted_witness:
  "case sys_timer_enqueue_tick default_cfg 3 9 None ex_timer of (r, tm') \<Rightarrow>
      r = 0 \<and> deadlines 0 (scheduled_ticks tm') = [(10, Some 1), (12, None), (15, Some 2)]"
proof -
  have d: "deadlines 0 (scheduled_ticks ex_timer) = [(10, Some 1), (15, Some 2)]" by (simp add: ex_timer_def)
  have i: "in_order 0 (deadlines 0 (scheduled_ticks ex_timer))" unfolding d by code_simp
  have w: "within 0 ((3 + 9, None) # deadlines 0 (scheduled_ticks ex_timer))"
    unfolding d by (simp add: within_def since_def)
  have t: "takeWhile (\<lambda>y. since 0 (fst y) \<le> since 0 (3 + 9)) [(10 :: u32, Some (1 :: nat)), (15, Some 2)] = [(10, Some 1)]"
    "dropWhile (\<lambda>y. since 0 (fst y) \<le> since 0 (3 + 9)) [(10 :: u32, Some (1 :: nat)), (15, Some 2)] = [(15, Some 2)]"
    by code_simp+
  have a: "fst (bathos_alloc_buffer default_cfg TICK_SIZE (tm_alloc ex_timer)) \<noteq> None" using ex_alloc_16 by (simp add: ex_timer_def TICK_SIZE_def)
  obtain r tm' where r: "sys_timer_enqueue_tick default_cfg 3 9 None ex_timer = (r, tm')" by fastforce
  show ?thesis
    using enqueue_tick_sorted [OF i w, of default_cfg] a unfolding d t r by auto
qed

text \<open>
  C14. The timer interrupt handler always completes. When every queued entry owns a live buffer of
  its own, it triggers one timer event per entry it fires, in order, and gives exactly their buffers
  back to the allocator; the entries left keep theirs.
\<close>

theorem hw_timer_tick_frees:
  assumes "alloc_client c TICK_SIZE m" "ev_wf s"
    and "pool_inv c m P (tm_alloc (ev_world s))" "distinct (map tick_addr (scheduled_ticks (ev_world s)))"
    and "tick_addr ` set (scheduled_ticks (ev_world s)) \<subseteq> P"
  shows "\<exists>s' fired. on_hw_timer_tick c tick jif s = Some s'
    \<and> map tick_addr (fired @ scheduled_ticks (ev_world s')) = map tick_addr (scheduled_ticks (ev_world s))
    \<and> map tick_data (fired @ scheduled_ticks (ev_world s')) = map tick_data (scheduled_ticks (ev_world s))
    \<and> ev_queue s' = take (ev_cap s) (ev_queue s @ map (tick_event tick) fired)
    \<and> pool_inv c m (P - tick_addr ` set fired) (tm_alloc (ev_world s'))"
proof -
  let ?ts = "scheduled_ticks (ev_world s)"
  from timer_tick_loop_spec [OF assms(1,3,4,5) refl, of tick jif 0] obtain al where
    r: "on_hw_timer_tick c tick jif s = Some ((fold ev_push (map (tick_event tick) (fst (tick_split jif 0 ?ts))) s)
          \<lparr>ev_world := \<lparr>tm_alloc = al, scheduled_ticks = snd (tick_split jif 0 ?ts)\<rparr>\<rparr>)"
    and p: "pool_inv c m (P - tick_addr ` set (fst (tick_split jif 0 ?ts))) al"
    by (auto simp: on_hw_timer_tick_def)
  show ?thesis
    by (rule exI, rule exI [of _ "fst (tick_split jif 0 ?ts)"], intro conjI, rule r)
      (use tick_split_append [of jif 0 ?ts] p
        evq.push_burst [OF assms(2), of "map (tick_event tick) (fst (tick_split jif 0 ?ts))"] in simp_all)
qed

definition ex_tick_sys :: "(nat, nat, nat timer) evsys" where
  "ex_tick_sys = \<lparr>pe_head = 0, pe_tail = 0, pe_buffer_nevts = 4,
     pe_buffer = replicate 4 \<lparr>pe_event = 0, pe_data = None\<rparr>, ie_pending_flags = [],
     ev_world = \<lparr>tm_alloc = snd (bathos_alloc_buffer default_cfg 16 (alloc_boot default_cfg)),
       scheduled_ticks = [\<lparr>tick_addr = 0, tick_when = 10, tick_data = Some 1\<rparr>]\<rparr>\<rparr>"

theorem hw_timer_tick_frees_witness:
  "\<exists>s' fired. on_hw_timer_tick default_cfg 9 (\<lambda>_. 100) ex_tick_sys = Some s' \<and> map tick_addr (fired @ scheduled_ticks (ev_world s')) = [0]
     \<and> ev_queue s' = map (tick_event 9) fired"
proof -
  have wf: "ev_wf ex_tick_sys" unfolding ev_wf_def by (rule ring_wfI [of _ 2]) (simp_all add: ex_tick_sys_def)
  have q: "ev_queue ex_tick_sys = []" "ev_cap ex_tick_sys = 3"
    by (simp_all add: ev_queue_def ev_cap_def ring_list_def CIRC_CNT_def ex_tick_sys_def)
  have "alloc_state_inv default_cfg {} (alloc_boot default_cfg)"
    by (rule alloc_run_inv [OF run_boot default_cfg_wf])
  then have "pool_inv default_cfg 1 {} (alloc_boot default_cfg)"
    by (auto simp: pool_inv_def live_addrs_def intro!: exI [of _ "{}"])
  then have inv: "pool_inv default_cfg 1 {0} (tm_alloc (ev_world ex_tick_sys))"
    using pool16.alloc_Some [of "{}" "alloc_boot default_cfg" 0 "snd (bathos_alloc_buffer default_cfg 16 (alloc_boot default_cfg))"]
      ex_alloc_16 by (simp add: ex_tick_sys_def prod_eq_iff)
  have cl: "alloc_client default_cfg TICK_SIZE 1"
    using pool16.alloc_client_axioms by (simp add: TICK_SIZE_def)
  obtain s' fired where *: "on_hw_timer_tick default_cfg 9 (\<lambda>_. 100) ex_tick_sys = Some s'"
    "map tick_addr (fired @ scheduled_ticks (ev_world s')) = [0]" "ev_queue s' = take 3 (map (tick_event 9) fired)"
    using hw_timer_tick_frees [OF cl wf inv, of 9 "\<lambda>_. 100"] q by (auto simp: ex_tick_sys_def)
  from *(2) have "length fired \<le> 1" by (cases fired) auto
  with * show ?thesis by auto
qed

lemma tick_split_drift:
  assumes "\<not> time_after (tick_when t) now" "\<forall>x \<in> set ts. unat (tick_when x) < 2 ^ 31"
  shows "deadlines 0 (snd (tick_split (\<lambda>_. now) 0 (t # ts))) =
    map (\<lambda>x. (fst x + (now - tick_when t), snd x))
      (dropWhile (\<lambda>x. fst x = tick_when t) (deadlines 0 (t # ts)))"
proof -
  have "deadlines 0 (snd (tick_split (\<lambda>_. now) 0 (t # ts))) = deadlines now (dropWhile (\<lambda>t. tick_when t = 0) ts)"
    using tick_split_rebased [OF assms(2), of now "if ts = [] then 0 + 1 else 0 + 2"] assms(1)
    by (simp add: split_beta)
  also have "\<dots> = deadlines (tick_when t + (now - tick_when t)) (dropWhile (\<lambda>t. tick_when t = 0) ts)" by simp
  also have "\<dots> = map (\<lambda>x. (fst x + (now - tick_when t), snd x)) (deadlines (tick_when t) (dropWhile (\<lambda>t. tick_when t = 0) ts))"
    by (rule deadlines_shift)
  also have "deadlines (tick_when t) (dropWhile (\<lambda>t. tick_when t = 0) ts) = dropWhile (\<lambda>x. fst x = tick_when t) (deadlines (tick_when t) ts)"
    by (rule deadlines_dropWhile_0 [OF assms(2)])
  finally show ?thesis by simp
qed

lemma timer_tick_loop_left:
  assumes "timer_tick_loop c tick jif n ts s = Some s'" "scheduled_ticks (ev_world s) = ts"
  shows "scheduled_ticks (ev_world s') = snd (tick_split jif n ts)"
  using assms
proof (induction c tick jif n ts s rule: timer_tick_loop.induct)
  case (2 c tick jif n t ts s)
  show ?case
  proof (cases "time_after (tick_when t) (jif n)")
    case False
    with 2(2) obtain tm where tm:
      "free_tick c t ((ev_world (snd (trigger_event tick (tick_data t) s)))\<lparr>scheduled_ticks := t # rebase (jif (n + 1)) ts\<rparr>) = Some tm"
      and r: "timer_tick_loop c tick jif (if rebase (jif (n + 1)) ts = [] then n + 1 else n + 2) (rebase (jif (n + 1)) ts)
        ((snd (trigger_event tick (tick_data t) s))\<lparr>ev_world := tm\<rparr>) = Some s'"
      by (auto simp: Let_def split: bind_splits)
    have "scheduled_ticks tm = rebase (jif (n + 1)) ts"
      using tm by (auto simp: free_tick_def Let_def)
    moreover have "(rebase (jif (n + 1)) ts = []) = (ts = [])" by (cases ts) simp_all
    ultimately show ?thesis using 2(1) [OF False refl refl refl refl tm r] False by (simp add: split_beta)
  qed (use 2 in auto)
qed auto

text \<open>
  A tick handled late delays all later ones: when the handler runs at \<open>now\<close>, after the deadline
  of the first entry, the deadlines left in the list are the old ones plus the lateness, and an
  entry whose deadline also has passed is not fired unless it is due at the same instant as the
  first one.
\<close>

theorem hw_timer_tick_drift:
  assumes "on_hw_timer_tick c tick (\<lambda>_. now) s = Some s'" "scheduled_ticks (ev_world s) = t # ts"
    and "\<not> time_after (tick_when t) now" "\<forall>x \<in> set ts. unat (tick_when x) < 2 ^ 31"
  shows "deadlines 0 (scheduled_ticks (ev_world s')) =
    map (\<lambda>x. (fst x + (now - tick_when t), snd x))
      (dropWhile (\<lambda>x. fst x = tick_when t) (deadlines 0 (t # ts)))"
  using timer_tick_loop_left [OF assms(1) [unfolded on_hw_timer_tick_def] refl] tick_split_drift [OF assms(3,4)] assms(2)
  by simp

definition ex_late_sys :: "(nat, nat, nat timer) evsys" where
  "ex_late_sys = ex_tick_sys\<lparr>ev_world := (ev_world ex_tick_sys)\<lparr>scheduled_ticks :=
     [\<lparr>tick_addr = 0, tick_when = 10, tick_data = Some 1\<rparr>, \<lparr>tick_addr = 16, tick_when = 5, tick_data = Some 2\<rparr>]\<rparr>\<rparr>"

theorem hw_timer_tick_drift_witness:
  "map_option (\<lambda>s'. deadlines 0 (scheduled_ticks (ev_world s')))
     (on_hw_timer_tick default_cfg 9 (\<lambda>_. 100) ex_late_sys) = Some [(105, Some 2)]"
proof -
  have "on_hw_timer_tick default_cfg 9 (\<lambda>_. 100) ex_late_sys \<noteq> None" by code_simp
  then obtain s' where s': "on_hw_timer_tick default_cfg 9 (\<lambda>_. 100) ex_late_sys = Some s'" by blast
  have "\<not> time_after (10 :: u32) 100" by code_simp
  then show ?thesis
    using hw_timer_tick_drift [OF s', of "hd (scheduled_ticks (ev_world ex_late_sys))" "tl (scheduled_ticks (ev_world ex_late_sys))"] s'
    by (simp add: ex_late_sys_def)
qed

text \<open>
  After initialisation each task of the scheduler has exactly one entry of its own in the
  timer list, so each task's job will be released.
\<close>

theorem pts_init_all_scheduled:
  assumes "pts_init c HZ now jif tasks tm = (0, tasks', tm')"
  shows "mset (map tick_data (scheduled_ticks tm')) =
    mset (map tick_data (scheduled_ticks tm)) + mset (map Some [0..<length tasks])"
  using pts_schedule_data [OF assms [unfolded pts_init_def]] by simp

definition ex_task :: "nat bathos_task" where
  "ex_task = \<lparr>tk_job = Suc, tk_init = None, tk_arg = 0, tk_period = 7, tk_release = 0\<rparr>"

theorem pts_init_all_scheduled_witness:
  "mset (map tick_data (scheduled_ticks (snd (snd (pts_init default_cfg 100 5 (\<lambda>_. 5) [ex_task]
     \<lparr>tm_alloc = alloc_boot default_cfg, scheduled_ticks = []\<rparr>))))) = {#Some 0#}"
proof -
  let ?tm = "\<lparr>tm_alloc = alloc_boot default_cfg, scheduled_ticks = []\<rparr>"
  obtain al where "bathos_alloc_buffer default_cfg 16 (alloc_boot default_cfg) = (Some 0, al)"
    using ex_alloc_16 by (metis prod.collapse)
  then have "\<exists>ts tm'. pts_init default_cfg 100 5 (\<lambda>_. 5) [ex_task] ?tm = (0, ts, tm')"
    by (simp add: pts_init_def pts_schedule.simps sys_timer_enqueue_tick_def alloc_tick_def TICK_SIZE_def Let_def)
  then obtain ts tm' where e: "pts_init default_cfg 100 5 (\<lambda>_. 5) [ex_task] ?tm = (0, ts, tm')" by blast
  show ?thesis using pts_init_all_scheduled [OF e] by (simp add: e)
qed

text \<open>
  A task's next release is always in the future: it is the previous one plus the period, unless
  that has passed already, and then it is the next jiffy.
\<close>

theorem next_release_future:
  "time_after (tk_release (next_release now p)) now
   \<and> tk_release (next_release now p) \<in> {tk_release p + tk_period p, now + 1}"
proof -
  have "time_after (now + 1) now" by (simp add: time_after_def)
  moreover have "\<not> time_before_eq r now \<Longrightarrow> time_after r now" for r
    by (simp add: time_before_eq_def time_after_eq_def time_after_def)
  ultimately show ?thesis by (auto simp: next_release_def Let_def)
qed

end
