(* ===== verification/Strings.thy ===== *)
theory Strings
  imports Prelude
begin

text \<open>
  The C library routines of \<^verbatim>\<open>lib/string.c\<close>, \<^verbatim>\<open>lib/ctype.c\<close> and \<^verbatim>\<open>lib/stdlib.c\<close>. A string argument is
  the list of bytes from the pointer to the end of the object it points into; reading past the
  end is \<open>None\<close>. \<^verbatim>\<open>memcpy\<close> and \<^verbatim>\<open>memset\<close> work on a memory, a function from addresses to bytes,
  because they depend on the alignment of their arguments.

  Theorems: \<^verbatim>\<open>strcmp\<close> decides equality of the strings and orders them; the word-wise \<^verbatim>\<open>memcpy\<close> and
  \<^verbatim>\<open>memset\<close> equal their byte-wise specifications; \<^verbatim>\<open>atol\<close> returns the value of the leading number.
\<close>

section \<open>Model\<close>

type_synonym memory = "nat \<Rightarrow> u8"

fun strcpy :: "u8 list \<Rightarrow> u8 list \<Rightarrow> u8 list option" where
  "strcpy (d # ds) (s # ss) = (if s = 0 then Some (s # ds) else map_option (Cons s) (strcpy ds ss))"
| "strcpy _ _ = None"

fun strlen :: "u8 list \<Rightarrow> nat option" where
  "strlen [] = None"
| "strlen (c # cs) = (if c = 0 then Some 0 else map_option Suc (strlen cs))"

fun strnlen :: "u8 list \<Rightarrow> nat \<Rightarrow> nat option" where
  "strnlen s 0 = Some 0"
| "strnlen [] (Suc n) = None"
| "strnlen (c # cs) (Suc n) = (if c = 0 then Some 0 else map_option Suc (strnlen cs n))"

fun strcmp :: "u8 list \<Rightarrow> u8 list \<Rightarrow> int option" where
  "strcmp (c1 # cs) (c2 # ct) =
     (if c1 \<noteq> c2 then Some (if c1 < c2 then - 1 else 1)
      else if c1 = 0 then Some 0 else strcmp cs ct)"
| "strcmp _ _ = None"

fun strncmp :: "u8 list \<Rightarrow> u8 list \<Rightarrow> nat \<Rightarrow> int option" where
  "strncmp cs ct 0 = Some 0"
| "strncmp (c1 # cs) (c2 # ct) (Suc n) =
     (if c1 \<noteq> c2 then Some (if c1 < c2 then - 1 else 1)
      else if c1 = 0 then Some 0 else strncmp cs ct n)"
| "strncmp _ _ (Suc n) = None"

text \<open>A word is \<open>W\<close> bytes, \<^verbatim>\<open>sizeof(intptr_t)\<close>. A word store writes \<open>W\<close> bytes read beforehand.\<close>

definition store_bytes :: "nat \<Rightarrow> u8 list \<Rightarrow> memory \<Rightarrow> memory" where
  "store_bytes a bs m = (\<lambda>x. if a \<le> x \<and> x < a + length bs then bs ! (x - a) else m x)"

definition load_bytes :: "nat \<Rightarrow> nat \<Rightarrow> memory \<Rightarrow> u8 list" where
  "load_bytes a n m = map (\<lambda>i. m (a + i)) [0..<n]"

fun memcpy_bytes :: "nat \<Rightarrow> nat \<Rightarrow> nat \<Rightarrow> memory \<Rightarrow> memory" where
  "memcpy_bytes d s 0 m = m"
| "memcpy_bytes d s (Suc n) m = memcpy_bytes (d + 1) (s + 1) n (m(d := m s))"

function memcpy_words :: "nat \<Rightarrow> nat \<Rightarrow> nat \<Rightarrow> nat \<Rightarrow> memory \<Rightarrow> nat \<times> nat \<times> nat \<times> memory" where
  "memcpy_words W d s count m =
     (if 0 < W \<and> W \<le> count
      then memcpy_words W (d + W) (s + W) (count - W) (store_bytes d (load_bytes s W m) m)
      else (d, s, count, m))"
  by pat_completeness auto
termination
  by (relation "measure (\<lambda>(W, d, s, count, m). count)") auto

declare memcpy_words.simps [simp del]

definition memcpy :: "nat \<Rightarrow> nat \<Rightarrow> nat \<Rightarrow> nat \<Rightarrow> memory \<Rightarrow> memory" where
  "memcpy W d s count m =
     (let (d, s, count, m) =
        (if (d OR s) AND (W - 1) = 0 then memcpy_words W d s count m else (d, s, count, m))
      in memcpy_bytes d s count m)"

fun memset_bytes :: "nat \<Rightarrow> u8 \<Rightarrow> nat \<Rightarrow> memory \<Rightarrow> memory" where
  "memset_bytes a c 0 m = m"
| "memset_bytes a c (Suc n) m = memset_bytes (a + 1) c n (m(a := c))"

function memset_words :: "nat \<Rightarrow> nat \<Rightarrow> u8 \<Rightarrow> nat \<Rightarrow> memory \<Rightarrow> nat \<times> nat \<times> memory" where
  "memset_words W a c count m =
     (if 0 < W \<and> W \<le> count
      then memset_words W (a + W) c (count - W) (store_bytes a (replicate W c) m)
      else (a, count, m))"
  by pat_completeness auto
termination
  by (relation "measure (\<lambda>(W, a, c, count, m). count)") auto

declare memset_words.simps [simp del]

text \<open>
  \<^verbatim>\<open>memset\<close>: \<open>cl\<close>, the byte repeated over a word, is the list of its bytes; \<open>c\<close> is an \<^verbatim>\<open>int\<close> of which
  only the low eight bits are used.
\<close>

definition memset :: "nat \<Rightarrow> nat \<Rightarrow> int \<Rightarrow> nat \<Rightarrow> memory \<Rightarrow> memory" where
  "memset W a c count m =
     (let (a, count, m) =
        (if a AND (W - 1) = 0 then memset_words W a (word_of_int c) count m else (a, count, m))
      in memset_bytes a (word_of_int c) count m)"

text \<open>Character classes, on the value of a character.\<close>

definition isdigit :: "int \<Rightarrow> bool" where
  "isdigit c \<longleftrightarrow> 48 \<le> c \<and> c \<le> 57"

definition islower :: "int \<Rightarrow> bool" where
  "islower c \<longleftrightarrow> 97 \<le> c \<and> c \<le> 122"

definition isupper :: "int \<Rightarrow> bool" where
  "isupper c \<longleftrightarrow> 65 \<le> c \<and> c \<le> 90"

definition isxdigit :: "int \<Rightarrow> bool" where
  "isxdigit c \<longleftrightarrow> isdigit c \<or> (97 \<le> c \<and> c \<le> 102) \<or> (65 \<le> c \<and> c \<le> 70)"

definition isalpha :: "int \<Rightarrow> bool" where
  "isalpha c \<longleftrightarrow> islower c \<or> isupper c"

definition isalnum :: "int \<Rightarrow> bool" where
  "isalnum c \<longleftrightarrow> isalpha c \<or> isdigit c"

definition toupper :: "int \<Rightarrow> int" where
  "toupper c = (if \<not> islower c then c else c - 97 + 65)"

text \<open>\<^verbatim>\<open>atol\<close>: the digit loop with its 32-bit accumulator, and the sign.\<close>

fun atol_loop :: "u32 \<Rightarrow> u8 list \<Rightarrow> u32 option" where
  "atol_loop r [] = None"
| "atol_loop r (c # cs) =
     (if 48 \<le> c \<and> c \<le> 57 then atol_loop (r * 10 + ucast c - 48) cs else Some r)"

definition atol :: "u8 list \<Rightarrow> u32 option" where
  "atol s =
     (case s of
        [] \<Rightarrow> None
      | c # cs \<Rightarrow>
          let neg = (c = 45);
              r = atol_loop 0 (if c = 45 \<or> c = 43 then cs else s)
          in map_option (\<lambda>r. if neg then - r else r) r)"

section \<open>Strings\<close>

text \<open>A terminated string: its characters, none of them zero, then a zero.\<close>

definition cstr :: "u8 list \<Rightarrow> u8 list \<Rightarrow> u8 list" where
  "cstr s rest = s @ 0 # rest"

lemma strlen_cstr: "0 \<notin> set s \<Longrightarrow> strlen (cstr s rest) = Some (length s)"
  by (induction s) (auto simp: cstr_def)

lemma strnlen_cstr: "0 \<notin> set s \<Longrightarrow> strnlen (cstr s rest) n = Some (min n (length s))"
  by (induction s arbitrary: n) (auto simp: cstr_def split: nat.split elim: strnlen.elims, (case_tac n; auto)+)

lemma strcpy_cstr:
  "0 \<notin> set s \<Longrightarrow> length s < length d \<Longrightarrow> strcpy d (cstr s rest) = Some (cstr s (drop (Suc (length s)) d))"
proof (induction s arbitrary: d)
  case Nil
  then show ?case by (cases d) (simp_all add: cstr_def)
next
  case (Cons c s)
  then show ?case by (cases d) (auto simp: cstr_def)
qed

lemma strcmp_cstr:
  assumes "0 \<notin> set s" "0 \<notin> set t"
  shows "strcmp (cstr s r1) (cstr t r2) \<noteq> None"
    and "strcmp (cstr s r1) (cstr t r2) = Some 0 \<longleftrightarrow> s = t"
    and "strcmp (cstr s r1) (cstr t r2) = Some (- 1) \<longleftrightarrow> strcmp (cstr t r2) (cstr s r1) = Some 1"
proof -
  have *: "strcmp (cstr s r1) (cstr t r2) \<noteq> None \<and> (strcmp (cstr s r1) (cstr t r2) = Some 0 \<longleftrightarrow> s = t) \<and>
    (strcmp (cstr s r1) (cstr t r2) = Some (- 1) \<longleftrightarrow> strcmp (cstr t r2) (cstr s r1) = Some 1)"
    using assms
  proof (induction s arbitrary: t)
    case Nil
    then show ?case by (cases t) (auto simp: cstr_def word_gt_0)
  next
    case (Cons c s)
    then show ?case by (cases t) (auto simp: cstr_def word_gt_0)
  qed
  from * show "strcmp (cstr s r1) (cstr t r2) \<noteq> None" by blast
  from * show "strcmp (cstr s r1) (cstr t r2) = Some 0 \<longleftrightarrow> s = t" by blast
  from * show "strcmp (cstr s r1) (cstr t r2) = Some (- 1) \<longleftrightarrow> strcmp (cstr t r2) (cstr s r1) = Some 1" by blast
qed


section \<open>Memory\<close>

text \<open>The specification: \<open>n\<close> bytes from \<open>s\<close> appear at \<open>d\<close>, nothing else changes.\<close>

definition copy_mem :: "nat \<Rightarrow> nat \<Rightarrow> nat \<Rightarrow> memory \<Rightarrow> memory" where
  "copy_mem d s n m = (\<lambda>x. if d \<le> x \<and> x < d + n then m (s + (x - d)) else m x)"

definition fill_mem :: "nat \<Rightarrow> u8 \<Rightarrow> nat \<Rightarrow> memory \<Rightarrow> memory" where
  "fill_mem a c n m = (\<lambda>x. if a \<le> x \<and> x < a + n then c else m x)"

text \<open>Copying forward is right when the regions do not overlap or the destination is lower.\<close>

definition forward_ok :: "nat \<Rightarrow> nat \<Rightarrow> nat \<Rightarrow> bool" where
  "forward_ok d s n \<longleftrightarrow> s + n \<le> d \<or> d \<le> s"

lemma copy_mem_0 [simp]: "copy_mem d s 0 m = m"
  by (rule ext) (auto simp: copy_mem_def)

lemma copy_mem_append:
  "forward_ok d s (k + n) \<Longrightarrow> copy_mem (d + k) (s + k) n (copy_mem d s k m) = copy_mem d s (k + n) m"
  by (rule ext) (auto simp: copy_mem_def forward_ok_def)

lemma store_load: "store_bytes d (load_bytes s n m) m = copy_mem d s n m"
  by (rule ext) (auto simp: store_bytes_def load_bytes_def copy_mem_def)

lemma memcpy_bytes_eq: "forward_ok d s n \<Longrightarrow> memcpy_bytes d s n m = copy_mem d s n m"
proof (induction n arbitrary: d s m)
  case (Suc n)
  have "m(d := m s) = copy_mem d s 1 m" by (rule ext) (auto simp: copy_mem_def)
  moreover have "forward_ok (d + 1) (s + 1) n" using Suc.prems by (auto simp: forward_ok_def)
  ultimately show ?case using Suc.IH copy_mem_append [of d s 1 n m] Suc.prems by simp
qed simp

lemma memcpy_words_eq:
  assumes "0 < W"
  shows "forward_ok d s count \<Longrightarrow> \<exists>k r. count = k + r \<and> memcpy_words W d s count m = (d + k, s + k, r, copy_mem d s k m)"
proof (induction W d s count m rule: memcpy_words.induct)
  case (1 W d s count m)
  show ?case
  proof (cases "0 < W \<and> W \<le> count")
    case True
    have "forward_ok (d + W) (s + W) (count - W)" using "1.prems" True by (auto simp: forward_ok_def)
    with "1.IH" [OF True] obtain k r where k: "count - W = k + r"
      "memcpy_words W (d + W) (s + W) (count - W) (store_bytes d (load_bytes s W m) m) =
        (d + W + k, s + W + k, r, copy_mem (d + W) (s + W) k (copy_mem d s W m))"
      unfolding store_load by blast
    moreover have "forward_ok d s (W + k)" using "1.prems" k(1) True by (auto simp: forward_ok_def)
    ultimately show ?thesis
      using True copy_mem_append [of d s W k m]
      by - (rule exI [of _ "W + k"], rule exI [of _ r], subst memcpy_words.simps, auto simp: add.assoc)
  next
    case False
    then show ?thesis by - (rule exI [of _ 0], rule exI [of _ count], subst memcpy_words.simps, auto)
  qed
qed

lemma memcpy_eq:
  assumes "0 < W" "forward_ok d s count"
  shows "memcpy W d s count m = copy_mem d s count m"
proof (cases "(d OR s) AND (W - 1) = 0")
  case True
  from memcpy_words_eq [OF assms, of m] obtain k r where k: "count = k + r"
    "memcpy_words W d s count m = (d + k, s + k, r, copy_mem d s k m)" by blast
  have "forward_ok (d + k) (s + k) r" using assms(2) k(1) by (auto simp: forward_ok_def)
  then have "memcpy_bytes (d + k) (s + k) r (copy_mem d s k m) = copy_mem d s count m"
    using memcpy_bytes_eq copy_mem_append [of d s k r m] assms(2) k(1) by simp
  then show ?thesis using True k(2) by (simp add: memcpy_def)
next
  case False
  then show ?thesis using memcpy_bytes_eq [OF assms(2)] by (simp add: memcpy_def)
qed

lemma fill_mem_append: "fill_mem (a + k) c n (fill_mem a c k m) = fill_mem a c (k + n) m"
  by (rule ext) (auto simp: fill_mem_def)

lemma memset_bytes_eq: "memset_bytes a c n m = fill_mem a c n m"
proof (induction n arbitrary: a m)
  case 0
  show ?case by (rule ext) (auto simp: fill_mem_def)
next
  case (Suc n)
  have "m(a := c) = fill_mem a c 1 m" by (rule ext) (auto simp: fill_mem_def)
  then show ?case using Suc.IH fill_mem_append [of a 1 c n m] by simp
qed

lemma memset_words_eq:
  "\<exists>k r. count = k + r \<and> memset_words W a c count m = (a + k, r, fill_mem a c k m)"
proof (induction W a c count m rule: memset_words.induct)
  case (1 W a c count m)
  show ?case
  proof (cases "0 < W \<and> W \<le> count")
    case True
    have st: "store_bytes a (replicate W c) m = fill_mem a c W m"
      by (rule ext) (auto simp: store_bytes_def fill_mem_def)
    from "1.IH" [OF True] obtain k r where "count - W = k + r"
      "memset_words W (a + W) c (count - W) (fill_mem a c W m) = (a + W + k, r, fill_mem (a + W) c k (fill_mem a c W m))"
      unfolding st by blast
    then show ?thesis
      using True fill_mem_append [of a W c k m] st
      by - (rule exI [of _ "W + k"], rule exI [of _ r], subst memset_words.simps, auto simp: add.assoc)
  next
    case False
    have "fill_mem a c 0 m = m" by (rule ext) (auto simp: fill_mem_def)
    with False show ?thesis by - (rule exI [of _ 0], rule exI [of _ count], subst memset_words.simps, auto)
  qed
qed

lemma memset_eq: "memset W a c count m = fill_mem a (word_of_int c) count m"
proof -
  from memset_words_eq [of count W a "word_of_int c" m] obtain k r where "count = k + r"
    "memset_words W a (word_of_int c) count m = (a + k, r, fill_mem a (word_of_int c) k m)" by blast
  then show ?thesis
    using fill_mem_append [of a k "word_of_int c" r m] by (simp add: memset_def memset_bytes_eq)
qed

section \<open>Numbers\<close>

text \<open>The value of a string of decimal digits.\<close>

definition dec_value :: "u8 list \<Rightarrow> nat" where
  "dec_value ds = foldl (\<lambda>r d. r * 10 + (unat d - 48)) 0 ds"

definition digits :: "u8 list \<Rightarrow> bool" where
  "digits ds \<longleftrightarrow> (\<forall>d \<in> set ds. 48 \<le> d \<and> d \<le> 57)"

lemma digit_value:
  assumes "48 \<le> (d :: u8)"
  shows "ucast d - 48 = (of_nat (unat d - 48) :: u32)"
proof -
  have "48 \<le> unat d" using assms by (simp add: word_le_nat_alt)
  then show ?thesis by (simp add: of_nat_diff)
qed

lemma atol_loop_digits:
  assumes "digits ds" "\<not> (48 \<le> c \<and> c \<le> 57)"
  shows "atol_loop (of_nat r) (ds @ c # rest) = Some (of_nat (foldl (\<lambda>r d. r * 10 + (unat d - 48)) r ds))"
  using assms
proof (induction ds arbitrary: r)
  case (Cons d ds)
  have d: "48 \<le> d" "d \<le> 57" using Cons.prems by (simp_all add: digits_def)
  have e: "of_nat r * 10 + ucast d - 48 = (of_nat (r * 10 + (unat d - 48)) :: u32)"
    using digit_value [OF d(1)] by (simp add: add_diff_eq [symmetric])
  have "atol_loop (of_nat r) ((d # ds) @ c # rest) = atol_loop (of_nat (r * 10 + (unat d - 48))) (ds @ c # rest)"
    using d unfolding append_Cons atol_loop.simps e by simp
  moreover have "digits ds" using Cons.prems(1) by (simp add: digits_def)
  ultimately show ?case using Cons.IH [of "r * 10 + (unat d - 48)"] Cons.prems(2) by simp
qed auto

lemma atol_digits:
  assumes "digits ds" "ds \<noteq> []" "\<not> (48 \<le> c \<and> c \<le> 57)"
  shows "atol (ds @ c # rest) = Some (of_nat (dec_value ds))"
    and "atol (45 # ds @ c # rest) = Some (- of_nat (dec_value ds))"
    and "atol (43 # ds @ c # rest) = Some (of_nat (dec_value ds))"
proof -
  note loop = atol_loop_digits [OF assms(1,3), of 0 rest, folded dec_value_def]
  obtain d ds' where ds: "ds = d # ds'" using assms(2) by (cases ds) auto
  have "48 \<le> d" using assms(1) ds by (simp add: digits_def)
  then have "d \<noteq> 45" "d \<noteq> 43" by (auto simp: word_le_nat_alt)
  then show "atol (ds @ c # rest) = Some (of_nat (dec_value ds))" using loop ds by (simp add: atol_def)
  show "atol (45 # ds @ c # rest) = Some (- of_nat (dec_value ds))"
    "atol (43 # ds @ c # rest) = Some (of_nat (dec_value ds))" using loop by (simp_all add: atol_def)
qed


section \<open>Properties\<close>

text \<open>
  C16. \<^verbatim>\<open>memcpy\<close>, which copies a word at a time when both pointers are aligned and the rest byte by
  byte, copies exactly \<open>count\<close> bytes and changes nothing else, for every word size and every
  alignment, when the regions do not overlap or the destination is the lower one.
\<close>

theorem memcpy_correct:
  assumes "0 < W" "s + count \<le> d \<or> d \<le> s"
  shows "memcpy W d s count m = (\<lambda>x. if d \<le> x \<and> x < d + count then m (s + (x - d)) else m x)"
  using memcpy_eq [of W d s count m] assms by (simp add: forward_ok_def copy_mem_def)

theorem memcpy_correct_witness:
  "memcpy 4 8 0 6 (\<lambda>x. of_nat x) 13 = 5"
  using memcpy_correct [of 4 0 6 8 "\<lambda>x. of_nat x"] by simp

text \<open>
  \<^verbatim>\<open>strcmp\<close> ends on every pair of terminated strings; it returns 0 exactly for equal strings, and
  swapping the arguments swaps the signs.
\<close>

theorem strcmp_correct:
  assumes "0 \<notin> set s" "0 \<notin> set t"
  shows "strcmp (cstr s r1) (cstr t r2) \<noteq> None
    \<and> (strcmp (cstr s r1) (cstr t r2) = Some 0 \<longleftrightarrow> s = t)
    \<and> (strcmp (cstr s r1) (cstr t r2) = Some (- 1) \<longleftrightarrow> strcmp (cstr t r2) (cstr s r1) = Some 1)"
  using strcmp_cstr [OF assms] by blast

theorem strcmp_correct_witness: "strcmp (cstr [104, 105] [7]) (cstr [104, 105] []) = Some 0"
  using strcmp_correct [of "[104, 105]" "[104, 105]" "[7]" "[]"] by simp

text \<open>
  \<^verbatim>\<open>atol\<close> returns the value of the decimal number at the start of its argument, with an optional
  sign, whatever follows the number; the value is exact below \<open>2 ^ 31\<close>.
\<close>

theorem atol_correct:
  assumes "digits ds" "ds \<noteq> []" "\<not> (48 \<le> c \<and> c \<le> 57)" "dec_value ds < 2 ^ 31"
  shows "(\<exists>r. atol (ds @ c # rest) = Some r \<and> uint r = int (dec_value ds))
    \<and> atol (45 # ds @ c # rest) = map_option uminus (atol (ds @ c # rest))
    \<and> atol (43 # ds @ c # rest) = atol (ds @ c # rest)"
proof -
  have "uint (of_nat (dec_value ds) :: u32) = int (dec_value ds)"
    using assms(4) by (simp add: uint_word_of_int_eq unsigned_of_nat take_bit_nat_eq_self)
  then show ?thesis using atol_digits [OF assms(1-3)] by simp
qed

theorem atol_correct_witness: "\<exists>r. atol ([52, 50] @ 0 # []) = Some r \<and> uint r = 42"
proof -
  have "digits [52, 50]" "dec_value [52, 50] = 42" by (simp_all add: digits_def dec_value_def)
  then show ?thesis using atol_correct [of "[52, 50]" 0 "[]"] by simp
qed

end
