(* ===== verification/Pipe.thy ===== *)
theory Pipe
  imports EventProps BufferPool Strings
begin

text \<open>
  Pipes, \<^verbatim>\<open>lib/pipe.c\<close>. A pipe is a buffer of the allocator, named by its offset; \<open>pw_pipes\<close> holds the
  contents of the pipe structures. A device keeps the list of its pipes, \<open>None\<close> while the list
  head is not initialised. The operations of the devices are a table \<open>ops\<close> of functions on the
  whole state. The world of the event system is the pipe world, and the data of a pipe event is
  the pipe. Dereferencing a null device pointer is \<open>None\<close>.
\<close>

section \<open>Model\<close>

definition BATHOS_MODE_INPUT :: nat where
  "BATHOS_MODE_INPUT = 1"

definition BATHOS_MODE_OUTPUT :: nat where
  "BATHOS_MODE_OUTPUT = 2"

definition BATHOS_MODE_ASYNC :: nat where
  "BATHOS_MODE_ASYNC = 4"

record 'e bathos_pipe =
  p_n :: "u8 list"
  p_mode :: nat
  p_data :: nat
  input_ready_event :: 'e
  output_ready_event :: 'e
  p_dev :: "nat option"
  p_dev_data :: "nat option"

record bathos_dev =
  dev_name :: "u8 list"
  dev_ll_ops :: "nat option"
  dev_pipes :: "nat list option"

text \<open>The receive buffer of a generic device (\<^verbatim>\<open>drivers/dev.c\<close>); \<open>cb_buf\<close> is \<open>None\<close> for a null pointer.\<close>

record bathos_dev_data =
  cb_head :: int
  cb_tail :: int
  cb_size :: int
  cb_buf :: "u8 list option"
  rx_hwm :: int
  dd_dev :: nat

record ('e, 'w) pipe_world =
  pw_pipes :: "nat \<Rightarrow> 'e bathos_pipe option"
  pw_devs :: "bathos_dev list"
  pw_data :: "nat \<Rightarrow> bathos_dev_data option"
  pw_alloc :: alloc_state
  bathos_errno :: int
  pw_ll :: 'w

type_synonym ('e, 'w) psys = "('e, nat, ('e, 'w) pipe_world) evsys"

record 's bathos_dev_ops =
  op_open :: "(nat \<Rightarrow> 's \<Rightarrow> int \<times> 's) option"
  op_read :: "(nat \<Rightarrow> nat \<Rightarrow> 's \<Rightarrow> int \<times> u8 list \<times> 's) option"
  op_write :: "(nat \<Rightarrow> u8 list \<Rightarrow> 's \<Rightarrow> int \<times> 's) option"
  op_close :: "(nat \<Rightarrow> 's \<Rightarrow> int \<times> 's) option"
  op_ioctl :: "(nat \<Rightarrow> int \<Rightarrow> int option \<Rightarrow> 's \<Rightarrow> int \<times> 's) option"

text \<open>The events \<^verbatim>\<open>pipe.c\<close> declares.\<close>

record 'e pipe_events =
  evt_input_pipe_opened :: 'e
  evt_output_pipe_opened :: 'e
  evt_input_pipe_closed :: 'e
  evt_output_pipe_closed :: 'e
  evt_pipe_input_ready :: 'e
  evt_pipe_output_ready :: 'e
  evt_pipe_really_closed :: 'e

definition pw_update :: "(('e, 'w) pipe_world \<Rightarrow> ('e, 'w) pipe_world) \<Rightarrow> ('e, 'w) psys \<Rightarrow> ('e, 'w) psys" where
  "pw_update f s = s\<lparr>ev_world := f (ev_world s)\<rparr>"

definition set_errno :: "int \<Rightarrow> ('e, 'w) psys \<Rightarrow> ('e, 'w) psys" where
  "set_errno e = pw_update (\<lambda>w. w\<lparr>bathos_errno := e\<rparr>)"

definition set_pipe :: "nat \<Rightarrow> 'e bathos_pipe \<Rightarrow> ('e, 'w) psys \<Rightarrow> ('e, 'w) psys" where
  "set_pipe a p = pw_update (\<lambda>w. w\<lparr>pw_pipes := (pw_pipes w)(a \<mapsto> p)\<rparr>)"

definition set_dev_pipes :: "nat \<Rightarrow> nat list option \<Rightarrow> ('e, 'w) psys \<Rightarrow> ('e, 'w) psys" where
  "set_dev_pipes i ps = pw_update (\<lambda>w. w\<lparr>pw_devs := (pw_devs w)[i := (pw_devs w ! i)\<lparr>dev_pipes := ps\<rparr>]\<rparr>)"

definition get_pipe :: "nat \<Rightarrow> ('e, 'w) psys \<Rightarrow> 'e bathos_pipe" where
  "get_pipe a s = the (pw_pipes (ev_world s) a)"

definition get_dev :: "nat \<Rightarrow> ('e, 'w) psys \<Rightarrow> bathos_dev" where
  "get_dev i s = pw_devs (ev_world s) ! i"

definition do_free_pipe_struct :: "nat \<Rightarrow> ('e, 'w) psys \<Rightarrow> ('e, 'w) psys" where
  "do_free_pipe_struct a s = set_pipe a ((get_pipe a s)\<lparr>p_dev := None\<rparr>) s"

text \<open>\<^verbatim>\<open>sizeof(struct bathos_pipe)\<close> with 32-bit pointers.\<close>

definition PIPE_SIZE :: int where
  "PIPE_SIZE = 44"

definition find_free_pipe :: "alloc_cfg \<Rightarrow> ('e, 'w) psys \<Rightarrow> nat option \<times> ('e, 'w) psys" where
  "find_free_pipe c s =
     (let (out, al) = bathos_alloc_buffer c PIPE_SIZE (pw_alloc (ev_world s))
      in (out, pw_update (\<lambda>w. w\<lparr>pw_alloc := al\<rparr>) s))"

definition bathos_find_dev :: "(u8 list \<Rightarrow> nat option) \<Rightarrow> u8 list \<Rightarrow> bathos_dev list \<Rightarrow> nat option" where
  "bathos_find_dev arch_find_dev n devs =
     (case List.find (\<lambda>i. strcmp n (dev_name (devs ! i)) = Some 0) [0..<length devs] of
        Some i \<Rightarrow> Some i
      | None \<Rightarrow> arch_find_dev n)"

text \<open>\<^verbatim>\<open>__pipe_dev_trigger_event\<close>: every pipe of the device gets the event, remapped to its own.\<close>

definition remap_event :: "'e pipe_events \<Rightarrow> 'e bathos_pipe \<Rightarrow> 'e \<Rightarrow> 'e" where
  "remap_event ev p evt =
     (let e = evt;
          e = (if evt = evt_pipe_input_ready ev then input_ready_event p else e);
          e = (if evt = evt_pipe_output_ready ev then output_ready_event p else e)
      in e)"

definition pipe_dev_trigger ::
  "('e, nat, ('e, 'w) pipe_world) event_table \<Rightarrow> 'e pipe_events \<Rightarrow> bool \<Rightarrow> 'e \<Rightarrow> nat \<Rightarrow> ('e, 'w) psys \<Rightarrow> ('e, 'w) psys" where
  "pipe_dev_trigger evts ev immediate evt a s =
     (let e = remap_event ev (get_pipe a s) evt
      in if immediate then snd (trigger_event_immediate evts e (Some a) s)
         else snd (trigger_event e (Some a) s))"

definition pipe_dev_trigger_event_gen ::
  "('e, nat, ('e, 'w) pipe_world) event_table \<Rightarrow> 'e pipe_events \<Rightarrow> nat \<Rightarrow> 'e \<Rightarrow> bool \<Rightarrow> ('e, 'w) psys \<Rightarrow> ('e, 'w) psys" where
  "pipe_dev_trigger_event_gen evts ev d evt immediate s =
     (case dev_pipes (get_dev d s) of
        None \<Rightarrow> s
      | Some ps \<Rightarrow> fold (pipe_dev_trigger evts ev immediate evt) ps s)"

definition pipe_dev_trigger_event ::
  "'e pipe_events \<Rightarrow> nat \<Rightarrow> 'e \<Rightarrow> ('e, 'w) psys \<Rightarrow> ('e, 'w) psys" where
  "pipe_dev_trigger_event ev d evt s = pipe_dev_trigger_event_gen (\<lambda>_. []) ev d evt False s"

definition pipe_dev_trigger_event_immediate ::
  "('e, nat, ('e, 'w) pipe_world) event_table \<Rightarrow> 'e pipe_events \<Rightarrow> nat \<Rightarrow> 'e \<Rightarrow> ('e, 'w) psys \<Rightarrow> ('e, 'w) psys" where
  "pipe_dev_trigger_event_immediate evts ev d evt s = pipe_dev_trigger_event_gen evts ev d evt True s"

definition pipe_open ::
  "alloc_cfg \<Rightarrow> 'e pipe_events \<Rightarrow> (u8 list \<Rightarrow> nat option) \<Rightarrow> (nat \<Rightarrow> ('e, 'w) psys bathos_dev_ops) \<Rightarrow>
   u8 list \<Rightarrow> nat \<Rightarrow> nat \<Rightarrow> ('e, 'w) psys \<Rightarrow> nat option \<times> ('e, 'w) psys" where
  "pipe_open c ev arch_find_dev ops n mode data s =
     (if mode = 0 then (None, set_errno EINVAL s)
      else case find_free_pipe c s of
        (None, s) \<Rightarrow> (None, set_errno ENFILE s)
      | (Some out, s) \<Rightarrow>
          let p = \<lparr>p_n = n, p_mode = mode, p_data = data, input_ready_event = evt_pipe_input_ready ev,
                   output_ready_event = evt_pipe_output_ready ev, p_dev = None, p_dev_data = None\<rparr>;
              s = set_pipe out p s
          in case bathos_find_dev arch_find_dev n (pw_devs (ev_world s)) of
               None \<Rightarrow> (None, set_errno ENXIO (do_free_pipe_struct out s))
             | Some d \<Rightarrow>
                 let s = set_pipe out (p\<lparr>p_dev := Some d\<rparr>) s;
                     s = (if dev_pipes (get_dev d s) = None then set_dev_pipes d (Some []) s else s);
                     (stat, s) = (case op_open (ops d) of None \<Rightarrow> (0, s) | Some f \<Rightarrow> f out s)
                 in if stat \<noteq> 0 then (None, set_errno stat (do_free_pipe_struct out s))
                    else
                      let s = set_dev_pipes d (Some (out # the (dev_pipes (get_dev d s)))) s;
                          e = (if mode AND BATHOS_MODE_INPUT \<noteq> 0 then evt_input_pipe_opened ev
                               else evt_output_pipe_opened ev)
                      in (Some out, snd (trigger_event e (Some out) s)))"

definition pipe_close :: "'e pipe_events \<Rightarrow> nat \<Rightarrow> ('e, 'w) psys \<Rightarrow> int \<times> ('e, 'w) psys" where
  "pipe_close ev a s =
     (if p_dev (get_pipe a s) = None then (- 1, set_errno EBADF s)
      else
        let e = (if p_mode (get_pipe a s) AND BATHOS_MODE_INPUT \<noteq> 0 then evt_input_pipe_closed ev
                 else evt_output_pipe_closed ev);
            s = snd (trigger_event e (Some a) s);
            s = snd (trigger_event (evt_pipe_really_closed ev) (Some a) s)
        in (0, s))"

definition errno_of :: "int \<Rightarrow> int" where
  "errno_of stat = (if stat < 0 then - stat else 0)"

definition pipe_read ::
  "(nat \<Rightarrow> ('e, 'w) psys bathos_dev_ops) \<Rightarrow> nat \<Rightarrow> nat \<Rightarrow> ('e, 'w) psys \<Rightarrow> int \<times> u8 list \<times> ('e, 'w) psys" where
  "pipe_read ops a len s =
     (case p_dev (get_pipe a s) of
        None \<Rightarrow> (- 1, [], set_errno EBADF s)
      | Some d \<Rightarrow>
          (case op_read (ops d) of
             None \<Rightarrow> (- 1, [], set_errno EPERM s)
           | Some f \<Rightarrow>
               if p_mode (get_pipe a s) AND BATHOS_MODE_INPUT = 0 then (- 1, [], set_errno EPERM s)
               else let (stat, buf, s) = f a len s in (stat, buf, set_errno (errno_of stat) s)))"

definition pipe_write ::
  "(nat \<Rightarrow> ('e, 'w) psys bathos_dev_ops) \<Rightarrow> nat \<Rightarrow> u8 list \<Rightarrow> ('e, 'w) psys \<Rightarrow> int \<times> ('e, 'w) psys" where
  "pipe_write ops a buf s =
     (case p_dev (get_pipe a s) of
        None \<Rightarrow> (- 1, set_errno EBADF s)
      | Some d \<Rightarrow>
          (case op_write (ops d) of
             None \<Rightarrow> (- 1, set_errno EPERM s)
           | Some f \<Rightarrow>
               if p_mode (get_pipe a s) AND BATHOS_MODE_OUTPUT = 0 then (- 1, set_errno EPERM s)
               else let (stat, s) = f a buf s in (stat, set_errno (errno_of stat) s)))"

definition pipe_ioctl ::
  "(nat \<Rightarrow> ('e, 'w) psys bathos_dev_ops) \<Rightarrow> nat \<Rightarrow> int \<Rightarrow> int option \<Rightarrow> ('e, 'w) psys \<Rightarrow> int \<times> ('e, 'w) psys" where
  "pipe_ioctl ops a code data s =
     (case p_dev (get_pipe a s) of
        None \<Rightarrow> (- 1, set_errno EBADF s)
      | Some d \<Rightarrow>
          (case op_ioctl (ops d) of
             None \<Rightarrow> (- 1, set_errno EPERM s)
           | Some f \<Rightarrow> let (stat, s) = f a code data s in (stat, set_errno (errno_of stat) s)))"

text \<open>
  The handler of \<^verbatim>\<open>pipe_really_closed\<close>. After \<^verbatim>\<open>list_del_init\<close> it reads \<^verbatim>\<open>p->dev->pipes\<close>: with a null
  device the result is \<open>None\<close>. A pipe that is not in its device's list has been unlinked before,
  and removing it again changes nothing.
\<close>

definition do_free_pipe ::
  "(nat \<Rightarrow> ('e, 'w) psys bathos_dev_ops) \<Rightarrow> nat \<Rightarrow> ('e, 'w) psys \<Rightarrow> ('e, 'w) psys option" where
  "do_free_pipe ops a s =
     (case p_dev (get_pipe a s) of
        None \<Rightarrow> None
      | Some d \<Rightarrow>
          let s = set_dev_pipes d (map_option (remove1 a) (dev_pipes (get_dev d s))) s;
              s = (if dev_pipes (get_dev d s) = Some [] then
                     (case op_close (ops d) of None \<Rightarrow> s | Some f \<Rightarrow> snd (f a s))
                   else s)
          in Some (do_free_pipe_struct a s))"

definition pipe_remap_input_ready_event :: "nat \<Rightarrow> 'e \<Rightarrow> ('e, 'w) psys \<Rightarrow> ('e, 'w) psys" where
  "pipe_remap_input_ready_event a e s = set_pipe a ((get_pipe a s)\<lparr>input_ready_event := e\<rparr>) s"

definition pipe_remap_output_ready_event :: "nat \<Rightarrow> 'e \<Rightarrow> ('e, 'w) psys \<Rightarrow> ('e, 'w) psys" where
  "pipe_remap_output_ready_event a e s = set_pipe a ((get_pipe a s)\<lparr>output_ready_event := e\<rparr>) s"

definition pipe_mode_is_async :: "'e bathos_pipe \<Rightarrow> bool" where
  "pipe_mode_is_async p \<longleftrightarrow> p_mode p AND BATHOS_MODE_ASYNC \<noteq> 0"

text \<open>\<^verbatim>\<open>lib/stdio.c\<close>, with standard output on a pipe: a newline is preceded by a carriage return.\<close>

fun putc_bytes :: "u8 \<Rightarrow> u8 list" where
  "putc_bytes ch = (if ch = 10 then [13, 10] else [ch])"

definition putc ::
  "(nat \<Rightarrow> ('e, 'w) psys bathos_dev_ops) \<Rightarrow> nat option \<Rightarrow> u8 \<Rightarrow> ('e, 'w) psys \<Rightarrow> ('e, 'w) psys" where
  "putc ops bathos_stdout ch s =
     (case bathos_stdout of
        None \<Rightarrow> s
      | Some a \<Rightarrow> fold (\<lambda>b s. snd (pipe_write ops a [b] s)) (putc_bytes ch) s)"

fun puts ::
  "(nat \<Rightarrow> ('e, 'w) psys bathos_dev_ops) \<Rightarrow> nat option \<Rightarrow> u8 list \<Rightarrow> ('e, 'w) psys \<Rightarrow> ('e, 'w) psys option" where
  "puts ops out [] s = None"
| "puts ops out (ch # cs) s = (if ch = 0 then Some s else puts ops out cs (putc ops out ch s))"

end
