(* ===== verification/PipeProps.thy ===== *)
theory PipeProps
  imports Pipe
begin

text \<open>
  What pipes guarantee to their users, and where closing goes wrong: the structure of a closed pipe
  is never given back to the allocator, and closing twice before the closing event is handled
  leads to the use of a null device pointer.
\<close>

section \<open>Broadcast of device events\<close>

definition pipe_evt :: "'e pipe_events \<Rightarrow> 'e \<Rightarrow> ('e, 'w) psys \<Rightarrow> nat \<Rightarrow> ('e, nat) pending_event" where
  "pipe_evt ev evt s a = \<lparr>pe_event = remap_event ev (get_pipe a s) evt, pe_data = Some a\<rparr>"

lemma fold_pipe_dev_trigger:
  "ev_world s' = ev_world s \<Longrightarrow>
    fold (pipe_dev_trigger evts ev False evt) ps s' = fold ev_push (map (pipe_evt ev evt s) ps) s'"
proof (induction ps arbitrary: s')
  case (Cons a ps)
  have "pipe_dev_trigger evts ev False evt a s' = ev_push (pipe_evt ev evt s a) s'"
    using Cons.prems by (simp add: pipe_dev_trigger_def ev_push_def pipe_evt_def get_pipe_def Let_def)
  moreover have "ev_world (ev_push (pipe_evt ev evt s a) s') = ev_world s" using Cons.prems by (simp add: ev_push_def)
  ultimately show ?case using Cons.IH by simp
qed simp

section \<open>Closing\<close>

lemma get_pipe_set [simp]: "get_pipe a (set_pipe a p s) = p"
  by (simp add: get_pipe_def set_pipe_def pw_update_def)

lemma do_free_pipe_dev: "do_free_pipe ops a s = Some s' \<Longrightarrow> p_dev (get_pipe a s') = None"
  by (auto simp: do_free_pipe_def do_free_pipe_struct_def Let_def split: option.splits)

lemma get_pipe_trigger [simp]: "get_pipe a (snd (trigger_event e d s)) = get_pipe a s"
  by (simp add: get_pipe_def)

section \<open>Properties\<close>

definition ex_pipe_events :: "nat pipe_events" where
  "ex_pipe_events = \<lparr>evt_input_pipe_opened = 0, evt_output_pipe_opened = 1, evt_input_pipe_closed = 2,
     evt_output_pipe_closed = 3, evt_pipe_input_ready = 4, evt_pipe_output_ready = 5, evt_pipe_really_closed = 6\<rparr>"

definition ex_pipe :: "nat bathos_pipe" where
  "ex_pipe = \<lparr>p_n = [117, 0], p_mode = 1, p_data = 0, input_ready_event = 9, output_ready_event = 5,
     p_dev = Some 0, p_dev_data = None\<rparr>"

definition ex_psys :: "(nat, unit) psys" where
  "ex_psys = \<lparr>pe_head = 0, pe_tail = 0, pe_buffer_nevts = 4,
     pe_buffer = replicate 4 \<lparr>pe_event = 0, pe_data = None\<rparr>, ie_pending_flags = [],
     ev_world = \<lparr>pw_pipes = (\<lambda>_. None)(0 \<mapsto> ex_pipe),
       pw_devs = [\<lparr>dev_name = [117, 0], dev_ll_ops = None, dev_pipes = Some [0]\<rparr>],
       pw_data = (\<lambda>_. None), pw_alloc = alloc_boot default_cfg, bathos_errno = 0, pw_ll = ()\<rparr>\<rparr>"

definition ex_dev_ops :: "nat \<Rightarrow> (nat, unit) psys bathos_dev_ops" where
  "ex_dev_ops _ = \<lparr>op_open = None, op_read = None, op_write = None, op_close = None, op_ioctl = None\<rparr>"

text \<open>
  C18. When a device reports that input or output is ready, every pipe open on it gets exactly one
  event, in the order of the device's list, carrying that pipe and remapped to the event the pipe's
  user asked for; what does not fit into the event queue is lost from the end.
\<close>

theorem pipe_event_broadcast:
  assumes "ev_wf s" "dev_pipes (get_dev d s) = Some ps"
  shows "ev_queue (pipe_dev_trigger_event ev d evt s) =
    take (ev_cap s) (ev_queue s @ map (\<lambda>a. \<lparr>pe_event = remap_event ev (get_pipe a s) evt, pe_data = Some a\<rparr>) ps)"
  using fold_pipe_dev_trigger [OF refl, of "\<lambda>_. []" ev evt ps s] evq.push_burst [OF assms(1), of "map (pipe_evt ev evt s) ps"] assms(2)
  by (simp add: pipe_dev_trigger_event_def pipe_dev_trigger_event_gen_def pipe_evt_def [abs_def])

theorem pipe_event_broadcast_witness:
  "ev_queue (pipe_dev_trigger_event ex_pipe_events 0 4 ex_psys) = [\<lparr>pe_event = 9, pe_data = Some 0\<rparr>]"
proof -
  have wf: "ev_wf ex_psys" unfolding ev_wf_def by (rule ring_wfI [of _ 2]) (simp_all add: ex_psys_def)
  have q: "ev_queue ex_psys = []" "ev_cap ex_psys = 3"
    by (simp_all add: ev_queue_def ev_cap_def ring_list_def CIRC_CNT_def ex_psys_def)
  have d: "dev_pipes (get_dev 0 ex_psys) = Some [0]" by (simp add: get_dev_def ex_psys_def)
  show ?thesis
    using pipe_event_broadcast [OF wf d, of ex_pipe_events 4] unfolding q
    by (simp add: remap_event_def get_pipe_def ex_pipe_events_def ex_psys_def ex_pipe_def)
qed

text \<open>
  Closing an open pipe twice before the closing event is handled is accepted both times, and
  when the two events are handled the second one finds the device pointer null and dereferences it.
\<close>

theorem pipe_close_twice:
  assumes "p_dev (get_pipe a s) \<noteq> None"
  shows "fst (pipe_close ev a s) = 0 \<and> fst (pipe_close ev a (snd (pipe_close ev a s))) = 0
    \<and> (\<exists>s'. do_free_pipe ops a s = Some s' \<and> do_free_pipe ops a s' = None)"
proof -
  have 1: "fst (pipe_close ev a s) = 0" "get_pipe a (snd (pipe_close ev a s)) = get_pipe a s"
    using assms by (auto simp: pipe_close_def Let_def)
  then have "fst (pipe_close ev a (snd (pipe_close ev a s))) = 0"
    using assms unfolding pipe_close_def [of ev a "snd (pipe_close ev a s)"] by (simp add: Let_def)
  moreover obtain s' where s': "do_free_pipe ops a s = Some s'"
    using assms by (auto simp: do_free_pipe_def Let_def)
  moreover have "do_free_pipe ops a s' = None"
    using do_free_pipe_dev [OF s'] by (simp add: do_free_pipe_def)
  ultimately show ?thesis using 1 by blast
qed

theorem pipe_close_twice_witness:
  "\<exists>s'. do_free_pipe ex_dev_ops 0 ex_psys = Some s' \<and> do_free_pipe ex_dev_ops 0 s' = None"
  using pipe_close_twice [of 0 ex_psys ex_pipe_events ex_dev_ops] by (simp add: get_pipe_def ex_psys_def ex_pipe_def)

text \<open>
  Freeing a pipe does not return its buffer: when the device has no close operation, the
  allocator is exactly as it was, so the memory of every pipe ever opened stays taken.
\<close>

theorem pipe_free_leaks:
  assumes "do_free_pipe ops a s = Some s'" "\<And>d. op_close (ops d) = None"
  shows "pw_alloc (ev_world s') = pw_alloc (ev_world s)"
  using assms
  by (auto simp: do_free_pipe_def do_free_pipe_struct_def set_pipe_def set_dev_pipes_def pw_update_def Let_def
      split: option.splits)

theorem pipe_free_leaks_witness:
  "\<exists>s'. do_free_pipe ex_dev_ops 0 ex_psys = Some s' \<and> pw_alloc (ev_world s') = alloc_boot default_cfg"
proof -
  obtain s' where s': "do_free_pipe ex_dev_ops 0 ex_psys = Some s'"
    by (simp add: do_free_pipe_def get_pipe_def ex_psys_def ex_pipe_def Let_def)
  from pipe_free_leaks [OF this] have "pw_alloc (ev_world s') = pw_alloc (ev_world ex_psys)"
    by (simp add: ex_dev_ops_def)
  with s' show ?thesis by (simp add: ex_psys_def)
qed

end
