(* ===== verification/Dev.thy ===== *)
theory Dev
  imports Pipe
begin

text \<open>
  The generic device of \<^verbatim>\<open>drivers/dev.c\<close>: a receive ring per pipe, filled from interrupts by
  \<^verbatim>\<open>bathos_dev_push_chars\<close> and emptied by \<^verbatim>\<open>bathos_dev_read\<close>, and the operations that forward to a low
  level driver. Low level operations are functions on the hardware state \<open>'w\<close>. Copying beyond the
  end of a buffer is \<open>None\<close>.

  Theorems: pushing what fits appends it to the receive queue, reading takes it out again in order;
  pushing more than fits destroys unread data, up to writing past the buffer.
\<close>

section \<open>Model\<close>

record 'w bathos_ll_dev_ops =
  ll_putc :: "(u8 \<Rightarrow> 'w \<Rightarrow> int \<times> 'w) option"
  ll_write :: "(u8 list \<Rightarrow> 'w \<Rightarrow> int \<times> 'w) option"
  ll_rx_disable :: "('w \<Rightarrow> int \<times> 'w) option"
  ll_rx_enable :: "('w \<Rightarrow> int \<times> 'w) option"
  ll_tx_disable :: "('w \<Rightarrow> int \<times> 'w) option"
  ll_tx_enable :: "('w \<Rightarrow> int \<times> 'w) option"
  ll_ioctl :: "(int \<Rightarrow> int option \<Rightarrow> 'w \<Rightarrow> int \<times> 'w) option"
  ll_async_open :: "('w \<Rightarrow> int \<times> 'w) option"

definition UART_DEFAULT_BUF_SIZE :: int where
  "UART_DEFAULT_BUF_SIZE = 16"

text \<open>\<^verbatim>\<open>sizeof(struct bathos_dev_data)\<close> without the asynchronous interface.\<close>

definition DEV_DATA_SIZE :: int where
  "DEV_DATA_SIZE = 28"

definition set_data :: "nat \<Rightarrow> bathos_dev_data \<Rightarrow> ('e, 'w) psys \<Rightarrow> ('e, 'w) psys" where
  "set_data x d = pw_update (\<lambda>w. w\<lparr>pw_data := (pw_data w)(x \<mapsto> d)\<rparr>)"

definition get_data :: "nat \<Rightarrow> ('e, 'w) psys \<Rightarrow> bathos_dev_data" where
  "get_data a s = the (pw_data (ev_world s) (the (p_dev_data (get_pipe a s))))"

definition bathos_dev_init ::
  "alloc_cfg \<Rightarrow> nat \<Rightarrow> nat option \<Rightarrow> ('e, 'w) psys \<Rightarrow> nat option \<times> ('e, 'w) psys" where
  "bathos_dev_init c dev ops s =
     (if ops = None then (None, s)
      else case bathos_alloc_buffer c DEV_DATA_SIZE (pw_alloc (ev_world s)) of
        (None, al) \<Rightarrow> (None, pw_update (\<lambda>w. w\<lparr>pw_alloc := al\<rparr>) s)
      | (Some out, al) \<Rightarrow>
          let s = pw_update (\<lambda>w. w\<lparr>pw_alloc := al\<rparr>) s;
              s = set_data out \<lparr>cb_head = 0, cb_tail = 0, cb_size = 0, cb_buf = None, rx_hwm = 0, dd_dev = dev\<rparr> s
          in (Some out,
              pw_update (\<lambda>w. w\<lparr>pw_devs := (pw_devs w)[dev := (pw_devs w ! dev)\<lparr>dev_ll_ops := ops\<rparr>]\<rparr>) s))"

definition bathos_dev_uninit :: "alloc_cfg \<Rightarrow> nat \<Rightarrow> ('e, 'w) psys \<Rightarrow> ('e, 'w) psys option" where
  "bathos_dev_uninit c a s =
     map_option (\<lambda>al. pw_update (\<lambda>w. w\<lparr>pw_alloc := al\<rparr>) s)
       (bathos_free_buffer c (int (the (p_dev_data (get_pipe a s)))) DEV_DATA_SIZE (pw_alloc (ev_world s)))"

text \<open>
  \<^verbatim>\<open>_bathos_pipe_push_chars\<close>: the space \<open>s\<close> is computed once, and the second copy is limited by it
  again. \<open>push_ring\<close> is the part that changes the ring, between the test for a full ring and the
  label \<^verbatim>\<open>end\<close>; it returns the number of bytes copied.
\<close>

definition copy_checked :: "u8 list \<Rightarrow> int \<Rightarrow> u8 list \<Rightarrow> u8 list option" where
  "copy_checked buf head xs =
     (if nat head + length xs \<le> length buf then Some (copy_at buf (nat head) xs) else None)"

definition push_step :: "u8 list \<Rightarrow> bathos_dev_data \<Rightarrow> bathos_dev_data option" where
  "push_step xs d =
     map_option (\<lambda>b. d\<lparr>cb_buf := Some b, cb_head := ring_next (cb_head d) (int (length xs)) (cb_size d)\<rparr>)
       (copy_checked (the (cb_buf d)) (cb_head d) xs)"

definition push_ring :: "u8 list \<Rightarrow> bathos_dev_data \<Rightarrow> (int \<times> bathos_dev_data) option" where
  "push_ring buf d =
     (let s = CIRC_SPACE (cb_head d) (cb_tail d) (cb_size d);
          len = int (length buf);
          l = min len (CIRC_SPACE_TO_END (cb_head d) (cb_tail d) (cb_size d))
      in case push_step (take (nat l) buf) d of
           None \<Rightarrow> None
         | Some d \<Rightarrow>
             let len = len - l;
                 buf = drop (nat l) buf
             in if l = 0 then Some (l, d)
                else
                  let out = l;
                      l = min len s
                  in map_option (\<lambda>d. (out + l, d)) (push_step (take (nat l) buf) d))"

definition bathos_pipe_push_chars ::
  "'e pipe_events \<Rightarrow> nat \<Rightarrow> u8 list \<Rightarrow> ('e, 'w) psys \<Rightarrow> (int \<times> ('e, 'w) psys) option" where
  "bathos_pipe_push_chars ev a buf s =
     (let d = get_data a s
      in if CIRC_SPACE (cb_head d) (cb_tail d) (cb_size d) = 0 then Some (- ENOMEM, s)
         else
           map_option (\<lambda>(r, d).
             let s = set_data (the (p_dev_data (get_pipe a s))) d s
             in (r, if CIRC_CNT (cb_head d) (cb_tail d) (cb_size d) > rx_hwm d
                    then pipe_dev_trigger_event ev (the (p_dev (get_pipe a s))) (evt_pipe_input_ready ev) s
                    else s)) (push_ring buf d))"

fun push_pipes ::
  "'e pipe_events \<Rightarrow> nat list \<Rightarrow> u8 list \<Rightarrow> ('e, 'w) psys \<Rightarrow> (int \<times> ('e, 'w) psys) option" where
  "push_pipes ev [] buf s = Some (int (length buf), s)"
| "push_pipes ev (a # as) buf s =
     (case bathos_pipe_push_chars ev a buf s of
        None \<Rightarrow> None
      | Some (r, s) \<Rightarrow> if r < 0 then Some (- 1, s) else push_pipes ev as buf s)"

definition bathos_dev_push_chars ::
  "'e pipe_events \<Rightarrow> nat \<Rightarrow> u8 list \<Rightarrow> ('e, 'w) psys \<Rightarrow> (int \<times> ('e, 'w) psys) option" where
  "bathos_dev_push_chars ev dev buf s = push_pipes ev (the (dev_pipes (get_dev dev s))) buf s"

definition allocate_internal_buf ::
  "alloc_cfg \<Rightarrow> nat \<Rightarrow> ('e, 'w) psys \<Rightarrow> int \<times> ('e, 'w) psys" where
  "allocate_internal_buf c x s =
     (let d = the (pw_data (ev_world s) x);
          d = d\<lparr>cb_size := UART_DEFAULT_BUF_SIZE\<rparr>;
          (b, al) = bathos_alloc_buffer c (cb_size d) (pw_alloc (ev_world s));
          s = pw_update (\<lambda>w. w\<lparr>pw_alloc := al\<rparr>) s
      in case b of
           None \<Rightarrow> (- ENOMEM, set_data x d s)
         | Some _ \<Rightarrow> (0, set_data x (d\<lparr>cb_buf := Some (replicate (nat UART_DEFAULT_BUF_SIZE) 0)\<rparr>) s))"

definition ll_call :: "('w \<Rightarrow> int \<times> 'w) \<Rightarrow> ('e, 'w) psys \<Rightarrow> int \<times> ('e, 'w) psys" where
  "ll_call f s = (let (r, w) = f (pw_ll (ev_world s)) in (r, pw_update (\<lambda>x. x\<lparr>pw_ll := w\<rparr>) s))"

definition get_ll_ops :: "(nat \<Rightarrow> 'w bathos_ll_dev_ops) \<Rightarrow> nat \<Rightarrow> ('e, 'w) psys \<Rightarrow> 'w bathos_ll_dev_ops" where
  "get_ll_ops llops a s = llops (the (dev_ll_ops (get_dev (the (p_dev (get_pipe a s))) s)))"

definition enable_if :: "bool \<Rightarrow> ('w \<Rightarrow> int \<times> 'w) option \<Rightarrow> ('e, 'w) psys \<Rightarrow> int \<times> ('e, 'w) psys" where
  "enable_if b f s = (if b then (case f of None \<Rightarrow> (0, s) | Some g \<Rightarrow> ll_call g s) else (0, s))"

definition bathos_dev_open ::
  "alloc_cfg \<Rightarrow> (nat \<Rightarrow> 'w bathos_ll_dev_ops) \<Rightarrow> nat \<Rightarrow> ('e, 'w) psys \<Rightarrow> int \<times> ('e, 'w) psys" where
  "bathos_dev_open c llops a s =
     (let ops = get_ll_ops llops a s;
          x = the (p_dev_data (get_pipe a s));
          mode = p_mode (get_pipe a s);
          (stat, s) =
            (if \<not> pipe_mode_is_async (get_pipe a s) then
               let (stat, s) = (if cb_buf (get_data a s) = None then allocate_internal_buf c x s else (0, s))
               in if stat < 0 then (stat, s)
                  else (0, set_data x ((get_data a s)\<lparr>cb_head := 0, cb_tail := 0\<rparr>) s)
             else (case ll_async_open ops of None \<Rightarrow> (- EINVAL, s) | Some f \<Rightarrow> ll_call f s))
      in if stat \<noteq> 0 then (stat, s)
         else
           let (stat, s) = enable_if (mode AND BATHOS_MODE_INPUT \<noteq> 0) (ll_rx_enable ops) s
           in if stat \<noteq> 0 then (stat, s)
              else enable_if (mode AND BATHOS_MODE_OUTPUT \<noteq> 0) (ll_tx_enable ops) s)"

text \<open>The ring part of \<^verbatim>\<open>bathos_dev_read\<close>: at most the bytes up to the end of the buffer.\<close>

definition read_ring :: "nat \<Rightarrow> bathos_dev_data \<Rightarrow> int \<times> u8 list \<times> bathos_dev_data" where
  "read_ring len d =
     (let l = min (int len) (CIRC_CNT_TO_END (cb_head d) (cb_tail d) (cb_size d))
      in if l = 0 then (- EAGAIN, [], d)
         else (l, take (nat l) (drop (nat (cb_tail d)) (the (cb_buf d))),
               d\<lparr>cb_tail := ring_next (cb_tail d) l (cb_size d)\<rparr>))"

definition bathos_dev_read ::
  "'e pipe_events \<Rightarrow> nat \<Rightarrow> nat \<Rightarrow> ('e, 'w) psys \<Rightarrow> int \<times> u8 list \<times> ('e, 'w) psys" where
  "bathos_dev_read ev a len s =
     (let d = get_data a s
      in if cb_buf d = None \<or> cb_size d = 0 then (- EINVAL, [], s)
         else
           let (r, bytes, d) = read_ring len d
           in if r < 0 then (r, [], s)
              else
                let s = set_data (the (p_dev_data (get_pipe a s))) d s;
                    s = (if CIRC_CNT (cb_head d) (cb_tail d) (cb_size d) \<noteq> 0
                         then pipe_dev_trigger_event ev (the (p_dev (get_pipe a s))) (evt_pipe_input_ready ev) s
                         else s)
                in (r, bytes, s))"

fun putc_loop :: "(u8 \<Rightarrow> 'w \<Rightarrow> int \<times> 'w) \<Rightarrow> u8 list \<Rightarrow> int \<Rightarrow> 'w \<Rightarrow> int \<times> 'w" where
  "putc_loop f [] stat w = (stat, w)"
| "putc_loop f (b # bs) stat w = (if stat \<ge> 0 then (let (stat, w) = f b w in putc_loop f bs stat w) else (stat, w))"

definition bathos_dev_write ::
  "(nat \<Rightarrow> 'w bathos_ll_dev_ops) \<Rightarrow> nat \<Rightarrow> u8 list \<Rightarrow> ('e, 'w) psys \<Rightarrow> int \<times> ('e, 'w) psys" where
  "bathos_dev_write llops a buf s =
     (case dev_ll_ops (get_dev (the (p_dev (get_pipe a s))) s) of
        None \<Rightarrow> (- EPERM, s)
      | Some i \<Rightarrow>
          (case ll_write (llops i) of
             Some f \<Rightarrow> ll_call (f buf) s
           | None \<Rightarrow>
               (case ll_putc (llops i) of
                  None \<Rightarrow> (- EPERM, s)
                | Some f \<Rightarrow>
                    let (stat, s) = ll_call (putc_loop f buf 0) s
                    in (if stat < 0 then stat else int (length buf), s))))"

definition bathos_dev_close ::
  "(nat \<Rightarrow> 'w bathos_ll_dev_ops) \<Rightarrow> nat \<Rightarrow> ('e, 'w) psys \<Rightarrow> int \<times> ('e, 'w) psys" where
  "bathos_dev_close llops a s =
     (let ops = get_ll_ops llops a s;
          mode = p_mode (get_pipe a s);
          (stat, s) = enable_if (mode AND BATHOS_MODE_INPUT \<noteq> 0) (ll_rx_disable ops) s
      in if stat \<noteq> 0 then (stat, s)
         else enable_if (mode AND BATHOS_MODE_OUTPUT \<noteq> 0) (ll_tx_disable ops) s)"

definition DEV_IOC_RX_SET_HIGH_WATERMARK :: int where
  "DEV_IOC_RX_SET_HIGH_WATERMARK = 1"

definition bathos_dev_ioctl ::
  "(nat \<Rightarrow> 'w bathos_ll_dev_ops) \<Rightarrow> nat \<Rightarrow> int \<Rightarrow> int option \<Rightarrow> ('e, 'w) psys \<Rightarrow> int \<times> ('e, 'w) psys" where
  "bathos_dev_ioctl llops a code data s =
     (if code = DEV_IOC_RX_SET_HIGH_WATERMARK then
        (case data of
           None \<Rightarrow> (- EINVAL, s)
         | Some v \<Rightarrow> (0, set_data (the (p_dev_data (get_pipe a s))) ((get_data a s)\<lparr>rx_hwm := v\<rparr>) s))
      else (case ll_ioctl (get_ll_ops llops a s) of
              None \<Rightarrow> (- EINVAL, s)
            | Some f \<Rightarrow> ll_call (f code data) s))"


section \<open>The receive ring\<close>

definition dev_wf :: "bathos_dev_data \<Rightarrow> bool" where
  "dev_wf d \<longleftrightarrow> (\<exists>b. cb_buf d = Some b \<and> ring_wf b (cb_head d) (cb_tail d) (cb_size d))"

definition dev_queue :: "bathos_dev_data \<Rightarrow> u8 list" where
  "dev_queue d = ring_list (the (cb_buf d)) (cb_head d) (cb_tail d) (cb_size d)"

definition dev_space :: "bathos_dev_data \<Rightarrow> int" where
  "dev_space d = CIRC_SPACE (cb_head d) (cb_tail d) (cb_size d)"

lemma dev_wfE:
  assumes "dev_wf d"
  obtains b where "cb_buf d = Some b" "ring_wf b (cb_head d) (cb_tail d) (cb_size d)"
  using assms by (auto simp: dev_wf_def)

text \<open>One copy that stays within the contiguous free space appends its bytes.\<close>

lemma push_step_ok:
  assumes "dev_wf d" "int (length xs) \<le> CIRC_SPACE_TO_END (cb_head d) (cb_tail d) (cb_size d)"
  obtains d' where "push_step xs d = Some d'" "dev_wf d'" "dev_queue d' = dev_queue d @ xs"
    "cb_tail d' = cb_tail d" "cb_size d' = cb_size d" "rx_hwm d' = rx_hwm d"
    "cb_head d' = ring_next (cb_head d) (int (length xs)) (cb_size d)"
    "dev_space d' = dev_space d - int (length xs)"
proof -
  from assms(1) obtain b where b: "cb_buf d = Some b" and wf: "ring_wf b (cb_head d) (cb_tail d) (cb_size d)"
    by (rule dev_wfE)
  note w = ring_wfD [OF wf]
  have te: "int (length xs) \<le> cb_size d - cb_head d" "int (length xs) \<le> CIRC_SPACE (cb_head d) (cb_tail d) (cb_size d)"
    using assms(2) CIRC_SPACE_TO_END_eq [OF wf] by auto
  then have fit: "nat (cb_head d) + length xs \<le> length b" using w by linarith
  let ?d = "d\<lparr>cb_buf := Some (copy_at b (nat (cb_head d)) xs), cb_head := ring_next (cb_head d) (int (length xs)) (cb_size d)\<rparr>"
  have "push_step xs d = Some ?d" using b fit by (simp add: push_step_def copy_checked_def)
  moreover note push = ring_push_wf [OF wf assms(2)]
  have "dev_wf ?d" using push by (simp add: dev_wf_def)
  moreover have "dev_queue ?d = dev_queue d @ xs"
    using ring_push [OF wf assms(2)] b by (simp add: dev_queue_def)
  moreover have "dev_space ?d = dev_space d - int (length xs)"
    using ring_push_cnt [OF wf _ te(2)] CIRC_SPACE_eq [OF wf] CIRC_SPACE_eq [OF push] by (simp add: dev_space_def)
  ultimately show thesis by (intro that) simp_all
qed

lemma push_ring_fits:
  assumes wf: "dev_wf d" and fits: "int (length buf) \<le> dev_space d"
  shows "\<exists>d'. push_ring buf d = Some (int (length buf), d') \<and> dev_wf d' \<and> dev_queue d' = dev_queue d @ buf
    \<and> cb_tail d' = cb_tail d \<and> cb_size d' = cb_size d \<and> rx_hwm d' = rx_hwm d"
proof -
  from wf obtain b :: "u8 list" where rwf: "ring_wf b (cb_head d) (cb_tail d) (cb_size d)" by (rule dev_wfE)
  note w = ring_wfD [OF rwf]
  let ?te = "CIRC_SPACE_TO_END (cb_head d) (cb_tail d) (cb_size d)"
  let ?l = "min (int (length buf)) ?te"
  have te: "?te = min (dev_space d) (cb_size d - cb_head d)"
    using CIRC_SPACE_TO_END_eq [OF rwf] by (simp add: dev_space_def)
  have l0: "0 \<le> ?l" using te fits w by auto
  have len1: "int (length (take (nat ?l) buf)) = ?l" using l0 by auto
  obtain d1 where d1: "push_step (take (nat ?l) buf) d = Some d1" "dev_wf d1"
    "dev_queue d1 = dev_queue d @ take (nat ?l) buf" "cb_tail d1 = cb_tail d" "cb_size d1 = cb_size d"
    "rx_hwm d1 = rx_hwm d" "cb_head d1 = ring_next (cb_head d) ?l (cb_size d)" "dev_space d1 = dev_space d - ?l"
    using push_step_ok [OF wf, of "take (nat ?l) buf"] len1 by (metis min.cobounded2)
  let ?l2 = "min (int (length buf) - ?l) (CIRC_SPACE (cb_head d) (cb_tail d) (cb_size d))"
  have l2: "?l2 = int (length buf) - ?l" using fits l0 by (simp add: dev_space_def)
  have rest: "take (nat ?l2) (drop (nat ?l) buf) = drop (nat ?l) buf" unfolding l2 using l0 by auto
  have fit2: "int (length (drop (nat ?l) buf)) \<le> CIRC_SPACE_TO_END (cb_head d1) (cb_tail d1) (cb_size d1)"
  proof (cases "int (length buf) \<le> ?te")
    case True
    from d1(2) obtain b1 :: "u8 list" where wf1: "ring_wf b1 (cb_head d1) (cb_tail d1) (cb_size d1)" by (rule dev_wfE)
    have "0 \<le> CIRC_SPACE_TO_END (cb_head d1) (cb_tail d1) (cb_size d1)"
      using CIRC_SPACE_TO_END_eq [OF wf1] CIRC_SPACE_eq [OF wf1] CIRC_CNT_bounds [OF wf1] ring_wfD(1-6) [OF wf1] by simp
    moreover have "drop (nat ?l) buf = []" using True by simp
    ultimately show ?thesis by simp
  next
    case False
    with te fits have l: "?l = cb_size d - cb_head d" by linarith
    then have h: "cb_head d1 = 0" using d1(7) ring_next_eq [OF rwf w(3,4), of ?l] l0 w by auto
    from d1(2) obtain b1 :: "u8 list" where "ring_wf b1 (cb_head d1) (cb_tail d1) (cb_size d1)" by (rule dev_wfE)
    from CIRC_SPACE_TO_END_eq [OF this] CIRC_SPACE_eq [OF this] CIRC_CNT_bounds [OF this]
    have "CIRC_SPACE_TO_END (cb_head d1) (cb_tail d1) (cb_size d1) = dev_space d1"
      using h by (simp add: dev_space_def)
    then show ?thesis using d1(8) fits l0 by simp
  qed
  obtain d2 where d2: "push_step (drop (nat ?l) buf) d1 = Some d2" "dev_wf d2"
    "dev_queue d2 = dev_queue d1 @ drop (nat ?l) buf" "cb_tail d2 = cb_tail d1" "cb_size d2 = cb_size d1"
    "rx_hwm d2 = rx_hwm d1"
    using push_step_ok [OF d1(2) fit2] by metis
  show ?thesis
  proof (cases "?l = 0")
    case True
    then have "push_ring buf d = Some (?l, d1)" using d1(1) by (simp add: push_ring_def Let_def)
    moreover have "buf = []"
    proof (rule ccontr)
      assume "buf \<noteq> []"
      then have "0 < length buf" by simp
      with True te fits w show False by linarith
    qed
    ultimately show ?thesis using d1 True by simp
  next
    case False
    have "push_ring buf d = Some (?l + ?l2, d2)"
      using d1(1) d2(1) False rest unfolding push_ring_def Let_def by simp
    moreover have "dev_queue d2 = dev_queue d @ buf" using d1(3) d2(3) by simp
    ultimately show ?thesis using d1 d2 l2 by auto
  qed
qed


text \<open>
  Too much data: when the free space does not wrap, the first copy uses all of it, and the second
  one starts at the unread data.
\<close>

lemma push_ring_overrun:
  assumes wf: "dev_wf d" and "cb_head d < cb_tail d" "0 < dev_space d"
    and len: "2 * dev_space d \<le> int (length buf)" and over: "cb_size d < cb_tail d - 1 + dev_space d"
  shows "push_ring buf d = None"
proof -
  from wf obtain b :: "u8 list" where rwf: "ring_wf b (cb_head d) (cb_tail d) (cb_size d)" by (rule dev_wfE)
  note w = ring_wfD [OF rwf]
  let ?sp = "dev_space d"
  have sp: "?sp = cb_tail d - cb_head d - 1"
    using CIRC_SPACE_eq [OF rwf] CIRC_CNT_eq [OF rwf] assms(2) by (simp add: dev_space_def)
  have te: "CIRC_SPACE_TO_END (cb_head d) (cb_tail d) (cb_size d) = ?sp"
    using CIRC_SPACE_TO_END_eq [OF rwf] sp w by (simp add: dev_space_def)
  then have l: "min (int (length buf)) (CIRC_SPACE_TO_END (cb_head d) (cb_tail d) (cb_size d)) = ?sp"
    using len assms(3) by simp
  have len1: "int (length (take (nat ?sp) buf)) = ?sp" using len assms(3) by auto
  obtain d1 where d1: "push_step (take (nat ?sp) buf) d = Some d1" "dev_wf d1" "cb_size d1 = cb_size d"
    "cb_head d1 = ring_next (cb_head d) ?sp (cb_size d)"
    using push_step_ok [OF wf, of "take (nat ?sp) buf"] len1 te by (metis order_refl)
  have h: "cb_head d1 = cb_tail d - 1"
    using d1(4) ring_next_eq [OF rwf w(3,4), of ?sp] sp w assms(2) by auto
  from d1(2) obtain b1 where b1: "cb_buf d1 = Some b1" "ring_wf b1 (cb_head d1) (cb_tail d1) (cb_size d1)"
    by (rule dev_wfE)
  have "length (take (nat ?sp) (drop (nat ?sp) buf)) = nat ?sp" using len assms(3) by auto
  then have "\<not> nat (cb_head d1) + length (take (nat ?sp) (drop (nat ?sp) buf)) \<le> length b1"
    using ring_wfD(1,2) [OF b1(2)] h over d1(3) w assms(2,3) by auto
  then have "push_step (take (nat ?sp) (drop (nat ?sp) buf)) d1 = None"
    using b1(1) by (simp add: push_step_def copy_checked_def)
  moreover have "min (int (length buf) - ?sp) ?sp = ?sp" using len by simp
  ultimately show ?thesis
    using d1(1) l assms(3) by (simp add: push_ring_def Let_def dev_space_def)
qed

lemma read_ring_empty:
  assumes "dev_wf d" "dev_queue d = [] \<or> len = 0"
  shows "read_ring len d = (- EAGAIN, [], d)"
proof -
  from assms(1) obtain b where b: "cb_buf d = Some b" and wf: "ring_wf b (cb_head d) (cb_tail d) (cb_size d)"
    by (rule dev_wfE)
  have "min (int len) (CIRC_CNT_TO_END (cb_head d) (cb_tail d) (cb_size d)) = 0"
    using assms(2) CIRC_CNT_TO_END_eq [OF wf] CIRC_CNT_bounds [OF wf] ring_wfD(1-6) [OF wf] b ring_list_empty_iff [OF wf]
    by (auto simp: dev_queue_def)
  then show ?thesis by (simp add: read_ring_def)
qed

lemma read_ring_data:
  assumes "dev_wf d" "dev_queue d \<noteq> []" "0 < len"
  obtains bs d' where "read_ring len d = (int (length bs), bs, d')" "0 < length bs" "length bs \<le> len"
    "dev_wf d'" "dev_queue d = bs @ dev_queue d'"
proof -
  from assms(1) obtain b where b: "cb_buf d = Some b" and wf: "ring_wf b (cb_head d) (cb_tail d) (cb_size d)"
    by (rule dev_wfE)
  note w = ring_wfD [OF wf] and cb = CIRC_CNT_bounds [OF wf]
  let ?te = "CIRC_CNT_TO_END (cb_head d) (cb_tail d) (cb_size d)"
  let ?l = "min (int len) ?te"
  have "CIRC_CNT (cb_head d) (cb_tail d) (cb_size d) \<noteq> 0"
    using assms(2) b wf by (simp add: dev_queue_def ring_list_empty_iff)
  then have l: "0 < ?l" "?l \<le> CIRC_CNT (cb_head d) (cb_tail d) (cb_size d)" "?l \<le> ?te"
    using CIRC_CNT_TO_END_eq [OF wf] cb w assms(3) by auto
  let ?bs = "take (nat ?l) (drop (nat (cb_tail d)) b)"
  let ?d = "d\<lparr>cb_tail := ring_next (cb_tail d) ?l (cb_size d)\<rparr>"
  have bs: "?bs = take (nat ?l) (dev_queue d)"
    using ring_read [OF wf, of "nat ?l"] l b by (simp add: dev_queue_def)
  have q: "dev_queue ?d = drop (nat ?l) (dev_queue d)"
    using ring_pop [OF wf, of ?l] l b by (simp add: dev_queue_def)
  have len_bs: "length ?bs = nat ?l" unfolding bs using l by (simp add: dev_queue_def)
  have "dev_wf ?d" using ring_pop_wf [OF wf, of ?l] l b by (simp add: dev_wf_def)
  moreover have "read_ring len d = (int (length ?bs), ?bs, ?d)"
    unfolding len_bs using l(1) less_imp_neq [OF l(1)] b by (simp add: read_ring_def Let_def)
  moreover have "dev_queue d = ?bs @ dev_queue ?d" unfolding bs q by simp
  moreover have "0 < nat ?l" "nat ?l \<le> len" using l(1) by (simp, simp add: nat_le_iff)
  ultimately show thesis using len_bs by (intro that) simp_all
qed

text \<open>Successive reads of at most \<open>n\<close> bytes.\<close>

fun read_times :: "nat \<Rightarrow> nat \<Rightarrow> bathos_dev_data \<Rightarrow> u8 list \<times> bathos_dev_data" where
  "read_times 0 n d = ([], d)"
| "read_times (Suc k) n d =
     (let (r, bs, d) = read_ring n d; (bs', d) = read_times k n d in (bs @ bs', d))"

lemma read_times_all:
  "dev_wf d \<Longrightarrow> 0 < n \<Longrightarrow> length (dev_queue d) \<le> k \<Longrightarrow>
    fst (read_times k n d) = dev_queue d \<and> dev_queue (snd (read_times k n d)) = []"
proof (induction k arbitrary: d)
  case (Suc k)
  show ?case
  proof (cases "dev_queue d = []")
    case True
    with Suc read_ring_empty [OF Suc.prems(1), of n] show ?thesis by (simp add: split_beta)
  next
    case False
    from read_ring_data [OF Suc.prems(1) False Suc.prems(2)] obtain bs d' where
      r: "read_ring n d = (int (length bs), bs, d')" "0 < length bs" "dev_wf d'" "dev_queue d = bs @ dev_queue d'" by metis
    then have "length (dev_queue d') \<le> k" using Suc.prems(3) by (cases bs) auto
    with Suc.IH [OF r(3) Suc.prems(2)] r show ?thesis by (simp add: split_beta)
  qed
qed simp

section \<open>Properties\<close>

text \<open>One byte at a time the ring is a bounded queue: a byte that finds no room is dropped.\<close>

definition dev_push :: "u8 \<Rightarrow> bathos_dev_data \<Rightarrow> bathos_dev_data" where
  "dev_push x d = (case push_ring [x] d of None \<Rightarrow> d | Some (n, d') \<Rightarrow> d')"

definition dev_pop :: "bathos_dev_data \<Rightarrow> bathos_dev_data" where
  "dev_pop d = snd (snd (read_ring 1 d))"

definition dev_cap :: "bathos_dev_data \<Rightarrow> nat" where
  "dev_cap d = nat (cb_size d) - 1"

lemma dev_space_eq:
  assumes "dev_wf d"
  shows "dev_space d = int (dev_cap d) - int (length (dev_queue d))" "length (dev_queue d) \<le> dev_cap d"
proof -
  from assms obtain b where b: "cb_buf d = Some b" and wf: "ring_wf b (cb_head d) (cb_tail d) (cb_size d)" by (rule dev_wfE)
  show "dev_space d = int (dev_cap d) - int (length (dev_queue d))" "length (dev_queue d) \<le> dev_cap d"
    using CIRC_SPACE_eq [OF wf] CIRC_CNT_bounds [OF wf] ring_wfD(1-6) [OF wf] b
    by (simp_all add: dev_space_def dev_queue_def dev_cap_def)
qed

lemma push_ring_full:
  assumes "dev_wf d" "dev_space d = 0"
  shows "push_ring [x] d = Some (0, d)"
proof -
  from assms(1) obtain b where b: "cb_buf d = Some b" and wf: "ring_wf b (cb_head d) (cb_tail d) (cb_size d)" by (rule dev_wfE)
  note w = ring_wfD [OF wf]
  have te: "CIRC_SPACE_TO_END (cb_head d) (cb_tail d) (cb_size d) = 0"
    using CIRC_SPACE_TO_END_eq [OF wf] assms(2) w(1-6) by (simp add: dev_space_def)
  have "ring_next (cb_head d) 0 (cb_size d) = cb_head d" using ring_next_eq [OF wf, of "cb_head d" 0] w(1-6) by simp
  then have "push_step [] d = Some d"
    using b w by (cases d) (simp add: push_step_def copy_checked_def)
  then show ?thesis by (simp add: push_ring_def Let_def te)
qed

interpretation devq: bounded_fifo dev_wf dev_queue dev_cap dev_push dev_pop
proof unfold_locales
  fix d and x :: u8
  assume wf: "dev_wf d"
  note sp = dev_space_eq [OF wf]
  show "length (dev_queue d) \<le> dev_cap d" by (rule sp(2))
  have full: "push_ring [x] d = Some (0, d)" if "length (dev_queue d) = dev_cap d"
    using that push_ring_full [OF wf] sp(1) by simp
  then show "length (dev_queue d) = dev_cap d \<Longrightarrow> dev_push x d = d" by (simp add: dev_push_def)
  have room: "\<exists>d'. push_ring [x] d = Some (1, d') \<and> dev_wf d' \<and> dev_queue d' = dev_queue d @ [x] \<and> cb_size d' = cb_size d"
    if "length (dev_queue d) < dev_cap d"
    using that push_ring_fits [OF wf, of "[x]"] sp(1) by auto
  then show "length (dev_queue d) < dev_cap d \<Longrightarrow> dev_queue (dev_push x d) = dev_queue d @ [x]"
    by (auto simp: dev_push_def)
  show "dev_wf (dev_push x d) \<and> dev_cap (dev_push x d) = dev_cap d"
    using full room wf sp(2) by (cases "length (dev_queue d) = dev_cap d") (auto simp: dev_push_def dev_cap_def)
  show "dev_wf (dev_pop d) \<and> dev_cap (dev_pop d) = dev_cap d" "dev_queue (dev_pop d) = tl (dev_queue d)"
    if "dev_queue d \<noteq> []"
  proof -
    have ne: "dev_queue d \<noteq> []" by (rule that)
    obtain bs d' where r: "read_ring 1 d = (int (length bs), bs, d')" "0 < length bs" "length bs \<le> 1" "dev_wf d'"
      "dev_queue d = bs @ dev_queue d'" using read_ring_data [OF wf ne, of 1] by auto
    then obtain y where "bs = [y]" by (cases bs) auto
    with r show "dev_queue (dev_pop d) = tl (dev_queue d)" by (simp add: dev_pop_def)
    have "cb_size (dev_pop d) = cb_size d" by (simp add: dev_pop_def read_ring_def Let_def)
    with r show "dev_wf (dev_pop d) \<and> dev_cap (dev_pop d) = dev_cap d" by (simp add: dev_pop_def dev_cap_def)
  qed
qed

definition ex_ring :: bathos_dev_data where
  "ex_ring = \<lparr>cb_head = 4, cb_tail = 12, cb_size = 16, cb_buf = Some (replicate 16 7), rx_hwm = 0, dd_dev = 0\<rparr>"

lemma ex_ring_wf: "dev_wf ex_ring" "dev_space ex_ring = 7"
proof -
  have "ring_wf (replicate 16 (7 :: u8)) 4 12 16" by (rule ring_wfI [of _ 4]) simp_all
  then show "dev_wf ex_ring" by (simp add: dev_wf_def ex_ring_def)
  show "dev_space ex_ring = 7" by (simp add: dev_space_def ex_ring_def CIRC_SPACE_def CIRC_CNT_def)
qed

text \<open>
  C17. What a driver pushes into a receive ring with enough room comes out again: after pushing
  \<open>buf\<close>, also when it wraps around the end of the buffer, successive reads of any chunk size return
  the bytes that were waiting, then \<open>buf\<close>, in order and each once.
\<close>

theorem push_read_roundtrip:
  assumes "dev_wf d" "int (length buf) \<le> dev_space d" "0 < n"
  shows "\<exists>d' k. push_ring buf d = Some (int (length buf), d') \<and> dev_wf d'
    \<and> fst (read_times k n d') = dev_queue d @ buf"
proof -
  from push_ring_fits [OF assms(1,2)] obtain d' where
    "push_ring buf d = Some (int (length buf), d')" "dev_wf d'" "dev_queue d' = dev_queue d @ buf" by blast
  then show ?thesis using read_times_all [of d' n "length (dev_queue d')"] assms(3)
    by (intro exI [of _ d']) auto
qed

theorem push_read_roundtrip_witness:
  "\<exists>d' k. push_ring [1, 2, 3] ex_ring = Some (3, d') \<and> fst (read_times k 5 d') = dev_queue ex_ring @ [1, 2, 3]"
  using push_read_roundtrip [OF ex_ring_wf(1), of "[1, 2, 3]" 5] ex_ring_wf(2) by auto

text \<open>
  Pushed one byte at a time, as the interrupt handlers of the serial drivers do, any amount of
  data is safe: the ring stays well formed and holds the oldest bytes up to its capacity.
\<close>

theorem push_bytewise_keeps_oldest:
  assumes "dev_wf d"
  shows "dev_wf (fold dev_push bs d) \<and> dev_queue (fold dev_push bs d) = take (nat (cb_size d) - 1) (dev_queue d @ bs)"
  using devq.push_burst [OF assms, of bs] by (simp add: dev_cap_def)

theorem push_bytewise_keeps_oldest_witness:
  "dev_queue (fold dev_push (replicate 20 1) ex_ring) = replicate 8 7 @ replicate 7 1"
proof -
  have "dev_queue ex_ring = replicate 8 7"
    by (simp add: dev_queue_def ring_list_def CIRC_CNT_def ex_ring_def list_eq_iff_nth_eq nth_append)
  then show ?thesis using push_bytewise_keeps_oldest [OF ex_ring_wf(1), of "replicate 20 1"] by (simp add: ex_ring_def)
qed

text \<open>
  Pushing too much is not refused: when the free space is one contiguous piece and the data is
  at least twice as long, the second copy starts over the unread data and, with the sizes given,
  writes past the end of the buffer.
\<close>

theorem push_chars_overrun:
  assumes "dev_wf d" "cb_head d < cb_tail d" "0 < dev_space d" "2 * dev_space d \<le> int (length buf)"
    and "cb_size d < cb_tail d - 1 + dev_space d"
  shows "push_ring buf d = None"
  by (rule push_ring_overrun [OF assms])

theorem push_chars_overrun_witness: "push_ring (replicate 20 1) ex_ring = None"
  using push_chars_overrun [OF ex_ring_wf(1), of "replicate 20 1"] ex_ring_wf(2) by (simp add: ex_ring_def)

end
