(* ===== verification/BufferQueue.thy ===== *)
theory BufferQueue
  imports EventProps AllocatorRun "HOL-Library.Multiset"
begin

text \<open>
  Buffer descriptors (\<^verbatim>\<open>include/bathos/buffer.h\<close>) and buffer queues (\<^verbatim>\<open>lib/buffer_queue.c\<close>,
  \<^verbatim>\<open>lib/buffer_queue_server.c\<close>). Descriptors and queues are named by numbers; the event data is a
  queue or a descriptor. The state of all of them is the world of the event system.

  Theorems: the descriptors of a queue are always in exactly one of its two lists; the release event
  of a descriptor is triggered exactly when its last user puts it.
\<close>

section \<open>Model\<close>

datatype bq_ptr = QPtr nat | BPtr nat

datatype buffer_dir = ANY | OUT | IN

record bathos_sglist_el =
  sg_data :: "u8 list"
  sg_len :: nat
  sg_dir :: buffer_dir

record 'e bathos_bdescr =
  bd_dir :: buffer_dir
  bd_data :: "nat option"
  bd_data_size :: nat
  bd_sglist :: "bathos_sglist_el list"
  bd_error :: int
  bd_users :: int
  bd_release_event :: "'e option"
  bd_queue :: nat

record 'e bathos_bqueue =
  bq_stopped :: bool
  bq_setup_event :: "'e option"
  bq_done_event :: "'e option"
  bq_available_event :: "'e option"
  bq_processed_event :: 'e
  bq_free_bufs :: "nat list"
  bq_busy_bufs :: "nat list"

record 'e bq_world =
  bw_queue :: "nat \<Rightarrow> 'e bathos_bqueue"
  bw_buf :: "nat \<Rightarrow> 'e bathos_bdescr"
  bw_alloc :: alloc_state

type_synonym 'e bqsys = "('e, bq_ptr, 'e bq_world) evsys"

definition the_buf :: "nat \<Rightarrow> 'e bqsys \<Rightarrow> 'e bathos_bdescr" where
  "the_buf b s = bw_buf (ev_world s) b"

definition the_queue :: "nat \<Rightarrow> 'e bqsys \<Rightarrow> 'e bathos_bqueue" where
  "the_queue q s = bw_queue (ev_world s) q"

definition set_buf :: "nat \<Rightarrow> 'e bathos_bdescr \<Rightarrow> 'e bqsys \<Rightarrow> 'e bqsys" where
  "set_buf b d s = s\<lparr>ev_world := (ev_world s)\<lparr>bw_buf := (bw_buf (ev_world s))(b := d)\<rparr>\<rparr>"

definition set_queue :: "nat \<Rightarrow> 'e bathos_bqueue \<Rightarrow> 'e bqsys \<Rightarrow> 'e bqsys" where
  "set_queue q d s = s\<lparr>ev_world := (ev_world s)\<lparr>bw_queue := (bw_queue (ev_world s))(q := d)\<rparr>\<rparr>"

definition bdescr_error :: "nat \<Rightarrow> 'e bqsys \<Rightarrow> int" where
  "bdescr_error b s = bd_error (the_buf b s)"

definition bdescr_set_error :: "nat \<Rightarrow> int \<Rightarrow> 'e bqsys \<Rightarrow> 'e bqsys" where
  "bdescr_set_error b e s = set_buf b ((the_buf b s)\<lparr>bd_error := e\<rparr>) s"

definition bdescr_get :: "nat \<Rightarrow> 'e bqsys \<Rightarrow> 'e bqsys" where
  "bdescr_get b s = set_buf b ((the_buf b s)\<lparr>bd_users := bd_users (the_buf b s) + 1\<rparr>) s"

definition bdescr_put :: "nat \<Rightarrow> 'e bqsys \<Rightarrow> 'e bqsys" where
  "bdescr_put b s =
     (let u = bd_users (the_buf b s) - 1;
          s = set_buf b ((the_buf b s)\<lparr>bd_users := u\<rparr>) s
      in if u \<noteq> 0 then s
         else (case bd_release_event (the_buf b s) of
                 None \<Rightarrow> s
               | Some e \<Rightarrow> snd (trigger_event e (Some (BPtr b)) s)))"

definition bdescr_shallow_copy :: "nat \<Rightarrow> 'e bqsys \<Rightarrow> nat \<times> 'e bqsys" where
  "bdescr_shallow_copy src s = (src, bdescr_get src s)"

definition bdescr_data_size :: "'e bathos_bdescr \<Rightarrow> nat" where
  "bdescr_data_size b =
     (if bd_data b \<noteq> None then bd_data_size b
      else if bd_sglist b = [] then 0
      else sum_list (map sg_len (bd_sglist b)))"

definition bdescr_remap_release_event :: "nat \<Rightarrow> 'e option \<Rightarrow> 'e bqsys \<Rightarrow> 'e bqsys" where
  "bdescr_remap_release_event b e s = set_buf b ((the_buf b s)\<lparr>bd_release_event := e\<rparr>) s"

definition bdescr_add_sglist_el :: "nat \<Rightarrow> bathos_sglist_el \<Rightarrow> 'e bqsys \<Rightarrow> int \<times> 'e bqsys" where
  "bdescr_add_sglist_el b el s = (0, set_buf b ((the_buf b s)\<lparr>bd_sglist := bd_sglist (the_buf b s) @ [el]\<rparr>) s)"

definition bathos_bqueue_client_init ::
  "nat \<Rightarrow> 'e option \<Rightarrow> 'e \<Rightarrow> 'e bqsys \<Rightarrow> int \<times> 'e bqsys" where
  "bathos_bqueue_client_init q available processed s =
     (0, set_queue q ((the_queue q s)\<lparr>bq_stopped := True, bq_available_event := available,
                                       bq_processed_event := processed\<rparr>) s)"

definition bathos_bqueue_get_buf :: "nat \<Rightarrow> 'e bqsys \<Rightarrow> nat option \<times> 'e bqsys" where
  "bathos_bqueue_get_buf q s =
     (let data = the_queue q s
      in if bq_stopped data then (None, s)
         else (case bq_free_bufs data of
                 [] \<Rightarrow> (None, s)
               | out # free \<Rightarrow>
                   let s = set_queue q (data\<lparr>bq_free_bufs := free, bq_busy_bufs := out # bq_busy_bufs data\<rparr>) s;
                       s = bdescr_remap_release_event out (bq_setup_event data) s
                   in (Some out, bdescr_get out s)))"

definition bathos_bqueue_start :: "nat \<Rightarrow> 'e bqsys \<Rightarrow> int \<times> 'e bqsys" where
  "bathos_bqueue_start q s =
     (let s = (case bq_available_event (the_queue q s) of
                 None \<Rightarrow> s
               | Some e \<Rightarrow> snd (trigger_event e (Some (QPtr q)) s))
      in (0, set_queue q ((the_queue q s)\<lparr>bq_stopped := False\<rparr>) s))"

definition bathos_bqueue_stop :: "nat \<Rightarrow> 'e bqsys \<Rightarrow> int \<times> 'e bqsys" where
  "bathos_bqueue_stop q s = (0, set_queue q ((the_queue q s)\<lparr>bq_stopped := True\<rparr>) s)"

definition bathos_bqueue_empty :: "nat \<Rightarrow> 'e bqsys \<Rightarrow> bool" where
  "bathos_bqueue_empty q s \<longleftrightarrow> bq_free_bufs (the_queue q s) = []"

text \<open>
  The server side. \<open>op_size\<close> is \<^verbatim>\<open>sizeof(struct bathos_buffer_op)\<close>; the descriptor of operation \<open>i\<close> is
  named by its place in the area, \<open>op_area + i * op_size\<close>. The fields of a descriptor that the
  initialisation does not write keep what the memory held.
\<close>

fun init_ops ::
  "nat \<Rightarrow> nat option \<Rightarrow> nat \<Rightarrow> nat \<Rightarrow> nat \<Rightarrow> nat \<Rightarrow> 'e bqsys \<Rightarrow> 'e bqsys" where
  "init_ops q data_ptr bufsize op_size op 0 s = s"
| "init_ops q data_ptr bufsize op_size op (Suc n) s =
     (let s = set_buf op ((the_buf op s)\<lparr>bd_data := data_ptr, bd_queue := q\<rparr>) s;
          s = set_queue q ((the_queue q s)\<lparr>bq_free_bufs := op # bq_free_bufs (the_queue q s)\<rparr>) s
      in init_ops q (map_option (\<lambda>p. p + bufsize) data_ptr) bufsize op_size (op + op_size) n s)"

definition bathos_bqueue_server_init ::
  "alloc_cfg \<Rightarrow> nat \<Rightarrow> nat \<Rightarrow> 'e option \<Rightarrow> 'e option \<Rightarrow> nat option \<Rightarrow> int \<Rightarrow> nat \<Rightarrow> 'e bqsys \<Rightarrow> int \<times> 'e bqsys" where
  "bathos_bqueue_server_init c op_size q setup done area nbufs bufsize s =
     (let s = set_queue q ((the_queue q s)\<lparr>bq_setup_event := setup, bq_done_event := done,
                            bq_busy_bufs := [], bq_free_bufs := []\<rparr>) s
      in if nbufs = 0 then (0, s)
         else if nbufs < 0 then (- EINVAL, s)
         else
           let (op_area, al) = bathos_alloc_buffer c (int op_size * nbufs) (bw_alloc (ev_world s));
               s = s\<lparr>ev_world := (ev_world s)\<lparr>bw_alloc := al\<rparr>\<rparr>
           in case op_area of
                None \<Rightarrow> (- ENOMEM, s)
              | Some op \<Rightarrow> (0, init_ops q area bufsize op_size op (nat nbufs) s))"

definition bathos_bqueue_server_buf_done :: "nat \<Rightarrow> 'e bqsys \<Rightarrow> 'e bqsys" where
  "bathos_bqueue_server_buf_done b s =
     (let q = bd_queue (the_buf b s);
          data = the_queue q s;
          free_list_was_empty = (bq_free_bufs data = []);
          s = set_queue q (data\<lparr>bq_free_bufs := b # remove1 b (bq_free_bufs data),
                                bq_busy_bufs := remove1 b (bq_busy_bufs data)\<rparr>) s
      in case bq_available_event data of
           None \<Rightarrow> s
         | Some e \<Rightarrow> if free_list_was_empty then snd (trigger_event e (Some (QPtr q)) s) else s)"

definition bathos_bqueue_server_buf_processed :: "nat \<Rightarrow> 'e bqsys \<Rightarrow> 'e bqsys" where
  "bathos_bqueue_server_buf_processed b s =
     (let q = bd_queue (the_buf b s)
      in snd (trigger_event (bq_processed_event (the_queue q s)) (Some (BPtr b)) s))"

section \<open>Conservation of buffers\<close>

text \<open>All descriptors of a queue; a queue is well-formed when they are distinct and belong to it.\<close>

definition queue_bufs :: "nat \<Rightarrow> 'e bqsys \<Rightarrow> nat list" where
  "queue_bufs q s = bq_free_bufs (the_queue q s) @ bq_busy_bufs (the_queue q s)"

definition bq_wf :: "nat \<Rightarrow> 'e bqsys \<Rightarrow> bool" where
  "bq_wf q s \<longleftrightarrow> distinct (queue_bufs q s) \<and> (\<forall>b \<in> set (queue_bufs q s). bd_queue (the_buf b s) = q)"

lemma bq_acc [simp]:
  "the_queue q (set_queue q d s) = d" "the_buf b (set_buf b x s) = x"
  "the_queue q (set_buf b x s) = the_queue q s" "the_buf b (set_queue q d s) = the_buf b s"
  "q' \<noteq> q \<Longrightarrow> the_queue q' (set_queue q d s) = the_queue q' s"
  "b' \<noteq> b \<Longrightarrow> the_buf b' (set_buf b x s) = the_buf b' s"
  "the_queue q (snd (trigger_event e a s)) = the_queue q s" "the_buf b (snd (trigger_event e a s)) = the_buf b s"
  by (simp_all add: the_queue_def the_buf_def set_queue_def set_buf_def)

lemma ev_queue_set [simp]:
  "ev_queue (set_queue q d s) = ev_queue s" "ev_queue (set_buf b x s) = ev_queue s"
  "ev_wf (set_queue q d s) = ev_wf s" "ev_wf (set_buf b x s) = ev_wf s"
  "ev_cap (set_queue q d s) = ev_cap s" "ev_cap (set_buf b x s) = ev_cap s"
  by (simp_all add: set_queue_def set_buf_def ev_queue_def ev_wf_def ev_cap_def)

text \<open>The operations a client and a server perform on a queue once it is set up.\<close>

inductive bq_step :: "nat \<Rightarrow> 'e bqsys \<Rightarrow> 'e bqsys \<Rightarrow> bool" for q where
  step_get: "bathos_bqueue_get_buf q s = (r, s') \<Longrightarrow> bq_step q s s'"
| step_start: "bathos_bqueue_start q s = (r, s') \<Longrightarrow> bq_step q s s'"
| step_stop: "bathos_bqueue_stop q s = (r, s') \<Longrightarrow> bq_step q s s'"
| step_put: "bq_step q s (bdescr_put b s)"
| step_share: "bq_step q s (bdescr_get b s)"
| step_processed: "bq_step q s (bathos_bqueue_server_buf_processed b s)"
| step_done: "b \<in> set (bq_busy_bufs (the_queue q s)) \<Longrightarrow> bq_step q s (bathos_bqueue_server_buf_done b s)"

definition same_bufs :: "nat \<Rightarrow> 'e bqsys \<Rightarrow> 'e bqsys \<Rightarrow> bool" where
  "same_bufs q s s' \<longleftrightarrow> mset (queue_bufs q s') = mset (queue_bufs q s)
     \<and> (\<forall>b. bd_queue (the_buf b s') = bd_queue (the_buf b s))"

lemma same_bufs_wf: "same_bufs q s s' \<Longrightarrow> bq_wf q s \<Longrightarrow> bq_wf q s'"
  unfolding same_bufs_def bq_wf_def by (metis mset_eq_imp_distinct_iff mset_eq_setD)

lemma bd_queue_set_buf [simp]:
  "bd_queue x = bd_queue (the_buf b s) \<Longrightarrow> bd_queue (the_buf b' (set_buf b x s)) = bd_queue (the_buf b' s)"
  by (cases "b' = b") simp_all

lemma same_bufs_get_buf: "same_bufs q s (snd (bathos_bqueue_get_buf q s))"
  by (auto simp: bathos_bqueue_get_buf_def bdescr_get_def bdescr_remap_release_event_def same_bufs_def
      queue_bufs_def Let_def split: list.split)

lemma same_bufs_put: "same_bufs q s (bdescr_put b s)"
  by (auto simp: bdescr_put_def same_bufs_def queue_bufs_def Let_def split: option.split)

lemma same_bufs_done:
  assumes "bq_wf q s" "b \<in> set (bq_busy_bufs (the_queue q s))"
  shows "same_bufs q s (bathos_bqueue_server_buf_done b s)"
proof -
  have q: "bd_queue (the_buf b s) = q" and free: "b \<notin> set (bq_free_bufs (the_queue q s))"
    using assms by (auto simp: bq_wf_def queue_bufs_def)
  with assms(2) show ?thesis
    by (auto simp: bathos_bqueue_server_buf_done_def same_bufs_def queue_bufs_def Let_def remove1_idem
        split: option.split)
qed

lemma bq_step_same:
  assumes "bq_step q s s'" "bq_wf q s"
  shows "same_bufs q s s'"
  using assms(1)
proof cases
  case (step_get r)
  then show ?thesis using same_bufs_get_buf [of q s] by simp
next
  case (step_start r)
  then show ?thesis
    by (auto simp: bathos_bqueue_start_def same_bufs_def queue_bufs_def Let_def split: option.splits)
next
  case (step_stop r)
  then show ?thesis by (auto simp: bathos_bqueue_stop_def same_bufs_def queue_bufs_def)
next
  case (step_share b)
  then show ?thesis by (simp add: bdescr_get_def same_bufs_def queue_bufs_def)
next
  case (step_processed b)
  then show ?thesis by (simp add: bathos_bqueue_server_buf_processed_def same_bufs_def queue_bufs_def Let_def)
qed (use same_bufs_put same_bufs_done assms in auto)

text \<open>Initialisation: the descriptors of the area, last one first.\<close>

lemma init_ops_bufs:
  "queue_bufs q (init_ops q dp bs sz op n s) =
     rev (map (\<lambda>i. op + i * sz) [0..<n]) @ queue_bufs q s \<and>
   (\<forall>b. bd_queue (the_buf b (init_ops q dp bs sz op n s)) =
     (if b \<in> (\<lambda>i. op + i * sz) ` {..<n} then q else bd_queue (the_buf b s)))"
proof (induction n arbitrary: dp op s)
  case (Suc n)
  have l: "map (\<lambda>i. op + i * sz) [0..<Suc n] = op # map (\<lambda>i. op + sz + i * sz) [0..<n]"
    unfolding map_upt_Suc by (simp add: add.assoc)
  have s: "(\<lambda>i. op + i * sz) ` {..<Suc n} = insert op ((\<lambda>i. op + sz + i * sz) ` {..<n})"
    unfolding lessThan_Suc_eq_insert_0 by (auto simp: image_image)
  let ?s = "set_buf op ((the_buf op s)\<lparr>bd_data := dp, bd_queue := q\<rparr>) s"
  let ?s2 = "set_queue q ((the_queue q ?s)\<lparr>bq_free_bufs := op # bq_free_bufs (the_queue q ?s)\<rparr>) ?s"
  have "bd_queue (the_buf b ?s2) = (if b = op then q else bd_queue (the_buf b s))" for b by simp
  moreover have "queue_bufs q ?s2 = op # queue_bufs q s" by (simp add: queue_bufs_def)
  ultimately show ?case
    using Suc.IH [of "map_option (\<lambda>p. p + bs) dp" "op + sz" ?s2] unfolding l s by (auto simp: Let_def)
qed simp


section \<open>Reference counts\<close>

lemma bdescr_get_users:
  "bd_users (the_buf b (bdescr_get b s)) = bd_users (the_buf b s) + 1"
  "bd_release_event (the_buf b (bdescr_get b s)) = bd_release_event (the_buf b s)"
  "ev_queue (bdescr_get b s) = ev_queue s" "ev_wf (bdescr_get b s) = ev_wf s" "ev_cap (bdescr_get b s) = ev_cap s"
  by (simp_all add: bdescr_get_def)

lemma bdescr_get_times:
  "bd_users (the_buf b ((bdescr_get b ^^ n) s)) = bd_users (the_buf b s) + int n
   \<and> bd_release_event (the_buf b ((bdescr_get b ^^ n) s)) = bd_release_event (the_buf b s)
   \<and> ev_queue ((bdescr_get b ^^ n) s) = ev_queue s \<and> ev_wf ((bdescr_get b ^^ n) s) = ev_wf s
   \<and> ev_cap ((bdescr_get b ^^ n) s) = ev_cap s"
  by (induction n) (simp_all add: bdescr_get_users)

lemma bdescr_put_shared:
  assumes "bd_users (the_buf b s) \<noteq> 1"
  shows "bd_users (the_buf b (bdescr_put b s)) = bd_users (the_buf b s) - 1"
    "bd_release_event (the_buf b (bdescr_put b s)) = bd_release_event (the_buf b s)"
    "ev_queue (bdescr_put b s) = ev_queue s" "ev_wf (bdescr_put b s) = ev_wf s" "ev_cap (bdescr_put b s) = ev_cap s"
  using assms by (simp_all add: bdescr_put_def Let_def)

lemma bdescr_put_last:
  assumes "bd_users (the_buf b s) = 1" "bd_release_event (the_buf b s) = Some e" "ev_wf s"
  shows "ev_queue (bdescr_put b s) = take (ev_cap s) (ev_queue s @ [\<lparr>pe_event = e, pe_data = Some (BPtr b)\<rparr>])"
proof -
  let ?s = "set_buf b ((the_buf b s)\<lparr>bd_users := 0\<rparr>) s" and ?p = "\<lparr>pe_event = e, pe_data = Some (BPtr b)\<rparr>"
  have "bdescr_put b s = ev_push ?p ?s"
    using assms by (simp add: bdescr_put_def Let_def ev_push_def)
  then show ?thesis using evq.push_contents [of ?s ?p] assms(3) by simp
qed

lemma bdescr_put_times:
  "bd_users (the_buf b s) = int n + 1 \<Longrightarrow> bd_release_event (the_buf b s) = Some e \<Longrightarrow> ev_wf s \<Longrightarrow>
    ev_queue ((bdescr_put b ^^ n) s) = ev_queue s \<and>
    ev_queue ((bdescr_put b ^^ Suc n) s) = take (ev_cap s) (ev_queue s @ [\<lparr>pe_event = e, pe_data = Some (BPtr b)\<rparr>])"
proof (induction n arbitrary: s)
  case 0
  then show ?case using bdescr_put_last by simp
next
  case (Suc n)
  have "bd_users (the_buf b s) \<noteq> 1" using Suc.prems by simp
  note p = bdescr_put_shared [OF this]
  from Suc.IH [of "bdescr_put b s"] p Suc.prems show ?case by (simp add: funpow_swap1)
qed

section \<open>Properties\<close>

text \<open>
  C10. No buffer of a queue is ever lost or duplicated: whatever client and server do with the queue,
  in any order, every descriptor is at all times in exactly one of the free and the busy list.
  The server only completes buffers that are busy.
\<close>

theorem bqueue_conserves_buffers:
  assumes "(bq_step q)\<^sup>*\<^sup>* s s'" "bq_wf q s"
  shows "bq_wf q s' \<and> mset (queue_bufs q s') = mset (queue_bufs q s)"
  using assms
proof (induction rule: rtranclp_induct)
  case (step y z)
  then have same: "same_bufs q y z" and wf: "bq_wf q y" using bq_step_same by blast+
  then show ?case using step same_bufs_wf [OF same wf] by (simp add: same_bufs_def)
qed simp

definition ex_bqsys :: "nat bqsys" where
  "ex_bqsys = \<lparr>pe_head = 0, pe_tail = 0, pe_buffer_nevts = 4,
     pe_buffer = replicate 4 \<lparr>pe_event = 0, pe_data = None\<rparr>, ie_pending_flags = [],
     ev_world = \<lparr>bw_queue = (\<lambda>_. \<lparr>bq_stopped = False, bq_setup_event = Some 1, bq_done_event = Some 2,
         bq_available_event = Some 3, bq_processed_event = 4, bq_free_bufs = [5, 6], bq_busy_bufs = []\<rparr>),
       bw_buf = (\<lambda>_. \<lparr>bd_dir = ANY, bd_data = None, bd_data_size = 0, bd_sglist = [], bd_error = 0,
         bd_users = 0, bd_release_event = None, bd_queue = 0\<rparr>),
       bw_alloc = alloc_boot default_cfg\<rparr>\<rparr>"

theorem bqueue_conserves_buffers_witness:
  "mset (queue_bufs 0 (snd (bathos_bqueue_get_buf 0 ex_bqsys))) = {#5, 6#}"
proof -
  have wf: "bq_wf 0 ex_bqsys" by (simp add: bq_wf_def queue_bufs_def the_queue_def the_buf_def ex_bqsys_def)
  have "(bq_step 0)\<^sup>*\<^sup>* ex_bqsys (snd (bathos_bqueue_get_buf 0 ex_bqsys))"
    by (rule r_into_rtranclp) (rule step_get [of 0 ex_bqsys "fst (bathos_bqueue_get_buf 0 ex_bqsys)"], simp)
  from bqueue_conserves_buffers [OF this wf] show ?thesis
    by (simp add: queue_bufs_def the_queue_def ex_bqsys_def)
qed

text \<open>
  A fresh queue of \<open>nbufs\<close> buffers owns exactly the descriptors of its operation area, all free:
  the initialisation establishes the well-formedness that the operations keep.
\<close>

theorem bqueue_server_init_wf:
  assumes "bathos_bqueue_server_init c op_size q setup done area nbufs bufsize s = (0, s')" "0 < op_size"
  shows "bq_wf q s' \<and> length (queue_bufs q s') = nat nbufs \<and> bq_busy_bufs (the_queue q s') = []"
proof -
  let ?s = "set_queue q ((the_queue q s)\<lparr>bq_setup_event := setup, bq_done_event := done,
                            bq_busy_bufs := [], bq_free_bufs := []\<rparr>) s"
  have busy: "bq_busy_bufs (the_queue q (init_ops q dp bs sz op n x)) = bq_busy_bufs (the_queue q x)"
    for dp bs sz op n and x :: "'a bqsys"
    by (induction n arbitrary: dp op x) (simp_all add: Let_def)
  show ?thesis
  proof (cases "nbufs = 0")
    case True
    then have "s' = ?s" using assms(1) by (simp add: bathos_bqueue_server_init_def)
    then show ?thesis using True by (simp add: bq_wf_def queue_bufs_def)
  next
    case False
    obtain op_area al where al: "bathos_alloc_buffer c (int op_size * nbufs) (bw_alloc (ev_world ?s)) = (op_area, al)" by fastforce
    let ?x = "?s\<lparr>ev_world := (ev_world ?s)\<lparr>bw_alloc := al\<rparr>\<rparr>"
    have pos: "0 < nbufs"
    proof (rule ccontr)
      assume "\<not> 0 < nbufs"
      with False assms(1) show False by (simp add: bathos_bqueue_server_init_def EINVAL_def Let_def)
    qed
    then obtain op where s': "s' = init_ops q area bufsize op_size op (nat nbufs) ?x"
      using assms(1) al False
      by (auto simp: bathos_bqueue_server_init_def ENOMEM_def Let_def split: option.splits if_splits)
    have e: "queue_bufs q ?x = []" "bq_busy_bufs (the_queue q ?x) = []" by (simp_all add: queue_bufs_def the_queue_def set_queue_def)
    have bufs: "queue_bufs q s' = rev (map (\<lambda>i. op + i * op_size) [0..<nat nbufs])"
      using init_ops_bufs [of q area bufsize op_size op "nat nbufs" ?x] s' e by simp
    have "distinct (queue_bufs q s')" unfolding bufs using assms(2) by (simp add: distinct_map inj_on_def)
    moreover have "\<forall>b \<in> set (queue_bufs q s'). bd_queue (the_buf b s') = q"
      using init_ops_bufs [of q area bufsize op_size op "nat nbufs" ?x] s' unfolding bufs by auto
    ultimately show ?thesis using bufs busy s' e by (simp add: bq_wf_def)
  qed
qed

theorem bqueue_server_init_wf_witness:
  "bq_wf 0 (snd (bathos_bqueue_server_init default_cfg 64 0 None None None 0 16 ex_bqsys))"
  using bqueue_server_init_wf [of default_cfg 64 0 None None None 0 16 ex_bqsys]
  by (simp add: bathos_bqueue_server_init_def)

text \<open>
  A buffer with \<open>n + 1\<close> users is released by the last of \<open>n + 1\<close> puts and by no earlier one: its
  release event is triggered then, once.
\<close>

theorem bdescr_released_once:
  assumes "ev_wf s" "bd_users (the_buf b s) = 1" "bd_release_event (the_buf b s) = Some e"
  shows "ev_queue ((bdescr_put b ^^ n) ((bdescr_get b ^^ n) s)) = ev_queue s
    \<and> ev_queue ((bdescr_put b ^^ Suc n) ((bdescr_get b ^^ n) s)) =
        take (ev_cap s) (ev_queue s @ [\<lparr>pe_event = e, pe_data = Some (BPtr b)\<rparr>])"
  using bdescr_put_times [of b "(bdescr_get b ^^ n) s" n e] bdescr_get_times [of b n s] assms by simp

theorem bdescr_released_once_witness:
  "ev_queue ((bdescr_put 5 ^^ Suc 2) ((bdescr_get 5 ^^ 2) (snd (bathos_bqueue_get_buf 0 ex_bqsys)))) =
    [\<lparr>pe_event = 1, pe_data = Some (BPtr 5)\<rparr>]"
proof -
  let ?s = "snd (bathos_bqueue_get_buf 0 ex_bqsys)"
  have wf: "ev_wf ex_bqsys" unfolding ev_wf_def by (rule ring_wfI [of _ 2]) (simp_all add: ex_bqsys_def)
  have q: "ev_queue ex_bqsys = []" "ev_cap ex_bqsys = 3"
    by (simp_all add: ev_queue_def ev_cap_def ring_list_def CIRC_CNT_def ex_bqsys_def)
  have f: "\<not> bq_stopped (the_queue 0 ex_bqsys)" "bq_free_bufs (the_queue 0 ex_bqsys) = [5, 6]"
    "bq_setup_event (the_queue 0 ex_bqsys) = Some 1" "bd_users (the_buf 5 ex_bqsys) = 0"
    by (simp_all add: the_queue_def the_buf_def ex_bqsys_def)
  have s: "ev_wf ?s" "bd_users (the_buf 5 ?s) = 1" "bd_release_event (the_buf 5 ?s) = Some 1" "ev_queue ?s = []" "ev_cap ?s = 3"
    using wf q f by (simp_all add: bathos_bqueue_get_buf_def bdescr_get_def bdescr_remap_release_event_def Let_def)
  show ?thesis using bdescr_released_once [OF s(1-3), of 2] unfolding s(4,5) by simp
qed

end
