(* ===== verification/StateMachine.thy ===== *)
theory StateMachine
  imports Prelude
begin

text \<open>
  The table-driven state machines of \<^verbatim>\<open>lib/statemachine.c\<close>, and the start-up code that walks tables of
  functions: \<^verbatim>\<open>lib/setup.c\<close>. Output functions act on the private data \<open>'p\<close> of the machine's runtime.
  Reading a table out of range is \<open>None\<close>.
\<close>

section \<open>Model\<close>

datatype statemachine_type = MOORE | MEALEY

record 'p statemachine_runtime =
  curr_state :: int
  sm_priv :: 'p

record 'p statemachine_state =
  next_states :: "int list"
  sm_out :: "(int \<Rightarrow> 'p statemachine_runtime \<Rightarrow> 'p statemachine_runtime) option list"

record 'p statemachine =
  sm_type :: statemachine_type
  sm_states :: "'p statemachine_state list"
  sm_nevents :: int

definition table_at :: "'a list \<Rightarrow> int \<Rightarrow> 'a option" where
  "table_at xs i = (if 0 \<le> i \<and> i < int (length xs) then Some (xs ! nat i) else None)"

text \<open>\<^verbatim>\<open>m->nstates\<close> is the length of the table of states, \<^verbatim>\<open>m->runtimes\<close> the list of instances.\<close>

definition init_statemachine ::
  "'p statemachine \<Rightarrow> int \<Rightarrow> 'p statemachine_runtime list \<Rightarrow> int \<times> 'p statemachine_runtime list" where
  "init_statemachine m initial_state runtimes =
     (if sm_states m = [] \<or> sm_nevents m = 0 then (- EINVAL, runtimes)
      else if initial_state < 0 \<or> initial_state \<ge> int (length (sm_states m)) then (- EINVAL, runtimes)
      else (0, map (\<lambda>r. r\<lparr>curr_state := initial_state\<rparr>) runtimes))"

definition feed_statemachine ::
  "'p statemachine \<Rightarrow> 'p statemachine_runtime option \<Rightarrow> int \<Rightarrow> (int \<times> 'p statemachine_runtime option) option" where
  "feed_statemachine m runtime event =
     (if event < 0 \<or> event \<ge> sm_nevents m then Some (- EINVAL, runtime)
      else case runtime of
        None \<Rightarrow> Some (- EINVAL, runtime)
      | Some rt \<Rightarrow>
          Option.bind (table_at (sm_states m) (curr_state rt)) (\<lambda>cur.
          Option.bind (table_at (next_states cur) event) (\<lambda>nxt.
          Option.bind (table_at (sm_states m) nxt) (\<lambda>next.
            let rt = rt\<lparr>curr_state := nxt\<rparr>
            in Option.bind (if sm_type m = MOORE then table_at (sm_out next) 0 else table_at (sm_out cur) event)
                 (\<lambda>outf. Some (0, Some (case outf of None \<Rightarrow> rt | Some f \<Rightarrow> f nxt rt)))))))"

text \<open>Initcalls: the ROM ones, then the others, all of them, whatever they return.\<close>

type_synonym 's initcall = "'s \<Rightarrow> int \<times> 's"

definition do_one_initcall :: "'s initcall \<Rightarrow> 's \<Rightarrow> 's" where
  "do_one_initcall p s = snd (p s)"

definition do_initcalls :: "'s initcall list \<Rightarrow> 's initcall list \<Rightarrow> 's \<Rightarrow> int \<times> 's" where
  "do_initcalls romcalls initcalls s = (0, fold do_one_initcall initcalls (fold do_one_initcall romcalls s))"

section \<open>Well-formed machines\<close>

definition sm_wf :: "'p statemachine \<Rightarrow> bool" where
  "sm_wf m \<longleftrightarrow> 0 < sm_nevents m \<and>
     (\<forall>st \<in> set (sm_states m). int (length (next_states st)) = sm_nevents m
        \<and> (\<forall>n \<in> set (next_states st). 0 \<le> n \<and> n < int (length (sm_states m)))
        \<and> int (length (sm_out st)) = (if sm_type m = MOORE then 1 else sm_nevents m))"

definition in_state :: "'p statemachine \<Rightarrow> 'p statemachine_runtime \<Rightarrow> bool" where
  "in_state m r \<longleftrightarrow> 0 \<le> curr_state r \<and> curr_state r < int (length (sm_states m))"

text \<open>The output functions do not move the machine.\<close>

definition outputs_keep_state :: "'p statemachine \<Rightarrow> bool" where
  "outputs_keep_state m \<longleftrightarrow>
     (\<forall>st \<in> set (sm_states m). \<forall>f. Some f \<in> set (sm_out st) \<longrightarrow> (\<forall>n r. curr_state (f n r) = curr_state r))"

text \<open>The transition function the tables stand for.\<close>

definition sm_next :: "'p statemachine \<Rightarrow> int \<Rightarrow> int \<Rightarrow> int" where
  "sm_next m st ev = next_states (sm_states m ! nat st) ! nat ev"

lemma table_at_nth: "0 \<le> i \<Longrightarrow> i < int (length xs) \<Longrightarrow> table_at xs i = Some (xs ! nat i)"
  by (simp add: table_at_def)

lemma feed_ok:
  assumes wf: "sm_wf m" and r: "in_state m r" and ev: "0 \<le> ev" "ev < sm_nevents m" and o: "outputs_keep_state m"
  obtains r' where "feed_statemachine m (Some r) ev = Some (0, Some r')" "in_state m r'"
    "curr_state r' = sm_next m (curr_state r) ev"
proof -
  let ?cur = "sm_states m ! nat (curr_state r)"
  let ?nxt = "sm_next m (curr_state r) ev"
  have cur: "?cur \<in> set (sm_states m)" using r by (simp add: in_state_def nat_less_iff)
  then have ns: "int (length (next_states ?cur)) = sm_nevents m"
    and out: "int (length (sm_out ?cur)) = (if sm_type m = MOORE then 1 else sm_nevents m)"
    and rng: "\<forall>n \<in> set (next_states ?cur). 0 \<le> n \<and> n < int (length (sm_states m))"
    using wf unfolding sm_wf_def by blast+
  have "?nxt \<in> set (next_states ?cur)" using ns ev by (simp add: sm_next_def nat_less_iff)
  with rng have nxt: "0 \<le> ?nxt" "?nxt < int (length (sm_states m))" by auto
  let ?next = "sm_states m ! nat ?nxt"
  have nextm: "?next \<in> set (sm_states m)" using nxt by (simp add: nat_less_iff)
  then have outn: "int (length (sm_out ?next)) = (if sm_type m = MOORE then 1 else sm_nevents m)"
    using wf unfolding sm_wf_def by blast
  let ?of = "if sm_type m = MOORE then sm_out ?next ! 0 else sm_out ?cur ! nat ev"
  have tab: "(if sm_type m = MOORE then table_at (sm_out ?next) 0 else table_at (sm_out ?cur) ev) = Some ?of"
    using out outn ev by (simp add: table_at_nth)
  have mem: "?of \<in> set (sm_out ?next) \<or> ?of \<in> set (sm_out ?cur)"
    using out outn ev by (auto simp: nat_less_iff split: if_splits)
  let ?r = "case ?of of None \<Rightarrow> r\<lparr>curr_state := ?nxt\<rparr> | Some f \<Rightarrow> f ?nxt (r\<lparr>curr_state := ?nxt\<rparr>)"
  have "feed_statemachine m (Some r) ev = Some (0, Some ?r)"
    using r ev nxt ns tab
    by (simp add: feed_statemachine_def in_state_def table_at_nth Let_def sm_next_def [symmetric])
  moreover have "curr_state ?r = ?nxt"
  proof (cases ?of)
    case (Some f)
    then have "curr_state (f n x) = curr_state x" for n x
      using mem o cur nextm unfolding outputs_keep_state_def by metis
    with Some show ?thesis by simp
  qed simp
  ultimately show thesis using nxt by (intro that) (simp_all add: in_state_def)
qed

section \<open>Properties\<close>

text \<open>A sequence of events.\<close>

fun feed_all :: "'p statemachine \<Rightarrow> 'p statemachine_runtime option \<Rightarrow> int list \<Rightarrow> 'p statemachine_runtime option option" where
  "feed_all m r [] = Some r"
| "feed_all m r (e # es) = Option.bind (feed_statemachine m r e) (\<lambda>(_, r). feed_all m r es)"

text \<open>
  C19. Fed any sequence of events, valid or not, a machine with well-formed tables never leaves its
  table of states and never reads a table out of range: valid events move it along its transition
  table, invalid ones leave it where it is.
\<close>

theorem statemachine_follows_table:
  assumes "sm_wf m" "outputs_keep_state m" "in_state m r"
  shows "\<exists>r'. feed_all m (Some r) es = Some (Some r') \<and> in_state m r'
    \<and> curr_state r' = fold (\<lambda>e st. if 0 \<le> e \<and> e < sm_nevents m then sm_next m st e else st) es (curr_state r)"
  using assms(3)
proof (induction es arbitrary: r)
  case (Cons e es)
  show ?case
  proof (cases "0 \<le> e \<and> e < sm_nevents m")
    case True
    then obtain r1 where r1: "feed_statemachine m (Some r) e = Some (0, Some r1)" "in_state m r1"
      "curr_state r1 = sm_next m (curr_state r) e"
      using feed_ok [OF assms(1) Cons.prems _ _ assms(2)] by blast
    with Cons.IH [OF r1(2)] True show ?thesis by simp
  next
    case False
    then have "feed_statemachine m (Some r) e = Some (- EINVAL, Some r)" by (auto simp: feed_statemachine_def)
    with Cons.IH [OF Cons.prems] False show ?thesis by auto
  qed
qed simp

definition ex_sm :: "nat statemachine" where
  "ex_sm = \<lparr>sm_type = MOORE,
     sm_states = [\<lparr>next_states = [0, 1], sm_out = [None]\<rparr>,
       \<lparr>next_states = [0, 1], sm_out = [Some (\<lambda>n r. r\<lparr>sm_priv := Suc (sm_priv r)\<rparr>)]\<rparr>],
     sm_nevents = 2\<rparr>"

theorem statemachine_follows_table_witness:
  "\<exists>r'. feed_all ex_sm (Some \<lparr>curr_state = 0, sm_priv = 0\<rparr>) [1, 7, 0, 1] = Some (Some r') \<and> curr_state r' = 1"
proof -
  have "sm_wf ex_sm" "outputs_keep_state ex_sm" "in_state ex_sm \<lparr>curr_state = 0, sm_priv = 0\<rparr>"
    by (simp_all add: sm_wf_def outputs_keep_state_def in_state_def ex_sm_def)
  note t = statemachine_follows_table [OF this, of "[1, 7, 0, 1]"]
  have "fold (\<lambda>e st. if 0 \<le> e \<and> e < sm_nevents ex_sm then sm_next ex_sm st e else st) [1, 7, 0, 1] 0 = 1"
    by (simp add: sm_next_def ex_sm_def)
  with t show ?thesis by auto
qed

end
