(* ===== verification/McuioPacket.thy ===== *)
theory McuioPacket
  imports Strings
begin

text \<open>
  The packets of the MCUIO protocol, \<^verbatim>\<open>include/tasks/mcuio.h\<close>: a 16-byte packed structure with a
  32-bit word of bit fields, eight bytes of data and two 16-bit words. The data, declared as
  \<^verbatim>\<open>uint32_t data[2]\<close>, is kept as its eight bytes, because the register operations read and write it
  through casts to narrower types. All architectures of the system are little endian.

  Theorem: the structure and its bytes are in bijection.
\<close>

section \<open>Little-endian bytes\<close>

definition le16 :: "u16 \<Rightarrow> u8 list" where
  "le16 w = [ucast w, ucast (drop_bit 8 w)]"

definition le32 :: "u32 \<Rightarrow> u8 list" where
  "le32 w = [ucast w, ucast (drop_bit 8 w), ucast (drop_bit 16 w), ucast (drop_bit 24 w)]"

definition get16 :: "u8 list \<Rightarrow> u16" where
  "get16 b = ucast (b ! 0) OR push_bit 8 (ucast (b ! 1))"

definition get32 :: "u8 list \<Rightarrow> u32" where
  "get32 b = ucast (b ! 0) OR push_bit 8 (ucast (b ! 1)) OR push_bit 16 (ucast (b ! 2)) OR push_bit 24 (ucast (b ! 3))"

lemma bit_past: "LENGTH('a) \<le> n \<Longrightarrow> \<not> bit (w :: 'a::len word) n"
  using bit_imp_le_length [of w n] by linarith

lemma length_le [simp]: "length (le16 w) = 2" "length (le32 x) = 4"
  by (simp_all add: le16_def le32_def)

lemma get16_le16 [simp]: "get16 (le16 w @ rest) = w"
  by (rule bit_word_eqI) (auto simp: get16_def le16_def bit_simps)

lemma get32_le32 [simp]: "get32 (le32 w @ rest) = w"
proof (rule bit_word_eqI)
  fix n
  assume "n < LENGTH(32)"
  then consider "n < 8" | "8 \<le> n" "n < 16" | "16 \<le> n" "n < 24" | "24 \<le> n" "n < 32" by fastforce
  then show "bit (get32 (le32 w @ rest)) n = bit w n"
    by cases (auto simp: get32_def le32_def bit_simps)
qed

lemma le16_get16: "le16 (get16 (a # b # rest)) = [a, b]"
  by (auto simp: get16_def le16_def bit_simps bit_past intro!: bit_word_eqI)

lemma le32_get32: "le32 (get32 (a # b # c # d # rest)) = [a, b, c, d]"
  by (auto simp: get32_def le32_def bit_simps bit_past intro!: bit_word_eqI)

section \<open>Packets\<close>

record mcuio_base_packet =
  mp_offset :: "12 word"
  mp_func :: "5 word"
  mp_dev :: "4 word"
  mp_bus :: "3 word"
  mp_type :: u8
  mp_data :: "u8 list"
  mp_crc :: u16
  mp_dummy :: u16

text \<open>The value of the bit field word; the first field takes the lowest bits.\<close>

definition header_word :: "mcuio_base_packet \<Rightarrow> u32" where
  "header_word p =
     ucast (mp_offset p) OR push_bit 12 (ucast (mp_func p)) OR push_bit 17 (ucast (mp_dev p))
     OR push_bit 21 (ucast (mp_bus p)) OR push_bit 24 (ucast (mp_type p))"

definition packet_bytes :: "mcuio_base_packet \<Rightarrow> u8 list" where
  "packet_bytes p = le32 (header_word p) @ mp_data p @ le16 (mp_crc p) @ le16 (mp_dummy p)"

definition bytes_packet :: "u8 list \<Rightarrow> mcuio_base_packet" where
  "bytes_packet b =
     (let h = get32 b
      in \<lparr>mp_offset = ucast h, mp_func = ucast (drop_bit 12 h), mp_dev = ucast (drop_bit 17 h),
          mp_bus = ucast (drop_bit 21 h), mp_type = ucast (drop_bit 24 h),
          mp_data = take 8 (drop 4 b), mp_crc = get16 (drop 12 b), mp_dummy = get16 (drop 14 b)\<rparr>)"

definition PACKET_SIZE :: nat where
  "PACKET_SIZE = 16"

definition mcuio_packet_is_read :: "mcuio_base_packet \<Rightarrow> bool" where
  "mcuio_packet_is_read p \<longleftrightarrow> mp_type p AND 1 = 0"

definition mcuio_packet_is_write :: "mcuio_base_packet \<Rightarrow> bool" where
  "mcuio_packet_is_write p \<longleftrightarrow> mp_type p AND 1 \<noteq> 0"

definition mcuio_packet_is_reply :: "mcuio_base_packet \<Rightarrow> bool" where
  "mcuio_packet_is_reply p \<longleftrightarrow> mp_type p AND push_bit 6 1 \<noteq> 0"

definition mcuio_packet_is_fill_data :: "mcuio_base_packet \<Rightarrow> bool" where
  "mcuio_packet_is_fill_data p \<longleftrightarrow> mp_type p AND push_bit 7 1 \<noteq> 0"

definition mcuio_packet_set_reply :: "mcuio_base_packet \<Rightarrow> mcuio_base_packet" where
  "mcuio_packet_set_reply p = p\<lparr>mp_type := mp_type p OR push_bit 6 1\<rparr>"

definition mcuio_packet_is_error :: "mcuio_base_packet \<Rightarrow> bool" where
  "mcuio_packet_is_error p \<longleftrightarrow> mp_type p AND push_bit 5 1 \<noteq> 0"

definition mcuio_packet_set_error :: "mcuio_base_packet \<Rightarrow> mcuio_base_packet" where
  "mcuio_packet_set_error p = p\<lparr>mp_type := mp_type p OR push_bit 5 1\<rparr>"

text \<open>\<^verbatim>\<open>(p->type & ((1 << 5) - 1)) >> 1\<close> selects the width; it can be as large as 15.\<close>

definition mcuio_packet_data_len :: "mcuio_base_packet \<Rightarrow> int" where
  "mcuio_packet_data_len p = 2 ^ unat (drop_bit 1 (mp_type p AND 31))"

definition mcuio_packet_type_to_str :: "int \<Rightarrow> string" where
  "mcuio_packet_type_to_str t =
     (let k = t AND 7
      in if k = 0 then ''rdb'' else if k = 1 then ''wrb'' else if k = 2 then ''rdw''
         else if k = 3 then ''wrw'' else if k = 4 then ''rddw'' else if k = 5 then ''wrdw''
         else if k = 6 then ''rdq'' else if k = 7 then ''wrq'' else ''unknown'')"

record mcuio_func_descriptor =
  fd_device :: u16
  fd_vendor :: u16
  fd_class :: "24 word"
  fd_rev :: u8

definition descriptor_bytes :: "mcuio_func_descriptor \<Rightarrow> u8 list" where
  "descriptor_bytes d =
     le32 (ucast (fd_device d) OR push_bit 16 (ucast (fd_vendor d)))
     @ le32 (ucast (fd_class d) OR push_bit 24 (ucast (fd_rev d)))"

section \<open>Facts\<close>

lemma header_fields:
  "ucast (header_word p) = mp_offset p" "ucast (drop_bit 12 (header_word p)) = mp_func p"
  "ucast (drop_bit 17 (header_word p)) = mp_dev p" "ucast (drop_bit 21 (header_word p)) = mp_bus p"
  "ucast (drop_bit 24 (header_word p)) = mp_type p"
  by (auto simp: header_word_def bit_simps bit_past intro!: bit_word_eqI)

lemma header_word_cases:
  "header_word \<lparr>mp_offset = ucast h, mp_func = ucast (drop_bit 12 h), mp_dev = ucast (drop_bit 17 h),
     mp_bus = ucast (drop_bit 21 h), mp_type = ucast (drop_bit 24 h),
     mp_data = d, mp_crc = c, mp_dummy = e\<rparr> = h"
proof (rule bit_word_eqI)
  fix n
  assume "n < LENGTH(32)"
  then consider "n < 12" | "12 \<le> n" "n < 17" | "17 \<le> n" "n < 21" | "21 \<le> n" "n < 24" | "24 \<le> n" "n < 32"
    by fastforce
  then show "bit (header_word \<lparr>mp_offset = ucast h, mp_func = ucast (drop_bit 12 h), mp_dev = ucast (drop_bit 17 h),
     mp_bus = ucast (drop_bit 21 h), mp_type = ucast (drop_bit 24 h),
     mp_data = d, mp_crc = c, mp_dummy = e\<rparr>) n = bit h n"
    by cases (auto simp: header_word_def bit_simps)
qed

lemma bytes_packet_of_bytes:
  assumes "length (mp_data p) = 8"
  shows "bytes_packet (packet_bytes p) = p" "length (packet_bytes p) = PACKET_SIZE"
  using assms get16_le16 [of "mp_dummy p" "[]"]
  by (simp_all add: bytes_packet_def packet_bytes_def header_fields Let_def PACKET_SIZE_def)

lemma split_packet_bytes:
  assumes "length b = PACKET_SIZE"
  shows "b = take 4 b @ take 8 (drop 4 b) @ take 2 (drop 12 b) @ take 2 (drop 14 b)"
proof -
  have "take 2 (drop 12 b) @ take 2 (drop 14 b) = drop 12 b"
    using assms append_take_drop_id [of 2 "drop 12 b"] by (simp add: PACKET_SIZE_def)
  moreover have "take 8 (drop 4 b) @ drop 12 b = drop 4 b"
    using append_take_drop_id [of 8 "drop 4 b"] by simp
  ultimately show ?thesis by simp
qed

lemma le32_get32_take: "4 \<le> length b \<Longrightarrow> le32 (get32 b) = take 4 b"
  by (auto simp: le32_get32 numeral_eq_Suc Suc_le_length_iff)

lemma le16_get16_take: "2 \<le> length b \<Longrightarrow> le16 (get16 b) = take 2 b"
  by (auto simp: le16_get16 numeral_eq_Suc Suc_le_length_iff)

text \<open>
  Packets and 16-byte frames are in bijection: decoding what was encoded gives the packet back, and
  every frame is the encoding of the packet it decodes to.
\<close>

theorem packet_roundtrip:
  "(length (mp_data p) = 8 \<longrightarrow> bytes_packet (packet_bytes p) = p \<and> length (packet_bytes p) = PACKET_SIZE)
   \<and> (length b = PACKET_SIZE \<longrightarrow> packet_bytes (bytes_packet b) = b \<and> length (mp_data (bytes_packet b)) = 8)"
proof (intro conjI impI)
  assume b: "length b = PACKET_SIZE"
  have "packet_bytes (bytes_packet b) = take 4 b @ take 8 (drop 4 b) @ take 2 (drop 12 b) @ take 2 (drop 14 b)"
    using b by (simp add: packet_bytes_def bytes_packet_def Let_def header_word_cases le32_get32_take le16_get16_take
        PACKET_SIZE_def)
  then show "packet_bytes (bytes_packet b) = b" using split_packet_bytes [OF b] by simp
  show "length (mp_data (bytes_packet b)) = 8" using b by (simp add: bytes_packet_def Let_def PACKET_SIZE_def)
qed (simp_all add: bytes_packet_of_bytes)

theorem packet_roundtrip_witness:
  "packet_bytes (bytes_packet [0, 16, 34, 1, 1, 2, 3, 4, 5, 6, 7, 8, 0, 0, 0, 0]) =
     [0, 16, 34, 1, 1, 2, 3, 4, 5, 6, 7, 8, 0, 0, 0, 0]"
  using packet_roundtrip [of undefined "[0, 16, 34, 1, 1, 2, 3, 4, 5, 6, 7, 8, 0, 0, 0, 0]"]
  by (simp add: PACKET_SIZE_def)

end
