(* ===== verification/Mcuio.thy ===== *)
theory Mcuio
  imports McuioPacket Pipe Timer
begin

text \<open>
  The MCUIO task, \<^verbatim>\<open>mcuio/task-mcuio.c\<close> with \<^verbatim>\<open>mcuio/mcuio-function.h\<close>, built for a machine whose
  program and data share one memory. The task reassembles 16-byte packets from the input pipe and
  serves them: a request goes to the register range of the addressed function and is answered on
  the output pipe, a reply goes to the function's reply operation. The lowest layer of the pipe
  world is the task's own state. Calls through null pointers and past the end of a table of
  operations are \<open>None\<close>. Integers and pointers are 32 bits wide.
\<close>

section \<open>State\<close>

record 'h mcuio_world =
  md_input_pipe :: "nat option"
  md_output_pipe :: "nat option"
  md_input_packet :: "u8 list"
  md_curr_len :: nat
  dr_initialized :: bool
  dr_last :: u32
  mw_to_host :: "nat \<Rightarrow> mcuio_base_packet"
  mw_mem :: memory
  mw_hw :: 'h

type_synonym ('e, 'h) msys = "('e, 'h mcuio_world) psys"

text \<open>
  A register range: the static part, and the operations indexed by the width of the access. Reads
  get the eight data bytes of the reply and return them changed.
\<close>

record mcuio_range_desc =
  r_start :: u32
  r_length :: u32
  r_rd_target :: nat
  r_wr_target :: nat
  r_priv :: nat

type_synonym 's mcuio_read = "mcuio_range_desc \<Rightarrow> u32 \<Rightarrow> u8 list \<Rightarrow> bool \<Rightarrow> 's \<Rightarrow> (int \<times> u8 list \<times> 's) option"
type_synonym 's mcuio_write = "mcuio_range_desc \<Rightarrow> u32 \<Rightarrow> u8 list \<Rightarrow> bool \<Rightarrow> 's \<Rightarrow> (int \<times> 's) option"

record 's mcuio_range_ops =
  rng_rd :: "'s mcuio_read option list"
  rng_wr :: "'s mcuio_write option list"

record 's mcuio_range =
  r_desc :: mcuio_range_desc
  r_ops :: "'s mcuio_range_ops option"

record 's mcuio_function_ops =
  fo_reply :: "(mcuio_base_packet \<Rightarrow> nat \<Rightarrow> int \<Rightarrow> 's \<Rightarrow> 's) option"

record 's mcuio_function =
  f_ranges :: "'s mcuio_range list"
  f_ops :: "'s mcuio_function_ops option"
  f_runtime :: nat

text \<open>What the task takes from the rest of the system: configuration, pipe layer, function table, console.\<close>

record ('e, 'h) mcuio_env =
  me_alloc :: alloc_cfg
  me_events :: "'e pipe_events"
  me_find_dev :: "u8 list \<Rightarrow> nat option"
  me_dev_ops :: "nat \<Rightarrow> ('e, 'h) msys bathos_dev_ops"
  me_stdin :: "nat option"
  me_stdout :: "nat option"
  me_input_path :: "u8 list"
  me_output_path :: "u8 list"
  me_data :: nat
  me_functions :: "('e, 'h) msys mcuio_function list"
  me_hz :: u32
  me_printf :: "string \<Rightarrow> ('e, 'h) msys \<Rightarrow> ('e, 'h) msys"

definition mcuio_state :: "('e, 'h) msys \<Rightarrow> 'h mcuio_world" where
  "mcuio_state s = pw_ll (ev_world s)"

definition mcuio_update :: "('h mcuio_world \<Rightarrow> 'h mcuio_world) \<Rightarrow> ('e, 'h) msys \<Rightarrow> ('e, 'h) msys" where
  "mcuio_update f = pw_update (\<lambda>w. w\<lparr>pw_ll := f (pw_ll w)\<rparr>)"

text \<open>The two places packets are sent from: the input packet and the reply buffer of a function.\<close>

datatype packet_ptr = InputPacket | ToHost nat

fun get_packet :: "packet_ptr \<Rightarrow> ('e, 'h) msys \<Rightarrow> mcuio_base_packet" where
  "get_packet InputPacket s = bytes_packet (md_input_packet (mcuio_state s))"
| "get_packet (ToHost rt) s = mw_to_host (mcuio_state s) rt"

fun put_packet :: "packet_ptr \<Rightarrow> mcuio_base_packet \<Rightarrow> ('e, 'h) msys \<Rightarrow> ('e, 'h) msys" where
  "put_packet InputPacket p s = mcuio_update (\<lambda>w. w\<lparr>md_input_packet := packet_bytes p\<rparr>) s"
| "put_packet (ToHost rt) p s = mcuio_update (\<lambda>w. w\<lparr>mw_to_host := (mw_to_host w)(rt := p)\<rparr>) s"

section \<open>Looking up and executing a request\<close>

definition get_function :: "nat \<Rightarrow> 's mcuio_function list \<Rightarrow> 's mcuio_function option" where
  "get_function fn fs = (if fn < length fs then Some (fs ! fn) else None)"

text \<open>
  One test of the search. The length is read through a pointer to 16 bits; the end of the range is
  computed unsigned and then compared signed.
\<close>

definition range_hit :: "mcuio_base_packet \<Rightarrow> mcuio_range_desc \<Rightarrow> bool" where
  "range_hit p r \<longleftrightarrow>
     (let len = mcuio_packet_data_len p;
          l = (ucast (r_length r) :: u16);
          last = sint (r_start r + ucast l - 1)
      in uint (r_start r) \<le> uint (mp_offset p) \<and> uint (mp_offset p) + len - 1 \<le> last)"

fun lookup_range :: "mcuio_base_packet \<Rightarrow> 's mcuio_range list \<Rightarrow> 's mcuio_range option" where
  "lookup_range p [] = None"
| "lookup_range p (r # rs) = (if range_hit p (r_desc r) then Some r else lookup_range p rs)"

definition op_at :: "'a list \<Rightarrow> nat \<Rightarrow> 'a option" where
  "op_at tab i = (if i < length tab then Some (tab ! i) else None)"

definition select_ops ::
  "'s mcuio_range \<Rightarrow> mcuio_base_packet \<Rightarrow> ('s mcuio_read option \<times> 's mcuio_write option) option" where
  "select_ops r p =
     (case r_ops r of
        None \<Rightarrow> Some (None, None)
      | Some ops \<Rightarrow>
          Option.bind
            (if mcuio_packet_is_read p then op_at (rng_rd ops) (unat (drop_bit 1 (mp_type p AND 31)))
             else Some None)
            (\<lambda>rptr. Option.bind
              (if mcuio_packet_is_write p then op_at (rng_wr ops) (unat (drop_bit 1 ((mp_type p - 1) AND 31)))
               else Some None)
              (\<lambda>wptr. Some (rptr, wptr))))"

definition exec_request ::
  "('e, 'h) msys mcuio_function \<Rightarrow> ('e, 'h) msys mcuio_range \<Rightarrow> mcuio_base_packet \<Rightarrow> ('e, 'h) msys \<Rightarrow>
   (int \<times> ('e, 'h) msys) option" where
  "exec_request f r p s =
     Option.bind (select_ops r p) (\<lambda>(rptr, wptr).
       let fill = mcuio_packet_is_fill_data p;
           off = ucast (mp_offset p) - r_start (r_desc r);
           to = ToHost (f_runtime f);
           s = put_packet to (mcuio_packet_set_reply p) s
       in case rptr of
            Some rd \<Rightarrow>
              map_option
                (\<lambda>(stat, out, s). (stat, put_packet to ((get_packet to s)\<lparr>mp_data := out\<rparr>) s))
                (rd (r_desc r) off (mp_data (get_packet to s)) fill s)
          | None \<Rightarrow>
              (case wptr of
                 Some wr \<Rightarrow> wr (r_desc r) off (mp_data p) fill s
               | None \<Rightarrow> Some (- EPERM, s)))"

section \<open>Talking to the host and to the functions\<close>

definition mcuio_send_to_host :: "('e, 'h) mcuio_env \<Rightarrow> mcuio_base_packet \<Rightarrow> ('e, 'h) msys \<Rightarrow> ('e, 'h) msys option" where
  "mcuio_send_to_host env p s =
     (case md_output_pipe (mcuio_state s) of
        None \<Rightarrow> None
      | Some a \<Rightarrow>
          let (stat, s) = pipe_write (me_dev_ops env) a (packet_bytes p) s
          in Some (if stat < 0 then me_printf env ''mcuio: output error'' s else s))"

definition mcuio_send_request_to_host :: "('e, 'h) mcuio_env \<Rightarrow> mcuio_base_packet \<Rightarrow> ('e, 'h) msys \<Rightarrow> ('e, 'h) msys option" where
  "mcuio_send_request_to_host env p s = mcuio_send_to_host env p s"

definition mcuio_send_reply_to_host ::
  "('e, 'h) mcuio_env \<Rightarrow> ('e, 'h) msys mcuio_function \<Rightarrow> ('e, 'h) msys \<Rightarrow> ('e, 'h) msys option" where
  "mcuio_send_reply_to_host env f s = mcuio_send_to_host env (get_packet (ToHost (f_runtime f)) s) s"

definition mcuio_send_error_to_host ::
  "('e, 'h) mcuio_env \<Rightarrow> packet_ptr \<Rightarrow> int \<Rightarrow> ('e, 'h) msys \<Rightarrow> ('e, 'h) msys option" where
  "mcuio_send_error_to_host env ptr e s =
     (let p = get_packet ptr s;
          p = p\<lparr>mp_data := copy_at (mp_data p) 0 (le32 (word_of_int e))\<rparr>;
          p = mcuio_packet_set_error p;
          s = put_packet ptr p s
      in case md_output_pipe (mcuio_state s) of
           None \<Rightarrow> None
         | Some a \<Rightarrow> Some (snd (pipe_write (me_dev_ops env) a (packet_bytes p) s)))"

definition mcuio_send_error_to_function ::
  "('e, 'h) msys mcuio_function \<Rightarrow> int \<Rightarrow> ('e, 'h) msys \<Rightarrow> ('e, 'h) msys option" where
  "mcuio_send_error_to_function f err s =
     (case f_ops f of
        None \<Rightarrow> None
      | Some ops \<Rightarrow>
          Some (case fo_reply ops of
                  None \<Rightarrow> s
                | Some reply \<Rightarrow> reply (get_packet InputPacket s) (f_runtime f) err s))"

definition mcuio_send_reply_to_function ::
  "('e, 'h) msys mcuio_function \<Rightarrow> ('e, 'h) msys \<Rightarrow> ('e, 'h) msys option" where
  "mcuio_send_reply_to_function f s = mcuio_send_error_to_function f 0 s"

definition mcuio_request_received ::
  "('e, 'h) mcuio_env \<Rightarrow> ('e, 'h) msys mcuio_function \<Rightarrow> ('e, 'h) msys \<Rightarrow> ('e, 'h) msys option" where
  "mcuio_request_received env f s =
     (let p = get_packet InputPacket s
      in case lookup_range p (f_ranges f) of
           None \<Rightarrow> mcuio_send_error_to_host env (ToHost (f_runtime f)) EINVAL s
         | Some r \<Rightarrow>
             Option.bind (exec_request f r p s) (\<lambda>(stat, s).
               if stat < 0 then mcuio_send_error_to_host env (ToHost (f_runtime f)) (- stat) s
               else mcuio_send_reply_to_host env f s))"

section \<open>The task\<close>

definition open_input_pipe :: "('e, 'h) mcuio_env \<Rightarrow> ('e, 'h) msys \<Rightarrow> nat option \<times> ('e, 'h) msys" where
  "open_input_pipe env s =
     (case pipe_open (me_alloc env) (me_events env) (me_find_dev env) (me_dev_ops env)
             (me_input_path env) BATHOS_MODE_INPUT (me_data env) s of
        (None, s) \<Rightarrow> (me_stdin env, s)
      | (Some a, s) \<Rightarrow> (Some a, s))"

definition mcuio_init :: "('e, 'h) mcuio_env \<Rightarrow> bool \<Rightarrow> ('e, 'h) msys \<Rightarrow> int \<times> ('e, 'h) msys" where
  "mcuio_init env arg_null s =
     (if arg_null then (- 1, s)
      else
        let (inp, s) = open_input_pipe env s;
            s = mcuio_update (\<lambda>w. w\<lparr>md_input_pipe := inp\<rparr>) s
        in if inp = None then (- 1, me_printf env ''mcuio: in pipe err'' s)
           else
             let (out, s) = pipe_open (me_alloc env) (me_events env) (me_find_dev env) (me_dev_ops env)
                              (me_output_path env) BATHOS_MODE_OUTPUT (me_data env) s;
                 out = (if out = None then me_stdout env else out);
                 s = mcuio_update (\<lambda>w. w\<lparr>md_output_pipe := out\<rparr>) s
             in if out = None then (- 1, me_printf env ''mcuio: out pipe err'' s) else (0, s))"

definition mcuio_alive :: "'a \<Rightarrow> 'a" where
  "mcuio_alive arg = arg"

text \<open>
  \<^verbatim>\<open>data_ready_handle\<close> in its three parts: dropping a stale partial packet, reading more of it, and
  serving it once it is complete. \<open>jif\<close> gives the two reads of \<^verbatim>\<open>jiffies\<close>.
\<close>

definition drop_stale :: "u32 \<Rightarrow> (nat \<Rightarrow> u32) \<Rightarrow> 'h mcuio_world \<Rightarrow> 'h mcuio_world" where
  "drop_stale hz jif w =
     (let w = (if \<not> dr_initialized w then w\<lparr>dr_initialized := True\<rparr>
               else if md_curr_len w \<noteq> 0 \<and> time_after (jif 0) (dr_last w + hz div 20)
               then w\<lparr>md_curr_len := 0\<rparr> else w)
      in w\<lparr>dr_last := jif 1\<rparr>)"

definition serve_packet :: "('e, 'h) mcuio_env \<Rightarrow> ('e, 'h) msys \<Rightarrow> ('e, 'h) msys option" where
  "serve_packet env s =
     (let p = get_packet InputPacket s
      in if mp_dev p \<noteq> 1 then Some s
         else case get_function (unat (mp_func p)) (me_functions env) of
                None \<Rightarrow> mcuio_send_error_to_host env InputPacket (- ENODEV) s
              | Some f \<Rightarrow>
                  if mcuio_packet_is_reply p then mcuio_send_reply_to_function f s
                  else mcuio_request_received env f s)"

definition data_ready_handle :: "('e, 'h) mcuio_env \<Rightarrow> (nat \<Rightarrow> u32) \<Rightarrow> ('e, 'h) msys \<Rightarrow> ('e, 'h) msys option" where
  "data_ready_handle env jif s =
     (let s = mcuio_update (drop_stale (me_hz env) jif) s;
          len = md_curr_len (mcuio_state s)
      in case md_input_pipe (mcuio_state s) of
           None \<Rightarrow> None
         | Some pipe \<Rightarrow>
             let (stat, buf, s) = pipe_read (me_dev_ops env) pipe (PACKET_SIZE - len) s;
                 s = mcuio_update (\<lambda>w. w\<lparr>md_input_packet := copy_at (md_input_packet w) len buf\<rparr>) s
             in if stat \<le> 0 then
                  let s = (if stat = 0 then
                             let s = snd (pipe_close (me_events env) pipe s);
                                 (inp, s) = open_input_pipe env s
                             in mcuio_update (\<lambda>w. w\<lparr>md_input_pipe := inp\<rparr>) s
                           else s)
                  in Some (mcuio_update (\<lambda>w. w\<lparr>md_curr_len := 0\<rparr>) s)
                else
                  let len = len + nat stat;
                      s = mcuio_update (\<lambda>w. w\<lparr>md_curr_len := len\<rparr>) s
                  in if len < PACKET_SIZE then Some s
                     else serve_packet env (mcuio_update (\<lambda>w. w\<lparr>md_curr_len := 0\<rparr>) s))"

definition mcuio_function_request_handle ::
  "('e, 'h) mcuio_env \<Rightarrow> mcuio_base_packet \<Rightarrow> ('e, 'h) msys \<Rightarrow> ('e, 'h) msys option" where
  "mcuio_function_request_handle env p s = mcuio_send_request_to_host env p s"

section \<open>Default register operations\<close>

definition mem_of :: "('e, 'h) msys \<Rightarrow> memory" where
  "mem_of s = mw_mem (mcuio_state s)"

definition mem_store :: "nat \<Rightarrow> u8 list \<Rightarrow> ('e, 'h) msys \<Rightarrow> ('e, 'h) msys" where
  "mem_store a bs = mcuio_update (\<lambda>w. w\<lparr>mw_mem := store_bytes a bs (mw_mem w)\<rparr>)"

definition mcuio_rdb :: "('e, 'h) msys mcuio_read" where
  "mcuio_rdb r offset out fill s =
     (let a = r_rd_target r + unat offset
      in if \<not> fill then Some (1, copy_at out 0 (load_bytes a 1 (mem_of s)), s)
         else Some (8, copy_at out 0 (load_bytes a 8 (mem_of s)), s))"

definition mcuio_rdw :: "('e, 'h) msys mcuio_read" where
  "mcuio_rdw r offset out fill s =
     (let a = r_rd_target r + unat offset
      in if \<not> fill then Some (2, copy_at out 0 (load_bytes a 2 (mem_of s)), s)
         else Some (8, copy_at out 0 (load_bytes a 8 (mem_of s)), s))"

definition mcuio_rddw :: "('e, 'h) msys mcuio_read" where
  "mcuio_rddw r offset out fill s =
     (let a = r_rd_target r + unat offset;
          out = copy_at out 0 (load_bytes a 4 (mem_of s));
          out = (if fill then copy_at out 4 (load_bytes (a + 4) 4 (mem_of s)) else out)
      in Some (if fill then 8 else 4, out, s))"

definition mcuio_rdq :: "('e, 'h) msys mcuio_read" where
  "mcuio_rdq r offset out fill s =
     Some (8, copy_at out 0 (load_bytes (r_rd_target r + unat offset) 8 (mem_of s)), s)"

definition mcuio_wrb :: "('e, 'h) msys mcuio_write" where
  "mcuio_wrb r offset inp fill s =
     (let a = r_wr_target r + unat offset
      in if \<not> fill then Some (1, mem_store a (take 1 inp) s)
         else Some (8, mem_store a (take 8 inp) s))"

definition mcuio_wrw :: "('e, 'h) msys mcuio_write" where
  "mcuio_wrw r offset inp fill s =
     (let a = r_wr_target r + unat offset
      in if \<not> fill then Some (2, mem_store a (take 2 inp) s)
         else Some (8, mem_store a (take 8 inp) s))"

definition mcuio_wrdw :: "('e, 'h) msys mcuio_write" where
  "mcuio_wrdw r offset inp fill s =
     (let a = r_wr_target r + unat offset;
          s = mem_store a (take 4 inp) s;
          s = (if fill then mem_store (a + 4) (take 4 (drop 4 inp)) s else s)
      in Some (if fill then 8 else 4, s))"

definition mcuio_wrq :: "('e, 'h) msys mcuio_write" where
  "mcuio_wrq r offset inp fill s = Some (8, mem_store (r_wr_target r + unat offset) (take 8 inp) s)"

definition default_mcuio_range_ops :: "('e, 'h) msys mcuio_range_ops" where
  "default_mcuio_range_ops =
     \<lparr>rng_rd = [Some mcuio_rdb, Some mcuio_rdw, Some mcuio_rddw, Some mcuio_rdq],
      rng_wr = [Some mcuio_wrb, Some mcuio_wrw, Some mcuio_wrdw, Some mcuio_wrq]\<rparr>"

definition default_mcuio_range_ro_ops :: "('e, 'h) msys mcuio_range_ops" where
  "default_mcuio_range_ro_ops =
     \<lparr>rng_rd = [Some mcuio_rdb, Some mcuio_rdw, Some mcuio_rddw, Some mcuio_rdq],
      rng_wr = [None, None, None, None]\<rparr>"

section \<open>The zero function\<close>

text \<open>
  \<^verbatim>\<open>mcuio_zero_func.c\<close>: a descriptor, a read-only and a writable block of eight bytes each. The
  addresses of the three objects are chosen by the linker.
\<close>

definition zero_descr :: mcuio_func_descriptor where
  "zero_descr = \<lparr>fd_device = 0xdead, fd_vendor = 0xbeef, fd_class = 0, fd_rev = 0\<rparr>"

definition zero_ro_contents :: "u8 list" where
  "zero_ro_contents = [109, 99, 117, 105, 111, 0, 0, 0]"

definition zero_rw_contents :: "u8 list" where
  "zero_rw_contents = [100, 101, 97, 100, 98, 101, 101, 102]"

definition zero_ranges :: "nat \<Rightarrow> nat \<Rightarrow> nat \<Rightarrow> ('e, 'h) msys mcuio_range list" where
  "zero_ranges descr ro rw =
     [\<lparr>r_desc = \<lparr>r_start = 0, r_length = 8, r_rd_target = descr, r_wr_target = 0, r_priv = 0\<rparr>,
       r_ops = Some default_mcuio_range_ro_ops\<rparr>,
      \<lparr>r_desc = \<lparr>r_start = 8, r_length = 8, r_rd_target = ro, r_wr_target = 0, r_priv = 0\<rparr>,
       r_ops = Some default_mcuio_range_ro_ops\<rparr>,
      \<lparr>r_desc = \<lparr>r_start = 16, r_length = 8, r_rd_target = rw, r_wr_target = rw, r_priv = 0\<rparr>,
       r_ops = Some default_mcuio_range_ops\<rparr>]"

definition zero :: "nat \<Rightarrow> nat \<Rightarrow> nat \<Rightarrow> nat \<Rightarrow> ('e, 'h) msys mcuio_function" where
  "zero rt descr ro rw = \<lparr>f_ranges = zero_ranges descr ro rw, f_ops = None, f_runtime = rt\<rparr>"

text \<open>\<^verbatim>\<open>mcuio_shield_func.c\<close> has a descriptor only.\<close>

definition js_descr :: "u16 \<Rightarrow> u16 \<Rightarrow> mcuio_func_descriptor" where
  "js_descr device vendor = \<lparr>fd_device = device, fd_vendor = vendor, fd_class = 0xc, fd_rev = 0\<rparr>"

definition js_ranges :: "nat \<Rightarrow> ('e, 'h) msys mcuio_range list" where
  "js_ranges descr =
     [\<lparr>r_desc = \<lparr>r_start = 0, r_length = 8, r_rd_target = descr, r_wr_target = 0, r_priv = 0\<rparr>,
       r_ops = Some default_mcuio_range_ro_ops\<rparr>]"

end
