(* ===== verification/McuioProps.thy ===== *)
theory McuioProps
  imports Mcuio PipeProps
begin

text \<open>
  Facts on the MCUIO task: the address arithmetic of the range search, what the default register
  operations do to the memory, and how packets are put together from the input pipe.
\<close>

section \<open>State access\<close>

lemma mcuio_state_update [simp]: "mcuio_state (mcuio_update f s) = f (mcuio_state s)"
  by (simp add: mcuio_state_def mcuio_update_def pw_update_def)

lemma mem_of_store [simp]: "mem_of (mem_store a bs s) = store_bytes a bs (mem_of s)"
  by (simp add: mem_of_def mem_store_def)

lemma mem_of_put [simp]: "mem_of (put_packet q p s) = mem_of s"
  by (cases q) (simp_all add: mem_of_def)

lemma get_put_packet [simp]:
  "get_packet (ToHost rt) (put_packet (ToHost rt) p s) = p"
  "get_packet InputPacket (put_packet (ToHost rt) p s) = get_packet InputPacket s"
  by simp_all

lemma get_packet_store [simp]: "get_packet q (mem_store a bs s) = get_packet q s"
  by (cases q) (simp_all add: mem_store_def)

declare get_packet.simps [simp del] put_packet.simps [simp del]

section \<open>Memory\<close>

lemma load_store_bytes: "load_bytes a (length bs) (store_bytes a bs m) = bs"
  by (rule nth_equalityI) (auto simp: load_bytes_def store_bytes_def)

lemma store_bytes_outside: "x < a \<or> a + length bs \<le> x \<Longrightarrow> store_bytes a bs m x = m x"
  by (auto simp: store_bytes_def)

lemma store_bytes_inside: "a \<le> x \<Longrightarrow> x < a + length bs \<Longrightarrow> store_bytes a bs m x = bs ! (x - a)"
  by (simp add: store_bytes_def)

lemma length_load_bytes [simp]: "length (load_bytes a n m) = n"
  by (simp add: load_bytes_def)

section \<open>The range search\<close>

definition width_index :: "mcuio_base_packet \<Rightarrow> nat" where
  "width_index p = unat (drop_bit 1 (mp_type p AND 31))"

definition reg_offset :: "mcuio_base_packet \<Rightarrow> mcuio_range_desc \<Rightarrow> nat" where
  "reg_offset p r = unat (ucast (mp_offset p) - r_start r :: u32)"

lemma sint_small: "uint (x :: u32) < 2147483648 \<Longrightarrow> sint x = uint x"
  using signed_take_bit_int_eq_self [of 31 "uint x"] uint_ge_0 [of x] by (simp add: sint_uint)

lemma uint_offset_lt: "uint (x :: 12 word) < 4096"
  using uint_lt2p [of x] by simp

lemma range_hit_bounds:
  assumes "range_hit p r"
  shows "reg_offset p r + 2 ^ width_index p \<le> unat (r_length r)"
proof -
  let ?l = "ucast (r_length r) :: u16"
  have l: "uint ?l < 65536" "0 \<le> uint ?l" using uint_lt2p [of ?l] by simp_all
  have le: "uint ?l \<le> uint (r_length r)"
    by (simp add: uint_up_ucast unsigned_ucast_eq take_bit_int_less_eq_self_iff)
  have u: "uint (ucast ?l :: u32) = uint ?l" using l by (simp add: uint_up_ucast is_up)
  have o: "uint (ucast (mp_offset p) :: u32) = uint (mp_offset p)"
    using uint_offset_lt [of "mp_offset p"] by (simp add: unsigned_ucast_eq take_bit_int_eq_self_iff)
  from assms have s: "uint (r_start r) \<le> uint (mp_offset p)"
    and h: "uint (mp_offset p) + 2 ^ width_index p - 1 \<le> sint (r_start r + ucast ?l - 1)"
    by (simp_all add: range_hit_def Let_def mcuio_packet_data_len_def width_index_def)
  have s0: "0 \<le> uint (r_start r)" "uint (r_start r) < 4096" using s uint_offset_lt [of "mp_offset p"] by simp_all
  have off: "int (reg_offset p r) = uint (mp_offset p) - uint (r_start r)"
  proof -
    have "uint (ucast (mp_offset p) - r_start r :: u32) = (uint (mp_offset p) - uint (r_start r)) mod 4294967296"
      by (simp add: uint_word_ariths o)
    also have "\<dots> = uint (mp_offset p) - uint (r_start r)"
      using s s0 uint_offset_lt [of "mp_offset p"] by (intro mod_pos_pos_trivial) linarith+
    finally show ?thesis by (simp add: reg_offset_def)
  qed
  have x: "uint (r_start r + ucast ?l - 1) = (uint (r_start r) + uint ?l - 1) mod 4294967296"
    by (simp add: uint_word_ariths u mod_simps)
  show ?thesis
  proof (cases "uint (r_start r) + uint ?l = 0")
    case True
    then have "r_start r + ucast ?l - 1 = (- 1 :: u32)"
      using l s0 by (simp add: word_uint_eq_iff uint_word_ariths u)
    with h have "uint (mp_offset p) + 2 ^ width_index p - 1 \<le> - 1" by simp
    moreover have "(0 :: int) < 2 ^ width_index p" by simp
    ultimately show ?thesis using uint_ge_0 [of "mp_offset p"] by linarith
  next
    case False
    have "(uint (r_start r) + uint ?l - 1) mod 4294967296 = uint (r_start r) + uint ?l - 1"
      using False l s0 by (intro mod_pos_pos_trivial) linarith+
    with x have "sint (r_start r + ucast ?l - 1) = uint (r_start r) + uint ?l - 1"
      using sint_small [of "r_start r + ucast ?l - 1"] l s0 by simp
    with h off le have "int (reg_offset p r) + 2 ^ width_index p \<le> uint (r_length r)" by simp
    then show ?thesis by (simp flip: uint_nat add: nat_int_comparison)
  qed
qed

lemma lookup_range_hit: "lookup_range p rs = Some r \<Longrightarrow> range_hit p (r_desc r) \<and> r \<in> set rs"
  by (induction rs) (auto split: if_splits)

section \<open>Executing a request\<close>

lemma drop_bit_pred_odd:
  fixes t :: u8
  assumes "t AND 1 \<noteq> 0"
  shows "drop_bit 1 ((t - 1) AND 31) = drop_bit 1 (t AND 31)"
proof -
  have "odd t" using assms by (simp add: and_one_eq mod_2_eq_odd split: if_splits)
  then obtain k where t: "t = 2 * k + 1" by (elim oddE)
  have "bit (1 + 2 * k) (Suc n) = bit (2 * k) (Suc n)" for n
    using even_bit_succ_iff [of "2 * k" "Suc n"] by simp
  then show ?thesis unfolding t by (intro bit_word_eqI) (simp add: bit_simps add.commute)
qed

lemma width_index_lt: "width_index p < 16"
proof -
  have "drop_bit 1 (mp_type p AND 31) = drop_bit 1 (mp_type p) AND 15"
    by (rule bit_word_eqI) (auto simp: bit_simps)
  moreover have "unat (drop_bit 1 (mp_type p) AND 15) \<le> 15"
    using word_and_le1 [of "drop_bit 1 (mp_type p)" 15] by (simp add: word_le_nat_alt)
  ultimately show ?thesis by (simp add: width_index_def)
qed

definition default_ops :: "('e, 'h) msys mcuio_range_ops \<Rightarrow> bool" where
  "default_ops ops \<longleftrightarrow> ops = default_mcuio_range_ops \<or> ops = default_mcuio_range_ro_ops"

lemma select_read:
  assumes "mcuio_packet_is_read p" "r_ops r = Some ops"
  shows "select_ops r p = map_option (\<lambda>rd. (rd, None)) (op_at (rng_rd ops) (width_index p))"
  using assms by (simp add: select_ops_def mcuio_packet_is_read_def mcuio_packet_is_write_def width_index_def
      map_option_case split: option.splits)

lemma select_write:
  assumes "mcuio_packet_is_write p" "r_ops r = Some ops"
  shows "select_ops r p = map_option (\<lambda>wr. (None, wr)) (op_at (rng_wr ops) (width_index p))"
  using assms drop_bit_pred_odd [of "mp_type p"]
  by (simp add: select_ops_def mcuio_packet_is_read_def mcuio_packet_is_write_def width_index_def
      map_option_case split: option.splits)

lemma less_4_cases: "(i :: nat) < 4 \<Longrightarrow> i = 0 \<or> i = 1 \<or> i = 2 \<or> i = 3"
  by linarith

lemma exec_read:
  assumes "mcuio_packet_is_read p" "r_ops r = Some ops" "default_ops ops" "width_index p < 4"
    and "\<not> mcuio_packet_is_fill_data p"
  shows "\<exists>s'. exec_request f r p s = Some (2 ^ width_index p, s') \<and> mem_of s' = mem_of s
    \<and> get_packet (ToHost (f_runtime f)) s' = (mcuio_packet_set_reply p)\<lparr>mp_data :=
        copy_at (mp_data p) 0 (load_bytes (r_rd_target (r_desc r) + reg_offset p (r_desc r)) (2 ^ width_index p) (mem_of s))\<rparr>"
  using assms(3,5) less_4_cases [OF assms(4)]
  unfolding exec_request_def select_read [OF assms(1,2)] default_ops_def
  by (auto simp: default_mcuio_range_ops_def default_mcuio_range_ro_ops_def op_at_def Let_def mcuio_rdb_def mcuio_rdw_def
      mcuio_rddw_def mcuio_rdq_def reg_offset_def mcuio_packet_set_reply_def)

lemma exec_write:
  assumes "mcuio_packet_is_write p" "r_ops r = Some default_mcuio_range_ops" "width_index p < 4"
    and "\<not> mcuio_packet_is_fill_data p"
  shows "exec_request f r p s = Some (2 ^ width_index p,
    mem_store (r_wr_target (r_desc r) + reg_offset p (r_desc r)) (take (2 ^ width_index p) (mp_data p))
      (put_packet (ToHost (f_runtime f)) (mcuio_packet_set_reply p) s))"
  using assms(4) less_4_cases [OF assms(3)]
  unfolding exec_request_def select_write [OF assms(1,2)]
  by (auto simp: default_mcuio_range_ops_def op_at_def Let_def mcuio_wrb_def mcuio_wrw_def
      mcuio_wrdw_def mcuio_wrq_def reg_offset_def)

lemma exec_wrb_fill:
  assumes "mcuio_packet_is_write p" "r_ops r = Some default_mcuio_range_ops" "width_index p = 0"
    and "mcuio_packet_is_fill_data p"
  shows "exec_request f r p s = Some (8,
    mem_store (r_wr_target (r_desc r) + reg_offset p (r_desc r)) (take 8 (mp_data p))
      (put_packet (ToHost (f_runtime f)) (mcuio_packet_set_reply p) s))"
  using assms(3,4)
  unfolding exec_request_def select_write [OF assms(1,2)]
  by (auto simp: default_mcuio_range_ops_def op_at_def Let_def mcuio_wrb_def reg_offset_def)

section \<open>Reassembly\<close>

definition received :: "('e, 'h) msys \<Rightarrow> u8 list" where
  "received s = take (md_curr_len (mcuio_state s)) (md_input_packet (mcuio_state s))"

definition stale :: "u32 \<Rightarrow> (nat \<Rightarrow> u32) \<Rightarrow> ('e, 'h) msys \<Rightarrow> bool" where
  "stale hz jif s \<longleftrightarrow> dr_initialized (mcuio_state s) \<and> md_curr_len (mcuio_state s) \<noteq> 0
     \<and> time_after (jif 0) (dr_last (mcuio_state s) + hz div 20)"

text \<open>The bytes of the current packet that the next read continues.\<close>

definition kept :: "u32 \<Rightarrow> (nat \<Rightarrow> u32) \<Rightarrow> ('e, 'h) msys \<Rightarrow> u8 list" where
  "kept hz jif s = (if stale hz jif s then [] else received s)"

lemma drop_stale_len [simp]:
  "md_curr_len (drop_stale hz jif (mcuio_state s)) = (if stale hz jif s then 0 else md_curr_len (mcuio_state s))"
  "md_input_packet (drop_stale hz jif w) = md_input_packet w"
  "md_input_pipe (drop_stale hz jif w) = md_input_pipe w"
  by (auto simp: drop_stale_def stale_def Let_def)

lemma take_copy_at: "k \<le> length b \<Longrightarrow> take (k + length bs) (copy_at b k bs) = take k b @ bs"
  by (simp add: copy_at_def)

section \<open>Examples\<close>

definition ex_world :: "unit mcuio_world" where
  "ex_world = \<lparr>md_input_pipe = Some 0, md_output_pipe = Some 0, md_input_packet = replicate 16 7, md_curr_len = 3,
     dr_initialized = False, dr_last = 0, mw_to_host = (\<lambda>_. bytes_packet (replicate 16 0)), mw_mem = (\<lambda>a. 0), mw_hw = ()\<rparr>"

definition ex_msys :: "(nat, unit) msys" where
  "ex_msys = \<lparr>pe_head = 0, pe_tail = 0, pe_buffer_nevts = 4,
     pe_buffer = replicate 4 \<lparr>pe_event = 0, pe_data = None\<rparr>, ie_pending_flags = [],
     ev_world = \<lparr>pw_pipes = (\<lambda>a. Some \<lparr>p_n = [], p_mode = 3, p_data = 0, input_ready_event = 1,
                     output_ready_event = 2, p_dev = Some 0, p_dev_data = None\<rparr>),
       pw_devs = [], pw_data = (\<lambda>_. None), pw_alloc = alloc_boot default_cfg, bathos_errno = 0, pw_ll = ex_world\<rparr>\<rparr>"

definition ex_write :: mcuio_base_packet where
  "ex_write = \<lparr>mp_offset = 20, mp_func = 0, mp_dev = 1, mp_bus = 0, mp_type = 3,
     mp_data = [1, 2, 3, 4, 5, 6, 7, 8], mp_crc = 0, mp_dummy = 0\<rparr>"

definition ex_read :: mcuio_base_packet where
  "ex_read = ex_write\<lparr>mp_type := 2, mp_data := replicate 8 0\<rparr>"

definition ex_rw_range :: "(nat, unit) msys mcuio_range" where
  "ex_rw_range = zero_ranges 100 200 300 ! 2"

lemma ex_packets:
  "mcuio_packet_is_write ex_write" "\<not> mcuio_packet_is_fill_data ex_write" "width_index ex_write = 1"
  "mcuio_packet_is_read ex_read" "\<not> mcuio_packet_is_fill_data ex_read" "width_index ex_read = 1"
  "reg_offset ex_write \<lparr>r_start = 16, r_length = 8, r_rd_target = 300, r_wr_target = 300, r_priv = 0\<rparr> = 4"
  by code_simp+

lemma ex_rw_range_simps:
  "r_ops ex_rw_range = Some default_mcuio_range_ops"
  "r_desc ex_rw_range = \<lparr>r_start = 16, r_length = 8, r_rd_target = 300, r_wr_target = 300, r_priv = 0\<rparr>"
  by (simp_all add: ex_rw_range_def zero_ranges_def)

section \<open>Properties\<close>

text \<open>
  C11. Reading a register gives back what was written to it: after a write request to a default
  read-write range, a read request of the same width at the same offset succeeds, and the reply is
  the request with the reply bit set and the written bytes as its data.
\<close>

theorem register_roundtrip:
  assumes "r_ops r = Some default_mcuio_range_ops" "r_rd_target (r_desc r) = r_wr_target (r_desc r)"
    and "mcuio_packet_is_write wp" "mcuio_packet_is_read rp" "mp_offset rp = mp_offset wp"
    and "width_index wp < 4" "width_index rp = width_index wp" "length (mp_data wp) = 8"
    and "\<not> mcuio_packet_is_fill_data wp" "\<not> mcuio_packet_is_fill_data rp"
  shows "\<exists>s1 s2. exec_request f r wp s = Some (2 ^ width_index wp, s1)
    \<and> exec_request f r rp s1 = Some (2 ^ width_index wp, s2)
    \<and> get_packet (ToHost (f_runtime f)) s2 = (mcuio_packet_set_reply rp)
        \<lparr>mp_data := copy_at (mp_data rp) 0 (take (2 ^ width_index wp) (mp_data wp))\<rparr>"
proof -
  let ?n = "2 ^ width_index wp :: nat"
  have n: "?n \<le> 8" using less_4_cases [OF assms(6)] by auto
  have off: "reg_offset rp (r_desc r) = reg_offset wp (r_desc r)" using assms(5) by (simp add: reg_offset_def)
  obtain s1 where s1: "exec_request f r wp s = Some (2 ^ width_index wp, s1)"
    and m: "mem_of s1 = store_bytes (r_wr_target (r_desc r) + reg_offset wp (r_desc r)) (take ?n (mp_data wp)) (mem_of s)"
    using exec_write [OF assms(3,1,6,9), of f s] by simp
  have "load_bytes (r_wr_target (r_desc r) + reg_offset wp (r_desc r)) ?n (mem_of s1) = take ?n (mp_data wp)"
    unfolding m using load_store_bytes [of _ "take ?n (mp_data wp)"] n assms(8) by simp
  moreover have "default_ops default_mcuio_range_ops" by (simp add: default_ops_def)
  ultimately show ?thesis
    using exec_read [OF assms(4,1) _ _ assms(10), of f s1] s1 assms(2,6,7) off by auto
qed

theorem register_roundtrip_witness:
  "\<exists>s1 s2. exec_request (zero 0 100 200 300) ex_rw_range ex_write ex_msys = Some (2, s1)
    \<and> exec_request (zero 0 100 200 300) ex_rw_range ex_read s1 = Some (2, s2)
    \<and> mp_data (get_packet (ToHost 0) s2) = [1, 2, 0, 0, 0, 0, 0, 0]"
proof -
  have d: "mp_offset ex_read = mp_offset ex_write" "mp_data ex_write = [1, 2, 3, 4, 5, 6, 7, 8]" "mp_data ex_read = replicate 8 0"
    by (simp_all add: ex_read_def ex_write_def)
  have "copy_at (replicate 8 0) 0 [1, 2] = [1, 2, 0, 0, 0, 0, 0, 0 :: u8]" by code_simp
  then show ?thesis
    using register_roundtrip [of ex_rw_range ex_write ex_read "zero 0 100 200 300" ex_msys]
    by (auto simp: ex_packets ex_rw_range_simps d zero_def)
qed

text \<open>A request that is wider than the tables of operations has no operation.\<close>

lemma wide_request_None:
  assumes "r_ops r = Some ops" "length (rng_rd ops) = 4" "length (rng_wr ops) = 4" "4 \<le> width_index p"
  shows "exec_request f r p s = None"
proof -
  have "select_ops r p = None"
    using select_read [OF _ assms(1), of p] select_write [OF _ assms(1), of p] assms(2-)
    by (cases "mcuio_packet_is_read p")
      (simp_all add: op_at_def mcuio_packet_is_write_def mcuio_packet_is_read_def)
  then show ?thesis by (simp add: exec_request_def)
qed

definition ex_wide_range :: "(nat, unit) msys mcuio_range" where
  "ex_wide_range = \<lparr>r_desc = \<lparr>r_start = 0, r_length = 512, r_rd_target = 0, r_wr_target = 0, r_priv = 0\<rparr>,
     r_ops = Some default_mcuio_range_ops\<rparr>"

definition ex_wide_write :: mcuio_base_packet where
  "ex_wide_write = ex_write\<lparr>mp_type := 9, mp_offset := 0\<rparr>"

text \<open>
  C3. Write requests without the fill flag, in a range with the default operations. A request for 1, 2, 4 or 8 bytes that the range search accepts for the range
  is carried out and changes the memory only inside the range; a wider one, which the search accepts when the range is long enough, indexes past the
  table of operations.
\<close>

theorem write_stays_in_range:
  assumes "lookup_range p (f_ranges f) = Some r" "r_ops r = Some default_mcuio_range_ops"
    and "mcuio_packet_is_write p" "\<not> mcuio_packet_is_fill_data p"
  shows "if width_index p < 4
    then \<exists>n s'. exec_request f r p s = Some (n, s') \<and> 0 < n
      \<and> (\<forall>x. x < r_wr_target (r_desc r) \<or> r_wr_target (r_desc r) + unat (r_length (r_desc r)) \<le> x
            \<longrightarrow> mem_of s' x = mem_of s x)
    else exec_request f r p s = None"
proof (cases "width_index p < 4")
  case True
  let ?a = "r_wr_target (r_desc r) + reg_offset p (r_desc r)"
  have "range_hit p (r_desc r)" using lookup_range_hit [OF assms(1)] by simp
  then have "reg_offset p (r_desc r) + 2 ^ width_index p \<le> unat (r_length (r_desc r))" by (rule range_hit_bounds)
  then have "length (take (2 ^ width_index p) (mp_data p)) + reg_offset p (r_desc r) \<le> unat (r_length (r_desc r))"
    by simp
  then have "x < r_wr_target (r_desc r) \<or> r_wr_target (r_desc r) + unat (r_length (r_desc r)) \<le> x \<Longrightarrow>
    store_bytes ?a (take (2 ^ width_index p) (mp_data p)) (mem_of s) x = mem_of s x" for x
    by (intro store_bytes_outside) auto
  then show ?thesis using True exec_write [OF assms(3,2) True assms(4), of f s] by simp
next
  case False
  have "length (rng_rd default_mcuio_range_ops) = 4" "length (rng_wr default_mcuio_range_ops) = 4"
    by (simp_all add: default_mcuio_range_ops_def)
  with wide_request_None [OF assms(2), of p f s] False show ?thesis by simp
qed

theorem write_stays_in_range_witness:
  "(\<exists>n s'. exec_request (zero 0 100 200 300) ex_rw_range ex_write ex_msys = Some (n, s') \<and> mem_of s' 308 = 0)
    \<and> exec_request \<lparr>f_ranges = [ex_wide_range], f_ops = None, f_runtime = 0\<rparr> ex_wide_range ex_wide_write ex_msys = None"
proof
  have "lookup_range ex_write (f_ranges (zero 0 100 200 300)) = Some ex_rw_range"
    by (simp add: zero_def zero_ranges_def ex_rw_range_def range_hit_def mcuio_packet_data_len_def ex_write_def Let_def sint_small)
  then have "\<exists>n s'. exec_request (zero 0 100 200 300) ex_rw_range ex_write ex_msys = Some (n, s') \<and> 0 < n
    \<and> (\<forall>x. x < 300 \<or> 308 \<le> x \<longrightarrow> mem_of s' x = mem_of ex_msys x)"
    using write_stays_in_range [of ex_write "zero 0 100 200 300" ex_rw_range ex_msys]
    by (simp add: ex_packets ex_rw_range_simps)
  moreover have "mem_of ex_msys 308 = 0" by (simp add: mem_of_def mcuio_state_def ex_msys_def ex_world_def)
  ultimately show "\<exists>n s'. exec_request (zero 0 100 200 300) ex_rw_range ex_write ex_msys = Some (n, s') \<and> mem_of s' 308 = 0"
    by (metis order_refl)
  have "lookup_range ex_wide_write [ex_wide_range] = Some ex_wide_range"
    by (simp add: ex_wide_range_def range_hit_def mcuio_packet_data_len_def ex_wide_write_def ex_write_def Let_def sint_small drop_bit_eq_div)
  moreover have "width_index ex_wide_write = 4" "mcuio_packet_is_write ex_wide_write" "\<not> mcuio_packet_is_fill_data ex_wide_write" by code_simp+
  ultimately show "exec_request \<lparr>f_ranges = [ex_wide_range], f_ops = None, f_runtime = 0\<rparr> ex_wide_range ex_wide_write ex_msys = None"
    using write_stays_in_range [of ex_wide_write "\<lparr>f_ranges = [ex_wide_range], f_ops = None, f_runtime = 0\<rparr>" ex_wide_range ex_msys]
    by (simp add: ex_wide_range_def)
qed

text \<open>
  With the fill flag the same request escapes the range: a one-byte write is checked for one
  byte but stores eight, so the bytes of the packet land in the memory behind the range.
\<close>

theorem fill_write_escapes_range:
  assumes "lookup_range p (f_ranges f) = Some r" "r_ops r = Some default_mcuio_range_ops"
    and "mcuio_packet_is_write p" "mcuio_packet_is_fill_data p" "width_index p = 0" "length (mp_data p) = 8"
    and "unat (r_length (r_desc r)) < reg_offset p (r_desc r) + 8"
  shows "\<exists>s'. exec_request f r p s = Some (8, s')
    \<and> mem_of s' (r_wr_target (r_desc r) + unat (r_length (r_desc r)))
      = mp_data p ! (unat (r_length (r_desc r)) - reg_offset p (r_desc r))"
proof -
  have "reg_offset p (r_desc r) + 2 ^ width_index p \<le> unat (r_length (r_desc r))"
    using lookup_range_hit [OF assms(1)] range_hit_bounds by blast
  then have "store_bytes (r_wr_target (r_desc r) + reg_offset p (r_desc r)) (take 8 (mp_data p)) (mem_of s)
      (r_wr_target (r_desc r) + unat (r_length (r_desc r)))
    = mp_data p ! (unat (r_length (r_desc r)) - reg_offset p (r_desc r))"
    using assms(5-7) by (subst store_bytes_inside) simp_all
  then show ?thesis using exec_wrb_fill [OF assms(3,2,5,4), of f s] by simp
qed

definition ex_fill :: mcuio_base_packet where
  "ex_fill = ex_write\<lparr>mp_type := 129, mp_offset := 23\<rparr>"

theorem fill_write_escapes_range_witness:
  "\<exists>s'. exec_request (zero 0 100 200 300) ex_rw_range ex_fill ex_msys = Some (8, s') \<and> mem_of s' 308 = 2"
proof -
  have "lookup_range ex_fill (f_ranges (zero 0 100 200 300)) = Some ex_rw_range"
    by (simp add: zero_def zero_ranges_def ex_rw_range_def range_hit_def mcuio_packet_data_len_def ex_fill_def ex_write_def Let_def sint_small)
  moreover have "mcuio_packet_is_write ex_fill" "mcuio_packet_is_fill_data ex_fill" "width_index ex_fill = 0"
    "reg_offset ex_fill \<lparr>r_start = 16, r_length = 8, r_rd_target = 300, r_wr_target = 300, r_priv = 0\<rparr> = 7"
    by code_simp+
  moreover have "mp_data ex_fill = [1, 2, 3, 4, 5, 6, 7, 8]" by (simp add: ex_fill_def ex_write_def)
  ultimately show ?thesis
    using fill_write_escapes_range [of ex_fill "zero 0 100 200 300" ex_rw_range ex_msys]
    by (simp add: ex_rw_range_simps)
qed

text \<open>
  The width of a request is not checked against the four widths the tables have: a request for
  16 bytes or more that fits its range indexes past the end of the table of operations.
\<close>

theorem wide_request_leaves_table:
  assumes "lookup_range p (f_ranges f) = Some r" "r_ops r = Some ops"
    and "length (rng_rd ops) = 4" "length (rng_wr ops) = 4" "4 \<le> width_index p"
  shows "exec_request f r p s = None \<and> 16 \<le> unat (r_length (r_desc r))"
proof -
  have "reg_offset p (r_desc r) + 2 ^ width_index p \<le> unat (r_length (r_desc r))"
    using lookup_range_hit [OF assms(1)] range_hit_bounds by blast
  moreover have "(2 :: nat) ^ 4 \<le> 2 ^ width_index p" using assms(5) by (intro power_increasing) simp_all
  ultimately have "16 \<le> unat (r_length (r_desc r))" by simp
  moreover have "exec_request f r p s = None" using assms(2-) by (rule wide_request_None)
  ultimately show ?thesis by simp
qed

definition ex_wide :: mcuio_base_packet where
  "ex_wide = ex_write\<lparr>mp_type := 8, mp_offset := 0\<rparr>"

theorem wide_request_leaves_table_witness:
  "exec_request \<lparr>f_ranges = [ex_wide_range], f_ops = None, f_runtime = 0\<rparr> ex_wide_range ex_wide ex_msys = None"
proof -
  have "lookup_range ex_wide [ex_wide_range] = Some ex_wide_range"
    by (simp add: ex_wide_range_def range_hit_def mcuio_packet_data_len_def ex_wide_def ex_write_def Let_def sint_small drop_bit_eq_div)
  moreover have "width_index ex_wide = 4" by code_simp
  ultimately show ?thesis
    using wide_request_leaves_table [of ex_wide "\<lparr>f_ranges = [ex_wide_range], f_ops = None, f_runtime = 0\<rparr>" ex_wide_range default_mcuio_range_ops ex_msys]
    by (simp add: ex_wide_range_def default_mcuio_range_ops_def)
qed

text \<open>
  C7. Packets are reassembled from the pipe: with a read that returns some bytes, at most those
  asked for, the handler appends them to the bytes received so far (none of them when they are
  stale); it waits as long as they are fewer than 16, and otherwise serves the packet they encode
  and starts afresh.
\<close>

theorem data_ready_reassembles:
  assumes "md_input_pipe (mcuio_state s) = Some a" "length (md_input_packet (mcuio_state s)) = PACKET_SIZE"
    and "md_curr_len (mcuio_state s) < PACKET_SIZE"
    and "pipe_read (me_dev_ops env) a (PACKET_SIZE - length (kept (me_hz env) jif s))
          (mcuio_update (drop_stale (me_hz env) jif) s) = (int (length buf), buf, s1)"
    and "mcuio_state s1 = drop_stale (me_hz env) jif (mcuio_state s)"
    and "buf \<noteq> []" "length (kept (me_hz env) jif s @ buf) \<le> PACKET_SIZE"
  shows "if length (kept (me_hz env) jif s @ buf) < PACKET_SIZE
    then \<exists>s'. data_ready_handle env jif s = Some s' \<and> received s' = kept (me_hz env) jif s @ buf
      \<and> length (md_input_packet (mcuio_state s')) = PACKET_SIZE
    else \<exists>s'. data_ready_handle env jif s = serve_packet env s'
      \<and> get_packet InputPacket s' = bytes_packet (kept (me_hz env) jif s @ buf) \<and> received s' = []"
proof -
  let ?len = "md_curr_len (drop_stale (me_hz env) jif (mcuio_state s))"
  let ?b = "md_input_packet (mcuio_state s)"
  let ?old = "kept (me_hz env) jif s"
  have len: "length ?old = ?len" and old: "?old = take ?len ?b"
    using assms(2,3) by (simp_all add: kept_def received_def)
  have l: "length (copy_at ?b ?len buf) = PACKET_SIZE"
    using assms(2,7) len by (subst length_copy_at) simp_all
  have t: "take (?len + length buf) (copy_at ?b ?len buf) = ?old @ buf"
    using take_copy_at [of ?len ?b buf] old assms(2,3) by simp
  have full: "\<not> ?len + length buf < PACKET_SIZE \<Longrightarrow> copy_at ?b ?len buf = ?old @ buf" using t l by simp
  show ?thesis
    using assms(1,4-6) len l t full
    by (auto simp: data_ready_handle_def Let_def received_def get_packet.simps simp del: drop_stale_len(1))
qed

definition ex_env :: "(nat, unit) mcuio_env" where
  "ex_env = \<lparr>me_alloc = default_cfg, me_events = ex_pipe_events, me_find_dev = (\<lambda>_. None),
     me_dev_ops = (\<lambda>d. \<lparr>op_open = None, op_read = Some (\<lambda>a n s. (2, [1, 2], s)), op_write = None,
       op_close = None, op_ioctl = None\<rparr>), me_stdin = None, me_stdout = None, me_input_path = [], me_output_path = [],
     me_data = 0, me_functions = [], me_hz = 100, me_printf = (\<lambda>_ s. s)\<rparr>"

theorem data_ready_reassembles_witness:
  "\<exists>s'. data_ready_handle ex_env (\<lambda>_. 0) ex_msys = Some s' \<and> received s' = [7, 7, 7, 1, 2]"
proof -
  have st: "mcuio_state ex_msys = ex_world" by (simp add: mcuio_state_def ex_msys_def)
  have k: "kept 100 (\<lambda>_. 0) ex_msys = [7, 7, 7]"
    by (simp add: kept_def stale_def received_def st ex_world_def numeral_3_eq_3)
  have "pipe_read (me_dev_ops ex_env) 0 (PACKET_SIZE - length (kept 100 (\<lambda>_. 0) ex_msys))
      (mcuio_update (drop_stale 100 (\<lambda>_. 0)) ex_msys) =
    (2, [1, 2], set_errno 0 (mcuio_update (drop_stale 100 (\<lambda>_. 0)) ex_msys))"
    by (simp add: pipe_read_def ex_env_def get_pipe_def mcuio_update_def pw_update_def ex_msys_def BATHOS_MODE_INPUT_def errno_of_def)
  moreover have "mcuio_state (set_errno 0 (mcuio_update (drop_stale 100 (\<lambda>_. 0)) ex_msys)) = drop_stale 100 (\<lambda>_. 0) (mcuio_state ex_msys)"
    by (simp add: mcuio_state_def set_errno_def mcuio_update_def pw_update_def)
  moreover have "me_hz ex_env = 100" by (simp add: ex_env_def)
  ultimately show ?thesis
    using data_ready_reassembles [of ex_msys 0 ex_env "\<lambda>_. 0" "[1, 2]"] k
    by (auto simp: st ex_world_def PACKET_SIZE_def)
qed

end
