(* ===== verification/AtmegaGpio.thy ===== *)
theory AtmegaGpio
  imports EventProps
begin

text \<open>
  The general purpose pins of the ATmega32u4: \<^verbatim>\<open>arch-atmega/arch/gpio.h\<close>, \<^verbatim>\<open>arch-atmega/gpio.c\<close> and the
  generic wrappers of \<^verbatim>\<open>include/bathos/gpio.h\<close>. A port of eight pins has three consecutive special
  function registers: the input levels, the directions and the output levels. \<open>sfr\<close> is the content
  of the register file; the input registers belong to the outside world and are only read. Pin
  numbers are never negative here, so the divisions of the C code are those of the integers.
\<close>

section \<open>Pins\<close>

record gpio_hw =
  sfr :: "int \<Rightarrow> u8"
  gp_ports :: "u8 list"
  gp_rising :: "u8 list"
  gp_falling :: "u8 list"
  gp_enable :: "u8 list"
  gp_initialized :: u8
  gp_events :: bitmap

definition PORTS_BASE :: int where
  "PORTS_BASE = 3"

definition GPIO_PORT_WIDTH :: int where
  "GPIO_PORT_WIDTH = 8"

definition GPIO_NR :: "int \<Rightarrow> int \<Rightarrow> int" where
  "GPIO_NR port b = port * GPIO_PORT_WIDTH + b"

definition GPIO_PORT :: "int \<Rightarrow> int" where
  "GPIO_PORT nr = nr div GPIO_PORT_WIDTH"

definition GPIO_BIT :: "int \<Rightarrow> nat" where
  "GPIO_BIT nr = nat (nr mod GPIO_PORT_WIDTH)"

definition sfr_or :: "int \<Rightarrow> u8 \<Rightarrow> gpio_hw \<Rightarrow> gpio_hw" where
  "sfr_or a m h = h\<lparr>sfr := (sfr h)(a := sfr h a OR m)\<rparr>"

definition sfr_clear :: "int \<Rightarrow> u8 \<Rightarrow> gpio_hw \<Rightarrow> gpio_hw" where
  "sfr_clear a m h = h\<lparr>sfr := (sfr h)(a := sfr h a AND NOT m)\<rparr>"

definition gpio_set :: "int \<Rightarrow> bool \<Rightarrow> gpio_hw \<Rightarrow> gpio_hw" where
  "gpio_set gpio value h =
     (let addr = PORTS_BASE + GPIO_PORT gpio * 3 + 2; mask = push_bit (GPIO_BIT gpio) 1
      in if value then sfr_or addr mask h else sfr_clear addr mask h)"

definition gpio_set_raw :: "int \<Rightarrow> u32 \<Rightarrow> gpio_hw \<Rightarrow> gpio_hw" where
  "gpio_set_raw gpio value h =
     (let addr = PORTS_BASE + GPIO_PORT gpio * 3 + 2
      in if value \<noteq> 0 then sfr_or addr (ucast value) h
         else sfr_clear addr (push_bit (GPIO_BIT gpio) 1) h)"

definition gpio_set_port8 :: "int \<Rightarrow> u8 \<Rightarrow> gpio_hw \<Rightarrow> int \<times> gpio_hw" where
  "gpio_set_port8 gpio value h =
     (if gpio mod GPIO_PORT_WIDTH \<noteq> 0 then (- EINVAL, h)
      else (0, h\<lparr>sfr := (sfr h)(PORTS_BASE + GPIO_PORT gpio * 3 + 2 := value)\<rparr>))"

definition gpio_dir :: "int \<Rightarrow> bool \<Rightarrow> bool \<Rightarrow> gpio_hw \<Rightarrow> gpio_hw" where
  "gpio_dir gpio output value h =
     (let data_addr = PORTS_BASE + GPIO_PORT gpio * 3 + 2;
          dir_addr = PORTS_BASE + GPIO_PORT gpio * 3 + 1;
          mask = push_bit (GPIO_BIT gpio) 1;
          h = (if value then sfr_or data_addr mask h else sfr_clear data_addr mask h)
      in if output then sfr_or dir_addr mask h
         else sfr_clear dir_addr mask (sfr_or data_addr mask h))"

definition gpio_get :: "int \<Rightarrow> gpio_hw \<Rightarrow> bool" where
  "gpio_get gpio h \<longleftrightarrow> sfr h (PORTS_BASE + GPIO_PORT gpio * 3) AND push_bit (GPIO_BIT gpio) 1 \<noteq> 0"

definition gpio_get_raw :: "int \<Rightarrow> gpio_hw \<Rightarrow> u32" where
  "gpio_get_raw gpio h = ucast (sfr h (PORTS_BASE + GPIO_PORT gpio * 3) AND push_bit (GPIO_BIT gpio) 1)"

definition gpio_get_port8 :: "int \<Rightarrow> gpio_hw \<Rightarrow> u8" where
  "gpio_get_port8 gpio h =
     (if gpio mod GPIO_PORT_WIDTH \<noteq> 0 then word_of_int (- EINVAL)
      else sfr h (PORTS_BASE + GPIO_PORT gpio * 3))"

definition gpio_dir_af :: "int \<Rightarrow> bool \<Rightarrow> bool \<Rightarrow> int \<Rightarrow> gpio_hw \<Rightarrow> int \<times> gpio_hw" where
  "gpio_dir_af gpio output value afnum h =
     (let addr = PORTS_BASE + GPIO_PORT gpio * 3 + 1; mask = push_bit (GPIO_BIT gpio) 1
      in if afnum \<noteq> 0 then (- EINVAL, h)
         else
           let h = gpio_set gpio value h
           in (0, if output then sfr_or addr mask h else sfr_clear addr mask h))"

text \<open>Direction and level of a pin, with alternate function 0.\<close>

definition gpio_get_dir_af :: "int \<Rightarrow> gpio_hw \<Rightarrow> bool \<times> bool \<times> int" where
  "gpio_get_dir_af gpio h =
     (sfr h (PORTS_BASE + GPIO_PORT gpio * 3 + 1) AND push_bit (GPIO_BIT gpio) 1 \<noteq> 0, gpio_get gpio h, 0)"

section \<open>Generic wrappers\<close>

definition gpio_set_port16 :: "int \<Rightarrow> u16 \<Rightarrow> gpio_hw \<Rightarrow> int \<times> gpio_hw" where
  "gpio_set_port16 gpio value h = (- ENOSYS, h)"

definition gpio_get_port16 :: "int \<Rightarrow> gpio_hw \<Rightarrow> int" where
  "gpio_get_port16 gpio h = - ENOSYS"

definition gpio_set_port32 :: "int \<Rightarrow> u32 \<Rightarrow> gpio_hw \<Rightarrow> int \<times> gpio_hw" where
  "gpio_set_port32 gpio value h = (- ENOSYS, h)"

definition gpio_get_port32 :: "int \<Rightarrow> gpio_hw \<Rightarrow> int" where
  "gpio_get_port32 gpio h = - ENOSYS"

definition gpio_to_af :: "int \<Rightarrow> int" where
  "gpio_to_af gpio = 0"

section \<open>Edge detection\<close>

definition GPIO_EVT_RISING :: int where "GPIO_EVT_RISING = 1"
definition GPIO_EVT_FALLING :: int where "GPIO_EVT_FALLING = 2"
definition GPIO_EVT_HIGH :: int where "GPIO_EVT_HIGH = 4"
definition GPIO_EVT_LOW :: int where "GPIO_EVT_LOW = 8"
definition GPIO_EVT_ENABLE :: int where "GPIO_EVT_ENABLE = 128"

definition upd_mask :: "bool \<Rightarrow> nat \<Rightarrow> u8 \<Rightarrow> u8 list \<Rightarrow> u8 list" where
  "upd_mask on port m xs = (if on then xs[port := xs ! port OR m] else xs)"

definition gpio_request_events :: "int \<Rightarrow> int \<Rightarrow> gpio_hw \<Rightarrow> int \<times> gpio_hw" where
  "gpio_request_events gpio flags h =
     (if gpio < 0 \<or> gpio > 39 then (- EINVAL, h)
      else
        let mask = push_bit (GPIO_BIT gpio) 1; port = nat (GPIO_PORT gpio);
            off = (\<lambda>xs. xs[port := xs ! port AND NOT mask]);
            rising = upd_mask (flags AND GPIO_EVT_RISING \<noteq> 0) port mask (off (gp_rising h));
            falling = upd_mask (flags AND GPIO_EVT_FALLING \<noteq> 0) port mask (off (gp_falling h));
            enable = upd_mask (flags AND GPIO_EVT_ENABLE \<noteq> 0) port mask (off (gp_enable h));
            level = ((flags AND GPIO_EVT_LOW) OR (flags AND GPIO_EVT_HIGH)) \<noteq> 0
        in (0, h\<lparr>gp_rising := upd_mask level port mask rising,
                  gp_falling := upd_mask level port mask falling,
                  gp_enable := enable\<rparr>))"

text \<open>
  \<^verbatim>\<open>gpio_sample\<close> runs on every timer tick: one pin, then one port, then all five ports. The flag says
  whether an event is to be triggered.
\<close>

definition sample_pin :: "nat \<Rightarrow> u8 \<Rightarrow> nat \<Rightarrow> bool \<times> gpio_hw \<Rightarrow> bool \<times> gpio_hw" where
  "sample_pin i d j th =
     (let (do_trigger, h) = th; m = push_bit j 1
      in if gp_enable h ! i AND m = 0 \<or> d AND m = 0 then (do_trigger, h)
         else
           let rise = (gp_rising h ! i AND m \<noteq> 0 \<and> gp_ports h ! i AND m = 0);
               fall = (gp_falling h ! i AND m \<noteq> 0 \<and> gp_ports h ! i AND m \<noteq> 0)
           in if rise \<or> fall then (True, h\<lparr>gp_events := set_bit_c (i * 8 + j) (gp_events h)\<rparr>)
              else (do_trigger, h))"

definition sample_port :: "nat \<Rightarrow> bool \<times> gpio_hw \<Rightarrow> bool \<times> gpio_hw" where
  "sample_port i th =
     (let (do_trigger, h) = th;
          s = sfr h (PORTS_BASE + int i * 3);
          (do_trigger, h) =
            (if gp_initialized h AND push_bit i 1 = 0
             then (do_trigger, h\<lparr>gp_initialized := gp_initialized h OR push_bit i 1\<rparr>)
             else fold (sample_pin i (s XOR gp_ports h ! i)) [0..<8] (do_trigger, h))
      in (do_trigger, h\<lparr>gp_ports := (gp_ports h)[i := s]\<rparr>))"

definition gpio_sample :: "'e \<Rightarrow> 'd \<Rightarrow> ('e, 'd, gpio_hw) evsys \<Rightarrow> ('e, 'd, gpio_hw) evsys" where
  "gpio_sample gpio_evt gpio_evdata s =
     (let (do_trigger, h) = fold sample_port [0..<5] (False, ev_world s);
          s = s\<lparr>ev_world := h\<rparr>
      in if do_trigger then snd (trigger_event gpio_evt (Some gpio_evdata) s) else s)"

end
