(* ===== verification/McuioGpio.thy ===== *)
theory McuioGpio
  imports AtmegaGpio Mcuio
begin

text \<open>
  The MCUIO function for pins, \<^verbatim>\<open>mcuio/mcuio_gpio_func.c\<close>, on the ATmega32u4. The events it triggers
  carry pointers to static structures, so the state holds those structures and an event carries the
  name of one. The fill flag reaches these operations as an integer, 0 or 128, because one of them
  passes it on as a width. \<open>None\<close> stands for a call that does not return, a dereferenced null pointer
  or an access outside an array.
\<close>

section \<open>State\<close>

record mcuio_function_irq_data =
  id_func :: nat
  id_active :: bool

datatype gpio_ptr = StatusIdata | EvtIdata | GpioEvdata

record mcuio_gpio_port_status =
  gpio_events_status :: "u32 list"
  gpio_events_falling :: bitmap
  gpio_events_rising :: bitmap
  gpio_events_enable :: bitmap
  gpio_events_high :: bitmap
  gpio_events_low :: bitmap

record mcuio_gpio_port_data =
  gpio_start :: int
  gpio_end :: int
  gpio_function :: nat

record gpio_world =
  gw_hw :: gpio_hw
  gw_status :: mcuio_gpio_port_status
  gw_status_idata :: mcuio_function_irq_data
  gw_evt_idata :: mcuio_function_irq_data

type_synonym 'e gsys = "('e, gpio_ptr, gpio_world) evsys"

definition on_hw :: "(gpio_hw \<Rightarrow> 'r \<times> gpio_hw) \<Rightarrow> 'e gsys \<Rightarrow> 'r \<times> 'e gsys" where
  "on_hw f s = (let (r, h) = f (gw_hw (ev_world s)) in (r, s\<lparr>ev_world := (ev_world s)\<lparr>gw_hw := h\<rparr>\<rparr>))"

definition upd_hw :: "(gpio_hw \<Rightarrow> gpio_hw) \<Rightarrow> 'e gsys \<Rightarrow> 'e gsys" where
  "upd_hw f s = s\<lparr>ev_world := (ev_world s)\<lparr>gw_hw := f (gw_hw (ev_world s))\<rparr>\<rparr>"

definition upd_status :: "(mcuio_gpio_port_status \<Rightarrow> mcuio_gpio_port_status) \<Rightarrow> 'e gsys \<Rightarrow> 'e gsys" where
  "upd_status f s = s\<lparr>ev_world := (ev_world s)\<lparr>gw_status := f (gw_status (ev_world s))\<rparr>\<rparr>"

abbreviation the_status :: "'e gsys \<Rightarrow> mcuio_gpio_port_status" where
  "the_status s \<equiv> gw_status (ev_world s)"

section \<open>Port data\<close>

text \<open>
  Setting a group of pins at once: \<open>inp\<close> is the data from the current position on. The width selects
  the access; a width that is not 8, 16 or 32 is refused.
\<close>

definition gpio_set_portw :: "int \<Rightarrow> u8 list \<Rightarrow> int \<Rightarrow> gpio_hw \<Rightarrow> int \<times> gpio_hw" where
  "gpio_set_portw gpio inp w h =
     (if w = 8 then gpio_set_port8 gpio (inp ! 0) h
      else if w = 16 then gpio_set_port16 gpio (get16 inp) h
      else if w = 32 then gpio_set_port32 gpio (get32 inp) h
      else (- ENOSYS, h))"

text \<open>The cases of \<^verbatim>\<open>__gpio_get_portw\<close> fall through, so the widest stores happen for every width.\<close>

definition gpio_get_portw :: "int \<Rightarrow> u8 list \<Rightarrow> nat \<Rightarrow> int \<Rightarrow> gpio_hw \<Rightarrow> int \<times> u8 list" where
  "gpio_get_portw gpio out k w h =
     (let out = (if w = 8 then out[k := gpio_get_port8 gpio h] else out);
          out = (if w = 8 \<or> w = 16 then copy_at out k (le16 (word_of_int (gpio_get_port16 gpio h))) else out);
          out = (if w = 8 \<or> w = 16 \<or> w = 32 then copy_at out k (le32 (word_of_int (gpio_get_port32 gpio h))) else out)
      in (- ENOSYS, out))"

text \<open>The element of width \<open>w\<close> that holds the bits from \<open>i\<close> on.\<close>

definition elem_at :: "u8 list \<Rightarrow> int \<Rightarrow> int \<Rightarrow> u32 option" where
  "elem_at inp i w =
     (if w = 8 then Some (ucast (inp ! nat (i div 8)))
      else if w = 16 then Some (ucast (get16 (drop (2 * nat (i div 16)) inp)))
      else if w = 32 then Some (get32 (drop (4 * nat (i div 32)) inp))
      else None)"

text \<open>One pin at a time, \<open>k\<close> pins still to go; the switch on the width is inside the loop.\<close>

fun set_pins :: "u8 list \<Rightarrow> int \<Rightarrow> int \<Rightarrow> int \<Rightarrow> nat \<Rightarrow> nat \<Rightarrow> 'e gsys \<Rightarrow> int \<times> 'e gsys" where
  "set_pins inp start i w j 0 s = (0, s)"
| "set_pins inp start i w j (Suc k) s =
     (case elem_at inp i w of
        None \<Rightarrow> (- EINVAL, s)
      | Some v \<Rightarrow> set_pins inp start i w (j + 1) k (upd_hw (gpio_set (i + int j + start) (bit v j)) s))"

partial_function (option) gpio_wr_loop ::
  "u8 list \<Rightarrow> int \<Rightarrow> int \<Rightarrow> int \<Rightarrow> int \<Rightarrow> 'e gsys \<Rightarrow> (int \<times> 'e gsys) option" where
  "gpio_wr_loop inp start n w i s =
     (if i < n then
        let (stat, s) = on_hw (gpio_set_portw (start + i) (drop (nat (i div 8)) inp) w) s
        in if stat < 0 then
             let (e, s) = set_pins inp start i w 0 (nat w) s
             in if e < 0 then Some (e, s) else gpio_wr_loop inp start n w (i + w) s
           else gpio_wr_loop inp start n w (i + w) s
      else Some (n, s))"

definition gpio_data_wr ::
  "mcuio_gpio_port_data option \<Rightarrow> u32 \<Rightarrow> u8 list \<Rightarrow> int \<Rightarrow> int \<Rightarrow> 'e gsys \<Rightarrow> (int \<times> 'e gsys) option" where
  "gpio_data_wr r offset inp fill w s =
     (case r of
        None \<Rightarrow> None
      | Some pd \<Rightarrow>
          let ngpio = gpio_end pd - gpio_start pd + 1;
              start = gpio_start pd + uint offset * 8;
              n = (if fill \<noteq> 0 then min ngpio 8 else w)
          in gpio_wr_loop inp start n w 0 s)"

text \<open>The level of the pins from \<open>first\<close> on, as a word.\<close>

definition get_pins :: "int \<Rightarrow> nat \<Rightarrow> gpio_hw \<Rightarrow> u32" where
  "get_pins first w h = fold (\<lambda>j p. p OR (if gpio_get (int j + first) h then push_bit j 1 else 0)) [0..<w] 0"

partial_function (option) gpio_rd_loop ::
  "int \<Rightarrow> int \<Rightarrow> int \<Rightarrow> int \<Rightarrow> u8 list \<Rightarrow> 'e gsys \<Rightarrow> (int \<times> u8 list) option" where
  "gpio_rd_loop start n w i out s =
     (if i < n then
        let h = gw_hw (ev_world s);
            (stat, out) = gpio_get_portw (start + i) out (nat (i div 8)) w h
        in if stat < 0 then
             let p = get_pins (i + start) (nat w) h
             in if w = 8 then gpio_rd_loop start n w (i + w) (out[nat (i div 8) := ucast p]) s
                else if w = 16 then gpio_rd_loop start n w (i + w) (copy_at out (2 * nat (i div 16)) (le16 (ucast p))) s
                else if w = 32 then gpio_rd_loop start n w (i + w) (copy_at out (4 * nat (i div 32)) (le32 p)) s
                else Some (- EINVAL, out)
           else gpio_rd_loop start n w (i + w) out s
      else Some (n, out))"

definition gpio_data_rd ::
  "mcuio_gpio_port_data option \<Rightarrow> u32 \<Rightarrow> u8 list \<Rightarrow> int \<Rightarrow> int \<Rightarrow> 'e gsys \<Rightarrow> (int \<times> u8 list \<times> 'e gsys) option" where
  "gpio_data_rd r offset out fill w s =
     (case r of
        None \<Rightarrow> None
      | Some pd \<Rightarrow>
          let ngpio = gpio_end pd - gpio_start pd + 1;
              start = gpio_start pd + uint offset * 8;
              n = (if fill \<noteq> 0 then min ngpio 8 else w)
          in map_option (\<lambda>(ret, out). (ret, out, s)) (gpio_rd_loop start n w 0 out s))"

text \<open>
  Setting and clearing: both or the data into what they read. The bytes of \<^verbatim>\<open>status\<close> that are not
  read keep their arbitrary content \<open>junk\<close>. The set operation hands the width on as the fill flag
  and the fill flag as the width.
\<close>

definition or_bytes :: "nat \<Rightarrow> u8 list \<Rightarrow> u8 list \<Rightarrow> u8 list" where
  "or_bytes n status inp = fold (\<lambda>i st. st[i := st ! i OR inp ! i]) [0..<n] status"

definition gpio_set_wr ::
  "u8 list \<Rightarrow> mcuio_gpio_port_data option \<Rightarrow> u32 \<Rightarrow> u8 list \<Rightarrow> int \<Rightarrow> int \<Rightarrow> 'e gsys \<Rightarrow> (int \<times> 'e gsys) option" where
  "gpio_set_wr junk r offset inp fill w s =
     (case r of
        None \<Rightarrow> None
      | Some pd \<Rightarrow>
          let ngpio = gpio_end pd - gpio_start pd + 1;
              n = (if fill \<noteq> 0 then min ngpio 64 else w)
          in Option.bind (gpio_data_rd r offset junk fill w s) (\<lambda>(ret, status, s).
               if ret < 0 then Some (- 1, s)
               else gpio_data_wr r offset (or_bytes (nat (n div 8)) status inp) w fill s))"

definition gpio_clr_wr ::
  "u8 list \<Rightarrow> mcuio_gpio_port_data option \<Rightarrow> u32 \<Rightarrow> u8 list \<Rightarrow> int \<Rightarrow> int \<Rightarrow> 'e gsys \<Rightarrow> (int \<times> 'e gsys) option" where
  "gpio_clr_wr junk r offset inp fill w s =
     (case r of
        None \<Rightarrow> None
      | Some pd \<Rightarrow>
          let ngpio = gpio_end pd - gpio_start pd + 1;
              n = (if fill \<noteq> 0 then min ngpio 64 else w)
          in Option.bind (gpio_data_rd r offset junk fill w s) (\<lambda>(ret, status, s).
               if ret < 0 then Some (- 1, s)
               else gpio_data_wr r offset (or_bytes (nat (n div 8)) status inp) fill w s))"

section \<open>Modes\<close>

definition INPUT :: u8 where "INPUT = 1"
definition OUTPUT :: u8 where "OUTPUT = 2"

text \<open>\<open>k\<close> more pins from index \<open>i\<close> on; the result is \<open>n\<close> unless a byte asks for both directions.\<close>

fun modes_wr_loop :: "u8 list \<Rightarrow> int \<Rightarrow> int \<Rightarrow> nat \<Rightarrow> nat \<Rightarrow> 'e gsys \<Rightarrow> (int \<times> 'e gsys) option" where
  "modes_wr_loop inp start n i 0 s = Some (n, s)"
| "modes_wr_loop inp start n i (Suc k) s =
     (if i < length inp then
        let b = inp ! i
        in if b AND (INPUT OR OUTPUT) = INPUT OR OUTPUT then Some (- EINVAL, s)
           else
             let pin = int i + start; h = gw_hw (ev_world s);
                 s = upd_hw (\<lambda>h. snd (gpio_dir_af pin (b AND OUTPUT \<noteq> 0) (gpio_get pin h) (gpio_to_af pin) h)) s
             in modes_wr_loop inp start n (i + 1) k s
      else None)"

definition gpio_modes_wr ::
  "mcuio_gpio_port_data option \<Rightarrow> u32 \<Rightarrow> u8 list \<Rightarrow> int \<Rightarrow> int \<Rightarrow> 'e gsys \<Rightarrow> (int \<times> 'e gsys) option" where
  "gpio_modes_wr r offset inp fill w s =
     (case r of
        None \<Rightarrow> None
      | Some pd \<Rightarrow>
          let ngpio = gpio_end pd - gpio_start pd + 1;
              start = uint offset + gpio_start pd;
              n = (if fill \<noteq> 0 then min ngpio 8 else w div 8)
          in modes_wr_loop inp start n 0 (nat n) s)"

fun modes_rd_loop :: "int \<Rightarrow> int \<Rightarrow> nat \<Rightarrow> nat \<Rightarrow> u8 list \<Rightarrow> gpio_hw \<Rightarrow> (int \<times> u8 list) option" where
  "modes_rd_loop start n i 0 out h = Some (n, out)"
| "modes_rd_loop start n i (Suc k) out h =
     (if i < length out
      then modes_rd_loop start n (i + 1) k
             (out[i := if fst (gpio_get_dir_af (int i + start) h) then OUTPUT else INPUT]) h
      else None)"

text \<open>The number of pins read is the width in bits, or one with the fill flag.\<close>

definition gpio_modes_rd ::
  "mcuio_gpio_port_data option \<Rightarrow> u32 \<Rightarrow> u8 list \<Rightarrow> int \<Rightarrow> int \<Rightarrow> 'e gsys \<Rightarrow> (int \<times> u8 list \<times> 'e gsys) option" where
  "gpio_modes_rd r offset out fill w s =
     (case r of
        None \<Rightarrow> None
      | Some pd \<Rightarrow>
          let ngpio = gpio_end pd - gpio_start pd + 1;
              start = gpio_start pd + uint offset;
              n = (if fill \<noteq> 0 then min ngpio (8 div 8) else w)
          in map_option (\<lambda>(ret, out). (ret, out, s)) (modes_rd_loop start n 0 (nat n) out (gw_hw (ev_world s))))"

section \<open>Event masks\<close>

text \<open>Bit operations on the two-word bitmaps of a port; a number of 64 or more is outside them.\<close>

definition read_bit :: "int \<Rightarrow> bitmap \<Rightarrow> bool option" where
  "read_bit i b = (if nat i < 32 * length b then Some (test_bit_c (nat i) b) else None)"

definition write_bit :: "bool \<Rightarrow> int \<Rightarrow> bitmap \<Rightarrow> bitmap option" where
  "write_bit on i b = (if on then (if nat i < 32 * length b then Some (set_bit_c (nat i) b) else None) else Some b)"

definition evts_byte :: "int \<Rightarrow> mcuio_gpio_port_status \<Rightarrow> u8 option" where
  "evts_byte i st =
     Option.bind (read_bit i (gpio_events_falling st)) (\<lambda>f.
     Option.bind (read_bit i (gpio_events_rising st)) (\<lambda>r.
     Option.bind (read_bit i (gpio_events_high st)) (\<lambda>h.
     Option.bind (read_bit i (gpio_events_low st)) (\<lambda>l.
     Option.bind (read_bit i (gpio_events_enable st)) (\<lambda>e.
       let flag = (\<lambda>on v. if on then word_of_int v else 0 :: u8)
       in Some (flag f GPIO_EVT_FALLING OR flag r GPIO_EVT_RISING OR flag h GPIO_EVT_HIGH
                OR flag l GPIO_EVT_LOW OR flag e GPIO_EVT_ENABLE))))))"

fun evts_rd_loop :: "int \<Rightarrow> int \<Rightarrow> nat \<Rightarrow> nat \<Rightarrow> u8 list \<Rightarrow> mcuio_gpio_port_status \<Rightarrow> (int \<times> u8 list) option" where
  "evts_rd_loop start n i 0 out st = Some (n, out)"
| "evts_rd_loop start n i (Suc k) out st =
     Option.bind (evts_byte (int i + start) st) (\<lambda>b. evts_rd_loop start n (i + 1) k (out[i := b]) st)"

definition gpio_evts_rd ::
  "mcuio_gpio_port_data option \<Rightarrow> u32 \<Rightarrow> u8 list \<Rightarrow> int \<Rightarrow> int \<Rightarrow> 'e gsys \<Rightarrow> (int \<times> u8 list \<times> 'e gsys) option" where
  "gpio_evts_rd r offset out fill w s =
     (case r of
        None \<Rightarrow> None
      | Some pd \<Rightarrow>
          let ngpio = gpio_end pd - gpio_start pd + 1;
              start = uint offset + gpio_start pd;
              n = (if fill \<noteq> 0 then min ngpio (8 div 8) else w div 8)
          in map_option (\<lambda>(ret, out). (ret, out, s)) (evts_rd_loop start n 0 (nat n) out (the_status s)))"

definition set_evts :: "int \<Rightarrow> u8 \<Rightarrow> mcuio_gpio_port_status \<Rightarrow> mcuio_gpio_port_status option" where
  "set_evts i b st =
     (let has = (\<lambda>v. b AND word_of_int v \<noteq> 0)
      in Option.bind (write_bit (has GPIO_EVT_FALLING) i (gpio_events_falling st)) (\<lambda>f.
         Option.bind (write_bit (has GPIO_EVT_RISING) i (gpio_events_rising st)) (\<lambda>r.
         Option.bind (write_bit (has GPIO_EVT_HIGH) i (gpio_events_high st)) (\<lambda>h.
         Option.bind (write_bit (has GPIO_EVT_LOW) i (gpio_events_low st)) (\<lambda>l.
         Option.bind (write_bit (has GPIO_EVT_ENABLE) i (gpio_events_enable st)) (\<lambda>e.
           Some (st\<lparr>gpio_events_falling := f, gpio_events_rising := r, gpio_events_high := h,
                    gpio_events_low := l, gpio_events_enable := e\<rparr>)))))))"

fun evts_wr_loop :: "u8 list \<Rightarrow> int \<Rightarrow> int \<Rightarrow> nat \<Rightarrow> nat \<Rightarrow> 'e gsys \<Rightarrow> (int \<times> 'e gsys) option" where
  "evts_wr_loop inp start n i 0 s = Some (n, s)"
| "evts_wr_loop inp start n i (Suc k) s =
     Option.bind (set_evts (int i + start) (inp ! i) (the_status s)) (\<lambda>st.
       let s = upd_status (\<lambda>_. st) s;
           (stat, s) = on_hw (gpio_request_events (int i + start) (uint (inp ! i))) s
       in if stat < 0 then Some (stat, s) else evts_wr_loop inp start n (i + 1) k s)"

definition gpio_evts_wr ::
  "mcuio_gpio_port_data option \<Rightarrow> u32 \<Rightarrow> u8 list \<Rightarrow> int \<Rightarrow> int \<Rightarrow> 'e gsys \<Rightarrow> (int \<times> 'e gsys) option" where
  "gpio_evts_wr r offset inp fill w s =
     (case r of
        None \<Rightarrow> None
      | Some pd \<Rightarrow>
          let ngpio = gpio_end pd - gpio_start pd + 1;
              start = gpio_start pd + uint offset;
              n = (if fill \<noteq> 0 then min ngpio (8 div 8) else w div 8)
          in evts_wr_loop inp start n 0 (nat n) s)"

section \<open>Event status\<close>

text \<open>One round of the level check: the range argument of the read is a null pointer.\<close>

definition level_round :: "nat \<Rightarrow> 'e gsys \<Rightarrow> 'e gsys option" where
  "level_round i s =
     map_option
       (\<lambda>(ret, out, s).
          let status = get32 out
          in upd_status (\<lambda>st. st\<lparr>gpio_events_status := (gpio_events_status st)[i :=
               gpio_events_status st ! i OR (status AND gpio_events_high st ! i)
               OR (NOT status AND gpio_events_low st ! i)]\<rparr>) s)
       (gpio_data_rd None (of_nat (i * 4)) (replicate 4 0) 0 32 s)"

definition handle_level_gpio_events :: "'e gsys \<Rightarrow> 'e gsys option" where
  "handle_level_gpio_events s = Option.bind (level_round 0 s) (level_round 1)"

text \<open>The status words as bytes, from byte \<open>k\<close> on: each byte is read into the reply and cleared.\<close>

definition status_bytes :: "mcuio_gpio_port_status \<Rightarrow> u8 list" where
  "status_bytes st = concat (map le32 (gpio_events_status st))"

fun status_rd_loop :: "nat \<Rightarrow> nat \<Rightarrow> nat \<Rightarrow> u8 list \<Rightarrow> u8 list \<Rightarrow> (u8 list \<times> u8 list) option" where
  "status_rd_loop k i 0 out st = Some (out, st)"
| "status_rd_loop k i (Suc j) out st =
     (if k + i < length st then status_rd_loop k (i + 1) j (out[i := st ! (k + i)]) (st[k + i := 0]) else None)"

definition trigger_irq :: "'e \<Rightarrow> gpio_ptr \<Rightarrow> mcuio_function_irq_data \<Rightarrow> 'e gsys \<Rightarrow> int \<times> 'e gsys" where
  "trigger_irq mcuio_irq ptr d s =
     trigger_event mcuio_irq (Some ptr)
       (s\<lparr>ev_world := (if ptr = StatusIdata then (ev_world s)\<lparr>gw_status_idata := d\<rparr>
                        else (ev_world s)\<lparr>gw_evt_idata := d\<rparr>)\<rparr>)"

definition gpio_evts_status_rd ::
  "'e \<Rightarrow> (string \<Rightarrow> 'e gsys \<Rightarrow> 'e gsys) \<Rightarrow> mcuio_gpio_port_data option \<Rightarrow> u32 \<Rightarrow> u8 list \<Rightarrow> int \<Rightarrow> int \<Rightarrow> 'e gsys \<Rightarrow>
   (int \<times> u8 list \<times> 'e gsys) option" where
  "gpio_evts_status_rd mcuio_irq printf r offset out fill w s =
     (case r of
        None \<Rightarrow> None
      | Some pd \<Rightarrow>
          let ngpio = gpio_end pd - gpio_start pd + 1;
              start = uint offset + gpio_start pd;
              n = (if fill \<noteq> 0 then min ngpio (8 div 8) else w div 8);
              prev = gpio_events_status (the_status s)
          in Option.bind (status_rd_loop (nat start) 0 (nat n) out (status_bytes (the_status s))) (\<lambda>(out, b).
             let s = upd_status (\<lambda>st. st\<lparr>gpio_events_status := [get32 b, get32 (drop 4 b)]\<rparr>) s
             in Option.bind (handle_level_gpio_events s) (\<lambda>s.
                  let now = gpio_events_status (the_status s)
                  in if (prev ! 0 \<noteq> 0 \<or> prev ! 1 \<noteq> 0) \<and> now ! 0 = 0 \<and> now ! 1 = 0 then
                       let (e, s) = trigger_irq mcuio_irq StatusIdata \<lparr>id_func = gpio_function pd, id_active = False\<rparr> s
                       in Some (n, out, if e \<noteq> 0 then printf ''evt error'' s else s)
                     else Some (n, out, s))))"

text \<open>\<open>edata\<close> is the offset of the port and the two status words of the event.\<close>

definition gpio_evt_handle ::
  "'e \<Rightarrow> mcuio_gpio_port_data \<Rightarrow> int \<Rightarrow> 'e gsys \<Rightarrow> 'e gsys option" where
  "gpio_evt_handle mcuio_irq pd gpio_offset s =
     (if gpio_offset \<noteq> gpio_start pd then Some s
      else
        let ev = gp_events (gw_hw (ev_world s));
            s = upd_status (\<lambda>st. st\<lparr>gpio_events_status := map (\<lambda>i.
                  gpio_events_status st ! i OR (ev ! i AND NOT (gpio_events_high st ! i) AND NOT (gpio_events_low st ! i)))
                  [0..<2]\<rparr>) s;
            s = upd_hw (\<lambda>h. h\<lparr>gp_events := [0, 0]\<rparr>) s
        in Option.bind (handle_level_gpio_events s) (\<lambda>s.
             let st = gpio_events_status (the_status s)
             in Some (snd (trigger_irq mcuio_irq EvtIdata
                  \<lparr>id_func = gpio_function pd, id_active = (st ! 0 \<noteq> 0 \<or> st ! 1 \<noteq> 0)\<rparr> s))))"

section \<open>Register operations\<close>

text \<open>The port data of a range is found through its private pointer; \<open>pds\<close> are the ports of the machine.\<close>

definition fill_int :: "bool \<Rightarrow> int" where
  "fill_int fill = (if fill then 128 else 0)"

definition rd_op ::
  "(mcuio_gpio_port_data option \<Rightarrow> u32 \<Rightarrow> u8 list \<Rightarrow> int \<Rightarrow> int \<Rightarrow> 's \<Rightarrow> (int \<times> u8 list \<times> 's) option) \<Rightarrow>
   (nat \<Rightarrow> mcuio_gpio_port_data) \<Rightarrow> int \<Rightarrow> 's mcuio_read" where
  "rd_op f pds w r offset out fill s = f (Some (pds (r_priv r))) offset out (fill_int fill) w s"

definition wr_op ::
  "(mcuio_gpio_port_data option \<Rightarrow> u32 \<Rightarrow> u8 list \<Rightarrow> int \<Rightarrow> int \<Rightarrow> 's \<Rightarrow> (int \<times> 's) option) \<Rightarrow>
   (nat \<Rightarrow> mcuio_gpio_port_data) \<Rightarrow> int \<Rightarrow> 's mcuio_write" where
  "wr_op f pds w r offset inp fill s = f (Some (pds (r_priv r))) offset inp (fill_int fill) w s"

definition rd_perm :: "'s mcuio_read" where
  "rd_perm r offset out fill s = Some (- EPERM, out, s)"

definition wr_perm :: "'s mcuio_write" where
  "wr_perm r offset inp fill s = Some (- EPERM, s)"

definition gpio_data_ops :: "(nat \<Rightarrow> mcuio_gpio_port_data) \<Rightarrow> 'e gsys mcuio_range_ops" where
  "gpio_data_ops pds =
     \<lparr>rng_rd = [Some (rd_op gpio_data_rd pds 8), Some (rd_op gpio_data_rd pds 16), Some (rd_op gpio_data_rd pds 32), Some rd_perm],
      rng_wr = [Some (wr_op gpio_data_wr pds 8), Some (wr_op gpio_data_wr pds 16), Some (wr_op gpio_data_wr pds 32), Some wr_perm]\<rparr>"

definition gpio_set_ops :: "u8 list \<Rightarrow> (nat \<Rightarrow> mcuio_gpio_port_data) \<Rightarrow> 'e gsys mcuio_range_ops" where
  "gpio_set_ops junk pds =
     \<lparr>rng_rd = [None, None, None, None],
      rng_wr = [Some (wr_op gpio_data_wr pds 8), Some (wr_op (gpio_set_wr junk) pds 16), Some (wr_op (gpio_set_wr junk) pds 32), Some wr_perm]\<rparr>"

definition gpio_clr_ops :: "u8 list \<Rightarrow> (nat \<Rightarrow> mcuio_gpio_port_data) \<Rightarrow> 'e gsys mcuio_range_ops" where
  "gpio_clr_ops junk pds =
     \<lparr>rng_rd = [None, None, None, None],
      rng_wr = [Some (wr_op gpio_data_wr pds 8), Some (wr_op (gpio_clr_wr junk) pds 16), Some (wr_op (gpio_clr_wr junk) pds 32), Some wr_perm]\<rparr>"

definition gpio_modes_ops :: "(nat \<Rightarrow> mcuio_gpio_port_data) \<Rightarrow> 'e gsys mcuio_range_ops" where
  "gpio_modes_ops pds =
     \<lparr>rng_rd = [Some (rd_op gpio_modes_rd pds 8), Some (rd_op gpio_modes_rd pds 16), Some (rd_op gpio_modes_rd pds 32), Some rd_perm],
      rng_wr = [Some (wr_op gpio_modes_wr pds 8), Some (wr_op gpio_modes_wr pds 16), Some (wr_op gpio_modes_wr pds 32), Some wr_perm]\<rparr>"

definition gpio_evts_ops :: "(nat \<Rightarrow> mcuio_gpio_port_data) \<Rightarrow> 'e gsys mcuio_range_ops" where
  "gpio_evts_ops pds =
     \<lparr>rng_rd = [None, None, Some (rd_op gpio_evts_rd pds 32), None],
      rng_wr = [None, None, Some (wr_op gpio_evts_wr pds 32), None]\<rparr>"

definition gpio_evts_status_ops ::
  "'e \<Rightarrow> (string \<Rightarrow> 'e gsys \<Rightarrow> 'e gsys) \<Rightarrow> (nat \<Rightarrow> mcuio_gpio_port_data) \<Rightarrow> 'e gsys mcuio_range_ops" where
  "gpio_evts_status_ops mcuio_irq printf pds =
     \<lparr>rng_rd = [None, None, Some (rd_op (gpio_evts_status_rd mcuio_irq printf) pds 32), None],
      rng_wr = [None, None, None, None]\<rparr>"

end
