(* ===== verification/GpioProps.thy ===== *)
theory GpioProps
  imports McuioGpio
begin

text \<open>
  Facts on the pins: what setting one pin does to the output registers, what a write of a whole
  port amounts to, which edges the sampling reports, and why setting bits of a port never returns.
\<close>

section \<open>Output registers\<close>

definition pin_out :: "int \<Rightarrow> gpio_hw \<Rightarrow> bool" where
  "pin_out g h = bit (sfr h (PORTS_BASE + GPIO_PORT g * 3 + 2)) (GPIO_BIT g)"

lemmas gpio_defs = GPIO_PORT_def GPIO_BIT_def GPIO_PORT_WIDTH_def PORTS_BASE_def

lemma same_pin_iff:
  assumes "0 \<le> g" "0 \<le> g'"
  shows "g = g' \<longleftrightarrow> GPIO_PORT g = GPIO_PORT g' \<and> GPIO_BIT g = GPIO_BIT g'"
proof
  assume a: "GPIO_PORT g = GPIO_PORT g' \<and> GPIO_BIT g = GPIO_BIT g'"
  then have "g div 8 = g' div 8" "g mod 8 = g' mod 8"
    by (simp_all add: gpio_defs nat_eq_iff split: if_splits)
  then show "g = g'" by (metis div_mult_mod_eq)
qed simp

lemma GPIO_BIT_lt: "GPIO_BIT g < 8"
  by (simp add: gpio_defs)

lemma pin_out_gpio_set:
  assumes "0 \<le> g" "0 \<le> g'"
  shows "pin_out g' (gpio_set g v h) = (if g' = g then v else pin_out g' h)"
  using GPIO_BIT_lt [of g] GPIO_BIT_lt [of g']
  by (auto simp: same_pin_iff [OF assms(2,1)] pin_out_def gpio_set_def sfr_or_def sfr_clear_def Let_def bit_simps)

lemma pin_out_set_port8:
  assumes "g mod 8 = 0" "0 \<le> g'"
  shows "pin_out g' (snd (gpio_set_port8 g v h)) = (if g \<le> g' \<and> g' < g + 8 then bit v (nat (g' - g)) else pin_out g' h)"
proof -
  have "g \<le> g' \<and> g' < g + 8 \<longleftrightarrow> g' div 8 = g div 8" using assms(1) by auto
  moreover have "g' div 8 = g div 8 \<Longrightarrow> g' mod 8 = g' - g"
    using assms(1) by (metis minus_mod_eq_mult_div mod_mod_trivial mult_div_mod_eq add_0_right minus_mult_div_eq_mod)
  ultimately show ?thesis using assms(1) by (auto simp: pin_out_def gpio_set_port8_def gpio_defs)
qed

section \<open>Writing a port\<close>

text \<open>Bit \<open>k\<close> of the bytes of a little-endian number.\<close>

definition data_bit :: "u8 list \<Rightarrow> nat \<Rightarrow> bool" where
  "data_bit b k = bit (b ! (k div 8)) (k mod 8)"

lemma byte_pos:
  assumes "8 * q \<le> k" "k < 8 * q + (8 :: nat)"
  shows "k div 8 = q" "k mod 8 = k - 8 * q"
proof -
  show "k div 8 = q" by (rule div_nat_eqI) (use assms in simp_all)
  then show "k mod 8 = k - 8 * q" by (metis minus_mult_div_eq_mod)
qed

lemma bit_get16:
  assumes "k < 16"
  shows "bit (get16 b) k = data_bit b k"
proof -
  consider "k < 8" | "8 \<le> k" "k < 16" using assms by linarith
  then show ?thesis
    using byte_pos [of 0 k] byte_pos [of 1 k] by cases (auto simp: get16_def data_bit_def bit_simps bit_past)
qed

lemma bit_get32:
  assumes "k < 32"
  shows "bit (get32 b) k = data_bit b k"
proof -
  consider "k < 8" | "8 \<le> k" "k < 16" | "16 \<le> k" "k < 24" | "24 \<le> k" "k < 32" using assms by linarith
  then show ?thesis
    using byte_pos [of 0 k] byte_pos [of 1 k] byte_pos [of 2 k] byte_pos [of 3 k]
    by cases (auto simp: get32_def data_bit_def bit_simps bit_past)
qed

lemma gw_hw_upd [simp]: "gw_hw (ev_world (upd_hw f s)) = f (gw_hw (ev_world s))"
  by (simp add: upd_hw_def)

lemma set_pins_spec:
  assumes "elem_at inp i w = Some v" "0 \<le> i + start" "0 \<le> g"
  shows "fst (set_pins inp start i w j k s) = 0
    \<and> pin_out g (gw_hw (ev_world (snd (set_pins inp start i w j k s)))) =
      (if i + start + int j \<le> g \<and> g < i + start + int (j + k) then bit v (nat (g - i - start))
       else pin_out g (gw_hw (ev_world s)))"
  using assms by (induction k arbitrary: j s) (auto simp: pin_out_gpio_set algebra_simps)

lemma wr_loop_once:
  fixes s :: "'e gsys"
  assumes "0 < w"
  shows "gpio_wr_loop inp start w w 0 s =
    (case on_hw (gpio_set_portw start inp w) s of (stat, s) \<Rightarrow>
       if stat < 0 then (case set_pins inp start 0 w 0 (nat w) s of (e, s) \<Rightarrow> if e < 0 then Some (e, s) else Some (w, s))
       else Some (w, s))"
proof -
  have "gpio_wr_loop inp start w w w s' = Some (w, s')" for s' :: "'e gsys" by (subst gpio_wr_loop.simps) simp
  then show ?thesis using assms by (subst gpio_wr_loop.simps) (simp add: Let_def split_beta)
qed

lemma write_slow:
  assumes "w = 16 \<or> w = 32" "0 \<le> start" "0 \<le> g"
  shows "\<exists>s'. gpio_wr_loop inp start w w 0 s = Some (w, s')
    \<and> pin_out g (gw_hw (ev_world s')) =
      (if start \<le> g \<and> g < start + w then data_bit inp (nat (g - start)) else pin_out g (gw_hw (ev_world s)))"
proof -
  obtain v where v: "elem_at inp 0 w = Some v" "\<And>k. k < nat w \<Longrightarrow> bit v k = data_bit inp k"
    using assms(1) bit_get16 [of _ inp] bit_get32 [of _ inp] by (auto simp: elem_at_def bit_simps)
  have "on_hw (gpio_set_portw start inp w) s = (- ENOSYS, s)"
    using assms(1) by (auto simp: on_hw_def gpio_set_portw_def gpio_set_port16_def gpio_set_port32_def)
  then show ?thesis
    using set_pins_spec [OF v(1), of start g 0 "nat w" s] assms v(2) [of "nat (g - start)"] wr_loop_once [of w inp start s]
    by (auto simp: split_beta ENOSYS_def)
qed

lemma write_fast:
  assumes "start mod 8 = 0" "0 \<le> g"
  shows "\<exists>s'. gpio_wr_loop inp start 8 8 0 s = Some (8, s')
    \<and> pin_out g (gw_hw (ev_world s')) =
      (if start \<le> g \<and> g < start + 8 then data_bit inp (nat (g - start)) else pin_out g (gw_hw (ev_world s)))"
proof -
  have "data_bit inp (nat (g - start)) = bit (inp ! 0) (nat (g - start))" if "start \<le> g" "g < start + 8"
    using that byte_pos [of 0 "nat (g - start)"] by (simp add: data_bit_def)
  then show ?thesis
    using pin_out_set_port8 [OF assms, of "inp ! 0" "gw_hw (ev_world s)"] wr_loop_once [of 8 inp start s] assms(1)
    by (auto simp: on_hw_def gpio_set_portw_def split_beta gpio_set_port8_def GPIO_PORT_WIDTH_def)
qed

text \<open>
  C20. Writing the data register of a port sets the output levels of exactly the addressed pins, each
  to its bit of the data, for every width and whether the pins can be set together or only one by
  one.
\<close>

theorem gpio_write_sets_pins:
  assumes "w = 8 \<or> w = 16 \<or> w = 32" "0 \<le> gpio_start pd" "gpio_start pd mod 8 = 0" "0 \<le> g"
  shows "\<exists>s'. gpio_data_wr (Some pd) offset inp 0 w s = Some (w, s')
    \<and> pin_out g (gw_hw (ev_world s')) =
      (let first = gpio_start pd + uint offset * 8
       in if first \<le> g \<and> g < first + w then data_bit inp (nat (g - first)) else pin_out g (gw_hw (ev_world s)))"
proof -
  have m: "(gpio_start pd + uint offset * 8) mod 8 = 0" using assms(3) by simp
  have "0 \<le> gpio_start pd + uint offset * 8" using assms(2) by simp
  then show ?thesis
    using write_slow [of w "gpio_start pd + uint offset * 8" g inp s] write_fast [OF m assms(4), of inp s] assms(1,4)
    unfolding gpio_data_wr_def by (elim disjE) (simp_all add: Let_def)
qed

definition ex_gsys :: "nat gsys" where
  "ex_gsys = \<lparr>pe_head = 0, pe_tail = 0, pe_buffer_nevts = 4,
     pe_buffer = replicate 4 \<lparr>pe_event = 0, pe_data = None\<rparr>, ie_pending_flags = [],
     ev_world = \<lparr>gw_hw = \<lparr>sfr = (\<lambda>_. 0), gp_ports = replicate 5 0, gp_rising = [1, 0, 0, 0, 0], gp_falling = replicate 5 0,
         gp_enable = [1, 0, 0, 0, 0], gp_initialized = 31, gp_events = [0, 0]\<rparr>,
       gw_status = \<lparr>gpio_events_status = [0, 0], gpio_events_falling = [0, 0], gpio_events_rising = [0, 0],
         gpio_events_enable = [0, 0], gpio_events_high = [0, 0], gpio_events_low = [0, 0]\<rparr>,
       gw_status_idata = \<lparr>id_func = 0, id_active = False\<rparr>, gw_evt_idata = \<lparr>id_func = 0, id_active = False\<rparr>\<rparr>\<rparr>"

definition ex_port :: mcuio_gpio_port_data where
  "ex_port = \<lparr>gpio_start = 0, gpio_end = 39, gpio_function = 2\<rparr>"

theorem gpio_write_sets_pins_witness:
  "\<exists>s'. gpio_data_wr (Some ex_port) 1 [0, 4, 0, 0, 0, 0, 0, 0] 0 16 ex_gsys = Some (16, s')
     \<and> pin_out 18 (gw_hw (ev_world s'))"
  using gpio_write_sets_pins [of 16 ex_port 18 1 "[0, 4, 0, 0, 0, 0, 0, 0]" ex_gsys]
  by (auto simp: ex_port_def data_bit_def Let_def)

lemma wr_loop_zero_width:
  assumes "gpio_wr_loop inp start n w i s = Some r" "w = 0"
  shows "\<not> i < n"
proof -
  have "w = 0 \<longrightarrow> \<not> i < n"
  proof (rule gpio_wr_loop.raw_induct [OF _ assms(1)])
    fix loop and inp :: "u8 list" and start n w i and s :: "'a gsys" and r
    assume IH: "\<And>inp start n w i s r. loop inp start n w i s = Some r \<Longrightarrow> w = 0 \<longrightarrow> \<not> i < n"
      and body: "(if i < n
        then let (stat, s) = on_hw (gpio_set_portw (start + i) (drop (nat (i div 8)) inp) w) s
             in if stat < 0
                then let (e, s) = set_pins inp start i w 0 (nat w) s
                     in if e < 0 then Some (e, s) else loop inp start n w (i + w) s
                else loop inp start n w (i + w) s
        else Some (n, s)) = Some r"
    show "w = 0 \<longrightarrow> \<not> i < n"
      using body by (auto simp: split_beta Let_def split: if_splits dest!: IH)
  qed
  with assms(2) show ?thesis by simp
qed

lemma gpio_read_word:
  assumes "w = 16 \<or> w = 32"
  shows "\<exists>out'. gpio_data_rd (Some pd) offset out 0 w s = Some (w, out', s)"
  using assms gpio_rd_loop.simps [of "gpio_start pd + uint offset * 8" w w 0 out s]
    gpio_rd_loop.simps [of "gpio_start pd + uint offset * 8" w w w]
  by (auto simp: gpio_data_rd_def Let_def gpio_get_portw_def ENOSYS_def)

text \<open>
  Setting bits of a port 16 or 32 at a time never returns: the write is called with the width
  and the fill flag exchanged, and its loop advances by a width of zero.
\<close>

theorem gpio_set_word_hangs:
  assumes "w = 16 \<or> w = 32" "gpio_start pd \<le> gpio_end pd"
  shows "gpio_set_wr junk (Some pd) offset inp 0 w s = None"
proof -
  obtain out' where "gpio_data_rd (Some pd) offset junk 0 w s = Some (w, out', s)" using gpio_read_word [OF assms(1)] by blast
  moreover have "gpio_wr_loop b start (min (gpio_end pd - gpio_start pd + 1) 8) 0 0 s = None" for b start
    using wr_loop_zero_width [of b start "min (gpio_end pd - gpio_start pd + 1) 8" 0 0 s] assms(2)
    by (cases "gpio_wr_loop b start (min (gpio_end pd - gpio_start pd + 1) 8) 0 0 s") auto
  ultimately show ?thesis using assms(1) by (auto simp: gpio_set_wr_def gpio_data_wr_def Let_def)
qed

theorem gpio_set_word_hangs_witness: "gpio_set_wr (replicate 8 0) (Some ex_port) 0 [1, 0, 0, 0, 0, 0, 0, 0] 0 32 ex_gsys = None"
  using gpio_set_word_hangs [of 32 ex_port] by (simp add: ex_port_def)

section \<open>Edges\<close>

definition reported_edge :: "u8 \<Rightarrow> nat \<Rightarrow> nat \<Rightarrow> gpio_hw \<Rightarrow> bool" where
  "reported_edge level i j h \<longleftrightarrow> bit (gp_enable h ! i) j
     \<and> (bit (gp_rising h ! i) j \<and> \<not> bit (gp_ports h ! i) j \<and> bit level j
        \<or> bit (gp_falling h ! i) j \<and> bit (gp_ports h ! i) j \<and> \<not> bit level j)"

lemma sample_pin_eq:
  assumes "j < 8"
  shows "sample_pin i (level XOR gp_ports h ! i) j (t, h) =
    (t \<or> reported_edge level i j h,
     if reported_edge level i j h then h\<lparr>gp_events := set_bit_c (i * 8 + j) (gp_events h)\<rparr> else h)"
  using assms by (auto simp: sample_pin_def reported_edge_def Let_def and_exp_eq_0_iff_not_bit bit_simps)

text \<open>What sampling keeps: everything but the events, the last levels and the flags of known levels.\<close>

definition same_setup :: "gpio_hw \<Rightarrow> gpio_hw \<Rightarrow> bool" where
  "same_setup h h' \<longleftrightarrow> sfr h' = sfr h \<and> gp_rising h' = gp_rising h \<and> gp_falling h' = gp_falling h
     \<and> gp_enable h' = gp_enable h \<and> length (gp_events h') = length (gp_events h) \<and> length (gp_ports h') = length (gp_ports h)"

lemma sample_pins:
  assumes "n \<le> 8" "i < 5" "length (gp_events h) = 2"
  shows "case fold (sample_pin i (level XOR gp_ports h ! i)) [0..<n] (t, h) of (t', h') \<Rightarrow>
    t' = (t \<or> (\<exists>j<n. reported_edge level i j h)) \<and> same_setup h h'
    \<and> gp_ports h' = gp_ports h \<and> gp_initialized h' = gp_initialized h
    \<and> (\<forall>k<64. test_bit_c k (gp_events h') \<longleftrightarrow> test_bit_c k (gp_events h) \<or> (\<exists>j<n. k = i * 8 + j \<and> reported_edge level i j h))"
  using assms(1)
proof (induction n)
  case (Suc n)
  obtain t1 h1 where e: "fold (sample_pin i (level XOR gp_ports h ! i)) [0..<n] (t, h) = (t1, h1)" by fastforce
  from Suc e have IH: "t1 = (t \<or> (\<exists>j<n. reported_edge level i j h))" "same_setup h h1" "gp_ports h1 = gp_ports h"
    "gp_initialized h1 = gp_initialized h"
    "\<forall>k<64. test_bit_c k (gp_events h1) \<longleftrightarrow> test_bit_c k (gp_events h) \<or> (\<exists>j<n. k = i * 8 + j \<and> reported_edge level i j h)"
    by auto
  have r: "reported_edge level i n h1 = reported_edge level i n h"
    using IH(2,3) by (simp add: reported_edge_def same_setup_def)
  have l: "i * 8 + n < nbits_of (gp_events h1)"
    using Suc(2) assms(2,3) IH(2) by (simp add: nbits_of_def BITS_PER_LONG_def same_setup_def)
  show ?case
    using sample_pin_eq [of n i level h1 t1] IH Suc(2) e r test_set_bit_c [OF l]
    by (auto simp: same_setup_def less_Suc_eq)
qed (simp add: same_setup_def)

definition edge_at :: "gpio_hw \<Rightarrow> nat \<Rightarrow> nat \<Rightarrow> bool" where
  "edge_at h i j \<longleftrightarrow> bit (gp_initialized h) i \<and> reported_edge (sfr h (PORTS_BASE + int i * 3)) i j h"

lemma sample_port_spec:
  assumes "i < 5" "length (gp_events h) = 2" "length (gp_ports h) = 5"
  shows "case sample_port i (t, h) of (t', h') \<Rightarrow>
    t' = (t \<or> (\<exists>j<8. edge_at h i j)) \<and> same_setup h h'
    \<and> gp_ports h' = (gp_ports h)[i := sfr h (PORTS_BASE + int i * 3)]
    \<and> (\<forall>n. n \<noteq> i \<longrightarrow> bit (gp_initialized h') n = bit (gp_initialized h) n)
    \<and> (\<forall>k<64. test_bit_c k (gp_events h') \<longleftrightarrow> test_bit_c k (gp_events h) \<or> (\<exists>j<8. k = i * 8 + j \<and> edge_at h i j))"
proof (cases "bit (gp_initialized h) i")
  case True
  then show ?thesis
    using sample_pins [where n = 8 and i = i and h = h and level = "sfr h (PORTS_BASE + int i * 3)" and t = t] assms
    by (auto simp: sample_port_def Let_def split_beta and_exp_eq_0_iff_not_bit same_setup_def edge_at_def)
next
  case False
  then show ?thesis
    using assms by (auto simp: sample_port_def Let_def and_exp_eq_0_iff_not_bit same_setup_def edge_at_def bit_simps)
qed

lemma sample_ports:
  assumes "n \<le> 5" "length (gp_events h) = 2" "length (gp_ports h) = 5"
  shows "case fold sample_port [0..<n] (False, h) of (t', h') \<Rightarrow>
    t' = (\<exists>i<n. \<exists>j<8. edge_at h i j) \<and> same_setup h h'
    \<and> (\<forall>i. n \<le> i \<longrightarrow> bit (gp_initialized h') i = bit (gp_initialized h) i)
    \<and> (\<forall>i<5. gp_ports h' ! i = (if i < n then sfr h (PORTS_BASE + int i * 3) else gp_ports h ! i))
    \<and> (\<forall>k<64. test_bit_c k (gp_events h') \<longleftrightarrow> test_bit_c k (gp_events h) \<or> (\<exists>i<n. \<exists>j<8. k = i * 8 + j \<and> edge_at h i j))"
  using assms(1)
proof (induction n)
  case (Suc n)
  obtain t1 h1 where e: "fold sample_port [0..<n] (False, h) = (t1, h1)" by fastforce
  from Suc e have IH: "t1 = (\<exists>i<n. \<exists>j<8. edge_at h i j)" "same_setup h h1"
    "\<forall>i. n \<le> i \<longrightarrow> bit (gp_initialized h1) i = bit (gp_initialized h) i"
    "\<forall>i<5. gp_ports h1 ! i = (if i < n then sfr h (PORTS_BASE + int i * 3) else gp_ports h ! i)"
    "\<forall>k<64. test_bit_c k (gp_events h1) \<longleftrightarrow> test_bit_c k (gp_events h) \<or> (\<exists>i<n. \<exists>j<8. k = i * 8 + j \<and> edge_at h i j)"
    by auto
  have r: "edge_at h1 n j = edge_at h n j" for j
    using IH(2-4) Suc(2) by (simp add: edge_at_def reported_edge_def same_setup_def)
  have l: "length (gp_events h1) = 2" "length (gp_ports h1) = 5" using IH(2) assms by (simp_all add: same_setup_def)
  obtain t2 h2 where e2: "sample_port n (t1, h1) = (t2, h2)" by fastforce
  note sp = sample_port_spec [OF _ l, of n t1, unfolded e2 r split_conv]
  have p: "gp_ports h2 = (gp_ports h1)[n := sfr h (PORTS_BASE + int n * 3)]" "same_setup h1 h2"
    using sp Suc(2) IH(2) by (simp_all add: same_setup_def)
  have "\<forall>i<5. gp_ports h2 ! i = (if i < Suc n then sfr h (PORTS_BASE + int i * 3) else gp_ports h ! i)"
    unfolding p(1) using IH(4) l(2) Suc(2) by (simp add: nth_list_update less_Suc_eq)
  moreover have "same_setup h h2" using p(2) IH(2) by (simp add: same_setup_def)
  moreover have "t2 = (\<exists>i<Suc n. \<exists>j<8. edge_at h i j)" using sp Suc(2) IH(1) by (auto simp: less_Suc_eq)
  moreover have "\<forall>i. Suc n \<le> i \<longrightarrow> bit (gp_initialized h2) i = bit (gp_initialized h) i"
    using sp Suc(2) IH(3) by auto
  moreover have "\<forall>k<64. test_bit_c k (gp_events h2) \<longleftrightarrow> test_bit_c k (gp_events h) \<or> (\<exists>i<Suc n. \<exists>j<8. k = i * 8 + j \<and> edge_at h i j)"
    using sp Suc(2) IH(5) by (auto simp: less_Suc_eq)
  ultimately show ?case using e e2 by simp
qed (simp add: same_setup_def)

text \<open>
  C12. Sampling the pins reports exactly the edges asked for: it adds to the event bits those of the
  enabled pins whose level has changed in a requested direction since the last sample, remembers
  the new levels, and triggers one event when there is such an edge and none otherwise.
\<close>

theorem gpio_sample_reports_edges:
  assumes "ev_wf s" "length (gp_events (ev_world s)) = 2" "length (gp_ports (ev_world s)) = 5"
  shows "(\<forall>k<64. test_bit_c k (gp_events (ev_world (gpio_sample e d s))) \<longleftrightarrow>
        test_bit_c k (gp_events (ev_world s)) \<or> (\<exists>i<5. \<exists>j<8. k = i * 8 + j \<and> edge_at (ev_world s) i j))
    \<and> (\<forall>i<5. gp_ports (ev_world (gpio_sample e d s)) ! i = sfr (ev_world s) (PORTS_BASE + int i * 3))
    \<and> ev_queue (gpio_sample e d s) = take (ev_cap s)
        (ev_queue s @ (if \<exists>i<5. \<exists>j<8. edge_at (ev_world s) i j then [\<lparr>pe_event = e, pe_data = Some d\<rparr>] else []))"
proof -
  obtain t h where e: "fold sample_port [0..<5] (False, ev_world s) = (t, h)" by fastforce
  note sp = sample_ports [OF order_refl assms(2,3), unfolded e split_conv]
  have w: "ev_world (gpio_sample e d s) = h" by (simp add: gpio_sample_def e Let_def)
  have wf: "ev_wf (s\<lparr>ev_world := h\<rparr>)" "ev_queue (s\<lparr>ev_world := h\<rparr>) = ev_queue s" "ev_cap (s\<lparr>ev_world := h\<rparr>) = ev_cap s"
    using assms(1) by (simp_all add: ev_wf_def ev_queue_def ev_cap_def)
  have "take (ev_cap s) (ev_queue s) = ev_queue s" using evq.push_burst [OF assms(1), of "[]"] by simp
  then have "ev_queue (gpio_sample e d s) = take (ev_cap s)
        (ev_queue s @ (if t then [\<lparr>pe_event = e, pe_data = Some d\<rparr>] else []))"
    using evq.push_burst [OF wf(1), of "[\<lparr>pe_event = e, pe_data = Some d\<rparr>]"] wf
    by (simp add: gpio_sample_def e ev_push_def Let_def)
  with sp show ?thesis unfolding w by simp
qed

theorem gpio_sample_reports_edges_witness:
  "ev_queue (gpio_sample (7 :: nat) GpioEvdata \<lparr>pe_head = 0, pe_tail = 0, pe_buffer_nevts = 4,
      pe_buffer = replicate 4 \<lparr>pe_event = 0, pe_data = None\<rparr>, ie_pending_flags = [],
      ev_world = (gw_hw (ev_world ex_gsys))\<lparr>sfr := (\<lambda>a. if a = 3 then 1 else 0)\<rparr>\<rparr>) =
    [\<lparr>pe_event = 7, pe_data = Some GpioEvdata\<rparr>]"
proof -
  let ?s = "\<lparr>pe_head = 0, pe_tail = 0, pe_buffer_nevts = 4,
      pe_buffer = replicate 4 \<lparr>pe_event = 0, pe_data = None\<rparr>, ie_pending_flags = [],
      ev_world = (gw_hw (ev_world ex_gsys))\<lparr>sfr := (\<lambda>a. if a = 3 then 1 else 0)\<rparr>\<rparr> :: (nat, gpio_ptr, gpio_hw) evsys"
  have wf: "ev_wf ?s" unfolding ev_wf_def by (rule ring_wfI [of _ 2]) simp_all
  have q: "ev_queue ?s = []" "ev_cap ?s = 3"
    by (simp_all add: ev_queue_def ev_cap_def ring_list_def CIRC_CNT_def)
  have "bit (31 :: u8) 0" "bit (1 :: u8) 0" "\<not> bit (0 :: u8) 0" by simp_all
  then have "edge_at (ev_world ?s) 0 0" by (simp add: edge_at_def reported_edge_def ex_gsys_def PORTS_BASE_def)
  then have ex: "(\<exists>i<5. \<exists>j<8. edge_at (ev_world ?s) i j) = True"
    by (metis zero_less_numeral)
  have "length (gp_events (ev_world ?s)) = 2" "length (gp_ports (ev_world ?s)) = 5" by (simp_all add: ex_gsys_def)
  from gpio_sample_reports_edges [OF wf this, of 7 GpioEvdata, THEN conjunct2, THEN conjunct2]
  show ?thesis unfolding q ex by simp
qed

end
