(* ===== verification/McuioI2c.thy ===== *)
theory McuioI2c
  imports McuioGpio
begin

text \<open>
  The MCUIO function for a bit-banged I2C bus, \<^verbatim>\<open>mcuio/mcuio_bitbang_i2c_func.c\<close>. The two wires, the
  delays and the clock are outside the program: a record \<open>pins\<close> of operations on a bus state \<open>'b\<close>.
  A transaction is a state machine driven by \<open>I2C_GO\<close> events; the same 128-byte buffer holds the
  bytes to send and the bytes received, each with its own ring indices. Waiting for a slave that
  never releases the clock, while the time does not advance, is \<open>None\<close>.

  The events carry either the number of a transaction event or a pointer to one of the two static
  interrupt structures.
\<close>

section \<open>State\<close>

datatype i2c_transaction_state =
    IDLE | START_SENT | ADDR_SENT | SENDING_DATA | AWAITING_OUTPUT_DATA | DATA_SENT
  | REPEATED_START_SENT | ADDR_SENT_2 | RECEIVING_DATA | AWAITING_INPUT_SPACE | DATA_RECEIVED | ERROR

datatype i2c_edata = I2C_GO | I2C_RESET | TrgIdata | RdIdata

record mcuio_i2c_data =
  i2_udelay :: int
  i2_timeout :: u32
  slave_address :: u16
  ibuf_len :: u16
  obuf_len :: u16
  data_cnt :: u16
  i2_status :: u8
  int_enable :: u8
  i2_buffer :: "u8 list"
  ibuf_head :: u8
  ibuf_tail :: u8
  obuf_head :: u8
  obuf_tail :: u8
  i2_state :: i2c_transaction_state

record 'b i2c_pins =
  pin_setsda :: "bool \<Rightarrow> 'b \<Rightarrow> 'b"
  pin_setscl :: "bool \<Rightarrow> 'b \<Rightarrow> 'b"
  pin_getsda :: "'b \<Rightarrow> bool \<times> 'b"
  pin_getscl :: "'b \<Rightarrow> bool \<times> 'b"
  pin_udelay :: "int \<Rightarrow> 'b \<Rightarrow> 'b"
  pin_jiffies :: "'b \<Rightarrow> u32 \<times> 'b"

text \<open>
  The pins of the board: direction, level and the time. The lines are open drain: low is driven, high is left to the pull-up.
\<close>

datatype i2c_line = GPIO_SDA | GPIO_SCL

record 'b i2c_gpio =
  ig_dir :: "i2c_line \<Rightarrow> bool \<Rightarrow> bool \<Rightarrow> 'b \<Rightarrow> 'b"
  ig_get :: "i2c_line \<Rightarrow> 'b \<Rightarrow> bool \<times> 'b"
  ig_udelay :: "int \<Rightarrow> 'b \<Rightarrow> 'b"
  ig_jiffies :: "'b \<Rightarrow> u32 \<times> 'b"

definition setsda :: "'b i2c_gpio \<Rightarrow> bool \<Rightarrow> 'b \<Rightarrow> 'b" where
  "setsda G v b = (let b = ig_dir G GPIO_SDA True v b in if v then ig_dir G GPIO_SDA False True b else b)"

definition setscl :: "'b i2c_gpio \<Rightarrow> bool \<Rightarrow> 'b \<Rightarrow> 'b" where
  "setscl G v b = (let b = ig_dir G GPIO_SCL True v b in if v then ig_dir G GPIO_SCL False True b else b)"

definition getscl :: "'b i2c_gpio \<Rightarrow> 'b \<Rightarrow> bool \<times> 'b" where
  "getscl G = ig_get G GPIO_SCL"

definition getsda :: "'b i2c_gpio \<Rightarrow> 'b \<Rightarrow> bool \<times> 'b" where
  "getsda G = ig_get G GPIO_SDA"

definition bitbang_pins :: "'b i2c_gpio \<Rightarrow> 'b i2c_pins" where
  "bitbang_pins G = \<lparr>pin_setsda = setsda G, pin_setscl = setscl G, pin_getsda = getsda G, pin_getscl = getscl G,
     pin_udelay = ig_udelay G, pin_jiffies = ig_jiffies G\<rparr>"

record 'b i2c_world =
  iw_i2c :: mcuio_i2c_data
  iw_bus :: 'b
  iw_trg_idata :: mcuio_function_irq_data
  iw_rd_idata :: mcuio_function_irq_data

type_synonym ('e, 'b) i2sys = "('e, i2c_edata, 'b i2c_world) evsys"

text \<open>The environment: the pins, the events, the number of the function, \<^verbatim>\<open>HZ\<close> and the console.\<close>

record ('e, 'b) i2c_env =
  ie_pins :: "'b i2c_pins"
  ie_transaction :: 'e
  ie_mcuio_irq :: 'e
  ie_func :: nat
  ie_hz :: u32
  ie_printf :: "string \<Rightarrow> ('e, 'b) i2sys \<Rightarrow> ('e, 'b) i2sys"

abbreviation the_i2c :: "('e, 'b) i2sys \<Rightarrow> mcuio_i2c_data" where
  "the_i2c s \<equiv> iw_i2c (ev_world s)"

definition upd_i2c :: "(mcuio_i2c_data \<Rightarrow> mcuio_i2c_data) \<Rightarrow> ('e, 'b) i2sys \<Rightarrow> ('e, 'b) i2sys" where
  "upd_i2c f s = s\<lparr>ev_world := (ev_world s)\<lparr>iw_i2c := f (the_i2c s)\<rparr>\<rparr>"

definition BUF_SIZE :: int where "BUF_SIZE = 128"
definition OBUF_LOW_WATERMARK :: int where "OBUF_LOW_WATERMARK = 0"
definition OBUF_HIGH_WATERMARK :: int where "OBUF_HIGH_WATERMARK = ((BUF_SIZE - 1) div 8) * 8"
definition IBUF_HI_WATERMARK :: int where "IBUF_HI_WATERMARK = ((BUF_SIZE - 1) div 8) * 8"
definition TRANSACTION_OK :: u8 where "TRANSACTION_OK = 0x01"
definition OBUF_LO_WM_REACHED :: u8 where "OBUF_LO_WM_REACHED = 0x02"
definition IBUF_HI_WM_REACHED :: u8 where "IBUF_HI_WM_REACHED = 0x04"
definition NAK_RECEIVED :: u8 where "NAK_RECEIVED = 0x80"
definition INVALID_LEN :: u8 where "INVALID_LEN = 0x81"

section \<open>Wires\<close>

text \<open>Bus operations work on the bus state alone; \<open>ud\<close> is \<^verbatim>\<open>i2c_data.udelay\<close>, \<open>tmo\<close> the timeout.\<close>

definition sdalo :: "'b i2c_pins \<Rightarrow> int \<Rightarrow> 'b \<Rightarrow> 'b" where
  "sdalo p ud b = pin_udelay p ((ud + 1) div 2) (pin_setsda p False b)"

definition sdahi :: "'b i2c_pins \<Rightarrow> int \<Rightarrow> 'b \<Rightarrow> 'b" where
  "sdahi p ud b = pin_udelay p ((ud + 1) div 2) (pin_setsda p True b)"

definition scllo :: "'b i2c_pins \<Rightarrow> int \<Rightarrow> 'b \<Rightarrow> 'b" where
  "scllo p ud b = pin_udelay p (ud div 2) (pin_setscl p False b)"

partial_function (option) scl_wait :: "'b i2c_pins \<Rightarrow> u32 \<Rightarrow> u32 \<Rightarrow> 'b \<Rightarrow> (int \<times> 'b) option" where
  "scl_wait p tmo start b =
     (let (scl, b) = pin_getscl p b
      in if scl then Some (0, b)
         else let (now, b) = pin_jiffies p b
              in if time_after now (start + tmo) then Some (- ETIMEDOUT, b) else scl_wait p tmo start b)"

definition sclhi :: "'b i2c_pins \<Rightarrow> int \<Rightarrow> u32 \<Rightarrow> 'b \<Rightarrow> (int \<times> 'b) option" where
  "sclhi p ud tmo b =
     (let b = pin_setscl p True b;
          (start, b) = pin_jiffies p b
      in map_option (\<lambda>(r, b). if r < 0 then (r, b) else (0, pin_udelay p ud b)) (scl_wait p tmo start b))"

definition send_start :: "'b i2c_pins \<Rightarrow> int \<Rightarrow> 'b \<Rightarrow> 'b" where
  "send_start p ud b = scllo p ud (pin_udelay p ud (pin_setsda p False b))"

definition send_repstart :: "'b i2c_pins \<Rightarrow> int \<Rightarrow> u32 \<Rightarrow> 'b \<Rightarrow> 'b option" where
  "send_repstart p ud tmo b =
     map_option (\<lambda>(r, b). scllo p ud (pin_udelay p ud (pin_setsda p False b))) (sclhi p ud tmo (sdahi p ud b))"

definition send_stop :: "'b i2c_pins \<Rightarrow> int \<Rightarrow> u32 \<Rightarrow> 'b \<Rightarrow> 'b option" where
  "send_stop p ud tmo b =
     map_option (\<lambda>(r, b). pin_udelay p ud (pin_setsda p True b)) (sclhi p ud tmo (sdalo p ud b))"

text \<open>The bits of a byte, \<open>k\<close> of them still to send, the highest first; the result is negative on a timeout.\<close>

fun send_bits :: "'b i2c_pins \<Rightarrow> int \<Rightarrow> u32 \<Rightarrow> u8 \<Rightarrow> nat \<Rightarrow> 'b \<Rightarrow> (int \<times> 'b) option" where
  "send_bits p ud tmo c 0 b = Some (0, b)"
| "send_bits p ud tmo c (Suc k) b =
     (let b = pin_udelay p ((ud + 1) div 2) (pin_setsda p (bit c k) b)
      in Option.bind (sclhi p ud tmo b) (\<lambda>(r, b).
           if r < 0 then Some (- ETIMEDOUT, b) else send_bits p ud tmo c k (scllo p ud b)))"

definition send_byte :: "'b i2c_pins \<Rightarrow> int \<Rightarrow> u32 \<Rightarrow> u8 \<Rightarrow> 'b \<Rightarrow> (int \<times> 'b) option" where
  "send_byte p ud tmo c b =
     Option.bind (send_bits p ud tmo c 8 b) (\<lambda>(r, b).
       if r < 0 then Some (r, b)
       else Option.bind (sclhi p ud tmo (sdahi p ud b)) (\<lambda>(r, b).
         if r < 0 then Some (- ETIMEDOUT, b)
         else let (sda, b) = pin_getsda p b; ack = \<not> sda
              in Some (if ack then 0 else - 1, scllo p ud b)))"

fun recv_bits :: "'b i2c_pins \<Rightarrow> int \<Rightarrow> u32 \<Rightarrow> nat \<Rightarrow> u8 \<Rightarrow> 'b \<Rightarrow> (int \<times> u8 \<times> 'b) option" where
  "recv_bits p ud tmo 0 out b = Some (0, out, b)"
| "recv_bits p ud tmo (Suc k) out b =
     Option.bind (sclhi p ud tmo b) (\<lambda>(r, b).
       if r < 0 then Some (- ETIMEDOUT, out, b)
       else
         let out = out * 2; (sda, b) = pin_getsda p b;
             out = (if sda then out OR 1 else out);
             b = pin_udelay p (if k = 0 then ud div 2 else ud) (pin_setscl p False b)
         in recv_bits p ud tmo k out b)"

definition recv_byte :: "'b i2c_pins \<Rightarrow> int \<Rightarrow> u32 \<Rightarrow> 'b \<Rightarrow> (int \<times> u8 \<times> 'b) option" where
  "recv_byte p ud tmo b = recv_bits p ud tmo 8 0 (sdahi p ud b)"

definition send_slave_addr :: "'b i2c_pins \<Rightarrow> int \<Rightarrow> u32 \<Rightarrow> u16 \<Rightarrow> bool \<Rightarrow> 'b \<Rightarrow> (int \<times> 'b) option" where
  "send_slave_addr p ud tmo addr force_rd b =
     send_byte p ud tmo (ucast addr OR (if force_rd then 1 else 0)) b"

definition send_acknak :: "'b i2c_pins \<Rightarrow> int \<Rightarrow> u32 \<Rightarrow> bool \<Rightarrow> 'b \<Rightarrow> (int \<times> 'b) option" where
  "send_acknak p ud tmo is_ack b =
     (let b = (if is_ack then pin_setsda p False b else b);
          b = pin_udelay p ((ud + 1) div 2) b
      in map_option (\<lambda>(r, b). if r < 0 then (- ETIMEDOUT, b) else (0, scllo p ud b)) (sclhi p ud tmo b))"

text \<open>A bus operation with the delay and timeout of the transaction, on the whole state.\<close>

definition on_bus ::
  "('e, 'b) i2c_env \<Rightarrow> ('b i2c_pins \<Rightarrow> int \<Rightarrow> u32 \<Rightarrow> 'b \<Rightarrow> ('r \<times> 'b) option) \<Rightarrow> ('e, 'b) i2sys \<Rightarrow> ('r \<times> ('e, 'b) i2sys) option" where
  "on_bus env f s =
     map_option (\<lambda>(r, b). (r, s\<lparr>ev_world := (ev_world s)\<lparr>iw_bus := b\<rparr>\<rparr>))
       (f (ie_pins env) (i2_udelay (the_i2c s)) (i2_timeout (the_i2c s)) (iw_bus (ev_world s)))"

section \<open>Transactions\<close>

definition trigger_go_event :: "('e, 'b) i2c_env \<Rightarrow> ('e, 'b) i2sys \<Rightarrow> int \<times> ('e, 'b) i2sys" where
  "trigger_go_event env s = trigger_event (ie_transaction env) (Some I2C_GO) s"

definition next_state :: "i2c_transaction_state \<Rightarrow> ('e, 'b) i2sys \<Rightarrow> bool \<times> ('e, 'b) i2sys" where
  "next_state st s =
     (st \<noteq> IDLE \<and> st \<noteq> AWAITING_OUTPUT_DATA \<and> st \<noteq> AWAITING_INPUT_SPACE,
      upd_i2c (\<lambda>d. d\<lparr>i2_state := st\<rparr>) s)"

definition bitbang_trigger_irq :: "('e, 'b) i2c_env \<Rightarrow> ('e, 'b) i2sys \<Rightarrow> ('e, 'b) i2sys" where
  "bitbang_trigger_irq env s =
     (let s = s\<lparr>ev_world := (ev_world s)\<lparr>iw_trg_idata := \<lparr>id_func = ie_func env, id_active = True\<rparr>\<rparr>\<rparr>;
          (e, s) = trigger_event (ie_mcuio_irq env) (Some TrgIdata) s
      in if e \<noteq> 0 then ie_printf env ''i2c trg irq: evt err'' s else s)"

definition end_transaction :: "('e, 'b) i2c_env \<Rightarrow> u8 \<Rightarrow> ('e, 'b) i2sys \<Rightarrow> ('e, 'b) i2sys option" where
  "end_transaction env st s =
     map_option
       (\<lambda>(_, s). bitbang_trigger_irq env
          (upd_i2c (\<lambda>d. d\<lparr>i2_status := st, i2_state := (if st \<noteq> TRANSACTION_OK then ERROR else IDLE)\<rparr>) s))
       (on_bus env (\<lambda>p ud tmo b. map_option (Pair ()) (send_stop p ud tmo b)) s)"

definition i2c_handle_reset :: "('e, 'b) i2sys \<Rightarrow> ('e, 'b) i2sys" where
  "i2c_handle_reset s = snd (next_state IDLE (upd_i2c (\<lambda>d. d\<lparr>i2_status := 0\<rparr>) s))"

text \<open>Some of the cases of \<^verbatim>\<open>__i2c_handle_go\<close> apart, so that each can be read on its own.\<close>

definition send_addr ::
  "('e, 'b) i2c_env \<Rightarrow> bool \<Rightarrow> i2c_transaction_state \<Rightarrow> ('e, 'b) i2sys \<Rightarrow> (bool \<times> ('e, 'b) i2sys) option" where
  "send_addr env rd next s =
     Option.bind (on_bus env (\<lambda>p ud tmo. send_slave_addr p ud tmo (slave_address (the_i2c s)) rd) s) (\<lambda>(r, s).
       if r < 0 then map_option (Pair False) (end_transaction env NAK_RECEIVED s)
       else Some (next_state next s))"

definition go_sending :: "('e, 'b) i2c_env \<Rightarrow> ('e, 'b) i2sys \<Rightarrow> (bool \<times> ('e, 'b) i2sys) option" where
  "go_sending env s =
     (let c = i2_buffer (the_i2c s) ! unat (obuf_tail (the_i2c s))
      in Option.bind (on_bus env (\<lambda>p ud tmo. send_byte p ud tmo c) s) (\<lambda>(r, s).
           if r < 0 then
             let s = upd_i2c (\<lambda>d. d\<lparr>obuf_tail := obuf_head d\<rparr>) s
             in map_option (Pair False) (end_transaction env NAK_RECEIVED s)
           else
             let s = upd_i2c (\<lambda>d. d\<lparr>data_cnt := data_cnt d + 1, obuf_tail := (obuf_tail d + 1) AND 127\<rparr>) s;
                 d = the_i2c s
             in if data_cnt d = obuf_len d then
                  Some (next_state DATA_SENT (upd_i2c (\<lambda>d. d\<lparr>obuf_tail := obuf_head d\<rparr>) s))
                else
                  let count = CIRC_CNT (uint (obuf_head d)) (uint (obuf_tail d)) BUF_SIZE;
                      togo = uint (obuf_len d) - uint (data_cnt d);
                      s = (if count = OBUF_LOW_WATERMARK \<and> count < togo
                           then bitbang_trigger_irq env (upd_i2c (\<lambda>d. d\<lparr>i2_status := OBUF_LO_WM_REACHED\<rparr>) s)
                           else s)
                  in Some (next_state (if count \<noteq> 0 then SENDING_DATA else AWAITING_OUTPUT_DATA) s)))"

text \<open>
  A byte received is stored at the head. The comparison of the unsigned 16-bit counter with -1 never
  holds; it is kept with the promotion to \<^verbatim>\<open>int\<close> that the language prescribes. The input length is
  signed.
\<close>

definition go_receiving :: "('e, 'b) i2c_env \<Rightarrow> ('e, 'b) i2sys \<Rightarrow> (bool \<times> ('e, 'b) i2sys) option" where
  "go_receiving env s =
     Option.bind (on_bus env (\<lambda>p ud tmo b. map_option (\<lambda>(r, c, b). (c, b)) (recv_byte p ud tmo b)) s) (\<lambda>(c, s).
       let s = upd_i2c (\<lambda>d. d\<lparr>i2_buffer := (i2_buffer d)[unat (ibuf_head d) := c]\<rparr>) s;
           d = the_i2c s
       in if uint (data_cnt d) = - 1 \<and>
             uint c > CIRC_SPACE (uint (ibuf_head d)) (uint (ibuf_tail d)) BUF_SIZE
          then map_option (Pair False) (end_transaction env INVALID_LEN s)
          else
            let s = (if uint (data_cnt d) = - 1
                     then upd_i2c (\<lambda>d. d\<lparr>data_cnt := 0, ibuf_len := ucast c\<rparr>) s else s);
                s = upd_i2c (\<lambda>d. d\<lparr>data_cnt := data_cnt d + 1\<rparr>) s;
                done = (uint (data_cnt (the_i2c s)) = sint (ibuf_len (the_i2c s)))
            in Option.bind (on_bus env (\<lambda>p ud tmo. send_acknak p ud tmo (\<not> done)) s) (\<lambda>(_, s).
                 let s = upd_i2c (\<lambda>d. d\<lparr>ibuf_head := (ibuf_head d + 1) AND 127\<rparr>) s;
                     d = the_i2c s
                 in if done then Some (next_state DATA_RECEIVED s)
                    else
                      let space = CIRC_SPACE (uint (ibuf_head d)) (uint (ibuf_tail d)) BUF_SIZE;
                          s = (if space = IBUF_HI_WATERMARK
                               then bitbang_trigger_irq env (upd_i2c (\<lambda>d. d\<lparr>i2_status := IBUF_HI_WM_REACHED\<rparr>) s)
                               else s)
                      in Some (next_state (if space \<noteq> 0 then RECEIVING_DATA else AWAITING_INPUT_SPACE) s)))"

definition go_data_sent :: "('e, 'b) i2c_env \<Rightarrow> ('e, 'b) i2sys \<Rightarrow> (bool \<times> ('e, 'b) i2sys) option" where
  "go_data_sent env s =
     (if ibuf_len (the_i2c s) = 0 then map_option (Pair False) (end_transaction env TRANSACTION_OK s)
      else
        Option.bind
          (if obuf_len (the_i2c s) = 0 then
             Some (next_state RECEIVING_DATA
               (upd_i2c (\<lambda>d. d\<lparr>data_cnt := (if sint (ibuf_len d) = - 1 then - 1 else 0)\<rparr>) s))
           else
             map_option (\<lambda>(_, s). next_state REPEATED_START_SENT s)
               (on_bus env (\<lambda>p ud tmo b. map_option (Pair ()) (send_repstart p ud tmo b)) s))
          (\<lambda>(ret, s). Some (ret, upd_i2c (\<lambda>d. d\<lparr>data_cnt := 0\<rparr>) s)))"

definition i2c_handle_go :: "('e, 'b) i2c_env \<Rightarrow> ('e, 'b) i2sys \<Rightarrow> (bool \<times> ('e, 'b) i2sys) option" where
  "i2c_handle_go env s =
     (let s = upd_i2c (\<lambda>d. d\<lparr>i2_timeout := ie_hz env, i2_udelay := 1\<rparr>) s
      in case i2_state (the_i2c s) of
           IDLE \<Rightarrow>
             map_option (\<lambda>(_, s). next_state START_SENT s)
               (on_bus env (\<lambda>p ud tmo b. Some ((), send_start p ud b)) s)
         | START_SENT \<Rightarrow>
             send_addr env (ibuf_len (the_i2c s) \<noteq> 0 \<and> obuf_len (the_i2c s) = 0) ADDR_SENT s
         | ADDR_SENT \<Rightarrow>
             if obuf_len (the_i2c s) = 0 then Some (next_state DATA_SENT s)
             else Some (next_state SENDING_DATA (upd_i2c (\<lambda>d. d\<lparr>data_cnt := 0\<rparr>) s))
         | SENDING_DATA \<Rightarrow> go_sending env s
         | DATA_SENT \<Rightarrow> go_data_sent env s
         | REPEATED_START_SENT \<Rightarrow> send_addr env True ADDR_SENT_2 s
         | ADDR_SENT_2 \<Rightarrow>
             Some (next_state RECEIVING_DATA
               (upd_i2c (\<lambda>d. d\<lparr>data_cnt := (if sint (ibuf_len d) = - 1 then - 1 else 0)\<rparr>) s))
         | RECEIVING_DATA \<Rightarrow> go_receiving env s
         | DATA_RECEIVED \<Rightarrow> map_option (Pair False) (end_transaction env TRANSACTION_OK s)
         | AWAITING_OUTPUT_DATA \<Rightarrow> Some (False, s)
         | AWAITING_INPUT_SPACE \<Rightarrow> Some (False, s)
         | ERROR \<Rightarrow> Some (False, s))"

partial_function (option) go_loop :: "('e, 'b) i2c_env \<Rightarrow> ('e, 'b) i2sys \<Rightarrow> ('e, 'b) i2sys option" where
  "go_loop env s = Option.bind (i2c_handle_go env s) (\<lambda>(more, s). if more then go_loop env s else Some s)"

definition do_transaction :: "('e, 'b) i2c_env \<Rightarrow> i2c_edata \<Rightarrow> ('e, 'b) i2sys \<Rightarrow> ('e, 'b) i2sys option" where
  "do_transaction env evt s =
     (case evt of
        I2C_RESET \<Rightarrow> Some (i2c_handle_reset s)
      | I2C_GO \<Rightarrow> go_loop env s
      | _ \<Rightarrow> Some (ie_printf env ''i2c do trans'' s))"

definition start_transaction :: "('e, 'b) i2c_env \<Rightarrow> ('e, 'b) i2sys \<Rightarrow> int \<times> ('e, 'b) i2sys" where
  "start_transaction env s = trigger_event (ie_transaction env) (Some I2C_GO) s"

section \<open>Registers\<close>

definition I2C_MCUIO_XFER_DATA :: u32 where "I2C_MCUIO_XFER_DATA = 0x008"
definition I2C_MCUIO_STATUS :: u32 where "I2C_MCUIO_STATUS = 0x00c"
definition I2C_MCUIO_CFG :: u32 where "I2C_MCUIO_CFG = 0x010"
definition I2C_MCUIO_BRATE :: u32 where "I2C_MCUIO_BRATE = 0x014"
definition I2C_MCUIO_CMD :: u32 where "I2C_MCUIO_CMD = 0x018"
definition I2C_MCUIO_BUF_SIZE :: u32 where "I2C_MCUIO_BUF_SIZE = 0x020"
definition START_TRANSACTION :: u32 where "START_TRANSACTION = 1"
definition INTEN :: u32 where "INTEN = 2"

text \<open>Reading the status clears the interrupt and, outside a transfer, schedules a reset.\<close>

definition status_read :: "('e, 'b) i2c_env \<Rightarrow> ('e, 'b) i2sys \<Rightarrow> ('e, 'b) i2sys" where
  "status_read env s =
     (if i2_status (the_i2c s) = 0 then s
      else
        let s = s\<lparr>ev_world := (ev_world s)\<lparr>iw_rd_idata := \<lparr>id_func = ie_func env, id_active = False\<rparr>\<rparr>\<rparr>;
            (e, s) = trigger_event (ie_mcuio_irq env) (Some RdIdata) s;
            s = (if e \<noteq> 0 then ie_printf env ''i2c reg rddw: evt err'' s else s)
        in if i2_state (the_i2c s) \<noteq> AWAITING_OUTPUT_DATA \<and> i2_state (the_i2c s) \<noteq> AWAITING_INPUT_SPACE
              \<and> i2_state (the_i2c s) \<noteq> SENDING_DATA \<and> i2_state (the_i2c s) \<noteq> RECEIVING_DATA
           then snd (trigger_event (ie_transaction env) (Some I2C_RESET) s) else s)"

definition read_reg :: "('e, 'b) i2c_env \<Rightarrow> u32 \<Rightarrow> ('e, 'b) i2sys \<Rightarrow> (u32 \<times> ('e, 'b) i2sys) option" where
  "read_reg env reg s =
     (let d = the_i2c s
      in if reg = I2C_MCUIO_XFER_DATA then
           Some (ucast (slave_address d) OR push_bit 8 (ucast (obuf_len d)) OR push_bit 16 (scast (ibuf_len d)), s)
         else if reg = I2C_MCUIO_STATUS then
           let icount = word_of_int (CIRC_CNT (uint (ibuf_head d)) (uint (ibuf_tail d)) BUF_SIZE);
               ospace = word_of_int (CIRC_SPACE (uint (obuf_head d)) (uint (obuf_tail d)) BUF_SIZE)
           in Some (ucast (i2_status d) OR push_bit 8 icount OR push_bit 16 ospace, status_read env s)
         else if reg = I2C_MCUIO_CFG \<or> reg = I2C_MCUIO_BRATE then Some (0, s)
         else if reg = I2C_MCUIO_CMD then Some (0, s)
         else if reg = I2C_MCUIO_BUF_SIZE then Some (word_of_int BUF_SIZE, s)
         else None)"

text \<open>One dword, or two with the fill flag; an unknown register ends the access.\<close>

definition registers_rddw :: "('e, 'b) i2c_env \<Rightarrow> ('e, 'b) i2sys mcuio_read" where
  "registers_rddw env r offset out fill s =
     Some (case read_reg env (offset + r_start r) s of
             None \<Rightarrow> (- EPERM, out, s)
           | Some (v, s) \<Rightarrow>
               let out = copy_at out 0 (le32 v)
               in if fill then
                    (case read_reg env (4 + offset + r_start r) s of
                       None \<Rightarrow> (- EPERM, out, s)
                     | Some (v, s) \<Rightarrow> (8, copy_at out 4 (le32 v), s))
                  else (4, out, s))"

definition write_reg :: "('e, 'b) i2c_env \<Rightarrow> u32 \<Rightarrow> u32 \<Rightarrow> ('e, 'b) i2sys \<Rightarrow> int \<times> ('e, 'b) i2sys" where
  "write_reg env reg v s =
     (if reg = I2C_MCUIO_XFER_DATA then
        (0, upd_i2c (\<lambda>d. d\<lparr>slave_address := ucast (v AND 0xff), obuf_len := ucast (drop_bit 8 v AND 0xfff),
                          ibuf_len := ucast (drop_bit 20 v AND 0xfff)\<rparr>) s)
      else if reg = I2C_MCUIO_STATUS then (- EPERM, s)
      else if reg = I2C_MCUIO_CFG \<or> reg = I2C_MCUIO_BRATE then (0, s)
      else if reg = I2C_MCUIO_CMD then
        let (stat, s) = (if v AND START_TRANSACTION \<noteq> 0 then start_transaction env s else (0, s))
        in if stat < 0 then (stat, s)
           else (0, upd_i2c (\<lambda>d. d\<lparr>int_enable := ucast (v AND INTEN)\<rparr>) s)
      else (- EPERM, s))"

definition registers_wrdw :: "('e, 'b) i2c_env \<Rightarrow> ('e, 'b) i2sys mcuio_write" where
  "registers_wrdw env r offset inp fill s =
     (let (e, s) = write_reg env (offset + r_start r) (get32 inp) s
      in if e < 0 then Some (e, s)
         else if fill then
           let (e, s) = write_reg env (4 + offset + r_start r) (get32 (drop 4 inp)) s
           in if e < 0 then Some (e, s) else Some (8, s)
         else Some (4, s))"

section \<open>Data buffers\<close>

text \<open>
  A write of \<open>sz\<close> bytes into the output ring, in one or two pieces; the value returned is what was
  left after the first piece. A write that completes what a waiting transaction needs resumes it.
\<close>

definition obuf_wrb :: "('e, 'b) i2c_env \<Rightarrow> ('e, 'b) i2sys mcuio_write" where
  "obuf_wrb env r offset inp fill s =
     (let d = the_i2c s;
          sz = (if fill then 8 else 1);
          space = CIRC_SPACE (uint (obuf_head d)) (uint (obuf_tail d)) BUF_SIZE
      in if sz > space then Some (- EINVAL, s)
         else
           let l = min sz (CIRC_SPACE_TO_END (uint (obuf_head d)) (uint (obuf_tail d)) BUF_SIZE);
               buf = copy_at (i2_buffer d) (unat (obuf_head d)) (take (nat l) inp);
               sz = sz - l; space = space - l;
               l2 = (if sz > 0 then min sz space else 0);
               buf = copy_at buf 0 (take (nat l2) (drop (nat l) inp));
               written = l + l2;
               s = upd_i2c (\<lambda>d. d\<lparr>i2_buffer := buf, obuf_head := (obuf_head d + word_of_int written) AND 127\<rparr>) s;
               d = the_i2c s;
               togo = uint (obuf_len d) - uint (data_cnt d);
               have_cnt = CIRC_CNT (uint (obuf_head d)) (uint (obuf_tail d)) BUF_SIZE
           in Some (sz, if i2_state d = AWAITING_OUTPUT_DATA \<and> have_cnt \<ge> min togo OBUF_HIGH_WATERMARK
                        then snd (trigger_go_event env (snd (next_state SENDING_DATA s))) else s))"

definition ibuf_rdb :: "('e, 'b) i2c_env \<Rightarrow> ('e, 'b) i2sys mcuio_read" where
  "ibuf_rdb env r offset out fill s =
     (let d = the_i2c s;
          sz = (if fill then 8 else 1);
          count = CIRC_CNT (uint (ibuf_head d)) (uint (ibuf_tail d)) BUF_SIZE
      in if sz > count then Some (- EINVAL, out, s)
         else
           let l = min sz (CIRC_CNT_TO_END (uint (ibuf_head d)) (uint (ibuf_tail d)) BUF_SIZE);
               out = copy_at out 0 (take (nat l) (drop (unat (ibuf_tail d)) (i2_buffer d)));
               sz = sz - l; count = count - l;
               l2 = (if sz > 0 then min sz count else 0);
               out = copy_at out (nat l) (take (nat l2) (i2_buffer d));
               rd = l + l2;
               s = upd_i2c (\<lambda>d. d\<lparr>ibuf_tail := (ibuf_tail d + word_of_int rd) AND 127\<rparr>) s
           in Some (sz, out, if i2_state (the_i2c s) = AWAITING_INPUT_SPACE
                             then snd (trigger_go_event env (snd (next_state RECEIVING_DATA s))) else s))"

definition i2c_registers_rw_ops :: "('e, 'b) i2c_env \<Rightarrow> ('e, 'b) i2sys mcuio_range_ops" where
  "i2c_registers_rw_ops env =
     \<lparr>rng_rd = [None, None, Some (registers_rddw env), None], rng_wr = [None, None, Some (registers_wrdw env), None]\<rparr>"

definition i2c_obuf_wr_ops :: "('e, 'b) i2c_env \<Rightarrow> ('e, 'b) i2sys mcuio_range_ops" where
  "i2c_obuf_wr_ops env = \<lparr>rng_rd = [None, None, None, None], rng_wr = [Some (obuf_wrb env), None, None, None]\<rparr>"

definition i2c_ibuf_rd_ops :: "('e, 'b) i2c_env \<Rightarrow> ('e, 'b) i2sys mcuio_range_ops" where
  "i2c_ibuf_rd_ops env = \<lparr>rng_rd = [Some (ibuf_rdb env), None, None, None], rng_wr = [None, None, None, None]\<rparr>"

end
