(* ===== verification/I2cProps.thy ===== *)
theory I2cProps
  imports McuioI2c
begin

text \<open>
  Facts on the I2C function: on a bus where every wait for the clock ends, each transaction comes to
  rest; and what the byte operations put on the wires and read from them.
\<close>

section \<open>Bus operations return\<close>

text \<open>
  The hypothesis on the hardware: a wait for the clock line to rise ends, because the slave releases
  it or because the time passes.
\<close>

definition bus_live :: "'b i2c_pins \<Rightarrow> bool" where
  "bus_live p \<longleftrightarrow> (\<forall>tmo start b. scl_wait p tmo start b \<noteq> None)"

lemma sclhi_live: "bus_live p \<Longrightarrow> sclhi p ud tmo b \<noteq> None"
  by (simp add: sclhi_def bus_live_def Let_def split_beta)

lemma send_bits_live: "bus_live p \<Longrightarrow> send_bits p ud tmo c k b \<noteq> None"
  by (induction k arbitrary: b) (auto simp: Let_def sclhi_live split: Option.bind_splits)

lemma recv_bits_live: "bus_live p \<Longrightarrow> recv_bits p ud tmo k out b \<noteq> None"
  by (induction k arbitrary: out b) (auto simp: Let_def sclhi_live split_beta split: Option.bind_splits)

lemma byte_live:
  assumes "bus_live p"
  shows "send_byte p ud tmo c b \<noteq> None" "recv_byte p ud tmo b \<noteq> None" "send_acknak p ud tmo a b \<noteq> None"
    "send_repstart p ud tmo b \<noteq> None" "send_stop p ud tmo b \<noteq> None" "send_slave_addr p ud tmo ad rd b \<noteq> None"
proof -
  show b: "send_byte p ud tmo c b \<noteq> None" for c
    using send_bits_live [OF assms, of ud tmo c 8 b] sclhi_live [OF assms]
    by (auto simp: send_byte_def split_beta bind_eq_None_conv simp del: not_None_eq)
  then show "send_slave_addr p ud tmo ad rd b \<noteq> None" unfolding send_slave_addr_def .
qed (use recv_bits_live [OF assms] sclhi_live [OF assms] in
    \<open>simp_all add: recv_byte_def send_acknak_def send_repstart_def send_stop_def Let_def\<close>)

section \<open>What the operations keep\<close>

lemma the_i2c_upd [simp]: "the_i2c (upd_i2c f s) = f (the_i2c s)"
  by (simp add: upd_i2c_def)

lemma on_bus_i2c: "on_bus env f s = Some (r, s') \<Longrightarrow> the_i2c s' = the_i2c s"
  by (auto simp: on_bus_def)

lemma on_bus_live:
  assumes "\<And>ud tmo b. f (ie_pins env) ud tmo b \<noteq> None"
  shows "\<exists>r s'. on_bus env f s = Some (r, s') \<and> the_i2c s' = the_i2c s"
  using assms [of "i2_udelay (the_i2c s)" "i2_timeout (the_i2c s)" "iw_bus (ev_world s)"]
  by (auto simp: on_bus_def)

definition quiet_env :: "('e, 'b) i2c_env \<Rightarrow> bool" where
  "quiet_env env \<longleftrightarrow> (\<forall>m s. the_i2c (ie_printf env m s) = the_i2c s)"

lemma irq_i2c: "quiet_env env \<Longrightarrow> the_i2c (bitbang_trigger_irq env s) = the_i2c s"
  by (simp add: bitbang_trigger_irq_def quiet_env_def Let_def split_beta)

section \<open>Progress\<close>

definition resting :: "i2c_transaction_state \<Rightarrow> bool" where
  "resting st \<longleftrightarrow> st = IDLE \<or> st = ERROR \<or> st = AWAITING_OUTPUT_DATA \<or> st = AWAITING_INPUT_SPACE"

lemma end_transaction_rests:
  assumes "bus_live (ie_pins env)" "quiet_env env"
  shows "\<exists>s'. end_transaction env st s = Some s' \<and> resting (i2_state (the_i2c s'))"
proof -
  obtain r s1 where "on_bus env (\<lambda>p ud tmo b. map_option (Pair ()) (send_stop p ud tmo b)) s = Some (r, s1)"
    using on_bus_live [of "\<lambda>p ud tmo b. map_option (Pair ()) (send_stop p ud tmo b)" env s] byte_live [OF assms(1)] by auto
  then show ?thesis by (simp add: end_transaction_def irq_i2c [OF assms(2)] resting_def)
qed

text \<open>
  A rank for every state, with the bytes still to send or the space still free inside the two loops;
  a ring that is empty, or full, counts as one more than it can hold, because the first byte wraps it.
\<close>

definition cyc :: "int \<Rightarrow> nat" where
  "cyc k = (if k = 0 then 128 else nat k)"

definition togo :: "mcuio_i2c_data \<Rightarrow> nat" where
  "togo d =
     (case i2_state d of
        IDLE \<Rightarrow> 2000 | START_SENT \<Rightarrow> 1800 | ADDR_SENT \<Rightarrow> 1600
      | SENDING_DATA \<Rightarrow> 1400 + cyc (CIRC_CNT (uint (obuf_head d)) (uint (obuf_tail d)) BUF_SIZE)
      | DATA_SENT \<Rightarrow> 1200 | REPEATED_START_SENT \<Rightarrow> 1000 | ADDR_SENT_2 \<Rightarrow> 800
      | RECEIVING_DATA \<Rightarrow> 600 + cyc (CIRC_SPACE (uint (ibuf_head d)) (uint (ibuf_tail d)) BUF_SIZE)
      | DATA_RECEIVED \<Rightarrow> 400 | _ \<Rightarrow> 0)"

definition progress :: "('e, 'b) i2sys \<Rightarrow> (bool \<times> ('e, 'b) i2sys) option \<Rightarrow> bool" where
  "progress s r \<longleftrightarrow> (\<exists>more s'. r = Some (more, s') \<and>
     (if more then togo (the_i2c s') < togo (the_i2c s) else resting (i2_state (the_i2c s'))))"

lemma and_127_mod: "(x :: int) AND 127 = x mod 128"
  using int_and_mask_mod [of x 7] by simp

lemma uint_next: "uint ((x + 1) AND 127 :: u8) = (uint x + 1) mod 128"
proof -
  have "uint ((x + 1) AND 127 :: u8) = uint (x + 1) AND 127" by (simp add: uint_and)
  also have "\<dots> = uint (x + 1) mod 128" by (rule and_127_mod)
  also have "\<dots> = ((uint x + 1) mod 256) mod 128" by (simp add: uint_word_ariths)
  also have "\<dots> = (uint x + 1) mod 128" by (simp add: mod_mod_cancel)
  finally show ?thesis .
qed

lemma circ_mod: "CIRC_CNT h t BUF_SIZE = (h - t) mod 128" "CIRC_SPACE h t BUF_SIZE = (t - (h + 1)) mod 128"
  by (simp_all add: CIRC_CNT_def CIRC_SPACE_def BUF_SIZE_def and_127_mod)

lemma cyc_pred: "(k - 1) mod 128 \<noteq> (0 :: int) \<Longrightarrow> cyc ((k - 1) mod 128) < cyc (k mod 128)"
proof -
  assume a: "(k - 1) mod 128 \<noteq> (0 :: int)"
  have e: "(k - 1) mod 128 = (k mod 128 - 1) mod 128" by (simp add: mod_diff_left_eq)
  have b: "0 \<le> k mod 128" "k mod 128 < 128" by simp_all
  show ?thesis
  proof (cases "k mod 128 = 0")
    case True
    then show ?thesis by (simp add: e cyc_def)
  next
    case False
    then have "(k mod 128 - 1) mod 128 = k mod 128 - 1" using b by (intro mod_pos_pos_trivial) linarith+
    then show ?thesis using False b a by (simp add: e cyc_def)
  qed
qed

lemma cyc_bound: "cyc (CIRC_CNT h t BUF_SIZE) \<le> 128" "cyc (CIRC_SPACE h t BUF_SIZE) \<le> 128"
proof -
  have "cyc (k mod 128) \<le> 128" for k
    using less_imp_le [OF pos_mod_bound [of 128 k]] by (simp add: cyc_def nat_le_iff)
  then show "cyc (CIRC_CNT h t BUF_SIZE) \<le> 128" "cyc (CIRC_SPACE h t BUF_SIZE) \<le> 128"
    by (simp_all add: circ_mod)
qed

lemma sent_one:
  assumes "CIRC_CNT (uint h) (uint ((t + 1) AND 127 :: u8)) BUF_SIZE \<noteq> 0"
  shows "cyc (CIRC_CNT (uint h) (uint ((t + 1) AND 127 :: u8)) BUF_SIZE) < cyc (CIRC_CNT (uint h) (uint t) BUF_SIZE)"
proof -
  have "(uint h - (uint t + 1) mod 128) mod 128 = (uint h - uint t - 1) mod 128"
    by (simp add: mod_diff_right_eq algebra_simps)
  then show ?thesis using assms cyc_pred [of "uint h - uint t"] by (simp add: circ_mod uint_next)
qed

lemma received_one:
  assumes "CIRC_SPACE (uint ((h + 1) AND 127 :: u8)) (uint t) BUF_SIZE \<noteq> 0"
  shows "cyc (CIRC_SPACE (uint ((h + 1) AND 127 :: u8)) (uint t) BUF_SIZE) < cyc (CIRC_SPACE (uint h) (uint t) BUF_SIZE)"
proof -
  have "(uint t - ((uint h + 1) mod 128 + 1)) mod 128 = (uint t - (uint h + 1) - 1) mod 128"
    using mod_diff_right_eq [of "uint t - 1" "uint h + 1" 128] by (simp add: algebra_simps)
  then show ?thesis using assms cyc_pred [of "uint t - (uint h + 1)"] by (simp add: circ_mod uint_next)
qed

lemmas state_simps = next_state_def resting_def togo_def

lemma send_addr_progress:
  assumes "bus_live (ie_pins env)" "quiet_env env" "i2_state (the_i2c s) = START_SENT \<and> next = ADDR_SENT
    \<or> i2_state (the_i2c s) = REPEATED_START_SENT \<and> next = ADDR_SENT_2"
  shows "progress s (send_addr env rd next s)"
proof -
  obtain r s1 where 1: "on_bus env (\<lambda>p ud tmo. send_slave_addr p ud tmo (slave_address (the_i2c s)) rd) s = Some (r, s1)"
    "the_i2c s1 = the_i2c s"
    using on_bus_live [of "\<lambda>p ud tmo. send_slave_addr p ud tmo (slave_address (the_i2c s)) rd" env s]
      byte_live(6) [OF assms(1)] by blast
  obtain s2 where 2: "end_transaction env NAK_RECEIVED s1 = Some s2" "resting (i2_state (the_i2c s2))"
    using end_transaction_rests [OF assms(1,2)] by blast
  show ?thesis
    using 1 2 assms(3) by (cases "r < 0") (auto simp: send_addr_def progress_def state_simps)
qed

lemma go_sending_progress:
  assumes "bus_live (ie_pins env)" "quiet_env env" "i2_state (the_i2c s) = SENDING_DATA"
  shows "progress s (go_sending env s)"
proof -
  let ?c = "i2_buffer (the_i2c s) ! unat (obuf_tail (the_i2c s))"
  obtain r s1 where 1: "on_bus env (\<lambda>p ud tmo. send_byte p ud tmo ?c) s = Some (r, s1)" "the_i2c s1 = the_i2c s"
    using on_bus_live [of "\<lambda>p ud tmo. send_byte p ud tmo ?c" env s] byte_live(1) [OF assms(1)] by blast
  obtain s2 where 2: "end_transaction env NAK_RECEIVED (upd_i2c (\<lambda>d. d\<lparr>obuf_tail := obuf_head d\<rparr>) s1) = Some s2"
    "resting (i2_state (the_i2c s2))" using end_transaction_rests [OF assms(1,2)] by blast
  show ?thesis
    using 1 2 assms(3) sent_one [of "obuf_head (the_i2c s)" "obuf_tail (the_i2c s)"]
    by (cases "r < 0") (auto simp: go_sending_def progress_def state_simps Let_def irq_i2c [OF assms(2)])
qed

lemma go_receiving_progress:
  assumes "bus_live (ie_pins env)" "quiet_env env" "i2_state (the_i2c s) = RECEIVING_DATA"
  shows "progress s (go_receiving env s)"
proof -
  obtain c s1 where 1: "on_bus env (\<lambda>p ud tmo b. map_option (\<lambda>(r, c, b). (c, b)) (recv_byte p ud tmo b)) s = Some (c, s1)"
    "the_i2c s1 = the_i2c s"
    using on_bus_live [of "\<lambda>p ud tmo b. map_option (\<lambda>(r, c, b). (c, b)) (recv_byte p ud tmo b)" env s]
      byte_live(2) [OF assms(1)] by auto
  let ?s1 = "upd_i2c (\<lambda>d. d\<lparr>i2_buffer := (i2_buffer d)[unat (ibuf_head d) := c]\<rparr>) s1"
  let ?s2 = "upd_i2c (\<lambda>d. d\<lparr>data_cnt := data_cnt d + 1\<rparr>) ?s1"
  let ?done = "uint (data_cnt (the_i2c ?s2)) = sint (ibuf_len (the_i2c ?s2))"
  obtain r s3 where 3: "on_bus env (\<lambda>p ud tmo. send_acknak p ud tmo (\<not> ?done)) ?s2 = Some (r, s3)" "the_i2c s3 = the_i2c ?s2"
    using on_bus_live [of "\<lambda>p ud tmo. send_acknak p ud tmo (\<not> ?done)" env ?s2] byte_live(3) [OF assms(1)] by blast
  have never: "uint (data_cnt (the_i2c ?s1)) \<noteq> - 1" using uint_ge_0 [of "data_cnt (the_i2c ?s1)"] by linarith
  have "go_receiving env s = Option.bind (on_bus env (\<lambda>p ud tmo. send_acknak p ud tmo (\<not> ?done)) ?s2) (\<lambda>(_, s).
                 let s = upd_i2c (\<lambda>d. d\<lparr>ibuf_head := (ibuf_head d + 1) AND 127\<rparr>) s;
                     d = the_i2c s
                 in if ?done then Some (next_state DATA_RECEIVED s)
                    else
                      let space = CIRC_SPACE (uint (ibuf_head d)) (uint (ibuf_tail d)) BUF_SIZE;
                          s = (if space = IBUF_HI_WATERMARK
                               then bitbang_trigger_irq env (upd_i2c (\<lambda>d. d\<lparr>i2_status := IBUF_HI_WM_REACHED\<rparr>) s)
                               else s)
                      in Some (next_state (if space \<noteq> 0 then RECEIVING_DATA else AWAITING_INPUT_SPACE) s))"
    unfolding go_receiving_def 1(1) using never by (simp add: Let_def)
  then show ?thesis
    using 1(2) 3 assms(3) received_one [of "ibuf_head (the_i2c s)" "ibuf_tail (the_i2c s)"]
    by (cases ?done) (auto simp: progress_def state_simps Let_def irq_i2c [OF assms(2)])
qed

lemma go_data_sent_progress:
  assumes "bus_live (ie_pins env)" "quiet_env env" "i2_state (the_i2c s) = DATA_SENT"
  shows "progress s (go_data_sent env s)"
proof -
  obtain r s1 where 1: "on_bus env (\<lambda>p ud tmo b. map_option (Pair ()) (send_repstart p ud tmo b)) s = Some (r, s1)"
    "the_i2c s1 = the_i2c s"
    using on_bus_live [of "\<lambda>p ud tmo b. map_option (Pair ()) (send_repstart p ud tmo b)" env s] byte_live(4) [OF assms(1)] by auto
  obtain s2 where 2: "end_transaction env TRANSACTION_OK s = Some s2" "resting (i2_state (the_i2c s2))"
    using end_transaction_rests [OF assms(1,2)] by blast
  have "600 + cyc (CIRC_SPACE h t BUF_SIZE) < 1200" for h t using cyc_bound(2) [of h t] by simp
  then show ?thesis
    using 1 2 assms(3) by (auto simp: go_data_sent_def progress_def state_simps)
qed

lemma handle_go_progress:
  assumes "bus_live (ie_pins env)" "quiet_env env"
  shows "progress s (i2c_handle_go env s)"
proof -
  let ?s = "upd_i2c (\<lambda>d. d\<lparr>i2_timeout := ie_hz env, i2_udelay := 1\<rparr>) s"
  have t: "togo (the_i2c ?s) = togo (the_i2c s)" "i2_state (the_i2c ?s) = i2_state (the_i2c s)"
    by (simp_all add: togo_def split: i2c_transaction_state.splits)
  then have p: "progress s r = progress ?s r" for r by (simp only: progress_def t)
  obtain r s1 where st: "on_bus env (\<lambda>p ud tmo b. Some ((), send_start p ud b)) ?s = Some (r, s1)" "the_i2c s1 = the_i2c ?s"
    using on_bus_live [of "\<lambda>p ud tmo b. Some ((), send_start p ud b)" env ?s] by auto
  obtain s2 where en: "end_transaction env TRANSACTION_OK ?s = Some s2" "resting (i2_state (the_i2c s2))"
    using end_transaction_rests [OF assms] by blast
  have c: "1400 + cyc (CIRC_CNT h k BUF_SIZE) < 1600" "600 + cyc (CIRC_SPACE h k BUF_SIZE) < 800" for h k
    using cyc_bound [of h k] by simp_all
  show ?thesis
    unfolding p i2c_handle_go_def Let_def
    using assms st en c send_addr_progress [OF assms, of ?s] go_sending_progress [OF assms, of ?s]
      go_receiving_progress [OF assms, of ?s] go_data_sent_progress [OF assms, of ?s]
    by (cases "i2_state (the_i2c s)") (auto simp: progress_def state_simps)
qed

text \<open>
  C8. An I2C transaction always comes to rest: on a bus where every wait for the clock ends, the
  handler of a go event returns, with the transaction finished, failed, or waiting for the host to
  bring more bytes or to take some.
\<close>

theorem i2c_transaction_rests:
  assumes "bus_live (ie_pins env)" "quiet_env env"
  shows "\<exists>s'. do_transaction env I2C_GO s = Some s' \<and> resting (i2_state (the_i2c s'))"
proof (induction "togo (the_i2c s)" arbitrary: s rule: less_induct)
  case less
  from handle_go_progress [OF assms, of s] obtain more s1 where
    1: "i2c_handle_go env s = Some (more, s1)"
    "if more then togo (the_i2c s1) < togo (the_i2c s) else resting (i2_state (the_i2c s1))"
    by (auto simp: progress_def)
  show ?case
    using 1 less [of s1] by (cases more) (simp_all add: do_transaction_def go_loop.simps [of env s])
qed

section \<open>Bytes on the wires\<close>

text \<open>
  A model of the two wires with a slave. A line is high when nobody pulls it low. The master's part is what the pins do; \<open>w_scl\<close> and \<open>w_sda\<close> tell whether it has
  released the lines. The slave holds the clock low for \<open>w_stretch\<close> reads after the master has released it (\<open>w_hold\<close> of them are left), puts one of its bits
  on the data line for every clock pulse, and goes on to the next when the clock falls after the pulse. Both sides see the data line at the rising edge (\<open>w_seen\<close>). A
  read of the data line while the clock is low has no meaning: it gives \<open>w_noise\<close>.
\<close>

record wire =
  w_sda :: bool
  w_scl :: bool
  w_stretch :: nat
  w_hold :: nat
  w_noise :: bool
  w_seen :: "bool list"
  w_slave :: "bool list"

definition wire_level :: "wire \<Rightarrow> bool" where
  "wire_level b \<longleftrightarrow> w_sda b \<and> (case w_slave b of [] \<Rightarrow> True | x # xs \<Rightarrow> x)"

definition wire_rise :: "wire \<Rightarrow> wire" where
  "wire_rise b = b\<lparr>w_hold := 0, w_seen := w_seen b @ [wire_level b]\<rparr>"

fun wire_dir :: "i2c_line \<Rightarrow> bool \<Rightarrow> bool \<Rightarrow> wire \<Rightarrow> wire" where
  "wire_dir GPIO_SDA out v b = b\<lparr>w_sda := (out \<longrightarrow> v)\<rparr>"
| "wire_dir GPIO_SCL out v b =
     (if out \<and> \<not> v then
        (if w_scl b \<and> w_hold b = 0 then b\<lparr>w_scl := False, w_slave := tl (w_slave b)\<rparr> else b\<lparr>w_scl := False, w_hold := 0\<rparr>)
      else if w_scl b then b
      else if w_stretch b = 0 then wire_rise (b\<lparr>w_scl := True\<rparr>)
      else b\<lparr>w_scl := True, w_hold := w_stretch b\<rparr>)"

fun wire_get :: "i2c_line \<Rightarrow> wire \<Rightarrow> bool \<times> wire" where
  "wire_get GPIO_SDA b = (if w_scl b \<and> w_hold b = 0 then wire_level b else w_noise b, b)"
| "wire_get GPIO_SCL b =
     (if \<not> w_scl b then (False, b)
      else case w_hold b of 0 \<Rightarrow> (True, b) | Suc 0 \<Rightarrow> (False, wire_rise b) | Suc n \<Rightarrow> (False, b\<lparr>w_hold := n\<rparr>))"

definition wire_pins :: "wire i2c_pins" where
  "wire_pins = bitbang_pins \<lparr>ig_dir = wire_dir, ig_get = wire_get, ig_udelay = (\<lambda>n b. b), ig_jiffies = (\<lambda>b. (0, b))\<rparr>"

lemma wire_pins_simps [simp]:
  "pin_setsda wire_pins v b = b\<lparr>w_sda := v\<rparr>" "pin_udelay wire_pins n b = b" "pin_getscl wire_pins b = wire_get GPIO_SCL b"
  "pin_getsda wire_pins b = wire_get GPIO_SDA b" "pin_jiffies wire_pins b = (0, b)" "sdahi wire_pins ud b = b\<lparr>w_sda := True\<rparr>"
  by (cases v; simp add: wire_pins_def bitbang_pins_def setsda_def getscl_def getsda_def sdahi_def)+

lemma wire_setscl_high:
  "\<not> w_scl b \<Longrightarrow> pin_setscl wire_pins True b = (if w_stretch b = 0 then wire_rise (b\<lparr>w_scl := True\<rparr>) else b\<lparr>w_scl := True, w_hold := w_stretch b\<rparr>)"
  by (simp add: wire_pins_def bitbang_pins_def setscl_def wire_rise_def)

text \<open>The wait for the clock ends with the rising edge, when the timeout is not negative.\<close>

lemma wire_wait:
  assumes "0 \<le> sint tmo" "w_scl b" "0 < w_hold b"
  shows "scl_wait wire_pins tmo 0 b = Some (0, wire_rise b)"
  using assms(2,3)
proof (induction "w_hold b" arbitrary: b)
  case (Suc n)
  have t: "\<not> time_after 0 (0 + tmo)" using assms(1) by (simp add: time_after_def)
  show ?case
  proof (cases n)
    case 0
    have "w_scl (wire_rise b)" "w_hold (wire_rise b) = 0" using Suc.prems by (simp_all add: wire_rise_def)
    then have "scl_wait wire_pins tmo 0 (wire_rise b) = Some (0, wire_rise b)" by (subst scl_wait.simps) simp
    with 0 Suc.prems Suc.hyps(2) t show ?thesis by (subst scl_wait.simps) (simp flip: Suc.hyps(2))
  next
    case (Suc m)
    let ?b = "b\<lparr>w_hold := n\<rparr>"
    have "scl_wait wire_pins tmo 0 ?b = Some (0, wire_rise ?b)" using Suc.hyps(1) [of ?b] Suc.prems Suc by simp
    moreover have "wire_rise ?b = wire_rise b" by (simp add: wire_rise_def wire_level_def)
    ultimately show ?thesis using Suc Suc.prems Suc.hyps(2) t by (subst scl_wait.simps) (simp flip: Suc.hyps(2))
  qed
qed simp

lemma wire_sclhi:
  assumes "0 \<le> sint tmo" "\<not> w_scl b"
  shows "sclhi wire_pins ud tmo b = Some (0, wire_rise (b\<lparr>w_scl := True\<rparr>))"
proof (cases "w_stretch b")
  case 0
  have "scl_wait wire_pins tmo 0 (wire_rise (b\<lparr>w_scl := True\<rparr>)) = Some (0, wire_rise (b\<lparr>w_scl := True\<rparr>))"
    by (subst scl_wait.simps) (simp add: wire_rise_def)
  with 0 assms(2) show ?thesis by (simp add: sclhi_def wire_setscl_high)
next
  case (Suc n)
  with wire_wait [OF assms(1), of "b\<lparr>w_scl := True, w_hold := w_stretch b\<rparr>"] assms(2) show ?thesis
    by (simp add: sclhi_def wire_setscl_high wire_rise_def wire_level_def)
qed

text \<open>A whole pulse: both sides see the data line, and the slave goes on.\<close>

lemma wire_fall:
  "pin_setscl wire_pins False (wire_rise (b\<lparr>w_scl := True\<rparr>)) = b\<lparr>w_scl := False, w_hold := 0, w_seen := w_seen b @ [wire_level b], w_slave := tl (w_slave b)\<rparr>"
  by (simp add: wire_pins_def bitbang_pins_def setscl_def wire_rise_def wire_level_def)

lemma wire_scllo: "scllo wire_pins ud b = pin_setscl wire_pins False b"
  by (simp add: scllo_def)

lemma wire_send_bits:
  assumes "0 \<le> sint tmo" "\<not> w_scl b" "w_slave b = replicate k True @ xs"
  shows "\<exists>b'. send_bits wire_pins ud tmo c k b = Some (0, b') \<and> \<not> w_scl b' \<and> w_slave b' = xs
    \<and> w_seen b' = w_seen b @ map (bit c) (rev [0..<k])"
  using assms(2,3)
proof (induction k arbitrary: b)
  case (Suc k)
  let ?b = "b\<lparr>w_sda := bit c k, w_scl := False, w_hold := 0, w_seen := w_seen b @ [bit c k], w_slave := replicate k True @ xs\<rparr>"
  obtain b' where "send_bits wire_pins ud tmo c k ?b = Some (0, b')" "\<not> w_scl b'" "w_slave b' = xs"
    "w_seen b' = w_seen b @ [bit c k] @ map (bit c) (rev [0..<k])"
    using Suc(1) [of ?b] by auto
  moreover have "wire_level (b\<lparr>w_sda := bit c k\<rparr>) = bit c k" using Suc.prems(2) by (simp add: wire_level_def)
  ultimately show ?case using Suc.prems by (simp add: wire_sclhi [OF assms(1)] wire_scllo wire_fall)
qed simp

definition byte_of :: "bool list \<Rightarrow> u8 \<Rightarrow> u8" where
  "byte_of bs out = fold (\<lambda>x v. (v * 2) OR of_bool x) bs out"

lemma wire_recv_bits:
  assumes "0 \<le> sint tmo" "\<not> w_scl b" "w_sda b" "w_slave b = bs @ xs"
  shows "\<exists>b'. recv_bits wire_pins ud tmo (length bs) out b = Some (0, byte_of bs out, b') \<and> \<not> w_scl b' \<and> w_slave b' = xs \<and> w_seen b' = w_seen b @ bs"
  using assms(2-4)
proof (induction bs arbitrary: b out)
  case (Cons y bs)
  let ?b = "b\<lparr>w_scl := False, w_hold := 0, w_seen := w_seen b @ [y], w_slave := bs @ xs\<rparr>"
  obtain b' where "recv_bits wire_pins ud tmo (length bs) (out * 2 OR of_bool y) ?b =
      Some (0, byte_of bs (out * 2 OR of_bool y), b')" "\<not> w_scl b'" "w_slave b' = xs" "w_seen b' = w_seen b @ y # bs"
    using Cons(1) [of ?b "out * 2 OR of_bool y"] Cons(3) by auto
  moreover have "wire_level b = y" using Cons.prems by (simp add: wire_level_def)
  moreover have "wire_get GPIO_SDA (wire_rise (b\<lparr>w_scl := True\<rparr>)) = (wire_level b, wire_rise (b\<lparr>w_scl := True\<rparr>))"
    by (simp add: wire_rise_def wire_level_def)
  ultimately show ?case using Cons.prems by (cases y) (simp_all add: wire_sclhi [OF assms(1)] wire_fall byte_of_def)
qed (simp add: byte_of_def)

lemma bit_snoc: "bit (v * 2 OR of_bool x :: u8) n \<longleftrightarrow> (if n = 0 then x else n < 8 \<and> bit v (n - 1))"
  by (cases n) (auto simp: bit_simps mult.commute [of v 2] bit_double_iff dest: bit_imp_le_length)

lemma byte_of_bits: "byte_of (map (bit c) (rev [0..<8])) 0 = c"
proof (rule bit_word_eqI)
  fix n
  assume "n < LENGTH(8)"
  then have "n = 0 \<or> n = 1 \<or> n = 2 \<or> n = 3 \<or> n = 4 \<or> n = 5 \<or> n = 6 \<or> n = 7" by auto
  moreover have "rev [0..<8] = [7, 6, 5, 4, 3, 2, 1, 0 :: nat]" by code_simp
  ultimately show "bit (byte_of (map (bit c) (rev [0..<8])) 0) n = bit c n"
    by (auto simp: byte_of_def bit_snoc simp del: upt_conv_Cons)
qed

text \<open>
  C21. Bytes on the wires, for a slave that stretches the clock: sending clocks out the bits of the byte, the highest first, and the slave sees them at the rising edges;
  the result says whether the slave pulls the line low in the ninth pulse. Receiving gives the byte whose bits the slave puts on the line in eight pulses, highest first. The slave
  gets exactly nine and eight pulses, and the clock is low at the end.
\<close>

theorem i2c_bytes_on_wire:
  assumes "\<not> w_scl b" "0 \<le> sint tmo"
  shows "(w_slave b = replicate 8 True @ x # xs \<longrightarrow>
      (\<exists>b'. send_byte wire_pins ud tmo c b = Some (if x then - 1 else 0, b') \<and> \<not> w_scl b' \<and> w_slave b' = xs
        \<and> w_seen b' = w_seen b @ map (bit c) [7, 6, 5, 4, 3, 2, 1, 0] @ [x]))
    \<and> (w_slave b = map (bit c) [7, 6, 5, 4, 3, 2, 1, 0] @ xs \<longrightarrow>
      (\<exists>b'. recv_byte wire_pins ud tmo b = Some (0, c, b') \<and> \<not> w_scl b' \<and> w_slave b' = xs
        \<and> w_seen b' = w_seen b @ map (bit c) [7, 6, 5, 4, 3, 2, 1, 0]))"
proof (intro conjI impI)
  have r: "rev [0..<8] = [7, 6, 5, 4, 3, 2, 1, 0 :: nat]" by code_simp
  assume s: "w_slave b = replicate 8 True @ x # xs"
  obtain b1 where 1: "send_bits wire_pins ud tmo c 8 b = Some (0, b1)" "\<not> w_scl b1" "w_slave b1 = x # xs"
    "w_seen b1 = w_seen b @ map (bit c) [7, 6, 5, 4, 3, 2, 1, 0]"
    using wire_send_bits [OF assms(2,1) s, of ud c] unfolding r by auto
  let ?b2 = "wire_rise (b1\<lparr>w_sda := True, w_scl := True\<rparr>)"
  have "wire_get GPIO_SDA ?b2 = (x, ?b2)" using 1(3) by (simp add: wire_rise_def wire_level_def)
  then show "\<exists>b'. send_byte wire_pins ud tmo c b = Some (if x then - 1 else 0, b') \<and> \<not> w_scl b' \<and> w_slave b' = xs
        \<and> w_seen b' = w_seen b @ map (bit c) [7, 6, 5, 4, 3, 2, 1, 0] @ [x]"
    using 1 wire_sclhi [OF assms(2), of "b1\<lparr>w_sda := True\<rparr>" ud] wire_fall [of "b1\<lparr>w_sda := True\<rparr>"]
    by (simp add: send_byte_def wire_scllo wire_level_def)
next
  have r: "rev [0..<8] = [7, 6, 5, 4, 3, 2, 1, 0 :: nat]" by code_simp
  assume s: "w_slave b = map (bit c) [7, 6, 5, 4, 3, 2, 1, 0] @ xs"
  have "length (map (bit c) (rev [0..<8])) = 8" by simp
  with wire_recv_bits [OF assms(2), of "b\<lparr>w_sda := True\<rparr>" "map (bit c) (rev [0..<8])" xs ud 0] assms(1) s
  have "\<exists>b'. recv_bits wire_pins ud tmo 8 0 (b\<lparr>w_sda := True\<rparr>) = Some (0, c, b') \<and> \<not> w_scl b' \<and> w_slave b' = xs
      \<and> w_seen b' = w_seen b @ map (bit c) [7, 6, 5, 4, 3, 2, 1, 0]"
    unfolding byte_of_bits unfolding r by (simp only: wire.simps) simp
  then show "\<exists>b'. recv_byte wire_pins ud tmo b = Some (0, c, b') \<and> \<not> w_scl b' \<and> w_slave b' = xs
      \<and> w_seen b' = w_seen b @ map (bit c) [7, 6, 5, 4, 3, 2, 1, 0]"
    by (simp only: recv_byte_def wire_pins_simps)
qed

definition ex_wire :: wire where
  "ex_wire = \<lparr>w_sda = True, w_scl = False, w_stretch = 2, w_hold = 0, w_noise = True, w_seen = [], w_slave = replicate 8 True @ [False]\<rparr>"

theorem i2c_bytes_on_wire_witness:
  "\<exists>b'. send_byte wire_pins 1 100 0xa0 ex_wire = Some (0, b')
     \<and> w_seen b' = [True, False, True, False, False, False, False, False, False]"
  using i2c_bytes_on_wire [of ex_wire 100 False "[]" 1 "0xa0"] by (auto simp: ex_wire_def)

text \<open>A bus whose clock is never held, which is live.\<close>

definition free_pins :: "wire i2c_pins" where
  "free_pins = wire_pins\<lparr>pin_getscl := (\<lambda>b. (True, b))\<rparr>"

lemma free_live: "bus_live free_pins"
  by (simp add: bus_live_def free_pins_def scl_wait.simps)

definition ex_i2c_env :: "(nat, wire) i2c_env" where
  "ex_i2c_env = \<lparr>ie_pins = free_pins, ie_transaction = 1, ie_mcuio_irq = 2, ie_func = 3, ie_hz = 100, ie_printf = (\<lambda>m s. s)\<rparr>"

definition ex_i2sys :: "(nat, wire) i2sys" where
  "ex_i2sys = \<lparr>pe_head = 0, pe_tail = 0, pe_buffer_nevts = 4,
     pe_buffer = replicate 4 \<lparr>pe_event = 0, pe_data = None\<rparr>, ie_pending_flags = [],
     ev_world = \<lparr>iw_i2c = \<lparr>i2_udelay = 1, i2_timeout = 100, slave_address = 0xa0, ibuf_len = 0, obuf_len = 2, data_cnt = 0,
         i2_status = 0, int_enable = 0, i2_buffer = replicate 128 7, ibuf_head = 0, ibuf_tail = 0, obuf_head = 2,
         obuf_tail = 0, i2_state = IDLE\<rparr>,
       iw_bus = ex_wire, iw_trg_idata = \<lparr>id_func = 0, id_active = False\<rparr>, iw_rd_idata = \<lparr>id_func = 0, id_active = False\<rparr>\<rparr>\<rparr>"

theorem i2c_transaction_rests_witness:
  "\<exists>s'. do_transaction ex_i2c_env I2C_GO ex_i2sys = Some s' \<and> resting (i2_state (the_i2c s'))"
  using i2c_transaction_rests [of ex_i2c_env ex_i2sys] free_live by (simp add: ex_i2c_env_def quiet_env_def)

end
