(* ===== verification/McuioFuncs.thy ===== *)
theory McuioFuncs
  imports McuioGpio
begin

text \<open>
  The smaller MCUIO functions: analog inputs (\<^verbatim>\<open>mcuio_adc_func.c\<close>), pulse width outputs
  (\<^verbatim>\<open>mcuio_pwm_func.c\<close>), the interrupt test function (\<^verbatim>\<open>mcuio_irq_test_func.c\<close>) and the interrupt
  controller that reports interrupts to the host (\<^verbatim>\<open>mcuio_irq_controller_msg.c\<close>). The converters and
  timers behind the first two are parameters; \<open>'h\<close> is their state.
\<close>

section \<open>Analog inputs\<close>

record adc =
  adc_flags :: u8
  adc_hw_idx :: u8
  adc_vref_uv :: u32

record 'h adc_hw =
  ah_enabled :: "'h \<Rightarrow> bool"
  ah_init :: "'h \<Rightarrow> int \<times> 'h"
  ah_en :: "'h \<Rightarrow> 'h"
  ah_dis :: "'h \<Rightarrow> 'h"
  ah_sample :: "adc \<Rightarrow> 'h \<Rightarrow> u32 \<times> 'h"

definition flip4 :: "u8 list \<Rightarrow> u8 list" where
  "flip4 x = [x ! 3, x ! 2, x ! 1, x ! 0] @ drop 4 x"

definition adc_id :: "nat \<Rightarrow> u8 list" where
  "adc_id idx = [65, if idx \<ge> 10 then 48 + of_nat (idx div 10) else 48 + of_nat idx,
                 if idx \<ge> 10 then 48 + of_nat (idx mod 10) else 0, 0]"

text \<open>A register of the input \<open>offset / 0x40\<close>; an input past the end of the table has no structure to read.\<close>

definition adc_ctrl_rddw :: "'h adc_hw \<Rightarrow> adc list \<Rightarrow> 'h mcuio_read" where
  "adc_ctrl_rddw hw adcs r offset out fill h =
     (let idx = unat offset div 0x40; reg = unat offset mod 0x40
      in if reg = 0 then Some (0, flip4 (copy_at out 0 (adc_id idx)), h)
         else if reg = 4 \<or> reg = 8 \<or> reg = 0xc \<and> ah_enabled hw h then
           (if idx < length adcs then
              if reg = 4 then Some (0, copy_at out 0 (le32 (ucast (adc_flags (adcs ! idx)))), h)
              else if reg = 8 then Some (0, copy_at out 0 (le32 (adc_vref_uv (adcs ! idx))), h)
              else let (v, h) = ah_sample hw (adcs ! idx) h in Some (0, copy_at out 0 (le32 v), h)
            else None)
         else if reg = 0xc then Some (- EACCES, out, h)
         else Some (- EINVAL, out, h))"

definition adc_ctrl_ops :: "'h adc_hw \<Rightarrow> adc list \<Rightarrow> 'h mcuio_range_ops" where
  "adc_ctrl_ops hw adcs =
     \<lparr>rng_rd = [None, None, Some (adc_ctrl_rddw hw adcs), None], rng_wr = [None, None, None, None]\<rparr>"

definition adc_gen_ctrl_rddw :: "'h adc_hw \<Rightarrow> 'h mcuio_read" where
  "adc_gen_ctrl_rddw hw r offset out fill h = Some (0, copy_at out 0 (le32 (of_bool (ah_enabled hw h))), h)"

definition adc_gen_ctrl_wrdw :: "'h adc_hw \<Rightarrow> 'h mcuio_write" where
  "adc_gen_ctrl_wrdw hw r offset inp fill h =
     Some (0, if get32 inp \<noteq> 0 then ah_en hw (snd (ah_init hw h)) else ah_dis hw h)"

definition adc_gen_ctrl_ops :: "'h adc_hw \<Rightarrow> 'h mcuio_range_ops" where
  "adc_gen_ctrl_ops hw =
     \<lparr>rng_rd = [None, None, Some (adc_gen_ctrl_rddw hw), None],
      rng_wr = [None, None, Some (adc_gen_ctrl_wrdw hw), None]\<rparr>"

definition adc_descr :: mcuio_func_descriptor where
  "adc_descr = \<lparr>fd_device = 0x1235, fd_vendor = 1, fd_class = 3, fd_rev = 0\<rparr>"

text \<open>The ranges, with the read-only operations for the constants as a parameter.\<close>

definition adc_ranges :: "'h mcuio_range_ops \<Rightarrow> nat \<Rightarrow> nat \<Rightarrow> nat \<Rightarrow> 'h adc_hw \<Rightarrow> adc list \<Rightarrow> 'h mcuio_range list" where
  "adc_ranges ro descr num_adc max_mul hw adcs =
     [\<lparr>r_desc = \<lparr>r_start = 0, r_length = 8, r_rd_target = descr, r_wr_target = 0, r_priv = 0\<rparr>, r_ops = Some ro\<rparr>,
      \<lparr>r_desc = \<lparr>r_start = 8, r_length = 4, r_rd_target = num_adc, r_wr_target = 0, r_priv = 0\<rparr>, r_ops = Some ro\<rparr>,
      \<lparr>r_desc = \<lparr>r_start = 0x10, r_length = 4, r_rd_target = max_mul, r_wr_target = 0, r_priv = 0\<rparr>, r_ops = Some ro\<rparr>,
      \<lparr>r_desc = \<lparr>r_start = 0x14, r_length = 4, r_rd_target = 0, r_wr_target = 0, r_priv = 0\<rparr>,
       r_ops = Some (adc_gen_ctrl_ops hw)\<rparr>,
      \<lparr>r_desc = \<lparr>r_start = 0x40, r_length = 0xfc0, r_rd_target = 0, r_wr_target = 0, r_priv = 0\<rparr>,
       r_ops = Some (adc_ctrl_ops hw adcs)\<rparr>]"

section \<open>Pulse width outputs\<close>

text \<open>The operations of one output; the optional ones may be missing.\<close>

record 'h pwm_ops =
  po_enable :: "'h \<Rightarrow> int \<times> 'h"
  po_disable :: "'h \<Rightarrow> 'h"
  po_get_period :: "'h \<Rightarrow> u32"
  po_get_duty :: "'h \<Rightarrow> u32"
  po_set_period :: "(u32 \<Rightarrow> 'h \<Rightarrow> int \<times> 'h) option"
  po_set_duty :: "(u32 \<Rightarrow> 'h \<Rightarrow> int \<times> 'h) option"
  po_get_polarity :: "('h \<Rightarrow> bool) option"
  po_set_polarity :: "(u32 \<Rightarrow> 'h \<Rightarrow> int \<times> 'h) option"

record 'h pwm =
  pw_label :: "u8 list"
  pw_tim_res_ns :: u32
  pw_tim_max_mul :: u32
  pw_ops :: "'h pwm_ops"

definition get_pwm :: "'h pwm list \<Rightarrow> nat \<Rightarrow> 'h pwm option" where
  "get_pwm pwms idx = (if idx < length pwms then Some (pwms ! idx) else None)"

definition pwm_ctrl_rddw :: "(nat \<Rightarrow> 'h \<Rightarrow> bool) \<Rightarrow> 'h pwm list \<Rightarrow> 'h mcuio_read" where
  "pwm_ctrl_rddw pwm_enabled pwms r offset out fill h =
     (let idx = unat offset div 0x40; reg = unat offset mod 0x40
      in Option.bind (get_pwm pwms idx) (\<lambda>pwm.
           let put = (\<lambda>v. Some (0, copy_at out 0 (le32 v), h)); ops = pw_ops pwm
           in if reg = 0 then Some (0, flip4 (copy_at out 0 (take 4 (pw_label pwm))), h)
              else if reg = 4 then
                put ((pw_tim_res_ns pwm AND 0x00ffffff)
                     OR (if po_set_period ops \<noteq> None then push_bit 24 1 else 0)
                     OR (if po_set_duty ops \<noteq> None then push_bit 25 1 else 0))
              else if reg = 8 then put (pw_tim_max_mul pwm)
              else if reg = 0xc then
                put ((if pwm_enabled idx h then 1 else 0)
                     OR (case po_get_polarity ops of None \<Rightarrow> 0 | Some f \<Rightarrow> if f h then push_bit 1 1 else 0))
              else if reg = 0x10 then put (po_get_period ops h)
              else if reg = 0x14 then put (po_get_duty ops h)
              else Some (- EINVAL, out, h)))"

text \<open>A missing operation is noticed, but the call through the null pointer happens all the same.\<close>

definition pwm_ctrl_wrdw :: "'h pwm list \<Rightarrow> 'h mcuio_write" where
  "pwm_ctrl_wrdw pwms r offset inp fill h =
     (let idx = unat offset div 0x40; reg = unat offset mod 0x40; v = get32 inp
      in Option.bind (get_pwm pwms idx) (\<lambda>pwm.
           let ops = pw_ops pwm
           in if reg = 0xc then
                let (ret, h) = (if v AND 1 \<noteq> 0 then po_enable ops h else (0, po_disable ops h))
                in Some (ret, case po_set_polarity ops of
                                None \<Rightarrow> h | Some f \<Rightarrow> snd (f (drop_bit 1 v AND 1) h))
              else if reg = 0x10 then map_option (\<lambda>f. f v h) (po_set_period ops)
              else if reg = 0x14 then map_option (\<lambda>f. f v h) (po_set_duty ops)
              else Some (- EINVAL, h)))"

definition pwm_ctrl_ops :: "(nat \<Rightarrow> 'h \<Rightarrow> bool) \<Rightarrow> 'h pwm list \<Rightarrow> 'h mcuio_range_ops" where
  "pwm_ctrl_ops pwm_enabled pwms =
     \<lparr>rng_rd = [None, None, Some (pwm_ctrl_rddw pwm_enabled pwms), None],
      rng_wr = [None, None, Some (pwm_ctrl_wrdw pwms), None]\<rparr>"

definition pwm_descr :: mcuio_func_descriptor where
  "pwm_descr = \<lparr>fd_device = 0x1236, fd_vendor = 1, fd_class = 5, fd_rev = 0\<rparr>"

definition pwm_ranges ::
  "'h mcuio_range_ops \<Rightarrow> nat \<Rightarrow> nat \<Rightarrow> (nat \<Rightarrow> 'h \<Rightarrow> bool) \<Rightarrow> 'h pwm list \<Rightarrow> 'h mcuio_range list" where
  "pwm_ranges ro descr num_pwm pwm_enabled pwms =
     [\<lparr>r_desc = \<lparr>r_start = 0, r_length = 8, r_rd_target = descr, r_wr_target = 0, r_priv = 0\<rparr>, r_ops = Some ro\<rparr>,
      \<lparr>r_desc = \<lparr>r_start = 8, r_length = 4, r_rd_target = num_pwm, r_wr_target = 0, r_priv = 0\<rparr>, r_ops = Some ro\<rparr>,
      \<lparr>r_desc = \<lparr>r_start = 0x40, r_length = 0xfc0, r_rd_target = 0, r_wr_target = 0, r_priv = 0\<rparr>,
       r_ops = Some (pwm_ctrl_ops pwm_enabled pwms)\<rparr>]"

section \<open>Interrupts\<close>

text \<open>
  The interrupt test function and the interrupt controller. Their events point to static
  structures: the two interrupt records of the test function and the packet of the controller.
\<close>

datatype irq_ptr = ReadIdata | TickIdata | CtrlPacket

record irq_world =
  irq_active :: bool
  irq_enabled :: bool
  iq_read_idata :: mcuio_function_irq_data
  iq_tick_idata :: mcuio_function_irq_data
  iq_to_host :: mcuio_base_packet

type_synonym 'e irqsys = "('e, irq_ptr, irq_world) evsys"

definition upd_irq :: "(irq_world \<Rightarrow> irq_world) \<Rightarrow> 'e irqsys \<Rightarrow> 'e irqsys" where
  "upd_irq f s = s\<lparr>ev_world := f (ev_world s)\<rparr>"

definition irq_test_status_rddw :: "'e \<Rightarrow> nat \<Rightarrow> 'e irqsys mcuio_read" where
  "irq_test_status_rddw mcuio_irq fn r offset out fill s =
     (let out = copy_at out 0 (le32 (of_bool (irq_active (ev_world s))));
          s = (if irq_active (ev_world s) then
                 snd (trigger_event mcuio_irq (Some ReadIdata)
                   (upd_irq (\<lambda>w. w\<lparr>irq_active := False, iq_read_idata := \<lparr>id_func = fn, id_active = False\<rparr>\<rparr>) s))
               else s)
      in Some (4, out, s))"

definition irq_test_status_wrdw :: "'e irqsys mcuio_write" where
  "irq_test_status_wrdw r offset inp fill s = Some (4, upd_irq (\<lambda>w. w\<lparr>irq_enabled := (get32 inp \<noteq> 0)\<rparr>) s)"

definition irq_test_status_ops :: "'e \<Rightarrow> nat \<Rightarrow> 'e irqsys mcuio_range_ops" where
  "irq_test_status_ops mcuio_irq fn =
     \<lparr>rng_rd = [None, None, Some (irq_test_status_rddw mcuio_irq fn), None],
      rng_wr = [None, None, Some irq_test_status_wrdw, None]\<rparr>"

definition hwtimer_evt_handle :: "'e \<Rightarrow> nat \<Rightarrow> u32 \<Rightarrow> u32 \<Rightarrow> 'e irqsys \<Rightarrow> 'e irqsys" where
  "hwtimer_evt_handle mcuio_irq fn ticks jiffies s =
     (if jiffies mod ticks \<noteq> 0 then s
      else if \<not> irq_enabled (ev_world s) then s
      else if irq_active (ev_world s) then s
      else snd (trigger_event mcuio_irq (Some TickIdata)
             (upd_irq (\<lambda>w. w\<lparr>irq_active := True, iq_tick_idata := \<lparr>id_func = fn, id_active = True\<rparr>\<rparr>) s)))"

definition irq_ctrl_msg_on_reply :: "(string \<Rightarrow> 's \<Rightarrow> 's) \<Rightarrow> mcuio_base_packet \<Rightarrow> nat \<Rightarrow> int \<Rightarrow> 's \<Rightarrow> 's" where
  "irq_ctrl_msg_on_reply printf p f err s =
     (if err \<noteq> 0 then printf ''WARNING: lost interrupt, hc reported error'' s else s)"

definition irq_controller_msg_func_ops :: "(string \<Rightarrow> 's \<Rightarrow> 's) \<Rightarrow> 's mcuio_function_ops" where
  "irq_controller_msg_func_ops printf = \<lparr>fo_reply = Some (irq_ctrl_msg_on_reply printf)\<rparr>"

definition mcuio_irq_init :: "'s \<Rightarrow> int \<times> 's" where
  "mcuio_irq_init s = (0, s)"

text \<open>The request the controller sends to the host for an interrupt of function \<open>f\<close>.\<close>

definition irq_request :: "nat \<Rightarrow> mcuio_base_packet" where
  "irq_request f =
     (bytes_packet (replicate 16 0))
       \<lparr>mp_bus := 0, mp_dev := 0, mp_func := 1, mp_offset := of_nat (0xf80 + f * 4), mp_type := 5,
        mp_data := copy_at (replicate 8 0) 0 (le32 (push_bit f 1))\<rparr>"

definition mcuio_irq_handle ::
  "'e \<Rightarrow> (string \<Rightarrow> 'e irqsys \<Rightarrow> 'e irqsys) \<Rightarrow> mcuio_function_irq_data \<Rightarrow> 'e irqsys \<Rightarrow> 'e irqsys" where
  "mcuio_irq_handle request printf idata s =
     (if id_func idata > 31 then s
      else if \<not> id_active idata then s
      else
        let s = upd_irq (\<lambda>w. w\<lparr>iq_to_host := irq_request (id_func idata)\<rparr>) s;
            (e, s) = trigger_event request (Some CtrlPacket) s
        in if e < 0 then printf ''WARNING: LOST INTERRUPT'' s else s)"

section \<open>Properties\<close>

lemma irq_handle_room:
  assumes "ev_wf s" "length (ev_queue s) < ev_cap s" "f \<le> 31"
  shows "ev_wf (mcuio_irq_handle req pr \<lparr>id_func = f, id_active = True\<rparr> s)"
    "ev_queue (mcuio_irq_handle req pr \<lparr>id_func = f, id_active = True\<rparr> s) =
      ev_queue s @ [\<lparr>pe_event = req, pe_data = Some CtrlPacket\<rparr>]"
    "ev_cap (mcuio_irq_handle req pr \<lparr>id_func = f, id_active = True\<rparr> s) = ev_cap s"
    "iq_to_host (ev_world (mcuio_irq_handle req pr \<lparr>id_func = f, id_active = True\<rparr> s)) = irq_request f"
proof -
  let ?s = "upd_irq (\<lambda>w. w\<lparr>iq_to_host := irq_request f\<rparr>) s"
  have w: "ev_wf ?s" "ev_queue ?s = ev_queue s" "ev_cap ?s = ev_cap s" "iq_to_host (ev_world ?s) = irq_request f"
    using assms(1) by (simp_all add: ev_wf_def ev_queue_def ev_cap_def upd_irq_def)
  note t = trigger_event_room [OF w(1), of req "Some CtrlPacket"]
  have e: "mcuio_irq_handle req pr \<lparr>id_func = f, id_active = True\<rparr> s = snd (trigger_event req (Some CtrlPacket) ?s)"
    using assms(2,3) t(1) w by (simp add: mcuio_irq_handle_def Let_def split_beta)
  show "ev_wf (mcuio_irq_handle req pr \<lparr>id_func = f, id_active = True\<rparr> s)"
    "ev_queue (mcuio_irq_handle req pr \<lparr>id_func = f, id_active = True\<rparr> s) =
      ev_queue s @ [\<lparr>pe_event = req, pe_data = Some CtrlPacket\<rparr>]"
    "ev_cap (mcuio_irq_handle req pr \<lparr>id_func = f, id_active = True\<rparr> s) = ev_cap s"
    "iq_to_host (ev_world (mcuio_irq_handle req pr \<lparr>id_func = f, id_active = True\<rparr> s)) = irq_request f"
    unfolding e using t assms(2) w by (simp_all add: ev_cap_def)
qed

lemma irq_request_inj:
  assumes "irq_request f = irq_request g" "f \<le> 31" "g \<le> 31"
  shows "f = g"
proof -
  have "mp_offset (irq_request f) = mp_offset (irq_request g)" using assms(1) by simp
  then have "unat (of_nat (0xf80 + f * 4) :: 12 word) = unat (of_nat (0xf80 + g * 4) :: 12 word)"
    by (simp add: irq_request_def)
  then have "take_bit 12 (0xf80 + f * 4) = take_bit 12 (0xf80 + g * 4)" unfolding unsigned_of_nat by simp
  moreover have "take_bit 12 (0xf80 + k * 4) = 0xf80 + k * 4" if "k \<le> 31" for k :: nat
    using that by (intro take_bit_nat_eq_self) simp
  ultimately show ?thesis using assms(2,3) by simp
qed

text \<open>
  Of two interrupts in the same round only the second reaches the host: both requests point to
  the same packet, which the second handler overwrites before the first request is sent, so the
  host gets the second notification twice.
\<close>

theorem irq_request_overwritten:
  assumes "ev_wf s" "length (ev_queue s) + 2 \<le> ev_cap s" "f \<le> 31" "g \<le> 31" "f \<noteq> g"
  shows "let s' = mcuio_irq_handle req pr \<lparr>id_func = g, id_active = True\<rparr>
                    (mcuio_irq_handle req pr \<lparr>id_func = f, id_active = True\<rparr> s)
         in ev_queue s' = ev_queue s @ replicate 2 \<lparr>pe_event = req, pe_data = Some CtrlPacket\<rparr>
            \<and> iq_to_host (ev_world s') = irq_request g \<and> irq_request g \<noteq> irq_request f"
proof -
  let ?s1 = "mcuio_irq_handle req pr \<lparr>id_func = f, id_active = True\<rparr> s"
  have l: "length (ev_queue s) < ev_cap s" using assms(2) by simp
  note 1 = irq_handle_room [OF assms(1) l assms(3), of req pr]
  have "length (ev_queue ?s1) < ev_cap ?s1" unfolding 1 using assms(2) by simp
  note 2 = irq_handle_room [OF 1(1) this assms(4), of req pr]
  show ?thesis unfolding Let_def 2 1 using irq_request_inj [of g f] assms(3-5) by (auto simp: numeral_2_eq_2)
qed

definition ex_irqsys :: "nat irqsys" where
  "ex_irqsys = \<lparr>pe_head = 0, pe_tail = 0, pe_buffer_nevts = 4,
     pe_buffer = replicate 4 \<lparr>pe_event = 0, pe_data = None\<rparr>, ie_pending_flags = [],
     ev_world = \<lparr>irq_active = False, irq_enabled = True, iq_read_idata = \<lparr>id_func = 0, id_active = False\<rparr>,
       iq_tick_idata = \<lparr>id_func = 0, id_active = False\<rparr>, iq_to_host = bytes_packet (replicate 16 0)\<rparr>\<rparr>"

theorem irq_request_overwritten_witness:
  "iq_to_host (ev_world (mcuio_irq_handle 5 (\<lambda>m s. s) \<lparr>id_func = 3, id_active = True\<rparr>
      (mcuio_irq_handle 5 (\<lambda>m s. s) \<lparr>id_func = 2, id_active = True\<rparr> ex_irqsys))) = irq_request 3"
proof -
  have wf: "ev_wf ex_irqsys" unfolding ev_wf_def by (rule ring_wfI [of _ 2]) (simp_all add: ex_irqsys_def)
  have q: "ev_queue ex_irqsys = []" "ev_cap ex_irqsys = 3"
    by (simp_all add: ev_queue_def ev_cap_def ring_list_def CIRC_CNT_def ex_irqsys_def)
  show ?thesis using irq_request_overwritten [OF wf, of 2 3 5 "\<lambda>m s. s"] q by (simp add: Let_def)
qed

end
