(* ===== verification/W1.thy ===== *)
theory W1
  imports Prelude
begin

text \<open>
  The 1-wire bus: \<^verbatim>\<open>drivers/w1.c\<close> (bytes, ROM search, addressing), \<^verbatim>\<open>drivers/w1-gpio.c\<close> (the bit
  operations on a pin), \<^verbatim>\<open>drivers/w1-temp.c\<close> and \<^verbatim>\<open>drivers/w1-eeprom.c\<close>.

  The devices on the wire are not part of the program: the bit operations \<^verbatim>\<open>bathos_w1_ops\<close> are a
  record of functions on a state \<open>'b\<close> of the wires and of what hangs on them, and so is the passing
  of time (\<^verbatim>\<open>udelay\<close>). A bus is named by its \<^verbatim>\<open>detail\<close>, the wire it drives; the back pointer of a device is
  that name, or \<open>None\<close> for the null pointer. \<open>N\<close> is the width of \<^verbatim>\<open>int\<close>: 32, and 16 on the ATmega.
  A result \<open>None\<close> is a null pointer used by the code or, for \<open>w1_wait_ready\<close>, a loop that does not end.
\<close>

type_synonym u64 = "64 word"

section \<open>Data\<close>

record 'b w1_ops =
  op_reset :: "(nat \<Rightarrow> 'b \<Rightarrow> int \<times> 'b) option"
  op_read_bit :: "nat \<Rightarrow> 'b \<Rightarrow> int \<times> 'b"
  op_write_bit :: "nat \<Rightarrow> int \<Rightarrow> 'b \<Rightarrow> 'b"
  op_udelay :: "nat \<Rightarrow> 'b \<Rightarrow> 'b"

record w1_dev =
  wd_bus :: "nat option"
  wd_rom :: u64

record w1_bus =
  wb_detail :: nat
  wb_devs :: "w1_dev list"

definition W1_MAX_DEVICES :: nat where "W1_MAX_DEVICES = 8"
definition W1_CMD_MATCH_ROM :: int where "W1_CMD_MATCH_ROM = 0x55"
definition W1_CMDT_CONVERT :: int where "W1_CMDT_CONVERT = 0x44"
definition W1_CMDT_R_SPAD :: int where "W1_CMDT_R_SPAD = 0xbe"
definition W1_CMDR_W_SPAD :: int where "W1_CMDR_W_SPAD = 0x0f"
definition W1_CMDR_R_SPAD :: int where "W1_CMDR_R_SPAD = 0xaa"
definition W1_CMDR_C_SPAD :: int where "W1_CMDR_C_SPAD = 0x55"
definition W1_CMDR_R_MEMORY :: int where "W1_CMDR_R_MEMORY = 0xf0"
definition W1_FLAG_NOWAIT :: nat where "W1_FLAG_NOWAIT = 1"
definition W1_FLAG_COLLECT :: nat where "W1_FLAG_COLLECT = 2"

definition w1_class :: "w1_dev \<Rightarrow> int" where
  "w1_class dev = uint (wd_rom dev AND 0xff)"

section \<open>Bytes\<close>

definition w1_write_byte :: "'b w1_ops \<Rightarrow> nat \<Rightarrow> int \<Rightarrow> 'b \<Rightarrow> 'b" where
  "w1_write_byte E d byte w =
     fold (\<lambda>k w. op_write_bit E d (if byte AND 2 ^ k \<noteq> 0 then 1 else 0) w) [0..<8] w"

definition w1_read_byte :: "'b w1_ops \<Rightarrow> nat \<Rightarrow> 'b \<Rightarrow> int \<times> 'b" where
  "w1_read_byte E d w =
     (let (res, w) = fold (\<lambda>k (res, w). let (v, w) = op_read_bit E d w
                          in (res OR (if v \<noteq> 0 then 2 ^ k else 0), w)) [0..<8] (0, w)
      in (res, op_udelay E 100 w))"

fun w1_read_bytes :: "'b w1_ops \<Rightarrow> nat \<Rightarrow> nat \<Rightarrow> 'b \<Rightarrow> int list \<times> 'b" where
  "w1_read_bytes E d 0 w = ([], w)"
| "w1_read_bytes E d (Suc n) w =
     (let (v, w) = w1_read_byte E d w; (vs, w) = w1_read_bytes E d n w in (v # vs, w))"

section \<open>The ROM search\<close>

datatype dibit = B_0 | B_1 | B_BOTH

definition get_dibit :: "'b w1_ops \<Rightarrow> nat \<Rightarrow> int \<Rightarrow> 'b \<Rightarrow> dibit \<times> 'b" where
  "get_dibit E d select w =
     (let (a, w) = op_read_bit E d w; (b, w) = op_read_bit E d w
      in if a \<noteq> b then (if a \<noteq> 0 then B_1 else B_0, op_write_bit E d a w)
         else (B_BOTH, op_write_bit E d select w))"

text \<open>\<open>select = *rom & mask\<close> is stored in an \<^verbatim>\<open>int\<close>, which keeps the low \<open>N\<close> bits.\<close>

definition scan_select :: "nat \<Rightarrow> u64 \<Rightarrow> u64 \<Rightarrow> int" where
  "scan_select N rom msk = signed_take_bit (N - 1) (uint (rom AND msk))"

definition scan_step :: "nat \<Rightarrow> 'b w1_ops \<Rightarrow> nat \<Rightarrow> nat \<Rightarrow> u64 \<times> u64 \<times> 'b \<Rightarrow> u64 \<times> u64 \<times> 'b" where
  "scan_step N E d k = (\<lambda>(rom, cmask, w).
     let msk = push_bit k 1;
         select = scan_select N rom msk;
         (b, w) = get_dibit E d select w
     in (case b of
           B_1 \<Rightarrow> (rom OR msk, cmask, w)
         | B_0 \<Rightarrow> (rom, cmask, w)
         | B_BOTH \<Rightarrow> (rom, if select = 0 then cmask OR msk else cmask, w)))"

definition w1_scan_one :: "nat \<Rightarrow> 'b w1_ops \<Rightarrow> nat \<Rightarrow> u64 \<Rightarrow> u64 \<Rightarrow> 'b \<Rightarrow> (int \<times> u64 \<times> u64 \<times> 'b) option" where
  "w1_scan_one N E d rom cmask w =
     (case op_reset E of None \<Rightarrow> None
      | Some reset \<Rightarrow>
          let (r, w) = reset d w
          in if r \<noteq> 1 then Some (- 1, rom, cmask, w)
             else let w = w1_write_byte E d 0xf0 w
                  in Some (0, fold (scan_step N E d) [0..<64] (rom, 0, w)))"

text \<open>
  The loop that looks for the last conflict, from bit 63 down, clearing the bits it passes; the
  msk it returns is 0 when there is no conflict left.
\<close>

fun last_conflict :: "nat \<Rightarrow> u64 \<Rightarrow> u64 \<Rightarrow> u64 \<times> u64" where
  "last_conflict 0 rom cmask = (rom, 0)"
| "last_conflict (Suc k) rom cmask =
     (if cmask AND push_bit k 1 \<noteq> 0 then (rom, push_bit k 1)
      else last_conflict k (rom AND NOT (push_bit k 1)) cmask)"

function w1_scan_loop :: "nat \<Rightarrow> 'b w1_ops \<Rightarrow> nat \<Rightarrow> nat \<Rightarrow> u64 \<Rightarrow> w1_dev list \<Rightarrow> 'b
    \<Rightarrow> (nat \<times> w1_dev list \<times> 'b) option" where
  "w1_scan_loop N E d i cmask devs w =
     (if i < W1_MAX_DEVICES then
        let prev = wd_rom (devs ! (i - 1));
            (rom, msk) = (if i = 0 then (wd_rom (devs ! i), 0) else last_conflict 64 prev cmask)
        in if i \<noteq> 0 \<and> msk = 0 then Some (i, devs[i := \<lparr>wd_bus = Some d, wd_rom = rom\<rparr>], w)
           else let cmask = cmask AND NOT msk
                in (case w1_scan_one N E d (rom OR msk) cmask w of None \<Rightarrow> None
                    | Some (r, rom, cmask, w) \<Rightarrow>
                        let devs = devs[i := \<lparr>wd_bus = Some d, wd_rom = rom\<rparr>]
                        in if r \<noteq> 0 then Some (i, devs, w)
                           else w1_scan_loop N E d (i + 1) cmask devs w)
      else Some (i, devs, w))"
  by pat_completeness auto
termination
  by (relation "measure (\<lambda>(N, E, d, i, _). W1_MAX_DEVICES - i)") auto

declare w1_scan_loop.simps [simp del]

definition w1_scan_bus :: "nat \<Rightarrow> 'b w1_ops \<Rightarrow> w1_bus \<Rightarrow> 'b \<Rightarrow> (nat \<times> w1_bus \<times> 'b) option" where
  "w1_scan_bus N E bus w =
     (let devs = replicate W1_MAX_DEVICES \<lparr>wd_bus = None, wd_rom = 0\<rparr>
      in if op_reset E = None then Some (0, bus\<lparr>wb_devs := devs\<rparr>, w)
         else map_option (\<lambda>(n, devs, w). (n, bus\<lparr>wb_devs := devs\<rparr>, w))
                (w1_scan_loop N E (wb_detail bus) 0 0 devs w))"

section \<open>Addressing a device\<close>

definition w1_match_rom :: "'b w1_ops \<Rightarrow> w1_dev \<Rightarrow> 'b \<Rightarrow> (nat \<times> 'b) option" where
  "w1_match_rom E dev w =
     (case (wd_bus dev, op_reset E) of
        (Some d, Some reset) \<Rightarrow>
          let w = snd (reset d w);
              w = w1_write_byte E d W1_CMD_MATCH_ROM w
          in Some (d, fold (\<lambda>k w. w1_write_byte E d (uint (drop_bit (8 * k) (wd_rom dev))) w) [0..<8] w)
      | _ \<Rightarrow> None)"

section \<open>Temperature\<close>

partial_function (option) w1_wait_ready :: "'b w1_ops \<Rightarrow> nat \<Rightarrow> 'b \<Rightarrow> 'b option" where
  "w1_wait_ready E d w =
     (let (v, w) = op_read_bit E d w in if v = 0 then w1_wait_ready E d w else Some w)"

definition w1_temp_class :: "int \<Rightarrow> bool" where
  "w1_temp_class c \<longleftrightarrow> c = 0x10 \<or> c = 0x28 \<or> c = 0x42"

text \<open>
  \<open>cval\<close> is the signed 16-bit value of the first two bytes; the results are 32-bit two's complement.
\<close>

definition w1_temp_value :: "int \<Rightarrow> int list \<Rightarrow> int" where
  "w1_temp_value c sp =
     (let cval = signed_take_bit 15 ((sp ! 1 * 2 ^ 8) OR sp ! 0)
      in if c = 0x10 then signed_take_bit 31 ((cval * 2 ^ 15 - 0x4000) OR (sp ! 6 * 2 ^ 12))
         else signed_take_bit 31 (cval * 2 ^ 12))"

definition w1_collect :: "'b w1_ops \<Rightarrow> w1_dev \<Rightarrow> 'b \<Rightarrow> (int \<times> 'b) option" where
  "w1_collect E dev w =
     (case w1_match_rom E dev w of None \<Rightarrow> None
      | Some (d, w) \<Rightarrow>
          let w = w1_write_byte E d W1_CMDT_R_SPAD w;
              (sp, w) = w1_read_bytes E d 8 w
          in Some (w1_temp_value (w1_class dev) sp, w))"

definition w1_read_temp :: "'b w1_ops \<Rightarrow> w1_dev \<Rightarrow> nat \<Rightarrow> 'b \<Rightarrow> (int \<times> 'b) option" where
  "w1_read_temp E dev flags w =
     (if \<not> w1_temp_class (w1_class dev) then Some (- (2 ^ 31), w)
      else if flags AND W1_FLAG_COLLECT \<noteq> 0 then w1_collect E dev w
      else (case w1_match_rom E dev w of None \<Rightarrow> None
            | Some (d, w) \<Rightarrow>
                let w = w1_write_byte E d W1_CMDT_CONVERT w
                in if flags AND W1_FLAG_NOWAIT \<noteq> 0 then Some (0, w)
                   else (case w1_wait_ready E d w of None \<Rightarrow> None
                         | Some w \<Rightarrow> w1_collect E dev w)))"

definition w1_read_temp_bus :: "'b w1_ops \<Rightarrow> w1_bus \<Rightarrow> nat \<Rightarrow> 'b \<Rightarrow> (int \<times> 'b) option" where
  "w1_read_temp_bus E bus flags w =
     (case find (\<lambda>dev. w1_temp_class (w1_class dev)) (wb_devs bus) of
        Some dev \<Rightarrow> w1_read_temp E dev flags w
      | None \<Rightarrow> Some (- (2 ^ 31), w))"

section \<open>EEPROM\<close>

definition LSB_ADDR :: "int \<Rightarrow> int" where "LSB_ADDR x = x AND 0xFF"
definition MSB_ADDR :: "int \<Rightarrow> int" where "MSB_ADDR x = drop_bit 8 (x AND 0xFF00)"

fun w1_verify :: "'b w1_ops \<Rightarrow> nat \<Rightarrow> u8 list \<Rightarrow> 'b \<Rightarrow> bool \<times> 'b" where
  "w1_verify E d [] w = (True, w)"
| "w1_verify E d (b # bs) w =
     (let (j, w) = w1_read_byte E d w in if j \<noteq> uint b then (False, w) else w1_verify E d bs w)"

definition w1_write_page :: "'b w1_ops \<Rightarrow> w1_dev \<Rightarrow> int \<Rightarrow> u8 list \<Rightarrow> 'b \<Rightarrow> (int \<times> 'b) option" where
  "w1_write_page E dev offset buffer w =
     Option.bind (w1_match_rom E dev w) (\<lambda>(d, w).
     let w = w1_write_byte E d W1_CMDR_W_SPAD w;
         w = w1_write_byte E d (LSB_ADDR offset) w;
         w = w1_write_byte E d (MSB_ADDR offset) w;
         w = fold (\<lambda>b w. w1_write_byte E d (uint b) w) buffer w
     in Option.bind (w1_match_rom E dev w) (\<lambda>(d, w).
     let w = w1_write_byte E d W1_CMDR_R_SPAD w;
         (lsb, w) = w1_read_byte E d w
     in if lsb \<noteq> LSB_ADDR offset then Some (- 1, w) else
     let (msb, w) = w1_read_byte E d w
     in if msb \<noteq> MSB_ADDR offset then Some (- 2, w) else
     let (es, w) = w1_read_byte E d w;
         (ok, w) = w1_verify E d buffer w
     in if \<not> ok then Some (- 3, w) else
     Option.bind (w1_match_rom E dev w) (\<lambda>(d, w).
     let w = w1_write_byte E d W1_CMDR_C_SPAD w;
         w = w1_write_byte E d (LSB_ADDR offset) w;
         w = w1_write_byte E d (MSB_ADDR offset) w;
         w = w1_write_byte E d es w;
         w = op_udelay E 10000 w
     in Some (int (length buffer), w))))"

function w1_write_pages :: "'b w1_ops \<Rightarrow> w1_dev \<Rightarrow> int \<Rightarrow> u8 list \<Rightarrow> int \<Rightarrow> 'b \<Rightarrow> (int \<times> 'b) option" where
  "w1_write_pages E dev offset buffer ret w =
     (if buffer \<noteq> [] then
        Option.bind (w1_write_page E dev offset (take 32 buffer) w) (\<lambda>(i, w).
          if i < 0 then Some (i, w)
          else w1_write_pages E dev (offset + 32) (drop 32 buffer) (ret + i) w)
      else Some (ret, w))"
  by pat_completeness auto
termination
  by (relation "measure (\<lambda>(E, dev, off, buffer, _). length buffer)") auto

declare w1_write_pages.simps [simp del]

text \<open>
  The buffer is the list of its \<^verbatim>\<open>blen\<close> bytes. Division and remainder of C truncate; they are used
  here for offsets that are not negative, where they agree with \<open>div\<close> and \<open>mod\<close>.
\<close>

definition w1_write_eeprom :: "'b w1_ops \<Rightarrow> w1_dev \<Rightarrow> nat \<Rightarrow> u8 list \<Rightarrow> 'b \<Rightarrow> (int \<times> 'b) option" where
  "w1_write_eeprom E dev offset buffer w =
     (let blen = length buffer;
          page = int offset div 32;
          endpage = (int offset + int blen - 1) div 32
      in if offset mod 32 \<noteq> 0 then
           let i = (if endpage \<noteq> page then 32 - offset mod 32 else blen)
           in Option.bind (w1_write_page E dev (int offset) (take i buffer) w) (\<lambda>(ret, w).
                if ret < 0 then Some (ret, w)
                else w1_write_pages E dev (int offset + int i) (drop i buffer) ret w)
         else w1_write_pages E dev (int offset) buffer 0 w)"

definition w1_read_eeprom :: "'b w1_ops \<Rightarrow> w1_dev \<Rightarrow> int \<Rightarrow> nat \<Rightarrow> 'b \<Rightarrow> (int \<times> u8 list \<times> 'b) option" where
  "w1_read_eeprom E dev offset blen w =
     (case w1_match_rom E dev w of None \<Rightarrow> None
      | Some (d, w) \<Rightarrow>
          let w = w1_write_byte E d W1_CMDR_R_MEMORY w;
              w = w1_write_byte E d (LSB_ADDR offset) w;
              w = w1_write_byte E d (MSB_ADDR offset) w;
              (vs, w) = w1_read_bytes E d blen w
          in Some (int blen, map word_of_int vs, w))"

definition w1_read_eeprom_bus :: "'b w1_ops \<Rightarrow> w1_bus \<Rightarrow> int \<Rightarrow> nat \<Rightarrow> 'b \<Rightarrow> (int \<times> u8 list \<times> 'b) option" where
  "w1_read_eeprom_bus E bus offset blen w =
     (case find (\<lambda>dev. w1_class dev = 0x43) (wb_devs bus) of
        Some dev \<Rightarrow> w1_read_eeprom E dev offset blen w
      | None \<Rightarrow> Some (- 1, [], w))"

definition w1_write_eeprom_bus :: "'b w1_ops \<Rightarrow> w1_bus \<Rightarrow> nat \<Rightarrow> u8 list \<Rightarrow> 'b \<Rightarrow> (int \<times> 'b) option" where
  "w1_write_eeprom_bus E bus offset buffer w =
     (case find (\<lambda>dev. w1_class dev = 0x43) (wb_devs bus) of
        Some dev \<Rightarrow> w1_write_eeprom E dev offset buffer w
      | None \<Rightarrow> Some (- 1, w))"

section \<open>Bits on a pin\<close>

text \<open>
  \<^verbatim>\<open>drivers/w1-gpio.c\<close>: the pin functions of the architecture and the passing of time are parameters,
  functions on the state of the pin.
\<close>

record 'p w1_pin =
  pin_dir :: "nat \<Rightarrow> int \<Rightarrow> int \<Rightarrow> 'p \<Rightarrow> 'p"
  pin_dir_af :: "nat \<Rightarrow> int \<Rightarrow> int \<Rightarrow> int \<Rightarrow> 'p \<Rightarrow> 'p"
  pin_get :: "nat \<Rightarrow> 'p \<Rightarrow> int"
  pin_udelay :: "nat \<Rightarrow> 'p \<Rightarrow> 'p"

definition set_w1_gpio :: "'p w1_pin \<Rightarrow> nat \<Rightarrow> int \<Rightarrow> 'p \<Rightarrow> 'p" where
  "set_w1_gpio P gpio value p =
     (let p = pin_dir P gpio 0 0 p;
          p = pin_udelay P 5 p;
          p = pin_dir P gpio 1 0 p;
          p = pin_udelay P (if value \<noteq> 0 then 1 else 60) p;
          p = pin_dir P gpio 0 0 p
      in pin_udelay P (if value \<noteq> 0 then 60 else 1) p)"

definition get_w1_gpio :: "'p w1_pin \<Rightarrow> nat \<Rightarrow> 'p \<Rightarrow> int \<times> 'p" where
  "get_w1_gpio P gpio p =
     (let p = pin_dir P gpio 1 0 p;
          p = pin_udelay P 1 p;
          p = pin_dir P gpio 0 0 p;
          p = pin_udelay P 9 p;
          ret = pin_get P gpio p
      in (ret, pin_udelay P 60 p))"

definition w1_gpio_reset :: "'p w1_pin \<Rightarrow> nat \<Rightarrow> 'p \<Rightarrow> int \<times> 'p" where
  "w1_gpio_reset P gpio p =
     (let p = pin_dir_af P gpio 0 0 0 p;
          p = pin_dir P gpio 1 0 p;
          p = pin_udelay P 480 p;
          p = pin_dir P gpio 0 0 p;
          p = pin_udelay P 100 p;
          ret = (if pin_get P gpio p = 0 then 1 else 0);
          p = pin_udelay P 480 p
      in if pin_get P gpio p = 0 then (0, p) else (ret, p))"

definition w1_gpio_ops :: "'p w1_pin \<Rightarrow> 'p w1_ops" where
  "w1_gpio_ops P = \<lparr>op_reset = Some (w1_gpio_reset P), op_read_bit = get_w1_gpio P,
     op_write_bit = set_w1_gpio P, op_udelay = pin_udelay P\<rparr>"

end
