(* ===== verification/W1Props.thy ===== *)
theory W1Props
  imports W1
begin

text \<open>
  The ROM search of \<^verbatim>\<open>drivers/w1.c\<close> finds every device. What a bus of 1-wire devices does during a
  search is the interface \<open>onewire_bus\<close>: reset is answered, and for each bit the devices still taking
  part send their bit and its complement as a wired-and, and drop out unless the bit written back is theirs.
  Under it one pass of the search is a pure function of the set of ROM codes (\<open>bit_choice\<close>), it ends at the
  least code that continues the chosen prefix, and the passes enumerate the codes in order.
  The theory ends with a bus that meets the interface, and with the pages of the EEPROM.
\<close>

section \<open>Prefixes and their order\<close>

definition agree :: "nat \<Rightarrow> u64 \<Rightarrow> u64 \<Rightarrow> bool" where
  "agree n r s \<longleftrightarrow> (\<forall>m<n. bit r m = bit s m)"

definition rom_less :: "u64 \<Rightarrow> u64 \<Rightarrow> bool" where
  "rom_less r s \<longleftrightarrow> (\<exists>n<64. agree n r s \<and> \<not> bit r n \<and> bit s n)"

lemma agree_simps [simp]: "agree 0 r s" "agree n r r"
  by (simp_all add: agree_def)

lemma agree_Suc: "agree (Suc n) r s \<longleftrightarrow> agree n r s \<and> bit r n = bit s n"
  by (auto simp: agree_def less_Suc_eq)

lemma agree_sym: "agree n r s \<Longrightarrow> agree n s r"
  by (simp add: agree_def)

lemma agree_trans: "agree n r s \<Longrightarrow> agree n s t \<Longrightarrow> agree n r t"
  by (simp add: agree_def)

lemma agree_mono: "agree n r s \<Longrightarrow> m \<le> n \<Longrightarrow> agree m r s"
  by (simp add: agree_def)

lemma agree_all: "agree 64 r s \<longleftrightarrow> r = s"
  by (auto simp: agree_def bit_eq_iff)

lemma rom_differ:
  assumes "r \<noteq> s"
  obtains n where "n < 64" "agree n r s" "bit r n \<noteq> bit s n"
proof -
  have "\<exists>n. n < 64 \<and> bit r n \<noteq> bit s n" using assms agree_all [of r s] by (auto simp: agree_def)
  then obtain n where "n < 64 \<and> bit r n \<noteq> bit s n" "\<forall>m<n. \<not> (m < 64 \<and> bit r m \<noteq> bit s m)"
    using exists_least_iff [of "\<lambda>n. n < 64 \<and> bit r n \<noteq> bit s n"] by blast
  then show thesis using that by (auto simp: agree_def)
qed

lemma rom_less_total: "r \<noteq> s \<Longrightarrow> rom_less r s \<or> rom_less s r"
  by (erule rom_differ) (auto simp: rom_less_def dest: agree_sym)

lemma rom_less_irrefl: "\<not> rom_less r r"
  by (simp add: rom_less_def)

lemma rom_less_trans:
  assumes "rom_less r s" "rom_less s t"
  shows "rom_less r t"
proof -
  from assms obtain m n where m: "m < 64" "agree m r s" "\<not> bit r m" "bit s m"
    and n: "n < 64" "agree n s t" "\<not> bit s n" "bit t n" by (auto simp: rom_less_def)
  then have "m \<noteq> n" by auto
  then consider "m < n" | "n < m" by linarith
  then show ?thesis
  proof cases
    case 1
    then have "agree m r t" "bit t m" using m n agree_mono [OF n(2), of m] agree_trans by (auto simp: agree_def)
    then show ?thesis using m by (auto simp: rom_less_def)
  next
    case 2
    then have "agree n r t" "\<not> bit r n" using m n agree_mono [OF m(2), of n] agree_trans by (auto simp: agree_def)
    then show ?thesis using n by (auto simp: rom_less_def)
  qed
qed

lemma rom_less_asym: "rom_less r s \<Longrightarrow> \<not> rom_less s r"
  using rom_less_trans rom_less_irrefl by blast

section \<open>One pass as a function of the codes\<close>

definition bit_choice :: "nat \<Rightarrow> nat \<Rightarrow> u64 set \<times> u64 \<times> u64 \<Rightarrow> u64 set \<times> u64 \<times> u64" where
  "bit_choice N k = (\<lambda>(A, rom, cmask).
     if \<forall>r\<in>A. bit r k then (A, rom OR push_bit k 1, cmask)
     else if \<forall>r\<in>A. \<not> bit r k then (A, rom, cmask)
     else if bit rom k \<and> k < N then ({r \<in> A. bit r k}, rom, cmask)
     else ({r \<in> A. \<not> bit r k}, rom, cmask OR push_bit k 1))"

definition search_pass :: "nat \<Rightarrow> u64 set \<Rightarrow> u64 \<Rightarrow> nat \<Rightarrow> u64 set \<times> u64 \<times> u64" where
  "search_pass N R rom n = fold (bit_choice N) [0..<n] (R, rom, 0)"

lemma search_pass_0 [simp]: "search_pass N R rom 0 = (R, rom, 0)"
  by (simp add: search_pass_def)

lemma search_pass_Suc: "search_pass N R rom (Suc n) = bit_choice N n (search_pass N R rom n)"
  by (simp add: search_pass_def)

lemma bit_set_one: "bit (x OR 2 ^ k :: u64) m \<longleftrightarrow> bit x m \<or> (m = k \<and> k < 64)"
  by (auto simp: bit_simps dest: bit_imp_le_length)

lemma bit_clear_one: "bit (x AND NOT (2 ^ k) :: u64) m \<longleftrightarrow> bit x m \<and> m \<noteq> k"
  by (auto simp: bit_simps dest: bit_imp_le_length)

lemma and_one_eq_0: "(x AND 2 ^ k :: u64) = 0 \<longleftrightarrow> \<not> bit x k"
  by (simp add: and_exp_eq_0_iff_not_bit)

lemma scan_select_eq:
  assumes "k < 64" "0 < N"
  shows "scan_select N rom (push_bit k 1) \<noteq> 0 \<longleftrightarrow> bit rom k \<and> k < N"
proof -
  have b: "bit (uint (rom AND push_bit k 1)) m \<longleftrightarrow> m = k \<and> bit rom k" for m
    using assms by (auto simp: bit_simps)
  show ?thesis
  proof (cases "bit rom k \<and> k < N")
    case True
    then have "bit (scan_select N rom (push_bit k 1)) k" using assms b
      by (simp add: scan_select_def bit_signed_take_bit_iff min_def) linarith
    then show ?thesis using True by auto
  next
    case False
    then have "scan_select N rom (push_bit k 1) = 0" using assms b
      by (intro bit_eqI) (auto simp: scan_select_def bit_signed_take_bit_iff)
    then show ?thesis using False by auto
  qed
qed

locale onewire_bus =
  fixes E :: "'b w1_ops" and d :: nat and roms :: "u64 set"
    and ready :: "'b \<Rightarrow> bool" and searching :: "u64 set \<Rightarrow> nat \<Rightarrow> 'b \<Rightarrow> bool"
  assumes search_start: "ready w \<Longrightarrow> \<exists>reset w'. op_reset E = Some reset \<and> reset d w = (1, w')
      \<and> searching roms 0 (w1_write_byte E d 0xf0 w')"
    and search_bit: "searching A n w \<Longrightarrow> n < 64 \<Longrightarrow> A \<noteq> {} \<Longrightarrow>
      \<exists>w1 w2. op_read_bit E d w = (of_bool (\<forall>r\<in>A. bit r n), w1)
        \<and> op_read_bit E d w1 = (of_bool (\<forall>r\<in>A. \<not> bit r n), w2)
        \<and> (\<forall>v. searching {r \<in> A. bit r n \<longleftrightarrow> v \<noteq> 0} (Suc n) (op_write_bit E d v w2))"
    and search_end: "searching A 64 w \<Longrightarrow> ready w"
begin

lemma scan_step_choice:
  assumes "searching A n w" "n < 64" "A \<noteq> {}" "0 < N"
  obtains w' where "scan_step N E d n (rom, cm, w) = (fst (snd (bit_choice N n (A, rom, cm))),
      snd (snd (bit_choice N n (A, rom, cm))), w')"
    "searching (fst (bit_choice N n (A, rom, cm))) (Suc n) w'"
proof -
  from search_bit [OF assms(1-3)] obtain w1 w2 where
    w: "op_read_bit E d w = (of_bool (\<forall>r\<in>A. bit r n), w1)" "op_read_bit E d w1 = (of_bool (\<forall>r\<in>A. \<not> bit r n), w2)"
    and nxt: "\<And>v. searching {r \<in> A. bit r n \<longleftrightarrow> v \<noteq> 0} (Suc n) (op_write_bit E d v w2)" by blast
  note sel = scan_select_eq [OF assms(2,4), of rom]
  consider (one) "\<forall>r\<in>A. bit r n" | (zero) "\<forall>r\<in>A. \<not> bit r n" "\<not> (\<forall>r\<in>A. bit r n)"
    | (both) "\<not> (\<forall>r\<in>A. \<not> bit r n)" "\<not> (\<forall>r\<in>A. bit r n)" by blast
  then show thesis
  proof cases
    case one
    then have n0: "\<not> (\<forall>r\<in>A. \<not> bit r n)" using assms(3) by auto
    have "{r \<in> A. bit r n \<longleftrightarrow> (1 :: int) \<noteq> 0} = A" using one by auto
    then show thesis using that [of "op_write_bit E d 1 w2"] nxt [of 1] w one n0
      by (simp add: scan_step_def get_dibit_def bit_choice_def)
  next
    case zero
    then have "{r \<in> A. bit r n \<longleftrightarrow> (0 :: int) \<noteq> 0} = A" by auto
    then show thesis using that [of "op_write_bit E d 0 w2"] nxt [of 0] w zero
      by (simp add: scan_step_def get_dibit_def bit_choice_def)
  next
    case both
    let ?v = "scan_select N rom (push_bit n 1)"
    show thesis using that [of "op_write_bit E d ?v w2"] nxt [of ?v] w both sel
      by (cases "bit rom n \<and> n < N") (simp_all add: scan_step_def get_dibit_def bit_choice_def)
  qed
qed

lemma bit_choice_nonempty: "A \<noteq> {} \<Longrightarrow> fst (bit_choice N n (A, rom, cm)) \<noteq> {}"
  by (auto simp: bit_choice_def)

lemma scan_steps_pass:
  assumes "searching roms 0 w" "roms \<noteq> {}" "0 < N" "n \<le> 64"
  shows "\<exists>w'. fold (scan_step N E d) [0..<n] (rom, 0, w)
        = (fst (snd (search_pass N roms rom n)), snd (snd (search_pass N roms rom n)), w')
      \<and> searching (fst (search_pass N roms rom n)) n w' \<and> fst (search_pass N roms rom n) \<noteq> {}"
  using assms(4)
proof (induction n)
  case 0
  then show ?case using assms by simp
next
  case (Suc n)
  then obtain w' where IH: "fold (scan_step N E d) [0..<n] (rom, 0, w)
      = (fst (snd (search_pass N roms rom n)), snd (snd (search_pass N roms rom n)), w')"
    "searching (fst (search_pass N roms rom n)) n w'" "fst (search_pass N roms rom n) \<noteq> {}" by auto
  obtain A c m where s: "search_pass N roms rom n = (A, c, m)" by (cases "search_pass N roms rom n")
  with IH(2,3) Suc.prems assms(3) obtain w'' where "scan_step N E d n (c, m, w') = (fst (snd (bit_choice N n (A, c, m))),
      snd (snd (bit_choice N n (A, c, m))), w'')" "searching (fst (bit_choice N n (A, c, m))) (Suc n) w''"
    by (auto elim: scan_step_choice [of A n w' N c m])
  then show ?case using IH s bit_choice_nonempty [of A N n c m] by (simp add: search_pass_Suc)
qed

lemma scan_one_pass:
  assumes "ready w" "roms \<noteq> {}" "0 < N"
  shows "\<exists>A c m w'. search_pass N roms rom 64 = (A, c, m)
    \<and> w1_scan_one N E d rom cmask w = Some (0, c, m, w') \<and> ready w'"
proof -
  from search_start [OF assms(1)] obtain reset w1 where
    r: "op_reset E = Some reset" "reset d w = (1, w1)" "searching roms 0 (w1_write_byte E d 0xf0 w1)" by blast
  from scan_steps_pass [OF this(3) assms(2,3), of 64 rom] obtain w' where
    "fold (scan_step N E d) [0..<64] (rom, 0, w1_write_byte E d 0xf0 w1)
        = (fst (snd (search_pass N roms rom 64)), snd (snd (search_pass N roms rom 64)), w')"
    "searching (fst (search_pass N roms rom 64)) 64 w'" by auto
  then show ?thesis using r search_end
    by (cases "search_pass N roms rom 64") (auto simp: w1_scan_one_def)
qed

end

section \<open>A pass ends at the least continuation\<close>

text \<open>
  After \<open>n\<close> bits: the devices taking part are those that agree with the code so far, the bits to come
  are those asked for, the conflict mask marks the places where a 0 was taken and a 1 was possible,
  and behind the prefix asked for a 1 was taken only where there was no 0.
\<close>

definition pass_inv :: "u64 set \<Rightarrow> u64 \<Rightarrow> nat \<Rightarrow> nat \<Rightarrow> u64 set \<times> u64 \<times> u64 \<Rightarrow> bool" where
  "pass_inv R rho n0 n = (\<lambda>(A, c, m).
     A = {r \<in> R. agree n r c} \<and> A \<noteq> {} \<and> (\<forall>k\<ge>n. bit c k = bit rho k) \<and> agree (min n n0) c rho
     \<and> (\<forall>k. bit m k \<longleftrightarrow> k < n \<and> \<not> bit c k \<and> (\<exists>s\<in>R. agree k s c \<and> bit s k))
     \<and> (\<forall>k<n. n0 \<le> k \<longrightarrow> bit c k \<longrightarrow> (\<forall>r\<in>R. agree k r c \<longrightarrow> bit r k)))"

lemma agree_change:
  "\<forall>k. k \<noteq> n \<longrightarrow> bit c' k = bit c k \<Longrightarrow> k \<le> n \<Longrightarrow> agree k r c' \<longleftrightarrow> agree k r c"
  by (auto simp: agree_def)

lemma pass_inv_Suc:
  assumes inv: "pass_inv R rho n0 n (A, c, m)"
    and c': "\<forall>k. k \<noteq> n \<longrightarrow> bit c' k = bit c k" "n < n0 \<Longrightarrow> bit c' n = bit rho n"
    and A': "A' = {r \<in> A. bit r n = bit c' n}" "A' \<noteq> {}"
    and m': "\<And>k. bit m' k \<longleftrightarrow> bit m k \<or> k = n \<and> \<not> bit c' n \<and> (\<exists>s\<in>A. bit s n)"
    and least: "n0 \<le> n \<Longrightarrow> bit c' n \<Longrightarrow> \<forall>r\<in>A. bit r n"
  shows "pass_inv R rho n0 (Suc n) (A', c', m')"
proof -
  note ac = agree_change [OF c'(1)]
  have i: "A = {r \<in> R. agree n r c}" "\<forall>k\<ge>n. bit c k = bit rho k" "agree (min n n0) c rho"
    "\<And>k. bit m k \<longleftrightarrow> k < n \<and> \<not> bit c k \<and> (\<exists>s\<in>R. agree k s c \<and> bit s k)"
    "\<And>k r. k < n \<Longrightarrow> n0 \<le> k \<Longrightarrow> bit c k \<Longrightarrow> r \<in> R \<Longrightarrow> agree k r c \<Longrightarrow> bit r k"
    using inv by (auto simp: pass_inv_def)
  have 1: "A' = {r \<in> R. agree (Suc n) r c'}" using A'(1) i(1) ac by (auto simp: agree_Suc)
  have 2: "\<forall>k\<ge>Suc n. bit c' k = bit rho k" using i(2) c'(1) by auto
  have 3: "agree (min (Suc n) n0) c' rho"
    using i(3) c' by (cases "n < n0") (auto simp: agree_def min_def less_Suc_eq split: if_splits)
  have 4: "bit m' k \<longleftrightarrow> k < Suc n \<and> \<not> bit c' k \<and> (\<exists>s\<in>R. agree k s c' \<and> bit s k)" for k
  proof (cases "k = n")
    case True
    then show ?thesis using m' [of k] i(4) [of k] i(1) ac [of n] by auto
  next
    case False
    then have "k < Suc n \<longleftrightarrow> k < n" "bit c' k = bit c k" using c'(1) by auto
    then show ?thesis using m' [of k] i(4) [of k] False ac [of k] by (cases "k < n") simp_all
  qed
  have 5: "bit r k" if "k < Suc n" "n0 \<le> k" "bit c' k" "r \<in> R" "agree k r c'" for k r
  proof (cases "k = n")
    case True
    then have "r \<in> A" using that i(1) ac [of n r] by simp
    with True show ?thesis using least that(2,3) by simp
  next
    case False
    then have "k < n" "bit c k" using that(1,3) c'(1) by auto
    then show ?thesis using i(5) [of k r] that(2,4,5) ac [of k r] by simp
  qed
  show ?thesis using 1 2 3 4 5 A'(2) by (auto simp: pass_inv_def)
qed

definition pass_pre :: "nat \<Rightarrow> u64 set \<Rightarrow> u64 \<Rightarrow> nat \<Rightarrow> bool" where
  "pass_pre N R rho n0 \<longleftrightarrow> (\<exists>s\<in>R. agree n0 s rho) \<and> (\<forall>k\<ge>n0. \<not> bit rho k)
     \<and> (\<forall>r\<in>R. \<forall>s\<in>R. agree N r s \<longrightarrow> r = s)"

lemma pass_step:
  assumes inv: "pass_inv R rho n0 n (A, c, m)" and pre: "pass_pre N R rho n0" and n: "n < 64"
  shows "pass_inv R rho n0 (Suc n) (bit_choice N n (A, c, m))"
proof -
  have A: "A = {r \<in> R. agree n r c}" "A \<noteq> {}" and cr: "bit c n = bit rho n" "agree (min n n0) c rho"
    using inv by (auto simp: pass_inv_def)
  from pre obtain s0 where s0: "s0 \<in> R" "agree n0 s0 rho" by (auto simp: pass_pre_def)
  have s0A: "s0 \<in> A" "bit s0 n = bit rho n" if "n < n0"
    using that A s0 cr(2) by (auto simp: agree_def min_def)
  have zero: "\<not> bit rho n" if "n0 \<le> n" using that pre by (auto simp: pass_pre_def)
  have inj: "n < N" if "r \<in> A" "s \<in> A" "bit r n \<noteq> bit s n" for r s
  proof (rule ccontr)
    assume "\<not> n < N"
    then have "agree N r s" using that A(1) by (auto simp: agree_def)
    then show False using that A(1) pre by (auto simp: pass_pre_def)
  qed
  note Suc = pass_inv_Suc [OF inv]
  consider (one) "\<forall>r\<in>A. bit r n" | (zero) "\<forall>r\<in>A. \<not> bit r n" "\<not> (\<forall>r\<in>A. bit r n)"
    | (both) "\<exists>r\<in>A. bit r n" "\<exists>r\<in>A. \<not> bit r n" by blast
  then show ?thesis
  proof cases
    case one
    then have "pass_inv R rho n0 (Suc n) (A, c OR push_bit n 1, m)"
      using A(2) n s0A by (intro Suc) (auto simp: bit_set_one)
    with one show ?thesis by (simp add: bit_choice_def)
  next
    case zero
    have "\<not> bit c n" using zero(1) s0A \<open>n0 \<le> n \<Longrightarrow> \<not> bit rho n\<close> cr(1) by (cases "n < n0") auto
    then have "pass_inv R rho n0 (Suc n) (A, c, m)"
      using A(2) zero cr by (intro Suc) auto
    with zero show ?thesis by (simp add: bit_choice_def)
  next
    case both
    then have "n < N" using inj by blast
    show ?thesis
    proof (cases "bit c n")
      case True
      then have "pass_inv R rho n0 (Suc n) ({r \<in> A. bit r n}, c, m)"
        using both cr \<open>n0 \<le> n \<Longrightarrow> \<not> bit rho n\<close> by (intro Suc) auto
      then show ?thesis using both True \<open>n < N\<close> by (auto simp: bit_choice_def)
    next
      case False
      then have "pass_inv R rho n0 (Suc n) ({r \<in> A. \<not> bit r n}, c, m OR push_bit n 1)"
        using both cr n by (intro Suc) (auto simp: bit_set_one)
      then show ?thesis using both False by (auto simp: bit_choice_def)
    qed
  qed
qed

lemma pass_inv_pass:
  assumes "pass_pre N R rho n0" "n \<le> 64"
  shows "pass_inv R rho n0 n (search_pass N R rho n)"
  using assms(2)
proof (induction n)
  case 0
  then show ?case using assms(1) by (auto simp: pass_inv_def pass_pre_def)
next
  case (Suc n)
  then show ?case using pass_step [OF _ assms(1)]
    by (cases "search_pass N R rho n") (auto simp: search_pass_Suc)
qed

text \<open>What a pass returns: the least code with the prefix, and the places of the greater ones.\<close>

lemma search_pass_least:
  assumes "pass_pre N R rho n0" "n0 \<le> 64" "search_pass N R rho 64 = (A, c, m)"
  shows "c \<in> R" "agree n0 c rho"
    "\<And>k. bit m k \<longleftrightarrow> k < 64 \<and> \<not> bit c k \<and> (\<exists>s\<in>R. agree k s c \<and> bit s k)"
    "\<And>s. s \<in> R \<Longrightarrow> agree n0 s rho \<Longrightarrow> s = c \<or> rom_less c s"
proof -
  have inv: "pass_inv R rho n0 64 (A, c, m)" using pass_inv_pass [OF assms(1), of 64] assms(3) by simp
  then have A: "A = {r \<in> R. agree 64 r c}" "A \<noteq> {}" and "agree (min 64 n0) c rho"
    and least: "\<And>k r. k < 64 \<Longrightarrow> n0 \<le> k \<Longrightarrow> bit c k \<Longrightarrow> r \<in> R \<Longrightarrow> agree k r c \<Longrightarrow> bit r k"
    by (auto simp: pass_inv_def)
  then show "c \<in> R" and cr: "agree n0 c rho" using assms(2) by (auto simp: agree_all min_def)
  show "bit m k \<longleftrightarrow> k < 64 \<and> \<not> bit c k \<and> (\<exists>s\<in>R. agree k s c \<and> bit s k)" for k
    using inv by (simp add: pass_inv_def)
  show "s = c \<or> rom_less c s" if s: "s \<in> R" "agree n0 s rho" for s
  proof (cases "s = c")
    case False
    then obtain k where k: "k < 64" "agree k s c" "bit s k \<noteq> bit c k" by (rule rom_differ)
    then have "n0 \<le> k" using s(2) cr by (auto simp: agree_def not_le [symmetric])
    then have "\<not> bit c k" using least [OF k(1), of s] k s by auto
    then show ?thesis using k by (auto simp: rom_less_def dest: agree_sym)
  qed simp
qed

section \<open>The next code\<close>

lemma last_conflict_none: "\<forall>k<n. \<not> bit m k \<Longrightarrow> snd (last_conflict n c m) = 0"
  by (induction n arbitrary: c) (simp_all add: and_one_eq_0 less_Suc_eq)

lemma last_conflict_some:
  assumes "k < n" "bit m k" "\<forall>j<n. k < j \<longrightarrow> \<not> bit m j"
  shows "\<exists>c'. last_conflict n c m = (c', 2 ^ k) \<and> (\<forall>j. bit c' j \<longleftrightarrow> bit c j \<and> \<not> (k < j \<and> j < n))"
  using assms
proof (induction n arbitrary: c)
  case (Suc n)
  show ?case
  proof (cases "k = n")
    case True
    then show ?thesis using Suc.prems by (auto simp: and_one_eq_0)
  next
    case False
    then have "k < n" "\<not> bit m n" using Suc.prems by auto
    then obtain c' where "last_conflict n (c AND NOT (2 ^ n)) m = (c', 2 ^ k)"
      "\<forall>j. bit c' j \<longleftrightarrow> bit (c AND NOT (2 ^ n)) j \<and> \<not> (k < j \<and> j < n)"
      using Suc.IH [of "c AND NOT (2 ^ n)"] Suc.prems by auto
    then show ?thesis using \<open>\<not> bit m n\<close> \<open>k < n\<close>
      by (auto simp: and_one_eq_0 bit_clear_one less_Suc_eq)
  qed
qed simp

lemma last_bit:
  assumes "k < 64" "bit (m :: u64) k"
  obtains j where "j < 64" "bit m j" "\<forall>i<64. j < i \<longrightarrow> \<not> bit m i"
proof -
  let ?S = "{k. k < 64 \<and> bit m k}"
  have "finite ?S" "?S \<noteq> {}" using assms by auto
  then have "Max ?S \<in> ?S" "\<And>i. i \<in> ?S \<Longrightarrow> i \<le> Max ?S" using Max_in Max_ge by blast+
  then show thesis by (intro that [of "Max ?S"]) (auto simp: not_le [symmetric])
qed

text \<open>
  \<open>conflicts R c m\<close>: the mask \<open>m\<close> marks where a greater code of \<open>R\<close> leaves \<open>c\<close>.
\<close>

definition conflicts :: "u64 set \<Rightarrow> u64 \<Rightarrow> u64 \<Rightarrow> bool" where
  "conflicts R c m \<longleftrightarrow> (\<forall>k. bit m k \<longleftrightarrow> k < 64 \<and> \<not> bit c k \<and> (\<exists>s\<in>R. agree k s c \<and> bit s k))"

lemma no_conflict_max:
  assumes "conflicts R c m" "snd (last_conflict 64 c m) = 0" "s \<in> R" "rom_less c s"
  shows False
proof -
  from assms(4) obtain k where k: "k < 64" "agree k c s" "\<not> bit c k" "bit s k" by (auto simp: rom_less_def)
  then have "bit m k" using assms(1,3) agree_sym [OF k(2)] by (auto simp: conflicts_def)
  with k have ex: "\<exists>k. k < 64 \<and> bit m k" by blast
  then obtain j where j: "j < 64" "bit m j" "\<forall>i<64. j < i \<longrightarrow> \<not> bit m i" by (auto elim: last_bit)
  then obtain c' where "last_conflict 64 c m = (c', 2 ^ j)"
    using last_conflict_some [of j 64 m c] by auto
  with assms(2) have "2 ^ j = (0 :: u64)" by simp
  moreover have "bit (2 ^ j :: u64) j" using j(1) by (simp add: bit_exp_iff)
  ultimately show False by (metis bit_0_eq bot_apply bot_bool_def)
qed

lemma conflicts_next:
  assumes "conflicts R c m" "last_conflict 64 c m = (c', msk)" "msk \<noteq> 0" "\<forall>r\<in>R. \<forall>s\<in>R. agree N r s \<longrightarrow> r = s"
  obtains j where "j < 64" "msk = 2 ^ j" "pass_pre N R (c' OR msk) (Suc j)" "\<not> bit c j"
    "agree j c (c' OR msk)" "bit (c' OR msk) j" "\<And>k. bit m k \<Longrightarrow> k \<le> j"
proof -
  have "\<exists>k<64. bit m k" using last_conflict_none [of 64 m c] assms(2,3) by auto
  then obtain j where j: "j < 64" "bit m j" "\<forall>i<64. j < i \<longrightarrow> \<not> bit m i" by (auto elim: last_bit)
  then have c': "msk = 2 ^ j" "\<And>k. bit c' k \<longleftrightarrow> bit c k \<and> \<not> (j < k \<and> k < 64)"
    using last_conflict_some [of j 64 m c] assms(2) by auto
  have rho_bit: "bit (c' OR msk) k \<longleftrightarrow> (if j < k then False else if k = j then True else bit c k)" for k
    using j(1) bit_imp_le_length [of c k] unfolding c'(1) bit_set_one c'(2) by auto
  then have rho: "agree j c (c' OR msk)" "bit (c' OR msk) j" "\<forall>k\<ge>Suc j. \<not> bit (c' OR msk) k"
    by (simp_all add: agree_def)
  from j(2) assms(1) obtain s where s: "s \<in> R" "agree j s c" "bit s j" "\<not> bit c j" by (auto simp: conflicts_def)
  then have "agree (Suc j) s (c' OR msk)" using rho(1,2) agree_trans by (auto simp: agree_Suc)
  then have "pass_pre N R (c' OR msk) (Suc j)" using s rho(3) assms(4) by (auto simp: pass_pre_def)
  moreover have "k \<le> j" if "bit m k" for k
    using j(3) that bit_imp_le_length [OF that] by (auto simp: not_le [symmetric])
  ultimately show thesis using that j(1) c'(1) s(4) rho by blast
qed

lemma next_code:
  assumes "conflicts R c m" "last_conflict 64 c m = (c', msk)" "msk \<noteq> 0" "\<forall>r\<in>R. \<forall>s\<in>R. agree N r s \<longrightarrow> r = s"
    and "search_pass N R (c' OR msk) 64 = (A, c2, m2)"
  shows "c2 \<in> R" "conflicts R c2 m2" "rom_less c c2" "\<And>t. t \<in> R \<Longrightarrow> rom_less c t \<Longrightarrow> t = c2 \<or> rom_less c2 t"
proof -
  from conflicts_next [OF assms(1-4)] obtain j where j: "j < 64" "pass_pre N R (c' OR msk) (Suc j)" "\<not> bit c j"
    "agree j c (c' OR msk)" "bit (c' OR msk) j" and top: "\<And>k. bit m k \<Longrightarrow> k \<le> j" by blast
  then have "Suc j \<le> 64" by simp
  note p = search_pass_least [OF j(2) this assms(5)]
  show "c2 \<in> R" "conflicts R c2 m2" using p(1,3) by (auto simp: conflicts_def)
  have c2: "agree j c c2" "bit c2 j" using p(2) j(4,5) by (auto simp: agree_Suc agree_def)
  then show "rom_less c c2" using j(1,3) by (auto simp: rom_less_def)
  show "t = c2 \<or> rom_less c2 t" if t: "t \<in> R" "rom_less c t" for t
  proof -
    from t(2) obtain k where k: "k < 64" "agree k c t" "\<not> bit c k" "bit t k" by (auto simp: rom_less_def)
    then have "bit m k" using assms(1) t(1) agree_sym [OF k(2)] by (auto simp: conflicts_def)
    then consider "k < j" | "k = j" using top by fastforce
    then show ?thesis
    proof cases
      case 1
      then have "agree k c2 t" "\<not> bit c2 k" using k c2(1) by (auto simp: agree_def)
      then show ?thesis using k by (auto simp: rom_less_def)
    next
      case 2
      then have "agree j t (c' OR msk)" using k(2) j(4) agree_sym agree_trans by blast
      with 2 have "agree (Suc j) t (c' OR msk)" using k(4) j(5) by (simp add: agree_Suc)
      then show ?thesis using p(4) t(1) by blast
    qed
  qed
qed

section \<open>The scan enumerates the bus\<close>

text \<open>
  \<open>enumerated R c xs\<close>: \<open>xs\<close> lists in order the codes of \<open>R\<close> up to \<open>c\<close>, the last of them.
\<close>

definition enumerated :: "u64 set \<Rightarrow> u64 \<Rightarrow> u64 list \<Rightarrow> bool" where
  "enumerated R c xs \<longleftrightarrow> sorted_wrt rom_less xs \<and> c \<in> R \<and> set xs = {s \<in> R. \<not> rom_less c s}"

lemma enumerated_step:
  assumes "enumerated R c xs" "c2 \<in> R" "rom_less c c2" "\<And>t. t \<in> R \<Longrightarrow> rom_less c t \<Longrightarrow> t = c2 \<or> rom_less c2 t"
  shows "enumerated R c2 (xs @ [c2])"
proof -
  have le: "x = c \<or> rom_less x c" if "\<not> rom_less c x" for x using that rom_less_total by blast
  then have "rom_less x c2" if "\<not> rom_less c x" for x using that assms(3) rom_less_trans by blast
  then show ?thesis using assms rom_less_asym rom_less_irrefl
    by (auto simp: enumerated_def sorted_wrt_append)
qed

lemma sorted_rom_distinct: "sorted_wrt rom_less xs \<Longrightarrow> distinct xs"
  using rom_less_irrefl by (induction xs) auto

lemma enumerated_length:
  assumes "enumerated R c xs" "finite R"
  shows "length xs \<le> card R" "(\<And>t. t \<in> R \<Longrightarrow> \<not> rom_less c t) \<Longrightarrow> length xs = card R"
proof -
  have d: "distinct xs" "set xs \<subseteq> R" using assms(1) sorted_rom_distinct by (auto simp: enumerated_def)
  then show "length xs \<le> card R" using assms(2) distinct_card [OF d(1)] card_mono by metis
  show "length xs = card R" if "\<And>t. t \<in> R \<Longrightarrow> \<not> rom_less c t"
  proof -
    have "set xs = R" using assms(1) that by (auto simp: enumerated_def)
    then show ?thesis using distinct_card [OF d(1)] by simp
  qed
qed

context onewire_bus
begin

lemma scan_loop_enumerates:
  assumes "ready w" "finite roms" "0 < N" "\<forall>r\<in>roms. \<forall>s\<in>roms. agree N r s \<longrightarrow> r = s"
    and "0 < i" "i \<le> 8" "length devs = 8" "enumerated roms (wd_rom (devs ! (i - 1))) (map wd_rom (take i devs))"
    and "conflicts roms (wd_rom (devs ! (i - 1))) m"
  shows "\<exists>devs' w' c. w1_scan_loop N E d i m devs w = Some (min 8 (card roms), devs', w') \<and> ready w' \<and> length devs' = 8
    \<and> enumerated roms c (map wd_rom (take (min 8 (card roms)) devs'))"
  using assms(1,5-9)
proof (induction "8 - i" arbitrary: i m devs w)
  case 0
  then have "i = 8" by simp
  moreover have "8 \<le> card roms" using enumerated_length(1) [OF 0(6) assms(2)] 0 by simp
  ultimately show ?case using 0 by (subst w1_scan_loop.simps) (auto simp: W1_MAX_DEVICES_def min_def)
next
  case (Suc k)
  let ?c = "wd_rom (devs ! (i - 1))"
  from Suc have i: "i < 8" "0 < i" by auto
  obtain c' msk where l: "last_conflict 64 ?c m = (c', msk)" by (cases "last_conflict 64 ?c m")
  have len: "length (map wd_rom (take i devs)) = i" using Suc.prems i by simp
  show ?case
  proof (cases "msk = 0")
    case True
    have "\<not> rom_less ?c t" if "t \<in> roms" for t using no_conflict_max [OF Suc.prems(6)] that l True by auto
    then have "i = card roms" using enumerated_length(2) [OF Suc.prems(5) assms(2)] len by simp
    then show ?thesis using i l True Suc.prems
      by (subst w1_scan_loop.simps) (auto simp: W1_MAX_DEVICES_def intro: exI [of _ ?c])
  next
    case False
    have ne: "roms \<noteq> {}" using Suc.prems(5) by (auto simp: enumerated_def)
    from scan_one_pass [OF Suc.prems(1) ne assms(3), of "c' OR msk" "m AND NOT msk"] obtain A c2 m2 w2 where
      p: "search_pass N roms (c' OR msk) 64 = (A, c2, m2)"
      and s1: "w1_scan_one N E d (c' OR msk) (m AND NOT msk) w = Some (0, c2, m2, w2)" "ready w2" by blast
    note n = next_code [OF Suc.prems(6) l False assms(4) p]
    let ?devs = "devs[i := \<lparr>wd_bus = Some d, wd_rom = c2\<rparr>]"
    have step: "w1_scan_loop N E d i m devs w = w1_scan_loop N E d (i + 1) m2 ?devs w2"
      using i l False s1 by (subst w1_scan_loop.simps) (simp add: W1_MAX_DEVICES_def)
    have t: "map wd_rom (take (i + 1) ?devs) = map wd_rom (take i devs) @ [c2]"
      using i Suc.prems(4) by (simp add: take_Suc_conv_app_nth)
    have nth: "?devs ! i = \<lparr>wd_bus = Some d, wd_rom = c2\<rparr>" using i Suc.prems(4) by simp
    have "enumerated roms c2 (map wd_rom (take (i + 1) ?devs))"
      unfolding t by (rule enumerated_step [OF Suc.prems(5) n(1,3)]) (rule n(4))
    then show ?thesis unfolding step
      using Suc.hyps(2) i Suc.prems(4) s1(2) n(2) nth by (intro Suc.hyps(1)) auto
  qed
qed

lemma scan_bus_enumerates:
  assumes "ready w" "finite roms" "roms \<noteq> {}" "0 < N" "\<forall>r\<in>roms. \<forall>s\<in>roms. agree N r s \<longrightarrow> r = s" "wb_detail bus = d"
  shows "\<exists>bus' w' c. w1_scan_bus N E bus w = Some (min 8 (card roms), bus', w') \<and> ready w' \<and> length (wb_devs bus') = 8
    \<and> enumerated roms c (map wd_rom (take (min 8 (card roms)) (wb_devs bus')))"
proof -
  let ?devs = "replicate 8 \<lparr>wd_bus = None, wd_rom = 0\<rparr> :: w1_dev list"
  from scan_one_pass [OF assms(1,3,4), of 0 0] obtain A c m w1 where
    p: "search_pass N roms 0 64 = (A, c, m)"
    and s1: "w1_scan_one N E d 0 0 w = Some (0, c, m, w1)" "ready w1" by blast
  have pre: "pass_pre N roms 0 0" using assms(3,5) by (auto simp: pass_pre_def)
  note l = search_pass_least [OF pre le0 p]
  have e: "enumerated roms c [c]" using l(1,4) rom_less_irrefl by (auto simp: enumerated_def)
  let ?devs1 = "?devs[0 := \<lparr>wd_bus = Some d, wd_rom = c\<rparr>]"
  have "op_reset E \<noteq> None" using search_start [OF assms(1)] by auto
  then have step: "w1_scan_bus N E bus w = map_option (\<lambda>(n, devs, w). (n, bus\<lparr>wb_devs := devs\<rparr>, w))
      (w1_scan_loop N E d 1 m ?devs1 w1)"
    using s1 assms(6) by (auto simp: w1_scan_bus_def W1_MAX_DEVICES_def Let_def w1_scan_loop.simps [of _ _ _ 0])
  have "\<exists>devs' w' c. w1_scan_loop N E d 1 m ?devs1 w1 = Some (min 8 (card roms), devs', w') \<and> ready w' \<and> length devs' = 8
    \<and> enumerated roms c (map wd_rom (take (min 8 (card roms)) devs'))"
    using s1(2) assms e l(3) by (intro scan_loop_enumerates) (auto simp: conflicts_def numeral_eq_Suc)
  then show ?thesis unfolding step by auto
qed

end

section \<open>Codes that differ only above the width of an int\<close>

text \<open>
  With two devices whose codes first differ at bit \<open>n\<close>, and \<open>n\<close> not below the width of an \<^verbatim>\<open>int\<close>, the
  bit asked for is lost in \<open>select\<close>: the pass takes the 0 but keeps the 1 in the code it returns.
\<close>

lemma wide_pass:
  assumes rs: "n < 64" "N \<le> n" "agree n r s" "\<not> bit r n" "bit s n"
    and rho: "\<And>j. j \<noteq> n \<Longrightarrow> bit rho j \<Longrightarrow> bit r j" and "k \<le> 64"
  shows "\<exists>c. search_pass N {r, s} rho k = (if k \<le> n then {r, s} else {r}, c, if k \<le> n then 0 else 2 ^ n)
    \<and> (\<forall>j. bit c j \<longleftrightarrow> (if j = n then bit rho n else if j < k then bit r j else bit rho j))"
  using \<open>k \<le> 64\<close>
proof (induction k)
  case 0
  then show ?case by simp
next
  case (Suc k)
  then obtain c where IH: "search_pass N {r, s} rho k = (if k \<le> n then {r, s} else {r}, c, if k \<le> n then 0 else 2 ^ n)"
    and c: "\<And>j. bit c j \<longleftrightarrow> (if j = n then bit rho n else if j < k then bit r j else bit rho j)" by auto
  have k64: "k < 64" using Suc.prems by simp
  consider (low) "k < n" | (at) "k = n" | (high) "n < k" by linarith
  then show ?case
  proof cases
    case at
    then have "bit_choice N k ({r, s}, c, 0) = ({r}, c, 2 ^ n)" using rs by (auto simp: bit_choice_def)
    then show ?thesis using IH at c by (auto simp: search_pass_Suc)
  next
    case low
    then have "bit s k = bit r k" using rs(3) by (simp add: agree_def)
    then show ?thesis using IH low c k64 rho [of k]
      by (cases "bit r k") (auto simp: search_pass_Suc bit_choice_def bit_set_one less_Suc_eq)
  next
    case high
    then show ?thesis using IH c k64 rho [of k]
      by (cases "bit r k") (auto simp: search_pass_Suc bit_choice_def bit_set_one less_Suc_eq)
  qed
qed

lemma wide_pass_end:
  assumes rs: "n < 64" "N \<le> n" "agree n r s" "\<not> bit r n" "bit s n"
    and rho: "\<And>j. j \<noteq> n \<Longrightarrow> bit rho j \<Longrightarrow> bit r j"
  shows "search_pass N {r, s} rho 64 = ({r}, if bit rho n then r OR 2 ^ n else r, 2 ^ n)"
proof -
  from wide_pass [OF rs rho, where k = 64] obtain c where c: "search_pass N {r, s} rho 64 = ({r}, c, 2 ^ n)"
    "\<And>j. bit c j \<longleftrightarrow> (if j = n then bit rho n else if j < 64 then bit r j else bit rho j)" using rs(1) by auto
  have "c = (if bit rho n then r OR 2 ^ n else r)"
    by (rule bit_eqI) (use c(2) rs(1,4) in \<open>auto simp: bit_set_one\<close>)
  then show ?thesis using c(1) by simp
qed

lemma wide_conflict:
  assumes "n < 64" "c = r \<or> c = r OR 2 ^ n"
  shows "\<exists>c'. last_conflict 64 c (2 ^ n) = (c', 2 ^ n) \<and> (\<forall>j. bit c' j \<longrightarrow> bit c j)"
  using last_conflict_some [of n 64 "2 ^ n" c] assms(1) by (auto simp: bit_exp_iff)

context onewire_bus
begin

lemma scan_loop_wide:
  assumes R: "roms = {r, s}" and rs: "n < 64" "0 < N" "N \<le> n" "agree n r s" "\<not> bit r n" "bit s n"
    and "ready w" "0 < i" "i \<le> 8" "length devs = 8" "wd_rom (devs ! (i - 1)) \<in> {r, r OR 2 ^ n}"
  shows "\<exists>devs' w'. w1_scan_loop N E d i (2 ^ n) devs w = Some (8, devs', w') \<and> length devs' = 8
    \<and> (\<forall>j<i. devs' ! j = devs ! j) \<and> (\<forall>j<8. i \<le> j \<longrightarrow> wd_rom (devs' ! j) = r OR 2 ^ n)"
  using assms(8-12)
proof (induction "8 - i" arbitrary: i devs w)
  case 0
  then show ?case by (subst w1_scan_loop.simps) (auto simp: W1_MAX_DEVICES_def)
next
  case (Suc k)
  let ?c = "wd_rom (devs ! (i - 1))"
  from Suc have i: "i < 8" "0 < i" by auto
  from wide_conflict [OF rs(1), of ?c r] Suc.prems(5) obtain c' where
    l: "last_conflict 64 ?c (2 ^ n) = (c', 2 ^ n)" "\<And>j. bit c' j \<Longrightarrow> bit ?c j" by blast
  have rho: "bit r j" if "j \<noteq> n" "bit (c' OR 2 ^ n) j" for j
    using that l(2) [of j] Suc.prems(5) by (auto simp: bit_set_one)
  have "bit (c' OR 2 ^ n) n" using rs(1) by (simp add: bit_set_one)
  then have "search_pass N roms (c' OR 2 ^ n) 64 = ({r}, r OR 2 ^ n, 2 ^ n)"
    unfolding R using wide_pass_end [OF rs(1,3-6) rho] by simp
  then obtain w2 where s1: "w1_scan_one N E d (c' OR 2 ^ n) 0 w = Some (0, r OR 2 ^ n, 2 ^ n, w2)" "ready w2"
    using scan_one_pass [OF Suc.prems(1) _ rs(2), of "c' OR 2 ^ n" 0] R by auto
  let ?devs = "devs[i := \<lparr>wd_bus = Some d, wd_rom = r OR 2 ^ n\<rparr>]"
  have "2 ^ n \<noteq> (0 :: u64)" using bit_exp_iff [of n n, where 'a = u64] rs(1) by auto
  then have step: "w1_scan_loop N E d i (2 ^ n) devs w = w1_scan_loop N E d (i + 1) (2 ^ n) ?devs w2"
    using i l(1) s1 by (subst w1_scan_loop.simps) (simp add: W1_MAX_DEVICES_def)
  have nth: "?devs ! i = \<lparr>wd_bus = Some d, wd_rom = r OR 2 ^ n\<rparr>" using i Suc.prems(4) by simp
  have "k = 8 - (i + 1)" using Suc.hyps(2) by simp
  from Suc.hyps(1) [OF this s1(2), of ?devs] i nth Suc.prems(4) obtain devs' w' where
    d': "w1_scan_loop N E d (i + 1) (2 ^ n) ?devs w2 = Some (8, devs', w')" "length devs' = 8"
      "\<forall>j<i + 1. devs' ! j = ?devs ! j" "\<forall>j<8. i + 1 \<le> j \<longrightarrow> wd_rom (devs' ! j) = r OR 2 ^ n"
    by auto
  have "devs' ! j = devs ! j" if "j < i" for j using d'(3) that by simp
  moreover have "wd_rom (devs' ! j) = r OR 2 ^ n" if "j < 8" "i \<le> j" for j
    using d'(3,4) that nth by (cases "j = i") auto
  ultimately show ?case unfolding step using d'(1,2) by blast
qed

lemma scan_bus_wide:
  assumes R: "roms = {r, s}" and rs: "n < 64" "0 < N" "N \<le> n" "agree n r s" "\<not> bit r n" "bit s n"
    and "ready w" "wb_detail bus = d"
  shows "\<exists>bus' w'. w1_scan_bus N E bus w = Some (8, bus', w') \<and> length (wb_devs bus') = 8
    \<and> wd_rom (wb_devs bus' ! 0) = r \<and> (\<forall>j. 0 < j \<and> j < 8 \<longrightarrow> wd_rom (wb_devs bus' ! j) = r OR 2 ^ n)"
proof -
  let ?devs = "replicate 8 \<lparr>wd_bus = None, wd_rom = 0\<rparr> :: w1_dev list"
  let ?devs1 = "?devs[0 := \<lparr>wd_bus = Some d, wd_rom = r\<rparr>]"
  have "search_pass N roms 0 64 = ({r}, r, 2 ^ n)"
    unfolding R using wide_pass_end [OF rs(1,3-6), of 0] by simp
  then obtain w1 where s1: "w1_scan_one N E d 0 0 w = Some (0, r, 2 ^ n, w1)" "ready w1"
    using scan_one_pass [OF assms(8) _ rs(2), of 0 0] R by auto
  have "op_reset E \<noteq> None" using search_start [OF assms(8)] by auto
  then have step: "w1_scan_bus N E bus w = map_option (\<lambda>(n, devs, w). (n, bus\<lparr>wb_devs := devs\<rparr>, w))
      (w1_scan_loop N E d 1 (2 ^ n) ?devs1 w1)"
    using s1 assms(9) by (auto simp: w1_scan_bus_def W1_MAX_DEVICES_def Let_def w1_scan_loop.simps [of _ _ _ 0])
  have first: "?devs1 ! 0 = \<lparr>wd_bus = Some d, wd_rom = r\<rparr>" by (simp add: numeral_eq_Suc)
  have "\<exists>devs' w'. w1_scan_loop N E d 1 (2 ^ n) ?devs1 w1 = Some (8, devs', w') \<and> length devs' = 8
    \<and> (\<forall>j<1. devs' ! j = ?devs1 ! j) \<and> (\<forall>j<8. 1 \<le> j \<longrightarrow> wd_rom (devs' ! j) = r OR 2 ^ n)"
    using assms s1(2) first by (intro scan_loop_wide [OF R rs]) auto
  then show ?thesis unfolding step using first by auto
qed

end

end
