(* ===== verification/W1Line.thy ===== *)
theory W1Line
  imports W1Props
begin

text \<open>
  The bit operations of \<^verbatim>\<open>drivers/w1-gpio.c\<close> on a line with devices, the search over them, and the EEPROM pages.

  The devices are described by the length of the pulses they see, as in the 1-wire data sheets: a low
  pulse of at least 480 microseconds is a reset, answered by a presence pulse; a shorter one opens a
  time slot, which a device that has a bit to send answers by keeping the line low for a 0, and which
  otherwise carries a written bit: 1 when the pulse is shorter than 15 microseconds. The devices follow the
  ROM search command and ignore every other one.
\<close>

section \<open>Devices on a line\<close>

datatype device_state = Dev_idle | Dev_command "bool list" | Dev_search "u64 list" nat nat

record w1_line =
  ln_state :: device_state
  ln_low :: "nat option"
  ln_age :: nat
  ln_presence :: bool
  ln_bit :: bool

definition search_bits :: "bool list" where
  "search_bits = [False, False, False, False, True, True, True, True]"

fun device_write :: "u64 list \<Rightarrow> bool \<Rightarrow> device_state \<Rightarrow> device_state" where
  "device_write rs v (Dev_command bs) =
     (if length bs < 7 then Dev_command (bs @ [v])
      else if bs @ [v] = search_bits then Dev_search rs 0 0 else Dev_idle)"
| "device_write rs v (Dev_search act n k) = Dev_search (filter (\<lambda>r. bit r n = v) act) (Suc n) 0"
| "device_write rs v Dev_idle = Dev_idle"

definition line_release :: "u64 list \<Rightarrow> nat \<Rightarrow> w1_line \<Rightarrow> w1_line" where
  "line_release rs t l =
     (let l = l\<lparr>ln_low := None, ln_age := 0, ln_presence := False, ln_bit := True\<rparr>
      in if 480 \<le> t then l\<lparr>ln_state := (if rs = [] then Dev_idle else Dev_command []), ln_presence := (rs \<noteq> [])\<rparr>
         else (case ln_state l of
             Dev_search act n 0 \<Rightarrow> l\<lparr>ln_state := Dev_search act n 1, ln_bit := (\<forall>r\<in>set act. bit r n)\<rparr>
           | Dev_search act n (Suc 0) \<Rightarrow> l\<lparr>ln_state := Dev_search act n 2, ln_bit := (\<forall>r\<in>set act. \<not> bit r n)\<rparr>
           | st \<Rightarrow> l\<lparr>ln_state := device_write rs (t < 15) st\<rparr>))"

definition line_level :: "w1_line \<Rightarrow> int" where
  "line_level l = (if ln_low l \<noteq> None \<or> ln_presence l \<and> 30 \<le> ln_age l \<and> ln_age l < 150
     \<or> \<not> ln_bit l \<and> ln_age l < 30 then 0 else 1)"

definition line_dir :: "u64 list \<Rightarrow> int \<Rightarrow> w1_line \<Rightarrow> w1_line" where
  "line_dir rs out l =
     (case ln_low l of
        None \<Rightarrow> if out \<noteq> 0 then l\<lparr>ln_low := Some 0\<rparr> else l
      | Some t \<Rightarrow> if out \<noteq> 0 then l else line_release rs t l)"

definition line_wait :: "nat \<Rightarrow> w1_line \<Rightarrow> w1_line" where
  "line_wait t l = (case ln_low l of None \<Rightarrow> l\<lparr>ln_age := ln_age l + t\<rparr> | Some x \<Rightarrow> l\<lparr>ln_low := Some (x + t)\<rparr>)"

definition line_pin :: "u64 list \<Rightarrow> w1_line w1_pin" where
  "line_pin rs = \<lparr>pin_dir = \<lambda>gpio out v. line_dir rs out, pin_dir_af = \<lambda>gpio out v af. line_dir rs out,
     pin_get = \<lambda>gpio. line_level, pin_udelay = line_wait\<rparr>"

lemmas line_defs = line_pin_def line_dir_def line_wait_def line_level_def line_release_def

lemma line_reset:
  assumes "ln_low l = None" "rs \<noteq> []"
  shows "\<exists>l'. w1_gpio_reset (line_pin rs) d l = (1, l') \<and> ln_low l' = None \<and> ln_state l' = Dev_command []"
  using assms by (simp add: w1_gpio_reset_def line_defs Let_def)

lemma line_write:
  assumes "ln_low l = None" "\<And>act n k. ln_state l = Dev_search act n k \<Longrightarrow> k = 2"
  shows "ln_low (set_w1_gpio (line_pin rs) d v l) = None
    \<and> ln_state (set_w1_gpio (line_pin rs) d v l) = device_write rs (v \<noteq> 0) (ln_state l)"
  using assms by (cases "ln_state l") (auto simp: set_w1_gpio_def line_defs Let_def numeral_2_eq_2)

lemma line_read:
  assumes "ln_low l = None" "ln_state l = Dev_search act n k" "k < 2"
  shows "\<exists>l'. get_w1_gpio (line_pin rs) d l = (of_bool (\<forall>r\<in>set act. bit r n = (k = 0)), l')
    \<and> ln_low l' = None \<and> ln_state l' = Dev_search act n (Suc k)"
proof -
  from assms(3) consider "k = 0" | "k = Suc 0" by linarith
  then show ?thesis using assms(1,2)
    by cases (simp_all add: get_w1_gpio_def line_defs Let_def numeral_2_eq_2)
qed

abbreviation put_search_bits :: "u64 list \<Rightarrow> nat \<Rightarrow> nat \<Rightarrow> w1_line \<Rightarrow> w1_line" where
  "put_search_bits rs d j \<equiv>
     fold (\<lambda>k. set_w1_gpio (line_pin rs) d (if (0xf0 :: int) AND 2 ^ k \<noteq> 0 then 1 else 0)) [0..<j]"

lemma line_command_bits:
  assumes "ln_low l = None" "ln_state l = Dev_command []" "j \<le> 7"
  shows "ln_low (put_search_bits rs d j l) = None \<and> ln_state (put_search_bits rs d j l) = Dev_command (take j search_bits)"
  using assms(3)
proof (induction j)
  case 0
  then show ?case using assms by simp
next
  case (Suc j)
  then have "j \<in> {0, 1, 2, 3, 4, 5, 6}" by auto
  then have "take (Suc j) search_bits = take j search_bits @ [(0xf0 :: int) AND 2 ^ j \<noteq> 0]"
    by (auto simp: search_bits_def)
  moreover have "length (take j search_bits) = j" using Suc.prems by (simp add: search_bits_def)
  ultimately show ?case using Suc line_write [of "put_search_bits rs d j l" rs d] by simp
qed

lemma line_search_command:
  assumes "ln_low l = None" "ln_state l = Dev_command []"
  shows "ln_low (w1_write_byte (w1_gpio_ops (line_pin rs)) d 0xf0 l) = None
    \<and> ln_state (w1_write_byte (w1_gpio_ops (line_pin rs)) d 0xf0 l) = Dev_search rs 0 0"
proof -
  have "[0..<8] = [0..<7] @ [7 :: nat]" by (simp add: upt_rec)
  then have "w1_write_byte (w1_gpio_ops (line_pin rs)) d 0xf0 l
      = set_w1_gpio (line_pin rs) d 1 (put_search_bits rs d 7 l)"
    by (simp add: w1_write_byte_def w1_gpio_ops_def)
  then show ?thesis using line_command_bits [OF assms, of 7 rs d] line_write [of "put_search_bits rs d 7 l" rs d 1]
    by (simp add: search_bits_def)
qed

text \<open>The code that drives the pin meets the interface of the search.\<close>

definition line_searching :: "u64 set \<Rightarrow> nat \<Rightarrow> w1_line \<Rightarrow> bool" where
  "line_searching A n l \<longleftrightarrow> ln_low l = None \<and> (\<exists>act. set act = A \<and> ln_state l = Dev_search act n 0)"

lemma line_meets_interface:
  assumes "rs \<noteq> []"
  shows "onewire_bus (w1_gpio_ops (line_pin rs)) d (set rs) (\<lambda>l. ln_low l = None) line_searching"
proof unfold_locales
  fix l :: w1_line
  assume "ln_low l = None"
  with assms show "\<exists>reset l'. op_reset (w1_gpio_ops (line_pin rs)) = Some reset \<and> reset d l = (1, l')
      \<and> line_searching (set rs) 0 (w1_write_byte (w1_gpio_ops (line_pin rs)) d 0xf0 l')"
    using line_reset [of l rs d] line_search_command [of _ rs d]
    by (auto simp: line_searching_def w1_gpio_ops_def)
next
  fix A n l
  assume l: "line_searching A n l"
  then obtain act where act: "ln_low l = None" "set act = A" "ln_state l = Dev_search act n 0" by (auto simp: line_searching_def)
  obtain l1 where l1: "get_w1_gpio (line_pin rs) d l = (of_bool (\<forall>r\<in>A. bit r n), l1)"
    "ln_low l1 = None" "ln_state l1 = Dev_search act n 1" using line_read [OF act(1,3), of rs d] act(2) by auto
  obtain l2 where l2: "get_w1_gpio (line_pin rs) d l1 = (of_bool (\<forall>r\<in>A. \<not> bit r n), l2)"
    "ln_low l2 = None" "ln_state l2 = Dev_search act n 2" using line_read [OF l1(2,3), of rs d] act(2) by auto
  have "line_searching {r \<in> A. bit r n \<longleftrightarrow> v \<noteq> 0} (Suc n) (set_w1_gpio (line_pin rs) d v l2)" for v
    using line_write [OF l2(2), of rs d v] l2(3) act(2)
    by (auto simp: line_searching_def intro!: exI [of _ "filter (\<lambda>r. bit r n = (v \<noteq> 0)) act"])
  with l1(1) l2(1) show "\<exists>w1 w2. op_read_bit (w1_gpio_ops (line_pin rs)) d l = (of_bool (\<forall>r\<in>A. bit r n), w1)
        \<and> op_read_bit (w1_gpio_ops (line_pin rs)) d w1 = (of_bool (\<forall>r\<in>A. \<not> bit r n), w2)
        \<and> (\<forall>v. line_searching {r \<in> A. bit r n \<longleftrightarrow> v \<noteq> 0} (Suc n) (op_write_bit (w1_gpio_ops (line_pin rs)) d v w2))"
    by (auto simp: w1_gpio_ops_def)
next
  show "ln_low l = None" if "line_searching A 64 l" for A and l :: w1_line using that by (simp add: line_searching_def)
qed

interpretation line: onewire_bus "w1_gpio_ops (line_pin (r # rs))" d "set (r # rs)" "\<lambda>l. ln_low l = None" line_searching
  by (rule line_meets_interface) simp

section \<open>The scan\<close>

lemma agree_take_bit: "agree n r s \<longleftrightarrow> take_bit n r = take_bit n s"
proof
  assume "agree n r s"
  then show "take_bit n r = take_bit n s" by (intro bit_eqI) (auto simp: agree_def bit_take_bit_iff)
next
  assume eq: "take_bit n r = take_bit n s"
  have "bit r m = bit s m" if "m < n" for m
    using arg_cong [OF eq, of "\<lambda>x. bit x m"] that by (simp add: bit_take_bit_iff)
  then show "agree n r s" by (simp add: agree_def)
qed

definition found_roms :: "nat \<Rightarrow> w1_bus \<Rightarrow> u64 list" where
  "found_roms n bus = map wd_rom (take n (wb_devs bus))"

text \<open>
  C22. On a bus of 1-wire devices whose codes differ in the low bits that fit an \<^verbatim>\<open>int\<close>, the scan ends and
  returns the number of devices, at most 8; the codes it recorded are in order, so each is
  there once, and with up to 8 devices they are all of them.
\<close>

theorem w1_scan_finds_all:
  assumes "onewire_bus E (wb_detail bus) roms ready searching" "ready w" "finite roms" "roms \<noteq> {}" "0 < N"
    and "inj_on (take_bit N) roms"
  shows "\<exists>bus' w'. w1_scan_bus N E bus w = Some (min 8 (card roms), bus', w')
    \<and> sorted_wrt rom_less (found_roms (min 8 (card roms)) bus')
    \<and> set (found_roms (min 8 (card roms)) bus') \<subseteq> roms
    \<and> (card roms \<le> 8 \<longrightarrow> set (found_roms (card roms) bus') = roms)"
proof -
  have inj: "\<forall>r\<in>roms. \<forall>s\<in>roms. agree N r s \<longrightarrow> r = s"
    using assms(6) by (auto simp: agree_take_bit inj_on_def)
  from onewire_bus.scan_bus_enumerates [OF assms(1-5) inj refl] obtain bus' w' c where
    r: "w1_scan_bus N E bus w = Some (min 8 (card roms), bus', w')"
    and e: "enumerated roms c (found_roms (min 8 (card roms)) bus')" and l: "length (wb_devs bus') = 8"
    by (auto simp: found_roms_def)
  moreover have "set (found_roms (card roms) bus') = roms" if "card roms \<le> 8"
  proof (rule card_subset_eq [OF assms(3)])
    show "set (found_roms (card roms) bus') \<subseteq> roms" using e that by (auto simp: enumerated_def min_def)
    have "distinct (found_roms (card roms) bus')" using e that sorted_rom_distinct by (auto simp: enumerated_def min_def)
    then show "card (set (found_roms (card roms) bus')) = card roms"
      using distinct_card l that by (fastforce simp: found_roms_def)
  qed
  ultimately show ?thesis by (auto simp: enumerated_def)
qed

definition ex_roms :: "u64 list" where
  "ex_roms = [0x5100000801a2b310, 0x7c00000804c3d428, 0x3f00000801a2b343]"

definition ex_line :: w1_line where
  "ex_line = \<lparr>ln_state = Dev_idle, ln_low = None, ln_age = 0, ln_presence = False, ln_bit = True\<rparr>"

theorem w1_scan_finds_all_witness:
  "\<exists>bus' w'. w1_scan_bus 32 (w1_gpio_ops (line_pin ex_roms)) \<lparr>wb_detail = 5, wb_devs = []\<rparr> ex_line = Some (3, bus', w')
    \<and> set (found_roms 3 bus') = {0x5100000801a2b310, 0x7c00000804c3d428, 0x3f00000801a2b343}"
proof -
  have R: "ex_roms \<noteq> []" "card (set ex_roms) = 3" "set ex_roms \<noteq> {}" by (simp_all add: ex_roms_def)
  have inj: "inj_on (take_bit 32) (set ex_roms)" by (simp add: ex_roms_def)
  have "ln_low ex_line = None" by (simp add: ex_line_def)
  from w1_scan_finds_all [OF line_meets_interface [OF R(1)] this _ R(3) _ inj, of "\<lparr>wb_detail = 5, wb_devs = []\<rparr>"]
  have "\<exists>bus' w'. w1_scan_bus 32 (w1_gpio_ops (line_pin ex_roms)) \<lparr>wb_detail = 5, wb_devs = []\<rparr> ex_line = Some (3, bus', w')
    \<and> set (found_roms 3 bus') = set ex_roms" unfolding R(2) by auto
  then show ?thesis by (simp add: ex_roms_def)
qed

text \<open>
  The bit asked for at a conflict is kept in an \<^verbatim>\<open>int\<close>: with two devices whose codes first differ at a bit
  above its width, the scan finds the first, then records seven times a code that is the first one
  with that bit set, and reports eight devices.
\<close>

theorem w1_scan_wide_conflict:
  assumes "onewire_bus E (wb_detail bus) {r, s} ready searching" "ready w" "0 < N"
    and "n < 64" "N \<le> n" "take_bit n r = take_bit n s" "\<not> bit r n" "bit s n"
  shows "\<exists>bus' w'. w1_scan_bus N E bus w = Some (8, bus', w') \<and> found_roms 8 bus' = r # replicate 7 (r OR 2 ^ n)"
proof -
  from onewire_bus.scan_bus_wide [OF assms(1) refl assms(4,3,5) _ assms(7,8,2) refl] obtain bus' w' where
    b: "w1_scan_bus N E bus w = Some (8, bus', w')" "length (wb_devs bus') = 8" "wd_rom (wb_devs bus' ! 0) = r"
    "\<And>j. 0 < j \<Longrightarrow> j < 8 \<Longrightarrow> wd_rom (wb_devs bus' ! j) = r OR 2 ^ n" using assms(6) by (auto simp: agree_take_bit)
  have "found_roms 8 bus' = r # replicate 7 (r OR 2 ^ n)"
    by (rule nth_equalityI) (use b in \<open>auto simp: found_roms_def nth_Cons split: nat.split\<close>)
  with b(1) show ?thesis by blast
qed

theorem w1_scan_wide_conflict_witness:
  "\<exists>bus' w'. w1_scan_bus 32 (w1_gpio_ops (line_pin [0x5100000801a2b328, 0x7c00000901a2b328])) \<lparr>wb_detail = 5, wb_devs = []\<rparr> ex_line
      = Some (8, bus', w') \<and> 0x7c00000901a2b328 \<notin> set (found_roms 8 bus')"
proof -
  have R: "onewire_bus (w1_gpio_ops (line_pin [0x5100000801a2b328, 0x7c00000901a2b328])) 5
      {0x5100000801a2b328, 0x7c00000901a2b328} (\<lambda>l. ln_low l = None) line_searching"
    using line_meets_interface [of "[0x5100000801a2b328, 0x7c00000901a2b328]" 5] by simp
  have "ln_low ex_line = None" by (simp add: ex_line_def)
  then have "\<exists>bus' w'. w1_scan_bus 32 (w1_gpio_ops (line_pin [0x5100000801a2b328, 0x7c00000901a2b328])) \<lparr>wb_detail = 5, wb_devs = []\<rparr> ex_line
      = Some (8, bus', w') \<and> found_roms 8 bus' = 0x5100000801a2b328 # replicate 7 (0x5100000801a2b328 OR 2 ^ 32)"
    using w1_scan_wide_conflict [of _ "\<lparr>wb_detail = 5, wb_devs = []\<rparr>" "0x5100000801a2b328" "0x7c00000901a2b328"
        "\<lambda>l. ln_low l = None" line_searching ex_line 32 32] R by (simp add: bit_word_iff_drop_bit_and)
  then show ?thesis by fastforce
qed

section \<open>EEPROM pages\<close>

text \<open>The page-local pieces of a write, and their writes one after the other.\<close>

function page_chunks :: "nat \<Rightarrow> u8 list \<Rightarrow> (nat \<times> u8 list) list" where
  "page_chunks offset buf =
     (if buf = [] then []
      else let k = 32 - offset mod 32 in (offset, take k buf) # page_chunks (offset + k) (drop k buf))"
  by pat_completeness auto
termination
proof (relation "measure (length \<circ> snd)")
  fix offset k :: nat and buf :: "u8 list"
  assume "buf \<noteq> []" "k = 32 - offset mod 32"
  moreover have "offset mod 32 < 32" by simp
  ultimately have "0 < length buf" "0 < k" by (simp, linarith)
  then show "((offset + k, drop k buf), offset, buf) \<in> measure (length \<circ> snd)" by simp
qed simp

declare page_chunks.simps [simp del]

fun write_chunks :: "'b w1_ops \<Rightarrow> w1_dev \<Rightarrow> (nat \<times> u8 list) list \<Rightarrow> int \<Rightarrow> 'b \<Rightarrow> (int \<times> 'b) option" where
  "write_chunks E dev [] ret w = Some (ret, w)"
| "write_chunks E dev ((off, bs) # cs) ret w =
     Option.bind (w1_write_page E dev (int off) bs w) (\<lambda>(i, w).
       if i < 0 then Some (i, w) else write_chunks E dev cs (ret + i) w)"

lemma w1_write_pages_chunks:
  "offset mod 32 = 0 \<Longrightarrow> w1_write_pages E dev (int offset) buf ret w = write_chunks E dev (page_chunks offset buf) ret w"
proof (induction offset buf arbitrary: ret w rule: page_chunks.induct)
  case (1 offset buf)
  have "w1_write_pages E dev (int offset + 32) (drop 32 buf) ret w
      = write_chunks E dev (page_chunks (offset + 32) (drop 32 buf)) ret w" if "buf \<noteq> []" for ret w
    using 1(1) [OF that refl, of ret w] 1(2) by (simp add: add.commute)
  then show ?case using 1(2)
    by (subst w1_write_pages.simps, subst page_chunks.simps) (auto simp: Let_def intro!: Option.bind_cong)
qed

lemma page_chunks_local: "(a, bs) \<in> set (page_chunks off buf) \<Longrightarrow> bs \<noteq> [] \<and> a mod 32 + length bs \<le> 32"
proof (induction off buf rule: page_chunks.induct)
  case (1 off buf)
  let ?k = "32 - off mod 32"
  have "off mod 32 < 32" by simp
  then have k: "0 < ?k" "off mod 32 + ?k = 32" by linarith+
  from 1(2) have ne: "buf \<noteq> []" by (auto simp: page_chunks.simps)
  then have "(a, bs) = (off, take ?k buf) \<or> (a, bs) \<in> set (page_chunks (off + ?k) (drop ?k buf))"
    using 1(2) by (subst (asm) page_chunks.simps) (simp add: Let_def)
  then show ?case
  proof
    assume "(a, bs) = (off, take ?k buf)"
    then show ?thesis using k ne by auto
  next
    assume "(a, bs) \<in> set (page_chunks (off + ?k) (drop ?k buf))"
    then show ?thesis by (rule 1(1) [OF ne refl])
  qed
qed

lemma page_chunks_concat: "concat (map snd (page_chunks off buf)) = buf"
  by (induction off buf rule: page_chunks.induct) (subst page_chunks.simps, simp add: Let_def)

lemma page_chunks_addrs: "concat (map (\<lambda>(a, bs). [a..<a + length bs]) (page_chunks off buf)) = [off..<off + length buf]"
proof (induction off buf rule: page_chunks.induct)
  case (1 off buf)
  show ?case
  proof (cases "buf = []")
    case False
    let ?k = "32 - off mod 32"
    note IH = 1 [OF False refl]
    have "[off..<off + length (take ?k buf)] @ [off + ?k..<off + ?k + length (drop ?k buf)] = [off..<off + length buf]"
    proof (cases "?k \<le> length buf")
      case True
      then show ?thesis using upt_add_eq_append [of off "off + ?k" "length buf - ?k"] by simp
    qed simp
    then show ?thesis using False IH by (subst page_chunks.simps) (simp add: Let_def)
  qed (simp add: page_chunks.simps)
qed

lemma first_piece_crosses:
  assumes "buf \<noteq> []"
  shows "(int off + int (length buf) - 1) div 32 \<noteq> int off div 32 \<longleftrightarrow> 32 - off mod 32 < length buf"
proof -
  have "off mod 32 < 32" by simp
  have off: "int off = 32 * (int off div 32) + int (off mod 32)" by (simp add: zmod_int)
  have "(int off + int (length buf) - 1) div 32 = int off div 32 + (int (off mod 32) + int (length buf) - 1) div 32"
    by (subst off) (simp add: algebra_simps flip: zdiv_int)
  moreover have "(int (off mod 32) + int (length buf) - 1) div 32 = 0 \<longleftrightarrow> length buf \<le> 32 - off mod 32"
    using assms \<open>off mod 32 < 32\<close> zdiv_eq_0_iff [of "int (off mod 32) + int (length buf) - 1" 32] by (cases buf) auto
  ultimately show ?thesis by auto
qed

text \<open>
  A write to the EEPROM is split into pieces that do not cross a page of 32 bytes, cover exactly the bytes
  of the buffer at their addresses, in order, and stops at the first piece that fails.
\<close>

theorem w1_write_eeprom_pages:
  assumes "buf \<noteq> []"
  shows "w1_write_eeprom E dev offset buf w = write_chunks E dev (page_chunks offset buf) 0 w
    \<and> concat (map snd (page_chunks offset buf)) = buf
    \<and> concat (map (\<lambda>(a, bs). [a..<a + length bs]) (page_chunks offset buf)) = [offset..<offset + length buf]
    \<and> (\<forall>(a, bs)\<in>set (page_chunks offset buf). a mod 32 + length bs \<le> 32)"
proof -
  let ?k = "32 - offset mod 32"
  have lt: "offset mod 32 < 32" by simp
  let ?i = "if (int offset + int (length buf) - 1) div 32 \<noteq> int offset div 32 then ?k else length buf"
  have i: "take ?i buf = take ?k buf" "drop ?i buf = drop ?k buf" and next_page: "drop ?k buf \<noteq> [] \<Longrightarrow> ?i = ?k"
    using first_piece_crosses [OF assms, of offset] by auto
  have "w1_write_eeprom E dev offset buf w = write_chunks E dev (page_chunks offset buf) 0 w"
  proof (cases "offset mod 32 = 0")
    case True
    then show ?thesis using w1_write_pages_chunks [OF True] by (simp add: w1_write_eeprom_def)
  next
    case False
    have "32 * q + r + (32 - r) = 32 * (q + 1)" if "r < 32" for q r :: nat using that by simp
    from this [OF lt, of "offset div 32"] have "offset + ?k = 32 * (offset div 32 + 1)" by simp
    then have "(offset + ?k) mod 32 = 0" by simp
    then have rest: "w1_write_pages E dev (int offset + int ?i) (drop ?k buf) ret w
        = write_chunks E dev (page_chunks (offset + ?k) (drop ?k buf)) ret w" for ret w
    proof (cases "drop ?k buf = []")
      case True
      then show ?thesis by (simp add: w1_write_pages.simps [of _ _ _ "[]"] page_chunks.simps [of _ "[]"] del: drop_eq_Nil)
    next
      case False
      have eq: "int offset + int ?i = int (offset + ?k)" unfolding next_page [OF False] by (rule of_nat_add [symmetric])
      show ?thesis unfolding eq by (rule w1_write_pages_chunks) (rule \<open>(offset + ?k) mod 32 = 0\<close>)
    qed
    have "w1_write_eeprom E dev offset buf w = Option.bind (w1_write_page E dev (int offset) (take ?i buf) w)
        (\<lambda>(ret, w). if ret < 0 then Some (ret, w) else w1_write_pages E dev (int offset + int ?i) (drop ?i buf) ret w)"
      using False by (simp only: w1_write_eeprom_def Let_def if_True simp_thms)
    also have "\<dots> = write_chunks E dev ((offset, take ?k buf) # page_chunks (offset + ?k) (drop ?k buf)) 0 w"
      unfolding i rest write_chunks.simps add_0 ..
    also have "(offset, take ?k buf) # page_chunks (offset + ?k) (drop ?k buf) = page_chunks offset buf"
      using assms by (subst (2) page_chunks.simps) (simp add: Let_def)
    finally show ?thesis .
  qed
  then show ?thesis using page_chunks_concat page_chunks_addrs page_chunks_local by auto
qed

theorem w1_write_eeprom_pages_witness:
  "w1_write_eeprom (w1_gpio_ops (line_pin ex_roms)) \<lparr>wd_bus = Some 5, wd_rom = 0x3f00000801a2b343\<rparr> 60 (replicate 40 7) ex_line
    = write_chunks (w1_gpio_ops (line_pin ex_roms)) \<lparr>wd_bus = Some 5, wd_rom = 0x3f00000801a2b343\<rparr>
        [(60, replicate 4 7), (64, replicate 32 7), (96, replicate 4 7)] 0 ex_line"
proof -
  have "page_chunks 60 (replicate 40 7) = [(60, replicate 4 7), (64, replicate 32 7), (96, replicate 4 7)]"
    by (simp add: page_chunks.simps)
  then show ?thesis using w1_write_eeprom_pages [of "replicate 40 7" "w1_gpio_ops (line_pin ex_roms)"] by (simp del: write_chunks.simps)
qed

end
