(* ===== verification/PpPrintf.thy ===== *)
theory PpPrintf
  imports Strings
begin

text \<open>
  Formatted output: \<^verbatim>\<open>pp_printf/vsprintf-full.c\<close>, \<^verbatim>\<open>pp_printf/vsprintf-xint.c\<close>, \<^verbatim>\<open>pp_printf/vsprintf-mini.c\<close>
  and \<^verbatim>\<open>pp_printf/printf.c\<close>, on a machine with 32-bit \<^verbatim>\<open>int\<close>, \<^verbatim>\<open>long\<close> and pointers.

  A format is the list of its bytes from the pointer on, with the terminating 0; the arguments are
  a list of values; the output is the list of bytes written. \<open>None\<close> is a read past the end of the
  format, an argument of the wrong kind or missing, a division by zero, a digit outside the digit
  table, or a loop that does not end. What \<^verbatim>\<open>%n\<close> stores is a list of pointers with values.
\<close>

abbreviation asc :: "char \<Rightarrow> u8" where "asc c \<equiv> of_char c"

abbreviation bytes :: "string \<Rightarrow> u8 list" where "bytes s \<equiv> map of_char s"

datatype va = Va_int u32 | Va_str "u8 list option" | Va_ref nat

section \<open>Decimal digits\<close>

definition digit_char :: "nat \<Rightarrow> u8" where "digit_char d = of_nat (d + 48)"

text \<open>
  The multiplications replace divisions by ten. All products stay below \<open>2 ^ 32\<close> for every 32-bit \<open>q\<close>; the
  callers pass values below 100000.
\<close>

definition put_dec_trunc :: "nat \<Rightarrow> u8 list" where
  "put_dec_trunc q =
     (let d1 = drop_bit 4 q AND 0xf;
          d2 = drop_bit 8 q AND 0xf;
          d3 = drop_bit 12 q;
          d0 = 6 * (d3 + d2 + d1) + (q AND 0xf);
          q = drop_bit 11 (d0 * 0xcd);
          d0 = d0 - 10 * q;
          d1 = q + 9 * d3 + 5 * d2 + d1
      in digit_char d0 #
         (if d1 \<noteq> 0 then
            let q = drop_bit 11 (d1 * 0xcd);
                d1 = d1 - 10 * q;
                d2 = q + 2 * d2
            in digit_char d1 #
               (if d2 \<noteq> 0 \<or> d3 \<noteq> 0 then
                  let q = drop_bit 7 (d2 * 0xd);
                      d2 = d2 - 10 * q;
                      d3 = q + 4 * d3
                  in digit_char d2 #
                     (if d3 \<noteq> 0 then
                        let q = drop_bit 11 (d3 * 0xcd);
                            d3 = d3 - 10 * q
                        in digit_char d3 # (if q \<noteq> 0 then [digit_char q] else [])
                      else [])
                else [])
          else []))"

definition put_dec_full :: "nat \<Rightarrow> u8 list" where
  "put_dec_full q =
     (let d1 = drop_bit 4 q AND 0xf;
          d2 = drop_bit 8 q AND 0xf;
          d3 = drop_bit 12 q;
          d0 = 6 * (d3 + d2 + d1) + (q AND 0xf);
          q0 = drop_bit 11 (d0 * 0xcd);
          d1 = q0 + 9 * d3 + 5 * d2 + d1;
          q1 = drop_bit 11 (d1 * 0xcd);
          d2 = q1 + 2 * d2;
          q2 = drop_bit 7 (d2 * 0xd);
          d3 = q2 + 4 * d3;
          q3 = drop_bit 11 (d3 * 0xcd)
      in [digit_char (d0 - 10 * q0), digit_char (d1 - 10 * q1), digit_char (d2 - 10 * q2),
          digit_char (d3 - 10 * q3), digit_char q3])"

function put_dec :: "nat \<Rightarrow> u8 list" where
  "put_dec num =
     (if num < 100000 then put_dec_trunc num
      else put_dec_full (num mod 100000) @ put_dec (num div 100000))"
  by pat_completeness auto
termination
  by (relation "measure id") auto

declare put_dec.simps [simp del]

section \<open>Numbers\<close>

definition ZEROPAD :: int where "ZEROPAD = 1"
definition SIGN :: int where "SIGN = 2"
definition PLUS :: int where "PLUS = 4"
definition SPACE :: int where "SPACE = 8"
definition LEFT :: int where "LEFT = 16"
definition SMALL :: int where "SMALL = 32"
definition SPECIAL :: int where "SPECIAL = 64"

lemmas flag_defs = ZEROPAD_def SIGN_def PLUS_def SPACE_def LEFT_def SMALL_def SPECIAL_def

definition has :: "int \<Rightarrow> int \<Rightarrow> bool" where "has type f \<longleftrightarrow> type AND f \<noteq> 0"

definition upper_digits :: "u8 list" where "upper_digits = bytes ''0123456789ABCDEF''"

function put_pow2 :: "nat \<Rightarrow> u8 \<Rightarrow> nat \<Rightarrow> u8 list" where
  "put_pow2 base locase num =
     (let shift = (if base = 16 then 4 else 3);
          c = (upper_digits ! ((num mod 256) AND (base - 1))) OR locase;
          num = drop_bit shift num
      in c # (if num \<noteq> 0 then put_pow2 base locase num else []))"
  by pat_completeness auto
termination
  by (relation "measure (\<lambda>(base, locase, num). num)") (auto simp: drop_bit_eq_div split: if_splits)

declare put_pow2.simps [simp del]

definition pad :: "int \<Rightarrow> u8 \<Rightarrow> u8 list" where "pad n c = replicate (nat n) c"

text \<open>The sign character, or 0, and what \<^verbatim>\<open>size\<close> loses to the sign and the prefix.\<close>

definition number_sign :: "u32 \<Rightarrow> int \<Rightarrow> u8" where
  "number_sign num type =
     (if has type SIGN then
        if sint num < 0 then asc CHR ''-''
        else if has type PLUS then asc CHR ''+''
        else if has type SPACE then asc CHR '' '' else 0
      else 0)"

definition number_size :: "u8 \<Rightarrow> bool \<Rightarrow> nat \<Rightarrow> int \<Rightarrow> int" where
  "number_size sign need_pfx base sz =
     (let sz = (if sign \<noteq> 0 then sz - 1 else sz)
      in if need_pfx then if base = 16 then sz - 2 else sz - 1 else sz)"

text \<open>The digits, lowest first, as in the array \<^verbatim>\<open>tmp\<close>.\<close>

definition number_tmp :: "u32 \<Rightarrow> nat \<Rightarrow> u8 \<Rightarrow> u8 list" where
  "number_tmp num base locase =
     (if num = 0 then bytes ''0''
      else if base \<noteq> 10 then put_pow2 base locase (unat num)
      else put_dec (unat num))"

text \<open>The part behind the digits: paddings, sign and prefix in their order. A loop \<^verbatim>\<open>while (--size >= 0)\<close> leaves a negative size.\<close>

definition number_emit :: "u8 \<Rightarrow> u8 list \<Rightarrow> u8 list \<Rightarrow> int \<Rightarrow> int \<Rightarrow> int \<Rightarrow> u8 list" where
  "number_emit sign pfx tmp sz precision type =
     (let i = int (length tmp);
          precision = (if i > precision then i else precision);
          sz = sz - precision;
          lead = (if \<not> has type (ZEROPAD + LEFT) then pad sz (asc CHR '' '') else []);
          sz = (if \<not> has type (ZEROPAD + LEFT) then min sz 0 else sz);
          sg = (if sign \<noteq> 0 then [sign] else []);
          fill = (if \<not> has type LEFT
                  then pad sz (if has type ZEROPAD then asc CHR ''0'' else asc CHR '' '') else []);
          sz = (if \<not> has type LEFT then min sz 0 else sz)
      in lead @ sg @ pfx @ fill @ pad (precision - i) (asc CHR ''0'') @ rev tmp @ pad sz (asc CHR '' ''))"

definition number :: "u32 \<Rightarrow> nat \<Rightarrow> int \<Rightarrow> int \<Rightarrow> int \<Rightarrow> u8 list" where
  "number num base sz precision type =
     (let need_pfx = (has type SPECIAL \<and> base \<noteq> 10);
          locase = (if has type SMALL then 0x20 else 0);
          type = (if has type LEFT then type AND NOT ZEROPAD else type);
          sign = number_sign num type;
          num = (if has type SIGN \<and> sint num < 0 then - num else num);
          sz = number_size sign need_pfx base sz;
          tmp = number_tmp num base locase;
          pfx = (if need_pfx then
                   if base = 16 then [asc CHR ''0'', asc CHR ''X'' OR locase] else [asc CHR ''0'']
                 else [])
      in number_emit sign pfx tmp sz precision type)"

definition string_field :: "u8 list option \<Rightarrow> int \<Rightarrow> int \<Rightarrow> int \<Rightarrow> u8 list option" where
  "string_field s field_width precision flags =
     (let s = (case s of None \<Rightarrow> bytes ''<NULL>'' @ [0] | Some s \<Rightarrow> s)
      in (case (if precision < 0 then strlen s else strnlen s (nat precision)) of
            None \<Rightarrow> None
          | Some len \<Rightarrow>
              let spaces = pad (field_width - int len) (asc CHR '' '')
              in Some (if has flags LEFT then take len s @ spaces else spaces @ take len s)))"

definition pointer_field :: "u32 \<Rightarrow> int \<Rightarrow> int \<Rightarrow> int \<Rightarrow> u8 list option" where
  "pointer_field ptr field_width precision flags =
     (if ptr = 0 then string_field (Some (bytes ''(null)'' @ [0])) field_width precision flags
      else let flags = flags OR SMALL
           in Some (if field_width = - 1 then number ptr 16 8 precision (flags OR ZEROPAD)
                    else number ptr 16 field_width precision flags))"

section \<open>Parsing a directive\<close>

definition is_digit :: "u8 \<Rightarrow> bool" where "is_digit c \<longleftrightarrow> asc CHR ''0'' \<le> c \<and> c \<le> asc CHR ''9''"

definition pp_isalnum :: "u8 \<Rightarrow> bool" where
  "pp_isalnum c \<longleftrightarrow> asc CHR ''a'' \<le> c \<and> c \<le> asc CHR ''z'' \<or> asc CHR ''A'' \<le> c \<and> c \<le> asc CHR ''Z'' \<or> is_digit c"

fun skip_atoi :: "int \<Rightarrow> u8 list \<Rightarrow> int \<times> u8 list" where
  "skip_atoi i [] = (i, [])"
| "skip_atoi i (c # fmt) = (if is_digit c then skip_atoi (i * 10 + uint c - 48) fmt else (i, c # fmt))"

fun parse_flags :: "int \<Rightarrow> u8 list \<Rightarrow> int \<times> u8 list" where
  "parse_flags flags [] = (flags, [])"
| "parse_flags flags (c # fmt) =
     (if c = asc CHR ''-'' then parse_flags (flags OR LEFT) fmt
      else if c = asc CHR ''+'' then parse_flags (flags OR PLUS) fmt
      else if c = asc CHR '' '' then parse_flags (flags OR SPACE) fmt
      else if c = asc CHR ''#'' then parse_flags (flags OR SPECIAL) fmt
      else if c = asc CHR ''0'' then parse_flags (flags OR ZEROPAD) fmt
      else (flags, c # fmt))"

fun va_int :: "va list \<Rightarrow> (u32 \<times> va list) option" where
  "va_int (Va_int v # args) = Some (v, args)"
| "va_int _ = None"

definition parse_width :: "int \<Rightarrow> u8 list \<Rightarrow> va list \<Rightarrow> (int \<times> int \<times> u8 list \<times> va list) option" where
  "parse_width flags fmt args =
     (case fmt of [] \<Rightarrow> None
      | c # cs \<Rightarrow>
          if is_digit c then let (w, fmt) = skip_atoi 0 fmt in Some (w, flags, fmt, args)
          else if c = asc CHR ''*'' then
            (case va_int args of None \<Rightarrow> None
             | Some (v, args) \<Rightarrow>
                 if sint v < 0 then Some (- sint v, flags OR LEFT, cs, args) else Some (sint v, flags, cs, args))
          else Some (- 1, flags, fmt, args))"

definition parse_precision :: "u8 list \<Rightarrow> va list \<Rightarrow> (int \<times> u8 list \<times> va list) option" where
  "parse_precision fmt args =
     (case fmt of [] \<Rightarrow> None
      | c # cs \<Rightarrow>
          if c \<noteq> asc CHR ''.'' then Some (- 1, fmt, args)
          else (case cs of [] \<Rightarrow> None
                | c # cs' \<Rightarrow>
                    if is_digit c then let (p, fmt) = skip_atoi 0 cs in Some (max p 0, fmt, args)
                    else if c = asc CHR ''*'' then
                      map_option (\<lambda>(v, args). (max (sint v) 0, cs', args)) (va_int args)
                    else Some (0, cs, args)))"

text \<open>
  The qualifier. The test for a second \<^verbatim>\<open>l\<close> looks at the same character again, so a single \<^verbatim>\<open>l\<close> always counts
  as two and the character behind it is skipped.
\<close>

definition parse_qualifier :: "u8 list \<Rightarrow> (u8 \<times> u8 list) option" where
  "parse_qualifier fmt =
     (case fmt of [] \<Rightarrow> None
      | c # cs \<Rightarrow>
          if c \<in> {asc CHR ''h'', asc CHR ''l'', asc CHR ''L'', asc CHR ''Z'', asc CHR ''z'', asc CHR ''t''} then
            if c = asc CHR ''l'' \<and> c = asc CHR ''l'' then
              (case cs of [] \<Rightarrow> None | _ # fmt \<Rightarrow> Some (asc CHR ''L'', fmt))
            else Some (c, cs)
          else Some (- 1, fmt))"

text \<open>The argument of an integer conversion; \<^verbatim>\<open>CONFIG_SYS_64BIT_VSPRINTF\<close> is not set.\<close>

definition int_arg :: "u8 \<Rightarrow> int \<Rightarrow> u32 \<Rightarrow> u32" where
  "int_arg qualifier flags v =
     (if qualifier = asc CHR ''h'' then if has flags SIGN then signed_take_bit 15 v else take_bit 16 v else v)"

section \<open>vsprintf, full version\<close>

text \<open>
  One directive: the output it adds, the stores, the format from which the main loop goes on, and
  the arguments left.
\<close>

definition convert :: "u8 \<Rightarrow> int \<Rightarrow> int \<Rightarrow> int \<Rightarrow> u8 \<Rightarrow> nat \<Rightarrow> u8 list \<Rightarrow> va list
    \<Rightarrow> (u8 list \<times> (nat \<times> nat) list \<times> u8 list \<times> va list) option" where
  "convert c flags field_width precision qualifier written fmt args =
     (if c = asc CHR ''c'' then
        (case va_int args of None \<Rightarrow> None
         | Some (v, args) \<Rightarrow>
             let spaces = pad (field_width - 1) (asc CHR '' '')
             in Some (if has flags LEFT then [ucast v] @ spaces else spaces @ [ucast v], [], fmt, args))
      else if c = asc CHR ''s'' then
        (case args of
           Va_str s # args \<Rightarrow> map_option (\<lambda>out. (out, [], fmt, args)) (string_field s field_width precision flags)
         | _ \<Rightarrow> None)
      else if c = asc CHR ''p'' then
        (case (va_int args, fmt) of
           (Some (v, args), c1 # _) \<Rightarrow>
             if pp_isalnum c1 then None
             else map_option (\<lambda>out. (out, [], fmt, args)) (pointer_field v field_width precision flags)
         | _ \<Rightarrow> None)
      else if c = asc CHR ''n'' then
        (case args of Va_ref a # args \<Rightarrow> Some ([], [(a, written)], fmt, args) | _ \<Rightarrow> None)
      else if c = asc CHR ''%'' then Some ([asc CHR ''%''], [], fmt, args)
      else if c \<in> {asc CHR ''o'', asc CHR ''x'', asc CHR ''X'', asc CHR ''d'', asc CHR ''i'', asc CHR ''u''} then
        (case va_int args of None \<Rightarrow> None
         | Some (v, args) \<Rightarrow>
             let base = (if c = asc CHR ''o'' then 8 else if c = asc CHR ''x'' \<or> c = asc CHR ''X'' then 16 else 10);
                 flags = (if c = asc CHR ''x'' then flags OR SMALL
                          else if c = asc CHR ''d'' \<or> c = asc CHR ''i'' then flags OR SIGN else flags)
             in Some (number (int_arg qualifier flags v) base field_width precision flags, [], fmt, args))
      else if c \<noteq> 0 then Some ([asc CHR ''%'', c], [], fmt, args)
      else Some ([asc CHR ''%''], [], c # fmt, args))"

definition directive :: "nat \<Rightarrow> u8 list \<Rightarrow> va list \<Rightarrow> (u8 list \<times> (nat \<times> nat) list \<times> u8 list \<times> va list) option" where
  "directive written fmt args =
     (let (flags, fmt) = parse_flags 0 fmt
      in Option.bind (parse_width flags fmt args) (\<lambda>(field_width, flags, fmt, args).
         Option.bind (parse_precision fmt args) (\<lambda>(precision, fmt, args).
         Option.bind (parse_qualifier fmt) (\<lambda>(qualifier, fmt).
         case fmt of [] \<Rightarrow> None
         | c # fmt \<Rightarrow> convert c flags field_width precision qualifier written fmt args))))"

lemma skip_atoi_length: "length (snd (skip_atoi i fmt)) \<le> length fmt"
  by (induction fmt arbitrary: i) (auto intro: le_SucI)

lemma parse_flags_length: "length (snd (parse_flags f fmt)) \<le> length fmt"
  by (induction fmt arbitrary: f) (auto intro: le_SucI)

lemma convert_length:
  "convert c flags w p q n fmt args = Some (out, st, fmt', args') \<Longrightarrow> length fmt' \<le> Suc (length fmt)"
  by (auto simp: convert_def Let_def split: if_splits option.splits list.splits va.splits)

lemma parse_width_length:
  "parse_width flags fmt args = Some (w, flags', fmt', args') \<Longrightarrow> length fmt' \<le> length fmt"
  using skip_atoi_length [of 0 fmt]
  by (auto simp: parse_width_def split: if_splits option.splits list.splits prod.splits)

lemma parse_precision_length:
  "parse_precision fmt args = Some (p, fmt', args') \<Longrightarrow> length fmt' \<le> length fmt"
  using skip_atoi_length [of 0 "tl fmt"]
  by (auto simp: parse_precision_def split: if_splits option.splits list.splits prod.splits)

lemma parse_qualifier_length: "parse_qualifier fmt = Some (q, fmt') \<Longrightarrow> length fmt' \<le> length fmt"
  by (auto simp: parse_qualifier_def split: if_splits option.splits list.splits)

lemma directive_length:
  assumes "directive n fmt args = Some (out, st, fmt', args')"
  shows "length fmt' \<le> length fmt"
proof -
  obtain f1 fm1 where 1: "parse_flags 0 fmt = (f1, fm1)" by (cases "parse_flags 0 fmt")
  from assms 1 obtain w f2 fm2 a2 p fm3 a3 q c fm4 where
    "parse_width f1 fm1 args = Some (w, f2, fm2, a2)" "parse_precision fm2 a2 = Some (p, fm3, a3)"
    "parse_qualifier fm3 = Some (q, c # fm4)" "convert c f2 w p q n fm4 a3 = Some (out, st, fmt', args')"
    by (auto simp: directive_def split: Option.bind_splits list.splits)
  from this(1-3) convert_length [OF this(4)] show ?thesis
    using parse_flags_length [of 0 fmt] 1 parse_width_length parse_precision_length parse_qualifier_length
    by fastforce
qed

function vsprintf_full :: "nat \<Rightarrow> u8 list \<Rightarrow> va list \<Rightarrow> (u8 list \<times> (nat \<times> nat) list) option" where
  "vsprintf_full n fmt args =
     (case fmt of [] \<Rightarrow> None
      | c # cs \<Rightarrow>
          if c = 0 then Some ([], [])
          else if c \<noteq> asc CHR ''%'' then
            map_option (\<lambda>(out, st). (c # out, st)) (vsprintf_full (n + 1) cs args)
          else (case directive n cs args of None \<Rightarrow> None
                | Some (out, st, fmt, args) \<Rightarrow>
                    map_option (\<lambda>(out', st'). (out @ out', st @ st')) (vsprintf_full (n + length out) fmt args)))"
  by pat_completeness auto
termination
  by (relation "measure (\<lambda>(n, fmt, args). length fmt)") (auto dest: directive_length)

declare vsprintf_full.simps [simp del]

text \<open>The value returned, the bytes in the buffer and the stores.\<close>

definition pp_vsprintf_full :: "u8 list \<Rightarrow> va list \<Rightarrow> (nat \<times> u8 list \<times> (nat \<times> nat) list) option" where
  "pp_vsprintf_full fmt args =
     map_option (\<lambda>(out, st). (length out, out @ [0], st)) (vsprintf_full 0 fmt args)"

section \<open>vsprintf, integers only\<close>

text \<open>
  \<^verbatim>\<open>vsprintf-xint.c\<close>: the digits are built at the end of the array \<^verbatim>\<open>tmp[16]\<close>; the list \<open>acc\<close> is the part
  of it from index \<open>i\<close> on, so \<open>i\<close> is 16 less its length, and a store below index 0 is \<open>None\<close>.
\<close>

definition hex :: "u8 list" where "hex = bytes ''0123456789abcdef'' @ [0]"

definition push_tmp :: "u8 \<Rightarrow> u8 list \<Rightarrow> u8 list option" where
  "push_tmp c acc = (if length acc < 16 then Some (c # acc) else None)"

function xint_digits :: "u32 \<Rightarrow> u32 \<Rightarrow> u8 list \<Rightarrow> u8 list option" where
  "xint_digits value base acc =
     (if value \<noteq> 0 \<and> length acc < 16 then
        if base = 0 \<or> length hex \<le> unat (value mod base) then None
        else xint_digits (value div base) base (hex ! unat (value mod base) # acc)
      else Some acc)"
  by pat_completeness auto
termination
  by (relation "measure (\<lambda>(value, base, acc). 16 - length acc)") auto

declare xint_digits.simps [simp del]

fun push_lead :: "nat \<Rightarrow> u8 \<Rightarrow> u8 list \<Rightarrow> u8 list option" where
  "push_lead 0 lead acc = Some acc"
| "push_lead (Suc n) lead acc = Option.bind (push_tmp lead acc) (push_lead n lead)"

definition number_xint :: "u32 \<Rightarrow> u32 \<Rightarrow> u8 \<Rightarrow> nat \<Rightarrow> u8 list option" where
  "number_xint value base lead wid =
     (let negative = (sint value < 0 \<and> base = 10);
          value = (if negative then - value else value)
      in Option.bind (xint_digits value base []) (\<lambda>acc.
         Option.bind (if acc = [] then push_tmp (asc CHR ''0'') acc else Some acc) (\<lambda>acc.
         Option.bind (if negative \<and> lead = asc CHR '' '' then push_tmp (asc CHR ''-'') acc else Some acc) (\<lambda>acc.
         let negative = (negative \<and> lead \<noteq> asc CHR '' '')
         in Option.bind (push_lead (wid - of_bool negative - length acc) lead acc) (\<lambda>acc.
            if negative then push_tmp (asc CHR ''-'') acc else Some acc)))))"

text \<open>The parsing loop of a directive: what it has seen so far is the base, the lead and the width.\<close>

function xint_directive :: "u32 \<Rightarrow> u8 \<Rightarrow> nat \<Rightarrow> u8 list \<Rightarrow> va list
    \<Rightarrow> (u8 list \<times> u8 list \<times> va list) option" where
  "xint_directive base lead wid fmt args =
     (case fmt of [] \<Rightarrow> None
      | c # cs \<Rightarrow>
          if c = 0 then Some ([], fmt, args)
          else if c = asc CHR ''0'' then xint_directive base (asc CHR ''0'') wid cs args
          else if c = asc CHR ''*'' then
            (case va_int args of None \<Rightarrow> None | Some (v, args) \<Rightarrow> xint_directive v lead wid cs args)
          else if c = asc CHR ''c'' then
            map_option (\<lambda>(v, args). ([ucast v], cs, args)) (va_int args)
          else if c = asc CHR ''s'' then
            (case args of
               Va_str (Some s) # args \<Rightarrow> map_option (\<lambda>n. (take n s, cs, args)) (strlen s)
             | _ \<Rightarrow> None)
          else if c = asc CHR ''n'' then Some ([], cs, args)
          else if c = asc CHR ''%'' then Some ([asc CHR ''%''], cs, args)
          else if c \<in> {asc CHR ''p'', asc CHR ''x'', asc CHR ''X'', asc CHR ''o'', asc CHR ''d'', asc CHR ''i'', asc CHR ''u''} then
            let base = (if c \<in> {asc CHR ''p'', asc CHR ''x'', asc CHR ''X''} then 16
                        else if c = asc CHR ''o'' \<and> base = 10 then 8 else base)
            in (case va_int args of None \<Rightarrow> None
                | Some (v, args) \<Rightarrow> map_option (\<lambda>out. (out, cs, args)) (number_xint v base lead wid))
          else xint_directive base lead
                 (if asc CHR ''1'' \<le> c \<and> c \<le> asc CHR ''9'' then unat c - 48 else wid) cs args)"
  by pat_completeness auto
termination
  by (relation "measure (\<lambda>(base, lead, wid, fmt, args). length fmt)") auto

declare xint_directive.simps [simp del]

lemma xint_directive_length:
  "xint_directive base lead wid fmt args = Some (out, fmt', args') \<Longrightarrow> length fmt' \<le> length fmt"
proof (induction base lead wid fmt args rule: xint_directive.induct)
  case (1 base lead wid fmt args)
  show ?case
  proof (cases fmt)
    case (Cons c cs)
    note IH = 1(1-3) [OF Cons]
    show ?thesis using 1(4) IH Cons
      by (subst (asm) xint_directive.simps)
        (auto simp: Let_def split: if_splits option.splits list.splits va.splits intro: le_SucI)
  qed (use 1(4) in \<open>simp add: xint_directive.simps\<close>)
qed

function vsprintf_xint :: "u8 list \<Rightarrow> va list \<Rightarrow> u8 list option" where
  "vsprintf_xint fmt args =
     (case fmt of [] \<Rightarrow> None
      | c # cs \<Rightarrow>
          if c = 0 then Some []
          else if c \<noteq> asc CHR ''%'' then map_option (Cons c) (vsprintf_xint cs args)
          else (case xint_directive 10 (asc CHR '' '') 1 cs args of None \<Rightarrow> None
                | Some (out, fmt, args) \<Rightarrow> map_option ((@) out) (vsprintf_xint fmt args)))"
  by pat_completeness auto
termination
  by (relation "measure (\<lambda>(fmt, args). length fmt)") (auto dest: xint_directive_length)

declare vsprintf_xint.simps [simp del]

definition pp_vsprintf_xint :: "u8 list \<Rightarrow> va list \<Rightarrow> (nat \<times> u8 list) option" where
  "pp_vsprintf_xint fmt args = map_option (\<lambda>out. (length out, out @ [0])) (vsprintf_xint fmt args)"

section \<open>vsprintf, minimal version\<close>

definition mini_hex :: "u32 \<Rightarrow> u8 list" where
  "mini_hex i = [asc CHR ''<''] @ map (\<lambda>j. hex ! unat (drop_bit j i AND 0xf)) [28, 24, 20, 16, 12, 8, 4, 0] @ [asc CHR ''>'']"

fun mini_directive :: "u8 list \<Rightarrow> va list \<Rightarrow> (u8 list \<times> u8 list \<times> va list) option" where
  "mini_directive [] args = None"
| "mini_directive (c # cs) args =
     (if c = 0 then Some ([], c # cs, args)
      else if c = asc CHR ''*'' then
        (case va_int args of None \<Rightarrow> None | Some (v, args) \<Rightarrow> mini_directive cs args)
      else if c = asc CHR ''c'' then map_option (\<lambda>(v, args). ([ucast v], cs, args)) (va_int args)
      else if c = asc CHR ''s'' then
        (case args of
           Va_str (Some s) # args \<Rightarrow> map_option (\<lambda>n. (take n s, cs, args)) (strlen s)
         | _ \<Rightarrow> None)
      else if c = asc CHR ''n'' then Some ([], cs, args)
      else if c = asc CHR ''%'' then Some ([asc CHR ''%''], cs, args)
      else if c \<in> {asc CHR ''o'', asc CHR ''x'', asc CHR ''X'', asc CHR ''d'', asc CHR ''i'', asc CHR ''u'', asc CHR ''p''} then
        map_option (\<lambda>(v, args). (mini_hex v, cs, args)) (va_int args)
      else mini_directive cs args)"

lemma mini_directive_length:
  "mini_directive fmt args = Some (out, fmt', args') \<Longrightarrow> length fmt' \<le> length fmt"
  by (induction fmt args rule: mini_directive.induct)
    (auto split: if_splits option.splits list.splits va.splits intro: le_SucI)

function vsprintf_mini :: "u8 list \<Rightarrow> va list \<Rightarrow> u8 list option" where
  "vsprintf_mini fmt args =
     (case fmt of [] \<Rightarrow> None
      | c # cs \<Rightarrow>
          if c = 0 then Some []
          else if c \<noteq> asc CHR ''%'' then map_option (Cons c) (vsprintf_mini cs args)
          else (case mini_directive cs args of None \<Rightarrow> None
                | Some (out, fmt, args) \<Rightarrow> map_option ((@) out) (vsprintf_mini fmt args)))"
  by pat_completeness auto
termination
  by (relation "measure (\<lambda>(fmt, args). length fmt)") (auto dest: mini_directive_length)

declare vsprintf_mini.simps [simp del]

section \<open>printf\<close>

text \<open>
  \<open>pp_vprintf\<close> formats into the static \<^verbatim>\<open>print_buf\<close> of \<open>bufsize\<close> bytes, without a check (\<open>None\<close> when the output with
  its 0 does not fit), and hands it to \<^verbatim>\<open>puts\<close>: the bytes of the console.
\<close>

definition pp_vprintf :: "(u8 list \<Rightarrow> va list \<Rightarrow> u8 list option) \<Rightarrow> nat \<Rightarrow> u8 list \<Rightarrow> va list \<Rightarrow> (nat \<times> u8 list) option" where
  "pp_vprintf vsprintf bufsize fmt args =
     (case vsprintf fmt args of None \<Rightarrow> None
      | Some out \<Rightarrow>
          if length out + 1 \<le> bufsize
          then map_option (\<lambda>n. (length out, take n out)) (strlen (out @ [0])) else None)"

end
