(* ===== verification/PpPrintfProps.thy ===== *)
theory PpPrintfProps
  imports PpPrintf
begin

text \<open>
  Correctness of the formatted output: the decimal conversion without divisions produces the decimal
  digits, a number is laid out as its sign, prefix and digits padded to the field, both
  decimal conversions read back to the value, and the directives that go wrong.
\<close>

section \<open>Decimal digits\<close>

fun dec_digits :: "nat \<Rightarrow> nat list" where
  "dec_digits n = (if n < 10 then [n] else n mod 10 # dec_digits (n div 10))"

declare dec_digits.simps [simp del]

lemma div10_split: obtains a b where "n = 10 * a + b" "b < 10" "n div 10 = a" "n mod 10 = (b :: nat)"
  by (rule that [of "n div 10" "n mod 10"]) simp_all

lemma div10_shift11: "n < 1000 \<Longrightarrow> drop_bit 11 (n * 0xcd) = n div (10 :: nat)"
proof (rule div10_split [of n])
  fix a b assume n: "n < 1000" "n = 10 * a + b" "b < 10" "n div 10 = a"
  then have "n * 205 = 2 * a + 205 * b + 2048 * a" "2 * a + 205 * b < 2048" by simp_all
  then have "n * 205 div 2048 = a" by simp
  with n show ?thesis by (simp add: drop_bit_eq_div)
qed

lemma div10_shift7: "n < 69 \<Longrightarrow> drop_bit 7 (n * 0xd) = n div (10 :: nat)"
proof (rule div10_split [of n])
  fix a b assume n: "n < 69" "n = 10 * a + b" "b < 10" "n div 10 = a"
  then have "n * 13 = 2 * a + 13 * b + 128 * a" "2 * a + 13 * b < 128" by (simp, cases "a \<le> 5", simp_all)
  then have "n * 13 div 128 = a" by simp
  with n show ?thesis by (simp add: drop_bit_eq_div)
qed

text \<open>The values computed from the hexadecimal digits of \<open>q\<close>.\<close>

lemma dec_steps:
  fixes q x0 x1 x2 x3 :: nat
  assumes q: "q = 4096 * x3 + 256 * x2 + 16 * x1 + x0" "x0 < 16" "x1 < 16" "x2 < 16" "x3 < 25"
    and t0: "t0 = 6 * (x3 + x2 + x1) + x0"
    and t1: "t1 = t0 div 10 + 9 * x3 + 5 * x2 + x1"
    and t2: "t2 = t1 div 10 + 2 * x2"
    and t3: "t3 = t2 div 10 + 4 * x3"
  shows "t0 < 1000" "t1 < 1000" "t2 < 69" "t3 < 1000"
    "q mod 10 = t0 mod 10" "q div 10 = t1 + 10 * (40 * x3 + 2 * x2)" "q div 100 = t2 + 10 * (4 * x3)"
    "q div 1000 = t3" "q div 10000 = t3 div 10"
proof -
  have le: "m \<le> n \<Longrightarrow> m div 10 \<le> n div 10" for m n :: nat by (rule div_le_mono)
  have b0: "t0 \<le> 339" using q t0 by simp
  from le [OF this] have b1: "t1 \<le> 339" using q t1 by simp
  from le [OF this] have b2: "t2 \<le> 63" using q t2 by simp
  from le [OF this] have b3: "t3 \<le> 102" using q t3 by simp
  show "t0 < 1000" "t1 < 1000" "t2 < 69" "t3 < 1000" using b0 b1 b2 b3 by simp_all
  have q0: "q = t0 + 10 * (409 * x3 + 25 * x2 + x1)" using q t0 by simp
  show "q mod 10 = t0 mod 10" unfolding q0 by (rule mod_mult_self2)
  have "q div 10 = t0 div 10 + (409 * x3 + 25 * x2 + x1)" unfolding q0 by (subst div_mult_self2) simp_all
  then show q1: "q div 10 = t1 + 10 * (40 * x3 + 2 * x2)" using t1 by simp
  have "q div 100 = q div 10 div 10" by (simp flip: div_mult2_eq)
  also have "\<dots> = t1 div 10 + (40 * x3 + 2 * x2)" unfolding q1 by (subst div_mult_self2) simp_all
  finally show q2: "q div 100 = t2 + 10 * (4 * x3)" using t2 by simp
  have "q div 1000 = q div 100 div 10" by (simp flip: div_mult2_eq)
  also have "\<dots> = t2 div 10 + 4 * x3" unfolding q2 by (subst div_mult_self2) simp_all
  finally show q3: "q div 1000 = t3" using t3 by simp
  have "q div 10000 = q div 1000 div 10" by (simp flip: div_mult2_eq)
  then show "q div 10000 = t3 div 10" using q3 by simp
qed

lemma nat_and_15: "(y :: nat) AND 0xf = y mod 16"
  using take_bit_eq_mask [of 4 y] by (simp add: take_bit_eq_mod mask_eq_exp_minus_1)

lemma hex_split: "(q :: nat) = 4096 * drop_bit 12 q + 256 * (drop_bit 8 q AND 0xf) + 16 * (drop_bit 4 q AND 0xf) + (q AND 0xf)"
proof -
  have "n = 16 * a + r0 \<Longrightarrow> a = 16 * b + r1 \<Longrightarrow> b = 16 * c + r2 \<Longrightarrow> n = 4096 * c + 256 * r2 + 16 * r1 + r0"
    for n a b c r0 r1 r2 :: nat by simp
  note split = this
  have d: "q div 256 = q div 16 div 16" "q div 4096 = q div 16 div 16 div 16" by (simp_all flip: div_mult2_eq)
  have "q = 4096 * (q div 4096) + 256 * (q div 256 mod 16) + 16 * (q div 16 mod 16) + q mod 16"
    unfolding d by (rule split) (rule mult_div_mod_eq [symmetric])+
  then show ?thesis by (simp add: nat_and_15 drop_bit_eq_div)
qed

lemma sub_mult_div10: "n - 10 * (n div 10) = n mod (10 :: nat)"
  by (rule minus_mult_div_eq_mod)

lemma dec_digits_5:
  assumes "q < 100000"
  shows "dec_digits q = q mod 10 # (if q div 10 = 0 then [] else q div 10 mod 10 # (if q div 100 = 0 then []
    else q div 100 mod 10 # (if q div 1000 = 0 then [] else q div 1000 mod 10 #
      (if q div 10000 = 0 then [] else [q div 10000]))))"
proof -
  have d: "q div 10 div 10 = q div 100" "q div 100 div 10 = q div 1000" "q div 1000 div 10 = q div 10000"
    by (simp_all flip: div_mult2_eq)
  have step: "dec_digits n = n mod 10 # (if n div 10 = 0 then [] else dec_digits (n div 10))" for n
    by (subst dec_digits.simps) (simp add: div_eq_0_iff)
  have "q div 10000 < 10" using assms by (simp add: div_less_iff_less_mult)
  then have "dec_digits (q div 10000) = [q div 10000]" by (simp add: dec_digits.simps)
  then show ?thesis by (simp add: step [of q] step [of "q div 10"] step [of "q div 100"] step [of "q div 1000"] d)
qed

lemma dec_values:
  fixes q :: nat
  assumes "q < 100000"
  obtains x0 x1 x2 x3 t0 t1 t2 t3 where
    "x0 = q AND 0xf" "x1 = drop_bit 4 q AND 0xf" "x2 = drop_bit 8 q AND 0xf" "x3 = drop_bit 12 q"
    "t0 = 6 * (x3 + x2 + x1) + x0" "t1 = t0 div 10 + 9 * x3 + 5 * x2 + x1" "t2 = t1 div 10 + 2 * x2" "t3 = t2 div 10 + 4 * x3"
    "t0 < 1000" "t1 < 1000" "t2 < 69" "t3 < 1000"
    "q mod 10 = t0 mod 10" "q div 10 mod 10 = t1 mod 10" "q div 100 mod 10 = t2 mod 10" "q div 1000 = t3" "q div 10000 = t3 div 10"
    "q div 10 = 0 \<longleftrightarrow> t1 = 0" "q div 100 = 0 \<longleftrightarrow> t2 = 0 \<and> x3 = 0"
proof -
  define x0 x1 x2 x3 where x: "x0 = q AND 0xf" "x1 = drop_bit 4 q AND 0xf" "x2 = drop_bit 8 q AND 0xf" "x3 = drop_bit 12 q"
  define t0 where t0: "t0 = 6 * (x3 + x2 + x1) + x0"
  define t1 where t1: "t1 = t0 div 10 + 9 * x3 + 5 * x2 + x1"
  define t2 where t2: "t2 = t1 div 10 + 2 * x2"
  define t3 where t3: "t3 = t2 div 10 + 4 * x3"
  have "q div 4096 < 25" using assms by (simp add: div_less_iff_less_mult)
  then have b: "x0 < 16" "x1 < 16" "x2 < 16" "x3 < 25" by (simp_all add: x nat_and_15 drop_bit_eq_div)
  have "q = 4096 * x3 + 256 * x2 + 16 * x1 + x0" unfolding x by (rule hex_split)
  note f = dec_steps [OF this b t0 t1 t2 t3]
  have m: "q div 10 mod 10 = t1 mod 10" "q div 100 mod 10 = t2 mod 10"
    unfolding f(6,7) by (rule mod_mult_self2)+
  have z: "q div 10 = 0 \<longleftrightarrow> t1 = 0" "q div 100 = 0 \<longleftrightarrow> t2 = 0 \<and> x3 = 0" unfolding f(6,7) t1 by auto
  show thesis by (rule that [OF x t0 t1 t2 t3 f(1-5) m f(8,9) z])
qed

lemma put_dec_trunc_correct:
  assumes "q < 100000"
  shows "put_dec_trunc q = map digit_char (dec_digits q)"
proof (rule dec_values [OF assms])
  fix x0 x1 x2 x3 t0 t1 t2 t3
  assume x: "x0 = q AND 0xf" "x1 = drop_bit 4 q AND 0xf" "x2 = drop_bit 8 q AND 0xf" "x3 = drop_bit 12 q"
    and t: "t0 = 6 * (x3 + x2 + x1) + x0" "t1 = t0 div 10 + 9 * x3 + 5 * x2 + x1" "t2 = t1 div 10 + 2 * x2" "t3 = t2 div 10 + 4 * x3"
    and b: "t0 < 1000" "t1 < 1000" "t2 < 69" "t3 < 1000"
    and f: "q mod 10 = t0 mod 10" "q div 10 mod 10 = t1 mod 10" "q div 100 mod 10 = t2 mod 10" "q div 1000 = t3"
      "q div 10000 = t3 div 10" "q div 10 = 0 \<longleftrightarrow> t1 = 0" "q div 100 = 0 \<longleftrightarrow> t2 = 0 \<and> x3 = 0"
  have "put_dec_trunc q = digit_char (t0 - 10 * (t0 div 10)) # (if t1 \<noteq> 0 then digit_char (t1 - 10 * (t1 div 10)) #
      (if t2 \<noteq> 0 \<or> x3 \<noteq> 0 then digit_char (t2 - 10 * (t2 div 10)) # (if t3 \<noteq> 0 then digit_char (t3 - 10 * (t3 div 10)) #
        (if t3 div 10 \<noteq> 0 then [digit_char (t3 div 10)] else []) else []) else []) else [])"
    unfolding put_dec_trunc_def Let_def x [symmetric] t(1) [symmetric] div10_shift11 [OF b(1)] t(2) [symmetric]
      div10_shift11 [OF b(2)] t(3) [symmetric] div10_shift7 [OF b(3)] t(4) [symmetric] div10_shift11 [OF b(4)] ..
  then show ?thesis unfolding dec_digits_5 [OF assms] sub_mult_div10
    by (simp only: f list.map if_distrib [of "map digit_char"] if_not_P simp_thms) simp
qed

lemma put_dec_full_correct:
  assumes "q < 100000"
  shows "put_dec_full q = map digit_char [q mod 10, q div 10 mod 10, q div 100 mod 10, q div 1000 mod 10, q div 10000]"
proof (rule dec_values [OF assms])
  fix x0 x1 x2 x3 t0 t1 t2 t3
  assume x: "x0 = q AND 0xf" "x1 = drop_bit 4 q AND 0xf" "x2 = drop_bit 8 q AND 0xf" "x3 = drop_bit 12 q"
    and t: "t0 = 6 * (x3 + x2 + x1) + x0" "t1 = t0 div 10 + 9 * x3 + 5 * x2 + x1" "t2 = t1 div 10 + 2 * x2" "t3 = t2 div 10 + 4 * x3"
    and b: "t0 < 1000" "t1 < 1000" "t2 < 69" "t3 < 1000"
    and f: "q mod 10 = t0 mod 10" "q div 10 mod 10 = t1 mod 10" "q div 100 mod 10 = t2 mod 10" "q div 1000 = t3"
      "q div 10000 = t3 div 10"
  have "put_dec_full q = [digit_char (t0 - 10 * (t0 div 10)), digit_char (t1 - 10 * (t1 div 10)),
      digit_char (t2 - 10 * (t2 div 10)), digit_char (t3 - 10 * (t3 div 10)), digit_char (t3 div 10)]"
    unfolding put_dec_full_def Let_def x [symmetric] t(1) [symmetric] div10_shift11 [OF b(1)] t(2) [symmetric]
      div10_shift11 [OF b(2)] t(3) [symmetric] div10_shift7 [OF b(3)] t(4) [symmetric] div10_shift11 [OF b(4)] ..
  then show ?thesis unfolding sub_mult_div10 by (simp only: f list.map)
qed

lemma dec_digits_high:
  assumes "100000 \<le> n"
  shows "dec_digits n = [n mod 10, n div 10 mod 10, n div 100 mod 10, n div 1000 mod 10, n div 10000 mod 10] @ dec_digits (n div 100000)"
proof -
  have d: "n div 10 div 10 = n div 100" "n div 100 div 10 = n div 1000" "n div 1000 div 10 = n div 10000"
    "n div 10000 div 10 = n div 100000" by (simp_all flip: div_mult2_eq)
  have ge: "\<not> n < 10" "\<not> n div 10 < 10" "\<not> n div 100 < 10" "\<not> n div 1000 < 10" "\<not> n div 10000 < 10"
    using assms by (simp_all add: div_less_iff_less_mult)
  show ?thesis using ge
    by (simp add: d dec_digits.simps [of n] dec_digits.simps [of "n div 10"] dec_digits.simps [of "n div 100"]
        dec_digits.simps [of "n div 1000"] dec_digits.simps [of "n div 10000"])
qed

lemma put_dec_correct: "put_dec n = map digit_char (dec_digits n)"
proof (induction n rule: put_dec.induct)
  case (1 n)
  show ?case
  proof (cases "n < 100000")
    case True
    then show ?thesis by (simp add: put_dec.simps put_dec_trunc_correct)
  next
    case False
    define a r where ar: "a = n div 100000" "r = n mod 100000"
    then have r: "r < 100000" by simp
    have n: "n = r + 10 * (10000 * a)" "n = r + 100 * (1000 * a)" "n = r + 1000 * (100 * a)" "n = r + 10000 * (10 * a)"
      using mult_div_mod_eq [of 100000 n] ar by simp_all
    have "n div 10 = r div 10 + 10 * (1000 * a)" by (subst n(1), subst div_mult_self2) simp_all
    moreover have "n div 100 = r div 100 + 10 * (100 * a)" by (subst n(2), subst div_mult_self2) simp_all
    moreover have "n div 1000 = r div 1000 + 10 * (10 * a)" by (subst n(3), subst div_mult_self2) simp_all
    moreover have "n div 10000 = r div 10000 + 10 * a" by (subst n(4), subst div_mult_self2) simp_all
    moreover have "r div 10000 mod 10 = r div 10000" using r by (simp add: div_less_iff_less_mult)
    ultimately have m: "n div 10 mod 10 = r div 10 mod 10" "n div 100 mod 10 = r div 100 mod 10"
      "n div 1000 mod 10 = r div 1000 mod 10" "n div 10000 mod 10 = r div 10000"
      by (simp_all only: mod_mult_self2)
    have "n mod 10 = r mod 10" by (subst n(1)) (rule mod_mult_self2)
    then have "dec_digits n = [r mod 10, r div 10 mod 10, r div 100 mod 10, r div 1000 mod 10, r div 10000] @ dec_digits a"
      using dec_digits_high [of n] False unfolding m ar(1) by simp
    moreover have "put_dec n = put_dec_full r @ put_dec a" unfolding ar using False by (subst put_dec.simps) simp
    moreover have "put_dec a = map digit_char (dec_digits a)" unfolding ar by (rule 1 [OF False])
    ultimately show ?thesis by (simp only: put_dec_full_correct [OF r] map_append)
  qed
qed

section \<open>The layout of a number\<close>

text \<open>
  The digits of a value in a base, lowest first; the characters of the sign and of the prefix; a head and a
  body in a field of \<open>sz\<close> characters.
\<close>

function base_digits :: "nat \<Rightarrow> nat \<Rightarrow> nat list" where
  "base_digits b n = (if n < b \<or> b < 2 then [n] else n mod b # base_digits b (n div b))"
  by pat_completeness auto
termination
  by (relation "measure snd") auto

declare base_digits.simps [simp del]

definition sign_chars :: "u32 \<Rightarrow> int \<Rightarrow> u8 list" where
  "sign_chars num type =
     (if \<not> has type SIGN then [] else if sint num < 0 then [asc CHR ''-'']
      else if has type PLUS then [asc CHR ''+''] else if has type SPACE then [asc CHR '' ''] else [])"

definition prefix_chars :: "nat \<Rightarrow> int \<Rightarrow> u8 list" where
  "prefix_chars base type =
     (if \<not> has type SPECIAL \<or> base = 10 then []
      else if base = 16 then [asc CHR ''0'', if has type SMALL then asc CHR ''x'' else asc CHR ''X'']
      else [asc CHR ''0''])"

definition num_char :: "int \<Rightarrow> nat \<Rightarrow> u8" where
  "num_char type d = (if has type SMALL then bytes ''0123456789abcdef'' ! d else bytes ''0123456789ABCDEF'' ! d)"

definition magnitude :: "u32 \<Rightarrow> int \<Rightarrow> nat" where
  "magnitude num type = (if has type SIGN then nat \<bar>sint num\<bar> else unat num)"

definition layout :: "int \<Rightarrow> int \<Rightarrow> u8 list \<Rightarrow> u8 list \<Rightarrow> u8 list" where
  "layout sz type head body =
     (let gap = sz - int (length head) - int (length body)
      in if has type LEFT then head @ body @ pad gap (asc CHR '' '')
         else if has type ZEROPAD then head @ pad gap (asc CHR ''0'') @ body
         else pad gap (asc CHR '' '') @ head @ body)"

lemma base_digits_10: "base_digits 10 n = dec_digits n"
  by (induction n rule: dec_digits.induct) (subst base_digits.simps, subst dec_digits.simps, simp)

lemma base_digits_less: "2 \<le> b \<Longrightarrow> d \<in> set (base_digits b n) \<Longrightarrow> d < b"
proof (induction b n rule: base_digits.induct)
  case (1 b n)
  then show ?case by (subst (asm) base_digits.simps) (auto split: if_splits)
qed

lemma upper_digits_char: "d < 16 \<Longrightarrow> upper_digits ! d OR (if has type SMALL then 0x20 else 0) = num_char type d"
proof -
  have "\<forall>d\<in>set [0..<16]. upper_digits ! d OR (if has type SMALL then 0x20 else 0) = num_char type d"
    by (simp add: upt_rec upper_digits_def num_char_def)
  then show "d < 16 \<Longrightarrow> ?thesis" by simp
qed

lemma digit_char_num: "d < 10 \<Longrightarrow> digit_char d = num_char type d"
proof -
  have "\<forall>d\<in>set [0..<10]. digit_char d = num_char type d" by (simp add: upt_rec digit_char_def num_char_def)
  then show "d < 10 \<Longrightarrow> ?thesis" by simp
qed

lemma put_pow2_correct:
  assumes "base = 8 \<or> base = 16"
  shows "put_pow2 base (if has type SMALL then 0x20 else 0) n = map (num_char type) (base_digits base n)"
proof (induction n rule: less_induct)
  case (less n)
  define shift where "shift = (if base = 16 then 4 else (3 :: nat))"
  have sh: "drop_bit shift n = n div base" and an: "(n mod 256) AND (base - 1) = n mod base"
  proof -
    have "(n mod 256) AND (base - 1) = n mod 256 mod base"
      using assms take_bit_eq_mask [of 4 "n mod 256"] take_bit_eq_mask [of 3 "n mod 256"]
      by (auto simp: take_bit_eq_mod mask_eq_exp_minus_1)
    also have "\<dots> = n mod base" using assms by (auto simp: mod_mod_cancel)
    finally show "(n mod 256) AND (base - 1) = n mod base" .
  qed (use assms in \<open>auto simp: shift_def drop_bit_eq_div\<close>)
  have "n mod base < 16" using assms by auto
  then have c: "upper_digits ! (n mod base) OR (if has type SMALL then 0x20 else 0) = num_char type (n mod base)"
    by (rule upper_digits_char)
  have "put_pow2 base (if has type SMALL then 0x20 else 0) n = num_char type (n mod base) #
      (if n div base \<noteq> 0 then put_pow2 base (if has type SMALL then 0x20 else 0) (n div base) else [])"
    unfolding put_pow2.simps [of base _ n] Let_def shift_def [symmetric] an sh c ..
  moreover have "n div base < n" if "n div base \<noteq> 0" using that assms by (cases "n = 0") auto
  ultimately show ?case using less [of "n div base"] assms
    by (subst base_digits.simps) (auto simp: div_eq_0_iff)
qed

lemma has_bits:
  "has t ZEROPAD \<longleftrightarrow> bit t 0" "has t SIGN \<longleftrightarrow> bit t 1" "has t PLUS \<longleftrightarrow> bit t 2" "has t SPACE \<longleftrightarrow> bit t 3"
  "has t LEFT \<longleftrightarrow> bit t 4" "has t SMALL \<longleftrightarrow> bit t 5" "has t SPECIAL \<longleftrightarrow> bit t 6"
  "has t (ZEROPAD + LEFT) \<longleftrightarrow> bit t 0 \<or> bit t 4"
proof -
  have "t AND 17 = (t AND 2 ^ 0) OR (t AND 2 ^ 4)" by (simp flip: bit.conj_disj_distrib)
  then show "has t (ZEROPAD + LEFT) \<longleftrightarrow> bit t 0 \<or> bit t 4"
    by (simp add: has_def flag_defs and_exp_eq_0_iff_not_bit or_eq_0_iff del: power_0 power_numeral)
qed (use and_exp_eq_0_iff_not_bit [of t 0] and_exp_eq_0_iff_not_bit [of t 1] and_exp_eq_0_iff_not_bit [of t 2]
    and_exp_eq_0_iff_not_bit [of t 3] and_exp_eq_0_iff_not_bit [of t 4] and_exp_eq_0_iff_not_bit [of t 5]
    and_exp_eq_0_iff_not_bit [of t 6] in \<open>simp_all add: has_def flag_defs\<close>)

lemma bit_drop_zeropad: "bit (t AND NOT ZEROPAD) k \<longleftrightarrow> bit t k \<and> k \<noteq> 0"
  by (auto simp: ZEROPAD_def bit_simps)

lemma magnitude_neg: "unat (if bit type 1 \<and> sint num < 0 then - num else num) = magnitude num type"
proof -
  have neg: "unat (- num) = nat \<bar>sint num\<bar>" if "sint num < 0"
  proof -
    have "- num = word_of_int (- sint num)" by simp
    moreover have "- sint num \<le> 2 ^ 31" using sint_ge [of num] by simp
    ultimately have "uint (- num) = - sint num"
      using that by (simp only: uint_word_of_int) (simp add: take_bit_eq_mod)
    then show ?thesis using that by (simp flip: nat_uint_eq)
  qed
  have pos: "unat num = nat \<bar>sint num\<bar>" if "\<not> sint num < 0"
  proof -
    have "sint num < 2 ^ 31" using sint_lt [of num] by simp
    then have "uint num = sint num" using that by (simp add: uint_sint take_bit_eq_mod)
    then show ?thesis using that by (simp flip: nat_uint_eq)
  qed
  show ?thesis using neg pos by (auto simp: magnitude_def has_bits)
qed

lemma length_base_digits: "base_digits b n \<noteq> []"
  by (subst base_digits.simps) simp

lemma number_tmp_digits:
  assumes "base = 8 \<or> base = 10 \<or> base = 16"
  shows "number_tmp v base (if has type SMALL then 0x20 else 0) = map (num_char type) (base_digits base (unat v))"
proof (cases "v = 0")
  case True
  then show ?thesis using assms by (subst base_digits.simps) (auto simp: number_tmp_def num_char_def)
next
  case False
  have "map digit_char (base_digits 10 n) = map (num_char type) (base_digits 10 n)" for n
    using base_digits_less [of 10] digit_char_num by (auto intro: map_cong)
  then show ?thesis using False assms put_pow2_correct [of base type]
    by (auto simp: number_tmp_def put_dec_correct base_digits_10)
qed

lemma number_emit_layout:
  assumes "sg = (if sign \<noteq> 0 then [sign] else [])" "sz' = sz - int (length sg) - int (length pfx)"
    and "has type' LEFT = has type LEFT" "has type' ZEROPAD = (has type ZEROPAD \<and> \<not> has type LEFT)"
  shows "number_emit sign pfx tmp sz' precision type' =
    layout sz type (sg @ pfx) (pad (precision - int (length tmp)) (asc CHR ''0'') @ rev tmp)"
proof -
  have both: "has type' (ZEROPAD + LEFT) \<longleftrightarrow> has type' ZEROPAD \<or> has type' LEFT" by (simp add: has_bits)
  have len: "sz - int (length (sg @ pfx)) - int (length (pad (precision - int (length tmp)) (asc CHR ''0'') @ rev tmp))
      = sz' - (if int (length tmp) > precision then int (length tmp) else precision)" using assms(2) by (simp add: pad_def)
  have p: "pad ((if int (length tmp) > precision then int (length tmp) else precision) - int (length tmp)) c
      = pad (precision - int (length tmp)) c" for c by (simp add: pad_def)
  have z: "pad (min x 0) c = []" for x c by (simp add: pad_def)
  show ?thesis unfolding number_emit_def layout_def Let_def len p both assms(1) [symmetric] assms(3,4)
    by (simp add: z)
qed

lemma sign_chars_sign:
  "sign_chars num type = (if number_sign num type \<noteq> 0 then [number_sign num type] else [])"
  by (simp add: sign_chars_def number_sign_def)

lemma number_size_eq:
  assumes "pfx = (if need_pfx then if base = 16 then [c, c'] else [c] else [])"
  shows "number_size sign need_pfx base sz = sz - int (length (if sign \<noteq> 0 then [sign] else [])) - int (length pfx)"
  by (simp add: assms number_size_def)

definition number_text :: "u32 \<Rightarrow> nat \<Rightarrow> int \<Rightarrow> u8 list" where
  "number_text num base type = map (num_char type) (rev (base_digits base (magnitude num type)))"

lemma number_layout_lemma:
  assumes "base = 8 \<or> base = 10 \<or> base = 16"
  shows "number num base sz precision type =
    layout sz type (sign_chars num type @ prefix_chars base type)
      (pad (precision - int (length (number_text num base type))) (asc CHR ''0'') @ number_text num base type)"
proof -
  define type' where "type' = (if has type LEFT then type AND NOT ZEROPAD else type)"
  define locase :: u8 where "locase = (if has type SMALL then 0x20 else 0)"
  let ?v = "if has type' SIGN \<and> sint num < 0 then - num else num"
  have bits: "bit type' k \<longleftrightarrow> bit type k \<and> (k = 0 \<longrightarrow> \<not> bit type 4)" for k
    by (auto simp: type'_def has_bits bit_drop_zeropad)
  have tests: "has type' LEFT = has type LEFT" "has type' ZEROPAD = (has type ZEROPAD \<and> \<not> has type LEFT)"
    "number_sign num type' = number_sign num type" and sgn': "has type' SIGN = has type SIGN"
    by (simp_all add: has_bits bits number_sign_def)
  have pfx: "prefix_chars base type = (if has type SPECIAL \<and> base \<noteq> 10 then
      if base = 16 then [asc CHR ''0'', asc CHR ''X'' OR locase] else [asc CHR ''0''] else [])"
    by (simp add: prefix_chars_def locase_def)
  have "unat ?v = magnitude num type" using magnitude_neg [of type num] unfolding sgn' by (simp only: has_bits)
  then have tmp: "number_tmp ?v base locase = rev (number_text num base type)"
    unfolding locase_def number_tmp_digits [OF assms] number_text_def by (simp add: rev_map)
  have "number num base sz precision type = number_emit (number_sign num type) (prefix_chars base type)
      (rev (number_text num base type)) (number_size (number_sign num type) (has type SPECIAL \<and> base \<noteq> 10) base sz) precision type'"
    unfolding number_def Let_def type'_def [symmetric] locase_def [symmetric] tests(3) tmp pfx ..
  also have "\<dots> = layout sz type (sign_chars num type @ prefix_chars base type)
      (pad (precision - int (length (rev (number_text num base type)))) (asc CHR ''0'') @ rev (rev (number_text num base type)))"
    by (rule number_emit_layout [OF sign_chars_sign _ tests(1,2)]) (simp only: sign_chars_sign number_size_eq [OF pfx])
  finally show ?thesis by simp
qed

text \<open>
  C23. Whatever the flags, width and precision, \<^verbatim>\<open>number\<close> of the full formatter writes the sign and the prefix, then
  the digits of the magnitude in the base, extended by zeros to the precision, laid out in the
  field: left, right, or filled with zeros behind the sign and the prefix.
\<close>

theorem number_layout:
  assumes "base = 8 \<or> base = 10 \<or> base = 16"
  shows "number num base sz precision type =
    layout sz type (sign_chars num type @ prefix_chars base type)
      (pad (precision - int (length (number_text num base type))) (asc CHR ''0'') @ number_text num base type)"
  by (rule number_layout_lemma [OF assms])

theorem number_layout_witness:
  "number 0x2a 16 8 (- 1) (SPECIAL + SMALL + ZEROPAD) = bytes ''0x00002a'' \<and> number (- 5) 10 6 3 SIGN = bytes ''  -005''"
proof -
  have "number_text 0x2a 16 (SPECIAL + SMALL + ZEROPAD) = bytes ''2a''" "number_text (- 5) 10 SIGN = bytes ''5''"
    by (simp_all add: number_text_def magnitude_def has_def flag_defs base_digits.simps num_char_def)
  then show ?thesis using number_layout [of 16 "0x2a" 8 "- 1" "SPECIAL + SMALL + ZEROPAD"] number_layout [of 10 "- 5" 6 3 SIGN]
    by (simp add: layout_def sign_chars_def prefix_chars_def has_def flag_defs pad_def numeral_eq_Suc)
qed

section \<open>Printing and reading a number\<close>

lemma dec_digits_less: "d \<in> set (dec_digits n) \<Longrightarrow> d < 10"
  using base_digits_less [of 10 d n] by (simp add: base_digits_10)

lemma unat_digit_char: "d < 10 \<Longrightarrow> unat (digit_char d) = d + 48"
proof -
  assume "d < 10"
  then have "unat (of_nat (d + 48) :: u8) = d + 48" by (simp only: unat_of_nat take_bit_eq_mod) simp
  then show ?thesis unfolding digit_char_def .
qed

abbreviation dec_text :: "nat \<Rightarrow> u8 list" where "dec_text n \<equiv> map digit_char (rev (dec_digits n))"

lemma dec_text_digits: "Strings.digits (dec_text n)"
proof -
  have "48 \<le> digit_char d \<and> digit_char d \<le> 57" if "d \<in> set (dec_digits n)" for d
    using dec_digits_less [OF that] unat_digit_char [of d] by (simp add: word_le_nat_alt)
  then show ?thesis by (auto simp: Strings.digits_def)
qed

lemma dec_value_text: "dec_value (dec_text n) = n"
proof (induction n rule: dec_digits.induct)
  case (1 n)
  show ?case
  proof (cases "n < 10")
    case True
    then show ?thesis by (simp add: dec_value_def dec_digits.simps [of n] unat_digit_char)
  next
    case False
    then have "dec_text n = dec_text (n div 10) @ [digit_char (n mod 10)]" by (simp add: dec_digits.simps [of n])
    then show ?thesis using 1 [OF False] by (simp add: dec_value_def unat_digit_char)
  qed
qed

lemma dec_digits_length: "n < 10 ^ k \<Longrightarrow> 0 < k \<Longrightarrow> length (dec_digits n) \<le> k"
proof (induction k arbitrary: n)
  case (Suc k)
  show ?case
  proof (cases "n < 10")
    case False
    then have "0 < k" using Suc.prems by (cases k) auto
    moreover have "n div 10 < 10 ^ k" using Suc.prems by (simp add: div_less_iff_less_mult mult.commute)
    ultimately show ?thesis using Suc.IH [of "n div 10"] False by (simp add: dec_digits.simps [of n])
  qed (simp add: dec_digits.simps)
qed simp

lemma hex_digit: "d < 10 \<Longrightarrow> hex ! d = digit_char d"
proof -
  have "\<forall>d\<in>set [0..<10]. hex ! d = digit_char d" by (simp add: upt_rec hex_def digit_char_def)
  then show "d < 10 \<Longrightarrow> ?thesis" by simp
qed

lemma xint_digits_dec:
  "v \<noteq> 0 \<Longrightarrow> length (dec_digits (unat v)) + length acc \<le> 16 \<Longrightarrow> xint_digits v 10 acc = Some (dec_text (unat v) @ acc)"
proof (induction "unat v" arbitrary: v acc rule: less_induct)
  case less
  have d: "unat (v div 10) = unat v div 10" "unat (v mod 10) = unat v mod 10"
    by (simp_all add: unat_div unat_mod)
  have v0: "0 < unat v" using less.prems(1) by (simp add: unat_gt_0)
  have len: "length (dec_digits (unat v)) = (if unat v < 10 then 1 else Suc (length (dec_digits (unat v div 10))))"
    by (subst dec_digits.simps) simp
  then have la: "length acc < 16" using less.prems(2) by (simp split: if_splits)
  have hl: "\<not> length hex \<le> unat v mod 10"
  proof -
    have "length hex = 17" by (simp add: hex_def)
    moreover have "unat v mod 10 < 10" by simp
    ultimately show ?thesis by linarith
  qed
  with hl have step: "xint_digits v 10 acc = xint_digits (v div 10) 10 (digit_char (unat v mod 10) # acc)"
    using less.prems(1) la by (subst xint_digits.simps) (simp add: d hex_digit)
  show ?case
  proof (cases "unat v < 10")
    case True
    then have "unat (v div 10) = 0" using d(1) by simp
    then have "v div 10 = 0" by (simp only: unat_eq_zero)
    then show ?thesis using step True by (simp add: xint_digits.simps [of 0] dec_digits.simps [of "unat v"])
  next
    case False
    then have "unat (v div 10) \<noteq> 0" using d(1) by (simp add: div_eq_0_iff)
    then have "v div 10 \<noteq> 0" by auto
    moreover have "unat (v div 10) < unat v" using d(1) v0 by simp
    ultimately show ?thesis
      using step less.hyps [of "v div 10" "digit_char (unat v mod 10) # acc"] less.prems(2) len False d(1)
      by (simp add: dec_digits.simps [of "unat v"])
  qed
qed

lemma number_xint_dec:
  "number_xint v 10 (asc CHR '' '') 1 = Some (sign_chars v SIGN @ dec_text (magnitude v SIGN))"
proof -
  let ?v = "if sint v < 0 then - v else v"
  have m: "unat ?v = magnitude v SIGN" using magnitude_neg [of SIGN v] by (simp add: SIGN_def bit_simps)
  have "unat ?v < 2 ^ 32" using unsigned_less [of ?v, where 'a = nat] by (simp del: unsigned_less)
  then have len: "length (dec_digits (unat ?v)) \<le> 10" by (intro dec_digits_length) simp_all
  have digits: "Option.bind (xint_digits ?v 10 []) (\<lambda>acc. if acc = [] then push_tmp (asc CHR ''0'') acc else Some acc)
      = Some (dec_text (unat ?v))"
  proof (cases "?v = 0")
    case True
    then have "dec_text (unat ?v) = [asc CHR ''0'']" by (simp add: dec_digits.simps digit_char_def del: if_weak_cong)
    with True show ?thesis by (simp only: xint_digits.simps [of 0]) (simp add: push_tmp_def)
  next
    case False
    then have "xint_digits ?v 10 [] = Some (dec_text (unat ?v))" using xint_digits_dec [of ?v "[]"] len by simp
    moreover have "dec_text (unat ?v) \<noteq> []" by (subst dec_digits.simps) simp
    ultimately show ?thesis by (simp del: map_is_Nil_conv)
  qed
  let ?txt = "dec_text (unat ?v)"
  have "dec_digits n \<noteq> []" for n by (subst dec_digits.simps) simp
  then have wid: "1 - length ?txt = 0" "1 - length (c # ?txt) = 0" for c by (simp_all add: Suc_le_eq)
  have "number_xint v 10 (asc CHR '' '') 1 = Option.bind (Some ?txt) (\<lambda>acc.
      Option.bind (if sint v < 0 then push_tmp (asc CHR ''-'') acc else Some acc) (\<lambda>acc.
      push_lead (1 - length acc) (asc CHR '' '') acc))"
    unfolding digits [symmetric] by (simp add: number_xint_def Let_def cong: if_cong)
  also have "\<dots> = Some (sign_chars v SIGN @ ?txt)"
    using wid len by (cases "sint v < 0") (simp_all add: push_tmp_def sign_chars_def has_def flag_defs)
  finally show ?thesis unfolding m .
qed

lemma number_full_dec: "number v 10 (- 1) (- 1) SIGN = sign_chars v SIGN @ dec_text (magnitude v SIGN)"
proof -
  have "number_text v 10 SIGN = dec_text (magnitude v SIGN)"
    using dec_digits_less [of _ "magnitude v SIGN"] digit_char_num
    by (auto simp: number_text_def base_digits_10 intro: map_cong)
  then show ?thesis using number_layout_lemma [of 10 v "- 1" "- 1" SIGN]
    by (simp add: layout_def prefix_chars_def has_def flag_defs pad_def)
qed

lemma atol_dec_text: "atol ((sign_chars v SIGN @ dec_text (magnitude v SIGN)) @ [0]) = Some v"
proof -
  have ne: "dec_text n \<noteq> []" for n by (subst dec_digits.simps) simp
  note a = atol_digits [OF dec_text_digits ne, of 0 _ "[]", unfolded dec_value_text]
  have s: "has SIGN SIGN" "\<not> has SIGN PLUS" "\<not> has SIGN SPACE" by (simp_all add: has_def flag_defs)
  have neg: "- of_nat (nat \<bar>sint v\<bar>) = v" if "sint v < 0"
  proof -
    have "(of_nat (nat \<bar>sint v\<bar>) :: u32) = word_of_int (- sint v)" using that by (simp add: of_nat_nat)
    then show ?thesis by simp
  qed
  have pos: "of_nat (nat \<bar>sint v\<bar>) = v" if "\<not> sint v < 0" using that by (simp add: of_nat_nat)
  show ?thesis using a(1,2) [of "nat \<bar>sint v\<bar>"] neg pos s
    by (cases "sint v < 0") (simp_all add: sign_chars_def magnitude_def)
qed

text \<open>
  C24. Both the full and the integer formatter write a number with \<^verbatim>\<open>%d\<close> as the same text, and \<^verbatim>\<open>atol\<close> reads the
  number back from it, for every 32-bit value, the signed accumulator of \<^verbatim>\<open>atol\<close> taken to wrap around at the ends of the range.
\<close>

theorem printf_atol_roundtrip:
  "\<exists>out. vsprintf_full 0 (bytes ''%d'' @ [0]) [Va_int v] = Some (out, [])
     \<and> vsprintf_xint (bytes ''%d'' @ [0]) [Va_int v] = Some out \<and> atol (out @ [0]) = Some v"
proof -
  let ?out = "sign_chars v SIGN @ dec_text (magnitude v SIGN)"
  have "directive 0 [asc CHR ''d'', 0] [Va_int v] = Some (?out, [], [0], [])"
    by (simp add: directive_def parse_width_def parse_precision_def parse_qualifier_def convert_def is_digit_def
        int_arg_def number_full_dec flip: SIGN_def)
  then have "vsprintf_full 0 (bytes ''%d'' @ [0]) [Va_int v] = Some (?out, [])"
    by (simp add: vsprintf_full.simps)
  moreover have "xint_directive 10 (asc CHR '' '') 1 [asc CHR ''d'', 0] [Va_int v] = Some (?out, [0], [])"
    using number_xint_dec [of v] by (simp add: xint_directive.simps)
  then have "vsprintf_xint (bytes ''%d'' @ [0]) [Va_int v] = Some ?out"
    by (simp add: vsprintf_xint.simps)
  ultimately show ?thesis using atol_dec_text [of v] by blast
qed

text \<open>
  A \<^verbatim>\<open>long\<close> is not printed: in the full formatter the letter behind a single \<^verbatim>\<open>l\<close> is skipped, so \<^verbatim>\<open>%ld\<close> at the end of
  a format writes a percent sign and no number, whatever the arguments.
\<close>

theorem long_directive_lost:
  "pp_vsprintf_full (bytes ''%l'' @ [x, 0]) args = Some (1, bytes ''%'' @ [0], [])"
  by (simp add: pp_vsprintf_full_def vsprintf_full.simps directive_def parse_width_def parse_precision_def
      parse_qualifier_def convert_def is_digit_def)

end
