(* ===== verification/KernelList.thy ===== *)
theory KernelList
  imports Prelude
begin

text \<open>
  The doubly linked lists of \<^verbatim>\<open>include/linux/list.h\<close> on an explicit heap: a partial function from addresses to
  the \<^verbatim>\<open>next\<close> and \<^verbatim>\<open>prev\<close> pointers of the \<^verbatim>\<open>list_head\<close> there. Using a pointer to no \<^verbatim>\<open>list_head\<close> is \<open>None\<close>.
  The stores are made in the order of the source, so that a node reached through two names is
  updated as the code updates it.

  \<open>dlist h head xs\<close> says that the list with head \<open>head\<close> has the entries \<open>xs\<close>. Every operation is shown to have
  the effect of an operation on \<open>xs\<close> and to leave all other nodes alone.
\<close>

section \<open>Heap\<close>

record list_head =
  lh_next :: nat
  lh_prev :: nat

type_synonym lheap = "nat \<Rightarrow> list_head option"

definition LIST_POISON1 :: nat where "LIST_POISON1 = 0x00100100"
definition LIST_POISON2 :: nat where "LIST_POISON2 = 0x00200200"

definition get_next :: "nat \<Rightarrow> lheap \<Rightarrow> nat option" where
  "get_next p h = map_option lh_next (h p)"

definition get_prev :: "nat \<Rightarrow> lheap \<Rightarrow> nat option" where
  "get_prev p h = map_option lh_prev (h p)"

definition set_next :: "nat \<Rightarrow> nat \<Rightarrow> lheap \<Rightarrow> lheap option" where
  "set_next p v h = map_option (\<lambda>n. h(p \<mapsto> n\<lparr>lh_next := v\<rparr>)) (h p)"

definition set_prev :: "nat \<Rightarrow> nat \<Rightarrow> lheap \<Rightarrow> lheap option" where
  "set_prev p v h = map_option (\<lambda>n. h(p \<mapsto> n\<lparr>lh_prev := v\<rparr>)) (h p)"

section \<open>Operations\<close>

definition INIT_LIST_HEAD :: "nat \<Rightarrow> lheap \<Rightarrow> lheap option" where
  "INIT_LIST_HEAD list h = Option.bind (set_next list list h) (set_prev list list)"

definition list_add_between :: "nat \<Rightarrow> nat \<Rightarrow> nat \<Rightarrow> lheap \<Rightarrow> lheap option" where
  "list_add_between new prev nxt h =
     Option.bind (set_prev nxt new h) (\<lambda>h.
     Option.bind (set_next new nxt h) (\<lambda>h.
     Option.bind (set_prev new prev h) (\<lambda>h.
     set_next prev new h)))"

definition list_add :: "nat \<Rightarrow> nat \<Rightarrow> lheap \<Rightarrow> lheap option" where
  "list_add new head h = Option.bind (get_next head h) (\<lambda>n. list_add_between new head n h)"

definition list_add_tail :: "nat \<Rightarrow> nat \<Rightarrow> lheap \<Rightarrow> lheap option" where
  "list_add_tail new head h = Option.bind (get_prev head h) (\<lambda>p. list_add_between new p head h)"

definition list_del_between :: "nat \<Rightarrow> nat \<Rightarrow> lheap \<Rightarrow> lheap option" where
  "list_del_between prev nxt h = Option.bind (set_prev nxt prev h) (set_next prev nxt)"

definition list_del_entry :: "nat \<Rightarrow> lheap \<Rightarrow> lheap option" where
  "list_del_entry entry h =
     Option.bind (get_prev entry h) (\<lambda>p. Option.bind (get_next entry h) (\<lambda>n. list_del_between p n h))"

definition list_del :: "nat \<Rightarrow> lheap \<Rightarrow> lheap option" where
  "list_del entry h =
     Option.bind (list_del_entry entry h) (\<lambda>h.
     Option.bind (set_next entry LIST_POISON1 h) (set_prev entry LIST_POISON2))"

definition list_replace :: "nat \<Rightarrow> nat \<Rightarrow> lheap \<Rightarrow> lheap option" where
  "list_replace old new h =
     Option.bind (get_next old h) (\<lambda>n.
     Option.bind (set_next new n h) (\<lambda>h.
     Option.bind (get_next new h) (\<lambda>n.
     Option.bind (set_prev n new h) (\<lambda>h.
     Option.bind (get_prev old h) (\<lambda>p.
     Option.bind (set_prev new p h) (\<lambda>h.
     Option.bind (get_prev new h) (\<lambda>p.
     set_next p new h)))))))"

definition list_replace_init :: "nat \<Rightarrow> nat \<Rightarrow> lheap \<Rightarrow> lheap option" where
  "list_replace_init old new h = Option.bind (list_replace old new h) (INIT_LIST_HEAD old)"

definition list_del_init :: "nat \<Rightarrow> lheap \<Rightarrow> lheap option" where
  "list_del_init entry h = Option.bind (list_del_entry entry h) (INIT_LIST_HEAD entry)"

definition list_move :: "nat \<Rightarrow> nat \<Rightarrow> lheap \<Rightarrow> lheap option" where
  "list_move list head h = Option.bind (list_del_entry list h) (list_add list head)"

definition list_move_tail :: "nat \<Rightarrow> nat \<Rightarrow> lheap \<Rightarrow> lheap option" where
  "list_move_tail list head h = Option.bind (list_del_entry list h) (list_add_tail list head)"

definition list_is_last :: "nat \<Rightarrow> nat \<Rightarrow> lheap \<Rightarrow> bool option" where
  "list_is_last list head h = map_option (\<lambda>n. n = head) (get_next list h)"

definition list_empty :: "nat \<Rightarrow> lheap \<Rightarrow> bool option" where
  "list_empty head h = map_option (\<lambda>n. n = head) (get_next head h)"

definition list_empty_careful :: "nat \<Rightarrow> lheap \<Rightarrow> bool option" where
  "list_empty_careful head h =
     Option.bind (get_next head h) (\<lambda>n.
       if n = head then map_option (\<lambda>p. n = p) (get_prev head h) else Some False)"

definition list_rotate_left :: "nat \<Rightarrow> lheap \<Rightarrow> lheap option" where
  "list_rotate_left head h =
     Option.bind (list_empty head h) (\<lambda>e.
       if e then Some h else Option.bind (get_next head h) (\<lambda>first. list_move_tail first head h))"

definition list_is_singular :: "nat \<Rightarrow> lheap \<Rightarrow> bool option" where
  "list_is_singular head h =
     Option.bind (list_empty head h) (\<lambda>e.
       if e then Some False
       else Option.bind (get_next head h) (\<lambda>n. map_option (\<lambda>p. n = p) (get_prev head h)))"

definition list_cut :: "nat \<Rightarrow> nat \<Rightarrow> nat \<Rightarrow> lheap \<Rightarrow> lheap option" where
  "list_cut list head entry h =
     Option.bind (get_next entry h) (\<lambda>new_first.
     Option.bind (get_next head h) (\<lambda>n.
     Option.bind (set_next list n h) (\<lambda>h.
     Option.bind (get_next list h) (\<lambda>n.
     Option.bind (set_prev n list h) (\<lambda>h.
     Option.bind (set_prev list entry h) (\<lambda>h.
     Option.bind (set_next entry list h) (\<lambda>h.
     Option.bind (set_next head new_first h) (\<lambda>h.
     set_prev new_first head h))))))))"

definition list_cut_position :: "nat \<Rightarrow> nat \<Rightarrow> nat \<Rightarrow> lheap \<Rightarrow> lheap option" where
  "list_cut_position list head entry h =
     Option.bind (list_empty head h) (\<lambda>e. if e then Some h else
     Option.bind (list_is_singular head h) (\<lambda>s.
     Option.bind (get_next head h) (\<lambda>n.
       if s \<and> n \<noteq> entry \<and> head \<noteq> entry then Some h
       else if entry = head then INIT_LIST_HEAD list h
       else list_cut list head entry h)))"

definition list_splice_between :: "nat \<Rightarrow> nat \<Rightarrow> nat \<Rightarrow> lheap \<Rightarrow> lheap option" where
  "list_splice_between list prev nxt h =
     Option.bind (get_next list h) (\<lambda>first.
     Option.bind (get_prev list h) (\<lambda>lst.
     Option.bind (set_prev first prev h) (\<lambda>h.
     Option.bind (set_next prev first h) (\<lambda>h.
     Option.bind (set_next lst nxt h) (\<lambda>h.
     set_prev nxt lst h)))))"

definition list_splice :: "nat \<Rightarrow> nat \<Rightarrow> lheap \<Rightarrow> lheap option" where
  "list_splice list head h =
     Option.bind (list_empty list h) (\<lambda>e.
       if e then Some h else Option.bind (get_next head h) (\<lambda>n. list_splice_between list head n h))"

definition list_splice_tail :: "nat \<Rightarrow> nat \<Rightarrow> lheap \<Rightarrow> lheap option" where
  "list_splice_tail list head h =
     Option.bind (list_empty list h) (\<lambda>e.
       if e then Some h else Option.bind (get_prev head h) (\<lambda>p. list_splice_between list p head h))"

definition list_splice_init :: "nat \<Rightarrow> nat \<Rightarrow> lheap \<Rightarrow> lheap option" where
  "list_splice_init list head h =
     Option.bind (list_empty list h) (\<lambda>e.
       if e then Some h
       else Option.bind (get_next head h) (\<lambda>n.
            Option.bind (list_splice_between list head n h) (INIT_LIST_HEAD list)))"

definition list_splice_tail_init :: "nat \<Rightarrow> nat \<Rightarrow> lheap \<Rightarrow> lheap option" where
  "list_splice_tail_init list head h =
     Option.bind (list_empty list h) (\<lambda>e.
       if e then Some h
       else Option.bind (get_prev head h) (\<lambda>p.
            Option.bind (list_splice_between list p head h) (INIT_LIST_HEAD list)))"

text \<open>
  The loops of \<^verbatim>\<open>list_for_each\<close> and \<^verbatim>\<open>list_for_each_prev\<close>, as the entries they visit, from the cursor \<open>pos\<close> on; a list that
  does not come back to its head is a loop that does not end.
\<close>

partial_function (option) list_walk :: "nat \<Rightarrow> nat \<Rightarrow> lheap \<Rightarrow> nat list option" where
  "list_walk pos head h =
     (if pos = head then Some []
      else Option.bind (get_next pos h) (\<lambda>n. Option.bind (list_walk n head h) (\<lambda>xs. Some (pos # xs))))"

definition list_for_each :: "nat \<Rightarrow> lheap \<Rightarrow> nat list option" where
  "list_for_each head h = Option.bind (get_next head h) (\<lambda>pos. list_walk pos head h)"

partial_function (option) list_walk_prev :: "nat \<Rightarrow> nat \<Rightarrow> lheap \<Rightarrow> nat list option" where
  "list_walk_prev pos head h =
     (if pos = head then Some []
      else Option.bind (get_prev pos h) (\<lambda>n. Option.bind (list_walk_prev n head h) (\<lambda>xs. Some (pos # xs))))"

definition list_for_each_prev :: "nat \<Rightarrow> lheap \<Rightarrow> nat list option" where
  "list_for_each_prev head h = Option.bind (get_prev head h) (\<lambda>pos. list_walk_prev pos head h)"

text \<open>\<^verbatim>\<open>list_for_each_safe\<close> with a body that changes the heap: the next entry is read before the body runs.\<close>

partial_function (option) list_walk_safe :: "(nat \<Rightarrow> lheap \<Rightarrow> lheap option) \<Rightarrow> nat \<Rightarrow> nat \<Rightarrow> nat \<Rightarrow> lheap \<Rightarrow> lheap option" where
  "list_walk_safe body pos n head h =
     (if pos = head then Some h
      else Option.bind (body pos h) (\<lambda>h. Option.bind (get_next n h) (\<lambda>n'. list_walk_safe body n n' head h)))"

definition list_for_each_safe :: "(nat \<Rightarrow> lheap \<Rightarrow> lheap option) \<Rightarrow> nat \<Rightarrow> lheap \<Rightarrow> lheap option" where
  "list_for_each_safe body head h =
     Option.bind (get_next head h) (\<lambda>pos. Option.bind (get_next pos h) (\<lambda>n. list_walk_safe body pos n head h))"

section \<open>Lists on the heap\<close>

text \<open>A segment from \<open>a\<close> through \<open>xs\<close> to \<open>b\<close>, linked both ways.\<close>

fun seg :: "lheap \<Rightarrow> nat \<Rightarrow> nat list \<Rightarrow> nat \<Rightarrow> bool" where
  "seg h a [] b \<longleftrightarrow> get_next a h = Some b \<and> get_prev b h = Some a"
| "seg h a (x # xs) b \<longleftrightarrow> get_next a h = Some x \<and> get_prev x h = Some a \<and> seg h x xs b"

definition dlist :: "lheap \<Rightarrow> nat \<Rightarrow> nat list \<Rightarrow> bool" where
  "dlist h head xs \<longleftrightarrow> distinct (head # xs) \<and> seg h head xs head"

text \<open>Two heaps agree outside a set of nodes.\<close>

definition same_outside :: "nat set \<Rightarrow> lheap \<Rightarrow> lheap \<Rightarrow> bool" where
  "same_outside S h h' \<longleftrightarrow> (\<forall>p. p \<notin> S \<longrightarrow> h' p = h p)"

lemma get_set [simp]:
  "set_next p v h = Some h' \<Longrightarrow> get_next q h' = (if q = p then Some v else get_next q h)"
  "set_next p v h = Some h' \<Longrightarrow> get_prev q h' = get_prev q h"
  "set_prev p v h = Some h' \<Longrightarrow> get_prev q h' = (if q = p then Some v else get_prev q h)"
  "set_prev p v h = Some h' \<Longrightarrow> get_next q h' = get_next q h"
  by (auto simp: get_next_def get_prev_def set_next_def set_prev_def)

lemma seg_append: "seg h a (xs @ y # ys) b \<longleftrightarrow> seg h a xs y \<and> seg h y ys b"
  by (induction xs arbitrary: a) auto

lemma seg_cong:
  assumes "\<And>p. p \<in> insert a (set xs) \<Longrightarrow> get_next p h' = get_next p h"
    and "\<And>p. p \<in> insert b (set xs) \<Longrightarrow> get_prev p h' = get_prev p h"
  shows "seg h' a xs b \<longleftrightarrow> seg h a xs b"
  using assms by (induction xs arbitrary: a) auto

section \<open>Effects\<close>

lemmas heap_defs = get_next_def get_prev_def set_next_def set_prev_def same_outside_def

lemma set_ok [simp]:
  "set_next p v h = None \<longleftrightarrow> h p = None" "set_prev p v h = None \<longleftrightarrow> h p = None"
  by (simp_all add: set_next_def set_prev_def)

lemma get_some: "get_next p h = Some n \<Longrightarrow> h p \<noteq> None" "get_prev p h = Some n \<Longrightarrow> h p \<noteq> None"
  by (auto simp: get_next_def get_prev_def)

lemma list_add_between_effect:
  assumes "h new \<noteq> None" "h prev \<noteq> None" "h nxt \<noteq> None"
  shows "\<exists>h'. list_add_between new prev nxt h = Some h' \<and> same_outside {new, prev, nxt} h h'
    \<and> (\<forall>q. get_next q h' = (if q = prev then Some new else if q = new then Some nxt else get_next q h))
    \<and> (\<forall>q. get_prev q h' = (if q = new then Some prev else if q = nxt then Some new else get_prev q h))"
  using assms by (auto simp: list_add_between_def heap_defs)

lemma list_del_between_effect:
  assumes "h prev \<noteq> None" "h nxt \<noteq> None"
  shows "\<exists>h'. list_del_between prev nxt h = Some h' \<and> same_outside {prev, nxt} h h'
    \<and> (\<forall>q. get_next q h' = (if q = prev then Some nxt else get_next q h))
    \<and> (\<forall>q. get_prev q h' = (if q = nxt then Some prev else get_prev q h))"
  using assms by (auto simp: list_del_between_def heap_defs)

lemma INIT_LIST_HEAD_effect:
  assumes "h p \<noteq> None"
  shows "\<exists>h'. INIT_LIST_HEAD p h = Some h' \<and> same_outside {p} h h'
    \<and> (\<forall>q. get_next q h' = (if q = p then Some p else get_next q h))
    \<and> (\<forall>q. get_prev q h' = (if q = p then Some p else get_prev q h))"
  using assms by (auto simp: INIT_LIST_HEAD_def heap_defs)

lemma list_splice_between_effect:
  assumes "h prev \<noteq> None" "h nxt \<noteq> None" "get_next list h = Some first" "get_prev list h = Some lst" "h first \<noteq> None" "h lst \<noteq> None"
  shows "\<exists>h'. list_splice_between list prev nxt h = Some h' \<and> same_outside {prev, nxt, first, lst} h h'
    \<and> (\<forall>q. get_next q h' = (if q = lst then Some nxt else if q = prev then Some first else get_next q h))
    \<and> (\<forall>q. get_prev q h' = (if q = nxt then Some lst else if q = first then Some prev else get_prev q h))"
  using assms by (auto simp: list_splice_between_def heap_defs)

text \<open>The first and the last entry of a segment.\<close>

lemma seg_first: "seg h a xs b \<Longrightarrow> get_next a h = Some (hd (xs @ [b]))"
  by (cases xs) auto

lemma seg_last: "seg h a xs b \<Longrightarrow> get_prev b h = Some (last (a # xs))"
  by (induction xs arbitrary: a) auto

lemma seg_nodes: "seg h a xs b \<Longrightarrow> h a \<noteq> None \<and> h b \<noteq> None \<and> (\<forall>x\<in>set xs. h x \<noteq> None)"
  by (induction xs arbitrary: a) (auto dest: get_some)

lemma dlist_nodes: "dlist h head xs \<Longrightarrow> p \<in> insert head (set xs) \<Longrightarrow> h p \<noteq> None"
  using seg_nodes by (fastforce simp: dlist_def)

text \<open>Insertion between two neighbours, and removal of an entry.\<close>

lemma seg_retarget:
  assumes "seg h a xs b" "get_next (last (a # xs)) h' = Some b'" "get_prev b' h' = Some (last (a # xs))"
    and "\<And>p. p \<in> set (butlast (a # xs)) \<Longrightarrow> get_next p h' = get_next p h"
    and "\<And>p. p \<in> set xs \<Longrightarrow> get_prev p h' = get_prev p h"
  shows "seg h' a xs b'"
  using assms by (induction xs arbitrary: a) (auto split: if_splits)

lemma seg_restart:
  assumes "seg h a xs b" "get_next a' h' = Some (hd (xs @ [b]))" "get_prev (hd (xs @ [b])) h' = Some a'"
    and "\<And>p. p \<in> set xs \<Longrightarrow> get_next p h' = get_next p h"
    and "\<And>p. p \<in> set (tl (xs @ [b])) \<Longrightarrow> get_prev p h' = get_prev p h"
  shows "seg h' a' xs b"
proof (cases xs)
  case (Cons x xs')
  then have "seg h' x xs' b \<longleftrightarrow> seg h x xs' b" using assms(4,5) by (intro seg_cong) auto
  then show ?thesis using Cons assms(1-3) by simp
qed (use assms in simp)

lemma in_butlast_not_last: "distinct xs \<Longrightarrow> p \<in> set (butlast xs) \<Longrightarrow> p \<noteq> last xs"
  by (cases xs rule: rev_cases) auto

lemma in_tl_not_hd: "distinct xs \<Longrightarrow> p \<in> set (tl xs) \<Longrightarrow> p \<noteq> hd xs"
  by (cases xs) auto

text \<open>
  The neighbours of a place in a list: the entry before it and the entry behind it, where the head stands on both ends.
\<close>

abbreviation before :: "nat \<Rightarrow> nat list \<Rightarrow> nat" where "before head ys \<equiv> last (head # ys)"
abbreviation behind :: "nat \<Rightarrow> nat list \<Rightarrow> nat" where "behind head zs \<equiv> hd (zs @ [head])"

lemma before_in: "before head ys \<in> insert head (set ys)" by auto

lemma behind_in: "behind head zs \<in> insert head (set zs)" by (cases zs) auto

lemma neighbours_in: "{before head ys, behind head zs} \<subseteq> set (head # ys @ zs)"
  using before_in [of head ys] behind_in [of zs head] by (simp only: set_simps set_append) blast

lemma same_outside_mono: "same_outside A h h' \<Longrightarrow> A \<subseteq> B \<Longrightarrow> same_outside B h h'"
  by (auto simp: same_outside_def)

lemma seg_prefix: "seg h a (ys @ zs) b \<Longrightarrow> \<exists>c. seg h a ys c"
  by (cases zs) (auto simp: seg_append)

lemma seg_suffix: "seg h a (ys @ zs) b \<Longrightarrow> \<exists>c. seg h c zs b"
  by (cases ys rule: rev_cases) (auto simp: seg_append)

lemma butlast_in: "p \<in> set (butlast (head # ys)) \<Longrightarrow> p \<in> insert head (set ys)"
  by (drule in_set_butlastD) simp

lemma tl_in: "p \<in> set (tl (zs @ [head])) \<Longrightarrow> p \<in> insert head (set zs)"
  by (cases zs) auto

lemma dlist_split: "dlist h head (ys @ e # zs) \<longleftrightarrow>
    distinct (head # ys @ e # zs) \<and> seg h head ys e \<and> seg h e zs head"
  by (auto simp: dlist_def seg_append)

lemma dlist_split_neighbours:
  assumes "dlist h head (ys @ e # zs)"
  shows "get_prev e h = Some (before head ys)" "get_next e h = Some (behind head zs)"
  using assms seg_last seg_first by (auto simp: dlist_split)

lemma add_between_seg:
  assumes "dlist h head (ys @ zs)" "h new \<noteq> None" "new \<notin> set (head # ys @ zs)"
  shows "\<exists>h'. list_add_between new (before head ys) (behind head zs) h = Some h'
    \<and> dlist h' head (ys @ new # zs) \<and> same_outside (insert new (set (head # ys @ zs))) h h'"
proof -
  let ?p = "before head ys" and ?n = "behind head zs"
  have d: "distinct (head # ys @ zs)" "seg h head (ys @ zs) head" using assms(1) by (auto simp: dlist_def)
  have nodes: "h ?p \<noteq> None" "h ?n \<noteq> None" using dlist_nodes [OF assms(1)] before_in [of head ys] behind_in [of zs head] by auto
  from list_add_between_effect [OF assms(2) nodes] obtain h' where
    h': "list_add_between new ?p ?n h = Some h'" "same_outside {new, ?p, ?n} h h'"
    and nx: "\<And>q. get_next q h' = (if q = ?p then Some new else if q = new then Some ?n else get_next q h)"
    and pv: "\<And>q. get_prev q h' = (if q = new then Some ?p else if q = ?n then Some new else get_prev q h)" by blast
  obtain a b where sb: "seg h head ys b" and sa: "seg h a zs head"
    using seg_prefix [OF d(2)] seg_suffix [OF d(2)] by blast
  have new: "new \<noteq> ?p" "new \<noteq> ?n" using assms(3) before_in [of head ys] behind_in [of zs head] by auto
  have "seg h' head ys new"
  proof (rule seg_retarget [OF sb])
    show "get_next p h' = get_next p h" if "p \<in> set (butlast (head # ys))" for p
      using that nx [of p] in_butlast_not_last [OF _ that] d(1) assms(3) butlast_in [OF that] by auto
    show "get_prev p h' = get_prev p h" if "p \<in> set ys" for p
      using that pv [of p] d(1) assms(3) behind_in [of zs head] by auto
  qed (simp_all add: nx pv)
  moreover have "seg h' new zs head"
  proof (rule seg_restart [OF sa])
    show "get_next p h' = get_next p h" if "p \<in> set zs" for p
      using that nx [of p] d(1) assms(3) before_in [of head ys] by auto
    show "get_prev p h' = get_prev p h" if "p \<in> set (tl (zs @ [head]))" for p
      using that pv [of p] in_tl_not_hd [OF _ that] d(1) assms(3) tl_in [OF that] by auto
  qed (use new in \<open>simp_all add: nx pv\<close>)
  ultimately have "dlist h' head (ys @ new # zs)" using d(1) assms(3) by (auto simp: dlist_split)
  moreover have "same_outside (insert new (set (head # ys @ zs))) h h'"
    by (rule same_outside_mono [OF h'(2)]) (use neighbours_in [of head ys zs] in auto)
  ultimately show ?thesis using h'(1) by blast
qed

lemma del_entry_seg:
  assumes "dlist h head (ys @ e # zs)"
  shows "\<exists>h'. list_del_entry e h = Some h' \<and> dlist h' head (ys @ zs) \<and> same_outside (set (head # ys @ zs)) h h'"
proof -
  let ?p = "before head ys" and ?n = "behind head zs"
  have d: "distinct (head # ys @ e # zs)" "seg h head ys e" "seg h e zs head" using assms by (auto simp: dlist_split)
  have nodes: "h ?p \<noteq> None" "h ?n \<noteq> None" using dlist_nodes [OF assms] before_in [of head ys] behind_in [of zs head] by auto
  from list_del_between_effect [OF nodes] obtain h' where
    h': "list_del_between ?p ?n h = Some h'" "same_outside {?p, ?n} h h'"
    and nx: "\<And>q. get_next q h' = (if q = ?p then Some ?n else get_next q h)"
    and pv: "\<And>q. get_prev q h' = (if q = ?n then Some ?p else get_prev q h)" by blast
  have left: "seg h' head ys ?n"
  proof (rule seg_retarget [OF d(2)])
    show "get_next p h' = get_next p h" if "p \<in> set (butlast (head # ys))" for p
      using nx [of p] in_butlast_not_last [OF _ that] d(1) by auto
    show "get_prev p h' = get_prev p h" if "p \<in> set ys" for p
      using that pv [of p] d(1) behind_in [of zs head] by auto
  qed (simp_all add: nx pv)
  have "dlist h' head (ys @ zs)"
  proof (cases zs)
    case (Cons z zs')
    have "seg h' z zs' head \<longleftrightarrow> seg h z zs' head"
      by (rule seg_cong; subst nx pv) (use d(1) Cons before_in [of head ys] in auto)
    then show ?thesis using left d Cons by (simp add: dlist_split)
  qed (use left d in \<open>simp add: dlist_def\<close>)
  moreover have "same_outside (set (head # ys @ zs)) h h'"
    by (rule same_outside_mono [OF h'(2)]) (use neighbours_in [of head ys zs] in auto)
  ultimately show ?thesis using h'(1) dlist_split_neighbours [OF assms] by (simp add: list_del_entry_def)
qed

section \<open>What the operations do to a list\<close>

lemma dlist_head:
  assumes "dlist h head xs"
  shows "get_next head h = Some (behind head xs)" "get_prev head h = Some (before head xs)"
  using assms seg_first seg_last by (auto simp: dlist_def)

lemma dlist_frame:
  assumes "dlist h head xs" "same_outside S h h'" "S \<inter> set (head # xs) = {}"
  shows "dlist h' head xs"
proof -
  have "h' p = h p" if "p \<in> set (head # xs)" for p using assms(2,3) that by (auto simp: same_outside_def)
  then have "seg h' head xs head \<longleftrightarrow> seg h head xs head"
    by (intro seg_cong) (auto simp: get_next_def get_prev_def)
  then show ?thesis using assms(1) by (simp add: dlist_def)
qed

lemma same_outside_trans:
  "same_outside A h h1 \<Longrightarrow> same_outside B h1 h2 \<Longrightarrow> same_outside (A \<union> B) h h2"
  by (simp add: same_outside_def)

lemma INIT_LIST_HEAD_list:
  assumes "h p \<noteq> None"
  shows "\<exists>h'. INIT_LIST_HEAD p h = Some h' \<and> dlist h' p [] \<and> same_outside {p} h h'"
  using INIT_LIST_HEAD_effect [of h p, OF assms] by (auto simp: dlist_def)

lemma list_add_list:
  assumes "dlist h head xs" "h new \<noteq> None" "new \<notin> set (head # xs)"
  shows "\<exists>h'. list_add new head h = Some h' \<and> dlist h' head (new # xs) \<and> same_outside (set (new # head # xs)) h h'"
  using add_between_seg [of h head "[]" xs new] assms dlist_head(1) [OF assms(1)]
  by (simp add: list_add_def)

lemma list_add_tail_list:
  assumes "dlist h head xs" "h new \<noteq> None" "new \<notin> set (head # xs)"
  shows "\<exists>h'. list_add_tail new head h = Some h' \<and> dlist h' head (xs @ [new]) \<and> same_outside (set (new # head # xs)) h h'"
  using add_between_seg [of h head xs "[]" new] assms dlist_head(2) [OF assms(1)]
  by (simp add: list_add_tail_def)

lemma list_del_list:
  assumes "dlist h head (ys @ e # zs)"
  shows "\<exists>h'. list_del e h = Some h' \<and> dlist h' head (ys @ zs) \<and> same_outside (set (head # ys @ e # zs)) h h'
    \<and> h' e = Some \<lparr>lh_next = LIST_POISON1, lh_prev = LIST_POISON2\<rparr>"
proof -
  from del_entry_seg [OF assms] obtain h1 where h1: "list_del_entry e h = Some h1" "dlist h1 head (ys @ zs)"
    "same_outside (set (head # ys @ zs)) h h1" by blast
  have e: "e \<notin> set (head # ys @ zs)" using assms by (auto simp: dlist_def)
  then have "h1 e = h e" using h1(3) by (simp add: same_outside_def)
  moreover have "h e \<noteq> None" using dlist_nodes [OF assms] by simp
  ultimately obtain n where n: "h1 e = Some n" by auto
  let ?h' = "h1(e \<mapsto> \<lparr>lh_next = LIST_POISON1, lh_prev = LIST_POISON2\<rparr>)"
  have so: "same_outside {e} h1 ?h'" by (simp add: same_outside_def)
  have "list_del e h = Some ?h'" using h1(1) n by (cases n) (simp add: list_del_def set_next_def set_prev_def)
  moreover have "dlist ?h' head (ys @ zs)" by (rule dlist_frame [OF h1(2) so]) (use e in auto)
  moreover have "same_outside (set (head # ys @ e # zs)) h ?h'"
    by (rule same_outside_mono [OF same_outside_trans [OF h1(3) so]]) auto
  ultimately show ?thesis by simp
qed

lemma del_entry_then:
  assumes "dlist h head (ys @ e # zs)"
  obtains h1 where "list_del_entry e h = Some h1" "dlist h1 head (ys @ zs)" "same_outside (set (head # ys @ zs)) h h1"
    "h1 e \<noteq> None" "e \<notin> set (head # ys @ zs)"
proof -
  from del_entry_seg [OF assms] obtain h1 where h1: "list_del_entry e h = Some h1" "dlist h1 head (ys @ zs)"
    "same_outside (set (head # ys @ zs)) h h1" by blast
  have e: "e \<notin> set (head # ys @ zs)" using assms by (auto simp: dlist_def)
  then have "h1 e = h e" using h1(3) by (simp add: same_outside_def)
  then show thesis using that [OF h1] e dlist_nodes [OF assms, of e] by simp
qed

lemma list_del_init_list:
  assumes "dlist h head (ys @ e # zs)"
  shows "\<exists>h'. list_del_init e h = Some h' \<and> dlist h' head (ys @ zs) \<and> dlist h' e [] \<and> same_outside (set (head # ys @ e # zs)) h h'"
proof (rule del_entry_then [OF assms])
  fix h1 assume h1: "list_del_entry e h = Some h1" "dlist h1 head (ys @ zs)" "same_outside (set (head # ys @ zs)) h h1"
    "h1 e \<noteq> None" "e \<notin> set (head # ys @ zs)"
  from INIT_LIST_HEAD_list [of h1 e, OF h1(4)] obtain h' where
    h': "INIT_LIST_HEAD e h1 = Some h'" "dlist h' e []" "same_outside {e} h1 h'" by blast
  have "dlist h' head (ys @ zs)" by (rule dlist_frame [OF h1(2) h'(3)]) (use h1(5) in auto)
  moreover have "same_outside (set (head # ys @ e # zs)) h h'"
    by (rule same_outside_mono [OF same_outside_trans [OF h1(3) h'(3)]]) auto
  ultimately show ?thesis using h1(1) h' by (simp add: list_del_init_def)
qed

text \<open>Moves go to a list that may be the one the entry is taken from, or another one.\<close>

lemma list_move_same:
  assumes "dlist h head (ys @ e # zs)"
  shows "\<exists>h'. list_move_tail e head h = Some h' \<and> dlist h' head (ys @ zs @ [e]) \<and> same_outside (set (head # ys @ e # zs)) h h'"
proof (rule del_entry_then [OF assms])
  fix h1 assume h1: "list_del_entry e h = Some h1" "dlist h1 head (ys @ zs)" "same_outside (set (head # ys @ zs)) h h1"
    "h1 e \<noteq> None" "e \<notin> set (head # ys @ zs)"
  from list_add_tail_list [OF h1(2,4,5)] obtain h' where
    h': "list_add_tail e head h1 = Some h'" "dlist h' head ((ys @ zs) @ [e])" "same_outside (set (e # head # ys @ zs)) h1 h'" by blast
  have "same_outside (set (head # ys @ e # zs)) h h'"
    by (rule same_outside_mono [OF same_outside_trans [OF h1(3) h'(3)]]) auto
  with h' h1(1) show ?thesis by (simp add: list_move_tail_def)
qed

lemma list_move_other:
  assumes "dlist h head (ys @ e # zs)" "dlist h head' xs" "set (head # ys @ e # zs) \<inter> set (head' # xs) = {}"
  shows "\<exists>h'. list_move_tail e head' h = Some h' \<and> dlist h' head (ys @ zs) \<and> dlist h' head' (xs @ [e])
    \<and> same_outside (set (head # ys @ e # zs) \<union> set (head' # xs)) h h'"
    "\<exists>h'. list_move e head' h = Some h' \<and> dlist h' head (ys @ zs) \<and> dlist h' head' (e # xs)
    \<and> same_outside (set (head # ys @ e # zs) \<union> set (head' # xs)) h h'"
proof -
  obtain h1 where h1: "list_del_entry e h = Some h1" "dlist h1 head (ys @ zs)" "same_outside (set (head # ys @ zs)) h h1"
    "h1 e \<noteq> None" "e \<notin> set (head # ys @ zs)" by (rule del_entry_then [OF assms(1)])
  have d': "dlist h1 head' xs" by (rule dlist_frame [OF assms(2) h1(3)]) (use assms(3) in auto)
  have e: "e \<notin> set (head' # xs)" using assms(3) by auto
  have frame: "dlist h' head (ys @ zs) \<and> same_outside (set (head # ys @ e # zs) \<union> set (head' # xs)) h h'"
    if "same_outside (set (e # head' # xs)) h1 h'" for h'
  proof
    show "dlist h' head (ys @ zs)" by (rule dlist_frame [OF h1(2) that]) (use assms(3) h1(5) in auto)
    show "same_outside (set (head # ys @ e # zs) \<union> set (head' # xs)) h h'"
      by (rule same_outside_mono [OF same_outside_trans [OF h1(3) that]]) auto
  qed
  show "\<exists>h'. list_move_tail e head' h = Some h' \<and> dlist h' head (ys @ zs) \<and> dlist h' head' (xs @ [e])
    \<and> same_outside (set (head # ys @ e # zs) \<union> set (head' # xs)) h h'"
    using list_add_tail_list [OF d' h1(4) e] frame h1(1) by (auto simp: list_move_tail_def)
  show "\<exists>h'. list_move e head' h = Some h' \<and> dlist h' head (ys @ zs) \<and> dlist h' head' (e # xs)
    \<and> same_outside (set (head # ys @ e # zs) \<union> set (head' # xs)) h h'"
    using list_add_list [OF d' h1(4) e] frame h1(1) by (auto simp: list_move_def)
qed

lemma list_empty_list: "dlist h head xs \<Longrightarrow> list_empty head h = Some (xs = [])"
  using dlist_head(1) [of h head xs] by (cases xs) (auto simp: list_empty_def dlist_def)

lemma list_rotate_left_list:
  assumes "dlist h head xs"
  shows "\<exists>h'. list_rotate_left head h = Some h' \<and> dlist h' head (rotate1 xs) \<and> same_outside (set (head # xs)) h h'"
proof (cases xs)
  case Nil
  then show ?thesis using assms list_empty_list [OF assms] by (simp add: list_rotate_left_def same_outside_def)
next
  case (Cons x xs')
  then have "get_next head h = Some x" using dlist_head(1) [OF assms] by simp
  then show ?thesis using list_move_same [of h head "[]" x xs'] assms Cons list_empty_list [OF assms]
    by (simp add: list_rotate_left_def)
qed

lemma splice_segs:
  assumes "seg h head ys (hd xs)" "seg h (hd xs) (tl xs) (behind head zs)" "seg h (last xs) zs head" "xs \<noteq> []" "distinct (head # ys @ xs @ zs)"
  shows "dlist h head (ys @ xs @ zs)"
proof -
  obtain f xs' where xs: "xs = f # xs'" using assms(4) by (cases xs) auto
  have "seg h f (xs' @ zs) head"
  proof (cases zs)
    case Nil
    then show ?thesis using assms(2) xs by simp
  next
    case (Cons z zs')
    then show ?thesis using assms(2,3) xs by (simp add: seg_append)
  qed
  then show ?thesis using assms(1,5) xs by (simp add: dlist_split)
qed

text \<open>Splicing a list between two neighbours of another one; then its head is made an empty list.\<close>

lemma splice_between_list:
  assumes l: "dlist h list xs" "xs \<noteq> []" and h: "dlist h head (ys @ zs)" and disj: "set (list # xs) \<inter> set (head # ys @ zs) = {}"
  shows "\<exists>h'. list_splice_between list (before head ys) (behind head zs) h = Some h'
    \<and> dlist h' head (ys @ xs @ zs) \<and> h' list = h list \<and> same_outside (set (list # xs) \<union> set (head # ys @ zs)) h h'"
proof -
  let ?p = "before head ys" and ?n = "behind head zs" and ?f = "hd xs" and ?l = "last xs"
  have ends: "get_next list h = Some ?f" "get_prev list h = Some ?l" "?f \<in> set xs" "?l \<in> set xs"
    using dlist_head [OF l(1)] l(2) by auto
  have dx: "distinct (list # xs)" "distinct (head # ys @ zs)" using l h by (auto simp: dlist_def)
  have sx: "\<exists>xs'. xs = ?f # xs' \<and> seg h ?f xs' list"
    using l by (cases xs) (auto simp: dlist_def)
  then obtain xs' where xs': "xs = ?f # xs'" "seg h ?f xs' list" by blast
  obtain a b where sb: "seg h head ys b" and sa: "seg h a zs head"
    using seg_prefix seg_suffix h by (meson dlist_def)
  have nodes: "h ?p \<noteq> None" "h ?n \<noteq> None" "h ?f \<noteq> None" "h ?l \<noteq> None"
    using dlist_nodes [OF h] dlist_nodes [OF l(1)] before_in [of head ys] behind_in [of zs head] ends(3,4) by auto
  from list_splice_between_effect [OF nodes(1,2) ends(1,2) nodes(3,4)] obtain h1 where
    h1: "list_splice_between list ?p ?n h = Some h1" "same_outside {?p, ?n, ?f, ?l} h h1"
    and nx: "\<And>q. get_next q h1 = (if q = ?l then Some ?n else if q = ?p then Some ?f else get_next q h)"
    and pv: "\<And>q. get_prev q h1 = (if q = ?n then Some ?l else if q = ?f then Some ?p else get_prev q h)" by blast
  have pn: "?p \<notin> set (list # xs)" "?n \<notin> set (list # xs)"
    using disj neighbours_in [of head ys zs] by auto
  have "seg h1 head ys ?f"
  proof (rule seg_retarget [OF sb])
    show "get_next p h1 = get_next p h" if "p \<in> set (butlast (head # ys))" for p
      using nx [of p] in_butlast_not_last [OF _ that] butlast_in [OF that] dx disj ends(4) by auto
    show "get_prev p h1 = get_prev p h" if "p \<in> set ys" for p
      using that pv [of p] dx disj ends(3) behind_in [of zs head] by auto
  qed (use pn ends in \<open>auto simp: nx pv\<close>)
  moreover have "seg h1 ?f xs' ?n"
  proof (rule seg_retarget [OF xs'(2)])
    have last: "last (?f # xs') = ?l" using xs'(1) by metis
    then show "get_next (last (?f # xs')) h1 = Some ?n" "get_prev ?n h1 = Some (last (?f # xs'))" by (simp_all add: nx pv)
    show "get_next p h1 = get_next p h" if "p \<in> set (butlast (?f # xs'))" for p
    proof -
      have "p \<in> set (butlast xs)" using that xs'(1) by simp
      then have "p \<noteq> ?l" "p \<in> set xs" using in_butlast_not_last [of xs p] dx(1) in_set_butlastD [of p xs] by auto
      then show ?thesis using nx [of p] pn by auto
    qed
    show "get_prev p h1 = get_prev p h" if "p \<in> set xs'" for p
    proof -
      have "p \<noteq> ?f" "p \<in> set xs" using dx(1) xs'(1) that by (metis distinct.simps(2), metis list.set_intros(2))
      then show ?thesis using pv [of p] pn by auto
    qed
  qed
  moreover have "seg h1 ?l zs head"
  proof (rule seg_restart [OF sa])
    show "get_next p h1 = get_next p h" if "p \<in> set zs" for p
      using that nx [of p] dx disj ends(4) before_in [of head ys] by auto
    show "get_prev p h1 = get_prev p h" if "p \<in> set (tl (zs @ [head]))" for p
      using pv [of p] in_tl_not_hd [OF _ that] tl_in [OF that] dx disj ends(3) by auto
  qed (simp_all add: nx pv)
  ultimately have whole: "dlist h1 head (ys @ xs @ zs)"
    by (intro splice_segs) (use dx disj l(2) xs'(1) in \<open>auto, metis list.sel(3)\<close>)
  have so: "same_outside (set (list # xs) \<union> set (head # ys @ zs)) h h1"
    by (rule same_outside_mono [OF h1(2)]) (use neighbours_in [of head ys zs] ends(3,4) in auto)
  have "list \<notin> {?p, ?n, ?f, ?l}" using pn dx(1) ends by auto
  then have "h1 list = h list" using h1(2) by (simp add: same_outside_def)
  with h1(1) whole so show ?thesis by blast
qed

lemma splice_init_list:
  assumes l: "dlist h list xs" "xs \<noteq> []" and h: "dlist h head (ys @ zs)" and disj: "set (list # xs) \<inter> set (head # ys @ zs) = {}"
  shows "\<exists>h'. Option.bind (list_splice_between list (before head ys) (behind head zs) h) (INIT_LIST_HEAD list) = Some h'
    \<and> dlist h' head (ys @ xs @ zs) \<and> dlist h' list [] \<and> same_outside (set (list # xs) \<union> set (head # ys @ zs)) h h'"
proof -
  from splice_between_list [OF assms] obtain h1 where h1: "list_splice_between list (before head ys) (behind head zs) h = Some h1"
    "dlist h1 head (ys @ xs @ zs)" "h1 list = h list" "same_outside (set (list # xs) \<union> set (head # ys @ zs)) h h1" by blast
  then have "h1 list \<noteq> None" using dlist_nodes [OF l(1)] by simp
  from INIT_LIST_HEAD_list [of h1 list, OF this] obtain h' where
    h': "INIT_LIST_HEAD list h1 = Some h'" "dlist h' list []" "same_outside {list} h1 h'" by blast
  have "dlist h' head (ys @ xs @ zs)" by (rule dlist_frame [OF h1(2) h'(3)]) (use l disj in \<open>auto simp: dlist_def\<close>)
  moreover have "same_outside (set (list # xs) \<union> set (head # ys @ zs)) h h'"
    by (rule same_outside_mono [OF same_outside_trans [OF h1(4) h'(3)]]) auto
  ultimately show ?thesis using h1(1) h' by simp
qed

lemma list_splice_init_list:
  assumes "dlist h list xs" "dlist h head ys" "set (list # xs) \<inter> set (head # ys) = {}"
  shows "\<exists>h'. list_splice_init list head h = Some h' \<and> dlist h' head (xs @ ys) \<and> dlist h' list []
      \<and> same_outside (set (list # xs) \<union> set (head # ys)) h h'"
    "\<exists>h'. list_splice_tail_init list head h = Some h' \<and> dlist h' head (ys @ xs) \<and> dlist h' list []
      \<and> same_outside (set (list # xs) \<union> set (head # ys)) h h'"
proof -
  note e = list_empty_list [OF assms(1)] and d = dlist_head [OF assms(2)]
  show "\<exists>h'. list_splice_init list head h = Some h' \<and> dlist h' head (xs @ ys) \<and> dlist h' list []
      \<and> same_outside (set (list # xs) \<union> set (head # ys)) h h'"
    using e d assms splice_init_list [of h list xs head "[]" ys]
    by (cases "xs = []") (simp_all add: list_splice_init_def same_outside_def)
  show "\<exists>h'. list_splice_tail_init list head h = Some h' \<and> dlist h' head (ys @ xs) \<and> dlist h' list []
      \<and> same_outside (set (list # xs) \<union> set (head # ys)) h h'"
    using e d assms splice_init_list [of h list xs head ys "[]"]
    by (cases "xs = []") (simp_all add: list_splice_tail_init_def same_outside_def)
qed

section \<open>Walking over a list\<close>

lemma list_walk_seg: "seg h a xs head \<Longrightarrow> head \<notin> set xs \<Longrightarrow> list_walk (behind head xs) head h = Some xs"
proof (induction xs arbitrary: a)
  case (Cons x xs)
  then have "seg h x xs head" "get_next x h = Some (behind head xs)" using seg_first [of h x xs head] by auto
  then show ?case using Cons by (simp add: list_walk.simps [of x])
qed (simp add: list_walk.simps)

lemma list_for_each_list: "dlist h head xs \<Longrightarrow> list_for_each head h = Some xs"
  using list_walk_seg [of h head xs head] dlist_head(1) [of h head xs] by (simp add: list_for_each_def dlist_def)

lemma list_walk_prev_seg: "seg h head xs b \<Longrightarrow> head \<notin> set xs \<Longrightarrow> list_walk_prev (before head xs) head h = Some (rev xs)"
proof (induction xs arbitrary: b rule: rev_induct)
  case (snoc x xs)
  then have s: "seg h head xs x" by (simp add: seg_append)
  then have "get_prev x h = Some (before head xs)" by (rule seg_last)
  moreover have "list_walk_prev (before head xs) head h = Some (rev xs)" using snoc s by simp
  ultimately show ?case using snoc.prems by (simp add: list_walk_prev.simps [of x])
qed (simp add: list_walk_prev.simps)

lemma list_for_each_prev_list: "dlist h head xs \<Longrightarrow> list_for_each_prev head h = Some (rev xs)"
  using list_walk_prev_seg [of h head xs head] dlist_head(2) [of h head xs] by (simp add: list_for_each_prev_def dlist_def)

text \<open>The safe loop may delete the entry it is at: with \<^verbatim>\<open>list_del\<close> as its body it empties the list.\<close>

lemma list_walk_safe_del:
  assumes "dlist h head xs"
  shows "\<exists>h'. Option.bind (get_next (behind head xs) h) (\<lambda>n. list_walk_safe list_del (behind head xs) n head h) = Some h'
    \<and> dlist h' head [] \<and> same_outside (set (head # xs)) h h'"
  using assms
proof (induction xs arbitrary: h)
  case Nil
  then show ?case using dlist_head(1) [OF Nil] by (simp add: list_walk_safe.simps same_outside_def)
next
  case (Cons x xs)
  from list_del_list [of h head "[]" x xs] Cons.prems obtain h1 where
    h1: "list_del x h = Some h1" "dlist h1 head xs" "same_outside (set (head # x # xs)) h h1" by auto
  have n: "get_next x h = Some (behind head xs)" using dlist_split_neighbours(2) [of h head "[]" x xs] Cons.prems by simp
  have x: "x \<noteq> head" using Cons.prems by (auto simp: dlist_def)
  from Cons.IH [OF h1(2)] obtain h' where
    h': "Option.bind (get_next (behind head xs) h1) (\<lambda>n. list_walk_safe list_del (behind head xs) n head h1) = Some h'"
    "dlist h' head []" "same_outside (set (head # xs)) h1 h'" by blast
  have "same_outside (set (head # x # xs)) h h'"
    by (rule same_outside_mono [OF same_outside_trans [OF h1(3) h'(3)]]) auto
  then show ?case using h' h1(1) n x by (simp add: list_walk_safe.simps [of _ x])
qed

section \<open>A heap of lists\<close>

text \<open>
  The program keeps several lists; \<open>L\<close> maps the head of each to its entries. No node is in two of them.
\<close>

type_synonym lists = "nat \<Rightarrow> nat list option"

definition lists_ok :: "nat set \<Rightarrow> lists \<Rightarrow> lheap \<Rightarrow> bool" where
  "lists_ok D L h \<longleftrightarrow> dom h = D \<and> (\<forall>a xs. L a = Some xs \<longrightarrow> dlist h a xs)
     \<and> (\<forall>a b xs ys. L a = Some xs \<longrightarrow> L b = Some ys \<longrightarrow> a \<noteq> b \<longrightarrow> set (a # xs) \<inter> set (b # ys) = {})"

definition free_node :: "nat set \<Rightarrow> lists \<Rightarrow> nat \<Rightarrow> bool" where
  "free_node D L p \<longleftrightarrow> p \<in> D \<and> (\<forall>a xs. L a = Some xs \<longrightarrow> p \<notin> set (a # xs))"

datatype list_cmd =
    C_init nat | C_add nat nat | C_add_tail nat nat | C_del nat nat | C_del_init nat nat
  | C_move nat nat nat | C_move_tail nat nat nat | C_rotate nat | C_splice nat nat | C_splice_tail nat nat

text \<open>The commands on the heap; the head an entry is taken from is not an argument of the code.\<close>

fun list_exec :: "list_cmd \<Rightarrow> lheap \<Rightarrow> lheap option" where
  "list_exec (C_init p) = INIT_LIST_HEAD p"
| "list_exec (C_add p a) = list_add p a"
| "list_exec (C_add_tail p a) = list_add_tail p a"
| "list_exec (C_del p a) = list_del p"
| "list_exec (C_del_init p a) = list_del_init p"
| "list_exec (C_move p a b) = list_move p b"
| "list_exec (C_move_tail p a b) = list_move_tail p b"
| "list_exec (C_rotate a) = list_rotate_left a"
| "list_exec (C_splice a b) = list_splice_init a b"
| "list_exec (C_splice_tail a b) = list_splice_tail_init a b"

text \<open>The commands on the lists; \<open>None\<close> when the command is not meant for this state.\<close>

fun list_spec :: "nat set \<Rightarrow> list_cmd \<Rightarrow> lists \<Rightarrow> lists option" where
  "list_spec D (C_init p) L = (if free_node D L p then Some (L(p \<mapsto> [])) else None)"
| "list_spec D (C_add p a) L =
     (case L a of Some xs \<Rightarrow> if free_node D L p then Some (L(a \<mapsto> p # xs)) else None | None \<Rightarrow> None)"
| "list_spec D (C_add_tail p a) L =
     (case L a of Some xs \<Rightarrow> if free_node D L p then Some (L(a \<mapsto> xs @ [p])) else None | None \<Rightarrow> None)"
| "list_spec D (C_del p a) L =
     (case L a of Some xs \<Rightarrow> if p \<in> set xs then Some (L(a \<mapsto> remove1 p xs)) else None | None \<Rightarrow> None)"
| "list_spec D (C_del_init p a) L =
     (case L a of Some xs \<Rightarrow> if p \<in> set xs then Some (L(a \<mapsto> remove1 p xs, p \<mapsto> [])) else None | None \<Rightarrow> None)"
| "list_spec D (C_move p a b) L =
     (case (L a, L b) of (Some xs, Some ys) \<Rightarrow>
        if p \<in> set xs \<and> a \<noteq> b then Some (L(a \<mapsto> remove1 p xs, b \<mapsto> p # ys)) else None | _ \<Rightarrow> None)"
| "list_spec D (C_move_tail p a b) L =
     (case (L a, L b) of (Some xs, Some ys) \<Rightarrow>
        if p \<notin> set xs then None
        else if a = b then Some (L(a \<mapsto> remove1 p xs @ [p]))
        else Some (L(a \<mapsto> remove1 p xs, b \<mapsto> ys @ [p])) | _ \<Rightarrow> None)"
| "list_spec D (C_rotate a) L = (case L a of Some xs \<Rightarrow> Some (L(a \<mapsto> rotate1 xs)) | None \<Rightarrow> None)"
| "list_spec D (C_splice a b) L =
     (case (L a, L b) of (Some xs, Some ys) \<Rightarrow>
        if a \<noteq> b then Some (L(b \<mapsto> xs @ ys, a \<mapsto> [])) else None | _ \<Rightarrow> None)"
| "list_spec D (C_splice_tail a b) L =
     (case (L a, L b) of (Some xs, Some ys) \<Rightarrow>
        if a \<noteq> b then Some (L(b \<mapsto> ys @ xs, a \<mapsto> [])) else None | _ \<Rightarrow> None)"

definition keeps_dom :: "(lheap \<Rightarrow> lheap option) \<Rightarrow> bool" where
  "keeps_dom f \<longleftrightarrow> (\<forall>h h'. f h = Some h' \<longrightarrow> dom h' = dom h)"

lemma keeps_dom_set: "keeps_dom (set_next p v)" "keeps_dom (set_prev p v)" "keeps_dom Some"
  by (auto simp: keeps_dom_def set_next_def set_prev_def split: if_splits)

lemma keeps_dom_seq: "keeps_dom f \<Longrightarrow> keeps_dom g \<Longrightarrow> keeps_dom (\<lambda>h. Option.bind (f h) g)"
  by (fastforce simp: keeps_dom_def bind_eq_Some_conv)

lemma keeps_dom_read: "(\<And>v. keeps_dom (g v)) \<Longrightarrow> keeps_dom (\<lambda>h. Option.bind (r h) (\<lambda>v. g v h))"
  by (fastforce simp: keeps_dom_def bind_eq_Some_conv)

lemma keeps_dom_if: "keeps_dom f \<Longrightarrow> keeps_dom g \<Longrightarrow> keeps_dom (\<lambda>h. if b then f h else g h)"
  by (cases b) simp_all

lemmas keeps_dom_rules = keeps_dom_set keeps_dom_read keeps_dom_if

lemma keeps_dom_ops:
  "keeps_dom (INIT_LIST_HEAD p)" "keeps_dom (list_add_between p a b)" "keeps_dom (list_del_between a b)"
  "keeps_dom (list_splice_between p a b)"
  unfolding INIT_LIST_HEAD_def list_add_between_def list_del_between_def list_splice_between_def
  by (rule keeps_dom_seq keeps_dom_rules)+

lemma keeps_dom_entry: "keeps_dom (list_add p a)" "keeps_dom (list_add_tail p a)" "keeps_dom (list_del_entry p)"
  unfolding list_add_def list_add_tail_def list_del_entry_def
  by (rule keeps_dom_ops keeps_dom_rules)+

lemma keeps_dom_exec: "keeps_dom (list_exec c)"
proof -
  have "keeps_dom (list_del p)" "keeps_dom (list_del_init p)" "keeps_dom (list_move p a)" "keeps_dom (list_move_tail p a)" for p a
    unfolding list_del_def list_del_init_def list_move_def list_move_tail_def
    by (rule keeps_dom_seq keeps_dom_ops keeps_dom_entry keeps_dom_rules)+
  note more = this
  have "keeps_dom (list_rotate_left a)" "keeps_dom (list_splice_init a b)" "keeps_dom (list_splice_tail_init a b)" for a b
    unfolding list_rotate_left_def list_splice_init_def list_splice_tail_init_def
    by (rule keeps_dom_seq [OF keeps_dom_ops(4)] more keeps_dom_ops keeps_dom_rules)+
  then show ?thesis using more keeps_dom_ops keeps_dom_entry by (cases c) simp_all
qed

text \<open>Replacing some of the lists, over the nodes they had and one that was free.\<close>

lemma lists_ok_replace:
  assumes ok: "lists_ok D L h" and dom: "dom h' = dom h" and same: "same_outside S h h'"
    and S: "\<And>a xs. L a = Some xs \<Longrightarrow> a \<notin> K \<Longrightarrow> S \<inter> set (a # xs) = {}"
    and L': "\<And>a. a \<notin> K \<Longrightarrow> L' a = L a"
    and new: "\<And>a xs. a \<in> K \<Longrightarrow> L' a = Some xs \<Longrightarrow> dlist h' a xs \<and> set (a # xs) \<subseteq> S"
    and disj: "\<And>a b xs ys. a \<in> K \<Longrightarrow> b \<in> K \<Longrightarrow> a \<noteq> b \<Longrightarrow> L' a = Some xs \<Longrightarrow> L' b = Some ys \<Longrightarrow> set (a # xs) \<inter> set (b # ys) = {}"
  shows "lists_ok D L' h'"
proof -
  have old: "dlist h a xs" if "L a = Some xs" for a xs using ok that by (auto simp: lists_ok_def)
  have "dlist h' a xs" if "L' a = Some xs" for a xs
    using that new L' dlist_frame [OF old same S] by (cases "a \<in> K") auto
  moreover have "set (a # xs) \<inter> set (b # ys) = {}" if "L' a = Some xs" "L' b = Some ys" "a \<noteq> b" for a b xs ys
  proof -
    have pair: "set (a # xs) \<inter> set (b # ys) = {}" if "L a = Some xs" "L b = Some ys" using ok that \<open>a \<noteq> b\<close> by (auto simp: lists_ok_def)
    consider "a \<in> K" "b \<in> K" | "a \<in> K" "b \<notin> K" | "a \<notin> K" "b \<in> K" | "a \<notin> K" "b \<notin> K" by blast
    then show ?thesis
    proof cases
      case 1 then show ?thesis using disj that by blast
    next
      case 2 then show ?thesis using new [OF _ that(1)] S [of b ys] L' that by fastforce
    next
      case 3 then show ?thesis using new [OF _ that(2)] S [of a xs] L' that by fastforce
    next
      case 4 then show ?thesis using pair L' that by simp
    qed
  qed
  ultimately show ?thesis using ok dom by (auto simp: lists_ok_def)
qed

definition owned :: "nat set \<Rightarrow> lists \<Rightarrow> nat set \<Rightarrow> nat \<Rightarrow> bool" where
  "owned D L K q \<longleftrightarrow> (\<exists>a\<in>K. \<exists>xs. L a = Some xs \<and> q \<in> set (a # xs)) \<or> free_node D L q"

lemma lists_ok_one:
  assumes ok: "lists_ok D L h" and e: "list_exec c h = Some h'" and same: "same_outside S h h'"
    and d: "dlist h' a xs'" "set (a # xs') \<subseteq> S" and own: "\<And>q. q \<in> S \<Longrightarrow> owned D L {a} q"
  shows "lists_ok D (L(a \<mapsto> xs')) h'"
proof (rule lists_ok_replace [OF ok _ same, where K = "{a}"])
  show "dom h' = dom h" using keeps_dom_exec [of c] e by (auto simp: keeps_dom_def)
  show "S \<inter> set (b # ys) = {}" if "L b = Some ys" "b \<notin> {a}" for b ys
    using own ok that unfolding owned_def free_node_def lists_ok_def by fastforce
qed (use d in \<open>auto split: if_splits\<close>)

lemma lists_ok_two:
  assumes ok: "lists_ok D L h" and e: "list_exec c h = Some h'" and same: "same_outside S h h'" and ab: "a \<noteq> b"
    and d: "dlist h' a xs'" "dlist h' b ys'" "set (a # xs') \<subseteq> S" "set (b # ys') \<subseteq> S" "set (a # xs') \<inter> set (b # ys') = {}"
    and own: "\<And>q. q \<in> S \<Longrightarrow> owned D L {a, b} q"
  shows "lists_ok D (L(a \<mapsto> xs', b \<mapsto> ys')) h'"
proof (rule lists_ok_replace [OF ok _ same, where K = "{a, b}"])
  show "dom h' = dom h" using keeps_dom_exec [of c] e by (auto simp: keeps_dom_def)
  show "S \<inter> set (p # zs) = {}" if "L p = Some zs" "p \<notin> {a, b}" for p zs
    using own ok that unfolding owned_def free_node_def lists_ok_def by fastforce
qed (use d ab in \<open>auto split: if_splits\<close>)

lemma lists_okD:
  assumes "lists_ok D L h" "L a = Some xs"
  shows "dlist h a xs" "\<And>b ys. L b = Some ys \<Longrightarrow> a \<noteq> b \<Longrightarrow> set (a # xs) \<inter> set (b # ys) = {}"
    "\<And>p. free_node D L p \<Longrightarrow> h p \<noteq> None \<and> p \<notin> set (a # xs)"
    "\<And>p. p \<in> set xs \<Longrightarrow> \<exists>ys zs. xs = ys @ p # zs \<and> remove1 p xs = ys @ zs"
proof -
  show d: "dlist h a xs" using assms by (auto simp: lists_ok_def)
  show "set (a # xs) \<inter> set (b # ys) = {}" if "L b = Some ys" "a \<noteq> b" for b ys
    using assms that by (auto simp: lists_ok_def)
  show "h p \<noteq> None \<and> p \<notin> set (a # xs)" if "free_node D L p" for p
    using assms that by (auto simp: lists_ok_def free_node_def)
  show "\<exists>ys zs. xs = ys @ p # zs \<and> remove1 p xs = ys @ zs" if "p \<in> set xs" for p
  proof -
    from split_list_first [OF that] obtain ys zs where "xs = ys @ p # zs" "p \<notin> set ys" by blast
    then show ?thesis by (intro exI [of _ ys] exI [of _ zs]) (simp add: remove1_append)
  qed
qed

lemma sim_add:
  assumes "lists_ok D L h" "L a = Some xs" "free_node D L p"
  shows "\<exists>h'. list_add p a h = Some h' \<and> lists_ok D (L(a \<mapsto> p # xs)) h'"
    "\<exists>h'. list_add_tail p a h = Some h' \<and> lists_ok D (L(a \<mapsto> xs @ [p])) h'"
proof -
  note o = lists_okD [OF assms(1,2)]
  have p: "h p \<noteq> None" "p \<notin> set (a # xs)" using o(3) [OF assms(3)] by auto
  have own: "q \<in> set (p # a # xs) \<Longrightarrow> owned D L {a} q" for q using assms(2,3) by (auto simp: owned_def)
  from list_add_list [OF o(1) p] obtain h' where
    h': "list_exec (C_add p a) h = Some h'" "dlist h' a (p # xs)" "same_outside (set (p # a # xs)) h h'" by auto
  show "\<exists>h'. list_add p a h = Some h' \<and> lists_ok D (L(a \<mapsto> p # xs)) h'"
    using lists_ok_one [OF assms(1) h'(1,3,2) _ own] h'(1) by auto
  from list_add_tail_list [OF o(1) p] obtain h' where
    h': "list_exec (C_add_tail p a) h = Some h'" "dlist h' a (xs @ [p])" "same_outside (set (p # a # xs)) h h'" by auto
  show "\<exists>h'. list_add_tail p a h = Some h' \<and> lists_ok D (L(a \<mapsto> xs @ [p])) h'"
    using lists_ok_one [OF assms(1) h'(1,3,2) _ own] h'(1) by auto
qed

lemma sim_del:
  assumes "lists_ok D L h" "L a = Some xs" "p \<in> set xs"
  shows "\<exists>h'. list_del p h = Some h' \<and> lists_ok D (L(a \<mapsto> remove1 p xs)) h'"
    "\<exists>h'. list_del_init p h = Some h' \<and> lists_ok D (L(a \<mapsto> remove1 p xs, p \<mapsto> [])) h'"
    "\<exists>h'. list_move_tail p a h = Some h' \<and> lists_ok D (L(a \<mapsto> remove1 p xs @ [p])) h'"
proof -
  note o = lists_okD [OF assms(1,2)]
  from o(4) [OF assms(3)] obtain ys zs where xs: "xs = ys @ p # zs" "remove1 p xs = ys @ zs" by blast
  have d: "dlist h a (ys @ p # zs)" using o(1) xs by simp
  have own: "q \<in> set (a # ys @ p # zs) \<Longrightarrow> owned D L {a} q" "q \<in> set (a # ys @ p # zs) \<Longrightarrow> owned D L {a, p} q" for q
    using assms(2) xs by (auto simp: owned_def)
  have dist: "distinct (a # ys @ p # zs)" using d by (simp add: dlist_def)
  from list_del_list [OF d] obtain h' where
    h': "list_exec (C_del p a) h = Some h'" "dlist h' a (ys @ zs)" "same_outside (set (a # ys @ p # zs)) h h'" by auto
  show "\<exists>h'. list_del p h = Some h' \<and> lists_ok D (L(a \<mapsto> remove1 p xs)) h'"
    using lists_ok_one [OF assms(1) h'(1,3,2) _ own(1)] h'(1) xs by auto
  from list_del_init_list [OF d] obtain h' where
    h': "list_exec (C_del_init p a) h = Some h'" "dlist h' a (ys @ zs)" "dlist h' p []" "same_outside (set (a # ys @ p # zs)) h h'" by auto
  show "\<exists>h'. list_del_init p h = Some h' \<and> lists_ok D (L(a \<mapsto> remove1 p xs, p \<mapsto> [])) h'"
    using lists_ok_two [OF assms(1) h'(1,4) _ h'(2,3) _ _ _ own(2)] dist h'(1) xs by auto
  from list_move_same [OF d] obtain h' where
    h': "list_exec (C_move_tail p a a) h = Some h'" "dlist h' a (ys @ zs @ [p])" "same_outside (set (a # ys @ p # zs)) h h'" by auto
  show "\<exists>h'. list_move_tail p a h = Some h' \<and> lists_ok D (L(a \<mapsto> remove1 p xs @ [p])) h'"
    using lists_ok_one [OF assms(1) h'(1,3,2) _ own(1)] h'(1) xs by auto
qed

lemma sim_move:
  assumes "lists_ok D L h" "L a = Some xs" "p \<in> set xs" "L b = Some ys" "a \<noteq> b"
  shows "\<exists>h'. list_move p b h = Some h' \<and> lists_ok D (L(a \<mapsto> remove1 p xs, b \<mapsto> p # ys)) h'"
    "\<exists>h'. list_move_tail p b h = Some h' \<and> lists_ok D (L(a \<mapsto> remove1 p xs, b \<mapsto> ys @ [p])) h'"
proof -
  note o = lists_okD [OF assms(1,2)] and ob = lists_okD [OF assms(1,4)]
  from o(4) [OF assms(3)] obtain us vs where xs: "xs = us @ p # vs" "remove1 p xs = us @ vs" by blast
  have d: "dlist h a (us @ p # vs)" and disj: "set (a # us @ p # vs) \<inter> set (b # ys) = {}"
    using o(1) xs o(2) [OF assms(4,5)] by auto
  let ?S = "set (a # us @ p # vs) \<union> set (b # ys)"
  have own: "q \<in> ?S \<Longrightarrow> owned D L {a, b} q" for q using assms(2,4) xs by (auto simp: owned_def)
  have dist: "distinct (a # us @ p # vs)" using d by (simp add: dlist_def)
  note m = list_move_other [OF d ob(1) disj]
  from m(2) obtain h' where h': "list_exec (C_move p a b) h = Some h'" "dlist h' a (us @ vs)" "dlist h' b (p # ys)" "same_outside ?S h h'" by auto
  show "\<exists>h'. list_move p b h = Some h' \<and> lists_ok D (L(a \<mapsto> remove1 p xs, b \<mapsto> p # ys)) h'"
    using lists_ok_two [OF assms(1) h'(1,4) assms(5) h'(2,3) _ _ _ own] dist disj h'(1) xs by auto
  from m(1) obtain h' where h': "list_exec (C_move_tail p a b) h = Some h'" "dlist h' a (us @ vs)" "dlist h' b (ys @ [p])" "same_outside ?S h h'" by auto
  show "\<exists>h'. list_move_tail p b h = Some h' \<and> lists_ok D (L(a \<mapsto> remove1 p xs, b \<mapsto> ys @ [p])) h'"
    using lists_ok_two [OF assms(1) h'(1,4) assms(5) h'(2,3) _ _ _ own] dist disj h'(1) xs by auto
qed

lemma sim_splice:
  assumes "lists_ok D L h" "L a = Some xs" "L b = Some ys" "a \<noteq> b"
  shows "\<exists>h'. list_splice_init a b h = Some h' \<and> lists_ok D (L(b \<mapsto> xs @ ys, a \<mapsto> [])) h'"
    "\<exists>h'. list_splice_tail_init a b h = Some h' \<and> lists_ok D (L(b \<mapsto> ys @ xs, a \<mapsto> [])) h'"
proof -
  note o = lists_okD [OF assms(1,2)] and ob = lists_okD [OF assms(1,3)]
  let ?S = "set (a # xs) \<union> set (b # ys)"
  have disj: "set (a # xs) \<inter> set (b # ys) = {}" and dist: "a \<notin> set xs" "b \<noteq> a"
    using o(1) o(2) [OF assms(3,4)] assms(4) by (auto simp: dlist_def)
  have own: "q \<in> ?S \<Longrightarrow> owned D L {b, a} q" for q using assms(2,3) by (auto simp: owned_def)
  note m = list_splice_init_list [OF o(1) ob(1) disj]
  from m(1) obtain h' where h': "list_exec (C_splice a b) h = Some h'" "dlist h' b (xs @ ys)" "dlist h' a []" "same_outside ?S h h'" by auto
  show "\<exists>h'. list_splice_init a b h = Some h' \<and> lists_ok D (L(b \<mapsto> xs @ ys, a \<mapsto> [])) h'"
    using lists_ok_two [OF assms(1) h'(1,4) dist(2) h'(2,3) _ _ _ own] dist disj h'(1) by auto
  from m(2) obtain h' where h': "list_exec (C_splice_tail a b) h = Some h'" "dlist h' b (ys @ xs)" "dlist h' a []" "same_outside ?S h h'" by auto
  show "\<exists>h'. list_splice_tail_init a b h = Some h' \<and> lists_ok D (L(b \<mapsto> ys @ xs, a \<mapsto> [])) h'"
    using lists_ok_two [OF assms(1) h'(1,4) dist(2) h'(2,3) _ _ _ own] dist disj h'(1) by auto
qed

lemma list_cmd_sim:
  assumes ok: "lists_ok D L h" and spec: "list_spec D c L = Some L'"
  shows "\<exists>h'. list_exec c h = Some h' \<and> lists_ok D L' h'"
proof (cases c)
  case (C_init p)
  with spec have p: "free_node D L p" "L' = L(p \<mapsto> [])" by (auto split: if_splits)
  then have "h p \<noteq> None" using ok by (auto simp: free_node_def lists_ok_def)
  from INIT_LIST_HEAD_list [of h p, OF this] obtain h' where
    h': "list_exec (C_init p) h = Some h'" "dlist h' p []" "same_outside {p} h h'" by auto
  have "lists_ok D (L(p \<mapsto> [])) h'"
    by (rule lists_ok_one [OF ok h'(1,3,2)]) (use p in \<open>auto simp: owned_def\<close>)
  then show ?thesis using h'(1) C_init p by auto
next
  case (C_rotate a)
  with spec obtain xs where xs: "L a = Some xs" "L' = L(a \<mapsto> rotate1 xs)" by (auto split: option.splits)
  from list_rotate_left_list [OF lists_okD(1) [OF ok xs(1)]] obtain h' where
    h': "list_exec c h = Some h'" "dlist h' a (rotate1 xs)" "same_outside (set (a # xs)) h h'" using C_rotate by auto
  have "lists_ok D (L(a \<mapsto> rotate1 xs)) h'"
    by (rule lists_ok_one [OF ok h'(1,3,2)]) (use xs in \<open>auto simp: owned_def\<close>)
  then show ?thesis using h'(1) xs by auto
qed (use ok spec sim_add sim_del sim_move sim_splice in \<open>auto split: option.splits if_splits\<close>)

text \<open>Sequences of commands.\<close>

primrec list_run :: "list_cmd list \<Rightarrow> lheap \<Rightarrow> lheap option" where
  "list_run [] h = Some h"
| "list_run (c # cs) h = Option.bind (list_exec c h) (list_run cs)"

primrec spec_run :: "nat set \<Rightarrow> list_cmd list \<Rightarrow> lists \<Rightarrow> lists option" where
  "spec_run D [] L = Some L"
| "spec_run D (c # cs) L = Option.bind (list_spec D c L) (spec_run D cs)"

text \<open>
  C27. Any sequence of list operations that is legal on plain lists runs on the heap without using a
  wrong pointer, and afterwards the heap holds the lists the plain operations give, linked in both directions:
  walking from a head visits its entries in order, and backwards in reverse order.
\<close>

theorem list_ops_refine:
  assumes "lists_ok D L h" "spec_run D cs L = Some L'"
  shows "\<exists>h'. list_run cs h = Some h' \<and> lists_ok D L' h'
    \<and> (\<forall>a xs. L' a = Some xs \<longrightarrow> list_for_each a h' = Some xs \<and> list_for_each_prev a h' = Some (rev xs))"
proof -
  have "\<exists>h'. list_run cs h = Some h' \<and> lists_ok D L' h'" using assms
  proof (induction cs arbitrary: L h)
    case (Cons c cs)
    then obtain L1 where "list_spec D c L = Some L1" "spec_run D cs L1 = Some L'" by (auto simp: bind_eq_Some_conv)
    moreover from list_cmd_sim [OF Cons.prems(1) this(1)] obtain h1 where "list_exec c h = Some h1" "lists_ok D L1 h1" by blast
    ultimately show ?case using Cons.IH by auto
  qed simp
  then show ?thesis using lists_okD(1) list_for_each_list list_for_each_prev_list by blast
qed

definition ex_heap :: lheap where
  "ex_heap p = (if p \<in> {1, 2, 3, 4, 5} then Some \<lparr>lh_next = 0, lh_prev = 0\<rparr> else None)"

theorem list_ops_refine_witness:
  "\<exists>h'. list_run [C_init 1, C_init 2, C_add_tail 3 1, C_add_tail 4 1, C_add 5 1, C_move_tail 3 1 2, C_rotate 1, C_splice_tail 2 1] ex_heap = Some h'
    \<and> list_for_each 1 h' = Some [4, 5, 3] \<and> list_for_each 2 h' = Some []"
proof -
  let ?D = "{1, 2, 3, 4, 5}" and ?L = "Map.empty :: lists"
  let ?cs = "[C_init 1, C_init 2, C_add_tail 3 1, C_add_tail 4 1, C_add 5 1, C_move_tail 3 1 2, C_rotate 1, C_splice_tail 2 1]"
  have ok: "lists_ok ?D ?L ex_heap" by (auto simp: lists_ok_def ex_heap_def split: if_splits)
  have run: "spec_run ?D ?cs ?L = Some [1 \<mapsto> [4, 5, 3], 2 \<mapsto> []]"
    by (simp add: free_node_def fun_upd_twist)
  from list_ops_refine [OF ok run] show ?thesis by auto
qed

text \<open>
  \<^verbatim>\<open>list_for_each_safe\<close> may delete the entry it is at: with \<^verbatim>\<open>list_del\<close> as its body it ends, with the list empty and
  every other node as it was.
\<close>

theorem list_for_each_safe_del:
  assumes "dlist h head xs"
  shows "\<exists>h'. list_for_each_safe list_del head h = Some h' \<and> dlist h' head [] \<and> same_outside (set (head # xs)) h h'"
  using list_walk_safe_del [OF assms] dlist_head(1) [OF assms] by (simp add: list_for_each_safe_def)

theorem list_for_each_safe_del_witness:
  "\<exists>h'. list_for_each_safe list_del 1 [1 \<mapsto> \<lparr>lh_next = 2, lh_prev = 3\<rparr>, 2 \<mapsto> \<lparr>lh_next = 3, lh_prev = 1\<rparr>, 3 \<mapsto> \<lparr>lh_next = 1, lh_prev = 2\<rparr>] = Some h'
    \<and> dlist h' 1 []"
proof -
  have "dlist [1 \<mapsto> \<lparr>lh_next = 2, lh_prev = 3\<rparr>, 2 \<mapsto> \<lparr>lh_next = 3, lh_prev = 1\<rparr>, 3 \<mapsto> \<lparr>lh_next = 1, lh_prev = 2\<rparr>] 1 [2, 3]"
    by (simp add: dlist_def get_next_def get_prev_def)
  from list_for_each_safe_del [OF this] show ?thesis by auto
qed

end
