(* ===== verification/Shell.thy ===== *)
theory Shell
  imports Strings
begin

text \<open>
  The shell of \<^verbatim>\<open>lib/shell.c\<close> and the command line of \<^verbatim>\<open>lib/cmdline.c\<close>.

  The shell keeps a line buffer in memory from the allocator; the pointer to it is null, valid, or
  dangling after the memory was freed. A line is parsed in place: spaces are overwritten by zeros, so the model
  of the parsing loop returns the bytes it leaves behind. The table of commands comes from the linker and
  is a parameter, as are the input pipe and the allocator, functions on a state \<open>'w\<close>. What is
  printed is the list of bytes sent to the console. \<open>None\<close> is a use of freed memory, a read past the buffer, or a loop that
  does not end.
\<close>

section \<open>Data\<close>

definition MAX_ARGV :: nat where "MAX_ARGV = 5"

text \<open>The buffer fills a block of 32 bytes together with a 4-byte pointer.\<close>

definition SHELL_BUF :: nat where "SHELL_BUF = 28"

abbreviation str :: "string \<Rightarrow> u8 list" where "str s \<equiv> map of_char s"

abbreviation PROMPT :: "u8 list" where "PROMPT \<equiv> str ''lininoIO> ''"

record shell_data =
  sd_curr :: nat
  sd_buf :: "u8 list"

datatype shell_ptr = Sh_null | Sh_freed | Sh_data shell_data

record 'w shell =
  sh_data :: shell_ptr
  sh_out :: "u8 list"
  sh_terminated :: nat
  sh_world :: 'w

record 'w shell_env =
  env_read :: "nat \<Rightarrow> 'w \<Rightarrow> int \<times> u8 list \<times> 'w"
  env_alloc :: "'w \<Rightarrow> bool \<times> 'w"
  env_free :: "'w \<Rightarrow> 'w"

record 'w shell_cmd =
  cmd_str :: "u8 list"
  cmd_handler :: "nat \<Rightarrow> u8 list list \<Rightarrow> 'w shell \<Rightarrow> (int \<times> 'w shell) option"
  cmd_help :: "(nat \<Rightarrow> u8 list list \<Rightarrow> 'w shell \<Rightarrow> 'w shell) option"

definition sh_print :: "u8 list \<Rightarrow> 'w shell \<Rightarrow> 'w shell" where
  "sh_print bs s = s\<lparr>sh_out := sh_out s @ bs\<rparr>"

text \<open>The string at an offset: the bytes up to the first zero.\<close>

definition cstr :: "u8 list \<Rightarrow> nat \<Rightarrow> u8 list" where
  "cstr buf p = takeWhile (\<lambda>c. c \<noteq> 0) (drop p buf)"

section \<open>Parsing a command\<close>

text \<open>\<open>skip_spaces\<close> counts the spaces and gives what is left, which begins with the character that ends the inner loop.\<close>

fun skip_spaces :: "u8 list \<Rightarrow> nat \<times> u8 list" where
  "skip_spaces [] = (0, [])"
| "skip_spaces (c # cs) = (if c = 32 then (let (k, r) = skip_spaces cs in (Suc k, r)) else (0, c # cs))"

lemma skip_spaces_length: "length (snd (skip_spaces cs)) \<le> length cs"
  by (induction cs) (auto simp: Let_def split: prod.splits)

lemma skip_spaces_decreases: "(k, d # ds) = skip_spaces cs \<Longrightarrow> length ds < Suc (length cs)"
  using skip_spaces_length [of cs] by (metis Suc_le_eq le_imp_less_Suc length_Cons less_Suc_eq snd_conv)

text \<open>
  The loop that finds the arguments, from \<open>ptr\<close> at offset \<open>p\<close> with \<open>i\<close> arguments so far, on the bytes from there on:
  the offsets of the arguments it adds, the offset at which it stops and the bytes it leaves. The character behind the
  spaces is stepped over without a test.
\<close>

function find_args :: "nat \<Rightarrow> nat \<Rightarrow> u8 list \<Rightarrow> (nat list \<times> nat \<times> u8 list) option" where
  "find_args i p buf =
     (case buf of [] \<Rightarrow> None
      | c # cs \<Rightarrow>
          if c = 0 \<or> c = 59 then Some ([], p, buf)
          else if c = 32 \<and> i < MAX_ARGV then
            (case skip_spaces cs of
               (k, []) \<Rightarrow> None
             | (k, d # ds) \<Rightarrow>
                 let ptr = p + 1 + k
                 in map_option (\<lambda>(offs, e, out). ((if d \<noteq> 0 then [ptr] else []) @ offs, e, 0 # replicate k 32 @ d # out))
                      (find_args (if d \<noteq> 0 then i + 1 else i) (ptr + 1) ds))
          else map_option (\<lambda>(offs, e, out). (offs, e, c # out)) (find_args i (p + 1) cs))"
  by pat_completeness auto
termination
  by (relation "measure (\<lambda>(i, p, buf). length buf)") (auto dest: skip_spaces_decreases)

declare find_args.simps [simp del]

text \<open>The arguments as strings, the number of bytes used, semicolon included, and the bytes left in the buffer.\<close>

definition parse_args :: "u8 list \<Rightarrow> (u8 list list \<times> nat \<times> u8 list) option" where
  "parse_args buf =
     map_option (\<lambda>(offs, e, out).
         let semi = (out ! e = 59);
             out = (if semi then out[e := 0] else out)
         in (map (cstr out) (0 # offs), if semi then e + 1 else e, out))
       (find_args 1 0 buf)"

definition find_cmd :: "'w shell_cmd list \<Rightarrow> u8 list \<Rightarrow> 'w shell_cmd option" where
  "find_cmd cmds name = find (\<lambda>c. cmd_str c = name) cmds"

text \<open>\<open>do_cmd\<close> on the bytes from offset \<open>pos\<close> of the line buffer: the number of bytes used.\<close>

definition do_cmd :: "'w shell_cmd list \<Rightarrow> nat \<Rightarrow> 'w shell \<Rightarrow> (nat \<times> 'w shell) option" where
  "do_cmd cmds pos s =
     (case sh_data s of Sh_data d \<Rightarrow>
        (case parse_args (drop pos (sd_buf d)) of None \<Rightarrow> None
         | Some (argv, used, out) \<Rightarrow>
             let s = s\<lparr>sh_data := Sh_data (d\<lparr>sd_buf := take pos (sd_buf d) @ out\<rparr>)\<rparr>
             in (case find_cmd cmds (argv ! 0) of
                   None \<Rightarrow> Some (used, sh_print (str ''unknown cmd '' @ argv ! 0 @ [10]) s)
                 | Some cmd \<Rightarrow>
                     (case cmd_handler cmd (length argv) argv s of None \<Rightarrow> None
                      | Some (r, s) \<Rightarrow>
                          if r < 0 then
                            (case sh_data s of
                               Sh_data d \<Rightarrow> Some (used, sh_print (str ''error exec cmd '' @ cstr (sd_buf d) pos @ [10]) s)
                             | _ \<Rightarrow> None)
                          else Some (used, s))))
      | _ \<Rightarrow> None)"

section \<open>A session\<close>

definition shell_exit :: "'w shell_env \<Rightarrow> 'w shell \<Rightarrow> 'w shell" where
  "shell_exit E s =
     (sh_print (10 # str ''bye'' @ [10]) s)
       \<lparr>sh_data := Sh_freed, sh_world := env_free E (sh_world s), sh_terminated := sh_terminated s + 1\<rparr>"

partial_function (option) run_cmds :: "'w shell_cmd list \<Rightarrow> nat \<Rightarrow> 'w shell \<Rightarrow> 'w shell option" where
  "run_cmds cmds pos s =
     (case sh_data s of Sh_data d \<Rightarrow>
        if pos < length (sd_buf d) then
          if sd_buf d ! pos = 0 then Some s
          else Option.bind (do_cmd cmds pos s) (\<lambda>(used, s). run_cmds cmds (pos + used) s)
        else None
      | _ \<Rightarrow> None)"

text \<open>Emptying the input pipe: reads until one returns nothing.\<close>

partial_function (option) drain :: "'w shell_env \<Rightarrow> 'w \<Rightarrow> 'w option" where
  "drain E w = (let (n, bs, w) = env_read E SHELL_BUF w in if n > 0 then drain E w else Some w)"

definition next_cmd :: "'w shell_env \<Rightarrow> 'w shell \<Rightarrow> 'w shell option" where
  "next_cmd E s =
     (case sh_data s of Sh_data d \<Rightarrow>
        map_option (\<lambda>w. sh_print PROMPT (s\<lparr>sh_data := Sh_data (d\<lparr>sd_curr := 0, sd_buf := replicate SHELL_BUF 0\<rparr>), sh_world := w\<rparr>))
          (drain E (sh_world s))
      | _ \<Rightarrow> None)"

text \<open>
  The loop over the characters read: the echoed bytes and how it ended, at the end-of-transmission character, at
  the \<open>i\<close>-th character as a carriage return, or at the end.
\<close>

datatype scan_end = Scan_eot | Scan_newline nat | Scan_more

fun scan_input :: "nat \<Rightarrow> u8 list \<Rightarrow> u8 list \<times> scan_end" where
  "scan_input i [] = ([], Scan_more)"
| "scan_input i (c # cs) =
     (if c = 4 then ([], Scan_eot)
      else if c = 13 then ([c], Scan_newline i)
      else (let (out, e) = scan_input (i + 1) cs in (c # out, e)))"

definition shell_input_handle :: "'w shell_cmd list \<Rightarrow> 'w shell_env \<Rightarrow> 'w shell \<Rightarrow> 'w shell option" where
  "shell_input_handle cmds E s =
     (case sh_data s of
        Sh_null \<Rightarrow> Some s
      | Sh_freed \<Rightarrow> None
      | Sh_data d \<Rightarrow>
          let (stat, bs, w) = env_read E (SHELL_BUF - sd_curr d) (sh_world s);
              s = s\<lparr>sh_world := w\<rparr>
          in if stat < 0 then Some s
             else let buf = copy_at (sd_buf d) (sd_curr d) bs;
                      (echo, e) = scan_input 0 bs;
                      s = sh_print echo (s\<lparr>sh_data := Sh_data (d\<lparr>sd_buf := buf\<rparr>)\<rparr>)
                  in (case e of
                        Scan_eot \<Rightarrow> Some (shell_exit E s)
                      | Scan_newline i \<Rightarrow>
                          let d = d\<lparr>sd_curr := sd_curr d + nat stat, sd_buf := buf[sd_curr d + i := 0]\<rparr>;
                              s = sh_print [10] (s\<lparr>sh_data := Sh_data d\<rparr>)
                          in Option.bind (run_cmds cmds 0 s) (next_cmd E)
                      | Scan_more \<Rightarrow>
                          let d = d\<lparr>sd_curr := sd_curr d + nat stat, sd_buf := buf\<rparr>;
                              s = s\<lparr>sh_data := Sh_data d\<rparr>
                          in if SHELL_BUF \<le> sd_curr d
                             then next_cmd E (sh_print (10 # str ''invalid cmd'' @ [10]) s)
                             else Some s))"

definition shell_start_handle :: "'w shell_env \<Rightarrow> 'w shell \<Rightarrow> 'w shell" where
  "shell_start_handle E s =
     (let (ok, w) = env_alloc E (sh_world s)
      in if ok then
           sh_print (10 # str ''shell started'' @ [10] @ PROMPT)
             (s\<lparr>sh_world := w, sh_data := Sh_data \<lparr>sd_curr = 0, sd_buf = replicate SHELL_BUF 0\<rparr>\<rparr>)
         else s\<lparr>sh_world := w, sh_data := Sh_null\<rparr>)"

section \<open>Built-in commands\<close>

definition help_handler :: "'w shell_cmd list \<Rightarrow> nat \<Rightarrow> u8 list list \<Rightarrow> 'w shell \<Rightarrow> (int \<times> 'w shell) option" where
  "help_handler cmds argc argv s =
     Some (0, fold (\<lambda>c s. let s = sh_print (cmd_str c @ str '': '') s
                          in (case cmd_help c of None \<Rightarrow> s | Some f \<Rightarrow> f argc argv s)) cmds s)"

definition help_help :: "nat \<Rightarrow> u8 list list \<Rightarrow> 'w shell \<Rightarrow> 'w shell" where
  "help_help argc argv s = sh_print (str ''print help'' @ [10]) s"

definition version_handler :: "u8 list \<Rightarrow> nat \<Rightarrow> u8 list list \<Rightarrow> 'w shell \<Rightarrow> (int \<times> 'w shell) option" where
  "version_handler version argc argv s = Some (0, sh_print version s)"

definition version_help :: "nat \<Rightarrow> u8 list list \<Rightarrow> 'w shell \<Rightarrow> 'w shell" where
  "version_help argc argv s = sh_print (str ''print version'' @ [10]) s"

definition license_handler :: "nat \<Rightarrow> u8 list list \<Rightarrow> 'w shell \<Rightarrow> (int \<times> 'w shell) option" where
  "license_handler argc argv s =
     Some (0, sh_print (str ''lininoIO is distributed under the GPL license version 2 or later, see source files for details'' @ [10])
       (sh_print (str ''See source files for individual Copyright terms'' @ [10])
       (sh_print (str ''lininoIO, MCU implementation of the mcuio protocol'' @ [10]) s)))"

definition license_help :: "nat \<Rightarrow> u8 list list \<Rightarrow> 'w shell \<Rightarrow> 'w shell" where
  "license_help argc argv s = sh_print (str ''print licensing terms'' @ [10]) s"

text \<open>\<open>exit_handler\<close> passes the global pointer on; freeing what is already freed is an error.\<close>

definition exit_handler :: "'w shell_env \<Rightarrow> nat \<Rightarrow> u8 list list \<Rightarrow> 'w shell \<Rightarrow> (int \<times> 'w shell) option" where
  "exit_handler E argc argv s =
     (case sh_data s of Sh_data d \<Rightarrow> Some (0, shell_exit E s) | _ \<Rightarrow> None)"

definition exit_help :: "nat \<Rightarrow> u8 list list \<Rightarrow> 'w shell \<Rightarrow> 'w shell" where
  "exit_help argc argv s = sh_print (str ''terminate'' @ [10]) s"

section \<open>Command line\<close>

text \<open>
  \<^verbatim>\<open>lib/cmdline.c\<close>: items with a name, which is a prefix of the arguments it parses, and a parser with its
  own data, here in the state it works on.
\<close>

record 's cmdline_item =
  it_name :: "u8 list"
  it_parse :: "u8 list \<Rightarrow> 's \<Rightarrow> int \<times> 's"

definition find_item :: "'s cmdline_item list \<Rightarrow> u8 list \<Rightarrow> 's cmdline_item option" where
  "find_item items n = find (\<lambda>it. strncmp (it_name it @ [0]) (n @ [0]) (length (it_name it)) = Some 0) items"

fun parse_cmdline :: "'s cmdline_item list \<Rightarrow> u8 list list \<Rightarrow> 's \<Rightarrow> int \<times> 's" where
  "parse_cmdline items [] s = (0, s)"
| "parse_cmdline items (a # argv) s =
     (case find_item items a of
        None \<Rightarrow> parse_cmdline items argv s
      | Some it \<Rightarrow> (case it_parse it a s of (r, s) \<Rightarrow> if r < 0 then (- 1, s) else parse_cmdline items argv s))"

end
