(* ===== verification/ShellProps.thy ===== *)
theory ShellProps
  imports Shell
begin

text \<open>
  What the shell does with a line. A well-formed line is a sequence of commands separated by semicolons, a command a word
  followed by at most four arguments, each with one or more spaces in front of it. Such lines are split into the
  words they are made of and the commands run in order; a space at the end of the line, and the exit
  command, take the shell out of its buffer.
\<close>

section \<open>Well-formed lines\<close>

definition word_char :: "u8 \<Rightarrow> bool" where
  "word_char c \<longleftrightarrow> c \<noteq> 0 \<and> c \<noteq> 59 \<and> c \<noteq> 32"

text \<open>An argument is the number of extra spaces in front of it and its characters.\<close>

type_synonym arg = "nat \<times> u8 list"

definition gaps :: "arg list \<Rightarrow> u8 list" where
  "gaps ws = concat (map (\<lambda>(k, w). 32 # replicate k 32 @ w) ws)"

definition cut_gaps :: "arg list \<Rightarrow> u8 list" where
  "cut_gaps ws = concat (map (\<lambda>(k, w). 0 # replicate k 32 @ w) ws)"

fun offsets :: "nat \<Rightarrow> arg list \<Rightarrow> nat list" where
  "offsets q [] = []"
| "offsets q ((k, w) # ws) = (q + 1 + k) # offsets (q + 1 + k + length w) ws"

definition args_ok :: "arg list \<Rightarrow> bool" where
  "args_ok ws \<longleftrightarrow> (\<forall>(k, w) \<in> set ws. w \<noteq> [] \<and> list_all word_char w)"

lemma gaps_simps [simp]:
  "gaps [] = []" "gaps ((k, w) # ws) = 32 # replicate k 32 @ w @ gaps ws"
  "cut_gaps [] = []" "cut_gaps ((k, w) # ws) = 0 # replicate k 32 @ w @ cut_gaps ws"
  "args_ok []" "args_ok ((k, w) # ws) \<longleftrightarrow> w \<noteq> [] \<and> list_all word_char w \<and> args_ok ws"
  by (auto simp: gaps_def cut_gaps_def args_ok_def)

lemma length_cut_gaps [simp]: "length (cut_gaps ws) = length (gaps ws)"
  by (induction ws) auto

lemma skip_spaces_gap: "d \<noteq> 32 \<Longrightarrow> skip_spaces (replicate k 32 @ d # ds) = (k, d # ds)"
  by (induction k) auto

lemma find_args_word:
  assumes "list_all word_char w" "find_args i (p + length w) rest = Some (offs, e, out)"
  shows "find_args i p (w @ rest) = Some (offs, e, w @ out)"
  using assms by (induction w arbitrary: p) (auto simp: find_args.simps [of _ _ "_ # _"] word_char_def)

lemma find_args_gaps:
  assumes "args_ok ws" "i + length ws \<le> MAX_ARGV" "t = 0 \<or> t = 59"
  shows "find_args i p (gaps ws @ t # rest) =
    Some (offsets p ws, p + length (gaps ws), cut_gaps ws @ t # rest)"
  using assms
proof (induction ws arbitrary: i p)
  case Nil
  then show ?case by (auto simp: find_args.simps [of _ _ "t # _"])
next
  case (Cons a ws)
  obtain k w where a: "a = (k, w)" by (cases a)
  with Cons.prems obtain d ds where w: "w = d # ds" "word_char d" "list_all word_char ds" by (cases w) auto
  have "find_args (i + 1) (p + 1 + k + 1) (ds @ gaps ws @ t # rest) =
      Some (offsets (p + 1 + k + 1 + length ds) ws, p + 1 + k + 1 + length ds + length (gaps ws), ds @ cut_gaps ws @ t # rest)"
    using w(3) Cons.IH [of "i + 1" "p + 1 + k + 1 + length ds"] Cons.prems a
    by (intro find_args_word) (auto simp: ac_simps)
  with w a Cons.prems show ?case
    by (auto simp: find_args.simps [of _ _ "32 # _"] skip_spaces_gap word_char_def)
qed

lemma cstr_here: "list_all word_char w \<Longrightarrow> cstr (pre @ w @ 0 # post) (length pre) = w"
  by (induction w arbitrary: pre) (auto simp: cstr_def word_char_def takeWhile_append2 list_all_iff)

lemma cut_gaps_zero: "\<exists>post. cut_gaps ws @ 0 # rest = 0 # post"
  by (cases ws) auto

lemma cstr_cut:
  assumes "list_all word_char w"
  shows "cstr (pre @ w @ cut_gaps ws @ 0 # rest) (length pre) = w"
  using cut_gaps_zero [of ws rest] cstr_here [OF assms] by metis

lemma cstr_offsets:
  assumes "args_ok ws"
  shows "map (cstr (pre @ cut_gaps ws @ 0 # rest)) (offsets (length pre) ws) = map snd ws"
  using assms
proof (induction ws arbitrary: pre)
  case (Cons a ws)
  obtain k w where a: "a = (k, w)" by (cases a)
  let ?pre = "pre @ 0 # replicate k 32"
  have l: "length ?pre = length pre + 1 + k" by simp
  have "cstr (?pre @ w @ cut_gaps ws @ 0 # rest) (length ?pre) = w"
    using Cons.prems a by (intro cstr_cut) auto
  moreover have "map (cstr ((?pre @ w) @ cut_gaps ws @ 0 # rest)) (offsets (length (?pre @ w)) ws) = map snd ws"
    using Cons.prems a by (intro Cons.IH) auto
  ultimately show ?case using l by (auto simp: a ac_simps)
qed simp

type_synonym command = "u8 list \<times> arg list"

definition command_ok :: "command \<Rightarrow> bool" where
  "command_ok c \<longleftrightarrow> fst c \<noteq> [] \<and> list_all word_char (fst c) \<and> args_ok (snd c) \<and> length (snd c) < MAX_ARGV"

definition words :: "command \<Rightarrow> u8 list list" where
  "words c = fst c # map snd (snd c)"

definition command_text :: "command \<Rightarrow> u8 list" where
  "command_text c = fst c @ gaps (snd c)"

lemma parse_args_line:
  assumes "command_ok c" "t = 0 \<or> t = 59"
  shows "parse_args (command_text c @ t # rest) =
    Some (words c, length (command_text c) + (if t = 59 then 1 else 0), (fst c @ cut_gaps (snd c)) @ 0 # rest)"
proof -
  obtain w ws where c: "c = (w, ws)" by (cases c)
  have "find_args 1 0 (w @ gaps ws @ t # rest) =
      Some (offsets (length w) ws, length w + length (gaps ws), w @ cut_gaps ws @ t # rest)"
    using assms c by (intro find_args_word) (auto simp: find_args_gaps command_ok_def)
  moreover have "(w @ cut_gaps ws @ t # rest) ! (length w + length (gaps ws)) = t"
    by (simp add: nth_append flip: length_cut_gaps)
  moreover have "(w @ cut_gaps ws @ t # rest)[length w + length (gaps ws) := 0] = w @ cut_gaps ws @ 0 # rest"
    by (simp add: list_update_append flip: length_cut_gaps)
  moreover have "cstr (w @ cut_gaps ws @ 0 # rest) 0 = w"
    using cstr_cut [of w "[]" ws rest] assms c by (simp add: command_ok_def)
  moreover have "map (cstr (w @ cut_gaps ws @ 0 # rest)) (offsets (length w) ws) = map snd ws"
    using assms c by (intro cstr_offsets) (simp add: command_ok_def)
  ultimately show ?thesis
    using assms(2) by (auto simp: parse_args_def c words_def command_text_def Let_def)
qed

text \<open>
  A command of a well-formed line, a word and at most four arguments with any number of spaces between them,
  closed by a semicolon or the end of the string, is split into exactly the words it is made of; the bytes used end with the
  semicolon, and what follows them is left as it was.
\<close>
theorem parse_args_words:
  assumes "command_ok c" "t = 0 \<or> t = 59"
  shows "\<exists>out. parse_args (command_text c @ t # rest) =
      Some (words c, length (command_text c) + (if t = 59 then 1 else 0), out)
    \<and> length out = length (command_text c) + 1 + length rest \<and> drop (length (command_text c) + 1) out = rest"
  using parse_args_line [OF assms, of rest] by (simp add: command_text_def)

theorem parse_args_words_witness:
  "\<exists>out. parse_args (str ''gpio  set 7;exit'' @ [0]) = Some ([str ''gpio'', str ''set'', str ''7''], 12, out)
    \<and> length out = 17 \<and> drop 12 out = str ''exit'' @ [0]"
  using parse_args_words [of "(str ''gpio'', [(1, str ''set''), (0, str ''7'')])" 59 "str ''exit'' @ [0]"]
  by (simp add: command_ok_def word_char_def MAX_ARGV_def command_text_def words_def of_char_def, simp add: eval_nat_numeral)

section \<open>Running a line\<close>

fun line_text :: "command list \<Rightarrow> u8 list" where
  "line_text [] = [0]"
| "line_text [c] = command_text c @ [0]"
| "line_text (c # c' # cs) = command_text c @ 59 # line_text (c' # cs)"

text \<open>
  Commands that keep away from the shell's own data. \<open>act c argv w\<close> is what the handler of \<open>c\<close> does in a world \<open>w\<close>: the status it returns, the text it prints
  and the world it leaves. The exit command, which frees the line, is not such a command.
\<close>

definition keeps_line :: "'w shell_cmd list \<Rightarrow> ('w shell_cmd \<Rightarrow> u8 list list \<Rightarrow> 'w \<Rightarrow> int \<times> u8 list \<times> 'w) \<Rightarrow> bool" where
  "keeps_line cmds act \<longleftrightarrow> (\<forall>c\<in>set cmds. \<forall>argv s. cmd_handler c (length argv) argv s =
     (case act c argv (sh_world s) of (r, t, w) \<Rightarrow> Some (r, sh_print t (s\<lparr>sh_world := w\<rparr>))))"

text \<open>What one command of the line adds to the console and does to the world.\<close>

definition run_command ::
  "'w shell_cmd list \<Rightarrow> ('w shell_cmd \<Rightarrow> u8 list list \<Rightarrow> 'w \<Rightarrow> int \<times> u8 list \<times> 'w) \<Rightarrow> command \<Rightarrow> u8 list \<times> 'w \<Rightarrow> u8 list \<times> 'w" where
  "run_command cmds act c = (\<lambda>(out, w).
     (case find (\<lambda>x. cmd_str x = fst c) cmds of
        None \<Rightarrow> (out @ str ''unknown cmd '' @ fst c @ [10], w)
      | Some x \<Rightarrow> (case act x (words c) w of (r, t, w) \<Rightarrow>
          (out @ t @ (if r < 0 then str ''error exec cmd '' @ fst c @ [10] else []), w))))"

lemma sh_print_simps [simp]:
  "sh_data (sh_print bs s) = sh_data s" "sh_print [] s = s"
  "sh_print bs (sh_print as s) = sh_print (as @ bs) s"
  "(sh_print bs s)\<lparr>sh_data := x\<rparr> = sh_print bs (s\<lparr>sh_data := x\<rparr>)"
  by (simp_all add: sh_print_def)

lemma find_cmd_in: "find_cmd cmds n = Some c \<Longrightarrow> c \<in> set cmds"
  by (auto simp: find_cmd_def find_Some_iff)

lemma do_cmd_acts:
  assumes "keeps_line cmds act" "sh_data s = Sh_data d" "drop pos (sd_buf d) = command_text c @ t # rest"
    and "command_ok c" "t = 0 \<or> t = 59" "run_command cmds act c (sh_out s, sh_world s) = (out, w)"
  shows "do_cmd cmds pos s = Some (length (command_text c) + (if t = 59 then 1 else 0),
    s\<lparr>sh_data := Sh_data (d\<lparr>sd_buf := take pos (sd_buf d) @ (fst c @ cut_gaps (snd c)) @ 0 # rest\<rparr>), sh_out := out, sh_world := w\<rparr>)"
proof -
  let ?buf = "take pos (sd_buf d) @ (fst c @ cut_gaps (snd c)) @ 0 # rest"
  let ?s = "s\<lparr>sh_data := Sh_data (d\<lparr>sd_buf := ?buf\<rparr>)\<rparr>"
  have pos: "pos \<le> length (sd_buf d)" using assms(3) by (metis append_is_Nil_conv drop_eq_Nil list.distinct(1) nat_le_linear)
  then have name: "cstr ?buf pos = fst c"
    using cstr_cut [of "fst c" "[]" "snd c" rest] assms(4) by (simp add: cstr_def command_ok_def)
  have w0: "words c \<noteq> []" "words c ! 0 = fst c" by (simp_all add: words_def)
  have act: "cmd_handler x (length (words c)) (words c) ?s = (case act x (words c) (sh_world s) of (r, t, v) \<Rightarrow> Some (r, sh_print t (?s\<lparr>sh_world := v\<rparr>)))"
    if "find_cmd cmds (fst c) = Some x" for x
    using assms(1) find_cmd_in [OF that] by (simp add: keeps_line_def)
  show ?thesis
    using assms(2,3,6) w0 act name parse_args_line [OF assms(4,5), of rest]
    by (auto simp: do_cmd_def run_command_def find_cmd_def sh_print_def Let_def split: option.splits prod.splits if_splits)
qed

lemma run_cmds_start:
  assumes "sh_data s = Sh_data d" "drop pos (sd_buf d) = x # rest"
  shows "run_cmds cmds pos s =
    (if x = 0 then Some s else Option.bind (do_cmd cmds pos s) (\<lambda>(used, s). run_cmds cmds (pos + used) s))"
proof -
  have "pos < length (sd_buf d)" "sd_buf d ! pos = x"
    using assms(2) by (metis drop_eq_Nil linorder_not_le list.distinct(1)) (metis assms(2) hd_drop_conv_nth drop_eq_Nil list.distinct(1) list.sel(1) not_le)
  then show ?thesis using assms(1) by (subst run_cmds.simps) simp
qed

lemma command_text_Cons: "command_ok c \<Longrightarrow> \<exists>x xs. command_text c = x # xs \<and> x \<noteq> 0"
  by (cases c; cases "fst c") (auto simp: command_ok_def command_text_def word_char_def)

lemma line_text_split:
  "line_text (c # cs) = command_text c @ (if cs = [] then 0 else 59) # (if cs = [] then [] else line_text cs)"
  by (cases cs) auto

lemma run_cmds_line:
  assumes "keeps_line cmds act" "sh_data s = Sh_data d" "drop pos (sd_buf d) = line_text cs @ rest"
    and "list_all command_ok cs" "fold (run_command cmds act) cs (sh_out s, sh_world s) = (out, w)"
  shows "\<exists>buf. length buf = length (sd_buf d) \<and>
    run_cmds cmds pos s = Some (s\<lparr>sh_data := Sh_data (d\<lparr>sd_buf := buf\<rparr>), sh_out := out, sh_world := w\<rparr>)"
  using assms(2-)
proof (induction cs arbitrary: s d pos)
  case Nil
  then have "run_cmds cmds pos s = Some s" by (simp add: run_cmds_start)
  with Nil show ?case by (intro exI [of _ "sd_buf d"]) simp
next
  case (Cons c cs)
  let ?t = "if cs = [] then 0 else 59 :: u8"
  let ?rest = "if cs = [] then rest else line_text cs @ rest"
  let ?used = "length (command_text c) + (if ?t = 59 then 1 else 0)"
  obtain out1 w1 where r1: "run_command cmds act c (sh_out s, sh_world s) = (out1, w1)" by fastforce
  define d' where "d' = d\<lparr>sd_buf := take pos (sd_buf d) @ (fst c @ cut_gaps (snd c)) @ 0 # ?rest\<rparr>"
  define s' where "s' = s\<lparr>sh_data := Sh_data d', sh_out := out1, sh_world := w1\<rparr>"
  have line: "drop pos (sd_buf d) = command_text c @ ?t # ?rest"
    using Cons.prems(2) by (simp add: line_text_split)
  have ok: "command_ok c" "list_all command_ok cs" using Cons.prems by auto
  have pos: "pos \<le> length (sd_buf d)" using line by (metis append_is_Nil_conv drop_eq_Nil list.distinct(1) nat_le_linear)
  have len: "length (command_text c) = length (fst c @ cut_gaps (snd c))" by (simp add: command_text_def)
  have size: "length (sd_buf d') = length (sd_buf d)"
    using arg_cong [OF line, of length] pos len by (simp add: d'_def)
  have run: "run_cmds cmds pos s = run_cmds cmds (pos + ?used) s'"
    using run_cmds_start [OF Cons.prems(1)] command_text_Cons [OF ok(1)] line
      do_cmd_acts [OF assms(1) Cons.prems(1) line ok(1) _ r1]
    by (auto simp: s'_def d'_def)
  have data: "sh_data s' = Sh_data d'" by (simp add: s'_def)
  have more: "fold (run_command cmds act) cs (sh_out s', sh_world s') = (out, w)" using Cons.prems(4) r1 by (simp add: s'_def)
  have rest: "drop (pos + ?used) (sd_buf d') = line_text cs @ (if cs = [] then ?rest else rest)"
    using pos by (auto simp: d'_def command_text_def min_absorb2)
  show ?case
  proof (cases "cs = []")
    case True
    then have "run_cmds cmds (pos + ?used) s' = Some s'"
      using run_cmds_start [OF data, of "pos + ?used" 0 rest] rest by simp
    with run size True more show ?thesis by (intro exI [of _ "sd_buf d'"]) (simp add: s'_def d'_def)
  next
    case False
    with Cons.IH [OF data _ ok(2) more] rest obtain buf where "length buf = length (sd_buf d')"
      "run_cmds cmds (pos + ?used) s' = Some (s'\<lparr>sh_data := Sh_data (d'\<lparr>sd_buf := buf\<rparr>), sh_out := out, sh_world := w\<rparr>)"
      by auto
    with run size show ?thesis by (intro exI [of _ buf]) (simp add: s'_def d'_def)
  qed
qed

text \<open>
  C28. With commands that keep away from the shell's own data, a line of well-formed commands separated by semicolons is run to its end: each
  command is looked up by its first word and called with its words, in order, whatever status the ones before it returned. An unknown command and a
  negative status are reported with the command's name, and nothing but the line buffer, the console and the world of the commands changes. The exit command is excluded.
\<close>
theorem run_line_in_order:
  assumes "keeps_line cmds act" "sh_data s = Sh_data d" "sd_buf d = line_text cs @ rest" "list_all command_ok cs"
  shows "\<exists>buf. length buf = length (sd_buf d) \<and>
    run_cmds cmds 0 s = Some (s\<lparr>sh_data := Sh_data (d\<lparr>sd_buf := buf\<rparr>),
      sh_out := fst (fold (run_command cmds act) cs (sh_out s, sh_world s)), sh_world := snd (fold (run_command cmds act) cs (sh_out s, sh_world s))\<rparr>)"
  using run_cmds_line [OF assms(1,2) _ assms(4) prod.collapse [symmetric], of 0 rest] assms(3) by simp

text \<open>A version command, and a command that counts its calls in the world and returns an error when it has no argument.\<close>

definition version_cmd :: "nat shell_cmd" where
  "version_cmd = \<lparr>cmd_str = str ''version'', cmd_handler = version_handler (str ''v1''), cmd_help = Some version_help\<rparr>"

definition count_cmd :: "nat shell_cmd" where
  "count_cmd = \<lparr>cmd_str = str ''count'', cmd_handler = (\<lambda>n argv s. Some (if n < 2 then - EINVAL else 0, s\<lparr>sh_world := Suc (sh_world s)\<rparr>)), cmd_help = None\<rparr>"

definition ex_act :: "nat shell_cmd \<Rightarrow> u8 list list \<Rightarrow> nat \<Rightarrow> int \<times> u8 list \<times> nat" where
  "ex_act c argv w = (if cmd_str c = str ''version'' then (0, str ''v1'', w) else (if length argv < 2 then - EINVAL else 0, [], Suc w))"

definition ex_line :: "nat shell" where
  "ex_line = \<lparr>sh_data = Sh_data \<lparr>sd_curr = 27, sd_buf = str ''version;count;abc x;count 1'' @ [0]\<rparr>, sh_out = [], sh_terminated = 0, sh_world = 0\<rparr>"

lemma ex_keeps_line: "keeps_line [version_cmd, count_cmd] ex_act"
  by (simp add: keeps_line_def version_cmd_def count_cmd_def ex_act_def version_handler_def sh_print_def of_char_def)

theorem run_line_in_order_witness:
  "\<exists>buf. length buf = 28 \<and>
    run_cmds [version_cmd, count_cmd] 0 ex_line
    = Some \<lparr>sh_data = Sh_data \<lparr>sd_curr = 27, sd_buf = buf\<rparr>, sh_out = str ''v1error exec cmd count'' @ 10 # str ''unknown cmd abc'' @ [10], sh_terminated = 0, sh_world = 2\<rparr>"
proof -
  define cs :: "command list" where "cs = [(str ''version'', []), (str ''count'', []), (str ''abc'', [(0, str ''x'')]), (str ''count'', [(0, str ''1'')])]"
  have "list_all command_ok cs" by (simp add: cs_def command_ok_def word_char_def MAX_ARGV_def of_char_def)
  moreover have "line_text cs = str ''version;count;abc x;count 1'' @ [0]" by (simp add: cs_def command_text_def of_char_def)
  moreover have "fold (run_command [version_cmd, count_cmd] ex_act) cs ([], 0) = (str ''v1error exec cmd count'' @ 10 # str ''unknown cmd abc'' @ [10], 2)"
    by (simp add: cs_def run_command_def ex_act_def version_cmd_def count_cmd_def words_def EINVAL_def of_char_def)
  ultimately show ?thesis
    using run_line_in_order [OF ex_keeps_line, of ex_line "\<lparr>sd_curr = 27, sd_buf = str ''version;count;abc x;count 1'' @ [0]\<rparr>" cs "[]"]
    by (auto simp: ex_line_def eval_nat_numeral)
qed

section \<open>Leaving the shell\<close>

lemma run_cmds_exit:
  assumes "find_cmd cmds (fst c) = Some x" "cmd_handler x = exit_handler E" "command_ok c" "t = 0 \<or> t = 59"
    and "sh_data s = Sh_data d" "drop pos (sd_buf d) = command_text c @ t # rest"
  shows "run_cmds cmds pos s = None"
proof -
  have w: "words c \<noteq> []" "words c ! 0 = fst c" by (simp_all add: words_def)
  obtain used s' where s': "do_cmd cmds pos s = Some (used, s')" "sh_data s' = Sh_freed"
    using assms w parse_args_line [OF assms(3,4), of rest]
    by (auto simp: do_cmd_def exit_handler_def shell_exit_def Let_def)
  then show ?thesis
    using run_cmds_start [OF assms(5)] command_text_Cons [OF assms(3)] assms(6)
    by (auto simp: run_cmds.simps [of _ _ s'])
qed

text \<open>
  Leaving the shell leaves a pointer to freed memory. The exit command frees the line buffer while
  the loop over the line still reads it, and after an end-of-transmission character the next input uses the buffer, because
  \<open>__shell_exit\<close> clears its own copy of the pointer only.
\<close>
theorem exit_uses_freed_buffer:
  assumes "sh_data s = Sh_data d" "sd_curr d = 0" "length (sd_buf d) = SHELL_BUF"
    and "find_cmd cmds (str ''exit'') = Some x" "cmd_handler x = exit_handler E"
  shows "(env_read E SHELL_BUF (sh_world s) = (5, str ''exit'' @ [13], w) \<longrightarrow> shell_input_handle cmds E s = None)
    \<and> (env_read E SHELL_BUF (sh_world s) = (1, [4], w) \<longrightarrow>
       (\<exists>s'. shell_input_handle cmds E s = Some s' \<and> shell_input_handle cmds E s' = None))"
proof (intro conjI impI)
  show "\<exists>s'. shell_input_handle cmds E s = Some s' \<and> shell_input_handle cmds E s' = None"
    if "env_read E SHELL_BUF (sh_world s) = (1, [4], w)"
    using that assms by (simp add: shell_input_handle_def shell_exit_def Let_def)
  assume read: "env_read E SHELL_BUF (sh_world s) = (5, str ''exit'' @ [13], w)"
  let ?c = "(str ''exit'', []) :: command"
  let ?buf = "(copy_at (sd_buf d) 0 (str ''exit'' @ [13]))[Suc (Suc (Suc (Suc 0))) := 0]"
  have ok: "command_ok ?c" by (simp add: command_ok_def word_char_def of_char_def MAX_ARGV_def)
  obtain rest where rest: "?buf = command_text ?c @ 0 # rest"
    using assms(3) by (simp add: copy_at_def command_text_def)
  have "run_cmds cmds 0 s' = None" if "sh_data s' = Sh_data (d\<lparr>sd_curr := 5, sd_buf := ?buf\<rparr>)" for s'
    using assms(4,5) ok rest that by (intro run_cmds_exit [of _ ?c _ _ 0]) auto
  with read assms(1,2) show "shell_input_handle cmds E s = None"
    by (simp add: shell_input_handle_def Let_def of_char_def)
qed

definition exit_env :: "unit shell_env" where
  "exit_env = \<lparr>env_read = \<lambda>n w. (5, str ''exit'' @ [13], w), env_alloc = Pair True, env_free = id\<rparr>"

definition exit_cmd :: "unit shell_cmd" where
  "exit_cmd = \<lparr>cmd_str = str ''exit'', cmd_handler = exit_handler exit_env, cmd_help = Some exit_help\<rparr>"

theorem exit_uses_freed_buffer_witness:
  "shell_input_handle [exit_cmd] exit_env
     (shell_start_handle exit_env \<lparr>sh_data = Sh_null, sh_out = [], sh_terminated = 0, sh_world = ()\<rparr>) = None"
  using exit_uses_freed_buffer [of "shell_start_handle exit_env \<lparr>sh_data = Sh_null, sh_out = [], sh_terminated = 0, sh_world = ()\<rparr>"
      "\<lparr>sd_curr = 0, sd_buf = replicate SHELL_BUF 0\<rparr>" "[exit_cmd]" exit_cmd exit_env "()"]
  by (simp add: shell_start_handle_def exit_env_def exit_cmd_def find_cmd_def)

text \<open>A space at the end of a command that fills the buffer takes the search for arguments past the end.\<close>

lemma trailing_space_overrun:
  assumes "list_all word_char w"
  shows "parse_args (w @ [32, 0]) = None"
proof -
  have "find_args 1 p (w @ [32, 0]) = None" for p
    using assms by (induction w arbitrary: p) (auto simp: find_args.simps [of _ _ "_ # _"] find_args.simps [of _ _ "[]"] word_char_def MAX_ARGV_def)
  then show ?thesis by (simp add: parse_args_def)
qed

end
