(* ===== verification/Lininoio.thy ===== *)
theory Lininoio
  imports BufferQueue
begin

text \<open>
  The Lininoio task of \<^verbatim>\<open>lininoio/core.c\<close> over the asynchronous interface of \<^verbatim>\<open>lib/pipe.c\<close>: it asks a
  host for an association, keeps receive buffers queued and hands received packets to its channels.

  The pipe is known by its buffer queue, which is that of \<^verbatim>\<open>BufferQueue\<close>; the operation around a
  descriptor and the bytes it points to are kept beside it, by the number of the descriptor. The header with the packet layouts
  comes from outside the repository: what the code takes from it is the record \<open>lininoio_format\<close>. Channels are
  functions on their own state.
\<close>

section \<open>Asynchronous pipes\<close>

text \<open>The argument is the queue of the pipe, \<open>None\<close> when the device has no \<^verbatim>\<open>get_bqueue\<close> operation.\<close>

definition pipe_async_get_buf :: "nat option \<Rightarrow> 'e bqsys \<Rightarrow> nat option \<times> 'e bqsys" where
  "pipe_async_get_buf q s = (case q of None \<Rightarrow> (None, s) | Some q \<Rightarrow> bathos_bqueue_get_buf q s)"

definition pipe_async_start :: "nat option \<Rightarrow> 'e option \<Rightarrow> 'e \<Rightarrow> 'e bqsys \<Rightarrow> int \<times> 'e bqsys" where
  "pipe_async_start q available processed s =
     (case q of None \<Rightarrow> (- EINVAL, s)
      | Some q \<Rightarrow>
          let (stat, s) = bathos_bqueue_client_init q available processed s
          in if stat < 0 then (stat, s) else bathos_bqueue_start q s)"

section \<open>Data\<close>

datatype bathos_buffer_op_type = NONE | SEND | RECV | BIDIR

datatype bathos_buffer_op_address_type =
  DONTCARE | LOCAL_MEMORY_NOINC | LOCAL_MEMORY_INC | REMOTE_MAC | SPIM | SPIS

record bathos_buffer_op_address =
  addr_type :: bathos_buffer_op_address_type
  addr_length :: nat
  addr_val :: "u8 list"

record bathos_buffer_op =
  op_type :: bathos_buffer_op_type
  op_addr :: bathos_buffer_op_address

datatype lininoio_state = UNASSOCIATED | ASSOCIATING | ASSOCIATED

text \<open>The pointers that are handed to a channel: the task's own data or the bytes of a descriptor.\<close>

datatype lin_ptr = Lin_global | Lin_packet nat

record 'c lininoio_channel =
  ch_contents_id :: u16
  ch_init :: "(nat option \<Rightarrow> 'c \<Rightarrow> int \<times> 'c) option"
  ch_setup :: "(nat \<Rightarrow> nat \<Rightarrow> 'c \<Rightarrow> int \<times> 'c) option"
  ch_input :: "(lin_ptr \<Rightarrow> u16 \<Rightarrow> 'c \<Rightarrow> int \<times> 'c) option"

record lininoio_format =
  pf_arequest :: "u8 list \<Rightarrow> u16 list \<Rightarrow> u8 list \<Rightarrow> u8 list"
  pf_alive :: "u8 list \<Rightarrow> u8 list"
  pf_arequest_size :: nat
  pf_descr_size :: nat
  pf_areply_size :: nat
  pf_adata_size :: nat
  pf_type :: "u8 list \<Rightarrow> nat"
  pf_AREPLY :: nat
  pf_DATA :: nat
  pf_status :: "u8 list \<Rightarrow> nat"
  pf_chan_dlen :: "u8 list \<Rightarrow> nat \<Rightarrow> u16"
  pf_cdlen :: "u8 list \<Rightarrow> u16"
  lininoio_decode_cdlen :: "u16 \<Rightarrow> u16 \<times> u8"

record ('e, 'c) lininoio_cfg =
  cfg_format :: lininoio_format
  cfg_slave_name :: "u8 list"
  cfg_rx_buffers :: int
  cfg_channels :: "'c lininoio_channel list"
  evt_lininoio_buf_available :: 'e
  evt_lininoio_buf_processed :: 'e

text \<open>\<open>lin_pipe\<close> is the open pipe, as its queue; \<open>lin_warn\<close> counts the messages that report an error.\<close>

record ('e, 'c) lininoio_data =
  lin_pipe :: "nat option option"
  lin_host_address :: bathos_buffer_op_address
  lin_state :: lininoio_state
  lin_activity :: int
  lin_outstanding_rx_buffers :: int
  lin_started :: bool
  lin_sys :: "'e bqsys"
  lin_op :: "nat \<Rightarrow> bathos_buffer_op"
  lin_mem :: "nat \<Rightarrow> u8 list"
  lin_chan :: 'c
  lin_warn :: nat

definition lin_printf :: "('e, 'c) lininoio_data \<Rightarrow> ('e, 'c) lininoio_data" where
  "lin_printf s = s\<lparr>lin_warn := lin_warn s + 1\<rparr>"

section \<open>Start\<close>

definition init_channel :: "nat option \<Rightarrow> 'c lininoio_channel \<Rightarrow> ('e, 'c) lininoio_data \<Rightarrow> ('e, 'c) lininoio_data" where
  "init_channel q c s = (case ch_init c of None \<Rightarrow> s | Some f \<Rightarrow> s\<lparr>lin_chan := snd (f q (lin_chan s))\<rparr>)"

text \<open>\<open>opened\<close> is what \<open>pipe_open\<close> returns.\<close>

definition lininoio_init ::
  "('e, 'c) lininoio_cfg \<Rightarrow> nat option option \<Rightarrow> ('e, 'c) lininoio_data \<Rightarrow> int \<times> ('e, 'c) lininoio_data" where
  "lininoio_init cfg opened s =
     (let s = s\<lparr>lin_host_address := \<lparr>addr_type = DONTCARE, addr_length = 0, addr_val = replicate 8 0\<rparr>,
                lin_state := UNASSOCIATED, lin_activity := 0, lin_outstanding_rx_buffers := 0, lin_pipe := opened\<rparr>
      in case opened of
           None \<Rightarrow> (- ENODEV, lin_printf s)
         | Some q \<Rightarrow>
             let (stat, sys) = pipe_async_start q (Some (evt_lininoio_buf_available cfg)) (evt_lininoio_buf_processed cfg) (lin_sys s);
                 s = s\<lparr>lin_sys := sys\<rparr>;
                 s = (if stat < 0 then lin_printf s else s)
             in (stat, fold (init_channel q) (cfg_channels cfg) s))"

section \<open>Periodic job\<close>

definition association_request :: "('e, 'c) lininoio_cfg \<Rightarrow> nat \<Rightarrow> ('e, 'c) lininoio_data \<Rightarrow> ('e, 'c) lininoio_data" where
  "association_request cfg b s =
     (let f = cfg_format cfg; i = length (cfg_channels cfg);
          s = s\<lparr>lin_mem := (lin_mem s)(b := pf_arequest f (cfg_slave_name cfg) (map ch_contents_id (cfg_channels cfg)) (lin_mem s b))\<rparr>
      in s\<lparr>lin_sys := set_buf b ((the_buf b (lin_sys s))\<lparr>bd_data_size := pf_arequest_size f + pf_descr_size f * (i + 1)\<rparr>) (lin_sys s)\<rparr>)"

definition send_alive :: "('e, 'c) lininoio_cfg \<Rightarrow> nat \<Rightarrow> ('e, 'c) lininoio_data \<Rightarrow> ('e, 'c) lininoio_data" where
  "send_alive cfg b s = s\<lparr>lin_mem := (lin_mem s)(b := pf_alive (cfg_format cfg) (lin_mem s b))\<rparr>"

definition get_buf :: "nat option \<Rightarrow> ('e, 'c) lininoio_data \<Rightarrow> nat option \<times> ('e, 'c) lininoio_data" where
  "get_buf q s =
     (let (b, sys) = pipe_async_get_buf q (lin_sys s); s = s\<lparr>lin_sys := sys\<rparr>
      in case b of
           None \<Rightarrow> (None, lin_printf s)
         | Some b \<Rightarrow> if bd_data (the_buf b sys) = None then (None, lin_printf s) else (Some b, s))"

definition put_buf :: "nat \<Rightarrow> ('e, 'c) lininoio_data \<Rightarrow> ('e, 'c) lininoio_data" where
  "put_buf b s = s\<lparr>lin_sys := bdescr_put b (lin_sys s)\<rparr>"

text \<open>The broadcast address, with the Ethernet type behind it.\<close>

definition broadcast_address :: "bathos_buffer_op_address \<Rightarrow> bathos_buffer_op_address" where
  "broadcast_address a = a\<lparr>addr_val := replicate 6 0xff @ [0x86, 0xb5] @ drop 8 (addr_val a), addr_type := REMOTE_MAC, addr_length := 6\<rparr>"

definition set_op :: "nat \<Rightarrow> (bathos_buffer_op \<Rightarrow> bathos_buffer_op) \<Rightarrow> ('e, 'c) lininoio_data \<Rightarrow> ('e, 'c) lininoio_data" where
  "set_op b f s = s\<lparr>lin_op := (lin_op s)(b := f (lin_op s b))\<rparr>"

definition lininoio_periodic :: "('e, 'c) lininoio_cfg \<Rightarrow> ('e, 'c) lininoio_data \<Rightarrow> ('e, 'c) lininoio_data" where
  "lininoio_periodic cfg s =
     (case lin_pipe s of
        None \<Rightarrow> s
      | Some q \<Rightarrow>
          let s = (if lin_started s then s
                   else s\<lparr>lin_started := True,
                          lin_sys := snd (pipe_async_start q (Some (evt_lininoio_buf_available cfg)) (evt_lininoio_buf_processed cfg) (lin_sys s))\<rparr>)
          in case get_buf q s of
               (None, s) \<Rightarrow> s
             | (Some b, s) \<Rightarrow>
                 (case lin_state s of
                    ASSOCIATING \<Rightarrow> s
                  | ASSOCIATED \<Rightarrow>
                      if lin_activity s \<noteq> 0 \<and> lin_activity s \<noteq> - 1 then s
                      else put_buf b (set_op b (\<lambda>op. op\<lparr>op_type := SEND, op_addr := lin_host_address s\<rparr>)
                             ((send_alive cfg b s)\<lparr>lin_activity := - 1\<rparr>))
                  | UNASSOCIATED \<Rightarrow>
                      put_buf b ((set_op b (\<lambda>op. op\<lparr>op_addr := broadcast_address (op_addr op), op_type := SEND\<rparr>)
                             (association_request cfg b s))\<lparr>lin_state := ASSOCIATING\<rparr>)))"

section \<open>Buffers\<close>

function lininoio_buf_available_handle :: "('e, 'c) lininoio_cfg \<Rightarrow> ('e, 'c) lininoio_data \<Rightarrow> ('e, 'c) lininoio_data option" where
  "lininoio_buf_available_handle cfg s =
     (if lin_outstanding_rx_buffers s < cfg_rx_buffers cfg then
        (case lin_pipe s of None \<Rightarrow> None
         | Some q \<Rightarrow>
             case pipe_async_get_buf q (lin_sys s) of
               (None, sys) \<Rightarrow> Some (s\<lparr>lin_sys := sys\<rparr>)
             | (Some b, sys) \<Rightarrow>
                 let s = put_buf b (set_op b (\<lambda>op. op\<lparr>op_type := RECV\<rparr>) (s\<lparr>lin_sys := sys\<rparr>))
                 in lininoio_buf_available_handle cfg (s\<lparr>lin_outstanding_rx_buffers := lin_outstanding_rx_buffers s + 1\<rparr>))
      else Some s)"
  by pat_completeness auto
termination
  by (relation "measure (\<lambda>(cfg, s). nat (cfg_rx_buffers cfg - lin_outstanding_rx_buffers s))")
    (auto simp: put_buf_def set_op_def)

declare lininoio_buf_available_handle.simps [simp del]

section \<open>Received packets\<close>

text \<open>
  The loop over an association reply, with the bytes processed so far and the index of the association data.
  A channel gets the address of its association data, as the descriptor and the index.
  \<open>None\<close> is a loop that does not end.
\<close>

partial_function (option) areply_loop ::
  "('e, 'c) lininoio_cfg \<Rightarrow> nat \<Rightarrow> nat \<Rightarrow> nat \<Rightarrow> nat \<Rightarrow> ('e, 'c) lininoio_data \<Rightarrow> ('e, 'c) lininoio_data option" where
  "areply_loop cfg b sz processed i s =
     (if processed < sz then
        let f = cfg_format cfg;
            (len, cindex) = lininoio_decode_cdlen f (pf_chan_dlen f (lin_mem s b) i);
            s = (if unat cindex \<ge> length (cfg_channels cfg) then lin_printf s
                 else case ch_setup (cfg_channels cfg ! unat cindex) of
                        None \<Rightarrow> s
                      | Some setup \<Rightarrow>
                          let (stat, c) = setup b i (lin_chan s); s = s\<lparr>lin_chan := c\<rparr>
                          in if stat < 0 then lin_printf s else s)
        in areply_loop cfg b sz (processed + unat len + pf_adata_size f) (i + 1) s
      else Some s)"

definition process_areply ::
  "('e, 'c) lininoio_cfg \<Rightarrow> nat \<Rightarrow> nat \<Rightarrow> ('e, 'c) lininoio_data \<Rightarrow> ('e, 'c) lininoio_data option" where
  "process_areply cfg b sz s =
     (if pf_status (cfg_format cfg) (lin_mem s b) \<noteq> 0 then Some (lin_printf s)
      else areply_loop cfg b sz (pf_areply_size (cfg_format cfg)) 0 s)"

text \<open>The channel is handed the task's own data where the packet is meant.\<close>

definition process_data :: "('e, 'c) lininoio_cfg \<Rightarrow> nat \<Rightarrow> ('e, 'c) lininoio_data \<Rightarrow> ('e, 'c) lininoio_data" where
  "process_data cfg b s =
     (let f = cfg_format cfg; (len, cindex) = lininoio_decode_cdlen f (pf_cdlen f (lin_mem s b))
      in if unat cindex \<ge> length (cfg_channels cfg) then lin_printf s
         else case ch_input (cfg_channels cfg ! unat cindex) of
                None \<Rightarrow> s
              | Some input \<Rightarrow>
                  let (stat, c) = input Lin_global len (lin_chan s); s = s\<lparr>lin_chan := c\<rparr>
                  in if stat < 0 then lin_printf s else s)"

definition process_input :: "('e, 'c) lininoio_cfg \<Rightarrow> nat \<Rightarrow> ('e, 'c) lininoio_data \<Rightarrow> ('e, 'c) lininoio_data option" where
  "process_input cfg b s =
     (let d = the_buf b (lin_sys s); f = cfg_format cfg; t = pf_type f (lin_mem s b)
      in if bd_data d = None then Some (lin_printf s)
         else map_option (put_buf b)
                (if t = pf_AREPLY f then process_areply cfg b (bd_data_size d) s
                 else if t = pf_DATA f then Some (process_data cfg b s)
                 else Some (lin_printf s)))"

definition lininoio_buf_processed_handle ::
  "('e, 'c) lininoio_cfg \<Rightarrow> nat option \<Rightarrow> ('e, 'c) lininoio_data \<Rightarrow> ('e, 'c) lininoio_data option" where
  "lininoio_buf_processed_handle cfg b s =
     (case b of
        None \<Rightarrow> Some (lin_printf s)
      | Some b \<Rightarrow>
          (case op_type (lin_op s b) of
             SEND \<Rightarrow> Some (s\<lparr>lin_activity := lin_activity s + 1\<rparr>)
           | RECV \<Rightarrow> process_input cfg b s
           | NONE \<Rightarrow> Some (lin_printf s)
           | BIDIR \<Rightarrow> Some s))"

section \<open>Device over a channel\<close>

text \<open>
  \<^verbatim>\<open>drivers/lininoio-dev.c\<close>. The private data of the device are at an address from the allocator; the pointer in the
  device is null, valid or dangling. \<open>None\<close> is a use of freed memory.
\<close>

datatype lininoio_dev_priv = Priv_null | Priv_freed | Priv nat int

definition lininoio_dev_open ::
  "alloc_cfg \<Rightarrow> int \<Rightarrow> bool \<Rightarrow> lininoio_dev_priv \<Rightarrow> ('e, 'c) lininoio_data \<Rightarrow> int \<times> lininoio_dev_priv \<times> ('e, 'c) lininoio_data" where
  "lininoio_dev_open c priv_size has_chan priv s =
     (if \<not> has_chan then (- ENODEV, priv, lin_printf s)
      else if priv \<noteq> Priv_null then (0, priv, s)
      else let (a, al) = bathos_alloc_buffer c priv_size (bw_alloc (ev_world (lin_sys s)));
               s = s\<lparr>lin_sys := (lin_sys s)\<lparr>ev_world := (ev_world (lin_sys s))\<lparr>bw_alloc := al\<rparr>\<rparr>\<rparr>
           in case a of None \<Rightarrow> (- ENOMEM, priv, s) | Some a \<Rightarrow> (0, Priv a 1, s))"

definition lininoio_dev_write ::
  "nat option \<Rightarrow> lininoio_dev_priv \<Rightarrow> u8 list \<Rightarrow> int \<Rightarrow> ('e, 'c) lininoio_data \<Rightarrow> (int \<times> ('e, 'c) lininoio_data) option" where
  "lininoio_dev_write q priv buf len s =
     (if len < 0 then Some (- EINVAL, lin_printf s)
      else case priv of
        Priv_null \<Rightarrow> Some (- EINVAL, lin_printf s)
      | Priv_freed \<Rightarrow> None
      | Priv a n \<Rightarrow>
          (case pipe_async_get_buf q (lin_sys s) of
             (None, sys) \<Rightarrow> Some (- EAGAIN, s\<lparr>lin_sys := sys\<rparr>)
           | (Some b, sys) \<Rightarrow>
               let s = s\<lparr>lin_sys := sys\<rparr>
               in if bd_data (the_buf b sys) = None then Some (- EINVAL, lin_printf s)
                  else let l = min len (int (bd_data_size (the_buf b sys)));
                           s = s\<lparr>lin_mem := (lin_mem s)(b := copy_at (lin_mem s b) 0 (take (nat l) buf))\<rparr>
                       in Some (l, if l < len then lin_printf s else s)))"

definition lininoio_dev_close ::
  "alloc_cfg \<Rightarrow> int \<Rightarrow> lininoio_dev_priv \<Rightarrow> ('e, 'c) lininoio_data \<Rightarrow> (int \<times> lininoio_dev_priv \<times> ('e, 'c) lininoio_data) option" where
  "lininoio_dev_close c priv_size priv s =
     (case priv of
        Priv a n \<Rightarrow>
          if n > 1 then Some (0, Priv a (n - 1), s)
          else map_option (\<lambda>al. (0, Priv_freed, s\<lparr>lin_sys := (lin_sys s)\<lparr>ev_world := (ev_world (lin_sys s))\<lparr>bw_alloc := al\<rparr>\<rparr>\<rparr>))
                 (bathos_free_buffer c (int a) priv_size (bw_alloc (ev_world (lin_sys s))))
      | _ \<Rightarrow> None)"

end
