(* ===== verification/LininoioProps.thy ===== *)
theory LininoioProps
  imports Lininoio
begin

text \<open>
  What the Lininoio task achieves: it keeps the configured number of receive buffers queued. And what it does not: no
  step takes it to the associated state, and while it waits it takes one buffer out of the queue in every period, without releasing it.
\<close>

section \<open>Buffers taken from a queue\<close>

definition free_bufs :: "nat \<Rightarrow> ('e, 'c) lininoio_data \<Rightarrow> nat list" where
  "free_bufs q s = bq_free_bufs (the_queue q (lin_sys s))"

lemma get_buf_first:
  assumes "\<not> bq_stopped (the_queue q s)" "bq_free_bufs (the_queue q s) = b # bs"
  obtains s' where "bathos_bqueue_get_buf q s = (Some b, s')"
    and "the_queue q s' = (the_queue q s)\<lparr>bq_free_bufs := bs, bq_busy_bufs := b # bq_busy_bufs (the_queue q s)\<rparr>"
    and "the_buf b s' = (the_buf b s)\<lparr>bd_release_event := bq_setup_event (the_queue q s), bd_users := bd_users (the_buf b s) + 1\<rparr>"
    and "\<And>x. x \<noteq> b \<Longrightarrow> the_buf x s' = the_buf x s" "ev_queue s' = ev_queue s" "ev_wf s' = ev_wf s" "ev_cap s' = ev_cap s"
  using assms
  by (intro that [of "snd (bathos_bqueue_get_buf q s)"])
    (simp_all add: bathos_bqueue_get_buf_def bdescr_remap_release_event_def bdescr_get_def Let_def)

lemma get_buf_none:
  assumes "bq_stopped (the_queue q s) \<or> bq_free_bufs (the_queue q s) = []"
  shows "bathos_bqueue_get_buf q s = (None, s)"
  using assms by (auto simp: bathos_bqueue_get_buf_def Let_def)

lemma lin_simps [simp]:
  "lin_sys (lin_printf s) = lin_sys s" "lin_state (lin_printf s) = lin_state s" "lin_pipe (lin_printf s) = lin_pipe s"
  "lin_started (lin_printf s) = lin_started s"
  "lin_state (put_buf b s) = lin_state s" "lin_state (set_op b f s) = lin_state s"
  "lin_sys (put_buf b s) = bdescr_put b (lin_sys s)" "lin_sys (set_op b f s) = lin_sys s"
  "lin_pipe (put_buf b s) = lin_pipe s" "lin_pipe (set_op b f s) = lin_pipe s"
  "lin_outstanding_rx_buffers (put_buf b s) = lin_outstanding_rx_buffers s"
  "lin_outstanding_rx_buffers (set_op b f s) = lin_outstanding_rx_buffers s"
  "lin_op (put_buf b s) = lin_op s" "lin_op (set_op b f s) = (lin_op s)(b := f (lin_op s b))"
  "lin_state (send_alive cfg b s) = lin_state s" "lin_state (association_request cfg b s) = lin_state s"
  by (simp_all add: lin_printf_def put_buf_def set_op_def send_alive_def association_request_def Let_def)

section \<open>Association\<close>

text \<open>The steps of the task, and of everything else, which cannot change its data.\<close>

inductive lininoio_step :: "('e, 'c) lininoio_cfg \<Rightarrow> ('e, 'c) lininoio_data \<Rightarrow> ('e, 'c) lininoio_data \<Rightarrow> bool" for cfg where
  step_init: "lininoio_init cfg opened s = (r, s') \<Longrightarrow> lininoio_step cfg s s'"
| step_periodic: "lininoio_step cfg s (lininoio_periodic cfg s)"
| step_available: "lininoio_buf_available_handle cfg s = Some s' \<Longrightarrow> lininoio_step cfg s s'"
| step_processed: "lininoio_buf_processed_handle cfg b s = Some s' \<Longrightarrow> lininoio_step cfg s s'"
| step_other: "lininoio_step cfg s (s\<lparr>lin_sys := sys, lin_op := ops, lin_mem := mem, lin_chan := c\<rparr>)"

lemma init_channels_state: "lin_state (fold (init_channel q) cs s) = lin_state s"
  by (induction cs arbitrary: s) (auto simp: init_channel_def split: option.split)

lemma lininoio_init_state: "lininoio_init cfg opened s = (r, s') \<Longrightarrow> lin_state s' = UNASSOCIATED"
  by (auto simp: lininoio_init_def Let_def init_channels_state split: option.splits prod.splits)

lemma get_buf_state: "lin_state (snd (get_buf q s)) = lin_state s"
  by (auto simp: get_buf_def Let_def split: prod.split option.split)

lemma lininoio_periodic_state:
  assumes "lin_state s \<noteq> ASSOCIATED"
  shows "lin_state (lininoio_periodic cfg s) \<noteq> ASSOCIATED"
proof -
  have "lin_state s' \<noteq> ASSOCIATED" if "get_buf q x = (b, s')" "lin_state x = lin_state s" for q x b s'
    using get_buf_state [of q x] that assms by simp
  then show ?thesis
    using assms by (auto simp: lininoio_periodic_def Let_def split: option.split prod.split lininoio_state.split)
qed

lemma lininoio_available_state: "lininoio_buf_available_handle cfg s = Some s' \<Longrightarrow> lin_state s' = lin_state s"
proof (induction cfg s arbitrary: s' rule: lininoio_buf_available_handle.induct)
  case (1 cfg s)
  from 1(2) show ?case
    by (subst (asm) lininoio_buf_available_handle.simps)
      (auto simp: Let_def split: if_splits option.splits prod.splits dest!: 1(1))
qed

lemma areply_loop_state:
  assumes "areply_loop cfg b sz n i s = Some s'"
  shows "lin_state s' = lin_state s"
proof (rule areply_loop.raw_induct [where P = "\<lambda>cfg b sz n i s s'. lin_state s' = lin_state s", OF _ assms])
  fix f :: "('a, 'b) lininoio_cfg \<Rightarrow> nat \<Rightarrow> nat \<Rightarrow> nat \<Rightarrow> nat \<Rightarrow> ('a, 'b) lininoio_data \<Rightarrow> ('a, 'b) lininoio_data option"
    and cfg :: "('a, 'b) lininoio_cfg" and b sz n i and s y :: "('a, 'b) lininoio_data"
  assume IH: "\<And>cfg b sz n i s y. f cfg b sz n i s = Some y \<Longrightarrow> lin_state y = lin_state s"
    and F: "(if n < sz then
        let g = cfg_format cfg; (len, cindex) = lininoio_decode_cdlen g (pf_chan_dlen g (lin_mem s b) i);
            s = (if length (cfg_channels cfg) \<le> unat cindex then lin_printf s
                 else case ch_setup (cfg_channels cfg ! unat cindex) of None \<Rightarrow> s
                      | Some setup \<Rightarrow> let (stat, c) = setup b i (lin_chan s); s = s\<lparr>lin_chan := c\<rparr> in if stat < 0 then lin_printf s else s)
        in f cfg b sz (n + unat len + pf_adata_size g) (i + 1) s
      else Some s) = Some y"
  then show "lin_state y = lin_state s"
    by (auto simp: Let_def split: if_splits option.splits prod.splits dest!: IH)
qed

lemma lininoio_processed_state:
  assumes "lininoio_buf_processed_handle cfg b s = Some s'"
  shows "lin_state s' = lin_state s"
  using assms
  by (auto simp: lininoio_buf_processed_handle_def process_input_def process_areply_def process_data_def Let_def areply_loop_state
      split: option.splits bathos_buffer_op_type.splits if_splits prod.splits)

lemma lininoio_step_state:
  assumes "lininoio_step cfg s s'" "lin_state s \<noteq> ASSOCIATED"
  shows "lin_state s' \<noteq> ASSOCIATED"
  using assms(1)
proof cases
  case (step_init opened r)
  then show ?thesis using lininoio_init_state by fastforce
next
  case step_periodic
  then show ?thesis using lininoio_periodic_state assms(2) by simp
qed (use assms(2) in \<open>auto dest: lininoio_available_state lininoio_processed_state\<close>)

text \<open>
  The task never becomes associated: after its initialisation no sequence of its handlers and of steps of the
  rest of the system leads to the state in which the host has accepted it, whatever packets arrive.
\<close>
theorem lininoio_never_associated:
  assumes "lininoio_init cfg opened s0 = (r, s)" "(lininoio_step cfg)\<^sup>*\<^sup>* s s'"
  shows "lin_state s' \<noteq> ASSOCIATED"
  using assms(2)
proof (induction rule: rtranclp_induct)
  case base
  then show ?case using lininoio_init_state [OF assms(1)] by simp
next
  case (step y z)
  then show ?case using lininoio_step_state by blast
qed

lemma periodic_associating:
  assumes "lin_state s = ASSOCIATING" "lin_started s" "lin_pipe s = Some (Some q)" "\<not> bq_stopped (the_queue q (lin_sys s))"
    and s'_def: "s' = lininoio_periodic cfg s"
  shows "lin_state s' = ASSOCIATING" "lin_started s'" "lin_pipe s' = Some (Some q)" "\<not> bq_stopped (the_queue q (lin_sys s'))"
    "free_bufs q s' = tl (free_bufs q s)" "ev_queue (lin_sys s') = ev_queue (lin_sys s)"
proof -
  have "lin_state s' = ASSOCIATING \<and> lin_started s' \<and> lin_pipe s' = Some (Some q) \<and> \<not> bq_stopped (the_queue q (lin_sys s'))
    \<and> free_bufs q s' = tl (free_bufs q s) \<and> ev_queue (lin_sys s') = ev_queue (lin_sys s)"
  proof (cases "bq_free_bufs (the_queue q (lin_sys s))")
    case Nil
    then show ?thesis
      using assms(1-4) get_buf_none [of q "lin_sys s"]
      by (simp add: s'_def lininoio_periodic_def get_buf_def pipe_async_get_buf_def free_bufs_def Let_def)
  next
    case (Cons b bs)
    from get_buf_first [OF assms(4) Cons] obtain sys where
      sys: "bathos_bqueue_get_buf q (lin_sys s) = (Some b, sys)" "ev_queue sys = ev_queue (lin_sys s)"
      "the_queue q sys = (the_queue q (lin_sys s))\<lparr>bq_free_bufs := bs, bq_busy_bufs := b # bq_busy_bufs (the_queue q (lin_sys s))\<rparr>"
      by metis
    then show ?thesis
      using assms(1-4) Cons
      by (simp add: s'_def lininoio_periodic_def get_buf_def pipe_async_get_buf_def free_bufs_def Let_def split: if_split)
  qed
  then show "lin_state s' = ASSOCIATING" "lin_started s'" "lin_pipe s' = Some (Some q)" "\<not> bq_stopped (the_queue q (lin_sys s'))"
    "free_bufs q s' = tl (free_bufs q s)" "ev_queue (lin_sys s') = ev_queue (lin_sys s)" by blast+
qed

text \<open>
  While the task waits for the answer to its association request, every period takes a buffer out of the free list and
  neither sends nor returns it: after as many periods as there were free buffers none is left, and no event was triggered that would bring one back.
\<close>
theorem lininoio_waiting_starves:
  assumes "lin_state s = ASSOCIATING" "lin_started s" "lin_pipe s = Some (Some q)" "\<not> bq_stopped (the_queue q (lin_sys s))"
  shows "free_bufs q ((lininoio_periodic cfg ^^ n) s) = drop n (free_bufs q s)
    \<and> ev_queue (lin_sys ((lininoio_periodic cfg ^^ n) s)) = ev_queue (lin_sys s)"
  using assms
proof (induction n arbitrary: s)
  case (Suc n)
  note p = periodic_associating [OF Suc.prems refl, of cfg]
  from Suc.IH [OF p(1-4)] show ?case by (simp add: funpow_swap1 p(5,6) drop_Suc)
qed simp

section \<open>Receive buffers\<close>

definition recv_ready :: "nat \<Rightarrow> 'e \<Rightarrow> ('e, 'c) lininoio_data \<Rightarrow> bool" where
  "recv_ready q e s \<longleftrightarrow> lin_pipe s = Some (Some q) \<and> \<not> bq_stopped (the_queue q (lin_sys s)) \<and> ev_wf (lin_sys s)
     \<and> bq_setup_event (the_queue q (lin_sys s)) = Some e \<and> distinct (free_bufs q s)
     \<and> (\<forall>b\<in>set (free_bufs q s). bd_users (the_buf b (lin_sys s)) = 0)"

definition setup_events :: "'e \<Rightarrow> nat list \<Rightarrow> ('e, bq_ptr) pending_event list" where
  "setup_events e bs = map (\<lambda>b. \<lparr>pe_event = e, pe_data = Some (BPtr b)\<rparr>) bs"

lemma bdescr_put_released:
  assumes "bd_users (the_buf b s) = 1" "bd_release_event (the_buf b s) = Some e" "ev_wf s"
  shows "ev_queue (bdescr_put b s) = take (ev_cap s) (ev_queue s @ setup_events e [b])"
    "ev_wf (bdescr_put b s)" "ev_cap (bdescr_put b s) = ev_cap s" "the_queue q (bdescr_put b s) = the_queue q s"
    "x \<noteq> b \<Longrightarrow> the_buf x (bdescr_put b s) = the_buf x s"
proof -
  let ?s = "set_buf b ((the_buf b s)\<lparr>bd_users := 0\<rparr>) s" and ?p = "\<lparr>pe_event = e, pe_data = Some (BPtr b)\<rparr>"
  have p: "bdescr_put b s = ev_push ?p ?s"
    using assms by (simp add: bdescr_put_def Let_def ev_push_def)
  show "ev_queue (bdescr_put b s) = take (ev_cap s) (ev_queue s @ setup_events e [b])"
    using bdescr_put_last [OF assms] by (simp add: setup_events_def)
  show "ev_wf (bdescr_put b s)" "ev_cap (bdescr_put b s) = ev_cap s"
    using evq.push_inv [of ?s ?p] assms(3) by (simp_all add: p)
  show "the_queue q (bdescr_put b s) = the_queue q s" "x \<noteq> b \<Longrightarrow> the_buf x (bdescr_put b s) = the_buf x s"
    by (simp_all add: p ev_push_def)
qed

text \<open>One turn of the loop that queues receive buffers.\<close>

lemma recv_turn:
  assumes "recv_ready q e s" "free_bufs q s = b # bs" "lin_outstanding_rx_buffers s < cfg_rx_buffers cfg"
  obtains t where "lininoio_buf_available_handle cfg s = lininoio_buf_available_handle cfg t"
    and "recv_ready q e t" "free_bufs q t = bs" "lin_outstanding_rx_buffers t = lin_outstanding_rx_buffers s + 1"
    and "lin_op t = (lin_op s)(b := (lin_op s b)\<lparr>op_type := RECV\<rparr>)" "ev_cap (lin_sys t) = ev_cap (lin_sys s)"
    and "ev_queue (lin_sys t) = take (ev_cap (lin_sys s)) (ev_queue (lin_sys s) @ setup_events e [b])"
proof -
  have r: "lin_pipe s = Some (Some q)" "\<not> bq_stopped (the_queue q (lin_sys s))" "ev_wf (lin_sys s)"
    "bq_setup_event (the_queue q (lin_sys s)) = Some e" "distinct (b # bs)"
    "\<forall>x\<in>set (b # bs). bd_users (the_buf x (lin_sys s)) = 0" "bq_free_bufs (the_queue q (lin_sys s)) = b # bs"
    using assms(1,2) by (auto simp: recv_ready_def free_bufs_def)
  from get_buf_first [OF r(2,7)] obtain sys where
    get: "bathos_bqueue_get_buf q (lin_sys s) = (Some b, sys)" and
    q: "the_queue q sys = (the_queue q (lin_sys s))\<lparr>bq_free_bufs := bs, bq_busy_bufs := b # bq_busy_bufs (the_queue q (lin_sys s))\<rparr>" and
    b: "the_buf b sys = (the_buf b (lin_sys s))\<lparr>bd_release_event := Some e, bd_users := 1\<rparr>" and
    x: "\<And>x. x \<noteq> b \<Longrightarrow> the_buf x sys = the_buf x (lin_sys s)" and
    ev: "ev_queue sys = ev_queue (lin_sys s)" "ev_wf sys = ev_wf (lin_sys s)" "ev_cap sys = ev_cap (lin_sys s)"
    using r(4,6) by (metis add.commute add_0 list.set_intros(1))
  note put = bdescr_put_released [of b sys e]
  define t where "t = (put_buf b (set_op b (\<lambda>op. op\<lparr>op_type := RECV\<rparr>) (s\<lparr>lin_sys := sys\<rparr>)))
    \<lparr>lin_outstanding_rx_buffers := lin_outstanding_rx_buffers s + 1\<rparr>"
  have sys: "lin_sys t = bdescr_put b sys" by (simp add: t_def)
  have bs: "bd_users (the_buf x (bdescr_put b sys)) = 0" if "x \<in> set bs" for x
  proof -
    have ne: "x \<noteq> b" using that r(5) by auto
    with put(5) b ev(2) r(3) x show ?thesis using that r(6) by simp
  qed
  show thesis
  proof (rule that [of t])
    show "lininoio_buf_available_handle cfg s = lininoio_buf_available_handle cfg t"
      by (subst lininoio_buf_available_handle.simps) (simp add: assms(3) r(1) pipe_async_get_buf_def get t_def)
    show "recv_ready q e t" "free_bufs q t = bs"
      using put b ev r q bs by (simp_all add: recv_ready_def free_bufs_def sys) (simp_all add: t_def r)
    show "ev_queue (lin_sys t) = take (ev_cap (lin_sys s)) (ev_queue (lin_sys s) @ setup_events e [b])" "ev_cap (lin_sys t) = ev_cap (lin_sys s)"
      using put(1,3) b ev r(3) by (simp_all add: sys)
  qed (simp_all add: t_def)
qed

lemma take_append_absorb: "take m (take m xs @ ys) = take m (xs @ ys)"
  by (simp add: min_def)

lemma recv_loop:
  assumes "recv_ready q e s" "k = min (length (free_bufs q s)) (nat (cfg_rx_buffers cfg - lin_outstanding_rx_buffers s))"
  shows "\<exists>s'. lininoio_buf_available_handle cfg s = Some s'
    \<and> lin_outstanding_rx_buffers s' = lin_outstanding_rx_buffers s + int k
    \<and> free_bufs q s' = drop k (free_bufs q s)
    \<and> (\<forall>b. lin_op s' b = (if b \<in> set (take k (free_bufs q s)) then (lin_op s b)\<lparr>op_type := RECV\<rparr> else lin_op s b))
    \<and> ev_queue (lin_sys s') = take (ev_cap (lin_sys s)) (ev_queue (lin_sys s) @ setup_events e (take k (free_bufs q s)))"
  using assms
proof (induction "free_bufs q s" arbitrary: s k)
  case Nil
  then show ?case
    using get_buf_none [of q "lin_sys s"] evq.contents_cap [of "lin_sys s"]
    by (subst lininoio_buf_available_handle.simps) (auto simp: recv_ready_def free_bufs_def pipe_async_get_buf_def setup_events_def)
next
  case (Cons b bs)
  show ?case
  proof (cases "lin_outstanding_rx_buffers s < cfg_rx_buffers cfg")
    case False
    with Cons.prems evq.contents_cap [of "lin_sys s"] show ?thesis
      by (subst lininoio_buf_available_handle.simps) (simp add: setup_events_def recv_ready_def)
  next
    case True
    from recv_turn [OF Cons.prems(1) Cons.hyps(2) [symmetric] True] obtain t where
      t: "lininoio_buf_available_handle cfg s = lininoio_buf_available_handle cfg t" "recv_ready q e t" "free_bufs q t = bs"
      "lin_outstanding_rx_buffers t = lin_outstanding_rx_buffers s + 1"
      "lin_op t = (lin_op s)(b := (lin_op s b)\<lparr>op_type := RECV\<rparr>)" "ev_cap (lin_sys t) = ev_cap (lin_sys s)"
      "ev_queue (lin_sys t) = take (ev_cap (lin_sys s)) (ev_queue (lin_sys s) @ setup_events e [b])" by blast
    let ?k = "min (length bs) (nat (cfg_rx_buffers cfg - lin_outstanding_rx_buffers t))"
    have "nat (cfg_rx_buffers cfg - lin_outstanding_rx_buffers s) = Suc (nat (cfg_rx_buffers cfg - lin_outstanding_rx_buffers t))"
      using True t(4) by linarith
    then have k: "k = Suc ?k" using Cons.prems(2) Cons.hyps(2) [symmetric] by simp
    have ev: "take (ev_cap (lin_sys s)) (ev_queue (lin_sys t) @ setup_events e (take ?k bs)) =
        take (ev_cap (lin_sys s)) (ev_queue (lin_sys s) @ setup_events e (b # take ?k bs))"
      unfolding t(7) take_append_absorb by (simp add: setup_events_def)
    from Cons.hyps(1) [OF t(3) [symmetric] t(2), of ?k] t(3,6,7) obtain s' where
      s': "lininoio_buf_available_handle cfg t = Some s'"
      "lin_outstanding_rx_buffers s' = lin_outstanding_rx_buffers t + int ?k" "free_bufs q s' = drop ?k bs"
      "\<forall>x. lin_op s' x = (if x \<in> set (take ?k bs) then (lin_op t x)\<lparr>op_type := RECV\<rparr> else lin_op t x)"
      "ev_queue (lin_sys s') = take (ev_cap (lin_sys s)) (ev_queue (lin_sys t) @ setup_events e (take ?k bs))" by auto
    then show ?thesis
      unfolding Cons.hyps(2) [symmetric] k using t(1,4,5) ev by (intro exI [of _ s']) auto
  qed
qed

text \<open>
  C29. When buffers are available, the task queues receive buffers up to the configured number and as long as there are free
  ones: exactly these buffers are marked for receiving and released to the queue, in the order of the free list.
\<close>
theorem lininoio_rx_replenished:
  assumes "recv_ready q e s"
    and "k = min (length (free_bufs q s)) (nat (cfg_rx_buffers cfg - lin_outstanding_rx_buffers s))"
  shows "\<exists>s'. lininoio_buf_available_handle cfg s = Some s'
    \<and> lin_outstanding_rx_buffers s' = lin_outstanding_rx_buffers s + int k
    \<and> free_bufs q s' = drop k (free_bufs q s)
    \<and> (\<forall>b. lin_op s' b = (if b \<in> set (take k (free_bufs q s)) then (lin_op s b)\<lparr>op_type := RECV\<rparr> else lin_op s b))
    \<and> ev_queue (lin_sys s') = take (ev_cap (lin_sys s)) (ev_queue (lin_sys s) @ setup_events e (take k (free_bufs q s)))"
  using recv_loop [OF assms] .

section \<open>An example\<close>

definition ex_lin_cfg :: "(nat, unit) lininoio_cfg" where
  "ex_lin_cfg = \<lparr>cfg_format = \<lparr>pf_arequest = \<lambda>n cs m. m, pf_alive = id, pf_arequest_size = 24, pf_descr_size = 2,
       pf_areply_size = 2, pf_adata_size = 2, pf_type = \<lambda>m. unat (m ! 0), pf_AREPLY = 1, pf_DATA = 2,
       pf_status = \<lambda>m. unat (m ! 1), pf_chan_dlen = \<lambda>m i. 0, pf_cdlen = \<lambda>m. 0, lininoio_decode_cdlen = \<lambda>c. (0, 0)\<rparr>,
     cfg_slave_name = [], cfg_rx_buffers = 1, cfg_channels = [],
     evt_lininoio_buf_available = 3, evt_lininoio_buf_processed = 4\<rparr>"

definition ex_lin :: "(nat, unit) lininoio_data" where
  "ex_lin = \<lparr>lin_pipe = Some (Some 0), lin_host_address = \<lparr>addr_type = DONTCARE, addr_length = 0, addr_val = replicate 8 0\<rparr>,
     lin_state = ASSOCIATING, lin_activity = 0, lin_outstanding_rx_buffers = 0, lin_started = True, lin_sys = ex_bqsys,
     lin_op = \<lambda>_. \<lparr>op_type = NONE, op_addr = \<lparr>addr_type = DONTCARE, addr_length = 0, addr_val = []\<rparr>\<rparr>,
     lin_mem = \<lambda>_. [], lin_chan = (), lin_warn = 0\<rparr>"

lemma ex_lin_ready: "recv_ready 0 1 ex_lin" "free_bufs 0 ex_lin = [5, 6]" "ev_queue (lin_sys ex_lin) = []" "ev_cap (lin_sys ex_lin) = 3"
proof -
  have wf: "ev_wf ex_bqsys" unfolding ev_wf_def by (rule ring_wfI [of _ 2]) (simp_all add: ex_bqsys_def)
  then show "recv_ready 0 1 ex_lin" "free_bufs 0 ex_lin = [5, 6]" "ev_queue (lin_sys ex_lin) = []" "ev_cap (lin_sys ex_lin) = 3"
    by (simp_all add: recv_ready_def free_bufs_def ex_lin_def the_queue_def the_buf_def ex_bqsys_def
        ev_queue_def ev_cap_def ring_list_def CIRC_CNT_def)
qed

theorem lininoio_never_associated_witness:
  "lin_state (snd (lininoio_init ex_lin_cfg None ex_lin)) \<noteq> ASSOCIATED"
  using lininoio_never_associated [of ex_lin_cfg None ex_lin "fst (lininoio_init ex_lin_cfg None ex_lin)" "snd (lininoio_init ex_lin_cfg None ex_lin)"
      "snd (lininoio_init ex_lin_cfg None ex_lin)"] by simp

theorem lininoio_waiting_starves_witness:
  "free_bufs 0 ((lininoio_periodic ex_lin_cfg ^^ 2) ex_lin) = []"
  using lininoio_waiting_starves [of ex_lin 0 2 ex_lin_cfg] ex_lin_ready(2)
  by (simp add: ex_lin_def the_queue_def ex_bqsys_def)

theorem lininoio_rx_replenished_witness:
  "\<exists>s'. lininoio_buf_available_handle ex_lin_cfg ex_lin = Some s' \<and> lin_outstanding_rx_buffers s' = 1
    \<and> free_bufs 0 s' = [6] \<and> op_type (lin_op s' 5) = RECV \<and> ev_queue (lin_sys s') = setup_events 1 [5]"
proof -
  have "1 = min (length (free_bufs 0 ex_lin)) (nat (cfg_rx_buffers ex_lin_cfg - lin_outstanding_rx_buffers ex_lin))"
    by (simp add: ex_lin_ready) (simp add: ex_lin_def ex_lin_cfg_def)
  from lininoio_rx_replenished [OF ex_lin_ready(1) this] obtain s' where
    s': "lininoio_buf_available_handle ex_lin_cfg ex_lin = Some s'"
      "lin_outstanding_rx_buffers s' = lin_outstanding_rx_buffers ex_lin + 1" "free_bufs 0 s' = [6]"
      "\<forall>b. lin_op s' b = (if b = 5 then (lin_op ex_lin b)\<lparr>op_type := RECV\<rparr> else lin_op ex_lin b)"
      "ev_queue (lin_sys s') = setup_events 1 [5]"
    by (auto simp: ex_lin_ready setup_events_def)
  moreover have "lin_outstanding_rx_buffers ex_lin = 0" by (simp add: ex_lin_def)
  ultimately show ?thesis by simp
qed

end
