(* ===== verification/UsbDevice.thy ===== *)
theory UsbDevice
  imports Prelude
begin

text \<open>
  The generic part of the USB device stack: transmit buffers, controllers and endpoints
  (\<^verbatim>\<open>include/bathos/usb-device-controller.h\<close>), control requests (\<^verbatim>\<open>drivers/usb-device-controller.c\<close>) and
  the pipe operations of endpoints (\<^verbatim>\<open>drivers/usb-device-ep.c\<close>).

  There is one controller. Pointers to data are addresses, 0 is the null pointer, and memory gives the
  byte at an address. The operations of the low level driver are a record of functions on the whole state, whose part \<open>us_hw\<close> is
  theirs. A pipe event of a device reaches its handler through the record \<open>usb_env\<close>, with what
  the board defines: the descriptors and the addresses of the answers that are kept in memory.
  The length of the endpoint table is known, and \<open>None\<close> is an access behind its end.
\<close>

section \<open>Transmit buffers\<close>

record usb_device_tx_buf =
  tb_buf :: nat
  tb_len :: u16
  tb_flags :: u16

definition TX_BUF_CONSTANT :: u16 where "TX_BUF_CONSTANT = push_bit 15 1"
definition TX_BUF_BUSY :: u16 where "TX_BUF_BUSY = push_bit 14 1"
definition TX_BUF_NEEDS_TZ :: u16 where "TX_BUF_NEEDS_TZ = push_bit 13 1"
definition TX_BUF_STALL :: u16 where "TX_BUF_STALL = push_bit 12 1"
definition USB_BUF_UNDETERMINED_LENGTH :: u16 where "USB_BUF_UNDETERMINED_LENGTH = 0xffff"

definition TX_BUF_INITIALIZER :: "nat \<Rightarrow> int \<Rightarrow> bool \<Rightarrow> usb_device_tx_buf" where
  "TX_BUF_INITIALIZER b l c = \<lparr>tb_buf = b, tb_len = word_of_int l, tb_flags = if c then TX_BUF_CONSTANT else 0\<rparr>"

definition PROTOCOL_STALL_BUF :: usb_device_tx_buf where
  "PROTOCOL_STALL_BUF = \<lparr>tb_buf = 0, tb_len = 0, tb_flags = TX_BUF_STALL OR TX_BUF_CONSTANT\<rparr>"

definition tx_buf_is_constant :: "usb_device_tx_buf \<Rightarrow> bool" where
  "tx_buf_is_constant b \<longleftrightarrow> tb_flags b AND TX_BUF_CONSTANT \<noteq> 0"

text \<open>The test for a free buffer reads the length where the flag is in \<open>flags\<close>.\<close>

definition tx_buf_is_free :: "usb_device_tx_buf \<Rightarrow> bool" where
  "tx_buf_is_free b \<longleftrightarrow> tb_len b AND TX_BUF_BUSY = 0"

definition tx_buf_needs_tz :: "usb_device_tx_buf \<Rightarrow> bool" where
  "tx_buf_needs_tz b \<longleftrightarrow> tb_flags b AND TX_BUF_NEEDS_TZ \<noteq> 0"

definition tx_buf_len :: "usb_device_tx_buf \<Rightarrow> int" where
  "tx_buf_len b = uint (tb_len b)"

definition tx_buf_free :: "usb_device_tx_buf \<Rightarrow> usb_device_tx_buf" where
  "tx_buf_free b = b\<lparr>tb_flags := tb_flags b AND NOT TX_BUF_BUSY\<rparr>"

definition tx_buf_add_term_zero :: "usb_device_tx_buf \<Rightarrow> usb_device_tx_buf" where
  "tx_buf_add_term_zero b = b\<lparr>tb_flags := tb_flags b OR TX_BUF_NEEDS_TZ\<rparr>"

definition tx_buf_is_stall :: "usb_device_tx_buf \<Rightarrow> bool" where
  "tx_buf_is_stall b \<longleftrightarrow> tb_flags b AND TX_BUF_STALL \<noteq> 0"

definition tx_buf_get :: "usb_device_tx_buf \<Rightarrow> usb_device_tx_buf" where
  "tx_buf_get src = src\<lparr>tb_flags := tb_flags src OR TX_BUF_BUSY\<rparr>"

definition tx_buf_tz_sent :: "usb_device_tx_buf \<Rightarrow> usb_device_tx_buf" where
  "tx_buf_tz_sent b = b\<lparr>tb_flags := tb_flags b AND NOT TX_BUF_NEEDS_TZ\<rparr>"

definition tx_buf_update :: "int \<Rightarrow> usb_device_tx_buf \<Rightarrow> usb_device_tx_buf" where
  "tx_buf_update len b =
     b\<lparr>tb_buf := nat (int (tb_buf b) + len), tb_len := tb_len b - word_of_int (min (uint (tb_len b)) len)\<rparr>"

section \<open>Controller and endpoints\<close>

text \<open>The high level operations of the four kinds of endpoints.\<close>

datatype ep_kind = Control_ep | Bulk_ep | Interrupt_ep | Iso_ep

record usb_device_endpoint_data =
  ed_users :: int
  ed_rx_buf :: nat
  ed_rx_cnt :: int
  ed_transmitting :: bool
  ed_curr_tx_buf :: "nat option"
  ed_synch_frame :: u16
  ed_status :: u8

text \<open>\<open>ep_ndev\<close> is the length of the array of devices, \<open>ep_priv\<close> tells for each whether its \<open>priv\<close> points to the endpoint.\<close>

record usb_device_endpoint =
  ep_data :: usb_device_endpoint_data
  ep_kind :: ep_kind
  ep_ndev :: nat
  ep_priv :: "nat \<Rightarrow> bool"
  ep_tx_bufs :: "usb_device_tx_buf list"
  ep_address :: u8
  ep_iso :: bool
  ep_size :: int

record 'h usb =
  us_next_addr :: u8
  us_configuration :: u8
  us_users :: int
  us_neps :: nat
  us_eps :: "nat \<Rightarrow> usb_device_endpoint"
  us_mem :: "nat \<Rightarrow> u8"
  us_hw :: 'h

record usb_descriptor =
  de_addr :: nat
  de_len :: int

record 'h usb_device_controller_ops =
  op_init :: "('h usb \<Rightarrow> 'h usb) option"
  op_reset :: "('h usb \<Rightarrow> 'h usb) option"
  op_enable :: "'h usb \<Rightarrow> 'h usb"
  op_disable :: "'h usb \<Rightarrow> 'h usb"
  op_suspend :: "('h usb \<Rightarrow> int \<times> 'h usb) option"
  op_set_address :: "'h usb \<Rightarrow> 'h usb"
  op_set_configuration :: "(u8 \<Rightarrow> 'h usb \<Rightarrow> 'h usb) option"
  op_enable_ep :: "u8 \<Rightarrow> 'h usb \<Rightarrow> 'h usb"
  op_disable_ep :: "u8 \<Rightarrow> 'h usb \<Rightarrow> 'h usb"
  op_stall_ep :: "u8 \<Rightarrow> bool \<Rightarrow> 'h usb \<Rightarrow> int \<times> 'h usb"
  op_notify_read :: "u8 \<Rightarrow> int \<Rightarrow> 'h usb \<Rightarrow> 'h usb"
  op_submit_tx_buf :: "u8 \<Rightarrow> usb_device_tx_buf \<Rightarrow> 'h usb \<Rightarrow> int \<times> 'h usb"

record 'h usb_env =
  env_ops :: "'h usb_device_controller_ops"
  env_device_descriptors :: "usb_descriptor list"
  env_config_descriptors :: "usb_descriptor list"
  env_string_descriptors :: "usb_descriptor list"
  env_zero2 :: nat
  env_configuration :: nat
  env_ep_status :: "nat \<Rightarrow> nat"
  env_stack :: nat
  env_input_ready :: "nat \<Rightarrow> nat \<Rightarrow> 'h usb \<Rightarrow> 'h usb"
  env_output_ready :: "nat \<Rightarrow> nat \<Rightarrow> 'h usb \<Rightarrow> 'h usb"

definition the_ep :: "'h usb \<Rightarrow> u8 \<Rightarrow> usb_device_endpoint" where
  "the_ep s e = us_eps s (unat e)"

definition set_ep :: "u8 \<Rightarrow> usb_device_endpoint \<Rightarrow> 'h usb \<Rightarrow> 'h usb" where
  "set_ep e x s = s\<lparr>us_eps := (us_eps s)(unat e := x)\<rparr>"

definition upd_ep_data :: "u8 \<Rightarrow> (usb_device_endpoint_data \<Rightarrow> usb_device_endpoint_data) \<Rightarrow> 'h usb \<Rightarrow> 'h usb" where
  "upd_ep_data e f s = set_ep e ((the_ep s e)\<lparr>ep_data := f (ep_data (the_ep s e))\<rparr>) s"

definition EP_STALLED :: u8 where "EP_STALLED = 1"

definition ep_number :: "usb_device_endpoint \<Rightarrow> u8" where
  "ep_number ep = ep_address ep AND 0x7f"

definition ep_is_tx :: "usb_device_endpoint \<Rightarrow> bool" where
  "ep_is_tx ep \<longleftrightarrow> ep_address ep AND 0x80 \<noteq> 0"

definition ep_is_rx :: "usb_device_endpoint \<Rightarrow> bool" where
  "ep_is_rx ep \<longleftrightarrow> \<not> ep_is_tx ep"

definition usb_device_controller_init :: "'h usb_device_controller_ops \<Rightarrow> 'h usb \<Rightarrow> int \<times> 'h usb" where
  "usb_device_controller_init ops s =
     (let s = s\<lparr>us_configuration := 0, us_users := 0\<rparr>
      in (0, case op_init ops of None \<Rightarrow> s | Some f \<Rightarrow> f s))"

definition usb_device_controller_set_address :: "'h usb_device_controller_ops \<Rightarrow> 'h usb \<Rightarrow> int \<times> 'h usb" where
  "usb_device_controller_set_address ops s = (0, op_set_address ops s)"

definition usb_device_controller_set_configuration ::
  "'h usb_device_controller_ops \<Rightarrow> u8 \<Rightarrow> 'h usb \<Rightarrow> int \<times> 'h usb" where
  "usb_device_controller_set_configuration ops config s =
     (if config > 0 then (- EINVAL, s)
      else let s = s\<lparr>us_configuration := config\<rparr>
           in (0, case op_set_configuration ops of None \<Rightarrow> s | Some f \<Rightarrow> f config s))"

definition usb_device_controller_submit_tx_buf ::
  "'h usb_device_controller_ops \<Rightarrow> u8 \<Rightarrow> u16 \<Rightarrow> usb_device_tx_buf \<Rightarrow> 'h usb \<Rightarrow> int \<times> 'h usb" where
  "usb_device_controller_submit_tx_buf ops e requested_length b s =
     (let b = (if (requested_length = USB_BUF_UNDETERMINED_LENGTH \<or> uint requested_length > tx_buf_len b)
                  \<and> tx_buf_len b \<noteq> 0 \<and> tx_buf_len b mod ep_size (the_ep s e) = 0
               then tx_buf_add_term_zero b else b)
      in op_submit_tx_buf ops e b s)"

definition usb_device_controller_submit_null_tx_buf ::
  "'h usb_device_controller_ops \<Rightarrow> u8 \<Rightarrow> 'h usb \<Rightarrow> int \<times> 'h usb" where
  "usb_device_controller_submit_null_tx_buf ops e s =
     usb_device_controller_submit_tx_buf ops e 0 (TX_BUF_INITIALIZER 0 0 True) s"

definition usb_device_controller_reset :: "'h usb_device_controller_ops \<Rightarrow> 'h usb \<Rightarrow> 'h usb" where
  "usb_device_controller_reset ops s = (case op_reset ops of None \<Rightarrow> s | Some f \<Rightarrow> f s)"

definition usb_device_controller_suspend :: "'h usb_device_controller_ops \<Rightarrow> 'h usb \<Rightarrow> int \<times> 'h usb" where
  "usb_device_controller_suspend ops s = (case op_suspend ops of None \<Rightarrow> (- ENOSYS, s) | Some f \<Rightarrow> f s)"

definition usb_device_controller_get :: "'h usb_device_controller_ops \<Rightarrow> 'h usb \<Rightarrow> int \<times> 'h usb" where
  "usb_device_controller_get ops s =
     (let u = us_users s; s = s\<lparr>us_users := u + 1\<rparr>; s = (if u = 0 then op_enable ops s else s)
      in (us_users s, s))"

definition usb_device_controller_put :: "'h usb_device_controller_ops \<Rightarrow> 'h usb \<Rightarrow> int \<times> 'h usb" where
  "usb_device_controller_put ops s =
     (if us_users s = 0 then (0, s)
      else let s = s\<lparr>us_users := us_users s - 1\<rparr>; s = (if us_users s = 0 then op_disable ops s else s)
           in (us_users s, s))"

definition usb_device_ep_get :: "'h usb_device_controller_ops \<Rightarrow> u8 \<Rightarrow> 'h usb \<Rightarrow> int \<times> 'h usb" where
  "usb_device_ep_get ops e s =
     (let s = snd (usb_device_controller_get ops s);
          u = ed_users (ep_data (the_ep s e));
          s = upd_ep_data e (\<lambda>d. d\<lparr>ed_users := u + 1\<rparr>) s;
          s = (if u = 0 \<and> e \<noteq> 0 then op_enable_ep ops e s else s)
      in (ed_users (ep_data (the_ep s e)), s))"

definition usb_device_ep_put :: "'h usb_device_controller_ops \<Rightarrow> u8 \<Rightarrow> 'h usb \<Rightarrow> int \<times> 'h usb" where
  "usb_device_ep_put ops e s =
     (if ed_users (ep_data (the_ep s e)) = 0 then (0, s)
      else let s = upd_ep_data e (\<lambda>d. d\<lparr>ed_users := ed_users d - 1\<rparr>) s;
               s = (if ed_users (ep_data (the_ep s e)) = 0
                    then snd (usb_device_controller_put ops (op_disable_ep ops (ep_number (the_ep s e)) s)) else s)
           in (ed_users (ep_data (the_ep s e)), s))"

section \<open>Control requests\<close>

record usb_setup_data =
  bmRequestType :: u8
  bRequest :: u8
  wValueL :: u8
  wValueH :: u8
  wIndexL :: u8
  wIndexH :: u8
  wLengthL :: u8
  wLengthH :: u8

definition USB_GET_STATUS :: u8 where "USB_GET_STATUS = 0"
definition USB_CLEAR_FEATURE :: u8 where "USB_CLEAR_FEATURE = 1"
definition USB_SET_FEATURE :: u8 where "USB_SET_FEATURE = 3"
definition USB_SET_ADDRESS :: u8 where "USB_SET_ADDRESS = 5"
definition USB_GET_DESCRIPTOR :: u8 where "USB_GET_DESCRIPTOR = 6"
definition USB_GET_CONFIGURATION :: u8 where "USB_GET_CONFIGURATION = 8"
definition USB_SET_CONFIGURATION :: u8 where "USB_SET_CONFIGURATION = 9"
definition USB_GET_INTERFACE :: u8 where "USB_GET_INTERFACE = 10"
definition USB_SET_INTERFACE :: u8 where "USB_SET_INTERFACE = 11"
definition USB_SYNCH_FRAME :: u8 where "USB_SYNCH_FRAME = 12"

definition USB_REQUEST_TYPE_RCP_MASK :: u8 where "USB_REQUEST_TYPE_RCP_MASK = 0x1f"
definition USB_REQUEST_MASK :: u8 where "USB_REQUEST_MASK = 0x03"

definition to_u16 :: "u8 \<Rightarrow> u8 \<Rightarrow> u16" where
  "to_u16 lo hi = push_bit 8 (ucast hi) OR ucast lo"

definition is_standard_request :: "u8 \<Rightarrow> bool" where
  "is_standard_request rt \<longleftrightarrow> rt AND push_bit 5 USB_REQUEST_MASK = 0"

definition descr_type :: "u16 \<Rightarrow> u8" where
  "descr_type v = ucast (drop_bit 8 v)"

definition descr_index :: "u16 \<Rightarrow> u8" where
  "descr_index v = ucast (v AND 0xff)"

definition control_ack :: "'h usb_env \<Rightarrow> 'h usb \<Rightarrow> int \<times> 'h usb" where
  "control_ack env s = usb_device_controller_submit_null_tx_buf (env_ops env) 0 s"

definition stall_handshake :: "'h usb_env \<Rightarrow> u8 \<Rightarrow> 'h usb \<Rightarrow> int \<times> 'h usb" where
  "stall_handshake env e s = usb_device_controller_submit_tx_buf (env_ops env) e 0 PROTOCOL_STALL_BUF s"

text \<open>\<open>submit_const\<close> is the pattern of the answers: a constant buffer at an address, submitted on the control endpoint.\<close>

definition submit_const :: "'h usb_env \<Rightarrow> nat \<Rightarrow> int \<Rightarrow> u16 \<Rightarrow> 'h usb \<Rightarrow> int \<times> 'h usb" where
  "submit_const env a l wlength s = usb_device_controller_submit_tx_buf (env_ops env) 0 wlength (TX_BUF_INITIALIZER a l True) s"

definition descr_table :: "'h usb_env \<Rightarrow> u8 \<Rightarrow> usb_descriptor list option" where
  "descr_table env type =
     (if type = 1 then Some (env_device_descriptors env)
      else if type = 2 then Some (env_config_descriptors env)
      else if type = 3 then Some (env_string_descriptors env)
      else None)"

definition handle_get_descriptor :: "'h usb_env \<Rightarrow> u8 \<Rightarrow> u8 \<Rightarrow> u16 \<Rightarrow> 'h usb \<Rightarrow> int \<times> 'h usb" where
  "handle_get_descriptor env type index wlength s =
     (case descr_table env type of
        None \<Rightarrow> stall_handshake env 0 s
      | Some ds \<Rightarrow>
          if unat index \<ge> length ds then stall_handshake env 0 s
          else submit_const env (de_addr (ds ! unat index)) (min (uint wlength) (de_len (ds ! unat index))) wlength s)"

definition handle_device_request ::
  "'h usb_env \<Rightarrow> u8 \<Rightarrow> u8 \<Rightarrow> u16 \<Rightarrow> u16 \<Rightarrow> u16 \<Rightarrow> 'h usb \<Rightarrow> int \<times> 'h usb" where
  "handle_device_request env rt r value wlength index s =
     (if \<not> is_standard_request rt then control_ack env s
      else if r = USB_GET_STATUS then submit_const env (env_zero2 env) 2 wlength s
      else if r = USB_CLEAR_FEATURE then control_ack env s
      else if r = USB_SET_FEATURE then control_ack env s
      else if r = USB_SET_ADDRESS then control_ack env (s\<lparr>us_next_addr := ucast value\<rparr>)
      else if r = USB_GET_DESCRIPTOR then handle_get_descriptor env (descr_type value) (descr_index value) wlength s
      else if r = USB_GET_CONFIGURATION then submit_const env (env_configuration env) 1 wlength s
      else if r = USB_SET_CONFIGURATION
        then control_ack env (snd (usb_device_controller_set_configuration (env_ops env) (ucast value) s))
      else stall_handshake env 0 s)"

definition handle_interface_request ::
  "'h usb_env \<Rightarrow> u8 \<Rightarrow> u8 \<Rightarrow> u16 \<Rightarrow> u16 \<Rightarrow> u16 \<Rightarrow> 'h usb \<Rightarrow> int \<times> 'h usb" where
  "handle_interface_request env rt r value wlength index s =
     (if \<not> is_standard_request rt then (1, s)
      else if r = USB_GET_STATUS then submit_const env (env_zero2 env) 2 wlength s
      else if r = USB_CLEAR_FEATURE \<or> r = USB_SET_FEATURE then control_ack env s
      else if r = USB_GET_INTERFACE \<or> r = USB_SET_INTERFACE then (1, s)
      else stall_handshake env 0 s)"

text \<open>The endpoint index of the request is used as it is; the two bytes of the frame number are written to the stack.\<close>

definition handle_endpoint_request ::
  "'h usb_env \<Rightarrow> u8 \<Rightarrow> u8 \<Rightarrow> u16 \<Rightarrow> u16 \<Rightarrow> u16 \<Rightarrow> 'h usb \<Rightarrow> (int \<times> 'h usb) option" where
  "handle_endpoint_request env rt r value wlength index s =
     (if \<not> is_standard_request rt then Some (1, s)
      else if r = USB_GET_STATUS then
        (if unat index < us_neps s then Some (submit_const env (env_ep_status env (unat index)) 1 wlength s) else None)
      else if r = USB_SET_FEATURE \<or> r = USB_CLEAR_FEATURE then
        let stall = (r = USB_SET_FEATURE)
        in if index = 0 then Some (control_ack env s)
           else if value \<noteq> 0 then Some (control_ack env s)
           else let (ret, s) = op_stall_ep (env_ops env) (ucast index) stall s
                in if ret = 0 then
                     (if unat index < us_neps s
                      then Some (control_ack env (s\<lparr>us_eps := (us_eps s)(unat index := (us_eps s (unat index))
                             \<lparr>ep_data := (ep_data (us_eps s (unat index)))\<lparr>ed_status := if stall then EP_STALLED else 0\<rparr>\<rparr>)\<rparr>))
                      else None)
                   else Some (control_ack env s)
      else if r = USB_SYNCH_FRAME then
        (if unat index < us_neps s then
           let f = ed_synch_frame (ep_data (us_eps s (unat index)));
               s = s\<lparr>us_mem := (us_mem s)(env_stack env := ucast (f AND 0xff), env_stack env + 1 := ucast (drop_bit 8 f))\<rparr>
           in Some (submit_const env (env_stack env) 2 wlength s)
         else None)
      else Some (stall_handshake env 0 s))"

section \<open>Endpoints as pipes\<close>

definition ep_out_data :: "'h usb_env \<Rightarrow> u8 \<Rightarrow> nat \<Rightarrow> nat \<Rightarrow> int \<Rightarrow> 'h usb \<Rightarrow> (int \<times> 'h usb) option" where
  "ep_out_data env e index data len s =
     (let s = upd_ep_data e (\<lambda>d. d\<lparr>ed_rx_buf := data, ed_rx_cnt := len\<rparr>) s
      in if index < ep_ndev (the_ep s e) then Some (0, env_input_ready env (unat e) index s) else None)"

definition usb_device_ep_out :: "'h usb_env \<Rightarrow> u8 \<Rightarrow> nat \<Rightarrow> int \<Rightarrow> 'h usb \<Rightarrow> (int \<times> 'h usb) option" where
  "usb_device_ep_out env e data len s = ep_out_data env e 0 data len s"

definition usb_device_ctrl_ep_setup :: "'h usb_env \<Rightarrow> u8 \<Rightarrow> nat \<Rightarrow> usb_setup_data \<Rightarrow> 'h usb \<Rightarrow> (int \<times> 'h usb) option" where
  "usb_device_ctrl_ep_setup env e p d s = ep_out_data env e (unat (wIndexL d)) p 8 s"

definition usb_device_ep_sof :: "'h usb_env \<Rightarrow> u8 \<Rightarrow> 'h usb \<Rightarrow> (int \<times> 'h usb) option" where
  "usb_device_ep_sof env e s =
     (if 0 < ep_ndev (the_ep s e) then Some (0, env_output_ready env (unat e) 0 s) else None)"

definition setup_at :: "nat \<Rightarrow> 'h usb \<Rightarrow> usb_setup_data" where
  "setup_at p s = (let m = us_mem s in
     \<lparr>bmRequestType = m p, bRequest = m (p + 1), wValueL = m (p + 2), wValueH = m (p + 3),
      wIndexL = m (p + 4), wIndexH = m (p + 5), wLengthL = m (p + 6), wLengthH = m (p + 7)\<rparr>)"

text \<open>A setup packet at address \<open>p\<close>; the control endpoint is the only one with a setup operation.\<close>

definition usb_device_controller_setup :: "'h usb_env \<Rightarrow> nat \<Rightarrow> 'h usb \<Rightarrow> (int \<times> 'h usb) option" where
  "usb_device_controller_setup env p s =
     (let d = setup_at p s;
          v = to_u16 (wValueL d) (wValueH d); l = to_u16 (wLengthL d) (wLengthH d); i = to_u16 (wIndexL d) (wIndexH d);
          rcp = bmRequestType d AND USB_REQUEST_TYPE_RCP_MASK
      in if rcp = 0 then Some (handle_device_request env (bmRequestType d) (bRequest d) v l i s)
         else if rcp = 1 then
           let (ret, s) = handle_interface_request env (bmRequestType d) (bRequest d) v l i s
           in if ret = 0 then Some (ret, s)
              else if ep_kind (us_eps s 0) = Control_ep then usb_device_ctrl_ep_setup env 0 p d s else None
         else if rcp = 2 then handle_endpoint_request env (bmRequestType d) (bRequest d) v l i s
         else Some (stall_handshake env 0 s))"

definition usb_device_controller_in :: "'h usb_env \<Rightarrow> u8 \<Rightarrow> 'h usb \<Rightarrow> int \<times> 'h usb" where
  "usb_device_controller_in env e s =
     (if us_next_addr s \<noteq> 0 then (0, (op_set_address (env_ops env) s)\<lparr>us_next_addr := 0\<rparr>) else (0, s))"

definition usb_device_controller_out :: "'h usb_env \<Rightarrow> u8 \<Rightarrow> nat \<Rightarrow> int \<Rightarrow> 'h usb \<Rightarrow> (int \<times> 'h usb) option" where
  "usb_device_controller_out env e buf len s =
     (if unat e < us_neps s then
        (if ep_kind (the_ep s e) \<in> {Bulk_ep, Iso_ep} then usb_device_ep_out env e buf len s else Some (- ENOSYS, s))
      else None)"

definition usb_device_controller_sof :: "'h usb_env \<Rightarrow> u8 \<Rightarrow> 'h usb \<Rightarrow> (int \<times> 'h usb) option" where
  "usb_device_controller_sof env e s =
     (if unat e < us_neps s then
        (if ep_kind (the_ep s e) \<in> {Interrupt_ep, Iso_ep} then usb_device_ep_sof env e s else Some (0, s))
      else None)"

text \<open>
  The pipe operations on device \<open>i\<close> of endpoint \<open>e\<close>. Once the device was closed its \<open>priv\<close> is null and a further
  operation dereferences it.
\<close>

definition usb_ep_open :: "'h usb_env \<Rightarrow> u8 \<Rightarrow> nat \<Rightarrow> 'h usb \<Rightarrow> (int \<times> 'h usb) option" where
  "usb_ep_open env e i s =
     (if ep_priv (the_ep s e) i then
        let s = upd_ep_data e (\<lambda>d. d\<lparr>ed_status := 0, ed_synch_frame := 0, ed_users := 0\<rparr>) s
        in Some (0, snd (usb_device_ep_get (env_ops env) e s))
      else None)"

definition usb_ep_read :: "'h usb_env \<Rightarrow> u8 \<Rightarrow> nat \<Rightarrow> int \<Rightarrow> 'h usb \<Rightarrow> (int \<times> u8 list \<times> 'h usb) option" where
  "usb_ep_read env e i len s =
     (if ep_priv (the_ep s e) i then
        let d = ep_data (the_ep s e); l = min len (ed_rx_cnt d)
        in if len < 0 then Some (- EINVAL, [], s)
           else if len = 0 then Some (0, [], s)
           else if l \<le> 0 then Some (- EAGAIN, [], s)
           else Some (l, map (\<lambda>k. us_mem s (ed_rx_buf d + k)) [0..<nat l],
                  op_notify_read (env_ops env) (ep_number (the_ep s e)) l s)
      else None)"

definition usb_ep_write :: "'h usb_env \<Rightarrow> u8 \<Rightarrow> nat \<Rightarrow> nat \<Rightarrow> int \<Rightarrow> 'h usb \<Rightarrow> (int \<times> 'h usb) option" where
  "usb_ep_write env e i buf len s =
     (if ep_priv (the_ep s e) i then
        Some (usb_device_controller_submit_tx_buf (env_ops env) (ep_number (the_ep s e)) USB_BUF_UNDETERMINED_LENGTH
                (TX_BUF_INITIALIZER buf len False) s)
      else None)"

definition usb_ep_close :: "'h usb_env \<Rightarrow> u8 \<Rightarrow> nat \<Rightarrow> 'h usb \<Rightarrow> (int \<times> 'h usb) option" where
  "usb_ep_close env e i s =
     (if ep_priv (the_ep s e) i then
        let s = snd (usb_device_ep_put (env_ops env) e s)
        in Some (0, set_ep e ((the_ep s e)\<lparr>ep_priv := (ep_priv (the_ep s e))(i := False)\<rparr>) s)
      else None)"

datatype ep_ioctl = EP_IOC_GET_RX_BUF | EP_IOC_NOTIFY_READ int | EP_IOC_other

definition usb_ep_ioctl :: "'h usb_env \<Rightarrow> u8 \<Rightarrow> nat \<Rightarrow> ep_ioctl \<Rightarrow> 'h usb \<Rightarrow> (int \<times> (nat \<times> int) option \<times> 'h usb) option" where
  "usb_ep_ioctl env e i ioc s =
     (if ep_priv (the_ep s e) i then
        (case ioc of
           EP_IOC_GET_RX_BUF \<Rightarrow> let d = ep_data (the_ep s e) in Some (0, Some (ed_rx_buf d, ed_rx_cnt d), s)
         | EP_IOC_NOTIFY_READ l \<Rightarrow> Some (l, None, op_notify_read (env_ops env) (ep_number (the_ep s e)) l s)
         | EP_IOC_other \<Rightarrow> Some (- EINVAL, None, s))
      else None)"

end
