(* ===== verification/UsbFreescale.thy ===== *)
theory UsbFreescale
  imports UsbDevice
begin

text \<open>
  The driver of the USB controller of Freescale microcontrollers, \<^verbatim>\<open>drivers/usb-device-freescale.c\<close>: the table of buffer
  descriptors it shares with the hardware, two for each endpoint and direction, used in turn; the cutting of a transmit
  buffer into packets; the interrupt handler.

  Registers keep what was last written to them; the two status registers that the interrupt handler reads are its
  arguments. What the interrupt controller answers is a constant of the board.
\<close>

section \<open>Data\<close>

record bdt =
  bd_flags :: u8
  bd_bc :: u16
  bd_address :: nat

definition OWN_MASK :: u8 where "OWN_MASK = push_bit 7 1"
definition DATA01_MASK :: u8 where "DATA01_MASK = push_bit 6 1"
definition TOK_PID_MASK :: u8 where "TOK_PID_MASK = 0x3c"

definition USB_TOKEN_IN :: u8 where "USB_TOKEN_IN = 9"
definition USB_TOKEN_OUT :: u8 where "USB_TOKEN_OUT = 1"
definition USB_TOKEN_SETUP :: u8 where "USB_TOKEN_SETUP = 13"

definition BUSY1 :: u8 where "BUSY1 = push_bit 1 1"
definition BUSY2 :: u8 where "BUSY2 = push_bit 2 1"

record usb_device_freescale_buf =
  fb_buf1 :: nat
  fb_buf2 :: nat
  fb_flags :: u8

record usb_device_freescale_ep_ll_data =
  tx_data0 :: u8
  lld_odd :: u8

datatype usb_reg =
  ISTAT | INTEN | ERRSTAT | ERREN | CTL | ADDR | BDTPAGE1 | BDTPAGE2 | BDTPAGE3 | ENDPT u8 | USBCTRL | CONTROL | USBTRC0

text \<open>\<open>fs_warn\<close> counts the messages; \<open>fs_clocked\<close> is the pair of bits of the clock registers that select and gate the clock of the controller.\<close>

record freescale =
  fs_bdt :: "nat \<Rightarrow> bdt"
  fs_bufs :: "nat \<Rightarrow> usb_device_freescale_buf"
  fs_lld :: "nat \<Rightarrow> usb_device_freescale_ep_ll_data"
  fs_regs :: "usb_reg \<Rightarrow> u8"
  fs_clocked :: bool
  fs_irq :: bool
  fs_warn :: nat

type_synonym fs = "freescale usb"

definition EPHSHK :: u8 where "EPHSHK = 1"
definition EPSTALL :: u8 where "EPSTALL = 2"
definition EPTXEN :: u8 where "EPTXEN = 4"
definition EPRXEN :: u8 where "EPRXEN = 8"

definition USB_ISTAT_STALL_MASK :: u8 where "USB_ISTAT_STALL_MASK = push_bit 7 1"
definition USB_ISTAT_SLEEP_MASK :: u8 where "USB_ISTAT_SLEEP_MASK = push_bit 4 1"
definition USB_ISTAT_TOKDNE_MASK :: u8 where "USB_ISTAT_TOKDNE_MASK = push_bit 3 1"
definition USB_ISTAT_SOFTOK_MASK :: u8 where "USB_ISTAT_SOFTOK_MASK = push_bit 2 1"
definition USB_ISTAT_ERROR_MASK :: u8 where "USB_ISTAT_ERROR_MASK = push_bit 1 1"
definition USB_ISTAT_USBRST_MASK :: u8 where "USB_ISTAT_USBRST_MASK = push_bit 0 1"
definition USB_CTL_ODDRST_MASK :: u8 where "USB_CTL_ODDRST_MASK = push_bit 1 1"
definition USB_CTL_USBENSOFEN_MASK :: u8 where "USB_CTL_USBENSOFEN_MASK = push_bit 0 1"
definition USB_CONTROL_DPPULLOPNONOTG_MASK :: u8 where "USB_CONTROL_DPPULLOPNONOTG_MASK = 0x10"

definition upd_hw :: "(freescale \<Rightarrow> freescale) \<Rightarrow> fs \<Rightarrow> fs" where
  "upd_hw f s = s\<lparr>us_hw := f (us_hw s)\<rparr>"

definition set_bd :: "nat \<Rightarrow> bdt \<Rightarrow> fs \<Rightarrow> fs" where
  "set_bd i b = upd_hw (\<lambda>h. h\<lparr>fs_bdt := (fs_bdt h)(i := b)\<rparr>)"

definition the_bd :: "fs \<Rightarrow> nat \<Rightarrow> bdt" where
  "the_bd s i = fs_bdt (us_hw s) i"

definition set_reg :: "usb_reg \<Rightarrow> u8 \<Rightarrow> fs \<Rightarrow> fs" where
  "set_reg r v = upd_hw (\<lambda>h. h\<lparr>fs_regs := (fs_regs h)(r := v)\<rparr>)"

definition the_reg :: "fs \<Rightarrow> usb_reg \<Rightarrow> u8" where
  "the_reg s r = fs_regs (us_hw s) r"

definition warn :: "fs \<Rightarrow> fs" where
  "warn = upd_hw (\<lambda>h. h\<lparr>fs_warn := fs_warn h + 1\<rparr>)"

definition set_tx_buf :: "u8 \<Rightarrow> nat \<Rightarrow> usb_device_tx_buf \<Rightarrow> fs \<Rightarrow> fs" where
  "set_tx_buf e i b s = set_ep e ((the_ep s e)\<lparr>ep_tx_bufs := (ep_tx_bufs (the_ep s e))[i := b]\<rparr>) s"

definition tx_buf_at :: "fs \<Rightarrow> u8 \<Rightarrow> nat \<Rightarrow> usb_device_tx_buf" where
  "tx_buf_at s e i = ep_tx_bufs (the_ep s e) ! i"

section \<open>Transmission\<close>

definition bd_get_pid :: "bdt \<Rightarrow> u8" where
  "bd_get_pid b = drop_bit 2 (bd_flags b AND TOK_PID_MASK)"

definition get_bdt_index :: "u8 \<Rightarrow> u8 \<Rightarrow> u8 \<Rightarrow> u8" where
  "get_bdt_index e tx par = (push_bit 2 e OR push_bit 1 tx) + par"

definition usb_stat_to_bd_index :: "u8 \<Rightarrow> nat" where
  "usb_stat_to_bd_index stat = unat (drop_bit 2 stat)"

definition get_tx_buf_queue_depth :: "u8 \<Rightarrow> int" where
  "get_tx_buf_queue_depth e = 2"

definition find_free_tx_slot :: "u8 \<Rightarrow> fs \<Rightarrow> int" where
  "find_free_tx_slot e s =
     (let n = get_tx_buf_queue_depth e
      in if n < 0 then n
         else case find (\<lambda>i. tx_buf_is_free (tx_buf_at s e i)) [0..<nat n] of None \<Rightarrow> - 1 | Some i \<Rightarrow> int i)"

definition prepare_bd :: "u8 \<Rightarrow> nat \<Rightarrow> fs \<Rightarrow> bool \<times> fs" where
  "prepare_bd e slot s =
     (let ep = the_ep s e; b = tx_buf_at s e slot; lld = fs_lld (us_hw s) (unat e);
          i = unat (get_bdt_index e 1 (lld_odd lld)); bd = the_bd s i
      in if bd_address bd \<noteq> 0 then (False, warn s)
         else let l = min (tx_buf_len b) (ep_size ep);
                  s = set_bd i (bd\<lparr>bd_address := tb_buf b, bd_bc := word_of_int l, bd_flags := tx_data0 lld OR OWN_MASK\<rparr>) s;
                  s = upd_hw (\<lambda>h. h\<lparr>fs_lld := (fs_lld h)(unat e := \<lparr>tx_data0 = tx_data0 lld XOR DATA01_MASK, lld_odd = lld_odd lld XOR 1\<rparr>)\<rparr>) s;
                  s = set_tx_buf e slot (tx_buf_update l b) s
              in (True, if ed_curr_tx_buf (ep_data ep) = None
                        then upd_ep_data e (\<lambda>d. d\<lparr>ed_curr_tx_buf := Some slot\<rparr>) s else s))"

definition free_tx_buf :: "u8 \<Rightarrow> nat \<Rightarrow> fs \<Rightarrow> fs" where
  "free_tx_buf e i s =
     (let b = tx_buf_at s e i; sz = ep_size (the_ep s e); fb = fs_bufs (us_hw s) (unat e); a = int (tb_buf b);
          fb = (if a \<ge> int (fb_buf1 fb) \<and> a < int (fb_buf1 fb) + sz then fb\<lparr>fb_flags := fb_flags fb AND NOT BUSY1\<rparr> else fb);
          fb = (if a \<ge> int (fb_buf2 fb) \<and> a < int (fb_buf2 fb) + sz then fb\<lparr>fb_flags := fb_flags fb AND NOT BUSY2\<rparr> else fb);
          s = upd_hw (\<lambda>h. h\<lparr>fs_bufs := (fs_bufs h)(unat e := fb)\<rparr>) s
      in set_tx_buf e i (tx_buf_free b) s)"

definition update_tx_buf :: "u8 \<Rightarrow> fs \<Rightarrow> fs" where
  "update_tx_buf e s =
     (case ed_curr_tx_buf (ep_data (the_ep s e)) of
        None \<Rightarrow> warn s
      | Some cur \<Rightarrow>
          let b = tx_buf_at s e cur; remaining = (tx_buf_len b \<noteq> 0); needs_tz = tx_buf_needs_tz b;
              new = (if cur \<noteq> 0 then 0 else 1)
          in if \<not> remaining \<and> \<not> needs_tz then
               let s = upd_ep_data e (\<lambda>d. d\<lparr>ed_curr_tx_buf := None\<rparr>) (free_tx_buf e cur s)
               in if tx_buf_is_free (tx_buf_at s e new) then s
                  else let (ok, s) = prepare_bd e new (upd_ep_data e (\<lambda>d. d\<lparr>ed_curr_tx_buf := Some new\<rparr>) s)
                       in if ok then s else warn s
             else let s = (if \<not> remaining then set_tx_buf e cur (tx_buf_tz_sent b) s else s);
                      (ok, s) = prepare_bd e cur s
                  in if ok then s else warn s)"

definition freescale_stall_ep :: "u8 \<Rightarrow> bool \<Rightarrow> fs \<Rightarrow> int \<times> fs" where
  "freescale_stall_ep e stall s =
     (let r = the_reg s (ENDPT e)
      in if (r AND EPSTALL \<noteq> 0) = stall then (0, s)
         else let s = set_reg (ENDPT e) (r AND NOT EPSTALL) s
              in (0, if stall then set_reg (ENDPT e) (the_reg s (ENDPT e) OR EPSTALL) s else s))"

definition freescale_protocol_stall :: "u8 \<Rightarrow> fs \<Rightarrow> int \<times> fs" where
  "freescale_protocol_stall e s = freescale_stall_ep 0 True s"

definition freescale_notify_read :: "u8 \<Rightarrow> int \<Rightarrow> fs \<Rightarrow> fs" where
  "freescale_notify_read e len s =
     (if len \<le> 0 then s else upd_ep_data e (\<lambda>d. d\<lparr>ed_rx_cnt := max 0 (ed_rx_cnt d - len)\<rparr>) s)"

text \<open>A buffer that is not constant is copied to one of the two buffers of the endpoint, as far as it fits.\<close>

definition clone_tx_buf :: "u8 \<Rightarrow> usb_device_tx_buf \<Rightarrow> fs \<Rightarrow> int \<times> usb_device_tx_buf \<times> fs" where
  "clone_tx_buf e b s =
     (let fb = fs_bufs (us_hw s) (unat e); l = min (tx_buf_len b) (ep_size (the_ep s e));
          copy = (\<lambda>mask dst.
            (l, b\<lparr>tb_buf := dst, tb_len := word_of_int l\<rparr>,
             (upd_hw (\<lambda>h. h\<lparr>fs_bufs := (fs_bufs h)(unat e := fb\<lparr>fb_flags := fb_flags fb OR mask\<rparr>)\<rparr>) s)
               \<lparr>us_mem := \<lambda>a. if dst \<le> a \<and> a < dst + nat l then us_mem s (tb_buf b + (a - dst)) else us_mem s a\<rparr>))
      in if l \<le> 0 then (l, b, s)
         else if fb_flags fb AND BUSY1 = 0 then copy BUSY1 (fb_buf1 fb)
         else if fb_flags fb AND BUSY2 = 0 then copy BUSY2 (fb_buf2 fb)
         else (- EAGAIN, b, s))"

definition freescale_submit_tx_buf :: "u8 \<Rightarrow> usb_device_tx_buf \<Rightarrow> fs \<Rightarrow> int \<times> fs" where
  "freescale_submit_tx_buf e b s =
     (let slot = find_free_tx_slot e s
      in if slot < 0 then (- EAGAIN, warn s)
         else let (r, b, s) = (if tx_buf_is_constant b then (0, b, s) else clone_tx_buf e b s)
              in if r < 0 then (- EAGAIN, s)
                 else let s = set_tx_buf e (nat slot) (tx_buf_get b) s
                      in if ed_transmitting (ep_data (the_ep s e)) then (tx_buf_len b, s)
                         else if tx_buf_is_stall b then (0, snd (freescale_stall_ep 0 True s))
                         else let (ok, s) = prepare_bd e (nat slot) s
                              in if ok then (tx_buf_len b, s) else (- ENOMEM, warn s))"

section \<open>Control of the hardware\<close>

definition do_enable_ep :: "u8 \<Rightarrow> bool \<Rightarrow> fs \<Rightarrow> int \<times> fs" where
  "do_enable_ep e tx s =
     (let ep = the_ep s e; i = unat (push_bit 2 e OR push_bit 1 (if tx then 1 else 0) :: u8);
          fb = fs_bufs (us_hw s) (unat e);
          s = (if tx then s
               else set_bd (i + 1) ((the_bd s (i + 1))\<lparr>bd_address := fb_buf2 fb, bd_bc := word_of_int (ep_size ep), bd_flags := OWN_MASK\<rparr>)
                      (set_bd i ((the_bd s i)\<lparr>bd_address := fb_buf1 fb, bd_bc := word_of_int (ep_size ep), bd_flags := OWN_MASK\<rparr>) s));
          m = (if tx then EPTXEN else EPRXEN);
          m = (if ep_iso ep then m else m OR EPHSHK)
      in (0, set_reg (ENDPT e) (the_reg s (ENDPT e) OR m) s))"

definition freescale_enable_ep :: "u8 \<Rightarrow> fs \<Rightarrow> int \<times> fs" where
  "freescale_enable_ep e s =
     (let (ret, s) = do_enable_ep e (ep_is_tx (the_ep s e)) s
      in if ret < 0 \<or> e \<noteq> 0 then (ret, s) else do_enable_ep e True s)"

definition freescale_disable_ep :: "u8 \<Rightarrow> fs \<Rightarrow> int \<times> fs" where
  "freescale_disable_ep e s =
     (let ep = the_ep s e; m = (if ep_is_tx ep then EPTXEN else EPRXEN); m = (if ep_iso ep then m else m OR EPHSHK)
      in (0, set_reg (ENDPT e) (the_reg s (ENDPT e) AND NOT m) s))"

definition reset_ep :: "u8 \<Rightarrow> fs \<Rightarrow> fs" where
  "reset_ep e s =
     (let s = upd_hw (\<lambda>h. h\<lparr>fs_lld := (fs_lld h)(unat e := (fs_lld h (unat e))\<lparr>lld_odd := 0\<rparr>)\<rparr>) s;
          s = fold (\<lambda>i s. set_tx_buf e i (tx_buf_free (tx_buf_at s e i)) s) [0, 1] s;
          s = fold (\<lambda>par s. let i = unat (get_bdt_index e 1 par) in set_bd i ((the_bd s i)\<lparr>bd_address := 0\<rparr>) s) [0, 1] s
      in upd_ep_data e (\<lambda>d. d\<lparr>ed_curr_tx_buf := None\<rparr>) s)"

definition freescale_reset :: "fs \<Rightarrow> fs" where
  "freescale_reset s =
     (let s = set_reg CTL (the_reg s CTL OR USB_CTL_ODDRST_MASK) s; s = set_reg ADDR 0 s
      in snd (freescale_enable_ep 0 (reset_ep 0 s)))"

text \<open>\<open>irq_ret\<close> is the answer of the interrupt controller, \<open>bdt_addr\<close> the address of the descriptor table.\<close>

definition freescale_enable :: "int \<Rightarrow> u32 \<Rightarrow> fs \<Rightarrow> int \<times> fs" where
  "freescale_enable irq_ret bdt_addr s =
     (let s = upd_hw (\<lambda>h. h\<lparr>fs_clocked := True\<rparr>) s;
          s = set_reg BDTPAGE3 (ucast (drop_bit 24 bdt_addr)) s;
          s = set_reg BDTPAGE2 (ucast (drop_bit 16 bdt_addr AND 0xff)) s;
          s = set_reg BDTPAGE1 (ucast (drop_bit 8 bdt_addr AND 0xff)) s;
          s = set_reg INTEN (USB_ISTAT_USBRST_MASK OR USB_ISTAT_TOKDNE_MASK OR USB_ISTAT_SLEEP_MASK OR USB_ISTAT_ERROR_MASK OR USB_ISTAT_STALL_MASK) s;
          s = set_reg ERREN 0xff s; s = set_reg USBCTRL 0 s; s = set_reg USBTRC0 0x40 s;
          s = set_reg CONTROL (the_reg s CONTROL OR USB_CONTROL_DPPULLOPNONOTG_MASK) s;
          s = set_reg CTL (the_reg s CTL OR USB_CTL_USBENSOFEN_MASK) s
      in (irq_ret, if irq_ret < 0 then s else upd_hw (\<lambda>h. h\<lparr>fs_irq := True\<rparr>) s))"

definition freescale_disable :: "int \<Rightarrow> fs \<Rightarrow> int \<times> fs" where
  "freescale_disable irq_ret s =
     (if irq_ret < 0 then (irq_ret, s)
      else let s = upd_hw (\<lambda>h. h\<lparr>fs_irq := False\<rparr>) s;
               s = set_reg CONTROL (the_reg s CONTROL AND NOT USB_CONTROL_DPPULLOPNONOTG_MASK) s;
               s = set_reg (ENDPT 0) 0 s;
               s = set_reg CTL (the_reg s CTL AND NOT USB_CTL_USBENSOFEN_MASK) s;
               s = set_reg INTEN 0 s
           in (irq_ret, upd_hw (\<lambda>h. h\<lparr>fs_clocked := False\<rparr>) s))"

definition freescale_set_address :: "fs \<Rightarrow> int \<times> fs" where
  "freescale_set_address s = (0, set_reg ADDR (us_next_addr s) s)"

definition freescale_set_configuration :: "u8 \<Rightarrow> fs \<Rightarrow> int \<times> fs" where
  "freescale_set_configuration cfg s = (if cfg \<noteq> 0 then - EINVAL else 0, s)"

definition freescale_usb_device_controller_ops :: "int \<Rightarrow> u32 \<Rightarrow> freescale usb_device_controller_ops" where
  "freescale_usb_device_controller_ops irq_ret bdt_addr =
     \<lparr>op_init = Some id, op_reset = Some freescale_reset, op_enable = (\<lambda>s. snd (freescale_enable irq_ret bdt_addr s)),
      op_disable = (\<lambda>s. snd (freescale_disable irq_ret s)), op_suspend = None,
      op_set_address = (\<lambda>s. snd (freescale_set_address s)),
      op_set_configuration = Some (\<lambda>c s. snd (freescale_set_configuration c s)),
      op_enable_ep = (\<lambda>e s. snd (freescale_enable_ep e s)), op_disable_ep = (\<lambda>e s. snd (freescale_disable_ep e s)),
      op_stall_ep = freescale_stall_ep, op_notify_read = freescale_notify_read,
      op_submit_tx_buf = freescale_submit_tx_buf\<rparr>"

section \<open>Interrupt handler\<close>

text \<open>
  The token phase, for descriptor number \<open>i\<close> of endpoint \<open>e\<close>: \<open>local\<close> says that the descriptor was copied to the stack, \<open>bd\<close> is
  that copy or the descriptor itself.
\<close>

definition token_done :: "freescale usb_env \<Rightarrow> u8 \<Rightarrow> nat \<Rightarrow> bool \<Rightarrow> bdt \<Rightarrow> fs \<Rightarrow> fs option" where
  "token_done env e i local bd s =
     (let pid = bd_get_pid bd; s = set_reg ISTAT USB_ISTAT_TOKDNE_MASK s
      in map_option (set_reg CTL USB_CTL_USBENSOFEN_MASK)
           (if pid = USB_TOKEN_SETUP then
              map_option snd (usb_device_controller_setup env (bd_address bd)
                (upd_hw (\<lambda>h. h\<lparr>fs_lld := (fs_lld h)(unat e := (fs_lld h (unat e))\<lparr>tx_data0 := DATA01_MASK\<rparr>)\<rparr>) s))
            else if pid = USB_TOKEN_IN then
              let s = upd_ep_data e (\<lambda>d. d\<lparr>ed_transmitting := False\<rparr>) s;
                  s = (if local then s else set_bd i ((the_bd s i)\<lparr>bd_address := 0\<rparr>) s)
              in Some (update_tx_buf e (snd (usb_device_controller_in env e s)))
            else if pid = USB_TOKEN_OUT then
              map_option (\<lambda>(r, s). if local then s
                  else set_bd i ((the_bd s i)\<lparr>bd_bc := word_of_int (ep_size (the_ep s e)), bd_flags := OWN_MASK\<rparr>) s)
                (usb_device_controller_out env e (bd_address bd) (uint (bd_bc bd)) s)
            else Some (warn s)))"

definition freescale_irq_handler :: "freescale usb_env \<Rightarrow> u8 \<Rightarrow> u8 \<Rightarrow> fs \<Rightarrow> fs option" where
  "freescale_irq_handler env mask_reg stat s =
     (let i = usb_stat_to_bd_index stat; e = drop_bit 4 stat; bd = the_bd s i;
          local = (stat AND 8 = 0 \<and> e = 0);
          s = (if local then set_bd i (bd\<lparr>bd_bc := word_of_int (ep_size (the_ep s e)), bd_flags := OWN_MASK\<rparr>) s else s)
      in if mask_reg AND USB_ISTAT_USBRST_MASK \<noteq> 0 then
           Some (set_reg ISTAT 0xff (usb_device_controller_reset (env_ops env) s))
         else if mask_reg AND USB_ISTAT_STALL_MASK \<noteq> 0 then
           Some (snd (freescale_stall_ep 0 False (set_reg ISTAT USB_ISTAT_STALL_MASK s)))
         else
           Option.bind (map_option (\<lambda>s.
               let s = (if mask_reg AND USB_ISTAT_SLEEP_MASK \<noteq> 0
                        then snd (usb_device_controller_suspend (env_ops env) (set_reg ISTAT USB_ISTAT_SLEEP_MASK s)) else s)
               in if mask_reg AND USB_ISTAT_ERROR_MASK \<noteq> 0
                  then set_reg ERRSTAT 0xff (warn (set_reg ISTAT USB_ISTAT_ERROR_MASK s)) else s)
             (if mask_reg AND USB_ISTAT_TOKDNE_MASK \<noteq> 0 then token_done env e i local bd s else Some s))
           (\<lambda>s. if mask_reg AND USB_ISTAT_SOFTOK_MASK \<noteq> 0
                    then map_option snd (usb_device_controller_sof env e (set_reg ISTAT USB_ISTAT_SOFTOK_MASK s)) else Some s))"

end
