(* ===== verification/UsbProps.thy ===== *)
theory UsbProps
  imports UsbFreescale
begin

text \<open>
  What reaches the host. A host reads an endpoint with IN tokens; the hardware sends the packet of the descriptor that
  is next in turn, when the driver has handed it over, and interrupts. The interface \<open>usb_transmitter\<close> says that a
  submitted buffer is sent in packets of the size of the endpoint; for every driver that provides it, an answer to a control request is a
  transfer the host can tell the end of. The driver of \<^verbatim>\<open>drivers/usb-device-freescale.c\<close> provides it.
\<close>

section \<open>Packets\<close>

function chunks :: "nat \<Rightarrow> 'a list \<Rightarrow> 'a list list" where
  "chunks sz xs = (if xs = [] \<or> sz = 0 then [] else take sz xs # chunks sz (drop sz xs))"
  by pat_completeness auto
termination
  by (relation "measure (\<lambda>(sz, xs). length xs)") auto

declare chunks.simps [simp del]

lemma chunks_Nil [simp]: "chunks sz [] = []"
  by (simp add: chunks.simps)

text \<open>The packets of a buffer: at least one, and one more, empty, when the end has to be marked.\<close>

definition packets :: "nat \<Rightarrow> u8 list \<Rightarrow> bool \<Rightarrow> u8 list list" where
  "packets sz xs tz = (if xs = [] then [[]] else chunks sz xs) @ (if tz then [[]] else [])"

text \<open>Packets carry alternating data toggles.\<close>

fun toggled :: "bool \<Rightarrow> 'a list \<Rightarrow> (bool \<times> 'a) list" where
  "toggled t [] = []"
| "toggled t (x # xs) = (t, x) # toggled (\<not> t) xs"

lemma map_snd_toggled [simp]: "map snd (toggled t xs) = xs"
  by (induction xs arbitrary: t) auto

lemma concat_chunks: "0 < sz \<Longrightarrow> concat (chunks sz xs) = xs"
  by (induction sz xs rule: chunks.induct) (simp add: chunks.simps [of _ xs for xs])

lemma chunks_full: "p \<in> set (butlast (chunks sz xs)) \<Longrightarrow> length p = sz"
proof (induction sz xs rule: chunks.induct)
  case (1 sz xs)
  show ?case
  proof (cases "xs = [] \<or> sz = 0 \<or> drop sz xs = []")
    case True
    with 1(2) show ?thesis by (auto simp: chunks.simps [of sz xs] split: if_splits)
  next
    case False
    then have "chunks sz (drop sz xs) \<noteq> []" by (simp add: chunks.simps [of sz "drop sz xs"])
    with 1 False show ?thesis by (auto simp: chunks.simps [of sz xs])
  qed
qed

lemma chunks_ne: "0 < sz \<Longrightarrow> xs \<noteq> [] \<Longrightarrow> chunks sz xs \<noteq> []"
  by (subst chunks.simps) simp

lemma chunks_last:
  assumes "0 < sz" "xs \<noteq> []"
  shows "length (last (chunks sz xs)) \<le> sz \<and> last (chunks sz xs) \<noteq> [] \<and> length (last (chunks sz xs)) mod sz = length xs mod sz"
  using assms
proof (induction sz xs rule: chunks.induct)
  case (1 sz xs)
  show ?case
  proof (cases "drop sz xs = []")
    case True
    with 1(2-) show ?thesis by (simp add: chunks.simps [of sz xs])
  next
    case False
    then have "last (chunks sz xs) = last (chunks sz (drop sz xs))"
      using 1(2,3) chunks_ne [OF 1(2) False] by (subst chunks.simps) simp
    moreover have "length (drop sz xs) mod sz = length xs mod sz" using False by (simp add: le_mod_geq)
    ultimately show ?thesis using 1 False by simp
  qed
qed

lemma chunks_last_full: "0 < sz \<Longrightarrow> xs \<noteq> [] \<Longrightarrow> length (last (chunks sz xs)) = sz \<longleftrightarrow> length xs mod sz = 0"
  using chunks_last [of sz xs] by (metis le_neq_implies_less length_0_conv mod_less mod_self)

text \<open>
  A transfer is complete for a host that asked for \<open>requested\<close> bytes: the packets carry the data, all but the last are
  full, and when there is less than was asked for the last one is short.
\<close>

definition transfer_complete :: "nat \<Rightarrow> nat \<Rightarrow> u8 list \<Rightarrow> u8 list list \<Rightarrow> bool" where
  "transfer_complete sz requested xs ps \<longleftrightarrow>
     ps \<noteq> [] \<and> concat ps = xs \<and> (\<forall>p\<in>set (butlast ps). length p = sz) \<and> (length xs < requested \<longrightarrow> length (last ps) < sz)"

lemma packets_complete:
  assumes "0 < sz" "tz \<longleftrightarrow> length xs < requested \<and> xs \<noteq> [] \<and> length xs mod sz = 0"
  shows "transfer_complete sz requested xs (packets sz xs tz)"
proof (cases "xs = []")
  case True
  with assms show ?thesis by (simp add: transfer_complete_def packets_def)
next
  case False
  note ne = chunks_ne [OF assms(1) False] and last = chunks_last_full [OF assms(1) False]
  have full: "length p = sz" if "p \<in> set (butlast (packets sz xs tz))" for p
  proof (cases tz)
    case True
    then have "p \<in> set (butlast (chunks sz xs) @ [last (chunks sz xs)])"
      using that False ne by (simp add: packets_def butlast_append)
    then show ?thesis using last chunks_full assms(2) True by fastforce
  next
    case tz: False
    then show ?thesis using that False chunks_full [of p sz xs] by (simp add: packets_def)
  qed
  have "length (last (packets sz xs tz)) < sz" if "length xs < requested"
    using that assms False ne last chunks_last [OF assms(1) False] by (auto simp: packets_def le_less)
  with full ne assms(1) False concat_chunks [of sz xs] show ?thesis
    by (auto simp: transfer_complete_def packets_def)
qed

section \<open>Drivers that transmit\<close>

definition bytes_at :: "(nat \<Rightarrow> u8) \<Rightarrow> nat \<Rightarrow> nat \<Rightarrow> u8 list" where
  "bytes_at m a n = map (\<lambda>k. m (a + k)) [0..<n]"

locale usb_transmitter =
  fixes submit :: "u8 \<Rightarrow> usb_device_tx_buf \<Rightarrow> 's \<Rightarrow> int \<times> 's"
    and ready :: "u8 \<Rightarrow> 's \<Rightarrow> bool"
    and size :: "u8 \<Rightarrow> 's \<Rightarrow> int"
    and mem :: "'s \<Rightarrow> nat \<Rightarrow> u8"
    and host_in :: "nat \<Rightarrow> u8 \<Rightarrow> 's \<Rightarrow> ((bool \<times> u8 list) list \<times> 's) option"
  assumes ready_size: "ready e s \<Longrightarrow> 0 < size e s"
    and submit_sends: "ready e s \<Longrightarrow> tx_buf_is_constant b \<Longrightarrow> \<not> tx_buf_is_stall b \<Longrightarrow> tx_buf_len b < 2 ^ 14 \<Longrightarrow>
      \<exists>t s'. fst (submit e b s) = tx_buf_len b \<and> ready e s'
        \<and> (\<forall>n \<ge> length (packets (nat (size e s)) (bytes_at (mem s) (tb_buf b) (nat (tx_buf_len b))) (tx_buf_needs_tz b)).
             host_in n e (snd (submit e b s)) =
               Some (toggled t (packets (nat (size e s)) (bytes_at (mem s) (tb_buf b) (nat (tx_buf_len b))) (tx_buf_needs_tz b)), s'))"
begin

text \<open>An answer to a control request that asked for a known number of bytes.\<close>

lemma answer_complete:
  assumes "ready e s" "0 \<le> l" "l \<le> uint (requested :: u16)" "l < 2 ^ 14"
    and b_def: "b = TX_BUF_INITIALIZER a l True"
    and b'_def: "b' = (if (requested = USB_BUF_UNDETERMINED_LENGTH \<or> uint requested > tx_buf_len b)
                  \<and> tx_buf_len b \<noteq> 0 \<and> tx_buf_len b mod size e s = 0 then tx_buf_add_term_zero b else b)"
  shows "\<exists>n ps s'. host_in n e (snd (submit e b' s)) = Some (ps, s') \<and> ready e s'
    \<and> transfer_complete (nat (size e s)) (unat requested) (bytes_at (mem s) a (nat l)) (map snd ps)"
proof -
  have c: "TX_BUF_CONSTANT AND TX_BUF_CONSTANT \<noteq> 0" "TX_BUF_CONSTANT AND TX_BUF_STALL = 0" "TX_BUF_CONSTANT AND TX_BUF_NEEDS_TZ = 0"
    "(TX_BUF_CONSTANT OR TX_BUF_NEEDS_TZ) AND TX_BUF_CONSTANT \<noteq> 0" "(TX_BUF_CONSTANT OR TX_BUF_NEEDS_TZ) AND TX_BUF_STALL = 0"
    "(TX_BUF_CONSTANT OR TX_BUF_NEEDS_TZ) AND TX_BUF_NEEDS_TZ \<noteq> 0"
    by (simp_all add: TX_BUF_CONSTANT_def TX_BUF_STALL_def TX_BUF_NEEDS_TZ_def)
  have len: "tx_buf_len b = l" using assms(2,4) by (simp add: b_def tx_buf_len_def TX_BUF_INITIALIZER_def uint_word_of_int)
  have undet: "requested = USB_BUF_UNDETERMINED_LENGTH \<Longrightarrow> uint requested > l"
    using assms(4) by (simp add: USB_BUF_UNDETERMINED_LENGTH_def)
  define tz where "tz \<longleftrightarrow> uint requested > l \<and> l \<noteq> 0 \<and> l mod size e s = 0"
  have b': "tx_buf_is_constant b'" "\<not> tx_buf_is_stall b'" "tx_buf_len b' = l" "tb_buf b' = a" "tx_buf_needs_tz b' \<longleftrightarrow> tz"
    using len c undet
    by (auto simp: b'_def b_def tz_def tx_buf_add_term_zero_def tx_buf_is_constant_def tx_buf_is_stall_def tx_buf_needs_tz_def
        TX_BUF_INITIALIZER_def tx_buf_len_def)
  let ?ps = "packets (nat (size e s)) (bytes_at (mem s) a (nat l)) tz"
  from submit_sends [OF assms(1) b'(1,2)] b'(3-5) assms(4) obtain t s' where
    s': "ready e s'" "host_in (length ?ps) e (snd (submit e b' s)) = Some (toggled t ?ps, s')" by auto
  have sz: "0 < size e s" by (rule ready_size [OF assms(1)])
  have "transfer_complete (nat (size e s)) (unat requested) (bytes_at (mem s) a (nat l)) ?ps"
  proof (rule packets_complete)
    show "0 < nat (size e s)" using sz by simp
    have "nat l mod nat (size e s) = 0 \<longleftrightarrow> l mod size e s = 0"
      using assms(2) sz by (auto simp flip: nat_mod_distrib intro: antisym)
    then show "tz \<longleftrightarrow> length (bytes_at (mem s) a (nat l)) < unat requested \<and> bytes_at (mem s) a (nat l) \<noteq> []
        \<and> length (bytes_at (mem s) a (nat l)) mod nat (size e s) = 0"
      using assms(2) by (auto simp: tz_def bytes_at_def nat_less_iff)
  qed
  with s' show ?thesis by (intro exI [of _ "length ?ps"] exI [of _ "toggled t ?ps"] exI [of _ s']) simp
qed

end

section \<open>The host at the Freescale controller\<close>

text \<open>
  The hardware keeps its own turn for each endpoint, here beside the state of the driver. An IN token on endpoint \<open>e\<close>: when the
  descriptor in turn is owned by the hardware, its bytes are sent with its data toggle, the token is stored in the descriptor, which
  goes back to the processor, and the interrupt is raised.
\<close>

type_synonym fs_line = "(u8 \<Rightarrow> u8) \<times> fs"

definition stat_reg :: "u8 \<Rightarrow> u8 \<Rightarrow> u8" where
  "stat_reg e par = push_bit 4 e OR 8 OR push_bit 2 par"

fun host_in :: "freescale usb_env \<Rightarrow> nat \<Rightarrow> u8 \<Rightarrow> fs_line \<Rightarrow> ((bool \<times> u8 list) list \<times> fs_line) option" where
  "host_in env 0 e l = Some ([], l)"
| "host_in env (Suc n) e (turn, s) =
     (let i = unat (get_bdt_index e 1 (turn e)); bd = the_bd s i
      in if bd_flags bd AND OWN_MASK = 0 then Some ([], (turn, s))
         else case freescale_irq_handler env USB_ISTAT_TOKDNE_MASK (stat_reg e (turn e))
                     (set_bd i (bd\<lparr>bd_flags := push_bit 2 USB_TOKEN_IN\<rparr>) s) of
                None \<Rightarrow> None
              | Some s' \<Rightarrow>
                  map_option (\<lambda>(ps, l). ((bd_flags bd AND DATA01_MASK \<noteq> 0, bytes_at (us_mem s) (bd_address bd) (unat (bd_bc bd))) # ps, l))
                    (host_in env n e (turn(e := turn e XOR 1), s')))"

definition freescale_board :: "int \<Rightarrow> u32 \<Rightarrow> freescale usb_env \<Rightarrow> freescale usb_env" where
  "freescale_board irq_ret bdt_addr env = env\<lparr>env_ops := freescale_usb_device_controller_ops irq_ret bdt_addr\<rparr>"

text \<open>The next descriptor in turn is free and the driver agrees with the hardware which one that is.\<close>

definition fs_open :: "u8 \<Rightarrow> fs_line \<Rightarrow> bool" where
  "fs_open e ln \<longleftrightarrow> (let par = fst ln e; s = snd ln; ep = the_ep s e; lld = fs_lld (us_hw s) (unat e);
       bd = the_bd s (unat (get_bdt_index e 1 par)); bd' = the_bd s (unat (get_bdt_index e 1 (par XOR 1))) in
     e < 16 \<and> (par = 0 \<or> par = 1) \<and> lld_odd lld = par \<and> (tx_data0 lld = 0 \<or> tx_data0 lld = DATA01_MASK)
     \<and> bd_address bd = 0 \<and> bd_flags bd AND OWN_MASK = 0 \<and> bd_address bd' = 0 \<and> bd_flags bd' AND OWN_MASK = 0
     \<and> \<not> ed_transmitting (ep_data ep) \<and> length (ep_tx_bufs ep) = 2 \<and> tx_buf_is_free (tx_buf_at s e 1)
     \<and> 0 < ep_size ep \<and> ep_size ep < 2 ^ 16)"

definition fs_idle :: "u8 \<Rightarrow> fs_line \<Rightarrow> bool" where
  "fs_idle e ln \<longleftrightarrow> fs_open e ln \<and> ed_curr_tx_buf (ep_data (the_ep (snd ln) e)) = None \<and> tx_buf_is_free (tx_buf_at (snd ln) e 0)"

text \<open>A packet of \<open>l\<close> bytes at \<open>a\<close> is with the hardware, \<open>r\<close> more bytes of the buffer follow.\<close>

definition fs_sending :: "u8 \<Rightarrow> nat \<Rightarrow> int \<Rightarrow> int \<Rightarrow> bool \<Rightarrow> bool \<Rightarrow> int \<Rightarrow> (nat \<Rightarrow> u8) \<Rightarrow> fs_line \<Rightarrow> bool" where
  "fs_sending e a l r tz t sz m ln \<longleftrightarrow> (let par = fst ln e; s = snd ln; ep = the_ep s e; lld = fs_lld (us_hw s) (unat e);
       bd = the_bd s (unat (get_bdt_index e 1 par)); bd' = the_bd s (unat (get_bdt_index e 1 (par XOR 1))); b = tx_buf_at s e 0 in
     e < 16 \<and> (par = 0 \<or> par = 1) \<and> lld_odd lld = par XOR 1 \<and> tx_data0 lld = (if t then 0 else DATA01_MASK)
     \<and> bd_address bd = a \<and> bd_bc bd = word_of_int l \<and> bd_flags bd = (if t then DATA01_MASK else 0) OR OWN_MASK
     \<and> bd_address bd' = 0 \<and> bd_flags bd' AND OWN_MASK = 0
     \<and> ed_curr_tx_buf (ep_data ep) = Some 0 \<and> \<not> ed_transmitting (ep_data ep) \<and> length (ep_tx_bufs ep) = 2
     \<and> int (tb_buf b) = int a + l \<and> tx_buf_len b = r \<and> tx_buf_needs_tz b = tz \<and> tx_buf_is_free (tx_buf_at s e 1)
     \<and> ep_size ep = sz \<and> 0 < sz \<and> sz < 2 ^ 16 \<and> us_mem s = m \<and> 0 \<le> l \<and> l \<le> sz \<and> r < 2 ^ 14)"

lemma par_xor [simp]: "par = 0 \<or> par = 1 \<Longrightarrow> (par XOR 1) XOR 1 = (par :: u8)" "(0 :: u8) XOR 1 = 1" "(1 :: u8) XOR 1 = 0"
  by auto

lemma bdt_index_ne [simp]:
  "par = 0 \<or> par = 1 \<Longrightarrow> unat (get_bdt_index e tx (par XOR 1)) \<noteq> unat (get_bdt_index e tx par)"
  "par = 0 \<or> par = 1 \<Longrightarrow> unat (get_bdt_index e tx par) \<noteq> unat (get_bdt_index e tx (par XOR 1))"
  by (auto simp: get_bdt_index_def simp flip: word_unat_eq_iff)

lemma stat_reg_fields:
  assumes "e < 16" "par = 0 \<or> par = 1"
  shows "usb_stat_to_bd_index (stat_reg e par) = unat (get_bdt_index e 1 par)" "drop_bit 4 (stat_reg e par) = e" "stat_reg e par AND 8 \<noteq> 0"
proof -
  have "e \<in> of_nat ` {0..<16}"
  proof
    show "e = of_nat (unat e)" by simp
    show "unat e \<in> {0..<16}" using assms(1) by (simp add: word_less_nat_alt)
  qed
  then have e: "e \<in> {0, 1, 2, 3, 4, 5, 6, 7, 8, 9, 10, 11, 12, 13, 14, 15}"
    by (auto simp: atLeast0LessThan lessThan_Suc numeral_eq_Suc)
  show "usb_stat_to_bd_index (stat_reg e par) = unat (get_bdt_index e 1 par)" "drop_bit 4 (stat_reg e par) = e" "stat_reg e par AND 8 \<noteq> 0"
    using e assms(2) by (auto simp: usb_stat_to_bd_index_def stat_reg_def get_bdt_index_def)
qed

lemma fs_simps [simp]:
  "the_ep (upd_hw f s) e = the_ep s e" "us_hw (upd_hw f s) = f (us_hw s)" "us_mem (upd_hw f s) = us_mem s"
  "us_next_addr (upd_hw f s) = us_next_addr s" "us_hw (set_ep e x s) = us_hw s" "the_ep (set_ep e x s) e = x"
  "us_mem (set_ep e x s) = us_mem s" "us_next_addr (set_ep e x s) = us_next_addr s"
  "the_bd (set_bd i b s) j = (if j = i then b else the_bd s j)" "the_bd (set_ep e x s) i = the_bd s i"
  "the_bd (set_reg r v s) i = the_bd s i" "the_ep (set_bd i b s) e = the_ep s e" "the_ep (set_reg r v s) e = the_ep s e"
  "us_mem (set_bd i b s) = us_mem s" "us_mem (set_reg r v s) = us_mem s"
  "fs_lld (us_hw (set_bd i b s)) = fs_lld (us_hw s)" "fs_lld (us_hw (set_reg r v s)) = fs_lld (us_hw s)"
  "tx_buf_at (upd_hw f s) e i = tx_buf_at s e i" "tx_buf_at (set_bd j b s) e i = tx_buf_at s e i" "tx_buf_at (set_reg r v s) e i = tx_buf_at s e i"
  "tx_buf_at (upd_ep_data e g s) e i = tx_buf_at s e i" "ep_data (the_ep (upd_ep_data e g s) e) = g (ep_data (the_ep s e))"
  "ep_tx_bufs (the_ep (upd_ep_data e g s) e) = ep_tx_bufs (the_ep s e)" "ep_size (the_ep (upd_ep_data e g s) e) = ep_size (the_ep s e)"
  "us_hw (upd_ep_data e g s) = us_hw s" "us_mem (upd_ep_data e g s) = us_mem s" "the_bd (upd_ep_data e g s) i = the_bd s i"
  "us_next_addr (upd_ep_data e g s) = us_next_addr s"
  "the_bd (upd_hw (\<lambda>h. h\<lparr>fs_lld := L h\<rparr>) s) i = the_bd s i" "the_bd (upd_hw (\<lambda>h. h\<lparr>fs_bufs := B h\<rparr>) s) i = the_bd s i"
  "us_hw (set_tx_buf e k tb s) = us_hw s" "us_mem (set_tx_buf e k tb s) = us_mem s" "the_bd (set_tx_buf e k tb s) i = the_bd s i"
  "ep_data (the_ep (set_tx_buf e k tb s) e) = ep_data (the_ep s e)" "ep_size (the_ep (set_tx_buf e k tb s) e) = ep_size (the_ep s e)"
  "ep_tx_bufs (the_ep (set_tx_buf e k tb s) e) = (ep_tx_bufs (the_ep s e))[k := tb]"
  "k < length (ep_tx_bufs (the_ep s e)) \<Longrightarrow> tx_buf_at (set_tx_buf e k tb s) e k = tb"
  "k \<noteq> j \<Longrightarrow> tx_buf_at (set_tx_buf e k tb s) e j = tx_buf_at s e j"
  by (auto simp: the_ep_def upd_hw_def set_ep_def the_bd_def set_bd_def set_reg_def tx_buf_at_def upd_ep_data_def set_tx_buf_def)

lemma prepare_sends:
  assumes "fs_open e (turn, s)" "ed_curr_tx_buf (ep_data (the_ep s e)) = None \<or> ed_curr_tx_buf (ep_data (the_ep s e)) = Some 0"
    and "r = tx_buf_len (tx_buf_at s e 0)" "r < 2 ^ 14" "sz = ep_size (the_ep s e)"
  shows "\<exists>s'. prepare_bd e 0 s = (True, s') \<and>
    fs_sending e (tb_buf (tx_buf_at s e 0)) (min r sz) (r - min r sz) (tx_buf_needs_tz (tx_buf_at s e 0))
      (tx_data0 (fs_lld (us_hw s) (unat e)) \<noteq> 0) sz (us_mem s) (turn, s')"
proof -
  let ?b = "tx_buf_at s e 0" and ?lld = "fs_lld (us_hw s) (unat e)" and ?par = "turn e"
  let ?i = "unat (get_bdt_index e 1 ?par)"
  have o: "e < 16" "?par = 0 \<or> ?par = 1" "lld_odd ?lld = ?par" "tx_data0 ?lld = 0 \<or> tx_data0 ?lld = DATA01_MASK"
    "bd_address (the_bd s ?i) = 0" "bd_address (the_bd s (unat (get_bdt_index e 1 (?par XOR 1)))) = 0"
    "bd_flags (the_bd s (unat (get_bdt_index e 1 (?par XOR 1)))) AND OWN_MASK = 0" "\<not> ed_transmitting (ep_data (the_ep s e))"
    "length (ep_tx_bufs (the_ep s e)) = 2" "tx_buf_is_free (tx_buf_at s e 1)" "0 < sz" "sz < 2 ^ 16"
    using assms(1,5) by (simp_all add: fs_open_def Let_def)
  define l where "l = min r sz"
  have l: "0 \<le> l" "l \<le> sz" "l \<le> r" "min (tx_buf_len ?b) (ep_size (the_ep s e)) = l"
    using o(11) assms(3,5) by (auto simp: l_def tx_buf_len_def)
  have len: "tx_buf_len (tx_buf_update l ?b) = r - l" "tb_buf (tx_buf_update l ?b) = nat (int (tb_buf ?b) + l)"
    "tx_buf_needs_tz (tx_buf_update l ?b) = tx_buf_needs_tz ?b"
    using l(1-3) assms(3,4)
    by (simp_all add: tx_buf_update_def tx_buf_len_def tx_buf_needs_tz_def uint_sub_if' uint_word_of_int)
  have D: "DATA01_MASK \<noteq> 0" "DATA01_MASK XOR DATA01_MASK = 0" "0 XOR DATA01_MASK = DATA01_MASK" by (simp_all add: DATA01_MASK_def)
  define s1 where "s1 = set_tx_buf e 0 (tx_buf_update l ?b)
    (upd_hw (\<lambda>h. h\<lparr>fs_lld := (fs_lld h)(unat e := \<lparr>tx_data0 = tx_data0 ?lld XOR DATA01_MASK, lld_odd = lld_odd ?lld XOR 1\<rparr>)\<rparr>)
      (set_bd ?i ((the_bd s ?i)\<lparr>bd_address := tb_buf ?b, bd_bc := word_of_int l, bd_flags := tx_data0 ?lld OR OWN_MASK\<rparr>) s))"
  define s' where "s' = (if ed_curr_tx_buf (ep_data (the_ep s e)) = None then upd_ep_data e (\<lambda>d. d\<lparr>ed_curr_tx_buf := Some 0\<rparr>) s1 else s1)"
  have "prepare_bd e 0 s = (True, s')"
    using o(3,5) l(4) by (simp add: prepare_bd_def Let_def s'_def s1_def)
  moreover have d: "tx_data0 ?lld = (if tx_data0 ?lld \<noteq> 0 then DATA01_MASK else 0)"
    "tx_data0 ?lld XOR DATA01_MASK = (if tx_data0 ?lld \<noteq> 0 then 0 else DATA01_MASK)" using o(4) D by auto
  have s1: "the_ep s1 e = (the_ep s e)\<lparr>ep_tx_bufs := (ep_tx_bufs (the_ep s e))[0 := tx_buf_update l ?b]\<rparr>"
    "tx_buf_at s1 e 0 = tx_buf_update l ?b" "tx_buf_at s1 e 1 = tx_buf_at s e 1" "us_mem s1 = us_mem s"
    "fs_lld (us_hw s1) (unat e) = \<lparr>tx_data0 = tx_data0 ?lld XOR DATA01_MASK, lld_odd = ?par XOR 1\<rparr>"
    "the_bd s1 ?i = (the_bd s ?i)\<lparr>bd_address := tb_buf ?b, bd_bc := word_of_int l, bd_flags := tx_data0 ?lld OR OWN_MASK\<rparr>"
    "the_bd s1 (unat (get_bdt_index e 1 (?par XOR 1))) = the_bd s (unat (get_bdt_index e 1 (?par XOR 1)))"
    using o(2,3,9) by (simp_all add: s1_def) (simp add: set_tx_buf_def)
  have s': "ep_data (the_ep s' e) = (ep_data (the_ep s e))\<lparr>ed_curr_tx_buf := Some 0\<rparr>" "ep_tx_bufs (the_ep s' e) = ep_tx_bufs (the_ep s1 e)"
    "ep_size (the_ep s' e) = sz" "\<And>i. tx_buf_at s' e i = tx_buf_at s1 e i" "us_hw s' = us_hw s1" "us_mem s' = us_mem s1" "\<And>i. the_bd s' i = the_bd s1 i"
    using assms(2,5) s1(1) by (auto simp: s'_def)
  have "fs_sending e (tb_buf ?b) l (r - l) (tx_buf_needs_tz ?b) (tx_data0 ?lld \<noteq> 0) sz (us_mem s) (turn, s')"
    unfolding fs_sending_def Let_def fst_conv snd_conv
    using o l(1,2) len s1 s' d assms(4) by (intro conjI) simp_all
  ultimately show ?thesis by (auto simp: l_def)
qed

lemma the_reg_simps [simp]:
  "the_reg (set_bd i b s) r = the_reg s r" "the_reg (set_ep e x s) r = the_reg s r" "the_reg (upd_ep_data e g s) r = the_reg s r"
  "the_reg (set_tx_buf e k tb s) r = the_reg s r" "the_reg (upd_hw (\<lambda>h. h\<lparr>fs_lld := L h\<rparr>) s) r = the_reg s r"
  "the_reg (upd_hw (\<lambda>h. h\<lparr>fs_bufs := B h\<rparr>) s) r = the_reg s r" "the_reg (warn s) r = the_reg s r"
  "the_reg (set_reg r' v s) r = (if r = r' then v else the_reg s r)" "us_next_addr (set_reg r' v s) = us_next_addr s"
  "us_next_addr (set_bd i b s) = us_next_addr s" "us_next_addr (set_tx_buf e k tb s) = us_next_addr s" "us_next_addr (warn s) = us_next_addr s"
  by (auto simp: the_reg_def set_bd_def upd_hw_def set_ep_def upd_ep_data_def set_tx_buf_def warn_def set_reg_def)

text \<open>The interrupt of a packet that was sent, up to the choice of the next one.\<close>

lemma irq_after_in:
  assumes "fs_sending e a l r tz t sz m (turn, s)"
    and env: "env = freescale_board irq_ret bdt_addr env0"
  defines "i \<equiv> unat (get_bdt_index e 1 (turn e))"
  obtains s1 where "freescale_irq_handler env USB_ISTAT_TOKDNE_MASK (stat_reg e (turn e)) (set_bd i ((the_bd s i)\<lparr>bd_flags := push_bit 2 USB_TOKEN_IN\<rparr>) s)
      = Some (set_reg CTL USB_CTL_USBENSOFEN_MASK (update_tx_buf e s1))"
    and "fs_open e (turn(e := turn e XOR 1), s1)" "ed_curr_tx_buf (ep_data (the_ep s1 e)) = Some 0" "tx_buf_at s1 e 0 = tx_buf_at s e 0"
    and "fs_lld (us_hw s1) = fs_lld (us_hw s)" "us_mem s1 = m" "ep_size (the_ep s1 e) = sz" "us_next_addr s1 = 0"
      "the_reg s1 ADDR = (if us_next_addr s \<noteq> 0 then us_next_addr s else the_reg s ADDR)"
proof -
  let ?s = "set_bd i ((the_bd s i)\<lparr>bd_flags := push_bit 2 USB_TOKEN_IN\<rparr>) s"
  define s0 where "s0 = set_bd i (((the_bd s i)\<lparr>bd_flags := push_bit 2 USB_TOKEN_IN\<rparr>)\<lparr>bd_address := 0\<rparr>)
    (upd_ep_data e (\<lambda>d. d\<lparr>ed_transmitting := False\<rparr>) (set_reg ISTAT USB_ISTAT_TOKDNE_MASK ?s))"
  define s1 where "s1 = snd (usb_device_controller_in env e s0)"
  have o: "e < 16" "turn e = 0 \<or> turn e = 1" using assms(1) by (simp_all add: fs_sending_def Let_def)
  note stat = stat_reg_fields [OF o]
  have pid: "bd_get_pid ((the_bd s i)\<lparr>bd_flags := push_bit 2 USB_TOKEN_IN\<rparr>) = USB_TOKEN_IN"
    "USB_TOKEN_IN \<noteq> USB_TOKEN_SETUP" "(push_bit 2 USB_TOKEN_IN) AND OWN_MASK = 0"
    by (simp_all add: bd_get_pid_def USB_TOKEN_IN_def USB_TOKEN_SETUP_def TOK_PID_MASK_def OWN_MASK_def)
  have m: "USB_ISTAT_TOKDNE_MASK AND USB_ISTAT_USBRST_MASK = 0" "USB_ISTAT_TOKDNE_MASK AND USB_ISTAT_STALL_MASK = 0"
    "USB_ISTAT_TOKDNE_MASK AND USB_ISTAT_SLEEP_MASK = 0" "USB_ISTAT_TOKDNE_MASK AND USB_ISTAT_ERROR_MASK = 0"
    "USB_ISTAT_TOKDNE_MASK AND USB_ISTAT_SOFTOK_MASK = 0" "USB_ISTAT_TOKDNE_MASK \<noteq> 0"
    by (simp_all add: USB_ISTAT_TOKDNE_MASK_def USB_ISTAT_USBRST_MASK_def USB_ISTAT_STALL_MASK_def USB_ISTAT_SLEEP_MASK_def
        USB_ISTAT_ERROR_MASK_def USB_ISTAT_SOFTOK_MASK_def)
  show thesis
  proof (rule that [of s1])
    show "freescale_irq_handler env USB_ISTAT_TOKDNE_MASK (stat_reg e (turn e)) ?s = Some (set_reg CTL USB_CTL_USBENSOFEN_MASK (update_tx_buf e s1))"
      unfolding freescale_irq_handler_def token_done_def Let_def stat i_def [symmetric]
      using m pid stat(3) by (simp add: s1_def s0_def)
    have "the_ep s1 e = the_ep s0 e" "us_mem s1 = us_mem s0" "fs_lld (us_hw s1) = fs_lld (us_hw s0)" "\<And>i. the_bd s1 i = the_bd s0 i"
      "\<And>i. tx_buf_at s1 e i = tx_buf_at s0 e i"
      using env
      by (simp_all add: s1_def usb_device_controller_in_def freescale_board_def freescale_usb_device_controller_ops_def freescale_set_address_def)
         (simp_all add: set_reg_def upd_hw_def the_ep_def the_bd_def tx_buf_at_def)
    note s1 = this
    show "us_next_addr s1 = 0" "the_reg s1 ADDR = (if us_next_addr s \<noteq> 0 then us_next_addr s else the_reg s ADDR)"
      using env
      by (simp_all add: s1_def s0_def usb_device_controller_in_def freescale_board_def freescale_usb_device_controller_ops_def freescale_set_address_def)
         (auto simp: the_reg_def set_reg_def upd_hw_def)
    show "fs_open e (turn(e := turn e XOR 1), s1)" "ed_curr_tx_buf (ep_data (the_ep s1 e)) = Some 0" "tx_buf_at s1 e 0 = tx_buf_at s e 0"
      "fs_lld (us_hw s1) = fs_lld (us_hw s)" "us_mem s1 = m" "ep_size (the_ep s1 e) = sz"
      using assms(1) o(2) pid(3) unfolding fs_sending_def Let_def fst_conv snd_conv i_def [symmetric]
      by (auto simp: fs_open_def s1 Let_def i_def [symmetric]) (auto simp: s0_def i_def)
  qed
qed

lemma set_reg_keeps [simp]:
  "fs_open e (turn, set_reg r v s) = fs_open e (turn, s)" "fs_idle e (turn, set_reg r v s) = fs_idle e (turn, s)"
  "fs_sending e a l k tz t sz m (turn, set_reg r v s) = fs_sending e a l k tz t sz m (turn, s)"
  by (simp_all add: fs_open_def fs_idle_def fs_sending_def Let_def)

lemma update_done:
  assumes "fs_open e (turn, s)" "ed_curr_tx_buf (ep_data (the_ep s e)) = Some 0" "tx_buf_len (tx_buf_at s e 0) = 0" "\<not> tx_buf_needs_tz (tx_buf_at s e 0)"
  shows "fs_idle e (turn, update_tx_buf e s)" "us_mem (update_tx_buf e s) = us_mem s" "ep_size (the_ep (update_tx_buf e s) e) = ep_size (the_ep s e)"
proof -
  have len: "length (ep_tx_bufs (the_ep s e)) = 2" "tx_buf_is_free (tx_buf_at s e 1)" using assms(1) by (simp_all add: fs_open_def Let_def)
  define f where "f = free_tx_buf e 0 s"
  have f: "\<exists>B. f = set_tx_buf e 0 (tx_buf_free (tx_buf_at s e 0)) (upd_hw (\<lambda>h. h\<lparr>fs_bufs := B h\<rparr>) s)"
    unfolding f_def free_tx_buf_def Let_def by (rule exI, rule refl)
  then obtain B where f: "f = set_tx_buf e 0 (tx_buf_free (tx_buf_at s e 0)) (upd_hw (\<lambda>h. h\<lparr>fs_bufs := B h\<rparr>) s)" by blast
  have u: "update_tx_buf e s = upd_ep_data e (\<lambda>d. d\<lparr>ed_curr_tx_buf := None\<rparr>) f"
    using assms(2-4) len by (simp add: update_tx_buf_def Let_def flip: f_def) (simp add: f)
  have free: "tx_buf_is_free (tx_buf_free (tx_buf_at s e 0))"
    using assms(3) by (simp add: tx_buf_is_free_def tx_buf_free_def tx_buf_len_def TX_BUF_BUSY_def uint_0_iff)
  show "fs_idle e (turn, update_tx_buf e s)"
    using assms(1) len free by (simp add: u f fs_idle_def fs_open_def Let_def)
  show "us_mem (update_tx_buf e s) = us_mem s" "ep_size (the_ep (update_tx_buf e s) e) = ep_size (the_ep s e)"
    by (simp_all add: u f)
qed

lemma update_more:
  assumes "fs_open e (turn, s)" "ed_curr_tx_buf (ep_data (the_ep s e)) = Some 0" "r = tx_buf_len (tx_buf_at s e 0)"
    and "tz = tx_buf_needs_tz (tx_buf_at s e 0)" "r \<noteq> 0 \<or> tz" "r < 2 ^ 14" "sz = ep_size (the_ep s e)"
  shows "fs_sending e (tb_buf (tx_buf_at s e 0)) (min r sz) (r - min r sz) (tz \<and> r \<noteq> 0) (tx_data0 (fs_lld (us_hw s) (unat e)) \<noteq> 0) sz (us_mem s)
    (turn, update_tx_buf e s)"
proof -
  have len: "length (ep_tx_bufs (the_ep s e)) = 2" using assms(1) by (simp add: fs_open_def Let_def)
  define s1 where "s1 = (if r = 0 then set_tx_buf e 0 (tx_buf_tz_sent (tx_buf_at s e 0)) s else s)"
  have b: "tx_buf_len (tx_buf_at s1 e 0) = r" "tb_buf (tx_buf_at s1 e 0) = tb_buf (tx_buf_at s e 0)"
    "tx_buf_needs_tz (tx_buf_at s1 e 0) \<longleftrightarrow> tz \<and> r \<noteq> 0"
    using assms(3,4) len
    by (auto simp: s1_def tx_buf_tz_sent_def tx_buf_len_def tx_buf_needs_tz_def and.assoc)
  have o: "fs_open e (turn, s1)" "ed_curr_tx_buf (ep_data (the_ep s1 e)) = Some 0" "ep_size (the_ep s1 e) = sz" "us_mem s1 = us_mem s"
    "fs_lld (us_hw s1) = fs_lld (us_hw s)"
    using assms(1,2,7) len by (auto simp: s1_def fs_open_def Let_def)
  from prepare_sends [OF o(1), of r sz] o b assms(6) obtain s2 where
    p: "prepare_bd e 0 s1 = (True, s2)" and
    s2: "fs_sending e (tb_buf (tx_buf_at s e 0)) (min r sz) (r - min r sz) (tz \<and> r \<noteq> 0) (tx_data0 (fs_lld (us_hw s) (unat e)) \<noteq> 0) sz (us_mem s) (turn, s2)"
    by auto
  have "update_tx_buf e s = s2"
    using assms(2-5) p by (auto simp: update_tx_buf_def Let_def s1_def split: if_splits)
  with s2 show ?thesis by simp
qed

lemma host_in_idle: "fs_idle e (turn, s) \<Longrightarrow> host_in env n e (turn, s) = Some ([], (turn, s))"
  by (cases n) (simp_all add: fs_idle_def fs_open_def Let_def)

lemma length_bytes_at [simp]: "length (bytes_at m a n) = n" "bytes_at m a n = [] \<longleftrightarrow> n = 0"
  by (simp_all add: bytes_at_def)

lemma chunks_bytes:
  assumes "0 < sz" "0 < r"
  shows "chunks sz (bytes_at m a r) = bytes_at m a (min r sz) # chunks sz (bytes_at m (a + min r sz) (r - min r sz))"
proof -
  have "take sz (bytes_at m a r) = bytes_at m a (min r sz)" "drop sz (bytes_at m a r) = bytes_at m (a + min r sz) (r - min r sz)"
    by (rule nth_equalityI; auto simp: bytes_at_def min_def add.assoc split: if_splits)+
  with assms show ?thesis by (subst chunks.simps) simp
qed

text \<open>All packets of the buffer, one for every IN token.\<close>

lemma host_in_sending:
  assumes "fs_sending e a l r tz t sz m (turn, s)" "env = freescale_board irq_ret bdt_addr env0"
    and "rest = chunks (nat sz) (bytes_at m (a + nat l) (nat r)) @ (if tz then [[]] else [])" "length rest < n"
  shows "\<exists>ln. host_in env n e (turn, s) = Some (toggled t (bytes_at m a (nat l) # rest), ln) \<and> fs_idle e ln"
  using assms
proof (induction n arbitrary: a l r tz t turn s rest)
  case (Suc n)
  let ?i = "unat (get_bdt_index e 1 (turn e))" and ?turn = "turn(e := turn e XOR 1)"
  have f: "bd_flags (the_bd s ?i) = (if t then DATA01_MASK else 0) OR OWN_MASK" "bd_address (the_bd s ?i) = a" "bd_bc (the_bd s ?i) = word_of_int l"
    "us_mem s = m" "0 \<le> l" "l \<le> sz" "sz < 2 ^ 16" "0 < sz" "tx_buf_len (tx_buf_at s e 0) = r" "tx_buf_needs_tz (tx_buf_at s e 0) = tz"
    "int (tb_buf (tx_buf_at s e 0)) = int a + l" "r < 2 ^ 14" "tx_data0 (fs_lld (us_hw s) (unat e)) = (if t then 0 else DATA01_MASK)"
    using Suc.prems(1) by (auto simp: fs_sending_def Let_def)
  have M: "((if t then DATA01_MASK else 0) OR OWN_MASK) AND OWN_MASK \<noteq> 0" "((if t then DATA01_MASK else 0) OR OWN_MASK) AND DATA01_MASK \<noteq> 0 \<longleftrightarrow> t"
    "(if t then 0 else DATA01_MASK) \<noteq> 0 \<longleftrightarrow> \<not> t"
    by (simp_all add: DATA01_MASK_def OWN_MASK_def)
  have l: "unat (word_of_int l :: u16) = nat l" using f(5-7) by (simp add: unat_eq_nat_uint uint_word_of_int)
  have a: "tb_buf (tx_buf_at s e 0) = a + nat l" using f(5,11) by linarith
  have r: "0 \<le> r" using f(9) by (simp add: tx_buf_len_def flip: f(9))
  obtain s1 where irq: "freescale_irq_handler env USB_ISTAT_TOKDNE_MASK (stat_reg e (turn e)) (set_bd ?i ((the_bd s ?i)\<lparr>bd_flags := push_bit 2 USB_TOKEN_IN\<rparr>) s)
      = Some (set_reg CTL USB_CTL_USBENSOFEN_MASK (update_tx_buf e s1))"
    and o: "fs_open e (?turn, s1)" "ed_curr_tx_buf (ep_data (the_ep s1 e)) = Some 0" "tx_buf_at s1 e 0 = tx_buf_at s e 0"
      "fs_lld (us_hw s1) = fs_lld (us_hw s)" "us_mem s1 = m" "ep_size (the_ep s1 e) = sz"
    by (rule irq_after_in [OF Suc.prems(1,2)])
  let ?s2 = "set_reg CTL USB_CTL_USBENSOFEN_MASK (update_tx_buf e s1)"
  have step: "host_in env (Suc n) e (turn, s) =
      map_option (\<lambda>(ps, ln). ((t, bytes_at m a (nat l)) # ps, ln)) (host_in env n e (?turn, ?s2))"
    using irq f(1-4) l M by (simp add: Let_def)
  show ?case
  proof (cases "r = 0 \<and> \<not> tz")
    case True
    then have "fs_idle e (?turn, ?s2)" using update_done [OF o(1,2)] o(3) f(9,10) by simp
    with True show ?thesis using step host_in_idle Suc.prems(3) by (simp add: bytes_at_def)
  next
    case False
    have sending: "fs_sending e (a + nat l) (min r sz) (r - min r sz) (tz \<and> r \<noteq> 0) (\<not> t) sz m (?turn, ?s2)"
      using update_more [OF o(1,2), of r tz sz] o(3-6) f(9,10,12,13) a False M(3) by auto
    define rest' where "rest' = chunks (nat sz) (bytes_at m (a + nat l + nat (min r sz)) (nat (r - min r sz))) @ (if tz \<and> r \<noteq> 0 then [[]] else [])"
    have rest: "rest = bytes_at m (a + nat l) (nat (min r sz)) # rest'"
    proof (cases "r = 0")
      case True
      with False Suc.prems(3) f(8) show ?thesis by (simp add: rest'_def bytes_at_def)
    next
      case r0: False
      have n: "min (nat r) (nat sz) = nat (min r sz)" "nat r - nat (min r sz) = nat (r - min r sz)" using r f(8) by (auto simp: nat_diff_distrib' min_def)
      show ?thesis
        using Suc.prems(3) r0 r f(8) chunks_bytes [of "nat sz" "nat r" m "a + nat l"] by (simp add: rest'_def n)
    qed
    then have "length rest' < n" using Suc.prems(4) by simp
    from Suc.IH [OF sending Suc.prems(2) rest'_def this] obtain ln where "host_in env n e (?turn, ?s2) = Some (toggled (\<not> t) (bytes_at m (a + nat l) (nat (min r sz)) # rest'), ln)" "fs_idle e ln"
      by blast
    then show ?thesis using step rest by simp
  qed
qed simp

lemma host_in_more:
  "host_in env n e ln = Some (ps, ln') \<Longrightarrow> fs_idle e ln' \<Longrightarrow> host_in env (n + k) e ln = Some (ps, ln')"
proof (induction n arbitrary: ln ps ln')
  case 0
  then show ?case using host_in_idle [of e "fst ln'" "snd ln'"] by simp
next
  case (Suc n)
  obtain turn s where ln: "ln = (turn, s)" by (cases ln)
  from Suc.prems show ?case
    by (auto simp: ln Let_def split: if_splits option.splits intro: Suc.IH)
qed

text \<open>The driver with the turns of the hardware.\<close>

definition fs_submit :: "u8 \<Rightarrow> usb_device_tx_buf \<Rightarrow> fs_line \<Rightarrow> int \<times> fs_line" where
  "fs_submit e b ln = (let (r, s) = freescale_submit_tx_buf e b (snd ln) in (r, (fst ln, s)))"

definition fs_size :: "u8 \<Rightarrow> fs_line \<Rightarrow> int" where
  "fs_size e ln = ep_size (the_ep (snd ln) e)"

definition fs_mem :: "fs_line \<Rightarrow> nat \<Rightarrow> u8" where
  "fs_mem ln = us_mem (snd ln)"

lemma submit_starts:
  assumes "fs_idle e (turn, s)" "tx_buf_is_constant b" "\<not> tx_buf_is_stall b" "tx_buf_len b < 2 ^ 14" "sz = fs_size e (turn, s)"
  obtains s' t where "fs_submit e b (turn, s) = (tx_buf_len b, (turn, s'))"
    "fs_sending e (tb_buf b) (min (tx_buf_len b) sz) (tx_buf_len b - min (tx_buf_len b) sz) (tx_buf_needs_tz b) t sz (us_mem s) (turn, s')"
proof -
  have o: "fs_open e (turn, s)" "ed_curr_tx_buf (ep_data (the_ep s e)) = None" "tx_buf_is_free (tx_buf_at s e 0)"
    "length (ep_tx_bufs (the_ep s e)) = 2" "\<not> ed_transmitting (ep_data (the_ep s e))"
    using assms(1) by (simp_all add: fs_idle_def fs_open_def Let_def)
  let ?s = "set_tx_buf e 0 (tx_buf_get b) s"
  have slot: "find_free_tx_slot e s = 0"
    using o(3) by (simp add: find_free_tx_slot_def get_tx_buf_queue_depth_def upt_rec)
  have b: "tx_buf_len (tx_buf_get b) = tx_buf_len b" "tb_buf (tx_buf_get b) = tb_buf b" "tx_buf_needs_tz (tx_buf_get b) = tx_buf_needs_tz b"
    by (simp_all add: tx_buf_get_def tx_buf_len_def tx_buf_needs_tz_def bit.conj_disj_distrib2 TX_BUF_BUSY_def TX_BUF_NEEDS_TZ_def)
  have at: "tx_buf_at ?s e 0 = tx_buf_get b" using o(4) by simp
  have open': "fs_open e (turn, ?s)" using o(1,4) by (simp add: fs_open_def Let_def)
  from prepare_sends [OF open', of "tx_buf_len b" sz] o(2) assms(4,5) at b obtain s' where
    p: "prepare_bd e 0 ?s = (True, s')" and
    s': "fs_sending e (tb_buf b) (min (tx_buf_len b) sz) (tx_buf_len b - min (tx_buf_len b) sz) (tx_buf_needs_tz b)
      (tx_data0 (fs_lld (us_hw ?s) (unat e)) \<noteq> 0) sz (us_mem s) (turn, s')"
    by (auto simp: fs_size_def)
  have "fs_submit e b (turn, s) = (tx_buf_len b, (turn, s'))"
    using slot assms(2,3) o(5) p by (simp add: fs_submit_def freescale_submit_tx_buf_def Let_def)
  with s' show thesis using that by blast
qed

lemma packets_first:
  assumes "0 < sz" "0 \<le> l"
  shows "packets (nat sz) (bytes_at m a (nat l)) tz =
    bytes_at m a (nat (min l sz)) # chunks (nat sz) (bytes_at m (a + nat (min l sz)) (nat (l - min l sz))) @ (if tz then [[]] else [])"
proof (cases "l = 0")
  case True
  with assms show ?thesis by (simp add: packets_def bytes_at_def)
next
  case False
  have "min (nat l) (nat sz) = nat (min l sz)" "nat l - nat (min l sz) = nat (l - min l sz)"
    using assms by (auto simp: nat_diff_distrib' min_def)
  with False assms chunks_bytes [of "nat sz" "nat l" m a] show ?thesis by (simp add: packets_def)
qed

interpretation fs_tx: usb_transmitter fs_submit fs_idle fs_size fs_mem "host_in (freescale_board irq_ret bdt_addr env0)"
  for irq_ret bdt_addr env0
proof unfold_locales
  fix e ln b
  assume idle: "fs_idle e ln"
  then show pos: "0 < fs_size e ln" by (auto simp: fs_idle_def fs_open_def fs_size_def Let_def)
  assume b: "tx_buf_is_constant b" "\<not> tx_buf_is_stall b" "tx_buf_len b < 2 ^ 14"
  obtain turn s where ln: "ln = (turn, s)" by (cases ln)
  let ?sz = "fs_size e ln" and ?l = "tx_buf_len b" and ?env = "freescale_board irq_ret bdt_addr env0"
  let ?ps = "packets (nat ?sz) (bytes_at (fs_mem ln) (tb_buf b) (nat ?l)) (tx_buf_needs_tz b)"
  obtain s' t where sub: "fs_submit e b ln = (?l, (turn, s'))" and
    s': "fs_sending e (tb_buf b) (min ?l ?sz) (?l - min ?l ?sz) (tx_buf_needs_tz b) t ?sz (fs_mem ln) (turn, s')"
    using submit_starts [OF idle [unfolded ln] b refl] by (auto simp: ln fs_mem_def)
  have l: "0 \<le> ?l" by (simp add: tx_buf_len_def)
  have ex: "\<exists>ln'. host_in ?env n e (turn, s') = Some (toggled t ?ps, ln') \<and> fs_idle e ln'" if "length ?ps \<le> n" for n
    using host_in_sending [OF s' refl refl, of n irq_ret bdt_addr env0] that packets_first [OF pos l, of "fs_mem ln" "tb_buf b" "tx_buf_needs_tz b"]
    by simp
  from ex [of "length ?ps"] obtain ln' where "host_in ?env (length ?ps) e (turn, s') = Some (toggled t ?ps, ln')" "fs_idle e ln'" by blast
  then show "\<exists>t s''. fst (fs_submit e b ln) = ?l \<and> fs_idle e s'' \<and> (\<forall>n\<ge>length ?ps. host_in ?env n e (snd (fs_submit e b ln)) = Some (toggled t ?ps, s''))"
    using sub host_in_more [of ?env "length ?ps" e "(turn, s')" "toggled t ?ps" ln']
    by (intro exI [of _ t] exI [of _ ln']) (auto simp: le_iff_add)
qed

section \<open>Control transfers\<close>

text \<open>
  C25. A standard request for a descriptor that exists, on an idle control endpoint of the Freescale controller, is answered with a transfer
  the host recognises as complete: its packets carry the first bytes of the descriptor, up to the requested number, all packets but the last are full, and
  when the descriptor is shorter than requested the last one is short, an extra empty packet if necessary. The endpoint is idle again afterwards.
\<close>
theorem usb_descriptor_transfer:
  assumes "fs_idle 0 (turn, s)" "env = freescale_board irq_ret bdt_addr env0" "d = setup_at p s"
    and "bmRequestType d AND USB_REQUEST_TYPE_RCP_MASK = 0" "is_standard_request (bmRequestType d)" "bRequest d = USB_GET_DESCRIPTOR"
    and "requested = to_u16 (wLengthL d) (wLengthH d)" "value = to_u16 (wValueL d) (wValueH d)"
    and "descr_table env (descr_type value) = Some ds" "unat (descr_index value) < length ds"
    and "de = ds ! unat (descr_index value)" "0 \<le> de_len de" "de_len de < 2 ^ 14"
  shows "\<exists>r s' n ps ln. usb_device_controller_setup env p s = Some (r, s') \<and> host_in env n 0 (turn, s') = Some (ps, ln) \<and> fs_idle 0 ln
    \<and> transfer_complete (nat (ep_size (the_ep s 0))) (unat requested)
        (bytes_at (us_mem s) (de_addr de) (nat (min (uint requested) (de_len de)))) (map snd ps)"
proof -
  let ?l = "min (uint requested) (de_len de)" and ?b = "TX_BUF_INITIALIZER (de_addr de) (min (uint requested) (de_len de)) True"
  define b where "b = (if (requested = USB_BUF_UNDETERMINED_LENGTH \<or> uint requested > tx_buf_len ?b)
    \<and> tx_buf_len ?b \<noteq> 0 \<and> tx_buf_len ?b mod ep_size (the_ep s 0) = 0 then tx_buf_add_term_zero ?b else ?b)"
  have r: "USB_GET_DESCRIPTOR \<noteq> USB_GET_STATUS" "USB_GET_DESCRIPTOR \<noteq> USB_CLEAR_FEATURE" "USB_GET_DESCRIPTOR \<noteq> USB_SET_FEATURE"
    "USB_GET_DESCRIPTOR \<noteq> USB_SET_ADDRESS"
    by (simp_all add: USB_GET_DESCRIPTOR_def USB_GET_STATUS_def USB_CLEAR_FEATURE_def USB_SET_FEATURE_def USB_SET_ADDRESS_def)
  have ops: "op_submit_tx_buf (env_ops env) = freescale_submit_tx_buf"
    by (simp add: assms(2) freescale_board_def freescale_usb_device_controller_ops_def)
  have answer: "usb_device_controller_setup env p s = Some (freescale_submit_tx_buf 0 b s)"
    using assms(3-11) r ops
    by (simp add: usb_device_controller_setup_def handle_device_request_def handle_get_descriptor_def submit_const_def
        usb_device_controller_submit_tx_buf_def b_def Let_def)
  have "\<exists>n ps ln. host_in env n 0 (snd (fs_submit 0 b (turn, s))) = Some (ps, ln) \<and> fs_idle 0 ln
    \<and> transfer_complete (nat (fs_size 0 (turn, s))) (unat requested) (bytes_at (fs_mem (turn, s)) (de_addr de) (nat ?l)) (map snd ps)"
    unfolding assms(2) using assms(12,13)
    by (intro fs_tx.answer_complete [OF assms(1) _ _ _ refl]) (simp_all add: b_def fs_size_def min_less_iff_disj)
  then show ?thesis
    using answer by (cases "freescale_submit_tx_buf 0 b s") (auto simp: fs_submit_def fs_size_def fs_mem_def)
qed

definition ex_ep :: usb_device_endpoint where
  "ex_ep = \<lparr>ep_data = \<lparr>ed_users = 1, ed_rx_buf = 0, ed_rx_cnt = 0, ed_transmitting = False, ed_curr_tx_buf = None, ed_synch_frame = 0, ed_status = 0\<rparr>,
     ep_kind = Control_ep, ep_ndev = 1, ep_priv = (\<lambda>i. i = 0), ep_tx_bufs = replicate 2 \<lparr>tb_buf = 0, tb_len = 0, tb_flags = 0\<rparr>,
     ep_address = 0, ep_iso = False, ep_size = 8\<rparr>"

definition ex_usb :: "u8 list \<Rightarrow> fs" where
  "ex_usb m = \<lparr>us_next_addr = 0, us_configuration = 0, us_users = 1, us_neps = 1, us_eps = (\<lambda>_. ex_ep),
     us_mem = (\<lambda>a. if a < length m then m ! a else 0),
     us_hw = \<lparr>fs_bdt = (\<lambda>_. \<lparr>bd_flags = 0, bd_bc = 0, bd_address = 0\<rparr>), fs_bufs = (\<lambda>_. \<lparr>fb_buf1 = 500, fb_buf2 = 600, fb_flags = 0\<rparr>),
       fs_lld = (\<lambda>_. \<lparr>tx_data0 = DATA01_MASK, lld_odd = 0\<rparr>), fs_regs = (\<lambda>_. 0), fs_clocked = True, fs_irq = True, fs_warn = 0\<rparr>\<rparr>"

definition ex_usb_env :: "freescale usb_env" where
  "ex_usb_env = freescale_board 0 0
     \<lparr>env_ops = freescale_usb_device_controller_ops 0 0, env_device_descriptors = [\<lparr>de_addr = 8, de_len = 8\<rparr>], env_config_descriptors = [],
      env_string_descriptors = [], env_zero2 = 700, env_configuration = 702, env_ep_status = (\<lambda>_. 704), env_stack = 800,
      env_input_ready = (\<lambda>_ _. id), env_output_ready = (\<lambda>_ _. id)\<rparr>"

lemma ex_usb_idle: "fs_idle 0 (\<lambda>_. 0, ex_usb m)"
  by (simp add: fs_idle_def fs_open_def ex_usb_def ex_ep_def the_ep_def the_bd_def tx_buf_at_def tx_buf_is_free_def Let_def)

theorem usb_descriptor_transfer_witness:
  "\<exists>r s' n ps ln. usb_device_controller_setup ex_usb_env 0 (ex_usb [0x80, 6, 0, 1, 0, 0, 64, 0, 1, 2, 3, 4, 5, 6, 7, 8]) = Some (r, s')
    \<and> host_in ex_usb_env n 0 (\<lambda>_. 0, s') = Some (ps, ln) \<and> fs_idle 0 ln \<and> transfer_complete 8 64 [1, 2, 3, 4, 5, 6, 7, 8] (map snd ps)"
proof -
  let ?s = "ex_usb [0x80, 6, 0, 1, 0, 0, 64, 0, 1, 2, 3, 4, 5, 6, 7, 8]"
  have d: "bmRequestType (setup_at 0 ?s) AND USB_REQUEST_TYPE_RCP_MASK = 0" "is_standard_request (bmRequestType (setup_at 0 ?s))"
    "bRequest (setup_at 0 ?s) = USB_GET_DESCRIPTOR"
    by (simp_all add: setup_at_def ex_usb_def USB_REQUEST_TYPE_RCP_MASK_def is_standard_request_def USB_REQUEST_MASK_def USB_GET_DESCRIPTOR_def)
  have l: "64 = to_u16 (wLengthL (setup_at 0 ?s)) (wLengthH (setup_at 0 ?s))" "0x100 = to_u16 (wValueL (setup_at 0 ?s)) (wValueH (setup_at 0 ?s))"
    by (simp_all add: setup_at_def ex_usb_def to_u16_def)
  have t: "descr_table ex_usb_env (descr_type 0x100) = Some [\<lparr>de_addr = 8, de_len = 8\<rparr>]" "unat (descr_index 0x100) = 0"
    by (simp_all add: descr_table_def descr_type_def descr_index_def ex_usb_env_def freescale_board_def)
  have m: "bytes_at (us_mem ?s) 8 8 = [1, 2, 3, 4, 5, 6, 7, 8]" "ep_size (the_ep ?s 0) = 8"
    by (simp_all add: bytes_at_def ex_usb_def the_ep_def ex_ep_def upt_rec)
  from usb_descriptor_transfer [OF ex_usb_idle ex_usb_env_def refl d l t(1), of "\<lparr>de_addr = 8, de_len = 8\<rparr>"] t(2) m
  show ?thesis by simp
qed

lemma prepare_bd_keeps:
  "the_reg (snd (prepare_bd e i s)) r = the_reg s r" "us_next_addr (snd (prepare_bd e i s)) = us_next_addr s"
  by (simp_all add: prepare_bd_def Let_def)

lemma free_tx_buf_keeps: "the_reg (free_tx_buf e i s) r = the_reg s r" "us_next_addr (free_tx_buf e i s) = us_next_addr s"
  unfolding free_tx_buf_def Let_def by simp_all

lemma update_tx_buf_keeps: "the_reg (update_tx_buf e s) r = the_reg s r" "us_next_addr (update_tx_buf e s) = us_next_addr s"
  by (auto simp: update_tx_buf_def Let_def case_prod_beta free_tx_buf_keeps prepare_bd_keeps split: option.split)

lemma submit_keeps:
  assumes "tx_buf_is_constant b" "\<not> tx_buf_is_stall b"
  shows "the_reg (snd (freescale_submit_tx_buf e b s)) r = the_reg s r" "us_next_addr (snd (freescale_submit_tx_buf e b s)) = us_next_addr s"
  using assms by (auto simp: freescale_submit_tx_buf_def Let_def case_prod_beta prepare_bd_keeps)

lemma small_is_free:
  assumes "tx_buf_len b < 2 ^ 14"
  shows "tx_buf_is_free b"
proof -
  have "uint (tb_len b) div 2 ^ 14 = 0" using assms by (simp add: tx_buf_len_def)
  then have "\<not> bit (uint (tb_len b)) 14" by (simp add: bit_iff_odd)
  then have "\<not> bit (tb_len b) 14" by (simp add: bit_uint_iff)
  then have "tb_len b AND 2 ^ 14 = 0" by (simp only: and_exp_eq_0_iff_not_bit) simp
  then show ?thesis by (simp add: tx_buf_is_free_def TX_BUF_BUSY_def)
qed

text \<open>
  C26. A new address takes effect after the status stage only: the request stores it and leaves the address register, so that the empty packet
  that acknowledges it is still sent under the old address; when the host has read that packet the register holds the new one.
\<close>
theorem usb_set_address_deferred:
  assumes "fs_idle 0 (turn, s)" "env = freescale_board irq_ret bdt_addr env0" "d = setup_at p s"
    and "bmRequestType d AND USB_REQUEST_TYPE_RCP_MASK = 0" "is_standard_request (bmRequestType d)" "bRequest d = USB_SET_ADDRESS"
    and "a = ucast (to_u16 (wValueL d) (wValueH d))" "a \<noteq> 0"
  shows "\<exists>s' t turn' s''. usb_device_controller_setup env p s = Some (0, s') \<and> the_reg s' ADDR = the_reg s ADDR
    \<and> host_in env 1 0 (turn, s') = Some ([(t, [])], (turn', s'')) \<and> the_reg s'' ADDR = a \<and> us_next_addr s'' = 0"
proof -
  let ?s = "s\<lparr>us_next_addr := a\<rparr>" and ?b = "TX_BUF_INITIALIZER 0 0 True" and ?i = "unat (get_bdt_index 0 1 (turn 0))"
  have idle: "fs_idle 0 (turn, ?s)"
    using assms(1) by (simp add: fs_idle_def fs_open_def Let_def the_ep_def the_bd_def tx_buf_at_def)
  have ops: "op_submit_tx_buf (env_ops env) = freescale_submit_tx_buf" "op_set_address (env_ops env) = (\<lambda>s. snd (freescale_set_address s))"
    by (simp_all add: assms(2) freescale_board_def freescale_usb_device_controller_ops_def)
  have r: "USB_SET_ADDRESS \<noteq> USB_GET_STATUS" "USB_SET_ADDRESS \<noteq> USB_CLEAR_FEATURE" "USB_SET_ADDRESS \<noteq> USB_SET_FEATURE"
    by (simp_all add: USB_SET_ADDRESS_def USB_GET_STATUS_def USB_CLEAR_FEATURE_def USB_SET_FEATURE_def)
  have b: "tx_buf_is_constant ?b" "\<not> tx_buf_is_stall ?b" "tx_buf_len ?b = 0" "tb_buf ?b = 0"
    by (simp_all add: TX_BUF_INITIALIZER_def tx_buf_is_constant_def tx_buf_is_stall_def tx_buf_len_def TX_BUF_CONSTANT_def TX_BUF_STALL_def)
  have answer: "usb_device_controller_setup env p s = Some (freescale_submit_tx_buf 0 ?b ?s)"
    using assms(3-7) r ops b
    by (simp add: usb_device_controller_setup_def handle_device_request_def control_ack_def usb_device_controller_submit_null_tx_buf_def
        usb_device_controller_submit_tx_buf_def Let_def)
  obtain s' t where sub: "fs_submit 0 ?b (turn, ?s) = (0, (turn, s'))" and
    snd': "fs_sending 0 0 0 0 (tx_buf_needs_tz ?b) t (fs_size 0 (turn, ?s)) (us_mem s) (turn, s')"
  proof (rule submit_starts [OF idle b(1,2) _ refl])
    fix s' t
    assume 1: "fs_submit 0 ?b (turn, ?s) = (tx_buf_len ?b, (turn, s'))" and
      2: "fs_sending 0 (tb_buf ?b) (min (tx_buf_len ?b) (fs_size 0 (turn, ?s))) (tx_buf_len ?b - min (tx_buf_len ?b) (fs_size 0 (turn, ?s)))
        (tx_buf_needs_tz ?b) t (fs_size 0 (turn, ?s)) (us_mem ?s) (turn, s')"
    have "0 < fs_size 0 (turn, ?s)" by (rule fs_tx.ready_size [OF idle])
    with 1 2 b show thesis using that by (simp add: min_def)
  qed (use b in simp)
  have keep: "the_reg s' ADDR = the_reg s ADDR" "us_next_addr s' = a"
    using sub submit_keeps [OF b(1,2), of 0 ?s] by (auto simp: fs_submit_def case_prod_beta the_reg_def)
  obtain s1 where irq: "freescale_irq_handler env USB_ISTAT_TOKDNE_MASK (stat_reg 0 (turn 0)) (set_bd ?i ((the_bd s' ?i)\<lparr>bd_flags := push_bit 2 USB_TOKEN_IN\<rparr>) s')
      = Some (set_reg CTL USB_CTL_USBENSOFEN_MASK (update_tx_buf 0 s1))"
    and s1: "us_next_addr s1 = 0" "the_reg s1 ADDR = (if us_next_addr s' \<noteq> 0 then us_next_addr s' else the_reg s' ADDR)"
    by (rule irq_after_in [OF snd' assms(2)])
  have bd: "bd_flags (the_bd s' ?i) AND OWN_MASK \<noteq> 0" "bd_bc (the_bd s' ?i) = 0"
    using snd' by (auto simp: fs_sending_def Let_def OWN_MASK_def DATA01_MASK_def)
  have "host_in env 1 0 (turn, s') = Some ([(bd_flags (the_bd s' ?i) AND DATA01_MASK \<noteq> 0, [])],
      (turn(0 := turn 0 XOR 1), set_reg CTL USB_CTL_USBENSOFEN_MASK (update_tx_buf 0 s1)))"
    using irq bd by (simp add: Let_def bytes_at_def)
  then show ?thesis
    using answer sub keep s1 assms(8)
    by (intro exI [of _ s'] exI [of _ "bd_flags (the_bd s' ?i) AND DATA01_MASK \<noteq> 0"] exI [of _ "turn(0 := turn 0 XOR 1)"]
        exI [of _ "set_reg CTL USB_CTL_USBENSOFEN_MASK (update_tx_buf 0 s1)"])
      (auto simp: fs_submit_def case_prod_beta prod_eq_iff update_tx_buf_keeps)
qed

theorem usb_set_address_deferred_witness:
  "\<exists>s' t turn' s''. usb_device_controller_setup ex_usb_env 0 (ex_usb [0, 5, 7, 0, 0, 0, 0, 0]) = Some (0, s') \<and> the_reg s' ADDR = 0
    \<and> host_in ex_usb_env 1 0 (\<lambda>_. 0, s') = Some ([(t, [])], (turn', s'')) \<and> the_reg s'' ADDR = 7 \<and> us_next_addr s'' = 0"
proof -
  let ?s = "ex_usb [0, 5, 7, 0, 0, 0, 0, 0]"
  have d: "bmRequestType (setup_at 0 ?s) AND USB_REQUEST_TYPE_RCP_MASK = 0" "is_standard_request (bmRequestType (setup_at 0 ?s))"
    "bRequest (setup_at 0 ?s) = USB_SET_ADDRESS"
    by (simp_all add: setup_at_def ex_usb_def is_standard_request_def USB_SET_ADDRESS_def)
  have a: "7 = ucast (to_u16 (wValueL (setup_at 0 ?s)) (wValueH (setup_at 0 ?s)))" "(7 :: u8) \<noteq> 0"
    by (simp_all add: setup_at_def ex_usb_def to_u16_def)
  have "the_reg ?s ADDR = 0" by (simp add: the_reg_def ex_usb_def)
  with usb_set_address_deferred [OF ex_usb_idle ex_usb_env_def refl d a] show ?thesis by simp
qed

text \<open>
  While a buffer is being sent, with \<open>r\<close> bytes still to go, a second one is accepted and takes its place: the test for a free slot
  looks at the wrong field, so the slot in use counts as free, and the rest of the first buffer is never sent.
\<close>
theorem usb_busy_slot_reused:
  assumes "fs_sending e a l r tz t sz m (turn, s)" "tx_buf_is_constant b" "\<not> tx_buf_is_stall b" "tx_buf_len b < 2 ^ 14"
  shows "find_free_tx_slot e s = 0 \<and> ed_curr_tx_buf (ep_data (the_ep s e)) = Some 0
    \<and> (\<exists>s'. freescale_submit_tx_buf e b s = (tx_buf_len b, s')
        \<and> tx_buf_at s' e 0 = tx_buf_update (min (tx_buf_len b) sz) (tx_buf_get b))"
proof -
  have f: "tx_buf_len (tx_buf_at s e 0) = r" "r < 2 ^ 14" "ed_curr_tx_buf (ep_data (the_ep s e)) = Some 0" "length (ep_tx_bufs (the_ep s e)) = 2"
    "\<not> ed_transmitting (ep_data (the_ep s e))" "ep_size (the_ep s e) = sz"
    "bd_address (the_bd s (unat (get_bdt_index e 1 (lld_odd (fs_lld (us_hw s) (unat e)))))) = 0"
    using assms(1) by (auto simp: fs_sending_def Let_def)
  have free: "tx_buf_is_free (tx_buf_at s e 0)" using small_is_free f(1,2) by simp
  have slot: "find_free_tx_slot e s = 0"
    using free by (simp add: find_free_tx_slot_def get_tx_buf_queue_depth_def upt_rec)
  have len: "tx_buf_len (tx_buf_get b) = tx_buf_len b" by (simp add: tx_buf_len_def tx_buf_get_def)
  have "\<exists>s'. prepare_bd e 0 (set_tx_buf e 0 (tx_buf_get b) s) = (True, s') \<and> tx_buf_at s' e 0 = tx_buf_update (min (tx_buf_len b) sz) (tx_buf_get b)"
    using f(3-7) len by (simp add: prepare_bd_def Let_def)
  then show ?thesis
    using slot f(3,5) assms(2,3) by (auto simp: freescale_submit_tx_buf_def Let_def)
qed

theorem usb_busy_slot_reused_witness:
  "let s = snd (freescale_submit_tx_buf 0 (TX_BUF_INITIALIZER 8 20 True) (ex_usb []))
   in find_free_tx_slot 0 s = 0 \<and> ed_curr_tx_buf (ep_data (the_ep s 0)) = Some 0
     \<and> (\<exists>s'. freescale_submit_tx_buf 0 (TX_BUF_INITIALIZER 50 3 True) s = (3, s')
          \<and> tx_buf_at s' 0 0 = tx_buf_update 3 (tx_buf_get (TX_BUF_INITIALIZER 50 3 True)))"
proof -
  let ?b = "\<lambda>a l. TX_BUF_INITIALIZER a l True"
  have b: "tx_buf_is_constant (?b a l)" "\<not> tx_buf_is_stall (?b a l)" "tx_buf_len (?b 8 20) = 20" "tx_buf_len (?b 50 3) = 3" for a l
    by (simp_all add: TX_BUF_INITIALIZER_def tx_buf_is_constant_def tx_buf_is_stall_def tx_buf_len_def TX_BUF_CONSTANT_def TX_BUF_STALL_def)
  have sz: "fs_size 0 (\<lambda>_. 0, ex_usb []) = 8" by (simp add: fs_size_def ex_usb_def ex_ep_def the_ep_def)
  obtain s' t where "fs_submit 0 (?b 8 20) (\<lambda>_. 0, ex_usb []) = (20, (\<lambda>_. 0, s'))"
    "fs_sending 0 (tb_buf (?b 8 20)) (min 20 8) (20 - min 20 8) (tx_buf_needs_tz (?b 8 20)) t 8 (us_mem (ex_usb [])) (\<lambda>_. 0, s')"
    using submit_starts [OF ex_usb_idle b(1,2) _ sz [symmetric], of 8 20] b(3) by auto
  moreover from this have "snd (freescale_submit_tx_buf 0 (?b 8 20) (ex_usb [])) = s'" by (auto simp: fs_submit_def case_prod_beta)
  ultimately show ?thesis
    using usb_busy_slot_reused [of 0 _ _ _ _ _ 8 _ "\<lambda>_. 0" s' "?b 50 3"] b by (auto simp: Let_def)
qed

end
