(* ===== verification/UsbCdcAcm.thy ===== *)
theory UsbCdcAcm
  imports Pipe
begin

text \<open>
  The serial line over USB, \<^verbatim>\<open>drivers/usb-cdc-acm.c\<close>: a character device whose data go through four endpoint pipes. The
  pipe and character device operations it calls are the record \<open>cdc_pipes\<close>, functions on the rest of the
  system; pipes are numbers. \<open>None\<close> is the use of a null pipe.
\<close>

section \<open>Data\<close>

datatype cdc_ep = CONTROL | ACM | RX | TX

definition NEPS :: nat where "NEPS = 4"

definition all_eps :: "cdc_ep list" where "all_eps = [CONTROL, ACM, RX, TX]"

record 'w cdc_pipes =
  cp_open :: "cdc_ep \<Rightarrow> nat \<Rightarrow> 'w \<Rightarrow> nat option \<times> 'w"
  cp_remap_input :: "nat \<Rightarrow> bool \<Rightarrow> 'w \<Rightarrow> 'w"
  cp_close :: "nat \<Rightarrow> 'w \<Rightarrow> 'w"
  cp_write :: "nat \<Rightarrow> u8 list \<Rightarrow> 'w \<Rightarrow> int \<times> 'w"
  cp_get_rx_buf :: "nat \<Rightarrow> 'w \<Rightarrow> int \<times> u8 list \<times> int \<times> 'w"
  cp_notify_read :: "nat \<Rightarrow> int \<Rightarrow> 'w \<Rightarrow> int \<times> 'w"
  cp_push_chars :: "u8 list \<Rightarrow> int \<Rightarrow> 'w \<Rightarrow> int \<times> 'w"
  cp_dev_init :: "'w \<Rightarrow> bool \<times> 'w"
  cp_dev_open :: "'w \<Rightarrow> int \<times> 'w"
  cp_dev_close :: "'w \<Rightarrow> int \<times> 'w"

record 'w usb_cdc_data =
  cdc_eps :: "cdc_ep \<Rightarrow> nat option"
  cdc_world :: 'w

definition CDC_GET_LINE_CODING :: u8 where "CDC_GET_LINE_CODING = 0x21"

definition line_coding :: "u8 list" where "line_coding = [0x00, 0xE1, 0x00, 0x00, 0x00, 0x00, 0x08]"

definition set_cdc_ep :: "cdc_ep \<Rightarrow> nat option \<Rightarrow> 'w usb_cdc_data \<Rightarrow> 'w usb_cdc_data" where
  "set_cdc_ep i p d = d\<lparr>cdc_eps := (cdc_eps d)(i := p)\<rparr>"

section \<open>Operations\<close>

definition usb_uart_write :: "'w cdc_pipes \<Rightarrow> u8 list \<Rightarrow> 'w usb_cdc_data \<Rightarrow> int \<times> 'w usb_cdc_data" where
  "usb_uart_write P buf d =
     (case cdc_eps d TX of None \<Rightarrow> (- ENODEV, d)
      | Some p \<Rightarrow> (let (r, w) = cp_write P p buf (cdc_world d) in (r, d\<lparr>cdc_world := w\<rparr>)))"

definition usb_uart_rx_enable :: "'w cdc_pipes \<Rightarrow> 'w usb_cdc_data \<Rightarrow> int \<times> 'w usb_cdc_data" where
  "usb_uart_rx_enable P d =
     (if cdc_eps d RX \<noteq> None then (0, d)
      else let (p, w) = cp_open P RX BATHOS_MODE_INPUT (cdc_world d); d = set_cdc_ep RX p (d\<lparr>cdc_world := w\<rparr>)
           in case p of None \<Rightarrow> (- EINVAL, d)
              | Some p \<Rightarrow> (0, d\<lparr>cdc_world := cp_remap_input P p False (cdc_world d)\<rparr>))"

definition usb_uart_tx_enable :: "'w cdc_pipes \<Rightarrow> 'w usb_cdc_data \<Rightarrow> int \<times> 'w usb_cdc_data" where
  "usb_uart_tx_enable P d =
     (if cdc_eps d TX \<noteq> None then (0, d)
      else let (p, w) = cp_open P TX BATHOS_MODE_OUTPUT (cdc_world d); d = set_cdc_ep TX p (d\<lparr>cdc_world := w\<rparr>)
           in (if p = None then - EINVAL else 0, d))"

definition usb_uart_disable :: "'w cdc_pipes \<Rightarrow> cdc_ep \<Rightarrow> 'w usb_cdc_data \<Rightarrow> int \<times> 'w usb_cdc_data" where
  "usb_uart_disable P i d =
     (let d = (case cdc_eps d i of None \<Rightarrow> d | Some p \<Rightarrow> d\<lparr>cdc_world := cp_close P p (cdc_world d)\<rparr>)
      in (0, set_cdc_ep i None d))"

definition usb_uart_rx_disable :: "'w cdc_pipes \<Rightarrow> 'w usb_cdc_data \<Rightarrow> int \<times> 'w usb_cdc_data" where
  "usb_uart_rx_disable P d = usb_uart_disable P RX d"

definition usb_uart_tx_disable :: "'w cdc_pipes \<Rightarrow> 'w usb_cdc_data \<Rightarrow> int \<times> 'w usb_cdc_data" where
  "usb_uart_tx_disable P d = usb_uart_disable P TX d"

definition usb_uart_open :: "'w cdc_pipes \<Rightarrow> nat \<Rightarrow> 'w usb_cdc_data \<Rightarrow> int \<times> 'w usb_cdc_data" where
  "usb_uart_open P neps d =
     (if neps < NEPS then (- EINVAL, d)
      else let (ok, w) = cp_dev_init P (cdc_world d); d = d\<lparr>cdc_world := w\<rparr>
           in if \<not> ok then (- 1, d)
              else let d = d\<lparr>cdc_eps := (\<lambda>_. None)\<rparr>;
                       (p, w) = cp_open P CONTROL (BATHOS_MODE_INPUT OR BATHOS_MODE_OUTPUT) (cdc_world d); d = d\<lparr>cdc_world := w\<rparr>
                   in case p of None \<Rightarrow> (- ENODEV, d)
                      | Some p \<Rightarrow>
                          let d = set_cdc_ep CONTROL (Some p) (d\<lparr>cdc_world := cp_remap_input P p True (cdc_world d)\<rparr>);
                              (q, w) = cp_open P ACM BATHOS_MODE_OUTPUT (cdc_world d); d = d\<lparr>cdc_world := w\<rparr>
                          in case q of None \<Rightarrow> (- ENODEV, d)
                             | Some q \<Rightarrow>
                                 let d = set_cdc_ep ACM (Some q) d; (r, w) = cp_dev_open P (cdc_world d)
                                 in (r, d\<lparr>cdc_world := w\<rparr>))"

text \<open>Closing calls \<open>pipe_close\<close> for every endpoint, open or not.\<close>

definition usb_uart_close :: "'w cdc_pipes \<Rightarrow> 'w usb_cdc_data \<Rightarrow> (int \<times> 'w usb_cdc_data) option" where
  "usb_uart_close P d =
     map_option (\<lambda>d. let (r, w) = cp_dev_close P (cdc_world d) in (r, d\<lparr>cdc_world := w\<rparr>))
       (fold (\<lambda>i d. Option.bind d (\<lambda>d. map_option (\<lambda>p. d\<lparr>cdc_world := cp_close P p (cdc_world d)\<rparr>) (cdc_eps d i))) all_eps (Some d))"

section \<open>Events\<close>

text \<open>A control message on pipe \<open>p\<close>: the bytes of the receive buffer and its length.\<close>

definition control_handle :: "'w cdc_pipes \<Rightarrow> nat \<Rightarrow> 'w \<Rightarrow> 'w" where
  "control_handle P p w =
     (let (stat, buf, len, w) = cp_get_rx_buf P p w
      in if stat < 0 then w
         else if len \<noteq> 8 then w
         else if buf ! 0 AND 0x1f = 0 then w
         else if buf ! 1 = CDC_GET_LINE_CODING then snd (cp_write P p line_coding w)
         else snd (cp_write P p [] w))"

definition data_handle :: "'w cdc_pipes \<Rightarrow> nat \<Rightarrow> 'w \<Rightarrow> 'w" where
  "data_handle P p w =
     (let (stat, buf, len, w) = cp_get_rx_buf P p w
      in if stat < 0 then w
         else let (stat, w) = cp_push_chars P buf len w
              in snd (cp_notify_read P p len w))"

section \<open>Properties\<close>

text \<open>Opening and enabling opens each endpoint once; closing is only possible then.\<close>

lemma usb_uart_close_open:
  "(\<exists>r d'. usb_uart_close P d = Some (r, d')) \<longleftrightarrow> (\<forall>i. cdc_eps d i \<noteq> None)"
proof
  assume "\<exists>r d'. usb_uart_close P d = Some (r, d')"
  then show "\<forall>i. cdc_eps d i \<noteq> None"
    by (auto simp: usb_uart_close_def all_eps_def Option.bind_eq_Some_conv) (metis (full_types) cdc_ep.exhaust option.distinct(1))
next
  assume "\<forall>i. cdc_eps d i \<noteq> None"
  then have "\<exists>p. cdc_eps d i = Some p" for i by auto
  then obtain f where "\<And>i. cdc_eps d i = Some (f i)" by metis
  then show "\<exists>r d'. usb_uart_close P d = Some (r, d')"
    by (simp add: usb_uart_close_def all_eps_def case_prod_beta)
qed

end
