(* ===== verification/UsbUart.thy ===== *)
theory UsbUart
  imports Prelude
begin

text \<open>
  The USB serial line of the ATmega32u4, \<^verbatim>\<open>arch-atmega/usb-uart.c\<close>: descriptors, the interrupt handlers for general events and for
  the endpoints, and the operations of the device.

  The controller is a parameter: reading and writing its registers are functions on its state, and the numbers of the bits, which come from the
  headers of the compiler, are the function \<open>u_bit\<close>. When interrupts are enabled again, \<open>u_isr\<close> is run, which stands for whatever
  interrupts are pending. Loops that wait for the controller may wait forever: the result is then \<open>None\<close>.
\<close>

section \<open>Controller and state\<close>

datatype avr_usb_reg = UDINT | UENUM | UECONX | UECFG0X | UECFG1X | UEIENX | UEINTX | UEINT | UEDATX | UEBCLX | UERST
  | UDADDR | UDIEN | UDCON | UDFNUML | UHWCON | USBCON | PLLCSR

datatype avr_usb_bit = EORSTI | SOFI | RXSTPE | RXOUTE | TXINI | STALLEDI | RXOUTI | RXSTPI | NAKOUTI | RWAL | NAKINI
  | STALLRQ | STALLRQC | RSTDT | EPEN | ADDEN | USBE | OTGPADE | FRZCLK | PLOCK | EORSTE | SOFE

record 'w usb_uart =
  usb_configuration :: u8
  cdc_line_rtsdtr :: u16
  cdc_line_coding :: "u8 list"
  transmit_flush_timer :: u8
  transmit_previous_timeout :: u8
  uu_sreg :: bool
  uu_hw :: 'w

datatype uu_board = Arduino_yun | Linino_one

record 'w uu_env =
  u_rd :: "avr_usb_reg \<Rightarrow> 'w \<Rightarrow> u8 \<times> 'w"
  u_wr :: "avr_usb_reg \<Rightarrow> u8 \<Rightarrow> 'w \<Rightarrow> 'w"
  u_bit :: "avr_usb_bit \<Rightarrow> nat"
  u_isr :: "'w usb_uart \<Rightarrow> 'w usb_uart"
  u_input_ready :: "'w \<Rightarrow> 'w"
  u_bootloader :: "('w \<Rightarrow> 'w) option"
  u_board :: uu_board

definition usb_uart_data :: "'w \<Rightarrow> 'w usb_uart" where
  "usb_uart_data w = \<lparr>usb_configuration = 0, cdc_line_rtsdtr = 0, cdc_line_coding = [0x00, 0xE1, 0x00, 0x00, 0x00, 0x00, 0x08],
     transmit_flush_timer = 0, transmit_previous_timeout = 0, uu_sreg = True, uu_hw = w\<rparr>"

definition rd :: "'w uu_env \<Rightarrow> avr_usb_reg \<Rightarrow> 'w usb_uart \<Rightarrow> u8 \<times> 'w usb_uart" where
  "rd E r s = (let (v, w) = u_rd E r (uu_hw s) in (v, s\<lparr>uu_hw := w\<rparr>))"

definition wr :: "'w uu_env \<Rightarrow> avr_usb_reg \<Rightarrow> u8 \<Rightarrow> 'w usb_uart \<Rightarrow> 'w usb_uart" where
  "wr E r v s = s\<lparr>uu_hw := u_wr E r v (uu_hw s)\<rparr>"

text \<open>\<open>1 << b\<close>, and the disjunction of several of them.\<close>

definition bv :: "'w uu_env \<Rightarrow> avr_usb_bit \<Rightarrow> u8" where
  "bv E b = push_bit (u_bit E b) 1"

definition interrupt_disable :: "'w usb_uart \<Rightarrow> bool \<times> 'w usb_uart" where
  "interrupt_disable s = (uu_sreg s, s\<lparr>uu_sreg := False\<rparr>)"

definition interrupt_restore :: "'w uu_env \<Rightarrow> bool \<Rightarrow> 'w usb_uart \<Rightarrow> 'w usb_uart" where
  "interrupt_restore E flags s = (let s = s\<lparr>uu_sreg := flags\<rparr> in if flags then u_isr E s else s)"

section \<open>Descriptors\<close>

definition EP_SIZE :: "nat \<Rightarrow> u8" where
  "EP_SIZE n = (if n = 64 then 0x30 else if n = 32 then 0x20 else if n = 16 then 0x10 else 0x00)"

definition ENDPOINT0_SIZE :: nat where "ENDPOINT0_SIZE = 16"
definition CDC_ACM_ENDPOINT :: u8 where "CDC_ACM_ENDPOINT = 2"
definition CDC_RX_ENDPOINT :: u8 where "CDC_RX_ENDPOINT = 3"
definition CDC_TX_ENDPOINT :: u8 where "CDC_TX_ENDPOINT = 4"
definition CDC_ACM_SIZE :: nat where "CDC_ACM_SIZE = 16"
definition CDC_RX_SIZE :: nat where "CDC_RX_SIZE = 64"
definition CDC_TX_SIZE :: nat where "CDC_TX_SIZE = 64"
definition EP_SINGLE_BUFFER :: u8 where "EP_SINGLE_BUFFER = 0x02"
definition EP_DOUBLE_BUFFER :: u8 where "EP_DOUBLE_BUFFER = 0x06"
definition EP_TYPE_CONTROL :: u8 where "EP_TYPE_CONTROL = 0x00"
definition EP_TYPE_BULK_IN :: u8 where "EP_TYPE_BULK_IN = 0x81"
definition EP_TYPE_BULK_OUT :: u8 where "EP_TYPE_BULK_OUT = 0x80"
definition EP_TYPE_INTERRUPT_IN :: u8 where "EP_TYPE_INTERRUPT_IN = 0xC1"
definition MAX_ENDPOINT :: u8 where "MAX_ENDPOINT = 4"

lemmas ep_consts = EP_SIZE_def ENDPOINT0_SIZE_def CDC_ACM_ENDPOINT_def CDC_RX_ENDPOINT_def CDC_TX_ENDPOINT_def CDC_ACM_SIZE_def
  CDC_RX_SIZE_def CDC_TX_SIZE_def EP_SINGLE_BUFFER_def EP_DOUBLE_BUFFER_def EP_TYPE_CONTROL_def EP_TYPE_BULK_IN_def
  EP_TYPE_BULK_OUT_def EP_TYPE_INTERRUPT_IN_def MAX_ENDPOINT_def

definition endpoint_config_table :: "u8 list" where
  "endpoint_config_table =
     [0,
      1, EP_TYPE_INTERRUPT_IN, EP_SIZE CDC_ACM_SIZE OR EP_SINGLE_BUFFER,
      1, EP_TYPE_BULK_OUT, EP_SIZE CDC_RX_SIZE OR EP_DOUBLE_BUFFER,
      1, EP_TYPE_BULK_IN, EP_SIZE CDC_TX_SIZE OR EP_DOUBLE_BUFFER]"

definition LSB :: "u16 \<Rightarrow> u8" where "LSB n = ucast (n AND 255)"
definition MSB :: "u16 \<Rightarrow> u8" where "MSB n = ucast (drop_bit 8 n AND 255)"

fun VENDOR_ID :: "uu_board \<Rightarrow> u16" where
  "VENDOR_ID Arduino_yun = 0x2a03"
| "VENDOR_ID Linino_one = 0x2a03"

fun PRODUCT_ID :: "uu_board \<Rightarrow> u16" where
  "PRODUCT_ID Arduino_yun = 0x0041"
| "PRODUCT_ID Linino_one = 0x0001"

fun STR_PRODUCT :: "uu_board \<Rightarrow> string" where
  "STR_PRODUCT Arduino_yun = ''Arduino Yun''"
| "STR_PRODUCT Linino_one = ''Linino One''"

definition device_descriptor :: "uu_board \<Rightarrow> u8 list" where
  "device_descriptor b =
     [18, 1, 0x00, 0x02, 2, 0, 0, of_nat ENDPOINT0_SIZE, LSB (VENDOR_ID b), MSB (VENDOR_ID b), LSB (PRODUCT_ID b), MSB (PRODUCT_ID b),
      0x00, 0x01, 1, 2, 3, 1]"

definition CONFIG1_DESC_SIZE :: nat where
  "CONFIG1_DESC_SIZE = 9 + 9 + 5 + 5 + 4 + 5 + 7 + 9 + 7 + 7"

definition config1_descriptor :: "u8 list" where
  "config1_descriptor =
     [9, 2, LSB (of_nat CONFIG1_DESC_SIZE), MSB (of_nat CONFIG1_DESC_SIZE), 2, 1, 0, 0xC0, 50,
      9, 4, 0, 0, 1, 0x02, 0x02, 0x01, 0,
      5, 0x24, 0x00, 0x10, 0x01,
      5, 0x24, 0x01, 0x01, 1,
      4, 0x24, 0x02, 0x06,
      5, 0x24, 0x06, 0, 1,
      7, 5, CDC_ACM_ENDPOINT OR 0x80, 0x03, of_nat CDC_ACM_SIZE, 0, 64,
      9, 4, 1, 0, 2, 0x0A, 0x00, 0x00, 0,
      7, 5, CDC_RX_ENDPOINT, 0x02, of_nat CDC_RX_SIZE, 0, 0,
      7, 5, CDC_TX_ENDPOINT OR 0x80, 0x02, of_nat CDC_TX_SIZE, 0, 0]"

text \<open>A wide string, with its terminator; a wide character has 16 bits.\<close>

definition wide_string :: "string \<Rightarrow> u8 list" where
  "wide_string s = concat (map (\<lambda>c. [of_char c, 0]) s) @ [0, 0]"

definition usb_string_descriptor :: "string \<Rightarrow> u8 list" where
  "usb_string_descriptor s = of_nat (length (wide_string s)) # 3 # wide_string s"

definition string0 :: "u8 list" where "string0 = [4, 3, 0x09, 0x04]"

definition descriptor_list :: "uu_board \<Rightarrow> (u16 \<times> u16 \<times> u8 list \<times> u8) list" where
  "descriptor_list b =
     [(0x0100, 0x0000, device_descriptor b, of_nat (length (device_descriptor b))),
      (0x0200, 0x0000, config1_descriptor, of_nat (length config1_descriptor)),
      (0x0300, 0x0000, string0, 4),
      (0x0301, 0x0409, usb_string_descriptor ''dog hunter'', of_nat (length (wide_string ''dog hunter''))),
      (0x0302, 0x0409, usb_string_descriptor (STR_PRODUCT b), of_nat (length (wide_string (STR_PRODUCT b)))),
      (0x0303, 0x0409, usb_string_descriptor ''00000'', of_nat (length (wide_string ''00000'')))]"

section \<open>General events\<close>

text \<open>\<^verbatim>\<open>ISR(USB_GEN_vect)\<close>.\<close>

definition usb_end_of_reset :: "'w uu_env \<Rightarrow> 'w usb_uart \<Rightarrow> 'w usb_uart" where
  "usb_end_of_reset E s =
     (let s = wr E UENUM 0 s;
          s = wr E UECONX 1 s;
          s = wr E UECFG0X EP_TYPE_CONTROL s;
          s = wr E UECFG1X (EP_SIZE ENDPOINT0_SIZE OR EP_SINGLE_BUFFER) s;
          s = wr E UEIENX (bv E RXSTPE) s
      in s\<lparr>usb_configuration := 0, cdc_line_rtsdtr := 0\<rparr>)"

definition usb_flush_tick :: "'w uu_env \<Rightarrow> 'w usb_uart \<Rightarrow> 'w usb_uart" where
  "usb_flush_tick E s =
     (if usb_configuration s \<noteq> 0 \<and> transmit_flush_timer s \<noteq> 0 then
        let s = s\<lparr>transmit_flush_timer := transmit_flush_timer s - 1\<rparr>
        in if transmit_flush_timer s = 0 then wr E UEINTX 0x3A (wr E UENUM CDC_TX_ENDPOINT s) else s
      else s)"

definition USB_GEN_vect :: "'w uu_env \<Rightarrow> 'w usb_uart \<Rightarrow> 'w usb_uart" where
  "USB_GEN_vect E s =
     (let (intbits, s) = rd E UDINT s;
          s = wr E UDINT 0 s;
          s = (if intbits AND bv E EORSTI \<noteq> 0 then usb_end_of_reset E s else s)
      in if intbits AND bv E SOFI \<noteq> 0 then
           wr E UEIENX (bv E RXOUTE) (wr E UENUM CDC_RX_ENDPOINT (usb_flush_tick E s))
         else s)"

section \<open>Waiting, sending and receiving\<close>

partial_function (option) usb_wait_any :: "'w uu_env \<Rightarrow> avr_usb_reg \<Rightarrow> u8 \<Rightarrow> 'w usb_uart \<Rightarrow> (u8 \<times> 'w usb_uart) option" where
  "usb_wait_any E r m s =
     (let (v, s) = rd E r s in if v AND m \<noteq> 0 then Some (v, s) else usb_wait_any E r m s)"

definition usb_wait_in_ready :: "'w uu_env \<Rightarrow> 'w usb_uart \<Rightarrow> 'w usb_uart option" where
  "usb_wait_in_ready E s = map_option snd (usb_wait_any E UEINTX (bv E TXINI) s)"

definition usb_send_in :: "'w uu_env \<Rightarrow> 'w usb_uart \<Rightarrow> 'w usb_uart" where
  "usb_send_in E s = wr E UEINTX (NOT (bv E TXINI)) s"

definition usb_wait_receive_out :: "'w uu_env \<Rightarrow> 'w usb_uart \<Rightarrow> 'w usb_uart option" where
  "usb_wait_receive_out E s = map_option snd (usb_wait_any E UEINTX (bv E RXOUTI) s)"

definition usb_ack_out :: "'w uu_env \<Rightarrow> 'w usb_uart \<Rightarrow> 'w usb_uart" where
  "usb_ack_out E s = wr E UEINTX (NOT (bv E RXOUTI)) s"

definition put_bytes :: "'w uu_env \<Rightarrow> u8 list \<Rightarrow> 'w usb_uart \<Rightarrow> 'w usb_uart" where
  "put_bytes E bs s = fold (wr E UEDATX) bs s"

fun get_bytes :: "'w uu_env \<Rightarrow> nat \<Rightarrow> 'w usb_uart \<Rightarrow> u8 list \<times> 'w usb_uart" where
  "get_bytes E 0 s = ([], s)"
| "get_bytes E (Suc n) s = (let (b, s) = rd E UEDATX s; (bs, s) = get_bytes E n s in (b # bs, s))"

section \<open>Requests\<close>

record setup_packet =
  bmRequestType :: u8
  bRequest :: u8
  wValue :: u16
  wIndex :: u16
  wLength :: u16

definition read_setup :: "'w uu_env \<Rightarrow> 'w usb_uart \<Rightarrow> setup_packet \<times> 'w usb_uart" where
  "read_setup E s =
     (let (rt, s) = rd E UEDATX s;
          (rq, s) = rd E UEDATX s;
          (vl, s) = rd E UEDATX s;
          (vh, s) = rd E UEDATX s;
          (il, s) = rd E UEDATX s;
          (ih, s) = rd E UEDATX s;
          (ll, s) = rd E UEDATX s;
          (lh, s) = rd E UEDATX s
      in (\<lparr>bmRequestType = rt, bRequest = rq, wValue = ucast vl OR push_bit 8 (ucast vh),
           wIndex = ucast il OR push_bit 8 (ucast ih), wLength = ucast ll OR push_bit 8 (ucast lh)\<rparr>, s))"

definition usb_stall :: "'w uu_env \<Rightarrow> 'w usb_uart \<Rightarrow> 'w usb_uart" where
  "usb_stall E s = wr E UECONX (bv E STALLRQ OR bv E EPEN) s"

fun find_descriptor :: "u16 \<Rightarrow> u16 \<Rightarrow> (u16 \<times> u16 \<times> u8 list \<times> u8) list \<Rightarrow> (u8 list \<times> u8) option" where
  "find_descriptor v i [] = None"
| "find_descriptor v i ((dv, di, addr, len) # ds) =
     (if dv \<noteq> v then find_descriptor v i ds
      else if di \<noteq> i then find_descriptor v i ds
      else Some (addr, len))"

text \<open>The packets of a descriptor. The host may end the transfer early.\<close>

function send_descriptor :: "'w uu_env \<Rightarrow> u8 list \<Rightarrow> nat \<Rightarrow> 'w usb_uart \<Rightarrow> 'w usb_uart option" where
  "send_descriptor E desc len s =
     (case usb_wait_any E UEINTX (bv E TXINI OR bv E RXOUTI) s of
        None \<Rightarrow> None
      | Some (i, s) \<Rightarrow>
          if i AND bv E RXOUTI \<noteq> 0 then Some s
          else
            let n = (if len < ENDPOINT0_SIZE then len else ENDPOINT0_SIZE);
                s = usb_send_in E (put_bytes E (take n desc) s)
            in if len - n \<noteq> 0 \<or> n = ENDPOINT0_SIZE then send_descriptor E (drop n desc) (len - n) s else Some s)"
  by pat_completeness auto
termination
  by (relation "measure (\<lambda>(E, desc, len, s). len)") (auto simp: ENDPOINT0_SIZE_def split: if_splits)

declare send_descriptor.simps [simp del]

definition usb_get_descriptor :: "'w uu_env \<Rightarrow> setup_packet \<Rightarrow> 'w usb_uart \<Rightarrow> 'w usb_uart option" where
  "usb_get_descriptor E r s =
     (case find_descriptor (wValue r) (wIndex r) (descriptor_list (u_board E)) of
        None \<Rightarrow> Some (usb_stall E s)
      | Some (addr, desc_length) \<Rightarrow>
          let len = (if wLength r < 256 then unat (wLength r) else 255);
              len = (if len > unat desc_length then unat desc_length else len)
          in send_descriptor E addr len s)"

definition usb_set_address :: "'w uu_env \<Rightarrow> setup_packet \<Rightarrow> 'w usb_uart \<Rightarrow> 'w usb_uart option" where
  "usb_set_address E r s =
     map_option (wr E UDADDR (ucast (wValue r) OR bv E ADDEN)) (usb_wait_in_ready E (usb_send_in E s))"

fun configure_endpoints :: "'w uu_env \<Rightarrow> u8 list \<Rightarrow> u8 list \<Rightarrow> 'w usb_uart \<Rightarrow> 'w usb_uart" where
  "configure_endpoints E [] cfg s = s"
| "configure_endpoints E (i # is) cfg s =
     (let s = wr E UENUM i s;
          en = hd cfg;
          s = wr E UECONX en s
      in if en \<noteq> 0 then configure_endpoints E is (drop 3 cfg) (wr E UECFG1X (cfg ! 2) (wr E UECFG0X (cfg ! 1) s))
         else configure_endpoints E is (tl cfg) s)"

definition usb_set_configuration :: "'w uu_env \<Rightarrow> setup_packet \<Rightarrow> 'w usb_uart \<Rightarrow> 'w usb_uart option" where
  "usb_set_configuration E r s =
     (let s = s\<lparr>usb_configuration := ucast (wValue r), cdc_line_rtsdtr := 0, transmit_flush_timer := 0\<rparr>;
          s = usb_send_in E s;
          s = configure_endpoints E [1, 2, 3, 4] endpoint_config_table s
      in Some (wr E UERST 0 (wr E UERST 0x1E s)))"

text \<open>An answer of a few bytes in one packet.\<close>

definition usb_answer :: "'w uu_env \<Rightarrow> ('w usb_uart \<Rightarrow> u8 list) \<Rightarrow> 'w usb_uart \<Rightarrow> 'w usb_uart option" where
  "usb_answer E bs s = map_option (\<lambda>s. usb_send_in E (put_bytes E (bs s) s)) (usb_wait_in_ready E s)"

definition usb_get_configuration :: "'w uu_env \<Rightarrow> 'w usb_uart \<Rightarrow> 'w usb_uart option" where
  "usb_get_configuration E s = usb_answer E (\<lambda>s. [usb_configuration s]) s"

definition cdc_get_line_coding :: "'w uu_env \<Rightarrow> 'w usb_uart \<Rightarrow> 'w usb_uart option" where
  "cdc_get_line_coding E s = usb_answer E (\<lambda>s. take 7 (cdc_line_coding s)) s"

definition le_value :: "u8 list \<Rightarrow> u32" where
  "le_value bs = (\<Sum>i < 4. push_bit (8 * i) (ucast (bs ! i)))"

definition cdc_set_line_coding :: "'w uu_env \<Rightarrow> 'w usb_uart \<Rightarrow> 'w usb_uart option" where
  "cdc_set_line_coding E s =
     (case usb_wait_receive_out E s of
        None \<Rightarrow> None
      | Some s \<Rightarrow>
          let (bs, s) = get_bytes E 7 s;
              s = usb_send_in E (usb_ack_out E (s\<lparr>cdc_line_coding := bs\<rparr>))
          in Some (case u_bootloader E of
                None \<Rightarrow> s
              | Some boot \<Rightarrow> if le_value (cdc_line_coding s) = 1200 then s\<lparr>uu_hw := boot (uu_hw s)\<rparr> else s))"

definition cdc_set_control_line_state :: "'w uu_env \<Rightarrow> setup_packet \<Rightarrow> 'w usb_uart \<Rightarrow> 'w usb_uart option" where
  "cdc_set_control_line_state E r s = map_option (usb_send_in E) (usb_wait_in_ready E (s\<lparr>cdc_line_rtsdtr := wValue r\<rparr>))"

definition usb_get_status :: "'w uu_env \<Rightarrow> setup_packet \<Rightarrow> 'w usb_uart \<Rightarrow> 'w usb_uart option" where
  "usb_get_status E r s =
     (case usb_wait_in_ready E s of
        None \<Rightarrow> None
      | Some s \<Rightarrow>
          let (i, s) =
                (if bmRequestType r = 0x82 then
                   let s = wr E UENUM (ucast (wIndex r)) s;
                       (c, s) = rd E UECONX s
                   in (if c AND bv E STALLRQ \<noteq> 0 then 1 else 0, wr E UENUM 0 s)
                 else (0, s))
          in Some (usb_send_in E (put_bytes E [i, 0] s)))"

text \<open>Halting an endpoint and clearing the halt; other endpoints are refused by the caller.\<close>

definition usb_endpoint_halt :: "'w uu_env \<Rightarrow> bool \<Rightarrow> u8 \<Rightarrow> 'w usb_uart \<Rightarrow> 'w usb_uart" where
  "usb_endpoint_halt E halt i s =
     (let s = wr E UENUM i (usb_send_in E s)
      in if halt then wr E UECONX (bv E STALLRQ OR bv E EPEN) s
         else wr E UERST 0 (wr E UERST (push_bit (unat i) 1) (wr E UECONX (bv E STALLRQC OR bv E RSTDT OR bv E EPEN) s)))"

definition usb_request :: "'w uu_env \<Rightarrow> setup_packet \<Rightarrow> 'w usb_uart \<Rightarrow> 'w usb_uart option" where
  "usb_request E r s =
     (let i = ucast (wIndex r AND 0x7F) :: u8 in
      if bRequest r = 6 then usb_get_descriptor E r s
      else if bRequest r = 5 then usb_set_address E r s
      else if bRequest r = 9 \<and> bmRequestType r = 0 then usb_set_configuration E r s
      else if bRequest r = 8 \<and> bmRequestType r = 0x80 then usb_get_configuration E s
      else if bRequest r = 0x21 \<and> bmRequestType r = 0xA1 then cdc_get_line_coding E s
      else if bRequest r = 0x20 \<and> bmRequestType r = 0x21 then cdc_set_line_coding E s
      else if bRequest r = 0x22 \<and> bmRequestType r = 0x21 then cdc_set_control_line_state E r s
      else if bRequest r = 0 then usb_get_status E r s
      else if (bRequest r = 1 \<or> bRequest r = 3) \<and> bmRequestType r = 0x02 \<and> wValue r = 0 \<and> 1 \<le> i \<and> i \<le> MAX_ENDPOINT
        then Some (usb_endpoint_halt E (bRequest r = 3) i s)
      else Some (usb_stall E s))"

text \<open>The mask of the acknowledgement is the disjunction of the numbers of the bits, as it is written.\<close>

definition usb_rx_event :: "'w uu_env \<Rightarrow> 'w usb_uart \<Rightarrow> 'w usb_uart" where
  "usb_rx_event E s =
     (let (ueint, s) = rd E UEINT s in
      if ueint AND push_bit (unat CDC_RX_ENDPOINT) 1 \<noteq> 0 then
        let s = wr E UENUM CDC_RX_ENDPOINT s;
            (intbits, s) = rd E UEINTX s;
            s = (if intbits AND bv E RXOUTI \<noteq> 0 then s\<lparr>uu_hw := u_input_ready E (uu_hw s)\<rparr> else s);
            (v, s) = rd E UEINTX s;
            m = of_nat (u_bit E NAKINI OR u_bit E NAKOUTI OR u_bit E RXSTPI OR u_bit E RXOUTI OR u_bit E STALLEDI OR u_bit E TXINI)
        in wr E UEINTX (v AND NOT m) s
      else s)"

definition USB_COM_vect :: "'w uu_env \<Rightarrow> 'w usb_uart \<Rightarrow> 'w usb_uart option" where
  "USB_COM_vect E s =
     (let s = usb_rx_event E s;
          s = wr E UENUM 0 s;
          (intbits, s) = rd E UEINTX s
      in if intbits AND bv E RXSTPI \<noteq> 0 then
           let (r, s) = read_setup E s;
               s = wr E UEINTX (NOT (bv E RXSTPI OR bv E RXOUTI OR bv E TXINI)) s
           in usb_request E r s
         else Some (usb_stall E s))"

section \<open>The device\<close>

definition EIO :: int where "EIO = 5"
definition TRANSMIT_FLUSH_TIMEOUT :: u8 where "TRANSMIT_FLUSH_TIMEOUT = 5"
definition TRANSMIT_TIMEOUT :: u8 where "TRANSMIT_TIMEOUT = 25"
definition USB_SERIAL_DTR :: u8 where "USB_SERIAL_DTR = 0x01"

definition atmega_usb_uart_init :: "'w uu_env \<Rightarrow> 'w usb_uart \<Rightarrow> (int \<times> 'w usb_uart) option" where
  "atmega_usb_uart_init E s =
     (let s = wr E UHWCON 0x01 s;
          s = wr E USBCON (bv E USBE OR bv E FRZCLK) s;
          s = wr E PLLCSR 0x12 s
      in case usb_wait_any E PLLCSR (bv E PLOCK) s of
           None \<Rightarrow> None
         | Some (v, s) \<Rightarrow>
             let s = wr E USBCON (bv E USBE OR bv E OTGPADE) s;
                 s = wr E UDCON 0 s;
                 s = s\<lparr>usb_configuration := 0, cdc_line_rtsdtr := 0\<rparr>
             in Some (0, wr E UDIEN (bv E EORSTE OR bv E SOFE) s))"

definition atmega_usb_uart_open :: int where "atmega_usb_uart_open = 0"

text \<open>Reading, with \<open>n\<close> bytes left to take. When the controller has no more data, interrupts are restored before the loop ends.\<close>

fun usb_read_loop :: "'w uu_env \<Rightarrow> bool \<Rightarrow> nat \<Rightarrow> 'w usb_uart \<Rightarrow> u8 list \<times> 'w usb_uart" where
  "usb_read_loop E flags 0 s = ([], s)"
| "usb_read_loop E flags (Suc n) s =
     (let s = wr E UENUM CDC_RX_ENDPOINT s;
          (ueintx, s) = rd E UEINTX s
      in if ueintx AND bv E RWAL = 0 then ([], interrupt_restore E flags s)
         else
           let s = wr E UENUM CDC_RX_ENDPOINT s;
               (b, s) = rd E UEDATX s;
               (bs, s) = usb_read_loop E flags n s
           in (b # bs, s))"

definition atmega_usb_uart_read :: "'w uu_env \<Rightarrow> int \<Rightarrow> 'w usb_uart \<Rightarrow> int \<times> u8 list \<times> 'w usb_uart" where
  "atmega_usb_uart_read E len s =
     (if usb_configuration s = 0 then (- EAGAIN, [], s)
      else
        let (flags, s) = interrupt_disable s;
            s = wr E UENUM CDC_RX_ENDPOINT s;
            (available, s) = rd E UEBCLX s;
            (bs, s) = usb_read_loop E flags (nat (min len (uint available))) s;
            s = wr E UENUM CDC_RX_ENDPOINT s;
            (available, s) = rd E UEBCLX s;
            s = (if available = 0 then let (v, s) = rd E UEINTX s in wr E UEINTX (v AND NOT 0x80) s else s)
        in (int (length bs), bs, interrupt_restore E flags s))"

text \<open>Waiting for room in the transmit endpoint: no error and the saved flags, or the error that ends the write.\<close>

partial_function (option) usb_wait_room :: "'w uu_env \<Rightarrow> u8 \<Rightarrow> bool \<Rightarrow> 'w usb_uart \<Rightarrow> (int \<times> bool \<times> 'w usb_uart) option" where
  "usb_wait_room E timeout flags s =
     (let (v, s) = rd E UEINTX s in
      if v AND bv E RWAL \<noteq> 0 then Some (0, flags, s)
      else
        let s = interrupt_restore E flags s;
            (f, s) = rd E UDFNUML s
        in if f = timeout then Some (- EIO, flags, s\<lparr>transmit_previous_timeout := 1\<rparr>)
           else if usb_configuration s = 0 then Some (- EAGAIN, flags, s)
           else
             let (flags, s) = interrupt_disable s;
                 s = wr E UENUM CDC_TX_ENDPOINT s
             in usb_wait_room E timeout flags s)"

definition packet_room :: "nat \<Rightarrow> u8 \<Rightarrow> nat" where
  "packet_room n c =
     (let write_size = unat (of_nat CDC_TX_SIZE - c :: u8)
      in if write_size > n then n else write_size)"

text \<open>
  The switch over the size writes as many bytes as the case says; a size above 64 falls into the default case, which writes one byte, while
  the count goes down by the size.
\<close>

definition switch_count :: "nat \<Rightarrow> nat" where
  "switch_count write_size = (if write_size \<le> 64 then write_size else 1)"

partial_function (option) usb_write_loop :: "'w uu_env \<Rightarrow> bool \<Rightarrow> u8 list \<Rightarrow> nat \<Rightarrow> 'w usb_uart \<Rightarrow> (int \<times> 'w usb_uart) option" where
  "usb_write_loop E flags buffer n s =
     (if n = 0 then Some (0, s)
      else
        let (f, s) = rd E UDFNUML s
        in case usb_wait_room E (f + TRANSMIT_TIMEOUT) flags s of
             None \<Rightarrow> None
           | Some (err, flags, s) \<Rightarrow>
               if err \<noteq> 0 then Some (err, s)
               else
                 let (c, s) = rd E UEBCLX s;
                     write_size = packet_room n c;
                     k = switch_count write_size;
                     s = put_bytes E (take k buffer) s;
                     (v, s) = rd E UEINTX s;
                     s = (if v AND bv E RWAL = 0 then wr E UEINTX 0x3A s else s);
                     s = s\<lparr>transmit_flush_timer := TRANSMIT_FLUSH_TIMEOUT\<rparr>;
                     s = interrupt_restore E flags s
                 in usb_write_loop E flags (drop k buffer) (n - write_size) s)"

definition do_usb_uart_write :: "'w uu_env \<Rightarrow> u8 list \<Rightarrow> 'w usb_uart \<Rightarrow> (int \<times> 'w usb_uart) option" where
  "do_usb_uart_write E buffer s =
     (if usb_configuration s = 0 then Some (- EAGAIN, s)
      else
        let (flags, s) = interrupt_disable s;
            s = wr E UENUM CDC_TX_ENDPOINT s
        in if transmit_previous_timeout s \<noteq> 0 then
             let (v, s) = rd E UEINTX s
             in if v AND bv E RWAL = 0 then Some (- EIO, interrupt_restore E flags s)
                else usb_write_loop E flags buffer (length buffer) (s\<lparr>transmit_previous_timeout := 0\<rparr>)
           else usb_write_loop E flags buffer (length buffer) s)"

definition atmega_usb_uart_write :: "'w uu_env \<Rightarrow> u8 list \<Rightarrow> 'w usb_uart \<Rightarrow> (int \<times> 'w usb_uart) option" where
  "atmega_usb_uart_write E buf s =
     (if buf = [] then
        Some (if usb_configuration s \<noteq> 0 \<and> (ucast (cdc_line_rtsdtr s) :: u8) AND USB_SERIAL_DTR \<noteq> 0 then 0 else - EAGAIN, s)
      else map_option (\<lambda>(r, s). (if r = 0 then int (length buf) else - 1, s)) (do_usb_uart_write E buf s))"

definition atmega_usb_uart_close :: "'w uu_env \<Rightarrow> 'w usb_uart \<Rightarrow> 'w usb_uart" where
  "atmega_usb_uart_close E s = (let (v, s) = rd E UDIEN s in wr E UDIEN (v AND (NOT (bv E EORSTE) OR bv E SOFE)) s)"

end
