(* ===== verification/UsbUartProps.thy ===== *)
theory UsbUartProps
  imports UsbUart
begin

text \<open>
  Properties of the USB serial line of the ATmega32u4: what the control endpoint answers, what the bulk endpoint sends, and where the code
  goes wrong. The locale \<open>control_endpoint\<close> has what the driver relies on of the control endpoint; it is
  interpreted by a model of the controller, \<open>avr_usb\<close>, which follows its data sheet.
\<close>

section \<open>Waiting\<close>

declare usb_wait_any.simps [code] usb_wait_room.simps [code] usb_write_loop.simps [code]

lemma usb_wait_any_step:
  "usb_wait_any E r m s = (if fst (rd E r s) AND m \<noteq> 0 then Some (rd E r s) else usb_wait_any E r m (snd (rd E r s)))"
  by (subst usb_wait_any.simps) (simp add: Let_def case_prod_beta)

text \<open>A wait ends when a measure of the state says how long it lasts.\<close>

lemma usb_wait_any_ends:
  assumes "P s" "\<And>s. P s \<Longrightarrow> 0 < waits s \<Longrightarrow> fst (rd E r s) AND m = 0 \<and> P (snd (rd E r s)) \<and> waits (snd (rd E r s)) = waits s - (1 :: nat)"
    and "\<And>s. P s \<Longrightarrow> waits s = 0 \<Longrightarrow> fst (rd E r s) AND m \<noteq> 0"
  shows "\<exists>s'. P s' \<and> waits s' = 0 \<and> usb_wait_any E r m s = Some (rd E r s')"
  using assms(1)
proof (induction "waits s" arbitrary: s)
  case 0
  with assms(3) [of s] show ?case by (auto simp: usb_wait_any_step [of E r m s])
next
  case (Suc n)
  with assms(2) [of s] have "n = waits (snd (rd E r s))" "P (snd (rd E r s))" "fst (rd E r s) AND m = 0" by simp_all
  with Suc.hyps(1) [of "snd (rd E r s)"] show ?case by (simp add: usb_wait_any_step [of E r m s])
qed

section \<open>The control endpoint\<close>

text \<open>
  The packets for the host, the bytes written since the last packet, the bytes the host has sent, and the number of polls until a
  packet can be written, as functions on the controller.
\<close>

locale control_endpoint =
  fixes E :: "'w uu_env"
    and ok :: "'w \<Rightarrow> bool"
    and pkts :: "'w \<Rightarrow> u8 list list"
    and buf out :: "'w \<Rightarrow> u8 list"
    and waits :: "'w \<Rightarrow> nat"
  assumes poll: "ok w \<Longrightarrow> u_rd E UEINTX w = (v, w') \<Longrightarrow> ok w' \<and> pkts w' = pkts w \<and> buf w' = buf w \<and> out w' = out w \<and> waits w' = waits w - 1
      \<and> (v AND bv E TXINI \<noteq> 0 \<longleftrightarrow> waits w = 0) \<and> (v AND bv E RXOUTI \<noteq> 0 \<longleftrightarrow> out w \<noteq> [])"
    and put: "ok w \<Longrightarrow> waits w = 0 \<Longrightarrow> length (buf w) < ENDPOINT0_SIZE \<Longrightarrow> w' = u_wr E UEDATX b w \<Longrightarrow>
      ok w' \<and> pkts w' = pkts w \<and> buf w' = buf w @ [b] \<and> out w' = out w \<and> waits w' = 0"
    and send: "ok w \<Longrightarrow> waits w = 0 \<Longrightarrow> w' = u_wr E UEINTX (NOT (bv E TXINI)) w \<Longrightarrow> ok w' \<and> pkts w' = pkts w @ [buf w] \<and> buf w' = [] \<and> out w' = out w"
    and fetch: "ok w \<Longrightarrow> out w = b # bs \<Longrightarrow> fst (u_rd E UEDATX w) = b
      \<and> (let w' = snd (u_rd E UEDATX w) in ok w' \<and> pkts w' = pkts w \<and> buf w' = buf w \<and> out w' = bs \<and> waits w' = waits w)"
    and ack: "ok w \<Longrightarrow> w' = u_wr E UEINTX (NOT (bv E RXOUTI)) w \<Longrightarrow> ok w' \<and> pkts w' = pkts w \<and> buf w' = buf w \<and> out w' = out w \<and> waits w' = waits w"
begin

text \<open>The part of the driver's state that is not the controller does not change.\<close>

definition same :: "'w usb_uart \<Rightarrow> 'w usb_uart \<Rightarrow> bool" where
  "same s s' \<longleftrightarrow> (\<exists>w. s' = s\<lparr>uu_hw := w\<rparr>)"

lemma same_refl: "same s s"
  unfolding same_def by (rule exI [of _ "uu_hw s"]) simp

lemma same_trans: "same s s' \<Longrightarrow> same s' s'' \<Longrightarrow> same s s''"
  by (auto simp: same_def)

lemma same_hw: "same s (s\<lparr>uu_hw := w\<rparr>)"
  by (auto simp: same_def)

definition idle_in :: "'w usb_uart \<Rightarrow> bool" where
  "idle_in s \<longleftrightarrow> ok (uu_hw s) \<and> buf (uu_hw s) = [] \<and> out (uu_hw s) = []"

lemma poll_state:
  assumes "ok (uu_hw s)"
  shows "ok (uu_hw (snd (rd E UEINTX s)))" "pkts (uu_hw (snd (rd E UEINTX s))) = pkts (uu_hw s)" "buf (uu_hw (snd (rd E UEINTX s))) = buf (uu_hw s)"
    "out (uu_hw (snd (rd E UEINTX s))) = out (uu_hw s)" "waits (uu_hw (snd (rd E UEINTX s))) = waits (uu_hw s) - 1"
    "fst (rd E UEINTX s) AND bv E TXINI \<noteq> 0 \<longleftrightarrow> waits (uu_hw s) = 0" "fst (rd E UEINTX s) AND bv E RXOUTI \<noteq> 0 \<longleftrightarrow> out (uu_hw s) \<noteq> []"
    "same s (snd (rd E UEINTX s))"
  using poll [OF assms, of "fst (u_rd E UEINTX (uu_hw s))" "snd (u_rd E UEINTX (uu_hw s))"]
  by (simp_all add: rd_def case_prod_beta same_def) blast

lemma wait_in:
  assumes "ok (uu_hw s)" "m = bv E TXINI \<or> m = bv E TXINI OR bv E RXOUTI \<and> out (uu_hw s) = []"
  shows "\<exists>v s'. usb_wait_any E UEINTX m s = Some (v, s') \<and> ok (uu_hw s') \<and> waits (uu_hw s') = 0 \<and> pkts (uu_hw s') = pkts (uu_hw s)
    \<and> buf (uu_hw s') = buf (uu_hw s) \<and> out (uu_hw s') = out (uu_hw s) \<and> (v AND bv E RXOUTI \<noteq> 0 \<longleftrightarrow> out (uu_hw s) \<noteq> []) \<and> same s s'"
proof -
  define P where "P t \<longleftrightarrow> ok (uu_hw t) \<and> pkts (uu_hw t) = pkts (uu_hw s) \<and> buf (uu_hw t) = buf (uu_hw s) \<and> out (uu_hw t) = out (uu_hw s) \<and> same s t" for t
  have dis: "v AND (a OR b) = 0 \<longleftrightarrow> v AND a = 0 \<and> v AND b = 0" for v a b :: u8
    by (simp add: bit.conj_disj_distrib or_eq_0_iff)
  have bit: "fst (rd E UEINTX t) AND m \<noteq> 0 \<longleftrightarrow> waits (uu_hw t) = 0" if "P t" for t
    using assms(2) that poll_state(6,7) [of t] by (auto simp: P_def dis)
  have keep: "P (snd (rd E UEINTX t))" if "P t" for t
    using that poll_state [of t] same_trans [of s t] by (simp add: P_def)
  have "\<exists>t. P t \<and> waits (uu_hw t) = 0 \<and> usb_wait_any E UEINTX m s = Some (rd E UEINTX t)"
  proof (rule usb_wait_any_ends)
    show "P s" using assms(1) by (simp add: P_def same_refl)
    show "fst (rd E UEINTX t) AND m \<noteq> 0" if "P t" "waits (uu_hw t) = 0" for t using bit that by simp
    show "fst (rd E UEINTX t) AND m = 0 \<and> P (snd (rd E UEINTX t)) \<and> waits (uu_hw (snd (rd E UEINTX t))) = waits (uu_hw t) - 1"
      if "P t" "0 < waits (uu_hw t)" for t using bit [OF that(1)] keep [OF that(1)] poll_state(5) [of t] that by (simp add: P_def)
  qed
  then obtain t where t: "P t" "waits (uu_hw t) = 0" "usb_wait_any E UEINTX m s = Some (rd E UEINTX t)" by blast
  have "P (snd (rd E UEINTX t))" "ok (uu_hw t)" "out (uu_hw t) = out (uu_hw s)" using keep [OF t(1)] t(1) by (simp_all add: P_def)
  with poll_state(5,7) [of t] t(2,3) show ?thesis unfolding P_def
    by (intro exI [of _ "fst (rd E UEINTX t)"] exI [of _ "snd (rd E UEINTX t)"]) (metis diff_0_eq_0 prod.collapse)
qed

lemma put_bytes_fill:
  assumes "ok (uu_hw s)" "waits (uu_hw s) = 0" "length (buf (uu_hw s)) + length bs \<le> ENDPOINT0_SIZE"
  shows "\<exists>w. put_bytes E bs s = s\<lparr>uu_hw := w\<rparr> \<and> ok w \<and> pkts w = pkts (uu_hw s) \<and> buf w = buf (uu_hw s) @ bs \<and> out w = out (uu_hw s) \<and> waits w = 0"
  using assms
proof (induction bs arbitrary: s)
  case Nil
  then show ?case by (intro exI [of _ "uu_hw s"]) (simp add: put_bytes_def)
next
  case (Cons b bs)
  from put [OF Cons.prems(1,2) _ refl, of b] Cons.prems(3)
  have "ok (uu_hw (wr E UEDATX b s))" "pkts (uu_hw (wr E UEDATX b s)) = pkts (uu_hw s)" "buf (uu_hw (wr E UEDATX b s)) = buf (uu_hw s) @ [b]"
    "out (uu_hw (wr E UEDATX b s)) = out (uu_hw s)" "waits (uu_hw (wr E UEDATX b s)) = 0"
    by (simp_all add: wr_def)
  with Cons.IH [of "wr E UEDATX b s"] Cons.prems(3) show ?case by (auto simp: put_bytes_def) (auto simp: wr_def)
qed

text \<open>One packet.\<close>

lemma send_packet:
  assumes "idle_in s" "waits (uu_hw s) = 0" "length bs \<le> ENDPOINT0_SIZE"
  shows "idle_in (usb_send_in E (put_bytes E bs s))" "same s (usb_send_in E (put_bytes E bs s))"
    "pkts (uu_hw (usb_send_in E (put_bytes E bs s))) = pkts (uu_hw s) @ [bs]"
proof -
  have s: "ok (uu_hw s)" "length (buf (uu_hw s)) + length bs \<le> ENDPOINT0_SIZE" using assms by (simp_all add: idle_in_def)
  obtain w where w: "put_bytes E bs s = s\<lparr>uu_hw := w\<rparr>" "ok w" "pkts w = pkts (uu_hw s)" "buf w = buf (uu_hw s) @ bs" "out w = out (uu_hw s)" "waits w = 0"
    using put_bytes_fill [OF s(1) assms(2) s(2)] by blast
  note snd = send [OF w(2,6) refl]
  have "usb_send_in E (put_bytes E bs s) = s\<lparr>uu_hw := u_wr E UEINTX (NOT (bv E TXINI)) w\<rparr>" by (simp add: usb_send_in_def wr_def w(1))
  with snd w(3-5) assms(1) show "idle_in (usb_send_in E (put_bytes E bs s))" "same s (usb_send_in E (put_bytes E bs s))"
    "pkts (uu_hw (usb_send_in E (put_bytes E bs s))) = pkts (uu_hw s) @ [bs]"
    by (simp_all add: idle_in_def same_hw)
qed

end

section \<open>Descriptors\<close>

fun desc_packets :: "nat \<Rightarrow> u8 list \<Rightarrow> u8 list list" where
  "desc_packets n bs = (if length bs < n \<or> n = 0 then [bs] else take n bs # desc_packets n (drop n bs))"

declare desc_packets.simps [simp del]

lemma desc_packets_shape:
  assumes "0 < n"
  shows "concat (desc_packets n bs) = bs" "\<forall>p \<in> set (butlast (desc_packets n bs)). length p = n" "length (last (desc_packets n bs)) < n"
    "desc_packets n bs \<noteq> []"
proof -
  have "concat (desc_packets n bs) = bs \<and> (\<forall>p \<in> set (butlast (desc_packets n bs)). length p = n) \<and> length (last (desc_packets n bs)) < n
    \<and> desc_packets n bs \<noteq> []"
    using assms
  proof (induction n bs rule: desc_packets.induct)
    case (1 n bs)
    show ?case
    proof (cases "length bs < n")
      case True
      then have "desc_packets n bs = [bs]" by (subst desc_packets.simps) simp
      with True show ?thesis by simp
    next
      case False
      with 1(2) have d: "desc_packets n bs = take n bs # desc_packets n (drop n bs)" by (subst desc_packets.simps) simp
      define ps where "ps = desc_packets n (drop n bs)"
      from 1 False have ps: "concat ps = drop n bs" "\<forall>p \<in> set (butlast ps). length p = n" "length (last ps) < n" "ps \<noteq> []"
        unfolding ps_def by blast+
      moreover have "length (take n bs) = n" using False by simp
      ultimately show ?thesis unfolding d ps_def [symmetric] by (simp del: length_take add: ps(1))
    qed
  qed
  then show "concat (desc_packets n bs) = bs" "\<forall>p \<in> set (butlast (desc_packets n bs)). length p = n" "length (last (desc_packets n bs)) < n"
    "desc_packets n bs \<noteq> []" by blast+
qed

context control_endpoint
begin

lemma send_descriptor_packets:
  assumes "idle_in s" "len \<le> length desc"
  shows "\<exists>s'. send_descriptor E desc len s = Some s' \<and> idle_in s' \<and> same s s'
    \<and> pkts (uu_hw s') = pkts (uu_hw s) @ desc_packets ENDPOINT0_SIZE (take len desc)"
  using assms
proof (induction len arbitrary: desc s rule: less_induct)
  case (less len)
  from less.prems(1) have "ok (uu_hw s)" "out (uu_hw s) = []" by (simp_all add: idle_in_def)
  from wait_in [OF this(1), of "bv E TXINI OR bv E RXOUTI"] this obtain v t where
    t: "usb_wait_any E UEINTX (bv E TXINI OR bv E RXOUTI) s = Some (v, t)" "ok (uu_hw t)" "waits (uu_hw t) = 0" "pkts (uu_hw t) = pkts (uu_hw s)"
      "buf (uu_hw t) = buf (uu_hw s)" "out (uu_hw t) = out (uu_hw s)" "v AND bv E RXOUTI = 0" "same s t" by blast
  define n where "n = (if len < ENDPOINT0_SIZE then len else ENDPOINT0_SIZE)"
  have n: "n \<le> len" "n \<le> ENDPOINT0_SIZE" by (simp_all add: n_def)
  define u where "u = usb_send_in E (put_bytes E (take n desc) t)"
  have "idle_in t" using t less.prems(1) by (simp add: idle_in_def)
  from send_packet [OF this t(3), of "take n desc"] n less.prems(2) t(4)
  have u: "idle_in u" "same t u" "pkts (uu_hw u) = pkts (uu_hw s) @ [take n desc]" by (simp_all add: u_def)
  have step: "send_descriptor E desc len s =
      (if len - n \<noteq> 0 \<or> n = ENDPOINT0_SIZE then send_descriptor E (drop n desc) (len - n) u else Some u)"
    by (subst send_descriptor.simps) (simp add: t(1,7) n_def u_def)
  show ?case
  proof (cases "n = ENDPOINT0_SIZE")
    case True
    then have l: "len - n < len" "len - n \<le> length (drop n desc)" using n less.prems(2) by (simp_all add: ENDPOINT0_SIZE_def)
    from less.IH [OF l(1) u(1) l(2)] obtain s' where s': "send_descriptor E (drop n desc) (len - n) u = Some s'" "idle_in s'" "same u s'"
      "pkts (uu_hw s') = pkts (uu_hw u) @ desc_packets ENDPOINT0_SIZE (take (len - n) (drop n desc))" by blast
    have "desc_packets ENDPOINT0_SIZE (take len desc) = take n desc # desc_packets ENDPOINT0_SIZE (take (len - n) (drop n desc))"
      using True n less.prems(2) by (subst desc_packets.simps) (simp add: ENDPOINT0_SIZE_def drop_take)
    with s' u True step t(8) show ?thesis by (intro exI [of _ s']) (auto intro: same_trans)
  next
    case False
    then have "len < ENDPOINT0_SIZE" "n = len" using n by (auto simp: n_def split: if_splits)
    then have "desc_packets ENDPOINT0_SIZE (take len desc) = [take n desc]"
      by (subst desc_packets.simps) (simp add: min_less_iff_disj)
    with False \<open>n = len\<close> u step t(8) show ?thesis by (intro exI [of _ u]) (auto intro: same_trans)
  qed
qed

lemma answer_packet:
  assumes "idle_in s" "length (bs s) \<le> ENDPOINT0_SIZE" "\<And>w. bs (s\<lparr>uu_hw := w\<rparr>) = bs s"
  shows "\<exists>s'. usb_answer E bs s = Some s' \<and> idle_in s' \<and> same s s' \<and> pkts (uu_hw s') = pkts (uu_hw s) @ [bs s]"
proof -
  from assms(1) have "ok (uu_hw s)" by (simp add: idle_in_def)
  from wait_in [OF this, of "bv E TXINI"] obtain v t where
    t: "usb_wait_any E UEINTX (bv E TXINI) s = Some (v, t)" "ok (uu_hw t)" "waits (uu_hw t) = 0" "pkts (uu_hw t) = pkts (uu_hw s)"
      "buf (uu_hw t) = buf (uu_hw s)" "out (uu_hw t) = out (uu_hw s)" "same s t" by blast
  have "idle_in t" "bs t = bs s" using t assms by (auto simp: idle_in_def same_def)
  with send_packet [OF this(1) t(3), of "bs s"] assms(2) t show ?thesis
    by (auto simp: usb_answer_def usb_wait_in_ready_def intro: same_trans)
qed

lemma get_bytes_out:
  assumes "ok (uu_hw s)" "out (uu_hw s) = bs"
  shows "\<exists>w. get_bytes E (length bs) s = (bs, s\<lparr>uu_hw := w\<rparr>) \<and> ok w \<and> pkts w = pkts (uu_hw s) \<and> buf w = buf (uu_hw s) \<and> out w = []
    \<and> waits w = waits (uu_hw s)"
  using assms
proof (induction bs arbitrary: s)
  case Nil
  then show ?case by (intro exI [of _ "uu_hw s"]) simp
next
  case (Cons b bs)
  obtain v where f: "u_rd E UEDATX (uu_hw s) = (b, v)" "ok v" "pkts v = pkts (uu_hw s)" "buf v = buf (uu_hw s)" "out v = bs" "waits v = waits (uu_hw s)"
    using fetch [OF Cons.prems] by (cases "u_rd E UEDATX (uu_hw s)") (auto simp: Let_def)
  from Cons.IH [of "s\<lparr>uu_hw := v\<rparr>"] f obtain w where
    "get_bytes E (length bs) (s\<lparr>uu_hw := v\<rparr>) = (bs, s\<lparr>uu_hw := w\<rparr>)" "ok w" "pkts w = pkts (uu_hw s)" "buf w = buf (uu_hw s)" "out w = []" "waits w = waits (uu_hw s)"
    by auto
  then show ?case using f(1) by (intro exI [of _ w]) (simp add: rd_def)
qed

text \<open>Setting the line coding: the data stage is taken over, and an empty packet acknowledges it.\<close>

lemma set_line_coding_stores:
  assumes "ok (uu_hw s)" "buf (uu_hw s) = []" "out (uu_hw s) = bs" "length bs = 7" "u_bootloader E = None" "waits (uu_hw s) = 0"
  shows "\<exists>w. cdc_set_line_coding E s = Some (s\<lparr>cdc_line_coding := bs, uu_hw := w\<rparr>) \<and> ok w \<and> buf w = [] \<and> out w = [] \<and> pkts w = pkts (uu_hw s) @ [[]]"
proof -
  let ?t = "snd (rd E UEINTX s)"
  have "bs \<noteq> []" using assms(4) by auto
  then have "fst (rd E UEINTX s) AND bv E RXOUTI \<noteq> 0" using poll_state(7) [OF assms(1)] assms(3) by simp
  then have wait: "usb_wait_receive_out E s = Some ?t" by (simp add: usb_wait_receive_out_def usb_wait_any_step)
  obtain v where v: "?t = s\<lparr>uu_hw := v\<rparr>" using poll_state(8) [OF assms(1)] by (auto simp: same_def)
  with poll_state(1-5) [OF assms(1)] assms have "ok v" "buf v = []" "out v = bs" "pkts v = pkts (uu_hw s)" "waits v = 0" by simp_all
  with get_bytes_out [of ?t bs] v assms(4) obtain w where
    w: "get_bytes E 7 ?t = (bs, s\<lparr>uu_hw := w\<rparr>)" "ok w" "pkts w = pkts (uu_hw s)" "buf w = []" "out w = []" "waits w = 0" by auto
  define x where "x = u_wr E UEINTX (NOT (bv E RXOUTI)) w"
  define y where "y = u_wr E UEINTX (NOT (bv E TXINI)) x"
  have "ok x \<and> pkts x = pkts w \<and> buf x = buf w \<and> out x = out w \<and> waits x = 0" using w(6) ack [OF w(2)] by (simp add: x_def)
  moreover from this have "ok y \<and> pkts y = pkts x @ [buf x] \<and> buf y = [] \<and> out y = out x" using send [of x y] by (simp add: y_def)
  ultimately show ?thesis using wait w assms(5)
    by (intro exI [of _ y]) (simp add: cdc_set_line_coding_def usb_ack_out_def usb_send_in_def wr_def x_def y_def)
qed

end

section \<open>A model of the controller\<close>

text \<open>
  Endpoints with their bank of bytes, the packets the host has taken, and the number of polls until a bank is free again; the
  bytes the host has sent to the control endpoint and to endpoint 3; the frame counter, which moves on at every read. The numbers of the bits
  are those of the ATmega32u4.
\<close>

record avr_usb =
  au_sel :: u8
  au_bank :: "u8 \<Rightarrow> u8 list"
  au_pkts :: "u8 \<Rightarrow> u8 list list"
  au_waits :: "u8 \<Rightarrow> nat"
  au_delay :: nat
  au_out :: "u8 list"
  au_rx :: "u8 list"
  au_frame :: u8
  au_udint :: u8
  au_stalled :: "u8 \<Rightarrow> bool"
  au_addr :: u8
  au_udien :: u8

fun atmega32u4_bit :: "avr_usb_bit \<Rightarrow> nat" where
  "atmega32u4_bit EORSTI = 3" | "atmega32u4_bit SOFI = 2" | "atmega32u4_bit RXSTPE = 3" | "atmega32u4_bit RXOUTE = 2"
| "atmega32u4_bit TXINI = 0" | "atmega32u4_bit STALLEDI = 1" | "atmega32u4_bit RXOUTI = 2" | "atmega32u4_bit RXSTPI = 3"
| "atmega32u4_bit NAKOUTI = 4" | "atmega32u4_bit RWAL = 5" | "atmega32u4_bit NAKINI = 6" | "atmega32u4_bit STALLRQ = 5"
| "atmega32u4_bit STALLRQC = 4" | "atmega32u4_bit RSTDT = 3" | "atmega32u4_bit EPEN = 0" | "atmega32u4_bit ADDEN = 7"
| "atmega32u4_bit USBE = 7" | "atmega32u4_bit OTGPADE = 4" | "atmega32u4_bit FRZCLK = 5" | "atmega32u4_bit PLOCK = 0"
| "atmega32u4_bit EORSTE = 3" | "atmega32u4_bit SOFE = 2"

definition au_size :: "u8 \<Rightarrow> nat" where
  "au_size e = (if e = 4 then 64 else 16)"

definition au_flags :: "avr_usb \<Rightarrow> u8" where
  "au_flags w = (let e = au_sel w in
     (if au_waits w e = 0 then 1 else 0) + (if e = 0 \<and> au_out w \<noteq> [] then 4 else 0)
     + (if (if e = 3 then au_rx w \<noteq> [] else au_waits w e = 0 \<and> length (au_bank w e) < au_size e) then 32 else 0))"

fun au_rd :: "avr_usb_reg \<Rightarrow> avr_usb \<Rightarrow> u8 \<times> avr_usb" where
  "au_rd UEINTX w = (au_flags w, w\<lparr>au_waits := (au_waits w)(au_sel w := au_waits w (au_sel w) - 1)\<rparr>)"
| "au_rd UEDATX w =
     (if au_sel w = 3 then (case au_rx w of [] \<Rightarrow> (0, w) | b # bs \<Rightarrow> (b, w\<lparr>au_rx := bs\<rparr>))
      else case au_out w of [] \<Rightarrow> (0, w) | b # bs \<Rightarrow> (b, w\<lparr>au_out := bs\<rparr>))"
| "au_rd UEBCLX w = (of_nat (length (if au_sel w = 3 then au_rx w else au_bank w (au_sel w))), w)"
| "au_rd UDFNUML w = (au_frame w, w\<lparr>au_frame := au_frame w + 1\<rparr>)"
| "au_rd UDINT w = (au_udint w, w)"
| "au_rd UDIEN w = (au_udien w, w)"
| "au_rd UECONX w = (if au_stalled w (au_sel w) then 33 else 1, w)"
| "au_rd _ w = (0, w)"

text \<open>A zero in the place of \<^verbatim>\<open>TXINI\<close> hands the bank over to the host. While the host has the bank, bytes written to it are lost and it cannot be handed over.\<close>

fun au_wr :: "avr_usb_reg \<Rightarrow> u8 \<Rightarrow> avr_usb \<Rightarrow> avr_usb" where
  "au_wr UENUM v w = w\<lparr>au_sel := v\<rparr>"
| "au_wr UEDATX v w = (if 0 < au_waits w (au_sel w) then w else w\<lparr>au_bank := (au_bank w)(au_sel w := au_bank w (au_sel w) @ [v])\<rparr>)"
| "au_wr UEINTX v w = (if bit v 0 \<or> 0 < au_waits w (au_sel w) then w
     else w\<lparr>au_pkts := (au_pkts w)(au_sel w := au_pkts w (au_sel w) @ [au_bank w (au_sel w)]),
            au_bank := (au_bank w)(au_sel w := []), au_waits := (au_waits w)(au_sel w := au_delay w)\<rparr>)"
| "au_wr UECONX v w = w\<lparr>au_stalled := (au_stalled w)(au_sel w := bit v 5)\<rparr>"
| "au_wr UDINT v w = w\<lparr>au_udint := v\<rparr>"
| "au_wr UDADDR v w = w\<lparr>au_addr := v\<rparr>"
| "au_wr UDIEN v w = w\<lparr>au_udien := v\<rparr>"
| "au_wr _ v w = w"

definition avr_env :: "uu_board \<Rightarrow> avr_usb uu_env" where
  "avr_env b = \<lparr>u_rd = au_rd, u_wr = au_wr, u_bit = atmega32u4_bit, u_isr = (\<lambda>s. s), u_input_ready = (\<lambda>w. w), u_bootloader = None, u_board = b\<rparr>"

lemma avr_env_simps [simp]:
  "u_rd (avr_env b) = au_rd" "u_wr (avr_env b) = au_wr" "u_bit (avr_env b) = atmega32u4_bit" "u_isr (avr_env b) = (\<lambda>s. s)"
  "u_bootloader (avr_env b) = None" "u_board (avr_env b) = b"
  by (simp_all add: avr_env_def)

lemma bv_avr [simp]:
  "bv (avr_env b) TXINI = 1" "bv (avr_env b) RXOUTI = 4" "bv (avr_env b) RWAL = 32"
  by (simp_all add: bv_def)

lemma au_flags_bits:
  "au_flags w AND 1 = 0 \<longleftrightarrow> 0 < au_waits w (au_sel w)"
  "au_flags w AND 4 = 0 \<longleftrightarrow> au_sel w \<noteq> 0 \<or> au_out w = []"
  "au_flags w AND 32 = 0 \<longleftrightarrow>
     (if au_sel w = 3 then au_rx w = [] else 0 < au_waits w (au_sel w) \<or> au_size (au_sel w) \<le> length (au_bank w (au_sel w)))"
  by (auto simp: au_flags_def Let_def)

interpretation avr_ctl: control_endpoint "avr_env b" "\<lambda>w. au_sel w = 0" "\<lambda>w. au_pkts w 0" "\<lambda>w. au_bank w 0" au_out "\<lambda>w. au_waits w 0"
  by unfold_locales (auto simp: au_flags_bits)

section \<open>What the host sees\<close>

text \<open>
  A well-formed descriptor of \<open>n\<close> bytes: a sequence of parts that each start with their length; the first has the requested type; the total length
  is that of the first part, or is given in the first part for a configuration.
\<close>

function desc_parts :: "u8 list \<Rightarrow> bool" where
  "desc_parts bs =
     (if bs = [] then True
      else if unat (hd bs) < 2 \<or> length bs < unat (hd bs) then False
      else desc_parts (drop (unat (hd bs)) bs))"
  by pat_completeness auto
termination
  by (relation "measure length") auto

declare desc_parts.simps [simp del]

definition desc_wf :: "u8 \<Rightarrow> nat \<Rightarrow> u8 list \<Rightarrow> bool" where
  "desc_wf ty n addr \<longleftrightarrow> n \<le> length addr \<and> addr ! 1 = ty \<and> desc_parts (take n addr)
     \<and> (if ty = 2 then unat (hd addr) = 9 \<and> unat (addr ! 2) + 256 * unat (addr ! 3) = n else unat (hd addr) = n)"

lemma find_descriptor_entry: "find_descriptor v i ds = Some (addr, len) \<Longrightarrow> (v, i, addr, len) \<in> set ds"
  by (induction v i ds rule: find_descriptor.induct) (auto split: if_splits)

lemma descriptor_list_ok: "list_all (\<lambda>(v, i, addr, len). desc_wf (ucast (drop_bit 8 v)) (unat len) addr) (descriptor_list b)"
proof -
  have "list_all (\<lambda>(v, i, addr, len). desc_wf (ucast (drop_bit 8 v)) (unat len) addr) (descriptor_list Arduino_yun)"
    "list_all (\<lambda>(v, i, addr, len). desc_wf (ucast (drop_bit 8 v)) (unat len) addr) (descriptor_list Linino_one)" by code_simp+
  then show ?thesis by (cases b) simp_all
qed

lemma descriptor_entries:
  assumes "find_descriptor v i (descriptor_list b) = Some (addr, len)"
  shows "desc_wf (ucast (drop_bit 8 v)) (unat len) addr"
  using find_descriptor_entry [OF assms] descriptor_list_ok [of b] by (auto simp: list_all_iff)

lemma find_descriptor_iff:
  "distinct (map (\<lambda>(v, i, addr, len). (v, i)) ds) \<Longrightarrow> find_descriptor v i ds = Some (addr, len) \<longleftrightarrow> (v, i, addr, len) \<in> set ds"
  by (induction v i ds rule: find_descriptor.induct) (auto simp: rev_image_eqI)

lemma descriptor_list_distinct: "distinct (map (\<lambda>(v, i, addr, len). (v, i)) (descriptor_list b))"
  by (simp add: descriptor_list_def)

text \<open>
  C37. A request for a descriptor, for a host that takes every packet, each after any number of polls. When the table has an entry with the value and the index of
  the request, the host gets, in packets of the endpoint's size that end with a shorter one, as much of it as it asked for; the descriptor is well-formed and has the
  type that was asked for. When the table has no such entry, the request is refused. In both cases the driver comes back and its own state is as before.
\<close>
theorem usb_uart_descriptor:
  assumes "bRequest r = 6" "au_sel (uu_hw s) = 0" "au_bank (uu_hw s) 0 = []" "au_out (uu_hw s) = []"
  shows "\<exists>w. usb_request (avr_env b) r s = Some (s\<lparr>uu_hw := w\<rparr>)
    \<and> (\<forall>addr len. (wValue r, wIndex r, addr, len) \<in> set (descriptor_list b) \<longrightarrow> desc_wf (ucast (drop_bit 8 (wValue r))) (unat len) addr
        \<and> (\<exists>ps. au_pkts w 0 = au_pkts (uu_hw s) 0 @ ps \<and> concat ps = take (min (unat (wLength r)) (unat len)) addr
             \<and> (\<forall>p \<in> set (butlast ps). length p = 16) \<and> ps \<noteq> [] \<and> length (last ps) < 16))
    \<and> ((\<forall>addr len. (wValue r, wIndex r, addr, len) \<notin> set (descriptor_list b)) \<longrightarrow> au_stalled w 0 \<and> au_pkts w = au_pkts (uu_hw s))"
proof (cases "find_descriptor (wValue r) (wIndex r) (descriptor_list b)")
  case None
  then show ?thesis using assms(1,2)
    by (intro exI [of _ "u_wr (avr_env b) UECONX (bv (avr_env b) STALLRQ OR bv (avr_env b) EPEN) (uu_hw s)"])
      (simp add: find_descriptor_iff [OF descriptor_list_distinct, symmetric] usb_request_def usb_get_descriptor_def usb_stall_def wr_def bv_def)
next
  case (Some e)
  obtain addr len where e: "e = (addr, len)" by fastforce
  note entry = descriptor_entries [OF Some [unfolded e]]
  define n where "n = min (unat (wLength r)) (unat len)"
  have "unat len < 256" using unsigned_less [of len, where 'a = nat] by simp
  then have "\<not> unat len < 255 \<Longrightarrow> unat len = 255" by linarith
  then have req: "usb_request (avr_env b) r s = send_descriptor (avr_env b) addr n s"
    using assms(1) Some e by (auto simp: usb_request_def usb_get_descriptor_def n_def word_less_nat_alt min_def)
  have "unat len \<le> length addr" using entry by (simp add: desc_wf_def)
  then have "avr_ctl.idle_in s" "n \<le> length addr" using assms(2-4) by (simp_all add: avr_ctl.idle_in_def n_def min.coboundedI2)
  from avr_ctl.send_descriptor_packets [OF this, of b] obtain s' where
    s': "send_descriptor (avr_env b) addr n s = Some s'" "avr_ctl.same s s'" "au_pkts (uu_hw s') 0 = au_pkts (uu_hw s) 0 @ desc_packets 16 (take n addr)"
    by (auto simp: ENDPOINT0_SIZE_def)
  then obtain w where w: "s' = s\<lparr>uu_hw := w\<rparr>" by (auto simp: avr_ctl.same_def)
  define ps where "ps = desc_packets 16 (take n addr)"
  have "concat ps = take n addr" "\<forall>p \<in> set (butlast ps). length p = 16" "length (last ps) < 16" "ps \<noteq> []"
    unfolding ps_def by (intro desc_packets_shape; simp)+
  moreover have "au_pkts w 0 = au_pkts (uu_hw s) 0 @ ps" using s'(3) w by (simp add: ps_def)
  moreover have "usb_request (avr_env b) r s = Some (s\<lparr>uu_hw := w\<rparr>)" using req s'(1) w by simp
  moreover have "a = addr \<and> l = len" if "(wValue r, wIndex r, a, l) \<in> set (descriptor_list b)" for a l
    using that Some e by (simp add: find_descriptor_iff [OF descriptor_list_distinct, symmetric])
  moreover have "(wValue r, wIndex r, addr, len) \<in> set (descriptor_list b)" using Some e by (simp add: find_descriptor_entry)
  ultimately show ?thesis using entry n_def by blast
qed

text \<open>
  The host reads back the line coding it has set, byte for byte, and the driver keeps it. The bank of the endpoint is free at the start.
\<close>
theorem usb_uart_line_coding:
  assumes "bmRequestType r = 0x21" "bRequest r = 0x20" "bmRequestType q = 0xA1" "bRequest q = 0x21"
    and "au_sel (uu_hw s) = 0" "au_bank (uu_hw s) 0 = []" "au_out (uu_hw s) = bs" "length bs = 7" "au_waits (uu_hw s) 0 = 0"
  shows "\<exists>s1 s2. usb_request (avr_env b) r s = Some s1 \<and> usb_request (avr_env b) q s1 = Some s2
    \<and> au_pkts (uu_hw s2) 0 = au_pkts (uu_hw s) 0 @ [[], bs] \<and> cdc_line_coding s2 = bs"
proof -
  obtain w where w: "cdc_set_line_coding (avr_env b) s = Some (s\<lparr>cdc_line_coding := bs, uu_hw := w\<rparr>)" "au_sel w = 0" "au_bank w 0 = []" "au_out w = []"
      "au_pkts w 0 = au_pkts (uu_hw s) 0 @ [[]]"
    using avr_ctl.set_line_coding_stores [of s bs b] assms by auto
  define s1 where "s1 = s\<lparr>cdc_line_coding := bs, uu_hw := w\<rparr>"
  have "avr_ctl.idle_in s1" using w by (simp add: s1_def avr_ctl.idle_in_def)
  from avr_ctl.answer_packet [OF this, of "\<lambda>s. take 7 (cdc_line_coding s)" b] assms(8) obtain s2 where
    "cdc_get_line_coding (avr_env b) s1 = Some s2" "avr_ctl.same s1 s2" "au_pkts (uu_hw s2) 0 = au_pkts (uu_hw s1) 0 @ [bs]"
    by (auto simp: s1_def ENDPOINT0_SIZE_def cdc_get_line_coding_def)
  with w(1,5) assms(1-4) show ?thesis
    by (intro exI [of _ s1] exI [of _ s2]) (auto simp: usb_request_def s1_def avr_ctl.same_def)
qed

section \<open>Sending\<close>

lemma interrupt_restore_avr: "interrupt_restore (avr_env b) flags s = s\<lparr>uu_sreg := flags\<rparr>"
  by (simp add: interrupt_restore_def Let_def)

lemma put_bytes_avr:
  "au_sel (uu_hw s) = e \<Longrightarrow> au_waits (uu_hw s) e = 0 \<Longrightarrow> put_bytes (avr_env b) bs s = s\<lparr>uu_hw := (uu_hw s)\<lparr>au_bank := (au_bank (uu_hw s))(e := au_bank (uu_hw s) e @ bs)\<rparr>\<rparr>"
  by (induction bs arbitrary: s) (simp_all add: put_bytes_def wr_def)

lemma usb_wait_room_ready:
  assumes "au_sel (uu_hw s) = 4" "length (au_bank (uu_hw s) 4) < 64" "usb_configuration s \<noteq> 0"
    and "au_waits (uu_hw s) 4 \<le> unat (timeout - au_frame (uu_hw s))"
  shows "\<exists>x w. usb_wait_room (avr_env b) timeout flags s = Some (0, flags, s\<lparr>uu_sreg := x, uu_hw := w\<rparr>)
    \<and> au_sel w = 4 \<and> au_bank w = au_bank (uu_hw s) \<and> au_pkts w = au_pkts (uu_hw s) \<and> au_waits w 4 = 0 \<and> au_delay w = au_delay (uu_hw s)"
  using assms
proof (induction "au_waits (uu_hw s) 4" arbitrary: s)
  case 0
  then have "au_flags (uu_hw s) AND 32 \<noteq> 0" by (simp add: au_flags_bits au_size_def)
  with 0 show ?case
    by (intro exI [of _ "uu_sreg s"] exI [of _ "snd (au_rd UEINTX (uu_hw s))"]) (subst usb_wait_room.simps, simp add: rd_def)
next
  case (Suc n)
  let ?w = "uu_hw s"
  define w where "w = ?w\<lparr>au_waits := (au_waits ?w)(4 := n), au_frame := au_frame ?w + 1, au_sel := 4\<rparr>"
  define t where "t = s\<lparr>uu_sreg := False, uu_hw := w\<rparr>"
  have "au_flags ?w AND 32 = 0" using Suc.hyps(2) Suc.prems(1) by (simp add: au_flags_bits)
  moreover have ne: "timeout - au_frame ?w \<noteq> 0" using Suc.hyps(2) Suc.prems(4) by auto
  ultimately have step: "usb_wait_room (avr_env b) timeout flags s = usb_wait_room (avr_env b) timeout flags t"
    using Suc.hyps(2) [symmetric] Suc.prems(1,3)
    by (subst usb_wait_room.simps)
      (simp add: rd_def wr_def interrupt_restore_avr interrupt_disable_def CDC_TX_ENDPOINT_def t_def w_def Let_def)
  have "unat (timeout - au_frame ?w - 1) = unat (timeout - au_frame ?w) - 1" using ne by (rule unat_minus_one)
  then have "au_waits (uu_hw t) 4 \<le> unat (timeout - au_frame (uu_hw t))"
    using Suc.hyps(2) Suc.prems(4) by (simp add: t_def w_def algebra_simps)
  from Suc.hyps(1) [OF _ _ _ _ this] Suc.prems(1-3) obtain x v where
    "usb_wait_room (avr_env b) timeout flags t = Some (0, flags, t\<lparr>uu_sreg := x, uu_hw := v\<rparr>)" "au_sel v = 4" "au_bank v = au_bank w"
      "au_pkts v = au_pkts w" "au_waits v 4 = 0" "au_delay v = au_delay w"
    by (auto simp: t_def w_def)
  with step show ?case by (intro exI [of _ x] exI [of _ v]) (simp add: t_def w_def)
qed

text \<open>Everything that was given to an endpoint, in packets and in its bank.\<close>

definition au_stream :: "u8 \<Rightarrow> avr_usb \<Rightarrow> u8 list" where
  "au_stream e w = concat (au_pkts w e) @ au_bank w e"

definition tx_ready :: "'a usb_uart \<Rightarrow> avr_usb \<Rightarrow> bool" where
  "tx_ready s w \<longleftrightarrow> usb_configuration s \<noteq> 0 \<and> au_sel w = 4 \<and> length (au_bank w 4) < 64 \<and> au_waits w 4 \<le> 24 \<and> au_delay w \<le> 24"

text \<open>One packet of a write, or the rest of it.\<close>

lemma usb_write_packet:
  assumes "tx_ready s (uu_hw s)" "0 < length buffer"
  defines "k \<equiv> min (64 - length (au_bank (uu_hw s) 4)) (length buffer)"
  shows "\<exists>w. usb_write_loop (avr_env b) flags buffer (length buffer) s
      = usb_write_loop (avr_env b) flags (drop k buffer) (length buffer - k) (s\<lparr>uu_hw := w, transmit_flush_timer := 5, uu_sreg := flags\<rparr>)
    \<and> 0 < k \<and> tx_ready s w \<and> au_stream 4 w = au_stream 4 (uu_hw s) @ take k buffer
    \<and> (\<exists>ps. au_pkts w 4 = au_pkts (uu_hw s) 4 @ ps \<and> (\<forall>p \<in> set ps. length p = 64))"
proof -
  let ?w = "uu_hw s"
  define f where "f = au_frame ?w"
  define t where "t = s\<lparr>uu_hw := ?w\<lparr>au_frame := f + 1\<rparr>\<rparr>"
  note r = assms(1) [unfolded tx_ready_def]
  have u: "unat (f + TRANSMIT_TIMEOUT - au_frame (uu_hw t)) = 24" by (simp add: t_def TRANSMIT_TIMEOUT_def)
  have "au_waits (uu_hw t) 4 \<le> unat (f + TRANSMIT_TIMEOUT - au_frame (uu_hw t))" unfolding u using r by (simp add: t_def)
  from usb_wait_room_ready [OF _ _ _ this, of b flags] r obtain x v where
    v: "usb_wait_room (avr_env b) (f + TRANSMIT_TIMEOUT) flags t = Some (0, flags, s\<lparr>uu_sreg := x, uu_hw := v\<rparr>)" "au_sel v = 4" "au_bank v = au_bank ?w"
      "au_pkts v = au_pkts ?w" "au_waits v 4 = 0" "au_delay v = au_delay ?w"
    by (auto simp: t_def)
  have k: "0 < k" "k \<le> 64" "length (au_bank ?w 4) + k \<le> 64" using r assms(2) by (auto simp: k_def)
  define c where "c = length (au_bank ?w 4)"
  have c: "unat (of_nat CDC_TX_SIZE - of_nat c :: u8) = 64 - c"
  proof -
    have "c < 64" using r by (simp add: c_def)
    then have "of_nat CDC_TX_SIZE - of_nat c = (of_nat (64 - c) :: u8)" by (simp add: CDC_TX_SIZE_def of_nat_diff)
    then show ?thesis by (simp add: unsigned_of_nat take_bit_nat_eq_self)
  qed
  define y where "y = v\<lparr>au_bank := (au_bank v)(4 := au_bank v 4 @ take k buffer)\<rparr>"
  define z where "z = snd (au_rd UEINTX y)"
  define w where "w = (if au_flags y AND 32 = 0 then au_wr UEINTX 0x3A z else z)"
  have "usb_write_loop (avr_env b) flags buffer (length buffer) s
      = usb_write_loop (avr_env b) flags (drop k buffer) (length buffer - k) (s\<lparr>uu_hw := w, transmit_flush_timer := 5, uu_sreg := flags\<rparr>)"
  proof -
    have k': "packet_room (length buffer) (of_nat (length (au_bank ?w 4))) = k" "switch_count k = k"
      using c k(2) by (simp_all add: packet_room_def switch_count_def Let_def c_def k_def min_def)
    show ?thesis
      using assms(2) v(1,2,3,5) k(2)
      by (subst usb_write_loop.simps)
        (simp add: rd_def f_def t_def k' put_bytes_avr interrupt_restore_avr Let_def TRANSMIT_FLUSH_TIMEOUT_def y_def z_def w_def wr_def)
  qed
  moreover have full: "au_flags y AND 32 = 0 \<longleftrightarrow> length (au_bank ?w 4 @ take k buffer) = 64"
    using v k by (auto simp: au_flags_bits au_size_def y_def k_def)
  moreover have "length (au_bank ?w 4 @ take k buffer) \<le> 64" using k by (simp add: k_def)
  moreover have "tx_ready s w" "au_stream 4 w = au_stream 4 ?w @ take k buffer"
    "au_pkts w 4 = au_pkts ?w 4 @ (if au_flags y AND 32 = 0 then [au_bank ?w 4 @ take k buffer] else [])"
    using v r calculation(2,3) by (auto simp: w_def z_def y_def tx_ready_def au_stream_def)
  ultimately show ?thesis using k(1) by (intro exI [of _ w]) auto
qed

lemma usb_write_loop_sends:
  assumes "tx_ready s (uu_hw s)"
  shows "\<exists>s'. usb_write_loop (avr_env b) flags buffer (length buffer) s = Some (0, s') \<and> tx_ready s' (uu_hw s')
    \<and> au_stream 4 (uu_hw s') = au_stream 4 (uu_hw s) @ buffer
    \<and> (\<exists>ps. au_pkts (uu_hw s') 4 = au_pkts (uu_hw s) 4 @ ps \<and> (\<forall>p \<in> set ps. length p = 64))
    \<and> (buffer \<noteq> [] \<longrightarrow> transmit_flush_timer s' = 5)"
  using assms
proof (induction "length buffer" arbitrary: buffer s rule: less_induct)
  case less
  show ?case
  proof (cases "buffer = []")
    case True
    with less.prems show ?thesis by (subst usb_write_loop.simps) simp
  next
    case False
    define k where "k = min (64 - length (au_bank (uu_hw s) 4)) (length buffer)"
    from usb_write_packet [OF less.prems, of buffer b flags, folded k_def] False obtain w ps where
      w: "usb_write_loop (avr_env b) flags buffer (length buffer) s
        = usb_write_loop (avr_env b) flags (drop k buffer) (length buffer - k) (s\<lparr>uu_hw := w, transmit_flush_timer := 5, uu_sreg := flags\<rparr>)"
        "0 < k" "tx_ready s w" "au_stream 4 w = au_stream 4 (uu_hw s) @ take k buffer"
        "au_pkts w 4 = au_pkts (uu_hw s) 4 @ ps" "\<forall>p \<in> set ps. length p = 64" by auto
    define t where "t = s\<lparr>uu_hw := w, transmit_flush_timer := 5, uu_sreg := flags\<rparr>"
    have t: "tx_ready t (uu_hw t)" "length (drop k buffer) < length buffer" using w(2,3) False by (simp_all add: t_def tx_ready_def)
    from less.hyps [OF t(2,1)] obtain s' qs where
      s': "usb_write_loop (avr_env b) flags (drop k buffer) (length (drop k buffer)) t = Some (0, s')" "tx_ready s' (uu_hw s')"
        "au_stream 4 (uu_hw s') = au_stream 4 (uu_hw t) @ drop k buffer" "au_pkts (uu_hw s') 4 = au_pkts (uu_hw t) 4 @ qs"
        "\<forall>p \<in> set qs. length p = 64" "drop k buffer \<noteq> [] \<longrightarrow> transmit_flush_timer s' = 5" by blast
    have "transmit_flush_timer s' = 5"
    proof (cases "drop k buffer = []")
      case True
      with s'(1) have "s' = t" by (subst (asm) usb_write_loop.simps) simp
      then show ?thesis by (simp add: t_def)
    qed (use s'(6) in blast)
    moreover have "au_stream 4 (uu_hw s') = au_stream 4 (uu_hw s) @ buffer" using s'(3) w(4) by (simp add: t_def)
    moreover have "au_pkts (uu_hw s') 4 = au_pkts (uu_hw s) 4 @ (ps @ qs)" "\<forall>p \<in> set (ps @ qs). length p = 64"
      using s'(4,5) w(5,6) by (auto simp: t_def)
    moreover have "usb_write_loop (avr_env b) flags buffer (length buffer) s = Some (0, s')" using w(1) s'(1) by (simp add: t_def)
    ultimately show ?thesis using s'(2) by blast
  qed
qed

text \<open>
  C38. A write to the serial line, when no interrupt comes in between and the host frees a bank within 24 polls: it is complete, and the bytes go to the host in
  order after what was there, in full packets; what is left over stays in the bank, and the timer that will send it is set.
\<close>
theorem usb_uart_write_sends:
  assumes "usb_configuration s \<noteq> 0" "transmit_previous_timeout s = 0" "length (au_bank (uu_hw s) 4) < 64"
    and "au_waits (uu_hw s) 4 \<le> 24" "au_delay (uu_hw s) \<le> 24" "buf \<noteq> []"
  shows "\<exists>s'. atmega_usb_uart_write (avr_env b) buf s = Some (int (length buf), s') \<and> au_stream 4 (uu_hw s') = au_stream 4 (uu_hw s) @ buf
    \<and> (\<exists>ps. au_pkts (uu_hw s') 4 = au_pkts (uu_hw s) 4 @ ps \<and> (\<forall>p \<in> set ps. length p = 64)) \<and> length (au_bank (uu_hw s') 4) < 64
    \<and> transmit_flush_timer s' = 5"
proof -
  define t where "t = s\<lparr>uu_sreg := False, uu_hw := (uu_hw s)\<lparr>au_sel := 4\<rparr>\<rparr>"
  have "tx_ready t (uu_hw t)" using assms by (simp add: tx_ready_def t_def)
  from usb_write_loop_sends [OF this, of b "uu_sreg s" buf] obtain s' ps where
    s': "usb_write_loop (avr_env b) (uu_sreg s) buf (length buf) t = Some (0, s')" "tx_ready s' (uu_hw s')"
      "au_stream 4 (uu_hw s') = au_stream 4 (uu_hw t) @ buf" "au_pkts (uu_hw s') 4 = au_pkts (uu_hw t) 4 @ ps" "\<forall>p \<in> set ps. length p = 64"
      "transmit_flush_timer s' = 5" using assms(6) by blast
  have "do_usb_uart_write (avr_env b) buf s = usb_write_loop (avr_env b) (uu_sreg s) buf (length buf) t"
    using assms(1,2) by (simp add: do_usb_uart_write_def interrupt_disable_def wr_def CDC_TX_ENDPOINT_def t_def)
  moreover have "au_stream 4 (uu_hw t) = au_stream 4 (uu_hw s)" "au_pkts (uu_hw t) = au_pkts (uu_hw s)" by (simp_all add: t_def au_stream_def)
  ultimately show ?thesis using s' assms(6) by (intro exI [of _ s']) (auto simp: atmega_usb_uart_write_def tx_ready_def)
qed

section \<open>Where the code goes wrong\<close>

text \<open>
  Interrupts are on between the packets of a write, and the endpoint is not selected again: with the start of a frame pending and data received
  in the meantime, the second byte of a write goes to the receiving endpoint when the first one fills a packet, and the write still reports success.
\<close>

definition avr_env_irq :: "avr_usb uu_env" where
  "avr_env_irq = (avr_env Arduino_yun)\<lparr>u_isr := (\<lambda>s. if au_udint (uu_hw s) \<noteq> 0 then USB_GEN_vect (avr_env Arduino_yun) s else s)\<rparr>"

definition demo_usb :: avr_usb where
  "demo_usb = \<lparr>au_sel = 0, au_bank = (\<lambda>_. []), au_pkts = (\<lambda>_. []), au_waits = (\<lambda>_. 0), au_delay = 3, au_out = [], au_rx = [7], au_frame = 250,
     au_udint = 4, au_stalled = (\<lambda>_. False), au_addr = 0, au_udien = 12\<rparr>"

lemma usb_interrupted_write:
  "\<exists>s'. atmega_usb_uart_write avr_env_irq [1, 2] ((usb_uart_data (demo_usb\<lparr>au_bank := (\<lambda>e. if e = 4 then replicate 63 1 else [])\<rparr>))\<lparr>usb_configuration := 1\<rparr>) = Some (2, s')
     \<and> au_stream 4 (uu_hw s') = replicate 64 1 \<and> au_bank (uu_hw s') 3 = [2]"
proof -
  let ?r = "atmega_usb_uart_write avr_env_irq [1, 2] ((usb_uart_data (demo_usb\<lparr>au_bank := (\<lambda>e. if e = 4 then replicate 63 1 else [])\<rparr>))\<lparr>usb_configuration := 1\<rparr>)"
  have "map_option (\<lambda>(n, s'). (n, au_stream 4 (uu_hw s'), au_bank (uu_hw s') 3)) ?r = Some (2, replicate 64 1, [2])"
    by code_simp
  then show ?thesis by auto
qed

text \<open>Closing the device leaves the interrupt for the start of a frame as it was.\<close>

lemma usb_close_keeps_sof: "bit (au_udien (uu_hw (atmega_usb_uart_close (avr_env b) s))) 2 = bit (au_udien (uu_hw s)) 2"
  by (simp add: atmega_usb_uart_close_def rd_def wr_def bv_def bit_simps)

text \<open>The acknowledgement of a received packet clears the lowest three bits only, not the set-up flag, which is bit 3.\<close>

lemma usb_rx_mask:
  "of_nat (atmega32u4_bit NAKINI OR atmega32u4_bit NAKOUTI OR atmega32u4_bit RXSTPI OR atmega32u4_bit RXOUTI OR atmega32u4_bit STALLEDI OR atmega32u4_bit TXINI) = (7 :: u8)"
  by simp

section \<open>Witnesses\<close>

definition demo_uart :: "avr_usb usb_uart" where
  "demo_uart = usb_uart_data demo_usb"

definition demo_setup :: "u8 \<Rightarrow> u8 \<Rightarrow> u16 \<Rightarrow> u16 \<Rightarrow> setup_packet" where
  "demo_setup t r v l = \<lparr>bmRequestType = t, bRequest = r, wValue = v, wIndex = 0, wLength = l\<rparr>"

lemma demo_uart_simps:
  "au_sel (uu_hw demo_uart) = 0" "au_bank (uu_hw demo_uart) e = []" "au_out (uu_hw demo_uart) = []" "au_waits (uu_hw demo_uart) e = 0"
  "au_delay (uu_hw demo_uart) = 3" "au_pkts (uu_hw demo_uart) e = []" "transmit_previous_timeout demo_uart = 0"
  by (simp_all add: demo_uart_def usb_uart_data_def demo_usb_def)

theorem usb_uart_descriptor_witness:
  "\<exists>w ps. usb_request (avr_env Arduino_yun) (demo_setup 0x80 6 0x100 64) demo_uart = Some (demo_uart\<lparr>uu_hw := w\<rparr>)
     \<and> au_pkts w 0 = ps \<and> concat ps = device_descriptor Arduino_yun"
proof -
  have "(0x100, 0, device_descriptor Arduino_yun, 18) \<in> set (descriptor_list Arduino_yun)" by (simp add: descriptor_list_def device_descriptor_def)
  moreover have "take 18 (device_descriptor Arduino_yun) = device_descriptor Arduino_yun" by (simp add: device_descriptor_def)
  ultimately show ?thesis
    using usb_uart_descriptor [of "demo_setup 0x80 6 0x100 64" demo_uart Arduino_yun] demo_uart_simps
    by (fastforce simp: demo_setup_def)
qed

theorem usb_uart_line_coding_witness:
  "\<exists>s1 s2. usb_request (avr_env Arduino_yun) (demo_setup 0x21 0x20 0 7) (demo_uart\<lparr>uu_hw := (uu_hw demo_uart)\<lparr>au_out := [1, 2, 3, 4, 5, 6, 7]\<rparr>\<rparr>) = Some s1
     \<and> usb_request (avr_env Arduino_yun) (demo_setup 0xA1 0x21 0 7) s1 = Some s2 \<and> cdc_line_coding s2 = [1, 2, 3, 4, 5, 6, 7]"
  using usb_uart_line_coding [of "demo_setup 0x21 0x20 0 7" "demo_setup 0xA1 0x21 0 7" "demo_uart\<lparr>uu_hw := (uu_hw demo_uart)\<lparr>au_out := [1, 2, 3, 4, 5, 6, 7]\<rparr>\<rparr>"
      "[1, 2, 3, 4, 5, 6, 7]" Arduino_yun] demo_uart_simps
  by (auto simp: demo_setup_def)

theorem usb_uart_write_sends_witness:
  "\<exists>s'. atmega_usb_uart_write (avr_env Linino_one) [1, 2, 3] (demo_uart\<lparr>usb_configuration := 1\<rparr>) = Some (3, s') \<and> au_stream 4 (uu_hw s') = [1, 2, 3]"
  using usb_uart_write_sends [of "demo_uart\<lparr>usb_configuration := 1\<rparr>" "[1, 2, 3]" Linino_one] demo_uart_simps
  by (auto simp: au_stream_def)

end
