(* ===== verification/UnixPipe.thy ===== *)
theory UnixPipe
  imports Pipe
begin

text \<open>
  Pipes on a Unix host: the table of descriptors of \<^verbatim>\<open>arch-unix/pipe.c\<close>, the descriptor sets and the idle function of
  \<^verbatim>\<open>arch-unix/idle.c\<close>, composed as \<^verbatim>\<open>lib/pipe.c\<close> composes them for a pipe that has no static device.

  A pipe and a device are named by their addresses. A device that has been freed is not in the map any more, and an access to it, to a
  null pipe or to a descriptor outside a descriptor set makes an operation \<open>None\<close>. The answers of the host (\<^verbatim>\<open>malloc\<close>, \<^verbatim>\<open>open\<close>, \<^verbatim>\<open>select\<close>) are arguments. The asynchronous
  interface is configured out. The events the module triggers for other handlers are the output of \<open>unix_idle\<close>; those it handles itself are
  queued in the state.
\<close>

section \<open>State\<close>

definition BATHOS_UNIX_FREE_FD :: int where "BATHOS_UNIX_FREE_FD = - 1"
definition BATHOS_UNIX_RESERVED_FD :: int where "BATHOS_UNIX_RESERVED_FD = - 2"
definition MAX_BATHOS_PIPES :: nat where "MAX_BATHOS_PIPES = 32"
definition BATHOS_MODE_INPUT_OUTPUT :: nat where "BATHOS_MODE_INPUT_OUTPUT = BATHOS_MODE_INPUT OR BATHOS_MODE_OUTPUT"

record arch_unix_pipe_data =
  ux_fd :: int
  ux_pipe :: "nat option"

text \<open>The list head of a device: null, whatever the memory had before, or a list.\<close>

datatype dev_pipe_list = Unset | Garbage | Pipes "nat list"

record unix_dev =
  ud_name :: string
  ud_arch_priv :: "nat option"
  ud_pipes :: dev_pipe_list

record unix_pipe =
  up_n :: string
  up_mode :: nat
  up_dev :: "nat option"

datatype unix_event = Pipe_opened nat | Pipe_closed nat | Pipe_really_closed nat

record unix_sys =
  ux_priv :: "arch_unix_pipe_data list"
  ux_devs :: "nat \<rightharpoonup> unix_dev"
  ux_pipes :: "nat \<rightharpoonup> unix_pipe"
  rd_fdset :: "int set"
  wr_fdset :: "int set"
  ux_nfds :: int
  ux_events :: "unix_event list"
  ux_bathos_errno :: int
  ux_host_errno :: int

definition unix_boot :: unix_sys where
  "unix_boot = \<lparr>ux_priv = replicate MAX_BATHOS_PIPES \<lparr>ux_fd = BATHOS_UNIX_FREE_FD, ux_pipe = None\<rparr>,
     ux_devs = Map.empty, ux_pipes = Map.empty, rd_fdset = {}, wr_fdset = {}, ux_nfds = 0, ux_events = [],
     ux_bathos_errno = 0, ux_host_errno = 0\<rparr>"

section \<open>Descriptors\<close>

definition set_unix_fd :: "nat \<Rightarrow> int \<Rightarrow> unix_sys \<Rightarrow> unix_sys" where
  "set_unix_fd i fd s = s\<lparr>ux_priv := (ux_priv s)[i := (ux_priv s ! i)\<lparr>ux_fd := fd\<rparr>]\<rparr>"

definition slot_with_fd :: "int \<Rightarrow> unix_sys \<Rightarrow> nat option" where
  "slot_with_fd fd s = List.find (\<lambda>i. ux_fd (ux_priv s ! i) = fd) [0..<length (ux_priv s)]"

definition find_free_slot :: "unix_sys \<Rightarrow> nat option \<times> unix_sys" where
  "find_free_slot s =
     (case slot_with_fd BATHOS_UNIX_FREE_FD s of
        None \<Rightarrow> (None, s)
      | Some i \<Rightarrow> (Some i, set_unix_fd i BATHOS_UNIX_RESERVED_FD s))"

definition free_slot :: "nat \<Rightarrow> unix_sys \<Rightarrow> unix_sys" where
  "free_slot i s = set_unix_fd i BATHOS_UNIX_FREE_FD s"

text \<open>The argument \<open>mem\<close> is the answer of \<^verbatim>\<open>malloc\<close>: the address, and whether the memory of the list head is null.\<close>

definition bathos_arch_find_dev :: "nat \<Rightarrow> string \<Rightarrow> (nat \<times> bool) option \<Rightarrow> unix_sys \<Rightarrow> nat option \<times> unix_sys" where
  "bathos_arch_find_dev p n mem s =
     (case find_free_slot s of
        (None, s) \<Rightarrow> (None, s)
      | (Some i, s) \<Rightarrow>
          (case mem of
             None \<Rightarrow> (None, s)
           | Some (a, null) \<Rightarrow>
               (Some a, s\<lparr>ux_priv := (ux_priv s)[i := (ux_priv s ! i)\<lparr>ux_pipe := Some p\<rparr>],
                  ux_devs := (ux_devs s)(a \<mapsto> \<lparr>ud_name = n, ud_arch_priv = Some i,
                    ud_pipes = if null then Unset else Garbage\<rparr>)\<rparr>)))"

definition unix_fd_to_pipe :: "int \<Rightarrow> unix_sys \<Rightarrow> nat option" where
  "unix_fd_to_pipe fd s = (case slot_with_fd fd s of None \<Rightarrow> None | Some i \<Rightarrow> ux_pipe (ux_priv s ! i))"

section \<open>Operations of the device\<close>

datatype open_mode = O_RDONLY | O_WRONLY | O_RDWR

type_synonym host_open = "string \<Rightarrow> open_mode \<Rightarrow> int + int"

definition unix_open_mode :: "nat \<Rightarrow> open_mode option" where
  "unix_open_mode m =
     (let k = m AND BATHOS_MODE_INPUT_OUTPUT in
      if k = BATHOS_MODE_INPUT then Some O_RDONLY
      else if k = BATHOS_MODE_OUTPUT then Some O_WRONLY
      else if k = BATHOS_MODE_INPUT_OUTPUT then Some O_RDWR
      else None)"

fun host_strstr :: "string \<Rightarrow> string \<Rightarrow> bool" where
  "host_strstr [] needle = (needle = [])"
| "host_strstr (c # cs) needle = (take (length needle) (c # cs) = needle \<or> host_strstr cs needle)"

fun host_digits :: "int \<Rightarrow> string \<Rightarrow> int" where
  "host_digits v [] = v"
| "host_digits v (c # cs) =
     (if c \<in> set ''0123456789'' then host_digits (v * 10 + (of_char c - 48)) cs else v)"

definition host_isspace :: "char \<Rightarrow> bool" where
  "host_isspace c \<longleftrightarrow> of_char c \<in> {9, 10, 11, 12, 13, 32 :: nat}"

definition host_atoi :: "string \<Rightarrow> int" where
  "host_atoi s =
     (case dropWhile host_isspace s of
        [] \<Rightarrow> 0
      | c # cs \<Rightarrow>
          if c = CHR ''-'' then - host_digits 0 cs
          else if c = CHR ''+'' then host_digits 0 cs
          else host_digits 0 (c # cs))"

text \<open>The descriptor a name stands for, with \<^verbatim>\<open>errno\<close>: a number in the name, or a file that is opened.\<close>

definition unix_open_fd :: "host_open \<Rightarrow> string \<Rightarrow> open_mode \<Rightarrow> int \<Rightarrow> int \<times> int" where
  "unix_open_fd host n m e =
     (if host_strstr n ''fd:'' then (host_atoi (tl (dropWhile (\<lambda>c. c \<noteq> CHR '':'') n)), e)
      else case host n m of Inl e' \<Rightarrow> (- 1, e') | Inr fd \<Rightarrow> (fd, e))"

definition unix_async_open :: int where
  "unix_async_open = - EINVAL"

definition unix_open :: "host_open \<Rightarrow> nat \<Rightarrow> unix_sys \<Rightarrow> (int \<times> unix_sys) option" where
  "unix_open host p s =
     (case ux_pipes s p of
        None \<Rightarrow> None
      | Some q \<Rightarrow>
     (case unix_open_mode (up_mode q) of
        None \<Rightarrow> Some (- EPERM, s)
      | Some m \<Rightarrow>
     (case up_dev q of
        None \<Rightarrow> Some (- EINVAL, s)
      | Some a \<Rightarrow>
     (case ux_devs s a of
        None \<Rightarrow> None
      | Some d \<Rightarrow>
     (case ud_arch_priv d of
        None \<Rightarrow> Some (- EINVAL, s)
      | Some i \<Rightarrow>
          let (fd, e) = unix_open_fd host (ud_name d) m (ux_host_errno s);
              s = (set_unix_fd i fd s)\<lparr>ux_host_errno := e\<rparr>
          in if fd < 0 then Some (- e, s)
             else if up_mode q AND BATHOS_MODE_ASYNC \<noteq> 0 then Some (unix_async_open, s)
             else Some (0, s))))))"

text \<open>Reading and writing; the host answers with the negated error number or the number of bytes.\<close>

definition unix_rw :: "(int \<Rightarrow> int) \<Rightarrow> nat \<Rightarrow> unix_sys \<Rightarrow> int option" where
  "unix_rw host p s =
     (case ux_pipes s p of
        None \<Rightarrow> None
      | Some q \<Rightarrow>
     (case up_dev q of
        None \<Rightarrow> Some (- EBADF)
      | Some a \<Rightarrow>
     (case ux_devs s a of
        None \<Rightarrow> None
      | Some d \<Rightarrow>
     (case ud_arch_priv d of
        None \<Rightarrow> Some (- EINVAL)
      | Some i \<Rightarrow> Some (host (ux_fd (ux_priv s ! i)))))))"

definition unix_read :: "(int \<Rightarrow> int \<Rightarrow> int) \<Rightarrow> int \<Rightarrow> nat \<Rightarrow> unix_sys \<Rightarrow> int option" where
  "unix_read host len p s = unix_rw (\<lambda>fd. host fd len) p s"

definition unix_write :: "(int \<Rightarrow> u8 list \<Rightarrow> int) \<Rightarrow> u8 list \<Rightarrow> nat \<Rightarrow> unix_sys \<Rightarrow> int option" where
  "unix_write host buf p s = unix_rw (\<lambda>fd. host fd buf) p s"

definition unix_close :: "nat \<Rightarrow> unix_sys \<Rightarrow> (int \<times> unix_sys) option" where
  "unix_close p s =
     (case ux_pipes s p of
        None \<Rightarrow> None
      | Some q \<Rightarrow>
     (case up_dev q of
        None \<Rightarrow> Some (- ENODEV, s)
      | Some a \<Rightarrow>
     (case ux_devs s a of
        None \<Rightarrow> None
      | Some d \<Rightarrow>
     (case ud_arch_priv d of
        None \<Rightarrow> Some (- ENODEV, s)
      | Some i \<Rightarrow> Some (0, (free_slot i s)\<lparr>ux_devs := (ux_devs s)(a := None)\<rparr>)))))"

section \<open>Opening and closing\<close>

text \<open>
  \<^verbatim>\<open>pipe_open\<close> for a name that is not in the static table; \<open>p\<close> is the answer of the allocator. The memory of the device is not
  cleared: a list head that is not null is taken for a list.
\<close>

definition dev_pipes_of :: "nat \<Rightarrow> unix_sys \<Rightarrow> dev_pipe_list" where
  "dev_pipes_of a s = (case ux_devs s a of None \<Rightarrow> Garbage | Some d \<Rightarrow> ud_pipes d)"

definition set_dev_pipes_of :: "nat \<Rightarrow> dev_pipe_list \<Rightarrow> unix_sys \<Rightarrow> unix_sys" where
  "set_dev_pipes_of a ps s = s\<lparr>ux_devs := (ux_devs s)(a := map_option (\<lambda>d. d\<lparr>ud_pipes := ps\<rparr>) (ux_devs s a))\<rparr>"

definition init_dev_pipes :: "nat \<Rightarrow> unix_sys \<Rightarrow> unix_sys" where
  "init_dev_pipes a s = (if dev_pipes_of a s = Unset then set_dev_pipes_of a (Pipes []) s else s)"

text \<open>
  The events of pipes in the ring of the event system, which has room for 63 and drops an event that finds it full.
\<close>

definition UX_EVENTS :: nat where "UX_EVENTS = 63"

definition ux_trigger :: "unix_event \<Rightarrow> unix_sys \<Rightarrow> unix_sys" where
  "ux_trigger e s = (if length (ux_events s) < UX_EVENTS then s\<lparr>ux_events := ux_events s @ [e]\<rparr> else s)"

definition unix_pipe_open ::
  "host_open \<Rightarrow> nat option \<Rightarrow> (nat \<times> bool) option \<Rightarrow> string \<Rightarrow> nat \<Rightarrow> unix_sys \<Rightarrow> (nat option \<times> unix_sys) option" where
  "unix_pipe_open host out mem n mode s =
     (if mode = 0 then Some (None, s\<lparr>ux_bathos_errno := EINVAL\<rparr>)
      else case out of
        None \<Rightarrow> Some (None, s\<lparr>ux_bathos_errno := ENFILE\<rparr>)
      | Some p \<Rightarrow>
          let q = \<lparr>up_n = n, up_mode = mode, up_dev = None\<rparr> in
          (case bathos_arch_find_dev p n mem s of
             (None, s) \<Rightarrow> Some (None, s\<lparr>ux_pipes := (ux_pipes s)(p \<mapsto> q), ux_bathos_errno := ENXIO\<rparr>)
           | (Some a, s) \<Rightarrow>
               let s = init_dev_pipes a (s\<lparr>ux_pipes := (ux_pipes s)(p \<mapsto> q\<lparr>up_dev := Some a\<rparr>)\<rparr>) in
               (case unix_open host p s of
                  None \<Rightarrow> None
                | Some (stat, s) \<Rightarrow>
                    if stat \<noteq> 0 then Some (None, s\<lparr>ux_pipes := (ux_pipes s)(p \<mapsto> q), ux_bathos_errno := stat\<rparr>)
                    else case dev_pipes_of a s of
                        Pipes ps \<Rightarrow>
                          Some (Some p, ux_trigger (Pipe_opened p) (set_dev_pipes_of a (Pipes (p # ps)) s))
                      | _ \<Rightarrow> None)))"

definition unix_pipe_close :: "nat \<Rightarrow> unix_sys \<Rightarrow> (int \<times> unix_sys) option" where
  "unix_pipe_close p s =
     (case ux_pipes s p of
        None \<Rightarrow> None
      | Some q \<Rightarrow>
          if up_dev q = None then Some (- 1, s\<lparr>ux_bathos_errno := EBADF\<rparr>)
          else Some (0, ux_trigger (Pipe_really_closed p) (ux_trigger (Pipe_closed p) s)))"

text \<open>The handlers. Descriptors outside \<^verbatim>\<open>FD_SETSIZE\<close> are not defined for \<^verbatim>\<open>FD_SET\<close> and \<^verbatim>\<open>FD_CLR\<close>.\<close>

definition FD_SETSIZE :: int where "FD_SETSIZE = 1024"

definition with_pipe_fd :: "nat \<Rightarrow> (nat \<Rightarrow> int \<Rightarrow> unix_sys) \<Rightarrow> unix_sys \<Rightarrow> unix_sys option" where
  "with_pipe_fd p f s =
     (case ux_pipes s p of
        None \<Rightarrow> None
      | Some q \<Rightarrow>
     (case up_dev q of
        None \<Rightarrow> Some s
      | Some a \<Rightarrow>
     (case ux_devs s a of
        None \<Rightarrow> None
      | Some d \<Rightarrow>
     (case ud_arch_priv d of
        None \<Rightarrow> Some s
      | Some i \<Rightarrow>
          let fd = ux_fd (ux_priv s ! i)
          in if 0 \<le> fd \<and> fd < FD_SETSIZE then Some (f (up_mode q) fd) else None))))"

definition fd_set_if :: "bool \<Rightarrow> int \<Rightarrow> int set \<Rightarrow> int set" where
  "fd_set_if b fd S = (if b then insert fd S else S)"

definition fd_clr_if :: "bool \<Rightarrow> int \<Rightarrow> int set \<Rightarrow> int set" where
  "fd_clr_if b fd S = (if b then S - {fd} else S)"

definition pipe_opened_handle :: "nat \<Rightarrow> unix_sys \<Rightarrow> unix_sys option" where
  "pipe_opened_handle p s = with_pipe_fd p (\<lambda>mode fd.
     s\<lparr>wr_fdset := fd_set_if (mode AND BATHOS_MODE_OUTPUT \<noteq> 0) fd (wr_fdset s),
       rd_fdset := fd_set_if (mode AND BATHOS_MODE_INPUT \<noteq> 0) fd (rd_fdset s),
       ux_nfds := max (ux_nfds s) (fd + 1)\<rparr>) s"

definition recalc_nfds :: "int set \<Rightarrow> int set \<Rightarrow> int" where
  "recalc_nfds rd wr = fold (\<lambda>i out. if i \<in> rd \<or> i \<in> wr then i + 1 else out) [0..254] (- 1)"

definition pipe_closed_handle :: "nat \<Rightarrow> unix_sys \<Rightarrow> unix_sys option" where
  "pipe_closed_handle p s = with_pipe_fd p (\<lambda>mode fd.
     let wr = fd_clr_if (mode AND BATHOS_MODE_OUTPUT \<noteq> 0) fd (wr_fdset s);
         rd = fd_clr_if (mode AND BATHOS_MODE_INPUT \<noteq> 0) fd (rd_fdset s)
     in s\<lparr>wr_fdset := wr, rd_fdset := rd, ux_nfds := if fd + 1 = ux_nfds s then recalc_nfds rd wr else ux_nfds s\<rparr>) s"

text \<open>The handler of \<^verbatim>\<open>pipe_really_closed\<close> in \<^verbatim>\<open>lib/pipe.c\<close>, with the operations of these devices.\<close>

definition unix_free_pipe :: "nat \<Rightarrow> unix_sys \<Rightarrow> unix_sys option" where
  "unix_free_pipe p s =
     (case ux_pipes s p of
        None \<Rightarrow> None
      | Some q \<Rightarrow>
     (case up_dev q of
        None \<Rightarrow> None
      | Some a \<Rightarrow>
     (case dev_pipes_of a s of
        Pipes ps \<Rightarrow>
          let s = set_dev_pipes_of a (Pipes (remove1 p ps)) s in
          (case (if remove1 p ps = [] then map_option snd (unix_close p s) else Some s) of
             None \<Rightarrow> None
           | Some s \<Rightarrow> Some (s\<lparr>ux_pipes := (ux_pipes s)(p \<mapsto> q\<lparr>up_dev := None\<rparr>)\<rparr>))
      | _ \<Rightarrow> None)))"

fun unix_handle :: "unix_event \<Rightarrow> unix_sys \<Rightarrow> unix_sys option" where
  "unix_handle (Pipe_opened p) s = pipe_opened_handle p s"
| "unix_handle (Pipe_closed p) s = pipe_closed_handle p s"
| "unix_handle (Pipe_really_closed p) s = unix_free_pipe p s"

fun unix_dispatch :: "unix_sys \<Rightarrow> unix_sys option" where
  "unix_dispatch s = (case ux_events s of [] \<Rightarrow> Some s | e # es \<Rightarrow> unix_handle e (s\<lparr>ux_events := es\<rparr>))"

section \<open>Idling\<close>

datatype select_result = Sel_error | Sel_timeout | Sel_ready "int set"

datatype idle_output = Input_ready nat | Output_ready nat | Hw_timer_tick | Slept

definition trigger_event_for_pipe :: "nat option \<Rightarrow> unix_sys \<Rightarrow> idle_output list option" where
  "trigger_event_for_pipe p s =
     (case p of
        None \<Rightarrow> None
      | Some p \<Rightarrow>
     (case ux_pipes s p of
        None \<Rightarrow> None
      | Some q \<Rightarrow>
     (case up_dev q of
        None \<Rightarrow> None
      | Some a \<Rightarrow>
          if ux_devs s a = None then None
          else Some ((if up_mode q AND BATHOS_MODE_INPUT \<noteq> 0 then [Input_ready a] else [])
                     @ (if up_mode q AND BATHOS_MODE_OUTPUT \<noteq> 0 then [Output_ready a] else [])))))"

fun idle_scan :: "int list \<Rightarrow> int set \<Rightarrow> unix_sys \<Rightarrow> idle_output list option" where
  "idle_scan [] R s = Some []"
| "idle_scan (i # is) R s =
     (if i \<notin> R then idle_scan is R s
      else case trigger_event_for_pipe (unix_fd_to_pipe i s) s of
          None \<Rightarrow> None
        | Some out \<Rightarrow> map_option ((@) out) (idle_scan is R s))"

text \<open>The interrupted call is told by \<^verbatim>\<open>bathos_errno\<close>; \<^verbatim>\<open>EINTR\<close> is 4.\<close>

definition unix_idle :: "(int \<Rightarrow> int set \<Rightarrow> select_result) \<Rightarrow> unix_sys \<Rightarrow> idle_output list option" where
  "unix_idle select s =
     (case select (ux_nfds s) (rd_fdset s) of
        Sel_error \<Rightarrow> Some (if ux_bathos_errno s = 4 then [] else [Slept])
      | Sel_timeout \<Rightarrow> Some [Hw_timer_tick]
      | Sel_ready R \<Rightarrow> idle_scan [0..ux_nfds s - 1] R s)"

section \<open>What is open\<close>

text \<open>The slot, the descriptor and the mode of an open pipe.\<close>

definition pipe_view :: "unix_sys \<Rightarrow> nat \<Rightarrow> (nat \<times> int \<times> nat) option" where
  "pipe_view s p =
     (case ux_pipes s p of
        None \<Rightarrow> None
      | Some q \<Rightarrow>
     (case up_dev q of
        None \<Rightarrow> None
      | Some a \<Rightarrow>
     (case ux_devs s a of
        None \<Rightarrow> None
      | Some d \<Rightarrow>
     (case ud_arch_priv d of
        None \<Rightarrow> None
      | Some i \<Rightarrow>
          if i < length (ux_priv s) \<and> ud_pipes d = Pipes [p] \<and> ux_pipe (ux_priv s ! i) = Some p
          then Some (i, ux_fd (ux_priv s ! i), up_mode q) else None))))"

definition pipe_live :: "unix_sys \<Rightarrow> nat \<Rightarrow> bool" where
  "pipe_live s p = (case ux_pipes s p of None \<Rightarrow> False | Some q \<Rightarrow> up_dev q \<noteq> None)"

fun event_pipe :: "unix_event \<Rightarrow> nat" where
  "event_pipe (Pipe_opened p) = p"
| "event_pipe (Pipe_closed p) = p"
| "event_pipe (Pipe_really_closed p) = p"

definition events_of :: "nat \<Rightarrow> unix_sys \<Rightarrow> unix_event list" where
  "events_of p s = filter (\<lambda>e. event_pipe e = p) (ux_events s)"

text \<open>A pipe is registered from the handling of its first event to that of its second.\<close>

definition registered :: "unix_sys \<Rightarrow> nat \<Rightarrow> bool" where
  "registered s p \<longleftrightarrow> events_of p s \<in> {[], [Pipe_closed p, Pipe_really_closed p]}"

definition open_fds :: "nat \<Rightarrow> unix_sys \<Rightarrow> int set" where
  "open_fds k s = {fd. \<exists>p i m. pipe_view s p = Some (i, fd, m) \<and> m AND k \<noteq> 0 \<and> registered s p}"

definition event_phases :: "nat \<Rightarrow> unix_event list set" where
  "event_phases p = {[], [Pipe_opened p], [Pipe_opened p, Pipe_closed p, Pipe_really_closed p],
     [Pipe_closed p, Pipe_really_closed p], [Pipe_really_closed p]}"

definition fds_distinct :: "arch_unix_pipe_data list \<Rightarrow> bool" where
  "fds_distinct xs \<longleftrightarrow> (\<forall>i < length xs. \<forall>j < length xs. ux_fd (xs ! i) = ux_fd (xs ! j) \<and> 0 \<le> ux_fd (xs ! i) \<longrightarrow> i = j)"

definition pipe_ok :: "unix_sys \<Rightarrow> nat \<Rightarrow> bool" where
  "pipe_ok s p \<longleftrightarrow>
     (if pipe_live s p then events_of p s \<in> event_phases p
        \<and> (\<exists>i fd m. pipe_view s p = Some (i, fd, m) \<and> 0 \<le> fd \<and> fd < 255 \<and> m AND BATHOS_MODE_INPUT_OUTPUT \<noteq> 0)
      else events_of p s = [])"

definition nfds_ok :: "int set \<Rightarrow> int \<Rightarrow> bool" where
  "nfds_ok S n \<longleftrightarrow> (\<forall>fd \<in> S. fd < n) \<and> (0 < n \<longrightarrow> n - 1 \<in> S)"

definition unix_inv :: "unix_sys \<Rightarrow> bool" where
  "unix_inv s \<longleftrightarrow> fds_distinct (ux_priv s) \<and> (\<forall>p. pipe_ok s p)
   \<and> rd_fdset s = open_fds BATHOS_MODE_INPUT s \<and> wr_fdset s = open_fds BATHOS_MODE_OUTPUT s
   \<and> nfds_ok (rd_fdset s \<union> wr_fdset s) (ux_nfds s)"

section \<open>Sessions\<close>

text \<open>
  Pipes are opened, closed once, and the queued events are handled, in any order, as long as the ring has room for the events. The host gives fresh memory that is
  cleared, and descriptors below 255 that are not open already; pipes come from the allocator and are never given back. These are assumptions on the environment that the
  code makes and nothing promises: the memory of \<^verbatim>\<open>malloc\<close> is not cleared in general, and an event that is dropped leaves a pipe half closed.
\<close>

definition fresh_answers :: "host_open \<Rightarrow> nat \<Rightarrow> (nat \<times> bool) option \<Rightarrow> string \<Rightarrow> unix_sys \<Rightarrow> bool" where
  "fresh_answers host p mem n s \<longleftrightarrow> length (ux_events s) < UX_EVENTS \<and> ux_pipes s p = None \<and> (\<forall>a null. mem = Some (a, null) \<longrightarrow> null \<and> ux_devs s a = None)
     \<and> (\<forall>m. let (fd, e) = unix_open_fd host n m (ux_host_errno s) in
          (0 \<le> fd \<longrightarrow> fd < 255 \<and> fd \<notin> ux_fd ` set (ux_priv s)) \<and> (fd < 0 \<longrightarrow> 0 < e))"

inductive unix_step :: "unix_sys \<Rightarrow> unix_sys \<Rightarrow> bool" where
  step_open: "fresh_answers host p mem n s \<Longrightarrow> unix_pipe_open host (Some p) mem n mode s = Some (r, s') \<Longrightarrow> unix_step s s'"
| step_close: "length (ux_events s) + 2 \<le> UX_EVENTS \<Longrightarrow> Pipe_closed p \<notin> set (ux_events s) \<Longrightarrow> Pipe_really_closed p \<notin> set (ux_events s)
    \<Longrightarrow> unix_pipe_close p s = Some (r, s') \<Longrightarrow> unix_step s s'"
| step_dispatch: "unix_dispatch s = Some s' \<Longrightarrow> unix_step s s'"

definition unix_reachable :: "unix_sys \<Rightarrow> bool" where
  "unix_reachable s \<longleftrightarrow> unix_step\<^sup>*\<^sup>* unix_boot s"

section \<open>Invariant\<close>

lemma slot_with_fd_Some:
  "slot_with_fd fd s = Some i \<Longrightarrow> i < length (ux_priv s) \<and> ux_fd (ux_priv s ! i) = fd"
  by (auto simp: slot_with_fd_def find_Some_iff)

lemma slot_with_fd_eq:
  assumes "fds_distinct (ux_priv s)" "i < length (ux_priv s)" "0 \<le> ux_fd (ux_priv s ! i)"
  shows "slot_with_fd (ux_fd (ux_priv s ! i)) s = Some i"
proof (cases "slot_with_fd (ux_fd (ux_priv s ! i)) s")
  case None
  with assms(2) show ?thesis by (auto simp: slot_with_fd_def find_None_iff)
next
  case (Some j)
  with slot_with_fd_Some [OF Some] assms show ?thesis by (auto simp: fds_distinct_def)
qed

lemma fds_distinct_update:
  assumes "fds_distinct xs" "ux_fd x < 0 \<or> ux_fd x \<notin> ux_fd ` set xs"
  shows "fds_distinct (xs[i := x])"
proof -
  have "False" if "j < length xs" "0 \<le> ux_fd x" "ux_fd (xs ! j) = ux_fd x" for j
    using assms(2) that nth_mem [OF that(1)] by (metis imageI not_less)
  then have "False" if "j < length xs" "0 \<le> ux_fd (xs ! j)" "ux_fd (xs ! j) = ux_fd x \<or> ux_fd x = ux_fd (xs ! j)" for j
    using that by metis
  moreover have "i = j" if "i < length xs" "j < length xs" "ux_fd (xs ! i) = ux_fd (xs ! j)" "0 \<le> ux_fd (xs ! i)" for i j
    using assms(1) that unfolding fds_distinct_def by blast
  ultimately show ?thesis unfolding fds_distinct_def length_list_update
    by (cases "i < length xs") (simp_all add: nth_list_update split: if_splits, metis+)
qed

lemma pipe_view_Some:
  "pipe_view s p = Some (i, fd, m) \<longleftrightarrow>
     (\<exists>q a d. ux_pipes s p = Some q \<and> up_dev q = Some a \<and> ux_devs s a = Some d \<and> ud_arch_priv d = Some i \<and> i < length (ux_priv s)
        \<and> ud_pipes d = Pipes [p] \<and> ux_pipe (ux_priv s ! i) = Some p \<and> fd = ux_fd (ux_priv s ! i) \<and> m = up_mode q)"
  by (auto simp: pipe_view_def split: option.splits)

lemma pipe_view_inj:
  "pipe_view s p = Some (i, fd, m) \<Longrightarrow> pipe_view s p' = Some (i, fd', m') \<Longrightarrow> p = p'"
  by (auto simp: pipe_view_Some)

text \<open>What opening a pipe may change.\<close>

definition open_fails :: "unix_sys \<Rightarrow> nat \<Rightarrow> unix_sys \<Rightarrow> bool" where
  "open_fails s p s' \<longleftrightarrow>
     (ux_priv s' = ux_priv s \<or> (\<exists>i x. i < length (ux_priv s) \<and> ux_fd (ux_priv s ! i) < 0
        \<and> (ux_fd x < 0 \<or> ux_fd x \<notin> ux_fd ` set (ux_priv s)) \<and> ux_priv s' = (ux_priv s)[i := x]))
   \<and> (ux_devs s' = ux_devs s \<or> (\<exists>a d. ux_devs s a = None \<and> ux_devs s' = (ux_devs s)(a \<mapsto> d)))
   \<and> (ux_pipes s' = ux_pipes s \<or> (\<exists>q. up_dev q = None \<and> ux_pipes s' = (ux_pipes s)(p \<mapsto> q)))
   \<and> ux_pipes s p = None \<and> ux_events s' = ux_events s \<and> rd_fdset s' = rd_fdset s \<and> wr_fdset s' = wr_fdset s \<and> ux_nfds s' = ux_nfds s"

definition open_works :: "unix_sys \<Rightarrow> nat \<Rightarrow> nat \<Rightarrow> nat \<Rightarrow> int \<Rightarrow> nat \<Rightarrow> string \<Rightarrow> unix_sys \<Rightarrow> bool" where
  "open_works s p i a fd mode n s' \<longleftrightarrow>
     i < length (ux_priv s) \<and> ux_fd (ux_priv s ! i) < 0 \<and> 0 \<le> fd \<and> fd < 255 \<and> fd \<notin> ux_fd ` set (ux_priv s)
   \<and> ux_devs s a = None \<and> ux_pipes s p = None \<and> mode AND BATHOS_MODE_INPUT_OUTPUT \<noteq> 0
   \<and> ux_priv s' = (ux_priv s)[i := \<lparr>ux_fd = fd, ux_pipe = Some p\<rparr>]
   \<and> ux_devs s' = (ux_devs s)(a \<mapsto> \<lparr>ud_name = n, ud_arch_priv = Some i, ud_pipes = Pipes [p]\<rparr>)
   \<and> ux_pipes s' = (ux_pipes s)(p \<mapsto> \<lparr>up_n = n, up_mode = mode, up_dev = Some a\<rparr>)
   \<and> ux_events s' = ux_events s @ [Pipe_opened p] \<and> rd_fdset s' = rd_fdset s \<and> wr_fdset s' = wr_fdset s \<and> ux_nfds s' = ux_nfds s"

lemma open_failsI:
  assumes "ux_pipes s p = None" "ux_events s' = ux_events s" "rd_fdset s' = rd_fdset s" "wr_fdset s' = wr_fdset s" "ux_nfds s' = ux_nfds s"
    and "ux_pipes s' = ux_pipes s \<or> ux_pipes s' = (ux_pipes s)(p \<mapsto> \<lparr>up_n = n, up_mode = mode, up_dev = None\<rparr>)"
    and "ux_devs s' = ux_devs s \<or> ux_devs s a = None \<and> ux_devs s' = (ux_devs s)(a \<mapsto> d)"
    and "ux_priv s' = ux_priv s \<or> i < length (ux_priv s) \<and> ux_fd (ux_priv s ! i) < 0
        \<and> (ux_fd x < 0 \<or> ux_fd x \<notin> ux_fd ` set (ux_priv s)) \<and> ux_priv s' = (ux_priv s)[i := x]"
  shows "open_fails s p s'"
proof -
  have "\<exists>q. up_dev q = None \<and> ux_pipes s' = (ux_pipes s)(p \<mapsto> q)" if "ux_pipes s' \<noteq> ux_pipes s"
    using assms(6) that by (intro exI [of _ "\<lparr>up_n = n, up_mode = mode, up_dev = None\<rparr>"]) simp
  with assms(1-5,7,8) show ?thesis unfolding open_fails_def by blast
qed

lemma bathos_arch_find_dev_effect:
  assumes "bathos_arch_find_dev p n mem s = (ao, t)" "fresh_answers host p mem n s"
  shows "ao = None \<and> (t = s \<or> (\<exists>i < length (ux_priv s). ux_fd (ux_priv s ! i) < 0 \<and> t = set_unix_fd i BATHOS_UNIX_RESERVED_FD s))
    \<or> (\<exists>a i. ao = Some a \<and> ux_devs s a = None \<and> i < length (ux_priv s) \<and> ux_fd (ux_priv s ! i) < 0
         \<and> t = s\<lparr>ux_priv := (ux_priv s)[i := \<lparr>ux_fd = BATHOS_UNIX_RESERVED_FD, ux_pipe = Some p\<rparr>],
              ux_devs := (ux_devs s)(a \<mapsto> \<lparr>ud_name = n, ud_arch_priv = Some i, ud_pipes = Unset\<rparr>)\<rparr>)"
proof (cases "slot_with_fd BATHOS_UNIX_FREE_FD s")
  case None
  with assms(1) show ?thesis by (simp add: bathos_arch_find_dev_def find_free_slot_def)
next
  case (Some i)
  from slot_with_fd_Some [OF this] have i: "i < length (ux_priv s)" "ux_fd (ux_priv s ! i) < 0"
    by (simp_all add: BATHOS_UNIX_FREE_FD_def)
  obtain f q where sl: "ux_priv s ! i = \<lparr>ux_fd = f, ux_pipe = q\<rparr>" by (cases "ux_priv s ! i") auto
  show ?thesis
  proof (cases mem)
    case None
    with Some assms(1) i show ?thesis by (auto simp: bathos_arch_find_dev_def find_free_slot_def)
  next
    case (Some an)
    obtain a where "an = (a, True)" "ux_devs s a = None" using assms(2) Some by (cases an) (auto simp: fresh_answers_def)
    with \<open>slot_with_fd BATHOS_UNIX_FREE_FD s = Some i\<close> Some assms(1) i show ?thesis
      by (intro disjI2 exI [of _ a] exI [of _ i]) (simp add: bathos_arch_find_dev_def find_free_slot_def set_unix_fd_def sl)
  qed
qed

lemma unix_open_mode_None: "unix_open_mode m = None \<longleftrightarrow> m AND BATHOS_MODE_INPUT_OUTPUT = 0"
proof -
  have "m AND 3 = take_bit 2 m" by (simp add: take_bit_eq_mask mask_eq_exp_minus_1)
  also have "\<dots> = m mod 4" by (simp add: take_bit_eq_mod)
  finally have "m AND 3 < 4" by simp
  then have "m AND 3 = 0 \<or> m AND 3 = 1 \<or> m AND 3 = 2 \<or> m AND 3 = 3" by linarith
  then show ?thesis
    by (auto simp: unix_open_mode_def Let_def BATHOS_MODE_INPUT_OUTPUT_def BATHOS_MODE_INPUT_def BATHOS_MODE_OUTPUT_def)
qed

lemma unix_open_effect:
  assumes "fresh_answers host p mem n s" "ux_devs s a = None" "i < length (ux_priv s)" "ux_fd (ux_priv s ! i) < 0"
    and u: "u = s\<lparr>ux_priv := (ux_priv s)[i := \<lparr>ux_fd = BATHOS_UNIX_RESERVED_FD, ux_pipe = Some p\<rparr>],
              ux_devs := (ux_devs s)(a \<mapsto> \<lparr>ud_name = n, ud_arch_priv = Some i, ud_pipes = Pipes []\<rparr>),
              ux_pipes := (ux_pipes s)(p \<mapsto> \<lparr>up_n = n, up_mode = mode, up_dev = Some a\<rparr>)\<rparr>"
    and v: "unix_open host p u = Some (stat, v)"
  shows "stat \<noteq> 0 \<and> open_fails s p (v\<lparr>ux_pipes := (ux_pipes v)(p \<mapsto> \<lparr>up_n = n, up_mode = mode, up_dev = None\<rparr>), ux_bathos_errno := stat\<rparr>)
    \<or> stat = 0 \<and> dev_pipes_of a v = Pipes [] \<and> (\<exists>fd. open_works s p i a fd mode n
        (ux_trigger (Pipe_opened p) (set_dev_pipes_of a (Pipes [p]) v)))"
proof -
  have p: "ux_pipes s p = None" "length (ux_events s) < UX_EVENTS" using assms(1) by (simp_all add: fresh_answers_def)
  show ?thesis
  proof (cases "unix_open_mode mode")
    case None
    with v have "stat = - EPERM" "v = u" by (simp_all add: unix_open_def u)
    with p assms(2-4) show ?thesis
      by (simp add: EPERM_def, intro open_failsI [where i = i and n = n and mode = mode and x = "\<lparr>ux_fd = BATHOS_UNIX_RESERVED_FD, ux_pipe = Some p\<rparr>"]) (auto simp: u BATHOS_UNIX_RESERVED_FD_def)
  next
    case (Some m)
    then have mode: "mode AND BATHOS_MODE_INPUT_OUTPUT \<noteq> 0" using unix_open_mode_None [of mode] by simp
    obtain fd e where fd: "unix_open_fd host n m (ux_host_errno s) = (fd, e)" by fastforce
    have h: "0 \<le> fd \<longrightarrow> fd < 255 \<and> fd \<notin> ux_fd ` set (ux_priv s)" "fd < 0 \<longrightarrow> 0 < e"
      using assms(1) fd by (auto simp: fresh_answers_def Let_def split_beta dest: spec [of _ m])
    define w where "w = u\<lparr>ux_priv := (ux_priv s)[i := \<lparr>ux_fd = fd, ux_pipe = Some p\<rparr>], ux_host_errno := e\<rparr>"
    have "(set_unix_fd i fd u)\<lparr>ux_host_errno := e\<rparr> = w" using assms(3) by (simp add: w_def u set_unix_fd_def)
    then have vw: "v = w" "stat = (if fd < 0 then - e else if mode AND BATHOS_MODE_ASYNC \<noteq> 0 then - EINVAL else 0)"
      using v Some fd by (auto simp: unix_open_def unix_async_open_def u split: if_splits)
    show ?thesis
    proof (cases "stat = 0")
      case False
      with p assms(2-4) h show ?thesis
        by (simp, intro open_failsI [where i = i and n = n and mode = mode and x = "\<lparr>ux_fd = fd, ux_pipe = Some p\<rparr>"]) (auto simp: u vw(1) w_def)
    next
      case True
      then have "0 \<le> fd" using vw(2) h(2) by (auto split: if_splits)
      with p assms(2-4) h mode True show ?thesis
        by (intro disjI2 conjI exI [of _ fd]) (simp_all add: open_works_def vw(1) w_def u set_dev_pipes_of_def dev_pipes_of_def ux_trigger_def)
    qed
  qed
qed

lemma unix_pipe_open_effect:
  assumes "fresh_answers host p mem n s" "unix_pipe_open host (Some p) mem n mode s = Some (r, s')"
  shows "(r = None \<and> open_fails s p s') \<or> (r = Some p \<and> (\<exists>i a fd. open_works s p i a fd mode n s'))"
proof (cases "mode = 0")
  case True
  with assms show ?thesis by (auto simp: unix_pipe_open_def fresh_answers_def intro!: open_failsI)
next
  case False
  have p: "ux_pipes s p = None" using assms(1) by (simp add: fresh_answers_def)
  obtain ao t where t: "bathos_arch_find_dev p n mem s = (ao, t)" by fastforce
  from bathos_arch_find_dev_effect [OF t assms(1)] consider
      (none) "ao = None" "t = s"
    | (leak) i where "ao = None" "i < length (ux_priv s)" "ux_fd (ux_priv s ! i) < 0" "t = set_unix_fd i BATHOS_UNIX_RESERVED_FD s"
    | (dev) a i where "ao = Some a" "ux_devs s a = None" "i < length (ux_priv s)" "ux_fd (ux_priv s ! i) < 0"
        "t = s\<lparr>ux_priv := (ux_priv s)[i := \<lparr>ux_fd = BATHOS_UNIX_RESERVED_FD, ux_pipe = Some p\<rparr>],
              ux_devs := (ux_devs s)(a \<mapsto> \<lparr>ud_name = n, ud_arch_priv = Some i, ud_pipes = Unset\<rparr>)\<rparr>"
    by blast
  then show ?thesis
  proof cases
    case none
    with assms(2) t False p show ?thesis by (auto simp: unix_pipe_open_def intro!: open_failsI)
  next
    case leak
    with assms(2) t False have "r = None" "s' = t\<lparr>ux_pipes := (ux_pipes t)(p \<mapsto> \<lparr>up_n = n, up_mode = mode, up_dev = None\<rparr>), ux_bathos_errno := ENXIO\<rparr>"
      by (auto simp: unix_pipe_open_def)
    with leak p show ?thesis
      by (simp, intro open_failsI [where i = i and x = "(ux_priv s ! i)\<lparr>ux_fd := BATHOS_UNIX_RESERVED_FD\<rparr>" and n = n and mode = mode])
        (auto simp: set_unix_fd_def BATHOS_UNIX_RESERVED_FD_def)
  next
    case dev
    define u where "u = s\<lparr>ux_priv := (ux_priv s)[i := \<lparr>ux_fd = BATHOS_UNIX_RESERVED_FD, ux_pipe = Some p\<rparr>],
              ux_devs := (ux_devs s)(a \<mapsto> \<lparr>ud_name = n, ud_arch_priv = Some i, ud_pipes = Pipes []\<rparr>),
              ux_pipes := (ux_pipes s)(p \<mapsto> \<lparr>up_n = n, up_mode = mode, up_dev = Some a\<rparr>)\<rparr>"
    have "init_dev_pipes a (t\<lparr>ux_pipes := (ux_pipes t)(p \<mapsto> \<lparr>up_n = n, up_mode = mode, up_dev = Some a\<rparr>)\<rparr>) = u"
      by (simp add: u_def dev(5) init_dev_pipes_def dev_pipes_of_def set_dev_pipes_of_def)
    then obtain stat v where v: "unix_open host p u = Some (stat, v)"
      and s': "(if stat \<noteq> 0 then Some (None, v\<lparr>ux_pipes := (ux_pipes v)(p \<mapsto> \<lparr>up_n = n, up_mode = mode, up_dev = None\<rparr>), ux_bathos_errno := stat\<rparr>)
         else case dev_pipes_of a v of Pipes ps \<Rightarrow> Some (Some p, ux_trigger (Pipe_opened p) (set_dev_pipes_of a (Pipes (p # ps)) v))
           | _ \<Rightarrow> None) = Some (r, s')"
      using assms(2) t dev(1) False by (simp add: unix_pipe_open_def split: option.splits prod.splits)
    from unix_open_effect [OF assms(1) dev(2-4) u_def v] s' show ?thesis by auto
  qed
qed

lemma pipe_view_cong:
  assumes "ux_pipes s' = ux_pipes s" "ux_devs s' = ux_devs s" "ux_priv s' = ux_priv s"
  shows "pipe_view s' p = pipe_view s p" "pipe_live s' p = pipe_live s p"
  by (simp_all only: pipe_view_def pipe_live_def assms)

lemma pipe_ok_cong:
  assumes "pipe_live s' p = pipe_live s p" "pipe_view s' p = pipe_view s p" "events_of p s' = events_of p s"
  shows "pipe_ok s' p = pipe_ok s p"
  by (simp only: pipe_ok_def assms)

lemma unix_invD:
  assumes "unix_inv s"
  shows "fds_distinct (ux_priv s)" "pipe_ok s p" "rd_fdset s = open_fds BATHOS_MODE_INPUT s" "wr_fdset s = open_fds BATHOS_MODE_OUTPUT s"
    "nfds_ok (rd_fdset s \<union> wr_fdset s) (ux_nfds s)"
  using assms unfolding unix_inv_def by blast+

lemma unix_invI:
  assumes "fds_distinct (ux_priv s)" "\<And>p. pipe_ok s p" "rd_fdset s = open_fds BATHOS_MODE_INPUT s" "wr_fdset s = open_fds BATHOS_MODE_OUTPUT s"
    and "nfds_ok (rd_fdset s \<union> wr_fdset s) (ux_nfds s)"
  shows "unix_inv s"
  using assms unfolding unix_inv_def by blast

lemma unix_inv_congr:
  assumes "unix_inv s" "fds_distinct (ux_priv s')" "ux_events s' = ux_events s" "rd_fdset s' = rd_fdset s" "wr_fdset s' = wr_fdset s"
    and "ux_nfds s' = ux_nfds s" "\<And>p. pipe_live s' p = pipe_live s p" "\<And>p. pipe_view s' p = pipe_view s p"
  shows "unix_inv s'"
proof -
  have ev: "events_of p s' = events_of p s" for p by (simp add: events_of_def assms(3))
  then have "pipe_ok s' p = pipe_ok s p" for p by (intro pipe_ok_cong) (simp_all add: assms(7,8))
  moreover have "open_fds k s' = open_fds k s" for k by (simp add: open_fds_def registered_def ev assms(8))
  ultimately show ?thesis
    using unix_invD [OF assms(1)] assms(2) by (intro unix_invI) (simp_all only: assms(4-6))
qed

lemma unix_inv_view:
  assumes "unix_inv s" "pipe_live s p"
  obtains i fd m where "pipe_view s p = Some (i, fd, m)" "0 \<le> fd" "fd < 255" "m AND BATHOS_MODE_INPUT_OUTPUT \<noteq> 0" "events_of p s \<in> event_phases p"
  using assms by (auto simp: unix_inv_def pipe_ok_def dest!: spec [of _ p])

lemma pipe_view_not_live: "\<not> pipe_live s p \<Longrightarrow> pipe_view s p = None"
  by (auto simp: pipe_view_def pipe_live_def split: option.splits)

text \<open>A slot that is reserved or free does not belong to an open pipe, and a new device is not in use.\<close>

lemma pipe_view_kept:
  assumes "pipe_view s p' = Some (j, fd', m')" "0 \<le> fd'" "p' \<noteq> p"
    and "ux_priv s' = ux_priv s \<or> (\<exists>i x. ux_fd (ux_priv s ! i) < 0 \<and> ux_priv s' = (ux_priv s)[i := x])"
    and "ux_devs s' = ux_devs s \<or> (\<exists>a d. ux_devs s a = None \<and> ux_devs s' = (ux_devs s)(a \<mapsto> d))"
    and "ux_pipes s' p' = ux_pipes s p'"
  shows "pipe_view s' p' = Some (j, fd', m')"
proof -
  from assms(1) obtain q a d where v: "ux_pipes s p' = Some q" "up_dev q = Some a" "ux_devs s a = Some d" "ud_arch_priv d = Some j"
      "j < length (ux_priv s)" "ud_pipes d = Pipes [p']" "ux_pipe (ux_priv s ! j) = Some p'" "fd' = ux_fd (ux_priv s ! j)" "m' = up_mode q"
    by (auto simp: pipe_view_Some)
  have "ux_devs s' a = Some d" using assms(5) v(3) by auto
  moreover have "length (ux_priv s') = length (ux_priv s)" "ux_priv s' ! j = ux_priv s ! j"
    using assms(2,4) v(5,8) by (auto simp: nth_list_update_neq) (metis not_less nth_list_update_neq)
  ultimately show ?thesis using v assms(6) by (simp add: pipe_view_Some)
qed

lemma unix_inv_open_fails:
  assumes "unix_inv s" "open_fails s p s'"
  shows "unix_inv s'"
proof (rule unix_inv_congr [OF assms(1)])
  note f = assms(2) [unfolded open_fails_def]
  show "fds_distinct (ux_priv s')" using assms(1) f by (auto simp: unix_inv_def intro: fds_distinct_update)
  have "ux_pipes s' = ux_pipes s \<or> (\<exists>q. up_dev q = None \<and> ux_pipes s' = (ux_pipes s)(p \<mapsto> q))" "ux_pipes s p = None" using f by blast+
  then show live: "pipe_live s' p' = pipe_live s p'" for p' by (auto simp: pipe_live_def split: option.splits if_splits)
  show "pipe_view s' p' = pipe_view s p'" for p'
  proof (cases "pipe_live s p'")
    case True
    from unix_inv_view [OF assms(1) True] obtain i fd m where v: "pipe_view s p' = Some (i, fd, m)" "0 \<le> fd" by metis
    moreover have "p' \<noteq> p" using True f by (auto simp: pipe_live_def)
    moreover have "ux_pipes s' p' = ux_pipes s p'" using f \<open>p' \<noteq> p\<close> by auto
    ultimately show ?thesis using f by (subst v(1), intro pipe_view_kept [of s p' i fd m p s']) auto
  next
    case False
    then show ?thesis by (simp add: pipe_view_not_live live)
  qed
qed (use assms(2) in \<open>auto simp: open_fails_def\<close>)

lemma unix_inv_open_works:
  assumes "unix_inv s" "open_works s p i a fd mode n s'"
  shows "unix_inv s'"
proof -
  note w = assms(2) [unfolded open_works_def]
  have np: "\<not> pipe_live s p" using w by (simp add: pipe_live_def)
  then have ev: "events_of p s = []" using assms(1) by (auto simp: unix_inv_def pipe_ok_def dest!: spec [of _ p])
  have live: "pipe_live s' p' \<longleftrightarrow> p' = p \<or> pipe_live s p'" for p' using w by (simp add: pipe_live_def)
  have evs: "events_of p' s' = (if p' = p then [Pipe_opened p] else events_of p' s)" for p'
    using w ev by (auto simp: events_of_def)
  have vp: "pipe_view s' p = Some (i, fd, mode)" using w by (simp add: pipe_view_Some)
  have v: "pipe_view s' p' = pipe_view s p'" if "p' \<noteq> p" for p'
  proof (cases "pipe_live s p'")
    case True
    from unix_inv_view [OF assms(1) True] obtain j f m where v: "pipe_view s p' = Some (j, f, m)" "0 \<le> f" by metis
    moreover have "ux_pipes s' p' = ux_pipes s p'" using w that by simp
    ultimately show ?thesis using w that by (subst v(1), intro pipe_view_kept [of s p' j f m p s']) auto
  next
    case False
    then show ?thesis by (simp add: pipe_view_not_live live that)
  qed
  have "pipe_view s p = None" using np by (rule pipe_view_not_live)
  then have "open_fds k s' = open_fds k s" for k
    unfolding open_fds_def registered_def by (intro Collect_cong ex_cong1) (auto simp: evs v)
  moreover have "pipe_ok s' p'" for p'
  proof (cases "p' = p")
    case True
    with w vp show ?thesis by (simp add: pipe_ok_def live evs event_phases_def)
  next
    case False
    with unix_invD(2) [OF assms(1), of p'] pipe_ok_cong [of s' p' s] show ?thesis by (simp add: live evs v)
  qed
  moreover have "fds_distinct (ux_priv s')" using unix_invD(1) [OF assms(1)] w by (auto intro: fds_distinct_update)
  moreover have "rd_fdset s' = rd_fdset s" "wr_fdset s' = wr_fdset s" "ux_nfds s' = ux_nfds s" using w by blast+
  ultimately show ?thesis using unix_invD [OF assms(1)] by (intro unix_invI) simp_all
qed

text \<open>Closing queues two events behind those of the pipe.\<close>

lemma unix_inv_close:
  assumes "unix_inv s" "Pipe_closed p \<notin> set (ux_events s)" "Pipe_really_closed p \<notin> set (ux_events s)" "unix_pipe_close p s = Some (r, s')"
    and "length (ux_events s) + 2 \<le> UX_EVENTS"
  shows "unix_inv s'"
proof (cases "pipe_live s p")
  case False
  with assms(4) have "s' = s\<lparr>ux_bathos_errno := EBADF\<rparr>" by (auto simp: unix_pipe_close_def pipe_live_def split: option.splits if_splits)
  with assms(1) show ?thesis by (intro unix_inv_congr [OF assms(1)]) (auto simp: unix_invD pipe_live_def intro!: pipe_view_cong(1))
next
  case True
  with assms(4,5) have s': "s' = s\<lparr>ux_events := ux_events s @ [Pipe_closed p, Pipe_really_closed p]\<rparr>"
    by (auto simp: ux_trigger_def unix_pipe_close_def pipe_live_def split: option.splits if_splits)
  have live: "pipe_live s' p' = pipe_live s p'" and view: "pipe_view s' p' = pipe_view s p'" for p'
    by (intro pipe_view_cong; simp add: s')+
  have evs: "events_of p' s' = events_of p' s @ (if p' = p then [Pipe_closed p, Pipe_really_closed p] else [])" for p'
    by (simp add: s' events_of_def)
  have "events_of p s \<in> event_phases p" using unix_invD(2) [OF assms(1), of p] True by (simp add: pipe_ok_def)
  moreover have "Pipe_closed p \<notin> set (events_of p s)" "Pipe_really_closed p \<notin> set (events_of p s)" using assms(2,3) by (simp_all add: events_of_def)
  ultimately have ev: "events_of p s = [] \<or> events_of p s = [Pipe_opened p]" by (auto simp: event_phases_def)
  then have reg: "registered s' p' = registered s p'" for p' by (auto simp: registered_def evs)
  have "pipe_ok s' p'" for p'
  proof (cases "p' = p")
    case True
    with ev \<open>pipe_live s p\<close> unix_invD(2) [OF assms(1), of p] show ?thesis by (auto simp: pipe_ok_def live view evs event_phases_def)
  next
    case False
    with unix_invD(2) [OF assms(1), of p'] pipe_ok_cong [of s' p' s] show ?thesis by (simp add: live view evs)
  qed
  moreover have "open_fds k s' = open_fds k s" for k by (simp add: open_fds_def view reg)
  moreover have "rd_fdset s' = rd_fdset s" "wr_fdset s' = wr_fdset s" "ux_nfds s' = ux_nfds s" "ux_priv s' = ux_priv s" by (simp_all add: s')
  ultimately show ?thesis using unix_invD [OF assms(1)] by (intro unix_invI) simp_all
qed

section \<open>Handling the events\<close>

text \<open>The event at the head of the queue is the first of its pipe; the others keep theirs.\<close>

lemma unix_head_event:
  assumes "unix_inv s" "ux_events s = e # es" "event_pipe e = p"
  shows "pipe_live s p" "e # filter (\<lambda>e. event_pipe e = p) es \<in> event_phases p"
proof -
  have ev: "events_of p s = e # filter (\<lambda>e. event_pipe e = p) es" using assms(2,3) by (simp add: events_of_def)
  with unix_invD(2) [OF assms(1), of p] show "pipe_live s p" by (auto simp: pipe_ok_def split: if_splits)
  with ev unix_invD(2) [OF assms(1), of p] show "e # filter (\<lambda>e. event_pipe e = p) es \<in> event_phases p" by (auto simp: pipe_ok_def)
qed

lemma with_pipe_fd_view:
  assumes "pipe_view s p = Some (i, fd, m)" "0 \<le> fd" "fd < 255"
  shows "with_pipe_fd p f (s\<lparr>ux_events := es\<rparr>) = Some (f m fd)"
  using assms by (auto simp: pipe_view_Some with_pipe_fd_def FD_SETSIZE_def)

text \<open>What changes with the registration of a pipe.\<close>

lemma open_fds_registration:
  assumes "unix_inv s" "pipe_view s p = Some (i, fd, m)" "\<And>p'. pipe_view s' p' = pipe_view s p'"
    and "\<And>p'. registered s' p' = (if p' = p then b else registered s p')" "0 \<le> fd"
  shows "open_fds k s' = (if b \<and> m AND k \<noteq> 0 then insert fd (open_fds k s) else open_fds k s - {fd})"
proof -
  have own: "p' = p \<and> m' = m" if "pipe_view s p' = Some (j, fd, m')" for p' j m'
  proof -
    have "j = i" using unix_invD(1) [OF assms(1)] assms(2,5) that by (auto simp: pipe_view_Some fds_distinct_def)
    with assms(2) that pipe_view_inj [of s p i fd m p' fd m'] show ?thesis by auto
  qed
  have view: "pipe_view s' p' = Some (j, x, m') \<and> m' AND k \<noteq> 0 \<and> registered s' p'
    \<longleftrightarrow> (if p' = p then j = i \<and> x = fd \<and> m' = m \<and> m AND k \<noteq> 0 \<and> b else pipe_view s p' = Some (j, x, m') \<and> m' AND k \<noteq> 0 \<and> registered s p')" for p' j x m'
    using assms(2) by (auto simp: assms(3,4))
  have "fd \<in> open_fds k s' \<longleftrightarrow> b \<and> m AND k \<noteq> 0" unfolding open_fds_def mem_Collect_eq view using own by (metis (full_types))
  moreover have "x \<in> open_fds k s' \<longleftrightarrow> x \<in> open_fds k s" if "x \<noteq> fd" for x
  proof -
    have "p' \<noteq> p" if "pipe_view s p' = Some (j, x, m')" for p' j m' using that assms(2) \<open>x \<noteq> fd\<close> by auto
    then show ?thesis unfolding open_fds_def mem_Collect_eq view using that by metis
  qed
  ultimately show ?thesis by (intro set_eqI) (metis Diff_iff insert_iff singleton_iff)
qed

lemma highest_scan:
  defines "F S n \<equiv> fold (\<lambda>i out. if i \<in> S then i + 1 else out) [0..int n - 1] (- 1 :: int)"
  shows "(\<forall>x \<in> S. 0 \<le> x \<longrightarrow> x < int n \<longrightarrow> x < F S n) \<and> (0 < F S n \<longrightarrow> F S n - 1 \<in> S)"
proof (induction n)
  case (Suc n)
  have "[0..int (Suc n) - 1] = [0..int n - 1] @ [int n]" using upto_rec2 [of 0 "int n"] by simp
  then have F: "F S (Suc n) = (if int n \<in> S then int n + 1 else F S n)" by (simp add: F_def)
  have "x < int n \<or> x = int n" if "x < int (Suc n)" for x using that by auto
  with Suc F show ?case by (metis add_diff_cancel_right' less_add_one order_less_trans)
qed (simp add: F_def)

lemma recalc_nfds_ok:
  assumes "rd \<union> wr \<subseteq> {0..<255}"
  shows "nfds_ok (rd \<union> wr) (recalc_nfds rd wr)"
proof -
  have "recalc_nfds rd wr = fold (\<lambda>i out. if i \<in> rd \<union> wr then i + 1 else out) [0..int 255 - 1] (- 1)" by (simp add: recalc_nfds_def)
  with highest_scan [of "rd \<union> wr" 255] assms show ?thesis unfolding nfds_ok_def by (metis atLeastLessThan_iff of_nat_numeral subsetD)
qed

lemma nfds_ok_insert: "nfds_ok S n \<Longrightarrow> nfds_ok (insert fd S) (max n (fd + 1))"
  unfolding nfds_ok_def by (metis add_diff_cancel_right' insert_iff less_add_one max.strict_coboundedI1 max.strict_coboundedI2 max_def)

lemma recalc_nfds_empty: "recalc_nfds {} {} = - 1"
proof -
  have "fold (\<lambda>i out. out) xs r = r" for xs :: "int list" and r :: int by (induction xs) auto
  then show ?thesis by (simp add: recalc_nfds_def)
qed

lemma mode_in_or_out: "m AND BATHOS_MODE_INPUT_OUTPUT \<noteq> 0 \<Longrightarrow> m AND BATHOS_MODE_INPUT \<noteq> 0 \<or> m AND BATHOS_MODE_OUTPUT \<noteq> 0"
proof -
  have "m AND BATHOS_MODE_INPUT_OUTPUT = (m AND BATHOS_MODE_INPUT) OR (m AND BATHOS_MODE_OUTPUT)"
    by (rule bit_eqI) (auto simp: BATHOS_MODE_INPUT_OUTPUT_def bit_simps)
  then show "m AND BATHOS_MODE_INPUT_OUTPUT \<noteq> 0 \<Longrightarrow> ?thesis" by auto
qed

lemma fd_in_open_fds:
  assumes "unix_inv s" "pipe_view s p = Some (i, fd, m)" "0 \<le> fd"
  shows "fd \<in> open_fds k s \<longleftrightarrow> m AND k \<noteq> 0 \<and> registered s p"
  using open_fds_registration [OF assms(1,2) refl _ assms(3), of "registered s p" k]
  by (simp split: if_splits) (metis Diff_iff insertI1)+

lemma unix_fdsets_range:
  assumes "unix_inv s"
  shows "rd_fdset s \<union> wr_fdset s \<subseteq> {0..<255}"
proof -
  have "fd \<in> {0..<255}" if "pipe_view s p = Some (i, fd, m)" for p i fd m
  proof -
    have "pipe_live s p" using pipe_view_not_live [of s p] that by force
    from unix_inv_view [OF assms this] that show ?thesis by auto
  qed
  then show ?thesis using unix_invD(3,4) [OF assms] by (auto simp: open_fds_def)
qed

lemma unix_inv_opened:
  assumes "unix_inv s" "ux_events s = Pipe_opened p # es"
  shows "\<exists>s'. unix_dispatch s = Some s' \<and> unix_inv s'"
proof -
  note h = unix_head_event [OF assms, of p, simplified]
  from unix_inv_view [OF assms(1) h(1)] obtain i fd m where
    v: "pipe_view s p = Some (i, fd, m)" "0 \<le> fd" "fd < 255" "m AND BATHOS_MODE_INPUT_OUTPUT \<noteq> 0" by metis
  define s' where "s' = s\<lparr>ux_events := es, wr_fdset := fd_set_if (m AND BATHOS_MODE_OUTPUT \<noteq> 0) fd (wr_fdset s),
    rd_fdset := fd_set_if (m AND BATHOS_MODE_INPUT \<noteq> 0) fd (rd_fdset s), ux_nfds := max (ux_nfds s) (fd + 1)\<rparr>"
  have d: "unix_dispatch s = Some s'" using with_pipe_fd_view [OF v(1-3)] assms(2) by (simp add: pipe_opened_handle_def s'_def)
  have live: "pipe_live s' p' = pipe_live s p'" and view: "pipe_view s' p' = pipe_view s p'" for p'
    by (intro pipe_view_cong; simp add: s'_def)+
  have evs: "events_of p' s = (if p' = p then Pipe_opened p # events_of p' s' else events_of p' s')" for p'
    using assms(2) by (simp add: events_of_def s'_def)
  have ev: "events_of p s' = [] \<or> events_of p s' = [Pipe_closed p, Pipe_really_closed p]"
    using h(2) by (auto simp: events_of_def s'_def event_phases_def)
  have reg: "registered s' p' = (if p' = p then True else registered s p')" for p' using ev evs [of p'] by (auto simp: registered_def)
  have no: "\<not> registered s p" using ev evs [of p] by (auto simp: registered_def)
  note fds = open_fds_registration [OF assms(1) v(1) view reg v(2)]
  have old: "fd \<notin> open_fds k s" for k
    using fd_in_open_fds [OF assms(1) v(1,2)] no by simp
  have "nfds_ok (rd_fdset s' \<union> wr_fdset s') (ux_nfds s')"
  proof -
    have "rd_fdset s' \<union> wr_fdset s' = insert fd (rd_fdset s \<union> wr_fdset s)" using mode_in_or_out [OF v(4)] by (auto simp: s'_def fd_set_if_def)
    with nfds_ok_insert [OF unix_invD(5) [OF assms(1)]] show ?thesis by (simp add: s'_def)
  qed
  moreover have "rd_fdset s' = open_fds BATHOS_MODE_INPUT s'" "wr_fdset s' = open_fds BATHOS_MODE_OUTPUT s'"
  proof -
    have "rd_fdset s' = fd_set_if (m AND BATHOS_MODE_INPUT \<noteq> 0) fd (rd_fdset s)" "wr_fdset s' = fd_set_if (m AND BATHOS_MODE_OUTPUT \<noteq> 0) fd (wr_fdset s)"
      by (simp_all add: s'_def)
    then show "rd_fdset s' = open_fds BATHOS_MODE_INPUT s'" "wr_fdset s' = open_fds BATHOS_MODE_OUTPUT s'"
      using unix_invD(3,4) [OF assms(1)] old by (simp_all add: fds fd_set_if_def)
  qed
  moreover have "pipe_ok s' p'" for p'
  proof (cases "p' = p")
    case True
    with h(1) ev v show ?thesis by (auto simp: pipe_ok_def live view event_phases_def)
  next
    case False
    with unix_invD(2) [OF assms(1), of p'] pipe_ok_cong [of s' p' s] evs [of p'] show ?thesis by (simp add: live view)
  qed
  moreover have "ux_priv s' = ux_priv s" by (simp add: s'_def)
  ultimately show ?thesis using d unix_invD(1) [OF assms(1)] by (auto intro!: unix_invI)
qed

lemma unix_closed_effect:
  assumes "unix_inv s" "ux_events s = Pipe_closed p # es"
  shows "\<exists>i fd m s'. pipe_view s p = Some (i, fd, m) \<and> unix_dispatch s = Some s' \<and> unix_inv s'
    \<and> rd_fdset s' = rd_fdset s - {fd} \<and> wr_fdset s' = wr_fdset s - {fd} \<and> fd \<in> rd_fdset s \<union> wr_fdset s
    \<and> ux_nfds s' = (if fd + 1 = ux_nfds s then recalc_nfds (rd_fdset s') (wr_fdset s') else ux_nfds s) \<and> ux_bathos_errno s' = ux_bathos_errno s"
proof -
  note h = unix_head_event [OF assms, of p, simplified]
  from unix_inv_view [OF assms(1) h(1)] obtain i fd m where
    v: "pipe_view s p = Some (i, fd, m)" "0 \<le> fd" "fd < 255" "m AND BATHOS_MODE_INPUT_OUTPUT \<noteq> 0" by metis
  let ?wr = "fd_clr_if (m AND BATHOS_MODE_OUTPUT \<noteq> 0) fd (wr_fdset s)"
  let ?rd = "fd_clr_if (m AND BATHOS_MODE_INPUT \<noteq> 0) fd (rd_fdset s)"
  define s' where "s' = s\<lparr>ux_events := es, wr_fdset := ?wr, rd_fdset := ?rd, ux_nfds := if fd + 1 = ux_nfds s then recalc_nfds ?rd ?wr else ux_nfds s\<rparr>"
  have d: "unix_dispatch s = Some s'" using with_pipe_fd_view [OF v(1-3)] assms(2) by (simp add: pipe_closed_handle_def s'_def Let_def)
  have live: "pipe_live s' p' = pipe_live s p'" and view: "pipe_view s' p' = pipe_view s p'" for p'
    by (intro pipe_view_cong; simp add: s'_def)+
  have evs: "events_of p' s = (if p' = p then Pipe_closed p # events_of p' s' else events_of p' s')" for p'
    using assms(2) by (simp add: events_of_def s'_def)
  have ev: "events_of p s' = [Pipe_really_closed p]" using h(2) by (auto simp: events_of_def s'_def event_phases_def)
  have reg: "registered s' p' = (if p' = p then False else registered s p')" for p' using ev evs [of p'] by (auto simp: registered_def)
  have was: "registered s p" using ev evs [of p] by (auto simp: registered_def)
  note fds = open_fds_registration [OF assms(1) v(1) view reg v(2)]
  have old: "fd \<in> open_fds k s \<longleftrightarrow> m AND k \<noteq> 0" for k
    using fd_in_open_fds [OF assms(1) v(1,2)] was by simp
  have sets: "rd_fdset s' = rd_fdset s - {fd}" "wr_fdset s' = wr_fdset s - {fd}"
    using unix_invD(3,4) [OF assms(1)] old by (auto simp: s'_def fd_clr_if_def)
  have fd: "fd \<in> rd_fdset s \<union> wr_fdset s" using unix_invD(3,4) [OF assms(1)] old mode_in_or_out [OF v(4)] by auto
  have "rd_fdset s \<union> wr_fdset s \<subseteq> {0..<255}"
    by (rule unix_fdsets_range [OF assms(1)])
  then have "nfds_ok (rd_fdset s' \<union> wr_fdset s') (recalc_nfds (rd_fdset s') (wr_fdset s'))"
    by (intro recalc_nfds_ok) (auto simp: sets)
  moreover have n: "ux_nfds s' = (if fd + 1 = ux_nfds s then recalc_nfds (rd_fdset s') (wr_fdset s') else ux_nfds s)"
    by (simp add: s'_def)
  moreover have "nfds_ok (rd_fdset s' \<union> wr_fdset s') (ux_nfds s)" if "fd + 1 \<noteq> ux_nfds s"
    using unix_invD(5) [OF assms(1)] that by (auto simp: nfds_ok_def sets)
  ultimately have "nfds_ok (rd_fdset s' \<union> wr_fdset s') (ux_nfds s')" by simp
  moreover have "rd_fdset s' = open_fds BATHOS_MODE_INPUT s'" "wr_fdset s' = open_fds BATHOS_MODE_OUTPUT s'"
    using unix_invD(3,4) [OF assms(1)] by (simp_all add: fds sets)
  moreover have "pipe_ok s' p'" for p'
  proof (cases "p' = p")
    case True
    with h(1) ev v show ?thesis by (auto simp: pipe_ok_def live view event_phases_def)
  next
    case False
    with unix_invD(2) [OF assms(1), of p'] pipe_ok_cong [of s' p' s] evs [of p'] show ?thesis by (simp add: live view)
  qed
  moreover have "ux_priv s' = ux_priv s" "ux_bathos_errno s' = ux_bathos_errno s" by (simp_all add: s'_def)
  ultimately show ?thesis using d v(1) sets n fd unix_invD(1) [OF assms(1)]
    by (intro exI [of _ i] exI [of _ fd] exI [of _ m] exI [of _ s']) (auto intro!: unix_invI)
qed

lemma unix_free_pipe_effect:
  assumes "pipe_view s p = Some (i, fd, m)"
  shows "\<exists>q a. ux_pipes s p = Some q \<and> up_dev q = Some a \<and> unix_free_pipe p (s\<lparr>ux_events := es\<rparr>) =
    Some (s\<lparr>ux_events := es, ux_priv := (ux_priv s)[i := (ux_priv s ! i)\<lparr>ux_fd := - 1\<rparr>], ux_devs := (ux_devs s)(a := None),
      ux_pipes := (ux_pipes s)(p \<mapsto> q\<lparr>up_dev := None\<rparr>)\<rparr>)"
proof -
  from assms obtain q a d where v: "ux_pipes s p = Some q" "up_dev q = Some a" "ux_devs s a = Some d" "ud_arch_priv d = Some i"
      "ud_pipes d = Pipes [p]"
    by (auto simp: pipe_view_Some)
  then show ?thesis
    by (intro exI [of _ q] exI [of _ a])
      (simp add: unix_free_pipe_def dev_pipes_of_def set_dev_pipes_of_def unix_close_def free_slot_def set_unix_fd_def BATHOS_UNIX_FREE_FD_def)
qed

lemma unix_inv_really_closed:
  assumes "unix_inv s" "ux_events s = Pipe_really_closed p # es"
  shows "\<exists>s'. unix_dispatch s = Some s' \<and> unix_inv s'"
proof -
  note h = unix_head_event [OF assms, of p, simplified]
  from unix_inv_view [OF assms(1) h(1)] obtain i fd m where v: "pipe_view s p = Some (i, fd, m)" "0 \<le> fd" by metis
  from unix_free_pipe_effect [OF v(1), of es] obtain q a where q: "ux_pipes s p = Some q" "up_dev q = Some a" by blast
  define s' where "s' = s\<lparr>ux_events := es, ux_priv := (ux_priv s)[i := (ux_priv s ! i)\<lparr>ux_fd := - 1\<rparr>], ux_devs := (ux_devs s)(a := None),
      ux_pipes := (ux_pipes s)(p \<mapsto> q\<lparr>up_dev := None\<rparr>)\<rparr>"
  have d: "unix_dispatch s = Some s'" using unix_free_pipe_effect [OF v(1), of es] q assms(2) by (auto simp: s'_def)
  have live: "pipe_live s' p' \<longleftrightarrow> p' \<noteq> p \<and> pipe_live s p'" for p' by (simp add: s'_def pipe_live_def)
  have view: "pipe_view s' p' = (if p' = p then None else pipe_view s p')" for p'
  proof (cases "p' \<noteq> p \<and> pipe_live s p'")
    case True
    then obtain j f m' where v': "pipe_view s p' = Some (j, f, m')" using unix_inv_view [OF assms(1), of p'] by metis
    then obtain q' a' d' where w: "ux_pipes s p' = Some q'" "up_dev q' = Some a'" "ux_devs s a' = Some d'" "ud_arch_priv d' = Some j"
        "j < length (ux_priv s)" "ud_pipes d' = Pipes [p']" "ux_pipe (ux_priv s ! j) = Some p'" "f = ux_fd (ux_priv s ! j)" "m' = up_mode q'"
      by (auto simp: pipe_view_Some)
    have "a' \<noteq> a" "j \<noteq> i" using v(1) q True w by (auto simp: pipe_view_Some)
    with w True have "pipe_view s' p' = Some (j, f, m')" by (simp add: pipe_view_Some s'_def)
    with v' True show ?thesis by simp
  qed (use live [of p'] in \<open>auto simp: pipe_view_not_live\<close>)
  have evs: "events_of p' s = (if p' = p then Pipe_really_closed p # events_of p' s' else events_of p' s')" for p'
    using assms(2) by (simp add: events_of_def s'_def)
  have ev: "events_of p s' = []" using h(2) by (auto simp: events_of_def s'_def event_phases_def)
  have "\<not> registered s p" using ev evs [of p] by (simp add: registered_def)
  moreover have "registered s' p' = registered s p'" if "p' \<noteq> p" for p' using evs [of p'] that by (simp add: registered_def)
  ultimately have fds: "open_fds k s' = open_fds k s" for k unfolding open_fds_def view by (intro Collect_cong ex_cong1) auto
  have "fds_distinct (ux_priv s')" using unix_invD(1) [OF assms(1)] by (auto simp: s'_def intro: fds_distinct_update)
  moreover have "pipe_ok s' p'" for p'
  proof (cases "p' = p")
    case True
    with ev show ?thesis by (simp add: pipe_ok_def live)
  next
    case False
    with unix_invD(2) [OF assms(1), of p'] pipe_ok_cong [of s' p' s] evs [of p'] show ?thesis by (simp add: live view)
  qed
  moreover have "rd_fdset s' = rd_fdset s" "wr_fdset s' = wr_fdset s" "ux_nfds s' = ux_nfds s" by (simp_all add: s'_def)
  ultimately show ?thesis using d unix_invD [OF assms(1)] fds by (intro exI [of _ s'] conjI unix_invI) simp_all
qed

lemma unix_inv_dispatch:
  assumes "unix_inv s"
  shows "\<exists>s'. unix_dispatch s = Some s' \<and> unix_inv s'"
proof (cases "ux_events s")
  case (Cons e es)
  with unix_inv_opened [OF assms] unix_closed_effect [OF assms] unix_inv_really_closed [OF assms] show ?thesis
    by (cases e) blast+
qed (use assms in simp)

lemma unix_inv_boot: "unix_inv unix_boot"
  by (intro unix_invI)
    (simp_all add: unix_boot_def fds_distinct_def pipe_ok_def pipe_live_def events_of_def open_fds_def pipe_view_def nfds_ok_def
      BATHOS_UNIX_FREE_FD_def)

lemma unix_inv_reachable: "unix_reachable s \<Longrightarrow> unix_inv s"
  unfolding unix_reachable_def
proof (induction rule: rtranclp_induct)
  case base
  show ?case by (rule unix_inv_boot)
next
  case (step s s')
  from step.hyps(2) show ?case
  proof cases
    case (step_open host p mem n mode r)
    with unix_pipe_open_effect [OF step_open] step.IH show ?thesis by (blast intro: unix_inv_open_fails unix_inv_open_works)
  next
    case (step_close p r)
    with step.IH show ?thesis by (blast intro: unix_inv_close)
  next
    case step_dispatch
    with unix_inv_dispatch [OF step.IH] show ?thesis by auto
  qed
qed

section \<open>The idle function\<close>

text \<open>The pipe and the device a registered descriptor belongs to.\<close>

lemma unix_fd_owner:
  assumes "unix_inv s" "fd \<in> rd_fdset s"
  shows "\<exists>p q a. unix_fd_to_pipe fd s = Some p \<and> ux_pipes s p = Some q \<and> up_dev q = Some a \<and> ux_devs s a \<noteq> None
    \<and> up_mode q AND BATHOS_MODE_INPUT \<noteq> 0 \<and> dev_pipes_of a s = Pipes [p] \<and> registered s p"
proof -
  from assms(2) unix_invD(3) [OF assms(1)] obtain p i m where
    v: "pipe_view s p = Some (i, fd, m)" "m AND BATHOS_MODE_INPUT \<noteq> 0" "registered s p" by (auto simp: open_fds_def)
  have "0 \<le> fd" using unix_fdsets_range [OF assms(1)] assms(2) by auto
  with v(1) unix_invD(1) [OF assms(1)] have "unix_fd_to_pipe fd s = Some p"
    using slot_with_fd_eq [of s i] by (auto simp: unix_fd_to_pipe_def pipe_view_Some)
  with v show ?thesis by (auto simp: pipe_view_Some dev_pipes_of_def)
qed

text \<open>What is triggered for a ready descriptor.\<close>

definition ready_outputs :: "unix_sys \<Rightarrow> int \<Rightarrow> idle_output list" where
  "ready_outputs s fd = concat [if up_mode q AND BATHOS_MODE_OUTPUT \<noteq> 0 then [Input_ready a, Output_ready a] else [Input_ready a].
     p \<leftarrow> (case unix_fd_to_pipe fd s of None \<Rightarrow> [] | Some p \<Rightarrow> [p]), q \<leftarrow> (case ux_pipes s p of None \<Rightarrow> [] | Some q \<Rightarrow> [q]),
     a \<leftarrow> (case up_dev q of None \<Rightarrow> [] | Some a \<Rightarrow> [a])]"

lemma idle_scan_ready:
  assumes "unix_inv s" "R \<subseteq> rd_fdset s"
  shows "idle_scan fds R s = Some (concat (map (ready_outputs s) (filter (\<lambda>fd. fd \<in> R) fds)))"
proof (induction fds)
  case (Cons fd fds)
  show ?case
  proof (cases "fd \<in> R")
    case True
    with assms(2) have "fd \<in> rd_fdset s" by blast
    from unix_fd_owner [OF assms(1) this] Cons True show ?thesis
      by (auto simp: trigger_event_for_pipe_def ready_outputs_def)
  qed (use Cons in simp)
qed simp

lemma filter_upto_sorted_list:
  assumes "R \<subseteq> {0..<n :: int}"
  shows "filter (\<lambda>x. x \<in> R) [0..n - 1] = sorted_list_of_set R"
proof -
  have "finite R" using assms finite_atLeastLessThan_int finite_subset by blast
  with assms show ?thesis by (intro sorted_distinct_set_unique) (auto intro!: sorted_wrt_filter)
qed

text \<open>
  Pipes on a Unix host, whatever is opened, closed and handled in whatever order under the assumptions on the environment above: no handler uses a freed device or a descriptor out of
  range; the descriptors that are watched are those of the open pipes, each of a single pipe that is the only one of its device; and an idle round in which some of
  them are ready triggers the events of exactly their pipes, lowest descriptor first.
\<close>
theorem unix_idle_serves:
  assumes "unix_reachable s"
  shows "(\<exists>s'. unix_dispatch s = Some s')
    \<and> (\<forall>fd \<in> rd_fdset s. \<exists>p q a. unix_fd_to_pipe fd s = Some p \<and> ux_pipes s p = Some q \<and> up_dev q = Some a \<and> registered s p
         \<and> dev_pipes_of a s = Pipes [p] \<and> ready_outputs s fd = (if up_mode q AND BATHOS_MODE_OUTPUT \<noteq> 0 then [Input_ready a, Output_ready a] else [Input_ready a]))
    \<and> (\<forall>select R. select (ux_nfds s) (rd_fdset s) = Sel_ready R \<and> R \<subseteq> rd_fdset s
         \<longrightarrow> unix_idle select s = Some (concat (map (ready_outputs s) (sorted_list_of_set R))))"
proof -
  note inv = unix_inv_reachable [OF assms]
  have "\<exists>p q a. unix_fd_to_pipe fd s = Some p \<and> ux_pipes s p = Some q \<and> up_dev q = Some a \<and> registered s p
      \<and> dev_pipes_of a s = Pipes [p] \<and> ready_outputs s fd = (if up_mode q AND BATHOS_MODE_OUTPUT \<noteq> 0 then [Input_ready a, Output_ready a] else [Input_ready a])"
    if "fd \<in> rd_fdset s" for fd
    using unix_fd_owner [OF inv that] by (auto simp: ready_outputs_def)
  moreover have "unix_idle select s = Some (concat (map (ready_outputs s) (sorted_list_of_set R)))"
    if "select (ux_nfds s) (rd_fdset s) = Sel_ready R" "R \<subseteq> rd_fdset s" for select R
  proof -
    have "R \<subseteq> {0..<ux_nfds s}"
      using that(2) unix_fdsets_range [OF inv] unix_invD(5) [OF inv] by (fastforce simp: nfds_ok_def)
    then show ?thesis using that idle_scan_ready [OF inv that(2)] filter_upto_sorted_list by (simp add: unix_idle_def)
  qed
  ultimately show ?thesis using unix_inv_dispatch [OF inv] by blast
qed

text \<open>
  C40. When the last watched pipe is closed, in a run of the kind above, the number of descriptors becomes -1. A host that refuses a negative number, as \<^verbatim>\<open>select\<close> does,
  then never reports a timeout: the idle function triggers no clock tick any more, and all timers stand still until a pipe is opened.
\<close>
theorem unix_last_close_stops_clock:
  assumes "unix_reachable s" "ux_events s = Pipe_closed p # es" "rd_fdset s \<union> wr_fdset s = {x}"
  shows "\<exists>s'. unix_dispatch s = Some s' \<and> ux_nfds s' = - 1
    \<and> (\<forall>select. (\<forall>n R. n < 0 \<longrightarrow> select n R = Sel_error) \<longrightarrow> (\<exists>out. unix_idle select s' = Some out \<and> Hw_timer_tick \<notin> set out))"
proof -
  note inv = unix_inv_reachable [OF assms(1)]
  from unix_closed_effect [OF inv assms(2)] obtain i fd m s' where
    s': "pipe_view s p = Some (i, fd, m)" "unix_dispatch s = Some s'" "rd_fdset s' = rd_fdset s - {fd}" "wr_fdset s' = wr_fdset s - {fd}"
      "fd \<in> rd_fdset s \<union> wr_fdset s" "ux_nfds s' = (if fd + 1 = ux_nfds s then recalc_nfds (rd_fdset s') (wr_fdset s') else ux_nfds s)"
    by blast
  then have all: "rd_fdset s \<union> wr_fdset s = {fd}" using assms(3) by auto
  have "0 \<le> fd" using unix_fdsets_range [OF inv] all by auto
  with all unix_invD(5) [OF inv] have "ux_nfds s = fd + 1" by (auto simp: nfds_ok_def)
  moreover have "rd_fdset s' = {}" "wr_fdset s' = {}" using all s'(3,4) by auto
  ultimately have "ux_nfds s' = - 1" using s'(6) by (simp add: recalc_nfds_empty)
  with s'(2) show ?thesis by (auto simp: unix_idle_def)
qed

definition demo_open :: unix_sys where
  "demo_open = snd (the (unix_pipe_open (\<lambda>n m. Inr 3) (Some 0) (Some (7, True)) ''tty'' 3 unix_boot))"

definition demo_watched :: unix_sys where
  "demo_watched = the (unix_dispatch demo_open)"

definition demo_closing :: unix_sys where
  "demo_closing = snd (the (unix_pipe_close 0 demo_watched))"

lemma demo_facts:
  "unix_pipe_open (\<lambda>n m. Inr 3) (Some 0) (Some (7, True)) ''tty'' 3 unix_boot \<noteq> None"
  "rd_fdset demo_watched = {3}" "ux_nfds demo_watched = 4" "ready_outputs demo_watched 3 = [Input_ready 7, Output_ready 7]" 
  "ux_events demo_watched = []" "ux_events demo_closing = [Pipe_closed 0, Pipe_really_closed 0]"
  "rd_fdset demo_closing \<union> wr_fdset demo_closing = {3}"
  by code_simp+

lemma demo_reachable: "unix_reachable demo_watched" "unix_reachable demo_closing"
proof -
  have "fresh_answers (\<lambda>n m. Inr 3) 0 (Some (7, True)) ''tty'' unix_boot"
    by (simp add: fresh_answers_def unix_open_fd_def unix_boot_def UX_EVENTS_def BATHOS_UNIX_FREE_FD_def MAX_BATHOS_PIPES_def)
  moreover have "unix_pipe_open (\<lambda>n m. Inr 3) (Some 0) (Some (7, True)) ''tty'' 3 unix_boot
      = Some (fst (the (unix_pipe_open (\<lambda>n m. Inr 3) (Some 0) (Some (7, True)) ''tty'' 3 unix_boot)), demo_open)"
    using demo_facts(1) by (auto simp: demo_open_def)
  ultimately have "unix_step unix_boot demo_open" by (rule step_open)
  then have o: "unix_reachable demo_open" by (simp add: unix_reachable_def)
  with unix_inv_dispatch [OF unix_inv_reachable] have "unix_step demo_open demo_watched"
    unfolding demo_watched_def by (metis option.sel step_dispatch)
  with o show w: "unix_reachable demo_watched" unfolding unix_reachable_def by (rule rtranclp.rtrancl_into_rtrancl)
  have "unix_pipe_close 0 demo_watched \<noteq> None" by code_simp
  then have "unix_pipe_close 0 demo_watched = Some (fst (the (unix_pipe_close 0 demo_watched)), demo_closing)" by (auto simp: demo_closing_def)
  then have "unix_step demo_watched demo_closing" by (rule step_close [rotated 3]) (simp_all add: demo_facts UX_EVENTS_def)
  with w show "unix_reachable demo_closing" unfolding unix_reachable_def by (rule rtranclp.rtrancl_into_rtrancl)
qed

theorem unix_idle_serves_witness:
  "unix_reachable demo_watched \<and> unix_idle (\<lambda>n R. Sel_ready {3}) demo_watched = Some [Input_ready 7, Output_ready 7]"
proof -
  have "unix_idle (\<lambda>n R. Sel_ready {3}) demo_watched = Some (concat (map (ready_outputs demo_watched) (sorted_list_of_set {3})))"
    using unix_idle_serves [OF demo_reachable(1), THEN conjunct2, THEN conjunct2, rule_format, of "\<lambda>n R. Sel_ready {3}" "{3}"] demo_facts(2) by simp
  then show ?thesis using demo_reachable(1) demo_facts(4) by simp
qed

theorem unix_last_close_stops_clock_witness:
  "\<exists>s'. unix_dispatch demo_closing = Some s' \<and> ux_nfds s' = - 1 \<and> (\<exists>out. unix_idle (\<lambda>n R. if n < 0 then Sel_error else Sel_timeout) s' = Some out \<and> Hw_timer_tick \<notin> set out)"
  using unix_last_close_stops_clock [OF demo_reachable(2) demo_facts(6,7)] by auto

text \<open>Memory of a device that is not cleared: the pipe is never opened in a defined way.\<close>

lemma unix_open_uncleared:
  assumes "unix_pipe_open host (Some p) (Some (a, False)) n mode s = Some (r, s')"
  shows "r = None"
  using assms
  by (auto simp: unix_pipe_open_def bathos_arch_find_dev_def find_free_slot_def init_dev_pipes_def dev_pipes_of_def unix_open_def
      set_unix_fd_def Let_def split: if_splits option.splits prod.splits)

text \<open>A pipe with neither direction is refused, and its slot stays reserved.\<close>

lemma unix_open_leaks_slot:
  assumes "slot_with_fd BATHOS_UNIX_FREE_FD s = Some i" "mode AND BATHOS_MODE_INPUT_OUTPUT = 0" "mode \<noteq> 0"
  shows "\<exists>s'. unix_pipe_open host (Some p) (Some (a, True)) n mode s = Some (None, s') \<and> ux_fd (ux_priv s' ! i) = BATHOS_UNIX_RESERVED_FD"
  using assms slot_with_fd_Some [OF assms(1)] unix_open_mode_None [of mode]
  by (simp add: unix_pipe_open_def bathos_arch_find_dev_def find_free_slot_def init_dev_pipes_def dev_pipes_of_def set_dev_pipes_of_def
      unix_open_def set_unix_fd_def EPERM_def)

end
