(* ===== verification/Uarts.thy ===== *)
theory Uarts
  imports Dev
begin

text \<open>
  The drivers of the serial lines: \<^verbatim>\<open>drivers/pl011-uart.c\<close>, \<^verbatim>\<open>freescale-uart.c\<close>, \<^verbatim>\<open>stm32f4x-uart.c\<close>, \<^verbatim>\<open>nrf5x-uart.c\<close>,
  \<^verbatim>\<open>esp8266-uart.c\<close> and \<^verbatim>\<open>arch-atmega/uart.c\<close>, which give \<^verbatim>\<open>drivers/dev.c\<close> (\<open>Dev\<close>) its low level operations.

  The chip and the rest of the system are the record \<open>uart_bus\<close>: registers of 32 and of 8 bits, the interrupt lines, the pins, power and clock, the
  allocator, and handing characters to the device layer. A wait for the chip may last forever: the result is then \<open>None\<close>.
\<close>

section \<open>What the drivers use\<close>

record 'w uart_bus =
  ub_readl :: "u32 \<Rightarrow> 'w \<Rightarrow> u32 \<times> 'w"
  ub_writel :: "u32 \<Rightarrow> u32 \<Rightarrow> 'w \<Rightarrow> 'w"
  ub_readb :: "u32 \<Rightarrow> 'w \<Rightarrow> u8 \<times> 'w"
  ub_writeb :: "u32 \<Rightarrow> u8 \<Rightarrow> 'w \<Rightarrow> 'w"
  ub_enable_irq :: "int \<Rightarrow> bool \<Rightarrow> 'w \<Rightarrow> 'w"
  ub_gpio_dir_af :: "u8 \<Rightarrow> int \<Rightarrow> int \<Rightarrow> int \<Rightarrow> 'w \<Rightarrow> 'w"
  ub_alloc :: "'w \<Rightarrow> bool \<times> 'w"
  ub_free :: "'w \<Rightarrow> 'w"
  ub_dev_init :: "'w \<Rightarrow> bool \<times> 'w"
  ub_push :: "u8 list \<Rightarrow> 'w \<Rightarrow> 'w"

text \<open>
  The platform data, with the fields the drivers use. \<open>pd_power\<close> is \<^verbatim>\<open>power\<close>, \<open>None\<close> when it is not there; for the STM32F4x it is
  the call of \<^verbatim>\<open>stm32f4x_enable_peripheral_clock\<close>, and for the ESP8266 \<^verbatim>\<open>pin_setup\<close>. The Freescale chip has one \<^verbatim>\<open>afnum\<close> for both pins,
  here \<open>pd_rx_af\<close>.
\<close>

record 'w uart_plat =
  pd_base :: u32
  pd_irq :: int
  pd_clock :: u32
  pd_rx_pin :: u8
  pd_tx_pin :: u8
  pd_rx_af :: int
  pd_tx_af :: int
  pd_power :: "('w \<Rightarrow> int \<times> 'w) option"
  pd_rx_fifo_threshold :: u32

type_synonym 'w act = "'w \<Rightarrow> int \<times> 'w"

definition rmwl :: "'w uart_bus \<Rightarrow> u32 \<Rightarrow> (u32 \<Rightarrow> u32) \<Rightarrow> 'w \<Rightarrow> 'w" where
  "rmwl B r f w = (let (v, w) = ub_readl B r w in ub_writel B r (f v) w)"

definition rmwb :: "'w uart_bus \<Rightarrow> u32 \<Rightarrow> (u8 \<Rightarrow> u8) \<Rightarrow> 'w \<Rightarrow> 'w" where
  "rmwb B r f w = (let (v, w) = ub_readb B r w in ub_writeb B r (f v) w)"

partial_function (option) waitl :: "'w uart_bus \<Rightarrow> u32 \<Rightarrow> (u32 \<Rightarrow> bool) \<Rightarrow> 'w \<Rightarrow> 'w option" where
  "waitl B r f w = (let (v, w) = ub_readl B r w in if f v then Some w else waitl B r f w)"

partial_function (option) waitb :: "'w uart_bus \<Rightarrow> u32 \<Rightarrow> (u8 \<Rightarrow> bool) \<Rightarrow> 'w \<Rightarrow> 'w option" where
  "waitb B r f w = (let (v, w) = ub_readb B r w in if f v then Some w else waitb B r f w)"

section \<open>PL011\<close>

text \<open>Registers are indexed in words, so every offset is divided by 4; the model keeps byte addresses.\<close>

definition pl011_uart_rx_enable :: "'w uart_bus \<Rightarrow> 'w uart_plat \<Rightarrow> 'w act" where
  "pl011_uart_rx_enable B p w =
     (let w = ub_enable_irq B (pd_irq p) True w;
          w = rmwl B (pd_base p + 0x30) (\<lambda>v. v OR 0x200) w;
          w = rmwl B (pd_base p + 0x38) (\<lambda>v. v OR 0x10) w
      in (0, w))"

definition pl011_uart_tx_enable :: "'w uart_bus \<Rightarrow> 'w uart_plat \<Rightarrow> 'w act" where
  "pl011_uart_tx_enable B p w = (0, rmwl B (pd_base p + 0x30) (\<lambda>v. v OR 0x100) w)"

definition pl011_uart_rx_disable :: "'w uart_bus \<Rightarrow> 'w uart_plat \<Rightarrow> 'w act" where
  "pl011_uart_rx_disable B p w =
     (let w = rmwl B (pd_base p + 0x30) (\<lambda>v. v OR 0x200) w;
          w = rmwl B (pd_base p + 0x38) (\<lambda>v. v AND NOT 0x10) w
      in (0, ub_enable_irq B (pd_irq p) False w))"

definition pl011_uart_tx_disable :: "'w uart_bus \<Rightarrow> 'w uart_plat \<Rightarrow> 'w act" where
  "pl011_uart_tx_disable B p w = (0, rmwl B (pd_base p + 0x30) (\<lambda>v. v AND NOT 0x100) w)"

definition pl011_uart_console_putc :: "'w uart_bus \<Rightarrow> u32 \<Rightarrow> u8 \<Rightarrow> 'w \<Rightarrow> 'w option" where
  "pl011_uart_console_putc B base c w = map_option (ub_writel B base (ucast c)) (waitl B (base + 0x18) (\<lambda>v. v AND 0x08 = 0) w)"

definition pl011_uart_putc :: "'w uart_bus \<Rightarrow> 'w uart_plat \<Rightarrow> u8 \<Rightarrow> 'w \<Rightarrow> (int \<times> 'w) option" where
  "pl011_uart_putc B p c w = map_option (Pair 1) (pl011_uart_console_putc B (pd_base p) c w)"

definition pl011_uart_irq_handler :: "'w uart_bus \<Rightarrow> 'w uart_plat \<Rightarrow> 'w \<Rightarrow> 'w" where
  "pl011_uart_irq_handler B p w =
     (let (s1, w) = ub_readl B (pd_base p + 0x40) w
      in if s1 AND 0x10 = 0 then w
         else let (c, w) = ub_readl B (pd_base p) w in ub_push B [ucast c] w)"

text \<open>\<^verbatim>\<open>pl011_uart_set_baudrate\<close> computes a divisor and does not use it.\<close>

definition pl011_uart_set_baudrate :: int where "pl011_uart_set_baudrate = 0"

definition uart_power :: "'w uart_plat \<Rightarrow> 'w act" where
  "uart_power p w = (case pd_power p of None \<Rightarrow> (0, w) | Some f \<Rightarrow> f w)"

definition pl011_uart_hw_init :: "'w uart_bus \<Rightarrow> 'w uart_plat \<Rightarrow> bool \<Rightarrow> bool \<Rightarrow> 'w act" where
  "pl011_uart_hw_init B p enable_rx enable_tx w =
     (let (ret, w) = uart_power p w
      in if ret < 0 then (ret, w)
         else
           let ret = pl011_uart_set_baudrate;
               w = (if enable_tx then rmwl B (pd_base p + 0x30) (\<lambda>v. v OR 0x100) w else w);
               w = (if enable_rx then rmwl B (pd_base p + 0x38) (\<lambda>v. v OR 0x10) (rmwl B (pd_base p + 0x30) (\<lambda>v. v OR 0x200) w) else w)
           in (ret, w))"

definition pl011_uart_console_init :: "'w uart_bus \<Rightarrow> 'w uart_plat \<Rightarrow> 'w act" where
  "pl011_uart_console_init B p w =
     (let (ret, w) = pl011_uart_hw_init B p False True w
      in if ret < 0 then (ret, w) else (ret, rmwl B (pd_base p + 0x30) (\<lambda>v. v OR 0x100) w))"

text \<open>
  The initialisation all drivers share: platform data, private data, hardware, device data. The flag \<open>frees\<close> tells whether the private data
  is given back when the hardware fails, and \<open>e\<close> is the error for missing device data.
\<close>

definition uart_init_with :: "'w uart_bus \<Rightarrow> bool \<Rightarrow> int \<Rightarrow> ('w uart_plat \<Rightarrow> 'w act) \<Rightarrow> 'w uart_plat option \<Rightarrow> 'w act" where
  "uart_init_with B frees e hw_init plat w =
     (case plat of
        None \<Rightarrow> (- EINVAL, w)
      | Some p \<Rightarrow>
          let (ok, w) = ub_alloc B w
          in if \<not> ok then (- ENOMEM, w)
             else
               let (ret, w) = hw_init p w
               in if ret < 0 then (ret, if frees then ub_free B w else w)
                  else
                    let (ok, w) = ub_dev_init B w
                    in if ok then (0, w) else (- e, ub_free B w))"

definition pl011_uart_init :: "'w uart_bus \<Rightarrow> 'w uart_plat option \<Rightarrow> 'w act" where
  "pl011_uart_init B = uart_init_with B True ENODEV (\<lambda>p. pl011_uart_hw_init B p False False)"

definition uart_open_with :: "'w act \<Rightarrow> 'w act \<Rightarrow> 'w act" where
  "uart_open_with init dev_open w = (let (stat, w) = init w in if stat \<noteq> 0 then (stat, w) else dev_open w)"

definition pl011_uart_open :: "'w uart_bus \<Rightarrow> 'w uart_plat option \<Rightarrow> 'w act \<Rightarrow> 'w act" where
  "pl011_uart_open B plat = uart_open_with (pl011_uart_init B plat)"

section \<open>Freescale\<close>

definition freescale_uart_rx_enable :: "'w uart_bus \<Rightarrow> 'w uart_plat \<Rightarrow> 'w act" where
  "freescale_uart_rx_enable B p w = (0, rmwb B (pd_base p + 3) (\<lambda>v. v OR (0x20 OR 0x04)) (ub_enable_irq B (pd_irq p) True w))"

definition freescale_uart_tx_enable :: "'w uart_bus \<Rightarrow> 'w uart_plat \<Rightarrow> 'w act" where
  "freescale_uart_tx_enable B p w = (0, rmwb B (pd_base p + 3) (\<lambda>v. v OR 0x08) w)"

definition freescale_uart_rx_disable :: "'w uart_bus \<Rightarrow> 'w uart_plat \<Rightarrow> 'w act" where
  "freescale_uart_rx_disable B p w = (0, ub_enable_irq B (pd_irq p) False (rmwb B (pd_base p + 3) (\<lambda>v. v AND NOT (0x20 OR 0x04)) w))"

definition freescale_uart_tx_disable :: "'w uart_bus \<Rightarrow> 'w uart_plat \<Rightarrow> 'w act" where
  "freescale_uart_tx_disable B p w = (0, rmwb B (pd_base p + 3) (\<lambda>v. v AND NOT 0x08) w)"

definition freescale_uart_console_putc :: "'w uart_bus \<Rightarrow> u32 \<Rightarrow> u8 \<Rightarrow> 'w \<Rightarrow> 'w option" where
  "freescale_uart_console_putc B base c w = map_option (ub_writeb B (base + 7) c) (waitb B (base + 4) (\<lambda>v. v AND 0x80 \<noteq> 0) w)"

definition freescale_uart_putc :: "'w uart_bus \<Rightarrow> 'w uart_plat \<Rightarrow> u8 \<Rightarrow> 'w \<Rightarrow> (int \<times> 'w) option" where
  "freescale_uart_putc B p c w = map_option (Pair 1) (freescale_uart_console_putc B (pd_base p) c w)"

definition freescale_uart_irq_handler :: "'w uart_bus \<Rightarrow> 'w uart_plat \<Rightarrow> 'w \<Rightarrow> 'w" where
  "freescale_uart_irq_handler B p w =
     (let (s1, w) = ub_readb B (pd_base p + 4) w
      in if s1 AND 0x20 = 0 then w
         else let (c, w) = ub_readb B (pd_base p + 7) w in ub_push B [c] w)"

definition freescale_uart_set_baudrate :: "'w uart_bus \<Rightarrow> u32 \<Rightarrow> u32 \<Rightarrow> u32 \<Rightarrow> 'w act" where
  "freescale_uart_set_baudrate B base clock baud w =
     (let bd = word_of_int (if sint clock < 0 then - (- sint clock div 16) else sint clock div 16) div baud;
          w = rmwb B base (\<lambda>v. v AND NOT 0x1f) w;
          w = rmwb B base (\<lambda>v. v OR (ucast (drop_bit 8 bd) AND 0x1f)) w
      in (0, ub_writeb B (base + 1) (ucast bd) w))"

definition freescale_uart_hw_init :: "'w uart_bus \<Rightarrow> 'w uart_plat \<Rightarrow> bool \<Rightarrow> bool \<Rightarrow> 'w act" where
  "freescale_uart_hw_init B p enable_rx enable_tx w =
     (let (ret, w) = uart_power p w
      in if ret < 0 then (ret, w)
         else
           let w = ub_gpio_dir_af B (pd_rx_pin p) 0 1 (pd_rx_af p) w;
               w = ub_gpio_dir_af B (pd_tx_pin p) 1 1 (pd_rx_af p) w;
               (ret, w) = freescale_uart_set_baudrate B (pd_base p) (pd_clock p) 115200 w;
               w = (if enable_tx then rmwb B (pd_base p + 3) (\<lambda>v. v OR 0x08) w else w);
               w = (if enable_rx then rmwb B (pd_base p + 3) (\<lambda>v. v OR (0x20 OR 0x04)) w else w)
           in (ret, w))"

definition freescale_uart_console_init :: "'w uart_bus \<Rightarrow> 'w uart_plat \<Rightarrow> 'w act" where
  "freescale_uart_console_init B p = freescale_uart_hw_init B p False True"

definition freescale_uart_init :: "'w uart_bus \<Rightarrow> 'w uart_plat option \<Rightarrow> 'w act" where
  "freescale_uart_init B = uart_init_with B True ENODEV (\<lambda>p. freescale_uart_hw_init B p False False)"

definition freescale_uart_open :: "'w uart_bus \<Rightarrow> 'w uart_plat option \<Rightarrow> 'w act \<Rightarrow> 'w act" where
  "freescale_uart_open B plat = uart_open_with (freescale_uart_init B plat)"

section \<open>STM32F4x\<close>

definition stm32f4x_uart_rx_enable :: "'w uart_bus \<Rightarrow> 'w uart_plat \<Rightarrow> 'w act" where
  "stm32f4x_uart_rx_enable B p w = (0, ub_enable_irq B (pd_irq p) True (rmwl B (pd_base p + 0xc) (\<lambda>v. v OR (0x04 OR 0x20)) w))"

definition stm32f4x_uart_tx_enable :: "'w uart_bus \<Rightarrow> 'w uart_plat \<Rightarrow> 'w act" where
  "stm32f4x_uart_tx_enable B p w = (0, rmwl B (pd_base p + 0xc) (\<lambda>v. v OR 0x08) w)"

definition stm32f4x_uart_rx_disable :: "'w uart_bus \<Rightarrow> 'w uart_plat \<Rightarrow> 'w act" where
  "stm32f4x_uart_rx_disable B p w = (0, ub_enable_irq B (pd_irq p) False (rmwl B (pd_base p + 0xc) (\<lambda>v. v AND NOT (0x04 OR 0x20)) w))"

definition stm32f4x_uart_tx_disable :: "'w uart_bus \<Rightarrow> 'w uart_plat \<Rightarrow> 'w act" where
  "stm32f4x_uart_tx_disable B p w = (0, rmwl B (pd_base p + 0xc) (\<lambda>v. v AND NOT 0x08) w)"

definition stm32_sync_putc :: "'w uart_bus \<Rightarrow> u32 \<Rightarrow> u8 \<Rightarrow> 'w \<Rightarrow> (int \<times> 'w) option" where
  "stm32_sync_putc B base c w =
     map_option (\<lambda>w. (1, ub_writel B (base + 4) (ucast c) w)) (waitl B base (\<lambda>v. v AND 0x80 \<noteq> 0) w)"

definition stm32f4x_uart_putc :: "'w uart_bus \<Rightarrow> 'w uart_plat \<Rightarrow> u8 \<Rightarrow> 'w \<Rightarrow> (int \<times> 'w) option" where
  "stm32f4x_uart_putc B p c w = stm32_sync_putc B (pd_base p) c w"

definition stm32f4x_uart_irq_handler :: "'w uart_bus \<Rightarrow> 'w uart_plat \<Rightarrow> 'w \<Rightarrow> 'w" where
  "stm32f4x_uart_irq_handler B p w = (let (c, w) = ub_readl B (pd_base p + 4) w in ub_push B [ucast c] w)"

text \<open>16 samples per bit; the divisor has four bits of fraction.\<close>

definition stm32_brr :: "u32 \<Rightarrow> u32 \<Rightarrow> u32" where
  "stm32_brr clock baud =
     (let tmp = drop_bit 4 clock * 100 div baud;
          div_fraction = push_bit 4 (tmp mod 100) div 100;
          div_mantissa = tmp div 100
      in div_fraction OR push_bit 4 div_mantissa)"

definition stm32f4x_uart_set_baudrate :: "'w uart_bus \<Rightarrow> 'w uart_plat \<Rightarrow> u32 \<Rightarrow> 'w act" where
  "stm32f4x_uart_set_baudrate B p baud w = (0, ub_writel B (pd_base p + 8) (stm32_brr (pd_clock p) baud) w)"

definition stm32f4x_uart_hw_init :: "'w uart_bus \<Rightarrow> 'w uart_plat \<Rightarrow> 'w act" where
  "stm32f4x_uart_hw_init B p w =
     (let (ret, w) = uart_power p w
      in if ret < 0 then (ret, w)
         else
           let w = ub_gpio_dir_af B (pd_rx_pin p) 0 1 (pd_rx_af p) w;
               w = ub_gpio_dir_af B (pd_tx_pin p) 1 1 (pd_tx_af p) w;
               w = snd (stm32f4x_uart_set_baudrate B p 115200 w)
           in (0, ub_writel B (pd_base p + 0xc) 0x2000 w))"

definition stm32f4x_uart_init :: "'w uart_bus \<Rightarrow> 'w uart_plat option \<Rightarrow> 'w act" where
  "stm32f4x_uart_init B = uart_init_with B False ENOMEM (stm32f4x_uart_hw_init B)"

definition stm32f4x_uart_console_init :: "'w uart_bus \<Rightarrow> 'w uart_plat \<Rightarrow> 'w act" where
  "stm32f4x_uart_console_init B p w = (let (ret, w) = stm32f4x_uart_hw_init B p w in if ret < 0 then (ret, w) else stm32f4x_uart_tx_enable B p w)"

definition stm32f4x_uart_console_putc :: "'w uart_bus \<Rightarrow> 'w uart_plat \<Rightarrow> u8 \<Rightarrow> 'w \<Rightarrow> 'w option" where
  "stm32f4x_uart_console_putc B p c w = map_option snd (stm32_sync_putc B (pd_base p) c w)"

text \<open>
  The open passes the device where the initialisation expects the pipe, so \<open>plat\<close> is the platform data found through the wrong pointer, not that of the device.
\<close>

definition stm32f4x_uart_open :: "'w uart_bus \<Rightarrow> 'w uart_plat option \<Rightarrow> 'w act \<Rightarrow> 'w act" where
  "stm32f4x_uart_open B plat = uart_open_with (stm32f4x_uart_init B plat)"

section \<open>nRF5x\<close>

definition nrf5x_uart_rx_enable :: "'w uart_bus \<Rightarrow> 'w uart_plat \<Rightarrow> 'w act" where
  "nrf5x_uart_rx_enable B p w =
     (let w = ub_writel B (pd_base p + 0x304) (0x04 OR 0x200) w;
          w = ub_writel B (pd_base p) 1 w
      in (0, ub_enable_irq B (pd_irq p) True w))"

definition nrf5x_uart_tx_enable :: "'w act" where "nrf5x_uart_tx_enable w = (0, w)"

definition nrf5x_uart_rx_disable :: "'w uart_bus \<Rightarrow> 'w uart_plat \<Rightarrow> 'w act" where
  "nrf5x_uart_rx_disable B p w =
     (let w = ub_writel B (pd_base p + 0x04) 1 w;
          w = ub_writel B (pd_base p + 0x308) 0x04 w
      in (0, ub_enable_irq B (pd_irq p) False w))"

definition nrf5x_uart_tx_disable :: "'w uart_bus \<Rightarrow> 'w uart_plat \<Rightarrow> 'w act" where
  "nrf5x_uart_tx_disable B p w = (0, ub_writel B (pd_base p + 0x0c) 1 w)"

definition nrf5x_console_putc :: "'w uart_bus \<Rightarrow> 'w uart_plat \<Rightarrow> u8 \<Rightarrow> 'w \<Rightarrow> (int \<times> 'w) option" where
  "nrf5x_console_putc B p c w =
     (let w = ub_writel B (pd_base p + 0x08) 1 w;
          w = ub_writel B (pd_base p + 0x51c) (ucast c) w
      in map_option (\<lambda>w. (1, ub_writel B (pd_base p + 0x11c) 0 w)) (waitl B (pd_base p + 0x11c) (\<lambda>v. v \<noteq> 0) w))"

definition nrf5x_uart_putc :: "'w uart_bus \<Rightarrow> 'w uart_plat \<Rightarrow> u8 \<Rightarrow> 'w \<Rightarrow> (int \<times> 'w) option" where
  "nrf5x_uart_putc B p c w = nrf5x_console_putc B p c w"

definition UART_FIFO_SIZE :: nat where "UART_FIFO_SIZE = 6"

partial_function (option) nrf5x_clear_errors :: "'w uart_bus \<Rightarrow> u32 \<Rightarrow> 'w \<Rightarrow> 'w option" where
  "nrf5x_clear_errors B base w =
     (let (e, w) = ub_readl B (base + 0x124) w
      in if e = 0 then Some w
         else
           let (err, w) = ub_readl B (base + 0x480) w;
               w = ub_writel B (base + 0x480) err w
           in nrf5x_clear_errors B base (ub_writel B (base + 0x124) 0 w))"

text \<open>The characters of the chip, collected in a local buffer of six; \<open>cs\<close> is what the buffer has.\<close>

partial_function (option) nrf5x_receive :: "'w uart_bus \<Rightarrow> u32 \<Rightarrow> u8 list \<Rightarrow> 'w \<Rightarrow> 'w option" where
  "nrf5x_receive B base cs w =
     (let (r, w) = ub_readl B (base + 0x108) w
      in if r = 0 then Some (if cs \<noteq> [] then ub_push B cs w else w)
         else
           let w = ub_writel B (base + 0x108) 0 w;
               (c, w) = ub_readl B (base + 0x518) w;
               cs = cs @ [ucast c]
           in if length cs < UART_FIFO_SIZE then nrf5x_receive B base cs w
              else nrf5x_receive B base [] (ub_push B cs w))"

definition nrf5x_uart_irq_handler :: "'w uart_bus \<Rightarrow> 'w uart_plat \<Rightarrow> 'w \<Rightarrow> 'w option" where
  "nrf5x_uart_irq_handler B p w = Option.bind (nrf5x_clear_errors B (pd_base p) w) (nrf5x_receive B (pd_base p) [])"

definition nrf5x_baud_table :: "(u32 \<times> u32) list" where
  "nrf5x_baud_table =
     [(1200, 0x0004F000), (2400, 0x0009D000), (4800, 0x0013B000), (9600, 0x00275000), (14400, 0x003B0000), (19200, 0x004EA000),
      (28800, 0x0075F000), (38400, 0x009D5000), (57600, 0x00EBF000), (76800, 0x013A9000), (115200, 0x01D7E000), (230400, 0x03AFB000),
      (250000, 0x04000000), (460800, 0x075F7000), (921600, 0x0EBEDFA4), (1000000, 0x10000000)]"

definition nrf5x_uart_set_baudrate :: "'w uart_bus \<Rightarrow> u32 \<Rightarrow> u32 \<Rightarrow> 'w act" where
  "nrf5x_uart_set_baudrate B base baud w =
     (case map_of nrf5x_baud_table baud of
        None \<Rightarrow> (- EINVAL, w)
      | Some b \<Rightarrow> (0, ub_writel B (base + 0x524) b w))"

definition nrf5x_uart_hw_init :: "'w uart_bus \<Rightarrow> 'w uart_plat \<Rightarrow> 'w \<Rightarrow> 'w" where
  "nrf5x_uart_hw_init B p w =
     (let w = ub_writel B (pd_base p + 0x500) 0x04 w;
          w = ub_writel B (pd_base p + 0x514) (ucast (pd_rx_pin p)) w;
          w = ub_writel B (pd_base p + 0x50c) (ucast (pd_tx_pin p)) w;
          w = ub_gpio_dir_af B (pd_rx_pin p) 0 1 0 w;
          w = ub_gpio_dir_af B (pd_tx_pin p) 1 1 0 w
      in snd (nrf5x_uart_set_baudrate B (pd_base p) 115200 w))"

definition nrf5x_uart_init :: "'w uart_bus \<Rightarrow> 'w uart_plat option \<Rightarrow> 'w act" where
  "nrf5x_uart_init B = uart_init_with B False ENOMEM (\<lambda>p w. (0, nrf5x_uart_hw_init B p w))"

definition nrf5x_uart_console_init :: "'w uart_bus \<Rightarrow> 'w uart_plat \<Rightarrow> 'w act" where
  "nrf5x_uart_console_init B p w = (0, nrf5x_uart_hw_init B p w)"

definition nrf5x_uart_open :: "'w uart_bus \<Rightarrow> 'w uart_plat option \<Rightarrow> 'w act \<Rightarrow> 'w act" where
  "nrf5x_uart_open B plat = uart_open_with (nrf5x_uart_init B plat)"

section \<open>ESP8266\<close>

text \<open>The private data has the flag \<^verbatim>\<open>tx_enabled\<close>, which is not set at the start.\<close>

record 'w esp_uart =
  esp_tx_enabled :: bool
  esp_hw :: 'w

definition esp8266_uart_rx_enable :: "'w uart_bus \<Rightarrow> 'w uart_plat \<Rightarrow> 'w esp_uart \<Rightarrow> int \<times> 'w esp_uart" where
  "esp8266_uart_rx_enable B p s = (0, s\<lparr>esp_hw := rmwl B (pd_base p + 0x0c) (\<lambda>v. v OR 0x01) (esp_hw s)\<rparr>)"

definition esp8266_uart_tx_enable :: "'w esp_uart \<Rightarrow> int \<times> 'w esp_uart" where
  "esp8266_uart_tx_enable s = (0, s\<lparr>esp_tx_enabled := True\<rparr>)"

definition esp8266_uart_rx_disable :: "'w uart_bus \<Rightarrow> 'w uart_plat \<Rightarrow> 'w esp_uart \<Rightarrow> int \<times> 'w esp_uart" where
  "esp8266_uart_rx_disable B p s = (0, s\<lparr>esp_hw := rmwl B (pd_base p + 0x0c) (\<lambda>v. v AND NOT 0x01) (esp_hw s)\<rparr>)"

definition esp8266_uart_tx_disable :: "'w esp_uart \<Rightarrow> int \<times> 'w esp_uart" where
  "esp8266_uart_tx_disable s = (0, s\<lparr>esp_tx_enabled := False\<rparr>)"

definition esp8266_sync_putc :: "'w uart_bus \<Rightarrow> u32 \<Rightarrow> u8 \<Rightarrow> 'w \<Rightarrow> (int \<times> 'w) option" where
  "esp8266_sync_putc B base c w =
     map_option (\<lambda>w. (1, ub_writel B base (ucast c) w)) (waitl B (base + 0x1c) (\<lambda>v. drop_bit 16 v AND 0xff < 126) w)"

definition esp8266_uart_putc :: "'w uart_bus \<Rightarrow> 'w uart_plat \<Rightarrow> u8 \<Rightarrow> 'w esp_uart \<Rightarrow> (int \<times> 'w esp_uart) option" where
  "esp8266_uart_putc B p c s =
     (if esp_tx_enabled s then Some (- EPERM, s)
      else map_option (\<lambda>(r, w). (r, s\<lparr>esp_hw := w\<rparr>)) (esp8266_sync_putc B (pd_base p) c (esp_hw s)))"

text \<open>The characters are taken from the addresses that start at the data register, as many as the chip has received.\<close>

fun esp8266_fetch :: "'w uart_bus \<Rightarrow> u32 \<Rightarrow> nat \<Rightarrow> 'w \<Rightarrow> u8 list \<times> 'w" where
  "esp8266_fetch B a 0 w = ([], w)"
| "esp8266_fetch B a (Suc n) w =
     (let (c, w) = ub_readb B a w;
          (cs, w) = esp8266_fetch B (a + 1) n w
      in (c # cs, w))"

definition esp8266_uart_irq_handler :: "'w uart_bus \<Rightarrow> 'w uart_plat \<Rightarrow> 'w \<Rightarrow> 'w" where
  "esp8266_uart_irq_handler B p w =
     (let (status, w) = ub_readl B (pd_base p + 0x08) w;
          w = (if status AND 0x08 \<noteq> 0 \<or> status AND 0x10 \<noteq> 0 then w
               else
                 let (n, w) = ub_readl B (pd_base p + 0x1c) w;
                     (cs, w) = esp8266_fetch B (pd_base p) (unat (n AND 0xff)) w
                 in ub_push B cs w)
      in ub_writel B (pd_base p + 0x10) status w)"

text \<open>Setting the divisor is a call of the vendor's library, the argument \<open>uart_div_modify\<close>.\<close>

definition esp8266_uart_hw_init :: "'w uart_bus \<Rightarrow> 'w uart_plat \<Rightarrow> ('w \<Rightarrow> 'w) \<Rightarrow> 'w act" where
  "esp8266_uart_hw_init B p uart_div_modify w =
     (let w = uart_div_modify w;
          w = (case pd_power p of None \<Rightarrow> w | Some pin_setup \<Rightarrow> snd (pin_setup w));
          (v, w) = ub_readl B (pd_base p + 0x20) w;
          v = v OR (0x20000 OR 0x40000);
          w = ub_writel B (pd_base p + 0x20) v w;
          v = v AND NOT (0x20000 OR 0x40000);
          w = ub_writel B (pd_base p + 0x20) v w
      in (0, rmwl B (pd_base p + 0x24) (\<lambda>v. (v AND NOT 0x7f) OR (pd_rx_fifo_threshold p AND 0x7f)) w))"

definition esp8266_uart_init :: "'w uart_bus \<Rightarrow> ('w \<Rightarrow> 'w) \<Rightarrow> 'w uart_plat option \<Rightarrow> 'w act" where
  "esp8266_uart_init B uart_div_modify = uart_init_with B False ENOMEM (\<lambda>p. esp8266_uart_hw_init B p uart_div_modify)"

text \<open>\<open>attach\<close> is \<^verbatim>\<open>ETS_UART_INTR_ATTACH\<close>, of the vendor's library.\<close>

definition esp8266_uart_open :: "'w uart_bus \<Rightarrow> ('w \<Rightarrow> 'w) \<Rightarrow> ('w \<Rightarrow> 'w) \<Rightarrow> 'w uart_plat option \<Rightarrow> 'w act \<Rightarrow> 'w act" where
  "esp8266_uart_open B uart_div_modify attach plat dev_open =
     uart_open_with (esp8266_uart_init B uart_div_modify plat) (\<lambda>w. dev_open (attach w))"

definition esp8266_uart_console_init :: "'w uart_bus \<Rightarrow> ('w \<Rightarrow> 'w) \<Rightarrow> 'w uart_plat \<Rightarrow> 'w act" where
  "esp8266_uart_console_init B uart_div_modify p w =
     (let (ret, w) = esp8266_uart_hw_init B p uart_div_modify w in if ret < 0 then (ret, w) else (0, w))"

definition esp8266_uart_console_putc :: "'w uart_bus \<Rightarrow> 'w uart_plat \<Rightarrow> u8 \<Rightarrow> 'w \<Rightarrow> 'w option" where
  "esp8266_uart_console_putc B p c w = map_option snd (esp8266_sync_putc B (pd_base p) c w)"

section \<open>ATmega\<close>

text \<open>The registers of the ATmega; the masks of their bits, which come from the headers of the compiler, are arguments.\<close>

record atmega_uart =
  UCSR1B :: u8
  UBRR1 :: u16
  baud_idx :: u8
  uart_initialized :: bool

definition atmega_uart_rx_enable :: "u8 \<Rightarrow> u8 \<Rightarrow> atmega_uart \<Rightarrow> int \<times> atmega_uart" where
  "atmega_uart_rx_enable rxen rxcie s = (0, s\<lparr>UCSR1B := UCSR1B s OR (rxen OR rxcie)\<rparr>)"

definition atmega_uart_tx_enable :: "u8 \<Rightarrow> atmega_uart \<Rightarrow> int \<times> atmega_uart" where
  "atmega_uart_tx_enable txen s = (0, s\<lparr>UCSR1B := UCSR1B s OR txen\<rparr>)"

definition atmega_uart_rx_disable :: "u8 \<Rightarrow> u8 \<Rightarrow> atmega_uart \<Rightarrow> int \<times> atmega_uart" where
  "atmega_uart_rx_disable rxen rxcie s = (0, s\<lparr>UCSR1B := UCSR1B s AND NOT (rxen OR rxcie)\<rparr>)"

definition atmega_uart_tx_disable :: "u8 \<Rightarrow> atmega_uart \<Rightarrow> int \<times> atmega_uart" where
  "atmega_uart_tx_disable txen s = (0, s\<lparr>UCSR1B := UCSR1B s AND NOT txen\<rparr>)"

definition THOS_QUARTZ :: u32 where "THOS_QUARTZ = 16 * 1000 * 1000"

definition atmega_uart_set_baudrate :: "u32 \<Rightarrow> atmega_uart \<Rightarrow> int \<times> atmega_uart" where
  "atmega_uart_set_baudrate baud s = (0, s\<lparr>UBRR1 := ucast (THOS_QUARTZ div 16 div baud - 1)\<rparr>)"

text \<open>The data and the status register are at the addresses \<open>udr1\<close> and \<open>ucsr1a\<close>.\<close>

definition atmega_uart_putc :: "'w uart_bus \<Rightarrow> u32 \<Rightarrow> u8 \<Rightarrow> u32 \<Rightarrow> u8 \<Rightarrow> 'w \<Rightarrow> (int \<times> 'w) option" where
  "atmega_uart_putc B ucsr1a udre udr1 c w =
     map_option (\<lambda>w. (1, ub_writeb B udr1 c w)) (waitb B ucsr1a (\<lambda>v. v AND udre \<noteq> 0) w)"

definition USART1_RX_vect :: "'w uart_bus \<Rightarrow> u32 \<Rightarrow> 'w \<Rightarrow> 'w" where
  "USART1_RX_vect B udr1 w = (let (c, w) = ub_readb B udr1 w in ub_push B [c] w)"

definition atmega_uart_init :: "bool \<Rightarrow> atmega_uart \<Rightarrow> int \<times> atmega_uart" where
  "atmega_uart_init dev_init s =
     (if uart_initialized s then (0, s)
      else
        let s = snd (atmega_uart_set_baudrate 250000 s)
        in if \<not> dev_init then (- ENODEV, s) else (0, s\<lparr>uart_initialized := True\<rparr>))"

definition atmega_uart_open :: "bool \<Rightarrow> (atmega_uart \<Rightarrow> int \<times> atmega_uart) \<Rightarrow> atmega_uart \<Rightarrow> int \<times> atmega_uart" where
  "atmega_uart_open dev_init dev_open = uart_open_with (\<lambda>s. if uart_initialized s then (0, s) else atmega_uart_init dev_init s) dev_open"

definition baud_table :: "(u32 \<times> string) list" where
  "baud_table = [(125000, ''125000''), (250000, ''250000'')]"

text \<open>
  The shell command \<^verbatim>\<open>baudrate\<close>: its result, the listing and the state. An entry outside the table is undefined.
\<close>

definition baudrate_listing :: "u8 \<Rightarrow> (bool \<times> nat \<times> string) list" where
  "baudrate_listing idx = map (\<lambda>i. (i = unat idx, i + 1, snd (baud_table ! i))) [0..<length baud_table]"

definition baudrate_handler :: "u8 list list \<Rightarrow> atmega_uart \<Rightarrow> (int \<times> (bool \<times> nat \<times> string) list \<times> atmega_uart) option" where
  "baudrate_handler argv s =
     (if length argv > 1 then
        (case argv ! 1 of
           [] \<Rightarrow> None
         | c # cs \<Rightarrow>
             let i = sint c - 49 in
             if i < 0 \<or> i > int (length baud_table) then Some (- EINVAL, baudrate_listing (baud_idx s), s)
             else if i < int (length baud_table) then
               let s = snd (atmega_uart_set_baudrate (fst (baud_table ! nat i)) (s\<lparr>baud_idx := of_int i\<rparr>))
               in Some (0, baudrate_listing (baud_idx s), s)
             else None)
      else Some (0, baudrate_listing (baud_idx s), s))"

section \<open>The tables of operations\<close>

text \<open>
  The low level operations as the device layer calls them. A chip that never answers leaves the system without a state.
\<close>

definition lift_putc :: "(u8 \<Rightarrow> 'w \<Rightarrow> (int \<times> 'w) option) \<Rightarrow> u8 \<Rightarrow> 'w option \<Rightarrow> int \<times> 'w option" where
  "lift_putc f c wo =
     (case wo of
        None \<Rightarrow> (0, None)
      | Some w \<Rightarrow> (case f c w of None \<Rightarrow> (0, None) | Some (r, w) \<Rightarrow> (r, Some w)))"

definition lift_act :: "'w act \<Rightarrow> 'w option \<Rightarrow> int \<times> 'w option" where
  "lift_act f wo = (case wo of None \<Rightarrow> (0, None) | Some w \<Rightarrow> let (r, w) = f w in (r, Some w))"

definition uart_ops ::
  "(u8 \<Rightarrow> 'w \<Rightarrow> (int \<times> 'w) option) \<Rightarrow> 'w act \<Rightarrow> 'w act \<Rightarrow> 'w act \<Rightarrow> 'w act \<Rightarrow> 'w option bathos_ll_dev_ops" where
  "uart_ops f rxd rxe txd txe =
     \<lparr>ll_putc = Some (lift_putc f), ll_write = None, ll_rx_disable = Some (lift_act rxd), ll_rx_enable = Some (lift_act rxe),
      ll_tx_disable = Some (lift_act txd), ll_tx_enable = Some (lift_act txe), ll_ioctl = None, ll_async_open = None\<rparr>"

definition pl011_ll_uart_dev_ops :: "'w uart_bus \<Rightarrow> 'w uart_plat \<Rightarrow> 'w option bathos_ll_dev_ops" where
  "pl011_ll_uart_dev_ops B p =
     uart_ops (pl011_uart_putc B p) (pl011_uart_rx_disable B p) (pl011_uart_rx_enable B p) (pl011_uart_tx_disable B p) (pl011_uart_tx_enable B p)"

definition freescale_ll_uart_dev_ops :: "'w uart_bus \<Rightarrow> 'w uart_plat \<Rightarrow> 'w option bathos_ll_dev_ops" where
  "freescale_ll_uart_dev_ops B p =
     uart_ops (freescale_uart_putc B p) (freescale_uart_rx_disable B p) (freescale_uart_rx_enable B p) (freescale_uart_tx_disable B p) (freescale_uart_tx_enable B p)"

definition stm32f4x_ll_uart_dev_ops :: "'w uart_bus \<Rightarrow> 'w uart_plat \<Rightarrow> 'w option bathos_ll_dev_ops" where
  "stm32f4x_ll_uart_dev_ops B p =
     uart_ops (stm32f4x_uart_putc B p) (stm32f4x_uart_rx_disable B p) (stm32f4x_uart_rx_enable B p) (stm32f4x_uart_tx_disable B p) (stm32f4x_uart_tx_enable B p)"

definition nrf5x_ll_uart_dev_ops :: "'w uart_bus \<Rightarrow> 'w uart_plat \<Rightarrow> 'w option bathos_ll_dev_ops" where
  "nrf5x_ll_uart_dev_ops B p =
     uart_ops (nrf5x_uart_putc B p) (nrf5x_uart_rx_disable B p) (nrf5x_uart_rx_enable B p) (nrf5x_uart_tx_disable B p) nrf5x_uart_tx_enable"

definition esp8266_ll_uart_dev_ops :: "'w uart_bus \<Rightarrow> 'w uart_plat \<Rightarrow> 'w esp_uart option bathos_ll_dev_ops" where
  "esp8266_ll_uart_dev_ops B p =
     uart_ops (esp8266_uart_putc B p) (esp8266_uart_rx_disable B p) (esp8266_uart_rx_enable B p) esp8266_uart_tx_disable esp8266_uart_tx_enable"

end
