(* ===== verification/UartsProps.thy ===== *)
theory UartsProps
  imports Uarts
begin

text \<open>
  Properties of the drivers of the serial lines. The locale \<open>uart_line\<close> has what the device layer relies on when it writes; it is interpreted by the
  drivers on a model of their chips, and the write of the device layer is proved once for all of them.
\<close>

section \<open>The line\<close>

locale uart_line =
  fixes putc :: "u8 \<Rightarrow> 'w \<Rightarrow> (int \<times> 'w) option"
    and ready :: "'w \<Rightarrow> bool"
    and sent :: "'w \<Rightarrow> u8 list"
  assumes putc_sends: "ready w \<Longrightarrow> \<exists>r w'. putc c w = Some (r, w') \<and> 0 \<le> r \<and> ready w' \<and> sent w' = sent w @ [c]"
begin

lemma putc_loop_sends:
  assumes "0 \<le> stat" "ready w"
  shows "\<exists>r w'. putc_loop (lift_putc putc) buf stat (Some w) = (r, Some w') \<and> 0 \<le> r \<and> sent w' = sent w @ buf"
  using assms
proof (induction buf arbitrary: stat w)
  case (Cons c buf)
  from putc_sends [OF Cons.prems(2), of c] obtain r v where
    v: "putc c w = Some (r, v)" "0 \<le> r" "ready v" "sent v = sent w @ [c]" by blast
  from Cons.IH [OF v(2,3)] Cons.prems v show ?case by (auto simp: lift_putc_def)
qed simp

text \<open>A write of the device layer sends the whole buffer.\<close>

lemma dev_write_sends:
  assumes "dev_ll_ops (get_dev (the (p_dev (get_pipe a s))) s) = Some i" "llops i = uart_ops putc rxd rxe txd txe" "pw_ll (ev_world s) = Some w"
    and "ready w"
  shows "\<exists>s' w'. bathos_dev_write llops a buf s = (int (length buf), s') \<and> pw_ll (ev_world s') = Some w' \<and> sent w' = sent w @ buf"
proof -
  from putc_loop_sends [of 0 w buf] assms(4) obtain r w' where
    "putc_loop (lift_putc putc) buf 0 (Some w) = (r, Some w')" "0 \<le> r" "sent w' = sent w @ buf" by auto
  with assms show ?thesis by (auto simp: bathos_dev_write_def uart_ops_def ll_call_def pw_update_def)
qed

end

section \<open>Models of the chips\<close>

text \<open>
  A transmitter that is busy for some reads of its status after each character and loses what is written meanwhile, and a receiver with the characters that
  have arrived and the errors that are pending. \<open>ch_txdrdy\<close> is the event of the nRF5x that says that a character is out: it is set by the chip and stays until the
  driver clears it.
\<close>

record uart_chip =
  ch_sent :: "u8 list"
  ch_busy :: nat
  ch_delay :: nat
  ch_txdrdy :: bool
  ch_started :: bool
  ch_recv :: "u8 list"
  ch_errors :: nat
  ch_pushed :: "u8 list list"

definition chip_send :: "u8 \<Rightarrow> uart_chip \<Rightarrow> uart_chip" where
  "chip_send c w = (if ch_busy w = 0 then w\<lparr>ch_sent := ch_sent w @ [c], ch_busy := ch_delay w\<rparr> else w)"

definition chip_poll :: "'v \<Rightarrow> 'v \<Rightarrow> uart_chip \<Rightarrow> 'v \<times> uart_chip" where
  "chip_poll busy free w = (if ch_busy w = 0 then (free, w) else (busy, w\<lparr>ch_busy := ch_busy w - 1\<rparr>))"

definition chip_bus :: "uart_chip uart_bus" where
  "chip_bus = \<lparr>ub_readl = (\<lambda>a w. (0, w)), ub_writel = (\<lambda>a v w. w), ub_readb = (\<lambda>a w. (0, w)), ub_writeb = (\<lambda>a v w. w),
     ub_enable_irq = (\<lambda>i on w. w), ub_gpio_dir_af = (\<lambda>p a b c w. w), ub_alloc = (\<lambda>w. (True, w)), ub_free = (\<lambda>w. w), ub_dev_init = (\<lambda>w. (True, w)),
     ub_push = (\<lambda>cs w. w\<lparr>ch_pushed := ch_pushed w @ [cs]\<rparr>)\<rparr>"

definition pl011_chip :: "u32 \<Rightarrow> uart_chip uart_bus" where
  "pl011_chip base = chip_bus\<lparr>ub_readl := (\<lambda>a w. if a = base + 0x18 then chip_poll 0x08 0 w else (0, w)),
     ub_writel := (\<lambda>a v w. if a = base then chip_send (ucast v) w else w)\<rparr>"

definition freescale_chip :: "u32 \<Rightarrow> uart_chip uart_bus" where
  "freescale_chip base = chip_bus\<lparr>ub_readb := (\<lambda>a w. if a = base + 4 then chip_poll 0 0x80 w else (0, w)),
     ub_writeb := (\<lambda>a v w. if a = base + 7 then chip_send v w else w)\<rparr>"

definition stm32_chip :: "u32 \<Rightarrow> uart_chip uart_bus" where
  "stm32_chip base = chip_bus\<lparr>ub_readl := (\<lambda>a w. if a = base then chip_poll 0x40 0xC0 w else (0, w)),
     ub_writel := (\<lambda>a v w. if a = base + 4 then chip_send (ucast v) w else w)\<rparr>"

text \<open>
  The nRF5x: a character is sent only after the transmitter has been started. While it is being shifted out, a read of the event brings the end closer, and at the end
  the event is set. An event that is still set reads as set at once, whatever the transmitter does.
\<close>

definition nrf5x_txdrdy :: "uart_chip \<Rightarrow> u32 \<times> uart_chip" where
  "nrf5x_txdrdy w =
     (if ch_txdrdy w then (1, w)
      else if ch_busy w = 0 then (0, w)
      else (0, w\<lparr>ch_busy := ch_busy w - 1, ch_txdrdy := (ch_busy w = 1)\<rparr>))"

definition nrf5x_send :: "u8 \<Rightarrow> uart_chip \<Rightarrow> uart_chip" where
  "nrf5x_send c w = (if ch_busy w = 0 \<and> ch_started w then w\<lparr>ch_sent := ch_sent w @ [c], ch_busy := Suc (ch_delay w)\<rparr> else w)"

definition nrf5x_chip :: "u32 \<Rightarrow> uart_chip uart_bus" where
  "nrf5x_chip base = chip_bus\<lparr>
     ub_readl := (\<lambda>a w. if a = base + 0x11c then nrf5x_txdrdy w
        else if a = base + 0x108 then (if ch_recv w = [] then 0 else 1, w)
        else if a = base + 0x518 then (case ch_recv w of [] \<Rightarrow> (0, w) | c # cs \<Rightarrow> (ucast c, w\<lparr>ch_recv := cs\<rparr>))
        else if a = base + 0x124 then (if ch_errors w = 0 then 0 else 1, w) else (0, w)),
     ub_writel := (\<lambda>a v w. if a = base + 0x51c then nrf5x_send (ucast v) w
        else if a = base + 0x08 then w\<lparr>ch_started := True\<rparr> else if a = base + 0x0c then w\<lparr>ch_started := False\<rparr>
        else if a = base + 0x11c then w\<lparr>ch_txdrdy := (v \<noteq> 0)\<rparr>
        else if a = base + 0x124 then w\<lparr>ch_errors := ch_errors w - 1\<rparr> else w)\<rparr>"

text \<open>An example: a pipe of a chip that is busy for two reads of its status after every character.\<close>

definition ex_uart_chip :: uart_chip where
  "ex_uart_chip = \<lparr>ch_sent = [], ch_busy = 0, ch_delay = 2, ch_txdrdy = False, ch_started = False, ch_recv = [], ch_errors = 0, ch_pushed = []\<rparr>"

definition ex_uart_plat :: "uart_chip uart_plat" where
  "ex_uart_plat = \<lparr>pd_base = 0x1000, pd_irq = 1, pd_clock = 84000000, pd_rx_pin = 1, pd_tx_pin = 2, pd_rx_af = 0, pd_tx_af = 0, pd_power = None,
     pd_rx_fifo_threshold = 0\<rparr>"

definition ex_uart_sys :: "(nat, uart_chip option) psys" where
  "ex_uart_sys = \<lparr>pe_head = 0, pe_tail = 0, pe_buffer_nevts = 8, pe_buffer = [], ie_pending_flags = [],
     ev_world = \<lparr>pw_pipes = [7 \<mapsto> \<lparr>p_n = [], p_mode = 0, p_data = 0, input_ready_event = 0, output_ready_event = 1, p_dev = Some 0, p_dev_data = Some 3\<rparr>],
       pw_devs = [\<lparr>dev_name = [], dev_ll_ops = Some 0, dev_pipes = Some [7]\<rparr>], pw_data = (\<lambda>_. None), pw_alloc = alloc_boot default_cfg,
       bathos_errno = 0, pw_ll = Some ex_uart_chip\<rparr>\<rparr>"

lemma waitl_poll:
  assumes "\<And>w. ub_readl B r w = chip_poll busy free w" "f free" "\<not> f busy"
  shows "waitl B r f w = Some (w\<lparr>ch_busy := 0\<rparr>)"
proof (induction "ch_busy w" arbitrary: w)
  case 0
  then show ?case using assms by (subst waitl.simps) (simp add: chip_poll_def)
next
  case (Suc n)
  with assms show ?case by (subst waitl.simps) (simp add: chip_poll_def flip: Suc.hyps(2))
qed

lemma waitb_poll:
  assumes "\<And>w. ub_readb B r w = chip_poll busy free w" "f free" "\<not> f busy"
  shows "waitb B r f w = Some (w\<lparr>ch_busy := 0\<rparr>)"
proof (induction "ch_busy w" arbitrary: w)
  case 0
  then show ?case using assms by (subst waitb.simps) (simp add: chip_poll_def)
next
  case (Suc n)
  with assms show ?case by (subst waitb.simps) (simp add: chip_poll_def flip: Suc.hyps(2))
qed

lemma ucast_back: "ucast (ucast (c :: u8) :: u32) = c"
  by (rule bit_word_eqI) (simp add: bit_simps)

interpretation pl011_line: uart_line "pl011_uart_putc (pl011_chip (pd_base p)) p" "\<lambda>_. True" ch_sent
  by unfold_locales
    (simp add: pl011_uart_putc_def pl011_uart_console_putc_def pl011_chip_def chip_send_def ucast_back waitl_poll [of _ _ "0x08" 0])

interpretation freescale_line: uart_line "freescale_uart_putc (freescale_chip (pd_base p)) p" "\<lambda>_. True" ch_sent
  by unfold_locales
    (simp add: freescale_uart_putc_def freescale_uart_console_putc_def freescale_chip_def chip_send_def waitb_poll [of _ _ 0 "0x80"])

interpretation stm32_line: uart_line "stm32f4x_uart_putc (stm32_chip (pd_base p)) p" "\<lambda>_. True" ch_sent
  by unfold_locales
    (simp add: stm32f4x_uart_putc_def stm32_sync_putc_def stm32_chip_def chip_send_def ucast_back waitl_poll [of _ _ "0x40" "0xC0"])

text \<open>The wait for the event of the nRF5x ends when the character is out; the transmitter is free then and the event is set.\<close>

lemma nrf5x_wait:
  assumes "\<And>w. ub_readl B r w = nrf5x_txdrdy w" "0 < ch_busy w" "\<not> ch_txdrdy w"
  shows "waitl B r (\<lambda>v. v \<noteq> 0) w = Some (w\<lparr>ch_busy := 0, ch_txdrdy := True\<rparr>)"
  using assms(2,3)
proof (induction "ch_busy w" arbitrary: w)
  case (Suc n)
  let ?w = "w\<lparr>ch_busy := ch_busy w - 1, ch_txdrdy := (ch_busy w = 1)\<rparr>"
  have step: "waitl B r (\<lambda>v. v \<noteq> 0) w = waitl B r (\<lambda>v. v \<noteq> 0) ?w"
    using Suc.prems by (subst waitl.simps) (simp add: assms(1) nrf5x_txdrdy_def)
  show ?case
  proof (cases n)
    case 0
    then have "waitl B r (\<lambda>v. v \<noteq> 0) ?w = Some ?w" using Suc.hyps(2) by (subst waitl.simps) (simp add: assms(1) nrf5x_txdrdy_def)
    then show ?thesis using step 0 Suc.hyps(2) by simp
  next
    case (Suc m)
    then show ?thesis using step Suc.hyps(1) [of ?w] Suc.hyps(2) by simp
  qed
qed simp

interpretation nrf5x_line: uart_line "nrf5x_uart_putc (nrf5x_chip (pd_base p)) p" "\<lambda>w. ch_busy w = 0 \<and> \<not> ch_txdrdy w" ch_sent
  by unfold_locales
    (simp add: nrf5x_uart_putc_def nrf5x_console_putc_def nrf5x_chip_def nrf5x_send_def ucast_back nrf5x_wait)

text \<open>
  C35. A write of the device layer through the drivers of four chips: the whole buffer goes out on the line, in order and once,
  however long the chip is busy after each character, and the number of bytes is returned. The nRF5x has to be free, with its event clear, at the start:
  its driver waits after a character, the others before.
\<close>
theorem uart_write_delivers:
  assumes "dev_ll_ops (get_dev (the (p_dev (get_pipe a s))) s) = Some i" "pw_ll (ev_world s) = Some w"
    and "llops i \<in> {pl011_ll_uart_dev_ops (pl011_chip (pd_base p)) p, freescale_ll_uart_dev_ops (freescale_chip (pd_base p)) p,
           stm32f4x_ll_uart_dev_ops (stm32_chip (pd_base p)) p}
       \<or> llops i = nrf5x_ll_uart_dev_ops (nrf5x_chip (pd_base p)) p \<and> ch_busy w = 0 \<and> \<not> ch_txdrdy w"
  shows "\<exists>s' w'. bathos_dev_write llops a buf s = (int (length buf), s') \<and> pw_ll (ev_world s') = Some w' \<and> ch_sent w' = ch_sent w @ buf"
proof -
  note ops = pl011_ll_uart_dev_ops_def freescale_ll_uart_dev_ops_def stm32f4x_ll_uart_dev_ops_def nrf5x_ll_uart_dev_ops_def
  from assms(3) consider "llops i = pl011_ll_uart_dev_ops (pl011_chip (pd_base p)) p" | "llops i = freescale_ll_uart_dev_ops (freescale_chip (pd_base p)) p"
    | "llops i = stm32f4x_ll_uart_dev_ops (stm32_chip (pd_base p)) p" | "llops i = nrf5x_ll_uart_dev_ops (nrf5x_chip (pd_base p)) p" "ch_busy w = 0" "\<not> ch_txdrdy w"
    by (elim disjE insertE conjE emptyE) assumption+
  then show ?thesis
  proof cases
    case 1
    from pl011_line.dev_write_sends [where llops = llops, OF assms(1) this [unfolded ops] assms(2) TrueI] show ?thesis .
  next
    case 2
    from freescale_line.dev_write_sends [where llops = llops, OF assms(1) this [unfolded ops] assms(2) TrueI] show ?thesis .
  next
    case 3
    from stm32_line.dev_write_sends [where llops = llops, OF assms(1) this [unfolded ops] assms(2) TrueI] show ?thesis .
  next
    case 4
    from nrf5x_line.dev_write_sends [where llops = llops, OF assms(1) 4(1) [unfolded ops] assms(2) conjI [OF 4(2,3)]] show ?thesis .
  qed
qed

theorem uart_write_delivers_witness:
  "\<exists>s' w'. bathos_dev_write (\<lambda>_. nrf5x_ll_uart_dev_ops (nrf5x_chip (pd_base ex_uart_plat)) ex_uart_plat) 7 [104, 105] ex_uart_sys = (2, s')
    \<and> pw_ll (ev_world s') = Some w' \<and> ch_sent w' = [104, 105]"
  using uart_write_delivers [of 7 ex_uart_sys 0 ex_uart_chip "\<lambda>_. nrf5x_ll_uart_dev_ops (nrf5x_chip (pd_base ex_uart_plat)) ex_uart_plat" ex_uart_plat "[104, 105]"]
  by (simp add: ex_uart_sys_def get_dev_def get_pipe_def) (simp add: ex_uart_chip_def)

section \<open>Receiving\<close>

lemma nrf5x_clear_errors_ends:
  "nrf5x_clear_errors (nrf5x_chip base) base w = Some (w\<lparr>ch_errors := 0\<rparr>)"
proof (induction "ch_errors w" arbitrary: w)
  case 0
  then show ?case by (subst nrf5x_clear_errors.simps) (simp add: nrf5x_chip_def)
next
  case (Suc n)
  have "nrf5x_clear_errors (nrf5x_chip base) base w = nrf5x_clear_errors (nrf5x_chip base) base (w\<lparr>ch_errors := ch_errors w - 1\<rparr>)"
    using Suc.hyps(2) by (subst nrf5x_clear_errors.simps) (simp add: nrf5x_chip_def)
  also have "\<dots> = Some (w\<lparr>ch_errors := 0\<rparr>)" using Suc.hyps(1) [of "w\<lparr>ch_errors := ch_errors w - 1\<rparr>"] Suc.hyps(2) by simp
  finally show ?case .
qed

lemma nrf5x_receive_pushes:
  assumes "length cs < 6"
  shows "\<exists>ps. nrf5x_receive (nrf5x_chip base) base cs w = Some (w\<lparr>ch_recv := [], ch_pushed := ch_pushed w @ ps\<rparr>)
    \<and> concat ps = cs @ ch_recv w \<and> (\<forall>p \<in> set ps. p \<noteq> [] \<and> length p \<le> 6)"
  using assms
proof (induction "ch_recv w" arbitrary: cs w)
  case Nil
  show ?case
  proof (cases "cs = []")
    case True
    have "w\<lparr>ch_recv := [], ch_pushed := ch_pushed w @ []\<rparr> = w" using Nil.hyps by (cases w) simp
    with True Nil.hyps [symmetric] show ?thesis by (intro exI [of _ "[]"], subst nrf5x_receive.simps) (simp add: nrf5x_chip_def)
  next
    case False
    with Nil.hyps [symmetric] Nil.prems show ?thesis
      by (intro exI [of _ "[cs]"], subst nrf5x_receive.simps) (simp add: nrf5x_chip_def chip_bus_def)
  qed
next
  case (Cons c bs)
  define v where "v = w\<lparr>ch_recv := bs\<rparr>"
  note h = Cons.hyps(2) [symmetric]
  show ?case
  proof (cases "length cs = 5")
    case True
    define x where "x = v\<lparr>ch_pushed := ch_pushed w @ [cs @ [c]]\<rparr>"
    have step: "nrf5x_receive (nrf5x_chip base) base cs w = nrf5x_receive (nrf5x_chip base) base [] x"
      using h True by (subst nrf5x_receive.simps) (simp add: nrf5x_chip_def chip_bus_def UART_FIFO_SIZE_def ucast_back x_def v_def)
    from Cons.hyps(1) [of x "[]"] obtain ps where
      ps: "nrf5x_receive (nrf5x_chip base) base [] x = Some (x\<lparr>ch_recv := [], ch_pushed := ch_pushed x @ ps\<rparr>)" "concat ps = bs"
        "\<forall>p \<in> set ps. p \<noteq> [] \<and> length p \<le> 6" by (auto simp: x_def v_def)
    then show ?thesis using step h True by (intro exI [of _ "(cs @ [c]) # ps"]) (simp add: x_def v_def)
  next
    case False
    with Cons.prems have "length (cs @ [c]) < 6" by simp
    have step: "nrf5x_receive (nrf5x_chip base) base cs w = nrf5x_receive (nrf5x_chip base) base (cs @ [c]) v"
      using h \<open>length (cs @ [c]) < 6\<close> by (subst nrf5x_receive.simps) (simp add: nrf5x_chip_def UART_FIFO_SIZE_def ucast_back v_def)
    from Cons.hyps(1) [of v, OF _ \<open>length (cs @ [c]) < 6\<close>] step h show ?thesis by (auto simp: v_def)
  qed
qed

text \<open>
  The interrupt handler of the nRF5x: it comes back, whatever has arrived and whatever errors are pending, and hands all characters to the device layer in order,
  in pieces of at most six.
\<close>
theorem nrf5x_irq_forwards:
  "\<exists>w' ps. nrf5x_uart_irq_handler (nrf5x_chip (pd_base p)) p w = Some w' \<and> ch_pushed w' = ch_pushed w @ ps \<and> concat ps = ch_recv w
    \<and> list_all (\<lambda>q. q \<noteq> [] \<and> length q \<le> 6) ps \<and> ch_recv w' = [] \<and> ch_errors w' = 0 \<and> ch_sent w' = ch_sent w"
  using nrf5x_receive_pushes [of "[]" "pd_base p" "w\<lparr>ch_errors := 0\<rparr>"]
  by (auto simp: nrf5x_uart_irq_handler_def nrf5x_clear_errors_ends list_all_iff)

section \<open>Baud rates\<close>

lemma or_shifted: "x < 16 \<Longrightarrow> x OR push_bit 4 y = x + y * (16 :: nat)"
proof -
  assume "x < 16"
  then have "take_bit 4 x = x" by (simp add: take_bit_nat_eq_self)
  then have "\<not> bit x n" if "4 \<le> n" for n using that by (metis bit_take_bit_iff not_le)
  then have "x AND push_bit 4 y = 0" by (auto simp: bit_eq_iff bit_simps)
  from disjunctive_add_eq_or [OF this] show ?thesis by (simp add: push_bit_eq_mult)
qed

text \<open>
  The divisor of the STM32F4x: for a clock whose scaled value fits into 32 bits, the line runs at least as fast as asked for, and less than two units of the
  divisor, and the part of the clock below 16, faster.
\<close>
theorem stm32_brr_rate:
  assumes "unat clock div 16 * 100 < 2 ^ 32" "0 < baud"
  shows "unat (stm32_brr clock baud) * unat baud \<le> unat clock \<and> unat clock < (unat (stm32_brr clock baud) + 2) * unat baud + 16"
proof -
  define t where "t = unat clock div 16 * 100 div unat baud"
  have b: "0 < unat baud" using assms(2) by (simp add: unat_gt_0)
  have q: "unat (drop_bit 4 clock) = unat clock div 16" by (simp add: drop_bit_eq_div unat_div)
  have "unat (drop_bit 4 clock * 100) = unat clock div 16 * 100" using assms(1) unat_mult_lem [of "drop_bit 4 clock" 100] by (simp add: q)
  then have tmp: "unat (drop_bit 4 clock * 100 div baud) = t" by (simp add: t_def unat_div)
  define tw where "tw = drop_bit 4 clock * 100 div baud"
  have t: "unat tw = t" "t < 2 ^ 32" using tmp assms(1) le_less_trans [OF div_le_dividend [of "unat clock div 16 * 100" "unat baud"]] by (simp_all add: tw_def t_def)
  have "unat (push_bit 4 (tw mod 100)) = (t mod 100) * 16"
    using unat_mult_lem [of "tw mod 100" 16] less_trans [OF mod_less_divisor [of 100 t], of 268435456] by (simp add: push_bit_eq_mult unat_mod t(1))
  then have f: "unat (push_bit 4 (tw mod 100) div 100) = (t mod 100) * 16 div 100" by (simp add: unat_div)
  have m: "unat (push_bit 4 (tw div 100)) = push_bit 4 (t div 100)"
    using unat_mult_lem [of "tw div 100" 16] t less_mult_imp_div_less [of t 268435456 100] by (simp add: push_bit_eq_mult unat_div)
  have "unat (stm32_brr clock baud) = (t mod 100) * 16 div 100 OR push_bit 4 (t div 100)"
    by (simp only: stm32_brr_def Let_def unsigned_or_eq flip: tw_def) (simp only: f m)
  also have "\<dots> = (t mod 100) * 16 div 100 + t div 100 * 16" using or_shifted [of "(t mod 100) * 16 div 100"] mod_less_divisor [of 100 t] by simp
  also have "\<dots> = t * 16 div 100"
  proof -
    have "t * 16 = (t mod 100) * 16 + t div 100 * 16 * 100" using div_mult_mod_eq [of t 100] by linarith
    then show ?thesis by simp
  qed
  finally have brr: "unat (stm32_brr clock baud) = t * 16 div 100" .
  define X where "X = t * 16 div 100"
  define C where "C = unat clock div 16"
  have "X * 100 \<le> t * 16" "t * 16 < 100 + X * 100" using dividend_less_div_times [of 100 "t * 16"] by (simp_all add: X_def)
  then have "X * 100 \<le> t * 16" "t * 16 \<le> X * 100 + 99" by simp_all
  then have X: "X * unat baud * 100 \<le> t * unat baud * 16" "t * unat baud * 16 \<le> X * unat baud * 100 + 99 * unat baud"
    using mult_le_mono1 [of "X * 100" "t * 16" "unat baud"] mult_le_mono1 [of "t * 16" "X * 100 + 99" "unat baud"]
    by (simp_all add: add_mult_distrib2 mult.assoc mult.commute [of _ "unat baud"] del: mult_le_cancel1 mult_le_cancel2)
  have r: "t * unat baud \<le> C * 100" "C * 100 < t * unat baud + unat baud"
    using dividend_less_div_times [OF b, of "C * 100"] by (simp_all add: t_def C_def add.commute)
  have c: "C * 16 \<le> unat clock" "unat clock < C * 16 + 16" using dividend_less_div_times [of 16 "unat clock"] by (simp_all add: C_def add.commute)
  have "X * unat baud \<le> unat clock" "unat clock < X * unat baud + 2 * unat baud + 16" using X r c by linarith+
  then show ?thesis by (simp add: brr X_def add_mult_distrib)
qed

theorem stm32_brr_rate_witness: "unat (stm32_brr 84000000 115200) * 115200 \<le> 84000000 \<and> 84000000 < (unat (stm32_brr 84000000 115200) + 2) * 115200 + 16"
  using stm32_brr_rate [of 84000000 115200] by simp

text \<open>A driver of the ESP8266 refuses to send once transmission is enabled.\<close>

lemma esp8266_enabled_refuses:
  "esp8266_uart_putc B p c (snd (esp8266_uart_tx_enable s)) = Some (- EPERM, snd (esp8266_uart_tx_enable s))"
  by (simp add: esp8266_uart_putc_def esp8266_uart_tx_enable_def)

lemma baudrate_out_of_table: "baudrate_handler [[98], [51, 0]] s = None"
  by (simp add: baudrate_handler_def baud_table_def)

end
