(* ===== verification/AsyncEth.thy ===== *)
theory AsyncEth
  imports Lininoio UnixPipe
begin

text \<open>
  The network drivers that serve a buffer queue: \<^verbatim>\<open>drivers/unix-eth.c\<close>, over a packet socket of the host, and \<^verbatim>\<open>drivers/esp8266-wlan.c\<close>, over
  the library of the chip's vendor. A client takes a buffer, describes an operation in it and releases it; the setup handler of the driver
  then sends it or keeps it for reception.

  The state has the queue of \<open>BufferQueue\<close> and the driver's lists of buffers. A descriptor is on one list, so moving it takes it from
  whatever list has it. The bytes a descriptor points to and the operation around it are kept by its number. The host
  system and the vendor's library are parameters; messages are left out.
\<close>

section \<open>Serving a queue\<close>

text \<open>\<open>ns_ll_priv\<close> tells whether the device has its private data.\<close>

record ('e, 'w) net_server =
  ns_sys :: "'e bqsys"
  ns_op :: "nat \<Rightarrow> bathos_buffer_op"
  ns_bytes :: "nat \<Rightarrow> u8 list"
  ns_rx :: "nat list"
  ns_tx :: "nat list"
  ns_ll_priv :: bool
  ns_hw :: 'w

definition list_unlink :: "nat \<Rightarrow> ('e, 'w, 'z) net_server_scheme \<Rightarrow> ('e, 'w, 'z) net_server_scheme" where
  "list_unlink b s = s\<lparr>ns_rx := remove1 b (ns_rx s), ns_tx := remove1 b (ns_tx s)\<rparr>"

definition queue_unlink :: "nat \<Rightarrow> 'e bqsys \<Rightarrow> 'e bqsys" where
  "queue_unlink b s =
     (let q = bd_queue (the_buf b s); data = the_queue q s
      in set_queue q (data\<lparr>bq_free_bufs := remove1 b (bq_free_bufs data), bq_busy_bufs := remove1 b (bq_busy_bufs data)\<rparr>) s)"

definition move_to_tx :: "nat \<Rightarrow> ('e, 'w, 'z) net_server_scheme \<Rightarrow> ('e, 'w, 'z) net_server_scheme" where
  "move_to_tx b s =
     (let s = list_unlink b s in s\<lparr>ns_sys := queue_unlink b (ns_sys s), ns_tx := ns_tx s @ [b]\<rparr>)"

definition move_to_rx :: "nat \<Rightarrow> ('e, 'w, 'z) net_server_scheme \<Rightarrow> ('e, 'w, 'z) net_server_scheme" where
  "move_to_rx b s =
     (let s = list_unlink b s in s\<lparr>ns_sys := queue_unlink b (ns_sys s), ns_rx := ns_rx s @ [b]\<rparr>)"

definition ns_buf_done :: "nat \<Rightarrow> ('e, 'w, 'z) net_server_scheme \<Rightarrow> ('e, 'w, 'z) net_server_scheme" where
  "ns_buf_done b s =
     (let s = list_unlink b s in s\<lparr>ns_sys := bathos_bqueue_server_buf_done b (ns_sys s)\<rparr>)"

definition ns_data :: "nat \<Rightarrow> ('e, 'w, 'z) net_server_scheme \<Rightarrow> u8 list" where
  "ns_data b s = take (bd_data_size (the_buf b (ns_sys s))) (ns_bytes s b)"

text \<open>The setup handler, which both drivers share up to the start of a transmission.\<close>

definition net_setup_handler ::
  "(('e, 'w, 'z) net_server_scheme \<Rightarrow> ('e, 'w, 'z) net_server_scheme) \<Rightarrow> nat option
    \<Rightarrow> ('e, 'w, 'z) net_server_scheme \<Rightarrow> ('e, 'w, 'z) net_server_scheme" where
  "net_setup_handler start_tx data s =
     (case data of
        None \<Rightarrow> s
      | Some b \<Rightarrow>
          if \<not> ns_ll_priv s then s
          else
            (case op_type (ns_op s b) of
               NONE \<Rightarrow> ns_buf_done b s
             | SEND \<Rightarrow> start_tx (move_to_tx b s)
             | RECV \<Rightarrow> move_to_rx b s
             | BIDIR \<Rightarrow> ns_buf_done b s))"

definition net_done_handler :: "nat option \<Rightarrow> ('e, 'w, 'z) net_server_scheme \<Rightarrow> ('e, 'w, 'z) net_server_scheme" where
  "net_done_handler data s = (case data of None \<Rightarrow> s | Some b \<Rightarrow> ns_buf_done b s)"

section \<open>Unix host\<close>

definition ETHER_ADDR_LEN :: nat where "ETHER_ADDR_LEN = 6"

text \<open>
  The calls of the host. \<open>uh_sendto\<close> gets descriptor, data, protocol, interface and address, \<open>uh_recv\<close> descriptor and room; a
  packet is cut at the room. The result of \<open>uh_recv\<close> is the status with the bytes.
\<close>

record 'w unix_host =
  uh_sendto :: "int \<Rightarrow> u8 list \<Rightarrow> u16 \<Rightarrow> int \<Rightarrow> u8 list \<Rightarrow> 'w \<Rightarrow> int \<times> 'w"
  uh_recv :: "int \<Rightarrow> nat \<Rightarrow> 'w \<Rightarrow> int \<times> u8 list \<times> 'w"
  uh_socket :: "u16 \<Rightarrow> 'w \<Rightarrow> int \<times> 'w"
  uh_ifindex :: "int \<Rightarrow> u8 list \<Rightarrow> 'w \<Rightarrow> int option \<times> 'w"
  uh_bind :: "int \<Rightarrow> int \<Rightarrow> u16 \<Rightarrow> 'w \<Rightarrow> int \<times> 'w"
  uh_close :: "int \<Rightarrow> 'w \<Rightarrow> 'w"
  uh_remap_input_ready :: "'w \<Rightarrow> 'w"

record unix_eth_platform_data =
  ue_ifname :: "u8 list"
  ue_eth_type :: u16
  ue_nbufs :: int
  ue_bufsize :: nat

text \<open>\<open>ue_slots\<close> has the descriptors of the table in \<^verbatim>\<open>arch-unix/pipe.c\<close>, \<open>ue_adata\<close> is the entry of the device.\<close>

record ('e, 'w) unix_eth_priv = "('e, 'w) net_server" +
  ue_fd :: int
  ue_if_index :: int
  ue_slots :: "int list"
  ue_adata :: nat

definition ue_adata_fd :: "('e, 'w) unix_eth_priv \<Rightarrow> int" where
  "ue_adata_fd s = ue_slots s ! ue_adata s"

definition unix_get_pipe_arch_data :: "int list \<Rightarrow> nat option \<times> int list" where
  "unix_get_pipe_arch_data fds =
     (case find (\<lambda>i. fds ! i = BATHOS_UNIX_FREE_FD) [0..<length fds] of
        None \<Rightarrow> (None, fds)
      | Some i \<Rightarrow> (Some i, fds[i := BATHOS_UNIX_RESERVED_FD]))"

definition unix_free_pipe_arch_data :: "nat \<Rightarrow> int list \<Rightarrow> int list" where
  "unix_free_pipe_arch_data i fds = fds[i := BATHOS_UNIX_FREE_FD]"

definition unix_eth_start_tx ::
  "'w unix_host \<Rightarrow> unix_eth_platform_data \<Rightarrow> ('e, 'w) unix_eth_priv \<Rightarrow> ('e, 'w) unix_eth_priv" where
  "unix_eth_start_tx H pdata s =
     (case ns_tx s of
        [] \<Rightarrow> s
      | b # bs \<Rightarrow>
          let addr = op_addr (ns_op s b)
          in if addr_type addr \<noteq> REMOTE_MAC then ns_buf_done b s
             else if addr_length addr \<noteq> ETHER_ADDR_LEN then ns_buf_done b s
             else
               let (r, w) = uh_sendto H (ue_fd s) (ns_data b s) (ue_eth_type pdata) (ue_if_index s) (take ETHER_ADDR_LEN (addr_val addr)) (ns_hw s)
               in ns_buf_done b (s\<lparr>ns_hw := w\<rparr>))"

definition unix_eth_setup_handler ::
  "'w unix_host \<Rightarrow> unix_eth_platform_data \<Rightarrow> nat option \<Rightarrow> ('e, 'w) unix_eth_priv \<Rightarrow> ('e, 'w) unix_eth_priv" where
  "unix_eth_setup_handler H pdata = net_setup_handler (unix_eth_start_tx H pdata)"

definition unix_eth_done_handler :: "nat option \<Rightarrow> ('e, 'w) unix_eth_priv \<Rightarrow> ('e, 'w) unix_eth_priv" where
  "unix_eth_done_handler = net_done_handler"

definition unix_eth_input_ready_handler ::
  "'w unix_host \<Rightarrow> unix_eth_platform_data \<Rightarrow> ('e, 'w) unix_eth_priv \<Rightarrow> ('e, 'w) unix_eth_priv" where
  "unix_eth_input_ready_handler H pdata s =
     (case ns_rx s of
        [] \<Rightarrow> s\<lparr>ns_hw := snd (snd (uh_recv H (ue_adata_fd s) 4 (ns_hw s)))\<rparr>
      | b # bs \<Rightarrow>
          let (stat, cs, w) = uh_recv H (ue_adata_fd s) (ue_bufsize pdata) (ns_hw s);
              s = s\<lparr>ns_hw := w\<rparr>
          in if stat < 0 then s
             else
               let s = s\<lparr>ns_bytes := (ns_bytes s)(b := cs @ drop (length cs) (ns_bytes s b)),
                         ns_sys := set_buf b ((the_buf b (ns_sys s))\<lparr>bd_data_size := nat stat\<rparr>) (ns_sys s)\<rparr>
               in s\<lparr>ns_sys := bathos_bqueue_server_buf_processed b (ns_sys s)\<rparr>)"

definition eth_socket ::
  "'w unix_host \<Rightarrow> unix_eth_platform_data \<Rightarrow> ('e, 'w) unix_eth_priv \<Rightarrow> int \<times> ('e, 'w) unix_eth_priv" where
  "eth_socket H pdata s =
     (let (fd, w) = uh_socket H (ue_eth_type pdata) (ns_hw s);
          s = s\<lparr>ue_fd := fd, ns_hw := w\<rparr>
      in if fd < 0 then (fd, s)
         else
           (case uh_ifindex H fd (ue_ifname pdata) (ns_hw s) of
              (None, w) \<Rightarrow> (-1, s\<lparr>ns_hw := uh_close H fd w\<rparr>)
            | (Some i, w) \<Rightarrow>
                let s = s\<lparr>ue_if_index := i, ns_hw := w\<rparr>;
                    (r, w) = uh_bind H fd i (ue_eth_type pdata) (ns_hw s);
                    s = s\<lparr>ns_hw := w\<rparr>
                in if r < 0 then (-1, s\<lparr>ns_hw := uh_close H fd w\<rparr>) else (0, s)))"

definition unix_eth_async_open ::
  "'w unix_host \<Rightarrow> unix_eth_platform_data option \<Rightarrow> ('e, 'w) unix_eth_priv \<Rightarrow> int \<times> ('e, 'w) unix_eth_priv" where
  "unix_eth_async_open H pdata s =
     (case pdata of
        None \<Rightarrow> (-1, s)
      | Some p \<Rightarrow>
          let (r, s) = eth_socket H p s
          in if r < 0 then (-1, s)
             else (0, s\<lparr>ue_slots := (ue_slots s)[ue_adata s := ue_fd s], ns_hw := uh_remap_input_ready H (ns_hw s)\<rparr>))"

text \<open>Memory for the driver comes from the allocator of the queue; giving back a buffer may be undefined (\<open>None\<close>).\<close>

definition ns_alloc :: "alloc_cfg \<Rightarrow> int \<Rightarrow> ('e, 'w, 'z) net_server_scheme \<Rightarrow> nat option \<times> ('e, 'w, 'z) net_server_scheme" where
  "ns_alloc c sz s =
     (let (p, al) = bathos_alloc_buffer c sz (bw_alloc (ev_world (ns_sys s)))
      in (p, s\<lparr>ns_sys := (ns_sys s)\<lparr>ev_world := (ev_world (ns_sys s))\<lparr>bw_alloc := al\<rparr>\<rparr>\<rparr>))"

definition ns_free :: "alloc_cfg \<Rightarrow> int \<Rightarrow> nat \<Rightarrow> ('e, 'w, 'z) net_server_scheme \<Rightarrow> ('e, 'w, 'z) net_server_scheme option" where
  "ns_free c sz p s =
     map_option (\<lambda>al. s\<lparr>ns_sys := (ns_sys s)\<lparr>ev_world := (ev_world (ns_sys s))\<lparr>bw_alloc := al\<rparr>\<rparr>\<rparr>)
       (bathos_free_buffer c (int p) sz (bw_alloc (ev_world (ns_sys s))))"

text \<open>
  The sizes of the structures: private data, device data, operation. The device data has the queue, here \<open>q\<close>.
  In asynchronous mode \<^verbatim>\<open>bathos_dev_open\<close> only calls \<^verbatim>\<open>async_open\<close>, for the drivers have no other low level operation.
\<close>

record ('e) net_layout =
  nl_priv_size :: int
  nl_data_size :: int
  nl_op_size :: nat
  nl_queue :: nat
  nl_setup_event :: 'e
  nl_done_event :: 'e

definition server_init ::
  "alloc_cfg \<Rightarrow> 'e net_layout \<Rightarrow> nat \<Rightarrow> int \<Rightarrow> nat \<Rightarrow> ('e, 'w, 'z) net_server_scheme \<Rightarrow> int \<times> ('e, 'w, 'z) net_server_scheme" where
  "server_init c L area nbufs bufsize s =
     (let (r, sys) = bathos_bqueue_server_init c (nl_op_size L) (nl_queue L) (Some (nl_setup_event L)) (Some (nl_done_event L)) (Some area) nbufs bufsize (ns_sys s)
      in (r, s\<lparr>ns_sys := sys\<rparr>))"

text \<open>
  From the area of the buffers on, the two drivers open in the same way: \<open>fails\<close> is their test of the result of the device layer, \<open>undo\<close> frees what they
  have allocated before.
\<close>

definition open_queue ::
  "alloc_cfg \<Rightarrow> 'e net_layout \<Rightarrow> int \<Rightarrow> nat \<Rightarrow> (int \<Rightarrow> bool)
    \<Rightarrow> (('e, 'w, 'z) net_server_scheme \<Rightarrow> int \<times> ('e, 'w, 'z) net_server_scheme)
    \<Rightarrow> (int \<Rightarrow> ('e, 'w, 'z) net_server_scheme \<Rightarrow> (int \<times> ('e, 'w, 'z) net_server_scheme) option)
    \<Rightarrow> ('e, 'w, 'z) net_server_scheme \<Rightarrow> (int \<times> ('e, 'w, 'z) net_server_scheme) option" where
  "open_queue c L nbufs bufsize fails dev_open undo s =
     (let area_size = nbufs * int bufsize;
          s = s\<lparr>ns_rx := [], ns_tx := []\<rparr>
      in case ns_alloc c area_size s of
           (None, s) \<Rightarrow> undo (- ENOMEM) s
         | (Some area, s) \<Rightarrow>
             (case ns_alloc c (nl_data_size L) s of
                (None, s) \<Rightarrow> Option.bind (ns_free c area_size area s) (undo (- ENOMEM))
              | (Some data, s) \<Rightarrow>
                  let s = s\<lparr>ns_ll_priv := True\<rparr>;
                      error = (\<lambda>ret s. Option.bind (ns_free c (nl_data_size L) data s)
                                        (\<lambda>s. Option.bind (ns_free c area_size area s) (undo ret)));
                      (ret, s) = dev_open s
                  in if fails ret then error ret s
                     else
                       let (ret, s) = server_init c L area nbufs bufsize s
                       in if ret \<noteq> 0 then error ret s else Some (ret, s)))"

definition unix_eth_open ::
  "alloc_cfg \<Rightarrow> 'e net_layout \<Rightarrow> 'w unix_host \<Rightarrow> bool \<Rightarrow> unix_eth_platform_data option
    \<Rightarrow> ('e, 'w) unix_eth_priv \<Rightarrow> (int \<times> ('e, 'w) unix_eth_priv) option" where
  "unix_eth_open c L H is_async pdata s =
     (if \<not> is_async then Some (- EINVAL, s)
      else
        case pdata of
          None \<Rightarrow> Some (- ENODEV, s)
        | Some p \<Rightarrow>
            (case ns_alloc c (nl_priv_size L) s of
               (None, s) \<Rightarrow> Some (- ENOMEM, s)
             | (Some priv, s) \<Rightarrow>
                 let error0 = (\<lambda>ret s. map_option (Pair ret) (ns_free c (nl_priv_size L) priv s))
                 in case unix_get_pipe_arch_data (ue_slots s) of
                      (None, fds) \<Rightarrow> error0 (- ENOMEM) s
                    | (Some i, fds) \<Rightarrow>
                        open_queue c L (ue_nbufs p) (ue_bufsize p) (\<lambda>ret. ret \<noteq> 0) (\<lambda>s. unix_eth_async_open H pdata (s\<lparr>ue_adata := i\<rparr>))
                          (\<lambda>ret s. error0 ret (s\<lparr>ue_slots := unix_free_pipe_arch_data i (ue_slots s)\<rparr>)) (s\<lparr>ue_slots := fds\<rparr>)))"

section \<open>ESP8266\<close>

text \<open>The vendor's library: the interface, its address, packet buffers, sending, and the calls that set up the station.\<close>

record 'w wlan_lib =
  wl_mac :: "'w \<Rightarrow> u8 list"
  wl_netif :: "'w \<Rightarrow> bool"
  wl_pbuf_alloc :: "nat \<Rightarrow> 'w \<Rightarrow> bool \<times> 'w"
  wl_output :: "u8 list \<Rightarrow> 'w \<Rightarrow> 'w"
  wl_station_setup :: "'w \<Rightarrow> 'w"
  wl_disconnect :: "'w \<Rightarrow> 'w"
  wl_ets_task :: "nat \<Rightarrow> 'w \<Rightarrow> 'w"

definition esp8266_wlan_start_tx :: "'w wlan_lib \<Rightarrow> ('e, 'w) net_server \<Rightarrow> ('e, 'w) net_server" where
  "esp8266_wlan_start_tx L s =
     (let mac = wl_mac L (ns_hw s)
      in if \<not> wl_netif L (ns_hw s) then s
         else
           (case ns_tx s of
              [] \<Rightarrow> s
            | b # bs \<Rightarrow>
                let addr = addr_val (op_addr (ns_op s b));
                    (ok, w) = wl_pbuf_alloc L (bd_data_size (the_buf b (ns_sys s)) + 14) (ns_hw s);
                    s = s\<lparr>ns_hw := w\<rparr>
                in if \<not> ok then s
                   else
                     let payload = take 6 addr @ take 6 mac @ take 2 (drop 6 addr) @ ns_data b s
                     in ns_buf_done b (s\<lparr>ns_hw := wl_output L payload (ns_hw s)\<rparr>)))"

definition esp8266_wlan_setup_handler :: "'w wlan_lib \<Rightarrow> nat option \<Rightarrow> ('e, 'w) net_server \<Rightarrow> ('e, 'w) net_server" where
  "esp8266_wlan_setup_handler L = net_setup_handler (esp8266_wlan_start_tx L)"

definition esp8266_wlan_done_handler :: "nat option \<Rightarrow> ('e, 'w) net_server \<Rightarrow> ('e, 'w) net_server" where
  "esp8266_wlan_done_handler = net_done_handler"

datatype wifi_event = EVENT_STAMODE_CONNECTED | EVENT_STAMODE_DISCONNECTED | EVENT_STAMODE_GOT_IP | EVENT_STAMODE_OTHER

definition wifi_callback :: "alloc_cfg \<Rightarrow> int \<Rightarrow> 'w wlan_lib \<Rightarrow> wifi_event \<Rightarrow> ('e, 'w) net_server \<Rightarrow> ('e, 'w) net_server" where
  "wifi_callback c tag_size L evt s =
     (case evt of
        EVENT_STAMODE_CONNECTED \<Rightarrow>
          (case ns_alloc c (tag_size * 4) s of
             (None, s) \<Rightarrow> s\<lparr>ns_hw := wl_disconnect L (ns_hw s)\<rparr>
           | (Some queue, s) \<Rightarrow> s\<lparr>ns_hw := wl_ets_task L queue (ns_hw s)\<rparr>)
      | _ \<Rightarrow> s)"

definition esp8266_wlan_async_open :: "'w wlan_lib \<Rightarrow> ('e, 'w) net_server \<Rightarrow> int \<times> ('e, 'w) net_server" where
  "esp8266_wlan_async_open L s = (0, s\<lparr>ns_hw := wl_station_setup L (ns_hw s)\<rparr>)"

definition esp8266_wlan_open ::
  "alloc_cfg \<Rightarrow> 'e net_layout \<Rightarrow> 'w wlan_lib \<Rightarrow> bool \<Rightarrow> int \<Rightarrow> nat \<Rightarrow> ('e, 'w) net_server \<Rightarrow> (int \<times> ('e, 'w) net_server) option" where
  "esp8266_wlan_open c L W is_async nbufs bufsize s =
     (if \<not> is_async then Some (- EINVAL, s)
      else
        case ns_alloc c (nl_priv_size L) s of
          (None, s) \<Rightarrow> Some (- ENOMEM, s)
        | (Some priv, s) \<Rightarrow>
            open_queue c L nbufs bufsize (\<lambda>ret. ret < 0) (esp8266_wlan_async_open W)
              (\<lambda>ret s. map_option (Pair ret) (ns_free c (nl_priv_size L) priv s)) s)"

end
