(* ===== verification/AsyncEthProps.thy ===== *)
theory AsyncEthProps
  imports AsyncEth
begin

text \<open>
  Properties of the network drivers: no buffer is lost between the client, the queue and the driver, a failed open gives back what it took, and
  what happens to packets that are sent and received. The locale \<open>net_driver\<close> has what a driver keeps of the buffers.
\<close>

section \<open>Buffers\<close>

definition ns_bufs :: "nat \<Rightarrow> ('e, 'w, 'z) net_server_scheme \<Rightarrow> nat list" where
  "ns_bufs q s = queue_bufs q (ns_sys s) @ ns_rx s @ ns_tx s"

definition ns_wf :: "nat \<Rightarrow> ('e, 'w, 'z) net_server_scheme \<Rightarrow> bool" where
  "ns_wf q s \<longleftrightarrow> distinct (ns_bufs q s) \<and> list_all (\<lambda>b. bd_queue (the_buf b (ns_sys s)) = q) (ns_bufs q s)"

definition ns_same :: "nat \<Rightarrow> ('e, 'w, 'z) net_server_scheme \<Rightarrow> ('e, 'w, 'z) net_server_scheme \<Rightarrow> bool" where
  "ns_same q s s' \<longleftrightarrow> mset (ns_bufs q s') = mset (ns_bufs q s)
     \<and> (\<forall>b. bd_queue (the_buf b (ns_sys s')) = bd_queue (the_buf b (ns_sys s)))"

lemma ns_same_wf: "ns_same q s s' \<Longrightarrow> ns_wf q s \<Longrightarrow> ns_wf q s'"
  unfolding ns_same_def ns_wf_def list_all_iff by (metis mset_eq_imp_distinct_iff mset_eq_setD)

lemma ns_same_refl [intro, simp]: "ns_same q s s"
  by (simp add: ns_same_def)

lemma ns_same_trans: "ns_same q s t \<Longrightarrow> ns_same q t u \<Longrightarrow> ns_same q s u"
  by (simp add: ns_same_def)

lemma ns_same_hw [simp]: "ns_same q s (s\<lparr>ns_hw := w\<rparr>)"
  by (simp add: ns_same_def ns_bufs_def)

lemma ns_wf_bq: "ns_wf q s \<Longrightarrow> bq_wf q (ns_sys s)"
  by (auto simp: ns_wf_def bq_wf_def ns_bufs_def list_all_iff)

lemma remove_split:
  assumes "distinct (A @ B @ C @ D)" "b \<in> set (A @ B @ C @ D)"
  shows "add_mset b (mset (remove1 b A) + mset (remove1 b B) + mset (remove1 b C) + mset (remove1 b D)) = mset (A @ B @ C @ D)"
proof -
  have "distinct A" "distinct B" "distinct C" "distinct D" using assms(1) by simp_all
  then have "mset (remove1 b A) + mset (remove1 b B) + mset (remove1 b C) + mset (remove1 b D) = mset (filter ((\<noteq>) b) (A @ B @ C @ D))"
    by (simp add: distinct_remove1_removeAll removeAll_filter_not_eq add.assoc)
  also have "\<dots> = mset (remove1 b (A @ B @ C @ D))"
    using assms(1) by (simp only: distinct_remove1_removeAll removeAll_filter_not_eq)
  finally show ?thesis using assms(2) by (simp only: mset_remove1) (simp only: insert_DiffM set_mset_mset)
qed

text \<open>The lists after a buffer has been taken from the one it is on.\<close>

lemma unlink_lists:
  assumes "bd_queue (the_buf b (ns_sys s)) = q"
  shows "the_queue q (queue_unlink b (ns_sys s)) =
      (the_queue q (ns_sys s))\<lparr>bq_free_bufs := remove1 b (bq_free_bufs (the_queue q (ns_sys s))),
                               bq_busy_bufs := remove1 b (bq_busy_bufs (the_queue q (ns_sys s)))\<rparr>"
    "the_buf x (queue_unlink b (ns_sys s)) = the_buf x (ns_sys s)"
  using assms by (simp_all add: queue_unlink_def Let_def)

lemma ns_wf_split:
  assumes "ns_wf q s" "b \<in> set (ns_bufs q s)"
  shows "bd_queue (the_buf b (ns_sys s)) = q"
    "add_mset b (mset (remove1 b (bq_free_bufs (the_queue q (ns_sys s)))) + mset (remove1 b (bq_busy_bufs (the_queue q (ns_sys s))))
       + mset (remove1 b (ns_rx s)) + mset (remove1 b (ns_tx s))) = mset (ns_bufs q s)"
  using assms remove_split [of "bq_free_bufs (the_queue q (ns_sys s))" "bq_busy_bufs (the_queue q (ns_sys s))" "ns_rx s" "ns_tx s" b]
  by (auto simp: ns_wf_def ns_bufs_def queue_bufs_def list_all_iff)

lemma ns_same_move:
  assumes "ns_wf q s" "b \<in> set (ns_bufs q s)"
  shows "ns_same q s (move_to_tx b s)" "ns_same q s (move_to_rx b s)"
  using ns_wf_split [OF assms]
  by (simp_all add: ns_same_def ns_bufs_def queue_bufs_def move_to_tx_def move_to_rx_def list_unlink_def unlink_lists Let_def add.assoc)

lemma ns_same_done:
  assumes "ns_wf q s" "b \<in> set (ns_bufs q s)"
  shows "ns_same q s (ns_buf_done b s)"
proof -
  note d = ns_wf_split [OF assms]
  have "the_queue q (bathos_bqueue_server_buf_done b (ns_sys s)) =
      (the_queue q (ns_sys s))\<lparr>bq_free_bufs := b # remove1 b (bq_free_bufs (the_queue q (ns_sys s))),
                               bq_busy_bufs := remove1 b (bq_busy_bufs (the_queue q (ns_sys s)))\<rparr>"
    "the_buf x (bathos_bqueue_server_buf_done b (ns_sys s)) = the_buf x (ns_sys s)" for x
    using d(1) by (auto simp: bathos_bqueue_server_buf_done_def Let_def split: option.split)
  then show ?thesis using d(2)
    by (simp add: ns_same_def ns_bufs_def queue_bufs_def ns_buf_done_def list_unlink_def Let_def add.assoc)
qed

text \<open>The steps of a client, of the handlers of the driver, and of the network.\<close>

inductive net_step ::
  "nat \<Rightarrow> (('e, 'w, 'z) net_server_scheme \<Rightarrow> ('e, 'w, 'z) net_server_scheme) \<Rightarrow> (('e, 'w, 'z) net_server_scheme \<Rightarrow> ('e, 'w, 'z) net_server_scheme)
    \<Rightarrow> ('e, 'w, 'z) net_server_scheme \<Rightarrow> ('e, 'w, 'z) net_server_scheme \<Rightarrow> bool"
  for q start_tx input where
  net_client: "bq_step q (ns_sys s) sys \<Longrightarrow> net_step q start_tx input s (s\<lparr>ns_sys := sys\<rparr>)"
| net_fill: "net_step q start_tx input s (s\<lparr>ns_op := ops, ns_bytes := bytes\<rparr>)"
| net_setup: "b \<in> set (ns_bufs q s) \<Longrightarrow> net_step q start_tx input s (net_setup_handler start_tx (Some b) s)"
| net_done: "b \<in> set (ns_bufs q s) \<Longrightarrow> net_step q start_tx input s (net_done_handler (Some b) s)"
| net_input: "net_step q start_tx input s (input s)"
| net_world: "net_step q start_tx input s (s\<lparr>ns_hw := w\<rparr>)"

locale net_driver =
  fixes start_tx input :: "('e, 'w, 'z) net_server_scheme \<Rightarrow> ('e, 'w, 'z) net_server_scheme"
  assumes start_tx_keeps: "ns_wf q s \<Longrightarrow> ns_same q s (start_tx s)"
    and input_keeps: "ns_wf q s \<Longrightarrow> ns_same q s (input s)"
begin

lemma setup_keeps:
  assumes "ns_wf q s" "b \<in> set (ns_bufs q s)"
  shows "ns_same q s (net_setup_handler start_tx (Some b) s)"
proof -
  note m = ns_same_move [OF assms]
  have "ns_same q s (start_tx (move_to_tx b s))" using ns_same_trans [OF m(1) start_tx_keeps] ns_same_wf [OF m(1) assms(1)] by blast
  then show ?thesis using m ns_same_done [OF assms] by (simp add: net_setup_handler_def split: bathos_buffer_op_type.split)
qed

lemma step_keeps:
  assumes "net_step q start_tx input s s'" "ns_wf q s"
  shows "ns_same q s s'"
  using assms(1)
proof cases
  case (net_client sys)
  from bq_step_same [OF net_client(2) ns_wf_bq [OF assms(2)]] net_client(1) show ?thesis
    by (simp add: ns_same_def same_bufs_def ns_bufs_def)
next
  case (net_setup b)
  with setup_keeps assms(2) show ?thesis by blast
next
  case (net_done b)
  with ns_same_done [OF assms(2)] show ?thesis by (simp add: net_done_handler_def)
next
  case net_input
  with input_keeps assms(2) show ?thesis by simp
qed (simp_all add: ns_same_def ns_bufs_def)

lemma steps_keep:
  assumes "(net_step q start_tx input)\<^sup>*\<^sup>* s s'" "ns_wf q s"
  shows "ns_wf q s' \<and> mset (ns_bufs q s') = mset (ns_bufs q s)"
  using assms
proof (induction rule: rtranclp_induct)
  case (step t u)
  then have "ns_same q t u" using step_keeps by blast
  with step ns_same_wf [of q t u] show ?case by (simp add: ns_same_def)
qed simp

end

lemma start_tx_same:
  assumes "ns_wf q s" "ns_tx s = b # bs"
  shows "ns_same q s (ns_buf_done b (s\<lparr>ns_hw := w\<rparr>))"
proof -
  from ns_same_wf [OF ns_same_hw assms(1)] have wf: "ns_wf q (s\<lparr>ns_hw := w\<rparr>)" .
  have "b \<in> set (ns_bufs q (s\<lparr>ns_hw := w\<rparr>))" using assms(2) by (simp add: ns_bufs_def)
  from ns_same_trans [OF ns_same_hw ns_same_done [OF wf this]] show ?thesis .
qed

lemma start_tx_same0: "ns_wf q s \<Longrightarrow> ns_tx s = b # bs \<Longrightarrow> ns_same q s (ns_buf_done b s)"
  by (rule ns_same_done) (simp_all add: ns_bufs_def)

lemma unix_eth_keeps:
  assumes "ns_wf q s"
  shows "ns_same q s (unix_eth_start_tx H pdata s)" "ns_same q s (unix_eth_input_ready_handler H pdata s)"
proof -
  show "ns_same q s (unix_eth_start_tx H pdata s)"
    using start_tx_same [OF assms] start_tx_same0 [OF assms]
    by (cases "ns_tx s") (auto simp: unix_eth_start_tx_def Let_def split: prod.split)
  show "ns_same q s (unix_eth_input_ready_handler H pdata s)"
    by (cases "ns_rx s")
      (auto simp: unix_eth_input_ready_handler_def ns_same_def ns_bufs_def queue_bufs_def bathos_bqueue_server_buf_processed_def Let_def split: prod.split)
qed

lemma esp8266_wlan_keeps: "ns_wf q s \<Longrightarrow> ns_same q s (esp8266_wlan_start_tx W s)"
  using start_tx_same [of q s] by (cases "ns_tx s") (auto simp: esp8266_wlan_start_tx_def Let_def split: prod.split)

interpretation unix_eth: net_driver "unix_eth_start_tx H pdata" "unix_eth_input_ready_handler H pdata"
  by unfold_locales (rule unix_eth_keeps, assumption)+

interpretation esp8266_wlan: net_driver "esp8266_wlan_start_tx W" "\<lambda>s. s"
  by unfold_locales (simp_all add: esp8266_wlan_keeps)

section \<open>Opening\<close>

abbreviation ns_al :: "('e, 'w, 'z) net_server_scheme \<Rightarrow> alloc_state" where
  "ns_al s \<equiv> bw_alloc (ev_world (ns_sys s))"

text \<open>The buffers \<open>A\<close> are held; a buffer larger than the smallest is of order at least 1.\<close>

lemma ns_alloc_cases:
  assumes "cfg_wf c" "alloc_state_inv c A (ns_al s)" "int (BATHOS_BUF_SIZE c 0) < sz"
  obtains s' where "ns_alloc c sz s = (None, s')" "alloc_state_inv c A (ns_al s')"
  | i m s' where "ns_alloc c sz s = (Some (i * BATHOS_BUF_SIZE c 0), s')" "size_to_order c sz = int m" "0 < m" "(i, m) \<notin> A"
      "alloc_state_inv c (insert (i, m) A) (ns_al s')"
proof (cases "bathos_alloc_buffer c sz (ns_al s)")
  case (Pair p al)
  show thesis
  proof (cases p)
    case None
    with Pair alloc_buffer_None(3) [OF assms(1,2)] show ?thesis by (intro that(1)) (auto simp: ns_alloc_def)
  next
    case (Some x)
    from Pair Some have "bathos_alloc_buffer c sz (ns_al s) = (Some x, al)" by simp
    from alloc_buffer_Some [OF assms(1,2) this] obtain i m where m: "x = i * BATHOS_BUF_SIZE c 0" "size_to_order c sz = int m" "(i, m) \<notin> A" "alloc_state_inv c (insert (i, m) A) al"
      by metis
    have "0 < m" using size_to_order_nonneg(2) [OF m(2)] assms(3) by (cases m) simp_all
    with m Pair Some show ?thesis by (intro that(2)) (auto simp: ns_alloc_def)
  qed
qed

lemma ns_free_live:
  assumes "cfg_wf c" "alloc_state_inv c (insert (i, m) A) (ns_al s)" "size_to_order c sz = int m" "0 < m" "(i, m) \<notin> A"
  obtains s' where "ns_free c sz (i * BATHOS_BUF_SIZE c 0) s = Some s'" "alloc_state_inv c A (ns_al s')"
proof -
  have "insert (i, m) A - {(i, m)} = A" using assms(5) by simp
  with free_buffer_live [OF assms(1,2) insertI1 assms(4,3)] obtain al where
    "bathos_free_buffer c (int (i * BATHOS_BUF_SIZE c 0)) sz (ns_al s) = Some al" "alloc_state_inv c A al" by metis
  then show thesis by (intro that) (auto simp: ns_free_def)
qed

text \<open>An outcome is clean when it is defined and a failure leaves the client with the buffers \<open>A\<close>.\<close>

definition clean :: "alloc_cfg \<Rightarrow> block set \<Rightarrow> (int \<times> ('e, 'w, 'z) net_server_scheme) option \<Rightarrow> bool" where
  "clean c A r \<longleftrightarrow> (case r of None \<Rightarrow> False | Some (ret, s) \<Rightarrow> ret = 0 \<or> alloc_state_inv c A (ns_al s))"

lemma clean_free:
  assumes "cfg_wf c" "alloc_state_inv c (insert (i, m) A) (ns_al s)" "size_to_order c sz = int m" "0 < m" "(i, m) \<notin> A"
    and "\<And>s. alloc_state_inv c A (ns_al s) \<Longrightarrow> clean c B (f s)"
  shows "clean c B (Option.bind (ns_free c sz (i * BATHOS_BUF_SIZE c 0) s) f)"
  using ns_free_live [OF assms(1-5)] assms(6) by (metis bind.bind_lunit)

lemma server_init_fails:
  assumes "cfg_wf c" "alloc_state_inv c A (ns_al s)" "server_init c L area nbufs bufsize s = (ret, s')" "ret \<noteq> 0"
  shows "alloc_state_inv c A (ns_al s')"
  using assms(2-4) alloc_buffer_None(3) [OF assms(1)]
  by (auto simp: server_init_def bathos_bqueue_server_init_def set_queue_def Let_def split: prod.splits option.splits if_splits)

lemma open_queue_clean:
  assumes c: "cfg_wf c" and inv: "alloc_state_inv c A (ns_al s)"
    and sizes: "int (BATHOS_BUF_SIZE c 0) < nbufs * int bufsize" "int (BATHOS_BUF_SIZE c 0) < nl_data_size L"
    and dev: "\<And>s. ns_al (snd (dev_open s)) = ns_al s"
    and undo: "\<And>ret s. alloc_state_inv c A (ns_al s) \<Longrightarrow> clean c B (undo ret s)"
  shows "clean c B (open_queue c L nbufs bufsize fails dev_open undo s)"
proof -
  have i: "alloc_state_inv c A (ns_al (s\<lparr>ns_rx := [], ns_tx := []\<rparr>))" using inv by simp
  show ?thesis
  proof (cases rule: ns_alloc_cases [OF c i sizes(1)])
    case (1 s')
    with undo show ?thesis by (simp add: open_queue_def)
  next
    case (2 i m s1)
    note area = 2 and free_area = clean_free [OF c _ 2(2,3,4) undo]
    show ?thesis
    proof (cases rule: ns_alloc_cases [OF c 2(5) sizes(2)])
      case (1 s2)
      with area free_area show ?thesis by (simp add: open_queue_def)
    next
      case (2 j n s2)
      have j: "(j, n) \<notin> insert (i, m) A" using 2(4) .
      obtain ret s3 where s3: "dev_open (s2\<lparr>ns_ll_priv := True\<rparr>) = (ret, s3)" by fastforce
      with dev [of "s2\<lparr>ns_ll_priv := True\<rparr>"] 2(5) have inv3: "alloc_state_inv c (insert (j, n) (insert (i, m) A)) (ns_al s3)" by simp
      have err: "clean c B (Option.bind (ns_free c (nl_data_size L) (j * BATHOS_BUF_SIZE c 0) t)
          (\<lambda>s. Option.bind (ns_free c (nbufs * int bufsize) (i * BATHOS_BUF_SIZE c 0) s) (undo x)))"
        if "alloc_state_inv c (insert (j, n) (insert (i, m) A)) (ns_al t)" for t x
        by (rule clean_free [OF c that 2(2,3) j free_area])
      obtain r s4 where s4: "server_init c L (i * BATHOS_BUF_SIZE c 0) nbufs bufsize s3 = (r, s4)" by fastforce
      from server_init_fails [OF c inv3 s4] err inv3 area 2 s3 s4 show ?thesis
        by (simp add: open_queue_def Let_def clean_def [of _ _ "Some _"])
    qed
  qed
qed

lemma ns_alloc_keeps: "(\<And>s f. Q (s\<lparr>ns_sys := f\<rparr>) = Q s) \<Longrightarrow> Q s \<Longrightarrow> ns_alloc c sz s = (p, s') \<Longrightarrow> Q s'"
  by (auto simp: ns_alloc_def split: prod.splits)

lemma undo_keeps:
  assumes "\<And>s f. Q (s\<lparr>ns_sys := f\<rparr>) = Q s" "Q s" "Option.bind (ns_free c sz p s) f = Some r"
  shows "\<exists>t. Q t \<and> f t = Some r"
  using assms by (auto simp: ns_free_def bind_eq_Some_conv)

lemma undo_keeps2:
  assumes Q: "\<And>s f. Q (s\<lparr>ns_sys := f\<rparr>) = Q s" and "Q s" "Option.bind (ns_free c sz p s) (\<lambda>s. Option.bind (ns_free c sz' p' s) f) = Some r"
  shows "\<exists>t. Q t \<and> f t = Some r"
proof -
  from undo_keeps [of Q, OF assms] obtain t where t: "Q t" "Option.bind (ns_free c sz' p' t) f = Some r" by (elim exE conjE)
  show ?thesis by (rule undo_keeps [of Q, OF Q t])
qed

text \<open>What the driver knows of its own data, a predicate \<open>Q\<close> that does not depend on the queue, holds when it undoes its work.\<close>

lemma open_queue_result:
  assumes r: "open_queue c L nbufs bufsize fails dev_open undo s = Some (ret, s')"
    and Q: "\<And>s f. Q (s\<lparr>ns_sys := f\<rparr>) = Q s" "\<And>s. Q (s\<lparr>ns_ll_priv := True\<rparr>) = Q s" "Q (s\<lparr>ns_rx := [], ns_tx := []\<rparr>)"
    and dev: "\<And>s. Q s \<Longrightarrow> Q (snd (dev_open s))" and "\<not> fails 0"
  shows "(\<exists>area t. ret = 0 \<and> Q t \<and> server_init c L area nbufs bufsize t = (0, s')) \<or> (\<exists>x t. x \<noteq> 0 \<and> Q t \<and> undo x t = Some (ret, s'))"
proof -
  note alloc = ns_alloc_keeps [where Q = Q, OF Q(1)] and undone = undo_keeps [where Q = Q, OF Q(1)]
    and undone2 = undo_keeps2 [where Q = Q, OF Q(1)]
  define s0 where "s0 = s\<lparr>ns_rx := [], ns_tx := []\<rparr>"
  have Q0: "Q s0" using Q(3) by (simp add: s0_def)
  obtain p s1 where s1: "ns_alloc c (nbufs * int bufsize) s0 = (p, s1)" by fastforce
  note Q1 = alloc [OF Q0 s1]
  show ?thesis
  proof (cases p)
    case None
    with r s1 have "undo (- ENOMEM) s1 = Some (ret, s')" by (simp add: open_queue_def flip: s0_def)
    with Q1 show ?thesis by (intro disjI2 exI [of _ "- ENOMEM"] exI [of _ s1]) (simp add: ENOMEM_def)
  next
    case (Some area)
    obtain d s2 where s2: "ns_alloc c (nl_data_size L) s1 = (d, s2)" by fastforce
    note Q2 = alloc [OF Q1 s2]
    obtain ret3 s3 where s3: "dev_open (s2\<lparr>ns_ll_priv := True\<rparr>) = (ret3, s3)" by fastforce
    have Q3: "Q s3" using dev [of "s2\<lparr>ns_ll_priv := True\<rparr>"] Q2 Q(2) s3 by simp
    obtain r4 s4 where s4: "server_init c L area nbufs bufsize s3 = (r4, s4)" by fastforce
    have Q4: "Q s4" using s4 Q3 Q(1) by (auto simp: server_init_def split: prod.splits)
    show ?thesis
    proof (cases d)
      case None
      with r s1 s2 Some have "Option.bind (ns_free c (nbufs * int bufsize) area s2) (undo (- ENOMEM)) = Some (ret, s')"
        by (simp add: open_queue_def Let_def flip: s0_def)
      from undone [OF Q2 this] show ?thesis by (intro disjI2 exI [of _ "- ENOMEM"]) (simp add: ENOMEM_def)
    next
      case (Some data)
      with r s1 s2 s3 s4 \<open>p = Some area\<close> consider "fails ret3" "Option.bind (ns_free c (nl_data_size L) data s3)
              (\<lambda>s. Option.bind (ns_free c (nbufs * int bufsize) area s) (undo ret3)) = Some (ret, s')"
        | "r4 \<noteq> 0" "Option.bind (ns_free c (nl_data_size L) data s4)
              (\<lambda>s. Option.bind (ns_free c (nbufs * int bufsize) area s) (undo r4)) = Some (ret, s')"
        | "r4 = 0" "ret = 0" "s4 = s'"
        by (auto simp: open_queue_def Let_def simp flip: s0_def split: if_splits)
      then show ?thesis
      proof cases
        case 1
        then have "ret3 \<noteq> 0" using assms(6) by (cases "ret3 = 0") simp_all
        from undone2 [OF Q3 1(2)] \<open>ret3 \<noteq> 0\<close> show ?thesis by (intro disjI2 exI [of _ ret3]) simp
      next
        case 2
        from undone2 [OF Q4 2(2)] 2(1) show ?thesis by (intro disjI2 exI [of _ r4]) simp
      next
        case 3
        with s4 Q3 show ?thesis by blast
      qed
    qed
  qed
qed

lemma server_init_wf:
  assumes "server_init c L area nbufs bufsize t = (0, s)" "0 < nl_op_size L" "ns_rx t = []" "ns_tx t = []"
  shows "ns_wf (nl_queue L) s \<and> length (ns_bufs (nl_queue L) s) = nat nbufs"
proof -
  obtain sys where i: "bathos_bqueue_server_init c (nl_op_size L) (nl_queue L) (Some (nl_setup_event L)) (Some (nl_done_event L)) (Some area) nbufs bufsize (ns_sys t)
      = (0, sys)" "s = t\<lparr>ns_sys := sys\<rparr>"
    using assms(1) by (auto simp: server_init_def split: prod.splits)
  from bqueue_server_init_wf [OF i(1) assms(2)] show ?thesis
    using assms(3,4) i(2) by (auto simp: ns_wf_def ns_bufs_def bq_wf_def list_all_iff)
qed

lemma unix_async_open_keeps:
  "ns_sys (snd (unix_eth_async_open H pdata s)) = ns_sys s" "ns_rx (snd (unix_eth_async_open H pdata s)) = ns_rx s"
  "ns_tx (snd (unix_eth_async_open H pdata s)) = ns_tx s" "ue_adata (snd (unix_eth_async_open H pdata s)) = ue_adata s"
  "(ue_slots (snd (unix_eth_async_open H pdata s)))[ue_adata s := v] = (ue_slots s)[ue_adata s := v]"
  by (auto simp: unix_eth_async_open_def eth_socket_def Let_def split: option.split prod.split)

lemma unix_get_slot:
  "unix_get_pipe_arch_data fds = (Some i, fds') \<Longrightarrow> fds'[i := BATHOS_UNIX_FREE_FD] = fds"
  by (auto simp: unix_get_pipe_arch_data_def find_Some_iff split: option.splits) (metis list_update_id)

lemma unix_free_priv:
  fixes t :: "('e, 'w) unix_eth_priv"
  assumes "cfg_wf c" "alloc_state_inv c (insert (i, m) A) (ns_al t)" "size_to_order c sz = int m" "0 < m" "(i, m) \<notin> A"
  obtains t' where "ns_free c sz (i * BATHOS_BUF_SIZE c 0) t = Some t'" "alloc_state_inv c A (ns_al t')" "ue_slots t' = ue_slots t"
  by (rule ns_free_live [OF assms]) (auto simp: ns_free_def intro: that)

abbreviation unix_open_rest where
  "unix_open_rest c L H p priv k \<equiv> open_queue c L (ue_nbufs p) (ue_bufsize p) (\<lambda>ret. ret \<noteq> 0)
     (\<lambda>s. unix_eth_async_open H (Some p) (s\<lparr>ue_adata := k\<rparr>))
     (\<lambda>ret s. map_option (Pair ret) (ns_free c (nl_priv_size L) priv (s\<lparr>ue_slots := unix_free_pipe_arch_data k (ue_slots s)\<rparr>)))"

lemma unix_open_rest_correct:
  fixes s :: "('e, 'w) unix_eth_priv"
  assumes c: "cfg_wf c" and i: "alloc_state_inv c (insert (i, m) A) (ns_al s)" "size_to_order c (nl_priv_size L) = int m" "0 < m" "(i, m) \<notin> A"
    and sizes: "int (BATHOS_BUF_SIZE c 0) < nl_data_size L" "int (BATHOS_BUF_SIZE c 0) < ue_nbufs p * int (ue_bufsize p)" "0 < nl_op_size L"
    and fds: "(ue_slots s)[k := BATHOS_UNIX_FREE_FD] = fds"
  shows "\<exists>ret s'. unix_open_rest c L H p (i * BATHOS_BUF_SIZE c 0) k s = Some (ret, s')
    \<and> (if ret = 0 then ns_wf (nl_queue L) s' \<and> length (ns_bufs (nl_queue L) s') = nat (ue_nbufs p)
        else alloc_state_inv c A (ns_al s') \<and> ue_slots s' = fds)"
proof -
  have undo: "clean c A (map_option (Pair ret) (ns_free c (nl_priv_size L) (i * BATHOS_BUF_SIZE c 0) (t\<lparr>ue_slots := f\<rparr>)))"
    if "alloc_state_inv c (insert (i, m) A) (ns_al t)" for ret f and t :: "('e, 'w) unix_eth_priv"
  proof -
    have "alloc_state_inv c (insert (i, m) A) (ns_al (t\<lparr>ue_slots := f\<rparr>))" using that by simp
    then obtain t' where "ns_free c (nl_priv_size L) (i * BATHOS_BUF_SIZE c 0) (t\<lparr>ue_slots := f\<rparr>) = Some t'" "alloc_state_inv c A (ns_al t')"
      by (rule ns_free_live [OF c _ i(2-4)])
    then show ?thesis by (simp add: clean_def)
  qed
  have "clean c A (unix_open_rest c L H p (i * BATHOS_BUF_SIZE c 0) k s)"
    by (rule open_queue_clean [OF c i(1) sizes(2,1)]) (simp_all add: unix_async_open_keeps undo)
  then obtain ret s' where r: "unix_open_rest c L H p (i * BATHOS_BUF_SIZE c 0) k s = Some (ret, s')" "ret = 0 \<or> alloc_state_inv c A (ns_al s')"
    by (auto simp: clean_def split: option.splits prod.splits)
  let ?Q = "\<lambda>t. ns_rx t = [] \<and> ns_tx t = [] \<and> (ue_slots t)[k := BATHOS_UNIX_FREE_FD] = fds"
  from open_queue_result [OF r(1), of ?Q] fds consider
    area t where "ret = 0" "?Q t" "server_init c L area (ue_nbufs p) (ue_bufsize p) t = (0, s')"
    | x t where "x \<noteq> 0" "?Q t" "map_option (Pair x) (ns_free c (nl_priv_size L) (i * BATHOS_BUF_SIZE c 0)
        (t\<lparr>ue_slots := unix_free_pipe_arch_data k (ue_slots t)\<rparr>)) = Some (ret, s')"
    by (auto simp: unix_async_open_keeps unix_async_open_keeps(5) [where s = "_\<lparr>ue_adata := k\<rparr>", simplified])
  then show ?thesis
  proof cases
    case 1
    with server_init_wf [OF 1(3) sizes(3)] r(1) show ?thesis by simp
  next
    case 2
    then have "ret = x" "ue_slots s' = fds" by (auto simp: ns_free_def unix_free_pipe_arch_data_def)
    with 2(1) r show ?thesis by simp
  qed
qed

text \<open>
  Opening the network device of a Unix host always has a defined result. A failed open has given back every buffer it took from the allocator
  and its entry in the table of descriptors; a successful one has a queue with the buffers asked for, all of them accounted for.
\<close>
theorem unix_eth_open_correct:
  assumes c: "cfg_wf c" and inv: "alloc_state_inv c A (bw_alloc (ev_world (ns_sys s)))"
    and sizes: "int (BATHOS_BUF_SIZE c 0) < nl_priv_size L" "int (BATHOS_BUF_SIZE c 0) < nl_data_size L"
      "int (BATHOS_BUF_SIZE c 0) < ue_nbufs p * int (ue_bufsize p)" "0 < nl_op_size L"
  shows "\<exists>ret s'. unix_eth_open c L H True (Some p) s = Some (ret, s')
    \<and> (if ret = 0 then ns_wf (nl_queue L) s' \<and> length (ns_bufs (nl_queue L) s') = nat (ue_nbufs p)
        else alloc_state_inv c A (bw_alloc (ev_world (ns_sys s'))) \<and> ue_slots s' = ue_slots s)"
proof (cases rule: ns_alloc_cases [OF c inv sizes(1)])
  case (1 s1)
  then have "ue_slots s1 = ue_slots s" by (auto simp: ns_alloc_def split: prod.splits)
  with 1 show ?thesis by (simp add: unix_eth_open_def ENOMEM_def)
next
  case (2 i m s1)
  have slots: "ue_slots s1 = ue_slots s" using 2(1) by (auto simp: ns_alloc_def split: prod.splits)
  show ?thesis
  proof (cases "unix_get_pipe_arch_data (ue_slots s1)")
    case (Pair so fds)
    show ?thesis
    proof (cases so)
      case None
      obtain t' where "ns_free c (nl_priv_size L) (i * BATHOS_BUF_SIZE c 0) s1 = Some t'" "alloc_state_inv c A (ns_al t')" "ue_slots t' = ue_slots s1"
        by (rule unix_free_priv [OF c 2(5,2,3,4)])
      with None Pair 2(1) slots show ?thesis by (simp add: unix_eth_open_def ENOMEM_def)
    next
      case (Some k)
      have "fds[k := BATHOS_UNIX_FREE_FD] = ue_slots s" using unix_get_slot [of "ue_slots s1" k fds] Pair Some slots by simp
      with unix_open_rest_correct [OF c _ 2(2,3,4) sizes(2,3,4), of "s1\<lparr>ue_slots := fds\<rparr>" k "ue_slots s" H] 2(1,5) Pair Some show ?thesis
        by (simp add: unix_eth_open_def Let_def)
    qed
  qed
qed

section \<open>A network\<close>

text \<open>A host that keeps what was sent, with its address, and delivers the packets that have arrived, cut at the room given.\<close>

record eth_net =
  en_sent :: "(u8 list \<times> u8 list) list"
  en_arrived :: "u8 list list"

definition eth_host :: "eth_net unix_host" where
  "eth_host = \<lparr>uh_sendto = (\<lambda>fd cs pr i a w. (int (length cs), w\<lparr>en_sent := en_sent w @ [(a, cs)]\<rparr>)),
     uh_recv = (\<lambda>fd n w. case en_arrived w of [] \<Rightarrow> (-1, [], w) | p # ps \<Rightarrow> (int (min n (length p)), take n p, w\<lparr>en_arrived := ps\<rparr>)),
     uh_socket = (\<lambda>t w. (5, w)), uh_ifindex = (\<lambda>fd n w. (Some 2, w)), uh_bind = (\<lambda>fd i t w. (0, w)), uh_close = (\<lambda>fd w. w),
     uh_remap_input_ready = (\<lambda>w. w)\<rparr>"

definition ex_eth_pdata :: unix_eth_platform_data where
  "ex_eth_pdata = \<lparr>ue_ifname = [], ue_eth_type = 0x86b5, ue_nbufs = 4, ue_bufsize = 64\<rparr>"

definition ex_eth_layout :: "nat net_layout" where
  "ex_eth_layout = \<lparr>nl_priv_size = 256, nl_data_size = 256, nl_op_size = 64, nl_queue = 0, nl_setup_event = 1, nl_done_event = 2\<rparr>"

definition ex_eth :: "(nat, eth_net) unix_eth_priv" where
  "ex_eth = \<lparr>ns_sys = ex_bqsys, ns_op = (\<lambda>_. \<lparr>op_type = SEND, op_addr = \<lparr>addr_type = REMOTE_MAC, addr_length = 6, addr_val = [1, 2, 3, 4, 5, 6, 0, 0]\<rparr>\<rparr>),
     ns_bytes = (\<lambda>_. []), ns_rx = [], ns_tx = [], ns_ll_priv = True, ns_hw = \<lparr>en_sent = [], en_arrived = []\<rparr>,
     ue_fd = 5, ue_if_index = 2, ue_slots = replicate 4 (- 1), ue_adata = 0\<rparr>"

text \<open>
  C36. A successfully opened network device loses no buffer: whatever its client, its handlers and the network do, the free, busy, receiving and sending buffers together are
  the ones of the queue, each on one list.
\<close>
theorem unix_eth_conserves:
  assumes "unix_eth_open c L H True (Some p) s0 = Some (0, s)" "0 < nl_op_size L"
    and "cfg_wf c" "alloc_state_inv c A (bw_alloc (ev_world (ns_sys s0)))"
      "int (BATHOS_BUF_SIZE c 0) < nl_priv_size L" "int (BATHOS_BUF_SIZE c 0) < nl_data_size L" "int (BATHOS_BUF_SIZE c 0) < ue_nbufs p * int (ue_bufsize p)"
    and "(net_step (nl_queue L) (unix_eth_start_tx H p) (unix_eth_input_ready_handler H p))\<^sup>*\<^sup>* s s'"
  shows "distinct (ns_bufs (nl_queue L) s') \<and> length (ns_bufs (nl_queue L) s') = nat (ue_nbufs p)"
proof -
  from unix_eth_open_correct [OF assms(3-7,2), of H] assms(1) have o: "ns_wf (nl_queue L) s" "length (ns_bufs (nl_queue L) s) = nat (ue_nbufs p)" by auto
  from unix_eth.steps_keep [OF assms(8) o(1)] have "ns_wf (nl_queue L) s'" "mset (ns_bufs (nl_queue L) s') = mset (ns_bufs (nl_queue L) s)" by auto
  then show ?thesis using o(2) mset_eq_length by (fastforce simp: ns_wf_def)
qed

text \<open>Four requests of a quarter of the memory; \<open>ex_al\<close> is the allocator with the given last word of its bitmap.\<close>

definition ex_al :: "u32 \<Rightarrow> alloc_state" where
  "ex_al v = \<lparr>al_bitmap = [0, 0, 0, 0, 0, 0, 0, v], al_initialized = True\<rparr>"

lemma ex_al_1: "bathos_alloc_buffer default_cfg 256 (alloc_boot default_cfg) = (Some 0, ex_al 0x22000000)"
  by code_simp

lemma ex_al_2: "bathos_alloc_buffer default_cfg 256 (ex_al 0x22000000) = (Some 256, ex_al 0x20000000)"
  by code_simp

lemma ex_al_3: "bathos_alloc_buffer default_cfg 256 (ex_al 0x20000000) = (Some 512, ex_al 0x08000000)"
  by code_simp

lemma ex_al_4: "bathos_alloc_buffer default_cfg 256 (ex_al 0x08000000) = (Some 768, ex_al 0)"
  by code_simp

lemmas ex_al_allocs = ex_al_1 ex_al_2 ex_al_3 ex_al_4

lemma ex_eth_opens: "map_option fst (unix_eth_open default_cfg ex_eth_layout eth_host True (Some ex_eth_pdata) ex_eth) = Some 0"
proof -
  have "bw_alloc (ev_world ex_bqsys) = alloc_boot default_cfg" by (simp add: ex_bqsys_def)
  moreover have "unix_get_pipe_arch_data (replicate 4 (- 1)) = (Some 0, [- 2, - 1, - 1, - 1])" by code_simp
  ultimately show ?thesis
    by (simp add: unix_eth_open_def open_queue_def ns_alloc_def server_init_def bathos_bqueue_server_init_def set_queue_def unix_eth_async_open_def
        eth_socket_def eth_host_def ex_eth_layout_def ex_eth_pdata_def ex_eth_def ex_al_allocs Let_def)
qed

theorem unix_eth_conserves_witness:
  "\<exists>s. unix_eth_open default_cfg ex_eth_layout eth_host True (Some ex_eth_pdata) ex_eth = Some (0, s)
    \<and> length (ns_bufs 0 (unix_eth_input_ready_handler eth_host ex_eth_pdata s)) = 4"
proof -
  from ex_eth_opens obtain s where s: "unix_eth_open default_cfg ex_eth_layout eth_host True (Some ex_eth_pdata) ex_eth = Some (0, s)" by auto
  have "BATHOS_BUF_SIZE default_cfg 0 = 8" by code_simp
  then have sizes: "int (BATHOS_BUF_SIZE default_cfg 0) < nl_priv_size ex_eth_layout" "int (BATHOS_BUF_SIZE default_cfg 0) < nl_data_size ex_eth_layout"
    "int (BATHOS_BUF_SIZE default_cfg 0) < ue_nbufs ex_eth_pdata * int (ue_bufsize ex_eth_pdata)" "0 < nl_op_size ex_eth_layout"
    by (simp_all add: ex_eth_layout_def ex_eth_pdata_def)
  have boot: "alloc_state_inv default_cfg {} (ns_al ex_eth)" by (simp add: ex_eth_def ex_bqsys_def alloc_state_inv_def alloc_boot_def)
  have "(net_step (nl_queue ex_eth_layout) (unix_eth_start_tx eth_host ex_eth_pdata) (unix_eth_input_ready_handler eth_host ex_eth_pdata))\<^sup>*\<^sup>*
      s (unix_eth_input_ready_handler eth_host ex_eth_pdata s)" by (intro r_into_rtranclp net_input)
  from unix_eth_conserves [OF s sizes(4) default_cfg_wf boot sizes(1-3) this] s show ?thesis
    by (simp add: ex_eth_layout_def ex_eth_pdata_def)
qed

text \<open>
  A buffer with a packet for a hardware address is sent when the client releases it, once and to that address, and is free again; a buffer with
  another kind of address is freed and nothing is sent.
\<close>
theorem unix_eth_sends:
  assumes "ns_wf q s" "b \<in> set (ns_bufs q s)" "ns_ll_priv s" "ns_tx s = []" "op_type (ns_op s b) = SEND"
  shows "let s' = unix_eth_setup_handler eth_host p (Some b) s; a = op_addr (ns_op s b)
    in en_sent (ns_hw s') = en_sent (ns_hw s) @ (if addr_type a = REMOTE_MAC \<and> addr_length a = 6 then [(take 6 (addr_val a), ns_data b s)] else [])
      \<and> ns_tx s' = [] \<and> bq_free_bufs (the_queue q (ns_sys s')) = b # remove1 b (bq_free_bufs (the_queue q (ns_sys s)))"
proof -
  have q: "bd_queue (the_buf b (ns_sys s)) = q" using assms(1,2) by (auto simp: ns_wf_def list_all_iff)
  have nb: "b \<notin> set (remove1 b (bq_free_bufs (the_queue q (ns_sys s))))"
    using assms(1) by (auto simp: ns_wf_def ns_bufs_def queue_bufs_def)
  show ?thesis
    using assms(3-5) q nb
    by (auto simp: unix_eth_setup_handler_def net_setup_handler_def unix_eth_start_tx_def move_to_tx_def list_unlink_def unlink_lists
        ns_buf_done_def ns_data_def bathos_bqueue_server_buf_done_def eth_host_def ETHER_ADDR_LEN_def Let_def remove1_idem split: option.split)
qed

definition processed_event :: "nat \<Rightarrow> 'e bqsys \<Rightarrow> ('e, bq_ptr) pending_event" where
  "processed_event b s = \<lparr>pe_event = bq_processed_event (the_queue (bd_queue (the_buf b s)) s), pe_data = Some (BPtr b)\<rparr>"

lemma buf_processed_event:
  assumes "ev_wf s" "length (ev_queue s) < ev_cap s"
  shows "ev_wf (bathos_bqueue_server_buf_processed b s)" "ev_cap (bathos_bqueue_server_buf_processed b s) = ev_cap s"
    "ev_queue (bathos_bqueue_server_buf_processed b s) = ev_queue s @ [processed_event b s]"
    "ev_world (bathos_bqueue_server_buf_processed b s) = ev_world s"
  using trigger_event_room [OF assms] by (simp_all add: bathos_bqueue_server_buf_processed_def processed_event_def ev_cap_def)

lemma unix_input_step:
  assumes "ns_rx s = b # bs" "en_arrived (ns_hw s) = c # cs" "length c \<le> ue_bufsize p"
    and "ev_wf (ns_sys s)" "length (ev_queue (ns_sys s)) < ev_cap (ns_sys s)"
  shows "\<exists>sys. unix_eth_input_ready_handler eth_host p s =
      s\<lparr>ns_hw := (ns_hw s)\<lparr>en_arrived := cs\<rparr>, ns_bytes := (ns_bytes s)(b := c @ drop (length c) (ns_bytes s b)), ns_sys := sys\<rparr>
    \<and> ev_wf sys \<and> ev_cap sys = ev_cap (ns_sys s) \<and> ev_queue sys = ev_queue (ns_sys s) @ [processed_event b (ns_sys s)]
    \<and> bd_data_size (the_buf b sys) = length c \<and> processed_event b sys = processed_event b (ns_sys s)"
proof -
  let ?t = "set_buf b ((the_buf b (ns_sys s))\<lparr>bd_data_size := length c\<rparr>) (ns_sys s)"
  let ?sys = "bathos_bqueue_server_buf_processed b ?t"
  note e = buf_processed_event [of ?t b]
  have same: "processed_event b ?t = processed_event b (ns_sys s)" by (simp add: processed_event_def)
  have w: "the_buf b ?sys = the_buf b ?t" "\<And>q. the_queue q ?sys = the_queue q ?t" using e(4) assms(4,5) by (simp_all add: the_buf_def the_queue_def)
  then have "processed_event b ?sys = processed_event b ?t" by (simp add: processed_event_def)
  with e assms same w show ?thesis
    by (intro exI [of _ ?sys]) (simp add: unix_eth_input_ready_handler_def eth_host_def Let_def)
qed

text \<open>
  Receiving does not move a buffer on: when two packets arrive before the client has released the first, both go to the same buffer, the first is lost, the client is told
  twice about the second, and the buffers behind stay unused.
\<close>
theorem unix_eth_input_overwrites:
  assumes "ns_rx s = b # bs" "en_arrived (ns_hw s) = c1 # c2 # cs" "length c1 \<le> ue_bufsize p" "length c2 \<le> ue_bufsize p"
    and "ev_wf (ns_sys s)" "length (ev_queue (ns_sys s)) + 2 \<le> ev_cap (ns_sys s)"
  shows "let s' = unix_eth_input_ready_handler eth_host p (unix_eth_input_ready_handler eth_host p s)
    in ns_data b s' = c2 \<and> ns_rx s' = b # bs \<and> ev_queue (ns_sys s') = ev_queue (ns_sys s) @ [processed_event b (ns_sys s), processed_event b (ns_sys s)]"
proof -
  from assms(6) have r: "length (ev_queue (ns_sys s)) < ev_cap (ns_sys s)" by simp
  from unix_input_step [OF assms(1,2,3,5) r] obtain sys where s1:
    "unix_eth_input_ready_handler eth_host p s =
      s\<lparr>ns_hw := (ns_hw s)\<lparr>en_arrived := c2 # cs\<rparr>, ns_bytes := (ns_bytes s)(b := c1 @ drop (length c1) (ns_bytes s b)), ns_sys := sys\<rparr>" (is "_ = ?t")
    "ev_wf sys" "ev_cap sys = ev_cap (ns_sys s)" "ev_queue sys = ev_queue (ns_sys s) @ [processed_event b (ns_sys s)]"
    "processed_event b sys = processed_event b (ns_sys s)" by blast
  have t: "ns_rx ?t = b # bs" "en_arrived (ns_hw ?t) = c2 # cs" "ev_wf (ns_sys ?t)" "length (ev_queue (ns_sys ?t)) < ev_cap (ns_sys ?t)"
    using assms s1 by simp_all
  from unix_input_step [OF t(1,2) assms(4) t(3,4)] s1 assms(1) show ?thesis by (auto simp: ns_data_def)
qed

section \<open>The wireless network\<close>

text \<open>A library whose packet buffers may run out: \<open>wn_alloc\<close> has the results of the next allocations, later ones succeed.\<close>

record wlan_net =
  wn_alloc :: "bool list"
  wn_sent :: "u8 list list"

definition wlan_model :: "u8 list \<Rightarrow> wlan_net wlan_lib" where
  "wlan_model mac = \<lparr>wl_mac = (\<lambda>w. mac), wl_netif = (\<lambda>w. True),
     wl_pbuf_alloc = (\<lambda>n w. case wn_alloc w of [] \<Rightarrow> (True, w) | r # rs \<Rightarrow> (r, w\<lparr>wn_alloc := rs\<rparr>)),
     wl_output = (\<lambda>cs w. w\<lparr>wn_sent := wn_sent w @ [cs]\<rparr>), wl_station_setup = (\<lambda>w. w), wl_disconnect = (\<lambda>w. w), wl_ets_task = (\<lambda>q w. w)\<rparr>"

definition wlan_frame :: "u8 list \<Rightarrow> ('e, wlan_net) net_server \<Rightarrow> nat \<Rightarrow> u8 list" where
  "wlan_frame mac s b = (let a = addr_val (op_addr (ns_op s b)) in take 6 a @ take 6 mac @ take 2 (drop 6 a) @ ns_data b s)"

definition wlan_release :: "u8 list \<Rightarrow> nat list \<Rightarrow> ('e, wlan_net) net_server \<Rightarrow> ('e, wlan_net) net_server" where
  "wlan_release mac = fold (\<lambda>b. esp8266_wlan_setup_handler (wlan_model mac) (Some b))"

lemma the_buf_moves [simp]:
  "the_buf x (queue_unlink b s) = the_buf x s" "the_buf x (bathos_bqueue_server_buf_done b s) = the_buf x s"
  by (auto simp: queue_unlink_def bathos_bqueue_server_buf_done_def Let_def split: option.split)

lemma wlan_step:
  fixes mac s'
  assumes "ns_ll_priv s" "op_type (ns_op s b) = SEND" "wn_alloc (ns_hw s) = []" "ns_tx s = [a]" "a \<noteq> b"
  defines "s' \<equiv> esp8266_wlan_setup_handler (wlan_model mac) (Some b) s"
  shows "ns_tx s' = [b]" "wn_sent (ns_hw s') = wn_sent (ns_hw s) @ [wlan_frame mac s a]" "wn_alloc (ns_hw s') = []" "ns_ll_priv s'"
    "ns_op s' = ns_op s" "wlan_frame mac s' = wlan_frame mac s"
  using assms(1-5)
  by (simp_all add: s'_def esp8266_wlan_setup_handler_def net_setup_handler_def esp8266_wlan_start_tx_def move_to_tx_def list_unlink_def
      ns_buf_done_def wlan_model_def wlan_frame_def ns_data_def Let_def fun_eq_iff)

lemma wlan_behind:
  assumes "ns_ll_priv s" "wn_alloc (ns_hw s) = []" "ns_tx s = [a]" "distinct (a # bs)" "list_all (\<lambda>b. op_type (ns_op s b) = SEND) bs"
  shows "wn_sent (ns_hw (wlan_release mac bs s)) = wn_sent (ns_hw s) @ map (wlan_frame mac s) (butlast (a # bs))
    \<and> ns_tx (wlan_release mac bs s) = [last (a # bs)]"
  using assms
proof (induction bs arbitrary: a s)
  case (Cons b bs)
  then have "ns_ll_priv s" "op_type (ns_op s b) = SEND" "wn_alloc (ns_hw s) = []" "ns_tx s = [a]" "a \<noteq> b" by simp_all
  note st = wlan_step [OF this, of mac]
  from Cons.IH [OF st(4,3,1)] Cons.prems st(2,5,6) show ?case by (simp add: wlan_release_def)
qed (simp add: wlan_release_def)

text \<open>
  One packet buffer that could not be had puts the ESP8266 one packet behind for good: its packet stays in the transmit list, every packet the client releases afterwards sends
  the one before, and the last one waits.
\<close>
theorem wlan_one_behind:
  assumes "ns_ll_priv s" "wn_alloc (ns_hw s) = [False]" "ns_tx s = []" "distinct bs" "bs \<noteq> []" "list_all (\<lambda>b. op_type (ns_op s b) = SEND) bs"
  shows "wn_sent (ns_hw (wlan_release mac bs s)) = wn_sent (ns_hw s) @ map (wlan_frame mac s) (butlast bs)
    \<and> ns_tx (wlan_release mac bs s) = [last bs]"
proof -
  from assms(5) obtain b cs where bs: "bs = b # cs" by (cases bs) simp_all
  define s1 where "s1 = esp8266_wlan_setup_handler (wlan_model mac) (Some b) s"
  have s1: "ns_tx s1 = [b]" "wn_sent (ns_hw s1) = wn_sent (ns_hw s)" "wn_alloc (ns_hw s1) = []" "ns_ll_priv s1" "ns_op s1 = ns_op s" "wlan_frame mac s1 = wlan_frame mac s"
    using assms bs
    by (simp_all add: s1_def esp8266_wlan_setup_handler_def net_setup_handler_def esp8266_wlan_start_tx_def move_to_tx_def list_unlink_def
        wlan_model_def wlan_frame_def ns_data_def Let_def fun_eq_iff)
  from wlan_behind [OF s1(4,3,1), of cs mac] assms(4,6) s1(2,5,6) bs show ?thesis by (simp add: wlan_release_def flip: s1_def)
qed

end
