(* ===== verification/RadioBridge.thy ===== *)
theory RadioBridge
  imports Strings
begin

text \<open>
  The two sides of the radio bridge, \<^verbatim>\<open>drivers/radio-bridge-master.c\<close> and \<^verbatim>\<open>drivers/radio-bridge-slave.c\<close>.

  The state of a side is its private data with the contents of its buffers; \<open>None\<close> in the device is the null pointer,
  \<open>Rb_freed\<close> a pointer to freed memory. Pipes and the allocator are the record \<open>rb_env\<close>, functions on the rest of
  the system: the input pipe is \<open>True\<close>, the output pipe of the master \<open>False\<close>,
  remapping its ready event and clearing the data of the bridge's own pipe are effects on it. The allocator gives the bytes that
  the memory held. \<open>None\<close> is a use of freed memory or a null pointer.
\<close>

section \<open>Data\<close>

record 'w rb_env =
  rb_platform_data :: bool
  rb_packet_size :: int
  rb_pipe_open :: "bool \<Rightarrow> 'w \<Rightarrow> bool \<times> 'w"
  rb_pipe_remap :: "bool \<Rightarrow> 'w \<Rightarrow> 'w"
  rb_pipe_close :: "bool \<Rightarrow> 'w \<Rightarrow> 'w"
  rb_pipe_read :: "bool \<Rightarrow> int \<Rightarrow> 'w \<Rightarrow> int \<times> u8 list \<times> 'w"
  rb_pipe_write :: "bool \<Rightarrow> u8 list \<Rightarrow> 'w \<Rightarrow> int \<times> 'w"
  rb_alloc :: "int \<Rightarrow> 'w \<Rightarrow> u8 list option \<times> 'w"
  rb_free :: "int \<Rightarrow> 'w \<Rightarrow> 'w"
  rb_filter :: "(u8 list \<Rightarrow> bool) option"
  rb_trigger_input_ready :: "'w \<Rightarrow> 'w"
  rb_clear_pipe_data :: "'w \<Rightarrow> 'w"

record rb_master_private_data =
  m_packet_in_ipipe_buffer :: bool
  m_filter_out_packet :: bool
  m_input_bytes :: u8
  m_ipipe_buffer :: "u8 list"
  m_opipe_buffer :: "u8 list"
  m_ninstances :: int

record rb_slave_private_data =
  s_packet_in_input_buffer :: u8
  s_input_buffer :: "u8 list"
  s_input_bytes :: int
  s_packets_in_output_buffer :: u8
  s_output_buffer :: "u8 list"
  s_ninstances :: int

datatype 'p rb_priv = Rb_null | Rb_freed | Rb 'p

record ('p, 'w) rb_dev =
  rb_priv :: "'p rb_priv"
  rb_world :: 'w

definition MAX_PACKETS_IN_OUTPUT_BUFFER :: nat where "MAX_PACKETS_IN_OUTPUT_BUFFER = 2"

definition rb_put :: "'p \<Rightarrow> 'w \<Rightarrow> ('p, 'w) rb_dev \<Rightarrow> ('p, 'w) rb_dev" where
  "rb_put p w d = d\<lparr>rb_priv := Rb p, rb_world := w\<rparr>"

section \<open>Master\<close>

definition rb_master_do_beacon ::
  "'w rb_env \<Rightarrow> (rb_master_private_data, 'w) rb_dev \<Rightarrow> (rb_master_private_data, 'w) rb_dev option" where
  "rb_master_do_beacon E d =
     (case rb_priv d of
        Rb_null \<Rightarrow> Some d
      | Rb_freed \<Rightarrow> None
      | Rb p \<Rightarrow>
          let (buf, p) = (if m_packet_in_ipipe_buffer p \<and> \<not> m_filter_out_packet p
                          then (take (nat (rb_packet_size E)) (m_ipipe_buffer p), p\<lparr>m_packet_in_ipipe_buffer := False\<rparr>)
                          else ([], p))
          in Some (rb_put p (snd (rb_pipe_write E False buf (rb_world d))) d))"

text \<open>
  Opening allocates the private data, whose fields keep what the memory held (\<open>stale\<close>), opens the two pipes and allocates
  the two buffers; on an error what was obtained is given back. \<open>priv_size\<close> is the size of the structure.
\<close>

definition rb_master_open ::
  "'w rb_env \<Rightarrow> int \<Rightarrow> (u8 list \<Rightarrow> rb_master_private_data) \<Rightarrow> (rb_master_private_data, 'w) rb_dev \<Rightarrow> int \<times> (rb_master_private_data, 'w) rb_dev" where
  "rb_master_open E priv_size stale d =
     (if \<not> rb_platform_data E then (- EINVAL, d)
      else if rb_priv d \<noteq> Rb_null then (0, d)
      else let sz = rb_packet_size E; (m, w) = rb_alloc E priv_size (rb_world d)
           in case m of None \<Rightarrow> (- ENOMEM, d\<lparr>rb_world := w\<rparr>)
              | Some m \<Rightarrow>
                  let p = stale m; (ok, w) = rb_pipe_open E True w
                  in if \<not> ok then (- ENODEV, d\<lparr>rb_world := rb_free E priv_size w\<rparr>)
                     else let (ok, w) = rb_pipe_open E False (rb_pipe_remap E True w)
                          in if \<not> ok then (- ENODEV, d\<lparr>rb_world := rb_free E priv_size (rb_pipe_close E True w)\<rparr>)
                             else let (ib, w) = rb_alloc E sz w
                                  in case ib of
                                       None \<Rightarrow> (- ENOMEM, d\<lparr>rb_world := rb_free E priv_size (rb_pipe_close E True (rb_pipe_close E False w))\<rparr>)
                                     | Some ib \<Rightarrow>
                                         let (ob, w) = rb_alloc E sz (rb_pipe_remap E False w)
                                         in case ob of
                                              None \<Rightarrow> (- ENOMEM, d\<lparr>rb_world := rb_free E priv_size (rb_pipe_close E True (rb_pipe_close E False (rb_free E sz w)))\<rparr>)
                                            | Some ob \<Rightarrow> (0, rb_put (p\<lparr>m_ipipe_buffer := ib, m_opipe_buffer := ob, m_ninstances := 1\<rparr>) w d))"

text \<open>\<open>bytes\<close> gives the bytes of the private structure, which is what a read copies.\<close>

definition rb_master_read ::
  "'w rb_env \<Rightarrow> (rb_master_private_data \<Rightarrow> u8 list) \<Rightarrow> int \<Rightarrow> (rb_master_private_data, 'w) rb_dev \<Rightarrow> (int \<times> u8 list \<times> (rb_master_private_data, 'w) rb_dev) option" where
  "rb_master_read E bytes len d =
     (case rb_priv d of
        Rb p \<Rightarrow>
          let l = min len (rb_packet_size E)
          in if \<not> (m_packet_in_ipipe_buffer p \<and> m_filter_out_packet p) then Some (- EAGAIN, [], d)
             else if l \<le> 0 then Some (- EINVAL, [], d)
             else let p = p\<lparr>m_filter_out_packet := False, m_packet_in_ipipe_buffer := False\<rparr>
                  in Some (l, take (nat l) (bytes p), rb_put p (rb_world d) d)
      | _ \<Rightarrow> None)"

definition rb_master_write ::
  "'w rb_env \<Rightarrow> u8 list \<Rightarrow> (rb_master_private_data, 'w) rb_dev \<Rightarrow> (int \<times> (rb_master_private_data, 'w) rb_dev) option" where
  "rb_master_write E buf d =
     (case rb_priv d of Rb p \<Rightarrow> (let (r, w) = rb_pipe_write E True buf (rb_world d) in Some (r, d\<lparr>rb_world := w\<rparr>)) | _ \<Rightarrow> None)"

text \<open>The pointer in the device is not cleared, and the output buffer is not freed.\<close>

definition rb_master_close ::
  "'w rb_env \<Rightarrow> int \<Rightarrow> (rb_master_private_data, 'w) rb_dev \<Rightarrow> (int \<times> (rb_master_private_data, 'w) rb_dev) option" where
  "rb_master_close E priv_size d =
     (case rb_priv d of
        Rb p \<Rightarrow>
          if m_ninstances p > 1 then Some (0, rb_put (p\<lparr>m_ninstances := m_ninstances p - 1\<rparr>) (rb_world d) d)
          else Some (0, d\<lparr>rb_priv := Rb_freed,
                          rb_world := rb_free E priv_size (rb_free E (rb_packet_size E) (rb_pipe_close E False (rb_pipe_close E True (rb_world d))))\<rparr>)
      | _ \<Rightarrow> None)"

definition rb_master_input_ready ::
  "'w rb_env \<Rightarrow> (rb_master_private_data, 'w) rb_dev \<Rightarrow> (rb_master_private_data, 'w) rb_dev option" where
  "rb_master_input_ready E d =
     (case rb_priv d of
        Rb p \<Rightarrow>
          let n = uint (m_input_bytes p);
              (stat, bs, w) = rb_pipe_read E True (rb_packet_size E - n) (rb_world d)
          in if stat < 0 then Some (d\<lparr>rb_world := w\<rparr>)
             else let p = p\<lparr>m_ipipe_buffer := copy_at (m_ipipe_buffer p) (nat n) bs, m_input_bytes := m_input_bytes p + word_of_int stat\<rparr>
                  in if uint (m_input_bytes p) < rb_packet_size E then Some (rb_put p w d)
                     else let drop_it = (case rb_filter E of None \<Rightarrow> False | Some f \<Rightarrow> f (m_ipipe_buffer p));
                              p = (if drop_it then p\<lparr>m_filter_out_packet := True\<rparr> else p)
                          in Some (rb_put (p\<lparr>m_packet_in_ipipe_buffer := True, m_input_bytes := 0\<rparr>) w d)
      | _ \<Rightarrow> None)"

text \<open>The radio is read with the size of the field that holds the packet size, \<open>size_of_size\<close>.\<close>

definition rb_master_output_ready ::
  "'w rb_env \<Rightarrow> int \<Rightarrow> (rb_master_private_data, 'w) rb_dev \<Rightarrow> (rb_master_private_data, 'w) rb_dev option" where
  "rb_master_output_ready E size_of_size d =
     (case rb_priv d of
        Rb p \<Rightarrow>
          let (stat, bs, w) = rb_pipe_read E False size_of_size (rb_world d)
          in if stat < 0 then Some (d\<lparr>rb_world := w\<rparr>)
             else let p = p\<lparr>m_opipe_buffer := copy_at (m_opipe_buffer p) 0 bs\<rparr>
                  in Some (rb_put p (snd (rb_pipe_write E True (take (nat stat) (m_opipe_buffer p)) w)) d)
      | _ \<Rightarrow> None)"

section \<open>Slave\<close>

definition rb_slave_open ::
  "'w rb_env \<Rightarrow> int \<Rightarrow> (rb_slave_private_data, 'w) rb_dev \<Rightarrow> int \<times> (rb_slave_private_data, 'w) rb_dev" where
  "rb_slave_open E priv_size d =
     (if \<not> rb_platform_data E then (- EINVAL, d)
      else if rb_priv d \<noteq> Rb_null then (0, d)
      else let sz = rb_packet_size E; (m, w) = rb_alloc E priv_size (rb_world d)
           in case m of None \<Rightarrow> (- ENOMEM, d\<lparr>rb_world := w\<rparr>)
              | Some m \<Rightarrow>
                  let (ok, w) = rb_pipe_open E True w
                  in if \<not> ok then (- ENODEV, d\<lparr>rb_world := rb_free E priv_size w\<rparr>)
                     else let (ib, w) = rb_alloc E sz (rb_pipe_remap E True w)
                          in case ib of
                               None \<Rightarrow> (- ENOMEM, d\<lparr>rb_world := rb_free E priv_size (rb_pipe_close E True w)\<rparr>)
                             | Some ib \<Rightarrow>
                                 let (ob, w) = rb_alloc E (int MAX_PACKETS_IN_OUTPUT_BUFFER * sz) w
                                 in case ob of
                                      None \<Rightarrow> (- ENOMEM, d\<lparr>rb_world := rb_free E priv_size (rb_pipe_close E True (rb_free E sz w))\<rparr>)
                                    | Some ob \<Rightarrow>
                                        (0, rb_put \<lparr>s_packet_in_input_buffer = 0, s_input_buffer = ib, s_input_bytes = 0,
                                                    s_packets_in_output_buffer = 0, s_output_buffer = ob, s_ninstances = 1\<rparr> w d))"

definition rb_slave_read ::
  "'w rb_env \<Rightarrow> int \<Rightarrow> (rb_slave_private_data, 'w) rb_dev \<Rightarrow> (int \<times> u8 list \<times> (rb_slave_private_data, 'w) rb_dev) option" where
  "rb_slave_read E len d =
     (case rb_priv d of
        Rb p \<Rightarrow>
          let l = min len (rb_packet_size E)
          in if s_packet_in_input_buffer p = 0 then Some (- EAGAIN, [], d)
             else if l \<le> 0 then Some (- EINVAL, [], d)
             else Some (l, take (nat l) (s_input_buffer p),
                        rb_put (p\<lparr>s_packet_in_input_buffer := s_packet_in_input_buffer p - 1\<rparr>) (rb_world d) d)
      | _ \<Rightarrow> None)"

definition rb_slave_write ::
  "'w rb_env \<Rightarrow> u8 list \<Rightarrow> (rb_slave_private_data, 'w) rb_dev \<Rightarrow> (int \<times> (rb_slave_private_data, 'w) rb_dev) option" where
  "rb_slave_write E buf d =
     (case rb_priv d of
        Rb p \<Rightarrow>
          let l = min (int (length buf)) (rb_packet_size E);
              offs = nat (uint (s_packets_in_output_buffer p) * rb_packet_size E)
          in if unat (s_packets_in_output_buffer p) \<ge> MAX_PACKETS_IN_OUTPUT_BUFFER then Some (- EAGAIN, d)
             else Some (l, rb_put (p\<lparr>s_output_buffer := copy_at (s_output_buffer p) offs (take (nat l) buf),
                                     s_packets_in_output_buffer := s_packets_in_output_buffer p + 1\<rparr>) (rb_world d) d)
      | _ \<Rightarrow> None)"

text \<open>Closing clears the data of the pipe and not the private data of the device.\<close>

definition rb_slave_close ::
  "'w rb_env \<Rightarrow> int \<Rightarrow> (rb_slave_private_data, 'w) rb_dev \<Rightarrow> (int \<times> (rb_slave_private_data, 'w) rb_dev) option" where
  "rb_slave_close E priv_size d =
     (case rb_priv d of
        Rb p \<Rightarrow>
          if s_ninstances p > 1 then Some (0, rb_put (p\<lparr>s_ninstances := s_ninstances p - 1\<rparr>) (rb_world d) d)
          else Some (0, d\<lparr>rb_priv := Rb_freed,
                          rb_world := rb_clear_pipe_data E (rb_free E priv_size (rb_free E (rb_packet_size E * int MAX_PACKETS_IN_OUTPUT_BUFFER)
                            (rb_free E (rb_packet_size E) (rb_pipe_close E True (rb_world d)))))\<rparr>)
      | _ \<Rightarrow> None)"

text \<open>The packets that a beacon asks for: each one is written from the start of the buffer.\<close>

fun beacon_loop :: "'w rb_env \<Rightarrow> u8 list \<Rightarrow> nat \<Rightarrow> 'w \<Rightarrow> 'w" where
  "beacon_loop E buf 0 w = w"
| "beacon_loop E buf (Suc n) w = beacon_loop E buf n (snd (rb_pipe_write E True (take (nat (rb_packet_size E)) buf) w))"

definition beacon_handle :: "'w rb_env \<Rightarrow> (rb_slave_private_data, 'w) rb_dev \<Rightarrow> (rb_slave_private_data, 'w) rb_dev option" where
  "beacon_handle E d =
     (case rb_priv d of
        Rb p \<Rightarrow> Some (rb_put (p\<lparr>s_packets_in_output_buffer := 0\<rparr>)
                       (beacon_loop E (s_output_buffer p) (unat (s_packets_in_output_buffer p)) (rb_world d)) d)
      | _ \<Rightarrow> None)"

definition rb_slave_input_ready ::
  "'w rb_env \<Rightarrow> (rb_slave_private_data, 'w) rb_dev \<Rightarrow> (rb_slave_private_data, 'w) rb_dev option" where
  "rb_slave_input_ready E d =
     (case rb_priv d of
        Rb p \<Rightarrow>
          let (stat, bs, w) = rb_pipe_read E True (rb_packet_size E) (rb_world d)
          in if stat < 0 then Some (d\<lparr>rb_world := w\<rparr>)
             else let p = p\<lparr>s_input_buffer := copy_at (s_input_buffer p) 0 bs, s_input_bytes := s_input_bytes p + stat\<rparr>
                  in if s_input_bytes p < rb_packet_size E then Some (rb_put p w d)
                     else Some (rb_put (p\<lparr>s_packet_in_input_buffer := s_packet_in_input_buffer p + 1, s_input_bytes := 0\<rparr>)
                            (rb_trigger_input_ready E w) d)
      | _ \<Rightarrow> None)"

section \<open>Properties\<close>

text \<open>
  Pipes for the master: the input pipe holds the bytes that have arrived, a read takes at most as many as it asks for from the front, or fails when there are none; what
  is written to the radio is kept, write by write.
\<close>

record rb_lines =
  rl_in :: "u8 list"
  rl_sent :: "u8 list list"

definition fifo_read :: "bool \<Rightarrow> int \<Rightarrow> rb_lines \<Rightarrow> int \<times> u8 list \<times> rb_lines" where
  "fifo_read inp len w =
     (let bs = take (nat len) (rl_in w)
      in if \<not> inp \<or> bs = [] then (- EAGAIN, [], w) else (int (length bs), bs, w\<lparr>rl_in := drop (nat len) (rl_in w)\<rparr>))"

definition fifo_env :: "nat \<Rightarrow> (u8 list \<Rightarrow> bool) option \<Rightarrow> rb_lines rb_env" where
  "fifo_env sz filt = \<lparr>rb_platform_data = True, rb_packet_size = int sz, rb_pipe_open = (\<lambda>_ w. (True, w)), rb_pipe_remap = (\<lambda>_. id), rb_pipe_close = (\<lambda>_. id),
     rb_pipe_read = fifo_read, rb_pipe_write = (\<lambda>inp bs w. (int (length bs), if inp then w else w\<lparr>rl_sent := rl_sent w @ [bs]\<rparr>)),
     rb_alloc = (\<lambda>n w. (Some (replicate (nat n) 0), w)), rb_free = (\<lambda>_. id), rb_filter = filt, rb_trigger_input_ready = id, rb_clear_pipe_data = id\<rparr>"

text \<open>What happens: bytes arrive in the input pipe, its ready event is handled, a beacon is due.\<close>

datatype rb_event = Rb_bytes "u8 list" | Rb_ready | Rb_beacon

fun rb_run :: "rb_lines rb_env \<Rightarrow> rb_event list \<Rightarrow> (rb_master_private_data, rb_lines) rb_dev \<Rightarrow> (rb_master_private_data, rb_lines) rb_dev option" where
  "rb_run E [] d = Some d"
| "rb_run E (Rb_bytes c # es) d = rb_run E es (d\<lparr>rb_world := (rb_world d)\<lparr>rl_in := rl_in (rb_world d) @ c\<rparr>\<rparr>)"
| "rb_run E (Rb_ready # es) d = Option.bind (rb_master_input_ready E d) (rb_run E es)"
| "rb_run E (Rb_beacon # es) d = Option.bind (rb_master_do_beacon E d) (rb_run E es)"

text \<open>
  What is to be seen of it, as the bytes of the current packet, those still in the pipe, and what was sent: a ready event takes the bytes that the packet still
  lacks, a beacon sends the packet when it is whole and an empty one otherwise.
\<close>

type_synonym bridge = "u8 list \<times> u8 list \<times> u8 list list"

fun bridge_step :: "nat \<Rightarrow> rb_event \<Rightarrow> bridge \<Rightarrow> bridge" where
  "bridge_step sz (Rb_bytes c) (acc, q, out) = (acc, q @ c, out)"
| "bridge_step sz Rb_ready (acc, q, out) = (acc @ take (sz - length acc) q, drop (sz - length acc) q, out)"
| "bridge_step sz Rb_beacon (acc, q, out) = (if length acc = sz then ([], q, out @ [acc]) else (acc, q, out @ [[]]))"

text \<open>No overrun, in the words of the driver: while a whole packet waits for its beacon, no ready event finds bytes in the pipe.\<close>

fun no_overrun :: "nat \<Rightarrow> bridge \<Rightarrow> rb_event list \<Rightarrow> bool" where
  "no_overrun sz b [] = True"
| "no_overrun sz b (e # es) = ((e = Rb_ready \<and> length (fst b) = sz \<longrightarrow> fst (snd b) = []) \<and> no_overrun sz (bridge_step sz e b) es)"

definition passes :: "(u8 list \<Rightarrow> bool) option \<Rightarrow> bool" where
  "passes filt \<longleftrightarrow> (case filt of None \<Rightarrow> True | Some f \<Rightarrow> \<forall>b. \<not> f b)"

text \<open>The private data with the bytes \<open>acc\<close> of a packet: a part of it, or all.\<close>

definition holds :: "nat \<Rightarrow> u8 list \<Rightarrow> rb_master_private_data \<Rightarrow> bool" where
  "holds sz acc p \<longleftrightarrow> length (m_ipipe_buffer p) = sz \<and> length acc \<le> sz \<and> take (length acc) (m_ipipe_buffer p) = acc \<and> \<not> m_filter_out_packet p
     \<and> uint (m_input_bytes p) = (if length acc = sz then 0 else int (length acc)) \<and> m_packet_in_ipipe_buffer p = (length acc = sz)"

lemma input_bytes_add:
  assumes "uint (x :: u8) = int a" "int a + int c < 256"
  shows "uint (x + word_of_int (int c)) = int a + int c"
  using assms by (simp add: uint_word_ariths unsigned_of_nat take_bit_eq_mod flip: of_nat_mod of_nat_add)

lemma input_ready_step:
  assumes "rb_priv d = Rb p" "holds sz acc p" "sz < 256" "passes filt" "length acc = sz \<longrightarrow> rl_in (rb_world d) = []"
  shows "\<exists>p'. rb_master_input_ready (fifo_env sz filt) d =
      Some (rb_put p' ((rb_world d)\<lparr>rl_in := drop (sz - length acc) (rl_in (rb_world d))\<rparr>) d) \<and> holds sz (acc @ take (sz - length acc) (rl_in (rb_world d))) p'"
proof (cases "length acc = sz \<or> rl_in (rb_world d) = []")
  case True
  with assms(5) have q: "rl_in (rb_world d) = []" by blast
  have w: "(rb_world d)\<lparr>rl_in := []\<rparr> = rb_world d" using q by (cases "rb_world d") simp
  have "rb_master_input_ready (fifo_env sz filt) d = Some (rb_put p (rb_world d) d)"
    using q assms(1) by (simp add: rb_master_input_ready_def fifo_env_def fifo_read_def rb_put_def EAGAIN_def)
  with assms(2) show ?thesis by (intro exI [of _ p]) (simp only: q w take_Nil drop_Nil append_Nil2)
next
  case False
  let ?bs = "take (sz - length acc) (rl_in (rb_world d))"
  have lt: "length acc < sz" using False assms(2) by (auto simp: holds_def)
  then have ib: "uint (m_input_bytes p) = int (length acc)" using assms(2) by (simp add: holds_def)
  have bs: "?bs \<noteq> []" "length (acc @ ?bs) \<le> sz" using False lt by auto
  have n: "nat (int sz - uint (m_input_bytes p)) = sz - length acc" "nat (uint (m_input_bytes p)) = length acc" using ib lt by auto
  have read: "fifo_read True (int sz - uint (m_input_bytes p)) (rb_world d) = (int (length ?bs), ?bs, (rb_world d)\<lparr>rl_in := drop (sz - length acc) (rl_in (rb_world d))\<rparr>)"
    using bs(1) by (simp only: fifo_read_def n Let_def) simp
  have add: "uint (m_input_bytes p + word_of_int (int (length ?bs))) = int (length acc) + int (length ?bs)"
    using bs(2) [unfolded length_append] assms(3) by (intro input_bytes_add [OF ib]) linarith
  define p1 where "p1 = p\<lparr>m_ipipe_buffer := copy_at (m_ipipe_buffer p) (length acc) ?bs, m_input_bytes := m_input_bytes p + word_of_int (int (length ?bs))\<rparr>"
  define p2 where "p2 = (if length (acc @ ?bs) < sz then p1 else p1\<lparr>m_packet_in_ipipe_buffer := True, m_input_bytes := 0\<rparr>)"
  have "rb_master_input_ready (fifo_env sz filt) d = Some (rb_put p2 ((rb_world d)\<lparr>rl_in := drop (sz - length acc) (rl_in (rb_world d))\<rparr>) d)"
    using assms(1,4) read add n by (auto simp: rb_master_input_ready_def fifo_env_def p2_def p1_def passes_def Let_def split: option.splits)
  moreover have "holds sz (acc @ ?bs) p2"
    using assms(2) bs lt add by (auto simp: holds_def p2_def p1_def copy_at_def)
  ultimately show ?thesis by blast
qed

lemma beacon_step:
  assumes "rb_priv d = Rb p" "holds sz acc p" "0 < sz"
  shows "\<exists>p'. rb_master_do_beacon (fifo_env sz filt) d =
      Some (rb_put p' ((rb_world d)\<lparr>rl_sent := rl_sent (rb_world d) @ [if length acc = sz then acc else []]\<rparr>) d)
    \<and> holds sz (if length acc = sz then [] else acc) p'"
  using assms by (cases "length acc = sz") (auto simp: rb_master_do_beacon_def fifo_env_def holds_def)

lemma rb_run_refines:
  assumes "rb_priv d = Rb p" "holds sz acc p" "0 < sz" "sz < 256" "passes filt" "no_overrun sz (acc, rl_in (rb_world d), rl_sent (rb_world d)) es"
    and "fold (bridge_step sz) es (acc, rl_in (rb_world d), rl_sent (rb_world d)) = (acc', q', out')"
  shows "\<exists>d' p'. rb_run (fifo_env sz filt) es d = Some d' \<and> rb_priv d' = Rb p' \<and> holds sz acc' p' \<and> rl_in (rb_world d') = q' \<and> rl_sent (rb_world d') = out'"
  using assms(1,2,6,7)
proof (induction es arbitrary: d p acc)
  case (Cons e es)
  show ?case
  proof (cases e)
    case (Rb_bytes c)
    with Cons.IH [of "d\<lparr>rb_world := (rb_world d)\<lparr>rl_in := rl_in (rb_world d) @ c\<rparr>\<rparr>" p acc] Cons.prems show ?thesis by simp
  next
    case Rb_ready
    with input_ready_step [OF Cons.prems(1,2) assms(4,5)] Cons.prems(3) obtain p1 where
      "rb_master_input_ready (fifo_env sz filt) d = Some (rb_put p1 ((rb_world d)\<lparr>rl_in := drop (sz - length acc) (rl_in (rb_world d))\<rparr>) d)"
      "holds sz (acc @ take (sz - length acc) (rl_in (rb_world d))) p1" by auto
    with Cons.IH [of "rb_put p1 ((rb_world d)\<lparr>rl_in := drop (sz - length acc) (rl_in (rb_world d))\<rparr>) d" p1] Cons.prems Rb_ready
    show ?thesis by (simp add: rb_put_def)
  next
    case Rb_beacon
    with beacon_step [OF Cons.prems(1,2) assms(3), of filt] obtain p1 where
      "rb_master_do_beacon (fifo_env sz filt) d = Some (rb_put p1 ((rb_world d)\<lparr>rl_sent := rl_sent (rb_world d) @ [if length acc = sz then acc else []]\<rparr>) d)"
      "holds sz (if length acc = sz then [] else acc) p1" by auto
    with Cons.IH [of "rb_put p1 ((rb_world d)\<lparr>rl_sent := rl_sent (rb_world d) @ [if length acc = sz then acc else []]\<rparr>) d" p1] Cons.prems Rb_beacon
    show ?thesis by (simp add: rb_put_def split: if_splits)
  qed
qed auto

text \<open>Bytes are neither lost nor reordered, and are sent in whole packets.\<close>

definition arrived :: "rb_event list \<Rightarrow> u8 list" where
  "arrived es = concat (map (\<lambda>e. case e of Rb_bytes c \<Rightarrow> c | _ \<Rightarrow> []) es)"

lemma bridge_stream:
  assumes "fold (bridge_step sz) es (acc, q, out) = (acc', q', out')" "list_all (\<lambda>p. p = [] \<or> length p = sz) out"
  shows "concat out' @ acc' @ q' = concat out @ acc @ q @ arrived es \<and> list_all (\<lambda>p. p = [] \<or> length p = sz) out'"
  using assms
proof (induction es arbitrary: acc q out)
  case (Cons e es)
  obtain acc1 q1 out1 where st: "bridge_step sz e (acc, q, out) = (acc1, q1, out1)" by (cases "bridge_step sz e (acc, q, out)")
  then have "list_all (\<lambda>p. p = [] \<or> length p = sz) out1" "concat out1 @ acc1 @ q1 = concat out @ acc @ q @ arrived [e]"
    using Cons.prems(2) by (cases e; auto simp: arrived_def split: if_splits)+
  with Cons.IH [of acc1 q1 out1] Cons.prems(1) st show ?case by (simp add: arrived_def)
qed (simp add: arrived_def)

text \<open>
  C30. The master of the radio bridge, with the packets at most 255 bytes long and no filter that keeps one, from an empty buffer: for every sequence of arriving bytes, ready
  events and beacons without an overrun, each beacon sends the packet that is whole, or an empty one when none is. What is sent, what is collected and what is still in the pipe
  are the bytes that arrived, in order, and everything sent is a whole packet or empty.
\<close>
theorem rb_master_forwards:
  assumes "rb_priv d = Rb p" "holds sz [] p" "0 < sz" "sz < 256" "passes filt" "rb_world d = \<lparr>rl_in = [], rl_sent = []\<rparr>" "no_overrun sz ([], [], []) es"
  shows "\<exists>d' acc. rb_run (fifo_env sz filt) es d = Some d'
    \<and> fold (bridge_step sz) es ([], [], []) = (acc, rl_in (rb_world d'), rl_sent (rb_world d'))
    \<and> concat (rl_sent (rb_world d')) @ acc @ rl_in (rb_world d') = arrived es
    \<and> list_all (\<lambda>b. b = [] \<or> length b = sz) (rl_sent (rb_world d'))"
proof -
  obtain acc q out where f: "fold (bridge_step sz) es ([], [], []) = (acc, q, out)" by (cases "fold (bridge_step sz) es ([], [], [])")
  with rb_run_refines [OF assms(1-5), of es acc q out] assms(6,7) bridge_stream [OF f] show ?thesis by auto
qed

lemma beacon_two:
  "beacon_loop E buf 2 w = snd (rb_pipe_write E True (take (nat (rb_packet_size E)) buf) (snd (rb_pipe_write E True (take (nat (rb_packet_size E)) buf) w)))"
  by (simp add: numeral_2_eq_2)

text \<open>
  The slave sends the first of two queued packets twice and the second one never: the beacon handler writes every packet from
  the start of the output buffer.
\<close>
theorem rb_slave_repeats_first:
  assumes "rb_priv d = Rb p" "s_packets_in_output_buffer p = 0" "int (length (s_output_buffer p)) = 2 * rb_packet_size E"
    and "int (length a) = rb_packet_size E" "int (length b) = rb_packet_size E"
  shows "\<exists>d1 d2 d3. rb_slave_write E a d = Some (rb_packet_size E, d1) \<and> rb_slave_write E b d1 = Some (rb_packet_size E, d2)
    \<and> beacon_handle E d2 = Some d3 \<and> rb_world d3 = snd (rb_pipe_write E True a (snd (rb_pipe_write E True a (rb_world d))))"
proof -
  let ?sz = "length a"
  have sz: "rb_packet_size E = int ?sz" "length b = ?sz" "length (s_output_buffer p) = 2 * ?sz" using assms(3-5) by linarith+
  define p1 where "p1 = p\<lparr>s_output_buffer := copy_at (s_output_buffer p) 0 a, s_packets_in_output_buffer := 1\<rparr>"
  define p2 where "p2 = p1\<lparr>s_output_buffer := copy_at (s_output_buffer p1) ?sz b, s_packets_in_output_buffer := 2\<rparr>"
  have "rb_slave_write E a d = Some (rb_packet_size E, rb_put p1 (rb_world d) d)"
    using assms(1,2) sz by (simp add: rb_slave_write_def p1_def MAX_PACKETS_IN_OUTPUT_BUFFER_def)
  moreover have "rb_slave_write E b (rb_put p1 (rb_world d) d) = Some (rb_packet_size E, rb_put p2 (rb_world d) (rb_put p1 (rb_world d) d))"
    using sz by (simp add: rb_slave_write_def rb_put_def p2_def MAX_PACKETS_IN_OUTPUT_BUFFER_def) (simp add: p1_def rb_put_def)
  moreover have "take ?sz (s_output_buffer p2) = a" using sz by (simp add: p2_def p1_def copy_at_def)
  ultimately show ?thesis
    using sz by (simp add: beacon_handle_def rb_put_def) (simp add: p2_def beacon_two)
qed

text \<open>An environment that keeps what is written.\<close>

definition ex_rb_env :: "u8 list list rb_env" where
  "ex_rb_env = \<lparr>rb_platform_data = True, rb_packet_size = 3, rb_pipe_open = (\<lambda>_ w. (True, w)), rb_pipe_remap = (\<lambda>_. id), rb_pipe_close = (\<lambda>_. id), rb_pipe_read = (\<lambda>_ _ w. (- 1, [], w)),
     rb_pipe_write = (\<lambda>_ bs w. (int (length bs), w @ [bs])), rb_alloc = (\<lambda>n w. (Some (replicate (nat n) 0), w)), rb_free = (\<lambda>_. id),
     rb_filter = None, rb_trigger_input_ready = id, rb_clear_pipe_data = id\<rparr>"

theorem rb_master_forwards_witness:
  "\<exists>d'. rb_run (fifo_env 3 None) [Rb_bytes [1, 2], Rb_ready, Rb_beacon, Rb_bytes [3, 4, 5], Rb_ready, Rb_beacon, Rb_ready, Rb_bytes [6], Rb_ready, Rb_beacon]
      \<lparr>rb_priv = Rb \<lparr>m_packet_in_ipipe_buffer = False, m_filter_out_packet = False, m_input_bytes = 0, m_ipipe_buffer = [0, 0, 0],
         m_opipe_buffer = [0, 0, 0], m_ninstances = 1\<rparr>, rb_world = \<lparr>rl_in = [], rl_sent = []\<rparr>\<rparr> = Some d'
    \<and> rl_sent (rb_world d') = [[], [1, 2, 3], [4, 5, 6]]"
proof -
  let ?p = "\<lparr>m_packet_in_ipipe_buffer = False, m_filter_out_packet = False, m_input_bytes = 0, m_ipipe_buffer = [0, 0, 0],
    m_opipe_buffer = [0, 0, 0], m_ninstances = 1\<rparr>"
  show ?thesis
    using rb_master_forwards [of "\<lparr>rb_priv = Rb ?p, rb_world = \<lparr>rl_in = [], rl_sent = []\<rparr>\<rparr>" ?p 3 None
        "[Rb_bytes [1, 2], Rb_ready, Rb_beacon, Rb_bytes [3, 4, 5], Rb_ready, Rb_beacon, Rb_ready, Rb_bytes [6], Rb_ready, Rb_beacon]"]
    by (auto simp: holds_def passes_def)
qed

theorem rb_slave_repeats_first_witness:
  "\<exists>d1 d2 d3. rb_slave_write ex_rb_env [1, 2, 3] (snd (rb_slave_open ex_rb_env 20 \<lparr>rb_priv = Rb_null, rb_world = []\<rparr>)) = Some (3, d1)
    \<and> rb_slave_write ex_rb_env [4, 5, 6] d1 = Some (3, d2) \<and> beacon_handle ex_rb_env d2 = Some d3 \<and> rb_world d3 = [[1, 2, 3], [1, 2, 3]]"
proof -
  let ?p = "\<lparr>s_packet_in_input_buffer = 0, s_input_buffer = replicate 3 0, s_input_bytes = 0, s_packets_in_output_buffer = 0,
    s_output_buffer = replicate 6 0, s_ninstances = 1\<rparr>"
  have "snd (rb_slave_open ex_rb_env 20 \<lparr>rb_priv = Rb_null, rb_world = []\<rparr>) = \<lparr>rb_priv = Rb ?p, rb_world = []\<rparr>"
    by (simp add: rb_slave_open_def ex_rb_env_def rb_put_def MAX_PACKETS_IN_OUTPUT_BUFFER_def)
  then show ?thesis
    using rb_slave_repeats_first [of "\<lparr>rb_priv = Rb ?p, rb_world = []\<rparr>" ?p ex_rb_env "[1, 2, 3]" "[4, 5, 6]"]
    by (auto simp: ex_rb_env_def)
qed

end
