(* ===== verification/Udelay.thy ===== *)
theory Udelay
  imports Prelude
begin

text \<open>
  Busy waiting, \<^verbatim>\<open>lib/udelay.c\<close> and \<^verbatim>\<open>include/bathos/delay.h\<close>: the calibration of the delay loop against the tick counter,
  and the delays that use it.

  The machine is the record \<open>udelay_env\<close>: a read of \<^verbatim>\<open>jiffies\<close> and one turn of the empty loop, each a function on the state
  of the machine, and the tick rate \<^verbatim>\<open>HZ\<close>. A loop that waits for the tick counter may wait forever, and an \<^verbatim>\<open>int\<close> may
  overflow: the result is then \<open>None\<close>. The argument of \<^verbatim>\<open>mdelay\<close> is not negative.
\<close>

section \<open>The code\<close>

record 'w udelay_env =
  u_jiffies :: "'w \<Rightarrow> u32 \<times> 'w"
  u_nop :: "'w \<Rightarrow> 'w"
  u_hz :: nat

definition int_limit :: nat where "int_limit = 2 ^ 31"

fun delay_loop :: "'w udelay_env \<Rightarrow> nat \<Rightarrow> 'w \<Rightarrow> 'w" where
  "delay_loop E 0 w = w"
| "delay_loop E (Suc n) w = delay_loop E n (u_nop E w)"

text \<open>The counter is an \<^verbatim>\<open>int\<close>: the loop does nothing for a negative one.\<close>

definition raw_delay :: "'w udelay_env \<Rightarrow> int \<Rightarrow> 'w \<Rightarrow> 'w" where
  "raw_delay E count w = delay_loop E (nat count) w"

partial_function (option) wait_tick :: "'w udelay_env \<Rightarrow> u32 \<Rightarrow> 'w \<Rightarrow> 'w option" where
  "wait_tick E j w = (let (now, w) = u_jiffies E w in if now \<noteq> j then wait_tick E j w else Some w)"

definition verify_lpj :: "'w udelay_env \<Rightarrow> nat \<Rightarrow> 'w \<Rightarrow> (int \<times> 'w) option" where
  "verify_lpj E lpj w =
     (let (now, w) = u_jiffies E w; j = now + 1
      in Option.bind (wait_tick E j w) (\<lambda>w.
         let (now, w) = u_jiffies E (raw_delay E (int lpj) w)
         in Some (sint (now - j), w)))"

partial_function (option) increase_lpj :: "'w udelay_env \<Rightarrow> nat \<Rightarrow> nat \<Rightarrow> 'w \<Rightarrow> (nat \<times> nat \<times> 'w) option" where
  "increase_lpj E lpj step w =
     Option.bind (verify_lpj E lpj w) (\<lambda>(r, w).
       if r = 0 then (if lpj + step < int_limit \<and> step * 2 < int_limit then increase_lpj E (lpj + step) (step * 2) w else None)
       else Some (lpj, step, w))"

fun refine_lpj :: "'w udelay_env \<Rightarrow> nat \<Rightarrow> nat \<Rightarrow> 'w \<Rightarrow> (nat \<times> 'w) option" where
  "refine_lpj E lpj step w =
     (if step = 0 then Some (lpj, w)
      else let test_lpj = lpj + step
           in Option.bind (verify_lpj E test_lpj w) (\<lambda>(r, w). refine_lpj E (if r = 0 then test_lpj else lpj) (step div 2) w))"

declare refine_lpj.simps [simp del]

text \<open>The result is the value that is stored in \<^verbatim>\<open>udelay_lpj\<close>.\<close>

definition generic_udelay_init :: "'w udelay_env \<Rightarrow> 'w \<Rightarrow> (nat \<times> 'w) option" where
  "generic_udelay_init E w =
     (let step = 512; lpj = step
      in Option.bind (increase_lpj E lpj step w) (\<lambda>(lpj, step, w). refine_lpj E (lpj div 2) (step div 4) w))"

definition udelay_step :: nat where "udelay_step = 10 * 1000"

definition usec_per_jiffy :: "'w udelay_env \<Rightarrow> nat" where "usec_per_jiffy E = 1000000 div u_hz E"

function udelay_loop :: "'w udelay_env \<Rightarrow> nat \<Rightarrow> nat \<Rightarrow> 'w \<Rightarrow> nat \<times> 'w" where
  "udelay_loop E count usec w =
     (if udelay_step < usec then udelay_loop E count (usec - udelay_step) (raw_delay E (int count) w) else (usec, w))"
  by pat_completeness auto
termination by (relation "measure (\<lambda>(E, count, usec, w). usec)") (auto simp: udelay_step_def)

declare udelay_loop.simps [simp del]

text \<open>
  \<^verbatim>\<open>udelay_lpj * step\<close> is a product of \<^verbatim>\<open>int\<close>s, \<^verbatim>\<open>usec * udelay_lpj\<close> an unsigned one, converted to \<^verbatim>\<open>int\<close> by the call.
\<close>

definition generic_udelay :: "'w udelay_env \<Rightarrow> nat \<Rightarrow> u32 \<Rightarrow> 'w \<Rightarrow> 'w option" where
  "generic_udelay E udelay_lpj usec w =
     (if usec_per_jiffy E = 0 \<or> int_limit \<le> udelay_lpj * udelay_step then None
      else let count_per_step = udelay_lpj * udelay_step div usec_per_jiffy E;
               (rest, w) = udelay_loop E count_per_step (unat usec) w
           in Some (raw_delay E (sint ((word_of_nat rest * word_of_nat udelay_lpj) div word_of_nat (usec_per_jiffy E) :: u32)) w))"

fun mdelay :: "'w udelay_env \<Rightarrow> nat \<Rightarrow> nat \<Rightarrow> 'w \<Rightarrow> 'w option" where
  "mdelay E udelay_lpj 0 w = Some w"
| "mdelay E udelay_lpj (Suc msec) w = Option.bind (generic_udelay E udelay_lpj 1000 w) (mdelay E udelay_lpj msec)"

section \<open>Clocks\<close>

text \<open>
  A clock for the machine: a turn of the loop takes one unit of time, a read of the tick counter at least one and at most \<open>r\<close>,
  and a tick is \<open>T\<close> units long. The counter is read at the start of the access.
\<close>

definition steady_clock :: "'w udelay_env \<Rightarrow> nat \<Rightarrow> nat \<Rightarrow> ('w \<Rightarrow> nat) \<Rightarrow> bool" where
  "steady_clock E T r time \<longleftrightarrow> 2 * r \<le> T
     \<and> (\<forall>w. fst (u_jiffies E w) = word_of_nat (time w div T) \<and> time w < time (snd (u_jiffies E w)) \<and> time (snd (u_jiffies E w)) \<le> time w + r)
     \<and> (\<forall>w. time (u_nop E w) = time w + 1)"

lemma clock_read:
  assumes "steady_clock E T r time"
  obtains w' where "u_jiffies E w = (word_of_nat (time w div T), w')" "time w < time w'" "time w' \<le> time w + r"
proof -
  have "fst (u_jiffies E w) = word_of_nat (time w div T)" "time w < time (snd (u_jiffies E w))" "time (snd (u_jiffies E w)) \<le> time w + r"
    using assms by (simp_all add: steady_clock_def)
  then show thesis by (intro that [of "snd (u_jiffies E w)"]) (simp_all add: prod_eq_iff)
qed

lemma delay_loop_time: "steady_clock E T r time \<Longrightarrow> time (delay_loop E n w) = time w + n"
  by (induction n arbitrary: w) (auto simp: steady_clock_def)

lemma raw_delay_time: "steady_clock E T r time \<Longrightarrow> time (raw_delay E (int n) w) = time w + n"
  by (simp add: raw_delay_def delay_loop_time)

lemma clock_tick_long: "steady_clock E T r time \<Longrightarrow> 2 \<le> T \<and> 0 < r \<and> 2 * r \<le> T"
proof -
  assume clk: "steady_clock E T r time"
  obtain w' where "time w < time w'" "time w' \<le> time w + r" using clock_read [OF clk] .
  moreover have "2 * r \<le> T" using clk by (simp add: steady_clock_def)
  ultimately show ?thesis by simp
qed

lemma succ_word_neq: "(word_of_nat J :: u32) \<noteq> word_of_nat (J + 1)"
  by simp

lemma div_add_le: "0 < T \<Longrightarrow> (T + a) div T \<le> 1 + (a :: nat)"
  by (simp add: div_add_self1)

lemma tick_of_time: "J * T \<le> t \<Longrightarrow> t < (J + 1) * T \<Longrightarrow> t div T = (J :: nat)"
  by (metis add.commute div_nat_eqI mult.commute plus_1_eq_Suc)

text \<open>Waiting for the next tick ends shortly after the tick.\<close>

lemma wait_tick_ends:
  assumes "steady_clock E T r time" "J * T \<le> time w" "time w < (J + 1) * T + r"
  shows "\<exists>w'. wait_tick E (word_of_nat (J + 1)) w = Some w' \<and> (J + 1) * T < time w' \<and> time w' < (J + 1) * T + 2 * r"
  using assms(2,3)
proof (induction "(J + 1) * T + r - time w" arbitrary: w rule: less_induct)
  case less
  obtain w' where rd: "u_jiffies E w = (word_of_nat (time w div T), w')" "time w < time w'" "time w' \<le> time w + r"
    using clock_read [OF assms(1)] .
  note long = clock_tick_long [OF assms(1)]
  show ?case
  proof (cases "(J + 1) * T \<le> time w")
    case True
    then have "time w div T = J + 1" using less.prems long by (intro tick_of_time) auto
    with rd True less.prems show ?thesis by (simp add: wait_tick.simps [of E _ w])
  next
    case False
    then have "time w div T = J" using less.prems by (intro tick_of_time) auto
    then have "wait_tick E (word_of_nat (J + 1)) w = wait_tick E (word_of_nat (J + 1)) w'"
      using rd(1) succ_word_neq [of J] by (simp add: wait_tick.simps [of E _ w])
    moreover have "\<exists>w''. wait_tick E (word_of_nat (J + 1)) w' = Some w'' \<and> (J + 1) * T < time w'' \<and> time w'' < (J + 1) * T + 2 * r"
      
    proof (rule less.hyps)
      show "(J + 1) * T + r - time w' < (J + 1) * T + r - time w" using rd(2) less.prems(2) by (rule diff_less_mono2)
      show "J * T \<le> time w'" using less.prems(1) rd(2) by linarith
      show "time w' < (J + 1) * T + r" using rd(3) False by linarith
    qed
    ultimately show ?thesis by metis
  qed
qed

text \<open>The difference of two tick counts, as the code computes it.\<close>

lemma tick_difference:
  assumes "D < 2 ^ 32"
  shows "sint (word_of_nat (J + D) - word_of_nat J :: u32) = 0 \<longleftrightarrow> D = 0"
proof -
  have "(word_of_nat (J + D) - word_of_nat J :: u32) = word_of_nat D" by simp
  moreover have "(word_of_nat D :: u32) = 0 \<longleftrightarrow> D = 0"
    using assms nat_dvd_not_less by (auto simp: word_of_nat_eq_0_iff)
  ultimately show ?thesis by (simp add: signed_eq_0_iff)
qed

text \<open>The test of a loop count: it says 0 when the loop is safely shorter than a tick, and not 0 when it is not shorter.\<close>

lemma verify_lpj_test:
  assumes "steady_clock E T r time" "lpj < 2 ^ 31"
  shows "\<exists>x w'. verify_lpj E lpj w = Some (x, w') \<and> (lpj + 2 * r \<le> T \<longrightarrow> x = 0) \<and> (T \<le> lpj \<longrightarrow> x \<noteq> 0)"
proof -
  note long = clock_tick_long [OF assms(1)]
  define J where "J = time w div T"
  obtain w1 where rd: "u_jiffies E w = (word_of_nat J, w1)" "time w < time w1" "time w1 \<le> time w + r"
    using clock_read [OF assms(1)] unfolding J_def .
  have "J * T \<le> time w" "time w < (J + 1) * T" unfolding J_def using long by (simp_all add: dividend_less_div_times)
  then obtain w2 where w2: "wait_tick E (word_of_nat (J + 1)) w1 = Some w2" "(J + 1) * T < time w2" "time w2 < (J + 1) * T + 2 * r"
    using wait_tick_ends [OF assms(1), of J w1] rd by force
  define w3 where "w3 = raw_delay E (int lpj) w2"
  obtain w4 where rd4: "u_jiffies E w3 = (word_of_nat (time w3 div T), w4)" using clock_read [OF assms(1)] .
  define off where "off = time w2 - (J + 1) * T"
  define D where "D = (off + lpj) div T"
  have off: "off < 2 * r" "time w3 = (J + 1) * T + (off + lpj)"
    unfolding off_def w3_def raw_delay_time [OF assms(1)] using w2 by linarith+
  then have "time w3 div T = (J + 1) + D" unfolding D_def using long by (simp only: off(2)) (subst div_mult_self3, simp_all)
  moreover have "D < 2 ^ 32"
  proof -
    have "off + lpj < T + 2 ^ 31" using off long assms(2) by linarith
    then have "D \<le> (T + 2 ^ 31) div T" unfolding D_def by (intro div_le_mono) simp
    also have "\<dots> \<le> 1 + 2 ^ 31" using long by (intro div_add_le) simp
    finally show ?thesis by simp
  qed
  ultimately have "verify_lpj E lpj w = Some (sint (word_of_nat ((J + 1) + D) - word_of_nat (J + 1) :: u32), w4)"
    using rd w2 rd4 by (simp add: verify_lpj_def w3_def add.commute)
  moreover have "sint (word_of_nat ((J + 1) + D) - word_of_nat (J + 1) :: u32) = 0 \<longleftrightarrow> D = 0" by (rule tick_difference) fact
  moreover have "lpj + 2 * r \<le> T \<longrightarrow> D = 0" unfolding D_def using off by simp
  moreover have "T \<le> lpj \<longrightarrow> D \<noteq> 0" unfolding D_def using long by (simp add: div_eq_0_iff)
  ultimately show ?thesis by blast
qed

section \<open>Calibration\<close>

lemma increase_lpj_ends:
  assumes clk: "steady_clock E T r time" and small: "T \<le> 2 ^ 29"
  shows "2 ^ k < 2 * T \<Longrightarrow> \<exists>m w'. increase_lpj E (2 ^ k) (2 ^ k) w = Some (2 ^ m, 2 ^ m, w') \<and> k \<le> m \<and> 2 ^ m < 2 * T \<and> T < 2 ^ m + 2 * r"
proof (induction "2 * T - 2 ^ k" arbitrary: k w rule: less_induct)
  case less
  have "2 ^ k < (2 ^ 31 :: nat)" using less.prems small by simp
  then obtain x w' where t: "verify_lpj E (2 ^ k) w = Some (x, w')" "2 ^ k + 2 * r \<le> T \<longrightarrow> x = 0" "T \<le> 2 ^ k \<longrightarrow> x \<noteq> 0"
    using verify_lpj_test [OF clk] by blast
  show ?case
  proof (cases "x = 0")
    case True
    then have lt: "2 ^ k < T" using t(3) by linarith
    have dbl: "p + p = 2 * p" "p * 2 = 2 * p" "2 ^ Suc k = 2 * (2 ^ k :: nat)" for p :: nat by simp_all
    have lt': "2 ^ Suc k < 2 * T" "(2 ^ Suc k :: nat) < int_limit" using lt small by (simp_all add: int_limit_def)
    have "2 * T - 2 ^ Suc k < 2 * T - 2 ^ k" using lt' by (intro diff_less_mono2) simp_all
    from less.hyps [OF this lt'(1)] obtain m w'' where
      "increase_lpj E (2 ^ Suc k) (2 ^ Suc k) w' = Some (2 ^ m, 2 ^ m, w'')" "Suc k \<le> m" "2 ^ m < 2 * T" "T < 2 ^ m + 2 * r" by blast
    moreover have "increase_lpj E (2 ^ k) (2 ^ k) w = increase_lpj E (2 ^ Suc k) (2 ^ Suc k) w'"
      using t(1) True lt'(2) by (simp only: increase_lpj.simps [of E "2 ^ k"] dbl option.simps bind.simps prod.case if_True simp_thms)
    ultimately show ?thesis by (metis Suc_leD)
  next
    case False
    then have "increase_lpj E (2 ^ k) (2 ^ k) w = Some (2 ^ k, 2 ^ k, w')"
      using t(1) by (simp add: increase_lpj.simps [of E "2 ^ k"])
    with False t(2) less.prems show ?thesis by (metis le_refl not_le)
  qed
qed

lemma refine_lpj_ends:
  assumes clk: "steady_clock E T r time"
  shows "lpj < T \<Longrightarrow> T < lpj + 2 * 2 ^ i + 2 * r \<Longrightarrow> lpj + 2 * 2 ^ i \<le> 2 ^ 31
    \<Longrightarrow> \<exists>l w'. refine_lpj E lpj (2 ^ i) w = Some (l, w') \<and> l < T \<and> T \<le> l + 2 * r"
proof (induction i arbitrary: lpj w)
  case 0
  then obtain x w' where t: "verify_lpj E (lpj + 1) w = Some (x, w')" "lpj + 1 + 2 * r \<le> T \<longrightarrow> x = 0" "T \<le> lpj + 1 \<longrightarrow> x \<noteq> 0"
    using verify_lpj_test [OF clk, of "lpj + 1" w] by auto
  then have "refine_lpj E lpj 1 w = Some (if x = 0 then lpj + 1 else lpj, w')"
    by (simp add: refine_lpj.simps [of E lpj] refine_lpj.simps [of E _ 0])
  with 0 t(2,3) show ?case by (cases "x = 0") auto
next
  case (Suc i)
  define p where "p = (2 ^ i :: nat)"
  have p: "2 ^ Suc i = 2 * p" "0 < p" by (simp_all add: p_def)
  note prems = Suc.prems [unfolded p(1)]
  have "lpj + 2 * p < 2 ^ 31" using prems(3) p(2) by linarith
  then obtain x w' where t: "verify_lpj E (lpj + 2 * p) w = Some (x, w')" "lpj + 2 * p + 2 * r \<le> T \<longrightarrow> x = 0" "T \<le> lpj + 2 * p \<longrightarrow> x \<noteq> 0"
    using verify_lpj_test [OF clk] by blast
  define l where "l = (if x = 0 then lpj + 2 * p else lpj)"
  have "l < T" "T < l + 2 * 2 ^ i + 2 * r" "l + 2 * 2 ^ i \<le> 2 ^ 31"
    unfolding l_def p_def [symmetric] using prems t(2,3) by (auto split: if_splits)
  then have "\<exists>l' w''. refine_lpj E l (2 ^ i) w' = Some (l', w'') \<and> l' < T \<and> T \<le> l' + 2 * r" by (rule Suc.IH)
  moreover have "refine_lpj E lpj (2 ^ Suc i) w = refine_lpj E l (2 ^ i) w'"
    unfolding p(1) using t(1) p(2) by (simp add: refine_lpj.simps [of E lpj] l_def p_def)
  ultimately show ?case by metis
qed

text \<open>The calibration ends, and the count it finds fills a tick up to the time of two reads of the counter.\<close>

lemma generic_udelay_init_calibrates:
  assumes "steady_clock E T r time" "256 < T" "T \<le> 2 ^ 29"
  shows "\<exists>lpj w'. generic_udelay_init E w = Some (lpj, w') \<and> lpj < T \<and> T \<le> lpj + 2 * r"
proof -
  have "(2 :: nat) ^ 9 < 2 * T" using assms(2) by simp
  then obtain m w1 where m: "increase_lpj E (2 ^ 9) (2 ^ 9) w = Some (2 ^ m, 2 ^ m, w1)" "9 \<le> m" "2 ^ m < 2 * T" "T < 2 ^ m + 2 * r"
    using increase_lpj_ends [OF assms(1,3)] by blast
  define i where "i = m - 2"
  have "m = Suc (Suc i)" using m(2) by (simp add: i_def)
  then have i: "2 ^ m = (4 * 2 ^ i :: nat)" by simp
  have "\<exists>l w'. refine_lpj E (2 * 2 ^ i) (2 ^ i) w1 = Some (l, w') \<and> l < T \<and> T \<le> l + 2 * r"
    using m(3,4) assms(3) unfolding i by (intro refine_lpj_ends [OF assms(1)]) auto
  moreover have "generic_udelay_init E w = refine_lpj E (2 * 2 ^ i) (2 ^ i) w1"
    using m(1) i by (simp add: generic_udelay_init_def)
  ultimately show ?thesis by simp
qed

section \<open>Delays\<close>

lemma udelay_loop_time:
  assumes "steady_clock E T r time"
  shows "\<exists>k rest w'. udelay_loop E count usec w = (rest, w') \<and> rest \<le> udelay_step \<and> usec = k * udelay_step + rest \<and> time w' = time w + k * count"
proof (induction usec arbitrary: w rule: less_induct)
  case (less usec)
  show ?case
  proof (cases "udelay_step < usec")
    case True
    then have "usec - udelay_step < usec" by (simp add: udelay_step_def)
    from less.IH [OF this] obtain k rest w' where
      "udelay_loop E count (usec - udelay_step) (raw_delay E (int count) w) = (rest, w')" "rest \<le> udelay_step"
      "usec - udelay_step = k * udelay_step + rest" "time w' = time (raw_delay E (int count) w) + k * count" by blast
    with True show ?thesis
      by (intro exI [of _ "Suc k"] exI [of _ rest] exI [of _ w'])
        (simp add: udelay_loop.simps [of E count usec] raw_delay_time [OF assms])
  next
    case False
    then show ?thesis by (intro exI [of _ 0] exI [of _ usec] exI [of _ w]) (simp add: udelay_loop.simps)
  qed
qed

lemma word_quotient:
  assumes "a * b < int_limit" "0 < u" "u < 2 ^ 32"
  shows "sint ((word_of_nat a * word_of_nat b) div word_of_nat u :: u32) = int (a * b div u)"
proof -
  have ab: "a * b < 2 ^ 32" and q: "a * b div u < 2 ^ 31"
    using assms(1) le_less_trans [OF div_le_dividend [of "a * b" u]] by (simp_all add: int_limit_def)
  have "unat ((word_of_nat a * word_of_nat b) div word_of_nat u :: u32) = unat (word_of_nat (a * b) :: u32) div unat (word_of_nat u :: u32)"
    by (simp add: unat_div_distrib)
  also have "\<dots> = a * b div u" using ab assms(3) by (simp only: unsigned_of_nat take_bit_nat_eq_self) (simp add: take_bit_nat_eq_self)
  finally have "(word_of_nat a * word_of_nat b) div word_of_nat u = (word_of_nat (a * b div u) :: u32)" by (metis of_nat_unat ucast_id)
  with q show ?thesis by (simp add: signed_of_nat signed_take_bit_int_eq_self)
qed

lemma rounded_parts:
  fixes U L S c q k K r :: nat
  assumes "c * U \<le> L * S" "L * S < (c + 1) * U" "q * U \<le> r * L" "r * L < (q + 1) * U" "k \<le> K"
  shows "(k * c + q) * U \<le> (k * S + r) * L" "(k * S + r) * L < (k * c + q + K + 1) * U"
proof -
  show "(k * c + q) * U \<le> (k * S + r) * L"
    using add_le_mono [OF mult_le_mono2 [OF assms(1), of k] assms(3)] by (simp only: algebra_simps)
  have "(k * S + r) * L < k * ((c + 1) * U) + (q + 1) * U"
    using add_le_less_mono [OF mult_le_mono2 [OF less_imp_le [OF assms(2)], of k] assms(4)] by (simp only: algebra_simps)
  also have "\<dots> = (k * c + q + k + 1) * U" by (simp add: algebra_simps)
  also have "\<dots> \<le> (k * c + q + K + 1) * U" using assms(5) by (intro mult_le_mono1) simp
  finally show "(k * S + r) * L < (k * c + q + K + 1) * U" .
qed

text \<open>A delay takes as many turns of the loop as the calibration asks for, up to one turn less in every part of it.\<close>

lemma generic_udelay_time:
  assumes clk: "steady_clock E T r time" and u: "0 < usec_per_jiffy E" "usec_per_jiffy E < 2 ^ 32" and lpj: "lpj * udelay_step < int_limit"
  shows "\<exists>w' n. generic_udelay E lpj usec w = Some w' \<and> time w' = time w + n \<and> n * usec_per_jiffy E \<le> unat usec * lpj
    \<and> unat usec * lpj < (n + unat usec div udelay_step + 1) * usec_per_jiffy E"
proof -
  let ?U = "usec_per_jiffy E"
  define c where "c = lpj * udelay_step div ?U"
  obtain k rest w1 where l: "udelay_loop E c (unat usec) w = (rest, w1)" "rest \<le> udelay_step" "unat usec = k * udelay_step + rest"
    "time w1 = time w + k * c" using udelay_loop_time [OF clk] by blast
  define q where "q = rest * lpj div ?U"
  have "rest * lpj \<le> udelay_step * lpj" using l(2) by (rule mult_le_mono1)
  then have "rest * lpj < int_limit" using lpj by (metis le_less_trans mult.commute)
  then have "generic_udelay E lpj usec w = Some (raw_delay E (int q) w1)"
    using u lpj l(1) word_quotient [of rest lpj ?U] by (simp add: generic_udelay_def q_def flip: c_def)
  moreover have "time (raw_delay E (int q) w1) = time w + (k * c + q)" by (simp add: raw_delay_time [OF clk] l(4))
  moreover have "c * ?U \<le> lpj * udelay_step" "lpj * udelay_step < (c + 1) * ?U" "q * ?U \<le> rest * lpj" "rest * lpj < (q + 1) * ?U"
    unfolding c_def q_def using u(1) by (simp_all add: dividend_less_div_times)
  moreover have "k \<le> unat usec div udelay_step" unfolding l(3) by (simp add: udelay_step_def)
  ultimately show ?thesis
    using rounded_parts [of c ?U lpj udelay_step q rest k "unat usec div udelay_step"] l(3) by metis
qed

text \<open>
  C31. Calibration and delays on a steady clock. The calibration ends, also with reads of the tick counter that take time, and finds a
  loop count that fits into a tick but with \<open>2 * r\<close> more turns would not. A delay with that count then runs for at most the requested part
  of a tick, and short of it by no more than the time of the reads, scaled to the delay, and one turn for every started ten milliseconds.
  The tick is at most 214748 turns long, so that no product overflows.
\<close>
theorem udelay_calibrated:
  assumes "steady_clock E T r time" "256 < T" "T * udelay_step < int_limit" "0 < u_hz E" "u_hz E \<le> 1000000"
  shows "\<exists>lpj w1. generic_udelay_init E w = Some (lpj, w1) \<and> lpj < T \<and> T \<le> lpj + 2 * r
    \<and> (\<forall>usec w. \<exists>w' n. generic_udelay E lpj usec w = Some w' \<and> time w' = time w + n \<and> n * usec_per_jiffy E \<le> unat usec * T
          \<and> unat usec * (T - 2 * r) < (n + unat usec div udelay_step + 1) * usec_per_jiffy E)"
proof -
  have "T \<le> 2 ^ 29" using assms(3) by (simp add: udelay_step_def int_limit_def)
  then obtain lpj w1 where i: "generic_udelay_init E w = Some (lpj, w1)" "lpj < T" "T \<le> lpj + 2 * r"
    using generic_udelay_init_calibrates [OF assms(1,2)] by blast
  have u: "0 < usec_per_jiffy E" "usec_per_jiffy E < 2 ^ 32"
    using assms(4,5) le_less_trans [OF div_le_dividend [of 1000000 "u_hz E"]] by (simp_all add: usec_per_jiffy_def div_greater_zero_iff)
  have "lpj * udelay_step \<le> T * udelay_step" using i(2) by (intro mult_le_mono1) simp
  then have lpj: "lpj * udelay_step < int_limit" using assms(3) by (rule le_less_trans)
  have "\<exists>w' n. generic_udelay E lpj usec w = Some w' \<and> time w' = time w + n \<and> n * usec_per_jiffy E \<le> unat usec * T
          \<and> unat usec * (T - 2 * r) < (n + unat usec div udelay_step + 1) * usec_per_jiffy E" for usec w
  proof -
    have "unat usec * lpj \<le> unat usec * T" "unat usec * (T - 2 * r) \<le> unat usec * lpj" using i(2,3) by (auto intro: mult_le_mono2)
    with generic_udelay_time [OF assms(1) u lpj, of usec w] show ?thesis by (meson le_trans le_less_trans)
  qed
  with i show ?thesis by blast
qed

text \<open>A machine with 1000 turns in a tick, 100 ticks in a second, whose state is the time.\<close>

definition ex_udelay_env :: "nat udelay_env" where
  "ex_udelay_env = \<lparr>u_jiffies = (\<lambda>t. (word_of_nat (t div 1000), t + 1)), u_nop = (\<lambda>t. t + 1), u_hz = 100\<rparr>"

theorem udelay_calibrated_witness:
  "\<exists>lpj w1. generic_udelay_init ex_udelay_env 17 = Some (lpj, w1) \<and> 998 \<le> lpj \<and> lpj < 1000
    \<and> (\<exists>t. generic_udelay ex_udelay_env lpj 25000 0 = Some t \<and> 2492 \<le> t \<and> t \<le> 2500)"
proof -
  have "steady_clock ex_udelay_env 1000 1 id" by (simp add: steady_clock_def ex_udelay_env_def)
  moreover have "usec_per_jiffy ex_udelay_env = 10000" by (simp add: usec_per_jiffy_def ex_udelay_env_def)
  ultimately obtain lpj w1 where i: "generic_udelay_init ex_udelay_env 17 = Some (lpj, w1)" "lpj < 1000" "1000 \<le> lpj + 2"
    and d: "\<forall>usec w. \<exists>w' n. generic_udelay ex_udelay_env lpj usec w = Some w' \<and> id w' = id w + n \<and> n * 10000 \<le> unat usec * 1000
          \<and> unat usec * (1000 - 2 * 1) < (n + unat usec div udelay_step + 1) * 10000"
    using udelay_calibrated [of ex_udelay_env 1000 1 id 17] by (auto simp: udelay_step_def int_limit_def ex_udelay_env_def)
  from d [rule_format, of 25000 0] have "\<exists>t. generic_udelay ex_udelay_env lpj 25000 0 = Some t \<and> 2492 \<le> t \<and> t \<le> 2500"
    by (auto simp: udelay_step_def)
  with i show ?thesis by auto
qed

end
