(* ===== verification/AtmegaSpi.thy ===== *)
theory AtmegaSpi
  imports Fifo
begin

text \<open>
  The SPI slave of the ATmega32u4, \<^verbatim>\<open>arch-atmega/spi.c\<close>: a device with a receive and a transmit ring that its interrupt
  handler serves, one byte of the master at a time. The state has the registers that the code sets, the two rings and
  the rest of the system, on which triggering the input event is a parameter. A buffer is \<open>None\<close> when its pointer is null;
  an access through it makes the operation \<open>None\<close>. Interrupts are disabled inside \<open>spi_read\<close>, so it is one step.
\<close>

section \<open>The code\<close>

definition SPI_BUF_SIZE :: int where "SPI_BUF_SIZE = 64"

record 'w spi_sys =
  reg_PORTB :: u8
  reg_DDRB :: u8
  reg_SPCR :: u8
  reg_SPDR :: u8
  sp_rx_head :: int
  sp_rx_tail :: int
  sp_bufrx :: "u8 list option"
  sp_overrun :: bool
  sp_tx_head :: int
  sp_tx_tail :: int
  sp_buftx :: "u8 list option"
  sp_world :: 'w

definition spi_init :: "'w spi_sys \<Rightarrow> 'w spi_sys" where
  "spi_init s = s\<lparr>reg_PORTB := set_bit 0 (reg_PORTB s), reg_DDRB := set_bit 3 (reg_DDRB s)\<rparr>"

text \<open>
  \<open>SPE\<close> and \<open>SPIE\<close> are the numbers of two bits of the control register, \<open>alloc\<close> is the allocator: its results are
  stored without a test.
\<close>

definition spi_open :: "nat \<Rightarrow> nat \<Rightarrow> (int \<Rightarrow> 'w \<Rightarrow> u8 list option \<times> 'w) \<Rightarrow> 'w spi_sys \<Rightarrow> int \<times> 'w spi_sys" where
  "spi_open SPE SPIE alloc s =
     (let s = s\<lparr>reg_SPCR := push_bit SPE 1\<rparr>;
          s = s\<lparr>reg_SPCR := reg_SPCR s OR push_bit SPIE 1\<rparr>;
          (rx, w) = alloc SPI_BUF_SIZE (sp_world s);
          (tx, w) = alloc SPI_BUF_SIZE w
      in (0, s\<lparr>sp_bufrx := rx, sp_buftx := tx, sp_world := w\<rparr>))"

definition spi_close :: "nat \<Rightarrow> nat \<Rightarrow> (u8 list option \<Rightarrow> 'w \<Rightarrow> 'w) \<Rightarrow> 'w spi_sys \<Rightarrow> 'w spi_sys" where
  "spi_close SPE SPIE free s =
     s\<lparr>reg_SPCR := unset_bit SPE (unset_bit SPIE (reg_SPCR s)), sp_world := free (sp_buftx s) (free (sp_bufrx s) (sp_world s))\<rparr>"

definition spi_read :: "('w \<Rightarrow> 'w) \<Rightarrow> nat \<Rightarrow> 'w spi_sys \<Rightarrow> (int \<times> u8 list \<times> 'w spi_sys) option" where
  "spi_read trigger len s =
     (let l = min (int len) (CIRC_CNT_TO_END (sp_rx_head s) (sp_rx_tail s) SPI_BUF_SIZE)
      in if l = 0 then Some (- EAGAIN, [], s)
         else case sp_bufrx s of None \<Rightarrow> None
           | Some b \<Rightarrow>
               let out = take (nat l) (drop (nat (sp_rx_tail s)) b);
                   s = s\<lparr>sp_rx_tail := ring_next (sp_rx_tail s) l SPI_BUF_SIZE, sp_overrun := False\<rparr>;
                   s = (if CIRC_CNT (sp_rx_head s) (sp_rx_tail s) SPI_BUF_SIZE \<noteq> 0 then s\<lparr>sp_world := trigger (sp_world s)\<rparr> else s)
               in Some (l, out, s))"

fun spi_write_loop :: "u8 list \<Rightarrow> 'w spi_sys \<Rightarrow> 'w spi_sys option" where
  "spi_write_loop [] s = Some s"
| "spi_write_loop (c # cs) s =
     (case sp_buftx s of None \<Rightarrow> None
      | Some b \<Rightarrow> spi_write_loop cs (s\<lparr>sp_buftx := Some (b[nat (sp_tx_head s) := c]), sp_tx_head := ring_next (sp_tx_head s) 1 SPI_BUF_SIZE\<rparr>))"

definition spi_write :: "u8 list \<Rightarrow> 'w spi_sys \<Rightarrow> (int \<times> 'w spi_sys) option" where
  "spi_write buf s =
     (let l = min (int (length buf)) (CIRC_SPACE (sp_tx_head s) (sp_tx_tail s) SPI_BUF_SIZE)
      in if l = 0 then Some (- EAGAIN, s) else map_option (Pair l) (spi_write_loop (take (nat l) buf) s))"

text \<open>The interrupt handler; \<open>c\<close> is the byte read from the data register, what it leaves there goes to the master next.\<close>

definition spi_enquiry :: "'w spi_sys \<Rightarrow> 'w spi_sys option" where
  "spi_enquiry s =
     (if CIRC_CNT (sp_tx_head s) (sp_tx_tail s) SPI_BUF_SIZE \<noteq> 0
      then case sp_buftx s of None \<Rightarrow> None
        | Some b \<Rightarrow> Some (s\<lparr>reg_SPDR := b ! nat (sp_tx_tail s), sp_tx_tail := ring_next (sp_tx_tail s) 1 SPI_BUF_SIZE\<rparr>)
      else Some (s\<lparr>reg_SPDR := 0\<rparr>))"

definition spi_receive :: "('w \<Rightarrow> 'w) \<Rightarrow> u8 \<Rightarrow> 'w spi_sys \<Rightarrow> 'w spi_sys option" where
  "spi_receive trigger c s =
     (let cnt_prev = CIRC_CNT (sp_rx_head s) (sp_rx_tail s) SPI_BUF_SIZE;
          s = (if CIRC_SPACE (sp_rx_head s) (sp_rx_tail s) SPI_BUF_SIZE = 0 then s\<lparr>sp_overrun := True\<rparr> else s);
          stored = (if sp_overrun s then Some s
                    else case sp_bufrx s of None \<Rightarrow> None
                      | Some b \<Rightarrow> Some (s\<lparr>sp_bufrx := Some (b[nat (sp_rx_head s) := c]), sp_rx_head := ring_next (sp_rx_head s) 1 SPI_BUF_SIZE\<rparr>))
      in map_option (\<lambda>s. if cnt_prev = 0 then s\<lparr>sp_world := trigger (sp_world s)\<rparr> else s) stored)"

definition SPI_STC_vect :: "('w \<Rightarrow> 'w) \<Rightarrow> u8 \<Rightarrow> 'w spi_sys \<Rightarrow> 'w spi_sys option" where
  "SPI_STC_vect trigger c s =
     (if c = 5 then spi_enquiry s
      else let s = s\<lparr>reg_SPDR := 0\<rparr> in if c = 0 then Some s else spi_receive trigger c s)"

section \<open>The rings as queues\<close>

text \<open>Both rings are in order, and the overrun mark is only set while the receive ring is full.\<close>

definition spi_tx_ok :: "'w spi_sys \<Rightarrow> bool" where
  "spi_tx_ok s \<longleftrightarrow> (\<exists>b. sp_buftx s = Some b \<and> ring_wf b (sp_tx_head s) (sp_tx_tail s) SPI_BUF_SIZE)"

definition spi_tx :: "'w spi_sys \<Rightarrow> u8 list" where
  "spi_tx s = ring_list (the (sp_buftx s)) (sp_tx_head s) (sp_tx_tail s) SPI_BUF_SIZE"

definition spi_rx_ok :: "'w spi_sys \<Rightarrow> bool" where
  "spi_rx_ok s \<longleftrightarrow> (\<exists>b. sp_bufrx s = Some b \<and> ring_wf b (sp_rx_head s) (sp_rx_tail s) SPI_BUF_SIZE)
     \<and> (sp_overrun s \<longrightarrow> CIRC_SPACE (sp_rx_head s) (sp_rx_tail s) SPI_BUF_SIZE = 0)"

definition spi_rx :: "'w spi_sys \<Rightarrow> u8 list" where
  "spi_rx s = ring_list (the (sp_bufrx s)) (sp_rx_head s) (sp_rx_tail s) SPI_BUF_SIZE"

definition spi_put_tx :: "u8 \<Rightarrow> 'w spi_sys \<Rightarrow> 'w spi_sys" where
  "spi_put_tx c s = (case spi_write [c] s of Some (r, s') \<Rightarrow> s' | None \<Rightarrow> s)"

definition spi_get_tx :: "'w spi_sys \<Rightarrow> 'w spi_sys" where
  "spi_get_tx s = (case spi_enquiry s of Some s' \<Rightarrow> s' | None \<Rightarrow> s)"

lemma spi_tx_okE:
  assumes "spi_tx_ok s"
  obtains b where "sp_buftx s = Some b" "ring_wf b (sp_tx_head s) (sp_tx_tail s) SPI_BUF_SIZE"
  using assms by (auto simp: spi_tx_ok_def)

lemma spi_rx_okE:
  assumes "spi_rx_ok s"
  obtains b where "sp_bufrx s = Some b" "ring_wf b (sp_rx_head s) (sp_rx_tail s) SPI_BUF_SIZE"
    "sp_overrun s \<longrightarrow> CIRC_SPACE (sp_rx_head s) (sp_rx_tail s) SPI_BUF_SIZE = 0"
  using assms by (auto simp: spi_rx_ok_def)

text \<open>What a ring of this size says about its list.\<close>

lemma spi_ring_lengths:
  assumes "ring_wf b h t SPI_BUF_SIZE"
  shows "CIRC_CNT h t SPI_BUF_SIZE = int (length (ring_list b h t SPI_BUF_SIZE))"
    and "CIRC_SPACE h t SPI_BUF_SIZE = 63 - int (length (ring_list b h t SPI_BUF_SIZE))"
    and "length (ring_list b h t SPI_BUF_SIZE) \<le> 63"
  using CIRC_CNT_bounds [OF assms] CIRC_SPACE_eq [OF assms] by (simp_all add: SPI_BUF_SIZE_def)

lemma spi_tx_length: "spi_tx_ok s \<Longrightarrow> length (spi_tx s) \<le> 63"
  by (auto simp: spi_tx_ok_def spi_tx_def dest: spi_ring_lengths(3) simp del: length_ring_list)

text \<open>One byte put into the transmit ring, when there is room.\<close>

lemma spi_write_step:
  assumes "spi_tx_ok s" "length (spi_tx s) < 63"
  shows "\<exists>s'. spi_write_loop (c # cs) s = spi_write_loop cs s' \<and> spi_tx_ok s' \<and> spi_tx s' = spi_tx s @ [c]
    \<and> spi_rx s' = spi_rx s \<and> spi_rx_ok s' = spi_rx_ok s \<and> sp_world s' = sp_world s"
proof -
  obtain b where b: "sp_buftx s = Some b" "ring_wf b (sp_tx_head s) (sp_tx_tail s) SPI_BUF_SIZE" using assms(1) by (rule spi_tx_okE)
  have "CIRC_SPACE (sp_tx_head s) (sp_tx_tail s) SPI_BUF_SIZE \<noteq> 0"
    using assms(2) spi_ring_lengths(2) [OF b(2)] b(1) by (simp add: spi_tx_def del: length_ring_list)
  from ring_push1 [OF b(2) this, of c] show ?thesis
    using b(1) by (intro exI [of _ "s\<lparr>sp_buftx := Some (b[nat (sp_tx_head s) := c]), sp_tx_head := ring_next (sp_tx_head s) 1 SPI_BUF_SIZE\<rparr>"])
      (simp add: spi_tx_ok_def spi_tx_def spi_rx_def spi_rx_ok_def)
qed

lemma spi_write_loop_appends:
  assumes "spi_tx_ok s" "length (spi_tx s) + length cs \<le> 63"
  shows "\<exists>s'. spi_write_loop cs s = Some s' \<and> spi_tx_ok s' \<and> spi_tx s' = spi_tx s @ cs
    \<and> spi_rx s' = spi_rx s \<and> spi_rx_ok s' = spi_rx_ok s \<and> sp_world s' = sp_world s"
  using assms
proof (induction cs arbitrary: s)
  case (Cons c cs)
  from spi_write_step [OF Cons.prems(1), of c cs] Cons.prems(2) obtain s' where
    s': "spi_write_loop (c # cs) s = spi_write_loop cs s'" "spi_tx_ok s'" "spi_tx s' = spi_tx s @ [c]"
    "spi_rx s' = spi_rx s" "spi_rx_ok s' = spi_rx_ok s" "sp_world s' = sp_world s" by auto
  with Cons.IH [OF s'(2)] Cons.prems(2) show ?case by auto
qed simp

text \<open>A write takes what fits, and is refused when nothing does.\<close>

lemma spi_write_takes:
  assumes "spi_tx_ok s"
  shows "\<exists>r s'. spi_write buf s = Some (r, s') \<and> spi_tx_ok s' \<and> spi_tx s' = take 63 (spi_tx s @ buf)
    \<and> spi_rx s' = spi_rx s \<and> spi_rx_ok s' = spi_rx_ok s \<and> sp_world s' = sp_world s
    \<and> r = (if buf = [] \<or> length (spi_tx s) = 63 then - EAGAIN else int (min (length buf) (63 - length (spi_tx s))))"
proof -
  obtain b where b: "sp_buftx s = Some b" "ring_wf b (sp_tx_head s) (sp_tx_tail s) SPI_BUF_SIZE" using assms by (rule spi_tx_okE)
  define n where "n = min (length buf) (63 - length (spi_tx s))"
  have le: "length (spi_tx s) \<le> 63" using assms by (rule spi_tx_length)
  have "CIRC_SPACE (sp_tx_head s) (sp_tx_tail s) SPI_BUF_SIZE = 63 - int (length (spi_tx s))"
    using spi_ring_lengths(2) [OF b(2)] b(1) by (simp add: spi_tx_def del: length_ring_list)
  then have l: "min (int (length buf)) (CIRC_SPACE (sp_tx_head s) (sp_tx_tail s) SPI_BUF_SIZE) = int n"
    unfolding n_def using le by linarith
  have tk: "spi_tx s @ take n buf = take 63 (spi_tx s @ buf)" using le by (simp add: n_def min_def)
  show ?thesis
  proof (cases "n = 0")
    case True
    then have "spi_tx s = take 63 (spi_tx s @ buf)" "buf = [] \<or> length (spi_tx s) = 63" using tk le by (auto simp: n_def)
    with True l assms show ?thesis by (auto simp: spi_write_def)
  next
    case False
    then have nz: "\<not> (buf = [] \<or> length (spi_tx s) = 63)" by (auto simp: n_def)
    have "length (spi_tx s) + length (take n buf) \<le> 63" using le by (auto simp: n_def min_def)
    from spi_write_loop_appends [OF assms this] obtain s' where
      "spi_write_loop (take n buf) s = Some s'" "spi_tx_ok s'" "spi_tx s' = spi_tx s @ take n buf"
      "spi_rx s' = spi_rx s" "spi_rx_ok s' = spi_rx_ok s" "sp_world s' = sp_world s" by blast
    moreover from this(1) have "spi_write buf s = Some (int n, s')" using False l by (simp add: spi_write_def)
    ultimately show ?thesis using nz tk by (auto simp flip: n_def)
  qed
qed

text \<open>An enquiry sends the oldest byte of the transmit ring, or 0.\<close>

lemma spi_enquiry_pops:
  assumes "spi_tx_ok s"
  shows "\<exists>s'. spi_enquiry s = Some s' \<and> spi_tx_ok s' \<and> spi_tx s' = tl (spi_tx s)
    \<and> reg_SPDR s' = (case spi_tx s of [] \<Rightarrow> 0 | c # _ \<Rightarrow> c)
    \<and> spi_rx s' = spi_rx s \<and> spi_rx_ok s' = spi_rx_ok s \<and> sp_world s' = sp_world s"
proof -
  obtain b where b: "sp_buftx s = Some b" "ring_wf b (sp_tx_head s) (sp_tx_tail s) SPI_BUF_SIZE" using assms by (rule spi_tx_okE)
  let ?n = "CIRC_CNT (sp_tx_head s) (sp_tx_tail s) SPI_BUF_SIZE"
  show ?thesis
  proof (cases "?n = 0")
    case True
    then have "spi_tx s = []" using b ring_list_empty_iff [OF b(2)] by (simp add: spi_tx_def)
    with True assms show ?thesis by (simp add: spi_enquiry_def spi_tx_ok_def spi_tx_def spi_rx_def spi_rx_ok_def)
  next
    case False
    then show ?thesis
      using b ring_hd [OF b(2) False] ring_pop1 [OF b(2) False]
      by (auto simp: spi_enquiry_def spi_tx_ok_def spi_tx_def spi_rx_def spi_rx_ok_def split: list.split)
  qed
qed

text \<open>A received byte is stored unless the ring is full.\<close>

lemma spi_receive_pushes:
  assumes "spi_rx_ok s"
  shows "\<exists>s'. spi_receive trigger c s = Some s' \<and> spi_rx_ok s' \<and> spi_rx s' = take 63 (spi_rx s @ [c])
    \<and> reg_SPDR s' = reg_SPDR s \<and> spi_tx s' = spi_tx s \<and> spi_tx_ok s' = spi_tx_ok s
    \<and> sp_world s' = (if spi_rx s = [] then trigger (sp_world s) else sp_world s)"
proof -
  obtain b where b: "sp_bufrx s = Some b" "ring_wf b (sp_rx_head s) (sp_rx_tail s) SPI_BUF_SIZE"
    and ov: "sp_overrun s \<longrightarrow> CIRC_SPACE (sp_rx_head s) (sp_rx_tail s) SPI_BUF_SIZE = 0" using assms by (rule spi_rx_okE)
  let ?sp = "CIRC_SPACE (sp_rx_head s) (sp_rx_tail s) SPI_BUF_SIZE"
  have len: "?sp = 63 - int (length (spi_rx s))" "length (spi_rx s) \<le> 63"
    and empty: "CIRC_CNT (sp_rx_head s) (sp_rx_tail s) SPI_BUF_SIZE = 0 \<longleftrightarrow> spi_rx s = []"
    using spi_ring_lengths [OF b(2)] ring_list_empty_iff [OF b(2)] b(1) by (simp_all add: spi_rx_def del: length_ring_list)
  show ?thesis
  proof (cases "?sp = 0")
    case True
    then have "spi_rx s = take 63 (spi_rx s @ [c])" using len by simp
    with True b empty show ?thesis by (simp add: spi_receive_def spi_tx_ok_def spi_tx_def spi_rx_def spi_rx_ok_def Let_def)
  next
    case False
    then have "take 63 (spi_rx s @ [c]) = spi_rx s @ [c]" using len by simp
    with False b ov empty ring_push1 [OF b(2) False, of c] show ?thesis
      by (simp add: spi_receive_def spi_tx_ok_def spi_tx_def spi_rx_def spi_rx_ok_def Let_def)
  qed
qed

text \<open>The transmit ring is a bounded queue: a write of one byte puts, an enquiry takes.\<close>

interpretation spiq: bounded_fifo spi_tx_ok spi_tx "\<lambda>s. 63" spi_put_tx spi_get_tx
proof
  fix s :: "'a spi_sys" and c
  assume ok: "spi_tx_ok s"
  from spi_write_takes [OF ok, of "[c]"] obtain r s1 where w: "spi_write [c] s = Some (r, s1)" "spi_tx_ok s1" "spi_tx s1 = take 63 (spi_tx s @ [c])" by blast
  from spi_enquiry_pops [OF ok] obtain s2 where e: "spi_enquiry s = Some s2" "spi_tx_ok s2" "spi_tx s2 = tl (spi_tx s)" by blast
  show "length (spi_tx s) \<le> 63" using ok by (rule spi_tx_length)
  show "spi_tx_ok (spi_put_tx c s) \<and> 63 = (63 :: nat)" using w by (simp add: spi_put_tx_def)
  show "spi_tx_ok (spi_get_tx s) \<and> 63 = (63 :: nat)" using e by (simp add: spi_get_tx_def)
  show "spi_tx (spi_get_tx s) = tl (spi_tx s)" using e by (simp add: spi_get_tx_def)
  show "length (spi_tx s) < 63 \<Longrightarrow> spi_tx (spi_put_tx c s) = spi_tx s @ [c]" using w by (simp add: spi_put_tx_def)
  show "length (spi_tx s) = 63 \<Longrightarrow> spi_put_tx c s = s"
  proof -
    assume full: "length (spi_tx s) = 63"
    from ok obtain b where b: "sp_buftx s = Some b" "ring_wf b (sp_tx_head s) (sp_tx_tail s) SPI_BUF_SIZE" by (rule spi_tx_okE)
    then have "CIRC_SPACE (sp_tx_head s) (sp_tx_tail s) SPI_BUF_SIZE = 0"
      using spi_ring_lengths(2) [OF b(2)] full by (simp add: spi_tx_def del: length_ring_list)
    then show ?thesis by (simp add: spi_put_tx_def spi_write_def)
  qed
qed

section \<open>The link\<close>

text \<open>The handler over the bytes of the master; the bytes that it puts into the data register, one for each.\<close>

fun spi_exchange :: "('w \<Rightarrow> 'w) \<Rightarrow> u8 list \<Rightarrow> 'w spi_sys \<Rightarrow> (u8 list \<times> 'w spi_sys) option" where
  "spi_exchange trigger [] s = Some ([], s)"
| "spi_exchange trigger (c # cs) s =
     Option.bind (SPI_STC_vect trigger c s) (\<lambda>s.
       map_option (\<lambda>(out, s'). (reg_SPDR s # out, s')) (spi_exchange trigger cs s))"

text \<open>What the master should get: on its enquiries the queued bytes in order, and 0 otherwise.\<close>

fun spi_answers :: "u8 list \<Rightarrow> u8 list \<Rightarrow> u8 list" where
  "spi_answers [] tx = []"
| "spi_answers (c # cs) tx =
     (if c = 5 then (case tx of [] \<Rightarrow> 0 # spi_answers cs [] | x # tx \<Rightarrow> x # spi_answers cs tx) else 0 # spi_answers cs tx)"

abbreviation spi_data_byte :: "u8 \<Rightarrow> bool" where
  "spi_data_byte c \<equiv> c \<noteq> 0 \<and> c \<noteq> 5"

lemma take_append_take: "take n (take n xs @ ys) = take n (xs @ ys)"
  by (simp add: take_append) (metis diff_diff_cancel diff_is_0_eq' length_take min.commute min_def nle_le take_all)

text \<open>One byte of the master.\<close>

lemma SPI_STC_step:
  assumes "spi_rx_ok s" "spi_tx_ok s"
  shows "\<exists>s'. SPI_STC_vect trigger c s = Some s' \<and> spi_rx_ok s' \<and> spi_tx_ok s'
    \<and> spi_rx s' = (if spi_data_byte c then take 63 (spi_rx s @ [c]) else spi_rx s)
    \<and> spi_tx s' = (if c = 5 then tl (spi_tx s) else spi_tx s)
    \<and> reg_SPDR s' = (if c = 5 then case spi_tx s of [] \<Rightarrow> 0 | x # _ \<Rightarrow> x else 0)"
proof -
  let ?s = "s\<lparr>reg_SPDR := 0\<rparr>"
  have same: "spi_rx_ok ?s = spi_rx_ok s" "spi_tx_ok ?s = spi_tx_ok s" "spi_rx ?s = spi_rx s" "spi_tx ?s = spi_tx s"
    by (simp_all add: spi_tx_ok_def spi_tx_def spi_rx_def spi_rx_ok_def)
  show ?thesis
    using assms spi_enquiry_pops [OF assms(2)] spi_receive_pushes [of ?s trigger c] same by (auto simp: SPI_STC_vect_def)
qed

text \<open>
  C32. The SPI link. Whatever bytes the master sends, mixed in any way, each enquiry is answered with the next byte of the
  transmit ring, with 0 when there is none, and every other byte with 0; the data bytes, all but 0 and the enquiry code, are received in order
  as long as they fit into the ring, and the ring keeps the oldest. Every answer is consumed once.
\<close>
theorem spi_link:
  assumes "spi_rx_ok s" "spi_tx_ok s"
  shows "\<exists>s'. spi_exchange trigger cs s = Some (spi_answers cs (spi_tx s), s') \<and> spi_rx_ok s' \<and> spi_tx_ok s'
    \<and> spi_rx s' = take 63 (spi_rx s @ filter spi_data_byte cs) \<and> spi_tx s' = drop (length (filter ((=) 5) cs)) (spi_tx s)"
  using assms
proof (induction cs arbitrary: s)
  case Nil
  then have "length (spi_rx s) \<le> 63" by (auto simp: spi_rx_ok_def spi_rx_def dest: spi_ring_lengths(3) simp del: length_ring_list)
  with Nil show ?case by simp
next
  case (Cons c cs)
  from SPI_STC_step [OF Cons.prems, of trigger c] obtain s1 where
    s1: "SPI_STC_vect trigger c s = Some s1" "spi_rx_ok s1" "spi_tx_ok s1"
    "spi_rx s1 = (if spi_data_byte c then take 63 (spi_rx s @ [c]) else spi_rx s)"
    "spi_tx s1 = (if c = 5 then tl (spi_tx s) else spi_tx s)"
    "reg_SPDR s1 = (if c = 5 then case spi_tx s of [] \<Rightarrow> 0 | x # _ \<Rightarrow> x else 0)" by blast
  from Cons.IH [OF s1(2,3)] obtain s2 where
    s2: "spi_exchange trigger cs s1 = Some (spi_answers cs (spi_tx s1), s2)" "spi_rx_ok s2" "spi_tx_ok s2"
    "spi_rx s2 = take 63 (spi_rx s1 @ filter spi_data_byte cs)" "spi_tx s2 = drop (length (filter ((=) 5) cs)) (spi_tx s1)" by blast
  have "spi_exchange trigger (c # cs) s = Some (spi_answers (c # cs) (spi_tx s), s2)"
    using s1 s2(1) by (cases "spi_tx s") auto
  moreover have "spi_rx s2 = take 63 (spi_rx s @ filter spi_data_byte (c # cs))"
    using s1(4) s2(4) take_append_take [of 63 "spi_rx s @ [c]" "filter spi_data_byte cs"] by simp
  moreover have "spi_tx s2 = drop (length (filter ((=) 5) (c # cs))) (spi_tx s)"
    using s1(5) s2(5) by (simp add: drop_Suc)
  ultimately show ?case using s2(2,3) by blast
qed

text \<open>
  A reader that is called on every input event gets every byte: a read returns the oldest bytes up to the end of the array, removes exactly
  these, ends an overrun, and triggers the event again when it has left some.
\<close>
theorem spi_read_takes_oldest:
  assumes "spi_rx_ok s" "0 < len"
  shows "\<exists>r out s'. spi_read trigger len s = Some (r, out, s') \<and> spi_rx_ok s' \<and> spi_rx s = out @ spi_rx s' \<and> length out \<le> len
    \<and> (spi_rx s \<noteq> [] \<longrightarrow> out \<noteq> [] \<and> r = int (length out) \<and> sp_world s' = (if spi_rx s' = [] then sp_world s else trigger (sp_world s)))
    \<and> (spi_rx s = [] \<longrightarrow> r = - EAGAIN \<and> s' = s)"
proof -
  obtain b where b: "sp_bufrx s = Some b" "ring_wf b (sp_rx_head s) (sp_rx_tail s) SPI_BUF_SIZE"
    using assms(1) by (rule spi_rx_okE)
  let ?h = "sp_rx_head s" and ?t = "sp_rx_tail s"
  let ?e = "CIRC_CNT_TO_END ?h ?t SPI_BUF_SIZE"
  define l where "l = min (int len) ?e"
  have e: "?e = min (CIRC_CNT ?h ?t SPI_BUF_SIZE) (SPI_BUF_SIZE - ?t)" by (rule CIRC_CNT_TO_END_eq [OF b(2)])
  have cnt: "CIRC_CNT ?h ?t SPI_BUF_SIZE = int (length (spi_rx s))" "CIRC_CNT ?h ?t SPI_BUF_SIZE = 0 \<longleftrightarrow> spi_rx s = []"
    using spi_ring_lengths(1) [OF b(2)] ring_list_empty_iff [OF b(2)] b(1) by (simp_all add: spi_rx_def del: length_ring_list)
  have l: "0 \<le> l" "l \<le> CIRC_CNT ?h ?t SPI_BUF_SIZE" "l \<le> int len" "l = 0 \<longleftrightarrow> spi_rx s = []"
    unfolding l_def e using cnt assms(2) ring_wfD(5,6) [OF b(2)] by (auto simp: min_def split: if_splits)
  show ?thesis
  proof (cases "l = 0")
    case True
    with l(4) assms show ?thesis by (simp add: spi_read_def flip: l_def)
  next
    case False
    define s1 where "s1 = s\<lparr>sp_rx_tail := ring_next ?t l SPI_BUF_SIZE, sp_overrun := False\<rparr>"
    have wf: "ring_wf b ?h (ring_next ?t l SPI_BUF_SIZE) SPI_BUF_SIZE" by (rule ring_pop_wf [OF b(2) l(1,2)])
    have s1: "spi_rx_ok s1" "spi_rx s1 = drop (nat l) (spi_rx s)"
      using b wf ring_pop [OF b(2) l(1,2)] by (simp_all add: s1_def spi_rx_ok_def spi_rx_def)
    have out: "take (nat l) (drop (nat ?t) b) = take (nat l) (spi_rx s)"
      using ring_read [OF b(2), of "nat l"] l(1) b(1) by (simp add: spi_rx_def l_def)
    have more: "CIRC_CNT (sp_rx_head s1) (sp_rx_tail s1) SPI_BUF_SIZE = 0 \<longleftrightarrow> spi_rx s1 = []"
      using ring_list_empty_iff [OF wf] b(1) by (simp add: s1_def spi_rx_def)
    have "length (take (nat l) (spi_rx s)) = nat l" using l cnt by simp
    moreover have "spi_read trigger len s = Some (l, take (nat l) (spi_rx s), if spi_rx s1 = [] then s1 else s1\<lparr>sp_world := trigger (sp_world s1)\<rparr>)"
      using False b(1) more by (simp add: spi_read_def out Let_def s1_def flip: l_def)
    moreover have "sp_world s1 = sp_world s" by (simp add: s1_def)
    moreover have "spi_rx_ok (s1\<lparr>sp_world := w\<rparr>) = spi_rx_ok s1" "spi_rx (s1\<lparr>sp_world := w\<rparr>) = spi_rx s1" for w
      by (simp_all add: spi_rx_ok_def spi_rx_def)
    ultimately show ?thesis using s1 l False by (auto simp: nat_le_iff)
  qed
qed

text \<open>A state after opening, with two bytes to send.\<close>

definition ex_spi :: "nat spi_sys" where
  "ex_spi = snd (the (spi_write [7, 8] (snd (spi_open 6 7 (\<lambda>n w. (Some (replicate (nat n) 0), w))
     \<lparr>reg_PORTB = 0, reg_DDRB = 0, reg_SPCR = 0, reg_SPDR = 0, sp_rx_head = 0, sp_rx_tail = 0, sp_bufrx = None, sp_overrun = False,
      sp_tx_head = 0, sp_tx_tail = 0, sp_buftx = None, sp_world = 0\<rparr>))))"

lemma ex_spi_ok: "spi_rx_ok ex_spi" "spi_tx_ok ex_spi" "spi_rx ex_spi = []" "spi_tx ex_spi = [7, 8]" "sp_world ex_spi = 0"
proof -
  let ?s = "snd (spi_open 6 7 (\<lambda>n w. (Some (replicate (nat n) 0), w))
     \<lparr>reg_PORTB = 0, reg_DDRB = 0, reg_SPCR = 0, reg_SPDR = 0, sp_rx_head = 0, sp_rx_tail = 0, sp_bufrx = None, sp_overrun = False,
      sp_tx_head = 0, sp_tx_tail = 0, sp_buftx = None, sp_world = (0 :: nat)\<rparr>)"
  have "ring_wf (replicate 64 (0 :: u8)) 0 0 64" by (rule ring_wfI [of _ 6]) simp_all
  then have "spi_rx_ok ?s" "spi_tx_ok ?s" "spi_rx ?s = []" "spi_tx ?s = []" "sp_world ?s = 0"
    by (simp_all add: spi_open_def spi_rx_ok_def spi_tx_ok_def SPI_BUF_SIZE_def spi_rx_def spi_tx_def ring_list_def CIRC_CNT_def)
  with spi_write_takes [of ?s "[7, 8]"] show
    "spi_rx_ok ex_spi" "spi_tx_ok ex_spi" "spi_rx ex_spi = []" "spi_tx ex_spi = [7, 8]" "sp_world ex_spi = 0"
    unfolding ex_spi_def by auto
qed

theorem spi_link_witness:
  "\<exists>s'. spi_exchange Suc [5, 65, 5, 66, 0, 5] ex_spi = Some ([7, 0, 8, 0, 0, 0], s') \<and> spi_rx s' = [65, 66] \<and> spi_tx s' = []"
  using spi_link [OF ex_spi_ok(1,2), of Suc "[5, 65, 5, 66, 0, 5]"] by (auto simp: ex_spi_ok)

theorem spi_read_takes_oldest_witness:
  "\<exists>s1 r out s2. SPI_STC_vect Suc 65 ex_spi = Some s1 \<and> spi_read Suc 10 s1 = Some (r, out, s2) \<and> out \<noteq> [] \<and> out @ spi_rx s2 = [65]"
proof -
  from SPI_STC_step [OF ex_spi_ok(1,2), of Suc 65] obtain s1 where
    s1: "SPI_STC_vect Suc 65 ex_spi = Some s1" "spi_rx_ok s1" "spi_rx s1 = [65]" by (auto simp: ex_spi_ok)
  from spi_read_takes_oldest [OF s1(2), of 10 Suc] s1(3) obtain r out s2 where
    "spi_read Suc 10 s1 = Some (r, out, s2)" "out \<noteq> []" "out @ spi_rx s2 = [65]" by auto
  with s1(1) show ?thesis by blast
qed

end
