(* ===== verification/AtmegaPwm.thy ===== *)
theory AtmegaPwm
  imports McuioFuncs
begin

text \<open>
  The pulse width outputs of the ATmega32u4, \<^verbatim>\<open>arch-atmega/pwm.c\<close>, as the table that the MCUIO function for pulse width
  outputs (\<open>McuioFuncs\<close>) works on.

  The state has the timer and direction registers, which keep what is written to them, and the variables of the driver. The numbers of the bits in
  the registers come from the headers of the compiler; they are the parameter \<open>B\<close>.
\<close>

section \<open>Registers and state\<close>

datatype avr_reg8 = TCCR0A | TCCR0B | TCCR1A | TCCR1B | TCCR3A | TCCR3B | TCCR4B | TCCR4C | OCR0B | OCR4C | OCR4D | DDRB | DDRC | DDRD

datatype avr_reg16 = ICR1 | ICR3 | OCR1A | OCR1B | OCR1C | OCR3A

datatype avr_bit = WGM00 | WGM01 | WGM02 | WGM11 | WGM12 | WGM13 | CS10 | CS11 | CS12 | CS40 | CS41 | CS43 | PWM4X | PWM4D
  | COM0B0 | COM0B1 | COM1A0 | COM1A1 | COM1B0 | COM1B1 | COM1C0 | COM1C1 | COM3A0 | COM3A1 | COM4D1
  | DDD0 | DDB5 | DDB6 | DDB7 | DDC6 | DDD7

type_synonym avr_bits = "avr_bit \<Rightarrow> nat"

record pwm_hw =
  reg8 :: "avr_reg8 \<Rightarrow> u8"
  reg16 :: "avr_reg16 \<Rightarrow> u16"
  pwm_stat :: u32
  gpio_orig_dir :: u32
  t_ref :: "u8 list"

text \<open>The fields of an output that its operations use.\<close>

record avr_pwm =
  ap_id :: nat
  ap_tim_id :: nat
  ap_ctl_reg :: avr_reg8
  ap_en_msk :: u8
  ap_pol_msk :: u8
  ap_dir_reg :: avr_reg8
  ap_dir_msk :: u8
  ap_duty_reg :: avr_reg16
  ap_tim_max_mul :: u32
  ap_init_timer :: "pwm_hw \<Rightarrow> pwm_hw"
  ap_deinit_timer :: "pwm_hw \<Rightarrow> pwm_hw"

definition bits_of :: "avr_bits \<Rightarrow> avr_bit list \<Rightarrow> u8" where
  "bits_of B bs = fold (\<lambda>b m. m OR push_bit (B b) 1) bs 0"

definition reg_or :: "avr_reg8 \<Rightarrow> u8 \<Rightarrow> pwm_hw \<Rightarrow> pwm_hw" where
  "reg_or r m h = h\<lparr>reg8 := (reg8 h)(r := reg8 h r OR m)\<rparr>"

definition reg_clear :: "avr_reg8 \<Rightarrow> u8 \<Rightarrow> pwm_hw \<Rightarrow> pwm_hw" where
  "reg_clear r m h = h\<lparr>reg8 := (reg8 h)(r := reg8 h r AND NOT m)\<rparr>"

definition set_reg8 :: "avr_reg8 \<Rightarrow> u8 \<Rightarrow> pwm_hw \<Rightarrow> pwm_hw" where
  "set_reg8 r v h = h\<lparr>reg8 := (reg8 h)(r := v)\<rparr>"

definition set_reg16 :: "avr_reg16 \<Rightarrow> u16 \<Rightarrow> pwm_hw \<Rightarrow> pwm_hw" where
  "set_reg16 r v h = h\<lparr>reg16 := (reg16 h)(r := v)\<rparr>"

section \<open>Timers\<close>

definition pwm_enabled :: "nat \<Rightarrow> pwm_hw \<Rightarrow> bool" where
  "pwm_enabled idx h \<longleftrightarrow> pwm_stat h AND push_bit idx 1 \<noteq> 0"

definition init_timer0 :: "avr_bits \<Rightarrow> pwm_hw \<Rightarrow> pwm_hw" where
  "init_timer0 B h = reg_or TCCR0B (bits_of B [WGM02]) (reg_or TCCR0A (bits_of B [WGM00, WGM01]) h)"

definition deinit_timer0 :: "avr_bits \<Rightarrow> pwm_hw \<Rightarrow> pwm_hw" where
  "deinit_timer0 B h = reg_clear TCCR0B (bits_of B [WGM02]) (reg_clear TCCR0A (bits_of B [WGM00, WGM01]) h)"

definition init_timer1 :: "avr_bits \<Rightarrow> pwm_hw \<Rightarrow> pwm_hw" where
  "init_timer1 B h = set_reg16 ICR1 39999 (reg_or TCCR1B (bits_of B [WGM13, WGM12, CS11]) (reg_or TCCR1A (bits_of B [WGM11]) h))"

definition deinit_timer1 :: "avr_bits \<Rightarrow> pwm_hw \<Rightarrow> pwm_hw" where
  "deinit_timer1 B h = set_reg16 ICR1 0 (reg_clear TCCR1B (bits_of B [WGM13, WGM12, CS10, CS11, CS12]) (reg_clear TCCR1A (bits_of B [WGM11]) h))"

definition init_timer3 :: "avr_bits \<Rightarrow> pwm_hw \<Rightarrow> pwm_hw" where
  "init_timer3 B h = set_reg16 ICR3 39999 (reg_or TCCR3B (bits_of B [WGM13, WGM12, CS11]) (reg_or TCCR3A (bits_of B [WGM11]) h))"

definition deinit_timer3 :: "avr_bits \<Rightarrow> pwm_hw \<Rightarrow> pwm_hw" where
  "deinit_timer3 B h = set_reg16 ICR3 0 (reg_clear TCCR3B (bits_of B [WGM13, WGM12, CS10, CS11, CS12]) (reg_clear TCCR3A (bits_of B [WGM11]) h))"

definition init_timer4 :: "avr_bits \<Rightarrow> pwm_hw \<Rightarrow> pwm_hw" where
  "init_timer4 B h = reg_or TCCR4B (bits_of B [CS43, CS41, CS40]) h"

definition deinit_timer4 :: "avr_bits \<Rightarrow> pwm_hw \<Rightarrow> pwm_hw" where
  "deinit_timer4 B h = reg_clear TCCR4B (bits_of B [CS43, CS41, CS40]) h"

definition check_init_timer :: "avr_pwm \<Rightarrow> pwm_hw \<Rightarrow> pwm_hw" where
  "check_init_timer p h =
     (let t = ap_tim_id p
      in if t_ref h ! t = 0 then ap_init_timer p (h\<lparr>t_ref := (t_ref h)[t := 1]\<rparr>)
         else if \<not> pwm_enabled t h then h\<lparr>t_ref := (t_ref h)[t := t_ref h ! t + 1]\<rparr>
         else h)"

definition check_deinit_timer :: "avr_pwm \<Rightarrow> pwm_hw \<Rightarrow> pwm_hw" where
  "check_deinit_timer p h =
     (let i = ap_id p; h = (if pwm_enabled i h then h\<lparr>t_ref := (t_ref h)[i := t_ref h ! i - 1]\<rparr> else h)
      in if t_ref h ! i = 0 then ap_deinit_timer p h else h)"

section \<open>Operations\<close>

definition pwm_set_period_timer1 :: "u32 \<Rightarrow> pwm_hw \<Rightarrow> int \<times> pwm_hw" where
  "pwm_set_period_timer1 val h = (0, set_reg16 ICR1 (ucast (if val > 0 then val - 1 else val)) h)"

definition pwm_get_period_timer1 :: "pwm_hw \<Rightarrow> u32" where
  "pwm_get_period_timer1 h = ucast (reg16 h ICR1) + 1"

definition pwm_set_period_timer3 :: "u32 \<Rightarrow> pwm_hw \<Rightarrow> int \<times> pwm_hw" where
  "pwm_set_period_timer3 val h = (0, set_reg16 ICR3 (ucast (if val > 0 then val - 1 else val)) h)"

definition pwm_get_period_timer3 :: "pwm_hw \<Rightarrow> u32" where
  "pwm_get_period_timer3 h = ucast (reg16 h ICR3) + 1"

definition pwm_set_period_timer4 :: "u32 \<Rightarrow> pwm_hw \<Rightarrow> int \<times> pwm_hw" where
  "pwm_set_period_timer4 val h = (0, set_reg8 OCR4C (ucast val) h)"

definition pwm_get_period_timer4 :: "pwm_hw \<Rightarrow> u32" where
  "pwm_get_period_timer4 h = ucast (reg8 h OCR4C)"

definition pwm_en :: "avr_pwm \<Rightarrow> pwm_hw \<Rightarrow> int \<times> pwm_hw" where
  "pwm_en p h =
     (let h = reg_or (ap_ctl_reg p) (ap_en_msk p) (check_init_timer p h);
          h = (if reg8 h (ap_dir_reg p) AND ap_dir_msk p \<noteq> 0 then h\<lparr>gpio_orig_dir := gpio_orig_dir h OR push_bit (ap_id p) 1\<rparr>
               else reg_or (ap_dir_reg p) (ap_dir_msk p) (h\<lparr>gpio_orig_dir := gpio_orig_dir h AND NOT (push_bit (ap_id p) 1)\<rparr>))
      in (0, h\<lparr>pwm_stat := pwm_stat h OR push_bit (ap_id p) 1\<rparr>))"

definition pwm_dis :: "avr_pwm \<Rightarrow> pwm_hw \<Rightarrow> pwm_hw" where
  "pwm_dis p h =
     (let h = reg_clear (ap_ctl_reg p) (ap_en_msk p) (check_deinit_timer p h);
          h = (if gpio_orig_dir h AND push_bit (ap_id p) 1 = 0 then reg_clear (ap_dir_reg p) (ap_dir_msk p) h else h)
      in h\<lparr>pwm_stat := pwm_stat h AND NOT (push_bit (ap_id p) 1)\<rparr>)"

definition pwm_get_polarity :: "avr_pwm \<Rightarrow> pwm_hw \<Rightarrow> bool" where
  "pwm_get_polarity p h \<longleftrightarrow> reg8 h (ap_ctl_reg p) AND ap_pol_msk p \<noteq> 0"

definition pwm_set_polarity :: "avr_pwm \<Rightarrow> u32 \<Rightarrow> pwm_hw \<Rightarrow> int \<times> pwm_hw" where
  "pwm_set_polarity p val h =
     (0, if val \<noteq> 0 then reg_or (ap_ctl_reg p) (ap_pol_msk p) h else reg_clear (ap_ctl_reg p) (ap_pol_msk p) h)"

definition pwm_set_duty_0b :: "u32 \<Rightarrow> pwm_hw \<Rightarrow> int \<times> pwm_hw" where
  "pwm_set_duty_0b val h = (0, set_reg8 OCR0B (ucast (if val > 0 then val - 1 else val)) h)"

definition pwm_get_duty_0b :: "pwm_hw \<Rightarrow> u32" where
  "pwm_get_duty_0b h = ucast (reg8 h OCR0B) + 1"

definition pwm_get_period_default :: "avr_pwm \<Rightarrow> pwm_hw \<Rightarrow> u32" where
  "pwm_get_period_default p h = ap_tim_max_mul p"

definition pwm_set_duty_1_3 :: "avr_pwm \<Rightarrow> u32 \<Rightarrow> pwm_hw \<Rightarrow> int \<times> pwm_hw" where
  "pwm_set_duty_1_3 p val h = (0, set_reg16 (ap_duty_reg p) (ucast (if val > 0 then val - 1 else val)) h)"

definition pwm_get_duty_1_3 :: "avr_pwm \<Rightarrow> pwm_hw \<Rightarrow> u32" where
  "pwm_get_duty_1_3 p h = ucast (reg16 h (ap_duty_reg p)) + 1"

definition pwm_set_duty_4d :: "u32 \<Rightarrow> pwm_hw \<Rightarrow> int \<times> pwm_hw" where
  "pwm_set_duty_4d val h = (0, set_reg8 OCR4D (ucast val) h)"

definition pwm_get_duty_4d :: "pwm_hw \<Rightarrow> u32" where
  "pwm_get_duty_4d h = ucast (reg8 h OCR4D)"

definition pwm_get_polarity_4d :: "avr_bits \<Rightarrow> pwm_hw \<Rightarrow> bool" where
  "pwm_get_polarity_4d B h \<longleftrightarrow> reg8 h TCCR4B AND bits_of B [PWM4X] \<noteq> 0"

definition pwm_set_polarity_4d :: "avr_bits \<Rightarrow> u32 \<Rightarrow> pwm_hw \<Rightarrow> int \<times> pwm_hw" where
  "pwm_set_polarity_4d B val h = (0, if val \<noteq> 0 then reg_or TCCR4B (bits_of B [PWM4X]) h else reg_clear TCCR4B (bits_of B [PWM4X]) h)"

section \<open>The outputs\<close>

definition OC0B :: "avr_bits \<Rightarrow> avr_pwm" where
  "OC0B B = \<lparr>ap_id = 0, ap_tim_id = 0, ap_ctl_reg = TCCR0A, ap_en_msk = bits_of B [COM0B1], ap_pol_msk = bits_of B [COM0B0], ap_dir_reg = DDRD,
     ap_dir_msk = bits_of B [DDD0], ap_duty_reg = OCR1A, ap_tim_max_mul = 256, ap_init_timer = init_timer0 B, ap_deinit_timer = deinit_timer0 B\<rparr>"

definition OC1A :: "avr_bits \<Rightarrow> avr_pwm" where
  "OC1A B = \<lparr>ap_id = 1, ap_tim_id = 1, ap_ctl_reg = TCCR1A, ap_en_msk = bits_of B [COM1A1], ap_pol_msk = bits_of B [COM1A0], ap_dir_reg = DDRB,
     ap_dir_msk = bits_of B [DDB5], ap_duty_reg = OCR1A, ap_tim_max_mul = 65536, ap_init_timer = init_timer1 B, ap_deinit_timer = deinit_timer1 B\<rparr>"

definition OC1B :: "avr_bits \<Rightarrow> avr_pwm" where
  "OC1B B = \<lparr>ap_id = 2, ap_tim_id = 1, ap_ctl_reg = TCCR1A, ap_en_msk = bits_of B [COM1B1], ap_pol_msk = bits_of B [COM1B0], ap_dir_reg = DDRB,
     ap_dir_msk = bits_of B [DDB6], ap_duty_reg = OCR1B, ap_tim_max_mul = 65536, ap_init_timer = init_timer1 B, ap_deinit_timer = deinit_timer1 B\<rparr>"

definition OC1C :: "avr_bits \<Rightarrow> avr_pwm" where
  "OC1C B = \<lparr>ap_id = 3, ap_tim_id = 1, ap_ctl_reg = TCCR1A, ap_en_msk = bits_of B [COM1C1], ap_pol_msk = bits_of B [COM1C0], ap_dir_reg = DDRB,
     ap_dir_msk = bits_of B [DDB7], ap_duty_reg = OCR1C, ap_tim_max_mul = 65536, ap_init_timer = init_timer1 B, ap_deinit_timer = deinit_timer1 B\<rparr>"

definition OC3A :: "avr_bits \<Rightarrow> avr_pwm" where
  "OC3A B = \<lparr>ap_id = 4, ap_tim_id = 3, ap_ctl_reg = TCCR3A, ap_en_msk = bits_of B [COM3A1], ap_pol_msk = bits_of B [COM3A0], ap_dir_reg = DDRC,
     ap_dir_msk = bits_of B [DDC6], ap_duty_reg = OCR3A, ap_tim_max_mul = 65536, ap_init_timer = init_timer3 B, ap_deinit_timer = deinit_timer3 B\<rparr>"

definition OC4D :: "avr_bits \<Rightarrow> avr_pwm" where
  "OC4D B = \<lparr>ap_id = 5, ap_tim_id = 4, ap_ctl_reg = TCCR4C, ap_en_msk = bits_of B [COM4D1, PWM4D], ap_pol_msk = 0, ap_dir_reg = DDRD,
     ap_dir_msk = bits_of B [DDD7], ap_duty_reg = OCR1A, ap_tim_max_mul = 255, ap_init_timer = init_timer4 B, ap_deinit_timer = deinit_timer4 B\<rparr>"

text \<open>The four outputs of the timers 1 and 3 differ in their fields and in the period registers only; \<open>OCR1A\<close> in the others is not used.\<close>

definition pwm_16bit :: "u8 list \<Rightarrow> (pwm_hw \<Rightarrow> u32) \<Rightarrow> (u32 \<Rightarrow> pwm_hw \<Rightarrow> int \<times> pwm_hw) \<Rightarrow> avr_pwm \<Rightarrow> pwm_hw pwm" where
  "pwm_16bit label getp setp p =
     \<lparr>pw_label = label, pw_tim_res_ns = 500, pw_tim_max_mul = ap_tim_max_mul p,
      pw_ops = \<lparr>po_enable = pwm_en p, po_disable = pwm_dis p, po_get_period = getp, po_get_duty = pwm_get_duty_1_3 p,
        po_set_period = Some setp, po_set_duty = Some (pwm_set_duty_1_3 p), po_get_polarity = Some (pwm_get_polarity p),
        po_set_polarity = Some (pwm_set_polarity p)\<rparr>\<rparr>"

definition pwms :: "avr_bits \<Rightarrow> pwm_hw pwm list" where
  "pwms B =
     [\<lparr>pw_label = [68, 51, 0, 0], pw_tim_res_ns = 15625, pw_tim_max_mul = ap_tim_max_mul (OC0B B),
       pw_ops = \<lparr>po_enable = pwm_en (OC0B B), po_disable = pwm_dis (OC0B B), po_get_period = pwm_get_period_default (OC0B B),
         po_get_duty = pwm_get_duty_0b, po_set_period = None, po_set_duty = Some pwm_set_duty_0b,
         po_get_polarity = Some (pwm_get_polarity (OC0B B)), po_set_polarity = Some (pwm_set_polarity (OC0B B))\<rparr>\<rparr>,
      pwm_16bit [68, 57, 0, 0] pwm_get_period_timer1 pwm_set_period_timer1 (OC1A B),
      pwm_16bit [68, 49, 48, 0] pwm_get_period_timer1 pwm_set_period_timer1 (OC1B B),
      pwm_16bit [68, 49, 49, 0] pwm_get_period_timer1 pwm_set_period_timer1 (OC1C B),
      pwm_16bit [68, 53, 0, 0] pwm_get_period_timer3 pwm_set_period_timer3 (OC3A B),
      \<lparr>pw_label = [68, 54, 0, 0], pw_tim_res_ns = 64000, pw_tim_max_mul = ap_tim_max_mul (OC4D B),
       pw_ops = \<lparr>po_enable = pwm_en (OC4D B), po_disable = pwm_dis (OC4D B), po_get_period = pwm_get_period_timer4,
         po_get_duty = pwm_get_duty_4d, po_set_period = Some pwm_set_period_timer4, po_set_duty = Some pwm_set_duty_4d,
         po_get_polarity = Some (pwm_get_polarity_4d B), po_set_polarity = Some (pwm_set_polarity_4d B)\<rparr>\<rparr>]"

definition num_pwm :: "avr_bits \<Rightarrow> nat" where "num_pwm B = length (pwms B)"

definition pwm_boot :: "(avr_reg8 \<Rightarrow> u8) \<Rightarrow> (avr_reg16 \<Rightarrow> u16) \<Rightarrow> pwm_hw" where
  "pwm_boot r8 r16 = \<lparr>reg8 = r8, reg16 = r16, pwm_stat = 0, gpio_orig_dir = 0, t_ref = replicate 6 0\<rparr>"

section \<open>Periods and duties\<close>

lemma small_take_bit: "unat v < 2 ^ n \<Longrightarrow> take_bit n v = (v :: u32)"
  by (simp add: word_unat_eq_iff unsigned_take_bit_eq take_bit_nat_eq_self)

text \<open>A multiplier between 1 and 65536 survives its 16-bit register.\<close>

lemma multiplier_roundtrip:
  assumes "1 \<le> v" "v \<le> (65536 :: u32)"
  shows "ucast (ucast (if v > 0 then v - 1 else v) :: u16) + 1 = v"
proof -
  have pos: "v \<noteq> 0" using assms(1) by auto
  have "unat v \<le> 65536" using assms(2) by (simp add: word_le_nat_alt)
  moreover have "unat v \<noteq> 0" using pos by (simp add: unat_eq_0)
  ultimately have "unat (v - 1) < 2 ^ 16" unfolding unat_minus_one [OF pos] by simp
  then have "take_bit 16 (v - 1) = v - 1" by (rule small_take_bit)
  then show ?thesis using pos by (simp add: unsigned_ucast_eq word_gt_0)
qed

lemma byte_roundtrip:
  assumes "v < (256 :: u32)"
  shows "ucast (ucast v :: u8) = v"
proof -
  have "take_bit 8 v = v" using assms by (intro small_take_bit) (simp add: word_less_nat_alt)
  then show ?thesis by (simp add: unsigned_ucast_eq)
qed

text \<open>The registers of output \<open>idx\<close> in the MCUIO function.\<close>

definition pwm_reg :: "nat \<Rightarrow> nat \<Rightarrow> u32" where
  "pwm_reg idx reg = word_of_nat (idx * 0x40 + reg)"

lemma pwm_reg_decode:
  assumes "idx < 6" "reg < 0x40"
  shows "unat (pwm_reg idx reg) div 0x40 = idx" "unat (pwm_reg idx reg) mod 0x40 = reg"
proof -
  have "unat (pwm_reg idx reg) = idx * 0x40 + reg"
    using assms unfolding pwm_reg_def by (simp only: unsigned_of_nat) (simp add: take_bit_nat_eq_self)
  then show "unat (pwm_reg idx reg) div 0x40 = idx" "unat (pwm_reg idx reg) mod 0x40 = reg" using assms(2) by simp_all
qed

lemma length_pwms [simp]: "length (pwms B) = 6"
  by (simp add: pwms_def)

lemma pwms_nth:
  "pwms B ! 1 = pwm_16bit [68, 57, 0, 0] pwm_get_period_timer1 pwm_set_period_timer1 (OC1A B)"
  "pwms B ! 2 = pwm_16bit [68, 49, 48, 0] pwm_get_period_timer1 pwm_set_period_timer1 (OC1B B)"
  "pwms B ! 3 = pwm_16bit [68, 49, 49, 0] pwm_get_period_timer1 pwm_set_period_timer1 (OC1C B)"
  "pwms B ! 4 = pwm_16bit [68, 53, 0, 0] pwm_get_period_timer3 pwm_set_period_timer3 (OC3A B)"
  by (simp_all add: pwms_def numeral_eq_Suc)

lemma in_1_to_4: "1 \<le> idx \<Longrightarrow> idx \<le> 4 \<Longrightarrow> idx = 1 \<or> idx = 2 \<or> idx = 3 \<or> idx = (4 :: nat)"
  by arith

definition pwm_duty_regs :: "avr_reg16 list" where
  "pwm_duty_regs = [OCR1A, OCR1A, OCR1B, OCR1C, OCR3A]"

lemma pwm_duty_regs_differ:
  "1 \<le> a \<Longrightarrow> a \<le> 4 \<Longrightarrow> 1 \<le> b \<Longrightarrow> b \<le> 4 \<Longrightarrow> a \<noteq> b \<Longrightarrow> pwm_duty_regs ! a \<noteq> pwm_duty_regs ! b"
  by (drule (1) in_1_to_4, drule (1) in_1_to_4) (auto simp: pwm_duty_regs_def numeral_eq_Suc)

text \<open>What the entries 1 to 4 of the table have in common.\<close>

lemma pwms_entry:
  assumes "1 \<le> idx" "idx \<le> 4"
  obtains label getp setp p where "pwms B ! idx = pwm_16bit label getp setp p" "ap_duty_reg p = pwm_duty_regs ! idx"
    "\<And>v h. 1 \<le> v \<Longrightarrow> v \<le> 65536 \<Longrightarrow> \<exists>h'. setp v h = (0, h') \<and> getp h' = v"
proof -
  have t1: "\<exists>h'. pwm_set_period_timer1 v h = (0, h') \<and> pwm_get_period_timer1 h' = v" if "1 \<le> v" "v \<le> 65536" for v h
    using multiplier_roundtrip [OF that] by (simp add: pwm_set_period_timer1_def pwm_get_period_timer1_def set_reg16_def)
  have t3: "\<exists>h'. pwm_set_period_timer3 v h = (0, h') \<and> pwm_get_period_timer3 h' = v" if "1 \<le> v" "v \<le> 65536" for v h
    using multiplier_roundtrip [OF that] by (simp add: pwm_set_period_timer3_def pwm_get_period_timer3_def set_reg16_def)
  note regs = pwm_duty_regs_def numeral_eq_Suc OC1A_def OC1B_def OC1C_def OC3A_def
  from in_1_to_4 [OF assms] show thesis
  proof (elim disjE)
    assume "idx = 1"
    then show thesis by (intro that [OF _ _ t1, where p = "OC1A B"]) (simp_all add: pwms_nth(1) [simplified], simp_all add: regs)
  next
    assume "idx = 2"
    then show thesis by (intro that [OF _ _ t1, where p = "OC1B B"]) (simp_all add: pwms_nth, simp_all add: regs)
  next
    assume "idx = 3"
    then show thesis by (intro that [OF _ _ t1, where p = "OC1C B"]) (simp_all add: pwms_nth, simp_all add: regs)
  next
    assume "idx = 4"
    then show thesis by (intro that [OF _ _ t3, where p = "OC3A B"]) (simp_all add: pwms_nth, simp_all add: regs)
  qed
qed

lemma pwm_read_duty:
  assumes "1 \<le> idx" "idx \<le> 4"
  shows "pwm_ctrl_rddw pwm_enabled (pwms B) r (pwm_reg idx 0x14) out fill h
    = Some (0, copy_at out 0 (le32 (ucast (reg16 h (pwm_duty_regs ! idx)) + 1)), h)"
proof -
  obtain label getp setp p where "pwms B ! idx = pwm_16bit label getp setp p" "ap_duty_reg p = pwm_duty_regs ! idx"
    using pwms_entry [OF assms] by metis
  then show ?thesis
    using assms pwm_reg_decode [of idx "0x14"] by (simp add: pwm_ctrl_rddw_def get_pwm_def pwm_16bit_def pwm_get_duty_1_3_def)
qed

text \<open>
  C33. The host can set the period and the duty of an output of the timers 1 and 3 to any multiplier from 1 to 65536 and reads back what it
  wrote, on the path from the MCUIO register through the table of outputs to the timer register and back. Setting the duty of one output
  leaves that of the others as it was.
\<close>
theorem pwm_register_roundtrip:
  assumes "1 \<le> idx" "idx \<le> 4" "reg = 0x10 \<or> reg = 0x14" "1 \<le> v" "v \<le> 65536"
  shows "\<exists>h'. pwm_ctrl_wrdw (pwms B) r (pwm_reg idx reg) (le32 v @ rest) fill h = Some (0, h')
    \<and> pwm_ctrl_rddw pwm_enabled (pwms B) r (pwm_reg idx reg) out fill h' = Some (0, copy_at out 0 (le32 v), h')
    \<and> (reg = 0x14 \<longrightarrow> (\<forall>other. other \<noteq> idx \<and> 1 \<le> other \<and> other \<le> 4 \<longrightarrow>
          map_option (fst \<circ> snd) (pwm_ctrl_rddw pwm_enabled (pwms B) r (pwm_reg other reg) out fill h')
          = map_option (fst \<circ> snd) (pwm_ctrl_rddw pwm_enabled (pwms B) r (pwm_reg other reg) out fill h)))"
proof -
  obtain label getp setp p where p: "pwms B ! idx = pwm_16bit label getp setp p" "ap_duty_reg p = pwm_duty_regs ! idx"
    and law: "\<And>v h. 1 \<le> v \<Longrightarrow> v \<le> 65536 \<Longrightarrow> \<exists>h'. setp v h = (0, h') \<and> getp h' = v"
    using pwms_entry [OF assms(1,2)] by metis
  from assms(3) show ?thesis
  proof
    assume reg: "reg = 0x10"
    from law [OF assms(4,5)] obtain h' where "setp v h = (0, h')" "getp h' = v" by blast
    with reg show ?thesis
      using p assms(2) pwm_reg_decode [of idx "0x10"] by (simp add: pwm_ctrl_wrdw_def pwm_ctrl_rddw_def get_pwm_def pwm_16bit_def)
  next
    assume reg: "reg = 0x14"
    define h' where "h' = set_reg16 (pwm_duty_regs ! idx) (ucast (if v > 0 then v - 1 else v)) h"
    have "pwm_ctrl_wrdw (pwms B) r (pwm_reg idx 0x14) (le32 v @ rest) fill h = Some (0, h')"
      using p assms(2) pwm_reg_decode [of idx "0x14"] by (simp add: pwm_ctrl_wrdw_def get_pwm_def pwm_16bit_def pwm_set_duty_1_3_def h'_def)
    moreover have "ucast (reg16 h' (pwm_duty_regs ! idx)) + 1 = v"
      using multiplier_roundtrip [OF assms(4,5)] by (simp add: h'_def set_reg16_def)
    moreover have "reg16 h' (pwm_duty_regs ! other) = reg16 h (pwm_duty_regs ! other)" if "other \<noteq> idx" "1 \<le> other" "other \<le> 4" for other
      using pwm_duty_regs_differ [OF assms(1,2) that(2,3)] that(1) by (simp add: h'_def set_reg16_def)
    ultimately show ?thesis using assms(1,2) by (auto simp: reg pwm_read_duty)
  qed
qed

section \<open>Enabling and disabling\<close>

text \<open>The timers do not touch the direction registers nor the state of the outputs.\<close>

definition timer_only :: "(pwm_hw \<Rightarrow> pwm_hw) \<Rightarrow> bool" where
  "timer_only f \<longleftrightarrow> (\<forall>h. pwm_stat (f h) = pwm_stat h \<and> gpio_orig_dir (f h) = gpio_orig_dir h \<and> t_ref (f h) = t_ref h
     \<and> (\<forall>r \<in> {DDRB, DDRC, DDRD}. reg8 (f h) r = reg8 h r))"

lemmas timer_defs = init_timer0_def init_timer1_def init_timer3_def init_timer4_def
  deinit_timer0_def deinit_timer1_def deinit_timer3_def deinit_timer4_def reg_or_def reg_clear_def set_reg16_def

definition avr_output :: "avr_bits \<Rightarrow> avr_pwm \<Rightarrow> bool" where
  "avr_output B p \<longleftrightarrow> p \<in> {OC0B B, OC1A B, OC1B B, OC1C B, OC3A B, OC4D B}"

lemmas output_defs = OC0B_def OC1A_def OC1B_def OC1C_def OC3A_def OC4D_def

lemma avr_output_timers: "avr_output B p \<Longrightarrow> timer_only (ap_init_timer p) \<and> timer_only (ap_deinit_timer p)"
  by (auto simp: avr_output_def output_defs timer_only_def timer_defs)

lemma avr_output_regs:
  "avr_output B p \<Longrightarrow> ap_dir_reg p \<in> {DDRB, DDRC, DDRD} \<and> ap_ctl_reg p \<notin> {DDRB, DDRC, DDRD} \<and> ap_id p < 32"
  by (auto simp: avr_output_def output_defs)

lemma check_init_keeps:
  assumes "avr_output B p" "r \<in> {DDRB, DDRC, DDRD}"
  shows "pwm_stat (check_init_timer p h) = pwm_stat h" "gpio_orig_dir (check_init_timer p h) = gpio_orig_dir h"
    "reg8 (check_init_timer p h) r = reg8 h r"
  using avr_output_timers [OF assms(1)] assms(2) by (auto simp: check_init_timer_def timer_only_def Let_def)

lemma check_deinit_keeps:
  assumes "avr_output B p" "r \<in> {DDRB, DDRC, DDRD}"
  shows "pwm_stat (check_deinit_timer p h) = pwm_stat h" "gpio_orig_dir (check_deinit_timer p h) = gpio_orig_dir h"
    "reg8 (check_deinit_timer p h) r = reg8 h r"
  using avr_output_timers [OF assms(1)] assms(2) by (auto simp: check_deinit_timer_def timer_only_def Let_def)

lemma or_and_not_restores:
  fixes a m :: "'a :: len word"
  assumes "a AND m = 0"
  shows "(a OR m) AND NOT m = a"
proof (rule bit_word_eqI)
  fix n assume n: "n < LENGTH('a)"
  have "\<not> bit (a AND m) n" by (simp add: assms)
  with n show "bit ((a OR m) AND NOT m) n = bit a n" by (auto simp: bit_simps)
qed

lemma single_bit_test: "(w AND push_bit i 1 = 0) = (\<not> bit (w :: u32) i)"
  using bit_iff_and_push_bit_not_eq_0 [of w i] by simp

lemma pwm_enabled_bit: "pwm_enabled i h = bit (pwm_stat h) i"
  using single_bit_test [of "pwm_stat h" i] by (simp add: pwm_enabled_def)

text \<open>
  Enabling an output and disabling it again, on every path: the direction register of its pin is as it was before, whether the pin was
  an output already or not, the output is reported as enabled in between and as disabled afterwards, and its bits in the control register are clear.
\<close>
theorem pwm_enable_disable:
  assumes "avr_output B p" "pwm_en p h = (e, h1)" "h2 = pwm_dis p h1"
  shows "e = 0" "pwm_enabled (ap_id p) h1" "\<not> pwm_enabled (ap_id p) h2" "reg8 h2 (ap_dir_reg p) = reg8 h (ap_dir_reg p)"
    "reg8 h1 (ap_dir_reg p) AND ap_dir_msk p = ap_dir_msk p \<or> reg8 h (ap_dir_reg p) AND ap_dir_msk p \<noteq> 0"
    "reg8 h2 (ap_ctl_reg p) AND ap_en_msk p = 0"
proof -
  let ?d = "ap_dir_reg p" and ?c = "ap_ctl_reg p" and ?i = "ap_id p"
  have regs: "?d \<in> {DDRB, DDRC, DDRD}" "?c \<noteq> ?d" "?i < 32" using avr_output_regs [OF assms(1)] by auto
  note keep = check_init_keeps [OF assms(1) regs(1)] check_deinit_keeps [OF assms(1) regs(1)]
  let ?was = "reg8 h ?d AND ap_dir_msk p \<noteq> 0"
  have h1: "e = 0" "bit (pwm_stat h1) ?i" "bit (gpio_orig_dir h1) ?i = ?was"
    "reg8 h1 ?d = (if ?was then reg8 h ?d else reg8 h ?d OR ap_dir_msk p)"
    using assms(2) regs keep by (auto simp: pwm_en_def reg_or_def Let_def bit_simps split: if_splits)
  then show "e = 0" "pwm_enabled ?i h1" by (simp_all add: pwm_enabled_bit)
  show "\<not> pwm_enabled ?i h2"
    unfolding assms(3) using keep by (auto simp: pwm_dis_def reg_clear_def pwm_enabled_bit bit_simps Let_def)
  show "reg8 h2 ?d = reg8 h ?d"
    unfolding assms(3) using h1(3,4) regs keep or_and_not_restores [of "reg8 h ?d" "ap_dir_msk p"]
    unfolding pwm_dis_def Let_def single_bit_test by (auto simp: reg_clear_def split: if_splits)
  show "reg8 h1 ?d AND ap_dir_msk p = ap_dir_msk p \<or> ?was"
    using h1(4) by (auto intro!: bit_word_eqI simp: bit_simps)
  show "reg8 h2 ?c AND ap_en_msk p = 0"
    unfolding assms(3) using regs(2) by (auto intro!: bit_word_eqI simp: pwm_dis_def reg_clear_def Let_def bit_simps)
qed

text \<open>The counts and the state of the outputs after an operation.\<close>

lemma pwm_en_counts:
  assumes "avr_output B p"
  shows "pwm_stat (snd (pwm_en p h)) = pwm_stat h OR push_bit (ap_id p) 1"
    "t_ref (snd (pwm_en p h)) = (let t = ap_tim_id p in if t_ref h ! t = 0 then (t_ref h)[t := 1]
       else if \<not> pwm_enabled t h then (t_ref h)[t := t_ref h ! t + 1] else t_ref h)"
  using avr_output_timers [OF assms] by (auto simp: pwm_en_def check_init_timer_def timer_only_def reg_or_def Let_def)

lemma pwm_dis_counts:
  assumes "avr_output B p"
  shows "pwm_stat (pwm_dis p h) = pwm_stat h AND NOT (push_bit (ap_id p) 1)"
    "t_ref (pwm_dis p h) = (if pwm_enabled (ap_id p) h then (t_ref h)[ap_id p := t_ref h ! ap_id p - 1] else t_ref h)"
  using avr_output_timers [OF assms] by (auto simp: pwm_dis_def check_deinit_timer_def timer_only_def reg_clear_def Let_def)

lemma outputs [simp]: "avr_output B (OC1A B)" "avr_output B (OC1B B)" "avr_output B (OC3A B)"
  by (simp_all add: avr_output_def)

lemmas output_counts = pwm_en_counts [OF outputs(1)] pwm_en_counts [OF outputs(2)] pwm_en_counts [OF outputs(3)]
  pwm_dis_counts [OF outputs(1)] pwm_dis_counts [OF outputs(3)]

lemma output_numbers [simp]:
  "ap_id (OC1A B) = 1" "ap_tim_id (OC1A B) = 1" "ap_id (OC1B B) = 2" "ap_tim_id (OC1B B) = 1" "ap_id (OC3A B) = 4" "ap_tim_id (OC3A B) = 3"
  by (simp_all add: output_defs)

definition d9_d10_enabled :: "avr_bits \<Rightarrow> pwm_hw \<Rightarrow> pwm_hw" where
  "d9_d10_enabled B h = snd (pwm_en (OC1B B) (snd (pwm_en (OC1A B) h)))"

lemma d9_d10_counts:
  "pwm_stat (d9_d10_enabled B (pwm_boot r8 r16)) = 6" "t_ref (d9_d10_enabled B (pwm_boot r8 r16)) = [0, 1, 0, 0, 0, 0]"
  by (simp_all add: d9_d10_enabled_def output_counts pwm_enabled_def pwm_boot_def Let_def eval_nat_numeral)

lemma d5_counts:
  "pwm_stat (snd (pwm_en (OC3A B) (pwm_boot r8 r16))) = 16" "t_ref (snd (pwm_en (OC3A B) (pwm_boot r8 r16))) = [0, 0, 0, 1, 0, 0]"
  "reg16 (snd (pwm_en (OC3A B) (pwm_boot r8 r16))) ICR3 = 39999"
  by (simp_all add: output_counts pwm_boot_def Let_def eval_nat_numeral)
    (simp add: pwm_en_def check_init_timer_def output_defs timer_defs Let_def eval_nat_numeral)

text \<open>
  The users of a timer are counted under the number of the timer when an output is enabled, and under the number of the output when it is disabled.
  With the outputs D9 and D10 on timer 1, disabling D9 stops the clock of the timer although D10 is still enabled; and disabling D5, which is output 4
  on timer 3, never stops its timer, but lets the count of another one run below zero.
\<close>
theorem pwm_timer_counts_mixed:
  "pwm_enabled 2 (pwm_dis (OC1A B) (d9_d10_enabled B (pwm_boot r8 r16)))"
  "reg16 (pwm_dis (OC1A B) (d9_d10_enabled B (pwm_boot r8 r16))) ICR1 = 0"
  "reg8 (pwm_dis (OC1A B) (d9_d10_enabled B (pwm_boot r8 r16))) TCCR1B AND bits_of B [CS10, CS11, CS12] = 0"
  "t_ref (pwm_dis (OC3A B) (snd (pwm_en (OC3A B) (pwm_boot r8 r16)))) = [0, 0, 0, 1, 255, 0]"
  "reg16 (pwm_dis (OC3A B) (snd (pwm_en (OC3A B) (pwm_boot r8 r16)))) ICR3 = 39999"
proof -
  let ?h = "d9_d10_enabled B (pwm_boot r8 r16)"
  have en: "pwm_enabled 1 ?h" by (simp add: pwm_enabled_def d9_d10_counts)
  show "pwm_enabled 2 (pwm_dis (OC1A B) ?h)" by (simp add: pwm_enabled_def output_counts d9_d10_counts)
  have dis: "check_deinit_timer (OC1A B) ?h = deinit_timer1 B (?h\<lparr>t_ref := replicate 6 0\<rparr>)"
    using en by (simp add: check_deinit_timer_def d9_d10_counts Let_def eval_nat_numeral) (simp add: output_defs)
  show "reg16 (pwm_dis (OC1A B) ?h) ICR1 = 0"
    by (simp add: pwm_dis_def dis Let_def) (simp add: timer_defs)
  show "reg8 (pwm_dis (OC1A B) ?h) TCCR1B AND bits_of B [CS10, CS11, CS12] = 0"
    by (simp add: pwm_dis_def dis Let_def) (auto intro!: bit_word_eqI simp: timer_defs output_defs bits_of_def bit_simps)
  let ?k = "snd (pwm_en (OC3A B) (pwm_boot r8 r16))"
  have en: "pwm_enabled 4 ?k" by (simp add: pwm_enabled_def d5_counts)
  show "t_ref (pwm_dis (OC3A B) ?k) = [0, 0, 0, 1, 255, 0]"
    using en by (simp add: pwm_dis_counts [OF outputs(3)] d5_counts)
  show "reg16 (pwm_dis (OC3A B) ?k) ICR3 = 39999"
    using en by (simp add: pwm_dis_def check_deinit_timer_def d5_counts reg_clear_def Let_def eval_nat_numeral)
qed

text \<open>Bit numbers that keep the masks apart are enough for an example.\<close>

definition ex_bits :: avr_bits where
  "ex_bits b = (case b of DDB5 \<Rightarrow> 5 | COM1A1 \<Rightarrow> 7 | WGM11 \<Rightarrow> 1 | WGM12 \<Rightarrow> 3 | WGM13 \<Rightarrow> 4 | CS11 \<Rightarrow> 1 | _ \<Rightarrow> 0)"

theorem pwm_register_roundtrip_witness:
  "\<exists>h'. pwm_ctrl_wrdw (pwms ex_bits) \<lparr>r_start = 64, r_length = 0xfc0, r_rd_target = 0, r_wr_target = 0, r_priv = 0\<rparr> (pwm_reg 2 20)
      (le32 65536 @ [0, 0, 0, 0]) False (pwm_boot (\<lambda>_. 0) (\<lambda>_. 0)) = Some (0, h')
    \<and> pwm_ctrl_rddw pwm_enabled (pwms ex_bits) \<lparr>r_start = 64, r_length = 0xfc0, r_rd_target = 0, r_wr_target = 0, r_priv = 0\<rparr> (pwm_reg 2 20)
      (replicate 8 0) False h' = Some (0, [0, 0, 1, 0, 0, 0, 0, 0], h')"
proof -
  have "copy_at (replicate 8 0) 0 (le32 65536) = [0, 0, 1, 0, 0, 0, 0, 0 :: u8]" by code_simp
  then show ?thesis
    using pwm_register_roundtrip [of 2 20 65536 ex_bits "\<lparr>r_start = 64, r_length = 0xfc0, r_rd_target = 0, r_wr_target = 0, r_priv = 0\<rparr>"
        "[0, 0, 0, 0]" False "pwm_boot (\<lambda>_. 0) (\<lambda>_. 0)" "replicate 8 0"] by auto
qed

theorem pwm_enable_disable_witness:
  "reg8 (pwm_dis (OC1A ex_bits) (snd (pwm_en (OC1A ex_bits) (pwm_boot (\<lambda>_. 0) (\<lambda>_. 0))))) DDRB = 0
   \<and> pwm_enabled 1 (snd (pwm_en (OC1A ex_bits) (pwm_boot (\<lambda>_. 0) (\<lambda>_. 0))))"
  using pwm_enable_disable(2,4) [OF outputs(1) prod.collapse [symmetric] refl, of ex_bits "pwm_boot (\<lambda>_. 0) (\<lambda>_. 0)"]
  by (simp add: output_defs [of ex_bits] pwm_boot_def)

end
