(* ===== verification/UartMuxYun.thy ===== *)
theory UartMuxYun
  imports Prelude
begin

text \<open>
  The console multiplexer of the Arduino Yun, \<^verbatim>\<open>arch-atmega/uart-mux-yun.c\<close>: it decides where bytes from the serial
  line of the MIPS processor, from its SPI link and from the USB console go.

  Pipes are numbers, a null pointer is \<open>None\<close>. The record \<open>mux_env\<close> has the operations of the rest of the system: opening, closing, reading
  and writing pipes, triggering one of three events, printing, whether the device of a pipe has pipes at all, and the two standard pipes.
\<close>

section \<open>The code\<close>

datatype uart_mux_mode = MIPS_CONSOLE | MCUIO

datatype usb_uart_mux_mode = SPI | SHELL | UART

datatype mux_event = Shell_start | Shell_input_ready | Mcuio_data_ready

definition USB_UART_MODE_SWITCH :: u8 where "USB_UART_MODE_SWITCH = 0x1d"
definition UART_MODE_SWITCH_MIPS :: u8 where "UART_MODE_SWITCH_MIPS = 0xaa"
definition PIPE_BUF_SIZE :: int where "PIPE_BUF_SIZE = 64"

record 'w mux_env =
  mx_open :: "string \<Rightarrow> 'w \<Rightarrow> nat option \<times> 'w"
  mx_close :: "nat option \<Rightarrow> 'w \<Rightarrow> 'w"
  mx_read :: "nat option \<Rightarrow> int \<Rightarrow> 'w \<Rightarrow> int \<times> u8 list \<times> 'w"
  mx_write :: "nat option \<Rightarrow> u8 list \<Rightarrow> 'w \<Rightarrow> int \<times> 'w"
  mx_trigger :: "mux_event \<Rightarrow> 'w \<Rightarrow> int \<times> 'w"
  mx_print :: "string \<Rightarrow> 'w \<Rightarrow> 'w"
  mx_no_pipes :: "nat \<Rightarrow> 'w \<Rightarrow> bool"
  mx_stdin :: nat
  mx_stdout :: nat

record 'w uart_mux_yun_data =
  mx_uart_mode :: uart_mux_mode
  mx_usb_uart_mode :: usb_uart_mux_mode
  mx_uartpipe :: "nat option"
  mx_spipipe :: "nat option"
  mx_spiactive :: bool
  mx_world :: 'w

definition mx_put :: "nat option \<Rightarrow> u8 list \<Rightarrow> 'w mux_env \<Rightarrow> 'w uart_mux_yun_data \<Rightarrow> 'w uart_mux_yun_data" where
  "mx_put p bs E s = s\<lparr>mx_world := snd (mx_write E p bs (mx_world s))\<rparr>"

definition uart_mux_yun_open :: "'w mux_env \<Rightarrow> 'w uart_mux_yun_data \<Rightarrow> int \<times> 'w uart_mux_yun_data" where
  "uart_mux_yun_open E s =
     (let (p, w) = mx_open E ''avr-uart'' (mx_world s); s = s\<lparr>mx_uartpipe := p, mx_world := w\<rparr>
      in if p = None then (- ENODEV, s)
         else let s = s\<lparr>mx_uart_mode := MIPS_CONSOLE, mx_usb_uart_mode := UART\<rparr>;
                  (p, w) = mx_open E ''avr-spi'' (mx_world s); s = s\<lparr>mx_spipipe := p, mx_world := w\<rparr>
              in if p = None then (- ENODEV, s) else (0, s))"

definition uart_mux_yun_read :: "'w mux_env \<Rightarrow> int \<Rightarrow> 'w uart_mux_yun_data \<Rightarrow> int \<times> u8 list \<times> 'w uart_mux_yun_data" where
  "uart_mux_yun_read E len s =
     (let (r, bs, w) = mx_read E (mx_uartpipe s) len (mx_world s) in (r, bs, s\<lparr>mx_world := w\<rparr>))"

definition uart_mux_yun_write :: "'w mux_env \<Rightarrow> u8 list \<Rightarrow> 'w uart_mux_yun_data \<Rightarrow> int \<times> 'w uart_mux_yun_data" where
  "uart_mux_yun_write E buf s =
     (let (r, w) = mx_write E (mx_uartpipe s) buf (mx_world s) in (r, s\<lparr>mx_world := w\<rparr>))"

definition uart_mux_yun_close :: "'w mux_env \<Rightarrow> 'w uart_mux_yun_data \<Rightarrow> int \<times> 'w uart_mux_yun_data" where
  "uart_mux_yun_close E s = (0, s\<lparr>mx_world := mx_close E (mx_uartpipe s) (mx_world s)\<rparr>)"

definition do_switch_uart :: "'w mux_env \<Rightarrow> 'w uart_mux_yun_data \<Rightarrow> 'w uart_mux_yun_data" where
  "do_switch_uart E s =
     (let s = s\<lparr>mx_uart_mode := (if mx_uart_mode s = MCUIO then MIPS_CONSOLE else MCUIO)\<rparr>
      in s\<lparr>mx_world := mx_print E (if mx_uart_mode s = MCUIO then ''mcuio'' else ''mips-console'') (mx_world s)\<rparr>)"

definition do_switch_usb_uart :: "'w mux_env \<Rightarrow> 'w uart_mux_yun_data \<Rightarrow> 'w uart_mux_yun_data" where
  "do_switch_usb_uart E s =
     (if mx_usb_uart_mode s = SHELL then
        let s = s\<lparr>mx_usb_uart_mode := (if mx_spiactive s then SPI else UART)\<rparr>
        in s\<lparr>mx_world := mx_print E (if mx_usb_uart_mode s = SPI then ''spi'' else ''uart'') (mx_world s)\<rparr>
      else let (r, w) = mx_trigger E Shell_start (mx_world s)
           in if r < 0 then s\<lparr>mx_world := mx_print E ''error switching to shell mode'' w\<rparr>
              else s\<lparr>mx_usb_uart_mode := SHELL, mx_world := mx_print E ''shell'' w\<rparr>)"

definition spi_pipe_input_handle :: "'w mux_env \<Rightarrow> nat \<Rightarrow> 'w uart_mux_yun_data \<Rightarrow> 'w uart_mux_yun_data" where
  "spi_pipe_input_handle E pipe s =
     (if mx_spipipe s \<noteq> Some pipe then s
      else let s = s\<lparr>mx_spiactive := True\<rparr>;
               s = (if mx_usb_uart_mode s \<noteq> SHELL then s\<lparr>mx_usb_uart_mode := SPI\<rparr> else s);
               (l, buf, w) = mx_read E (Some pipe) PIPE_BUF_SIZE (mx_world s);
               s = s\<lparr>mx_world := w\<rparr>
           in if l \<le> 0 then s else mx_put (Some (mx_stdout E)) (take (nat l) buf) E s)"

text \<open>What is read first: nothing in the shell mode, and nothing from the serial line in the MCUIO mode. \<open>None\<close> is the early exit.\<close>

definition mux_read_input :: "'w mux_env \<Rightarrow> nat \<Rightarrow> 'w uart_mux_yun_data \<Rightarrow> u8 list option \<times> 'w uart_mux_yun_data" where
  "mux_read_input E pipe s =
     (if (mx_uart_mode s = MIPS_CONSOLE \<or> pipe = mx_stdin E) \<and> mx_usb_uart_mode s \<noteq> SHELL
      then let (l, buf, w) = mx_read E (Some pipe) PIPE_BUF_SIZE (mx_world s); s = s\<lparr>mx_world := w\<rparr>
           in if l \<le> 0 then (None, s) else (Some (take (nat l) buf), s)
      else (Some [], s))"

text \<open>Input from the USB console.\<close>

definition mux_stdin_input :: "'w mux_env \<Rightarrow> u8 list \<Rightarrow> 'w uart_mux_yun_data \<Rightarrow> 'w uart_mux_yun_data" where
  "mux_stdin_input E buf s =
     (let s = (if mx_uartpipe s \<noteq> None \<and> USB_UART_MODE_SWITCH \<in> set buf then do_switch_usb_uart E s else s)
      in if mx_usb_uart_mode s = SHELL then s\<lparr>mx_world := snd (mx_trigger E Shell_input_ready (mx_world s))\<rparr>
         else let s = (if mx_usb_uart_mode s = SPI \<and> mx_spipipe s \<noteq> None then mx_put (mx_spipipe s) buf E s else s)
              in if mx_uart_mode s = MCUIO then s
                 else if mx_uartpipe s \<noteq> None then mx_put (mx_uartpipe s) buf E s else s)"

text \<open>Input from the serial line.\<close>

definition mux_uart_input :: "'w mux_env \<Rightarrow> u8 list \<Rightarrow> 'w uart_mux_yun_data \<Rightarrow> 'w uart_mux_yun_data" where
  "mux_uart_input E buf s =
     (if mx_uart_mode s = MIPS_CONSOLE then
        let s = (if UART_MODE_SWITCH_MIPS \<in> set buf then do_switch_uart E s else s)
        in if mx_uart_mode s = MCUIO then s else mx_put (Some (mx_stdout E)) buf E s
      else let (r, w) = mx_trigger E Mcuio_data_ready (mx_world s)
           in s\<lparr>mx_world := (if r < 0 then mx_print E ''WARN: err on mcuio drdy evt'' w else w)\<rparr>)"

definition pipe_input_handle :: "'w mux_env \<Rightarrow> nat \<Rightarrow> 'w uart_mux_yun_data \<Rightarrow> 'w uart_mux_yun_data" where
  "pipe_input_handle E pipe s =
     (if mx_spipipe s = Some pipe then spi_pipe_input_handle E pipe s
      else if mx_no_pipes E pipe (mx_world s) then s
      else if mx_uartpipe s \<noteq> Some pipe \<and> pipe \<noteq> mx_stdin E then s
      else case mux_read_input E pipe s of
             (None, s) \<Rightarrow> s
           | (Some buf, s) \<Rightarrow> if pipe = mx_stdin E then mux_stdin_input E buf s else mux_uart_input E buf s)"

definition shell_termination_handle :: "'w mux_env \<Rightarrow> 'w uart_mux_yun_data \<Rightarrow> 'w uart_mux_yun_data" where
  "shell_termination_handle E s = do_switch_usb_uart E s"

section \<open>Properties\<close>

text \<open>An input event of a pipe from which the bytes \<open>c\<close> can be read, and a sequence of them.\<close>

definition mux_feed :: "'w mux_env \<Rightarrow> nat \<Rightarrow> u8 list \<Rightarrow> 'w uart_mux_yun_data \<Rightarrow> 'w uart_mux_yun_data" where
  "mux_feed E p c s = pipe_input_handle (E\<lparr>mx_read := (\<lambda>_ _ w. (int (length c), c, w))\<rparr>) p s"

definition mux_feeds :: "'w mux_env \<Rightarrow> nat \<Rightarrow> u8 list list \<Rightarrow> 'w uart_mux_yun_data \<Rightarrow> 'w uart_mux_yun_data" where
  "mux_feeds E p cs s = fold (mux_feed E p) cs s"

text \<open>The serial line is open, on a pipe of its own, and the USB console is not in the shell.\<close>

definition mux_uart_ready :: "'w mux_env \<Rightarrow> nat \<Rightarrow> 'w uart_mux_yun_data \<Rightarrow> bool" where
  "mux_uart_ready E p s \<longleftrightarrow> mx_uartpipe s = Some p \<and> mx_spipipe s \<noteq> Some p \<and> p \<noteq> mx_stdin E \<and> mx_usb_uart_mode s \<noteq> SHELL
     \<and> (\<forall>w. \<not> mx_no_pipes E p w)"

definition mux_to_console :: "'w mux_env \<Rightarrow> u8 list \<Rightarrow> 'w \<Rightarrow> 'w" where
  "mux_to_console E c w = snd (mx_write E (Some (mx_stdout E)) c w)"

definition mux_to_mcuio :: "'w mux_env \<Rightarrow> u8 list \<Rightarrow> 'w \<Rightarrow> 'w" where
  "mux_to_mcuio E c w =
     (let (r, w) = mx_trigger E Mcuio_data_ready w in if r < 0 then mx_print E ''WARN: err on mcuio drdy evt'' w else w)"

lemma mux_feed_console:
  assumes "mux_uart_ready E p s" "mx_uart_mode s = MIPS_CONSOLE" "c \<noteq> []" "UART_MODE_SWITCH_MIPS \<notin> set c"
  shows "mux_feed E p c s = s\<lparr>mx_world := mux_to_console E c (mx_world s)\<rparr>"
  using assms by (auto simp: mux_feed_def pipe_input_handle_def mux_uart_ready_def mux_read_input_def mux_uart_input_def mx_put_def mux_to_console_def)

lemma mux_feed_switch:
  assumes "mux_uart_ready E p s" "mx_uart_mode s = MIPS_CONSOLE" "UART_MODE_SWITCH_MIPS \<in> set c"
  shows "mux_feed E p c s = s\<lparr>mx_uart_mode := MCUIO, mx_world := mx_print E ''mcuio'' (mx_world s)\<rparr>"
proof -
  have "c \<noteq> []" using assms(3) by auto
  with assms show ?thesis
    by (auto simp: mux_feed_def pipe_input_handle_def mux_uart_ready_def mux_read_input_def mux_uart_input_def do_switch_uart_def)
qed

lemma mux_feed_mcuio:
  assumes "mux_uart_ready E p s" "mx_uart_mode s = MCUIO"
  shows "mux_feed E p c s = s\<lparr>mx_world := mux_to_mcuio E c (mx_world s)\<rparr>"
  using assms by (auto simp: mux_feed_def pipe_input_handle_def mux_uart_ready_def mux_read_input_def mux_uart_input_def mux_to_mcuio_def Let_def
      split: prod.splits)

lemma mux_uart_ready_keeps:
  "mux_uart_ready E p (s\<lparr>mx_world := w\<rparr>) = mux_uart_ready E p s" "mux_uart_ready E p (s\<lparr>mx_uart_mode := m\<rparr>) = mux_uart_ready E p s"
  by (simp_all add: mux_uart_ready_def)

lemma mux_feeds_console:
  assumes "mux_uart_ready E p s" "mx_uart_mode s = MIPS_CONSOLE" "\<forall>c \<in> set cs. c \<noteq> [] \<and> UART_MODE_SWITCH_MIPS \<notin> set c"
  shows "mux_feeds E p cs s = s\<lparr>mx_world := fold (mux_to_console E) cs (mx_world s)\<rparr>"
  using assms
proof (induction cs arbitrary: s)
  case (Cons c cs)
  with mux_feed_console [of E p s c] Cons.IH [of "s\<lparr>mx_world := mux_to_console E c (mx_world s)\<rparr>"] show ?case
    by (simp add: mux_feeds_def mux_uart_ready_keeps)
qed (simp add: mux_feeds_def)

lemma mux_feeds_mcuio:
  assumes "mux_uart_ready E p s" "mx_uart_mode s = MCUIO"
  shows "mux_feeds E p cs s = s\<lparr>mx_world := fold (mux_to_mcuio E) cs (mx_world s)\<rparr>"
  using assms
proof (induction cs arbitrary: s)
  case (Cons c cs)
  with mux_feed_mcuio [of E p s c] Cons.IH [of "s\<lparr>mx_world := mux_to_mcuio E c (mx_world s)\<rparr>"] show ?case
    by (simp add: mux_feeds_def mux_uart_ready_keeps)
qed (simp add: mux_feeds_def)

text \<open>
  The serial line during a boot: everything that arrives before the switch byte is shown on the console, block by block and in order; the
  block with the switch byte moves the line to MCUIO; from then on every event is passed to the MCUIO task, the multiplexer reads nothing more,
  and the line never returns to the console. The block with the switch byte is not shown, also not the bytes before it.
\<close>
theorem mux_uart_boot:
  assumes "mux_uart_ready E p s" "mx_uart_mode s = MIPS_CONSOLE" "\<forall>c \<in> set before. c \<noteq> [] \<and> UART_MODE_SWITCH_MIPS \<notin> set c"
    and "UART_MODE_SWITCH_MIPS \<in> set switch"
  shows "mux_feeds E p (before @ switch # after) s =
    s\<lparr>mx_uart_mode := MCUIO, mx_world := fold (mux_to_mcuio E) after (mx_print E ''mcuio'' (fold (mux_to_console E) before (mx_world s)))\<rparr>"
proof -
  define s1 where "s1 = s\<lparr>mx_world := fold (mux_to_console E) before (mx_world s)\<rparr>"
  define s2 where "s2 = s1\<lparr>mx_uart_mode := MCUIO, mx_world := mx_print E ''mcuio'' (mx_world s1)\<rparr>"
  have "mux_feeds E p before s = s1" unfolding s1_def using assms(1-3) by (rule mux_feeds_console)
  moreover have "mux_feed E p switch s1 = s2"
    unfolding s2_def using assms by (intro mux_feed_switch) (simp_all add: s1_def mux_uart_ready_keeps)
  moreover have "mux_feeds E p after s2 = s2\<lparr>mx_world := fold (mux_to_mcuio E) after (mx_world s2)\<rparr>"
    using assms(1) by (intro mux_feeds_mcuio) (simp_all add: s2_def s1_def mux_uart_ready_keeps)
  ultimately show ?thesis by (simp add: mux_feeds_def s2_def s1_def)
qed

text \<open>
  The shell mode is left only by the end of the shell: no input event of any pipe leaves it, so the switch character of the console has no
  effect there, and console input only wakes up the shell. The description of the multiplexer says that the character toggles the mode.
\<close>
theorem mux_shell_stays:
  assumes "mx_usb_uart_mode s = SHELL"
  shows "mx_usb_uart_mode (pipe_input_handle E p s) = SHELL"
    and "mx_spipipe s \<noteq> Some (mx_stdin E) \<Longrightarrow> \<not> mx_no_pipes E (mx_stdin E) (mx_world s)
      \<Longrightarrow> pipe_input_handle E (mx_stdin E) s = s\<lparr>mx_world := snd (mx_trigger E Shell_input_ready (mx_world s))\<rparr>"
  using assms by (auto simp: pipe_input_handle_def spi_pipe_input_handle_def mux_read_input_def mux_stdin_input_def mux_uart_input_def
      do_switch_usb_uart_def do_switch_uart_def mx_put_def Let_def USB_UART_MODE_SWITCH_def split: prod.splits)

text \<open>
  The console while the line from the MIPS is a console and its SPI link is in use: input goes to both. The description says that it goes to the
  SPI link only.
\<close>
lemma mux_input_twice:
  assumes "mx_usb_uart_mode s = SPI" "mx_uart_mode s = MIPS_CONSOLE" "mx_uartpipe s = Some u" "mx_spipipe s = Some v" "v \<noteq> mx_stdin E"
    and "\<not> mx_no_pipes E (mx_stdin E) (mx_world s)" "c \<noteq> []" "USB_UART_MODE_SWITCH \<notin> set c"
  shows "mux_feed E (mx_stdin E) c s = s\<lparr>mx_world := snd (mx_write E (Some u) c (snd (mx_write E (Some v) c (mx_world s))))\<rparr>"
  using assms by (simp add: mux_feed_def pipe_input_handle_def mux_read_input_def mux_stdin_input_def mx_put_def)

text \<open>A system that keeps what is written and triggered.\<close>

definition ex_mux_env :: "(nat option \<times> u8 list + mux_event) list mux_env" where
  "ex_mux_env = \<lparr>mx_open = (\<lambda>n w. (Some (if n = ''avr-uart'' then 1 else 2), w)), mx_close = (\<lambda>_. id), mx_read = (\<lambda>_ _ w. (0, [], w)),
     mx_write = (\<lambda>p bs w. (int (length bs), w @ [Inl (p, bs)])), mx_trigger = (\<lambda>e w. (0, w @ [Inr e])), mx_print = (\<lambda>_. id),
     mx_no_pipes = (\<lambda>_ _. False), mx_stdin = 3, mx_stdout = 4\<rparr>"

definition ex_mux :: "(nat option \<times> u8 list + mux_event) list uart_mux_yun_data" where
  "ex_mux = snd (uart_mux_yun_open ex_mux_env
     \<lparr>mx_uart_mode = MCUIO, mx_usb_uart_mode = SPI, mx_uartpipe = None, mx_spipipe = None, mx_spiactive = False, mx_world = []\<rparr>)"

lemmas ex_mux_defs = ex_mux_def ex_mux_env_def uart_mux_yun_open_def

theorem mux_uart_boot_witness:
  "mx_uart_mode (mux_feeds ex_mux_env 1 [[65], [66, 67], [68, 0xaa, 69], [70]] ex_mux) = MCUIO
   \<and> mx_world (mux_feeds ex_mux_env 1 [[65], [66, 67], [68, 0xaa, 69], [70]] ex_mux)
     = [Inl (Some 4, [65]), Inl (Some 4, [66, 67]), Inr Mcuio_data_ready]"
  using mux_uart_boot [of ex_mux_env 1 ex_mux "[[65], [66, 67]]" "[68, 0xaa, 69]" "[[70]]"]
  by (simp add: mux_uart_ready_def ex_mux_defs UART_MODE_SWITCH_MIPS_def mux_to_console_def mux_to_mcuio_def)

theorem mux_shell_stays_witness:
  "mx_usb_uart_mode (mux_feed ex_mux_env 3 [USB_UART_MODE_SWITCH] ex_mux) = SHELL
   \<and> mx_usb_uart_mode (mux_feed ex_mux_env 3 [USB_UART_MODE_SWITCH] (mux_feed ex_mux_env 3 [USB_UART_MODE_SWITCH] ex_mux)) = SHELL"
proof -
  have sh: "mx_usb_uart_mode (mux_feed ex_mux_env 3 [USB_UART_MODE_SWITCH] ex_mux) = SHELL"
    by (simp add: mux_feed_def pipe_input_handle_def mux_read_input_def mux_stdin_input_def do_switch_usb_uart_def ex_mux_defs)
  then show ?thesis
    using mux_shell_stays(1) [OF sh, of "ex_mux_env\<lparr>mx_read := (\<lambda>_ _ w. (int (length [USB_UART_MODE_SWITCH]), [USB_UART_MODE_SWITCH], w))\<rparr>" 3]
    by (simp add: mux_feed_def)
qed

end
