(* ===== verification/Enc28j60.thy ===== *)
theory Enc28j60
  imports Prelude
begin

text \<open>
  The driver of the ENC28J60 Ethernet controller, \<^verbatim>\<open>drivers/enc28j60.c\<close>, with the register numbers of \<^verbatim>\<open>drivers/enc28j60.h\<close> and the
  SPI wrappers of \<^verbatim>\<open>include/bathos/spi.h\<close>.

  What goes over the SPI bus is recorded in the state of the driver, newest first, together with the delays. The transfer function \<^verbatim>\<open>spi_xfer\<close>, which is
  not part of the repository, is a parameter: the result and the bytes read are a function of this record, the current transfer included. The
  checks under \<^verbatim>\<open>DEBUG_ENC28\<close>, which is 0, are left out.
\<close>

section \<open>Registers\<close>

named_theorems enc28_consts "the numbers of commands, registers and bits"

definition ENC28_CMD_READ_CTRL_REG :: u8 where [enc28_consts]: "ENC28_CMD_READ_CTRL_REG = 0x00"
definition ENC28_CMD_READ_BUF_MEM :: u8 where [enc28_consts]: "ENC28_CMD_READ_BUF_MEM = 0x3A"
definition ENC28_CMD_WRITE_CTRL_REG :: u8 where [enc28_consts]: "ENC28_CMD_WRITE_CTRL_REG = 0x40"
definition ENC28_CMD_WRITE_BUF_MEM :: u8 where [enc28_consts]: "ENC28_CMD_WRITE_BUF_MEM = 0x7A"
definition ENC28_CMD_BIT_FIELD_SET :: u8 where [enc28_consts]: "ENC28_CMD_BIT_FIELD_SET = 0x80"
definition ENC28_CMD_BIT_FIELD_CLR :: u8 where [enc28_consts]: "ENC28_CMD_BIT_FIELD_CLR = 0xA0"
definition ENC28_CMD_SOFT_RESET :: u8 where [enc28_consts]: "ENC28_CMD_SOFT_RESET = 0xFF"
definition ENC28_MASK_ADDR :: u8 where [enc28_consts]: "ENC28_MASK_ADDR = 0x1F"
definition ENC28_MASK_BANK :: u8 where [enc28_consts]: "ENC28_MASK_BANK = 0x60"
definition ENC28_IE :: u8 where [enc28_consts]: "ENC28_IE = 0x1B"
definition ENC28_IE_INTIE :: u8 where [enc28_consts]: "ENC28_IE_INTIE = 0x80"
definition ENC28_IE_PKTIE :: u8 where [enc28_consts]: "ENC28_IE_PKTIE = 0x40"
definition ENC28_IR :: u8 where [enc28_consts]: "ENC28_IR = 0x1C"
definition ENC28_IR_TXERIF :: u8 where [enc28_consts]: "ENC28_IR_TXERIF = 0x02"
definition ENC28_CON2 :: u8 where [enc28_consts]: "ENC28_CON2 = 0x1E"
definition ENC28_CON2_PKTDEC :: u8 where [enc28_consts]: "ENC28_CON2_PKTDEC = 0x40"
definition ENC28_CON1 :: u8 where [enc28_consts]: "ENC28_CON1 = 0x1F"
definition ENC28_CON1_TXRTS :: u8 where [enc28_consts]: "ENC28_CON1_TXRTS = 0x08"
definition ENC28_CON1_RXEN :: u8 where [enc28_consts]: "ENC28_CON1_RXEN = 0x04"
definition ENC28_CON1_BSEL1 :: u8 where [enc28_consts]: "ENC28_CON1_BSEL1 = 0x02"
definition ENC28_CON1_BSEL0 :: u8 where [enc28_consts]: "ENC28_CON1_BSEL0 = 0x01"
definition ENC28_RDPTL :: u8 where [enc28_consts]: "ENC28_RDPTL = 0x00"
definition ENC28_RDPTH :: u8 where [enc28_consts]: "ENC28_RDPTH = 0x01"
definition ENC28_WRPTL :: u8 where [enc28_consts]: "ENC28_WRPTL = 0x02"
definition ENC28_WRPTH :: u8 where [enc28_consts]: "ENC28_WRPTH = 0x03"
definition ENC28_TXSTL :: u8 where [enc28_consts]: "ENC28_TXSTL = 0x04"
definition ENC28_TXSTH :: u8 where [enc28_consts]: "ENC28_TXSTH = 0x05"
definition ENC28_TXNDL :: u8 where [enc28_consts]: "ENC28_TXNDL = 0x06"
definition ENC28_TXNDH :: u8 where [enc28_consts]: "ENC28_TXNDH = 0x07"
definition ENC28_RXSTL :: u8 where [enc28_consts]: "ENC28_RXSTL = 0x08"
definition ENC28_RXSTH :: u8 where [enc28_consts]: "ENC28_RXSTH = 0x09"
definition ENC28_RXNDL :: u8 where [enc28_consts]: "ENC28_RXNDL = 0x0A"
definition ENC28_RXNDH :: u8 where [enc28_consts]: "ENC28_RXNDH = 0x0B"
definition ENC28_RXRDPTL :: u8 where [enc28_consts]: "ENC28_RXRDPTL = 0x0C"
definition ENC28_RXRDPTH :: u8 where [enc28_consts]: "ENC28_RXRDPTH = 0x0D"
definition ENC28_RXFCON :: u8 where [enc28_consts]: "ENC28_RXFCON = 0x38"
definition ENC28_RXFCON_UCEN :: u8 where [enc28_consts]: "ENC28_RXFCON_UCEN = 0x80"
definition ENC28_RXFCON_MCEN :: u8 where [enc28_consts]: "ENC28_RXFCON_MCEN = 0x02"
definition ENC28_RXFCON_BCEN :: u8 where [enc28_consts]: "ENC28_RXFCON_BCEN = 0x01"
definition ENC28_PKTCNT :: u8 where [enc28_consts]: "ENC28_PKTCNT = 0x39"
definition ENC28_MACON1 :: u8 where [enc28_consts]: "ENC28_MACON1 = 0xC0"
definition ENC28_MACON1_TXPAUS :: u8 where [enc28_consts]: "ENC28_MACON1_TXPAUS = 0x08"
definition ENC28_MACON1_RXPAUS :: u8 where [enc28_consts]: "ENC28_MACON1_RXPAUS = 0x04"
definition ENC28_MACON1_MARXEN :: u8 where [enc28_consts]: "ENC28_MACON1_MARXEN = 0x01"
definition ENC28_MACON2 :: u8 where [enc28_consts]: "ENC28_MACON2 = 0xC1"
definition ENC28_MACON3 :: u8 where [enc28_consts]: "ENC28_MACON3 = 0xC2"
definition ENC28_MACON3_PADCFG0 :: u8 where [enc28_consts]: "ENC28_MACON3_PADCFG0 = 0x20"
definition ENC28_MACON3_TXCRCEN :: u8 where [enc28_consts]: "ENC28_MACON3_TXCRCEN = 0x10"
definition ENC28_MACON3_FRMLNEN :: u8 where [enc28_consts]: "ENC28_MACON3_FRMLNEN = 0x02"
definition ENC28_MABBIPG :: u8 where [enc28_consts]: "ENC28_MABBIPG = 0xC4"
definition ENC28_MAIPGL :: u8 where [enc28_consts]: "ENC28_MAIPGL = 0xC6"
definition ENC28_MAIPGH :: u8 where [enc28_consts]: "ENC28_MAIPGH = 0xC7"
definition ENC28_MAMXFLL :: u8 where [enc28_consts]: "ENC28_MAMXFLL = 0xCA"
definition ENC28_MAMXFLH :: u8 where [enc28_consts]: "ENC28_MAMXFLH = 0xCB"
definition ENC28_MIREGADR :: u8 where [enc28_consts]: "ENC28_MIREGADR = 0xD4"
definition ENC28_MIWRL :: u8 where [enc28_consts]: "ENC28_MIWRL = 0xD6"
definition ENC28_MIWRH :: u8 where [enc28_consts]: "ENC28_MIWRH = 0xD7"
definition ENC28_MAADR1 :: u8 where [enc28_consts]: "ENC28_MAADR1 = 0xE0"
definition ENC28_MAADR0 :: u8 where [enc28_consts]: "ENC28_MAADR0 = 0xE1"
definition ENC28_MAADR3 :: u8 where [enc28_consts]: "ENC28_MAADR3 = 0xE2"
definition ENC28_MAADR2 :: u8 where [enc28_consts]: "ENC28_MAADR2 = 0xE3"
definition ENC28_MAADR5 :: u8 where [enc28_consts]: "ENC28_MAADR5 = 0xE4"
definition ENC28_MAADR4 :: u8 where [enc28_consts]: "ENC28_MAADR4 = 0xE5"
definition ENC28_MISTAT :: u8 where [enc28_consts]: "ENC28_MISTAT = 0xEA"
definition ENC28_MISTAT_BUSY :: u8 where [enc28_consts]: "ENC28_MISTAT_BUSY = 0x01"
definition ENC28_REVID :: u8 where [enc28_consts]: "ENC28_REVID = 0x72"
definition ENC28_PHCON2 :: u8 where [enc28_consts]: "ENC28_PHCON2 = 0x10"
definition ENC28_PHCON2_HDLDIS :: int where [enc28_consts]: "ENC28_PHCON2_HDLDIS = 0x100"

section \<open>The SPI bus\<close>

datatype spi_flags = SPI_F_DEFAULT | SPI_F_NOINIT | SPI_F_NOFINI | SPI_F_NOCS

text \<open>A transfer has flags, a number of bytes to read if any, and the bytes to write if any.\<close>

datatype spi_op = Spi_xfer spi_flags "nat option" "u8 list option" | Delay_us nat | Delay_ms nat

type_synonym spi_bus = "spi_op list \<Rightarrow> int \<times> u8 list"

record enc28_dev =
  en_bank :: u16
  en_txptr :: u16
  en_rxptr :: u16
  en_log :: "spi_op list"

definition spi_xfer :: "spi_bus \<Rightarrow> spi_flags \<Rightarrow> nat option \<Rightarrow> u8 list option \<Rightarrow> enc28_dev \<Rightarrow> int \<times> u8 list \<times> enc28_dev" where
  "spi_xfer bus f ilen obuf d =
     (let d = d\<lparr>en_log := Spi_xfer f ilen obuf # en_log d\<rparr>; (r, bs) = bus (en_log d) in (r, bs, d))"

definition spi_raw_read :: "spi_bus \<Rightarrow> spi_flags \<Rightarrow> nat \<Rightarrow> enc28_dev \<Rightarrow> int \<times> u8 list \<times> enc28_dev" where
  "spi_raw_read bus f len d = spi_xfer bus f (Some len) None d"

definition spi_raw_write :: "spi_bus \<Rightarrow> spi_flags \<Rightarrow> u8 list \<Rightarrow> enc28_dev \<Rightarrow> int \<times> enc28_dev" where
  "spi_raw_write bus f buf d = (let (r, _, d) = spi_xfer bus f None (Some buf) d in (r, d))"

section \<open>Register access\<close>

definition enc28_wr_op :: "spi_bus \<Rightarrow> u8 \<Rightarrow> u8 \<Rightarrow> int \<Rightarrow> enc28_dev \<Rightarrow> int \<times> enc28_dev" where
  "enc28_wr_op bus cmd addr datum d = spi_raw_write bus SPI_F_DEFAULT [cmd OR (addr AND ENC28_MASK_ADDR), word_of_int datum] d"

definition enc28_rd_op :: "spi_bus \<Rightarrow> u8 \<Rightarrow> u8 \<Rightarrow> enc28_dev \<Rightarrow> int \<times> enc28_dev" where
  "enc28_rd_op bus cmd addr d =
     (let len = (if addr AND 0x80 \<noteq> 0 then 3 else 2);
          b = [cmd OR (addr AND ENC28_MASK_ADDR), 0xff, 0xff];
          (ret, inp, d) = spi_xfer bus SPI_F_DEFAULT (Some len) (Some (take len b)) d
      in if ret \<noteq> 0 then (ret, d) else (uint (copy_at b 0 (take len inp) ! (len - 1)), d))"

definition enc28_set_bank :: "spi_bus \<Rightarrow> u8 \<Rightarrow> enc28_dev \<Rightarrow> enc28_dev" where
  "enc28_set_bank bus addr d =
     (if en_bank d = ucast (addr AND ENC28_MASK_BANK) then d
      else let d = d\<lparr>en_bank := ucast (addr AND ENC28_MASK_BANK)\<rparr>;
               d = snd (enc28_wr_op bus ENC28_CMD_BIT_FIELD_CLR ENC28_CON1 (uint (ENC28_CON1_BSEL1 OR ENC28_CON1_BSEL0)) d)
           in snd (enc28_wr_op bus ENC28_CMD_BIT_FIELD_SET ENC28_CON1 (uint (drop_bit 5 (en_bank d))) d))"

definition enc28_wr :: "spi_bus \<Rightarrow> u8 \<Rightarrow> int \<Rightarrow> enc28_dev \<Rightarrow> enc28_dev" where
  "enc28_wr bus addr datum d = snd (enc28_wr_op bus ENC28_CMD_WRITE_CTRL_REG addr datum (enc28_set_bank bus addr d))"

definition enc28_rd :: "spi_bus \<Rightarrow> u8 \<Rightarrow> enc28_dev \<Rightarrow> int \<times> enc28_dev" where
  "enc28_rd bus addr d = enc28_rd_op bus ENC28_CMD_READ_CTRL_REG addr (enc28_set_bank bus addr d)"

partial_function (option) enc28_wait_phy :: "spi_bus \<Rightarrow> enc28_dev \<Rightarrow> enc28_dev option" where
  "enc28_wait_phy bus d =
     (let (r, d) = enc28_rd bus ENC28_MISTAT (d\<lparr>en_log := Delay_us 15 # en_log d\<rparr>)
      in if r AND uint ENC28_MISTAT_BUSY \<noteq> 0 then enc28_wait_phy bus d else Some d)"

definition enc28_wr_phy :: "spi_bus \<Rightarrow> u8 \<Rightarrow> int \<Rightarrow> enc28_dev \<Rightarrow> enc28_dev option" where
  "enc28_wr_phy bus addr datum d =
     enc28_wait_phy bus (enc28_wr bus ENC28_MIWRH (datum div 256) (enc28_wr bus ENC28_MIWRL datum (enc28_wr bus ENC28_MIREGADR (uint addr) d)))"

definition enc28_wr_buf :: "spi_bus \<Rightarrow> u8 list \<Rightarrow> enc28_dev \<Rightarrow> int \<times> enc28_dev" where
  "enc28_wr_buf bus buf d =
     (let (ret, d) = spi_raw_write bus SPI_F_NOFINI [ENC28_CMD_WRITE_BUF_MEM] d;
          (ret, d) = (if ret = 0 then spi_raw_write bus SPI_F_NOINIT buf d else (ret, d))
      in if ret = 0 then (int (length buf), d) else (- 1, d))"

definition enc28_rd_buf :: "spi_bus \<Rightarrow> nat \<Rightarrow> enc28_dev \<Rightarrow> int \<times> u8 list \<times> enc28_dev" where
  "enc28_rd_buf bus len d =
     (let (ret, d) = spi_raw_write bus SPI_F_NOFINI [ENC28_CMD_READ_BUF_MEM] d
      in if ret \<noteq> 0 then (- 1, [], d)
         else let (ret, bs, d) = spi_raw_read bus SPI_F_NOINIT len d in if ret = 0 then (int len, bs, d) else (- 1, bs, d))"

definition enc28_get_rev :: "spi_bus \<Rightarrow> enc28_dev \<Rightarrow> int \<times> enc28_dev" where
  "enc28_get_rev bus d = enc28_rd bus ENC28_REVID d"

section \<open>The driver\<close>

text \<open>The writes of the initialisation, in order; \<open>mac\<close> is the address of the configuration.\<close>

definition enc28_reset :: "spi_bus \<Rightarrow> enc28_dev \<Rightarrow> enc28_dev" where
  "enc28_reset bus d =
     (let rst = (\<lambda>d. snd (enc28_wr_op bus ENC28_CMD_SOFT_RESET 0 (uint ENC28_CMD_SOFT_RESET) d)); d = (rst ^^ 5) d
      in d\<lparr>en_log := Delay_ms 50 # en_log d, en_bank := 0\<rparr>)"

definition enc28_init_pointers :: "enc28_dev \<Rightarrow> (u8 \<times> int) list" where
  "enc28_init_pointers d =
     [(ENC28_RXSTL, uint (en_rxptr d)), (ENC28_RXSTH, uint (en_rxptr d) div 256),
      (ENC28_RXRDPTL, uint (en_rxptr d)), (ENC28_RXRDPTH, uint (en_rxptr d) div 256),
      (ENC28_RXNDL, uint (en_txptr d) - 1), (ENC28_RXNDH, (uint (en_txptr d) - 1) div 256),
      (ENC28_TXSTL, uint (en_txptr d)), (ENC28_TXSTH, uint (en_txptr d) div 256),
      (ENC28_TXNDL, 0x1fff), (ENC28_TXNDH, 0x1fff div 256),
      (ENC28_RXFCON, uint (ENC28_RXFCON_UCEN OR ENC28_RXFCON_MCEN OR ENC28_RXFCON_BCEN)),
      (ENC28_MACON1, uint (ENC28_MACON1_MARXEN OR ENC28_MACON1_TXPAUS OR ENC28_MACON1_RXPAUS)),
      (ENC28_MACON2, 0)]"

definition enc28_init_mac :: "u8 list \<Rightarrow> (u8 \<times> int) list" where
  "enc28_init_mac mac =
     [(ENC28_MAIPGL, 0x12), (ENC28_MAIPGH, 0x0c), (ENC28_MABBIPG, 0x12), (ENC28_MAMXFLL, 1518), (ENC28_MAMXFLH, 1518 div 256),
      (ENC28_MAADR5, uint (mac ! 0)), (ENC28_MAADR4, uint (mac ! 1)), (ENC28_MAADR3, uint (mac ! 2)),
      (ENC28_MAADR2, uint (mac ! 3)), (ENC28_MAADR1, uint (mac ! 4)), (ENC28_MAADR0, uint (mac ! 5))]"

definition enc28_wr_all :: "spi_bus \<Rightarrow> (u8 \<times> int) list \<Rightarrow> enc28_dev \<Rightarrow> enc28_dev" where
  "enc28_wr_all bus ws d = fold (\<lambda>(a, v). enc28_wr bus a v) ws d"

definition enc28_init :: "spi_bus \<Rightarrow> u8 list \<Rightarrow> enc28_dev \<Rightarrow> (int \<times> enc28_dev) option" where
  "enc28_init bus mac d =
     (let d = (enc28_reset bus d)\<lparr>en_rxptr := 0, en_txptr := 0x1a00\<rparr>;
          d = enc28_wr_all bus (enc28_init_pointers d) d;
          d = snd (enc28_wr_op bus ENC28_CMD_BIT_FIELD_SET ENC28_MACON3
                     (uint (ENC28_MACON3_PADCFG0 OR ENC28_MACON3_TXCRCEN OR ENC28_MACON3_FRMLNEN)) d);
          d = enc28_wr_all bus (enc28_init_mac mac) d
      in Option.bind (enc28_wr_phy bus ENC28_PHCON2 ENC28_PHCON2_HDLDIS d) (\<lambda>d.
           let d = enc28_set_bank bus ENC28_CON1 d;
               d = snd (enc28_wr_op bus ENC28_CMD_BIT_FIELD_SET ENC28_IE (uint (ENC28_IE_INTIE OR ENC28_IE_PKTIE)) d);
               d = snd (enc28_wr_op bus ENC28_CMD_BIT_FIELD_SET ENC28_CON1 (uint ENC28_CON1_RXEN) d)
           in Some (0, d)))"

text \<open>\<open>create\<close> and \<open>destroy\<close> are the operations of the bus. The result is whether a device is returned.\<close>

definition enc28_create :: "(enc28_dev \<Rightarrow> bool \<times> enc28_dev) \<Rightarrow> (enc28_dev \<Rightarrow> enc28_dev) \<Rightarrow> spi_bus \<Rightarrow> u8 list \<Rightarrow> enc28_dev \<Rightarrow> (bool \<times> enc28_dev) option" where
  "enc28_create create destroy bus mac d =
     (let (ok, d) = create d
      in if \<not> ok then Some (False, d)
         else map_option (\<lambda>(r, d). if r < 0 then (False, destroy d) else (True, d)) (enc28_init bus mac d))"

definition enc28_destroy :: "(enc28_dev \<Rightarrow> enc28_dev) \<Rightarrow> enc28_dev \<Rightarrow> enc28_dev" where
  "enc28_destroy destroy d = destroy d"

definition enc28_send :: "spi_bus \<Rightarrow> u8 list \<Rightarrow> enc28_dev \<Rightarrow> int \<times> enc28_dev" where
  "enc28_send bus packet d =
     (let len = int (length packet);
          d = enc28_wr_all bus [(ENC28_WRPTL, uint (en_txptr d)), (ENC28_WRPTH, uint (en_txptr d) div 256),
                (ENC28_TXNDL, uint (en_txptr d) + len), (ENC28_TXNDH, (uint (en_txptr d) + len) div 256)] d;
          d = snd (enc28_wr_op bus ENC28_CMD_WRITE_BUF_MEM 0 0 d);
          d = snd (enc28_wr_buf bus packet d);
          d = snd (enc28_wr_op bus ENC28_CMD_BIT_FIELD_SET ENC28_CON1 (uint ENC28_CON1_TXRTS) d);
          (ir, d) = enc28_rd bus ENC28_IR d;
          d = (if ir AND uint ENC28_IR_TXERIF \<noteq> 0
               then snd (enc28_wr_op bus ENC28_CMD_BIT_FIELD_CLR ENC28_CON1 (uint ENC28_CON1_TXRTS) d) else d)
      in (len, d))"

text \<open>\<open>junk\<close> are the bytes of the status array before it is read; a failed read leaves them. The packet read is the second component.\<close>

definition enc28_recv :: "spi_bus \<Rightarrow> u8 list \<Rightarrow> int \<Rightarrow> enc28_dev \<Rightarrow> int \<times> u8 list \<times> enc28_dev" where
  "enc28_recv bus junk maxlen d =
     (let (cnt, d) = enc28_rd bus ENC28_PKTCNT d
      in if cnt = 0 then (- 1, [], d)
         else let d = enc28_wr_all bus [(ENC28_RDPTL, uint (en_rxptr d)), (ENC28_RDPTH, uint (en_rxptr d) div 256)] d;
                  (_, inp, d) = enc28_rd_buf bus 6 d;
                  rxstat = copy_at junk 0 (take 6 inp);
                  nxt = uint (rxstat ! 0) OR (uint (rxstat ! 1) * 65536);
                  len = (uint (rxstat ! 2) OR (uint (rxstat ! 3) * 65536)) - 4;
                  len = (if len > maxlen then maxlen else len);
                  d = d\<lparr>en_rxptr := word_of_int nxt\<rparr>
              in if rxstat ! 4 AND 0x80 = 0 then (- 1, [], d)
                 else let (_, bs, d) = enc28_rd_buf bus (nat len) d;
                          d = enc28_wr_all bus [(ENC28_RXRDPTL, nxt), (ENC28_RXRDPTH, nxt div 256)] d;
                          d = snd (enc28_wr_op bus ENC28_CMD_BIT_FIELD_SET ENC28_CON2 (uint ENC28_CON2_PKTDEC) d)
                      in (len, bs, d))"

section \<open>The controller\<close>

text \<open>
  The control registers of the controller as its commands see them. A command byte has three bits of operation code and five bits of address; the two
  lowest bits of the register \<open>CON1\<close> select the bank, and the last five addresses are the same registers in every bank. Registers are numbered
  with the bank in the bits 5 and 6. Setting and clearing bits works on the registers \<open>eth\<close> only, a reset gives the values \<open>rst\<close>.
  A transfer that continues an earlier one carries data.
\<close>

definition chip_addr :: "u8 \<Rightarrow> u8 \<Rightarrow> u8" where
  "chip_addr con1 a = (if a < 0x1B then push_bit 5 (con1 AND 3) OR a else a)"

definition chip_cmd :: "(u8 \<Rightarrow> bool) \<Rightarrow> (u8 \<Rightarrow> u8) \<Rightarrow> u8 \<Rightarrow> u8 \<Rightarrow> (u8 \<Rightarrow> u8) \<Rightarrow> u8 \<Rightarrow> u8" where
  "chip_cmd eth rst c v R =
     (let r = chip_addr (R 0x1F) (c AND 0x1F); k = c AND 0xE0
      in if k = 0x40 then R(r := v)
         else if k = 0x80 then (if eth r then R(r := R r OR v) else R)
         else if k = 0xA0 then (if eth r then R(r := R r AND NOT v) else R)
         else if k = 0xE0 then rst
         else R)"

fun chip_step :: "(u8 \<Rightarrow> bool) \<Rightarrow> (u8 \<Rightarrow> u8) \<Rightarrow> spi_op \<Rightarrow> (u8 \<Rightarrow> u8) \<Rightarrow> u8 \<Rightarrow> u8" where
  "chip_step eth rst (Spi_xfer f il (Some (c # v # vs))) R = (if f = SPI_F_DEFAULT \<or> f = SPI_F_NOFINI then chip_cmd eth rst c v R else R)"
| "chip_step eth rst _ R = R"

text \<open>The registers after a history, newest first, which starts with the values \<open>pow\<close>.\<close>

fun chip_regs :: "(u8 \<Rightarrow> bool) \<Rightarrow> (u8 \<Rightarrow> u8) \<Rightarrow> (u8 \<Rightarrow> u8) \<Rightarrow> spi_op list \<Rightarrow> u8 \<Rightarrow> u8" where
  "chip_regs eth rst pow [] = pow"
| "chip_regs eth rst pow (x # xs) = chip_step eth rst x (chip_regs eth rst pow xs)"

text \<open>The register that an address of the header stands for.\<close>

definition flat_reg :: "u8 \<Rightarrow> u8" where
  "flat_reg addr = (if addr AND 0x1F < 0x1B then addr AND 0x7F else addr AND 0x1F)"

text \<open>The bits of the masks.\<close>

lemma bit_position: "n < 8 \<Longrightarrow> n = 0 \<or> n = 1 \<or> n = 2 \<or> n = 3 \<or> n = 4 \<or> n = 5 \<or> n = 6 \<or> n = (7 :: nat)"
  by arith

lemma len8: "LENGTH(8) = 8"
  by simp

lemma addr_bits:
  fixes addr x :: u8
  shows "push_bit 5 (drop_bit 5 addr AND 3) OR addr AND 0x1F = addr AND 0x7F"
    "(0x40 OR addr AND 0x1F) AND 0xE0 = (0x40 :: u8)" "(0x40 OR addr AND 0x1F) AND 0x1F = addr AND 0x1F"
    "(x AND - 4 OR drop_bit 5 addr AND 3) AND 3 = drop_bit 5 addr AND 3"
    "(x AND - 4 OR drop_bit 5 addr AND 3) AND - 4 = x AND - 4"
  by (rule bit_word_eqI, unfold len8, drule bit_position, (elim disjE; simp add: bit_simps))+

lemma bank_bits:
  fixes addr c :: u8
  shows "push_bit 5 (drop_bit 5 addr AND 3) = addr AND 0x60" "drop_bit 5 (push_bit 5 (c AND 3)) = c AND 3"
    "c AND - 4 OR c AND 3 = c" "drop_bit 5 (addr AND 0x60) = drop_bit 5 addr AND 3"
  by (rule bit_word_eqI, unfold len8, drule bit_position, (elim disjE; simp add: bit_simps))+

text \<open>The registers of the controller in a state of the driver, with and without the bank selection, and the invariant of the cached bank.\<close>

definition enc28_regs :: "(u8 \<Rightarrow> bool) \<Rightarrow> (u8 \<Rightarrow> u8) \<Rightarrow> (u8 \<Rightarrow> u8) \<Rightarrow> enc28_dev \<Rightarrow> u8 \<Rightarrow> u8" where
  "enc28_regs eth rst pow d = chip_regs eth rst pow (en_log d)"

definition unbanked :: "(u8 \<Rightarrow> u8) \<Rightarrow> u8 \<Rightarrow> u8" where
  "unbanked R = R(0x1F := R 0x1F AND - 4)"

definition bank_ok :: "(u8 \<Rightarrow> bool) \<Rightarrow> (u8 \<Rightarrow> u8) \<Rightarrow> (u8 \<Rightarrow> u8) \<Rightarrow> enc28_dev \<Rightarrow> bool" where
  "bank_ok eth rst pow d \<longleftrightarrow> en_bank d = ucast (push_bit 5 (enc28_regs eth rst pow d 0x1F AND 3))"

lemma wr_op_effect [simp]:
  "enc28_regs eth rst pow (snd (enc28_wr_op bus cmd addr v d)) = chip_cmd eth rst (cmd OR addr AND 0x1F) (word_of_int v) (enc28_regs eth rst pow d)"
  "en_bank (snd (enc28_wr_op bus cmd addr v d)) = en_bank d" "en_txptr (snd (enc28_wr_op bus cmd addr v d)) = en_txptr d"
  "en_rxptr (snd (enc28_wr_op bus cmd addr v d)) = en_rxptr d"
  by (simp_all add: enc28_wr_op_def spi_raw_write_def spi_xfer_def enc28_regs_def ENC28_MASK_ADDR_def Let_def split: prod.splits)

lemma ucast_byte: "ucast (ucast (a :: u8) :: u16) = a"
  by (rule bit_word_eqI) (simp add: bit_simps)

lemma ucast_byte_inject: "(ucast (a :: u8) :: u16) = ucast b \<longleftrightarrow> a = b"
  by (metis ucast_byte)

lemma bank_number: "ucast (drop_bit 5 (ucast (addr AND 0x60) :: u16)) = (drop_bit 5 addr AND 3 :: u8)"
  by (rule bit_word_eqI, unfold len8, drule bit_position, (elim disjE; simp add: bit_simps))

text \<open>Selecting a bank: the cache and the controller agree, and only the bank selection changes.\<close>

lemma set_bank_effect:
  assumes "bank_ok eth rst pow d" "eth 0x1F"
  shows "enc28_regs eth rst pow (enc28_set_bank bus addr d)
      = (enc28_regs eth rst pow d)(0x1F := enc28_regs eth rst pow d 0x1F AND - 4 OR drop_bit 5 addr AND 3)"
    "en_bank (enc28_set_bank bus addr d) = ucast (addr AND 0x60)"
    "en_txptr (enc28_set_bank bus addr d) = en_txptr d" "en_rxptr (enc28_set_bank bus addr d) = en_rxptr d"
proof -
  let ?R = "enc28_regs eth rst pow d"
  have cmd: "chip_cmd eth rst 0x9F b (chip_cmd eth rst 0xBF 3 R) = R(0x1F := R 0x1F AND NOT 3 OR b)" for b R
    using assms(2) by (simp add: chip_cmd_def chip_addr_def)
  have same: "?R(0x1F := ?R 0x1F AND - 4 OR drop_bit 5 addr AND 3) = ?R" if "en_bank d = ucast (addr AND 0x60)"
  proof -
    have "push_bit 5 (?R 0x1F AND 3) = addr AND 0x60" using assms(1) that by (simp add: bank_ok_def ucast_byte_inject)
    then have "?R 0x1F AND 3 = drop_bit 5 addr AND 3" using bank_bits(2) [of "?R 0x1F"] bank_bits(4) [of addr] by simp
    then show ?thesis using bank_bits(3) [of "?R 0x1F"] by (simp add: fun_upd_idem_iff)
  qed
  have regs: "enc28_regs eth rst pow (d\<lparr>en_bank := b\<rparr>) = ?R" for b by (simp add: enc28_regs_def)
  show "enc28_regs eth rst pow (enc28_set_bank bus addr d) = ?R(0x1F := ?R 0x1F AND - 4 OR drop_bit 5 addr AND 3)"
    using same by (simp add: enc28_set_bank_def enc28_consts cmd regs bank_number Let_def)
  show "en_bank (enc28_set_bank bus addr d) = ucast (addr AND 0x60)" "en_txptr (enc28_set_bank bus addr d) = en_txptr d"
    "en_rxptr (enc28_set_bank bus addr d) = en_rxptr d" by (simp_all add: enc28_set_bank_def enc28_consts Let_def)
qed

lemma bank_ok_set:
  assumes "bank_ok eth rst pow d" "eth 0x1F"
  shows "bank_ok eth rst pow (enc28_set_bank bus addr d)"
  unfolding bank_ok_def set_bank_effect [OF assms] by (simp only: fun_upd_same addr_bits(4) bank_bits(1))

lemma unbanked_set:
  assumes "bank_ok eth rst pow d" "eth 0x1F"
  shows "unbanked (enc28_regs eth rst pow (enc28_set_bank bus addr d)) = unbanked (enc28_regs eth rst pow d)"
  unfolding set_bank_effect [OF assms] unbanked_def by (simp add: addr_bits(5))

lemma unbanked_upd: "r \<noteq> 0x1F \<Longrightarrow> unbanked (R(r := v)) = (unbanked R)(r := v)"
  by (auto simp: unbanked_def)

text \<open>A write reaches the register that its address stands for, whatever bank was selected before.\<close>

lemma flat_reg_common: "addr AND 0x1F \<noteq> 0x1F \<Longrightarrow> flat_reg addr \<noteq> 0x1F"
proof
  assume a: "addr AND 0x1F \<noteq> 0x1F" and f: "flat_reg addr = 0x1F"
  have "(addr AND 0x7F) AND 0x1F = addr AND 0x1F" by (simp add: and.assoc)
  with a f show False by (auto simp: flat_reg_def split: if_splits)
qed

lemma wr_effect:
  assumes "bank_ok eth rst pow d" "eth 0x1F" "addr AND 0x1F \<noteq> 0x1F"
  shows "unbanked (enc28_regs eth rst pow (enc28_wr bus addr v d)) = (unbanked (enc28_regs eth rst pow d))(flat_reg addr := word_of_int v)"
    "bank_ok eth rst pow (enc28_wr bus addr v d)" "en_bank (enc28_wr bus addr v d) = ucast (addr AND 0x60)"
    "en_txptr (enc28_wr bus addr v d) = en_txptr d" "en_rxptr (enc28_wr bus addr v d) = en_rxptr d"
proof -
  let ?d = "enc28_set_bank bus addr d" and ?R = "enc28_regs eth rst pow"
  note sb = set_bank_effect [OF assms(1,2)]
  note ne = flat_reg_common [OF assms(3)]
  have "chip_addr (?R ?d 0x1F) (addr AND 0x1F) = flat_reg addr"
    unfolding sb by (simp only: fun_upd_same chip_addr_def flat_reg_def addr_bits(1,4))
  then have w: "?R (enc28_wr bus addr v d) = (?R ?d)(flat_reg addr := word_of_int v)"
    by (simp add: enc28_wr_def enc28_consts chip_cmd_def addr_bits(2,3))
  then show "unbanked (?R (enc28_wr bus addr v d)) = (unbanked (?R d))(flat_reg addr := word_of_int v)"
    using ne unbanked_set [OF assms(1,2), of bus addr] by (simp add: unbanked_upd)
  show "bank_ok eth rst pow (enc28_wr bus addr v d)"
    using bank_ok_set [OF assms(1,2), of bus addr] ne w by (simp add: bank_ok_def) (simp add: enc28_wr_def)
  show "en_bank (enc28_wr bus addr v d) = ucast (addr AND 0x60)" "en_txptr (enc28_wr bus addr v d) = en_txptr d"
    "en_rxptr (enc28_wr bus addr v d) = en_rxptr d" by (simp_all add: enc28_wr_def sb)
qed

text \<open>A read changes no register but the bank selection, and is sent when the register is selected.\<close>

lemma rd_effect:
  assumes "bank_ok eth rst pow d" "eth 0x1F"
  shows "unbanked (enc28_regs eth rst pow (snd (enc28_rd bus addr d))) = unbanked (enc28_regs eth rst pow d)"
    "bank_ok eth rst pow (snd (enc28_rd bus addr d))" "en_bank (snd (enc28_rd bus addr d)) = ucast (addr AND 0x60)"
    "en_txptr (snd (enc28_rd bus addr d)) = en_txptr d" "en_rxptr (snd (enc28_rd bus addr d)) = en_rxptr d"
    "chip_addr (enc28_regs eth rst pow (enc28_set_bank bus addr d) 0x1F) (addr AND 0x1F) = flat_reg addr"
    "\<exists>n rest. en_log (snd (enc28_rd bus addr d)) = Spi_xfer SPI_F_DEFAULT (Some n) (Some ((addr AND 0x1F) # rest)) # en_log (enc28_set_bank bus addr d)"
proof -
  let ?d = "enc28_set_bank bus addr d" and ?d' = "snd (enc28_rd bus addr d)" and ?R = "enc28_regs eth rst pow"
  note sb = set_bank_effect [OF assms]
  have k: "(addr AND 0x1F) AND 0xE0 = 0" by (simp add: and.assoc)
  have d': "?d' = ?d\<lparr>en_log := Spi_xfer SPI_F_DEFAULT (Some (if addr AND 0x80 \<noteq> 0 then 3 else 2))
      (Some ((addr AND 0x1F) # 0xff # (if addr AND 0x80 \<noteq> 0 then [0xff] else []))) # en_log ?d\<rparr>"
    by (simp add: enc28_rd_def enc28_rd_op_def spi_xfer_def enc28_consts Let_def split: prod.splits)
  then have R: "?R ?d' = ?R ?d" using k by (simp add: enc28_regs_def chip_cmd_def Let_def)
  show "unbanked (?R ?d') = unbanked (?R d)" unfolding R by (rule unbanked_set [OF assms])
  show "bank_ok eth rst pow ?d'" using bank_ok_set [OF assms, of bus addr] R by (simp add: bank_ok_def) (simp add: d')
  show "en_bank ?d' = ucast (addr AND 0x60)" "en_txptr ?d' = en_txptr d" "en_rxptr ?d' = en_rxptr d" by (simp_all add: d' sb)
  show "chip_addr (?R ?d 0x1F) (addr AND 0x1F) = flat_reg addr"
    unfolding sb by (simp only: fun_upd_same chip_addr_def flat_reg_def addr_bits(1,4))
  show "\<exists>n rest. en_log ?d' = Spi_xfer SPI_F_DEFAULT (Some n) (Some ((addr AND 0x1F) # rest)) # en_log ?d"
    by (simp add: d')
qed

section \<open>Sequences of accesses\<close>

definition flat_writes :: "(u8 \<times> int) list \<Rightarrow> (u8 \<Rightarrow> u8) \<Rightarrow> u8 \<Rightarrow> u8" where
  "flat_writes ws R = fold (\<lambda>(a, v) R. R(flat_reg a := word_of_int v)) ws R"

lemma flat_writes_simps [simp]:
  "flat_writes [] R = R" "flat_writes ((a, v) # ws) R = flat_writes ws (R(flat_reg a := word_of_int v))"
  "enc28_wr_all bus [] d = d" "enc28_wr_all bus ((a, v) # ws) d = enc28_wr_all bus ws (enc28_wr bus a v d)"
  by (simp_all add: flat_writes_def enc28_wr_all_def)

lemma wr_all_effect:
  assumes "bank_ok eth rst pow d" "eth 0x1F" "\<forall>(a, v) \<in> set ws. a AND 0x1F \<noteq> 0x1F"
  shows "unbanked (enc28_regs eth rst pow (enc28_wr_all bus ws d)) = flat_writes ws (unbanked (enc28_regs eth rst pow d))
    \<and> bank_ok eth rst pow (enc28_wr_all bus ws d) \<and> en_txptr (enc28_wr_all bus ws d) = en_txptr d \<and> en_rxptr (enc28_wr_all bus ws d) = en_rxptr d
    \<and> (ws \<noteq> [] \<longrightarrow> en_bank (enc28_wr_all bus ws d) = ucast (fst (last ws) AND 0x60))"
  using assms(1,3)
proof (induction ws arbitrary: d)
  case (Cons w ws)
  obtain a v where w: "w = (a, v)" by (cases w)
  with Cons.prems have a: "a AND 0x1F \<noteq> 0x1F" by simp
  note e = wr_effect [OF Cons.prems(1) assms(2) a, of bus v]
  have "\<forall>(a, v) \<in> set ws. a AND 0x1F \<noteq> 0x1F" using Cons.prems(2) by simp
  from Cons.IH [OF e(2) this, unfolded e(1,4,5)] e(3) show ?case by (simp add: w del: fun_upd_apply)
qed simp

lemma flat_writes_other: "r \<notin> flat_reg ` fst ` set ws \<Longrightarrow> flat_writes ws R r = R r"
  by (induction ws arbitrary: R) auto

lemma flat_writes_lookup:
  assumes "distinct (map (flat_reg \<circ> fst) ws)" "(a, v) \<in> set ws"
  shows "flat_writes ws R (flat_reg a) = word_of_int v"
  using assms
proof (induction ws arbitrary: R)
  case (Cons w ws)
  show ?case
  proof (cases "w = (a, v)")
    case True
    with Cons.prems(1) have "flat_reg a \<notin> flat_reg ` fst ` set ws" by (auto simp: image_comp)
    with True show ?thesis using flat_writes_other [of "flat_reg a" ws] by simp
  next
    case False
    with Cons.prems Cons.IH show ?thesis by (cases w) auto
  qed
qed simp

text \<open>Setting bits of the common registers, and of a register in the selected bank.\<close>

lemma con1_set_effect:
  fixes v :: u8
  assumes "bank_ok eth rst pow d" "eth 0x1F" "v AND 3 = 0"
  shows "bank_ok eth rst pow (snd (enc28_wr_op bus ENC28_CMD_BIT_FIELD_SET ENC28_CON1 (uint v) d))"
    "bank_ok eth rst pow (snd (enc28_wr_op bus ENC28_CMD_BIT_FIELD_CLR ENC28_CON1 (uint v) d))"
    "r \<noteq> 0x1F \<Longrightarrow> unbanked (enc28_regs eth rst pow (snd (enc28_wr_op bus ENC28_CMD_BIT_FIELD_SET ENC28_CON1 (uint v) d))) r
       = unbanked (enc28_regs eth rst pow d) r"
    "r \<noteq> 0x1F \<Longrightarrow> unbanked (enc28_regs eth rst pow (snd (enc28_wr_op bus ENC28_CMD_BIT_FIELD_CLR ENC28_CON1 (uint v) d))) r
       = unbanked (enc28_regs eth rst pow d) r"
proof -
  have "(x OR v) AND 3 = x AND 3 OR v AND 3" "(x AND NOT v) AND 3 = x AND 3 AND NOT (v AND 3)" for x :: u8
    by (rule bit_word_eqI, auto simp: bit_simps)+
  then have "(x OR v) AND 3 = x AND 3" "(x AND NOT v) AND 3 = x AND 3" for x :: u8 using assms(3) by simp_all
  then show "bank_ok eth rst pow (snd (enc28_wr_op bus ENC28_CMD_BIT_FIELD_SET ENC28_CON1 (uint v) d))"
    "bank_ok eth rst pow (snd (enc28_wr_op bus ENC28_CMD_BIT_FIELD_CLR ENC28_CON1 (uint v) d))"
    using assms(1,2) by (simp_all add: bank_ok_def enc28_consts chip_cmd_def chip_addr_def Let_def)
  show "r \<noteq> 0x1F \<Longrightarrow> unbanked (enc28_regs eth rst pow (snd (enc28_wr_op bus ENC28_CMD_BIT_FIELD_SET ENC28_CON1 (uint v) d))) r
       = unbanked (enc28_regs eth rst pow d) r"
    "r \<noteq> 0x1F \<Longrightarrow> unbanked (enc28_regs eth rst pow (snd (enc28_wr_op bus ENC28_CMD_BIT_FIELD_CLR ENC28_CON1 (uint v) d))) r
       = unbanked (enc28_regs eth rst pow d) r"
    using assms(2) by (simp_all add: enc28_consts chip_cmd_def chip_addr_def unbanked_def Let_def)
qed

section \<open>Initialisation\<close>

text \<open>After \<open>N\<close> transfers and delays at the latest the physical layer is ready, and reads of its status say so.\<close>

definition phy_ready :: "nat \<Rightarrow> spi_bus \<Rightarrow> bool" where
  "phy_ready N bus \<longleftrightarrow> (\<forall>log. N \<le> length log \<longrightarrow>
     (\<exists>x y z. bus (Spi_xfer SPI_F_DEFAULT (Some 3) (Some [0x0A, 0xff, 0xff]) # log) = (0, [x, y, z]) \<and> z AND 1 = 0))"

lemma rd_mistat:
  "\<exists>r. enc28_rd bus ENC28_MISTAT d = (r, (enc28_set_bank bus ENC28_MISTAT d)\<lparr>en_log :=
      Spi_xfer SPI_F_DEFAULT (Some 3) (Some [0x0A, 0xff, 0xff]) # en_log (enc28_set_bank bus ENC28_MISTAT d)\<rparr>)
    \<and> (phy_ready N bus \<and> N \<le> length (en_log (enc28_set_bank bus ENC28_MISTAT d)) \<longrightarrow> r AND 1 = 0)"
proof -
  let ?log = "en_log (enc28_set_bank bus ENC28_MISTAT d)"
  obtain ret inp where b: "bus (Spi_xfer SPI_F_DEFAULT (Some 3) (Some [0x0A, 0xff, 0xff]) # ?log) = (ret, inp)" by fastforce
  have "r AND 1 = 0" if "phy_ready N bus" "N \<le> length ?log" "r = (if ret \<noteq> 0 then ret else uint (copy_at [0x0A, 0xff, 0xff] 0 (take 3 inp) ! 2))" for r
  proof -
    from that(1,2) b obtain x y z where "ret = 0" "inp = [x, y, z]" "z AND 1 = 0" unfolding phy_ready_def by fastforce
    moreover have "uint (z AND 1) = uint z AND 1" by (simp only: unsigned_and_eq unsigned_1)
    ultimately show ?thesis using that(3) by (simp add: copy_at_def)
  qed
  moreover have "enc28_rd bus ENC28_MISTAT d = (if ret \<noteq> 0 then ret else uint (copy_at [0x0A, 0xff, 0xff] 0 (take 3 inp) ! 2),
      (enc28_set_bank bus ENC28_MISTAT d)\<lparr>en_log := Spi_xfer SPI_F_DEFAULT (Some 3) (Some [0x0A, 0xff, 0xff]) # ?log\<rparr>)"
    using b by (simp add: enc28_rd_def enc28_rd_op_def spi_xfer_def enc28_consts Let_def)
  ultimately show ?thesis by blast
qed

lemma set_bank_log: "length (en_log d) \<le> length (en_log (enc28_set_bank bus addr d))"
  by (simp add: enc28_set_bank_def enc28_wr_op_def spi_raw_write_def spi_xfer_def Let_def split: prod.splits)

lemma wait_phy_ends:
  assumes "bank_ok eth rst pow d" "eth 0x1F" "phy_ready N bus"
  shows "\<exists>d'. enc28_wait_phy bus d = Some d' \<and> bank_ok eth rst pow d' \<and> unbanked (enc28_regs eth rst pow d') = unbanked (enc28_regs eth rst pow d)
    \<and> en_txptr d' = en_txptr d \<and> en_rxptr d' = en_rxptr d"
  using assms(1)
proof (induction "N - length (en_log d)" arbitrary: d rule: less_induct)
  case less
  define d1 where "d1 = d\<lparr>en_log := Delay_us 15 # en_log d\<rparr>"
  have b1: "bank_ok eth rst pow d1" and R1: "enc28_regs eth rst pow d1 = enc28_regs eth rst pow d"
    using less.prems by (simp_all add: d1_def bank_ok_def enc28_regs_def)
  obtain r d2 where rd: "enc28_rd bus ENC28_MISTAT d1 = (r, d2)"
    and len: "length (en_log d1) < length (en_log d2)" and ready: "N \<le> length (en_log d1) \<longrightarrow> r AND 1 = 0"
  proof -
    from rd_mistat [of bus d1 N] assms(3) set_bank_log [of d1 bus ENC28_MISTAT] show thesis using that by fastforce
  qed
  note e = rd_effect [OF b1 assms(2), of bus ENC28_MISTAT, unfolded rd snd_conv]
  have keep: "bank_ok eth rst pow d2" "unbanked (enc28_regs eth rst pow d2) = unbanked (enc28_regs eth rst pow d)"
    "en_txptr d2 = en_txptr d" "en_rxptr d2 = en_rxptr d" using e(1,2,4,5) R1 by (simp_all add: d1_def)
  show ?case
  proof (cases "r AND 1 = 0")
    case True
    then have "enc28_wait_phy bus d = Some d2"
      using rd by (simp add: enc28_wait_phy.simps [of bus d] enc28_consts flip: d1_def)
    with keep show ?thesis by blast
  next
    case False
    then have "enc28_wait_phy bus d = enc28_wait_phy bus d2"
      using rd by (simp add: enc28_wait_phy.simps [of bus d] enc28_consts flip: d1_def)
    moreover have "N - length (en_log d2) < N - length (en_log d)" using False ready len by (simp add: d1_def)
    ultimately show ?thesis using less.hyps [OF _ keep(1)] keep by metis
  qed
qed

lemma reset_regs: "enc28_regs eth rst pow (enc28_reset bus d) = rst"
proof -
  define f where "f = (\<lambda>d. snd (enc28_wr_op bus ENC28_CMD_SOFT_RESET 0 (uint ENC28_CMD_SOFT_RESET) d))"
  have "enc28_regs eth rst pow (f x) = rst" for x by (simp add: f_def enc28_consts chip_cmd_def)
  moreover have "(f ^^ 5) d = f ((f ^^ 4) d)" by (simp add: funpow_Suc_right [symmetric] eval_nat_numeral)
  ultimately show ?thesis by (simp add: enc28_reset_def enc28_regs_def Let_def flip: f_def)
qed

lemma reset_effect: "rst 0x1F AND 3 = 0 \<Longrightarrow> bank_ok eth rst pow (enc28_reset bus d)"
  unfolding bank_ok_def reset_regs by (simp add: enc28_reset_def Let_def)

lemma init_regs_distinct:
  "distinct (map (flat_reg \<circ> fst) (enc28_init_pointers d @ enc28_init_mac mac))"
  "flat_reg ` fst ` set (enc28_init_pointers d @ enc28_init_mac mac) \<inter> {0x1B, 0x1F, 0x42, 0x54, 0x56, 0x57} = {}"
  "\<forall>(a, v) \<in> set (enc28_init_pointers d @ enc28_init_mac mac). a AND 0x1F \<noteq> 0x1F"
  by (simp_all add: enc28_init_pointers_def enc28_init_mac_def enc28_consts flat_reg_def)

text \<open>Setting bits of a register outside the bank selection.\<close>

lemma bfs_effect:
  assumes "bank_ok eth rst pow d" "x \<noteq> 0x1F" "(0x80 OR addr AND 0x1F) AND 0xE0 = (0x80 :: u8)"
    and "chip_addr (enc28_regs eth rst pow d 0x1F) ((0x80 OR addr AND 0x1F) AND 0x1F) = x"
  shows "bank_ok eth rst pow (snd (enc28_wr_op bus ENC28_CMD_BIT_FIELD_SET addr v d))"
    "r \<noteq> x \<Longrightarrow> unbanked (enc28_regs eth rst pow (snd (enc28_wr_op bus ENC28_CMD_BIT_FIELD_SET addr v d))) r = unbanked (enc28_regs eth rst pow d) r"
  using assms by (simp_all add: bank_ok_def enc28_consts chip_cmd_def unbanked_def Let_def)

lemma macon3_selected:
  assumes "bank_ok eth rst pow d" "en_bank d = 0x40"
  shows "chip_addr (enc28_regs eth rst pow d 0x1F) ((0x80 OR ENC28_MACON3 AND 0x1F) AND 0x1F) = 0x42"
proof -
  have "(ucast (push_bit 5 (enc28_regs eth rst pow d 0x1F AND 3)) :: u16) = ucast (0x40 :: u8)" using assms by (simp add: bank_ok_def)
  then have "push_bit 5 (enc28_regs eth rst pow d 0x1F AND 3) = 0x40" by (simp only: ucast_byte_inject)
  then show ?thesis unfolding chip_addr_def by (simp add: enc28_consts)
qed

text \<open>The part of the initialisation before the physical layer: all the registers have their values.\<close>

definition enc28_setup :: "spi_bus \<Rightarrow> u8 list \<Rightarrow> enc28_dev \<Rightarrow> enc28_dev" where
  "enc28_setup bus mac d =
     (let d = (enc28_reset bus d)\<lparr>en_rxptr := 0, en_txptr := 0x1a00\<rparr>;
          d = enc28_wr_all bus (enc28_init_pointers d) d;
          d = snd (enc28_wr_op bus ENC28_CMD_BIT_FIELD_SET ENC28_MACON3
                     (uint (ENC28_MACON3_PADCFG0 OR ENC28_MACON3_TXCRCEN OR ENC28_MACON3_FRMLNEN)) d)
      in enc28_wr_all bus (enc28_init_mac mac) d)"

lemma setup_effect:
  assumes "rst 0x1F AND 3 = 0" "eth 0x1F"
  shows "bank_ok eth rst pow (enc28_setup bus mac d)" "en_rxptr (enc28_setup bus mac d) = 0" "en_txptr (enc28_setup bus mac d) = 0x1a00"
    "(a, v) \<in> set (enc28_init_pointers (enc28_setup bus mac d) @ enc28_init_mac mac)
      \<Longrightarrow> unbanked (enc28_regs eth rst pow (enc28_setup bus mac d)) (flat_reg a) = word_of_int v"
    "\<not> eth 0x42 \<Longrightarrow> r \<in> {0x1B, 0x42} \<Longrightarrow> unbanked (enc28_regs eth rst pow (enc28_setup bus mac d)) r = rst r"
proof -
  let ?R = "enc28_regs eth rst pow"
  define d0 where "d0 = (enc28_reset bus d)\<lparr>en_rxptr := 0, en_txptr := 0x1a00\<rparr>"
  let ?ps = "enc28_init_pointers d0" and ?ms = "enc28_init_mac mac"
  define d1 where "d1 = enc28_wr_all bus ?ps d0"
  define d2 where "d2 = snd (enc28_wr_op bus ENC28_CMD_BIT_FIELD_SET ENC28_MACON3
                     (uint (ENC28_MACON3_PADCFG0 OR ENC28_MACON3_TXCRCEN OR ENC28_MACON3_FRMLNEN)) d1)"
  define d3 where "d3 = enc28_wr_all bus ?ms d2"
  have d3: "enc28_setup bus mac d = d3" by (simp add: enc28_setup_def d0_def d1_def d2_def d3_def Let_def)
  have ok0: "bank_ok eth rst pow d0" using reset_effect [of rst eth pow bus d] assms(1) by (simp add: d0_def bank_ok_def enc28_regs_def)
  note regs = init_regs_distinct [of d0 mac]
  from wr_all_effect [OF ok0 assms(2), of ?ps bus] regs(3) have
    d1: "unbanked (?R d1) = flat_writes ?ps (unbanked (?R d0))" "bank_ok eth rst pow d1" "en_txptr d1 = en_txptr d0" "en_rxptr d1 = en_rxptr d0"
    "en_bank d1 = 0x40" unfolding d1_def by (auto simp: enc28_init_pointers_def enc28_consts)
  have "(0x80 OR ENC28_MACON3 AND 0x1F) AND 0xE0 = (0x80 :: u8)" by (simp add: enc28_consts)
  note bfs = bfs_effect [OF d1(2) _ this macon3_selected [OF d1(2,5)]]
  have d2: "bank_ok eth rst pow d2" "\<And>r. r \<noteq> 0x42 \<Longrightarrow> unbanked (?R d2) r = unbanked (?R d1) r" "en_txptr d2 = en_txptr d1" "en_rxptr d2 = en_rxptr d1"
    unfolding d2_def by (rule bfs(1), simp, rule bfs(2)) (simp_all only: wr_op_effect, simp_all)
  from wr_all_effect [OF d2(1) assms(2), of ?ms bus] regs(3) have
    e3: "unbanked (?R d3) = flat_writes ?ms (unbanked (?R d2))" "bank_ok eth rst pow d3" "en_txptr d3 = en_txptr d2" "en_rxptr d3 = en_rxptr d2"
    unfolding d3_def by auto
  show "bank_ok eth rst pow (enc28_setup bus mac d)" "en_rxptr (enc28_setup bus mac d) = 0" "en_txptr (enc28_setup bus mac d) = 0x1a00"
    unfolding d3 using e3 d2(3,4) d1(3,4) by (simp_all add: d0_def)
  show "unbanked (?R (enc28_setup bus mac d)) r = rst r" if "\<not> eth 0x42" "r \<in> {0x1B, 0x42}"
  proof -
    have "chip_cmd eth rst (0x80 OR ENC28_MACON3 AND 0x1F) x (?R d1) = ?R d1" for x
      using macon3_selected [OF d1(2,5)] that(1) by (simp add: chip_cmd_def enc28_consts)
    then have "?R d2 = ?R d1" unfolding d2_def wr_op_effect by (simp add: enc28_consts)
    moreover have "r \<notin> flat_reg ` fst ` set (?ps @ ?ms)" using regs(2) that(2) by blast
    moreover have "?R d0 = rst" using reset_regs [of eth rst pow bus d] by (simp add: d0_def enc28_regs_def)
    ultimately show ?thesis unfolding d3 e3(1) using that(2) by (simp add: flat_writes_other d1(1) image_Un) (auto simp: unbanked_def)
  qed
  have ptrs: "enc28_init_pointers d3 = ?ps" using e3 d2(3,4) d1(3,4) by (simp add: enc28_init_pointers_def)
  show "unbanked (?R (enc28_setup bus mac d)) (flat_reg a) = word_of_int v"
    if "(a, v) \<in> set (enc28_init_pointers (enc28_setup bus mac d) @ ?ms)"
  proof (cases "(a, v) \<in> set ?ms")
    case True
    with regs(1) show ?thesis unfolding d3 e3(1) by (intro flat_writes_lookup) simp_all
  next
    case False
    with that ptrs have a: "(a, v) \<in> set ?ps" unfolding d3 by simp
    then have k: "flat_reg a \<in> flat_reg ` fst ` set ?ps" by force
    then have "flat_reg a \<in> flat_reg ` fst ` set (?ps @ ?ms)" by (simp add: image_Un)
    with regs(2) have "flat_reg a \<noteq> 0x42" by blast
    moreover from k regs(1) have "flat_reg a \<notin> flat_reg ` fst ` set ?ms" by (auto simp: image_comp)
    ultimately have "unbanked (?R d3) (flat_reg a) = unbanked (?R d1) (flat_reg a)" unfolding e3(1) by (simp add: flat_writes_other d2(2))
    also have "\<dots> = word_of_int v" unfolding d1(1) using regs(1) a by (intro flat_writes_lookup) simp_all
    finally show ?thesis unfolding d3 .
  qed
qed

lemma init_effect:
  assumes "rst 0x1F AND 3 = 0" "eth 0x1F" "eth 0x1B" "\<not> eth 0x42" "phy_ready N bus"
  shows "\<exists>d'. enc28_init bus mac d = Some (0, d') \<and> bank_ok eth rst pow d' \<and> en_rxptr d' = 0 \<and> en_txptr d' = 0x1a00
    \<and> (\<forall>(a, v) \<in> set (enc28_init_pointers d' @ enc28_init_mac mac). unbanked (enc28_regs eth rst pow d') (flat_reg a) = word_of_int v)
    \<and> map (unbanked (enc28_regs eth rst pow d')) [0x54, 0x56, 0x57, 0x1B, 0x42] = [0x10, 0x00, 0x01, rst 0x1B OR 0xC0, rst 0x42]
    \<and> unbanked (enc28_regs eth rst pow d') 0x1F AND 4 = 4"
proof -
  let ?R = "enc28_regs eth rst pow"
  define d3 where "d3 = enc28_setup bus mac d"
  have d3: "bank_ok eth rst pow d3" "en_rxptr d3 = 0" "en_txptr d3 = 0x1a00"
    "\<And>a v. (a, v) \<in> set (enc28_init_pointers d3 @ enc28_init_mac mac) \<Longrightarrow> unbanked (?R d3) (flat_reg a) = word_of_int v"
    unfolding d3_def using setup_effect(1-3) [of rst eth, OF assms(1,2)] setup_effect(4) [of rst eth, OF assms(1,2)] by auto
  have kept: "unbanked (?R d3) r = rst r" if "r \<in> {0x1B, 0x42}" for r
    unfolding d3_def by (rule setup_effect(5) [of rst eth, OF assms(1,2,4) that])
  let ?phy = "[(ENC28_MIREGADR, uint ENC28_PHCON2), (ENC28_MIWRL, ENC28_PHCON2_HDLDIS), (ENC28_MIWRH, ENC28_PHCON2_HDLDIS div 256)]"
  have "\<forall>(a, v) \<in> set ?phy. a AND 0x1F \<noteq> 0x1F" by (simp add: enc28_consts)
  note p = wr_all_effect [OF d3(1) assms(2) this, of bus]
  obtain d4 where d4: "enc28_wr_phy bus ENC28_PHCON2 ENC28_PHCON2_HDLDIS d3 = Some d4" "bank_ok eth rst pow d4"
    "unbanked (?R d4) = flat_writes ?phy (unbanked (?R d3))" "en_txptr d4 = en_txptr d3" "en_rxptr d4 = en_rxptr d3"
    using wait_phy_ends [OF p [THEN conjunct2, THEN conjunct1] assms(2,5)] p by (auto simp: enc28_wr_phy_def)
  define d5 where "d5 = enc28_set_bank bus ENC28_CON1 d4"
  have d5: "bank_ok eth rst pow d5" "unbanked (?R d5) = unbanked (?R d4)" "en_txptr d5 = en_txptr d4" "en_rxptr d5 = en_rxptr d4"
    unfolding d5_def using bank_ok_set [OF d4(2) assms(2)] unbanked_set [OF d4(2) assms(2)] set_bank_effect [OF d4(2) assms(2)] by auto
  define d6 where "d6 = snd (enc28_wr_op bus ENC28_CMD_BIT_FIELD_SET ENC28_IE (uint (ENC28_IE_INTIE OR ENC28_IE_PKTIE)) d5)"
  have "(0x80 OR ENC28_IE AND 0x1F) AND 0xE0 = (0x80 :: u8)" "chip_addr c ((0x80 OR ENC28_IE AND 0x1F) AND 0x1F) = 0x1B" for c
    by (simp_all add: enc28_consts chip_addr_def)
  note bfs = bfs_effect [OF d5(1) _ this]
  have d6: "bank_ok eth rst pow d6" "\<And>r. r \<noteq> 0x1B \<Longrightarrow> unbanked (?R d6) r = unbanked (?R d5) r" "en_txptr d6 = en_txptr d5" "en_rxptr d6 = en_rxptr d5"
    unfolding d6_def by (rule bfs(1), simp, rule bfs(2)) (simp_all only: wr_op_effect, simp_all)
  have ie: "unbanked (?R d6) 0x1B = unbanked (?R d5) 0x1B OR 0xC0"
    using assms(3) by (simp add: d6_def enc28_consts chip_cmd_def chip_addr_def unbanked_def)
  define d7 where "d7 = snd (enc28_wr_op bus ENC28_CMD_BIT_FIELD_SET ENC28_CON1 (uint ENC28_CON1_RXEN) d6)"
  have rx: "ENC28_CON1_RXEN AND 3 = 0" by (simp add: enc28_consts)
  have d7: "bank_ok eth rst pow d7" "\<And>r. r \<noteq> 0x1F \<Longrightarrow> unbanked (?R d7) r = unbanked (?R d6) r" "en_txptr d7 = en_txptr d6" "en_rxptr d7 = en_rxptr d6"
    unfolding d7_def by (rule con1_set_effect(1) [OF d6(1) assms(2) rx], rule con1_set_effect(3) [OF d6(1) assms(2) rx]) simp_all
  have con1: "unbanked (?R d7) 0x1F AND 4 = 4"
    using assms(2) by (simp add: d7_def enc28_consts chip_cmd_def chip_addr_def unbanked_def bit.conj_disj_distrib2 and.assoc)
  have mii: "map (unbanked (?R d7)) [0x54, 0x56, 0x57] = [0x10, 0x00, 0x01]"
    using d7(2) d6(2) d5(2) d4(3) by (simp add: flat_reg_def enc28_consts)
  have ie': "unbanked (?R d7) 0x1B = rst 0x1B OR 0xC0" "unbanked (?R d7) 0x42 = rst 0x42"
    using d7(2) d6(2) d5(2) d4(3) ie kept by (simp_all add: flat_reg_def enc28_consts)
  have ptrs: "enc28_init_pointers d7 = enc28_init_pointers d3" using d7(3,4) d6(3,4) d5(3,4) d4(4,5) by (simp add: enc28_init_pointers_def)
  have "unbanked (?R d7) (flat_reg a) = word_of_int v" if "(a, v) \<in> set (enc28_init_pointers d7 @ enc28_init_mac mac)" for a v
  proof -
    have "flat_reg a \<in> flat_reg ` fst ` set (enc28_init_pointers d7 @ enc28_init_mac mac)" using that by force
    with init_regs_distinct(2) [of d7 mac] have ne: "flat_reg a \<notin> {0x1B, 0x1F, 0x42, 0x54, 0x56, 0x57}" by blast
    moreover have "flat_reg ` fst ` set ?phy = {0x54, 0x56, 0x57}" by (simp add: enc28_consts flat_reg_def)
    ultimately have "unbanked (?R d7) (flat_reg a) = unbanked (?R d3) (flat_reg a)"
      using d7(2) d6(2) d5(2) d4(3) flat_writes_other [of "flat_reg a" ?phy "unbanked (?R d3)"] by simp
    also have "\<dots> = word_of_int v" using that unfolding ptrs by (rule d3(4))
    finally show ?thesis .
  qed
  moreover have "enc28_init bus mac d = Some (0, d7)"
    using d4(1) by (simp add: enc28_init_def enc28_setup_def Let_def d3_def d7_def d6_def d5_def)
  ultimately show ?thesis using d7 d6(3,4) d5(3,4) d4(4,5) d3(2,3) con1 mii ie' by auto
qed

section \<open>Sessions\<close>

text \<open>Transfers of buffer contents change no register, whatever the bytes are.\<close>

lemma chip_step_data: "chip_step eth rst (Spi_xfer SPI_F_NOINIT il ob) R = R" "chip_step eth rst (Spi_xfer f il None) R = R" "chip_step eth rst (Spi_xfer f il (Some [c])) R = R"
proof -
  show "chip_step eth rst (Spi_xfer SPI_F_NOINIT il ob) R = R"
  proof (cases ob)
    case (Some b)
    then show ?thesis by (cases b; cases "tl b") auto
  qed simp
qed simp_all

lemma buf_effect:
  "enc28_regs eth rst pow (snd (enc28_wr_buf bus buf d)) = enc28_regs eth rst pow d"
  "en_bank (snd (enc28_wr_buf bus buf d)) = en_bank d" "en_txptr (snd (enc28_wr_buf bus buf d)) = en_txptr d"
  "en_rxptr (snd (enc28_wr_buf bus buf d)) = en_rxptr d"
  "enc28_regs eth rst pow (snd (snd (enc28_rd_buf bus n d))) = enc28_regs eth rst pow d"
  "en_bank (snd (snd (enc28_rd_buf bus n d))) = en_bank d" "en_txptr (snd (snd (enc28_rd_buf bus n d))) = en_txptr d"
  "en_rxptr (snd (snd (enc28_rd_buf bus n d))) = en_rxptr d"
  by (simp_all add: enc28_wr_buf_def enc28_rd_buf_def spi_raw_write_def spi_raw_read_def spi_xfer_def enc28_regs_def chip_step_data Let_def
      case_prod_beta)

lemma bank_ok_cong:
  "enc28_regs eth rst pow d' = enc28_regs eth rst pow d \<Longrightarrow> en_bank d' = en_bank d \<Longrightarrow> bank_ok eth rst pow d' = bank_ok eth rst pow d"
  by (simp add: bank_ok_def)

text \<open>The registers that a session leaves alone; of \<open>CON1\<close> it is the bit that enables reception.\<close>

definition session_kept :: "u8 \<Rightarrow> bool" where
  "session_kept r \<longleftrightarrow> r \<notin> {0x00, 0x01, 0x02, 0x03, 0x06, 0x07, 0x0C, 0x0D, 0x1E, 0x1F}"

definition keeps_setup :: "(u8 \<Rightarrow> bool) \<Rightarrow> (u8 \<Rightarrow> u8) \<Rightarrow> (u8 \<Rightarrow> u8) \<Rightarrow> enc28_dev \<Rightarrow> enc28_dev \<Rightarrow> bool" where
  "keeps_setup eth rst pow d d' \<longleftrightarrow> bank_ok eth rst pow d' \<and> en_txptr d' = en_txptr d
     \<and> (\<forall>r. session_kept r \<longrightarrow> unbanked (enc28_regs eth rst pow d') r = unbanked (enc28_regs eth rst pow d) r)
     \<and> unbanked (enc28_regs eth rst pow d') 0x1F AND 4 = unbanked (enc28_regs eth rst pow d) 0x1F AND 4"

lemma keeps_setup_trans: "keeps_setup eth rst pow d d' \<Longrightarrow> keeps_setup eth rst pow d' d'' \<Longrightarrow> keeps_setup eth rst pow d d''"
  by (simp add: keeps_setup_def)

lemma keeps_setup_refl: "bank_ok eth rst pow d \<Longrightarrow> keeps_setup eth rst pow d d"
  by (simp add: keeps_setup_def)

lemma keeps_setup_wr_all:
  assumes "bank_ok eth rst pow d" "eth 0x1F" "\<forall>(a, v) \<in> set ws. a AND 0x1F \<noteq> 0x1F \<and> \<not> session_kept (flat_reg a)"
  shows "keeps_setup eth rst pow d (enc28_wr_all bus ws d)"
proof -
  have "\<forall>(a, v) \<in> set ws. a AND 0x1F \<noteq> 0x1F" using assms(3) by auto
  moreover have "r \<notin> flat_reg ` fst ` set ws" if "session_kept r" for r using assms(3) that by auto
  moreover have "0x1F \<notin> flat_reg ` fst ` set ws" using assms(3) flat_reg_common by force
  ultimately show ?thesis using wr_all_effect [OF assms(1,2), of ws bus] by (auto simp: keeps_setup_def flat_writes_other)
qed

lemma keeps_setup_rd: "bank_ok eth rst pow d \<Longrightarrow> eth 0x1F \<Longrightarrow> keeps_setup eth rst pow d (snd (enc28_rd bus addr d))"
  using rd_effect [of eth rst pow d bus addr] by (simp add: keeps_setup_def)

lemma keeps_setup_con1:
  assumes "bank_ok eth rst pow d" "eth 0x1F" "v AND 3 = (0 :: u8)" "v AND 4 = 0"
  shows "keeps_setup eth rst pow d (snd (enc28_wr_op bus ENC28_CMD_BIT_FIELD_SET ENC28_CON1 (uint v) d))"
    "keeps_setup eth rst pow d (snd (enc28_wr_op bus ENC28_CMD_BIT_FIELD_CLR ENC28_CON1 (uint v) d))"
proof -
  from assms(4) have "bit (v AND 4) 2 = bit (0 :: u8) 2" by simp
  then have b: "\<not> bit v 2" by (simp add: bit_and_iff)
  have m: "((x OR v) AND - 4) AND 4 = (x AND - 4) AND (4 :: u8)" "((x AND NOT v) AND - 4) AND 4 = (x AND - 4) AND (4 :: u8)" for x
    by (rule bit_word_eqI, unfold len8, drule bit_position, (elim disjE; simp add: bit_simps b))+
  have "unbanked (enc28_regs eth rst pow (snd (enc28_wr_op bus ENC28_CMD_BIT_FIELD_SET ENC28_CON1 (uint v) d))) 0x1F AND 4 = unbanked (enc28_regs eth rst pow d) 0x1F AND 4"
    "unbanked (enc28_regs eth rst pow (snd (enc28_wr_op bus ENC28_CMD_BIT_FIELD_CLR ENC28_CON1 (uint v) d))) 0x1F AND 4 = unbanked (enc28_regs eth rst pow d) 0x1F AND 4"
    using assms(2) m by (simp_all add: enc28_consts chip_cmd_def chip_addr_def unbanked_def)
  then show "keeps_setup eth rst pow d (snd (enc28_wr_op bus ENC28_CMD_BIT_FIELD_SET ENC28_CON1 (uint v) d))"
    "keeps_setup eth rst pow d (snd (enc28_wr_op bus ENC28_CMD_BIT_FIELD_CLR ENC28_CON1 (uint v) d))"
    unfolding keeps_setup_def using con1_set_effect [OF assms(1-3)] by (auto simp: session_kept_def simp del: wr_op_effect(1))
qed

lemma keeps_setup_regs:
  "bank_ok eth rst pow d \<Longrightarrow> enc28_regs eth rst pow d' = enc28_regs eth rst pow d \<Longrightarrow> en_bank d' = en_bank d \<Longrightarrow> en_txptr d' = en_txptr d
   \<Longrightarrow> keeps_setup eth rst pow d d'"
  by (simp add: keeps_setup_def bank_ok_def)

lemma keeps_setupD: "keeps_setup eth rst pow d d' \<Longrightarrow> bank_ok eth rst pow d'"
  by (simp add: keeps_setup_def)

lemma send_keeps_setup:
  assumes "bank_ok eth rst pow d" "eth 0x1F"
  shows "keeps_setup eth rst pow d (snd (enc28_send bus packet d))"
proof -
  let ?K = "keeps_setup eth rst pow" and ?len = "int (length packet)"
  define d1 where "d1 = enc28_wr_all bus [(ENC28_WRPTL, uint (en_txptr d)), (ENC28_WRPTH, uint (en_txptr d) div 256),
                (ENC28_TXNDL, uint (en_txptr d) + ?len), (ENC28_TXNDH, (uint (en_txptr d) + ?len) div 256)] d"
  define d2 where "d2 = snd (enc28_wr_op bus ENC28_CMD_WRITE_BUF_MEM 0 0 d1)"
  define d3 where "d3 = snd (enc28_wr_buf bus packet d2)"
  define d4 where "d4 = snd (enc28_wr_op bus ENC28_CMD_BIT_FIELD_SET ENC28_CON1 (uint ENC28_CON1_TXRTS) d3)"
  define d5 where "d5 = snd (enc28_rd bus ENC28_IR d4)"
  define d6 where "d6 = snd (enc28_wr_op bus ENC28_CMD_BIT_FIELD_CLR ENC28_CON1 (uint ENC28_CON1_TXRTS) d5)"
  have rts: "ENC28_CON1_TXRTS AND 3 = 0" "ENC28_CON1_TXRTS AND 4 = 0" by (simp_all add: enc28_consts)
  have k1: "?K d d1" unfolding d1_def using assms by (rule keeps_setup_wr_all) (simp add: enc28_consts session_kept_def flat_reg_def)
  have k2: "?K d1 d2" unfolding d2_def using keeps_setupD [OF k1] by (intro keeps_setup_regs) (simp_all add: enc28_consts chip_cmd_def)
  have k3: "?K d2 d3" unfolding d3_def using keeps_setupD [OF k2] by (intro keeps_setup_regs) (simp_all add: buf_effect)
  have k4: "?K d3 d4" unfolding d4_def by (rule keeps_setup_con1 [OF keeps_setupD [OF k3] assms(2) rts])
  have k5: "?K d4 d5" unfolding d5_def by (rule keeps_setup_rd [OF keeps_setupD [OF k4] assms(2)])
  have k6: "?K d5 d6" unfolding d6_def by (rule keeps_setup_con1 [OF keeps_setupD [OF k5] assms(2) rts])
  note k = keeps_setup_trans
  have k15: "?K d d5" by (rule k [OF k1 k [OF k2 k [OF k3 k [OF k4 k5]]]])
  moreover have "snd (enc28_send bus packet d) \<in> {d5, d6}"
    by (simp add: enc28_send_def Let_def d1_def d2_def d3_def d4_def d5_def d6_def case_prod_beta)
  ultimately show ?thesis using k [OF k15 k6] by auto
qed

lemma recv_keeps_setup:
  assumes "bank_ok eth rst pow d" "eth 0x1F"
  shows "keeps_setup eth rst pow d (snd (snd (enc28_recv bus junk maxlen d)))"
proof -
  let ?K = "keeps_setup eth rst pow"
  define d1 where "d1 = snd (enc28_rd bus ENC28_PKTCNT d)"
  define d2 where "d2 = enc28_wr_all bus [(ENC28_RDPTL, uint (en_rxptr d1)), (ENC28_RDPTH, uint (en_rxptr d1) div 256)] d1"
  define st where "st = copy_at junk 0 (take 6 (fst (snd (enc28_rd_buf bus 6 d2))))"
  define nxt where "nxt = uint (st ! 0) OR (uint (st ! 1) * 65536)"
  define len where "len = (uint (st ! 2) OR (uint (st ! 3) * 65536)) - 4"
  define d3 where "d3 = (snd (snd (enc28_rd_buf bus 6 d2)))\<lparr>en_rxptr := word_of_int nxt\<rparr>"
  define d4 where "d4 = snd (snd (enc28_rd_buf bus (nat (if len > maxlen then maxlen else len)) d3))"
  define d5 where "d5 = enc28_wr_all bus [(ENC28_RXRDPTL, nxt), (ENC28_RXRDPTH, nxt div 256)] d4"
  define d6 where "d6 = snd (enc28_wr_op bus ENC28_CMD_BIT_FIELD_SET ENC28_CON2 (uint ENC28_CON2_PKTDEC) d5)"
  have k1: "?K d d1" unfolding d1_def using assms by (rule keeps_setup_rd)
  have k2: "?K d1 d2" unfolding d2_def using keeps_setupD [OF k1] assms(2)
    by (rule keeps_setup_wr_all) (simp add: enc28_consts session_kept_def flat_reg_def)
  have "enc28_regs eth rst pow d3 = enc28_regs eth rst pow d2" using buf_effect(5) [of eth rst pow bus 6 d2] by (simp add: d3_def enc28_regs_def)
  then have k3: "?K d2 d3" using keeps_setupD [OF k2] by (rule_tac keeps_setup_regs) (simp_all add: d3_def buf_effect)
  have k4: "?K d3 d4" unfolding d4_def using keeps_setupD [OF k3] by (intro keeps_setup_regs) (simp_all add: buf_effect)
  have k5: "?K d4 d5" unfolding d5_def using keeps_setupD [OF k4] assms(2)
    by (rule keeps_setup_wr_all) (simp add: enc28_consts session_kept_def flat_reg_def)
  have "(0x80 OR ENC28_CON2 AND 0x1F) AND 0xE0 = (0x80 :: u8)" "chip_addr c ((0x80 OR ENC28_CON2 AND 0x1F) AND 0x1F) = 0x1E" for c
    by (simp_all add: enc28_consts chip_addr_def)
  note bfs = bfs_effect [OF keeps_setupD [OF k5] _ this]
  have k6: "?K d5 d6" unfolding keeps_setup_def d6_def
    using bfs(1) bfs(2) by (auto simp: session_kept_def simp del: wr_op_effect(1))
  note k = keeps_setup_trans
  have k13: "?K d d3" by (rule k [OF k1 k [OF k2 k3]])
  have k16: "?K d d6" by (rule k [OF k13 k [OF k4 k [OF k5 k6]]])
  have "snd (snd (enc28_recv bus junk maxlen d)) \<in> {d1, d3, d6}"
    by (simp add: enc28_recv_def Let_def d1_def d2_def d3_def d4_def d5_def d6_def st_def nxt_def len_def case_prod_beta)
  then show ?thesis using k1 k13 k16 by auto
qed

text \<open>The calls of the public interface, in any order.\<close>

datatype enc28_call = Enc28_send "u8 list" | Enc28_recv "u8 list" int | Enc28_get_rev

fun enc28_do :: "spi_bus \<Rightarrow> enc28_call \<Rightarrow> enc28_dev \<Rightarrow> enc28_dev" where
  "enc28_do bus (Enc28_send packet) d = snd (enc28_send bus packet d)"
| "enc28_do bus (Enc28_recv junk maxlen) d = snd (snd (enc28_recv bus junk maxlen d))"
| "enc28_do bus Enc28_get_rev d = snd (enc28_get_rev bus d)"

lemma do_keeps_setup: "bank_ok eth rst pow d \<Longrightarrow> eth 0x1F \<Longrightarrow> keeps_setup eth rst pow d (enc28_do bus c d)"
  by (cases c) (simp_all add: send_keeps_setup recv_keeps_setup keeps_setup_rd enc28_get_rev_def)

lemma session_keeps_setup:
  "bank_ok eth rst pow d \<Longrightarrow> eth 0x1F \<Longrightarrow> keeps_setup eth rst pow d (fold (enc28_do bus) calls d)"
proof (induction calls arbitrary: d)
  case (Cons c calls)
  have k: "keeps_setup eth rst pow d (enc28_do bus c d)" using Cons.prems by (rule do_keeps_setup)
  from keeps_setup_trans [OF k Cons.IH [OF keeps_setupD [OF k] Cons.prems(2)]] show ?case by simp
qed (simp add: keeps_setup_refl)

lemma session_regs:
  assumes "keeps_setup eth rst pow d d'" "unbanked (enc28_regs eth rst pow d) r = v" "session_kept r"
  shows "enc28_regs eth rst pow d' r = v"
proof -
  have "r \<noteq> 0x1F" using assms(3) by (auto simp: session_kept_def)
  moreover have "unbanked (enc28_regs eth rst pow d') r = v" using assms by (simp add: keeps_setup_def)
  ultimately show ?thesis by (simp add: unbanked_def)
qed

text \<open>
  The set-up: reception from 0 to 0x19ff and transmission from 0x1a00; the filter; MAC control, gaps and the longest frame of 1518 bytes; the Ethernet address in its reversed
  order; and the number and value, low and high byte, of the register of the physical layer that is written last.
\<close>

definition enc28_values :: "u8 list \<Rightarrow> (u8 \<times> u8) list" where
  "enc28_values mac =
     [(ENC28_RXSTL, 0x00), (ENC28_RXSTH, 0x00), (ENC28_RXNDL, 0xff), (ENC28_RXNDH, 0x19), (ENC28_TXSTL, 0x00), (ENC28_TXSTH, 0x1a), (ENC28_RXFCON, 0x83),
      (ENC28_MACON1, 0x0d), (ENC28_MACON2, 0x00), (ENC28_MAIPGL, 0x12), (ENC28_MAIPGH, 0x0c), (ENC28_MABBIPG, 0x12), (ENC28_MAMXFLL, 0xee), (ENC28_MAMXFLH, 0x05),
      (ENC28_MAADR5, mac ! 0), (ENC28_MAADR4, mac ! 1), (ENC28_MAADR3, mac ! 2), (ENC28_MAADR2, mac ! 3), (ENC28_MAADR1, mac ! 4), (ENC28_MAADR0, mac ! 5),
      (ENC28_MIREGADR, 0x10), (ENC28_MIWRL, 0x00), (ENC28_MIWRH, 0x01)]"

lemma session_values:
  assumes "keeps_setup eth rst pow d0 d'" "en_rxptr d0 = 0" "en_txptr d0 = 0x1a00"
    and "\<forall>(a, v) \<in> set (enc28_init_pointers d0 @ enc28_init_mac mac). unbanked (enc28_regs eth rst pow d0) (flat_reg a) = word_of_int v"
    and "map (unbanked (enc28_regs eth rst pow d0)) [0x54, 0x56, 0x57, 0x1B, 0x42] = [0x10, 0x00, 0x01, x, y]"
  shows "list_all (\<lambda>(a, v). enc28_regs eth rst pow d' (flat_reg a) = v) (enc28_values mac)"
    "enc28_regs eth rst pow d' 0x1B = x" "enc28_regs eth rst pow d' 0x42 = y"
proof -
  let ?R = "enc28_regs eth rst pow"
  have "?R d' (flat_reg a) = word_of_int v" if "(a, v) \<in> set (enc28_init_pointers d0 @ enc28_init_mac mac)" "session_kept (flat_reg a)" for a v
    using session_regs [OF assms(1) _ that(2)] assms(4) that(1) by blast
  then have "list_all (\<lambda>(a, v). ?R d' (flat_reg a) = word_of_int v)
      (filter (\<lambda>(a, v). session_kept (flat_reg a)) (enc28_init_pointers d0 @ enc28_init_mac mac))"
    by (auto simp: list_all_iff)
  moreover have m: "?R d' 0x54 = 0x10" "?R d' 0x56 = 0x00" "?R d' 0x57 = 0x01" "?R d' 0x1B = x" "?R d' 0x42 = y"
    using assms(5) session_regs [OF assms(1)] by (simp_all add: session_kept_def)
  ultimately show "list_all (\<lambda>(a, v). ?R d' (flat_reg a) = v) (enc28_values mac)"
    by (simp add: enc28_values_def enc28_init_pointers_def enc28_init_mac_def session_kept_def flat_reg_def enc28_consts assms(2,3))
  show "?R d' 0x1B = x" "?R d' 0x42 = y" by (fact m)+
qed

text \<open>
  C34. The initialisation of the Ethernet controller comes to an end once the physical layer is ready, and leaves the values of \<open>enc28_values\<close> in their registers, although the
  registers are in four banks that are switched on the way, the two interrupts and the reception enabled, and the two pointers that move later at their start. The padding and
  checksum bits of \<open>MACON3\<close> are lost: they are sent as a bit field, which the controller takes for Ethernet registers only, and \<open>MACON3\<close> is a MAC register. Any sequence of
  later calls keeps all this but the two pointers, and the driver always knows the selected bank.
\<close>
theorem enc28_session:
  assumes "rst 0x1F AND 3 = 0" "eth 0x1F" "eth 0x1B" "\<not> eth 0x42" "phy_ready N bus"
  shows "\<exists>d0. enc28_init bus mac d = Some (0, d0)
    \<and> map (enc28_regs eth rst pow d0 \<circ> flat_reg) [ENC28_RXRDPTL, ENC28_RXRDPTH, ENC28_TXNDL, ENC28_TXNDH] = [0, 0, 0xff, 0x1f]
    \<and> (\<forall>calls. let d' = fold (enc28_do bus) calls d0; R = enc28_regs eth rst pow d' in
      bank_ok eth rst pow d' \<and> en_txptr d' = 0x1a00 \<and> list_all (\<lambda>(a, v). R (flat_reg a) = v) (enc28_values mac)
      \<and> R 0x1B = rst 0x1B OR 0xC0 \<and> bit (R 0x1F) 2 \<and> R 0x42 = rst 0x42)"
proof -
  let ?R = "enc28_regs eth rst pow"
  from init_effect [of rst eth N bus mac d pow, OF assms(1-5)] obtain d0 where
    i: "enc28_init bus mac d = Some (0, d0)" "bank_ok eth rst pow d0" "en_rxptr d0 = 0" "en_txptr d0 = 0x1a00"
    and v: "\<forall>(a, v) \<in> set (enc28_init_pointers d0 @ enc28_init_mac mac). unbanked (?R d0) (flat_reg a) = word_of_int v"
    and m: "map (unbanked (?R d0)) [0x54, 0x56, 0x57, 0x1B, 0x42] = [0x10, 0x00, 0x01, rst 0x1B OR 0xC0, rst 0x42]"
    and c: "unbanked (?R d0) 0x1F AND 4 = 4" by (elim exE conjE) (rule that, assumption+)
  have sess: "let d' = fold (enc28_do bus) calls d0 in bank_ok eth rst pow d' \<and> en_txptr d' = 0x1a00
    \<and> list_all (\<lambda>(a, v). ?R d' (flat_reg a) = v) (enc28_values mac) \<and> ?R d' 0x1B = rst 0x1B OR 0xC0 \<and> bit (?R d' 0x1F) 2 \<and> ?R d' 0x42 = rst 0x42" for calls
  proof -
    define d' where "d' = fold (enc28_do bus) calls d0"
    have k: "keeps_setup eth rst pow d0 d'" unfolding d'_def by (rule session_keeps_setup [OF i(2) assms(2)])
    then have "(?R d' 0x1F AND - 4) AND 4 = 4" using c by (simp add: keeps_setup_def unbanked_def)
    then have "bit ((?R d' 0x1F AND - 4) AND 4) 2" by simp
    then have "bit (?R d' 0x1F) 2" by (simp add: bit_and_iff)
    with session_values [OF k i(3,4) v m] k i(4) show ?thesis by (simp add: keeps_setup_def flip: d'_def)
  qed
  have ptrs: "map (?R d0 \<circ> flat_reg) [ENC28_RXRDPTL, ENC28_RXRDPTH, ENC28_TXNDL, ENC28_TXNDH] = [0, 0, 0xff, 0x1f]"
    using v i(3,4) by (simp add: enc28_init_pointers_def unbanked_def flat_reg_def enc28_consts)
  show ?thesis unfolding Let_def by (rule exI [of _ d0], rule conjI [OF i(1)], rule conjI [OF ptrs], rule allI, rule sess [unfolded Let_def])
qed

text \<open>
  Receiving loses the high byte of the pointer to the next packet, which is shifted by 16 bits instead of 8: after any packet the read pointer is below 256,
  while the receive memory reaches up to 0x19ff.
\<close>
theorem enc28_recv_pointer_low:
  assumes "fst (enc28_rd bus ENC28_PKTCNT d) \<noteq> 0"
  shows "en_rxptr (snd (snd (enc28_recv bus junk maxlen d))) < 256"
proof -
  have low: "word_of_int (uint (a :: u8) OR (uint (b :: u8) * 65536)) < (256 :: u16)" for a b
  proof -
    have "uint b * 65536 = push_bit 16 (uint b)" by (simp add: push_bit_eq_mult)
    then have "word_of_int (uint a OR (uint b * 65536)) = (ucast a :: u16)" by (auto intro!: bit_word_eqI simp: bit_simps)
    also have "\<dots> < 256"
    proof -
      have "unat a < 256" using unsigned_less [of a, where 'a = nat] by simp
      then show ?thesis by (simp add: word_less_nat_alt unsigned_ucast_eq take_bit_nat_eq_self)
    qed
    finally show ?thesis .
  qed
  have "en_rxptr (enc28_wr bus a v e) = en_rxptr e" for a v e by (simp add: enc28_wr_def enc28_set_bank_def Let_def)
  then show ?thesis using assms low by (simp add: enc28_recv_def Let_def case_prod_beta buf_effect)
qed

text \<open>A bus whose answers are all zero but for the packet counter, with a controller that is reset to zero.\<close>

definition ex_spi_bus :: spi_bus where
  "ex_spi_bus log = (0, case log of Spi_xfer _ (Some n) (Some (c # _)) # _ \<Rightarrow> replicate n (if c = 0x19 then 1 else 0) | _ \<Rightarrow> replicate 6 0x80)"

definition ex_enc28 :: enc28_dev where
  "ex_enc28 = \<lparr>en_bank = 0, en_txptr = 0, en_rxptr = 0, en_log = []\<rparr>"

lemma ex_phy_ready: "phy_ready 0 ex_spi_bus"
  by (simp add: phy_ready_def ex_spi_bus_def numeral_3_eq_3)

text \<open>The Ethernet registers: the common ones and those of the banks 0 and 1.\<close>

definition ex_eth :: "u8 \<Rightarrow> bool" where
  "ex_eth r \<longleftrightarrow> r < 0x40"

theorem enc28_session_witness:
  "\<exists>d0. enc28_init ex_spi_bus [2, 0x33, 0x44, 0x55, 0x66, 0x77] ex_enc28 = Some (0, d0)
    \<and> list_all (\<lambda>(a, v). enc28_regs ex_eth (\<lambda>_. 0) (\<lambda>_. 0) (enc28_do ex_spi_bus (Enc28_send [1, 2, 3]) d0) (flat_reg a) = v) (enc28_values [2, 0x33, 0x44, 0x55, 0x66, 0x77])"
proof -
  have e: "ex_eth 0x1F" "ex_eth 0x1B" "\<not> ex_eth 0x42" by (simp_all add: ex_eth_def)
  from enc28_session [of "\<lambda>_. 0" ex_eth, OF _ e ex_phy_ready, of "[2, 0x33, 0x44, 0x55, 0x66, 0x77]" ex_enc28 "\<lambda>_. 0"]
  obtain d0 where d0: "enc28_init ex_spi_bus [2, 0x33, 0x44, 0x55, 0x66, 0x77] ex_enc28 = Some (0, d0)"
    and all: "\<forall>calls. let d' = fold (enc28_do ex_spi_bus) calls d0; R = enc28_regs ex_eth (\<lambda>_. 0) (\<lambda>_. 0) d' in
      bank_ok ex_eth (\<lambda>_. 0) (\<lambda>_. 0) d' \<and> en_txptr d' = 0x1a00 \<and> list_all (\<lambda>(a, v). R (flat_reg a) = v) (enc28_values [2, 0x33, 0x44, 0x55, 0x66, 0x77])
      \<and> R 0x1B = 0 OR 0xC0 \<and> bit (R 0x1F) 2 \<and> R 0x42 = 0" by auto
  from spec [OF all, of "[Enc28_send [1, 2, 3]]"] d0 show ?thesis by (simp add: Let_def)
qed

theorem enc28_recv_pointer_low_witness:
  "en_rxptr (snd (snd (enc28_recv ex_spi_bus [0, 0, 0, 0, 0, 0] 50 ex_enc28))) < 256"
proof -
  have "fst (enc28_rd ex_spi_bus ENC28_PKTCNT ex_enc28) \<noteq> 0"
    by (simp add: enc28_rd_def enc28_rd_op_def spi_xfer_def enc28_consts ex_spi_bus_def copy_at_def numeral_2_eq_2 Let_def case_prod_beta)
  then show ?thesis by (rule enc28_recv_pointer_low)
qed

end
