(* ===== verification/Spec2Isabelle.thy ===== *)
theory Spec2Isabelle
  imports AllocatorRun CircBuf EventIrq TimerProps Strings PipeProps Dev BufferQueue StateMachine
    McuioProps GpioProps I2cProps McuioFuncs W1Line PpPrintfProps KernelList ShellProps LininoioProps
    UsbProps UsbCdcAcm UsbUartProps UnixPipe UartsProps AsyncEthProps RadioBridge Udelay AtmegaSpi AtmegaPwm UartMuxYun Enc28j60
begin

text \<open>
  A verification library for BATHOS, an event-driven operating system for microcontrollers, and for
  the MCUIO functions it runs. File names below are relative to \<^verbatim>\<open>src/\<close>.

  \<^bold>\<open>The program.\<close> BATHOS has no threads. Interrupts and drivers put events into a ring
  (\<^verbatim>\<open>lib/event.c\<close>); the main loop (\<^verbatim>\<open>main.c\<close>) serves pending interrupts and then the events that were in the
  ring. Memory for timers, pipes and buffer queues comes from a buddy allocator
  (\<^verbatim>\<open>lib/allocator.c\<close>). The system timer (\<^verbatim>\<open>sys_timer.c\<close>) turns clock ticks into events, on which the
  periodic scheduler releases tasks. Pipes (\<^verbatim>\<open>lib/pipe.c\<close>) connect tasks to devices
  (\<^verbatim>\<open>drivers/dev.c\<close>). The MCUIO task (\<^verbatim>\<open>mcuio/task-mcuio.c\<close>) reads 16-byte packets from a pipe and serves
  the registers of a table of functions: pins, I2C, converters, interrupts. Beside it stand a shell
  (\<^verbatim>\<open>lib/shell.c\<close>), formatted output (\<^verbatim>\<open>pp_printf\<close>), a 1-wire master (\<^verbatim>\<open>drivers/w1.c\<close>), a USB device stack
  (\<^verbatim>\<open>drivers/usb-device-controller.c\<close>), the Lininoio task (\<^verbatim>\<open>lininoio/core.c\<close>) and drivers of single chips:
  a radio bridge, an Ethernet controller, the SPI and PWM units of the ATmega.

  \<^bold>\<open>Theories and sources.\<close>
  \<^item> \<open>Prelude\<close>: widths, error numbers, masks, block copies, signed differences.
  \<^item> \<open>Bitops\<close>: \<^verbatim>\<open>include/bathos/bitops.h\<close>, \<^verbatim>\<open>ffs.h\<close>, \<^verbatim>\<open>ffz.h\<close> on arrays of 32-bit words; the locale
    \<open>bit_array\<close> and its interpretation.
  \<^item> \<open>CircBuf\<close>, \<open>Fifo\<close>: \<^verbatim>\<open>include/bathos/circ_buf.h\<close>, the list a ring stands for, and the locale
    \<open>bounded_fifo\<close>, interpreted by the event queue (\<open>EventProps\<close>) and by the receive ring (\<open>Dev\<close>).
  \<^item> \<open>AllocTables\<close>, \<open>Allocator\<close>, \<open>AllocatorProps\<close>, \<open>AllocatorRun\<close>: \<^verbatim>\<open>lib/allocator.c\<close> with the tables of
    \<^verbatim>\<open>scripts/allocator_aux_gen.c\<close>; a step relation of clients that allocate and free. \<open>BufferPool\<close> states
    what a client with one buffer size relies on, as locales.
  \<^item> \<open>Irq\<close>, \<open>Events\<close>, \<open>EventProps\<close>, \<open>EventIrq\<close>: \<^verbatim>\<open>lib/irq.c\<close>, \<^verbatim>\<open>lib/event.c\<close>, \<^verbatim>\<open>main.c\<close>.
  \<^item> \<open>Timer\<close>, \<open>TimerProps\<close>: \<^verbatim>\<open>include/bathos/jiffies.h\<close>, \<^verbatim>\<open>sys_timer.c\<close>, \<^verbatim>\<open>periodic_scheduler.c\<close>.
  \<^item> \<open>Strings\<close>: \<^verbatim>\<open>lib/string.c\<close>, \<^verbatim>\<open>lib/ctype.c\<close>, \<^verbatim>\<open>lib/stdlib.c\<close>.
  \<^item> \<open>Pipe\<close>, \<open>PipeProps\<close>, \<open>Dev\<close>: \<^verbatim>\<open>lib/pipe.c\<close>, \<^verbatim>\<open>include/bathos/pipe.h\<close>, \<^verbatim>\<open>drivers/dev.c\<close>, parts of
    \<^verbatim>\<open>lib/stdio.c\<close>.
  \<^item> \<open>BufferQueue\<close>: \<^verbatim>\<open>include/bathos/buffer.h\<close>, \<^verbatim>\<open>lib/buffer_queue.c\<close>, \<^verbatim>\<open>lib/buffer_queue_server.c\<close>.
  \<^item> \<open>StateMachine\<close>: \<^verbatim>\<open>lib/statemachine.c\<close>, \<^verbatim>\<open>lib/setup.c\<close>.
  \<^item> \<open>McuioPacket\<close>, \<open>Mcuio\<close>, \<open>McuioProps\<close>: \<^verbatim>\<open>include/tasks/mcuio.h\<close>, \<^verbatim>\<open>mcuio/mcuio-function.h\<close>,
    \<^verbatim>\<open>mcuio/task-mcuio.c\<close>, the zero and shield functions.
  \<^item> \<open>AtmegaGpio\<close>, \<open>McuioGpio\<close>, \<open>GpioProps\<close>: the pins of the ATmega32u4 (\<^verbatim>\<open>arch-atmega/gpio.c\<close>,
    \<^verbatim>\<open>arch-atmega/arch/gpio.h\<close>, \<^verbatim>\<open>include/bathos/gpio.h\<close>) and \<^verbatim>\<open>mcuio/mcuio_gpio_func.c\<close>.
  \<^item> \<open>McuioI2c\<close>, \<open>I2cProps\<close>: \<^verbatim>\<open>mcuio/mcuio_bitbang_i2c_func.c\<close>.
  \<^item> \<open>McuioFuncs\<close>: the ADC, PWM, interrupt test and interrupt controller functions.
  \<^item> \<open>W1\<close>, \<open>W1Props\<close>, \<open>W1Line\<close>: \<^verbatim>\<open>drivers/w1.c\<close>, \<^verbatim>\<open>w1-gpio.c\<close>, \<^verbatim>\<open>w1-temp.c\<close>, \<^verbatim>\<open>w1-eeprom.c\<close>; the locale
    \<open>onewire_bus\<close>, interpreted by the pin operations on a model of the line.
  \<^item> \<open>PpPrintf\<close>, \<open>PpPrintfProps\<close>: \<^verbatim>\<open>pp_printf\<close> with its three formatters.
  \<^item> \<open>KernelList\<close>: \<^verbatim>\<open>include/linux/list.h\<close> on a heap of nodes.
  \<^item> \<open>Shell\<close>, \<open>ShellProps\<close>: \<^verbatim>\<open>lib/shell.c\<close>, \<^verbatim>\<open>lib/cmdline.c\<close>.
  \<^item> \<open>Lininoio\<close>, \<open>LininoioProps\<close>: \<^verbatim>\<open>lininoio/core.c\<close>, \<^verbatim>\<open>drivers/lininoio-dev.c\<close> and the asynchronous part of
    \<^verbatim>\<open>lib/pipe.c\<close>, on the model of the buffer queues.
  \<^item> \<open>UsbDevice\<close>, \<open>UsbFreescale\<close>, \<open>UsbProps\<close>, \<open>UsbCdcAcm\<close>: \<^verbatim>\<open>drivers/usb-device-controller.c\<close>,
    \<^verbatim>\<open>usb-device-ep.c\<close>, \<^verbatim>\<open>usb-device-freescale.c\<close>, \<^verbatim>\<open>usb-cdc-acm.c\<close> and their headers; the locale
    \<open>usb_transmitter\<close>, interpreted by the Freescale driver with a model of its hardware.
  \<^item> \<open>UsbUart\<close>, \<open>UsbUartProps\<close>: the USB serial line of the ATmega32u4, \<^verbatim>\<open>arch-atmega/usb-uart.c\<close>; the locale \<open>control_endpoint\<close>,
    interpreted by a model of the controller.
  \<^item> \<open>UnixPipe\<close>: \<^verbatim>\<open>arch-unix/pipe.c\<close> and \<^verbatim>\<open>arch-unix/idle.c\<close>, composed with \<^verbatim>\<open>lib/pipe.c\<close>; a step relation of pipes that are
    opened and closed while their events are handled.
  \<^item> \<open>Uarts\<close>, \<open>UartsProps\<close>: the serial lines of six chips, \<^verbatim>\<open>drivers/pl011-uart.c\<close>, \<^verbatim>\<open>freescale-uart.c\<close>, \<^verbatim>\<open>stm32f4x-uart.c\<close>,
    \<^verbatim>\<open>nrf5x-uart.c\<close>, \<^verbatim>\<open>esp8266-uart.c\<close> and \<^verbatim>\<open>arch-atmega/uart.c\<close>, under \<^verbatim>\<open>drivers/dev.c\<close>; the locale \<open>uart_line\<close>, interpreted by four of
    the drivers with models of their chips.
  \<^item> \<open>AsyncEth\<close>, \<open>AsyncEthProps\<close>: the network drivers \<^verbatim>\<open>drivers/unix-eth.c\<close> and \<^verbatim>\<open>drivers/esp8266-wlan.c\<close>, which serve a buffer queue; the locale \<open>net_driver\<close>,
    interpreted by both.
  \<^item> \<open>RadioBridge\<close>: \<^verbatim>\<open>drivers/radio-bridge-master.c\<close> and \<^verbatim>\<open>radio-bridge-slave.c\<close>.
  \<^item> \<open>Udelay\<close>: the calibrated delay loop of \<^verbatim>\<open>lib/udelay.c\<close>, with the clock and the loop as parameters.
  \<^item> \<open>AtmegaSpi\<close>: the SPI slave of \<^verbatim>\<open>arch-atmega/spi.c\<close>; its receive ring interprets \<open>bounded_fifo\<close>.
  \<^item> \<open>AtmegaPwm\<close>: the outputs and timers of \<^verbatim>\<open>arch-atmega/pwm.c\<close>. \<open>UartMuxYun\<close>: the console multiplexer
    \<^verbatim>\<open>arch-atmega/uart-mux-yun.c\<close>.
  \<^item> \<open>Enc28j60\<close>: \<^verbatim>\<open>drivers/enc28j60.c\<close> over an SPI bus that is a parameter.

  \<^bold>\<open>State and operations.\<close> A C structure is a record with the same fields, an operation a function that
  takes the state and returns its result with the new state. The event system \<open>evsys\<close> carries the rest
  of the system in its field \<open>ev_world\<close>, so a component that triggers events is a function on
  \<open>evsys\<close> with its own record as the world: timers, pipes (whose world again has a lower layer for the
  device or task), buffer queues, pins, I2C. Handlers are functions on the whole state. Pointers are
  offsets in the memory the allocator manages, indices, or names of static objects where events share
  them; \<^verbatim>\<open>NULL\<close> is \<open>None\<close>. Lists of the kernel kind are lists, which \<open>KernelList\<close> justifies. Words are 8, 16 or 32 bits wide and wrap;
  \<^verbatim>\<open>int\<close>s that cannot overflow are \<open>int\<close>; the accumulator of \<^verbatim>\<open>atol\<close>, which can, is taken to wrap around. Functions of the platform (interrupt controllers, converters,
  wires, \<^verbatim>\<open>printf\<close>), and the tables the linker builds, are parameters.

  \<^bold>\<open>Partiality.\<close> Where the C code may leave its defined behaviour (a null pointer, an index outside an
  array, a negative shift) or never return, the model returns \<open>None\<close>; loops without a bound are
  \<open>partial_function (option)\<close>, all others are total, and no operation of the code uses fuel; the host that reads
  an endpoint in \<open>UsbProps\<close> sends a number of tokens, and its theorems say how many are enough. The theorems that a loop ends
  (\<open>handle_interrupt_events_serves\<close>, \<open>i2c_transaction_rests\<close>) say so by an existing result.
  Widths are those of a 32-bit machine, except for the pin layer, which is that of the ATmega32u4.

  \<^bold>\<open>What is shown.\<close>
  \<^item> Allocator: no two live buffers overlap, requests get the best fit, freeing restores the memory,
    the word-wise search is a minimum search.
  \<^item> Events: the ring is a bounded queue, also when an interrupt triggers events inside a trigger; a
    round serves exactly the queued events in order; with at most 32 interrupts each pending one has its own handlers run once,
    lowest number first, and its flag cleared and its line unmasked after them.
  \<^item> Timer: the delta list stays sorted by deadline, fired entries are freed, all periodic tasks are
    scheduled.
  \<^item> C library, pipes, devices, buffer queues, state machines: equivalence of \<^verbatim>\<open>memcpy\<close> with a bytewise
    copy, meaning of \<^verbatim>\<open>strcmp\<close> and \<^verbatim>\<open>atol\<close>, broadcast of pipe events, round trip through the receive
    ring, conservation and single release of buffers, fidelity to the transition table.
  \<^item> MCUIO: frames are reassembled from any chunks (the layout of a packet in its 16 bytes is that of the structure, \<open>packet_roundtrip\<close>), registers
    read back what was written, plain writes of up to 8 bytes stay in their range, port writes set the addressed pins,
    sampling reports the requested edges, I2C transactions come to rest and bytes go over the wires
    highest bit first, one clock pulse for each bit, also with a slave that stretches the clock.
  \<^item> 1-wire: the ROM search finds every device, EEPROM writes are cut at page boundaries. Formatted output:
    numbers are laid out as the flags say and read back by \<^verbatim>\<open>atol\<close>. Kernel lists: every sequence of operations
    refines the same operations on sequences, and safe iteration allows deletion.
  \<^item> Shell: lines are split into their words and run in order, errors reported, by commands that leave the shell's own data alone. Lininoio: receive buffers are kept queued.
    USB: a descriptor request becomes a complete transfer, a new address waits for the status stage.
    ATmega USB: descriptors are answered in full to a host that takes every packet, a line coding is read back, writes arrive in order. Unix host: with memory that
    is cleared, descriptors below 255 and an event ring that does not fill up, no freed device is used and the idle function serves exactly the ready pipes. Serial lines: a write of the device layer goes out in full and in order, the nRF5x
    hands on what it receives in pieces that fit its buffer, the divisor of the STM32F4x gives the rate asked for. Network drivers: no buffer is lost between client, queue and
    driver, packets are sent once, and a failed open gives back what it took. Radio bridge: without overruns the
    master forwards the bytes it gets in order, in whole packets, each at its beacon.
  \<^item> Delays: on a steady clock the calibration ends and delays are as long as asked, up to a stated error. SPI slave: data
    bytes are received in order and enquiries answered from the transmit ring. PWM: periods and duties are read back
    through the MCUIO registers. Multiplexer: the console shows the boot messages until the switch byte. Ethernet: the
    initialisation sets up the chip, the bits of one register apart, and any later calls keep the set-up and the cached bank.
  \<^item> Errors of the code, each as a theorem on the model: negative shifts and drift, wrong handlers
    beyond 32 interrupts, overruns of the receive ring and of register ranges, calls past a table of
    operations, endless set operations, overwritten interrupt notifications, double frees of pipes,
    lost conversions of long integers, device codes that are never found, a shell that uses its freed buffer,
    an association that is never completed and starves its queue, a transmit buffer overwritten while it is sent,
    uses of a PWM timer that are counted for another one, a read pointer that loses its high byte, a register that a bit field does not reach, a clock that stops with the last pipe,
    a USB write that goes to the wrong endpoint, a serial line that refuses to send once it is enabled,
    a received packet that overwrites the one before, a wireless sender that stays one packet behind.

  \<^bold>\<open>Not modelled.\<close> The driver of the nRF5x radio, the start-up code and the clocks of \<^verbatim>\<open>arch-arm\<close>, \<^verbatim>\<open>arch-xtensa\<close>
  and \<^verbatim>\<open>arch-atmega\<close> are sequences of accesses to hardware registers whose effect the sources do not define; the start-up code
  and the calls that set up the station of the ESP8266 use a closed library, and its SPI master is left out; so is the unfinished asynchronous part of \<^verbatim>\<open>arch-unix/pipe.c\<close>. \<^verbatim>\<open>scripts/kconfig\<close>,
  \<^verbatim>\<open>scripts/basic\<close> and \<^verbatim>\<open>tools\<close> are vendored build tools and host utilities. The variants of the code for separate program memory
  and all debug output are left out.
\<close>

end
